(* ===== verification/Prelude.thy ===== *)
theory Prelude
  imports Main "HOL-Library.Word" "HOL-Library.Char_ord" "HOL-Library.List_Lexorder" "HOL-Library.AList"
begin

text \<open>
  Shared vocabulary of the development: the machine integers and instants of the Go sources,
  errors as values, the combinators that mirror Go's early returns, and the generic contract
  of a revision-fenced reducer that every aggregate of the kernel implements.
\<close>

section \<open>Machine integers, instants, identities\<close>

type_synonym u8 = "8 word"
type_synonym u32 = "32 word"
type_synonym u64 = "64 word"

text \<open>
  A \<^verbatim>\<open>time.Time\<close> is the number of nanoseconds since Go's zero time
  (0001-01-01T00:00:00Z). \<^verbatim>\<open>t.UTC()\<close> does not change the instant, so it is the
  identity here; \<^verbatim>\<open>IsZero\<close>, \<^verbatim>\<open>Before\<close> and \<^verbatim>\<open>After\<close> compare instants.
  A \<^verbatim>\<open>*time.Time\<close> is an option.
\<close>

type_synonym instant = int

abbreviation (input) zero_time :: instant where "zero_time \<equiv> 0"
abbreviation (input) IsZero :: "instant \<Rightarrow> bool" where "IsZero t \<equiv> t = 0"
abbreviation (input) Before :: "instant \<Rightarrow> instant \<Rightarrow> bool" where "Before a b \<equiv> a < b"
abbreviation (input) After :: "instant \<Rightarrow> instant \<Rightarrow> bool" where "After a b \<equiv> b < a"

section \<open>Errors as values\<close>

text \<open>
  The sentinel errors of the packages, and \<open>Errorf\<close> for an error made by
  \<^verbatim>\<open>errors.New\<close> or \<^verbatim>\<open>fmt.Errorf\<close> without a sentinel, with the fixed part of its
  message. Wrapping with \<^verbatim>\<open>%w\<close> keeps the sentinel, so a wrapped error is the sentinel.
  A validator that ranges over a Go map reports one error of the loop's kind, whichever
  entry the runtime visits first; the label of the entry is not part of the model.
  A run-time panic, such as a failed type assertion, is the error \<open>Panic\<close>.
\<close>

datatype package = ExecutionPkg | EffectPkg | RuntimePkg | StorePkg

datatype error =
    ErrInvalidTransition package
  | ErrRevisionConflict package
  | ErrLeaseConflict package
  | ErrClosureOpen
  | ErrCommandConflict
  | ErrReceiptConflict
  | ErrReconcileRequired
  | ErrEffectConflict
  | ErrFenceConflict
  | ErrNotFound
  | ErrIdentityConflict
  | ErrCorrupt
  | ErrLocked
  | ErrClosed
  | Panic string
  | Errorf string

type_synonym 'a result = "error + 'a"

text \<open>\<^verbatim>\<open>if cond { return err }\<close> inside a validator that returns \<^verbatim>\<open>error\<close>.\<close>

definition fail_if :: "bool \<Rightarrow> error \<Rightarrow> error option" where
  "fail_if b e = (if b then Some e else None)"

lemma fail_if_None [simp]: "fail_if b e = None \<longleftrightarrow> \<not> b"
  by (simp add: fail_if_def)

lemma fail_if_eval [simp]: "fail_if True e = Some e" "fail_if False e = None"
  by (simp_all add: fail_if_def)

text \<open>A sequence of checks: the first error wins, \<open>None\<close> is Go's nil.\<close>

fun first_error :: "error option list \<Rightarrow> error option" where
  "first_error [] = None"
| "first_error (None # xs) = first_error xs"
| "first_error (Some e # xs) = Some e"

lemma first_error_Cons_None [simp]:
  "first_error (x # xs) = None \<longleftrightarrow> x = None \<and> first_error xs = None"
  by (cases x) auto

lemma first_error_append [simp]:
  "first_error (xs @ ys) = None \<longleftrightarrow> first_error xs = None \<and> first_error ys = None"
  by (induction xs) auto

lemma first_error_map_None [simp]:
  "first_error (map f xs) = None \<longleftrightarrow> (\<forall>x \<in> set xs. f x = None)"
  by (induction xs) auto

text \<open>\<^verbatim>\<open>if err := check; err != nil { return T{}, err }\<close> before the rest of a function.\<close>

definition ensure :: "error option \<Rightarrow> 'a result \<Rightarrow> 'a result" where
  "ensure v k = (case v of Some e \<Rightarrow> Inl e | None \<Rightarrow> k)"

lemma ensure_simps [simp]: "ensure None k = k" "ensure (Some e) k = Inl e"
  by (simp_all add: ensure_def)

lemma ensure_Inr [simp]: "ensure v k = Inr x \<longleftrightarrow> v = None \<and> k = Inr x"
  by (cases v) auto

text \<open>\<^verbatim>\<open>x, err := f(); if err != nil { return T{}, err }\<close> before the rest.\<close>

definition andThen :: "'a result \<Rightarrow> ('a \<Rightarrow> 'b result) \<Rightarrow> 'b result" where
  "andThen r k = (case r of Inl e \<Rightarrow> Inl e | Inr x \<Rightarrow> k x)"

lemma andThen_simps [simp]: "andThen (Inl e) k = Inl e" "andThen (Inr x) k = k x"
  by (simp_all add: andThen_def)

lemma andThen_Inr [simp]: "andThen r k = Inr y \<longleftrightarrow> (\<exists>x. r = Inr x \<and> k x = Inr y)"
  by (cases r) auto

lemma andThen_assoc: "andThen (andThen r f) g = andThen r (\<lambda>x. andThen (f x) g)"
  by (cases r) simp_all

lemma andThen_ensure: "andThen (ensure v r) g = ensure v (andThen r g)"
  by (cases v) simp_all

text \<open>The error of a result, Go's second return value; used where only nil-ness matters.\<close>

definition err_of :: "'a result \<Rightarrow> error option" where
  "err_of r = (case r of Inl e \<Rightarrow> Some e | Inr _ \<Rightarrow> None)"

lemma err_of_simps [simp]: "err_of (Inl e) = Some e" "err_of (Inr x) = None"
  by (simp_all add: err_of_def)

lemma err_of_None [simp]: "err_of r = None \<longleftrightarrow> (\<exists>x. r = Inr x)"
  by (cases r) auto

section \<open>Unsigned counters\<close>

text \<open>
  A revision is a \<^verbatim>\<open>uint64\<close> that is incremented with wrap-around. Where the new value is
  checked to be non-zero, the increment did not wrap.
\<close>

lemma unat_succ_nonzero:
  fixes w :: "'a :: len word"
  assumes "w + 1 \<noteq> 0"
  shows "unat (w + 1) = Suc (unat w)"
  using assms by (metis add.commute unatSuc)

lemma unat_succ_bound:
  fixes w :: "'a :: len word"
  assumes "Suc (unat w) < 2 ^ LENGTH('a)"
  shows "unat (w + 1) = Suc (unat w)" and "w + 1 \<noteq> 0"
proof -
  show *: "unat (w + 1) = Suc (unat w)"
    using assms by (simp add: unat_word_ariths)
  show "w + 1 \<noteq> 0"
    using * by (metis nat.distinct(1) unat_0)
qed

section \<open>The contract of a revision-fenced reducer\<close>

text \<open>
  Every aggregate of the kernel (Run, Invocation ledger, Effect record, Runtime binding) is
  changed only by a reducer that takes the current state and a command carrying the revision
  the caller has seen. The locale states what such a reducer promises; what follows from it
  for arbitrary sequences of commands is proved once, here.
\<close>

fun fold_reduce :: "('s \<Rightarrow> 'c \<Rightarrow> 's result) \<Rightarrow> 's \<Rightarrow> 'c list \<Rightarrow> 's result" where
  "fold_reduce r s [] = Inr s"
| "fold_reduce r s (c # cs) = andThen (r s c) (\<lambda>t. fold_reduce r t cs)"

lemma fold_reduce_append:
  "fold_reduce r s (cs @ ds) = andThen (fold_reduce r s cs) (\<lambda>t. fold_reduce r t ds)"
proof (induction cs arbitrary: s)
  case Nil
  then show ?case by simp
next
  case (Cons c cs)
  then show ?case by (cases "r s c") simp_all
qed

locale cas_reducer =
  fixes valid :: "'s \<Rightarrow> bool"
    and revision :: "'s \<Rightarrow> u64"
    and expects :: "'c \<Rightarrow> u64"
    and reduce :: "'s \<Rightarrow> 'c \<Rightarrow> 's result"
  assumes fenced: "reduce s c = Inr t \<Longrightarrow> expects c = revision s"
    and steps: "reduce s c = Inr t \<Longrightarrow> revision t = revision s + 1"
    and keeps: "reduce s c = Inr t \<Longrightarrow> valid s \<Longrightarrow> revision s + 1 \<noteq> 0 \<Longrightarrow> valid t"
begin

lemma advances:
  "reduce s c = Inr t \<Longrightarrow> revision s + 1 \<noteq> 0 \<Longrightarrow> unat (revision t) = Suc (unat (revision s))"
  by (simp add: steps unat_succ_nonzero)

lemma fold_revision:
  assumes "fold_reduce reduce s cs = Inr t"
    and "unat (revision s) + length cs < 2 ^ 64"
  shows "unat (revision t) = unat (revision s) + length cs"
  using assms
proof (induction cs arbitrary: s)
  case Nil
  then show ?case by simp
next
  case (Cons c cs)
  then obtain u where u: "reduce s c = Inr u" and rest: "fold_reduce reduce u cs = Inr t"
    by auto
  have "Suc (unat (revision s)) < 2 ^ LENGTH(64)" using Cons.prems(2) by simp
  then have "unat (revision u) = Suc (unat (revision s))"
    using steps [OF u] unat_succ_bound(1) by metis
  with Cons.IH [OF rest] Cons.prems(2) show ?case by simp
qed

lemma fold_keeps:
  assumes "fold_reduce reduce s cs = Inr t" and "valid s"
    and "unat (revision s) + length cs < 2 ^ 64"
  shows "valid t"
  using assms
proof (induction cs arbitrary: s)
  case Nil
  then show ?case by simp
next
  case (Cons c cs)
  then obtain u where u: "reduce s c = Inr u" and rest: "fold_reduce reduce u cs = Inr t"
    by auto
  have b: "Suc (unat (revision s)) < 2 ^ LENGTH(64)" using Cons.prems(3) by simp
  have "valid u" using keeps [OF u Cons.prems(2)] unat_succ_bound(2) [OF b] by simp
  moreover have "unat (revision u) = Suc (unat (revision s))"
    using steps [OF u] unat_succ_bound(1) [OF b] by simp
  ultimately show ?case using Cons.IH [OF rest] Cons.prems(3) by simp
qed

text \<open>
  A fence that was consumed, or was already stale, is never accepted again: after at least
  one accepted command no command carrying the old revision is accepted.
\<close>

lemma stale_rejected:
  assumes "fold_reduce reduce s cs = Inr t" and "cs \<noteq> []"
    and "unat (revision s) + length cs < 2 ^ 64"
    and "expects c = revision s"
  shows "reduce t c \<noteq> Inr u"
proof
  assume "reduce t c = Inr u"
  then have "revision t = revision s" using fenced assms(4) by simp
  with fold_revision [OF assms(1,3)] assms(2) show False by simp
qed

text \<open>In a sequence of accepted commands no two carry the same expected revision.\<close>

lemma fold_distinct_fences:
  assumes "fold_reduce reduce s cs = Inr t"
    and "unat (revision s) + length cs < 2 ^ 64"
  shows "map (\<lambda>c. unat (expects c)) cs = [unat (revision s) ..< unat (revision s) + length cs]"
  using assms
proof (induction cs arbitrary: s)
  case Nil
  then show ?case by simp
next
  case (Cons c cs)
  then obtain u where u: "reduce s c = Inr u" and rest: "fold_reduce reduce u cs = Inr t"
    by auto
  have b: "Suc (unat (revision s)) < 2 ^ LENGTH(64)" using Cons.prems(2) by simp
  have ru: "unat (revision u) = Suc (unat (revision s))"
    using steps [OF u] unat_succ_bound(1) [OF b] by simp
  have "map (\<lambda>c. unat (expects c)) cs = [unat (revision u) ..< unat (revision u) + length cs]"
    by (rule Cons.IH [OF rest]) (use ru Cons.prems(2) in simp)
  then have "map (\<lambda>c. unat (expects c)) (c # cs) =
      unat (revision s) # [Suc (unat (revision s)) ..< Suc (unat (revision s)) + length cs]"
    using fenced [OF u] ru by (simp del: upt_Suc)
  then show ?case by (simp add: upt_conv_Cons del: upt_Suc)
qed

end

end
