(* ===== verification/Go_Text.thy ===== *)
theory Go_Text
  imports Prelude
begin

text \<open>
  The parts of the Go standard library that the sources use on text. A Go string is a
  sequence of bytes and a \<open>char\<close> of HOL is a byte, so a Go string is a HOL
  \<open>string\<close>; \<^verbatim>\<open>len(s)\<close> is \<open>length s\<close> and Go's string order is the
  lexicographic order of bytes.
\<close>

section \<open>UTF-8\<close>

abbreviation byte_val :: "char \<Rightarrow> nat" where "byte_val c \<equiv> of_char c"

definition in_range :: "nat \<Rightarrow> nat \<Rightarrow> char \<Rightarrow> bool" where
  "in_range lo hi c \<longleftrightarrow> lo \<le> byte_val c \<and> byte_val c \<le> hi"

text \<open>
  The number of bytes of the UTF-8 encoded rune at the head of the string, 0 when the head is
  not the start of a valid encoding (package unicode/utf8: overlong forms, surrogates and code
  points above U+10FFFF are invalid). \<open>second_byte\<close> is the range the first byte leaves to
  the second.
\<close>

definition second_byte :: "char \<Rightarrow> char \<Rightarrow> bool" where
  "second_byte b c = in_range
     (if byte_val b = 224 then 160 else if byte_val b = 240 then 144 else 128)
     (if byte_val b = 237 then 159 else if byte_val b = 244 then 143 else 191) c"

fun rune_len :: "string \<Rightarrow> nat" where
  "rune_len [] = 0"
| "rune_len (b # r) =
     (if in_range 0 127 b then 1
      else if in_range 194 223 b then
        (case r of c # _ \<Rightarrow> if second_byte b c then 2 else 0 | _ \<Rightarrow> 0)
      else if in_range 224 239 b then
        (case r of c # d # _ \<Rightarrow> if second_byte b c \<and> in_range 128 191 d then 3 else 0 | _ \<Rightarrow> 0)
      else if in_range 240 244 b then
        (case r of c # d # e # _ \<Rightarrow>
            if second_byte b c \<and> in_range 128 191 d \<and> in_range 128 191 e then 4 else 0
         | _ \<Rightarrow> 0)
      else 0)"

lemma second_byte_high: "second_byte b c \<Longrightarrow> 128 \<le> byte_val c"
  by (auto simp: second_byte_def in_range_def split: if_splits)

text \<open>A rune at the head of a string depends on its own bytes only.\<close>

lemma rune_split:
  assumes "rune_len s \<noteq> 0"
  obtains p r where "s = p @ r" "length p = rune_len s" "\<And>r'. rune_len (p @ r') = rune_len s"
    "rune_len s \<noteq> 1 \<Longrightarrow> \<forall>c \<in> set p. 128 \<le> byte_val c"
proof -
  obtain b t where s: "s = b # t" using assms by (cases s) auto
  consider (one) "in_range 0 127 b" | (two) c u where "\<not> in_range 0 127 b" "in_range 194 223 b" "t = c # u" "second_byte b c"
    | (three) c d u where "\<not> in_range 0 127 b" "\<not> in_range 194 223 b" "in_range 224 239 b" "t = c # d # u"
        "second_byte b c" "in_range 128 191 d"
    | (four) c d e u where "\<not> in_range 0 127 b" "\<not> in_range 194 223 b" "\<not> in_range 224 239 b" "in_range 240 244 b"
        "t = c # d # e # u" "second_byte b c" "in_range 128 191 d" "in_range 128 191 e"
    using assms s by (auto split: list.splits if_splits)
  then show ?thesis
  proof cases
    case one
    show ?thesis by (rule that [of "[b]" t]) (use s one in simp_all)
  next
    case two
    show ?thesis
      by (rule that [of "[b, c]" u]) (use s two second_byte_high [of b c] in \<open>auto simp: in_range_def [of 194]\<close>)
  next
    case three
    show ?thesis
      by (rule that [of "[b, c, d]" u])
        (use s three second_byte_high [of b c] in \<open>auto simp: in_range_def [of 224] in_range_def [of 128]\<close>)
  next
    case four
    show ?thesis
      by (rule that [of "[b, c, d, e]" u])
        (use s four second_byte_high [of b c] in \<open>auto simp: in_range_def [of 240] in_range_def [of 128]\<close>)
  qed
qed

lemma rune_len_le: "rune_len s \<le> length s"
proof (cases "rune_len s = 0")
  case False
  then obtain p r where "s = p @ r" "length p = rune_len s" using rune_split by metis
  then show ?thesis by (metis le_add1 length_append)
qed simp

function utf8_valid :: "string \<Rightarrow> bool" where
  "utf8_valid s =
     (if s = [] then True else if rune_len s = 0 then False else utf8_valid (drop (rune_len s) s))"
  by pat_completeness auto
termination
  by (relation "measure length") (use rune_len_le in \<open>auto simp: not_le\<close>)

declare utf8_valid.simps [simp del]

text \<open>ASCII text is valid UTF-8.\<close>

definition ascii :: "char \<Rightarrow> bool" where
  "ascii c \<longleftrightarrow> byte_val c < 128"

lemma rune_len_ascii: "ascii c \<Longrightarrow> rune_len (c # s) = 1"
  by (simp add: ascii_def in_range_def)

lemma utf8_valid_Nil [simp]: "utf8_valid []"
  by (simp add: utf8_valid.simps)

lemma utf8_valid_ascii_Cons [simp]: "ascii c \<Longrightarrow> utf8_valid (c # s) \<longleftrightarrow> utf8_valid s"
  by (subst utf8_valid.simps) (simp add: rune_len_ascii del: rune_len.simps)

lemma utf8_valid_ascii: "list_all ascii s \<Longrightarrow> utf8_valid s"
  by (induction s) auto

section \<open>White space\<close>

text \<open>
  The UTF-8 encodings of the runes that \<^verbatim>\<open>unicode.IsSpace\<close> accepts:
  U+0009 to U+000D, U+0020, U+0085, U+00A0, U+1680, U+2000 to U+200A, U+2028, U+2029,
  U+202F, U+205F and U+3000.
\<close>

definition space_runes :: "nat list list" where
  "space_runes =
     [[9], [10], [11], [12], [13], [32], [194, 133], [194, 160], [225, 154, 128],
      [226, 128, 128], [226, 128, 129], [226, 128, 130], [226, 128, 131], [226, 128, 132],
      [226, 128, 133], [226, 128, 134], [226, 128, 135], [226, 128, 136], [226, 128, 137],
      [226, 128, 138], [226, 128, 168], [226, 128, 169], [226, 128, 175], [226, 129, 159],
      [227, 128, 128]]"

text \<open>\<^verbatim>\<open>strings.TrimSpace(s) == s\<close>: neither the first nor the last rune is white space.\<close>

definition trimmed :: "string \<Rightarrow> bool" where
  "trimmed s \<longleftrightarrow>
     (\<forall>r \<in> set space_runes. take (length r) (map byte_val s) \<noteq> r
        \<and> take (length r) (rev (map byte_val s)) \<noteq> rev r)"

lemma trimmedI:
  assumes "s \<noteq> []" and "33 \<le> byte_val (hd s)" and "byte_val (hd s) < 128"
    and "33 \<le> byte_val (last s)" and "byte_val (last s) < 128"
  shows "trimmed s"
proof -
  obtain c t where s: "s = c # t" using assms(1) by (cases s) auto
  obtain u d where s': "rev s = d # u" using assms(1) by (metis rev.simps(1) neq_Nil_conv rev_rev_ident)
  have hd: "33 \<le> byte_val c" "byte_val c < 128" using assms s by auto
  have ls: "33 \<le> byte_val d" "byte_val d < 128"
    using assms s' by (metis last_rev list.sel(1) rev_rev_ident)+
  have "map byte_val s = byte_val c # map byte_val t" using s by simp
  moreover have "rev (map byte_val s) = byte_val d # map byte_val u" using s' by (simp add: rev_map)
  ultimately show ?thesis
    using hd ls by (auto simp: trimmed_def space_runes_def)
qed

section \<open>Decimal and hexadecimal text\<close>

definition digit_char :: "nat \<Rightarrow> char" where
  "digit_char d = ''0123456789'' ! d"

fun decimal_nat :: "nat \<Rightarrow> string" where
  "decimal_nat n = (if n < 10 then [digit_char n] else decimal_nat (n div 10) @ [digit_char (n mod 10)])"

declare decimal_nat.simps [simp del]

text \<open>Zero-padded decimal of a fixed width, as the time layouts print.\<close>

fun padded :: "nat \<Rightarrow> nat \<Rightarrow> string" where
  "padded 0 n = []"
| "padded (Suc w) n = padded w (n div 10) @ [digit_char (n mod 10)]"

lemma padded_numeral [simp]:
  "padded (numeral k) n = padded (pred_numeral k) (n div 10) @ [digit_char (n mod 10)]"
  using padded.simps(2) [of "pred_numeral k" n] by (simp only: numeral_eq_Suc [of k])

lemma padded_one [simp]: "padded 1 n = [digit_char (n mod 10)]"
  by (simp only: One_nat_def padded.simps append_Nil)

definition decimal_u64 :: "u64 \<Rightarrow> string" where "decimal_u64 w = decimal_nat (unat w)"
definition decimal_u32 :: "u32 \<Rightarrow> string" where "decimal_u32 w = decimal_nat (unat w)"

text \<open>\<^verbatim>\<open>hex.EncodeToString\<close>: two lower-case digits per byte.\<close>

definition hex_char :: "nat \<Rightarrow> char" where
  "hex_char d = ''0123456789abcdef'' ! d"

definition hex_byte :: "u8 \<Rightarrow> string" where
  "hex_byte b = [hex_char (unat b div 16), hex_char (unat b mod 16)]"

definition EncodeToString :: "u8 list \<Rightarrow> string" where
  "EncodeToString bs = concat (map hex_byte bs)"

definition is_hex :: "char \<Rightarrow> bool" where
  "is_hex c \<longleftrightarrow> in_range 48 57 c \<or> in_range 97 102 c"

lemma is_hex_hex_char: "d < 16 \<Longrightarrow> is_hex (hex_char d)"
proof -
  have "list_all is_hex ''0123456789abcdef''"
    by (simp add: is_hex_def in_range_def)
  moreover have "length ''0123456789abcdef'' = 16" by simp
  ultimately show "d < 16 \<Longrightarrow> is_hex (hex_char d)"
    unfolding hex_char_def by (metis list_all_length)
qed

lemma unat_u8_div16: "unat (b :: u8) div 16 < 16"
  using unsigned_less [of b, where ?'a = nat] by simp

lemma EncodeToString_hex: "list_all is_hex (EncodeToString bs)"
  by (induction bs) (auto simp: EncodeToString_def hex_byte_def unat_u8_div16 intro!: is_hex_hex_char)

lemma EncodeToString_length [simp]: "length (EncodeToString bs) = 2 * length bs"
  by (induction bs) (auto simp: EncodeToString_def hex_byte_def)

definition string_bytes :: "string \<Rightarrow> u8 list" where
  "string_bytes s = map (\<lambda>c. word_of_nat (byte_val c)) s"

section \<open>RFC 3339 timestamps\<close>

text \<open>
  \<^verbatim>\<open>Time.MarshalJSON\<close> of an instant in UTC: layout RFC3339Nano in quotes, an error when
  the year is outside 0..9999. The civil date of a day number follows the proleptic
  Gregorian calendar; day 0 is 0001-01-01. The computation shifts the year to start in March.
\<close>

definition year_of_era :: "int \<Rightarrow> int" where
  "year_of_era doe = (doe - doe div 1460 + doe div 36524 - doe div 146096) div 365"

definition day_of_year :: "int \<Rightarrow> int \<Rightarrow> int" where
  "day_of_year doe yoe = doe - (365 * yoe + yoe div 4 - yoe div 100)"

definition civil_date :: "int \<Rightarrow> int \<Rightarrow> int \<Rightarrow> int \<times> int \<times> int" where
  "civil_date y mp doy =
     (if mp < 10 then (y, mp + 3, doy - (153 * mp + 2) div 5 + 1)
      else (y + 1, mp - 9, doy - (153 * mp + 2) div 5 + 1))"

definition civil_of_year :: "int \<Rightarrow> int \<Rightarrow> int \<times> int \<times> int" where
  "civil_of_year y doy = civil_date y ((5 * doy + 2) div 153) doy"

definition civil_of_era :: "int \<Rightarrow> int \<Rightarrow> int \<Rightarrow> int \<times> int \<times> int" where
  "civil_of_era era doe yoe = civil_of_year (yoe + era * 400) (day_of_year doe yoe)"

definition civil_of_days :: "int \<Rightarrow> int \<times> int \<times> int" where
  "civil_of_days d =
     civil_of_era ((d + 306) div 146097) ((d + 306) mod 146097) (year_of_era ((d + 306) mod 146097))"

lemmas civil_defs =
  civil_of_days_def civil_of_era_def civil_of_year_def civil_date_def day_of_year_def year_of_era_def

fun drop_trailing_zeros :: "string \<Rightarrow> string" where
  "drop_trailing_zeros s = rev (dropWhile (\<lambda>c. c = CHR ''0'') (rev s))"

definition fraction_text :: "nat \<Rightarrow> string" where
  "fraction_text ns = (if ns = 0 then [] else CHR ''.'' # drop_trailing_zeros (padded 9 ns))"

definition date_text :: "int \<times> int \<times> int \<Rightarrow> string" where
  "date_text ymd = padded 4 (nat (fst ymd)) @ ''-'' @ padded 2 (nat (fst (snd ymd))) @ ''-'' @
     padded 2 (nat (snd (snd ymd)))"

definition clock_text :: "nat \<Rightarrow> string" where
  "clock_text sod = padded 2 (sod div 3600) @ '':'' @ padded 2 (sod mod 3600 div 60) @ '':'' @
     padded 2 (sod mod 60)"

definition rfc3339 :: "instant \<Rightarrow> string" where
  "rfc3339 t =
     date_text (civil_of_days (t div 1000000000 div 86400)) @ ''T'' @
     clock_text (nat (t div 1000000000 mod 86400)) @ fraction_text (nat (t mod 1000000000)) @ ''Z''"

definition marshalable_time :: "instant \<Rightarrow> bool" where
  "marshalable_time t \<longleftrightarrow>
     0 \<le> fst (civil_of_days (t div 1000000000 div 86400))
     \<and> fst (civil_of_days (t div 1000000000 div 86400)) \<le> 9999"

lemmas rfc3339_defs =
  rfc3339_def date_text_def clock_text_def fraction_text_def civil_defs digit_char_def

lemma rfc3339_zero: "rfc3339 zero_time = ''0001-01-01T00:00:00Z''"
  by (simp add: rfc3339_defs)

lemma rfc3339_sample: "rfc3339 63922089600500000000 = ''2026-08-12T00:00:00.5Z''"
  by (simp add: rfc3339_defs)

end
