(* ===== verification/Sha256.thy ===== *)
theory Sha256
  imports Go_Text
begin

text \<open>
  The hash of \<^verbatim>\<open>crypto/sha256\<close> (FIPS 180-4), over bytes, as an executable function on
  32-bit words. Content identities, stable identities and frame checksums of the sources are
  all this function, so the development uses it rather than an unknown parameter. What the
  proofs need of it is its output length.
\<close>

unbundle bit_operations_syntax

text \<open>The 64 round constants, first 32 bits of the fractional parts of cube roots of primes, in decimal.\<close>

definition round_constants :: "u32 list" where
  "round_constants = [1116352408, 1899447441, 3049323471, 3921009573, 961987163, 1508970993, 2453635748,
     2870763221, 3624381080, 310598401, 607225278, 1426881987, 1925078388, 2162078206,
     2614888103, 3248222580, 3835390401, 4022224774, 264347078, 604807628, 770255983,
     1249150122, 1555081692, 1996064986, 2554220882, 2821834349, 2952996808, 3210313671,
     3336571891, 3584528711, 113926993, 338241895, 666307205, 773529912, 1294757372,
     1396182291, 1695183700, 1986661051, 2177026350, 2456956037, 2730485921, 2820302411,
     3259730800, 3345764771, 3516065817, 3600352804, 4094571909, 275423344, 430227734,
     506948616, 659060556, 883997877, 958139571, 1322822218, 1537002063, 1747873779,
     1955562222, 2024104815, 2227730452, 2361852424, 2428436474, 2756734187, 3204031479,
     3329325298]"

definition rotr32 :: "nat \<Rightarrow> u32 \<Rightarrow> u32" where
  "rotr32 n x = drop_bit n x OR push_bit (32 - n) x"

definition big_sigma0 :: "u32 \<Rightarrow> u32" where
  "big_sigma0 x = rotr32 2 x XOR rotr32 13 x XOR rotr32 22 x"
definition big_sigma1 :: "u32 \<Rightarrow> u32" where
  "big_sigma1 x = rotr32 6 x XOR rotr32 11 x XOR rotr32 25 x"
definition small_sigma0 :: "u32 \<Rightarrow> u32" where
  "small_sigma0 x = rotr32 7 x XOR rotr32 18 x XOR drop_bit 3 x"
definition small_sigma1 :: "u32 \<Rightarrow> u32" where
  "small_sigma1 x = rotr32 17 x XOR rotr32 19 x XOR drop_bit 10 x"
definition choose32 :: "u32 \<Rightarrow> u32 \<Rightarrow> u32 \<Rightarrow> u32" where
  "choose32 e f g = (e AND f) XOR (NOT e AND g)"
definition majority32 :: "u32 \<Rightarrow> u32 \<Rightarrow> u32 \<Rightarrow> u32" where
  "majority32 a b c = (a AND b) XOR (a AND c) XOR (b AND c)"

text \<open>
  The message schedule: the last sixteen words, most recent first, and the words produced so
  far; each step appends one word.
\<close>

definition next_word :: "u32 list \<Rightarrow> u32" where
  "next_word w = small_sigma1 (w ! 1) + w ! 6 + small_sigma0 (w ! 14) + w ! 15"

fun extend_schedule :: "nat \<Rightarrow> u32 list \<Rightarrow> u32 list" where
  "extend_schedule 0 w = w"
| "extend_schedule (Suc n) w = extend_schedule n (next_word w # w)"

type_synonym sha_state = "u32 \<times> u32 \<times> u32 \<times> u32 \<times> u32 \<times> u32 \<times> u32 \<times> u32"

definition sha_round :: "u32 \<Rightarrow> u32 \<Rightarrow> sha_state \<Rightarrow> sha_state" where
  "sha_round t1 t2 s = (case s of (a, b, c, d, e, f, g, h) \<Rightarrow> (t1 + t2, a, b, c, d + t1, e, f, g))"

definition sha_step :: "u32 \<times> u32 \<Rightarrow> sha_state \<Rightarrow> sha_state" where
  "sha_step kw s = (case s of (a, b, c, d, e, f, g, h) \<Rightarrow>
     sha_round (h + big_sigma1 e + choose32 e f g + fst kw + snd kw)
       (big_sigma0 a + majority32 a b c) s)"

definition add_state :: "sha_state \<Rightarrow> sha_state \<Rightarrow> sha_state" where
  "add_state s t = (case s of (a, b, c, d, e, f, g, h) \<Rightarrow> case t of (a', b', c', d', e', f', g', h') \<Rightarrow>
     (a + a', b + b', c + c', d + d', e + e', f + f', g + g', h + h'))"

definition compress_block :: "u32 list \<Rightarrow> sha_state \<Rightarrow> sha_state" where
  "compress_block ws s =
     add_state s (fold sha_step (zip round_constants (rev (extend_schedule 48 (rev ws)))) s)"

definition initial_state :: sha_state where
  "initial_state = (1779033703, 3144134277, 1013904242, 2773480762, 1359893119, 2600822924, 528734635, 1541459225)"

definition word_of_bytes :: "u8 list \<Rightarrow> u32" where
  "word_of_bytes bs = fold (\<lambda>b w. push_bit 8 w OR ucast b) bs 0"

definition bytes_of_word :: "u32 \<Rightarrow> u8 list" where
  "bytes_of_word w = [ucast (drop_bit 24 w), ucast (drop_bit 16 w), ucast (drop_bit 8 w), ucast w]"

fun words_of_bytes :: "u8 list \<Rightarrow> u32 list" where
  "words_of_bytes (a # b # c # d # r) = word_of_bytes [a, b, c, d] # words_of_bytes r"
| "words_of_bytes r = []"

text \<open>Big-endian bytes of a number, for the length field of the padding.\<close>

fun be_bytes :: "nat \<Rightarrow> nat \<Rightarrow> u8 list" where
  "be_bytes 0 n = []"
| "be_bytes (Suc w) n = be_bytes w (n div 256) @ [word_of_nat n]"

definition sha_pad :: "u8 list \<Rightarrow> u8 list" where
  "sha_pad m = m @ [0x80] @ replicate ((119 - length m mod 64) mod 64) 0 @ be_bytes 8 (8 * length m)"

function absorb :: "u32 list \<Rightarrow> sha_state \<Rightarrow> sha_state" where
  "absorb ws s = (if length ws < 16 then s else absorb (drop 16 ws) (compress_block (take 16 ws) s))"
  by pat_completeness auto
termination
  by (relation "measure (\<lambda>(ws, s). length ws)") auto

declare absorb.simps [simp del]

definition state_bytes :: "sha_state \<Rightarrow> u8 list" where
  "state_bytes s = (case s of (a, b, c, d, e, f, g, h) \<Rightarrow>
     concat (map bytes_of_word [a, b, c, d, e, f, g, h]))"

definition Sum256 :: "u8 list \<Rightarrow> u8 list" where
  "Sum256 m = state_bytes (absorb (words_of_bytes (sha_pad m)) initial_state)"

lemma length_Sum256 [simp]: "length (Sum256 m) = 32"
  by (simp add: Sum256_def state_bytes_def bytes_of_word_def split: prod.split)

lemma length_be_bytes [simp]: "length (be_bytes w n) = w"
  by (induction w arbitrary: n) auto

end
