(* ===== verification/Canonical_Json.thy ===== *)
theory Canonical_Json
  imports Sha256 "HOL-Library.Multiset"
begin

text \<open>
  Package kernel/canonicaljson: the bounded, deterministic JSON profile behind every content
  identity. A JSON text is a byte string; a decoded value is the datatype \<open>json\<close>, where a
  number keeps its spelling (\<^verbatim>\<open>json.Number\<close>) and an object is the list of its members.
  \<^verbatim>\<open>json.Decoder.Token\<close>, \<^verbatim>\<open>More\<close> and \<^verbatim>\<open>json.Marshal\<close> are the standard
  library's; \<open>state_value\<close>, \<open>state_object\<close> and \<open>state_array\<close> consume the same
  tokens in the same order, with the unread input passed along explicitly.
\<close>

datatype json = JNull | JBool bool | JNum string | JStr string
  | JArr "json list" | JObj "(string \<times> json) list"

section \<open>Limits\<close>

record Limits =
  MaxInputBytes :: int
  MaxCanonicalBytes :: int
  MaxDepth :: int
  MaxNodes :: int
  MaxStringBytes :: int
  MaxExponent :: int

definition DefaultLimits :: Limits where
  "DefaultLimits = \<lparr>MaxInputBytes = 1048576, MaxCanonicalBytes = 1048576, MaxDepth = 128,
     MaxNodes = 100000, MaxStringBytes = 1048576, MaxExponent = 10000\<rparr>"

definition Limits_validate :: "Limits \<Rightarrow> error option" where
  "Limits_validate l = fail_if
     (MaxInputBytes l \<le> 0 \<or> MaxCanonicalBytes l \<le> 0 \<or> MaxDepth l \<le> 0 \<or>
      MaxNodes l \<le> 0 \<or> MaxStringBytes l \<le> 0 \<or> MaxExponent l \<le> 0)
     (Errorf ''canonical JSON limits must all be positive'')"

section \<open>Surrogate escapes\<close>

definition hex_val :: "char \<Rightarrow> nat option" where
  "hex_val c =
     (if in_range 48 57 c then Some (byte_val c - 48)
      else if in_range 97 102 c then Some (byte_val c - 97 + 10)
      else if in_range 65 70 c then Some (byte_val c - 65 + 10)
      else None)"

text \<open>
  Four hexadecimal digits; the \<^verbatim>\<open>uint16\<close> accumulator of the source holds any four.
\<close>

fun hex4 :: "string \<Rightarrow> nat option" where
  "hex4 (a # b # c # d # r) =
     (case (hex_val a, hex_val b, hex_val c, hex_val d) of
        (Some w, Some x, Some y, Some z) \<Rightarrow> Some (((w * 16 + x) * 16 + y) * 16 + z)
      | _ \<Rightarrow> None)"
| "hex4 _ = None"

text \<open>\<^verbatim>\<open>unicodeEscape(raw, start)\<close>, on the suffix of the input from \<^verbatim>\<open>start\<close>.\<close>

fun unicodeEscape :: "string \<Rightarrow> nat option" where
  "unicodeEscape (a # b # r) = (if a = CHR 0x5C \<and> b = CHR ''u'' then hex4 r else None)"
| "unicodeEscape _ = None"

definition high_surrogate :: "nat \<Rightarrow> bool" where
  "high_surrogate u \<longleftrightarrow> 0xd800 \<le> u \<and> u \<le> 0xdbff"

definition low_surrogate :: "nat \<Rightarrow> bool" where
  "low_surrogate u \<longleftrightarrow> 0xdc00 \<le> u \<and> u \<le> 0xdfff"

fun rejectUnpairedSurrogates :: "bool \<Rightarrow> string \<Rightarrow> error option" where
  "rejectUnpairedSurrogates inside [] = None"
| "rejectUnpairedSurrogates inside (c # r) =
     (if c = CHR 0x22 then rejectUnpairedSurrogates (\<not> inside) r
      else if c \<noteq> CHR 0x5C then rejectUnpairedSurrogates inside r
      else if \<not> inside \<or> r = [] then rejectUnpairedSurrogates inside r
      else if hd r \<noteq> CHR ''u'' then rejectUnpairedSurrogates inside (tl r)
      else case unicodeEscape (c # r) of
          None \<Rightarrow> rejectUnpairedSurrogates inside r
        | Some u \<Rightarrow>
            if low_surrogate u then Some (Errorf ''JSON string contains an unpaired low surrogate'')
            else if high_surrogate u then
              (case unicodeEscape (drop 5 r) of
                 None \<Rightarrow> Some (Errorf ''JSON string contains an unpaired high surrogate'')
               | Some v \<Rightarrow>
                   if \<not> low_surrogate v then Some (Errorf ''JSON string contains an unpaired high surrogate'')
                   else rejectUnpairedSurrogates inside (drop 11 r))
            else rejectUnpairedSurrogates inside (drop 5 r))"

section \<open>The tokens of encoding/json\<close>

definition json_space :: "char \<Rightarrow> bool" where
  "json_space c \<longleftrightarrow> c = CHR 0x20 \<or> c = CHR 0x09 \<or> c = CHR 0x0A \<or> c = CHR 0x0D"

definition skip_space :: "string \<Rightarrow> string" where
  "skip_space s = dropWhile json_space s"

definition is_digit :: "char \<Rightarrow> bool" where
  "is_digit c \<longleftrightarrow> in_range 48 57 c"

definition utf8_encode :: "nat \<Rightarrow> string" where
  "utf8_encode u =
     (if u < 0x80 then [char_of u]
      else if u < 0x800 then [char_of (0xc0 + u div 64), char_of (0x80 + u mod 64)]
      else if u < 0x10000 then
        [char_of (0xe0 + u div 4096), char_of (0x80 + u div 64 mod 64), char_of (0x80 + u mod 64)]
      else [char_of (0xf0 + u div 262144), char_of (0x80 + u div 4096 mod 64),
            char_of (0x80 + u div 64 mod 64), char_of (0x80 + u mod 64)])"

definition join_surrogates :: "nat \<Rightarrow> nat \<Rightarrow> nat" where
  "join_surrogates h l = 0x10000 + (h - 0xd800) * 1024 + (l - 0xdc00)"

definition simple_escape :: "char \<Rightarrow> char option" where
  "simple_escape e =
     (if e = CHR 0x22 \<or> e = CHR 0x5C \<or> e = CHR ''/'' then Some e
      else if e = CHR ''b'' then Some (CHR 0x08)
      else if e = CHR ''f'' then Some (CHR 0x0C)
      else if e = CHR ''n'' then Some (CHR 0x0A)
      else if e = CHR ''r'' then Some (CHR 0x0D)
      else if e = CHR ''t'' then Some (CHR 0x09)
      else None)"

definition prefix_text :: "string \<Rightarrow> (string \<times> string) option \<Rightarrow> (string \<times> string) option" where
  "prefix_text p r = (case r of None \<Rightarrow> None | Some (t, rest) \<Rightarrow> Some (p @ t, rest))"

text \<open>
  The content of a string literal after its opening quote, and the input after its closing
  quote. An escaped surrogate that is not paired becomes U+FFFD, as encoding/json has it.
\<close>

function string_body :: "string \<Rightarrow> (string \<times> string) option" where
  "string_body s = (case s of [] \<Rightarrow> None | c # r \<Rightarrow>
     (if c = CHR 0x22 then Some ([], r)
      else if c = CHR 0x5C then
        (case r of [] \<Rightarrow> None | e # r' \<Rightarrow>
           if e = CHR ''u'' then
             (case hex4 r' of None \<Rightarrow> None | Some u \<Rightarrow>
                if high_surrogate u then
                  (case unicodeEscape (drop 4 r') of
                     Some v \<Rightarrow> if low_surrogate v
                       then prefix_text (utf8_encode (join_surrogates u v)) (string_body (drop 10 r'))
                       else prefix_text (utf8_encode 0xfffd) (string_body (drop 4 r'))
                   | None \<Rightarrow> prefix_text (utf8_encode 0xfffd) (string_body (drop 4 r')))
                else if low_surrogate u
                  then prefix_text (utf8_encode 0xfffd) (string_body (drop 4 r'))
                else prefix_text (utf8_encode u) (string_body (drop 4 r')))
           else (case simple_escape e of None \<Rightarrow> None | Some x \<Rightarrow> prefix_text [x] (string_body r')))
      else if byte_val c < 0x20 then None
      else prefix_text [c] (string_body r)))"
  by pat_completeness auto
termination
  by (relation "measure length") auto

declare string_body.simps [simp del]

text \<open>The longest prefix that is a number literal, and the input after it.\<close>

definition digits_of :: "string \<Rightarrow> string \<times> string" where
  "digits_of s = (takeWhile is_digit s, dropWhile is_digit s)"

definition number_int :: "string \<Rightarrow> (string \<times> string) option" where
  "number_int s = (case s of [] \<Rightarrow> None | c # r \<Rightarrow>
     if c = CHR ''0'' then Some ([c], r) else if is_digit c then Some (digits_of s) else None)"

definition number_fraction :: "string \<Rightarrow> (string \<times> string) option" where
  "number_fraction s = (case s of [] \<Rightarrow> Some ([], []) | c # r \<Rightarrow>
     if c \<noteq> CHR ''.'' then Some ([], s)
     else if fst (digits_of r) = [] then None
     else Some (c # fst (digits_of r), snd (digits_of r)))"

definition exponent_sign :: "string \<Rightarrow> string \<times> string" where
  "exponent_sign s = (case s of [] \<Rightarrow> ([], []) | c # r \<Rightarrow>
     if c = CHR ''+'' \<or> c = CHR ''-'' then ([c], r) else ([], s))"

definition number_exponent :: "string \<Rightarrow> (string \<times> string) option" where
  "number_exponent s = (case s of [] \<Rightarrow> Some ([], []) | c # r \<Rightarrow>
     if c \<noteq> CHR ''e'' \<and> c \<noteq> CHR ''E'' then Some ([], s)
     else if fst (digits_of (snd (exponent_sign r))) = [] then None
     else Some (c # fst (exponent_sign r) @ fst (digits_of (snd (exponent_sign r))),
                snd (digits_of (snd (exponent_sign r)))))"

definition number_unsigned :: "string \<Rightarrow> (string \<times> string) option" where
  "number_unsigned s = (case number_int s of None \<Rightarrow> None | Some (i, r) \<Rightarrow>
     (case number_fraction r of None \<Rightarrow> None | Some (f, r') \<Rightarrow>
       (case number_exponent r' of None \<Rightarrow> None | Some (e, r'') \<Rightarrow> Some (i @ f @ e, r''))))"

definition number_token :: "string \<Rightarrow> (string \<times> string) option" where
  "number_token s = (case s of [] \<Rightarrow> None | c # r \<Rightarrow>
     if c = CHR ''-'' then prefix_text [c] (number_unsigned r) else number_unsigned s)"

fun strip_literal :: "string \<Rightarrow> string \<Rightarrow> string option" where
  "strip_literal [] s = Some s"
| "strip_literal (p # ps) [] = None"
| "strip_literal (p # ps) (c # s) = (if p = c then strip_literal ps s else None)"

section \<open>Numbers\<close>

definition decimalDigits :: "string \<Rightarrow> bool" where
  "decimalDigits s \<longleftrightarrow> s \<noteq> [] \<and> list_all is_digit s"

definition digits_value :: "string \<Rightarrow> int" where
  "digits_value s = fold (\<lambda>c n. 10 * n + int (byte_val c - 48)) s 0"

text \<open>\<^verbatim>\<open>strconv.Atoi\<close>: an optional sign, digits, and a value of a 64-bit \<^verbatim>\<open>int\<close>.\<close>

definition Atoi_digits :: "bool \<Rightarrow> string \<Rightarrow> int option" where
  "Atoi_digits neg ds =
     (if \<not> decimalDigits ds then None
      else if neg then (if digits_value ds \<le> 9223372036854775808 then Some (- digits_value ds) else None)
      else (if digits_value ds \<le> 9223372036854775807 then Some (digits_value ds) else None))"

definition Atoi :: "string \<Rightarrow> int option" where
  "Atoi s = (case s of [] \<Rightarrow> None | c # r \<Rightarrow>
     if c = CHR ''-'' then Atoi_digits True r
     else if c = CHR ''+'' then Atoi_digits False r else Atoi_digits False s)"

definition trim_right_zeros :: "string \<Rightarrow> string" where
  "trim_right_zeros s = rev (dropWhile (\<lambda>c. c = CHR ''0'') (rev s))"

definition trim_point :: "string \<Rightarrow> string" where
  "trim_point s = (if s \<noteq> [] \<and> last s = CHR ''.'' then butlast s else s)"

definition trim_number :: "string \<Rightarrow> string" where
  "trim_number s = (if CHR ''.'' \<in> set s then trim_point (trim_right_zeros s) else s)"

text \<open>
  The last part of \<open>normalizeNumber\<close>: from the significant digits (no leading zero) and the
  scale to plain notation, and the sign and length check at the end.
\<close>

definition plain_notation :: "string \<Rightarrow> int \<Rightarrow> Limits \<Rightarrow> string result" where
  "plain_notation digits scale l =
     (if scale \<le> 0 then
        ensure (fail_if (- scale > MaxCanonicalBytes l - int (length digits))
                  (Errorf ''canonical JSON number is too large''))
          (Inr (digits @ replicate (nat (- scale)) (CHR ''0'')))
      else if int (length digits) - scale > 0 then
        Inr (take (nat (int (length digits) - scale)) digits @ ''.'' @
             drop (nat (int (length digits) - scale)) digits)
      else
        ensure (fail_if (scale - int (length digits) > MaxCanonicalBytes l - int (length digits) - 2)
                  (Errorf ''canonical JSON number is too large''))
          (Inr (''0.'' @ replicate (nat (scale - int (length digits))) (CHR ''0'') @ digits)))"

definition finish_number :: "bool \<Rightarrow> Limits \<Rightarrow> string \<Rightarrow> string result" where
  "finish_number negative l s =
     ensure (fail_if (int (length (if negative then CHR ''-'' # trim_number s else trim_number s))
                        > MaxCanonicalBytes l)
               (Errorf ''canonical JSON number is too large''))
       (Inr (if negative then CHR ''-'' # trim_number s else trim_number s))"

definition normalize_digits :: "bool \<Rightarrow> string \<Rightarrow> int \<Rightarrow> Limits \<Rightarrow> string result" where
  "normalize_digits negative digits scale l =
     (if digits = [] then Inr ''0''
      else andThen (plain_notation digits scale l) (finish_number negative l))"

definition normalize_mantissa :: "bool \<Rightarrow> string \<Rightarrow> string \<Rightarrow> int \<Rightarrow> Limits \<Rightarrow> string result" where
  "normalize_mantissa negative integer fraction exponent l =
     ensure (fail_if (integer = [] \<or> (length integer > 1 \<and> hd integer = CHR ''0'') \<or>
                      \<not> decimalDigits integer \<or> (fraction \<noteq> [] \<and> \<not> decimalDigits fraction))
               (Errorf ''invalid JSON number''))
       (normalize_digits negative (dropWhile (\<lambda>c. c = CHR ''0'') (integer @ fraction))
          (int (length fraction) - exponent) l)"

definition is_point :: "char \<Rightarrow> bool" where "is_point c \<longleftrightarrow> c = CHR ''.''"
definition is_exponent_marker :: "char \<Rightarrow> bool" where
  "is_exponent_marker c \<longleftrightarrow> c = CHR ''e'' \<or> c = CHR ''E''"

text \<open>The text before and after the first character that satisfies \<open>p\<close>.\<close>

definition before_mark :: "(char \<Rightarrow> bool) \<Rightarrow> string \<Rightarrow> string" where
  "before_mark p s = takeWhile (\<lambda>c. \<not> p c) s"
definition after_mark :: "(char \<Rightarrow> bool) \<Rightarrow> string \<Rightarrow> string" where
  "after_mark p s = tl (dropWhile (\<lambda>c. \<not> p c) s)"

definition number_exponent_value :: "string \<Rightarrow> int option" where
  "number_exponent_value s =
     (if list_ex is_exponent_marker s then Atoi (after_mark is_exponent_marker s) else Some 0)"

definition normalize_unsigned :: "bool \<Rightarrow> string \<Rightarrow> Limits \<Rightarrow> string result" where
  "normalize_unsigned negative s l =
     (case number_exponent_value s of
        None \<Rightarrow> Inl (Errorf ''invalid JSON number exponent'')
      | Some e \<Rightarrow>
          if e > MaxExponent l \<or> e < - MaxExponent l then Inl (Errorf ''JSON number exponent exceeds'')
          else normalize_mantissa negative
                 (before_mark is_point (before_mark is_exponent_marker s))
                 (after_mark is_point (before_mark is_exponent_marker s)) e l)"

definition normalizeNumber :: "string \<Rightarrow> Limits \<Rightarrow> string result" where
  "normalizeNumber s l = (case s of [] \<Rightarrow> Inl (Errorf ''empty JSON number'') | c # r \<Rightarrow>
     if c = CHR ''-'' then normalize_unsigned True r l else normalize_unsigned False s l)"

section \<open>Decoding\<close>

text \<open>
  The next significant byte of the input after a separator that the token state requires:
  nothing, a comma or a colon.
\<close>

definition after_separator :: "char option \<Rightarrow> string \<Rightarrow> string option" where
  "after_separator sep s =
     (case sep of
        None \<Rightarrow> Some (skip_space s)
      | Some c \<Rightarrow> (case skip_space s of [] \<Rightarrow> None
                   | x # r \<Rightarrow> if x = c then Some (skip_space r) else None))"

text \<open>A string, number, boolean or null at the head of the input.\<close>

definition decode_string :: "Limits \<Rightarrow> int \<Rightarrow> string \<Rightarrow> (json \<times> int \<times> string) result" where
  "decode_string l nodes r =
     (case string_body r of
        None \<Rightarrow> Inl (Errorf ''invalid JSON token'')
      | Some (t, rest) \<Rightarrow>
          if int (length t) > MaxStringBytes l then Inl (Errorf ''JSON string exceeds'')
          else Inr (JStr t, nodes, rest))"

definition decode_number :: "Limits \<Rightarrow> int \<Rightarrow> string \<Rightarrow> (json \<times> int \<times> string) result" where
  "decode_number l nodes s =
     (case number_token s of
        None \<Rightarrow> Inl (Errorf ''invalid JSON token'')
      | Some (t, rest) \<Rightarrow> andThen (normalizeNumber t l) (\<lambda>_. Inr (JNum t, nodes, rest)))"

definition decode_literal :: "json \<Rightarrow> string \<Rightarrow> int \<Rightarrow> string \<Rightarrow> (json \<times> int \<times> string) result" where
  "decode_literal v lit nodes s =
     (case strip_literal lit s of
        None \<Rightarrow> Inl (Errorf ''invalid JSON token'')
      | Some rest \<Rightarrow> Inr (v, nodes, rest))"

definition decode_scalar :: "Limits \<Rightarrow> int \<Rightarrow> string \<Rightarrow> (json \<times> int \<times> string) result" where
  "decode_scalar l nodes s =
     (if hd s = CHR 0x22 then decode_string l nodes (tl s)
      else if hd s = CHR ''t'' then decode_literal (JBool True) ''true'' nodes s
      else if hd s = CHR ''f'' then decode_literal (JBool False) ''false'' nodes s
      else if hd s = CHR ''n'' then decode_literal JNull ''null'' nodes s
      else decode_number l nodes s)"

text \<open>The key token of an object member.\<close>

definition decode_key :: "Limits \<Rightarrow> char option \<Rightarrow> string \<Rightarrow> (string \<times> string) result" where
  "decode_key l sep s =
     (case after_separator sep s of
        None \<Rightarrow> Inl (Errorf ''invalid JSON token'')
      | Some r \<Rightarrow>
          if r = [] \<or> hd r \<noteq> CHR 0x22 then Inl (Errorf ''invalid JSON token'')
          else (case string_body (tl r) of
              None \<Rightarrow> Inl (Errorf ''invalid JSON token'')
            | Some (k, rest) \<Rightarrow>
                if int (length k) > MaxStringBytes l then Inl (Errorf ''JSON object key exceeds'')
                else Inr (k, rest)))"

text \<open>
  What is being read: a value after the separator that the token state requires
  (\<^verbatim>\<open>state.value\<close>), or the rest of an object or array after the members or items read so
  far (the loops of \<^verbatim>\<open>state.object\<close> and \<^verbatim>\<open>state.array\<close>). The three steps take the
  decoder of the parts as an argument; \<open>decode\<close> ties the knot with one unit of fuel per
  call. \<open>Decode\<close> supplies twice the input's length and two, and every call but the last
  one of a loop reads at least one byte, so the fuel never runs out.
\<close>

datatype reading = Value_After "char option" | Object_After "(string \<times> json) list" | Array_After "json list"

type_synonym decoded = "(json \<times> int \<times> string) result"
type_synonym part_decoder = "reading \<Rightarrow> int \<Rightarrow> int \<Rightarrow> string \<Rightarrow> decoded"

definition value_token :: "part_decoder \<Rightarrow> Limits \<Rightarrow> int \<Rightarrow> int \<Rightarrow> string \<Rightarrow> decoded" where
  "value_token part l depth nodes r =
     (if r = [] then Inl (Errorf ''invalid JSON token'')
      else if hd r = CHR ''{'' then part (Object_After []) depth nodes (tl r)
      else if hd r = CHR ''['' then part (Array_After []) depth nodes (tl r)
      else decode_scalar l nodes r)"

definition state_value :: "part_decoder \<Rightarrow> Limits \<Rightarrow> char option \<Rightarrow> int \<Rightarrow> int \<Rightarrow> string \<Rightarrow> decoded" where
  "state_value part l sep depth nodes s =
     (if depth > MaxDepth l then Inl (Errorf ''JSON nesting exceeds depth'')
      else if nodes + 1 > MaxNodes l then Inl (Errorf ''JSON value exceeds nodes'')
      else case after_separator sep s of
          None \<Rightarrow> Inl (Errorf ''invalid JSON token'')
        | Some r \<Rightarrow> value_token part l depth (nodes + 1) r)"

definition state_object ::
  "part_decoder \<Rightarrow> Limits \<Rightarrow> (string \<times> json) list \<Rightarrow> int \<Rightarrow> int \<Rightarrow> string \<Rightarrow> decoded" where
  "state_object part l acc depth nodes s =
     (if skip_space s = [] \<or> hd (skip_space s) = CHR '']'' then Inl (Errorf ''unterminated JSON object'')
      else if hd (skip_space s) = CHR ''}'' then Inr (JObj acc, nodes, tl (skip_space s))
      else andThen (decode_key l (if acc = [] then None else Some (CHR '','')) s) (\<lambda>(k, r).
        ensure (fail_if (k \<in> set (map fst acc)) (Errorf ''duplicate JSON object member''))
        (andThen (part (Value_After (Some (CHR '':''))) (depth + 1) nodes r) (\<lambda>(v, nodes', r').
           part (Object_After (acc @ [(k, v)])) depth nodes' r'))))"

definition state_array ::
  "part_decoder \<Rightarrow> json list \<Rightarrow> int \<Rightarrow> int \<Rightarrow> string \<Rightarrow> decoded" where
  "state_array part acc depth nodes s =
     (if skip_space s = [] \<or> hd (skip_space s) = CHR ''}'' then Inl (Errorf ''unterminated JSON array'')
      else if hd (skip_space s) = CHR '']'' then Inr (JArr acc, nodes, tl (skip_space s))
      else andThen (part (Value_After (if acc = [] then None else Some (CHR '',''))) (depth + 1) nodes s)
        (\<lambda>(v, nodes', r'). part (Array_After (acc @ [v])) depth nodes' r'))"

primrec decode :: "nat \<Rightarrow> Limits \<Rightarrow> part_decoder" where
  "decode 0 l reading depth nodes s = Inl (Errorf ''out of fuel'')"
| "decode (Suc n) l reading depth nodes s =
     (case reading of
        Value_After sep \<Rightarrow> state_value (decode n l) l sep depth nodes s
      | Object_After acc \<Rightarrow> state_object (decode n l) l acc depth nodes s
      | Array_After acc \<Rightarrow> state_array (decode n l) acc depth nodes s)"

definition Decode :: "string \<Rightarrow> Limits \<Rightarrow> json result" where
  "Decode raw l =
     ensure (Limits_validate l) (
     ensure (fail_if (int (length raw) > MaxInputBytes l) (Errorf ''JSON input exceeds'')) (
     ensure (fail_if (\<not> utf8_valid raw) (Errorf ''JSON input is not valid UTF-8'')) (
     ensure (rejectUnpairedSurrogates False raw) (
     andThen (decode (2 * length raw + 2) l (Value_After None) 1 0 raw) (\<lambda>(v, nodes, rest).
       if skip_space rest = [] then Inr v else Inl (Errorf ''trailing JSON data''))))))"

section \<open>Printing\<close>

definition escape_char :: "char \<Rightarrow> string" where
  "escape_char c =
     (if c = CHR 0x22 \<or> c = CHR 0x5C then [CHR 0x5C, c]
      else if c = CHR 0x08 then [CHR 0x5C, CHR ''b'']
      else if c = CHR 0x0C then [CHR 0x5C, CHR ''f'']
      else if c = CHR 0x0A then [CHR 0x5C, CHR ''n'']
      else if c = CHR 0x0D then [CHR 0x5C, CHR ''r'']
      else if c = CHR 0x09 then [CHR 0x5C, CHR ''t'']
      else if byte_val c < 0x20 then
        [CHR 0x5C, CHR ''u'', CHR ''0'', CHR ''0'', hex_char (byte_val c div 16), hex_char (byte_val c mod 16)]
      else [c])"

definition appendString :: "string \<Rightarrow> string \<Rightarrow> string" where
  "appendString output value = output @ [CHR 0x22] @ concat (map escape_char value) @ [CHR 0x22]"

lemma size_member_sort [termination_simp]:
  "size_list (size_prod (\<lambda>_. 0) size) (sort_key fst kvs)
     = size_list (size_prod (\<lambda>_. 0) size) (kvs :: (string \<times> json) list)"
proof -
  have "sum_list (map g (sort_key fst kvs)) = sum_list (map g kvs)" for g :: "string \<times> json \<Rightarrow> nat"
    by (metis mset_map mset_sort sum_mset_sum_list)
  then show ?thesis by (simp add: size_list_conv_sum_list)
qed

text \<open>
  \<open>appendValue\<close> writes to the end of a buffer; \<open>appendItems\<close> and \<open>appendMembers\<close>
  are its loops over an array and over the sorted keys of an object, \<open>first\<close> telling
  whether a comma has to be written.
\<close>

definition bounded_output :: "Limits \<Rightarrow> string \<Rightarrow> string result" where
  "bounded_output l output =
     (if int (length output) > MaxCanonicalBytes l then Inl (Errorf ''canonical JSON exceeds'') else Inr output)"

function appendValue :: "Limits \<Rightarrow> string \<Rightarrow> json \<Rightarrow> string result"
and appendItems :: "Limits \<Rightarrow> bool \<Rightarrow> string \<Rightarrow> json list \<Rightarrow> string result"
and appendMembers :: "Limits \<Rightarrow> bool \<Rightarrow> string \<Rightarrow> (string \<times> json) list \<Rightarrow> string result"
where
  "appendValue l output JNull = bounded_output l (output @ ''null'')"
| "appendValue l output (JBool b) = bounded_output l (output @ (if b then ''true'' else ''false''))"
| "appendValue l output (JStr t) = bounded_output l (appendString output t)"
| "appendValue l output (JNum t) =
     andThen (normalizeNumber t l) (\<lambda>n. bounded_output l (output @ n))"
| "appendValue l output (JArr vs) =
     andThen (appendItems l True (output @ ''['') vs) (\<lambda>o'. bounded_output l (o' @ '']''))"
| "appendValue l output (JObj kvs) =
     andThen (appendMembers l True (output @ ''{'') (sort_key fst kvs)) (\<lambda>o'. bounded_output l (o' @ ''}''))"
| "appendItems l first output [] = Inr output"
| "appendItems l first output (v # vs) =
     andThen (appendValue l (if first then output else output @ '','') v) (\<lambda>o'. appendItems l False o' vs)"
| "appendMembers l first output [] = Inr output"
| "appendMembers l first output ((k, v) # kvs) =
     andThen (appendValue l (appendString (if first then output else output @ '','') k @ '':'') v)
       (\<lambda>o'. appendMembers l False o' kvs)"
  by pat_completeness auto
termination
  by (relation "measure (\<lambda>x. case x of Inl (l, out, v) \<Rightarrow> size v
        | Inr (Inl (l, f, out, vs)) \<Rightarrow> size_list size vs
        | Inr (Inr (l, f, out, kvs)) \<Rightarrow> size_list (size_prod (\<lambda>_. 0) size) kvs)")
     (auto simp: size_member_sort)

definition CanonicalizeWithLimits :: "string \<Rightarrow> Limits \<Rightarrow> string result" where
  "CanonicalizeWithLimits raw l =
     andThen (Decode raw l) (\<lambda>v. andThen (appendValue l [] v) (bounded_output l))"

definition Canonicalize :: "string \<Rightarrow> string result" where
  "Canonicalize raw = CanonicalizeWithLimits raw DefaultLimits"

section \<open>Digests\<close>

text \<open>
  \<^verbatim>\<open>json.Marshal\<close> of a value that has been converted to \<open>json\<close>: members of a map in
  key order, strings with the HTML escapes of encoding/json, invalid UTF-8 as U+FFFD. The
  members of a struct are written in the order of its fields instead; the canonical text
  that is made of the output sorts them, so the model sorts both.
\<close>

definition marshal_rune :: "string \<Rightarrow> string" where
  "marshal_rune r =
     (if length r = 1 then
        (if hd r = CHR ''<'' \<or> hd r = CHR ''>'' \<or> hd r = CHR ''&'' then
           [CHR 0x5C, CHR ''u'', CHR ''0'', CHR ''0'',
            hex_char (byte_val (hd r) div 16), hex_char (byte_val (hd r) mod 16)]
         else escape_char (hd r))
      else if map byte_val r = [226, 128, 168] then CHR 0x5C # ''u2028''
      else if map byte_val r = [226, 128, 169] then CHR 0x5C # ''u2029''
      else r)"

function marshal_text :: "string \<Rightarrow> string" where
  "marshal_text s =
     (if s = [] then []
      else if rune_len s = 0 then CHR 0x5C # ''ufffd'' @ marshal_text (tl s)
      else marshal_rune (take (rune_len s) s) @ marshal_text (drop (rune_len s) s))"
  by pat_completeness auto
termination
  by (relation "measure length") (use rune_len_le in \<open>auto simp: not_le\<close>)

declare marshal_text.simps [simp del]

definition marshal_string :: "string \<Rightarrow> string" where
  "marshal_string s = [CHR 0x22] @ marshal_text s @ [CHR 0x22]"

fun comma_separated :: "string list \<Rightarrow> string" where
  "comma_separated [] = []"
| "comma_separated [x] = x"
| "comma_separated (x # y # r) = x @ '','' @ comma_separated (y # r)"

text \<open>A printer of values, given how strings and numbers are written.\<close>

lemma size_member [termination_simp]:
  "kv \<in> set kvs \<Longrightarrow> size (snd kv) < Suc (size_list (size_prod (\<lambda>_. 0) size) (kvs :: (string \<times> json) list))"
  using size_list_estimation' [of kv kvs "size_prod (\<lambda>_. 0) size kv" "size_prod (\<lambda>_. 0) size"]
  by (cases kv) simp

fun print_json :: "(string \<Rightarrow> string) \<Rightarrow> (string \<Rightarrow> string) \<Rightarrow> json \<Rightarrow> string" where
  "print_json str num JNull = ''null''"
| "print_json str num (JBool b) = (if b then ''true'' else ''false'')"
| "print_json str num (JNum t) = num t"
| "print_json str num (JStr t) = str t"
| "print_json str num (JArr vs) = ''['' @ comma_separated (map (print_json str num) vs) @ '']''"
| "print_json str num (JObj kvs) = ''{'' @ comma_separated
     (map (\<lambda>kv. str (fst kv) @ '':'' @ print_json str num (snd kv)) (sort_key fst kvs)) @ ''}''"

definition json_Marshal :: "json \<Rightarrow> string" where
  "json_Marshal v = print_json marshal_string (\<lambda>t. t) v"

definition MarshalWithLimits :: "json \<Rightarrow> Limits \<Rightarrow> string result" where
  "MarshalWithLimits v l = CanonicalizeWithLimits (json_Marshal v) l"

definition Marshal :: "json \<Rightarrow> string result" where
  "Marshal v = MarshalWithLimits v DefaultLimits"

definition sha256_text :: "string \<Rightarrow> string" where
  "sha256_text s = ''sha256:'' @ EncodeToString (Sum256 (string_bytes s))"

definition Digest :: "string \<Rightarrow> string result" where
  "Digest raw = andThen (Canonicalize raw) (\<lambda>c. Inr (sha256_text c))"

definition DigestValue :: "json \<Rightarrow> string result" where
  "DigestValue v = andThen (Marshal v) (\<lambda>c. Inr (sha256_text c))"

end
