(* ===== verification/Json_Roundtrip.thy ===== *)
theory Json_Roundtrip
  imports Canonical_Json
begin

text \<open>
  What the decoder of the canonical profile makes of printed values. Both printers of the
  sources, encoding/json and \<open>appendValue\<close>, are instances of one locale; inside it the
  decoder is shown to return the value that was printed.
\<close>

section \<open>Texts that keep the scanners' state\<close>

text \<open>
  \<open>neutral x\<close>: reading \<open>x\<close> outside a string literal changes neither the UTF-8
  validator's nor the surrogate scanner's state.
\<close>

definition neutral :: "string \<Rightarrow> bool" where
  "neutral x \<longleftrightarrow> (\<forall>r. utf8_valid (x @ r) = utf8_valid r) \<and>
     (\<forall>r. rejectUnpairedSurrogates False (x @ r) = rejectUnpairedSurrogates False r)"

lemma neutral_Nil [simp]: "neutral []"
  by (simp add: neutral_def)

lemma neutral_append: "neutral x \<Longrightarrow> neutral y \<Longrightarrow> neutral (x @ y)"
  by (simp add: neutral_def)

definition plain_char :: "char \<Rightarrow> bool" where
  "plain_char c \<longleftrightarrow> ascii c \<and> c \<noteq> CHR 0x22"

lemma neutral_plain: "list_all plain_char x \<Longrightarrow> neutral x"
proof (induction x)
  case (Cons c x)
  have "neutral [c]"
    using Cons.prems by (auto simp: neutral_def plain_char_def)
  then show ?case using neutral_append [of "[c]" x] Cons by simp
qed simp

lemma neutral_concat: "(\<forall>x \<in> set xs. neutral x) \<Longrightarrow> neutral (concat xs)"
  by (induction xs) (auto intro: neutral_append)

lemma neutral_ends: "neutral x \<Longrightarrow> utf8_valid x \<and> rejectUnpairedSurrogates False x = None"
proof -
  assume n: "neutral x"
  have "utf8_valid (x @ []) = utf8_valid []"
    "rejectUnpairedSurrogates False (x @ []) = rejectUnpairedSurrogates False []"
    using n unfolding neutral_def by blast+
  then show ?thesis by simp
qed

section \<open>String bodies\<close>

text \<open>
  \<open>encodes b t\<close>: after an opening quote, \<open>b\<close> (with its closing quote) is read as the
  string \<open>t\<close>, and the scanners are outside a literal again.
\<close>

definition encodes :: "string \<Rightarrow> string \<Rightarrow> bool" where
  "encodes b t \<longleftrightarrow> (\<forall>r. string_body (b @ r) = Some (t, r)) \<and> (\<forall>r. utf8_valid (b @ r) = utf8_valid r) \<and>
     (\<forall>r. rejectUnpairedSurrogates True (b @ r) = rejectUnpairedSurrogates False r)"

lemma encodes_quote: "encodes [CHR 0x22] []"
  by (simp add: encodes_def string_body.simps ascii_def)

lemma encodes_neutral: "encodes b t \<Longrightarrow> neutral (CHR 0x22 # b)"
  by (simp add: encodes_def neutral_def ascii_def)

text \<open>The unit of the proofs: one escaped or literal piece in front of an encoded text.\<close>

definition piece :: "string \<Rightarrow> string \<Rightarrow> bool" where
  "piece p c \<longleftrightarrow> (\<forall>r. string_body (p @ r) = prefix_text c (string_body r)) \<and>
     (\<forall>r. utf8_valid (p @ r) = utf8_valid r) \<and>
     (\<forall>r. rejectUnpairedSurrogates True (p @ r) = rejectUnpairedSurrogates True r)"

lemma piece_encodes: "piece p c \<Longrightarrow> encodes b t \<Longrightarrow> encodes (p @ b) (c @ t)"
  by (simp add: piece_def encodes_def prefix_text_def)

lemma piece_simple:
  assumes "simple_escape e = Some x"
  shows "piece [CHR 0x5C, e] [x]"
proof -
  have e: "e \<noteq> CHR ''u''" "ascii e" using assms by (auto simp: simple_escape_def ascii_def split: if_splits)
  have b: "ascii (CHR 0x5C)" by (simp add: ascii_def)
  show ?thesis using assms e b by (simp add: piece_def string_body.simps [of "CHR 0x5C # e # _"])
qed

lemma piece_literal:
  assumes "ascii c" and "32 \<le> byte_val c" and "c \<noteq> CHR 0x22" and "c \<noteq> CHR 0x5C"
  shows "piece [c] [c]"
  using assms by (simp add: piece_def string_body.simps [of "c # _"])

lemma hex4_append: "hex4 (h @ r) = hex4 h" if "length h = 4"
proof -
  have "length h = Suc (Suc (Suc (Suc 0)))" using that by simp
  then obtain a b c d where "h = [a, b, c, d]" by (auto simp: length_Suc_conv)
  then show ?thesis by simp
qed

lemma piece_unicode:
  assumes "length h = 4" and "list_all ascii h" and "hex4 h = Some u"
    and "\<not> high_surrogate u" and "\<not> low_surrogate u"
  shows "piece (CHR 0x5C # CHR ''u'' # h) (utf8_encode u)"
proof -
  have u8: "utf8_valid (h @ r) = utf8_valid r" for r
    using assms(2) by (induction h) auto
  have "ascii (CHR 0x5C)" "ascii (CHR ''u'')" by (simp_all add: ascii_def)
  with assms u8 show ?thesis
    by (simp add: piece_def string_body.simps [of "CHR 0x5C # _"] hex4_append)
qed

lemma hex_val_hex_char: "d < 16 \<Longrightarrow> hex_val (hex_char d) = Some d \<and> ascii (hex_char d)"
proof -
  have "\<forall>d \<in> set [0..<16]. hex_val (hex_char d) = Some d \<and> ascii (hex_char d)"
    by (simp add: hex_val_def hex_char_def in_range_def ascii_def upt_rec)
  then show "d < 16 \<Longrightarrow> hex_val (hex_char d) = Some d \<and> ascii (hex_char d)" by simp
qed

lemma piece_control:
  assumes "byte_val c < 128"
  shows "piece [CHR 0x5C, CHR ''u'', CHR ''0'', CHR ''0'', hex_char (byte_val c div 16), hex_char (byte_val c mod 16)] [c]"
proof -
  have d: "byte_val c div 16 < 16" "byte_val c mod 16 < (16::nat)" using assms by auto
  have z: "hex_val (CHR ''0'') = Some 0" "ascii (CHR ''0'')" by (simp_all add: hex_val_def in_range_def ascii_def)
  have "hex4 [CHR ''0'', CHR ''0'', hex_char (byte_val c div 16), hex_char (byte_val c mod 16)] = Some (byte_val c)"
    using hex_val_hex_char [OF d(1)] hex_val_hex_char [OF d(2)] z by simp
  from piece_unicode [OF _ _ this] show ?thesis
    using hex_val_hex_char [OF d(1)] hex_val_hex_char [OF d(2)] z assms
    by (simp add: high_surrogate_def low_surrogate_def utf8_encode_def)
qed

text \<open>A rune of several bytes, written as it is.\<close>

lemma rune_take:
  assumes "rune_len s \<noteq> 0"
  shows "rune_len (take (rune_len s) s @ r) = rune_len s"
    and "rune_len s \<noteq> 1 \<Longrightarrow> \<forall>c \<in> set (take (rune_len s) s). 128 \<le> byte_val c"
  using rune_split [OF assms] by (metis append_eq_conv_conj)+

lemma high_byte_scan:
  "\<forall>c \<in> set p. 128 \<le> byte_val c \<Longrightarrow> string_body (p @ r) = prefix_text p (string_body r) \<and>
     rejectUnpairedSurrogates True (p @ r) = rejectUnpairedSurrogates True r"
proof (induction p)
  case Nil
  show ?case by (simp add: prefix_text_def split: option.split)
next
  case (Cons c p)
  have "128 \<le> byte_val c" using Cons.prems by simp
  then have c: "c \<noteq> CHR 0x22" "c \<noteq> CHR 0x5C" "\<not> byte_val c < 32" by auto
  show ?case
    using Cons c by (simp add: string_body.simps [of "c # _"] prefix_text_def split: option.split)
qed

lemma piece_rune:
  assumes "rune_len s \<noteq> 0" and "rune_len s \<noteq> 1"
  shows "piece (take (rune_len s) s) (take (rune_len s) s)"
proof -
  define p where "p = take (rune_len s) s"
  have ne: "p @ r \<noteq> []" "drop (rune_len s) (p @ r) = r" for r
    using assms(1) rune_len_le [of s] by (auto simp: p_def)
  have "utf8_valid (p @ r) = utf8_valid r" for r
    using ne [of r] rune_take(1) [OF assms(1), of r] assms(1)
    by (subst utf8_valid.simps) (simp add: p_def)
  moreover have "\<forall>c \<in> set p. 128 \<le> byte_val c"
    using rune_take(2) [OF assms] by (simp add: p_def)
  ultimately show ?thesis
    using high_byte_scan unfolding piece_def p_def by blast
qed

text \<open>Induction over the runes of valid UTF-8.\<close>

lemma rune_one: "rune_len (c # r) = 1 \<Longrightarrow> ascii c"
  by (auto simp: ascii_def in_range_def [of 0] split: if_splits list.splits)

lemma utf8_induct [consumes 1, case_names Nil Ascii Rune]:
  assumes "utf8_valid s" and "P []"
    and "\<And>c s. ascii c \<Longrightarrow> utf8_valid s \<Longrightarrow> P s \<Longrightarrow> P (c # s)"
    and "\<And>s. rune_len s \<noteq> 0 \<Longrightarrow> rune_len s \<noteq> 1 \<Longrightarrow> utf8_valid (drop (rune_len s) s) \<Longrightarrow>
           P (drop (rune_len s) s) \<Longrightarrow> P s"
  shows "P s"
  using assms(1)
proof (induction "length s" arbitrary: s rule: less_induct)
  case less
  show ?case
  proof (cases s)
    case Nil
    then show ?thesis using assms(2) by simp
  next
    case (Cons c r)
    have nz: "rune_len s \<noteq> 0" and rest: "utf8_valid (drop (rune_len s) s)"
      using less.prems Cons by (metis list.distinct(1) utf8_valid.simps)+
    have P_rest: "P (drop (rune_len s) s)"
      using less.hyps [OF _ rest] nz Cons rune_len_le [of s] by simp
    show ?thesis
    proof (cases "rune_len s = 1")
      case True
      then have "ascii c" using Cons rune_one by blast
      with True rest P_rest Cons assms(3) show ?thesis by simp
    next
      case False
      with nz rest P_rest assms(4) show ?thesis by blast
    qed
  qed
qed

lemma escape_char_ascii:
  assumes "ascii c"
  shows "piece (escape_char c) [c]"
proof (cases "\<exists>e. simple_escape e = Some c \<and> escape_char c = [CHR 0x5C, e]")
  case True
  then show ?thesis using piece_simple by auto
next
  case False
  have q: "simple_escape (CHR 0x22) = Some (CHR 0x22)" "simple_escape (CHR 0x5C) = Some (CHR 0x5C)"
    "simple_escape (CHR ''b'') = Some (CHR 0x08)" "simple_escape (CHR ''f'') = Some (CHR 0x0C)"
    "simple_escape (CHR ''n'') = Some (CHR 0x0A)" "simple_escape (CHR ''r'') = Some (CHR 0x0D)"
    "simple_escape (CHR ''t'') = Some (CHR 0x09)"
    by (simp_all add: simple_escape_def)
  have ne: "c \<noteq> CHR 0x22" "c \<noteq> CHR 0x5C" "c \<noteq> CHR 0x08" "c \<noteq> CHR 0x0C" "c \<noteq> CHR 0x0A" "c \<noteq> CHR 0x0D" "c \<noteq> CHR 0x09"
    using False q by (auto simp: escape_char_def)
  show ?thesis
  proof (cases "byte_val c < 32")
    case True
    then show ?thesis using ne piece_control [of c] assms by (simp add: escape_char_def ascii_def)
  next
    case False
    then show ?thesis using ne piece_literal [OF assms] by (simp add: escape_char_def)
  qed
qed

lemma escape_char_high:
  assumes "128 \<le> byte_val c"
  shows "escape_char c = [c]"
proof -
  have "c \<noteq> CHR 0x22" "c \<noteq> CHR 0x5C" "c \<noteq> CHR 0x08" "c \<noteq> CHR 0x0C" "c \<noteq> CHR 0x0A" "c \<noteq> CHR 0x0D" "c \<noteq> CHR 0x09"
    "\<not> byte_val c < 32"
    using assms by auto
  then show ?thesis by (simp add: escape_char_def)
qed

lemma escape_high: "\<forall>c \<in> set p. 128 \<le> byte_val c \<Longrightarrow> concat (map escape_char p) = p"
  by (induction p) (auto simp: escape_char_high)

text \<open>The string printer of \<open>appendValue\<close>.\<close>

lemma appendString_encodes:
  "utf8_valid t \<Longrightarrow> encodes (concat (map escape_char t) @ [CHR 0x22]) t"
proof (induction rule: utf8_induct)
  case Nil
  then show ?case by (simp add: encodes_quote)
next
  case (Ascii c s)
  then show ?case using piece_encodes [OF escape_char_ascii] by fastforce
next
  case (Rune s)
  have split: "s = take (rune_len s) s @ drop (rune_len s) s" by simp
  have "concat (map escape_char (take (rune_len s) s)) = take (rune_len s) s"
    using escape_high rune_take(2) [OF Rune(1,2)] by blast
  then have "concat (map escape_char s) = take (rune_len s) s @ concat (map escape_char (drop (rune_len s) s))"
    by (metis concat_append map_append split)
  then show ?case
    using piece_encodes [OF piece_rune [OF Rune(1,2)] Rune(4)] by simp
qed

text \<open>The string printer of encoding/json.\<close>

lemma map_char_of_byte_val: "map char_of (map byte_val p) = p"
  by (induction p) auto

lemma marshal_rune_ascii: "ascii c \<Longrightarrow> piece (marshal_rune [c]) [c]"
  using escape_char_ascii [of c] piece_control [of c] by (auto simp: marshal_rune_def ascii_def)

lemma marshal_rune_high:
  assumes "rune_len s \<noteq> 0" and "rune_len s \<noteq> 1"
  shows "piece (marshal_rune (take (rune_len s) s)) (take (rune_len s) s)"
proof -
  define p where "p = take (rune_len s) s"
  have len: "length p \<noteq> 1" using assms rune_len_le [of s] by (simp add: p_def)
  consider "map byte_val p = [226, 128, 168]" | "map byte_val p = [226, 128, 169]"
    | "map byte_val p \<noteq> [226, 128, 168]" "map byte_val p \<noteq> [226, 128, 169]" by blast
  then show ?thesis
  proof cases
    case 1
    then have "p = map char_of [226, 128, 168 :: nat]" by (metis map_char_of_byte_val)
    moreover have "piece (CHR 0x5C # ''u2028'') (utf8_encode 0x2028)"
      by (rule piece_unicode) (simp_all add: hex_val_def in_range_def ascii_def high_surrogate_def low_surrogate_def)
    ultimately show ?thesis
      using 1 len by (simp add: p_def [symmetric] marshal_rune_def utf8_encode_def)
  next
    case 2
    then have "p = map char_of [226, 128, 169 :: nat]" by (metis map_char_of_byte_val)
    moreover have "piece (CHR 0x5C # ''u2029'') (utf8_encode 0x2029)"
      by (rule piece_unicode) (simp_all add: hex_val_def in_range_def ascii_def high_surrogate_def low_surrogate_def)
    ultimately show ?thesis
      using 2 len by (simp add: p_def [symmetric] marshal_rune_def utf8_encode_def)
  next
    case 3
    then show ?thesis
      using piece_rune [OF assms] len by (simp add: p_def [symmetric] marshal_rune_def)
  qed
qed

lemma marshal_text_encodes: "utf8_valid t \<Longrightarrow> encodes (marshal_text t @ [CHR 0x22]) t"
proof (induction rule: utf8_induct)
  case Nil
  then show ?case by (simp add: marshal_text.simps encodes_quote)
next
  case (Ascii c s)
  have "marshal_text (c # s) = marshal_rune [c] @ marshal_text s"
    using rune_len_ascii [OF Ascii(1)] by (subst marshal_text.simps) simp
  then show ?case using piece_encodes [OF marshal_rune_ascii [OF Ascii(1)] Ascii(3)] by simp
next
  case (Rune s)
  have "s \<noteq> []" using Rune(1) by auto
  then have "marshal_text s = marshal_rune (take (rune_len s) s) @ marshal_text (drop (rune_len s) s)"
    using Rune(1) by (subst marshal_text.simps) simp
  then show ?case
    using piece_encodes [OF marshal_rune_high [OF Rune(1,2)] Rune(4)] by simp
qed

section \<open>Number literals\<close>

text \<open>What may follow a number inside a JSON text without being read as part of it.\<close>

definition number_stop :: "string \<Rightarrow> bool" where
  "number_stop r \<longleftrightarrow> r = [] \<or> (\<not> is_digit (hd r) \<and> hd r \<notin> {CHR ''.'', CHR ''e'', CHR ''E'', CHR ''+'', CHR ''-''})"

lemma digits_of_append:
  "number_stop r \<Longrightarrow> digits_of (s @ r) = (fst (digits_of s), snd (digits_of s) @ r)"
  by (induction s; cases r) (auto simp: digits_of_def number_stop_def)

lemma number_int_append:
  "number_stop r \<Longrightarrow> number_int s = Some (i, s') \<Longrightarrow> number_int (s @ r) = Some (i, s' @ r)"
  using digits_of_append [of r s] by (cases s) (auto simp: number_int_def split: if_splits)

lemma number_fraction_append:
  assumes "number_stop r" and "number_fraction s = Some (f, s')"
  shows "number_fraction (s @ r) = Some (f, s' @ r)"
proof (cases s)
  case Nil
  then show ?thesis using assms by (cases r) (auto simp: number_fraction_def number_stop_def)
next
  case (Cons c t)
  then show ?thesis
    using assms digits_of_append [OF assms(1), of t] by (auto simp: number_fraction_def split: if_splits)
qed

lemma exponent_sign_append:
  "number_stop r \<Longrightarrow> exponent_sign (s @ r) = (fst (exponent_sign s), snd (exponent_sign s) @ r)"
  by (cases s; cases r) (auto simp: exponent_sign_def number_stop_def)

lemma number_exponent_append:
  assumes "number_stop r" and "number_exponent s = Some (e, s')"
  shows "number_exponent (s @ r) = Some (e, s' @ r)"
proof (cases s)
  case Nil
  then show ?thesis using assms by (cases r) (auto simp: number_exponent_def number_stop_def)
next
  case (Cons c t)
  then show ?thesis
    using assms exponent_sign_append [OF assms(1), of t] digits_of_append [OF assms(1)]
    by (auto simp: number_exponent_def split: if_splits)
qed

lemma number_unsigned_append:
  assumes "number_stop r" and "number_unsigned s = Some (t, s')"
  shows "number_unsigned (s @ r) = Some (t, s' @ r)"
  using assms number_int_append number_fraction_append number_exponent_append
  by (fastforce simp: number_unsigned_def split: option.splits)

lemma number_token_append:
  assumes "number_stop r" and "number_token s = Some (t, s')"
  shows "number_token (s @ r) = Some (t, s' @ r)"
proof (cases s)
  case Nil
  then show ?thesis using assms by (simp add: number_token_def)
next
  case (Cons c u)
  have "number_unsigned (c # u @ r) = Some (t, s' @ r)" if "c \<noteq> CHR ''-''"
    using number_unsigned_append [OF assms(1), of s t s'] assms(2) Cons that by (simp add: number_token_def)
  then show ?thesis
    using number_unsigned_append [OF assms(1), of u] assms(2) Cons
    by (auto simp: number_token_def prefix_text_def split: option.splits)
qed

definition number_char :: "char \<Rightarrow> bool" where
  "number_char c \<longleftrightarrow> is_digit c \<or> c \<in> {CHR ''.'', CHR ''e'', CHR ''E'', CHR ''+'', CHR ''-''}"

lemma number_char_plain: "number_char c \<Longrightarrow> plain_char c"
  by (auto simp: number_char_def plain_char_def ascii_def is_digit_def in_range_def)

lemma digits_of_chars: "fst (digits_of s) @ snd (digits_of s) = s \<and> (\<forall>c \<in> set (fst (digits_of s)). number_char c)"
  by (auto simp: digits_of_def number_char_def dest: set_takeWhileD)

lemma number_unsigned_chars:
  assumes "number_unsigned s = Some (t, s')"
  shows "s = t @ s' \<and> t \<noteq> [] \<and> is_digit (hd t) \<and> (\<forall>c \<in> set t. number_char c)"
proof -
  from assms obtain i r f r' e where parts: "number_int s = Some (i, r)" "number_fraction r = Some (f, r')"
      "number_exponent r' = Some (e, s')" "t = i @ f @ e"
    by (auto simp: number_unsigned_def split: option.splits)
  have i: "s = i @ r \<and> i \<noteq> [] \<and> is_digit (hd i) \<and> (\<forall>c \<in> set i. number_char c)"
    using parts(1) digits_of_chars [of s]
    by (cases s) (auto simp: number_int_def number_char_def is_digit_def in_range_def digits_of_def split: if_splits)
  have f: "r = f @ r' \<and> (\<forall>c \<in> set f. number_char c)"
    using parts(2) digits_of_chars [of "tl r"]
    by (cases r) (auto simp: number_fraction_def number_char_def split: if_splits)
  have sg: "fst (exponent_sign x) @ snd (exponent_sign x) = x \<and> (\<forall>c \<in> set (fst (exponent_sign x)). number_char c)" for x
    by (cases x) (auto simp: exponent_sign_def number_char_def)
  have e: "r' = e @ s' \<and> (\<forall>c \<in> set e. number_char c)"
    using parts(3) sg [of "tl r'"] digits_of_chars [of "snd (exponent_sign (tl r'))"]
    by (cases r') (auto simp: number_exponent_def number_char_def split: if_splits)
  from i f e parts(4) show ?thesis by auto
qed

lemma number_token_chars:
  assumes "number_token s = Some (t, s')"
  shows "s = t @ s' \<and> t \<noteq> [] \<and> (is_digit (hd t) \<or> hd t = CHR ''-'') \<and> (\<forall>c \<in> set t. number_char c)"
  using assms number_unsigned_chars [of s t s'] number_unsigned_chars [of "tl s" "tl t" s']
  by (cases s) (auto simp: number_token_def prefix_text_def number_char_def split: if_splits option.splits)

section \<open>Canonical numbers\<close>

text \<open>The shape of a canonical number: an integer part, and a fraction that does not end in 0.\<close>

definition zero_char :: "char \<Rightarrow> bool" where "zero_char c \<longleftrightarrow> c = CHR ''0''"

definition int_part :: "string \<Rightarrow> bool" where
  "int_part i \<longleftrightarrow> decimalDigits i \<and> (i = ''0'' \<or> hd i \<noteq> CHR ''0'')"

definition fraction_part :: "string \<Rightarrow> bool" where
  "fraction_part f \<longleftrightarrow> decimalDigits f \<and> last f \<noteq> CHR ''0''"

definition canonical_unsigned :: "string \<Rightarrow> bool" where
  "canonical_unsigned u \<longleftrightarrow> (int_part u \<and> u \<noteq> ''0'') \<or>
     (\<exists>i f. u = i @ ''.'' @ f \<and> int_part i \<and> fraction_part f)"

lemma is_digit_marks: "is_digit c \<Longrightarrow> \<not> is_point c \<and> \<not> is_exponent_marker c \<and> c \<noteq> CHR ''-''"
  by (auto simp: is_digit_def is_point_def is_exponent_marker_def in_range_def)

lemma mark_free: "\<forall>c \<in> set s. \<not> p c \<Longrightarrow> before_mark p s = s \<and> after_mark p s = []"
  by (simp add: before_mark_def after_mark_def dropWhile_eq_Nil_conv [THEN iffD2])

lemma mark_at: "\<forall>c \<in> set s. \<not> p c \<Longrightarrow> p m \<Longrightarrow> before_mark p (s @ m # r) = s \<and> after_mark p (s @ m # r) = r"
  by (induction s) (auto simp: before_mark_def after_mark_def)

lemma decimalDigits_marks:
  "decimalDigits s \<Longrightarrow> \<forall>c \<in> set s. is_digit c \<and> \<not> is_point c \<and> \<not> is_exponent_marker c \<and> c \<noteq> CHR ''-''"
  using is_digit_marks by (auto simp: decimalDigits_def list_all_iff)

text \<open>A plain decimal spelling has no exponent and splits at its point.\<close>

lemma normalize_plain:
  assumes "decimalDigits i" and "u = i \<and> f = [] \<or> u = i @ ''.'' @ f \<and> decimalDigits f"
    and "0 < MaxExponent l"
  shows "normalize_unsigned neg u l = normalize_mantissa neg i f 0 l"
proof -
  have pt: "\<not> is_exponent_marker (CHR ''.'')" by (simp add: is_exponent_marker_def)
  have i: "\<forall>c \<in> set i. \<not> is_exponent_marker c" using decimalDigits_marks [OF assms(1)] by simp
  have noexp: "\<forall>c \<in> set u. \<not> is_exponent_marker c"
    using assms(2)
  proof
    assume "u = i \<and> f = []"
    then show ?thesis using i by simp
  next
    assume u: "u = i @ ''.'' @ f \<and> decimalDigits f"
    then have "\<forall>c \<in> set f. \<not> is_exponent_marker c" using decimalDigits_marks by blast
    then show ?thesis using u i pt by auto
  qed
  then have "number_exponent_value u = Some 0" "before_mark is_exponent_marker u = u"
    using mark_free [of u is_exponent_marker] by (auto simp: number_exponent_value_def list_ex_iff)
  moreover have "before_mark is_point u = i \<and> after_mark is_point u = f"
  proof (cases "u = i \<and> f = []")
    case True
    then show ?thesis using mark_free [of u is_point] decimalDigits_marks [OF assms(1)] by simp
  next
    case False
    then have "u = i @ CHR ''.'' # f" using assms(2) by auto
    moreover have "is_point (CHR ''.'')" by (simp add: is_point_def)
    ultimately show ?thesis using mark_at [of i is_point] decimalDigits_marks [OF assms(1)] by simp
  qed
  ultimately show ?thesis using assms(3) by (simp add: normalize_unsigned_def)
qed

lemma trim_right_zeros_id: "f \<noteq> [] \<Longrightarrow> last f \<noteq> CHR ''0'' \<Longrightarrow> trim_right_zeros (x @ f) = x @ f"
  by (cases f rule: rev_cases) (simp_all add: trim_right_zeros_def)

lemma trim_number_int: "decimalDigits i \<Longrightarrow> trim_number i = i"
  using decimalDigits_marks by (auto simp: trim_number_def is_point_def)

lemma trim_number_fraction: "fraction_part f \<Longrightarrow> trim_number (i @ ''.'' @ f) = i @ ''.'' @ f"
proof -
  assume f: "fraction_part f"
  then have "f \<noteq> []" "last f \<noteq> CHR ''0''" "last f \<noteq> CHR ''.''"
    using decimalDigits_marks [of f] by (auto simp: fraction_part_def decimalDigits_def is_point_def)
  then show ?thesis
    using trim_right_zeros_id [of f "i @ ''.''"] by (simp add: trim_number_def trim_point_def)
qed

lemma dropWhile_zero_hd: "s = [] \<or> hd s \<noteq> CHR ''0'' \<Longrightarrow> dropWhile (\<lambda>c. c = CHR ''0'') s = s"
  by (cases s) auto

lemma takeWhile_zeros:
  "takeWhile (\<lambda>c. c = CHR ''0'') s = replicate (length s - length (dropWhile (\<lambda>c. c = CHR ''0'') s)) (CHR ''0'')"
  by (induction s) (auto simp: Suc_diff_le length_dropWhile_le)

lemma zeros_dropWhile:
  "replicate (length s - length (dropWhile (\<lambda>c. c = CHR ''0'') s)) (CHR ''0'') @ dropWhile (\<lambda>c. c = CHR ''0'') s = s"
  by (metis takeWhile_dropWhile_id takeWhile_zeros)

text \<open>A canonical spelling is its own normal form.\<close>

lemma normalize_canonical:
  assumes "canonical_unsigned u" and "0 < MaxExponent l"
    and "int (length (if neg then CHR ''-'' # u else u)) \<le> MaxCanonicalBytes l"
  shows "normalize_unsigned neg u l = Inr (if neg then CHR ''-'' # u else u)"
proof (cases "int_part u \<and> u \<noteq> ''0''")
  case True
  then have d: "decimalDigits u" "hd u \<noteq> CHR ''0''" "u \<noteq> []" by (auto simp: int_part_def decimalDigits_def)
  have "normalize_unsigned neg u l = normalize_mantissa neg u [] 0 l"
    using normalize_plain [OF d(1) _ assms(2)] by simp
  also have "\<dots> = Inr (if neg then CHR ''-'' # u else u)"
    using d assms(3) trim_number_int [OF d(1)] dropWhile_zero_hd [of u]
    by (simp add: normalize_mantissa_def normalize_digits_def plain_notation_def finish_number_def split: if_splits)
  finally show ?thesis .
next
  case False
  then obtain i f where u: "u = i @ ''.'' @ f" and i: "int_part i" and f: "fraction_part f"
    using assms(1) by (auto simp: canonical_unsigned_def)
  have di: "decimalDigits i" and df: "decimalDigits f" "f \<noteq> []" and ine: "i \<noteq> []"
    using i f by (auto simp: int_part_def fraction_part_def decimalDigits_def)
  have *: "normalize_unsigned neg u l = normalize_mantissa neg i f 0 l"
    using normalize_plain [OF di _ assms(2)] u df by simp
  have fin: "finish_number neg l u = Inr (if neg then CHR ''-'' # u else u)"
    using trim_number_fraction [OF f, of i] assms(3) u by (simp add: finish_number_def split: if_splits)
  have lead: "\<not> (length i > 1 \<and> hd i = CHR ''0'')" using i by (auto simp: int_part_def)
  have "normalize_digits neg (dropWhile (\<lambda>c. c = CHR ''0'') (i @ f)) (int (length f)) l = finish_number neg l u"
  proof (cases "i = ''0''")
    case True
    have dw: "dropWhile (\<lambda>c. c = CHR ''0'') (i @ f) = dropWhile (\<lambda>c. c = CHR ''0'') f" using True by simp
    have "\<exists>c \<in> set f. c \<noteq> CHR ''0''" using f df by (auto simp: fraction_part_def intro!: bexI [of _ "last f"])
    then have ne: "dropWhile (\<lambda>c. c = CHR ''0'') f \<noteq> []" by (auto simp: dropWhile_eq_Nil_conv)
    have le: "length (dropWhile (\<lambda>c. c = CHR ''0'') f) \<le> length f" by (rule length_dropWhile_le)
    show ?thesis
      unfolding dw using True ne le assms(3) u zeros_dropWhile [of f] df
      by (auto simp: normalize_digits_def plain_notation_def nat_diff_distrib split: if_splits)
  next
    case False
    then have "dropWhile (\<lambda>c. c = CHR ''0'') (i @ f) = i @ f"
      using i ine by (intro dropWhile_zero_hd) (auto simp: int_part_def)
    then show ?thesis
      using ine df u by (simp add: normalize_digits_def plain_notation_def)
  qed
  then show ?thesis
    using * fin lead di df ine by (simp add: normalize_mantissa_def)
qed

text \<open>The spelling is read back as one number token.\<close>

lemma number_int_digits:
  assumes "int_part i" and "number_stop r \<or> (r \<noteq> [] \<and> hd r = CHR ''.'')"
  shows "number_int (i @ r) = Some (i, r)"
proof -
  have d: "i \<noteq> []" "\<forall>c \<in> set i. is_digit c" using assms(1) by (auto simp: int_part_def decimalDigits_def list_all_iff)
  have nd: "r = [] \<or> \<not> is_digit (hd r)"
    using assms(2) by (auto simp: number_stop_def is_digit_def in_range_def)
  have "digits_of (i @ r) = (i, r)"
    using d(2) nd by (cases r) (auto simp: digits_of_def takeWhile_append2 dropWhile_append2)
  then show ?thesis
    using assms(1) d by (cases i) (auto simp: number_int_def int_part_def)
qed

lemma number_fraction_digits:
  assumes "decimalDigits f"
  shows "number_fraction (CHR ''.'' # f) = Some (CHR ''.'' # f, [])"
proof -
  have "digits_of f = (f, [])" using assms by (auto simp: digits_of_def decimalDigits_def list_all_iff)
  then show ?thesis using assms by (simp add: number_fraction_def decimalDigits_def)
qed

lemma canonical_number_unsigned:
  assumes "canonical_unsigned u \<or> u = ''0''"
  shows "number_unsigned u = Some (u, []) \<and> u \<noteq> [] \<and> hd u \<noteq> CHR ''-''"
proof -
  have e: "number_exponent [] = Some ([], [])" "number_fraction [] = Some ([], [])" "number_stop []"
    by (simp_all add: number_exponent_def number_fraction_def number_stop_def)
  have z: "int_part ''0''" by (simp add: int_part_def decimalDigits_def is_digit_def in_range_def)
  have hd: "i \<noteq> [] \<and> hd i \<noteq> CHR ''-''" if "int_part i" for i
    using that decimalDigits_marks [of i] by (auto simp: int_part_def decimalDigits_def)
  consider "int_part u" | i f where "u = i @ ''.'' @ f" "int_part i" "fraction_part f"
    using assms z by (auto simp: canonical_unsigned_def)
  then show ?thesis
  proof cases
    case 1
    then show ?thesis using number_int_digits [of u "[]"] e hd by (simp add: number_unsigned_def)
  next
    case 2
    then have "number_int u = Some (i, CHR ''.'' # f)" "number_fraction (CHR ''.'' # f) = Some (CHR ''.'' # f, [])"
      using number_int_digits [of i "CHR ''.'' # f"] number_fraction_digits by (auto simp: fraction_part_def)
    then show ?thesis using 2 e hd [of i] by (simp add: number_unsigned_def)
  qed
qed

text \<open>Every result of \<open>normalizeNumber\<close> has the canonical shape.\<close>

lemma trim_canonical:
  assumes "int_part i" and "list_all is_digit f" and "i \<noteq> ''0'' \<or> (\<exists>c \<in> set f. c \<noteq> CHR ''0'')"
  shows "canonical_unsigned (trim_number (i @ ''.'' @ f))"
proof -
  define g where "g = rev (dropWhile (\<lambda>c. c = CHR ''0'') (rev f))"
  have f: "f = g @ replicate (length f - length g) (CHR ''0'')"
    using zeros_dropWhile [of "rev f"] unfolding g_def
    by (metis length_rev rev_append rev_replicate rev_rev_ident)
  have trimmed: "trim_right_zeros (i @ ''.'' @ f) = i @ ''.'' @ g"
  proof -
    have "dropWhile (\<lambda>c. c = CHR ''0'') (replicate n (CHR ''0'') @ x) = dropWhile (\<lambda>c. c = CHR ''0'') x" for n x
      by (induction n) auto
    then have "trim_right_zeros (i @ ''.'' @ f) = trim_right_zeros (i @ ''.'' @ g)"
      by (subst f) (simp add: trim_right_zeros_def)
    moreover have "g = [] \<or> last g \<noteq> CHR ''0''"
      unfolding g_def using hd_dropWhile [of "\<lambda>c. c = CHR ''0''" "rev f"]
      by (cases "dropWhile (\<lambda>c. c = CHR ''0'') (rev f)") (auto simp: last_rev)
    ultimately show ?thesis
      using trim_right_zeros_id [of "''.'' @ g" i] by auto
  qed
  have tn: "trim_number (i @ ''.'' @ f) = trim_point (i @ ''.'' @ g)"
    using trimmed by (simp add: trim_number_def)
  have lg: "g = [] \<or> last g \<noteq> CHR ''0''"
    unfolding g_def using hd_dropWhile [of "\<lambda>c. c = CHR ''0''" "rev f"]
    by (cases "dropWhile (\<lambda>c. c = CHR ''0'') (rev f)") (auto simp: last_rev)
  have dg: "list_all is_digit g" using assms(2) f by (metis list_all_append)
  show ?thesis
  proof (cases "g = []")
    case True
    then have "\<forall>c \<in> set f. c = CHR ''0''" using f by (metis append_Nil in_set_replicate)
    then have "i \<noteq> ''0''" using assms(3) by blast
    then show ?thesis using tn True assms(1) by (simp add: trim_point_def canonical_unsigned_def)
  next
    case False
    then have fp: "fraction_part g" using lg dg by (simp add: fraction_part_def decimalDigits_def)
    then have "last g \<noteq> CHR ''.''"
      using False decimalDigits_marks [of g] by (auto simp: fraction_part_def is_point_def)
    then show ?thesis using tn False fp assms(1) by (auto simp: trim_point_def canonical_unsigned_def)
  qed
qed

lemma plain_notation_canonical:
  assumes "plain_notation ds sc l = Inr s" and "decimalDigits ds" and "hd ds \<noteq> CHR ''0''"
  shows "canonical_unsigned (trim_number s)"
proof -
  have z: "list_all is_digit (replicate n (CHR ''0''))" for n by (simp add: list_all_iff is_digit_def in_range_def)
  have ne: "ds \<noteq> []" "list_all is_digit ds" using assms(2) by (auto simp: decimalDigits_def)
  consider "sc \<le> 0" | "0 < sc" "0 < int (length ds) - sc" | "0 < sc" "int (length ds) - sc \<le> 0" by linarith
  then show ?thesis
  proof cases
    case 1
    then have s: "s = ds @ replicate (nat (- sc)) (CHR ''0'')" using assms(1) by (simp add: plain_notation_def)
    then have "decimalDigits s" "hd s \<noteq> CHR ''0''" using ne z assms(3) by (simp_all add: decimalDigits_def)
    then show ?thesis using trim_number_int by (auto simp: canonical_unsigned_def int_part_def)
  next
    case 2
    define k where "k = nat (int (length ds) - sc)"
    have k: "0 < k" "k < length ds" using 2 by (auto simp: k_def)
    have s: "s = take k ds @ ''.'' @ drop k ds" using assms(1) 2 by (simp add: plain_notation_def k_def)
    have dig: "list_all is_digit (take k ds)" "list_all is_digit (drop k ds)"
      using ne(2) by (metis append_take_drop_id list_all_append)+
    have h: "take k ds \<noteq> []" "hd (take k ds) \<noteq> CHR ''0''" using k ne assms(3) by (simp_all add: hd_take)
    then have "int_part (take k ds)" using dig by (simp add: int_part_def decimalDigits_def)
    moreover have "take k ds \<noteq> ''0''" using h(2) by (metis list.sel(1))
    ultimately show ?thesis
      unfolding s by (intro trim_canonical [OF _ dig(2)]) simp_all
  next
    case 3
    then have s: "s = ''0'' @ ''.'' @ (replicate (nat (sc - int (length ds))) (CHR ''0'') @ ds)"
      using assms(1) by (simp add: plain_notation_def)
    show ?thesis
      unfolding s by (intro trim_canonical)
        (use ne z assms(3) in \<open>auto simp: int_part_def decimalDigits_def is_digit_def in_range_def intro!: bexI [of _ "hd ds"]\<close>)
  qed
qed

lemma normalizeNumber_shape:
  assumes "normalizeNumber t l = Inr n"
  shows "n = ''0'' \<or> (\<exists>neg u. n = (if neg then CHR ''-'' # u else u) \<and> canonical_unsigned u \<and>
     int (length n) \<le> MaxCanonicalBytes l)"
proof -
  obtain neg r e where u: "normalize_unsigned neg r l = Inr n"
    using assms by (cases t) (auto simp: normalizeNumber_def split: if_splits)
  then obtain i f e where m: "normalize_mantissa neg i f e l = Inr n"
    by (auto simp: normalize_unsigned_def split: option.splits if_splits)
  define ds where "ds = dropWhile (\<lambda>c. c = CHR ''0'') (i @ f)"
  have "decimalDigits i" "f \<noteq> [] \<Longrightarrow> decimalDigits f" using m by (simp_all add: normalize_mantissa_def)
  then have "list_all is_digit (i @ f)" by (cases "f = []") (simp_all add: decimalDigits_def)
  then have dig: "list_all is_digit ds"
    unfolding ds_def list_all_iff using set_dropWhileD by metis
  show ?thesis
  proof (cases "ds = []")
    case True
    then show ?thesis using m by (simp add: normalize_mantissa_def normalize_digits_def ds_def [symmetric])
  next
    case False
    have h: "hd ds \<noteq> CHR ''0''" using False hd_dropWhile [of "\<lambda>c. c = CHR ''0''" "i @ f"] by (simp add: ds_def)
    obtain s where s: "plain_notation ds (int (length f) - e) l = Inr s" "finish_number neg l s = Inr n"
      using m False by (auto simp: normalize_mantissa_def normalize_digits_def ds_def [symmetric])
    have "canonical_unsigned (trim_number s)"
      using plain_notation_canonical [OF s(1)] False dig h by (simp add: decimalDigits_def)
    moreover have "n = (if neg then CHR ''-'' # trim_number s else trim_number s)" "int (length n) \<le> MaxCanonicalBytes l"
      using s(2) by (auto simp: finish_number_def)
    ultimately show ?thesis by blast
  qed
qed

lemma normalizeNumber_idempotent:
  assumes "normalizeNumber t l = Inr n" and "0 < MaxExponent l"
  shows "normalizeNumber n l = Inr n" and "number_token n = Some (n, [])"
proof -
  have "normalizeNumber n l = Inr n \<and> number_token n = Some (n, [])"
    using normalizeNumber_shape [OF assms(1)]
  proof
    assume n: "n = ''0''"
    have "decimalDigits ''0''" by (simp add: decimalDigits_def is_digit_def in_range_def)
    then have "normalize_unsigned False n l = Inr n"
      using n normalize_plain [of "''0''" n "[]" l False] assms(2)
      by (simp add: normalize_mantissa_def normalize_digits_def)
    then show ?thesis
      using n canonical_number_unsigned [of n] by (simp add: normalizeNumber_def number_token_def)
  next
    assume "\<exists>neg u. n = (if neg then CHR ''-'' # u else u) \<and> canonical_unsigned u \<and> int (length n) \<le> MaxCanonicalBytes l"
    then obtain neg u where n: "n = (if neg then CHR ''-'' # u else u)" and u: "canonical_unsigned u"
      and len: "int (length n) \<le> MaxCanonicalBytes l" by blast
    have nu: "normalize_unsigned neg u l = Inr n" using normalize_canonical [OF u assms(2)] n len by simp
    have tok: "number_unsigned u = Some (u, []) \<and> u \<noteq> [] \<and> hd u \<noteq> CHR ''-''"
      using canonical_number_unsigned u by blast
    show ?thesis
      using n nu tok by (cases neg; cases u) (auto simp: normalizeNumber_def number_token_def prefix_text_def)
  qed
  then show "normalizeNumber n l = Inr n" and "number_token n = Some (n, [])" by auto
qed

section \<open>Well-formed values and their measures\<close>

fun json_count :: "json \<Rightarrow> int" where
  "json_count (JArr vs) = 1 + sum_list (map json_count vs)"
| "json_count (JObj kvs) = 1 + sum_list (map (\<lambda>kv. json_count (snd kv)) kvs)"
| "json_count _ = 1"

fun json_height :: "json \<Rightarrow> int" where
  "json_height (JArr vs) = 1 + foldr max (map json_height vs) 0"
| "json_height (JObj kvs) = 1 + foldr max (map (\<lambda>kv. json_height (snd kv)) kvs) 0"
| "json_height _ = 1"

definition string_wf :: "Limits \<Rightarrow> string \<Rightarrow> bool" where
  "string_wf l t \<longleftrightarrow> utf8_valid t \<and> int (length t) \<le> MaxStringBytes l"

definition number_wf :: "Limits \<Rightarrow> string \<Rightarrow> bool" where
  "number_wf l t \<longleftrightarrow> number_token t = Some (t, []) \<and> err_of (normalizeNumber t l) = None"

fun json_wf :: "Limits \<Rightarrow> json \<Rightarrow> bool" where
  "json_wf l (JStr t) = string_wf l t"
| "json_wf l (JNum t) = number_wf l t"
| "json_wf l (JArr vs) = list_all (json_wf l) vs"
| "json_wf l (JObj kvs) = (distinct (map fst kvs) \<and>
     list_all (\<lambda>kv. string_wf l (fst kv) \<and> json_wf l (snd kv)) kvs)"
| "json_wf l _ = True"

text \<open>A value that fits the limits of the decoder.\<close>

definition json_fits :: "Limits \<Rightarrow> json \<Rightarrow> bool" where
  "json_fits l v \<longleftrightarrow> json_wf l v \<and> json_height v \<le> MaxDepth l \<and> json_count v \<le> MaxNodes l"

lemma json_count_pos: "1 \<le> json_count v"
proof (induction v)
  case (JArr vs)
  then have "0 \<le> sum_list (map json_count vs)" by (intro sum_list_nonneg) fastforce
  then show ?case by simp
next
  case (JObj kvs)
  have "0 \<le> json_count (snd kv)" if "kv \<in> set kvs" for kv
    using JObj [of kv "snd kv"] that by (cases kv) auto
  then have "0 \<le> sum_list (map (\<lambda>kv. json_count (snd kv)) kvs)" by (intro sum_list_nonneg) auto
  then show ?case by simp
qed simp_all

lemma sum_count_nonneg: "0 \<le> sum_list (map (\<lambda>x. json_count (g x)) xs)"
proof (induction xs)
  case (Cons x xs)
  then show ?case using json_count_pos [of "g x"] by simp
qed simp

lemma foldr_max_bound: "x \<in> set xs \<Longrightarrow> (x :: int) \<le> foldr max xs 0"
  by (induction xs) auto

lemma foldr_max_le: "(\<forall>x \<in> set xs. (x :: int) \<le> b) \<Longrightarrow> 0 \<le> b \<Longrightarrow> foldr max xs 0 \<le> b"
  by (induction xs) auto

lemma json_height_item: "v \<in> set vs \<Longrightarrow> json_height v < json_height (JArr vs)"
  using foldr_max_bound [of "json_height v" "map json_height vs"] by simp

lemma json_height_member: "kv \<in> set kvs \<Longrightarrow> json_height (snd kv) < json_height (JObj kvs)"
  using foldr_max_bound [of "json_height (snd kv)" "map (\<lambda>kv. json_height (snd kv)) kvs"] by auto

lemma sum_list_sort: "sum_list (map g (sort_key f xs)) = (sum_list (map g xs) :: int)"
  by (metis mset_map mset_sort sum_mset_sum_list)

lemma distinct_sort_key: "distinct (map fst (sort_key fst kvs)) = distinct (map fst kvs)"
  by (metis mset_map mset_sort mset_eq_imp_distinct_iff)

lemma sort_key_map_values:
  "sort_key fst (map (\<lambda>kv. (fst kv, g (snd kv))) kvs) = map (\<lambda>kv. (fst kv, g (snd kv))) (sort_key fst kvs)"
proof (induction kvs)
  case (Cons a kvs)
  have "insort_key fst (fst a, g (snd a)) (map (\<lambda>kv. (fst kv, g (snd kv))) xs)
      = map (\<lambda>kv. (fst kv, g (snd kv))) (insort_key fst a xs)" for xs
    by (induction xs) auto
  with Cons show ?case by simp
qed simp

lemma sort_key_twice: "sort_key fst (sort_key fst kvs) = (sort_key fst kvs :: (string \<times> 'a) list)"
  by (rule sort_key_id_if_sorted) simp

text \<open>The value that is read back from a printed one: members in key order, numbers as printed.\<close>

fun image_json :: "(string \<Rightarrow> string) \<Rightarrow> json \<Rightarrow> json" where
  "image_json num (JNum t) = JNum (num t)"
| "image_json num (JArr vs) = JArr (map (image_json num) vs)"
| "image_json num (JObj kvs) = JObj (map (\<lambda>kv. (fst kv, image_json num (snd kv))) (sort_key fst kvs))"
| "image_json num v = v"

definition items_text :: "bool \<Rightarrow> string list \<Rightarrow> string" where
  "items_text first xs = (if first then comma_separated xs else concat (map (\<lambda>x. CHR '','' # x) xs))"

lemma comma_separated_Cons: "comma_separated (x # xs) = x @ concat (map (\<lambda>x. CHR '','' # x) xs)"
  by (induction xs arbitrary: x) auto

lemma items_text_simps [simp]:
  "items_text first [] = []"
  "items_text first (x # xs) = (if first then x else CHR '','' # x) @ items_text False xs"
  by (simp_all add: items_text_def comma_separated_Cons)

lemma comma_separated_items: "comma_separated xs = items_text True xs"
  by (simp add: items_text_def)

lemma neutral_Cons: "plain_char c \<Longrightarrow> neutral x \<Longrightarrow> neutral (c # x)"
  using neutral_append [of "[c]" x] neutral_plain [of "[c]"] by simp

lemma bracket_plain:
  "plain_char (CHR ''['')" "plain_char (CHR '']'')" "plain_char (CHR ''{'')" "plain_char (CHR ''}'')"
  "plain_char (CHR '','')" "plain_char (CHR '':'')"
  by (simp_all add: plain_char_def ascii_def)

lemma neutral_items: "(\<forall>x \<in> set xs. neutral x) \<Longrightarrow> neutral (items_text first xs)"
  by (induction xs arbitrary: first)
    (auto intro!: neutral_append neutral_Cons [OF bracket_plain(5), of "_ @ _", simplified] simp: bracket_plain)

section \<open>The decoder reads what a printer wrote\<close>

lemma skip_space_head: "s \<noteq> [] \<Longrightarrow> \<not> json_space (hd s) \<Longrightarrow> skip_space s = s"
  by (cases s) (auto simp: skip_space_def)

lemma decode_separator:
  "\<not> json_space c \<Longrightarrow> decode n l (Value_After (Some c)) depth nodes (c # s) = decode n l (Value_After None) depth nodes s"
  by (cases n) (simp_all add: state_value_def after_separator_def skip_space_def)

locale json_printer =
  fixes l :: Limits and str :: "string \<Rightarrow> string" and num :: "string \<Rightarrow> string"
  assumes str_ok: "utf8_valid t \<Longrightarrow> \<exists>b. str t = CHR 0x22 # b \<and> encodes b t"
    and num_ok: "number_token t = Some (t, []) \<Longrightarrow> normalizeNumber t l = Inr n \<Longrightarrow>
      number_token (num t) = Some (num t, []) \<and> normalizeNumber (num t) l = Inr n"
begin

lemma num_wf: "number_wf l t \<Longrightarrow> number_wf l (num t)"
  using num_ok by (auto simp: number_wf_def)

text \<open>The first byte of a printed value is not white space, a separator or a closing bracket.\<close>

definition opens :: "string \<Rightarrow> bool" where
  "opens s \<longleftrightarrow> s \<noteq> [] \<and> \<not> json_space (hd s) \<and> hd s \<notin> {CHR '','', CHR '']'', CHR ''}'', CHR '':''}"

lemma number_opens: "number_wf l t \<Longrightarrow> opens t \<and> hd t \<notin> {CHR ''{'', CHR ''['', CHR 0x22, CHR ''t'', CHR ''f'', CHR ''n''}"
proof -
  assume "number_wf l t"
  then have "t \<noteq> []" "is_digit (hd t) \<or> hd t = CHR ''-''"
    using number_token_chars by (auto simp: number_wf_def)
  then show ?thesis by (auto simp: opens_def is_digit_def in_range_def json_space_def)
qed

lemma print_opens: "json_wf l v \<Longrightarrow> opens (print_json str num v)"
proof (cases v)
  case (JNum t)
  then show "json_wf l v \<Longrightarrow> ?thesis" using number_opens num_wf by simp
next
  case (JStr t)
  then show "json_wf l v \<Longrightarrow> ?thesis" using str_ok [of t] by (auto simp: opens_def json_space_def string_wf_def)
qed (auto simp: opens_def json_space_def)

lemma scalar_number:
  assumes "number_wf l t" and "number_stop r"
  shows "decode_scalar l nodes (num t @ r) = Inr (JNum (num t), nodes, r)"
proof -
  have wf: "number_wf l (num t)" using num_wf [OF assms(1)] .
  then have tok: "number_token (num t @ r) = Some (num t, r)"
    using number_token_append [OF assms(2)] by (simp add: number_wf_def)
  have "num t \<noteq> []" "hd (num t @ r) = hd (num t)"
    using number_opens [OF wf] by (auto simp: opens_def)
  then show ?thesis
    using tok wf number_opens [OF wf] by (auto simp: decode_scalar_def decode_number_def number_wf_def)
qed

lemma scalar_string:
  assumes "string_wf l t"
  shows "decode_scalar l nodes (str t @ r) = Inr (JStr t, nodes, r)"
proof -
  obtain b where "str t = CHR 0x22 # b" "encodes b t" using str_ok assms by (auto simp: string_wf_def)
  then show ?thesis
    using assms by (simp add: decode_scalar_def decode_string_def encodes_def string_wf_def)
qed

definition reads_back :: "json \<Rightarrow> bool" where
  "reads_back v \<longleftrightarrow> (\<forall>n depth nodes r. json_wf l v \<longrightarrow> depth + json_height v \<le> MaxDepth l + 1 \<longrightarrow>
     nodes + json_count v \<le> MaxNodes l \<longrightarrow> number_stop r \<longrightarrow> length (print_json str num v) < n \<longrightarrow>
     decode n l (Value_After None) depth nodes (print_json str num v @ r)
       = Inr (image_json num v, nodes + json_count v, r))"

lemma value_step:
  assumes "json_wf l v" and "depth + json_height v \<le> MaxDepth l + 1" and "nodes + json_count v \<le> MaxNodes l"
    and "1 \<le> json_height v"
  shows "decode (Suc n) l (Value_After None) depth nodes (print_json str num v @ r)
    = value_token (decode n l) l depth (nodes + 1) (print_json str num v @ r)"
proof -
  have "skip_space (print_json str num v @ r) = print_json str num v @ r"
    using print_opens [OF assms(1)] by (intro skip_space_head) (auto simp: opens_def)
  then show ?thesis
    using assms(2-4) json_count_pos [of v] by (simp add: state_value_def after_separator_def)
qed

lemma scalar_reads_back:
  assumes "json_height v = 1" and "json_count v = 1"
    and "json_wf l v \<Longrightarrow> hd (print_json str num v) \<notin> {CHR ''{'', CHR ''[''}"
    and "\<And>nodes r. json_wf l v \<Longrightarrow> number_stop r \<Longrightarrow>
      decode_scalar l nodes (print_json str num v @ r) = Inr (image_json num v, nodes, r)"
  shows "reads_back v"
  unfolding reads_back_def
proof (intro allI impI)
  fix n depth nodes r
  assume a: "json_wf l v" "depth + json_height v \<le> MaxDepth l + 1" "nodes + json_count v \<le> MaxNodes l"
    "number_stop r" "length (print_json str num v) < n"
  then obtain m where n: "n = Suc m" by (cases n) auto
  have ne: "print_json str num v \<noteq> []" using print_opens [OF a(1)] by (simp add: opens_def)
  have "hd (print_json str num v @ r) = hd (print_json str num v)" using ne by simp
  then have "value_token (decode m l) l depth (nodes + 1) (print_json str num v @ r)
      = decode_scalar l (nodes + 1) (print_json str num v @ r)"
    using assms(3) [OF a(1)] ne by (simp add: value_token_def)
  then show "decode n l (Value_After None) depth nodes (print_json str num v @ r)
      = Inr (image_json num v, nodes + json_count v, r)"
    unfolding n using value_step [OF a(1-3)] assms(1,2,4) a(1,4) by simp
qed

lemma number_stop_item: "number_stop (items_text False xs @ CHR '']'' # r)" "number_stop (items_text False xs @ CHR ''}'' # r)"
  by (cases xs; simp add: number_stop_def is_digit_def in_range_def)+

lemma sep_value:
  assumes "opens p" and "length p < n"
  shows "decode n l (Value_After (if first then None else Some (CHR '',''))) depth nodes
      ((if first then p else CHR '','' # p) @ r) = decode n l (Value_After None) depth nodes (p @ r)"
  using decode_separator [of "CHR '',''" n l depth nodes "p @ r"] by (simp add: json_space_def)

lemma array_reads_back:
  assumes "\<forall>v \<in> set vs. reads_back v \<and> json_wf l v \<and> depth + json_height v \<le> MaxDepth l"
    and "nodes + sum_list (map json_count vs) \<le> MaxNodes l"
    and "length (items_text (acc = []) (map (print_json str num) vs)) + 1 < n"
  shows "decode n l (Array_After acc) depth nodes (items_text (acc = []) (map (print_json str num) vs) @ CHR '']'' # r)
    = Inr (JArr (acc @ map (image_json num) vs), nodes + sum_list (map json_count vs), r)"
  using assms
proof (induction vs arbitrary: acc nodes n)
  case Nil
  then obtain m where "n = Suc m" by (cases n) auto
  then show ?case by (simp add: state_array_def skip_space_def json_space_def)
next
  case (Cons v vs)
  define p where "p = print_json str num v"
  define tail where "tail = items_text False (map (print_json str num) vs) @ CHR '']'' # r"
  define s where "s = (if acc = [] then p else CHR '','' # p) @ tail"
  obtain m where n: "n = Suc m" using Cons.prems(3) by (cases n) auto
  have v: "reads_back v" "json_wf l v" "depth + json_height v \<le> MaxDepth l" using Cons.prems(1) by auto
  have op: "opens p" using print_opens [OF v(2)] by (simp add: p_def)
  then have lp: "0 < length p" by (simp add: opens_def)
  have pos: "0 \<le> sum_list (map json_count vs)"
    by (rule sum_count_nonneg)
  have "length p + length (items_text False (map (print_json str num) vs)) + 1 < n"
    using Cons.prems(3) by (simp add: p_def split: if_splits)
  then have len: "length p < m" "length (items_text False (map (print_json str num) vs)) + 1 < m"
    using lp n by linarith+
  have "skip_space s = s" and hd: "s \<noteq> []" "hd s \<notin> {CHR '']'', CHR ''}''}"
    using op by (auto simp: s_def opens_def json_space_def intro!: skip_space_head)
  then have step: "decode n l (Array_After acc) depth nodes s =
      andThen (decode m l (Value_After (if acc = [] then None else Some (CHR '',''))) (depth + 1) nodes s)
        (\<lambda>(v, nodes', r'). decode m l (Array_After (acc @ [v])) depth nodes' r')"
    by (simp add: n state_array_def)
  have val: "decode m l (Value_After (if acc = [] then None else Some (CHR '',''))) (depth + 1) nodes s
      = Inr (image_json num v, nodes + json_count v, tail)"
    unfolding s_def sep_value [OF op len(1)]
    using v Cons.prems(2) pos number_stop_item(1) len(1) unfolding reads_back_def p_def tail_def by simp
  have "decode m l (Array_After (acc @ [image_json num v])) depth (nodes + json_count v) tail
      = Inr (JArr ((acc @ [image_json num v]) @ map (image_json num) vs),
             (nodes + json_count v) + sum_list (map json_count vs), r)"
    using Cons.IH [of "nodes + json_count v" "acc @ [image_json num v]" m] Cons.prems(1,2) len(2)
    by (simp add: tail_def)
  then have "decode n l (Array_After acc) depth nodes s = Inr (JArr (acc @ map (image_json num) (v # vs)),
      nodes + sum_list (map json_count (v # vs)), r)"
    unfolding step val by simp
  then show ?case
    by (simp add: s_def p_def tail_def split: if_splits)
qed

definition member_text :: "string \<times> json \<Rightarrow> string" where
  "member_text kv = str (fst kv) @ '':'' @ print_json str num (snd kv)"

lemma print_object:
  "print_json str num (JObj kvs) = CHR ''{'' # items_text True (map member_text (sort_key fst kvs)) @ ''}''"
  by (simp add: comma_separated_items member_text_def [abs_def])

lemma key_reads_back:
  assumes "string_wf l k"
  shows "decode_key l (if first then None else Some (CHR '','')) ((if first then str k else CHR '','' # str k) @ r) = Inr (k, r)"
proof -
  obtain b where b: "str k = CHR 0x22 # b" "encodes b k" using str_ok assms by (auto simp: string_wf_def)
  have "after_separator (if first then None else Some (CHR '','')) ((if first then str k else CHR '','' # str k) @ r)
      = Some (CHR 0x22 # b @ r)"
    using b(1) by (simp add: after_separator_def skip_space_def json_space_def)
  then show ?thesis
    using b assms by (simp add: decode_key_def encodes_def string_wf_def)
qed

lemma object_reads_back:
  assumes "\<forall>kv \<in> set kvs. reads_back (snd kv) \<and> string_wf l (fst kv) \<and> json_wf l (snd kv) \<and>
      depth + json_height (snd kv) \<le> MaxDepth l"
    and "distinct (map fst acc @ map fst kvs)"
    and "nodes + sum_list (map (\<lambda>kv. json_count (snd kv)) kvs) \<le> MaxNodes l"
    and "length (items_text (acc = []) (map member_text kvs)) + 1 < n"
  shows "decode n l (Object_After acc) depth nodes (items_text (acc = []) (map member_text kvs) @ CHR ''}'' # r)
    = Inr (JObj (acc @ map (\<lambda>kv. (fst kv, image_json num (snd kv))) kvs),
           nodes + sum_list (map (\<lambda>kv. json_count (snd kv)) kvs), r)"
  using assms
proof (induction kvs arbitrary: acc nodes n)
  case Nil
  then obtain m where "n = Suc m" by (cases n) auto
  then show ?case by (simp add: state_object_def skip_space_def json_space_def)
next
  case (Cons kv kvs)
  obtain k v where kv: "kv = (k, v)" by (cases kv)
  define tail where "tail = items_text False (map member_text kvs) @ CHR ''}'' # r"
  define rest where "rest = CHR '':'' # print_json str num v @ tail"
  define s where "s = (if acc = [] then str k else CHR '','' # str k) @ rest"
  obtain m where n: "n = Suc m" using Cons.prems(4) by (cases n) auto
  have v: "reads_back v" "json_wf l v" "depth + json_height v \<le> MaxDepth l" "string_wf l k"
    using Cons.prems(1) kv by auto
  obtain b where b: "str k = CHR 0x22 # b" using str_ok v(4) by (auto simp: string_wf_def)
  have pos: "0 \<le> sum_list (map (\<lambda>kv. json_count (snd kv)) kvs)"
    by (rule sum_count_nonneg)
  have len: "length (print_json str num v) < m" "length (items_text False (map member_text kvs)) + 1 < m"
    using Cons.prems(4) by (auto simp: n kv member_text_def [of "(k, v)"] split: if_splits)
  have "skip_space s = s" and hd: "s \<noteq> []" "hd s \<notin> {CHR '']'', CHR ''}''}"
    using b by (auto simp: s_def json_space_def intro!: skip_space_head)
  then have step: "decode n l (Object_After acc) depth nodes s =
      andThen (decode_key l (if acc = [] then None else Some (CHR '','')) s) (\<lambda>(k, r).
        ensure (fail_if (k \<in> set (map fst acc)) (Errorf ''duplicate JSON object member''))
        (andThen (decode m l (Value_After (Some (CHR '':''))) (depth + 1) nodes r) (\<lambda>(v, nodes', r').
           decode m l (Object_After (acc @ [(k, v)])) depth nodes' r')))"
    by (simp add: n state_object_def)
  have key: "decode_key l (if acc = [] then None else Some (CHR '','')) s = Inr (k, rest)"
    unfolding s_def by (rule key_reads_back [OF v(4)])
  have val: "decode m l (Value_After (Some (CHR '':''))) (depth + 1) nodes rest
      = Inr (image_json num v, nodes + json_count v, tail)"
    using v Cons.prems(3) kv pos number_stop_item(2) len(1)
      decode_separator [of "CHR '':''" m l "depth + 1" nodes "print_json str num v @ tail"]
    unfolding reads_back_def rest_def tail_def by (simp add: json_space_def)
  have "decode n l (Object_After acc) depth nodes s =
      decode m l (Object_After (acc @ [(k, image_json num v)])) depth (nodes + json_count v) tail"
    unfolding step key using val Cons.prems(2) kv by simp
  also have "\<dots> = Inr (JObj ((acc @ [(k, image_json num v)]) @ map (\<lambda>kv. (fst kv, image_json num (snd kv))) kvs),
      (nodes + json_count v) + sum_list (map (\<lambda>kv. json_count (snd kv)) kvs), r)"
    using Cons.IH [of "acc @ [(k, image_json num v)]" "nodes + json_count v" m] Cons.prems(1-3) len(2) kv
    by (simp add: tail_def)
  finally show ?case
    by (simp add: s_def rest_def tail_def kv member_text_def [of "(k, v)"] add.assoc split: if_splits)
qed

lemma bracket_reads_back:
  assumes "json_wf l v" and "depth + json_height v \<le> MaxDepth l + 1" and "nodes + json_count v \<le> MaxNodes l"
    and "1 \<le> json_height v" and "print_json str num v = c # body"
    and "c = CHR ''['' \<and> reading = Array_After [] \<or> c = CHR ''{'' \<and> reading = Object_After []"
  shows "decode (Suc n) l (Value_After None) depth nodes (print_json str num v @ r)
    = decode n l reading depth (nodes + 1) (body @ r)"
  using assms(5,6) unfolding value_step [OF assms(1-4)] by (auto simp: value_token_def)

lemma print_reads_back: "reads_back v"
proof (induction v)
  case JNull
  show ?case by (rule scalar_reads_back) (auto simp: decode_scalar_def decode_literal_def)
next
  case (JBool b)
  show ?case by (rule scalar_reads_back) (auto simp: decode_scalar_def decode_literal_def)
next
  case (JNum t)
  show ?case
    by (rule scalar_reads_back) (use scalar_number number_opens num_wf in auto)
next
  case (JStr t)
  show ?case
    by (rule scalar_reads_back) (use scalar_string str_ok [of t] in \<open>auto simp: string_wf_def\<close>)
next
  case (JArr vs)
  show ?case
    unfolding reads_back_def
  proof (intro allI impI)
    fix n depth nodes r
    assume a: "json_wf l (JArr vs)" "depth + json_height (JArr vs) \<le> MaxDepth l + 1"
      "nodes + json_count (JArr vs) \<le> MaxNodes l" "number_stop r" "length (print_json str num (JArr vs)) < n"
    then obtain m where n: "n = Suc m" by (cases n) auto
    have h: "1 \<le> json_height (JArr vs)" using foldr_max_bound by (induction vs) auto
    have items: "\<forall>v \<in> set vs. reads_back v \<and> json_wf l v \<and> depth + json_height v \<le> MaxDepth l"
      using JArr a(1,2) json_height_item by (fastforce simp: list_all_iff)
    have printed: "print_json str num (JArr vs) = CHR ''['' # items_text True (map (print_json str num) vs) @ '']''"
      by (simp add: comma_separated_items)
    have "decode (Suc m) l (Value_After None) depth nodes (print_json str num (JArr vs) @ r)
        = decode m l (Array_After []) depth (nodes + 1) ((items_text True (map (print_json str num) vs) @ '']'') @ r)"
      by (rule bracket_reads_back [OF a(1-3) h printed]) simp
    then show "decode n l (Value_After None) depth nodes (print_json str num (JArr vs) @ r)
        = Inr (image_json num (JArr vs), nodes + json_count (JArr vs), r)"
      using array_reads_back [OF items, of "nodes + 1" "[]" m r] a(3,5) printed
      by (simp add: n add.assoc del: decode.simps print_json.simps)
  qed
next
  case (JObj kvs)
  show ?case
    unfolding reads_back_def
  proof (intro allI impI)
    fix n depth nodes r
    assume a: "json_wf l (JObj kvs)" "depth + json_height (JObj kvs) \<le> MaxDepth l + 1"
      "nodes + json_count (JObj kvs) \<le> MaxNodes l" "number_stop r" "length (print_json str num (JObj kvs)) < n"
    then obtain m where n: "n = Suc m" by (cases n) auto
    have h: "1 \<le> json_height (JObj kvs)" using foldr_max_bound by (induction kvs) auto
    have printed: "print_json str num (JObj kvs) = CHR ''{'' # items_text True (map member_text (sort_key fst kvs)) @ ''}''"
      by (rule print_object)
    have items: "\<forall>kv \<in> set (sort_key fst kvs). reads_back (snd kv) \<and> string_wf l (fst kv) \<and> json_wf l (snd kv) \<and>
        depth + json_height (snd kv) \<le> MaxDepth l"
      using JObj a(1,2) json_height_member by (fastforce simp: list_all_iff)
    have dist: "distinct (map fst [] @ map fst (sort_key fst kvs))"
      using a(1) distinct_sort_key [of kvs] by simp
    have "decode (Suc m) l (Value_After None) depth nodes (print_json str num (JObj kvs) @ r)
        = decode m l (Object_After []) depth (nodes + 1) ((items_text True (map member_text (sort_key fst kvs)) @ ''}'') @ r)"
      by (rule bracket_reads_back [OF a(1-3) h printed]) simp
    then show "decode n l (Value_After None) depth nodes (print_json str num (JObj kvs) @ r)
        = Inr (image_json num (JObj kvs), nodes + json_count (JObj kvs), r)"
      using object_reads_back [OF items dist, of "nodes + 1" m r] a(3,5) printed
      by (simp add: n sum_list_sort add.assoc del: decode.simps print_json.simps)
  qed
qed

text \<open>A printed value leaves the scanners of \<open>Decode\<close> in their initial state.\<close>

lemma print_neutral: "json_wf l v \<Longrightarrow> neutral (print_json str num v)"
proof (induction v)
  case (JNum t)
  then have "number_token (num t) = Some (num t, [])" using num_wf by (auto simp: number_wf_def)
  then show ?case
    using number_token_chars number_char_plain by (fastforce simp: list_all_iff intro: neutral_plain)
next
  case (JStr t)
  then show ?case using str_ok [of t] encodes_neutral by (auto simp: string_wf_def)
next
  case (JArr vs)
  then have "neutral (items_text True (map (print_json str num) vs))"
    by (intro neutral_items) (auto simp: list_all_iff)
  then show ?case
    by (simp add: comma_separated_items neutral_Cons neutral_append bracket_plain)
next
  case (JObj kvs)
  have "neutral (member_text kv)" if "kv \<in> set kvs" for kv
  proof -
    have "string_wf l (fst kv)" "json_wf l (snd kv)" using JObj.prems that by (auto simp: list_all_iff)
    then have "neutral (str (fst kv))" "neutral (print_json str num (snd kv))"
      using JObj.IH [OF that, of "snd kv"] str_ok [of "fst kv"] encodes_neutral
      by (auto simp: string_wf_def snds.simps)
    then show ?thesis by (simp add: member_text_def neutral_Cons neutral_append bracket_plain)
  qed
  then have "neutral (items_text True (map member_text (sort_key fst kvs)))"
    by (intro neutral_items) auto
  moreover have "print_json str num (JObj kvs) = CHR ''{'' # items_text True (map member_text (sort_key fst kvs)) @ ''}''"
    by (rule print_object)
  ultimately show ?case
    by (simp add: neutral_Cons neutral_append bracket_plain del: print_json.simps)
qed (simp_all add: neutral_plain plain_char_def ascii_def)

theorem Decode_print:
  assumes "Limits_validate l = None" and "json_fits l v"
    and "int (length (print_json str num v)) \<le> MaxInputBytes l"
  shows "Decode (print_json str num v) l = Inr (image_json num v)"
proof -
  define p where "p = print_json str num v"
  have wf: "json_wf l v" "json_height v \<le> MaxDepth l" "json_count v \<le> MaxNodes l"
    using assms(2) by (simp_all add: json_fits_def)
  have "decode (2 * length p + 2) l (Value_After None) 1 0 (p @ []) = Inr (image_json num v, 0 + json_count v, [])"
    by (rule print_reads_back [of v, unfolded reads_back_def, rule_format, folded p_def])
      (use wf in \<open>simp_all add: number_stop_def\<close>)
  then show ?thesis
    using assms(1,3) neutral_ends [OF print_neutral [OF wf(1)]]
    by (simp add: Decode_def p_def skip_space_def del: decode.simps)
qed

end

section \<open>The two printers\<close>

definition quoted :: "string \<Rightarrow> string" where
  "quoted t = [CHR 0x22] @ concat (map escape_char t) @ [CHR 0x22]"

definition canon_number :: "Limits \<Rightarrow> string \<Rightarrow> string" where
  "canon_number l t = (case normalizeNumber t l of Inr n \<Rightarrow> n | Inl _ \<Rightarrow> [])"

text \<open>The canonical text of a value: what \<open>appendValue\<close> writes when nothing overflows.\<close>

definition canonical_text :: "Limits \<Rightarrow> json \<Rightarrow> string" where
  "canonical_text l v = print_json quoted (canon_number l) v"

lemma canonical_text_simps [simp]:
  "canonical_text l JNull = ''null''"
  "canonical_text l (JBool b) = (if b then ''true'' else ''false'')"
  "canonical_text l (JNum t) = canon_number l t"
  "canonical_text l (JStr t) = quoted t"
  "canonical_text l (JArr vs) = ''['' @ items_text True (map (canonical_text l) vs) @ '']''"
  "canonical_text l (JObj kvs) = ''{'' @ items_text True
     (map (\<lambda>kv. quoted (fst kv) @ '':'' @ canonical_text l (snd kv)) (sort_key fst kvs)) @ ''}''"
  by (simp_all add: canonical_text_def [abs_def] comma_separated_items)

interpretation gj: json_printer l marshal_string "\<lambda>t. t" for l
proof
  fix t :: string assume "utf8_valid t"
  then show "\<exists>b. marshal_string t = CHR 0x22 # b \<and> encodes b t"
    using marshal_text_encodes by (auto simp: marshal_string_def)
qed simp

lemma canonical_printer:
  assumes "0 < MaxExponent l"
  shows "json_printer l quoted (canon_number l)"
proof
  fix t :: string assume "utf8_valid t"
  then show "\<exists>b. quoted t = CHR 0x22 # b \<and> encodes b t"
    using appendString_encodes by (auto simp: quoted_def)
next
  fix t n assume n: "normalizeNumber t l = Inr n"
  then show "number_token (canon_number l t) = Some (canon_number l t, []) \<and> normalizeNumber (canon_number l t) l = Inr n"
    using normalizeNumber_idempotent [OF n assms] by (simp add: canon_number_def)
qed

interpretation cj: json_printer DefaultLimits quoted "canon_number DefaultLimits"
  by (rule canonical_printer) (simp add: DefaultLimits_def)

lemma bounded_output_simps:
  "bounded_output l o' = Inr x \<longleftrightarrow> x = o' \<and> int (length o') \<le> MaxCanonicalBytes l"
  by (auto simp: bounded_output_def)

lemma bounded_andThen:
  assumes "length a \<le> length b"
  shows "andThen (bounded_output l a) (\<lambda>_. bounded_output l b) = bounded_output l b"
  using assms by (simp add: bounded_output_def)

lemma appendItems_eq:
  assumes "\<forall>v \<in> set vs. \<forall>out. appendValue l out v = bounded_output l (out @ canonical_text l v)"
  shows "appendItems l first out vs =
    (if vs = [] then Inr out else bounded_output l (out @ items_text first (map (canonical_text l) vs)))"
  using assms
proof (induction vs arbitrary: first out)
  case (Cons v vs)
  define o' where "o' = (if first then out else out @ '','')"
  have v: "appendValue l o' v = bounded_output l (o' @ canonical_text l v)" using Cons.prems by simp
  have vs: "appendItems l False (o' @ canonical_text l v) vs =
      (if vs = [] then Inr (o' @ canonical_text l v)
       else bounded_output l ((o' @ canonical_text l v) @ items_text False (map (canonical_text l) vs)))"
    by (rule Cons.IH) (use Cons.prems in simp)
  have "appendItems l first out (v # vs) =
      bounded_output l (o' @ canonical_text l v @ items_text False (map (canonical_text l) vs))"
    using v vs by (simp add: o'_def [symmetric] bounded_output_def)
  then show ?case by (simp add: o'_def)
qed simp

lemma appendMembers_eq:
  assumes "\<forall>kv \<in> set kvs. \<forall>out. appendValue l out (snd kv) = bounded_output l (out @ canonical_text l (snd kv))"
  shows "appendMembers l first out kvs =
    (if kvs = [] then Inr out else bounded_output l
      (out @ items_text first (map (\<lambda>kv. quoted (fst kv) @ '':'' @ canonical_text l (snd kv)) kvs)))"
  using assms
proof (induction kvs arbitrary: first out)
  case (Cons kv kvs)
  obtain k v where kv: "kv = (k, v)" by (cases kv)
  define m where "m = (\<lambda>kv. quoted (fst kv) @ '':'' @ canonical_text l (snd kv))"
  define o' where "o' = (if first then out else out @ '','') @ quoted k @ '':''"
  have v: "appendValue l o' v = bounded_output l (o' @ canonical_text l v)" using Cons.prems kv by simp
  have kvs: "appendMembers l False (o' @ canonical_text l v) kvs =
      (if kvs = [] then Inr (o' @ canonical_text l v)
       else bounded_output l ((o' @ canonical_text l v) @ items_text False (map m kvs)))"
    unfolding m_def by (rule Cons.IH) (use Cons.prems in simp)
  have out: "appendString (if first then out else out @ '','') k @ '':'' = o'"
    by (simp add: o'_def appendString_def quoted_def)
  have "appendMembers l first out (kv # kvs) =
      bounded_output l (o' @ canonical_text l v @ items_text False (map m kvs))"
    using v kvs by (simp add: kv out bounded_output_def)
  then show ?case by (simp add: o'_def m_def kv)
qed simp

lemma appendValue_eq:
  "json_wf l v \<Longrightarrow> appendValue l out v = bounded_output l (out @ canonical_text l v)"
proof (induction v arbitrary: out)
  case (JNum t)
  then show ?case by (auto simp: number_wf_def canon_number_def)
next
  case (JStr t)
  then show ?case by (simp add: quoted_def appendString_def)
next
  case (JArr vs)
  then have "\<forall>v \<in> set vs. \<forall>out. appendValue l out v = bounded_output l (out @ canonical_text l v)"
    by (auto simp: list_all_iff)
  from appendItems_eq [OF this, of True "out @ ''[''"] show ?case
    by (auto simp: bounded_output_def)
next
  case (JObj kvs)
  then have "\<forall>kv \<in> set (sort_key fst kvs). \<forall>out. appendValue l out (snd kv) = bounded_output l (out @ canonical_text l (snd kv))"
    by (auto simp: list_all_iff snds.simps)
  from appendMembers_eq [OF this, of True "out @ ''{''"] show ?case
    by (auto simp: bounded_output_def)
qed simp_all

text \<open>The canonical text does not depend on the order of members, nor on which of the two
  printers produced the text that was decoded.\<close>

lemma canonical_text_image:
  assumes "json_wf l v" and "\<And>t. number_wf l t \<Longrightarrow> canon_number l (num t) = canon_number l t"
  shows "canonical_text l (image_json num v) = canonical_text l v"
  using assms(1)
proof (induction v)
  case (JArr vs)
  then have "map (canonical_text l) (map (image_json num) vs) = map (canonical_text l) vs"
    by (auto simp: list_all_iff)
  then show ?case by (simp del: map_map)
next
  case (JObj kvs)
  then have eq: "canonical_text l (image_json num (snd kv)) = canonical_text l (snd kv)" if "kv \<in> set kvs" for kv
    using that by (auto simp: list_all_iff snds.simps)
  have "sort_key fst (map (\<lambda>kv. (fst kv, image_json num (snd kv))) (sort_key fst kvs))
      = map (\<lambda>kv. (fst kv, image_json num (snd kv))) (sort_key fst kvs)"
    by (simp add: sort_key_map_values sort_key_twice)
  moreover have "map (\<lambda>kv. quoted (fst kv) @ '':'' @ canonical_text l (snd kv))
        (map (\<lambda>kv. (fst kv, image_json num (snd kv))) (sort_key fst kvs))
      = map (\<lambda>kv. quoted (fst kv) @ '':'' @ canonical_text l (snd kv)) (sort_key fst kvs)"
    using eq by auto
  ultimately show ?case by (simp del: map_map)
qed (use assms(2) in auto)

lemma image_json_wf:
  assumes "json_wf l v" and "\<And>t. number_wf l t \<Longrightarrow> number_wf l (num t)"
  shows "json_wf l (image_json num v)"
  using assms(1)
proof (induction v)
  case (JObj kvs)
  then have "json_wf l (image_json num (snd kv))" if "kv \<in> set kvs" for kv
    using that by (auto simp: list_all_iff snds.simps)
  then show ?case
    using JObj.prems distinct_sort_key [of kvs] by (auto simp: list_all_iff comp_def)
qed (use assms(2) in \<open>auto simp: list_all_iff\<close>)

text \<open>\<^verbatim>\<open>Marshal\<close> of a value that fits the limits is its canonical text.\<close>

theorem MarshalWithLimits_eq:
  assumes "Limits_validate l = None" and "json_fits l v" and "int (length (json_Marshal v)) \<le> MaxInputBytes l"
  shows "MarshalWithLimits v l = bounded_output l (canonical_text l v)"
proof -
  have wf: "json_wf l v" using assms(2) by (simp add: json_fits_def)
  then have wf': "json_wf l (image_json (\<lambda>t. t) v)" by (rule image_json_wf) simp
  have "Decode (json_Marshal v) l = Inr (image_json (\<lambda>t. t) v)"
    using gj.Decode_print [OF assms(1,2)] assms(3) by (simp add: json_Marshal_def)
  then show ?thesis
    using appendValue_eq [OF wf', of "[]"] canonical_text_image [OF wf, of "\<lambda>t. t"]
    by (simp add: MarshalWithLimits_def CanonicalizeWithLimits_def bounded_output_def)
qed

lemma Marshal_ok:
  assumes "json_fits DefaultLimits v" and "length (json_Marshal v) \<le> 1048576"
    and "length (canonical_text DefaultLimits v) \<le> 1048576"
  shows "Marshal v = Inr (canonical_text DefaultLimits v)"
  using MarshalWithLimits_eq [OF _ assms(1)] assms(2,3)
  by (simp add: Marshal_def Limits_validate_def DefaultLimits_def bounded_output_def)

end
