(* ===== verification/Json_Soundness.thy ===== *)
theory Json_Soundness
  imports Json_Roundtrip
begin

text \<open>
  What the decoder accepts: every decoded value is well formed and within the limits, the
  decoder's fuel is always enough, and canonicalisation is idempotent.
\<close>

section \<open>Strings\<close>

lemma byte_val_char_of: "n < 256 \<Longrightarrow> byte_val (char_of (n :: nat)) = n"
  by simp

lemma utf8_two: "128 \<le> u \<Longrightarrow> u < 2048 \<Longrightarrow>
  rune_len ([char_of (192 + u div 64), char_of (128 + u mod 64)] @ t) = 2" for u :: nat
proof -
  assume a: "128 \<le> u" "u < 2048"
  then have "2 \<le> u div 64" "u div 64 < 32" "u mod 64 < 64" by auto
  then show ?thesis by (simp add: in_range_def second_byte_def)
qed

lemma utf8_three:
  fixes u :: nat
  assumes "2048 \<le> u" and "u < 65536" and "\<not> high_surrogate u" and "\<not> low_surrogate u"
  shows "rune_len ([char_of (224 + u div 4096), char_of (128 + u div 64 mod 64), char_of (128 + u mod 64)] @ t) = 3"
proof -
  define x where "x = u div 64"
  have x: "32 \<le> x" "x < 1024" "u div 4096 = x div 64"
    using assms(1,2) by (auto simp: x_def div_mult2_eq [symmetric])
  have ns: "x < 864 \<or> 896 \<le> x"
    using assms(3,4) unfolding x_def high_surrogate_def low_surrogate_def by linarith
  define q y where "q = x div 64" and "y = x mod 64"
  have qy: "x = 64 * q + y" "y < 64" by (simp_all add: q_def y_def)
  have "q < 16" "q = 0 \<longrightarrow> 32 \<le> y" "q = 13 \<longrightarrow> y < 32" using x ns qy by auto
  moreover have "u mod 64 < 64" by simp
  ultimately have "in_range 224 239 (char_of (224 + q))" "second_byte (char_of (224 + q)) (char_of (128 + y))"
    "in_range 128 191 (char_of (128 + u mod 64))" "\<not> in_range 0 127 (char_of (224 + q))" "\<not> in_range 194 223 (char_of (224 + q))"
    using qy(2) by (auto simp: in_range_def second_byte_def)
  then show ?thesis
    using x(3) by (simp add: q_def [symmetric] y_def [symmetric] x_def [symmetric])
qed

lemma utf8_four:
  fixes u :: nat
  assumes "65536 \<le> u" and "u < 1114112"
  shows "rune_len ([char_of (240 + u div 262144), char_of (128 + u div 4096 mod 64),
    char_of (128 + u div 64 mod 64), char_of (128 + u mod 64)] @ t) = 4"
proof -
  define x where "x = u div 4096"
  have x: "16 \<le> x" "x < 272" "u div 262144 = x div 64"
    using assms by (auto simp: x_def div_mult2_eq [symmetric])
  define q y where "q = x div 64" and "y = x mod 64"
  have qy: "x = 64 * q + y" "y < 64" by (simp_all add: q_def y_def)
  have "q < 5" "q = 0 \<longrightarrow> 16 \<le> y" "q = 4 \<longrightarrow> y < 16" using x qy by auto
  moreover have "u mod 64 < 64" "u div 64 mod 64 < 64" by simp_all
  ultimately have "in_range 240 244 (char_of (240 + q))" "second_byte (char_of (240 + q)) (char_of (128 + y))"
    "in_range 128 191 (char_of (128 + u mod 64))" "in_range 128 191 (char_of (128 + u div 64 mod 64))"
    "\<not> in_range 0 127 (char_of (240 + q))" "\<not> in_range 194 223 (char_of (240 + q))" "\<not> in_range 224 239 (char_of (240 + q))"
    using qy(2) by (auto simp: in_range_def second_byte_def)
  then show ?thesis
    using x(3) by (simp add: q_def [symmetric] y_def [symmetric] x_def [symmetric])
qed

lemma utf8_encode_valid:
  assumes "u < 1114112" and "\<not> high_surrogate u" and "\<not> low_surrogate u"
  shows "utf8_valid (utf8_encode u @ t) = utf8_valid t"
proof -
  have step: "utf8_valid (p @ t) = utf8_valid t" if "rune_len (p @ t) = length p" "p \<noteq> []" for p
    using that by (subst utf8_valid.simps) simp
  consider "u < 128" | "128 \<le> u" "u < 2048" | "2048 \<le> u" "u < 65536" | "65536 \<le> u" by linarith
  then show ?thesis
  proof cases
    case 1
    then have "ascii (char_of u)" by (simp add: ascii_def)
    with 1 show ?thesis by (simp add: utf8_encode_def)
  next
    case 2
    then show ?thesis
      using step [of "[char_of (192 + u div 64), char_of (128 + u mod 64)]"] utf8_two [OF 2, of t]
      by (simp add: utf8_encode_def del: rune_len.simps)
  next
    case 3
    then show ?thesis
      using step [of "[char_of (224 + u div 4096), char_of (128 + u div 64 mod 64), char_of (128 + u mod 64)]"]
        utf8_three [OF 3 assms(2,3), of t]
      by (simp add: utf8_encode_def del: rune_len.simps)
  next
    case 4
    then show ?thesis
      using step [of "[char_of (240 + u div 262144), char_of (128 + u div 4096 mod 64),
          char_of (128 + u div 64 mod 64), char_of (128 + u mod 64)]"] utf8_four [OF 4 assms(1), of t]
      by (simp add: utf8_encode_def del: rune_len.simps)
  qed
qed

lemma hex_val_bound: "hex_val c = Some x \<Longrightarrow> x < 16"
  by (auto simp: hex_val_def in_range_def split: if_splits)

lemma hex_val_ascii: "hex_val c = Some x \<Longrightarrow> ascii c"
  by (auto simp: hex_val_def in_range_def ascii_def split: if_splits)

lemma hex4_bound:
  assumes "hex4 s = Some u"
  shows "u < 65536" and "4 \<le> length s" and "utf8_valid s = utf8_valid (drop 4 s)"
proof -
  obtain a b c d r w x y z where s: "s = a # b # c # d # r"
    and v: "hex_val a = Some w" "hex_val b = Some x" "hex_val c = Some y" "hex_val d = Some z"
    and u: "u = ((w * 16 + x) * 16 + y) * 16 + z"
    using assms by (cases s rule: hex4.cases) (auto split: option.splits)
  have "u = 4096 * w + 256 * x + 16 * y + z" using u by simp
  moreover have "w \<le> 15" "x \<le> 15" "y \<le> 15" "z \<le> 15" using v [THEN hex_val_bound] by simp_all
  ultimately show "u < 65536" by linarith
  show "4 \<le> length s" using s by simp
  show "utf8_valid s = utf8_valid (drop 4 s)" using v [THEN hex_val_ascii] s by simp
qed

lemma unicodeEscape_bound:
  assumes "unicodeEscape s = Some u"
  shows "u < 65536" and "6 \<le> length s" and "utf8_valid s = utf8_valid (drop 6 s)"
proof -
  obtain r where r: "s = CHR 0x5C # CHR ''u'' # r" "hex4 r = Some u"
    using assms by (cases s rule: unicodeEscape.cases) (auto split: if_splits)
  have "ascii (CHR 0x5C)" "ascii (CHR ''u'')" by (simp_all add: ascii_def)
  with r hex4_bound [OF r(2)] show "u < 65536" and "6 \<le> length s" and "utf8_valid s = utf8_valid (drop 6 s)"
    by simp_all
qed

lemma utf8_encode_fffd: "utf8_valid (utf8_encode 0xfffd @ t) = utf8_valid t"
  by (rule utf8_encode_valid) (simp_all add: high_surrogate_def low_surrogate_def)

lemma utf8_encode_join:
  "high_surrogate u \<Longrightarrow> low_surrogate v \<Longrightarrow> utf8_valid (utf8_encode (join_surrogates u v) @ t) = utf8_valid t"
  by (rule utf8_encode_valid) (auto simp: high_surrogate_def low_surrogate_def join_surrogates_def)

lemma utf8_valid_rune: "utf8_valid s \<Longrightarrow> s \<noteq> [] \<Longrightarrow> rune_len s \<noteq> 0 \<and> utf8_valid (drop (rune_len s) s)"
  by (metis utf8_valid.simps)

lemma simple_escape_ascii: "simple_escape e = Some x \<Longrightarrow> ascii e \<and> ascii x"
  by (auto simp: simple_escape_def ascii_def split: if_splits)

text \<open>
  One step of \<open>string_body\<close>: the closing quote, or a piece of the content that keeps the
  UTF-8 validity of what follows.
\<close>

lemma string_body_step:
  assumes "string_body s = Some (t, r)" and "utf8_valid s"
  shows "s = CHR 0x22 # r \<and> t = [] \<or>
    (\<exists>s' c t'. string_body s' = Some (t', r) \<and> t = c @ t' \<and> length s' < length s \<and> utf8_valid s' \<and>
       (utf8_valid (c @ t') \<longleftrightarrow> utf8_valid t'))"
proof -
  have pre: "\<exists>t'. X = Some (t', r) \<and> t = c @ t'" if "prefix_text c X = Some (t, r)" for c X
    using that by (cases X) (auto simp: prefix_text_def)
  obtain a s1 where s: "s = a # s1" using assms(1) by (cases s) (auto simp: string_body.simps [of "[]"])
  note body = assms(1) [unfolded s, unfolded string_body.simps [of "a # s1"], simplified]
  consider (quote) "a = CHR 0x22" | (escape) "a = CHR 0x5C" | (plain) "a \<noteq> CHR 0x22" "a \<noteq> CHR 0x5C" "ascii a"
    | (high) "a \<noteq> CHR 0x22" "a \<noteq> CHR 0x5C" "\<not> ascii a" by blast
  then show ?thesis
  proof cases
    case quote
    then show ?thesis using body s by simp
  next
    case plain
    then show ?thesis
      using body s assms(2) pre [of "[a]" "string_body s1"] by (fastforce split: if_splits)
  next
    case high
    define k where "k = rune_len s"
    have k: "k \<noteq> 0" "k \<noteq> 1" and rest: "utf8_valid (drop k s)"
      using utf8_valid_rune [OF assms(2)] s high(3) rune_one [of a s1] unfolding k_def by blast+
    have split: "s = take k s @ drop k s" by simp
    have "string_body s = prefix_text (take k s) (string_body (drop k s))"
      using high_byte_scan [of "take k s" "drop k s"] rune_take(2) [of s] k by (simp add: k_def)
    moreover have "piece (take k s) (take k s)" using piece_rune [of s] k by (simp add: k_def)
    moreover obtain t' where "string_body (drop k s) = Some (t', r)" "t = take k s @ t'"
      using calculation(1) pre [of "take k s" "string_body (drop k s)"] assms(1) by auto
    moreover have "length (drop k s) < length s" using k s by simp
    ultimately show ?thesis
      using rest unfolding piece_def by metis
  next
    case escape
    obtain e s2 where s1: "s1 = e # s2" using body escape by (cases s1) auto
    have ua: "ascii (CHR 0x5C)" by (simp add: ascii_def)
    show ?thesis
    proof (cases "e = CHR ''u''")
      case False
      then obtain x where x: "simple_escape e = Some x" "prefix_text [x] (string_body s2) = Some (t, r)"
        using body escape s1 by (auto split: option.splits)
      from pre [OF x(2)] simple_escape_ascii [OF x(1)] show ?thesis
        using s s1 assms(2) escape ua by fastforce
    next
      case True
      then obtain u where u: "hex4 s2 = Some u" using body escape s1 by (auto split: option.splits)
      note h = hex4_bound [OF u]
      have v2: "utf8_valid (drop 4 s2)" using assms(2) s s1 escape True ua h(3) by (simp add: ascii_def)
      have rule1: ?thesis if "prefix_text c (string_body (drop 4 s2)) = Some (t, r)"
          "\<And>t'. utf8_valid (c @ t') = utf8_valid t'" for c
        using pre [OF that(1)] that(2) v2 s s1 by fastforce
      show ?thesis
      proof (cases "high_surrogate u")
        case high: True
        show ?thesis
        proof (cases "\<exists>v. unicodeEscape (drop 4 s2) = Some v \<and> low_surrogate v")
          case True
          then obtain v where v: "unicodeEscape (drop 4 s2) = Some v" "low_surrogate v" by blast
          have "prefix_text (utf8_encode (join_surrogates u v)) (string_body (drop 10 s2)) = Some (t, r)"
            using body escape s1 \<open>e = CHR ''u''\<close> u high v by simp
          moreover have "utf8_valid (drop 10 s2)" using unicodeEscape_bound(3) [OF v(1)] v2 by simp
          ultimately show ?thesis
            using pre [of "utf8_encode (join_surrogates u v)" "string_body (drop 10 s2)"] s s1
              utf8_encode_join [OF high v(2)] by fastforce
        next
          case False
          then have "prefix_text (utf8_encode 0xfffd) (string_body (drop 4 s2)) = Some (t, r)"
            using body escape s1 True u high by (auto split: option.splits)
          then show ?thesis using rule1 utf8_encode_fffd by blast
        qed
      next
        case nh: False
        show ?thesis
        proof (cases "low_surrogate u")
          case True
          then have "prefix_text (utf8_encode 0xfffd) (string_body (drop 4 s2)) = Some (t, r)"
            using body escape s1 \<open>e = CHR ''u''\<close> u nh by simp
          then show ?thesis using rule1 utf8_encode_fffd by blast
        next
          case False
          then have "prefix_text (utf8_encode u) (string_body (drop 4 s2)) = Some (t, r)"
            using body escape s1 \<open>e = CHR ''u''\<close> u nh by simp
          moreover have "utf8_valid (utf8_encode u @ t') = utf8_valid t'" for t'
            by (rule utf8_encode_valid) (use h(1) nh False in simp_all)
          ultimately show ?thesis using rule1 by blast
        qed
      qed
    qed
  qed
qed

lemma string_body_sound:
  "string_body s = Some (t, r) \<Longrightarrow> utf8_valid s \<Longrightarrow> utf8_valid t \<and> utf8_valid r \<and> length r < length s"
proof (induction "length s" arbitrary: s t rule: less_induct)
  case less
  from string_body_step [OF less.prems] show ?case
  proof
    assume "s = CHR 0x22 # r \<and> t = []"
    then show ?thesis using less.prems(2) by (simp add: ascii_def)
  next
    assume "\<exists>s' c t'. string_body s' = Some (t', r) \<and> t = c @ t' \<and> length s' < length s \<and> utf8_valid s' \<and>
       (utf8_valid (c @ t') \<longleftrightarrow> utf8_valid t')"
    then show ?thesis using less.hyps by fastforce
  qed
qed

section \<open>Numbers\<close>

text \<open>A number token stands for itself, whatever followed it.\<close>

lemma digits_of_prefix: "digits_of (fst (digits_of s)) = (fst (digits_of s), [])"
  by (auto simp: digits_of_def dest: set_takeWhileD)

lemma number_int_prefix: "number_int s = Some (i, r) \<Longrightarrow> number_int i = Some (i, [])"
proof (cases s)
  case (Cons c u)
  assume n: "number_int s = Some (i, r)"
  show ?thesis
  proof (cases "c = CHR ''0''")
    case True
    then show ?thesis using n Cons by (auto simp: number_int_def)
  next
    case False
    then have d: "is_digit c" "i = fst (digits_of s)" using n Cons by (auto simp: number_int_def split: if_splits)
    then have "i = c # fst (digits_of u)" using Cons by (simp add: digits_of_def)
    then show ?thesis using d False digits_of_prefix [of s] by (simp add: number_int_def)
  qed
qed (simp add: number_int_def)

lemma number_fraction_shape:
  assumes "number_fraction s = Some (f, r)"
  shows "f = [] \<or> (\<exists>d. f = CHR ''.'' # d \<and> d \<noteq> [] \<and> digits_of d = (d, []))"
  using assms digits_of_prefix by (cases s) (auto simp: number_fraction_def split: if_splits)

lemma number_exponent_shape:
  assumes "number_exponent s = Some (e, r)"
  shows "e = [] \<or> (hd e \<in> {CHR ''e'', CHR ''E''} \<and> number_exponent e = Some (e, []))"
proof (cases "s = [] \<or> hd s \<notin> {CHR ''e'', CHR ''E''}")
  case True
  then show ?thesis using assms by (cases s) (auto simp: number_exponent_def)
next
  case False
  then obtain c u where s: "s = c # u" "c = CHR ''e'' \<or> c = CHR ''E''" by (cases s) auto
  define sg ds where "sg = fst (exponent_sign u)" and "ds = fst (digits_of (snd (exponent_sign u)))"
  have e: "e = c # sg @ ds" "ds \<noteq> []"
    using assms s by (auto simp: number_exponent_def sg_def ds_def split: if_splits)
  have dg: "digits_of ds = (ds, [])" unfolding ds_def by (rule digits_of_prefix)
  have dd: "is_digit (hd ds)" using e(2) unfolding ds_def digits_of_def by (metis fst_conv hd_in_set set_takeWhileD)
  have "exponent_sign (sg @ ds) = (sg, ds)"
  proof (cases "sg = []")
    case True
    then show ?thesis
      using e(2) dd by (cases ds) (auto simp: exponent_sign_def is_digit_def in_range_def)
  next
    case False
    then obtain x where "sg = [x]" "x = CHR ''+'' \<or> x = CHR ''-''"
      by (cases u) (auto simp: sg_def exponent_sign_def split: if_splits)
    then show ?thesis by (auto simp: exponent_sign_def)
  qed
  then show ?thesis using e s(2) dg by (auto simp: number_exponent_def)
qed

lemma number_int_stop:
  assumes "f = [] \<or> \<not> is_digit (hd f)" and "number_int i = Some (i, [])"
  shows "number_int (i @ f) = Some (i, f)"
proof -
  obtain c r where i: "i = c # r" using assms(2) by (cases i) (auto simp: number_int_def)
  show ?thesis
  proof (cases "c = CHR ''0''")
    case True
    then show ?thesis using assms(2) i by (simp add: number_int_def)
  next
    case False
    then have d: "digits_of i = (i, [])" "is_digit c" using assms(2) i by (simp_all add: number_int_def split: if_splits)
    then have "\<forall>c \<in> set i. is_digit c" by (auto simp: digits_of_def)
    then have "digits_of (i @ f) = (i, f)"
      using assms(1) by (cases f) (auto simp: digits_of_def takeWhile_append2 dropWhile_append2)
    then show ?thesis using False d i by (simp add: number_int_def)
  qed
qed

lemma number_unsigned_prefix:
  assumes "number_unsigned s = Some (t, r)"
  shows "number_unsigned t = Some (t, [])"
proof -
  from assms obtain i r1 f r2 e where parts: "number_int s = Some (i, r1)" "number_fraction r1 = Some (f, r2)"
      "number_exponent r2 = Some (e, r)" "t = i @ f @ e"
    by (auto simp: number_unsigned_def split: option.splits)
  note f = number_fraction_shape [OF parts(2)] and e = number_exponent_shape [OF parts(3)]
  have marks: "\<not> is_digit (CHR ''.'')" "\<not> is_digit (CHR ''e'')" "\<not> is_digit (CHR ''E'')"
    by (simp_all add: is_digit_def in_range_def)
  have "number_exponent e = Some (e, [])" using e by (auto simp: number_exponent_def)
  moreover have he: "e = [] \<or> \<not> is_digit (hd e)" using e marks by auto
  have "number_fraction (f @ e) = Some (f, e)"
  proof (cases "f = []")
    case True
    then show ?thesis using e by (cases e) (auto simp: number_fraction_def)
  next
    case False
    then obtain d where d: "f = CHR ''.'' # d" "d \<noteq> []" "digits_of d = (d, [])" using f by blast
    have "digits_of (d @ e) = (d, e)"
      using d(3) he by (cases e) (auto simp: digits_of_def takeWhile_append2 dropWhile_append2)
    then show ?thesis using d by (simp add: number_fraction_def)
  qed
  moreover have "f @ e = [] \<or> \<not> is_digit (hd (f @ e))" using f he marks by auto
  then have "number_int (i @ f @ e) = Some (i, f @ e)"
    using number_int_stop number_int_prefix [OF parts(1)] by blast
  ultimately show ?thesis using parts(4) by (simp add: number_unsigned_def)
qed

lemma number_token_prefix:
  assumes "number_token s = Some (t, r)"
  shows "number_token t = Some (t, [])"
proof (cases "s \<noteq> [] \<and> hd s = CHR ''-''")
  case True
  then obtain u where "t = CHR ''-'' # u" "number_unsigned (tl s) = Some (u, r)"
    using assms by (cases s) (auto simp: number_token_def prefix_text_def split: option.splits)
  then show ?thesis using number_unsigned_prefix [of "tl s" u r] by (simp add: number_token_def prefix_text_def)
next
  case False
  then have u: "number_unsigned s = Some (t, r)" using assms by (cases s) (auto simp: number_token_def)
  then have "t \<noteq> []" "is_digit (hd t)" using number_unsigned_chars [OF u] by auto
  then have "hd t \<noteq> CHR ''-''" by (auto simp: is_digit_def in_range_def)
  then show ?thesis using number_unsigned_prefix [OF u] \<open>t \<noteq> []\<close> by (cases t) (simp_all add: number_token_def)
qed

section \<open>Values\<close>

lemma utf8_valid_suffix:
  assumes "list_all ascii p" and "utf8_valid (p @ r)"
  shows "utf8_valid r"
  using assms by (induction p) auto

lemma skip_space_sound: "utf8_valid s \<Longrightarrow> utf8_valid (skip_space s) \<and> length (skip_space s) \<le> length s"
proof (induction s)
  case (Cons c s)
  have "ascii c" if "json_space c" using that by (auto simp: json_space_def ascii_def)
  then show ?case using Cons by (auto simp: skip_space_def)
qed (simp add: skip_space_def)

lemma skip_space_tl:
  assumes "utf8_valid s" and "skip_space s = c # r" and "ascii c"
  shows "utf8_valid r" and "length r < length s"
  using skip_space_sound [OF assms(1)] assms(2,3) by auto

lemma after_separator_sound:
  assumes "after_separator sep s = Some r" and "utf8_valid s" and "sep = None \<or> (\<exists>c. sep = Some c \<and> ascii c)"
  shows "utf8_valid r \<and> length r \<le> length s"
proof (cases sep)
  case None
  then show ?thesis using assms skip_space_sound by (auto simp: after_separator_def)
next
  case (Some c)
  then obtain t where t: "skip_space s = c # t" "r = skip_space t"
    using assms(1) by (auto simp: after_separator_def split: list.splits if_splits)
  have "utf8_valid t" "length t < length s" using skip_space_tl [OF assms(2) t(1)] assms(3) Some by auto
  then show ?thesis using skip_space_sound [of t] t(2) by auto
qed

lemma strip_literal_sound:
  "strip_literal p s = Some r \<Longrightarrow> list_all ascii p \<Longrightarrow> utf8_valid s \<Longrightarrow> utf8_valid r \<and> length s = length p + length r"
  by (induction p s rule: strip_literal.induct) (auto split: if_splits)

lemma decode_literal_sound:
  assumes "decode_literal w p nodes s = Inr (v, nodes', r)" and "list_all ascii p" and "p \<noteq> []" and "utf8_valid s"
  shows "v = w \<and> nodes' = nodes \<and> utf8_valid r \<and> length r < length s"
proof -
  obtain r' where r': "strip_literal p s = Some r'" "v = w" "nodes' = nodes" "r = r'"
    using assms(1) by (auto simp: decode_literal_def split: option.splits)
  have "0 < length p" using assms(3) by simp
  then show ?thesis using strip_literal_sound [OF r'(1) assms(2,4)] r' by simp
qed

lemma decode_number_sound:
  assumes "decode_number l nodes s = Inr (v, nodes', r)" and "utf8_valid s"
  shows "\<exists>t. v = JNum t \<and> number_wf l t \<and> nodes' = nodes \<and> utf8_valid r \<and> length r < length s"
proof -
  obtain t where t: "number_token s = Some (t, r)" "\<exists>n. normalizeNumber t l = Inr n" "v = JNum t" "nodes' = nodes"
    using assms(1) by (auto simp: decode_number_def split: option.splits)
  note c = number_token_chars [OF t(1)]
  have "list_all ascii t" using c number_char_plain by (auto simp: list_all_iff plain_char_def)
  then have "utf8_valid r" using utf8_valid_suffix [of t r] c assms(2) by simp
  moreover have "length r < length s" using c by auto
  moreover have "number_wf l t" using t number_token_prefix [OF t(1)] by (simp add: number_wf_def)
  ultimately show ?thesis using t by blast
qed

lemma decode_scalar_sound:
  assumes "decode_scalar l nodes s = Inr (v, nodes', r)" and "utf8_valid s" and "s \<noteq> []"
  shows "json_wf l v \<and> json_height v = 1 \<and> json_count v = 1 \<and> nodes' = nodes \<and> utf8_valid r \<and> length r < length s"
proof -
  consider "hd s = CHR 0x22" "decode_string l nodes (tl s) = Inr (v, nodes', r)"
    | "decode_literal (JBool True) ''true'' nodes s = Inr (v, nodes', r)"
    | "decode_literal (JBool False) ''false'' nodes s = Inr (v, nodes', r)"
    | "decode_literal JNull ''null'' nodes s = Inr (v, nodes', r)"
    | "decode_number l nodes s = Inr (v, nodes', r)"
    using assms(1) by (auto simp: decode_scalar_def split: if_splits)
  then show ?thesis
  proof cases
    case 1
    obtain u where s: "s = CHR 0x22 # u" using 1(1) assms(3) by (cases s) auto
    obtain t where t: "string_body u = Some (t, r)" "v = JStr t" "nodes' = nodes" "int (length t) \<le> MaxStringBytes l"
      using 1(2) s by (auto simp: decode_string_def split: option.splits if_splits)
    have "utf8_valid u" using assms(2) s by (simp add: ascii_def)
    then show ?thesis using string_body_sound [OF t(1)] t s by (simp add: string_wf_def)
  next
    case 5
    then show ?thesis using decode_number_sound [OF 5 assms(2)] by auto
  qed (use decode_literal_sound assms(2) in \<open>fastforce simp: ascii_def\<close>)+
qed

text \<open>What a successful call of the decoder returns, by what it was reading.\<close>

definition decoded_ok :: "Limits \<Rightarrow> reading \<Rightarrow> int \<Rightarrow> int \<Rightarrow> string \<Rightarrow> json \<Rightarrow> int \<Rightarrow> string \<Rightarrow> bool" where
  "decoded_ok l rd depth nodes s v nodes' r \<longleftrightarrow> utf8_valid r \<and> length r < length s \<and>
     (case rd of
        Value_After _ \<Rightarrow> json_wf l v \<and> nodes' = nodes + json_count v \<and> nodes' \<le> MaxNodes l \<and>
          depth + json_height v \<le> MaxDepth l + 1
      | Array_After acc \<Rightarrow> (\<exists>vs. v = JArr (acc @ vs) \<and> list_all (json_wf l) vs \<and>
          nodes' = nodes + sum_list (map json_count vs) \<and> (nodes \<le> MaxNodes l \<longrightarrow> nodes' \<le> MaxNodes l) \<and>
          (\<forall>v \<in> set vs. depth + json_height v \<le> MaxDepth l))
      | Object_After acc \<Rightarrow> (\<exists>kvs. v = JObj (acc @ kvs) \<and> (distinct (map fst acc) \<longrightarrow> distinct (map fst (acc @ kvs))) \<and>
          list_all (\<lambda>kv. string_wf l (fst kv) \<and> json_wf l (snd kv)) kvs \<and>
          nodes' = nodes + sum_list (map (\<lambda>kv. json_count (snd kv)) kvs) \<and>
          (nodes \<le> MaxNodes l \<longrightarrow> nodes' \<le> MaxNodes l) \<and>
          (\<forall>kv \<in> set kvs. depth + json_height (snd kv) \<le> MaxDepth l)))"

definition ascii_separator :: "reading \<Rightarrow> bool" where
  "ascii_separator rd = (case rd of Value_After (Some c) \<Rightarrow> ascii c | _ \<Rightarrow> True)"

lemma value_token_sound:
  assumes part: "\<And>rd depth nodes s v nodes' r. ascii_separator rd \<Longrightarrow> part rd depth nodes s = Inr (v, nodes', r) \<Longrightarrow>
      utf8_valid s \<Longrightarrow> decoded_ok l rd depth nodes s v nodes' r"
    and "value_token part l depth (nodes + 1) s = Inr (v, nodes', r)" and "utf8_valid s"
    and "depth \<le> MaxDepth l" and "nodes + 1 \<le> MaxNodes l"
  shows "decoded_ok l (Value_After sep) depth nodes s v nodes' r"
proof -
  obtain c u where s: "s = c # u" using assms(2) by (cases s) (auto simp: value_token_def)
  have br: "ascii (CHR ''{'')" "ascii (CHR ''['')" by (simp_all add: ascii_def)
  consider "c = CHR ''{''" "part (Object_After []) depth (nodes + 1) u = Inr (v, nodes', r)"
    | "c = CHR ''[''" "part (Array_After []) depth (nodes + 1) u = Inr (v, nodes', r)"
    | "decode_scalar l (nodes + 1) s = Inr (v, nodes', r)"
    using assms(2) s by (auto simp: value_token_def split: if_splits)
  then show ?thesis
  proof cases
    case 1
    have u: "utf8_valid u" using 1(1) s assms(3) br by simp
    have "decoded_ok l (Object_After []) depth (nodes + 1) u v nodes' r"
      by (rule part [OF _ 1(2) u]) (simp add: ascii_separator_def)
    then obtain kvs where kvs: "v = JObj kvs" "distinct (map fst kvs)"
        "list_all (\<lambda>kv. string_wf l (fst kv) \<and> json_wf l (snd kv)) kvs"
        "nodes' = nodes + 1 + sum_list (map (\<lambda>kv. json_count (snd kv)) kvs)" "nodes' \<le> MaxNodes l"
        "\<forall>kv \<in> set kvs. depth + json_height (snd kv) \<le> MaxDepth l" "utf8_valid r" "length r < length u"
      using assms(5) by (auto simp: decoded_ok_def)
    have "foldr max (map (\<lambda>kv. json_height (snd kv)) kvs) 0 \<le> MaxDepth l - depth"
      using kvs(6) assms(4) by (intro foldr_max_le) fastforce+
    then show ?thesis using kvs s by (simp add: decoded_ok_def)
  next
    case 2
    have u: "utf8_valid u" using 2(1) s assms(3) br by simp
    have "decoded_ok l (Array_After []) depth (nodes + 1) u v nodes' r"
      by (rule part [OF _ 2(2) u]) (simp add: ascii_separator_def)
    then obtain vs where vs: "v = JArr vs" "list_all (json_wf l) vs"
        "nodes' = nodes + 1 + sum_list (map json_count vs)" "nodes' \<le> MaxNodes l"
        "\<forall>v \<in> set vs. depth + json_height v \<le> MaxDepth l" "utf8_valid r" "length r < length u"
      using assms(5) by (auto simp: decoded_ok_def)
    have "foldr max (map json_height vs) 0 \<le> MaxDepth l - depth"
      using vs(5) assms(4) by (intro foldr_max_le) fastforce+
    then show ?thesis using vs s by (simp add: decoded_ok_def)
  next
    case 3
    then show ?thesis using decode_scalar_sound [OF 3 assms(3)] s assms(4,5) by (auto simp: decoded_ok_def)
  qed
qed

lemma decode_key_sound:
  assumes "decode_key l (if first then None else Some (CHR '','')) s = Inr (k, r)" and "utf8_valid s"
  shows "string_wf l k \<and> utf8_valid r \<and> length r < length s"
proof -
  obtain u where u: "after_separator (if first then None else Some (CHR '','')) s = Some u" "u \<noteq> []" "hd u = CHR 0x22"
      "string_body (tl u) = Some (k, r)" "int (length k) \<le> MaxStringBytes l"
    using assms(1) by (auto simp: decode_key_def split: option.splits if_splits)
  have "utf8_valid u \<and> length u \<le> length s"
    using after_separator_sound [OF u(1) assms(2)] by (auto simp: ascii_def)
  moreover obtain w where "u = CHR 0x22 # w" using u by (cases u) auto
  ultimately show ?thesis
    using string_body_sound [of w k r] u(4,5) by (auto simp: string_wf_def ascii_def)
qed

lemma decode_sound:
  "ascii_separator rd \<Longrightarrow> decode n l rd depth nodes s = Inr (v, nodes', r) \<Longrightarrow> utf8_valid s \<Longrightarrow>
     decoded_ok l rd depth nodes s v nodes' r"
proof (induction n arbitrary: rd depth nodes s v nodes' r)
  case (Suc n)
  show ?case
  proof (cases rd)
    case (Value_After sep)
    then obtain u where u: "depth \<le> MaxDepth l" "nodes + 1 \<le> MaxNodes l" "after_separator sep s = Some u"
        "value_token (decode n l) l depth (nodes + 1) u = Inr (v, nodes', r)"
      using Suc.prems(2) by (auto simp: state_value_def split: if_splits option.splits)
    have "utf8_valid u \<and> length u \<le> length s"
      using after_separator_sound [OF u(3) Suc.prems(3)] Suc.prems(1) Value_After
      by (cases sep) (auto simp: ascii_separator_def)
    then show ?thesis
      using value_token_sound [OF Suc.IH u(4) _ u(1,2), of sep] Value_After by (auto simp: decoded_ok_def)
  next
    case (Object_After acc)
    show ?thesis
    proof (cases "hd (skip_space s) = CHR ''}''")
      case True
      then obtain t where t: "skip_space s = CHR ''}'' # t"
        using Suc.prems(2) Object_After by (cases "skip_space s") (auto simp: state_object_def)
      then show ?thesis
        using Suc.prems(2) Object_After skip_space_tl [OF Suc.prems(3) t]
        by (auto simp: state_object_def decoded_ok_def ascii_def intro!: exI [of _ "[]"])
    next
      case False
      then obtain k r1 w n1 r2 where
          k: "decode_key l (if acc = [] then None else Some (CHR '','')) s = Inr (k, r1)"
        and new: "k \<notin> set (map fst acc)"
        and val: "decode n l (Value_After (Some (CHR '':''))) (depth + 1) nodes r1 = Inr (w, n1, r2)"
        and rest: "decode n l (Object_After (acc @ [(k, w)])) depth n1 r2 = Inr (v, nodes', r)"
        using Suc.prems(2) Object_After by (auto simp: state_object_def split: if_splits)
      note ks = decode_key_sound [OF k Suc.prems(3)]
      have vs: "decoded_ok l (Value_After (Some (CHR '':''))) (depth + 1) nodes r1 w n1 r2"
        using Suc.IH [OF _ val] ks by (simp add: ascii_separator_def ascii_def)
      then have "decoded_ok l (Object_After (acc @ [(k, w)])) depth n1 r2 v nodes' r"
        using Suc.IH [OF _ rest] by (simp add: ascii_separator_def decoded_ok_def)
      then obtain kvs where kvs: "v = JObj (acc @ (k, w) # kvs)"
          "distinct (map fst (acc @ [(k, w)])) \<longrightarrow> distinct (map fst (acc @ (k, w) # kvs))"
          "list_all (\<lambda>kv. string_wf l (fst kv) \<and> json_wf l (snd kv)) kvs"
          "nodes' = n1 + sum_list (map (\<lambda>kv. json_count (snd kv)) kvs)" "n1 \<le> MaxNodes l \<longrightarrow> nodes' \<le> MaxNodes l"
          "\<forall>kv \<in> set kvs. depth + json_height (snd kv) \<le> MaxDepth l" "utf8_valid r" "length r < length r2"
        by (auto simp: decoded_ok_def)
      show ?thesis
        unfolding Object_After decoded_ok_def
        using kvs vs ks new by (auto simp: decoded_ok_def intro!: exI [of _ "(k, w) # kvs"])
    qed
  next
    case (Array_After acc)
    show ?thesis
    proof (cases "hd (skip_space s) = CHR '']''")
      case True
      then obtain t where t: "skip_space s = CHR '']'' # t"
        using Suc.prems(2) Array_After by (cases "skip_space s") (auto simp: state_array_def)
      then show ?thesis
        using Suc.prems(2) Array_After skip_space_tl [OF Suc.prems(3) t]
        by (auto simp: state_array_def decoded_ok_def ascii_def intro!: exI [of _ "[]"])
    next
      case False
      then obtain w n1 r2 where
          val: "decode n l (Value_After (if acc = [] then None else Some (CHR '',''))) (depth + 1) nodes s = Inr (w, n1, r2)"
        and rest: "decode n l (Array_After (acc @ [w])) depth n1 r2 = Inr (v, nodes', r)"
        using Suc.prems(2) Array_After by (auto simp: state_array_def split: if_splits)
      have vs: "decoded_ok l (Value_After (if acc = [] then None else Some (CHR '',''))) (depth + 1) nodes s w n1 r2"
        using Suc.IH [OF _ val Suc.prems(3)] by (simp add: ascii_separator_def ascii_def)
      then have "decoded_ok l (Array_After (acc @ [w])) depth n1 r2 v nodes' r"
        using Suc.IH [OF _ rest] by (simp add: ascii_separator_def decoded_ok_def)
      then obtain us where us: "v = JArr (acc @ w # us)" "list_all (json_wf l) us"
          "nodes' = n1 + sum_list (map json_count us)" "n1 \<le> MaxNodes l \<longrightarrow> nodes' \<le> MaxNodes l"
          "\<forall>v \<in> set us. depth + json_height v \<le> MaxDepth l" "utf8_valid r" "length r < length r2"
        by (auto simp: decoded_ok_def)
      show ?thesis
        unfolding Array_After decoded_ok_def
        using us vs by (auto simp: decoded_ok_def intro!: exI [of _ "w # us"])
    qed
  qed
qed simp

theorem Decode_sound:
  assumes "Decode raw l = Inr v"
  shows "json_fits l v" and "Limits_validate l = None"
proof -
  obtain nodes r where d: "decode (2 * length raw + 2) l (Value_After None) 1 0 raw = Inr (v, nodes, r)"
    and u: "utf8_valid raw" and l: "Limits_validate l = None"
    using assms by (auto simp: Decode_def simp del: decode.simps split: if_splits)
  from decode_sound [OF _ d u] show "json_fits l v"
    by (simp add: ascii_separator_def decoded_ok_def json_fits_def)
  from l show "Limits_validate l = None" .
qed

section \<open>The fuel is enough\<close>

abbreviation out_of_fuel :: "'a result" where "out_of_fuel \<equiv> Inl (Errorf ''out of fuel'')"

definition fuel_for :: "reading \<Rightarrow> string \<Rightarrow> nat" where
  "fuel_for rd s = (case rd of Value_After _ \<Rightarrow> 2 * length s + 1 | _ \<Rightarrow> 2 * length s + 2)"

lemma andThen_not: "r \<noteq> Inl e \<Longrightarrow> (\<And>x. k x \<noteq> Inl e) \<Longrightarrow> andThen r k \<noteq> Inl e"
  by (cases r) auto

lemma ensure_not: "v \<noteq> Some e \<Longrightarrow> k \<noteq> Inl e \<Longrightarrow> ensure v k \<noteq> Inl e"
  by (cases v) auto

lemma fail_if_not: "e \<noteq> e' \<Longrightarrow> fail_if b e \<noteq> Some e'"
  by (simp add: fail_if_def)

lemma normalizeNumber_errors: "normalizeNumber t l \<noteq> out_of_fuel"
proof -
  have "plain_notation ds sc l \<noteq> out_of_fuel" for ds sc
    unfolding plain_notation_def by (simp add: ensure_not fail_if_not)
  moreover have "finish_number neg l x \<noteq> out_of_fuel" for neg x
    unfolding finish_number_def by (rule ensure_not) (simp_all add: fail_if_not)
  ultimately have "normalize_mantissa neg i f e l \<noteq> out_of_fuel" for neg i f e
    unfolding normalize_mantissa_def normalize_digits_def
    by (intro ensure_not) (simp_all add: fail_if_not andThen_not)
  then have "normalize_unsigned neg r l \<noteq> out_of_fuel" for neg r
    unfolding normalize_unsigned_def by (simp split: option.split)
  then show ?thesis unfolding normalizeNumber_def by (simp split: list.split)
qed

lemma scalar_errors: "decode_scalar l nodes s \<noteq> out_of_fuel" "decode_key l sep s \<noteq> out_of_fuel"
proof -
  have "decode_number l nodes s \<noteq> out_of_fuel"
    using normalizeNumber_errors by (auto simp: decode_number_def andThen_def split: option.splits sum.splits)
  then show "decode_scalar l nodes s \<noteq> out_of_fuel"
    by (auto simp: decode_scalar_def decode_string_def decode_literal_def split: option.splits)
  show "decode_key l sep s \<noteq> out_of_fuel" by (auto simp: decode_key_def split: option.splits)
qed

lemma decode_fuel:
  "ascii_separator rd \<Longrightarrow> utf8_valid s \<Longrightarrow> fuel_for rd s \<le> n \<Longrightarrow> decode n l rd depth nodes s \<noteq> out_of_fuel"
proof (induction n arbitrary: rd depth nodes s)
  case 0
  then show ?case by (auto simp: fuel_for_def split: reading.splits)
next
  case (Suc n)
  show ?case
  proof (cases rd)
    case (Value_After sep)
    show ?thesis
    proof (cases "after_separator sep s")
      case None
      then show ?thesis using Value_After by (auto simp: state_value_def)
    next
      case (Some u)
      have u: "utf8_valid u" "length u \<le> length s"
        using after_separator_sound [OF Some Suc.prems(2)] Suc.prems(1) Value_After
        by (cases sep; auto simp: ascii_separator_def)+
      have n: "2 * length s \<le> n" using Suc.prems(3) Value_After by (simp add: fuel_for_def)
      have "value_token (decode n l) l depth nodes' u \<noteq> out_of_fuel" for nodes'
      proof (cases "u \<noteq> [] \<and> hd u \<in> {CHR ''{'', CHR ''[''}")
        case True
        then obtain c w where w: "u = c # w" "ascii c" by (cases u) (auto simp: ascii_def)
        then have "utf8_valid w" "2 * length w + 2 \<le> n" using u n by auto
        then show ?thesis
          using True w(1) Suc.IH [of "Object_After []" w] Suc.IH [of "Array_After []" w]
          by (auto simp: value_token_def ascii_separator_def fuel_for_def)
      next
        case False
        then show ?thesis using scalar_errors(1) by (auto simp: value_token_def)
      qed
      then show ?thesis using Value_After Some by (auto simp: state_value_def)
    qed
  next
    case (Object_After acc)
    have n: "2 * length s + 1 \<le> n" using Suc.prems(3) Object_After by (simp add: fuel_for_def)
    show ?thesis
    proof (cases "decode_key l (if acc = [] then None else Some (CHR '','')) s")
      case (Inl e)
      then have "e \<noteq> Errorf ''out of fuel''" using scalar_errors(2) by metis
      then show ?thesis using Object_After Inl by (simp add: state_object_def)
    next
      case (Inr kr)
      obtain k r where kr: "kr = (k, r)" by (cases kr)
      note ks = decode_key_sound [OF Inr [unfolded kr] Suc.prems(2)]
      have v: "decode n l (Value_After (Some (CHR '':''))) (depth + 1) nodes r \<noteq> out_of_fuel"
        by (rule Suc.IH) (use ks n in \<open>auto simp: ascii_separator_def ascii_def fuel_for_def\<close>)
      have rest: "decode n l (Object_After a) depth n1 r2 \<noteq> out_of_fuel"
        if "decode n l (Value_After (Some (CHR '':''))) (depth + 1) nodes r = Inr (w, n1, r2)" for w n1 r2 a
      proof -
        have "decoded_ok l (Value_After (Some (CHR '':''))) (depth + 1) nodes r w n1 r2"
          by (rule decode_sound [OF _ that]) (use ks in \<open>auto simp: ascii_separator_def ascii_def\<close>)
        then show ?thesis
          using Suc.IH [of "Object_After a" r2] ks n by (auto simp: decoded_ok_def ascii_separator_def fuel_for_def)
      qed
      show ?thesis
      proof (cases "decode n l (Value_After (Some (CHR '':''))) (depth + 1) nodes r")
        case err: (Inl e)
        then show ?thesis using Object_After Inr kr v by (auto simp: state_object_def ensure_def fail_if_def)
      next
        case ok: (Inr x)
        then show ?thesis
          using Object_After Inr kr rest by (cases x) (auto simp: state_object_def ensure_def fail_if_def)
      qed
    qed
  next
    case (Array_After acc)
    have n: "2 * length s + 1 \<le> n" using Suc.prems(3) Array_After by (simp add: fuel_for_def)
    define sep where "sep = (if acc = [] then None else Some (CHR '',''))"
    have asep: "ascii_separator (Value_After sep)" by (simp add: sep_def ascii_separator_def ascii_def)
    have v: "decode n l (Value_After sep) (depth + 1) nodes s \<noteq> out_of_fuel"
      by (rule Suc.IH) (use asep Suc.prems(2) n in \<open>auto simp: fuel_for_def\<close>)
    have rest: "decode n l (Array_After a) depth n1 r2 \<noteq> out_of_fuel"
      if "decode n l (Value_After sep) (depth + 1) nodes s = Inr (w, n1, r2)" for w n1 r2 a
      using decode_sound [OF asep that Suc.prems(2)] Suc.IH [of "Array_After a" r2] n
      by (auto simp: decoded_ok_def ascii_separator_def fuel_for_def)
    show ?thesis
    proof (cases "decode n l (Value_After sep) (depth + 1) nodes s")
      case (Inl e)
      then show ?thesis using Array_After v by (auto simp: state_array_def sep_def)
    next
      case (Inr x)
      then show ?thesis using Array_After rest by (cases x) (auto simp: state_array_def sep_def)
    qed
  qed
qed

section \<open>Properties\<close>

text \<open>
  C4: the decoder always finishes by itself: on no input and under no limits does it stop
  because its fuel ran out.
\<close>

theorem Decode_terminates: "Decode raw l \<noteq> Inl (Errorf ''out of fuel'')"
proof -
  have rj: "rejectUnpairedSurrogates b s \<noteq> Some (Errorf ''out of fuel'')" for b s
    by (induction b s rule: rejectUnpairedSurrogates.induct) (auto split: option.splits)
  have "decode (2 * length raw + 2) l (Value_After None) 1 0 raw \<noteq> out_of_fuel" if "utf8_valid raw"
    by (rule decode_fuel) (use that in \<open>auto simp: ascii_separator_def fuel_for_def\<close>)
  then show ?thesis
    using rj by (auto simp: Decode_def ensure_def fail_if_def andThen_def Limits_validate_def simp del: decode.simps
        split: option.splits sum.splits if_splits)
qed

lemma canonical_fixpoint:
  assumes "CanonicalizeWithLimits raw l = Inr c" and "MaxCanonicalBytes l \<le> MaxInputBytes l"
  shows "CanonicalizeWithLimits c l = Inr c"
proof -
  obtain v where v: "Decode raw l = Inr v" "appendValue l [] v = Inr c"
    using assms(1) by (auto simp: CanonicalizeWithLimits_def bounded_output_simps)
  have fit: "json_fits l v" and lim: "Limits_validate l = None" using Decode_sound [OF v(1)] by auto
  have wf: "json_wf l v" using fit by (simp add: json_fits_def)
  have c: "c = canonical_text l v" "int (length c) \<le> MaxCanonicalBytes l"
    using appendValue_eq [OF wf, of "[]"] v(2) by (simp_all add: bounded_output_def split: if_splits)
  have ex: "0 < MaxExponent l" using lim by (simp add: Limits_validate_def)
  have pr: "json_printer l quoted (canon_number l)" by (rule canonical_printer [OF ex])
  have dec: "Decode c l = Inr (image_json (canon_number l) v)"
    using json_printer.Decode_print [OF pr lim fit] c assms(2) by (simp add: canonical_text_def)
  have nw: "number_wf l (canon_number l t)" "canon_number l (canon_number l t) = canon_number l t" if "number_wf l t" for t
    using json_printer.num_wf [OF pr that] that normalizeNumber_idempotent(1) [OF _ ex]
    by (auto simp: number_wf_def canon_number_def)
  have "json_wf l (image_json (canon_number l) v)" by (rule image_json_wf [OF wf nw(1)])
  then have "appendValue l [] (image_json (canon_number l) v) = bounded_output l c"
    using appendValue_eq canonical_text_image [OF wf nw(2)] c(1) by simp
  then show ?thesis using dec c(2) by (simp add: CanonicalizeWithLimits_def bounded_output_def)
qed

text \<open>
  C5: canonicalisation is idempotent: a canonical text is its own canonical text under the
  same limits, provided the input limit admits texts as long as the output limit does.
\<close>

theorem Canonicalize_idempotent:
  assumes "CanonicalizeWithLimits raw l = Inr c" and "MaxCanonicalBytes l \<le> MaxInputBytes l"
  shows "CanonicalizeWithLimits c l = Inr c"
  by (rule canonical_fixpoint [OF assms])

theorem Canonicalize_idempotent_witness:
  "CanonicalizeWithLimits '' [ 1.50e1, -0, true ] '' DefaultLimits = Inr ''[15,0,true]'' \<and>
   CanonicalizeWithLimits ''[15,0,true]'' DefaultLimits = Inr ''[15,0,true]''"
proof -
  have *: "CanonicalizeWithLimits '' [ 1.50e1, -0, true ] '' DefaultLimits = Inr ''[15,0,true]''"
    by code_simp
  then show ?thesis
    using Canonicalize_idempotent [OF *] by (simp add: DefaultLimits_def)
qed

lemma Canonicalize_text:
  assumes "Decode raw l = Inr v" and "CanonicalizeWithLimits raw l = Inr c"
  shows "c = canonical_text l v" and "int (length c) \<le> MaxCanonicalBytes l"
proof -
  have "json_wf l v" using Decode_sound(1) [OF assms(1)] by (simp add: json_fits_def)
  then have "bounded_output l (canonical_text l v) = Inr c"
    using appendValue_eq [of l v "[]"] assms by (auto simp: CanonicalizeWithLimits_def bounded_output_simps)
  then show "c = canonical_text l v" and "int (length c) \<le> MaxCanonicalBytes l"
    by (simp_all add: bounded_output_simps)
qed

text \<open>
  Two accepted texts have the same canonical bytes exactly when the decoder makes the same value of
  both, up to the order of members and the normal form of numbers.
\<close>

lemma canonical_bytes_image:
  assumes "Decode raw l = Inr v" and "CanonicalizeWithLimits raw l = Inr c"
    and "Decode raw' l = Inr v'" and "CanonicalizeWithLimits raw' l = Inr c'"
    and "MaxCanonicalBytes l \<le> MaxInputBytes l"
  shows "c = c' \<longleftrightarrow> image_json (canon_number l) v = image_json (canon_number l) v'"
proof -
  have lim: "Limits_validate l = None" using Decode_sound(2) [OF assms(1)] .
  then have ex: "0 < MaxExponent l" by (simp add: Limits_validate_def)
  note pr = canonical_printer [OF ex]
  have redecoded: "Decode c l = Inr (image_json (canon_number l) v)" if "Decode raw l = Inr v"
      "CanonicalizeWithLimits raw l = Inr c" for raw v c
    using json_printer.Decode_print [OF pr lim Decode_sound(1) [OF that(1)]] Canonicalize_text [OF that] assms(5)
    by (simp add: canonical_text_def)
  have same: "canonical_text l v = canonical_text l (image_json (canon_number l) v)" if "Decode raw l = Inr v" for raw v
    using Decode_sound(1) [OF that] normalizeNumber_idempotent(1) [OF _ ex]
    by (intro canonical_text_image [symmetric]) (auto simp: json_fits_def number_wf_def canon_number_def)
  have c: "c = canonical_text l (image_json (canon_number l) v)" "c' = canonical_text l (image_json (canon_number l) v')"
    using same [OF assms(1)] same [OF assms(3)] Canonicalize_text(1) [OF assms(1,2)] Canonicalize_text(1) [OF assms(3,4)]
    by simp_all
  show ?thesis
  proof
    assume "c = c'"
    then show "image_json (canon_number l) v = image_json (canon_number l) v'"
      using redecoded [OF assms(1,2)] redecoded [OF assms(3,4)] by simp
  next
    assume "image_json (canon_number l) v = image_json (canon_number l) v'"
    then show "c = c'" by (simp only: c)
  qed
qed

end
