(* ===== verification/Json_Content.thy ===== *)
theory Json_Content
  imports Complex_Main Json_Soundness
begin

text \<open>
  What a JSON text denotes, independently of how the sources normalise it: a number is a rational, an
  object is a finite map. Canonical bytes decide equality of what is denoted.
\<close>

section \<open>The value of a number\<close>

definition mantissa_text :: "string \<Rightarrow> string" where
  "mantissa_text s = takeWhile (\<lambda>c. c \<noteq> CHR ''e'' \<and> c \<noteq> CHR ''E'') s"

definition exponent_value :: "string \<Rightarrow> int" where
  "exponent_value s = (case dropWhile (\<lambda>c. c \<noteq> CHR ''e'' \<and> c \<noteq> CHR ''E'') s of [] \<Rightarrow> 0
     | _ # [] \<Rightarrow> 0
     | _ # c # ds \<Rightarrow> if c = CHR ''-'' then - digits_value ds else if c = CHR ''+'' then digits_value ds else digits_value (c # ds))"

definition whole_text :: "string \<Rightarrow> string" where
  "whole_text s = takeWhile (\<lambda>c. c \<noteq> CHR ''.'') (mantissa_text s)"

definition decimals_text :: "string \<Rightarrow> string" where
  "decimals_text s = drop (Suc (length (whole_text s))) (mantissa_text s)"

definition unsigned_value :: "string \<Rightarrow> rat" where
  "unsigned_value s = of_int (digits_value (whole_text s @ decimals_text s)) * 10 powi (exponent_value s - int (length (decimals_text s)))"

definition number_value :: "string \<Rightarrow> rat" where
  "number_value s = (if s \<noteq> [] \<and> hd s = CHR ''-'' then - unsigned_value (tl s) else unsigned_value s)"

section \<open>Digits\<close>

lemma digits_fold: "fold (\<lambda>c n. 10 * n + int (byte_val c - 48)) s m = m * 10 ^ length s + digits_value s"
proof (induction s arbitrary: m)
  case (Cons c s)
  show ?case using Cons.IH [of "10 * m + int (byte_val c - 48)"] Cons.IH [of "int (byte_val c - 48)"]
    by (simp add: digits_value_def algebra_simps)
qed (simp add: digits_value_def)

lemma digits_value_append: "digits_value (s @ t) = digits_value s * 10 ^ length t + digits_value t"
proof -
  have "digits_value (s @ t) = fold (\<lambda>c n. 10 * n + int (byte_val c - 48)) t (digits_value s)" by (simp add: digits_value_def)
  then show ?thesis by (simp only: digits_fold)
qed

lemma digits_value_zeros: "digits_value (replicate n (CHR ''0'')) = 0"
  by (induction n) (simp_all add: digits_value_def)

lemma digits_value_single: "digits_value [c] = int (byte_val c - 48)"
  by (simp add: digits_value_def)

lemma digits_value_nonneg: "0 \<le> digits_value s"
  by (induction s rule: rev_induct) (simp_all add: digits_value_append digits_value_single, simp add: digits_value_def)

lemma digit_bounds: "is_digit c \<Longrightarrow> int (byte_val c - 48) < 10 \<and> (int (byte_val c - 48) = 0 \<longleftrightarrow> c = CHR ''0'')"
proof -
  assume "is_digit c"
  then have b: "48 \<le> byte_val c" "byte_val c \<le> 57" by (simp_all add: is_digit_def in_range_def)
  have "byte_val c = 48 \<longleftrightarrow> c = CHR ''0''" using of_char_eq_iff [of c "CHR ''0''", where ?'a = nat] by simp
  then show ?thesis using b by auto
qed

lemma digits_value_bound: "list_all is_digit s \<Longrightarrow> digits_value s < 10 ^ length s"
proof (induction s rule: rev_induct)
  case (snoc c s)
  have "int (byte_val c - 48) < 10" using snoc.prems digit_bounds [of c] by simp
  then show ?case using snoc by (simp add: digits_value_append digits_value_single)
qed (simp add: digits_value_def)

lemma digit_strings_inj:
  assumes "length s = length t" and "list_all is_digit s" and "list_all is_digit t" and "digits_value s = digits_value t"
  shows "s = t"
  using assms
proof (induction s arbitrary: t rule: rev_induct)
  case (snoc c s)
  obtain u d where t: "t = u @ [d]" using snoc.prems(1) by (cases t rule: rev_cases) auto
  have d: "is_digit c" "is_digit d" using snoc.prems(2,3) t by simp_all
  note b = digit_bounds [OF d(1)] digit_bounds [OF d(2)]
  have e: "10 * digits_value s + int (byte_val c - 48) = 10 * digits_value u + int (byte_val d - 48)"
    using snoc.prems(4) by (simp add: t digits_value_append digits_value_single mult.commute)
  moreover have "x = y \<and> p = q" if "10 * x + p = 10 * y + q" "0 \<le> p" "p < 10" "0 \<le> q" "q < 10" for x y p q :: int
    using that by presburger
  ultimately have v: "digits_value s = digits_value u" "int (byte_val c - 48) = int (byte_val d - 48)"
    using b of_nat_0_le_iff by blast+
  moreover have "48 \<le> byte_val c" "48 \<le> byte_val d" using d by (simp_all add: is_digit_def in_range_def)
  ultimately have "byte_val c = byte_val d" by simp
  then have "c = d" by (simp add: of_char_eq_iff)
  moreover have "s = u" using snoc.IH [of u] snoc.prems t v(1) by simp
  ultimately show ?case by (simp add: t)
qed simp

lemma digits_leading: "c \<noteq> CHR ''0'' \<Longrightarrow> is_digit c \<Longrightarrow> 10 ^ length s \<le> digits_value (c # s)"
proof -
  assume "c \<noteq> CHR ''0''" "is_digit c"
  then have "1 \<le> int (byte_val c - 48)" using digit_bounds [of c] by linarith
  then have "1 * 10 ^ length s \<le> int (byte_val c - 48) * 10 ^ length s" by (rule mult_right_mono) simp
  also have "\<dots> \<le> int (byte_val c - 48) * 10 ^ length s + digits_value s" using digits_value_nonneg [of s] by simp
  also have "\<dots> = digits_value (c # s)" using digits_value_append [of "[c]" s] by (simp only: digits_value_single append.simps)
  finally show ?thesis by simp
qed

lemma digits_value_drop_zeros: "digits_value (dropWhile (\<lambda>c. c = CHR ''0'') s) = digits_value s"
proof -
  have "digits_value s = digits_value (replicate n (CHR ''0'') @ dropWhile (\<lambda>c. c = CHR ''0'') s)"
    if "n = length s - length (dropWhile (\<lambda>c. c = CHR ''0'') s)" for n
    using that zeros_dropWhile [of s] by simp
  then show ?thesis by (simp add: digits_value_append digits_value_zeros)
qed

lemma digits_value_pad: "digits_value (s @ replicate n (CHR ''0'')) = digits_value s * 10 ^ n"
  by (simp add: digits_value_append digits_value_zeros)

lemma trimmed_fraction:
  assumes "list_all is_digit f"
  obtains g k where "f = g @ replicate k (CHR ''0'')" "g = [] \<or> fraction_part g"
    "trim_point (trim_right_zeros (i @ ''.'' @ f)) = (if g = [] then i else i @ ''.'' @ g)"
proof -
  define g where "g = rev (dropWhile (\<lambda>c. c = CHR ''0'') (rev f))"
  have f: "f = g @ replicate (length f - length g) (CHR ''0'')"
    using zeros_dropWhile [of "rev f"] unfolding g_def by (metis length_rev rev_append rev_replicate rev_rev_ident)
  have d: "list_all is_digit g" using assms f by (metis list_all_append)
  have last: "last g \<noteq> CHR ''0''" if "g \<noteq> []"
    using that hd_dropWhile [of "\<lambda>c. c = CHR ''0''" "rev f"] unfolding g_def
    by (cases "dropWhile (\<lambda>c. c = CHR ''0'') (rev f)") (auto simp: last_rev)
  have frac: "g = [] \<or> fraction_part g" using d last by (auto simp: fraction_part_def decimalDigits_def)
  have "dropWhile (\<lambda>c. c = CHR ''0'') (replicate n (CHR ''0'') @ x) = dropWhile (\<lambda>c. c = CHR ''0'') x" for n x
    by (induction n) auto
  then have z: "trim_right_zeros (x @ replicate k (CHR ''0'')) = trim_right_zeros x" for x k
    by (simp add: trim_right_zeros_def)
  have "trim_right_zeros (i @ ''.'' @ f) = trim_right_zeros (i @ ''.'' @ g)" using z [of "i @ ''.'' @ g"] f by (metis append_assoc)
  also have "\<dots> = i @ ''.'' @ g"
    using trim_right_zeros_id [of g "i @ ''.''"] trim_right_zeros_id [of "''.''" i] last by (cases "g = []") auto
  finally have t: "trim_right_zeros (i @ ''.'' @ f) = i @ ''.'' @ g" .
  have "trim_point (i @ ''.'' @ g) = (if g = [] then i else i @ ''.'' @ g)"
  proof (cases "g = []")
    case True
    then show ?thesis by (simp add: trim_point_def butlast_append)
  next
    case False
    then have "decimalDigits g" using frac by (simp add: fraction_part_def)
    then have "last g \<noteq> CHR ''.''" using decimalDigits_marks [of g] False by (force simp: is_point_def)
    then show ?thesis using False by (simp add: trim_point_def)
  qed
  then show thesis using that [OF f frac] t by simp
qed

section \<open>Plain decimals\<close>

lemma plain_parts:
  assumes "list_all is_digit i" and "u = i \<and> f = [] \<or> u = i @ ''.'' @ f \<and> list_all is_digit f"
  shows "whole_text u = i" and "decimals_text u = f" and "exponent_value u = 0"
proof -
  have d: "c \<noteq> CHR ''e'' \<and> c \<noteq> CHR ''E'' \<and> c \<noteq> CHR ''.''" if "is_digit c" for c
    using that by (auto simp: is_digit_def in_range_def)
  have i: "\<forall>c \<in> set i. c \<noteq> CHR ''e'' \<and> c \<noteq> CHR ''E'' \<and> c \<noteq> CHR ''.''" using assms(1) d by (auto simp: list_all_iff)
  have f: "\<forall>c \<in> set f. c \<noteq> CHR ''e'' \<and> c \<noteq> CHR ''E''" using assms(2) d by (fastforce simp: list_all_iff)
  have u: "\<forall>c \<in> set u. c \<noteq> CHR ''e'' \<and> c \<noteq> CHR ''E''" using assms(2)
    by (elim disjE conjE) (use i f in \<open>simp_all add: ball_Un\<close>)
  then have m: "mantissa_text u = u" by (simp add: mantissa_text_def)
  have p: "takeWhile (\<lambda>c. c \<noteq> CHR ''.'') i = i" "takeWhile (\<lambda>c. c \<noteq> CHR ''.'') (i @ CHR ''.'' # f) = i"
    using i by (simp_all add: takeWhile_eq_all_conv takeWhile_append2)
  have "takeWhile (\<lambda>c. c \<noteq> CHR ''.'') u = i" using assms(2) by (elim disjE conjE) (simp_all add: p)
  then show w: "whole_text u = i" by (simp add: whole_text_def m)
  have "drop (Suc (length i)) u = f" using assms(2) by (elim disjE conjE) simp_all
  then show "decimals_text u = f" by (simp add: decimals_text_def w m)
  have "dropWhile (\<lambda>c. c \<noteq> CHR ''e'' \<and> c \<noteq> CHR ''E'') u = []" using u by (simp add: dropWhile_eq_Nil_conv)
  then show "exponent_value u = 0" unfolding exponent_value_def by (simp only: list.case)
qed

lemma plain_value:
  assumes "list_all is_digit i" and "u = i \<and> f = [] \<or> u = i @ ''.'' @ f \<and> list_all is_digit f"
  shows "unsigned_value u = of_int (digits_value (i @ f)) / 10 ^ length f"
  using plain_parts [OF assms] by (simp add: unsigned_value_def power_int_minus divide_inverse)

lemma trim_number_value:
  assumes "list_all is_digit i" and "list_all is_digit f"
  shows "unsigned_value (trim_number (i @ ''.'' @ f)) = of_int (digits_value (i @ f)) / 10 ^ length f"
proof -
  obtain g k where g: "f = g @ replicate k (CHR ''0'')" "g = [] \<or> fraction_part g"
      "trim_point (trim_right_zeros (i @ ''.'' @ f)) = (if g = [] then i else i @ ''.'' @ g)"
    by (rule trimmed_fraction [OF assms(2), of i])
  have t: "trim_number (i @ ''.'' @ f) = (if g = [] then i else i @ ''.'' @ g)" using g(3) by (simp add: trim_number_def)
  have dg: "list_all is_digit g" using assms(2) g(1) by simp
  have "unsigned_value (trim_number (i @ ''.'' @ f)) = of_int (digits_value (i @ g)) / 10 ^ length g"
    by (rule plain_value [OF assms(1)]) (use t dg in auto)
  moreover have "digits_value (i @ f) = digits_value (i @ g) * 10 ^ k" using digits_value_pad [of "i @ g" k] by (simp add: g(1))
  ultimately show ?thesis by (simp add: g(1) power_add)
qed

lemma powi_int_diff: "0 < (n :: int) \<Longrightarrow> (10 :: rat) powi (- n) = 1 / 10 ^ nat n"
  by (metis inverse_eq_divide int_nat_eq less_imp_le power_int_minus power_int_of_nat)

lemma plain_notation_value:
  assumes "plain_notation ds sc l = Inr s" and "decimalDigits ds"
  shows "unsigned_value (trim_number s) = of_int (digits_value ds) * 10 powi (- sc)"
proof -
  have z: "list_all is_digit (replicate n (CHR ''0''))" for n by (simp add: list_all_iff is_digit_def in_range_def)
  have ds: "ds \<noteq> []" "list_all is_digit ds" using assms(2) by (auto simp: decimalDigits_def)
  consider "sc \<le> 0" | "0 < sc" "0 < int (length ds) - sc" | "0 < sc" "int (length ds) - sc \<le> 0" by linarith
  then show ?thesis
  proof cases
    case 1
    then have s: "s = ds @ replicate (nat (- sc)) (CHR ''0'')" using assms(1) by (simp add: plain_notation_def)
    then have d: "decimalDigits s" using ds z by (simp add: decimalDigits_def)
    then have "unsigned_value (trim_number s) = of_int (digits_value s)"
      using plain_value [of s s "[]"] by (simp add: trim_number_int decimalDigits_def)
    moreover have "10 powi (- sc) = (10 :: rat) ^ nat (- sc)" using 1 by (simp add: power_int_def)
    ultimately show ?thesis by (simp add: s digits_value_pad)
  next
    case 2
    define k where "k = nat (int (length ds) - sc)"
    have s: "s = take k ds @ ''.'' @ drop k ds" using assms(1) 2 by (simp add: plain_notation_def k_def)
    have dig: "list_all is_digit (take k ds)" "list_all is_digit (drop k ds)"
      using ds(2) by (metis append_take_drop_id list_all_append)+
    have "length (drop k ds) = nat sc" using 2 by (auto simp: k_def)
    then show ?thesis using trim_number_value [OF dig] powi_int_diff [OF 2(1)] unfolding s by simp
  next
    case 3
    let ?f = "replicate (nat (sc - int (length ds))) (CHR ''0'') @ ds"
    have s: "s = ''0'' @ ''.'' @ ?f" using assms(1) 3 by (simp add: plain_notation_def)
    have "length ?f = nat sc" using 3 by auto
    moreover have "digits_value (''0'' @ ?f) = digits_value ds"
    proof -
      have "digits_value (replicate n (CHR ''0'') @ ds) = digits_value ds" for n by (simp add: digits_value_append digits_value_zeros)
      from this [of "Suc (nat (sc - int (length ds)))"] show ?thesis by simp
    qed
    moreover have "list_all is_digit ''0''" by (simp add: is_digit_def in_range_def)
    ultimately show ?thesis
      using trim_number_value [of "''0''" ?f] powi_int_diff [OF 3(1)] ds z unfolding s by simp
  qed
qed

section \<open>Normalisation keeps the value\<close>

lemma mark_texts:
  "before_mark is_exponent_marker s = mantissa_text s"
  "before_mark is_point (mantissa_text s) = whole_text s"
  "after_mark is_point (mantissa_text s) = decimals_text s"
proof -
  show "before_mark is_exponent_marker s = mantissa_text s"
    by (simp add: before_mark_def mantissa_text_def is_exponent_marker_def [abs_def])
  show w: "before_mark is_point (mantissa_text s) = whole_text s"
    by (simp add: before_mark_def whole_text_def is_point_def [abs_def])
  have "dropWhile p x = drop (length (takeWhile p x)) x" for p and x :: string by (rule dropWhile_eq_drop)
  then show "after_mark is_point (mantissa_text s) = decimals_text s"
    by (simp add: after_mark_def decimals_text_def whole_text_def is_point_def [abs_def] drop_Suc tl_drop)
qed

lemma Atoi_digits_value: "Atoi_digits neg ds = Some e \<Longrightarrow> e = (if neg then - digits_value ds else digits_value ds)"
  by (auto simp: Atoi_digits_def split: if_splits)

lemma exponent_agrees:
  assumes "number_exponent_value s = Some e"
  shows "exponent_value s = e"
proof -
  have d: "(\<lambda>c. c \<noteq> CHR ''e'' \<and> c \<noteq> CHR ''E'') = (\<lambda>c. \<not> is_exponent_marker c)" by (auto simp: is_exponent_marker_def)
  show ?thesis
  proof (cases "dropWhile (\<lambda>c. \<not> is_exponent_marker c) s")
    case Nil
    then have "\<not> list_ex is_exponent_marker s" by (auto simp: dropWhile_eq_Nil_conv list_ex_iff)
    then have "e = 0" using assms by (simp add: number_exponent_value_def)
    then show ?thesis unfolding exponent_value_def d Nil by simp
  next
    case (Cons m x)
    then have "list_ex is_exponent_marker s" using hd_dropWhile [of "\<lambda>c. \<not> is_exponent_marker c" s]
        set_dropWhileD [of m "\<lambda>c. \<not> is_exponent_marker c" s] by (auto simp: list_ex_iff)
    then have a: "Atoi x = Some e" using assms Cons by (simp add: number_exponent_value_def after_mark_def)
    show ?thesis unfolding exponent_value_def d Cons
      using a by (cases x) (auto simp: Atoi_def dest: Atoi_digits_value split: if_splits)
  qed
qed

lemma finish_number_value:
  "finish_number neg l s = Inr n \<Longrightarrow> hd (trim_number s) \<noteq> CHR ''-'' \<Longrightarrow>
     number_value n = (if neg then - unsigned_value (trim_number s) else unsigned_value (trim_number s))"
  by (auto simp: finish_number_def number_value_def split: if_splits)

lemma normalize_unsigned_value:
  assumes "normalize_unsigned neg s l = Inr n"
  shows "number_value n = (if neg then - unsigned_value s else unsigned_value s)"
proof -
  obtain e where e: "number_exponent_value s = Some e" "normalize_mantissa neg (whole_text s) (decimals_text s) e l = Inr n"
    using assms by (auto simp: normalize_unsigned_def mark_texts split: option.splits if_splits)
  define ds where "ds = dropWhile (\<lambda>c. c = CHR ''0'') (whole_text s @ decimals_text s)"
  have v: "unsigned_value s = of_int (digits_value ds) * 10 powi (- (int (length (decimals_text s)) - e))"
    using exponent_agrees [OF e(1)] by (simp add: unsigned_value_def ds_def digits_value_drop_zeros)
  have m: "decimalDigits (whole_text s)" "decimals_text s = [] \<or> decimalDigits (decimals_text s)"
    "normalize_digits neg ds (int (length (decimals_text s)) - e) l = Inr n"
    using e(2) by (auto simp: normalize_mantissa_def ds_def)
  have "list_all is_digit (whole_text s @ decimals_text s)" using m(1,2) by (auto simp: decimalDigits_def)
  then have dig: "list_all is_digit ds" unfolding ds_def list_all_iff using set_dropWhileD by metis
  show ?thesis
  proof (cases "ds = []")
    case True
    then have "n = ''0''" using m(3) by (simp add: normalize_digits_def)
    moreover have "number_value ''0'' = 0" by code_simp
    moreover have "unsigned_value s = 0" using v True by (simp add: digits_value_def)
    ultimately show ?thesis by simp
  next
    case False
    then obtain p where p: "plain_notation ds (int (length (decimals_text s)) - e) l = Inr p" "finish_number neg l p = Inr n"
      using m(3) by (auto simp: normalize_digits_def)
    have d: "decimalDigits ds" using dig False by (simp add: decimalDigits_def)
    have h: "hd ds \<noteq> CHR ''0''" using False hd_dropWhile [of "\<lambda>c. c = CHR ''0''" "whole_text s @ decimals_text s"] by (simp add: ds_def)
    have "hd (trim_number p) \<noteq> CHR ''-''"
      using canonical_number_unsigned [of "trim_number p"] plain_notation_canonical [OF p(1) d h] by blast
    then show ?thesis using finish_number_value [OF p(2)] plain_notation_value [OF p(1) d] v by simp
  qed
qed

lemma normalize_keeps_value: "normalizeNumber t l = Inr n \<Longrightarrow> number_value n = number_value t"
  by (cases t) (auto simp: normalizeNumber_def number_value_def dest!: normalize_unsigned_value split: if_splits)

section \<open>One normal form per value\<close>

lemma int_part_value:
  assumes "int_part i" and "int_part j" and "digits_value i = digits_value j"
  shows "i = j"
proof -
  have d: "list_all is_digit i" "list_all is_digit j" "i \<noteq> []" "j \<noteq> []" using assms(1,2) by (auto simp: int_part_def decimalDigits_def)
  have b: "10 ^ (length x - 1) \<le> digits_value x" if "int_part x" "x \<noteq> ''0''" for x
  proof (cases x)
    case (Cons c y)
    then have "c \<noteq> CHR ''0''" "is_digit c" using that by (auto simp: int_part_def decimalDigits_def)
    then show ?thesis using digits_leading [of c y] Cons by simp
  qed (use that in \<open>simp add: int_part_def decimalDigits_def\<close>)
  have z: "digits_value ''0'' = 0" by (simp add: digits_value_def)
  have le: "length x \<le> length y" if "int_part x" "int_part y" "digits_value x = digits_value y" for x y
  proof (cases "x = ''0''")
    case True
    have "y \<noteq> []" using that(2) by (auto simp: int_part_def decimalDigits_def)
    then show ?thesis using True by (cases y) simp_all
  next
    case False
    have "digits_value y < 10 ^ length y" using that(2) by (intro digits_value_bound) (auto simp: int_part_def decimalDigits_def)
    then have "(10 :: int) ^ (length x - 1) < 10 ^ length y" using b [OF that(1) False] that(3) by linarith
    then have "length x - 1 < length y" by simp
    then show ?thesis by linarith
  qed
  have "length i = length j" using le [OF assms] le [OF assms(2,1) assms(3) [symmetric]] by simp
  then show ?thesis using digit_strings_inj d(1,2) assms(3) by blast
qed

text \<open>An integer part and a fraction that is empty or does not end in 0.\<close>

definition plain_text :: "string \<Rightarrow> string \<Rightarrow> string \<Rightarrow> bool" where
  "plain_text u i f \<longleftrightarrow> int_part i \<and> (u = i \<and> f = [] \<or> u = i @ ''.'' @ f \<and> fraction_part f)"

lemma plain_text_digits: "plain_text u i f \<Longrightarrow> list_all is_digit i \<and> list_all is_digit f \<and> (f = [] \<or> last f \<noteq> CHR ''0'')"
  by (auto simp: plain_text_def int_part_def fraction_part_def decimalDigits_def)

lemma plain_text_value: "plain_text u i f \<Longrightarrow> unsigned_value u = of_int (digits_value (i @ f)) / 10 ^ length f"
  using plain_text_digits [of u i f] by (intro plain_value) (auto simp: plain_text_def)

lemma plain_text_scale:
  assumes "plain_text u i f" and "plain_text v j g" and "unsigned_value u = unsigned_value v" and "length f \<le> length g"
  shows "length f = length g"
proof (rule ccontr)
  assume "length f \<noteq> length g"
  then obtain k where k: "length g = length f + Suc k" using assms(4) by (metis less_imp_Suc_add le_neq_implies_less add_Suc_right)
  then have ne: "g \<noteq> []" by auto
  then have g: "last g \<noteq> CHR ''0''" "is_digit (last g)" using plain_text_digits [OF assms(2)] by (auto simp: list_all_iff)
  have e: "(of_int (digits_value (i @ f)) :: rat) / 10 ^ length f = of_int (digits_value (j @ g)) / 10 ^ length g"
    using assms(3) by (simp add: plain_text_value [OF assms(1)] plain_text_value [OF assms(2)])
  have "(of_int (digits_value (j @ g)) :: rat) = of_int (digits_value (i @ f)) * 10 ^ Suc k"
    using e by (simp add: k power_add field_simps)
  then have "(of_int (digits_value (j @ g)) :: rat) = of_int (digits_value (i @ f) * 10 ^ Suc k)" by simp
  then have "digits_value (j @ g) = digits_value (i @ f) * 10 ^ Suc k" by (simp only: of_int_eq_iff)
  then have "10 dvd digits_value (j @ g)" by simp
  moreover have "digits_value (j @ g) = digits_value (j @ butlast g) * 10 + int (byte_val (last g) - 48)"
    using digits_value_append [of "j @ butlast g" "[last g]"] ne by (simp only: append_assoc append_butlast_last_id digits_value_single) simp
  ultimately have "10 dvd int (byte_val (last g) - 48)" by (metis dvd_add_right_iff dvd_triv_right)
  moreover have "0 < int (byte_val (last g) - 48)" "int (byte_val (last g) - 48) < 10" using digit_bounds [OF g(2)] g(1) by linarith+
  ultimately show False using zdvd_imp_le by fastforce
qed

lemma plain_text_inj:
  assumes "plain_text u i f" and "plain_text v j g" and "unsigned_value u = unsigned_value v"
  shows "u = v"
proof -
  have n: "length f = length g"
    using plain_text_scale [OF assms] plain_text_scale [OF assms(2,1) assms(3) [symmetric]] by (cases "length f \<le> length g") auto
  have "(of_int (digits_value (i @ f)) :: rat) = of_int (digits_value (j @ g))"
    using assms(3) by (simp add: plain_text_value [OF assms(1)] plain_text_value [OF assms(2)] n)
  then have "digits_value (i @ f) = digits_value (j @ g)" by (simp only: of_int_eq_iff)
  then have e: "digits_value i * 10 ^ length f + digits_value f = digits_value j * 10 ^ length f + digits_value g"
    by (simp add: digits_value_append n)
  have b: "digits_value f < 10 ^ length f" "digits_value g < 10 ^ length f" "0 \<le> digits_value f" "0 \<le> digits_value g"
    using plain_text_digits [OF assms(1)] plain_text_digits [OF assms(2)] digits_value_bound [of f] digits_value_bound [of g] n digits_value_nonneg
    by simp_all
  have "digits_value i = (digits_value i * 10 ^ length f + digits_value f) div 10 ^ length f" using b by simp
  also have "\<dots> = digits_value j" using b by (simp add: e)
  finally have i: "digits_value i = digits_value j" .
  then have "digits_value f = digits_value g" using e by simp
  then have "f = g" using digit_strings_inj n plain_text_digits [OF assms(1)] plain_text_digits [OF assms(2)] by blast
  moreover have "i = j" using int_part_value i assms(1,2) by (auto simp: plain_text_def)
  ultimately show ?thesis using assms(1,2) by (auto simp: plain_text_def fraction_part_def decimalDigits_def)
qed

lemma canonical_plain_text:
  assumes "canonical_unsigned u"
  obtains i f where "plain_text u i f" and "0 < unsigned_value u"
proof -
  obtain i f where p: "plain_text u i f" "i \<noteq> ''0'' \<or> f \<noteq> []"
    using assms by (auto simp: canonical_unsigned_def plain_text_def fraction_part_def decimalDigits_def)
  have nz: "digits_value x \<noteq> 0" if "c \<in> set x" "c \<noteq> CHR ''0''" "list_all is_digit x" for x c
  proof
    assume "digits_value x = 0"
    then have "x = replicate (length x) (CHR ''0'')"
      using digit_strings_inj [of x "replicate (length x) (CHR ''0'')"] that(3) by (simp add: digits_value_zeros list_all_iff is_digit_def in_range_def)
    then show False using that(1,2) by (metis in_set_replicate)
  qed
  note d = plain_text_digits [OF p(1)]
  have "\<exists>c \<in> set (i @ f). c \<noteq> CHR ''0''"
  proof (cases "f = []")
    case True
    then have "hd i \<noteq> CHR ''0''" "i \<noteq> []" using p by (auto simp: plain_text_def int_part_def decimalDigits_def)
    then show ?thesis by (intro bexI [of _ "hd i"]) simp_all
  next
    case False
    then show ?thesis using d by (intro bexI [of _ "last f"]) simp_all
  qed
  then have "digits_value (i @ f) \<noteq> 0" using nz [of _ "i @ f"] d by (auto simp: list_all_append)
  then have "0 < digits_value (i @ f)" using digits_value_nonneg [of "i @ f"] by linarith
  then have "0 < unsigned_value u" by (simp add: plain_text_value [OF p(1)])
  then show thesis using that p(1) by blast
qed

lemma normal_form_signs:
  assumes "normalizeNumber t l = Inr n"
  shows "n = ''0'' \<and> number_value n = 0 \<or>
    (\<exists>u i f. plain_text u i f \<and> 0 < unsigned_value u \<and> (n = u \<and> number_value n = unsigned_value u \<or> n = CHR ''-'' # u \<and> number_value n = - unsigned_value u))"
  using normalizeNumber_shape [OF assms]
proof (elim disjE exE conjE)
  assume "n = ''0''"
  moreover have "number_value ''0'' = 0" by code_simp
  ultimately show ?thesis by simp
next
  fix neg u assume n: "n = (if neg then CHR ''-'' # u else u)" and u: "canonical_unsigned u"
  obtain i f where "plain_text u i f" "0 < unsigned_value u" by (rule canonical_plain_text [OF u])
  moreover have "hd u \<noteq> CHR ''-''" using canonical_number_unsigned u by blast
  ultimately show ?thesis using n by (auto simp: number_value_def)
qed

theorem normal_form_unique:
  assumes "normalizeNumber t l = Inr n" and "normalizeNumber t' l = Inr n'"
  shows "n = n' \<longleftrightarrow> number_value t = number_value t'"
proof
  assume "n = n'"
  then show "number_value t = number_value t'" using normalize_keeps_value assms by metis
next
  assume "number_value t = number_value t'"
  then have v: "number_value n = number_value n'" using normalize_keeps_value assms by metis
  show "n = n'"
    using normal_form_signs [OF assms(1)] normal_form_signs [OF assms(2)] v by (elim disjE exE conjE) (auto dest: plain_text_inj)
qed

section \<open>The content of a value\<close>

text \<open>Numbers are rationals and objects are finite maps, so neither spelling nor order is left.\<close>

datatype content = CNull | CBool bool | CNum rat | CStr string | CArr "content list" | CObj "string \<Rightarrow> content option"

fun content_of :: "json \<Rightarrow> content" where
  "content_of JNull = CNull"
| "content_of (JBool b) = CBool b"
| "content_of (JNum t) = CNum (number_value t)"
| "content_of (JStr t) = CStr t"
| "content_of (JArr vs) = CArr (map content_of vs)"
| "content_of (JObj kvs) = CObj (map_of (map (\<lambda>kv. (fst kv, content_of (snd kv))) kvs))"

lemma map_of_members: "map_of (map (\<lambda>kv. (fst kv, g (snd kv))) kvs) k = map_option g (map_of kvs k)"
  by (induction kvs) auto

lemma map_of_sort_key: "distinct (map fst kvs) \<Longrightarrow> map_of (sort_key fst kvs) = map_of kvs"
  by (rule map_of_eqI) (auto simp: distinct_sort_key image_iff)

lemma canon_number_iff:
  assumes "number_wf l t" and "number_wf l t'"
  shows "canon_number l t = canon_number l t' \<longleftrightarrow> number_value t = number_value t'"
proof -
  obtain n n' where "normalizeNumber t l = Inr n" "normalizeNumber t' l = Inr n'"
    using assms by (auto simp: number_wf_def err_of_def split: sum.splits)
  then show ?thesis using normal_form_unique [of t l n t' n'] by (simp add: canon_number_def)
qed

lemma canon_number_value: "number_wf l t \<Longrightarrow> number_value (canon_number l t) = number_value t"
  using normalize_keeps_value by (auto simp: number_wf_def err_of_def canon_number_def split: sum.splits)

lemma content_image:
  "json_wf l v \<Longrightarrow> content_of (image_json (canon_number l) v) = content_of v"
proof (induction v)
  case (JArr vs)
  then show ?case by (auto simp: list_all_iff)
next
  case (JObj kvs)
  have d: "distinct (map fst kvs)" using JObj.prems by simp
  have "content_of (image_json (canon_number l) w) = content_of w" if "map_of kvs k = Some w" for k w
    using JObj.IH [OF map_of_SomeD [OF that]] JObj.prems map_of_SomeD [OF that] by (fastforce simp: list_all_iff snds.simps)
  then have "map_option (\<lambda>w. content_of (image_json (canon_number l) w)) (map_of kvs k) = map_option content_of (map_of kvs k)" for k
    by (cases "map_of kvs k") auto
  then show ?case
    using map_of_sort_key [OF d] by (simp add: comp_def fun_eq_iff map_of_members [of "\<lambda>w. content_of (image_json (canon_number l) w)"] map_of_members)
qed (simp_all add: canon_number_value)

lemma members_as_map:
  "distinct (map fst xs) \<Longrightarrow> map (\<lambda>kv. (fst kv, g (snd kv))) xs = map (\<lambda>k. (k, g (the (map_of xs k)))) (map fst xs)"
  by (auto simp: map_of_is_SomeI)

lemma sorted_members_eq:
  assumes "distinct (map fst xs)" and "distinct (map fst ys)" and "dom (map_of xs) = dom (map_of ys)"
    and "\<And>k v w. map_of xs k = Some v \<Longrightarrow> map_of ys k = Some w \<Longrightarrow> g v = g w"
  shows "map (\<lambda>kv. (fst kv, g (snd kv))) (sort_key fst xs) = map (\<lambda>kv. (fst kv, g (snd kv))) (sort_key fst (ys :: (string \<times> 'a) list))"
proof -
  have k: "map fst (sort_key fst xs) = map fst (sort_key fst ys)"
    by (rule sorted_distinct_set_unique)
      (use assms(1-3) in \<open>simp_all add: distinct_sort_key dom_map_of_conv_image_fst\<close>)
  have e: "map (\<lambda>kv. (fst kv, g (snd kv))) (sort_key fst zs) = map (\<lambda>k. (k, g (the (map_of zs k)))) (map fst (sort_key fst zs))"
    if "distinct (map fst zs)" for zs :: "(string \<times> 'a) list"
    using members_as_map [of "sort_key fst zs" g] that by (simp only: distinct_sort_key map_of_sort_key)
  have "g (the (map_of xs k)) = g (the (map_of ys k))" if "k \<in> fst ` set ys" for k
    using that assms(3,4) by (metis (mono_tags, lifting) domD dom_map_of_conv_image_fst option.sel)
  then show ?thesis unfolding e [OF assms(1)] e [OF assms(2)] k by simp
qed

lemma image_of_content:
  "json_wf l v \<Longrightarrow> json_wf l w \<Longrightarrow> content_of v = content_of w \<Longrightarrow> image_json (canon_number l) v = image_json (canon_number l) w"
proof (induction v arbitrary: w)
  case (JNum t)
  then show ?case by (cases w) (auto simp: canon_number_iff)
next
  case (JArr vs)
  then obtain ws where w: "w = JArr ws" "map content_of vs = map content_of ws" by (cases w) auto
  have "length vs = length ws" using w(2) by (rule map_eq_imp_length_eq)
  moreover have "image_json (canon_number l) (vs ! i) = image_json (canon_number l) (ws ! i)" if "i < length vs" for i
  proof (rule JArr.IH)
    show "vs ! i \<in> set vs" using that by simp
    show "json_wf l (vs ! i)" "json_wf l (ws ! i)" using that JArr.prems w(1) \<open>length vs = length ws\<close> by (simp_all add: list_all_length)
    show "content_of (vs ! i) = content_of (ws ! i)" using that w(2) \<open>length vs = length ws\<close> by (metis nth_map)
  qed
  ultimately show ?case unfolding w(1) by (auto intro: nth_equalityI)
next
  case (JObj kvs)
  then obtain kws where w: "w = JObj kws" "map_of (map (\<lambda>kv. (fst kv, content_of (snd kv))) kvs) = map_of (map (\<lambda>kv. (fst kv, content_of (snd kv))) kws)"
    by (cases w) auto
  have m: "map_option content_of (map_of kvs k) = map_option content_of (map_of kws k)" for k
    using fun_cong [OF w(2), of k] by (simp add: map_of_members)
  have d: "map_of kvs k = None \<longleftrightarrow> map_of kws k = None" for k using m [of k] by (metis option.map_disc_iff)
  have "image_json (canon_number l) a = image_json (canon_number l) b" if "map_of kvs k = Some a" "map_of kws k = Some b" for k a b
  proof (rule JObj.IH)
    show "(k, a) \<in> set kvs" using that(1) by (rule map_of_SomeD)
    show "a \<in> Basic_BNFs.snds (k, a)" by simp
    show "json_wf l a" "json_wf l b" using JObj.prems(1,2) w(1) that [THEN map_of_SomeD] by (fastforce simp: list_all_iff)+
    show "content_of a = content_of b" using m [of k] that by simp
  qed
  moreover have "dom (map_of kvs) = dom (map_of kws)" unfolding dom_def using d by auto
  ultimately show ?case using sorted_members_eq [of kvs kws "image_json (canon_number l)"] JObj.prems w(1) by simp
qed (case_tac w; simp)+

text \<open>
  C6: canonical bytes decide equality of content. Two accepted texts have the same canonical
  bytes exactly when they denote the same value: the same rational where there is a number, the
  same finite map where there is an object, whatever their order of members, spelling of numbers
  and white space.
\<close>

theorem Canonicalize_decides_content:
  assumes "Decode raw l = Inr v" and "CanonicalizeWithLimits raw l = Inr c"
    and "Decode raw' l = Inr v'" and "CanonicalizeWithLimits raw' l = Inr c'"
    and "MaxCanonicalBytes l \<le> MaxInputBytes l"
  shows "c = c' \<longleftrightarrow> content_of v = content_of v'"
proof -
  have wf: "json_wf l v" "json_wf l v'" using Decode_sound(1) [OF assms(1)] Decode_sound(1) [OF assms(3)] by (simp_all add: json_fits_def)
  have "image_json (canon_number l) v = image_json (canon_number l) v' \<longleftrightarrow> content_of v = content_of v'"
    using content_image [OF wf(1)] content_image [OF wf(2)] image_of_content [OF wf] by metis
  then show ?thesis using canonical_bytes_image [OF assms] by simp
qed

theorem Canonicalize_decides_content_witness:
  "content_of (JArr [JNum ''1.50e1'', JBool True]) = content_of (JArr [JNum ''15'', JBool True]) \<and>
   content_of (JArr [JNum ''1e2'']) \<noteq> content_of (JArr [JNum ''1e-2''])"
proof -
  have d: "Decode ''[1.50e1,true]'' DefaultLimits = Inr (JArr [JNum ''1.50e1'', JBool True])"
    "Decode '' [15 ,true]'' DefaultLimits = Inr (JArr [JNum ''15'', JBool True])" by code_simp+
  have c: "CanonicalizeWithLimits ''[1.50e1,true]'' DefaultLimits = Inr ''[15,true]''"
    "CanonicalizeWithLimits '' [15 ,true]'' DefaultLimits = Inr ''[15,true]''" by code_simp+
  have d': "Decode ''[1e2]'' DefaultLimits = Inr (JArr [JNum ''1e2''])" "Decode ''[1e-2]'' DefaultLimits = Inr (JArr [JNum ''1e-2''])" by code_simp+
  have c': "CanonicalizeWithLimits ''[1e2]'' DefaultLimits = Inr ''[100]''" "CanonicalizeWithLimits ''[1e-2]'' DefaultLimits = Inr ''[0.01]''"
    by code_simp+
  have l: "MaxCanonicalBytes DefaultLimits \<le> MaxInputBytes DefaultLimits" by (simp add: DefaultLimits_def)
  show ?thesis
    using Canonicalize_decides_content [OF d(1) c(1) d(2) c(2) l] Canonicalize_decides_content [OF d'(1) c'(1) d'(2) c'(2) l] by simp
qed

end
