(* ===== verification/Json_Payload.thy ===== *)
theory Json_Payload
  imports Json_Soundness
begin

text \<open>
  When \<open>Marshal\<close> and \<open>DigestValue\<close> succeed: on values whose strings are UTF-8, whose
  numbers are plain decimals and whose text is bounded. The payloads of events and the parts
  of stable identities are of this kind.
\<close>

section \<open>Decimal numbers\<close>

lemma digit_char_facts: "d < 10 \<Longrightarrow> is_digit (digit_char d) \<and> (digit_char d = CHR ''0'' \<longrightarrow> d = 0)"
proof -
  have "\<forall>d \<in> set [0..<10]. is_digit (digit_char d) \<and> (digit_char d = CHR ''0'' \<longrightarrow> d = 0)"
    by (simp add: is_digit_def digit_char_def in_range_def upt_rec)
  then show "d < 10 \<Longrightarrow> is_digit (digit_char d) \<and> (digit_char d = CHR ''0'' \<longrightarrow> d = 0)" by simp
qed

lemma decimal_nat_digits:
  "decimal_nat n \<noteq> [] \<and> list_all is_digit (decimal_nat n) \<and> (n \<noteq> 0 \<longrightarrow> hd (decimal_nat n) \<noteq> CHR ''0'')"
proof (induction n rule: decimal_nat.induct)
  case (1 n)
  show ?case
  proof (cases "n < 10")
    case True
    then show ?thesis using digit_char_facts [of n] by (auto simp: decimal_nat.simps [of n])
  next
    case False
    then have "n div 10 \<noteq> 0" by auto
    with 1 False show ?thesis
      using digit_char_facts [of "n mod 10"] by (auto simp: decimal_nat.simps [of n])
  qed
qed

lemma decimal_nat_int_part: "int_part (decimal_nat n)"
proof (cases "n = 0")
  case True
  then show ?thesis
    by (simp add: decimal_nat.simps [of 0] digit_char_def int_part_def decimalDigits_def is_digit_def in_range_def)
next
  case False
  then show ?thesis using decimal_nat_digits [of n] by (simp add: int_part_def decimalDigits_def)
qed

lemma decimal_nat_length: "n < 10 ^ k \<Longrightarrow> 0 < k \<Longrightarrow> length (decimal_nat n) \<le> k"
proof (induction k arbitrary: n)
  case (Suc k)
  show ?case
  proof (cases "n < 10")
    case True
    then show ?thesis by (simp add: decimal_nat.simps [of n])
  next
    case False
    then have k: "0 < k" using Suc.prems by (cases k) auto
    have "n div 10 < 10 ^ k" using Suc.prems(1) by (simp add: less_mult_imp_div_less mult.commute)
    then show ?thesis using False Suc.IH [OF _ k] by (simp add: decimal_nat.simps [of n])
  qed
qed simp

lemma decimal_u64_length: "length (decimal_u64 w) \<le> 20"
proof -
  have "unat w < 2 ^ 64" using unsigned_less [of w, where ?'a = nat] by simp
  also have "\<dots> < 10 ^ 20" by simp
  finally show ?thesis using decimal_nat_length [of "unat w" 20] by (simp add: decimal_u64_def)
qed

lemma decimal_u32_length: "length (decimal_u32 w) \<le> 10"
proof -
  have "unat w < 2 ^ 32" using unsigned_less [of w, where ?'a = nat] by simp
  also have "\<dots> < 10 ^ 10" by simp
  finally show ?thesis using decimal_nat_length [of "unat w" 10] by (simp add: decimal_u32_def)
qed

section \<open>Plain values\<close>

fun json_plain :: "json \<Rightarrow> bool" where
  "json_plain (JStr t) = utf8_valid t"
| "json_plain (JNum t) = int_part t"
| "json_plain (JArr vs) = list_all json_plain vs"
| "json_plain (JObj kvs) = (distinct (map fst kvs) \<and> list_all (\<lambda>kv. utf8_valid (fst kv) \<and> json_plain (snd kv)) kvs)"
| "json_plain _ = True"

text \<open>A bound on the length of the printed text: a byte of a string takes at most six.\<close>

fun json_bound :: "json \<Rightarrow> nat" where
  "json_bound JNull = 4"
| "json_bound (JBool b) = 5"
| "json_bound (JNum t) = length t"
| "json_bound (JStr t) = 6 * length t + 2"
| "json_bound (JArr vs) = 2 + sum_list (map (\<lambda>v. json_bound v + 1) vs)"
| "json_bound (JObj kvs) = 2 + sum_list (map (\<lambda>kv. 6 * length (fst kv) + json_bound (snd kv) + 4) kvs)"

lemma int_part_number:
  assumes "int_part t" and "0 < MaxExponent l" and "int (length t) \<le> MaxCanonicalBytes l"
  shows "number_token t = Some (t, [])" and "normalizeNumber t l = Inr t"
proof -
  have u: "canonical_unsigned t \<or> t = ''0''" using assms(1) by (auto simp: canonical_unsigned_def)
  note n = canonical_number_unsigned [OF u]
  show "number_token t = Some (t, [])" using n by (cases t) (auto simp: number_token_def)
  have d: "decimalDigits t" using assms(1) by (simp add: int_part_def)
  have "normalize_unsigned False t l = Inr t"
  proof (cases "t = ''0''")
    case True
    then show ?thesis
      using normalize_plain [OF d, of t "[]" l False] assms(2) d by (simp add: normalize_mantissa_def normalize_digits_def)
  next
    case False
    then show ?thesis using normalize_canonical [of t l False] u assms(2,3) by simp
  qed
  then show "normalizeNumber t l = Inr t" using n by (cases t) (auto simp: normalizeNumber_def)
qed

lemma sum_list_item: "x \<in> set xs \<Longrightarrow> f x \<le> sum_list (map f xs)" for f :: "'a \<Rightarrow> nat"
  by (induction xs) auto

lemma plain_wf:
  "json_plain v \<Longrightarrow> json_bound v \<le> 1048576 \<Longrightarrow> json_wf DefaultLimits v"
proof (induction v)
  case (JNum t)
  then show ?case using int_part_number [of t DefaultLimits] by (auto simp: number_wf_def DefaultLimits_def)
next
  case (JStr t)
  then show ?case by (simp add: string_wf_def DefaultLimits_def)
next
  case (JArr vs)
  have "json_bound v \<le> 1048576" if "v \<in> set vs" for v
    using sum_list_item [OF that, of "\<lambda>v. json_bound v + 1"] JArr.prems(2) by simp
  then show ?case using JArr by (auto simp: list_all_iff)
next
  case (JObj kvs)
  have "6 * length (fst kv) + json_bound (snd kv) + 4 \<le> 1048576" if "kv \<in> set kvs" for kv
    using sum_list_item [OF that, of "\<lambda>kv. 6 * length (fst kv) + json_bound (snd kv) + 4"] JObj.prems(2) by simp
  then show ?case
    using JObj by (fastforce simp: list_all_iff string_wf_def DefaultLimits_def snds.simps)
qed simp_all

lemma bound_count: "json_plain v \<Longrightarrow> json_count v \<le> int (json_bound v)"
proof (induction v)
  case (JNum t)
  then show ?case by (cases t) (auto simp: int_part_def decimalDigits_def)
next
  case (JArr vs)
  then have "sum_list (map json_count vs) \<le> int (sum_list (map (\<lambda>v. json_bound v + 1) vs))"
    by (induction vs) fastforce+
  then show ?case by simp
next
  case (JObj kvs)
  then have "\<forall>kv \<in> set kvs. json_count (snd kv) \<le> int (json_bound (snd kv))"
    by (auto simp: list_all_iff snds.simps)
  then have "sum_list (map (\<lambda>kv. json_count (snd kv)) kvs)
      \<le> int (sum_list (map (\<lambda>kv. 6 * length (fst kv) + json_bound (snd kv) + 4) kvs))"
    by (induction kvs) auto
  then show ?case by simp
qed simp_all

section \<open>Lengths of printed texts\<close>

lemma escape_char_length: "length (escape_char c) \<le> 6"
  by (simp add: escape_char_def)

lemma quoted_length: "length (quoted t) \<le> 6 * length t + 2"
proof -
  have "length (concat (map escape_char t)) \<le> 6 * length t"
  proof (induction t)
    case (Cons c t)
    then show ?case using escape_char_length [of c] by simp
  qed simp
  then show ?thesis by (simp add: quoted_def)
qed

lemma marshal_rune_length: "length (marshal_rune r) \<le> 6 * length r"
  using escape_char_length [of "hd r"] by (cases r) (auto simp: marshal_rune_def)

lemma marshal_text_length: "length (marshal_text t) \<le> 6 * length t"
proof (induction t rule: marshal_text.induct)
  case (1 s)
  show ?case
  proof (cases "s = []")
    case True
    then show ?thesis by (simp add: marshal_text.simps)
  next
    case ne: False
    show ?thesis
    proof (cases "rune_len s = 0")
      case True
      then have "marshal_text s = CHR 0x5C # ''ufffd'' @ marshal_text (tl s)"
        using ne by (simp add: marshal_text.simps [of s])
      then show ?thesis using 1(1) [OF ne True] ne by (cases s) simp_all
    next
      case False
      define k where "k = rune_len s"
      have k: "k \<le> length s" using rune_len_le [of s] by (simp add: k_def)
      have "length (marshal_rune (take k s)) \<le> 6 * k" using marshal_rune_length [of "take k s"] k by simp
      moreover have "length (marshal_text (drop k s)) \<le> 6 * (length s - k)"
        using 1(2) [OF ne False] by (simp add: k_def)
      moreover have "marshal_text s = marshal_rune (take k s) @ marshal_text (drop k s)"
        using ne False by (simp add: marshal_text.simps [of s] k_def)
      ultimately show ?thesis using k by simp
    qed
  qed
qed

lemma marshal_string_length: "length (marshal_string t) \<le> 6 * length t + 2"
  using marshal_text_length [of t] by (simp add: marshal_string_def)

lemma items_text_length: "length (items_text first xs) \<le> sum_list (map (\<lambda>x. length x + 1) xs)"
proof (induction xs arbitrary: first)
  case (Cons x xs)
  show ?case using Cons [of False] by simp
qed simp

lemma sum_list_bound: "(\<And>x. x \<in> set xs \<Longrightarrow> f x \<le> g x) \<Longrightarrow> sum_list (map f xs) \<le> sum_list (map g xs)" for f :: "'a \<Rightarrow> nat"
  by (induction xs) (auto intro: add_mono)

lemma sum_list_sort_nat: "sum_list (map g (sort_key f xs)) = (sum_list (map g xs) :: nat)"
  by (metis mset_map mset_sort sum_mset_sum_list)

lemma print_length:
  assumes "\<And>t. length (str t) \<le> 6 * length t + 2" and "\<And>t. int_part t \<Longrightarrow> length t \<le> 1048576 \<Longrightarrow> length (num t) \<le> length t"
  shows "json_plain v \<Longrightarrow> json_bound v \<le> 1048576 \<Longrightarrow> length (print_json str num v) \<le> json_bound v"
proof (induction v)
  case (JArr vs)
  have "length (print_json str num v) + 1 \<le> json_bound v + 1" if "v \<in> set vs" for v
    using JArr that sum_list_item [OF that, of "\<lambda>v. json_bound v + 1"] by (fastforce simp: list_all_iff)
  then have "sum_list (map (\<lambda>v. length (print_json str num v) + 1) vs) \<le> sum_list (map (\<lambda>v. json_bound v + 1) vs)"
    by (rule sum_list_bound)
  then show ?case
    using items_text_length [of True "map (print_json str num) vs"] by (simp add: comma_separated_items comp_def)
next
  case (JObj kvs)
  let ?m = "\<lambda>kv. str (fst kv) @ '':'' @ print_json str num (snd kv)"
  have "length (?m kv) + 1 \<le> 6 * length (fst kv) + json_bound (snd kv) + 4" if "kv \<in> set kvs" for kv
  proof -
    have "json_bound (snd kv) \<le> 1048576"
      using sum_list_item [OF that, of "\<lambda>kv. 6 * length (fst kv) + json_bound (snd kv) + 4"] JObj.prems(2) by simp
    then have "length (print_json str num (snd kv)) \<le> json_bound (snd kv)"
      using JObj that by (auto simp: list_all_iff snds.simps)
    then show ?thesis using assms(1) [of "fst kv"] by simp
  qed
  then have "sum_list (map (\<lambda>kv. length (?m kv) + 1) kvs)
      \<le> sum_list (map (\<lambda>kv. 6 * length (fst kv) + json_bound (snd kv) + 4) kvs)"
    by (rule sum_list_bound)
  moreover have "length (items_text True (map ?m (sort_key fst kvs))) \<le> sum_list (map (\<lambda>kv. length (?m kv) + 1) kvs)"
    using items_text_length [of True "map ?m (sort_key fst kvs)"] sum_list_sort_nat [of "\<lambda>kv. length (?m kv) + 1" fst kvs]
    by (simp add: comp_def)
  ultimately show ?case by (simp add: comma_separated_items)
qed (use assms in auto)

text \<open>The success of \<open>Marshal\<close> and \<open>DigestValue\<close> on plain, bounded values.\<close>

theorem Marshal_plain:
  assumes "json_plain v" and "json_bound v \<le> 100000" and "json_height v \<le> 128"
  shows "Marshal v = Inr (canonical_text DefaultLimits v)"
proof -
  have b: "json_bound v \<le> 1048576" using assms(2) by simp
  have fits: "json_fits DefaultLimits v"
    using plain_wf [OF assms(1) b] bound_count [OF assms(1)] assms(2,3) by (simp add: json_fits_def DefaultLimits_def)
  have "length (json_Marshal v) \<le> json_bound v"
    unfolding json_Marshal_def by (rule print_length [OF marshal_string_length _ assms(1) b]) simp
  moreover have "length (canonical_text DefaultLimits v) \<le> json_bound v"
    unfolding canonical_text_def
  proof (rule print_length [OF _ _ assms(1) b])
    fix t :: string assume "int_part t" "length t \<le> 1048576"
    then show "length (canon_number DefaultLimits t) \<le> length t"
      using int_part_number(2) [of t DefaultLimits] by (simp add: canon_number_def DefaultLimits_def)
  qed (rule quoted_length)
  ultimately show ?thesis using Marshal_ok [OF fits] assms(2) by simp
qed

corollary DigestValue_plain:
  "json_plain v \<Longrightarrow> json_bound v \<le> 100000 \<Longrightarrow> json_height v \<le> 128 \<Longrightarrow>
     DigestValue v = Inr (sha256_text (canonical_text DefaultLimits v))"
  by (simp add: DigestValue_def Marshal_plain)

end
