(* ===== verification/Contracts.thy ===== *)
theory Contracts
  imports Json_Payload
begin

text \<open>
  Package sdk/go/contracts: the identities and the public data of the execution aggregates.
  A Go string type with named constants is a datatype with one constructor per constant and a
  constructor \<open>\<dots>Other\<close> for any other text, the zero value \<^verbatim>\<open>""\<close> included. A struct is a
  record whose fields carry the struct's prefix; an optional pointer is an option.
\<close>

section \<open>Identities (identity.go)\<close>

definition is_letter :: "char \<Rightarrow> bool" where
  "is_letter c \<longleftrightarrow> in_range 65 90 c \<or> in_range 97 122 c"

text \<open>The character class \<^verbatim>\<open>[A-Za-z0-9._-]\<close>.\<close>

definition identifier_char :: "char \<Rightarrow> bool" where
  "identifier_char c \<longleftrightarrow> is_letter c \<or> is_digit c \<or> c = CHR ''.'' \<or> c = CHR ''_'' \<or> c = CHR ''-''"

definition identifierPattern :: "string \<Rightarrow> bool" where
  "identifierPattern s = (case s of [] \<Rightarrow> False | c # r \<Rightarrow> is_letter c \<and> list_all identifier_char r)"

definition versionPattern :: "string \<Rightarrow> bool" where
  "versionPattern s = (case s of [] \<Rightarrow> False | c # r \<Rightarrow>
     (is_letter c \<or> is_digit c) \<and> list_all (\<lambda>d. identifier_char d \<or> d = CHR ''+'') r)"

text \<open>
  The pattern of a type reference: an identifier, a slash, the letter v, and a decimal number
  without a leading zero. No identifier holds a slash, so the first slash is the separator.
\<close>

definition type_major :: "string \<Rightarrow> bool" where
  "type_major s = (case s of v # d # r \<Rightarrow> v = CHR ''v'' \<and> in_range 49 57 d \<and> list_all is_digit r | _ \<Rightarrow> False)"

definition is_slash :: "char \<Rightarrow> bool" where "is_slash c \<longleftrightarrow> c = CHR ''/''"

definition typeRefPattern :: "string \<Rightarrow> bool" where
  "typeRefPattern s \<longleftrightarrow>
     identifierPattern (takeWhile (\<lambda>c. \<not> is_slash c) s) \<and>
     dropWhile (\<lambda>c. \<not> is_slash c) s \<noteq> [] \<and>
     type_major (tl (dropWhile (\<lambda>c. \<not> is_slash c) s))"

definition digestPattern :: "string \<Rightarrow> bool" where
  "digestPattern s \<longleftrightarrow> take 7 s = ''sha256:'' \<and> length s = 71 \<and> list_all is_hex (drop 7 s)"

definition ValidIdentifier :: "string \<Rightarrow> bool" where
  "ValidIdentifier s \<longleftrightarrow> s \<noteq> [] \<and> length s \<le> 128 \<and> utf8_valid s \<and> trimmed s \<and> identifierPattern s"

definition ValidVersion :: "string \<Rightarrow> bool" where
  "ValidVersion s \<longleftrightarrow> s \<noteq> [] \<and> length s \<le> 128 \<and> utf8_valid s \<and> trimmed s \<and> versionPattern s"

definition ValidTypeRef :: "string \<Rightarrow> bool" where
  "ValidTypeRef s \<longleftrightarrow> s \<noteq> [] \<and> length s \<le> 160 \<and> typeRefPattern s"

definition ValidDigest :: "string \<Rightarrow> bool" where
  "ValidDigest s \<longleftrightarrow> digestPattern s"

definition ValidOptionalDigest :: "string \<Rightarrow> bool" where
  "ValidOptionalDigest s \<longleftrightarrow> s = [] \<or> ValidDigest s"

text \<open>
  The UTF-8 and white-space tests of \<open>ValidIdentifier\<close> follow from the pattern; this is the
  form that proofs and evaluations use.
\<close>

lemma is_letter_bounds: "is_letter c \<Longrightarrow> 33 \<le> byte_val c \<and> byte_val c < 128"
  by (auto simp: is_letter_def in_range_def)

lemma identifier_char_bounds: "identifier_char c \<Longrightarrow> 33 \<le> byte_val c \<and> byte_val c < 128"
  by (auto simp: identifier_char_def is_digit_def in_range_def dest: is_letter_bounds)

lemma identifierPattern_chars:
  "identifierPattern s \<Longrightarrow> s \<noteq> [] \<and> is_letter (hd s) \<and> list_all identifier_char s"
  by (cases s) (auto simp: identifierPattern_def identifier_char_def)

lemma ValidIdentifier_iff: "ValidIdentifier s \<longleftrightarrow> length s \<le> 128 \<and> identifierPattern s"
proof -
  have "utf8_valid s \<and> trimmed s" if p: "identifierPattern s"
  proof
    have all: "\<forall>c \<in> set s. 33 \<le> byte_val c \<and> byte_val c < 128"
      using identifierPattern_chars [OF p] identifier_char_bounds by (auto simp: list_all_iff)
    then show "utf8_valid s"
      by (intro utf8_valid_ascii) (auto simp: list_all_iff ascii_def)
    show "trimmed s"
      using all identifierPattern_chars [OF p] by (intro trimmedI) auto
  qed
  then show ?thesis
    using identifierPattern_chars by (auto simp: ValidIdentifier_def)
qed

lemma ValidIdentifier_Nil [simp]: "\<not> ValidIdentifier []"
  by (simp add: ValidIdentifier_def)

lemma ValidDigest_Nil [simp]: "\<not> ValidDigest []"
  by (simp add: ValidDigest_def digestPattern_def)

lemma ValidIdentifier_utf8 [simp]: "ValidIdentifier s \<Longrightarrow> utf8_valid s"
  by (simp add: ValidIdentifier_def)

lemma ValidIdentifier_length: "ValidIdentifier s \<Longrightarrow> length s \<le> 128"
  by (simp add: ValidIdentifier_def)

lemma ValidDigest_text: "ValidDigest s \<Longrightarrow> utf8_valid s \<and> length s = 71"
proof -
  assume "ValidDigest s"
  then have s: "take 7 s = ''sha256:''" "length s = 71" "list_all is_hex (drop 7 s)"
    by (simp_all add: ValidDigest_def digestPattern_def)
  have "list_all ascii (drop 7 s)"
    using s(3) by (auto simp: list_all_iff is_hex_def in_range_def ascii_def)
  moreover have "list_all ascii (take 7 s)" unfolding s(1) by (simp add: ascii_def)
  ultimately have "list_all ascii (take 7 s @ drop 7 s)" by (simp only: list_all_append)
  then show ?thesis using utf8_valid_ascii s(2) by simp
qed

lemmas text_eval =
  identifierPattern_def identifier_char_def is_letter_def is_digit_def in_range_def
  ValidIdentifier_iff ValidTypeRef_def typeRefPattern_def type_major_def is_slash_def

lemma sha256_text_ValidDigest [simp]: "ValidDigest (sha256_text s)"
  by (simp add: ValidDigest_def digestPattern_def sha256_text_def EncodeToString_hex)

lemma DigestValue_ValidDigest: "DigestValue v = Inr d \<Longrightarrow> ValidDigest d"
  by (auto simp: DigestValue_def)

section \<open>Failures\<close>

datatype FailureClass = FailureTransient | FailurePermanent | FailureCanceled | FailureUncertain
  | FailureClassOther string

definition FailureClass_Valid :: "FailureClass \<Rightarrow> bool" where
  "FailureClass_Valid c = (case c of FailureClassOther _ \<Rightarrow> False | _ \<Rightarrow> True)"

definition FailureClass_string :: "FailureClass \<Rightarrow> string" where
  "FailureClass_string c = (case c of FailureTransient \<Rightarrow> ''transient'' | FailurePermanent \<Rightarrow> ''permanent''
     | FailureCanceled \<Rightarrow> ''canceled'' | FailureUncertain \<Rightarrow> ''uncertain'' | FailureClassOther s \<Rightarrow> s)"

record StructuredFailure =
  fail_Class :: FailureClass
  fail_Code :: string
  fail_Message :: string
  fail_EvidenceRef :: string

section \<open>Runs\<close>

datatype RunStatus = RunAccepted | RunQueued | RunRunning | RunWaiting | RunStopping
  | RunSucceeded | RunFailed | RunCanceled | RunStopped | RunRejected | RunStatusOther string

definition RunStatus_Valid :: "RunStatus \<Rightarrow> bool" where
  "RunStatus_Valid s = (case s of RunStatusOther _ \<Rightarrow> False | _ \<Rightarrow> True)"

definition RunStatus_Terminal :: "RunStatus \<Rightarrow> bool" where
  "RunStatus_Terminal s = (s \<in> {RunSucceeded, RunFailed, RunCanceled, RunStopped, RunRejected})"

definition RunStatus_string :: "RunStatus \<Rightarrow> string" where
  "RunStatus_string s = (case s of RunAccepted \<Rightarrow> ''accepted'' | RunQueued \<Rightarrow> ''queued''
     | RunRunning \<Rightarrow> ''running'' | RunWaiting \<Rightarrow> ''waiting'' | RunStopping \<Rightarrow> ''stopping''
     | RunSucceeded \<Rightarrow> ''succeeded'' | RunFailed \<Rightarrow> ''failed'' | RunCanceled \<Rightarrow> ''canceled''
     | RunStopped \<Rightarrow> ''stopped'' | RunRejected \<Rightarrow> ''rejected'' | RunStatusOther t \<Rightarrow> t)"

datatype TerminationKind = TerminationCompleted | TerminationFailed | TerminationCanceled
  | TerminationStopped | TerminationRejected | TerminationKindOther string

definition TerminationKind_Valid :: "TerminationKind \<Rightarrow> bool" where
  "TerminationKind_Valid k = (case k of TerminationKindOther _ \<Rightarrow> False | _ \<Rightarrow> True)"

definition RequiresStopping :: "TerminationKind \<Rightarrow> bool" where
  "RequiresStopping k \<longleftrightarrow> k = TerminationFailed \<or> k = TerminationCanceled \<or> k = TerminationStopped"

definition TerminationKind_string :: "TerminationKind \<Rightarrow> string" where
  "TerminationKind_string k = (case k of TerminationCompleted \<Rightarrow> ''completed'' | TerminationFailed \<Rightarrow> ''failed''
     | TerminationCanceled \<Rightarrow> ''canceled'' | TerminationStopped \<Rightarrow> ''stopped''
     | TerminationRejected \<Rightarrow> ''rejected'' | TerminationKindOther t \<Rightarrow> t)"

record TerminationIntent =
  ti_Kind :: TerminationKind
  ti_RequestedRevision :: u64
  ti_RequestedBy :: string
  ti_ReasonCode :: string
  ti_Reason :: string
  ti_PrimaryFailure :: "StructuredFailure option"
  ti_CommandID :: string
  ti_RequestedAt :: instant

record ParentRunLink =
  prl_ParentRunID :: string
  prl_ParentInvocationID :: string
  prl_CallNodeID :: string
  prl_MappingDigest :: string

record ActionRef =
  ar_ActionID :: string
  ar_Version :: string
  ar_Digest :: string

record Run =
  run_RunID :: string
  run_NamespaceID :: string
  run_ActionRef :: ActionRef
  run_ExecutionPlanRef :: string
  run_PlanDigest :: string
  run_TriggerRef :: string
  run_TriggerDigest :: string
  run_InputDigest :: string
  run_ProvenanceArtifactRef :: string
  run_ScopeRef :: string
  run_Parent :: "ParentRunLink option"
  run_RootRunID :: string
  run_ActorRef :: string
  run_SourceRef :: string
  run_CorrelationRef :: string
  run_AdmissionPolicyRef :: string
  run_AdmissionPolicyDigest :: string
  run_ActiveOwnerRef :: string
  run_ActiveOwnerGeneration :: u64
  run_Status :: RunStatus
  run_Termination :: "TerminationIntent option"
  run_TerminationKind :: TerminationKind
  run_ResultRef :: string
  run_PrimaryFailure :: "StructuredFailure option"
  run_CleanupFailures :: "StructuredFailure list"
  run_AcceptedAt :: instant
  run_StartedAt :: "instant option"
  run_UpdatedAt :: instant
  run_FinishedAt :: "instant option"
  run_Revision :: u64

record RunClosureFacts =
  cf_RunRevision :: u64
  cf_OwnershipGraphRevision :: u64
  cf_ActiveInvocationCount :: u64
  cf_LiveAttemptCount :: u64
  cf_OpenWaitCount :: u64
  cf_OpenChildCount :: u64
  cf_OpenEffectCount :: u64
  cf_OpenEffectCompensationCount :: u64
  cf_OpenOwnedRuntimeCount :: u64
  cf_OpenOwnedResourceCount :: u64

definition Satisfied :: "RunClosureFacts \<Rightarrow> bool" where
  "Satisfied f \<longleftrightarrow> cf_ActiveInvocationCount f = 0 \<and> cf_LiveAttemptCount f = 0 \<and> cf_OpenWaitCount f = 0 \<and>
     cf_OpenChildCount f = 0 \<and> cf_OpenEffectCount f = 0 \<and> cf_OpenEffectCompensationCount f = 0 \<and>
     cf_OpenOwnedRuntimeCount f = 0 \<and> cf_OpenOwnedResourceCount f = 0"

section \<open>Invocations and attempts\<close>

datatype InvocationStatus = InvocationReady | InvocationRunning | InvocationWaiting | InvocationRetryWait
  | InvocationSucceeded | InvocationFailed | InvocationCanceled | InvocationSkipped
  | InvocationStatusOther string

definition InvocationStatus_Valid :: "InvocationStatus \<Rightarrow> bool" where
  "InvocationStatus_Valid s = (case s of InvocationStatusOther _ \<Rightarrow> False | _ \<Rightarrow> True)"

definition InvocationStatus_Terminal :: "InvocationStatus \<Rightarrow> bool" where
  "InvocationStatus_Terminal s =
     (s \<in> {InvocationSucceeded, InvocationFailed, InvocationCanceled, InvocationSkipped})"

definition InvocationStatus_string :: "InvocationStatus \<Rightarrow> string" where
  "InvocationStatus_string s = (case s of InvocationReady \<Rightarrow> ''ready'' | InvocationRunning \<Rightarrow> ''running''
     | InvocationWaiting \<Rightarrow> ''waiting'' | InvocationRetryWait \<Rightarrow> ''retry-wait''
     | InvocationSucceeded \<Rightarrow> ''succeeded'' | InvocationFailed \<Rightarrow> ''failed''
     | InvocationCanceled \<Rightarrow> ''canceled'' | InvocationSkipped \<Rightarrow> ''skipped'' | InvocationStatusOther t \<Rightarrow> t)"

datatype CompensationStatus = CompensationNotRequired | CompensationUnscheduled | CompensationReady
  | CompensationRunning | CompensationRetryWait | CompensationSucceeded | CompensationFailed
  | CompensationCanceled | CompensationStatusOther string

definition CompensationStatus_Valid :: "CompensationStatus \<Rightarrow> bool" where
  "CompensationStatus_Valid s = (case s of CompensationStatusOther _ \<Rightarrow> False | _ \<Rightarrow> True)"

definition CompensationStatus_Terminal :: "CompensationStatus \<Rightarrow> bool" where
  "CompensationStatus_Terminal s \<longleftrightarrow> s = CompensationNotRequired \<or> s = CompensationSucceeded \<or>
     s = CompensationFailed \<or> s = CompensationCanceled"

definition CompensationStatus_string :: "CompensationStatus \<Rightarrow> string" where
  "CompensationStatus_string s = (case s of CompensationNotRequired \<Rightarrow> ''not-required''
     | CompensationUnscheduled \<Rightarrow> ''unscheduled'' | CompensationReady \<Rightarrow> ''ready''
     | CompensationRunning \<Rightarrow> ''running'' | CompensationRetryWait \<Rightarrow> ''retry-wait''
     | CompensationSucceeded \<Rightarrow> ''succeeded'' | CompensationFailed \<Rightarrow> ''failed''
     | CompensationCanceled \<Rightarrow> ''canceled'' | CompensationStatusOther t \<Rightarrow> t)"

record Invocation =
  inv_InvocationID :: string
  inv_NamespaceID :: string
  inv_RunID :: string
  inv_NodeID :: string
  inv_TypeRef :: string
  inv_DescriptorDigest :: string
  inv_ResolvedInputDigest :: string
  inv_InputRefsDigest :: string
  inv_Status :: InvocationStatus
  inv_ActiveAttemptID :: string
  inv_ActiveCompensationAttemptID :: string
  inv_ExecutionAttemptCount :: u32
  inv_WaitGeneration :: u32
  inv_CurrentWaitRef :: string
  inv_NextAttemptAt :: "instant option"
  inv_OutputRefsDigest :: string
  inv_PrimaryFailure :: "StructuredFailure option"
  inv_CompensationStatus :: CompensationStatus
  inv_CompensationAttemptCount :: u32
  inv_CompensationFailure :: "StructuredFailure option"
  inv_CompensationNextAt :: "instant option"
  inv_CreatedAt :: instant
  inv_StartedAt :: "instant option"
  inv_UpdatedAt :: instant
  inv_FinishedAt :: "instant option"
  inv_Revision :: u64

datatype AttemptPhase = AttemptExecution | AttemptCompensation | AttemptPhaseOther string

definition AttemptPhase_Valid :: "AttemptPhase \<Rightarrow> bool" where
  "AttemptPhase_Valid p \<longleftrightarrow> p = AttemptExecution \<or> p = AttemptCompensation"

definition AttemptPhase_string :: "AttemptPhase \<Rightarrow> string" where
  "AttemptPhase_string p = (case p of AttemptExecution \<Rightarrow> ''execution''
     | AttemptCompensation \<Rightarrow> ''compensation'' | AttemptPhaseOther t \<Rightarrow> t)"

datatype AttemptStatus = AttemptRunning | AttemptWaiting | AttemptSucceeded | AttemptFailed
  | AttemptCanceled | AttemptAbandoned | AttemptStatusOther string

definition AttemptStatus_Valid :: "AttemptStatus \<Rightarrow> bool" where
  "AttemptStatus_Valid s = (case s of AttemptStatusOther _ \<Rightarrow> False | _ \<Rightarrow> True)"

definition AttemptStatus_Terminal :: "AttemptStatus \<Rightarrow> bool" where
  "AttemptStatus_Terminal s \<longleftrightarrow> s = AttemptSucceeded \<or> s = AttemptFailed \<or> s = AttemptCanceled \<or>
     s = AttemptAbandoned"

definition AttemptStatus_string :: "AttemptStatus \<Rightarrow> string" where
  "AttemptStatus_string s = (case s of AttemptRunning \<Rightarrow> ''running'' | AttemptWaiting \<Rightarrow> ''waiting''
     | AttemptSucceeded \<Rightarrow> ''succeeded'' | AttemptFailed \<Rightarrow> ''failed''
     | AttemptCanceled \<Rightarrow> ''canceled'' | AttemptAbandoned \<Rightarrow> ''abandoned'' | AttemptStatusOther t \<Rightarrow> t)"

record Attempt =
  att_AttemptID :: string
  att_NamespaceID :: string
  att_RunID :: string
  att_InvocationID :: string
  att_Phase :: AttemptPhase
  att_Ordinal :: u32
  att_Status :: AttemptStatus
  att_ResolvedInputDigest :: string
  att_OwnerRef :: string
  att_LeaseTokenHash :: string
  att_LeaseExpiresAt :: instant
  att_AdoptionCount :: u32
  att_CheckpointRef :: string
  att_CheckpointDigest :: string
  att_Failure :: "StructuredFailure option"
  att_CreatedAt :: instant
  att_StartedAt :: instant
  att_UpdatedAt :: instant
  att_FinishedAt :: "instant option"
  att_Revision :: u64

record InvocationLedger =
  led_Invocation :: Invocation
  led_Attempts :: "Attempt list"

section \<open>Events and intents\<close>

type_synonym payload = "(string \<times> json) list"

record DomainEvent =
  ev_EventID :: string
  ev_AggregateType :: string
  ev_AggregateID :: string
  ev_AggregateRevision :: u64
  ev_Type :: string
  ev_CommandID :: string
  ev_CausationID :: string
  ev_CorrelationID :: string
  ev_PayloadSchemaDigest :: string
  ev_PayloadDigest :: string
  ev_Payload :: payload
  ev_OccurredAt :: instant

datatype DurableIntentKind = IntentOutbox | IntentReconcile | IntentCleanup | IntentWaitResolution
  | IntentChildResolution | IntentKindOther string

definition IntentKind_string :: "DurableIntentKind \<Rightarrow> string" where
  "IntentKind_string k = (case k of IntentOutbox \<Rightarrow> ''outbox'' | IntentReconcile \<Rightarrow> ''reconcile''
     | IntentCleanup \<Rightarrow> ''cleanup'' | IntentWaitResolution \<Rightarrow> ''wait-resolution''
     | IntentChildResolution \<Rightarrow> ''child-resolution'' | IntentKindOther t \<Rightarrow> t)"

record DurableIntent =
  di_Kind :: DurableIntentKind
  di_Identity :: string
  di_AggregateID :: string
  di_PayloadDigest :: string
  di_Payload :: payload

section \<open>JSON of the contract values\<close>

definition JU64 :: "u64 \<Rightarrow> json" where "JU64 w = JNum (decimal_u64 w)"
definition JU32 :: "u32 \<Rightarrow> json" where "JU32 w = JNum (decimal_u32 w)"

lemma JU64_plain [simp]: "json_plain (JU64 w)" "json_height (JU64 w) = 1"
  by (simp_all add: JU64_def decimal_u64_def decimal_nat_int_part)

lemma JU64_bound: "json_bound (JU64 w) \<le> 20"
  using decimal_u64_length [of w] by (simp add: JU64_def)

lemma JU32_plain [simp]: "json_plain (JU32 w)" "json_height (JU32 w) = 1"
  by (simp_all add: JU32_def decimal_u32_def decimal_nat_int_part)

lemma JU32_bound: "json_bound (JU32 w) \<le> 10"
  using decimal_u32_length [of w] by (simp add: JU32_def)

text \<open>A \<^verbatim>\<open>time.Time\<close> inside a payload: its JSON, or the error of \<^verbatim>\<open>MarshalJSON\<close>.\<close>

definition time_json :: "instant \<Rightarrow> json result" where
  "time_json t = (if marshalable_time t then Inr (JStr (rfc3339 t)) else Inl (Errorf ''year outside of range [0,9999]''))"

text \<open>A field with \<^verbatim>\<open>omitempty\<close>.\<close>

definition omitempty :: "bool \<Rightarrow> string \<Rightarrow> json \<Rightarrow> (string \<times> json) list" where
  "omitempty present k v = (if present then [(k, v)] else [])"

definition ActionRef_json :: "ActionRef \<Rightarrow> json" where
  "ActionRef_json r = JObj [(''actionId'', JStr (ar_ActionID r)), (''version'', JStr (ar_Version r)),
     (''digest'', JStr (ar_Digest r))]"

definition StructuredFailure_json :: "StructuredFailure \<Rightarrow> json" where
  "StructuredFailure_json f = JObj ([(''class'', JStr (FailureClass_string (fail_Class f))),
     (''code'', JStr (fail_Code f)), (''message'', JStr (fail_Message f))] @
     omitempty (fail_EvidenceRef f \<noteq> []) ''evidenceRef'' (JStr (fail_EvidenceRef f)))"

definition failure_json :: "StructuredFailure option \<Rightarrow> json" where
  "failure_json f = (case f of None \<Rightarrow> JNull | Some x \<Rightarrow> StructuredFailure_json x)"

text \<open>The value of a digest or identity that is known to exist.\<close>

definition value_of :: "string result \<Rightarrow> string" where
  "value_of r = (case r of Inl _ \<Rightarrow> [] | Inr s \<Rightarrow> s)"

lemma value_of_Inr [simp]: "value_of (Inr s) = s"
  by (simp add: value_of_def)

lemma digest_known:
  assumes "json_plain v" and "json_bound v \<le> 100000" and "json_height v \<le> 128"
  shows "DigestValue v = Inr (value_of (DigestValue v))" and "ValidDigest (value_of (DigestValue v))"
  using DigestValue_plain [OF assms] by (auto dest: DigestValue_ValidDigest)

end
