(* ===== verification/Exec_Identity.thy ===== *)
theory Exec_Identity
  imports Contracts
begin

text \<open>
  Package kernel/execution, identity.go and event.go: stable identities derived from
  canonical JSON, the validators that the reducers share, and the construction of domain
  events and durable intents.
\<close>

section \<open>Stable identities\<close>

definition maxMessageBytes :: nat where "maxMessageBytes = 4096"

definition stableID :: "string \<Rightarrow> string \<Rightarrow> json list \<Rightarrow> string result" where
  "stableID pre domain parts =
     ensure (fail_if (\<not> ValidIdentifier pre \<or> \<not> ValidTypeRef domain)
               (Errorf ''stable identity domain or prefix is invalid''))
       (andThen (Marshal (JArr (JStr domain # parts))) (\<lambda>canonical.
          Inr (pre @ ''-'' @ EncodeToString (Sum256 (string_bytes canonical)))))"

definition StableInvocationID :: "string \<Rightarrow> string \<Rightarrow> string result" where
  "StableInvocationID runID nodeID = stableID ''inv'' ''xgc.invocation/v1'' [JStr runID, JStr nodeID]"

definition StableChildRunID :: "string \<Rightarrow> ActionRef \<Rightarrow> string result" where
  "StableChildRunID parentInvocationID action =
     ensure (fail_if (\<not> ValidIdentifier parentInvocationID \<or> \<not> ValidIdentifier (ar_ActionID action) \<or>
                      \<not> ValidIdentifier (ar_Version action) \<or> \<not> ValidDigest (ar_Digest action))
               (Errorf ''child Run parent invocation or Action ref is invalid''))
       (stableID ''run'' ''xgc.child-run/v1'' [JStr parentInvocationID, ActionRef_json action])"

definition StableChildTriggerEventID :: "string \<Rightarrow> string result" where
  "StableChildTriggerEventID childRunID =
     ensure (fail_if (\<not> ValidIdentifier childRunID) (Errorf ''child trigger Run identity is invalid''))
       (stableID ''trg'' ''xgc.child-trigger/v1'' [JStr childRunID])"

definition StableAttemptID :: "string \<Rightarrow> AttemptPhase \<Rightarrow> u32 \<Rightarrow> string result" where
  "StableAttemptID invocationID phase ordinal =
     stableID ''att'' ''xgc.attempt/v1'' [JStr invocationID, JStr (AttemptPhase_string phase), JU32 ordinal]"

definition StableEventID :: "string \<Rightarrow> string \<Rightarrow> u64 \<Rightarrow> string result" where
  "StableEventID aggregateType aggregateID revision =
     stableID ''evt'' ''xgc.domain-event/v1'' [JStr aggregateType, JStr aggregateID, JU64 revision]"

definition StableIntentID :: "DurableIntentKind \<Rightarrow> string \<Rightarrow> u64 \<Rightarrow> string result" where
  "StableIntentID kind aggregateID revision =
     stableID ''dti'' ''xgc.durable-intent/v1'' [JStr (IntentKind_string kind), JStr aggregateID, JU64 revision]"

section \<open>Validators\<close>

definition validateIdentity :: "string \<Rightarrow> error option" where
  "validateIdentity s = fail_if (\<not> ValidIdentifier s) (Errorf ''must be a portable identifier'')"

definition validateOptionalIdentity :: "string \<Rightarrow> error option" where
  "validateOptionalIdentity s = (if s = [] then None else validateIdentity s)"

definition validateCanonicalText :: "string \<Rightarrow> nat \<Rightarrow> bool \<Rightarrow> error option" where
  "validateCanonicalText s maximum required =
     (if s = [] then fail_if required (Errorf ''is required'')
      else fail_if (\<not> utf8_valid s \<or> length s > maximum \<or> \<not> trimmed s \<or> CHR 0x00 \<in> set s)
             (Errorf ''must be canonical UTF-8''))"

definition PrivateTokenDigest :: "string \<Rightarrow> string result" where
  "PrivateTokenDigest s = ensure (validateCanonicalText s 512 True) (Inr (sha256_text s))"

definition validateFailure :: "StructuredFailure option \<Rightarrow> bool \<Rightarrow> error option" where
  "validateFailure failure required =
     (case failure of
        None \<Rightarrow> fail_if required (Errorf ''failure is required'')
      | Some f \<Rightarrow> first_error
          [fail_if (\<not> FailureClass_Valid (fail_Class f)) (Errorf ''failure class is invalid''),
           validateIdentity (fail_Code f),
           validateCanonicalText (fail_Message f) maxMessageBytes True,
           validateOptionalIdentity (fail_EvidenceRef f)])"

lemma validateIdentity_None [simp]: "validateIdentity s = None \<longleftrightarrow> ValidIdentifier s"
  by (simp add: validateIdentity_def)

lemma validateOptionalIdentity_None [simp]:
  "validateOptionalIdentity s = None \<longleftrightarrow> s = [] \<or> ValidIdentifier s"
  by (simp add: validateOptionalIdentity_def)

lemma validateFailure_weaken [simp]: "validateFailure f True = None \<Longrightarrow> validateFailure f b = None"
  by (cases f) (simp_all add: validateFailure_def)

lemma validateFailure_absent [simp]: "validateFailure None False = None"
  by (simp add: validateFailure_def)

lemma validateFailure_required: "validateFailure f True = None \<Longrightarrow> f \<noteq> None"
  by (cases f) (simp_all add: validateFailure_def)

lemma PrivateTokenDigest_ValidDigest: "PrivateTokenDigest s = Inr d \<Longrightarrow> ValidDigest d"
  by (auto simp: PrivateTokenDigest_def)

section \<open>Events and intents\<close>

definition eventPayloadSchemaDigest :: string where
  "eventPayloadSchemaDigest = ''sha256:82ef96cebaf5fbe16269fd18b0240d78f5b9b90a4155a17eb797115b09148ecf''"

text \<open>A nil payload and an empty map are both the empty list here.\<close>

definition newEvent ::
  "string \<Rightarrow> string \<Rightarrow> u64 \<Rightarrow> string \<Rightarrow> string \<Rightarrow> instant \<Rightarrow> payload \<Rightarrow> DomainEvent result" where
  "newEvent aggregateType aggregateID revision eventType commandID at payload =
     ensure (validateIdentity aggregateType) (
     ensure (validateIdentity aggregateID) (
     ensure (fail_if (revision = 0 \<or> IsZero at) (Errorf ''event revision and time are required'')) (
     ensure (validateIdentity eventType) (
     ensure (validateIdentity commandID) (
     andThen (DigestValue (JObj payload)) (\<lambda>payloadDigest.
     andThen (StableEventID aggregateType aggregateID revision) (\<lambda>eventID.
       Inr \<lparr>ev_EventID = eventID, ev_AggregateType = aggregateType, ev_AggregateID = aggregateID,
            ev_AggregateRevision = revision, ev_Type = eventType, ev_CommandID = commandID,
            ev_CausationID = [], ev_CorrelationID = [], ev_PayloadSchemaDigest = eventPayloadSchemaDigest,
            ev_PayloadDigest = payloadDigest, ev_Payload = payload, ev_OccurredAt = at\<rparr>)))))))"

definition newDurableIntent :: "DurableIntentKind \<Rightarrow> string \<Rightarrow> u64 \<Rightarrow> payload \<Rightarrow> DurableIntent result" where
  "newDurableIntent kind aggregateID revision payload =
     andThen (DigestValue (JObj payload)) (\<lambda>digest.
     andThen (StableIntentID kind aggregateID revision) (\<lambda>identity.
       Inr \<lparr>di_Kind = kind, di_Identity = identity, di_AggregateID = aggregateID,
            di_PayloadDigest = digest, di_Payload = payload\<rparr>))"

lemma newEvent_fields:
  assumes "newEvent ty agg rv et cmd at p = Inr e"
  shows "ev_AggregateType e = ty" "ev_AggregateID e = agg" "ev_AggregateRevision e = rv" "ev_Type e = et"
    "ev_CommandID e = cmd" "ev_OccurredAt e = at" "ev_Payload e = p" "rv \<noteq> 0" "\<not> IsZero at"
    "ValidIdentifier cmd" "StableEventID ty agg rv = Inr (ev_EventID e)"
  using assms by (auto simp: newEvent_def)

lemma newDurableIntent_fields:
  assumes "newDurableIntent k agg rv p = Inr i"
  shows "di_Kind i = k" "di_AggregateID i = agg" "di_Payload i = p"
    "StableIntentID k agg rv = Inr (di_Identity i)"
  using assms by (auto simp: newDurableIntent_def)

lemma stableID_ok: "Marshal (JArr (JStr d # ps)) = Inr c \<Longrightarrow> ValidIdentifier p \<Longrightarrow> ValidTypeRef d \<Longrightarrow>
    stableID p d ps = Inr (p @ ''-'' @ EncodeToString (Sum256 (string_bytes c)))"
  by (simp add: stableID_def)

text \<open>Identities and events of identifiers and plain payloads can always be made.\<close>

lemma stableID_plain:
  assumes "ValidIdentifier p" and "ValidTypeRef d" and "utf8_valid d" and "list_all json_plain ps"
    and "json_bound (JArr (JStr d # ps)) \<le> 100000" and "json_height (JArr (JStr d # ps)) \<le> 128"
  shows "\<exists>i. stableID p d ps = Inr i"
  using stableID_ok [OF Marshal_plain assms(1,2)] assms(3-6) by auto

lemma domain_ok:
  "ValidTypeRef ''xgc.domain-event/v1''" "utf8_valid ''xgc.domain-event/v1''"
  "ValidTypeRef ''xgc.durable-intent/v1''" "utf8_valid ''xgc.durable-intent/v1''"
  "ValidTypeRef ''xgc.attempt/v1''" "utf8_valid ''xgc.attempt/v1''"
  "ValidTypeRef ''xgc.invocation/v1''" "utf8_valid ''xgc.invocation/v1''"
  by (simp_all add: text_eval ascii_def)

lemma prefix_ok: "ValidIdentifier ''evt''" "ValidIdentifier ''dti''" "ValidIdentifier ''att''" "ValidIdentifier ''inv''"
  by (simp_all add: text_eval)

lemma StableEventID_ok:
  assumes "ValidIdentifier ty" and "ValidIdentifier agg"
  shows "\<exists>i. StableEventID ty agg rv = Inr i"
  unfolding StableEventID_def
  by (rule stableID_plain)
    (use assms prefix_ok domain_ok JU64_bound [of rv] ValidIdentifier_length [OF assms(1)] ValidIdentifier_length [OF assms(2)]
      in simp_all)

lemma StableIntentID_ok:
  assumes "utf8_valid (IntentKind_string k)" and "length (IntentKind_string k) \<le> 128" and "ValidIdentifier agg"
  shows "\<exists>i. StableIntentID k agg rv = Inr i"
  unfolding StableIntentID_def
  by (rule stableID_plain)
    (use assms prefix_ok domain_ok JU64_bound [of rv] ValidIdentifier_length [OF assms(3)] in simp_all)

lemma StableAttemptID_ok:
  assumes "AttemptPhase_Valid ph" and "ValidIdentifier ivk"
  shows "\<exists>i. StableAttemptID ivk ph ord = Inr i"
  unfolding StableAttemptID_def
  by (rule stableID_plain)
    (use assms prefix_ok domain_ok JU32_bound [of ord] ValidIdentifier_length [OF assms(2)] in
      \<open>auto simp: AttemptPhase_Valid_def AttemptPhase_string_def ascii_def\<close>)

lemma newEvent_ok:
  assumes "ValidIdentifier ty" and "ValidIdentifier agg" and "rv \<noteq> 0" and "at \<noteq> 0" and "ValidIdentifier et"
    and "ValidIdentifier cmd" and "json_plain (JObj p)" and "json_bound (JObj p) \<le> 100000" and "json_height (JObj p) \<le> 128"
  shows "\<exists>e. newEvent ty agg rv et cmd at p = Inr e"
proof -
  obtain i where "StableEventID ty agg rv = Inr i" using StableEventID_ok assms(1,2) by blast
  then show ?thesis using assms DigestValue_plain [OF assms(7-9)] by (simp add: newEvent_def)
qed

lemma newDurableIntent_ok:
  assumes "utf8_valid (IntentKind_string k)" and "length (IntentKind_string k) \<le> 128" and "ValidIdentifier agg"
    and "json_plain (JObj p)" and "json_bound (JObj p) \<le> 100000" and "json_height (JObj p) \<le> 128"
  shows "\<exists>i. newDurableIntent k agg rv p = Inr i"
proof -
  obtain i where "StableIntentID k agg rv = Inr i" using StableIntentID_ok assms(1-3) by blast
  then show ?thesis using DigestValue_plain [OF assms(4-6)] by (simp add: newDurableIntent_def)
qed

text \<open>A stable identity is itself a portable identifier.\<close>

lemma is_hex_identifier_char: "is_hex c \<Longrightarrow> identifier_char c"
  by (auto simp: is_hex_def identifier_char_def is_letter_def is_digit_def in_range_def)

lemma stableID_identifier:
  assumes "stableID p d ps = Inr i" and "length p \<le> 63"
  shows "ValidIdentifier i"
proof -
  obtain h where i: "i = p @ ''-'' @ h" and h: "list_all is_hex h" "length h = 64"
    and p: "ValidIdentifier p"
    using assms(1) by (auto simp: stableID_def EncodeToString_hex)
  have hc: "list_all identifier_char h" using h(1) by (auto simp: list_all_iff is_hex_identifier_char)
  obtain c r where cr: "p = c # r" using p by (cases p) auto
  have dash: "identifier_char (CHR ''-'')" by (simp add: identifier_char_def)
  have "identifierPattern (p @ ''-'' @ h)"
    using p hc dash cr by (simp add: ValidIdentifier_iff identifierPattern_def)
  then show ?thesis using i h assms(2) by (simp add: ValidIdentifier_iff)
qed

end
