(* ===== verification/Run_Reducer.thy ===== *)
theory Run_Reducer
  imports Exec_Identity
begin

text \<open>
  Package kernel/execution, run.go: admission and lifecycle of a Run. \<open>AdmitRun\<close> creates
  an aggregate at revision 1; \<open>TransitionRun\<close> is the only operation that changes it.
\<close>

section \<open>Commands and decisions\<close>

record AdmitRunCommand =
  arc_RunID :: string
  arc_NamespaceID :: string
  arc_ActionRef :: ActionRef
  arc_ExecutionPlanRef :: string
  arc_PlanDigest :: string
  arc_TriggerRef :: string
  arc_TriggerDigest :: string
  arc_InputDigest :: string
  arc_ProvenanceArtifactRef :: string
  arc_ScopeRef :: string
  arc_Parent :: "ParentRunLink option"
  arc_RootRunID :: string
  arc_ActorRef :: string
  arc_SourceRef :: string
  arc_CorrelationRef :: string
  arc_AdmissionPolicyRef :: string
  arc_AdmissionPolicyDigest :: string
  arc_ActiveOwnerRef :: string
  arc_ActiveOwnerGeneration :: u64
  arc_CommandID :: string
  arc_At :: instant

record RunTransitionCommand =
  rtc_RunID :: string
  rtc_ExpectedRevision :: u64
  rtc_To :: RunStatus
  rtc_Termination :: "TerminationIntent option"
  rtc_ResultRef :: string
  rtc_CleanupFailures :: "StructuredFailure list"
  rtc_Closure :: RunClosureFacts
  rtc_CommandID :: string
  rtc_At :: instant

record RunDecision =
  rd_Run :: Run
  rd_Events :: "DomainEvent list"
  rd_Intents :: "DurableIntent list"

section \<open>Validation\<close>

definition run_edges :: "(RunStatus \<times> RunStatus list) list" where
  "run_edges =
     [(RunAccepted, [RunQueued, RunRunning, RunStopping, RunRejected]),
      (RunQueued, [RunRunning, RunStopping]),
      (RunRunning, [RunWaiting, RunStopping, RunSucceeded]),
      (RunWaiting, [RunRunning, RunStopping, RunSucceeded]),
      (RunStopping, [RunFailed, RunCanceled, RunStopped])]"

definition ValidateRunTransition :: "RunStatus \<Rightarrow> RunStatus \<Rightarrow> error option" where
  "ValidateRunTransition from to = first_error
     [fail_if (\<not> RunStatus_Valid from \<or> \<not> RunStatus_Valid to \<or> from = to) (ErrInvalidTransition ExecutionPkg),
      fail_if (\<not> (case map_of run_edges from of None \<Rightarrow> False | Some tos \<Rightarrow> to \<in> set tos))
        (ErrInvalidTransition ExecutionPkg)]"

definition terminalStatus :: "TerminationKind \<Rightarrow> RunStatus" where
  "terminalStatus k = (case k of TerminationFailed \<Rightarrow> RunFailed | TerminationCanceled \<Rightarrow> RunCanceled
     | TerminationStopped \<Rightarrow> RunStopped | _ \<Rightarrow> RunStatusOther [])"

definition validateTermination :: "TerminationIntent \<Rightarrow> error option" where
  "validateTermination intent = first_error
     [fail_if (\<not> RequiresStopping (ti_Kind intent) \<or> ti_RequestedRevision intent = 0)
        (Errorf ''termination intent kind or requested revision is invalid''),
      validateIdentity (ti_RequestedBy intent), validateIdentity (ti_ReasonCode intent),
      validateIdentity (ti_CommandID intent),
      validateCanonicalText (ti_Reason intent) maxMessageBytes False,
      fail_if (IsZero (ti_RequestedAt intent)) (Errorf ''termination requestedAt is required''),
      validateFailure (ti_PrimaryFailure intent) (ti_Kind intent = TerminationFailed)]"

definition validateParent :: "ParentRunLink \<Rightarrow> string \<Rightarrow> string \<Rightarrow> error option" where
  "validateParent parent runID rootRunID = first_error
     [validateIdentity (prl_ParentRunID parent), validateIdentity (prl_ParentInvocationID parent),
      validateIdentity (prl_CallNodeID parent),
      fail_if (\<not> ValidDigest (prl_MappingDigest parent) \<or> prl_ParentRunID parent = runID \<or> rootRunID = runID)
        (Errorf ''parent run link or mapping digest is invalid'')]"

definition ActionRef_invalid :: "ActionRef \<Rightarrow> bool" where
  "ActionRef_invalid r \<longleftrightarrow>
     \<not> ValidIdentifier (ar_ActionID r) \<or> \<not> ValidIdentifier (ar_Version r) \<or> \<not> ValidDigest (ar_Digest r)"

text \<open>The part of \<open>ValidateRun\<close> about a frozen termination intent.\<close>

definition expected_revision :: "Run \<Rightarrow> TerminationIntent \<Rightarrow> u64" where
  "expected_revision run intent =
     (if RunStatus_Terminal (run_Status run) then ti_RequestedRevision intent + 1 + 1
      else ti_RequestedRevision intent + 1)"

definition validate_frozen :: "Run \<Rightarrow> error option" where
  "validate_frozen run = (case run_Termination run of None \<Rightarrow> None | Some intent \<Rightarrow> first_error
     [validateTermination intent,
      fail_if (run_Status run \<noteq> RunStopping \<and> \<not> RunStatus_Terminal (run_Status run))
        (Errorf ''frozen termination intent exists outside stopping or terminal state''),
      fail_if (RunStatus_Terminal (run_Status run) \<and> terminalStatus (ti_Kind intent) \<noteq> run_Status run)
        (Errorf ''terminal run status differs from its frozen termination intent''),
      fail_if (run_Revision run \<noteq> expected_revision run intent)
        (Errorf ''run revision is not derived from its frozen termination request'')])"

definition outside_lifecycle :: "instant \<Rightarrow> instant \<Rightarrow> instant option \<Rightarrow> bool" where
  "outside_lifecycle lo hi t = (case t of None \<Rightarrow> False | Some x \<Rightarrow> Before x lo \<or> After x hi)"

definition ValidateRun :: "Run \<Rightarrow> error option" where
  "ValidateRun run = first_error
     [validateIdentity (run_RunID run), validateIdentity (run_NamespaceID run),
      validateIdentity (run_ExecutionPlanRef run), validateIdentity (run_TriggerRef run),
      validateIdentity (run_RootRunID run), validateIdentity (run_ActorRef run),
      validateIdentity (run_SourceRef run),
      fail_if (ActionRef_invalid (run_ActionRef run)) (Errorf ''run action ref is invalid''),
      fail_if (\<not> ValidDigest (run_PlanDigest run)) (Errorf ''digest is invalid''),
      fail_if (\<not> ValidDigest (run_TriggerDigest run)) (Errorf ''digest is invalid''),
      fail_if (\<not> ValidDigest (run_InputDigest run)) (Errorf ''digest is invalid''),
      validateOptionalIdentity (run_ProvenanceArtifactRef run), validateOptionalIdentity (run_ScopeRef run),
      validateOptionalIdentity (run_CorrelationRef run), validateOptionalIdentity (run_AdmissionPolicyRef run),
      validateOptionalIdentity (run_ActiveOwnerRef run), validateOptionalIdentity (run_ResultRef run),
      fail_if (\<not> RunStatus_Valid (run_Status run) \<or> run_Revision run = 0 \<or> IsZero (run_AcceptedAt run) \<or>
               Before (run_UpdatedAt run) (run_AcceptedAt run))
        (Errorf ''run state, revision, or timestamps are invalid''),
      fail_if (outside_lifecycle (run_AcceptedAt run) (run_UpdatedAt run) (run_StartedAt run))
        (Errorf ''run startedAt is outside its lifecycle''),
      fail_if (RunStatus_Terminal (run_Status run) \<noteq> (run_FinishedAt run \<noteq> None))
        (Errorf ''run terminal state and finishedAt disagree''),
      fail_if (outside_lifecycle (run_AcceptedAt run) (run_UpdatedAt run) (run_FinishedAt run))
        (Errorf ''run finishedAt is outside its lifecycle''),
      fail_if (run_Status run = RunStopping \<and> run_Termination run = None)
        (Errorf ''stopping run requires a termination intent''),
      validate_frozen run,
      validateFailure (run_PrimaryFailure run) (run_Status run = RunFailed),
      first_error (map (\<lambda>f. validateFailure (Some f) True) (run_CleanupFailures run)),
      fail_if (run_Status run = RunSucceeded \<and>
               (run_TerminationKind run \<noteq> TerminationCompleted \<or> run_ResultRef run = []))
        (Errorf ''succeeded run requires completed termination kind and result ref''),
      fail_if (run_Status run = RunRejected \<and> run_TerminationKind run \<noteq> TerminationRejected)
        (Errorf ''rejected run requires rejected termination kind''),
      fail_if (RunStatus_Terminal (run_Status run) \<and> \<not> TerminationKind_Valid (run_TerminationKind run))
        (Errorf ''terminal run requires a termination kind''),
      (case run_Parent run of None \<Rightarrow> None
       | Some p \<Rightarrow> validateParent p (run_RunID run) (run_RootRunID run)),
      fail_if ((run_AdmissionPolicyRef run = []) \<noteq> (run_AdmissionPolicyDigest run = []) \<or>
               (run_ActiveOwnerRef run = []) \<noteq> (run_ActiveOwnerGeneration run = 0))
        (Errorf ''run admission policy and active owner fences are incomplete''),
      fail_if (run_AdmissionPolicyDigest run \<noteq> [] \<and> \<not> ValidDigest (run_AdmissionPolicyDigest run))
        (Errorf ''run admission policy digest is invalid''),
      fail_if (run_Parent run \<noteq> None \<and> (run_AdmissionPolicyRef run \<noteq> [] \<or> run_ActiveOwnerRef run \<noteq> []))
        (Errorf ''child run cannot hold a root ingress policy or active owner''),
      fail_if (run_ActiveOwnerRef run \<noteq> [] \<and> run_AdmissionPolicyRef run = [])
        (Errorf ''active owner requires an admission policy'')]"

definition validateAdmitRun :: "AdmitRunCommand \<Rightarrow> error option" where
  "validateAdmitRun c = first_error
     [validateIdentity (arc_RunID c), validateIdentity (arc_NamespaceID c),
      validateIdentity (arc_ExecutionPlanRef c), validateIdentity (arc_TriggerRef c),
      validateIdentity (arc_ActorRef c), validateIdentity (arc_SourceRef c), validateIdentity (arc_CommandID c),
      fail_if (IsZero (arc_At c)) (Errorf ''run admission time is required''),
      fail_if (\<not> ValidDigest (arc_PlanDigest c)) (Errorf ''run admission contains an invalid digest''),
      fail_if (\<not> ValidDigest (arc_TriggerDigest c)) (Errorf ''run admission contains an invalid digest''),
      fail_if (\<not> ValidDigest (arc_InputDigest c)) (Errorf ''run admission contains an invalid digest''),
      fail_if (ActionRef_invalid (arc_ActionRef c)) (Errorf ''run admission action ref is invalid''),
      validateOptionalIdentity (arc_AdmissionPolicyRef c), validateOptionalIdentity (arc_ActiveOwnerRef c),
      fail_if ((arc_AdmissionPolicyRef c = []) \<noteq> (arc_AdmissionPolicyDigest c = []) \<or>
               (arc_ActiveOwnerRef c = []) \<noteq> (arc_ActiveOwnerGeneration c = 0))
        (Errorf ''run admission policy and active owner fences are incomplete''),
      fail_if (arc_AdmissionPolicyDigest c \<noteq> [] \<and> \<not> ValidDigest (arc_AdmissionPolicyDigest c))
        (Errorf ''run admission policy digest is invalid''),
      fail_if (arc_Parent c \<noteq> None \<and> (arc_AdmissionPolicyRef c \<noteq> [] \<or> arc_ActiveOwnerRef c \<noteq> []))
        (Errorf ''child run cannot acquire a root ingress policy or active owner''),
      fail_if (arc_ActiveOwnerRef c \<noteq> [] \<and> arc_AdmissionPolicyRef c = [])
        (Errorf ''run active owner requires an admission policy'')]"

section \<open>Admission\<close>

definition admitted_run :: "AdmitRunCommand \<Rightarrow> Run" where
  "admitted_run c =
     \<lparr>run_RunID = arc_RunID c, run_NamespaceID = arc_NamespaceID c, run_ActionRef = arc_ActionRef c,
      run_ExecutionPlanRef = arc_ExecutionPlanRef c, run_PlanDigest = arc_PlanDigest c,
      run_TriggerRef = arc_TriggerRef c, run_TriggerDigest = arc_TriggerDigest c,
      run_InputDigest = arc_InputDigest c, run_ProvenanceArtifactRef = arc_ProvenanceArtifactRef c,
      run_ScopeRef = arc_ScopeRef c, run_Parent = arc_Parent c,
      run_RootRunID = (if arc_RootRunID c = [] then arc_RunID c else arc_RootRunID c),
      run_ActorRef = arc_ActorRef c, run_SourceRef = arc_SourceRef c, run_CorrelationRef = arc_CorrelationRef c,
      run_AdmissionPolicyRef = arc_AdmissionPolicyRef c, run_AdmissionPolicyDigest = arc_AdmissionPolicyDigest c,
      run_ActiveOwnerRef = arc_ActiveOwnerRef c, run_ActiveOwnerGeneration = arc_ActiveOwnerGeneration c,
      run_Status = RunAccepted, run_Termination = None, run_TerminationKind = TerminationKindOther [],
      run_ResultRef = [], run_PrimaryFailure = None, run_CleanupFailures = [],
      run_AcceptedAt = arc_At c, run_StartedAt = None, run_UpdatedAt = arc_At c, run_FinishedAt = None,
      run_Revision = 1\<rparr>"

definition AdmitRun :: "AdmitRunCommand \<Rightarrow> RunDecision result" where
  "AdmitRun c =
     ensure (validateAdmitRun c) (
     ensure (ValidateRun (admitted_run c)) (
     andThen (newEvent ''run'' (run_RunID (admitted_run c)) (run_Revision (admitted_run c)) ''run.accepted''
                (arc_CommandID c) (arc_At c)
                [(''actionRef'', ActionRef_json (run_ActionRef (admitted_run c))),
                 (''planDigest'', JStr (run_PlanDigest (admitted_run c))),
                 (''triggerDigest'', JStr (run_TriggerDigest (admitted_run c))),
                 (''inputDigest'', JStr (run_InputDigest (admitted_run c)))]) (\<lambda>event.
       Inr \<lparr>rd_Run = admitted_run c, rd_Events = [event], rd_Intents = []\<rparr>)))"

section \<open>Transitions\<close>

definition validateRunTransitionGuards :: "Run \<Rightarrow> RunTransitionCommand \<Rightarrow> error option" where
  "validateRunTransitionGuards current c = first_error
     [fail_if (RunStatus_Terminal (rtc_To c) \<and> \<not> Satisfied (rtc_Closure c)) ErrClosureOpen,
      fail_if (\<not> RunStatus_Terminal (rtc_To c) \<and> rtc_ResultRef c \<noteq> [])
        (Errorf ''only a succeeded terminal run can publish a result''),
      (if rtc_To c = RunStopping then first_error
         [fail_if (run_Termination current \<noteq> None) (Errorf ''run termination intent is already frozen''),
          (case rtc_Termination c of
             None \<Rightarrow> Some (Errorf ''stopping requires a failed, canceled, or stopped intent'')
           | Some intent \<Rightarrow> first_error
               [fail_if (\<not> RequiresStopping (ti_Kind intent))
                  (Errorf ''stopping requires a failed, canceled, or stopped intent''),
                validateTermination intent])]
       else first_error
         [fail_if (rtc_Termination c \<noteq> None)
            (Errorf ''termination intent can only be frozen on entry to stopping''),
          fail_if (run_Status current = RunStopping \<and>
                   (case run_Termination current of None \<Rightarrow> True
                    | Some intent \<Rightarrow> terminalStatus (ti_Kind intent) \<noteq> rtc_To c))
            (Errorf ''terminal run status does not match the frozen termination intent''),
          fail_if (rtc_To c = RunSucceeded \<and> rtc_ResultRef c = []) (Errorf ''succeeded run requires a result ref''),
          fail_if (rtc_To c = RunRejected \<and> run_Status current \<noteq> RunAccepted)
            (Errorf ''only an accepted run can be rejected'')])]"

text \<open>The assignments to \<^verbatim>\<open>next\<close> in \<^verbatim>\<open>TransitionRun\<close>, one function per statement.\<close>

definition advance_run :: "RunTransitionCommand \<Rightarrow> Run \<Rightarrow> Run" where
  "advance_run c r = r\<lparr>run_Status := rtc_To c, run_Revision := run_Revision r + 1, run_UpdatedAt := rtc_At c\<rparr>"

definition start_run :: "RunTransitionCommand \<Rightarrow> Run \<Rightarrow> Run" where
  "start_run c r = (if run_StartedAt r = None \<and> rtc_To c = RunRunning
     then r\<lparr>run_StartedAt := Some (rtc_At c)\<rparr> else r)"

definition freeze_run :: "RunTransitionCommand \<Rightarrow> Run \<Rightarrow> Run" where
  "freeze_run c r = (if rtc_To c = RunStopping then r\<lparr>run_Termination := rtc_Termination c\<rparr> else r)"

definition publish_run :: "RunTransitionCommand \<Rightarrow> Run \<Rightarrow> Run" where
  "publish_run c r =
     (if rtc_To c = RunSucceeded
      then r\<lparr>run_TerminationKind := TerminationCompleted, run_ResultRef := rtc_ResultRef c\<rparr>
      else if rtc_To c = RunRejected then r\<lparr>run_TerminationKind := TerminationRejected\<rparr>
      else r)"

definition adopt_termination :: "Run \<Rightarrow> Run" where
  "adopt_termination r = (case run_Termination r of None \<Rightarrow> r
     | Some intent \<Rightarrow> if RequiresStopping (ti_Kind intent)
         then r\<lparr>run_TerminationKind := ti_Kind intent, run_PrimaryFailure := ti_PrimaryFailure intent\<rparr> else r)"

definition finish_run :: "RunTransitionCommand \<Rightarrow> Run \<Rightarrow> Run" where
  "finish_run c r = (if RunStatus_Terminal (rtc_To c)
     then (adopt_termination r)\<lparr>run_CleanupFailures := rtc_CleanupFailures c, run_FinishedAt := Some (rtc_At c)\<rparr>
     else r)"

definition next_run :: "Run \<Rightarrow> RunTransitionCommand \<Rightarrow> Run" where
  "next_run current c = finish_run c (publish_run c (freeze_run c (start_run c (advance_run c current))))"

definition validateRunCommand :: "Run \<Rightarrow> RunTransitionCommand \<Rightarrow> error option" where
  "validateRunCommand current c = first_error
     [ValidateRun current,
      fail_if (rtc_RunID c \<noteq> run_RunID current) (Errorf ''run transition targets another aggregate''),
      fail_if (rtc_ExpectedRevision c \<noteq> run_Revision current) (ErrRevisionConflict ExecutionPkg),
      fail_if (IsZero (rtc_At c) \<or> Before (rtc_At c) (run_UpdatedAt current))
        (Errorf ''run transition time is missing or moves backwards''),
      validateIdentity (rtc_CommandID c),
      ValidateRunTransition (run_Status current) (rtc_To c),
      fail_if (RunStatus_Terminal (run_Status current)) (ErrInvalidTransition ExecutionPkg),
      fail_if (RunStatus_Terminal (rtc_To c) \<and> cf_RunRevision (rtc_Closure c) \<noteq> run_Revision current)
        (Errorf ''run closure facts do not match the current run revision''),
      validateRunTransitionGuards current c]"

definition run_intents :: "RunTransitionCommand \<Rightarrow> Run \<Rightarrow> DurableIntent list result" where
  "run_intents c next =
     (case run_Termination next of
        Some intent \<Rightarrow>
          if rtc_To c = RunStopping then
            andThen (newDurableIntent IntentCleanup (run_RunID next) (run_Revision next)
                       [(''runId'', JStr (run_RunID next)),
                        (''terminationKind'', JStr (TerminationKind_string (ti_Kind intent))),
                        (''runRevision'', JU64 (run_Revision next))]) (\<lambda>i. Inr [i])
          else Inr []
      | None \<Rightarrow> Inr [])"

definition TransitionRun :: "Run \<Rightarrow> RunTransitionCommand \<Rightarrow> RunDecision result" where
  "TransitionRun current c =
     ensure (validateRunCommand current c) (
     ensure (ValidateRun (next_run current c)) (
     andThen (newEvent ''run'' (run_RunID (next_run current c)) (run_Revision (next_run current c))
                (''run.'' @ RunStatus_string (rtc_To c)) (rtc_CommandID c) (rtc_At c)
                [(''from'', JStr (RunStatus_string (run_Status current))),
                 (''to'', JStr (RunStatus_string (rtc_To c))),
                 (''terminationKind'', JStr (TerminationKind_string (run_TerminationKind (next_run current c))))])
       (\<lambda>event.
     andThen (run_intents c (next_run current c)) (\<lambda>intents.
       Inr \<lparr>rd_Run = next_run current c, rd_Events = [event], rd_Intents = intents\<rparr>))))"

definition run_reduce :: "Run \<Rightarrow> RunTransitionCommand \<Rightarrow> Run result" where
  "run_reduce r c = andThen (TransitionRun r c) (\<lambda>d. Inr (rd_Run d))"

section \<open>Consequences of acceptance\<close>

lemmas next_run_defs =
  next_run_def finish_run_def adopt_termination_def publish_run_def freeze_run_def start_run_def advance_run_def

lemma next_run_fields [simp]:
  "run_Status (next_run r c) = rtc_To c"
  "run_Revision (next_run r c) = run_Revision r + 1"
  "run_UpdatedAt (next_run r c) = rtc_At c"
  "run_Termination (next_run r c) = (if rtc_To c = RunStopping then rtc_Termination c else run_Termination r)"
  by (simp_all add: next_run_defs split: option.split)

text \<open>The fields that admission fixes for the life of the Run.\<close>

definition run_identity :: "Run \<Rightarrow> Run" where
  "run_identity r = r\<lparr>run_Status := RunAccepted, run_Termination := None,
     run_TerminationKind := TerminationKindOther [], run_ResultRef := [], run_PrimaryFailure := None,
     run_CleanupFailures := [], run_StartedAt := None, run_UpdatedAt := 0, run_FinishedAt := None,
     run_Revision := 0\<rparr>"

lemma next_run_identity [simp]: "run_identity (next_run r c) = run_identity r"
  by (simp add: next_run_defs run_identity_def split: option.split)

lemma RunStatus_Terminal_simps [simp]:
  "RunStatus_Terminal RunSucceeded" "RunStatus_Terminal RunFailed" "RunStatus_Terminal RunCanceled"
  "RunStatus_Terminal RunStopped" "RunStatus_Terminal RunRejected" "\<not> RunStatus_Terminal RunAccepted"
  "\<not> RunStatus_Terminal RunQueued" "\<not> RunStatus_Terminal RunRunning" "\<not> RunStatus_Terminal RunWaiting"
  "\<not> RunStatus_Terminal RunStopping"
  by (simp_all add: RunStatus_Terminal_def)

lemma ValidateRunTransition_iff:
  "ValidateRunTransition f t = None \<longleftrightarrow>
     (f = RunAccepted \<and> t \<in> {RunQueued, RunRunning, RunStopping, RunRejected}) \<or>
     (f = RunQueued \<and> t \<in> {RunRunning, RunStopping}) \<or>
     (f = RunRunning \<and> t \<in> {RunWaiting, RunStopping, RunSucceeded}) \<or>
     (f = RunWaiting \<and> t \<in> {RunRunning, RunStopping, RunSucceeded}) \<or>
     (f = RunStopping \<and> t \<in> {RunFailed, RunCanceled, RunStopped})"
  by (cases f) (auto simp: ValidateRunTransition_def run_edges_def RunStatus_Valid_def)

lemma ValidateRun_D:
  assumes "ValidateRun r = None"
  shows "run_Revision r \<noteq> 0"
    and "run_Status r = RunStopping \<Longrightarrow> run_Termination r \<noteq> None"
    and "validate_frozen r = None"
    and "ValidIdentifier (run_RunID r)"
    and "RunStatus_Terminal (run_Status r) \<longleftrightarrow> run_FinishedAt r \<noteq> None"
    and "run_UpdatedAt r \<ge> run_AcceptedAt r"
    and "validateFailure (run_PrimaryFailure r) (run_Status r = RunFailed) = None"
  using assms by (simp_all add: ValidateRun_def)

text \<open>
  The checks of \<open>ValidateRun\<close> on the fields that admission fixes, and those on the
  fields that transitions change.
\<close>

definition run_static :: "Run \<Rightarrow> bool" where
  "run_static run \<longleftrightarrow> ValidIdentifier (run_RunID run) \<and> ValidIdentifier (run_NamespaceID run) \<and>
     ValidIdentifier (run_ExecutionPlanRef run) \<and> ValidIdentifier (run_TriggerRef run) \<and>
     ValidIdentifier (run_RootRunID run) \<and> ValidIdentifier (run_ActorRef run) \<and> ValidIdentifier (run_SourceRef run) \<and>
     \<not> ActionRef_invalid (run_ActionRef run) \<and> ValidDigest (run_PlanDigest run) \<and> ValidDigest (run_TriggerDigest run) \<and>
     ValidDigest (run_InputDigest run) \<and> validateOptionalIdentity (run_ProvenanceArtifactRef run) = None \<and>
     validateOptionalIdentity (run_ScopeRef run) = None \<and> validateOptionalIdentity (run_CorrelationRef run) = None \<and>
     validateOptionalIdentity (run_AdmissionPolicyRef run) = None \<and> validateOptionalIdentity (run_ActiveOwnerRef run) = None \<and>
     run_AcceptedAt run \<noteq> 0 \<and>
     (case run_Parent run of None \<Rightarrow> None | Some p \<Rightarrow> validateParent p (run_RunID run) (run_RootRunID run)) = None \<and>
     \<not> ((run_AdmissionPolicyRef run = []) \<noteq> (run_AdmissionPolicyDigest run = []) \<or>
        (run_ActiveOwnerRef run = []) \<noteq> (run_ActiveOwnerGeneration run = 0)) \<and>
     \<not> (run_AdmissionPolicyDigest run \<noteq> [] \<and> \<not> ValidDigest (run_AdmissionPolicyDigest run)) \<and>
     \<not> (run_Parent run \<noteq> None \<and> (run_AdmissionPolicyRef run \<noteq> [] \<or> run_ActiveOwnerRef run \<noteq> [])) \<and>
     \<not> (run_ActiveOwnerRef run \<noteq> [] \<and> run_AdmissionPolicyRef run = [])"

definition run_dynamic :: "Run \<Rightarrow> bool" where
  "run_dynamic run \<longleftrightarrow> validateOptionalIdentity (run_ResultRef run) = None \<and> RunStatus_Valid (run_Status run) \<and>
     run_Revision run \<noteq> 0 \<and> run_AcceptedAt run \<le> run_UpdatedAt run \<and>
     \<not> outside_lifecycle (run_AcceptedAt run) (run_UpdatedAt run) (run_StartedAt run) \<and>
     RunStatus_Terminal (run_Status run) = (run_FinishedAt run \<noteq> None) \<and>
     \<not> outside_lifecycle (run_AcceptedAt run) (run_UpdatedAt run) (run_FinishedAt run) \<and>
     \<not> (run_Status run = RunStopping \<and> run_Termination run = None) \<and> validate_frozen run = None \<and>
     validateFailure (run_PrimaryFailure run) (run_Status run = RunFailed) = None \<and>
     (\<forall>f \<in> set (run_CleanupFailures run). validateFailure (Some f) True = None) \<and>
     \<not> (run_Status run = RunSucceeded \<and> (run_TerminationKind run \<noteq> TerminationCompleted \<or> run_ResultRef run = [])) \<and>
     \<not> (run_Status run = RunRejected \<and> run_TerminationKind run \<noteq> TerminationRejected) \<and>
     \<not> (RunStatus_Terminal (run_Status run) \<and> \<not> TerminationKind_Valid (run_TerminationKind run))"

lemma ValidateRun_split: "ValidateRun r = None \<longleftrightarrow> run_static r \<and> run_dynamic r"
  unfolding ValidateRun_def run_static_def run_dynamic_def first_error_Cons_None first_error.simps(1) fail_if_None
    validateIdentity_None first_error_map_None not_less [symmetric] de_Morgan_disj
  by blast

lemma run_static_next [simp]: "run_static (next_run r c) = run_static r"
  unfolding run_static_def by (simp add: next_run_defs split: option.split)

lemma validate_frozen_D:
  assumes "validate_frozen r = None" and "run_Termination r = Some i"
  shows "validateTermination i = None"
    and "run_Status r = RunStopping \<or> RunStatus_Terminal (run_Status r)"
    and "RunStatus_Terminal (run_Status r) \<Longrightarrow> run_Status r = terminalStatus (ti_Kind i)"
    and "run_Revision r = expected_revision r i"
  using assms by (auto simp: validate_frozen_def)

lemma validateTermination_kind: "validateTermination i = None \<Longrightarrow> RequiresStopping (ti_Kind i)"
  by (simp add: validateTermination_def)

lemma validateRunCommand_iff:
  "validateRunCommand r c = None \<longleftrightarrow>
     ValidateRun r = None \<and> rtc_RunID c = run_RunID r \<and> rtc_ExpectedRevision c = run_Revision r \<and>
     rtc_At c \<noteq> 0 \<and> run_UpdatedAt r \<le> rtc_At c \<and> ValidIdentifier (rtc_CommandID c) \<and>
     ValidateRunTransition (run_Status r) (rtc_To c) = None \<and> \<not> RunStatus_Terminal (run_Status r) \<and>
     (RunStatus_Terminal (rtc_To c) \<longrightarrow> cf_RunRevision (rtc_Closure c) = run_Revision r) \<and>
     validateRunTransitionGuards r c = None"
  by (auto simp: validateRunCommand_def)

lemma guards_stopping:
  assumes "validateRunTransitionGuards r c = None" and "rtc_To c = RunStopping"
  obtains i where "rtc_Termination c = Some i" "validateTermination i = None" "run_Termination r = None"
  using assms by (auto simp: validateRunTransitionGuards_def split: option.splits)

lemma guards_terminal:
  assumes "validateRunTransitionGuards r c = None" and "RunStatus_Terminal (rtc_To c)"
  shows "Satisfied (rtc_Closure c)" and "rtc_Termination c = None"
    and "rtc_To c = RunSucceeded \<Longrightarrow> rtc_ResultRef c \<noteq> []"
    and "run_Status r = RunStopping \<Longrightarrow> \<exists>i. run_Termination r = Some i \<and> rtc_To c = terminalStatus (ti_Kind i)"
proof -
  have "rtc_To c \<noteq> RunStopping" using assms(2) by auto
  then show "Satisfied (rtc_Closure c)" and "rtc_Termination c = None"
    and "rtc_To c = RunSucceeded \<Longrightarrow> rtc_ResultRef c \<noteq> []"
    and "run_Status r = RunStopping \<Longrightarrow> \<exists>i. run_Termination r = Some i \<and> rtc_To c = terminalStatus (ti_Kind i)"
    using assms by (auto simp: validateRunTransitionGuards_def split: option.splits)
qed

text \<open>What an accepted transition establishes; every property of transitions starts here.\<close>

lemma TransitionRun_Inr:
  assumes "TransitionRun r c = Inr d"
  shows "validateRunCommand r c = None" and "rd_Run d = next_run r c" and "ValidateRun (next_run r c) = None"
    and "\<exists>e. rd_Events d = [e] \<and> ev_AggregateID e = run_RunID r \<and> ev_AggregateRevision e = run_Revision r + 1 \<and>
          ev_Type e = ''run.'' @ RunStatus_string (rtc_To c) \<and> ev_CommandID e = rtc_CommandID c"
    and "run_intents c (next_run r c) = Inr (rd_Intents d)"
proof -
  have "run_RunID (next_run r c) = run_RunID r"
    by (simp add: next_run_defs split: option.split)
  with assms show "validateRunCommand r c = None" and "rd_Run d = next_run r c" and "ValidateRun (next_run r c) = None"
    and "\<exists>e. rd_Events d = [e] \<and> ev_AggregateID e = run_RunID r \<and> ev_AggregateRevision e = run_Revision r + 1 \<and>
          ev_Type e = ''run.'' @ RunStatus_string (rtc_To c) \<and> ev_CommandID e = rtc_CommandID c"
    and "run_intents c (next_run r c) = Inr (rd_Intents d)"
    by (auto simp: TransitionRun_def newEvent_fields)
qed

lemma run_reduce_Inr:
  assumes "run_reduce r c = Inr t"
  shows "t = next_run r c" and "validateRunCommand r c = None" and "ValidateRun t = None"
  using assms TransitionRun_Inr by (auto simp: run_reduce_def)

lemma run_reduce_terminal: "RunStatus_Terminal (run_Status r) \<Longrightarrow> run_reduce r c \<noteq> Inr t"
  using run_reduce_Inr(2) by (auto simp: validateRunCommand_iff)

lemma admitted:
  assumes "AdmitRun a = Inr d"
  shows "rd_Run d = admitted_run a" and "ValidateRun (admitted_run a) = None"
  using assms by (auto simp: AdmitRun_def)

text \<open>The reducer of Runs is a revision-fenced reducer.\<close>

interpretation rn: cas_reducer "\<lambda>r. ValidateRun r = None" run_Revision rtc_ExpectedRevision run_reduce
proof
  fix s c t assume *: "run_reduce s c = Inr t"
  show "rtc_ExpectedRevision c = run_Revision s"
    using run_reduce_Inr [OF *] by (simp add: validateRunCommand_iff)
  show "run_Revision t = run_Revision s + 1"
    using run_reduce_Inr [OF *] by simp
  show "ValidateRun t = None" using run_reduce_Inr [OF *] by simp
qed

text \<open>
  A Run's revision never wraps: a transition from the largest revision is rejected by the
  validation of the next state, so a history of any length is counted exactly.
\<close>

lemma run_history:
  assumes "fold_reduce run_reduce s cs = Inr r" and "ValidateRun s = None"
  shows "ValidateRun r = None \<and> run_identity r = run_identity s \<and>
    unat (run_Revision r) = unat (run_Revision s) + length cs"
  using assms
proof (induction cs arbitrary: s)
  case Nil
  then show ?case by simp
next
  case (Cons c cs)
  then obtain u where u: "run_reduce s c = Inr u" and rest: "fold_reduce run_reduce u cs = Inr r" by auto
  note f = run_reduce_Inr [OF u]
  have "run_Revision s + 1 \<noteq> 0" using ValidateRun_D(1) [OF f(3)] f(1) by simp
  then have "unat (run_Revision u) = Suc (unat (run_Revision s))"
    using f(1) by (simp add: unat_succ_nonzero)
  then show ?case using Cons.IH [OF rest f(3)] f(1) by simp
qed

text \<open>The last command of a non-empty history and the state it was applied to.\<close>

lemma run_history_last:
  assumes "fold_reduce run_reduce s cs = Inr r" and "cs \<noteq> []"
  obtains cs' c u where "cs = cs' @ [c]" "fold_reduce run_reduce s cs' = Inr u" "run_reduce u c = Inr r"
proof -
  obtain cs' c where cs: "cs = cs' @ [c]" using assms(2) by (metis rev_exhaust)
  with assms(1) obtain u where "fold_reduce run_reduce s cs' = Inr u" "run_reduce u c = Inr r"
    by (auto simp: fold_reduce_append)
  with cs that show ?thesis by blast
qed

lemma stopping_history:
  assumes "fold_reduce run_reduce s cs = Inr r" and "run_Status s = RunAccepted" and "run_Status r = RunStopping"
  obtains cs' c i where "cs = cs' @ [c]" "rtc_To c = RunStopping" "rtc_Termination c = Some i"
    "run_Termination r = Some i" "ti_RequestedRevision i = rtc_ExpectedRevision c"
    "validateTermination i = None"
proof -
  have "cs \<noteq> []" using assms by auto
  then obtain cs' c u where cs: "cs = cs' @ [c]" and h: "run_reduce u c = Inr r"
    using run_history_last [OF assms(1)] by metis
  note f = run_reduce_Inr [OF h]
  have to: "rtc_To c = RunStopping" using f(1) assms(3) by simp
  from f(2) to obtain i where i: "rtc_Termination c = Some i" "validateTermination i = None"
    using guards_stopping by (metis validateRunCommand_iff)
  have t: "run_Termination r = Some i" using f(1) to i by simp
  have "run_Revision r = expected_revision r i"
    using validate_frozen_D(4) ValidateRun_D(3) f(3) t by blast
  then have "run_Revision u = ti_RequestedRevision i"
    using f(1) assms(3) by (simp add: expected_revision_def)
  then have "ti_RequestedRevision i = rtc_ExpectedRevision c"
    using f(2) by (simp add: validateRunCommand_iff)
  with cs to i t that show ?thesis by blast
qed

text \<open>
  A state that is neither stopping nor terminal after stopping has no stopping command behind
  it: the only edges out of \<open>RunStopping\<close> lead to a terminal status, which is final.
\<close>

lemma never_stopping:
  assumes "fold_reduce run_reduce s cs = Inr r"
    and "run_Status r \<notin> {RunStopping, RunFailed, RunCanceled, RunStopped}"
  shows "\<forall>c \<in> set cs. rtc_To c \<noteq> RunStopping"
  using assms
proof (induction cs arbitrary: r rule: rev_induct)
  case Nil
  then show ?case by simp
next
  case (snoc c cs)
  then obtain u where u: "fold_reduce run_reduce s cs = Inr u" and c: "run_reduce u c = Inr r"
    by (auto simp: fold_reduce_append)
  note f = run_reduce_Inr [OF c]
  have "run_Status u \<notin> {RunStopping, RunFailed, RunCanceled, RunStopped}"
    using f(1,2) snoc.prems(2) by (auto simp: validateRunCommand_iff ValidateRunTransition_iff)
  then have "\<forall>c \<in> set cs. rtc_To c \<noteq> RunStopping" using snoc.IH [OF u] by blast
  then show ?case using f(1) snoc.prems(2) by auto
qed

section \<open>Progress\<close>

text \<open>
  A command that passes the checks, and whose next state is a valid Run, is accepted: the
  event and the cleanup intent can always be made.
\<close>

lemma RunStatus_string_text: "RunStatus_Valid s \<Longrightarrow> utf8_valid (RunStatus_string s) \<and> length (RunStatus_string s) \<le> 9 \<and>
    ValidIdentifier (''run.'' @ RunStatus_string s)"
  by (cases s) (simp_all add: RunStatus_Valid_def RunStatus_string_def ascii_def text_eval)

lemma TerminationKind_string_text:
  "TerminationKind_Valid k \<or> k = TerminationKindOther [] \<Longrightarrow>
     utf8_valid (TerminationKind_string k) \<and> length (TerminationKind_string k) \<le> 9"
  by (cases k) (simp_all add: TerminationKind_Valid_def TerminationKind_string_def ascii_def)

lemma RequiresStopping_Valid: "RequiresStopping k \<Longrightarrow> TerminationKind_Valid k"
  by (auto simp: RequiresStopping_def TerminationKind_Valid_def)

lemma keys_utf8 [simp]: "utf8_valid ''from''" "utf8_valid ''to''" "utf8_valid ''terminationKind''" "utf8_valid ''runId''"
  "utf8_valid ''runRevision''" "utf8_valid ''cleanup''"
  by (simp_all add: ascii_def)

lemma run_identifiers: "ValidIdentifier ''run''" "ValidIdentifier ''run.accepted''"
  by (simp_all add: text_eval)

lemma TransitionRun_accepts:
  assumes cmd: "validateRunCommand r c = None" and nxt: "ValidateRun (next_run r c) = None"
    and kind: "TerminationKind_Valid (run_TerminationKind r) \<or> run_TerminationKind r = TerminationKindOther []"
  shows "run_reduce r c = Inr (next_run r c)"
proof -
  let ?n = "next_run r c"
  have id: "ValidIdentifier (run_RunID ?n)" using ValidateRun_D(4) [OF nxt] .
  have nk: "TerminationKind_Valid (run_TerminationKind ?n) \<or> run_TerminationKind ?n = TerminationKindOther []"
    using kind by (auto simp: next_run_defs TerminationKind_Valid_def RequiresStopping_def split: option.splits if_splits)
  have st: "RunStatus_Valid (run_Status r)" "RunStatus_Valid (rtc_To c)" "rtc_At c \<noteq> 0" "ValidIdentifier (rtc_CommandID c)"
    using cmd by (auto simp: validateRunCommand_iff ValidateRunTransition_iff RunStatus_Valid_def)
  have "\<exists>e. newEvent ''run'' (run_RunID ?n) (run_Revision ?n) (''run.'' @ RunStatus_string (rtc_To c)) (rtc_CommandID c) (rtc_At c)
      [(''from'', JStr (RunStatus_string (run_Status r))), (''to'', JStr (RunStatus_string (rtc_To c))),
       (''terminationKind'', JStr (TerminationKind_string (run_TerminationKind ?n)))] = Inr e"
    by (rule newEvent_ok)
      (use id st ValidateRun_D(1) [OF nxt] run_identifiers RunStatus_string_text [OF st(1)] RunStatus_string_text [OF st(2)]
        TerminationKind_string_text [OF nk] in simp_all)
  moreover have "\<exists>is. run_intents c ?n = Inr is"
  proof (cases "run_Termination ?n")
    case (Some i)
    have "RequiresStopping (ti_Kind i)"
      using Some validate_frozen_D(1) [OF ValidateRun_D(3) [OF nxt]] validateTermination_kind by blast
    then have tk: "utf8_valid (TerminationKind_string (ti_Kind i)) \<and> length (TerminationKind_string (ti_Kind i)) \<le> 9"
      using TerminationKind_string_text RequiresStopping_Valid by blast
    have "\<exists>x. newDurableIntent IntentCleanup (run_RunID ?n) (run_Revision ?n)
        [(''runId'', JStr (run_RunID ?n)), (''terminationKind'', JStr (TerminationKind_string (ti_Kind i))),
         (''runRevision'', JU64 (run_Revision ?n))] = Inr x"
      by (rule newDurableIntent_ok)
        (use id tk ValidIdentifier_length [OF id] JU64_bound [of "run_Revision ?n"] in \<open>simp_all add: IntentKind_string_def\<close>)
    then show ?thesis using Some by (auto simp: run_intents_def)
  qed (simp add: run_intents_def)
  ultimately show ?thesis using cmd nxt by (auto simp: run_reduce_def TransitionRun_def)
qed

text \<open>The termination kind of a Run that has not ended is still unset.\<close>

lemma live_kind_unset:
  assumes "fold_reduce run_reduce s cs = Inr r" and "run_TerminationKind s = TerminationKindOther []"
    and "\<not> RunStatus_Terminal (run_Status r)" and "\<not> RunStatus_Terminal (run_Status s)"
  shows "run_TerminationKind r = TerminationKindOther []"
  using assms
proof (induction cs arbitrary: r rule: rev_induct)
  case Nil
  then show ?case by simp
next
  case (snoc c cs)
  then obtain u where u: "fold_reduce run_reduce s cs = Inr u" and c: "run_reduce u c = Inr r"
    by (auto simp: fold_reduce_append)
  note f = run_reduce_Inr [OF c]
  have "\<not> RunStatus_Terminal (run_Status u)" using f(2) by (simp add: validateRunCommand_iff)
  then have "run_TerminationKind u = TerminationKindOther []" using snoc.IH [OF u] snoc.prems by blast
  moreover have "\<not> RunStatus_Terminal (rtc_To c)" using f(1) snoc.prems(3) by simp
  moreover from this have "rtc_To c \<noteq> RunSucceeded" "rtc_To c \<noteq> RunRejected" by auto
  ultimately show ?case using f(1) by (simp add: next_run_defs)
qed

text \<open>The commands an operator can always use to stop a live Run and to end a stopping one.\<close>

definition stop_intent :: "Run \<Rightarrow> TerminationIntent" where
  "stop_intent r = \<lparr>ti_Kind = TerminationStopped, ti_RequestedRevision = run_Revision r, ti_RequestedBy = ''operator'',
     ti_ReasonCode = ''operator.stop'', ti_Reason = [], ti_PrimaryFailure = None, ti_CommandID = ''stop'',
     ti_RequestedAt = 1\<rparr>"

definition closed_facts :: "Run \<Rightarrow> RunClosureFacts" where
  "closed_facts r = \<lparr>cf_RunRevision = run_Revision r, cf_OwnershipGraphRevision = 0, cf_ActiveInvocationCount = 0,
     cf_LiveAttemptCount = 0, cf_OpenWaitCount = 0, cf_OpenChildCount = 0, cf_OpenEffectCount = 0,
     cf_OpenEffectCompensationCount = 0, cf_OpenOwnedRuntimeCount = 0, cf_OpenOwnedResourceCount = 0\<rparr>"

definition run_command :: "Run \<Rightarrow> RunStatus \<Rightarrow> TerminationIntent option \<Rightarrow> string \<Rightarrow> RunTransitionCommand" where
  "run_command r to intent res = \<lparr>rtc_RunID = run_RunID r, rtc_ExpectedRevision = run_Revision r, rtc_To = to,
     rtc_Termination = intent, rtc_ResultRef = res, rtc_CleanupFailures = [], rtc_Closure = closed_facts r,
     rtc_CommandID = ''cmd'', rtc_At = max 1 (run_UpdatedAt r)\<rparr>"

lemma sample_texts: "ValidIdentifier ''cmd''" "ValidIdentifier ''stop''" "ValidIdentifier ''operator''" "ValidIdentifier ''operator.stop''"
  by (simp_all add: text_eval)

lemma closed_facts_Satisfied: "Satisfied (closed_facts r)" "cf_RunRevision (closed_facts r) = run_Revision r"
  by (simp_all add: Satisfied_def closed_facts_def)

lemma stop_intent_valid: "run_Revision r \<noteq> 0 \<Longrightarrow> validateTermination (stop_intent r) = None"
  by (simp add: validateTermination_def stop_intent_def RequiresStopping_def sample_texts validateCanonicalText_def)

lemma outside_lifecycle_extend: "\<not> outside_lifecycle a u t \<Longrightarrow> u \<le> v \<Longrightarrow> \<not> outside_lifecycle a v t"
  by (cases t) (auto simp: outside_lifecycle_def)

lemma later:
  assumes "ValidateRun r = None"
  shows "\<not> outside_lifecycle (run_AcceptedAt r) (max 1 (run_UpdatedAt r)) (run_StartedAt r)"
    and "run_AcceptedAt r \<le> max 1 (run_UpdatedAt r)"
    and "\<not> outside_lifecycle (run_AcceptedAt r) (max 1 (run_UpdatedAt r)) (Some (max 1 (run_UpdatedAt r)))"
proof -
  have a: "\<not> outside_lifecycle (run_AcceptedAt r) (run_UpdatedAt r) (run_StartedAt r)" "run_AcceptedAt r \<le> run_UpdatedAt r"
    using assms by (simp_all add: ValidateRun_def)
  then show "\<not> outside_lifecycle (run_AcceptedAt r) (max 1 (run_UpdatedAt r)) (run_StartedAt r)"
    using outside_lifecycle_extend by (metis max.cobounded2)
  show "run_AcceptedAt r \<le> max 1 (run_UpdatedAt r)" using a(2) by linarith
  then show "\<not> outside_lifecycle (run_AcceptedAt r) (max 1 (run_UpdatedAt r)) (Some (max 1 (run_UpdatedAt r)))"
    unfolding outside_lifecycle_def using a(2) by auto
qed

lemma stop_accepted:
  assumes v: "ValidateRun r = None" and st: "run_Status r \<in> {RunAccepted, RunQueued, RunRunning, RunWaiting}"
    and rev: "run_Revision r + 1 \<noteq> 0" and k: "run_TerminationKind r = TerminationKindOther []"
  defines "c \<equiv> run_command r RunStopping (Some (stop_intent r)) []"
  shows "run_reduce r c = Inr (next_run r c)" and "run_Status (next_run r c) = RunStopping"
    and "run_Revision (next_run r c) = run_Revision r + 1" and "run_Termination (next_run r c) = Some (stop_intent r)"
    and "run_TerminationKind (next_run r c) = TerminationKindOther []"
proof -
  have nt: "run_Termination r = None"
    using validate_frozen_D(2) [OF ValidateRun_D(3) [OF v]] st by (cases "run_Termination r") auto
  have fin: "run_FinishedAt r = None" using ValidateRun_D(5) [OF v] st by auto
  have ti: "validateTermination (stop_intent r) = None" using stop_intent_valid ValidateRun_D(1) [OF v] by blast
  have guards: "validateRunCommand r c = None"
    using v st nt ti validateTermination_kind [OF ti]
    by (auto simp: validateRunCommand_iff c_def run_command_def sample_texts ValidateRunTransition_iff
        validateRunTransitionGuards_def)
  have n: "next_run r c = r\<lparr>run_Status := RunStopping, run_Revision := run_Revision r + 1,
      run_UpdatedAt := max 1 (run_UpdatedAt r), run_Termination := Some (stop_intent r)\<rparr>"
    by (simp add: c_def run_command_def next_run_defs)
  have fz: "validate_frozen (next_run r c) = None"
    unfolding n using ti by (simp add: validate_frozen_def expected_revision_def stop_intent_def)
  have dyn: "run_dynamic r" using v ValidateRun_split by blast
  have "run_Status r \<noteq> RunFailed" using st by auto
  then have pf: "validateFailure (run_PrimaryFailure r) False = None"
    using ValidateRun_D(7) [OF v] by simp
  have "run_dynamic (next_run r c)"
    unfolding run_dynamic_def
    by (intro conjI; (rule fz)?; simp add: n later [OF v] pf fin rev RunStatus_Valid_def outside_lifecycle_def [of _ _ None])
      (use dyn in \<open>simp_all add: run_dynamic_def\<close>)
  then have "ValidateRun (next_run r c) = None" using v by (simp add: ValidateRun_split)
  then show "run_reduce r c = Inr (next_run r c)" using TransitionRun_accepts [OF guards] k by simp
  show "run_Status (next_run r c) = RunStopping" and "run_Revision (next_run r c) = run_Revision r + 1"
    and "run_Termination (next_run r c) = Some (stop_intent r)" and "run_TerminationKind (next_run r c) = TerminationKindOther []"
    unfolding n using k by simp_all
qed

lemma end_accepted:
  assumes v: "ValidateRun r = None" and st: "run_Status r = RunStopping" and i: "run_Termination r = Some i"
    and rev: "run_Revision r + 1 \<noteq> 0" and k: "run_TerminationKind r = TerminationKindOther []"
  defines "c \<equiv> run_command r (terminalStatus (ti_Kind i)) None []"
  shows "run_reduce r c = Inr (next_run r c)" and "RunStatus_Terminal (run_Status (next_run r c))"
proof -
  have vi: "validateTermination i = None" using validate_frozen_D(1) [OF ValidateRun_D(3) [OF v] i] .
  then have rs: "RequiresStopping (ti_Kind i)" by (rule validateTermination_kind)
  then have ts: "terminalStatus (ti_Kind i) \<in> {RunFailed, RunCanceled, RunStopped}"
    by (auto simp: RequiresStopping_def terminalStatus_def)
  have tsv: "RunStatus_Valid (terminalStatus (ti_Kind i))" "RunStatus_Terminal (terminalStatus (ti_Kind i))"
    "terminalStatus (ti_Kind i) \<noteq> RunStopping" "terminalStatus (ti_Kind i) \<noteq> RunSucceeded" "terminalStatus (ti_Kind i) \<noteq> RunRejected"
    using ts by (auto simp: RunStatus_Valid_def)
  have no_start: "terminalStatus (ti_Kind i) \<noteq> RunRunning" using ts by auto
  have er: "run_Revision r = ti_RequestedRevision i + 1"
    using validate_frozen_D(4) [OF ValidateRun_D(3) [OF v] i] st by (simp add: expected_revision_def)
  have guards: "validateRunCommand r c = None"
    using v st i ts closed_facts_Satisfied
    by (auto simp: validateRunCommand_iff c_def run_command_def sample_texts ValidateRunTransition_iff
        validateRunTransitionGuards_def)
  have n: "next_run r c = r\<lparr>run_Status := terminalStatus (ti_Kind i), run_Revision := run_Revision r + 1,
      run_UpdatedAt := max 1 (run_UpdatedAt r), run_TerminationKind := ti_Kind i, run_PrimaryFailure := ti_PrimaryFailure i,
      run_CleanupFailures := [], run_FinishedAt := Some (max 1 (run_UpdatedAt r))\<rparr>"
    using i rs tsv no_start by (simp add: c_def run_command_def next_run_defs)
  have fz: "validate_frozen (next_run r c) = None"
    unfolding n using vi i er tsv(2) by (simp add: validate_frozen_def expected_revision_def)
  have pf: "validateFailure (ti_PrimaryFailure i) (terminalStatus (ti_Kind i) = RunFailed) = None"
  proof -
    have "terminalStatus (ti_Kind i) = RunFailed \<longleftrightarrow> ti_Kind i = TerminationFailed"
      using rs by (auto simp: RequiresStopping_def terminalStatus_def)
    then show ?thesis using vi by (simp add: validateTermination_def)
  qed
  have dyn: "run_dynamic r" using v ValidateRun_split by blast
  have "run_dynamic (next_run r c)"
    unfolding run_dynamic_def
    by (intro conjI; (rule fz)?; simp add: n later [OF v] pf tsv rev RequiresStopping_Valid [OF rs])
      (use dyn in \<open>simp_all add: run_dynamic_def\<close>)
  then have "ValidateRun (next_run r c) = None" using v by (simp add: ValidateRun_split)
  then show "run_reduce r c = Inr (next_run r c)" using TransitionRun_accepts [OF guards] k by simp
  show "RunStatus_Terminal (run_Status (next_run r c))" unfolding n using ts by auto
qed

section \<open>Properties\<close>

text \<open>
  C1: every state that admission and any sequence of accepted transitions can reach is a
  valid Run; the fields fixed by admission never change; the revision counts the accepted
  commands without ever wrapping, and the revisions the commands expected are exactly
  1, 2, 3, \<dots> in order.
\<close>

theorem run_invariant:
  assumes "AdmitRun a = Inr d" and "fold_reduce run_reduce (rd_Run d) cs = Inr r"
  shows "ValidateRun r = None \<and> run_identity r = run_identity (admitted_run a) \<and>
    unat (run_Revision r) = Suc (length cs) \<and>
    map (\<lambda>c. unat (rtc_ExpectedRevision c)) cs = [1 ..< Suc (length cs)]"
proof -
  note adm = admitted [OF assms(1)]
  have rev1: "run_Revision (admitted_run a) = 1" by (simp add: admitted_run_def)
  have h: "ValidateRun r = None \<and> run_identity r = run_identity (admitted_run a) \<and>
      unat (run_Revision r) = Suc (length cs)"
    using run_history [OF assms(2)] adm rev1 by simp
  have "Suc (length cs) < 2 ^ 64"
    using h unsigned_less [of "run_Revision r", where ?'a = nat] by simp
  then have "map (\<lambda>c. unat (rtc_ExpectedRevision c)) cs = [1 ..< Suc (length cs)]"
    using rn.fold_distinct_fences [OF assms(2)] adm(1) rev1 by (simp del: upt_Suc)
  with h show ?thesis by blast
qed

text \<open>
  C2: a Run fails, is canceled or is stopped only through the two-step termination protocol.
  Its history ends with exactly two commands: one that freezes the termination intent, made
  against the revision the intent was requested at, and one that ends the Run with a
  satisfied ownership closure of the stopping revision. The terminal status, termination kind
  and primary failure are those of the frozen intent; they were not chosen by the last command.
\<close>

theorem run_termination_protocol:
  assumes "AdmitRun a = Inr d" and "fold_reduce run_reduce (rd_Run d) cs = Inr r"
    and "run_Status r \<in> {RunFailed, RunCanceled, RunStopped}"
  shows "\<exists>cs' stop fin i. cs = cs' @ [stop, fin] \<and> rtc_To stop = RunStopping \<and>
    rtc_Termination stop = Some i \<and> ti_RequestedRevision i = rtc_ExpectedRevision stop \<and>
    Satisfied (rtc_Closure fin) \<and> cf_RunRevision (rtc_Closure fin) = rtc_ExpectedRevision stop + 1 \<and>
    run_Termination r = Some i \<and> run_Status r = terminalStatus (ti_Kind i) \<and>
    run_TerminationKind r = ti_Kind i \<and> run_PrimaryFailure r = ti_PrimaryFailure i"
proof -
  note adm = admitted [OF assms(1)]
  have acc: "run_Status (rd_Run d) = RunAccepted" using adm(1) by (simp add: admitted_run_def)
  then have "cs \<noteq> []" using assms(2,3) by auto
  then obtain ds fin u where cs: "cs = ds @ [fin]" and hu: "fold_reduce run_reduce (rd_Run d) ds = Inr u"
    and last: "run_reduce u fin = Inr r"
    using run_history_last [OF assms(2)] by metis
  note f = run_reduce_Inr [OF last]
  have to: "rtc_To fin \<in> {RunFailed, RunCanceled, RunStopped}" using f(1) assms(3) by simp
  then have ends: "RunStatus_Terminal (rtc_To fin)" and nsr: "rtc_To fin \<notin> {RunStopping, RunSucceeded, RunRejected, RunRunning}"
    by auto
  have stopping: "run_Status u = RunStopping"
    using f(2) to by (auto simp: validateRunCommand_iff ValidateRunTransition_iff)
  obtain cs' stop i where ds: "ds = cs' @ [stop]" and st: "rtc_To stop = RunStopping" "rtc_Termination stop = Some i"
      "run_Termination u = Some i" "ti_RequestedRevision i = rtc_ExpectedRevision stop" "validateTermination i = None"
    using stopping_history [OF hu acc stopping] by blast
  have closure: "Satisfied (rtc_Closure fin)" "cf_RunRevision (rtc_Closure fin) = run_Revision u"
    using f(2) guards_terminal(1) ends by (auto simp: validateRunCommand_iff)
  have "run_Revision u = expected_revision u i"
    using f(2) st(3) validate_frozen_D(4) ValidateRun_D(3) by (metis validateRunCommand_iff)
  then have rev_u: "run_Revision u = rtc_ExpectedRevision stop + 1"
    using stopping st(4) by (simp add: expected_revision_def)
  have kind: "rtc_To fin = terminalStatus (ti_Kind i)"
    using f(2) guards_terminal(4) ends stopping st(3) by (metis option.inject validateRunCommand_iff)
  have "run_Termination r = Some i \<and> run_TerminationKind r = ti_Kind i \<and> run_PrimaryFailure r = ti_PrimaryFailure i"
    using f(1) st(3) nsr ends validateTermination_kind [OF st(5)] by (simp add: next_run_defs)
  with f(1) kind closure rev_u cs ds st show ?thesis by auto
qed

text \<open>
  C3: a Run that succeeded was never asked to stop: no command of its history froze a
  termination intent, its last command published the result against a satisfied closure of
  the current revision, and nothing can change the Run any more.
\<close>

theorem run_success_clean:
  assumes "AdmitRun a = Inr d" and "fold_reduce run_reduce (rd_Run d) cs = Inr r"
    and "run_Status r = RunSucceeded"
  shows "(\<forall>c \<in> set cs. rtc_To c \<noteq> RunStopping) \<and> run_Termination r = None \<and>
    Satisfied (rtc_Closure (last cs)) \<and> unat (cf_RunRevision (rtc_Closure (last cs))) = length cs \<and>
    run_ResultRef r = rtc_ResultRef (last cs) \<and> run_ResultRef r \<noteq> [] \<and> (\<forall>c t. run_reduce r c \<noteq> Inr t)"
proof -
  note adm = admitted [OF assms(1)]
  have "run_Status (rd_Run d) = RunAccepted" using adm(1) by (simp add: admitted_run_def)
  then have "cs \<noteq> []" using assms(2,3) by auto
  then obtain ds c u where cs: "cs = ds @ [c]" and hu: "fold_reduce run_reduce (rd_Run d) ds = Inr u"
    and last: "run_reduce u c = Inr r"
    using run_history_last [OF assms(2)] by metis
  note f = run_reduce_Inr [OF last]
  have to: "rtc_To c = RunSucceeded" using f(1) assms(3) by simp
  then have g: "Satisfied (rtc_Closure c)" "rtc_ResultRef c \<noteq> []" "cf_RunRevision (rtc_Closure c) = run_Revision u"
    using f(2) guards_terminal(1,3) by (auto simp: validateRunCommand_iff)
  have from_u: "run_Status u \<in> {RunRunning, RunWaiting}"
    using f(2) to by (auto simp: validateRunCommand_iff ValidateRunTransition_iff)
  have vu: "ValidateRun u = None" using f(2) by (simp add: validateRunCommand_iff)
  have nt: "run_Termination u = None"
    using validate_frozen_D(2) [OF ValidateRun_D(3) [OF vu]] from_u by (cases "run_Termination u") auto
  have "unat (run_Revision u) = length cs"
    using run_history [OF hu] adm cs by (simp add: admitted_run_def)
  moreover have "run_ResultRef r = rtc_ResultRef c" "run_Termination r = None"
    using f(1) to nt by (simp_all add: next_run_defs)
  moreover have "\<forall>c \<in> set ds. rtc_To c \<noteq> RunStopping"
    by (rule never_stopping [OF hu]) (use from_u in auto)
  ultimately show ?thesis
    using cs to g assms(3) run_reduce_terminal by auto
qed

text \<open>
  C7: no Run can get stuck. From every state that a Run can reach and that is not terminal
  (and while the revision counter has room), there are commands that are accepted and end
  the Run, once its ownership closure is satisfied: the stop request, where none has been
  made, and the closing transition.
\<close>

theorem run_can_terminate:
  assumes "AdmitRun a = Inr d" and "fold_reduce run_reduce (rd_Run d) cs = Inr r"
    and "\<not> RunStatus_Terminal (run_Status r)" and "length cs + 3 < 2 ^ 64"
  shows "\<exists>ds t. length ds \<le> 2 \<and> fold_reduce run_reduce r ds = Inr t \<and> RunStatus_Terminal (run_Status t)"
proof -
  note adm = admitted [OF assms(1)]
  have h: "ValidateRun r = None" "unat (run_Revision r) = Suc (length cs)"
    using run_history [OF assms(2)] adm by (simp_all add: admitted_run_def)
  have k: "run_TerminationKind r = TerminationKindOther []"
    by (rule live_kind_unset [OF assms(2) _ assms(3)]) (simp_all add: adm(1) admitted_run_def)
  have r1: "run_Revision r + 1 \<noteq> 0" "unat (run_Revision r + 1) = Suc (Suc (length cs))"
    using unat_succ_bound [of "run_Revision r"] h(2) assms(4) by simp_all
  have r2: "run_Revision r + 1 + 1 \<noteq> 0"
    using unat_succ_bound(2) [of "run_Revision r + 1"] r1(2) assms(4) by simp
  show ?thesis
  proof (cases "run_Status r = RunStopping")
    case True
    then obtain i where i: "run_Termination r = Some i" using ValidateRun_D(2) [OF h(1)] by blast
    note e = end_accepted [OF h(1) True i r1(1) k]
    show ?thesis using e by (intro exI [of _ "[_]"]) auto
  next
    case False
    then have st: "run_Status r \<in> {RunAccepted, RunQueued, RunRunning, RunWaiting}"
      using assms(3) h(1) by (cases "run_Status r") (auto simp: ValidateRun_def RunStatus_Valid_def)
    define c where "c = run_command r RunStopping (Some (stop_intent r)) []"
    note s = stop_accepted [OF h(1) st r1(1) k, folded c_def]
    have v: "ValidateRun (next_run r c) = None" using run_reduce_Inr(3) [OF s(1)] .
    note e = end_accepted [OF v s(2) s(4) _ s(5)]
    show ?thesis using s(1,3) e r2 by (intro exI [of _ "[c, _]"]) auto
  qed
qed

section \<open>A concrete Run\<close>

definition sample_digest :: string where "sample_digest = sha256_text ''sample''"

definition sample_admission :: AdmitRunCommand where
  "sample_admission = \<lparr>arc_RunID = ''run-1'', arc_NamespaceID = ''lab'',
     arc_ActionRef = \<lparr>ar_ActionID = ''inspect'', ar_Version = ''v1'', ar_Digest = sample_digest\<rparr>,
     arc_ExecutionPlanRef = ''plan-1'', arc_PlanDigest = sample_digest, arc_TriggerRef = ''trigger-1'',
     arc_TriggerDigest = sample_digest, arc_InputDigest = sample_digest, arc_ProvenanceArtifactRef = [],
     arc_ScopeRef = [], arc_Parent = None, arc_RootRunID = [], arc_ActorRef = ''actor-1'', arc_SourceRef = ''source-1'',
     arc_CorrelationRef = [], arc_AdmissionPolicyRef = [], arc_AdmissionPolicyDigest = [], arc_ActiveOwnerRef = [],
     arc_ActiveOwnerGeneration = 0, arc_CommandID = ''admit-1'', arc_At = 5\<rparr>"

definition sample_run :: Run where "sample_run = admitted_run sample_admission"

lemma sample_digest_valid [simp]: "ValidDigest sample_digest"
  by (simp add: sample_digest_def)

lemma sample_run_valid: "ValidateRun sample_run = None"
  by (simp add: sample_run_def ValidateRun_def admitted_run_def sample_admission_def text_eval ActionRef_invalid_def
      RunStatus_Valid_def outside_lifecycle_def validate_frozen_def)

lemma sample_admitted: "\<exists>d. AdmitRun sample_admission = Inr d \<and> rd_Run d = sample_run"
proof -
  have v: "validateAdmitRun sample_admission = None"
    by (simp add: validateAdmitRun_def sample_admission_def text_eval ActionRef_invalid_def)
  have "\<exists>e. newEvent ''run'' (run_RunID sample_run) (run_Revision sample_run) ''run.accepted''
      (arc_CommandID sample_admission) (arc_At sample_admission)
      [(''actionRef'', ActionRef_json (run_ActionRef sample_run)), (''planDigest'', JStr (run_PlanDigest sample_run)),
       (''triggerDigest'', JStr (run_TriggerDigest sample_run)), (''inputDigest'', JStr (run_InputDigest sample_run))] = Inr e"
    by (rule newEvent_ok)
      (use ValidDigest_text [OF sample_digest_valid] in
        \<open>simp_all add: sample_run_def admitted_run_def sample_admission_def text_eval ActionRef_json_def ascii_def\<close>)
  then show ?thesis using v sample_run_valid by (auto simp: AdmitRun_def sample_run_def)
qed

text \<open>The stop and the end of the sample Run.\<close>

lemma sample_stop: "\<exists>t. run_reduce sample_run (run_command sample_run RunStopping (Some (stop_intent sample_run)) []) = Inr t \<and>
    run_Status t = RunStopping \<and> run_Revision t = 2 \<and> run_Termination t = Some (stop_intent sample_run) \<and>
    run_TerminationKind t = TerminationKindOther []"
  using stop_accepted [OF sample_run_valid] by (simp add: sample_run_def admitted_run_def)

lemma sample_end: "\<exists>cs t. fold_reduce run_reduce sample_run cs = Inr t \<and> run_Status t = RunStopped \<and> length cs = 2"
proof -
  define c where "c = run_command sample_run RunStopping (Some (stop_intent sample_run)) []"
  obtain t where t: "run_reduce sample_run c = Inr t" "run_Status t = RunStopping" "run_Revision t = 2"
      "run_Termination t = Some (stop_intent sample_run)" "run_TerminationKind t = TerminationKindOther []"
    using sample_stop by (auto simp: c_def)
  define e where "e = run_command t (terminalStatus (ti_Kind (stop_intent sample_run))) None []"
  have "run_reduce t e = Inr (next_run t e)"
    using end_accepted(1) [OF run_reduce_Inr(3) [OF t(1)] t(2,4) _ t(5)] t(3) by (simp add: e_def)
  moreover have "run_Status (next_run t e) = RunStopped"
    by (simp add: e_def run_command_def stop_intent_def terminalStatus_def)
  ultimately show ?thesis using t(1) by (intro exI [of _ "[c, e]"]) auto
qed

definition sample_start :: RunTransitionCommand where "sample_start = run_command sample_run RunRunning None []"
definition sample_running :: Run where "sample_running = next_run sample_run sample_start"
definition sample_success :: RunTransitionCommand where "sample_success = run_command sample_running RunSucceeded None ''result-1''"

lemmas sample_run_defs =
  sample_run_def admitted_run_def sample_admission_def text_eval ActionRef_invalid_def RunStatus_Valid_def
  outside_lifecycle_def validate_frozen_def run_command_def next_run_defs

lemma sample_running_run: "sample_running = sample_run\<lparr>run_Status := RunRunning, run_Revision := 2, run_StartedAt := Some 5\<rparr>"
  by (simp add: sample_running_def sample_start_def sample_run_defs)

lemma sample_start_accepted: "run_reduce sample_run sample_start = Inr sample_running"
  unfolding sample_running_def
proof (rule TransitionRun_accepts)
  show "validateRunCommand sample_run sample_start = None"
    unfolding validateRunCommand_iff
    by (simp add: sample_run_valid, simp add: sample_start_def sample_run_defs ValidateRunTransition_iff
        validateRunTransitionGuards_def)
  show "ValidateRun (next_run sample_run sample_start) = None"
    unfolding sample_running_def [symmetric] sample_running_run
    by (simp add: ValidateRun_def sample_run_defs)
qed (simp add: sample_run_defs)

lemma sample_success_accepted: "\<exists>t. run_reduce sample_running sample_success = Inr t \<and> run_Status t = RunSucceeded"
proof -
  have "run_reduce sample_running sample_success = Inr (next_run sample_running sample_success)"
  proof (rule TransitionRun_accepts)
    have "ValidateRun sample_running = None" using run_reduce_Inr(3) [OF sample_start_accepted] .
    then show "validateRunCommand sample_running sample_success = None"
      unfolding validateRunCommand_iff
      by (simp, simp add: sample_success_def sample_running_run sample_run_defs ValidateRunTransition_iff
          validateRunTransitionGuards_def closed_facts_def Satisfied_def)
    show "ValidateRun (next_run sample_running sample_success) = None"
      by (simp add: ValidateRun_def sample_success_def sample_running_run sample_run_defs TerminationKind_Valid_def)
  qed (simp add: sample_running_run sample_run_defs)
  then show ?thesis by (simp add: sample_success_def run_command_def)
qed

section \<open>Witnesses\<close>

theorem run_invariant_witness:
  "\<exists>cs r. fold_reduce run_reduce sample_run cs = Inr r \<and> ValidateRun r = None \<and>
     run_identity r = run_identity sample_run \<and> unat (run_Revision r) = 3"
proof -
  obtain d where d: "AdmitRun sample_admission = Inr d" "rd_Run d = sample_run" using sample_admitted by blast
  obtain cs t where t: "fold_reduce run_reduce sample_run cs = Inr t" "length cs = 2" using sample_end by blast
  show ?thesis
    using run_invariant [OF d(1)] t d(2) by (intro exI [of _ cs] exI [of _ t]) (simp add: sample_run_def)
qed

theorem run_termination_protocol_witness:
  "\<exists>stop fin r i. fold_reduce run_reduce sample_run [stop, fin] = Inr r \<and> rtc_Termination stop = Some i \<and>
     run_Termination r = Some i \<and> run_Status r = RunStopped"
proof -
  obtain d where d: "AdmitRun sample_admission = Inr d" "rd_Run d = sample_run" using sample_admitted by blast
  obtain cs t where t: "fold_reduce run_reduce sample_run cs = Inr t" "run_Status t = RunStopped" "length cs = 2"
    using sample_end by blast
  obtain cs' stop fin i where cs: "cs = cs' @ [stop, fin]" "rtc_Termination stop = Some i" "run_Termination t = Some i"
    using run_termination_protocol [OF d(1), of cs t] t(1,2) d(2) by auto
  then have two: "cs = [stop, fin]" using t(3) by simp
  show ?thesis using t(1,2) cs(2,3) unfolding two by blast
qed

theorem run_success_clean_witness:
  "\<exists>r. fold_reduce run_reduce sample_run [sample_start, sample_success] = Inr r \<and> run_Termination r = None \<and>
     run_ResultRef r = ''result-1'' \<and> (\<forall>c t. run_reduce r c \<noteq> Inr t)"
proof -
  obtain d where d: "AdmitRun sample_admission = Inr d" "rd_Run d = sample_run" using sample_admitted by blast
  obtain t where t: "fold_reduce run_reduce sample_run [sample_start, sample_success] = Inr t" "run_Status t = RunSucceeded"
    using sample_start_accepted sample_success_accepted by auto
  show ?thesis
    using run_success_clean [OF d(1), of "[sample_start, sample_success]" t] t d(2)
    by (auto simp: sample_success_def run_command_def)
qed

theorem run_can_terminate_witness:
  "\<exists>ds t. length ds \<le> 2 \<and> fold_reduce run_reduce sample_running ds = Inr t \<and> RunStatus_Terminal (run_Status t)"
proof -
  obtain d where d: "AdmitRun sample_admission = Inr d" "rd_Run d = sample_run" using sample_admitted by blast
  show ?thesis
    by (rule run_can_terminate [OF d(1), of "[sample_start]"])
      (simp_all add: d(2) sample_start_accepted sample_running_run)
qed

end
