(* ===== verification/Invocation_Reducer.thy ===== *)
theory Invocation_Reducer
  imports Run_Reducer
begin

text \<open>
  Package kernel/execution, invocation.go: the ledger of an Invocation and its Attempts. The
  ledger is changed by eleven operations; execution and compensation attempts are leased to
  workers by token and expiry time, waits are fenced by reference and generation, and every
  operation is fenced by the revision of the ledger.
\<close>

section \<open>Commands\<close>

record ActivateInvocationCommand =
  aic_InvocationID :: string
  aic_NamespaceID :: string
  aic_RunID :: string
  aic_NodeID :: string
  aic_TypeRef :: string
  aic_DescriptorDigest :: string
  aic_ResolvedInputDigest :: string
  aic_InputRefsDigest :: string
  aic_Compensatable :: bool
  aic_CommandID :: string
  aic_At :: instant

record ClaimInvocationCommand =
  cic_InvocationID :: string
  cic_ExpectedRevision :: u64
  cic_Phase :: AttemptPhase
  cic_OwnerRef :: string
  cic_LeaseToken :: string
  cic_LeaseExpiresAt :: instant
  cic_CommandID :: string
  cic_At :: instant

record AttemptFence =
  af_InvocationID :: string
  af_InvocationRevision :: u64
  af_AttemptID :: string
  af_AttemptRevision :: u64
  af_LeaseToken :: string
  af_At :: instant

record TransitionInvocationCommand =
  tic_Fence :: AttemptFence
  tic_To :: InvocationStatus
  tic_AttemptTo :: AttemptStatus
  tic_OutputRefsDigest :: string
  tic_Failure :: "StructuredFailure option"
  tic_RetryAt :: "instant option"
  tic_WaitRef :: string
  tic_WaitGeneration :: u32
  tic_CommandID :: string

record ResolveInvocationWaitCommand =
  rwc_InvocationID :: string
  rwc_ExpectedRevision :: u64
  rwc_AttemptID :: string
  rwc_ExpectedAttemptRevision :: u64
  rwc_WaitRef :: string
  rwc_WaitGeneration :: u32
  rwc_To :: InvocationStatus
  rwc_OutputRefsDigest :: string
  rwc_Failure :: "StructuredFailure option"
  rwc_CommandID :: string
  rwc_At :: instant

record HeartbeatAttemptCommand =
  hac_Fence :: AttemptFence
  hac_OwnerRef :: string
  hac_LeaseExpiresAt :: instant
  hac_CommandID :: string

record ExpireInvocationAttemptCommand =
  eic_InvocationID :: string
  eic_ExpectedRevision :: u64
  eic_AttemptID :: string
  eic_ExpectedAttemptRevision :: u64
  eic_Retry :: bool
  eic_Failure :: StructuredFailure
  eic_CommandID :: string
  eic_At :: instant

record ResolveUnleasedInvocationCommand =
  ruc_InvocationID :: string
  ruc_ExpectedRevision :: u64
  ruc_To :: InvocationStatus
  ruc_Failure :: "StructuredFailure option"
  ruc_CommandID :: string
  ruc_At :: instant

record CancelInvocationCommand =
  cnc_InvocationID :: string
  cnc_ExpectedRevision :: u64
  cnc_RunID :: string
  cnc_RunRevision :: u64
  cnc_TerminationCommandID :: string
  cnc_CommandID :: string
  cnc_At :: instant

record ScheduleInvocationCompensationCommand =
  sic_InvocationID :: string
  sic_ExpectedRevision :: u64
  sic_CommandID :: string
  sic_At :: instant

record ClaimCompensationCommand =
  ccc_InvocationID :: string
  ccc_ExpectedRevision :: u64
  ccc_OwnerRef :: string
  ccc_LeaseToken :: string
  ccc_LeaseExpiresAt :: instant
  ccc_CommandID :: string
  ccc_At :: instant

record TransitionInvocationCompensationCommand =
  tcc_Fence :: AttemptFence
  tcc_To :: CompensationStatus
  tcc_AttemptTo :: AttemptStatus
  tcc_Failure :: "StructuredFailure option"
  tcc_RetryAt :: "instant option"
  tcc_CommandID :: string

record InvocationDecision =
  idn_Ledger :: InvocationLedger
  idn_Events :: "DomainEvent list"
  idn_Intents :: "DurableIntent list"

section \<open>Validation of a ledger\<close>

text \<open>An identity computed where the source discards the error: the empty string on error.\<close>

definition identity_or_empty :: "string result \<Rightarrow> string" where
  "identity_or_empty r = (case r of Inl _ \<Rightarrow> [] | Inr s \<Rightarrow> s)"

definition invocation_edges :: "(InvocationStatus \<times> InvocationStatus list) list" where
  "invocation_edges =
     [(InvocationReady, [InvocationRunning, InvocationSkipped, InvocationCanceled]),
      (InvocationRunning, [InvocationWaiting, InvocationRetryWait, InvocationSucceeded, InvocationFailed, InvocationCanceled]),
      (InvocationWaiting, [InvocationRunning, InvocationRetryWait, InvocationSucceeded, InvocationFailed, InvocationCanceled]),
      (InvocationRetryWait, [InvocationRunning, InvocationFailed, InvocationCanceled])]"

definition ValidateInvocationTransition :: "InvocationStatus \<Rightarrow> InvocationStatus \<Rightarrow> error option" where
  "ValidateInvocationTransition from to = first_error
     [fail_if (\<not> InvocationStatus_Valid from \<or> \<not> InvocationStatus_Valid to \<or> from = to)
        (ErrInvalidTransition ExecutionPkg),
      fail_if (\<not> (case map_of invocation_edges from of None \<Rightarrow> False | Some tos \<Rightarrow> to \<in> set tos))
        (ErrInvalidTransition ExecutionPkg)]"

definition attempt_edges :: "(AttemptStatus \<times> AttemptStatus list) list" where
  "attempt_edges =
     [(AttemptRunning, [AttemptWaiting, AttemptSucceeded, AttemptFailed, AttemptCanceled, AttemptAbandoned]),
      (AttemptWaiting, [AttemptRunning, AttemptSucceeded, AttemptFailed, AttemptCanceled, AttemptAbandoned])]"

definition ValidateAttemptTransition :: "AttemptStatus \<Rightarrow> AttemptStatus \<Rightarrow> error option" where
  "ValidateAttemptTransition from to = first_error
     [fail_if (\<not> AttemptStatus_Valid from \<or> \<not> AttemptStatus_Valid to \<or> from = to)
        (ErrInvalidTransition ExecutionPkg),
      fail_if (\<not> (case map_of attempt_edges from of None \<Rightarrow> False | Some tos \<Rightarrow> to \<in> set tos))
        (ErrInvalidTransition ExecutionPkg)]"

definition countPhase :: "Attempt list \<Rightarrow> AttemptPhase \<Rightarrow> nat" where
  "countPhase attempts phase = length (filter (\<lambda>a. att_Phase a = phase) attempts)"

definition findAttempt :: "Attempt list \<Rightarrow> string \<Rightarrow> Attempt option" where
  "findAttempt attempts ident = find (\<lambda>a. att_AttemptID a = ident) attempts"

definition validateInvocationCompensation :: "Invocation \<Rightarrow> error option" where
  "validateInvocationCompensation v =
     (if inv_CompensationStatus v = CompensationNotRequired then
        fail_if (inv_CompensationAttemptCount v \<noteq> 0 \<or> inv_ActiveCompensationAttemptID v \<noteq> [] \<or>
                 inv_CompensationFailure v \<noteq> None \<or> inv_CompensationNextAt v \<noteq> None)
          (Errorf ''not-required compensation contains lifecycle state'')
      else if inv_CompensationStatus v \<noteq> CompensationUnscheduled \<and> \<not> InvocationStatus_Terminal (inv_Status v) then
        Some (Errorf ''compensation cannot start before primary invocation is terminal'')
      else if inv_CompensationStatus v = CompensationRunning then
        fail_if (inv_ActiveCompensationAttemptID v = [] \<or> inv_CompensationFailure v \<noteq> None \<or>
                 inv_CompensationNextAt v \<noteq> None)
          (Errorf ''running compensation has invalid active attempt, failure, or retry time'')
      else if inv_ActiveCompensationAttemptID v \<noteq> [] then
        Some (Errorf ''inactive compensation retains an attempt pointer'')
      else if inv_CompensationStatus v = CompensationRetryWait then
        fail_if (inv_CompensationNextAt v = None \<or>
                 (case inv_CompensationFailure v of None \<Rightarrow> True | Some f \<Rightarrow> fail_Class f \<noteq> FailureTransient))
          (Errorf ''compensation retry-wait requires transient failure and next time'')
      else if inv_CompensationStatus v = CompensationFailed then
        fail_if (inv_CompensationNextAt v \<noteq> None \<or> inv_CompensationFailure v = None)
          (Errorf ''failed compensation requires failure and no retry time'')
      else if inv_CompensationStatus v \<in> {CompensationUnscheduled, CompensationReady, CompensationSucceeded, CompensationCanceled} then
        fail_if (inv_CompensationNextAt v \<noteq> None \<or> inv_CompensationFailure v \<noteq> None)
          (Errorf ''compensation state retains failure or retry time'')
      else Some (Errorf ''compensation state is invalid''))"

definition validateAttempt :: "Attempt \<Rightarrow> Invocation \<Rightarrow> error option" where
  "validateAttempt a v = first_error
     [fail_if (att_InvocationID a \<noteq> inv_InvocationID v \<or> att_RunID a \<noteq> inv_RunID v \<or> att_NamespaceID a \<noteq> inv_NamespaceID v)
        (Errorf ''attempt belongs to another invocation''),
      fail_if (\<not> AttemptPhase_Valid (att_Phase a) \<or> \<not> AttemptStatus_Valid (att_Status a) \<or> att_Ordinal a = 0 \<or> att_Revision a = 0)
        (Errorf ''attempt phase, status, ordinal, or revision is invalid''),
      fail_if (att_AttemptID a \<noteq> identity_or_empty (StableAttemptID (inv_InvocationID v) (att_Phase a) (att_Ordinal a)) \<or>
               att_ResolvedInputDigest a \<noteq> inv_ResolvedInputDigest v)
        (Errorf ''attempt stable identity or resolved input digest is invalid''),
      fail_if (\<not> ValidDigest (att_LeaseTokenHash a) \<or> IsZero (att_CreatedAt a) \<or> IsZero (att_StartedAt a) \<or>
               Before (att_UpdatedAt a) (att_CreatedAt a))
        (Errorf ''attempt lease hash or timestamps are invalid''),
      fail_if (AttemptStatus_Terminal (att_Status a) \<noteq> (att_FinishedAt a \<noteq> None))
        (Errorf ''attempt terminal state and finishedAt disagree''),
      (if AttemptStatus_Terminal (att_Status a)
       then fail_if (\<not> IsZero (att_LeaseExpiresAt a)) (Errorf ''terminal attempt retains a live lease'')
       else fail_if (\<not> After (att_LeaseExpiresAt a) (att_UpdatedAt a)) (Errorf ''live attempt requires an unexpired lease'')),
      validateFailure (att_Failure a) (att_Status a = AttemptFailed \<or> att_Status a = AttemptAbandoned)]"

text \<open>
  The loop over the attempts, with the identities seen and the last ordinal of each phase.
\<close>

definition next_ordinal :: "AttemptPhase \<Rightarrow> u32 \<times> u32 \<Rightarrow> u32" where
  "next_ordinal phase ord = (if phase = AttemptExecution then fst ord + 1 else snd ord + 1)"

definition bump_ordinal :: "AttemptPhase \<Rightarrow> u32 \<times> u32 \<Rightarrow> u32 \<times> u32" where
  "bump_ordinal phase ord = (if phase = AttemptExecution then (fst ord + 1, snd ord) else (fst ord, snd ord + 1))"

fun validate_attempts :: "Invocation \<Rightarrow> string list \<Rightarrow> u32 \<times> u32 \<Rightarrow> Attempt list \<Rightarrow> error option" where
  "validate_attempts v seen ord [] = None"
| "validate_attempts v seen ord (a # as) = first_error
     [validateAttempt a v,
      fail_if (att_AttemptID a \<in> set seen) (Errorf ''attempt identity is duplicated''),
      fail_if (att_Ordinal a \<noteq> next_ordinal (att_Phase a) ord)
        (Errorf ''attempt ordinals are not contiguous in ledger order''),
      validate_attempts v (att_AttemptID a # seen) (bump_ordinal (att_Phase a) ord) as]"

definition active_pointer_ok :: "Attempt list \<Rightarrow> AttemptPhase \<Rightarrow> string \<Rightarrow> bool" where
  "active_pointer_ok attempts phase ident = (case findAttempt attempts ident of None \<Rightarrow> False
     | Some a \<Rightarrow> att_Phase a = phase \<and> \<not> AttemptStatus_Terminal (att_Status a))"

definition ValidateInvocationLedger :: "InvocationLedger \<Rightarrow> error option" where
  "ValidateInvocationLedger l = first_error
     [validateIdentity (inv_InvocationID (led_Invocation l)), validateIdentity (inv_NamespaceID (led_Invocation l)),
      validateIdentity (inv_RunID (led_Invocation l)), validateIdentity (inv_NodeID (led_Invocation l)),
      fail_if (StableInvocationID (inv_RunID (led_Invocation l)) (inv_NodeID (led_Invocation l)) \<noteq>
               Inr (inv_InvocationID (led_Invocation l)))
        (Errorf ''invocation stable identity is invalid''),
      fail_if (\<not> ValidTypeRef (inv_TypeRef (led_Invocation l)) \<or> \<not> ValidDigest (inv_DescriptorDigest (led_Invocation l)) \<or>
               \<not> ValidDigest (inv_ResolvedInputDigest (led_Invocation l)) \<or> \<not> ValidDigest (inv_InputRefsDigest (led_Invocation l)))
        (Errorf ''invocation type or frozen digest is invalid''),
      fail_if (\<not> InvocationStatus_Valid (inv_Status (led_Invocation l)) \<or>
               \<not> CompensationStatus_Valid (inv_CompensationStatus (led_Invocation l)) \<or>
               inv_Revision (led_Invocation l) = 0 \<or> IsZero (inv_CreatedAt (led_Invocation l)) \<or>
               Before (inv_UpdatedAt (led_Invocation l)) (inv_CreatedAt (led_Invocation l)))
        (Errorf ''invocation lifecycle is invalid''),
      fail_if (InvocationStatus_Terminal (inv_Status (led_Invocation l)) \<noteq> (inv_FinishedAt (led_Invocation l) \<noteq> None))
        (Errorf ''invocation terminal state and finishedAt disagree''),
      fail_if (inv_Status (led_Invocation l) \<in> {InvocationRunning, InvocationWaiting} \<and> inv_ActiveAttemptID (led_Invocation l) = [])
        (Errorf ''active invocation requires an active attempt''),
      fail_if (inv_Status (led_Invocation l) \<notin> {InvocationRunning, InvocationWaiting} \<and> inv_ActiveAttemptID (led_Invocation l) \<noteq> [])
        (Errorf ''inactive invocation retains an execution attempt pointer''),
      fail_if (inv_Status (led_Invocation l) = InvocationRetryWait \<and>
               (inv_ActiveAttemptID (led_Invocation l) \<noteq> [] \<or> inv_NextAttemptAt (led_Invocation l) = None))
        (Errorf ''retry-wait invocation has invalid active attempt or time''),
      fail_if (inv_Status (led_Invocation l) = InvocationWaiting \<and>
               (inv_CurrentWaitRef (led_Invocation l) = [] \<or> inv_WaitGeneration (led_Invocation l) = 0))
        (Errorf ''waiting invocation requires a durable wait generation''),
      fail_if (inv_Status (led_Invocation l) = InvocationSucceeded \<and> \<not> ValidDigest (inv_OutputRefsDigest (led_Invocation l)))
        (Errorf ''succeeded invocation requires output refs digest''),
      validateFailure (inv_PrimaryFailure (led_Invocation l))
        (inv_Status (led_Invocation l) = InvocationFailed \<or> inv_Status (led_Invocation l) = InvocationRetryWait),
      fail_if (inv_Status (led_Invocation l) \<noteq> InvocationFailed \<and> inv_Status (led_Invocation l) \<noteq> InvocationRetryWait \<and>
               inv_PrimaryFailure (led_Invocation l) \<noteq> None)
        (Errorf ''invocation primary failure exists outside failed or retry-wait''),
      fail_if (inv_ExecutionAttemptCount (led_Invocation l) \<noteq> word_of_nat (countPhase (led_Attempts l) AttemptExecution))
        (Errorf ''invocation execution attempt count disagrees with ledger''),
      fail_if (inv_CompensationAttemptCount (led_Invocation l) \<noteq> word_of_nat (countPhase (led_Attempts l) AttemptCompensation))
        (Errorf ''invocation compensation attempt count disagrees with ledger''),
      validateInvocationCompensation (led_Invocation l),
      validate_attempts (led_Invocation l) [] (0, 0) (led_Attempts l),
      fail_if (inv_ActiveAttemptID (led_Invocation l) \<noteq> [] \<and>
               \<not> active_pointer_ok (led_Attempts l) AttemptExecution (inv_ActiveAttemptID (led_Invocation l)))
        (Errorf ''active attempt pointer is missing or terminal''),
      fail_if (inv_ActiveCompensationAttemptID (led_Invocation l) \<noteq> [] \<and>
               \<not> active_pointer_ok (led_Attempts l) AttemptCompensation (inv_ActiveCompensationAttemptID (led_Invocation l)))
        (Errorf ''active compensation attempt pointer is missing or terminal'')]"

section \<open>Fences\<close>

text \<open>The position of the first attempt with an identity.\<close>

fun attempt_index :: "Attempt list \<Rightarrow> string \<Rightarrow> nat option" where
  "attempt_index [] ident = None"
| "attempt_index (a # as) ident =
     (if att_AttemptID a = ident then Some 0 else map_option Suc (attempt_index as ident))"

definition active_id :: "Invocation \<Rightarrow> AttemptPhase \<Rightarrow> string" where
  "active_id v phase = (if phase = AttemptCompensation then inv_ActiveCompensationAttemptID v else inv_ActiveAttemptID v)"

definition fence_holds :: "InvocationLedger \<Rightarrow> AttemptFence \<Rightarrow> Attempt \<Rightarrow> bool" where
  "fence_holds l f a \<longleftrightarrow> PrivateTokenDigest (af_LeaseToken f) = Inr (att_LeaseTokenHash a) \<and>
     att_Revision a = af_AttemptRevision f \<and> Before (af_At f) (att_LeaseExpiresAt a) \<and>
     active_id (led_Invocation l) (att_Phase a) = att_AttemptID a"

definition validateAttemptFenceAny :: "InvocationLedger \<Rightarrow> AttemptFence \<Rightarrow> nat result" where
  "validateAttemptFenceAny l f =
     ensure (fail_if (af_InvocationID f \<noteq> inv_InvocationID (led_Invocation l) \<or>
                      af_InvocationRevision f \<noteq> inv_Revision (led_Invocation l))
               (ErrRevisionConflict ExecutionPkg)) (
     ensure (fail_if (IsZero (af_At f) \<or> Before (af_At f) (inv_UpdatedAt (led_Invocation l)))
               (ErrLeaseConflict ExecutionPkg)) (
     case attempt_index (led_Attempts l) (af_AttemptID f) of
       None \<Rightarrow> Inl (ErrLeaseConflict ExecutionPkg)
     | Some i \<Rightarrow> if fence_holds l f (led_Attempts l ! i) then Inr i else Inl (ErrLeaseConflict ExecutionPkg)))"

definition validateAttemptFenceForPhase :: "InvocationLedger \<Rightarrow> AttemptFence \<Rightarrow> AttemptPhase \<Rightarrow> nat result" where
  "validateAttemptFenceForPhase l f phase =
     andThen (validateAttemptFenceAny l f) (\<lambda>i.
       if att_Phase (led_Attempts l ! i) \<noteq> phase then Inl (ErrLeaseConflict ExecutionPkg) else Inr i)"

text \<open>The common end of the operations: the event of the new revision, and the decision.\<close>

definition invocation_event ::
  "InvocationLedger \<Rightarrow> string \<Rightarrow> string \<Rightarrow> instant \<Rightarrow> payload \<Rightarrow> InvocationDecision result" where
  "invocation_event next ty command at payload =
     andThen (newEvent ''invocation'' (inv_InvocationID (led_Invocation next)) (inv_Revision (led_Invocation next))
                ty command at payload) (\<lambda>event.
       Inr \<lparr>idn_Ledger = next, idn_Events = [event], idn_Intents = []\<rparr>)"

section \<open>Activation\<close>

definition validateActivateInvocation :: "ActivateInvocationCommand \<Rightarrow> error option" where
  "validateActivateInvocation c = first_error
     [validateIdentity (aic_InvocationID c), validateIdentity (aic_NamespaceID c), validateIdentity (aic_RunID c),
      validateIdentity (aic_NodeID c), validateIdentity (aic_CommandID c),
      fail_if (\<not> ValidTypeRef (aic_TypeRef c) \<or> \<not> ValidDigest (aic_DescriptorDigest c) \<or>
               \<not> ValidDigest (aic_ResolvedInputDigest c) \<or> \<not> ValidDigest (aic_InputRefsDigest c))
        (Errorf ''invocation activation contains invalid type or digest''),
      fail_if (IsZero (aic_At c)) (Errorf ''invocation activation time is required'')]"

definition activated_ledger :: "ActivateInvocationCommand \<Rightarrow> InvocationLedger" where
  "activated_ledger c =
     \<lparr>led_Invocation =
        \<lparr>inv_InvocationID = aic_InvocationID c, inv_NamespaceID = aic_NamespaceID c, inv_RunID = aic_RunID c,
         inv_NodeID = aic_NodeID c, inv_TypeRef = aic_TypeRef c, inv_DescriptorDigest = aic_DescriptorDigest c,
         inv_ResolvedInputDigest = aic_ResolvedInputDigest c, inv_InputRefsDigest = aic_InputRefsDigest c,
         inv_Status = InvocationReady, inv_ActiveAttemptID = [], inv_ActiveCompensationAttemptID = [],
         inv_ExecutionAttemptCount = 0, inv_WaitGeneration = 0, inv_CurrentWaitRef = [], inv_NextAttemptAt = None,
         inv_OutputRefsDigest = [], inv_PrimaryFailure = None,
         inv_CompensationStatus = (if aic_Compensatable c then CompensationUnscheduled else CompensationNotRequired),
         inv_CompensationAttemptCount = 0, inv_CompensationFailure = None, inv_CompensationNextAt = None,
         inv_CreatedAt = aic_At c, inv_StartedAt = None, inv_UpdatedAt = aic_At c, inv_FinishedAt = None,
         inv_Revision = 1\<rparr>,
      led_Attempts = []\<rparr>"

definition ActivateInvocation :: "ActivateInvocationCommand \<Rightarrow> InvocationDecision result" where
  "ActivateInvocation c =
     ensure (validateActivateInvocation c) (
     ensure (fail_if (aic_InvocationID c \<noteq> identity_or_empty (StableInvocationID (aic_RunID c) (aic_NodeID c)))
               (Errorf ''invocation identity does not match run and node'')) (
     ensure (ValidateInvocationLedger (activated_ledger c)) (
     invocation_event (activated_ledger c) ''invocation.ready'' (aic_CommandID c) (aic_At c)
       [(''runId'', JStr (aic_RunID c)), (''nodeId'', JStr (aic_NodeID c)),
        (''descriptorDigest'', JStr (aic_DescriptorDigest c)),
        (''resolvedInputDigest'', JStr (aic_ResolvedInputDigest c))])))"

section \<open>Claims\<close>

definition new_attempt :: "Invocation \<Rightarrow> AttemptPhase \<Rightarrow> u32 \<Rightarrow> string \<Rightarrow> string \<Rightarrow> instant \<Rightarrow> instant \<Rightarrow> Attempt" where
  "new_attempt v phase ordinal owner leaseHash expires at =
     \<lparr>att_AttemptID = identity_or_empty (StableAttemptID (inv_InvocationID v) phase ordinal),
      att_NamespaceID = inv_NamespaceID v, att_RunID = inv_RunID v, att_InvocationID = inv_InvocationID v,
      att_Phase = phase, att_Ordinal = ordinal, att_Status = AttemptRunning,
      att_ResolvedInputDigest = inv_ResolvedInputDigest v, att_OwnerRef = owner, att_LeaseTokenHash = leaseHash,
      att_LeaseExpiresAt = expires, att_AdoptionCount = 0, att_CheckpointRef = [], att_CheckpointDigest = [],
      att_Failure = None, att_CreatedAt = at, att_StartedAt = at, att_UpdatedAt = at, att_FinishedAt = None,
      att_Revision = 1\<rparr>"

definition claim_payload :: "Attempt \<Rightarrow> json \<Rightarrow> payload" where
  "claim_payload a expires =
     [(''attemptId'', JStr (att_AttemptID a)), (''attemptOrdinal'', JU32 (att_Ordinal a)),
      (''ownerRef'', JStr (att_OwnerRef a)), (''leaseTokenHash'', JStr (att_LeaseTokenHash a)),
      (''leaseExpiresAt'', expires)]"

definition validateClaim :: "InvocationLedger \<Rightarrow> ClaimInvocationCommand \<Rightarrow> error option" where
  "validateClaim l c = first_error
     [ValidateInvocationLedger l,
      fail_if (cic_InvocationID c \<noteq> inv_InvocationID (led_Invocation l)) (Errorf ''claim targets another invocation''),
      fail_if (cic_ExpectedRevision c \<noteq> inv_Revision (led_Invocation l)) (ErrRevisionConflict ExecutionPkg),
      fail_if (IsZero (cic_At c) \<or> Before (cic_At c) (inv_UpdatedAt (led_Invocation l)) \<or> \<not> After (cic_LeaseExpiresAt c) (cic_At c))
        (Errorf ''claim times are invalid''),
      validateIdentity (cic_OwnerRef c),
      validateCanonicalText (cic_LeaseToken c) 512 True,
      validateIdentity (cic_CommandID c),
      fail_if (cic_Phase c \<noteq> AttemptExecution) (Errorf ''execution claim requires execution attempt phase''),
      fail_if (inv_Status (led_Invocation l) \<noteq> InvocationReady \<and> inv_Status (led_Invocation l) \<noteq> InvocationRetryWait)
        (ErrInvalidTransition ExecutionPkg),
      fail_if (inv_Status (led_Invocation l) = InvocationRetryWait \<and>
               (case inv_NextAttemptAt (led_Invocation l) of None \<Rightarrow> True | Some t \<Rightarrow> Before (cic_At c) t))
        (ErrInvalidTransition ExecutionPkg)]"

definition claimed_ledger :: "InvocationLedger \<Rightarrow> Attempt \<Rightarrow> instant \<Rightarrow> InvocationLedger" where
  "claimed_ledger l a at = l\<lparr>
     led_Attempts := led_Attempts l @ [a],
     led_Invocation := (led_Invocation l)\<lparr>inv_Status := InvocationRunning, inv_ActiveAttemptID := att_AttemptID a,
       inv_ExecutionAttemptCount := att_Ordinal a, inv_NextAttemptAt := None, inv_PrimaryFailure := None,
       inv_Revision := inv_Revision (led_Invocation l) + 1, inv_UpdatedAt := at,
       inv_StartedAt := (case inv_StartedAt (led_Invocation l) of None \<Rightarrow> Some at | Some t \<Rightarrow> Some t)\<rparr>\<rparr>"

definition ClaimInvocation :: "InvocationLedger \<Rightarrow> ClaimInvocationCommand \<Rightarrow> InvocationDecision result" where
  "ClaimInvocation l c =
     ensure (validateClaim l c) (
     andThen (PrivateTokenDigest (cic_LeaseToken c)) (\<lambda>leaseHash.
       (\<lambda>a. ensure (ValidateInvocationLedger (claimed_ledger l a (cic_At c))) (
              andThen (time_json (cic_LeaseExpiresAt c)) (\<lambda>expires.
              invocation_event (claimed_ledger l a (cic_At c)) ''invocation.claimed'' (cic_CommandID c) (cic_At c)
                (claim_payload a expires))))
       (new_attempt (led_Invocation l) (cic_Phase c) (inv_ExecutionAttemptCount (led_Invocation l) + 1)
          (cic_OwnerRef c) leaseHash (cic_LeaseExpiresAt c) (cic_At c))))"

section \<open>Transitions of leased execution\<close>

definition validateAlignedTransition :: "TransitionInvocationCommand \<Rightarrow> error option" where
  "validateAlignedTransition c = first_error
     [(case tic_To c of
         InvocationWaiting \<Rightarrow> fail_if (tic_AttemptTo c \<noteq> AttemptWaiting \<or> tic_WaitRef c = [] \<or> tic_WaitGeneration c = 0)
           (Errorf ''waiting transition requires waiting attempt and durable wait generation'')
       | InvocationRunning \<Rightarrow> fail_if (tic_AttemptTo c \<noteq> AttemptRunning)
           (Errorf ''running invocation requires running attempt'')
       | InvocationSucceeded \<Rightarrow>
           fail_if (tic_AttemptTo c \<noteq> AttemptSucceeded \<or> \<not> ValidDigest (tic_OutputRefsDigest c) \<or> tic_Failure c \<noteq> None)
             (Errorf ''success transition requires succeeded attempt and output refs digest'')
       | InvocationRetryWait \<Rightarrow> first_error
           [fail_if (tic_AttemptTo c \<noteq> AttemptFailed \<or>
                     (case tic_RetryAt c of None \<Rightarrow> True | Some t \<Rightarrow> \<not> After t (af_At (tic_Fence c))))
              (Errorf ''retry transition requires failed attempt and future retry time''),
            validateFailure (tic_Failure c) True]
       | InvocationFailed \<Rightarrow> first_error
           [fail_if (tic_AttemptTo c \<noteq> AttemptFailed \<and> tic_AttemptTo c \<noteq> AttemptAbandoned)
              (Errorf ''failed invocation requires failed or abandoned attempt''),
            validateFailure (tic_Failure c) True]
       | InvocationCanceled \<Rightarrow> fail_if (tic_AttemptTo c \<noteq> AttemptCanceled \<and> tic_AttemptTo c \<noteq> AttemptAbandoned)
           (Errorf ''canceled invocation requires canceled or abandoned attempt'')
       | _ \<Rightarrow> Some (Errorf ''leased attempt cannot perform this invocation transition'')),
      fail_if (tic_To c \<noteq> InvocationWaiting \<and> (tic_WaitRef c \<noteq> [] \<or> tic_WaitGeneration c \<noteq> 0))
        (Errorf ''wait identity is only valid for waiting transition''),
      fail_if (tic_To c \<noteq> InvocationRetryWait \<and> tic_RetryAt c \<noteq> None)
        (Errorf ''retry time is only valid for retry-wait transition'')]"

text \<open>An attempt that ends: terminal status, finish time, no lease.\<close>

definition finish_attempt :: "AttemptStatus \<Rightarrow> instant \<Rightarrow> Attempt \<Rightarrow> Attempt" where
  "finish_attempt status at a = a\<lparr>att_Status := status, att_Revision := att_Revision a + 1, att_UpdatedAt := at,
     att_FinishedAt := Some at, att_LeaseExpiresAt := zero_time\<rparr>"

definition transitioned_attempt :: "TransitionInvocationCommand \<Rightarrow> Attempt \<Rightarrow> Attempt" where
  "transitioned_attempt c a =
     (if AttemptStatus_Terminal (tic_AttemptTo c)
      then (finish_attempt (tic_AttemptTo c) (af_At (tic_Fence c)) a)\<lparr>att_Failure := tic_Failure c\<rparr>
      else a\<lparr>att_Status := tic_AttemptTo c, att_Revision := att_Revision a + 1, att_UpdatedAt := af_At (tic_Fence c),
             att_Failure := tic_Failure c\<rparr>)"

definition transitioned_invocation :: "TransitionInvocationCommand \<Rightarrow> Invocation \<Rightarrow> Invocation" where
  "transitioned_invocation c v = v\<lparr>
     inv_Status := tic_To c, inv_Revision := inv_Revision v + 1, inv_UpdatedAt := af_At (tic_Fence c),
     inv_CurrentWaitRef := (if tic_To c = InvocationWaiting then tic_WaitRef c else []),
     inv_WaitGeneration := (if tic_To c = InvocationWaiting then tic_WaitGeneration c else 0),
     inv_NextAttemptAt := (if tic_To c = InvocationRetryWait then tic_RetryAt c else None),
     inv_ActiveAttemptID := (if tic_To c = InvocationRetryWait \<or> InvocationStatus_Terminal (tic_To c) then []
                             else inv_ActiveAttemptID v),
     inv_OutputRefsDigest := (if tic_To c = InvocationSucceeded then tic_OutputRefsDigest c else inv_OutputRefsDigest v),
     inv_PrimaryFailure := (if tic_To c = InvocationFailed \<or> tic_To c = InvocationRetryWait then tic_Failure c
                            else inv_PrimaryFailure v),
     inv_FinishedAt := (if InvocationStatus_Terminal (tic_To c) then Some (af_At (tic_Fence c)) else inv_FinishedAt v)\<rparr>"

definition change_attempt :: "nat \<Rightarrow> (Attempt \<Rightarrow> Attempt) \<Rightarrow> InvocationLedger \<Rightarrow> InvocationLedger" where
  "change_attempt i f l = l\<lparr>led_Attempts := (led_Attempts l)[i := f (led_Attempts l ! i)]\<rparr>"

definition change_invocation :: "(Invocation \<Rightarrow> Invocation) \<Rightarrow> InvocationLedger \<Rightarrow> InvocationLedger" where
  "change_invocation f l = l\<lparr>led_Invocation := f (led_Invocation l)\<rparr>"

definition transitioned_ledger :: "InvocationLedger \<Rightarrow> TransitionInvocationCommand \<Rightarrow> nat \<Rightarrow> InvocationLedger" where
  "transitioned_ledger l c i = change_invocation (transitioned_invocation c) (change_attempt i (transitioned_attempt c) l)"

definition TransitionInvocation :: "InvocationLedger \<Rightarrow> TransitionInvocationCommand \<Rightarrow> InvocationDecision result" where
  "TransitionInvocation l c =
     ensure (ValidateInvocationLedger l) (
     andThen (validateAttemptFenceForPhase l (tic_Fence c) AttemptExecution) (\<lambda>i.
     ensure (validateIdentity (tic_CommandID c)) (
     ensure (ValidateInvocationTransition (inv_Status (led_Invocation l)) (tic_To c)) (
     ensure (ValidateAttemptTransition (att_Status (led_Attempts l ! i)) (tic_AttemptTo c)) (
     ensure (validateAlignedTransition c) (
     ensure (ValidateInvocationLedger (transitioned_ledger l c i)) (
     invocation_event (transitioned_ledger l c i) (''invocation.'' @ InvocationStatus_string (tic_To c))
       (tic_CommandID c) (af_At (tic_Fence c))
       [(''from'', JStr (InvocationStatus_string (inv_Status (led_Invocation l)))),
        (''to'', JStr (InvocationStatus_string (tic_To c))),
        (''attemptId'', JStr (att_AttemptID (led_Attempts l ! i))),
        (''attemptFrom'', JStr (AttemptStatus_string (att_Status (led_Attempts l ! i)))),
        (''attemptTo'', JStr (AttemptStatus_string (tic_AttemptTo c)))])))))))"

section \<open>Resolution of waits\<close>

definition waited_attempt :: "InvocationLedger \<Rightarrow> ResolveInvocationWaitCommand \<Rightarrow> nat result" where
  "waited_attempt l c =
     (case attempt_index (led_Attempts l) (rwc_AttemptID c) of
        None \<Rightarrow> Inl (ErrRevisionConflict ExecutionPkg)
      | Some i \<Rightarrow>
          if att_AttemptID (led_Attempts l ! i) \<noteq> inv_ActiveAttemptID (led_Invocation l) \<or>
             att_Phase (led_Attempts l ! i) \<noteq> AttemptExecution \<or> att_Status (led_Attempts l ! i) \<noteq> AttemptWaiting \<or>
             att_Revision (led_Attempts l ! i) \<noteq> rwc_ExpectedAttemptRevision c
          then Inl (ErrRevisionConflict ExecutionPkg) else Inr i)"

definition wait_outcome :: "ResolveInvocationWaitCommand \<Rightarrow> AttemptStatus result" where
  "wait_outcome c =
     andThen (case rwc_To c of
         InvocationSucceeded \<Rightarrow>
           if \<not> ValidDigest (rwc_OutputRefsDigest c) \<or> rwc_Failure c \<noteq> None
           then Inl (Errorf ''successful wait resolution requires output digest and no failure'') else Inr AttemptSucceeded
       | InvocationFailed \<Rightarrow> ensure (validateFailure (rwc_Failure c) True) (Inr AttemptFailed)
       | InvocationCanceled \<Rightarrow>
           if rwc_Failure c \<noteq> None \<or> rwc_OutputRefsDigest c \<noteq> []
           then Inl (Errorf ''canceled wait resolution cannot carry output or failure'') else Inr AttemptCanceled
       | _ \<Rightarrow> Inl (ErrInvalidTransition ExecutionPkg))
     (\<lambda>status. if rwc_To c \<noteq> InvocationSucceeded \<and> rwc_OutputRefsDigest c \<noteq> []
        then Inl (Errorf ''non-successful wait resolution cannot carry output'') else Inr status)"

definition validateWaitResolution :: "InvocationLedger \<Rightarrow> ResolveInvocationWaitCommand \<Rightarrow> error option" where
  "validateWaitResolution l c = first_error
     [ValidateInvocationLedger l,
      fail_if (rwc_InvocationID c \<noteq> inv_InvocationID (led_Invocation l) \<or> rwc_ExpectedRevision c \<noteq> inv_Revision (led_Invocation l))
        (ErrRevisionConflict ExecutionPkg),
      fail_if (inv_Status (led_Invocation l) \<noteq> InvocationWaiting \<or> rwc_WaitRef c \<noteq> inv_CurrentWaitRef (led_Invocation l) \<or>
               rwc_WaitGeneration c \<noteq> inv_WaitGeneration (led_Invocation l) \<or> rwc_WaitGeneration c = 0)
        (ErrInvalidTransition ExecutionPkg),
      fail_if (IsZero (rwc_At c) \<or> Before (rwc_At c) (inv_UpdatedAt (led_Invocation l)))
        (Errorf ''wait resolution time is missing or moves backwards''),
      validateIdentity (rwc_CommandID c)]"

definition resolved_invocation :: "ResolveInvocationWaitCommand \<Rightarrow> Invocation \<Rightarrow> Invocation" where
  "resolved_invocation c v = v\<lparr>inv_Status := rwc_To c, inv_ActiveAttemptID := [], inv_CurrentWaitRef := [],
     inv_WaitGeneration := 0, inv_OutputRefsDigest := rwc_OutputRefsDigest c, inv_PrimaryFailure := rwc_Failure c,
     inv_UpdatedAt := rwc_At c, inv_FinishedAt := Some (rwc_At c), inv_Revision := inv_Revision v + 1\<rparr>"

definition resolved_ledger ::
  "InvocationLedger \<Rightarrow> ResolveInvocationWaitCommand \<Rightarrow> nat \<Rightarrow> AttemptStatus \<Rightarrow> InvocationLedger" where
  "resolved_ledger l c i status = change_invocation (resolved_invocation c)
     (change_attempt i (\<lambda>a. (finish_attempt status (rwc_At c) a)\<lparr>att_Failure := rwc_Failure c\<rparr>) l)"

definition ResolveInvocationWait :: "InvocationLedger \<Rightarrow> ResolveInvocationWaitCommand \<Rightarrow> InvocationDecision result" where
  "ResolveInvocationWait l c =
     ensure (validateWaitResolution l c) (
     andThen (waited_attempt l c) (\<lambda>i.
     andThen (wait_outcome c) (\<lambda>status.
     ensure (ValidateInvocationLedger (resolved_ledger l c i status)) (
     invocation_event (resolved_ledger l c i status) (''invocation.wait-resolved.'' @ InvocationStatus_string (rwc_To c))
       (rwc_CommandID c) (rwc_At c)
       [(''waitRef'', JStr (rwc_WaitRef c)), (''waitGeneration'', JU32 (rwc_WaitGeneration c)),
        (''attemptId'', JStr (att_AttemptID (led_Attempts l ! i))),
        (''attemptRevision'', JU64 (att_Revision (led_Attempts l ! i) + 1))]))))"

section \<open>Heartbeats and expiry\<close>

definition heartbeat_attempt :: "HeartbeatAttemptCommand \<Rightarrow> Attempt \<Rightarrow> Attempt" where
  "heartbeat_attempt c a = a\<lparr>att_LeaseExpiresAt := hac_LeaseExpiresAt c, att_UpdatedAt := af_At (hac_Fence c),
     att_Revision := att_Revision a + 1\<rparr>"

definition heartbeat_ledger :: "InvocationLedger \<Rightarrow> HeartbeatAttemptCommand \<Rightarrow> nat \<Rightarrow> InvocationLedger" where
  "heartbeat_ledger l c i = change_invocation
     (\<lambda>v. v\<lparr>inv_UpdatedAt := af_At (hac_Fence c), inv_Revision := inv_Revision v + 1\<rparr>)
     (change_attempt i (heartbeat_attempt c) l)"

definition validateHeartbeat :: "HeartbeatAttemptCommand \<Rightarrow> Attempt \<Rightarrow> error option" where
  "validateHeartbeat c a = first_error
     [fail_if (att_Status a \<noteq> AttemptRunning \<and> att_Status a \<noteq> AttemptWaiting) (ErrLeaseConflict ExecutionPkg),
      fail_if (hac_OwnerRef c \<noteq> att_OwnerRef a \<or> \<not> After (hac_LeaseExpiresAt c) (att_LeaseExpiresAt a))
        (ErrLeaseConflict ExecutionPkg),
      validateIdentity (hac_CommandID c)]"

definition HeartbeatAttempt :: "InvocationLedger \<Rightarrow> HeartbeatAttemptCommand \<Rightarrow> InvocationDecision result" where
  "HeartbeatAttempt l c =
     ensure (ValidateInvocationLedger l) (
     andThen (validateAttemptFenceAny l (hac_Fence c)) (\<lambda>i.
     ensure (validateHeartbeat c (led_Attempts l ! i)) (
     andThen (time_json (hac_LeaseExpiresAt c)) (\<lambda>expires.
     invocation_event (heartbeat_ledger l c i) ''attempt.heartbeat'' (hac_CommandID c) (af_At (hac_Fence c))
       [(''attemptId'', JStr (att_AttemptID (led_Attempts l ! i))),
        (''attemptRevision'', JU64 (att_Revision (led_Attempts l ! i) + 1)),
        (''leaseExpiresAt'', expires)]))))"

definition validateExpiry :: "InvocationLedger \<Rightarrow> ExpireInvocationAttemptCommand \<Rightarrow> error option" where
  "validateExpiry l c = first_error
     [ValidateInvocationLedger l,
      fail_if (eic_InvocationID c \<noteq> inv_InvocationID (led_Invocation l) \<or> eic_ExpectedRevision c \<noteq> inv_Revision (led_Invocation l))
        (ErrRevisionConflict ExecutionPkg),
      fail_if (inv_Status (led_Invocation l) \<noteq> InvocationRunning \<and> inv_Status (led_Invocation l) \<noteq> InvocationWaiting)
        (ErrInvalidTransition ExecutionPkg),
      fail_if (eic_AttemptID c \<noteq> inv_ActiveAttemptID (led_Invocation l) \<or> IsZero (eic_At c) \<or>
               Before (eic_At c) (inv_UpdatedAt (led_Invocation l)))
        (ErrLeaseConflict ExecutionPkg),
      validateIdentity (eic_CommandID c),
      validateFailure (Some (eic_Failure c)) True]"

definition expired_attempt :: "InvocationLedger \<Rightarrow> ExpireInvocationAttemptCommand \<Rightarrow> nat result" where
  "expired_attempt l c =
     (case attempt_index (led_Attempts l) (eic_AttemptID c) of
        None \<Rightarrow> Inl (ErrLeaseConflict ExecutionPkg)
      | Some i \<Rightarrow>
          if att_Phase (led_Attempts l ! i) \<noteq> AttemptExecution \<or>
             att_Revision (led_Attempts l ! i) \<noteq> eic_ExpectedAttemptRevision c \<or>
             AttemptStatus_Terminal (att_Status (led_Attempts l ! i)) \<or>
             Before (eic_At c) (att_LeaseExpiresAt (led_Attempts l ! i))
          then Inl (ErrLeaseConflict ExecutionPkg) else Inr i)"

definition expired_invocation :: "ExpireInvocationAttemptCommand \<Rightarrow> Invocation \<Rightarrow> Invocation" where
  "expired_invocation c v =
     (\<lambda>w. if eic_Retry c then w\<lparr>inv_Status := InvocationReady\<rparr>
          else w\<lparr>inv_Status := InvocationFailed, inv_PrimaryFailure := Some (eic_Failure c), inv_FinishedAt := Some (eic_At c)\<rparr>)
     (v\<lparr>inv_ActiveAttemptID := [], inv_CurrentWaitRef := [], inv_WaitGeneration := 0, inv_UpdatedAt := eic_At c,
        inv_Revision := inv_Revision v + 1\<rparr>)"

definition expired_ledger :: "InvocationLedger \<Rightarrow> ExpireInvocationAttemptCommand \<Rightarrow> nat \<Rightarrow> InvocationLedger" where
  "expired_ledger l c i = change_invocation (expired_invocation c)
     (change_attempt i (\<lambda>a. (finish_attempt AttemptAbandoned (eic_At c) a)\<lparr>att_Failure := Some (eic_Failure c)\<rparr>) l)"

definition ExpireInvocationAttempt :: "InvocationLedger \<Rightarrow> ExpireInvocationAttemptCommand \<Rightarrow> InvocationDecision result" where
  "ExpireInvocationAttempt l c =
     ensure (validateExpiry l c) (
     andThen (expired_attempt l c) (\<lambda>i.
     ensure (ValidateInvocationLedger (expired_ledger l c i)) (
     invocation_event (expired_ledger l c i) ''invocation.attempt-expired'' (eic_CommandID c) (eic_At c)
       [(''attemptId'', JStr (att_AttemptID (led_Attempts l ! i))),
        (''attemptRevision'', JU64 (att_Revision (led_Attempts l ! i) + 1)),
        (''retry'', JBool (eic_Retry c))])))"

section \<open>Resolution without a lease, and cancellation\<close>

definition validateUnleased :: "InvocationLedger \<Rightarrow> ResolveUnleasedInvocationCommand \<Rightarrow> error option" where
  "validateUnleased l c = first_error
     [ValidateInvocationLedger l,
      fail_if (ruc_InvocationID c \<noteq> inv_InvocationID (led_Invocation l) \<or> ruc_ExpectedRevision c \<noteq> inv_Revision (led_Invocation l))
        (ErrRevisionConflict ExecutionPkg),
      fail_if (IsZero (ruc_At c) \<or> Before (ruc_At c) (inv_UpdatedAt (led_Invocation l)))
        (Errorf ''unleased resolution time is missing or moves backwards''),
      validateIdentity (ruc_CommandID c),
      fail_if (\<not> ((inv_Status (led_Invocation l) = InvocationReady \<and> ruc_To c \<in> {InvocationSkipped, InvocationCanceled}) \<or>
                  (inv_Status (led_Invocation l) = InvocationRetryWait \<and> ruc_To c \<in> {InvocationFailed, InvocationCanceled})))
        (ErrInvalidTransition ExecutionPkg),
      validateFailure (ruc_Failure c) (ruc_To c = InvocationFailed),
      fail_if (ruc_To c \<noteq> InvocationFailed \<and> ruc_Failure c \<noteq> None)
        (Errorf ''only failed unleased invocation can carry failure'')]"

definition unleased_invocation :: "ResolveUnleasedInvocationCommand \<Rightarrow> Invocation \<Rightarrow> Invocation" where
  "unleased_invocation c v = v\<lparr>inv_Status := ruc_To c, inv_ActiveAttemptID := [], inv_NextAttemptAt := None,
     inv_PrimaryFailure := ruc_Failure c,
     inv_CompensationStatus := (if ruc_To c = InvocationSkipped \<and> inv_CompensationStatus v = CompensationUnscheduled
                                then CompensationNotRequired else inv_CompensationStatus v),
     inv_UpdatedAt := ruc_At c, inv_Revision := inv_Revision v + 1, inv_FinishedAt := Some (ruc_At c)\<rparr>"

definition ResolveUnleasedInvocation ::
  "InvocationLedger \<Rightarrow> ResolveUnleasedInvocationCommand \<Rightarrow> InvocationDecision result" where
  "ResolveUnleasedInvocation l c =
     ensure (validateUnleased l c) (
     ensure (ValidateInvocationLedger (change_invocation (unleased_invocation c) l)) (
     invocation_event (change_invocation (unleased_invocation c) l) (''invocation.'' @ InvocationStatus_string (ruc_To c))
       (ruc_CommandID c) (ruc_At c)
       [(''from'', JStr (InvocationStatus_string (inv_Status (led_Invocation l)))),
        (''to'', JStr (InvocationStatus_string (ruc_To c))), (''leased'', JBool False)]))"

definition validateCancellation :: "InvocationLedger \<Rightarrow> CancelInvocationCommand \<Rightarrow> error option" where
  "validateCancellation l c = first_error
     [ValidateInvocationLedger l,
      fail_if (cnc_InvocationID c \<noteq> inv_InvocationID (led_Invocation l) \<or> cnc_ExpectedRevision c \<noteq> inv_Revision (led_Invocation l) \<or>
               cnc_RunID c \<noteq> inv_RunID (led_Invocation l))
        (ErrRevisionConflict ExecutionPkg),
      fail_if (InvocationStatus_Terminal (inv_Status (led_Invocation l))) (ErrInvalidTransition ExecutionPkg),
      fail_if (cnc_RunRevision c = 0 \<or> IsZero (cnc_At c) \<or> Before (cnc_At c) (inv_UpdatedAt (led_Invocation l)))
        (Errorf ''invocation cancellation fence or time is invalid''),
      validateIdentity (cnc_TerminationCommandID c), validateIdentity (cnc_CommandID c)]"

definition cancel_active :: "InvocationLedger \<Rightarrow> instant \<Rightarrow> InvocationLedger result" where
  "cancel_active l at =
     (if inv_ActiveAttemptID (led_Invocation l) = [] then Inr l
      else case attempt_index (led_Attempts l) (inv_ActiveAttemptID (led_Invocation l)) of
          None \<Rightarrow> Inl (ErrLeaseConflict ExecutionPkg)
        | Some i \<Rightarrow>
            if AttemptStatus_Terminal (att_Status (led_Attempts l ! i)) then Inl (ErrLeaseConflict ExecutionPkg)
            else Inr (change_attempt i (finish_attempt AttemptCanceled at) l))"

definition canceled_invocation :: "instant \<Rightarrow> Invocation \<Rightarrow> Invocation" where
  "canceled_invocation at v = v\<lparr>inv_Status := InvocationCanceled, inv_ActiveAttemptID := [], inv_CurrentWaitRef := [],
     inv_WaitGeneration := 0, inv_NextAttemptAt := None, inv_PrimaryFailure := None,
     inv_CompensationStatus := (if inv_CompensationStatus v = CompensationUnscheduled then CompensationCanceled
                                else inv_CompensationStatus v),
     inv_UpdatedAt := at, inv_Revision := inv_Revision v + 1, inv_FinishedAt := Some at\<rparr>"

definition CancelInvocation :: "InvocationLedger \<Rightarrow> CancelInvocationCommand \<Rightarrow> InvocationDecision result" where
  "CancelInvocation l c =
     ensure (validateCancellation l c) (
     andThen (cancel_active l (cnc_At c)) (\<lambda>m.
     ensure (ValidateInvocationLedger (change_invocation (canceled_invocation (cnc_At c)) m)) (
     invocation_event (change_invocation (canceled_invocation (cnc_At c)) m) ''invocation.canceled'' (cnc_CommandID c) (cnc_At c)
       [(''runId'', JStr (cnc_RunID c)), (''runRevision'', JU64 (cnc_RunRevision c)),
        (''terminationCommandId'', JStr (cnc_TerminationCommandID c))])))"

section \<open>Compensation\<close>

definition validateSchedule :: "InvocationLedger \<Rightarrow> ScheduleInvocationCompensationCommand \<Rightarrow> error option" where
  "validateSchedule l c = first_error
     [ValidateInvocationLedger l,
      fail_if (sic_InvocationID c \<noteq> inv_InvocationID (led_Invocation l) \<or> sic_ExpectedRevision c \<noteq> inv_Revision (led_Invocation l))
        (ErrRevisionConflict ExecutionPkg),
      fail_if (\<not> InvocationStatus_Terminal (inv_Status (led_Invocation l)) \<or> inv_Status (led_Invocation l) = InvocationSkipped \<or>
               inv_CompensationStatus (led_Invocation l) \<noteq> CompensationUnscheduled)
        (ErrInvalidTransition ExecutionPkg),
      fail_if (IsZero (sic_At c) \<or> Before (sic_At c) (inv_UpdatedAt (led_Invocation l)))
        (Errorf ''compensation scheduling time is missing or moves backwards''),
      validateIdentity (sic_CommandID c)]"

definition scheduled_ledger :: "InvocationLedger \<Rightarrow> instant \<Rightarrow> InvocationLedger" where
  "scheduled_ledger l at = change_invocation
     (\<lambda>v. v\<lparr>inv_CompensationStatus := CompensationReady, inv_UpdatedAt := at, inv_Revision := inv_Revision v + 1\<rparr>) l"

definition add_intent :: "DurableIntent \<Rightarrow> InvocationDecision \<Rightarrow> InvocationDecision" where
  "add_intent i d = d\<lparr>idn_Intents := [i]\<rparr>"

definition ScheduleInvocationCompensation ::
  "InvocationLedger \<Rightarrow> ScheduleInvocationCompensationCommand \<Rightarrow> InvocationDecision result" where
  "ScheduleInvocationCompensation l c =
     ensure (validateSchedule l c) (
     (\<lambda>next. (\<lambda>payload.
        andThen (newDurableIntent IntentCleanup (inv_InvocationID (led_Invocation next)) (inv_Revision (led_Invocation next)) payload)
          (\<lambda>intent. andThen (invocation_event next ''invocation.compensation.ready'' (sic_CommandID c) (sic_At c) payload)
             (\<lambda>d. Inr (add_intent intent d))))
        [(''invocationId'', JStr (inv_InvocationID (led_Invocation next))),
         (''invocationRevision'', JU64 (inv_Revision (led_Invocation next)))])
     (scheduled_ledger l (sic_At c)))"

definition validateCompensationClaim :: "InvocationLedger \<Rightarrow> ClaimCompensationCommand \<Rightarrow> error option" where
  "validateCompensationClaim l c = first_error
     [ValidateInvocationLedger l,
      fail_if (ccc_InvocationID c \<noteq> inv_InvocationID (led_Invocation l) \<or> ccc_ExpectedRevision c \<noteq> inv_Revision (led_Invocation l))
        (ErrRevisionConflict ExecutionPkg),
      fail_if (inv_CompensationStatus (led_Invocation l) \<noteq> CompensationReady \<and>
               inv_CompensationStatus (led_Invocation l) \<noteq> CompensationRetryWait)
        (ErrInvalidTransition ExecutionPkg),
      fail_if (inv_CompensationStatus (led_Invocation l) = CompensationRetryWait \<and>
               (case inv_CompensationNextAt (led_Invocation l) of None \<Rightarrow> True | Some t \<Rightarrow> Before (ccc_At c) t))
        (ErrInvalidTransition ExecutionPkg),
      fail_if (IsZero (ccc_At c) \<or> Before (ccc_At c) (inv_UpdatedAt (led_Invocation l)) \<or> \<not> After (ccc_LeaseExpiresAt c) (ccc_At c))
        (Errorf ''compensation claim times are invalid''),
      validateIdentity (ccc_OwnerRef c), validateIdentity (ccc_CommandID c)]"

definition compensation_claimed :: "InvocationLedger \<Rightarrow> Attempt \<Rightarrow> instant \<Rightarrow> InvocationLedger" where
  "compensation_claimed l a at = l\<lparr>
     led_Attempts := led_Attempts l @ [a],
     led_Invocation := (led_Invocation l)\<lparr>inv_CompensationStatus := CompensationRunning,
       inv_ActiveCompensationAttemptID := att_AttemptID a, inv_CompensationAttemptCount := att_Ordinal a,
       inv_CompensationFailure := None, inv_CompensationNextAt := None, inv_UpdatedAt := at,
       inv_Revision := inv_Revision (led_Invocation l) + 1\<rparr>\<rparr>"

definition ClaimCompensation :: "InvocationLedger \<Rightarrow> ClaimCompensationCommand \<Rightarrow> InvocationDecision result" where
  "ClaimCompensation l c =
     ensure (validateCompensationClaim l c) (
     andThen (PrivateTokenDigest (ccc_LeaseToken c)) (\<lambda>leaseHash.
       (\<lambda>a. ensure (ValidateInvocationLedger (compensation_claimed l a (ccc_At c))) (
              andThen (time_json (ccc_LeaseExpiresAt c)) (\<lambda>expires.
              invocation_event (compensation_claimed l a (ccc_At c)) ''invocation.compensation.claimed'' (ccc_CommandID c) (ccc_At c)
                (claim_payload a expires))))
       (new_attempt (led_Invocation l) AttemptCompensation (inv_CompensationAttemptCount (led_Invocation l) + 1)
          (ccc_OwnerRef c) leaseHash (ccc_LeaseExpiresAt c) (ccc_At c))))"

definition validateInvocationCompensationTransition ::
  "CompensationStatus \<Rightarrow> AttemptStatus \<Rightarrow> TransitionInvocationCompensationCommand \<Rightarrow> error option" where
  "validateInvocationCompensationTransition from attemptFrom c = first_error
     [fail_if (from \<noteq> CompensationRunning) (ErrInvalidTransition ExecutionPkg),
      ValidateAttemptTransition attemptFrom (tcc_AttemptTo c),
      (case tcc_To c of
         CompensationSucceeded \<Rightarrow>
           fail_if (tcc_AttemptTo c \<noteq> AttemptSucceeded \<or> tcc_Failure c \<noteq> None \<or> tcc_RetryAt c \<noteq> None)
             (Errorf ''successful compensation requires a succeeded attempt'')
       | CompensationRetryWait \<Rightarrow> first_error
           [fail_if (tcc_AttemptTo c \<noteq> AttemptFailed \<or>
                     (case tcc_RetryAt c of None \<Rightarrow> True | Some t \<Rightarrow> \<not> After t (af_At (tcc_Fence c))))
              (Errorf ''compensation retry requires failed attempt and future retry time''),
            fail_if (validateFailure (tcc_Failure c) True \<noteq> None \<or>
                     (case tcc_Failure c of None \<Rightarrow> True | Some f \<Rightarrow> fail_Class f \<noteq> FailureTransient))
              (Errorf ''compensation retry requires a transient failure'')]
       | CompensationFailed \<Rightarrow> first_error
           [fail_if (tcc_AttemptTo c \<noteq> AttemptFailed \<and> tcc_AttemptTo c \<noteq> AttemptAbandoned)
              (Errorf ''failed compensation requires failed or abandoned attempt''),
            validateFailure (tcc_Failure c) True,
            fail_if (tcc_RetryAt c \<noteq> None) (Errorf ''terminal compensation failure cannot carry retry time'')]
       | CompensationCanceled \<Rightarrow> first_error
           [fail_if (tcc_AttemptTo c \<noteq> AttemptCanceled \<and> tcc_AttemptTo c \<noteq> AttemptAbandoned)
              (Errorf ''canceled compensation requires canceled or abandoned attempt''),
            fail_if (tcc_Failure c \<noteq> None \<or> tcc_RetryAt c \<noteq> None)
              (Errorf ''canceled compensation cannot carry failure or retry time'')]
       | _ \<Rightarrow> Some (ErrInvalidTransition ExecutionPkg))]"

definition compensated_invocation :: "TransitionInvocationCompensationCommand \<Rightarrow> Invocation \<Rightarrow> Invocation" where
  "compensated_invocation c v = v\<lparr>inv_CompensationStatus := tcc_To c, inv_ActiveCompensationAttemptID := [],
     inv_CompensationFailure := tcc_Failure c, inv_CompensationNextAt := tcc_RetryAt c,
     inv_UpdatedAt := af_At (tcc_Fence c), inv_Revision := inv_Revision v + 1\<rparr>"

definition compensated_ledger :: "InvocationLedger \<Rightarrow> TransitionInvocationCompensationCommand \<Rightarrow> nat \<Rightarrow> InvocationLedger" where
  "compensated_ledger l c i = change_invocation (compensated_invocation c)
     (change_attempt i (\<lambda>a. (finish_attempt (tcc_AttemptTo c) (af_At (tcc_Fence c)) a)\<lparr>att_Failure := tcc_Failure c\<rparr>) l)"

definition retry_intent :: "InvocationLedger \<Rightarrow> instant \<Rightarrow> DurableIntent result" where
  "retry_intent next retryAt =
     andThen (time_json retryAt) (\<lambda>t.
       newDurableIntent IntentCleanup (inv_InvocationID (led_Invocation next)) (inv_Revision (led_Invocation next))
         [(''invocationId'', JStr (inv_InvocationID (led_Invocation next))), (''retryAt'', t),
          (''invocationRevision'', JU64 (inv_Revision (led_Invocation next)))])"

definition compensation_intents ::
  "InvocationLedger \<Rightarrow> TransitionInvocationCompensationCommand \<Rightarrow> InvocationDecision \<Rightarrow> InvocationDecision result" where
  "compensation_intents next c d =
     (case tcc_RetryAt c of
        Some t \<Rightarrow> if tcc_To c = CompensationRetryWait then andThen (retry_intent next t) (\<lambda>i. Inr (add_intent i d)) else Inr d
      | None \<Rightarrow> Inr d)"

definition TransitionInvocationCompensation ::
  "InvocationLedger \<Rightarrow> TransitionInvocationCompensationCommand \<Rightarrow> InvocationDecision result" where
  "TransitionInvocationCompensation l c =
     ensure (ValidateInvocationLedger l) (
     andThen (validateAttemptFenceForPhase l (tcc_Fence c) AttemptCompensation) (\<lambda>i.
     ensure (validateIdentity (tcc_CommandID c)) (
     ensure (validateInvocationCompensationTransition (inv_CompensationStatus (led_Invocation l)) (att_Status (led_Attempts l ! i)) c) (
     ensure (ValidateInvocationLedger (compensated_ledger l c i)) (
     andThen (invocation_event (compensated_ledger l c i) (''invocation.compensation.'' @ CompensationStatus_string (tcc_To c))
       (tcc_CommandID c) (af_At (tcc_Fence c))
       [(''attemptId'', JStr (att_AttemptID (led_Attempts l ! i))),
        (''attemptStatus'', JStr (AttemptStatus_string (tcc_AttemptTo c))),
        (''compensationStatus'', JStr (CompensationStatus_string (tcc_To c)))])
     (compensation_intents (compensated_ledger l c i) c))))))"

section \<open>The reducer\<close>

datatype InvocationCommand =
    Claim ClaimInvocationCommand
  | Transition TransitionInvocationCommand
  | ResolveWait ResolveInvocationWaitCommand
  | Heartbeat HeartbeatAttemptCommand
  | Expire ExpireInvocationAttemptCommand
  | ResolveUnleased ResolveUnleasedInvocationCommand
  | Cancel CancelInvocationCommand
  | ScheduleCompensation ScheduleInvocationCompensationCommand
  | CompensationClaim ClaimCompensationCommand
  | CompensationTransition TransitionInvocationCompensationCommand

definition decide_invocation :: "InvocationLedger \<Rightarrow> InvocationCommand \<Rightarrow> InvocationDecision result" where
  "decide_invocation l cmd = (case cmd of
     Claim c \<Rightarrow> ClaimInvocation l c | Transition c \<Rightarrow> TransitionInvocation l c
   | ResolveWait c \<Rightarrow> ResolveInvocationWait l c | Heartbeat c \<Rightarrow> HeartbeatAttempt l c
   | Expire c \<Rightarrow> ExpireInvocationAttempt l c | ResolveUnleased c \<Rightarrow> ResolveUnleasedInvocation l c
   | Cancel c \<Rightarrow> CancelInvocation l c | ScheduleCompensation c \<Rightarrow> ScheduleInvocationCompensation l c
   | CompensationClaim c \<Rightarrow> ClaimCompensation l c
   | CompensationTransition c \<Rightarrow> TransitionInvocationCompensation l c)"

definition invocation_reduce :: "InvocationLedger \<Rightarrow> InvocationCommand \<Rightarrow> InvocationLedger result" where
  "invocation_reduce l cmd = andThen (decide_invocation l cmd) (\<lambda>d. Inr (idn_Ledger d))"

definition invocation_expects :: "InvocationCommand \<Rightarrow> u64" where
  "invocation_expects cmd = (case cmd of
     Claim c \<Rightarrow> cic_ExpectedRevision c | Transition c \<Rightarrow> af_InvocationRevision (tic_Fence c)
   | ResolveWait c \<Rightarrow> rwc_ExpectedRevision c | Heartbeat c \<Rightarrow> af_InvocationRevision (hac_Fence c)
   | Expire c \<Rightarrow> eic_ExpectedRevision c | ResolveUnleased c \<Rightarrow> ruc_ExpectedRevision c
   | Cancel c \<Rightarrow> cnc_ExpectedRevision c | ScheduleCompensation c \<Rightarrow> sic_ExpectedRevision c
   | CompensationClaim c \<Rightarrow> ccc_ExpectedRevision c
   | CompensationTransition c \<Rightarrow> af_InvocationRevision (tcc_Fence c))"

abbreviation ledger_revision :: "InvocationLedger \<Rightarrow> u64" where "ledger_revision l \<equiv> inv_Revision (led_Invocation l)"

end
