(* ===== verification/Invocation_Props.thy ===== *)
theory Invocation_Props
  imports Invocation_Reducer
begin

text \<open>
  What the operations on an invocation ledger preserve, and what they can never do. Every
  accepted operation is shown to be one step of a small relation on the list of attempts;
  invariants and history properties follow from the steps.
\<close>

section \<open>Attempts change one at a time\<close>

definition same_attempt :: "Attempt \<Rightarrow> Attempt \<Rightarrow> bool" where
  "same_attempt a b \<longleftrightarrow> att_AttemptID b = att_AttemptID a \<and> att_NamespaceID b = att_NamespaceID a \<and>
     att_RunID b = att_RunID a \<and> att_InvocationID b = att_InvocationID a \<and> att_Phase b = att_Phase a \<and>
     att_Ordinal b = att_Ordinal a \<and> att_ResolvedInputDigest b = att_ResolvedInputDigest a \<and>
     att_OwnerRef b = att_OwnerRef a \<and> att_LeaseTokenHash b = att_LeaseTokenHash a \<and>
     att_CreatedAt b = att_CreatedAt a \<and> att_StartedAt b = att_StartedAt a"

definition attempt_update :: "instant \<Rightarrow> Attempt \<Rightarrow> Attempt \<Rightarrow> bool" where
  "attempt_update at a b \<longleftrightarrow> same_attempt a b \<and> \<not> AttemptStatus_Terminal (att_Status a) \<and>
     att_Revision b = att_Revision a + 1 \<and> att_UpdatedAt b = at"

inductive attempts_step :: "instant \<Rightarrow> Attempt list \<Rightarrow> Attempt list \<Rightarrow> bool" for at where
  keep: "attempts_step at as as"
| update: "i < length as \<Longrightarrow> attempt_update at (as ! i) b \<Longrightarrow> attempts_step at as (as[i := b])"
| append: "att_Revision a = 1 \<Longrightarrow> att_CreatedAt a = at \<Longrightarrow> \<not> AttemptStatus_Terminal (att_Status a) \<Longrightarrow>
    attempts_step at as (as @ [a])"

definition invocation_identity :: "Invocation \<Rightarrow> string list" where
  "invocation_identity v = [inv_InvocationID v, inv_NamespaceID v, inv_RunID v, inv_NodeID v, inv_TypeRef v,
     inv_DescriptorDigest v, inv_ResolvedInputDigest v, inv_InputRefsDigest v]"

text \<open>Every live attempt is the one its phase's pointer names.\<close>

definition live_ok :: "InvocationLedger \<Rightarrow> bool" where
  "live_ok l \<longleftrightarrow> (\<forall>a \<in> set (led_Attempts l). \<not> AttemptStatus_Terminal (att_Status a) \<longrightarrow>
     active_id (led_Invocation l) (att_Phase a) = att_AttemptID a)"

definition bounded_attempts :: "InvocationLedger \<Rightarrow> bool" where
  "bounded_attempts l \<longleftrightarrow> (\<forall>a \<in> set (led_Attempts l). unat (att_Revision a) \<le> unat (ledger_revision l) \<and>
     att_CreatedAt a \<le> inv_UpdatedAt (led_Invocation l))"

definition ledger_inv :: "InvocationLedger \<Rightarrow> bool" where
  "ledger_inv l \<longleftrightarrow> ValidateInvocationLedger l = None \<and> live_ok l \<and> bounded_attempts l"

section \<open>Consequences of validity\<close>

lemma ledger_D:
  assumes "ValidateInvocationLedger l = None"
  shows "inv_Revision (led_Invocation l) \<noteq> 0"
    and "inv_Status (led_Invocation l) \<notin> {InvocationRunning, InvocationWaiting} \<Longrightarrow> inv_ActiveAttemptID (led_Invocation l) = []"
    and "validateInvocationCompensation (led_Invocation l) = None"
    and "validate_attempts (led_Invocation l) [] (0, 0) (led_Attempts l) = None"
    and "ValidIdentifier (inv_InvocationID (led_Invocation l))"
    and "inv_ActiveAttemptID (led_Invocation l) \<noteq> [] \<Longrightarrow>
      active_pointer_ok (led_Attempts l) AttemptExecution (inv_ActiveAttemptID (led_Invocation l))"
    and "inv_ActiveCompensationAttemptID (led_Invocation l) \<noteq> [] \<Longrightarrow>
      active_pointer_ok (led_Attempts l) AttemptCompensation (inv_ActiveCompensationAttemptID (led_Invocation l))"
    and "inv_CreatedAt (led_Invocation l) \<le> inv_UpdatedAt (led_Invocation l)"
    and "InvocationStatus_Valid (inv_Status (led_Invocation l))"
  using assms by (simp_all add: ValidateInvocationLedger_def)

lemma validate_attempts_D:
  assumes "validate_attempts v seen ord as = None"
  shows "\<forall>a \<in> set as. validateAttempt a v = None \<and> att_AttemptID a \<notin> set seen"
    and "distinct (map att_AttemptID as)"
  using assms
proof (induction as arbitrary: seen ord)
  case (Cons a as)
  {
    case 1
    then show ?case using Cons.IH(1) [of "att_AttemptID a # seen" "bump_ordinal (att_Phase a) ord"] by auto
  next
    case 2
    then show ?case using Cons.IH [of "att_AttemptID a # seen" "bump_ordinal (att_Phase a) ord"] by auto
  }
qed simp_all

lemma validateAttempt_D:
  assumes "validateAttempt a v = None"
  shows "AttemptPhase_Valid (att_Phase a)" and "att_Revision a \<noteq> 0"
    and "att_AttemptID a = identity_or_empty (StableAttemptID (inv_InvocationID v) (att_Phase a) (att_Ordinal a))"
    and "AttemptStatus_Terminal (att_Status a) = (att_FinishedAt a \<noteq> None)"
  using assms by (simp_all add: validateAttempt_def)

lemma attempt_id_nonempty:
  assumes "validateAttempt a v = None" and "ValidIdentifier (inv_InvocationID v)"
  shows "att_AttemptID a \<noteq> []"
proof -
  obtain i where i: "StableAttemptID (inv_InvocationID v) (att_Phase a) (att_Ordinal a) = Inr i"
    using StableAttemptID_ok validateAttempt_D(1) [OF assms(1)] assms(2) by blast
  then have "i \<noteq> []" by (auto simp: StableAttemptID_def stableID_def)
  with i validateAttempt_D(3) [OF assms(1)] show ?thesis by (simp add: identity_or_empty_def)
qed

lemma ledger_attempts:
  assumes "ValidateInvocationLedger l = None" and "a \<in> set (led_Attempts l)"
  shows "validateAttempt a (led_Invocation l) = None" and "att_AttemptID a \<noteq> []"
  using validate_attempts_D(1) [OF ledger_D(4) [OF assms(1)]] attempt_id_nonempty ledger_D(5) [OF assms(1)] assms(2) by auto

lemma ledger_distinct: "ValidateInvocationLedger l = None \<Longrightarrow> distinct (map att_AttemptID (led_Attempts l))"
  using validate_attempts_D(2) ledger_D(4) by blast

lemma attempt_index_Some:
  "attempt_index as ident = Some i \<Longrightarrow> i < length as \<and> att_AttemptID (as ! i) = ident"
  by (induction as arbitrary: i) (auto split: if_splits)

lemma invocation_event_Inr:
  assumes "invocation_event n ty c at p = Inr d"
  shows "idn_Ledger d = n" and "inv_Revision (led_Invocation n) \<noteq> 0" and "at \<noteq> 0" and "idn_Intents d = []"
    and "\<exists>e. idn_Events d = [e] \<and> ev_AggregateRevision e = inv_Revision (led_Invocation n)"
proof -
  obtain e where e: "newEvent ''invocation'' (inv_InvocationID (led_Invocation n)) (inv_Revision (led_Invocation n)) ty c at p = Inr e"
    and d: "d = \<lparr>idn_Ledger = n, idn_Events = [e], idn_Intents = []\<rparr>"
    using assms by (auto simp: invocation_event_def)
  show "idn_Ledger d = n" and "idn_Intents d = []" using d by simp_all
  show "inv_Revision (led_Invocation n) \<noteq> 0" and "at \<noteq> 0" using newEvent_fields(8,9) [OF e] by simp_all
  show "\<exists>e. idn_Events d = [e] \<and> ev_AggregateRevision e = inv_Revision (led_Invocation n)"
    using newEvent_fields(3) [OF e] d by simp
qed

lemma change_simps [simp]:
  "led_Invocation (change_attempt i f l) = led_Invocation l"
  "led_Attempts (change_invocation g l) = led_Attempts l"
  "led_Invocation (change_invocation g l) = g (led_Invocation l)"
  "led_Attempts (change_attempt i f l) = (led_Attempts l)[i := f (led_Attempts l ! i)]"
  by (simp_all add: change_attempt_def change_invocation_def)

lemma fence_index:
  assumes "validateAttemptFenceAny l f = Inr i"
  shows "i < length (led_Attempts l)" and "att_AttemptID (led_Attempts l ! i) = af_AttemptID f"
    and "fence_holds l f (led_Attempts l ! i)" and "af_InvocationRevision f = ledger_revision l"
    and "inv_UpdatedAt (led_Invocation l) \<le> af_At f"
  using assms attempt_index_Some
  by (auto simp: validateAttemptFenceAny_def split: option.splits if_splits)

lemma fence_phase:
  assumes "validateAttemptFenceForPhase l f p = Inr i"
  shows "validateAttemptFenceAny l f = Inr i" and "att_Phase (led_Attempts l ! i) = p"
  using assms by (auto simp: validateAttemptFenceForPhase_def split: if_splits)

text \<open>In a valid ledger the attempt that a phase's pointer names is live.\<close>

lemma find_distinct:
  "distinct (map att_AttemptID as) \<Longrightarrow> a \<in> set as \<Longrightarrow> findAttempt as (att_AttemptID a) = Some a"
  by (induction as) (auto simp: findAttempt_def)

lemma active_live:
  assumes "ValidateInvocationLedger l = None" and "a \<in> set (led_Attempts l)"
    and "active_id (led_Invocation l) (att_Phase a) = att_AttemptID a"
  shows "\<not> AttemptStatus_Terminal (att_Status a)"
proof -
  have ne: "att_AttemptID a \<noteq> []" and f: "findAttempt (led_Attempts l) (att_AttemptID a) = Some a"
    using ledger_attempts(2) find_distinct [OF ledger_distinct] assms(1,2) by blast+
  have "AttemptPhase_Valid (att_Phase a)" using validateAttempt_D(1) ledger_attempts(1) assms(1,2) by blast
  then show ?thesis
    using ledger_D(6,7) [OF assms(1)] assms(3) ne f
    by (auto simp: active_id_def active_pointer_ok_def AttemptPhase_Valid_def)
qed

lemma fence_live:
  assumes "ValidateInvocationLedger l = None" and "validateAttemptFenceAny l f = Inr i"
  shows "\<not> AttemptStatus_Terminal (att_Status (led_Attempts l ! i))"
    and "active_id (led_Invocation l) (att_Phase (led_Attempts l ! i)) = att_AttemptID (led_Attempts l ! i)"
proof -
  show *: "active_id (led_Invocation l) (att_Phase (led_Attempts l ! i)) = att_AttemptID (led_Attempts l ! i)"
    using fence_index(3) [OF assms(2)] by (simp add: fence_holds_def)
  show "\<not> AttemptStatus_Terminal (att_Status (led_Attempts l ! i))"
    by (rule active_live [OF assms(1) _ *]) (use fence_index(1) [OF assms(2)] in simp)
qed

section \<open>Every operation is one step\<close>

text \<open>
  \<open>step_facts\<close>: the identity of the invocation is kept, its revision advances by one and
  is not zero, its time does not go back, and the attempts make one step at that time.
\<close>

definition step_facts :: "InvocationLedger \<Rightarrow> InvocationLedger \<Rightarrow> bool" where
  "step_facts l t \<longleftrightarrow> ValidateInvocationLedger l = None \<and>
     invocation_identity (led_Invocation t) = invocation_identity (led_Invocation l) \<and>
     inv_CreatedAt (led_Invocation t) = inv_CreatedAt (led_Invocation l) \<and>
     ledger_revision t = ledger_revision l + 1 \<and> ledger_revision t \<noteq> 0 \<and>
     inv_UpdatedAt (led_Invocation l) \<le> inv_UpdatedAt (led_Invocation t) \<and>
     attempts_step (inv_UpdatedAt (led_Invocation t)) (led_Attempts l) (led_Attempts t)"

definition advances :: "instant \<Rightarrow> Invocation \<Rightarrow> Invocation \<Rightarrow> bool" where
  "advances at v w \<longleftrightarrow> invocation_identity w = invocation_identity v \<and> inv_CreatedAt w = inv_CreatedAt v \<and>
     inv_Revision w = inv_Revision v + 1 \<and> inv_UpdatedAt w = at"

lemma update_step:
  assumes "ValidateInvocationLedger l = None" and "i < length (led_Attempts l)"
    and "attempt_update at (led_Attempts l ! i) (f (led_Attempts l ! i))"
    and "advances at (led_Invocation l) (g (led_Invocation l))" and "inv_UpdatedAt (led_Invocation l) \<le> at"
    and "ledger_revision (change_invocation g (change_attempt i f l)) \<noteq> 0"
  shows "step_facts l (change_invocation g (change_attempt i f l))"
  using assms attempts_step.update [OF assms(2,3)] by (simp add: step_facts_def advances_def)

lemma keep_step:
  assumes "ValidateInvocationLedger l = None" and "advances at (led_Invocation l) (g (led_Invocation l))"
    and "inv_UpdatedAt (led_Invocation l) \<le> at" and "ledger_revision (change_invocation g l) \<noteq> 0"
  shows "step_facts l (change_invocation g l)"
  using assms attempts_step.keep by (simp add: step_facts_def advances_def)

lemma append_step:
  assumes "ValidateInvocationLedger l = None" and "att_Revision a = 1" and "att_CreatedAt a = at"
    and "\<not> AttemptStatus_Terminal (att_Status a)" and "led_Attempts t = led_Attempts l @ [a]"
    and "advances at (led_Invocation l) (led_Invocation t)" and "inv_UpdatedAt (led_Invocation l) \<le> at"
    and "ledger_revision t \<noteq> 0"
  shows "step_facts l t"
  using assms attempts_step.append [OF assms(2-4)] by (simp add: step_facts_def advances_def)

section \<open>Live attempts stay the ones the pointers name\<close>

lemma live_update:
  assumes "ValidateInvocationLedger l = None" and "live_ok l" and i: "i < length (led_Attempts l)"
    and act: "active_id (led_Invocation l) (att_Phase (led_Attempts l ! i)) = att_AttemptID (led_Attempts l ! i)"
    and same: "same_attempt (led_Attempts l ! i) b"
    and new: "\<not> AttemptStatus_Terminal (att_Status b) \<Longrightarrow> active_id w (att_Phase b) = att_AttemptID b"
    and other: "\<And>p. p \<noteq> att_Phase b \<Longrightarrow> AttemptPhase_Valid p \<Longrightarrow> active_id w p = active_id (led_Invocation l) p"
  shows "live_ok \<lparr>led_Invocation = w, led_Attempts = (led_Attempts l)[i := b]\<rparr>"
  unfolding live_ok_def
proof (intro ballI impI)
  fix a assume a: "a \<in> set (led_Attempts \<lparr>led_Invocation = w, led_Attempts = (led_Attempts l)[i := b]\<rparr>)"
    and live: "\<not> AttemptStatus_Terminal (att_Status a)"
  obtain j where j: "j < length (led_Attempts l)" "a = (led_Attempts l)[i := b] ! j"
    using a by (auto simp: in_set_conv_nth)
  show "active_id (led_Invocation \<lparr>led_Invocation = w, led_Attempts = (led_Attempts l)[i := b]\<rparr>) (att_Phase a) = att_AttemptID a"
  proof (cases "j = i")
    case True
    then show ?thesis using j i live new by simp
  next
    case False
    then have aj: "a = led_Attempts l ! j" using j by simp
    then have mem: "a \<in> set (led_Attempts l)" using j by simp
    then have old: "active_id (led_Invocation l) (att_Phase a) = att_AttemptID a"
      using assms(2) live by (simp add: live_ok_def)
    have ids: "att_AttemptID (led_Attempts l ! j) \<noteq> att_AttemptID (led_Attempts l ! i)"
      using ledger_distinct [OF assms(1)] False i j(1) by (auto simp: distinct_conv_nth)
    have "att_Phase a \<noteq> att_Phase b"
      using ids aj old act same by (auto simp: same_attempt_def)
    moreover have "AttemptPhase_Valid (att_Phase a)"
      using validateAttempt_D(1) ledger_attempts(1) [OF assms(1) mem] by blast
    ultimately show ?thesis using other old by simp
  qed
qed

lemma live_append:
  assumes "ValidateInvocationLedger l = None" and "live_ok l"
    and none: "active_id (led_Invocation l) (att_Phase a) = []"
    and new: "active_id w (att_Phase a) = att_AttemptID a"
    and other: "\<And>p. p \<noteq> att_Phase a \<Longrightarrow> AttemptPhase_Valid p \<Longrightarrow> active_id w p = active_id (led_Invocation l) p"
  shows "live_ok \<lparr>led_Invocation = w, led_Attempts = led_Attempts l @ [a]\<rparr>"
  unfolding live_ok_def
proof (intro ballI impI)
  fix b assume b: "b \<in> set (led_Attempts \<lparr>led_Invocation = w, led_Attempts = led_Attempts l @ [a]\<rparr>)"
    and live: "\<not> AttemptStatus_Terminal (att_Status b)"
  show "active_id (led_Invocation \<lparr>led_Invocation = w, led_Attempts = led_Attempts l @ [a]\<rparr>) (att_Phase b) = att_AttemptID b"
  proof (cases "b \<in> set (led_Attempts l)")
    case True
    then have old: "active_id (led_Invocation l) (att_Phase b) = att_AttemptID b" "att_AttemptID b \<noteq> []"
      using assms(1,2) live ledger_attempts(2) by (auto simp: live_ok_def)
    then have "att_Phase b \<noteq> att_Phase a" using none by auto
    moreover have "AttemptPhase_Valid (att_Phase b)"
      using validateAttempt_D(1) ledger_attempts(1) [OF assms(1) True] by blast
    ultimately show ?thesis using other old by simp
  next
    case False
    then show ?thesis using b new by simp
  qed
qed

lemma live_keep:
  assumes "live_ok l" and "\<And>p. active_id w p = active_id (led_Invocation l) p"
  shows "live_ok \<lparr>led_Invocation = w, led_Attempts = led_Attempts l\<rparr>"
  using assms by (simp add: live_ok_def)

lemma ledger_eta: "\<lparr>led_Invocation = led_Invocation t, led_Attempts = led_Attempts t\<rparr> = t"
  by simp

text \<open>
  The facts about one accepted operation: it is a step that consumed the revision it
  expected, it keeps \<open>live_ok\<close>, and the new ledger is valid.
\<close>

definition operation_ok :: "InvocationLedger \<Rightarrow> u64 \<Rightarrow> InvocationLedger \<Rightarrow> bool" where
  "operation_ok l expected t \<longleftrightarrow> step_facts l t \<and> expected = ledger_revision l \<and> (live_ok l \<longrightarrow> live_ok t) \<and>
     (bounded_attempts l \<longrightarrow> ValidateInvocationLedger t = None)"

lemma operation_update:
  assumes "ValidateInvocationLedger l = None" and "i < length (led_Attempts l)"
    and "active_id (led_Invocation l) (att_Phase (led_Attempts l ! i)) = att_AttemptID (led_Attempts l ! i)"
    and "attempt_update at (led_Attempts l ! i) (f (led_Attempts l ! i))"
    and "advances at (led_Invocation l) (g (led_Invocation l))" and "inv_UpdatedAt (led_Invocation l) \<le> at"
    and "t = change_invocation g (change_attempt i f l)"
    and "ledger_revision t \<noteq> 0" and "expected = ledger_revision l"
    and "\<not> AttemptStatus_Terminal (att_Status (f (led_Attempts l ! i))) \<Longrightarrow>
      active_id (g (led_Invocation l)) (att_Phase (led_Attempts l ! i)) = att_AttemptID (led_Attempts l ! i)"
    and "\<And>p. p \<noteq> att_Phase (led_Attempts l ! i) \<Longrightarrow> AttemptPhase_Valid p \<Longrightarrow>
      active_id (g (led_Invocation l)) p = active_id (led_Invocation l) p"
    and "bounded_attempts l \<Longrightarrow> ValidateInvocationLedger t = None"
  shows "operation_ok l expected t"
proof -
  have same: "same_attempt (led_Attempts l ! i) (f (led_Attempts l ! i))" using assms(4) by (simp add: attempt_update_def)
  then have ph: "att_Phase (f (led_Attempts l ! i)) = att_Phase (led_Attempts l ! i)"
    "att_AttemptID (f (led_Attempts l ! i)) = att_AttemptID (led_Attempts l ! i)" by (simp_all add: same_attempt_def)
  have "step_facts l t" unfolding assms(7)
    by (rule update_step [where at = at]) (use assms(1,2,4-6,8) in \<open>simp_all add: assms(7)\<close>)
  moreover have "live_ok t" if "live_ok l"
  proof -
    have "live_ok \<lparr>led_Invocation = g (led_Invocation l), led_Attempts = (led_Attempts l)[i := f (led_Attempts l ! i)]\<rparr>"
      by (rule live_update [OF assms(1) that assms(2,3) same]) (use assms(10,11) ph in auto)
    moreover have "t = \<lparr>led_Invocation = g (led_Invocation l), led_Attempts = (led_Attempts l)[i := f (led_Attempts l ! i)]\<rparr>"
      using assms(7) ledger_eta [of t] by simp
    ultimately show ?thesis by simp
  qed
  ultimately show ?thesis using assms(9,12) by (simp add: operation_ok_def)
qed

lemma operation_append:
  assumes "ValidateInvocationLedger l = None" and "att_Revision a = 1" and "att_CreatedAt a = at"
    and "\<not> AttemptStatus_Terminal (att_Status a)" and "led_Attempts t = led_Attempts l @ [a]"
    and "advances at (led_Invocation l) (led_Invocation t)" and "inv_UpdatedAt (led_Invocation l) \<le> at"
    and "ledger_revision t \<noteq> 0" and "expected = ledger_revision l"
    and "active_id (led_Invocation l) (att_Phase a) = []"
    and "active_id (led_Invocation t) (att_Phase a) = att_AttemptID a"
    and "\<And>p. p \<noteq> att_Phase a \<Longrightarrow> AttemptPhase_Valid p \<Longrightarrow> active_id (led_Invocation t) p = active_id (led_Invocation l) p"
    and "ValidateInvocationLedger t = None"
  shows "operation_ok l expected t"
proof -
  have t: "t = \<lparr>led_Invocation = led_Invocation t, led_Attempts = led_Attempts l @ [a]\<rparr>"
    using assms(5) ledger_eta [of t] by simp
  have "live_ok t" if "live_ok l"
    by (subst t, rule live_append [OF assms(1) that assms(10,11)]) (use assms(12) in blast)
  then show ?thesis using append_step [OF assms(1-8)] assms(9,13) by (simp add: operation_ok_def)
qed

lemma operation_keep:
  assumes "ValidateInvocationLedger l = None" and "advances at (led_Invocation l) (g (led_Invocation l))"
    and "inv_UpdatedAt (led_Invocation l) \<le> at" and "t = change_invocation g l" and "ledger_revision t \<noteq> 0"
    and "expected = ledger_revision l" and "\<And>p. active_id (g (led_Invocation l)) p = active_id (led_Invocation l) p"
    and "ValidateInvocationLedger t = None"
  shows "operation_ok l expected t"
proof -
  have "step_facts l t" unfolding assms(4)
    by (rule keep_step [where at = at]) (use assms(1-3,5) in \<open>simp_all add: assms(4)\<close>)
  moreover have "live_ok t" if "live_ok l"
    using that assms(7) by (simp add: assms(4) live_ok_def)
  ultimately show ?thesis using assms(6,8) by (simp add: operation_ok_def)
qed

section \<open>Replacing an attempt by one with the same identity\<close>

lemma validate_attempts_cong:
  "(\<And>a. validateAttempt a w = validateAttempt a v) \<Longrightarrow> validate_attempts w seen ord as = validate_attempts v seen ord as"
  by (induction as arbitrary: seen ord) simp_all

lemma validate_attempts_update:
  assumes "validate_attempts v seen ord as = None" and "i < length as" and "same_attempt (as ! i) b"
    and "validateAttempt b v = None"
  shows "validate_attempts v seen ord (as[i := b]) = None"
  using assms
proof (induction as arbitrary: seen ord i)
  case (Cons a as)
  then show ?case by (cases i) (auto simp: same_attempt_def)
qed simp

lemma active_pointer_update:
  assumes "i < length as" and "same_attempt (as ! i) b" and "att_Status b = att_Status (as ! i)"
  shows "active_pointer_ok (as[i := b]) p ident = active_pointer_ok as p ident"
  using assms
proof (induction as arbitrary: i)
  case (Cons a as)
  then show ?case by (cases i) (auto simp: active_pointer_ok_def findAttempt_def same_attempt_def)
qed simp

lemma countPhase_update:
  assumes "i < length as" and "same_attempt (as ! i) b"
  shows "countPhase (as[i := b]) p = countPhase as p"
  using assms
proof (induction as arbitrary: i)
  case (Cons a as)
  then show ?case by (cases i) (auto simp: countPhase_def same_attempt_def)
qed simp

lemma attempt_revision_bound:
  assumes "bounded_attempts l" and "a \<in> set (led_Attempts l)" and "ledger_revision l + 1 \<noteq> 0"
  shows "att_Revision a + 1 \<noteq> 0"
proof -
  have "unat (ledger_revision l + 1) = Suc (unat (ledger_revision l))" using unat_succ_nonzero [OF assms(3)] .
  moreover have "unat (att_Revision a) \<le> unat (ledger_revision l)" using assms(1,2) by (simp add: bounded_attempts_def)
  ultimately have "Suc (unat (att_Revision a)) < 2 ^ LENGTH(64)"
    using unsigned_less [of "ledger_revision l + 1", where ?'a = nat] by simp
  then show ?thesis by (rule unat_succ_bound(2))
qed

lemma heartbeat_attempt_valid:
  assumes "validateAttempt a v = None" and "att_CreatedAt a \<le> af_At (hac_Fence c)" and "att_Revision a + 1 \<noteq> 0"
    and "af_At (hac_Fence c) < att_LeaseExpiresAt a" and "validateHeartbeat c a = None"
  shows "validateAttempt (heartbeat_attempt c a) v = None"
  using assms by (auto simp: validateAttempt_def heartbeat_attempt_def validateHeartbeat_def AttemptStatus_Terminal_def)

lemma heartbeat_valid:
  assumes l: "ValidateInvocationLedger l = None" and f: "validateAttemptFenceAny l (hac_Fence c) = Inr i"
    and h: "validateHeartbeat c (led_Attempts l ! i) = None" and b: "bounded_attempts l"
    and r: "ledger_revision l + 1 \<noteq> 0"
  shows "ValidateInvocationLedger (heartbeat_ledger l c i) = None"
proof -
  note idx = fence_index [OF f]
  let ?a = "led_Attempts l ! i"
  have mem: "?a \<in> set (led_Attempts l)" using idx(1) by simp
  have same: "same_attempt ?a (heartbeat_attempt c ?a)" and st: "att_Status (heartbeat_attempt c ?a) = att_Status ?a"
    by (simp_all add: same_attempt_def heartbeat_attempt_def)
  have cr: "att_CreatedAt ?a \<le> af_At (hac_Fence c)"
    using b mem idx(5) by (fastforce simp: bounded_attempts_def)
  have ar: "att_Revision ?a + 1 \<noteq> 0" by (rule attempt_revision_bound [OF b mem r])
  have lease: "af_At (hac_Fence c) < att_LeaseExpiresAt ?a" using idx(3) by (simp add: fence_holds_def)
  have "validateAttempt (heartbeat_attempt c ?a) (led_Invocation l) = None"
    by (rule heartbeat_attempt_valid [OF ledger_attempts(1) [OF l mem] cr ar lease h])
  then have va: "validate_attempts (led_Invocation l) [] (0, 0) ((led_Attempts l)[i := heartbeat_attempt c ?a]) = None"
    by (rule validate_attempts_update [OF ledger_D(4) [OF l] idx(1) same])
  have cong: "validate_attempts ((led_Invocation l)\<lparr>inv_UpdatedAt := at, inv_Revision := r\<rparr>) seen ord as =
      validate_attempts (led_Invocation l) seen ord as" for at r seen ord as
    by (rule validate_attempts_cong) (simp add: validateAttempt_def)
  have comp: "validateInvocationCompensation ((led_Invocation l)\<lparr>inv_UpdatedAt := at, inv_Revision := r\<rparr>) =
      validateInvocationCompensation (led_Invocation l)" for at r
    by (simp add: validateInvocationCompensation_def)
  show ?thesis
    using l va r idx(5)
    by (simp add: heartbeat_ledger_def ValidateInvocationLedger_def cong comp countPhase_update [OF idx(1) same]
        active_pointer_update [OF idx(1) same st])
qed

lemma schedule_valid:
  assumes "validateSchedule l c = None" and "ledger_revision l + 1 \<noteq> 0"
  shows "ValidateInvocationLedger (scheduled_ledger l (sic_At c)) = None"
proof -
  have l: "ValidateInvocationLedger l = None" and u: "inv_CompensationStatus (led_Invocation l) = CompensationUnscheduled"
    and t: "InvocationStatus_Terminal (inv_Status (led_Invocation l))" and le: "inv_UpdatedAt (led_Invocation l) \<le> sic_At c"
    using assms(1) by (simp_all add: validateSchedule_def)
  have va: "validate_attempts ((led_Invocation l)\<lparr>inv_CompensationStatus := s, inv_UpdatedAt := at, inv_Revision := r\<rparr>) [] (0, 0) (led_Attempts l) = None"
    for s at r using ledger_D(4) [OF l] by (subst validate_attempts_cong [of _ "led_Invocation l"]) (simp_all add: validateAttempt_def)
  have comp: "validateInvocationCompensation
      ((led_Invocation l)\<lparr>inv_CompensationStatus := CompensationReady, inv_UpdatedAt := at, inv_Revision := r\<rparr>) = None" for at r
    using ledger_D(3) [OF l] u t by (simp add: validateInvocationCompensation_def split: if_splits)
  show ?thesis
    using l va comp assms(2) le
    by (simp add: scheduled_ledger_def ValidateInvocationLedger_def CompensationStatus_Valid_def)
qed

section \<open>Each operation\<close>

lemma attempt_in: "attempt_index as ident = Some i \<Longrightarrow> i < length as"
  by (simp add: attempt_index_Some)

lemma claim_ok:
  assumes "ClaimInvocation l c = Inr d"
  shows "operation_ok l (cic_ExpectedRevision c) (idn_Ledger d)"
proof -
  obtain h e where v: "validateClaim l c = None"
    and a: "\<exists>a. a = new_attempt (led_Invocation l) (cic_Phase c) (inv_ExecutionAttemptCount (led_Invocation l) + 1)
          (cic_OwnerRef c) h (cic_LeaseExpiresAt c) (cic_At c) \<and> ValidateInvocationLedger (claimed_ledger l a (cic_At c)) = None \<and>
          invocation_event (claimed_ledger l a (cic_At c)) ''invocation.claimed'' (cic_CommandID c) (cic_At c)
                (claim_payload a e) = Inr d"
    using assms by (auto simp: ClaimInvocation_def)
  then obtain a where a: "a = new_attempt (led_Invocation l) (cic_Phase c) (inv_ExecutionAttemptCount (led_Invocation l) + 1)
          (cic_OwnerRef c) h (cic_LeaseExpiresAt c) (cic_At c)"
    and n: "ValidateInvocationLedger (claimed_ledger l a (cic_At c)) = None" and d: "idn_Ledger d = claimed_ledger l a (cic_At c)"
    using invocation_event_Inr(1) by blast
  have l: "ValidateInvocationLedger l = None" and p: "cic_Phase c = AttemptExecution"
    and s: "inv_Status (led_Invocation l) \<notin> {InvocationRunning, InvocationWaiting}"
    and e: "cic_ExpectedRevision c = ledger_revision l" and t: "inv_UpdatedAt (led_Invocation l) \<le> cic_At c"
    using v by (auto simp: validateClaim_def)
  note none = ledger_D(2) [OF l s]
  have f: "att_Revision a = 1" "att_CreatedAt a = cic_At c" "\<not> AttemptStatus_Terminal (att_Status a)" "att_Phase a = AttemptExecution"
    using a p by (simp_all add: new_attempt_def AttemptStatus_Terminal_def)
  show ?thesis unfolding d
    by (rule operation_append [OF l f(1-3)])
      (use e t none f(4) ledger_D(1) [OF n] n in
        \<open>simp_all add: claimed_ledger_def advances_def invocation_identity_def active_id_def AttemptPhase_Valid_def\<close>)
qed

lemma compensation_claim_ok:
  assumes "ClaimCompensation l c = Inr d"
  shows "operation_ok l (ccc_ExpectedRevision c) (idn_Ledger d)"
proof -
  obtain h e where v: "validateCompensationClaim l c = None"
    and a: "\<exists>a. a = new_attempt (led_Invocation l) AttemptCompensation (inv_CompensationAttemptCount (led_Invocation l) + 1)
          (ccc_OwnerRef c) h (ccc_LeaseExpiresAt c) (ccc_At c) \<and> ValidateInvocationLedger (compensation_claimed l a (ccc_At c)) = None \<and>
          invocation_event (compensation_claimed l a (ccc_At c)) ''invocation.compensation.claimed'' (ccc_CommandID c) (ccc_At c)
                (claim_payload a e) = Inr d"
    using assms by (auto simp: ClaimCompensation_def)
  then obtain a where a: "a = new_attempt (led_Invocation l) AttemptCompensation (inv_CompensationAttemptCount (led_Invocation l) + 1)
          (ccc_OwnerRef c) h (ccc_LeaseExpiresAt c) (ccc_At c)"
    and n: "ValidateInvocationLedger (compensation_claimed l a (ccc_At c)) = None" and d: "idn_Ledger d = compensation_claimed l a (ccc_At c)"
    using invocation_event_Inr(1) by blast
  have l: "ValidateInvocationLedger l = None"
    and s: "inv_CompensationStatus (led_Invocation l) = CompensationReady \<or> inv_CompensationStatus (led_Invocation l) = CompensationRetryWait"
    and e: "ccc_ExpectedRevision c = ledger_revision l" and t: "inv_UpdatedAt (led_Invocation l) \<le> ccc_At c"
    using v by (auto simp: validateCompensationClaim_def)
  have none: "inv_ActiveCompensationAttemptID (led_Invocation l) = []"
    using ledger_D(3) [OF l] s by (auto simp: validateInvocationCompensation_def split: if_splits)
  have f: "att_Revision a = 1" "att_CreatedAt a = ccc_At c" "\<not> AttemptStatus_Terminal (att_Status a)" "att_Phase a = AttemptCompensation"
    using a by (simp_all add: new_attempt_def AttemptStatus_Terminal_def)
  show ?thesis unfolding d
    by (rule operation_append [OF l f(1-3)])
      (use e t none f(4) ledger_D(1) [OF n] n in
        \<open>simp_all add: compensation_claimed_def advances_def invocation_identity_def active_id_def AttemptPhase_Valid_def\<close>)
qed

lemma finish_update:
  assumes "\<not> AttemptStatus_Terminal (att_Status a)"
  shows "attempt_update at a ((finish_attempt st at a)\<lparr>att_Failure := f\<rparr>)" and "attempt_update at a (finish_attempt st at a)"
  using assms by (simp_all add: attempt_update_def same_attempt_def finish_attempt_def)

lemma aligned_live:
  assumes "validateAlignedTransition c = None" and "\<not> AttemptStatus_Terminal (tic_AttemptTo c)"
  shows "tic_To c = InvocationRunning \<or> tic_To c = InvocationWaiting"
  using assms by (auto simp: validateAlignedTransition_def AttemptStatus_Terminal_def split: InvocationStatus.splits)

lemma transition_ok:
  assumes "TransitionInvocation l c = Inr d"
  shows "operation_ok l (af_InvocationRevision (tic_Fence c)) (idn_Ledger d)"
proof -
  obtain i where l: "ValidateInvocationLedger l = None"
    and f: "validateAttemptFenceForPhase l (tic_Fence c) AttemptExecution = Inr i"
    and al: "validateAlignedTransition c = None" and n: "ValidateInvocationLedger (transitioned_ledger l c i) = None"
    and d: "idn_Ledger d = transitioned_ledger l c i"
    using assms invocation_event_Inr(1) unfolding TransitionInvocation_def by (simp, blast)
  note idx = fence_index [OF fence_phase(1) [OF f]] and live = fence_live [OF l fence_phase(1) [OF f]]
  have up: "attempt_update (af_At (tic_Fence c)) (led_Attempts l ! i) (transitioned_attempt c (led_Attempts l ! i))"
    using live(1) finish_update(1) by (simp add: transitioned_attempt_def) (simp add: attempt_update_def same_attempt_def)
  have st: "att_Status (transitioned_attempt c a) = tic_AttemptTo c" for a
    by (simp add: transitioned_attempt_def finish_attempt_def)
  have ac: "active_id (transitioned_invocation c v) AttemptExecution = active_id v AttemptExecution"
    if "\<not> AttemptStatus_Terminal (tic_AttemptTo c)" for v
    using aligned_live [OF al that] by (auto simp: active_id_def transitioned_invocation_def InvocationStatus_Terminal_def)
  show ?thesis
    by (rule operation_update [where g = "transitioned_invocation c" and f = "transitioned_attempt c", OF l idx(1) live(2) up])
      (use idx(4,5) ledger_D(1) [OF n] n d st ac live(2) fence_phase(2) [OF f] in
        \<open>simp_all add: transitioned_ledger_def advances_def invocation_identity_def AttemptPhase_Valid_def\<close>,
       simp_all add: transitioned_invocation_def active_id_def)
qed

lemma wait_ok:
  assumes "ResolveInvocationWait l c = Inr d"
  shows "operation_ok l (rwc_ExpectedRevision c) (idn_Ledger d)"
proof -
  obtain i st where v: "validateWaitResolution l c = None" and w: "waited_attempt l c = Inr i" and o: "wait_outcome c = Inr st"
    and n: "ValidateInvocationLedger (resolved_ledger l c i st) = None" and d: "idn_Ledger d = resolved_ledger l c i st"
    using assms invocation_event_Inr(1) unfolding ResolveInvocationWait_def by (simp, blast)
  have l: "ValidateInvocationLedger l = None" and e: "rwc_ExpectedRevision c = ledger_revision l"
    and t: "inv_UpdatedAt (led_Invocation l) \<le> rwc_At c" using v by (simp_all add: validateWaitResolution_def)
  have i: "i < length (led_Attempts l)" and ph: "att_Phase (led_Attempts l ! i) = AttemptExecution"
    and act: "active_id (led_Invocation l) (att_Phase (led_Attempts l ! i)) = att_AttemptID (led_Attempts l ! i)"
    using w attempt_in by (auto simp: waited_attempt_def active_id_def split: option.splits if_splits)
  have live: "\<not> AttemptStatus_Terminal (att_Status (led_Attempts l ! i))" using active_live [OF l _ act] i by simp
  have "st = AttemptSucceeded \<or> st = AttemptFailed \<or> st = AttemptCanceled"
    using o by (auto simp: wait_outcome_def split: InvocationStatus.splits if_splits)
  then have st: "AttemptStatus_Terminal (att_Status (finish_attempt st (rwc_At c) a))" for a
    by (auto simp: finish_attempt_def AttemptStatus_Terminal_def)
  show ?thesis
    by (rule operation_update [where g = "resolved_invocation c" and
          f = "\<lambda>a. (finish_attempt st (rwc_At c) a)\<lparr>att_Failure := rwc_Failure c\<rparr>", OF l i act finish_update(1) [OF live]])
      (use e t ledger_D(1) [OF n] n d st ph in
        \<open>simp_all add: resolved_ledger_def advances_def invocation_identity_def AttemptPhase_Valid_def\<close>,
       simp_all add: resolved_invocation_def active_id_def)
qed

lemma expire_ok:
  assumes "ExpireInvocationAttempt l c = Inr d"
  shows "operation_ok l (eic_ExpectedRevision c) (idn_Ledger d)"
proof -
  obtain i where v: "validateExpiry l c = None" and w: "expired_attempt l c = Inr i"
    and n: "ValidateInvocationLedger (expired_ledger l c i) = None" and d: "idn_Ledger d = expired_ledger l c i"
    using assms invocation_event_Inr(1) unfolding ExpireInvocationAttempt_def by (simp, blast)
  have l: "ValidateInvocationLedger l = None" and e: "eic_ExpectedRevision c = ledger_revision l"
    and t: "inv_UpdatedAt (led_Invocation l) \<le> eic_At c" and p: "inv_ActiveAttemptID (led_Invocation l) = eic_AttemptID c"
    using v by (simp_all add: validateExpiry_def)
  have i: "i < length (led_Attempts l)" and ph: "att_Phase (led_Attempts l ! i) = AttemptExecution"
    and live: "\<not> AttemptStatus_Terminal (att_Status (led_Attempts l ! i))"
    and act: "active_id (led_Invocation l) (att_Phase (led_Attempts l ! i)) = att_AttemptID (led_Attempts l ! i)"
    using w p attempt_index_Some by (auto simp: expired_attempt_def active_id_def split: option.splits if_splits)
  show ?thesis
    by (rule operation_update [where g = "expired_invocation c" and
          f = "\<lambda>a. (finish_attempt AttemptAbandoned (eic_At c) a)\<lparr>att_Failure := Some (eic_Failure c)\<rparr>", OF l i act finish_update(1) [OF live]])
      (use e t ledger_D(1) [OF n] n d ph in
        \<open>simp_all add: expired_ledger_def advances_def invocation_identity_def AttemptPhase_Valid_def\<close>,
       simp_all add: expired_invocation_def active_id_def finish_attempt_def AttemptStatus_Terminal_def)
qed

lemma unleased_ok:
  assumes "ResolveUnleasedInvocation l c = Inr d"
  shows "operation_ok l (ruc_ExpectedRevision c) (idn_Ledger d)"
proof -
  have v: "validateUnleased l c = None" and n: "ValidateInvocationLedger (change_invocation (unleased_invocation c) l) = None"
    and d: "idn_Ledger d = change_invocation (unleased_invocation c) l"
    using assms invocation_event_Inr(1) unfolding ResolveUnleasedInvocation_def by (simp_all, blast)
  have l: "ValidateInvocationLedger l = None" and e: "ruc_ExpectedRevision c = ledger_revision l"
    and t: "inv_UpdatedAt (led_Invocation l) \<le> ruc_At c" and s: "inv_Status (led_Invocation l) \<notin> {InvocationRunning, InvocationWaiting}"
    using v by (auto simp: validateUnleased_def)
  show ?thesis
    by (rule operation_keep [where g = "unleased_invocation c" and at = "ruc_At c", OF l])
      (use e t ledger_D(1) [OF n] n d ledger_D(2) [OF l s] in
        \<open>simp_all add: unleased_invocation_def advances_def invocation_identity_def active_id_def\<close>)
qed

lemma cancel_ok:
  assumes "CancelInvocation l c = Inr d"
  shows "operation_ok l (cnc_ExpectedRevision c) (idn_Ledger d)"
proof -
  obtain m where v: "validateCancellation l c = None" and m: "cancel_active l (cnc_At c) = Inr m"
    and n: "ValidateInvocationLedger (change_invocation (canceled_invocation (cnc_At c)) m) = None"
    and d: "idn_Ledger d = change_invocation (canceled_invocation (cnc_At c)) m"
    using assms invocation_event_Inr(1) unfolding CancelInvocation_def by (simp, blast)
  have l: "ValidateInvocationLedger l = None" and e: "cnc_ExpectedRevision c = ledger_revision l"
    and t: "inv_UpdatedAt (led_Invocation l) \<le> cnc_At c"
    using v by (auto simp: validateCancellation_def)
  show ?thesis
  proof (cases "inv_ActiveAttemptID (led_Invocation l) = []")
    case True
    then have "m = l" using m by (simp add: cancel_active_def)
    with True show ?thesis
      by (intro operation_keep [where g = "canceled_invocation (cnc_At c)" and at = "cnc_At c", OF l])
        (use e t ledger_D(1) [OF n] n d in
          \<open>simp_all add: canceled_invocation_def advances_def invocation_identity_def active_id_def\<close>)
  next
    case False
    then obtain i where a: "attempt_index (led_Attempts l) (inv_ActiveAttemptID (led_Invocation l)) = Some i"
      and live: "\<not> AttemptStatus_Terminal (att_Status (led_Attempts l ! i))"
      and m': "m = change_attempt i (finish_attempt AttemptCanceled (cnc_At c)) l"
      using m by (auto simp: cancel_active_def split: option.splits if_splits)
    have i: "i < length (led_Attempts l)" and ident: "att_AttemptID (led_Attempts l ! i) = inv_ActiveAttemptID (led_Invocation l)"
      using attempt_index_Some [OF a] by simp_all
    have "findAttempt (led_Attempts l) (inv_ActiveAttemptID (led_Invocation l)) = Some (led_Attempts l ! i)"
      using find_distinct [OF ledger_distinct [OF l], of "led_Attempts l ! i"] i ident by simp
    then have ph: "att_Phase (led_Attempts l ! i) = AttemptExecution"
      using ledger_D(6) [OF l False] by (simp add: active_pointer_ok_def)
    have act: "active_id (led_Invocation l) (att_Phase (led_Attempts l ! i)) = att_AttemptID (led_Attempts l ! i)"
      using ph ident by (simp add: active_id_def)
    show ?thesis
      by (rule operation_update [where g = "canceled_invocation (cnc_At c)" and f = "finish_attempt AttemptCanceled (cnc_At c)",
            OF l i act finish_update(2) [OF live]])
        (use e t ledger_D(1) [OF n] n d m' ph in \<open>simp_all add: advances_def invocation_identity_def AttemptPhase_Valid_def\<close>,
         simp_all add: canceled_invocation_def active_id_def finish_attempt_def AttemptStatus_Terminal_def)
  qed
qed

lemma heartbeat_ok:
  assumes "HeartbeatAttempt l c = Inr d"
  shows "operation_ok l (af_InvocationRevision (hac_Fence c)) (idn_Ledger d)"
proof -
  obtain i e where l: "ValidateInvocationLedger l = None" and f: "validateAttemptFenceAny l (hac_Fence c) = Inr i"
    and h: "validateHeartbeat c (led_Attempts l ! i) = None"
    and ev: "invocation_event (heartbeat_ledger l c i) ''attempt.heartbeat'' (hac_CommandID c) (af_At (hac_Fence c))
       [(''attemptId'', JStr (att_AttemptID (led_Attempts l ! i))),
        (''attemptRevision'', JU64 (att_Revision (led_Attempts l ! i) + 1)), (''leaseExpiresAt'', e)] = Inr d"
    using assms by (auto simp: HeartbeatAttempt_def)
  note idx = fence_index [OF f] and live = fence_live [OF l f] and d = invocation_event_Inr(1) [OF ev]
  have r: "ledger_revision l + 1 \<noteq> 0" using invocation_event_Inr(2) [OF ev] by (simp add: heartbeat_ledger_def)
  have up: "attempt_update (af_At (hac_Fence c)) (led_Attempts l ! i) (heartbeat_attempt c (led_Attempts l ! i))"
    using live(1) by (simp add: heartbeat_attempt_def attempt_update_def same_attempt_def)
  show ?thesis
    by (rule operation_update [where g = "\<lambda>v. v\<lparr>inv_UpdatedAt := af_At (hac_Fence c), inv_Revision := inv_Revision v + 1\<rparr>"
          and f = "heartbeat_attempt c", OF l idx(1) live(2) up])
      (use idx(4,5) r d heartbeat_valid [OF l f h] live(2) in
        \<open>simp_all add: heartbeat_ledger_def advances_def invocation_identity_def active_id_def split: if_splits\<close>)
qed

lemma schedule_ok:
  assumes "ScheduleInvocationCompensation l c = Inr d"
  shows "operation_ok l (sic_ExpectedRevision c) (idn_Ledger d)"
proof -
  obtain p d' i where v: "validateSchedule l c = None"
    and ev: "invocation_event (scheduled_ledger l (sic_At c)) ''invocation.compensation.ready'' (sic_CommandID c) (sic_At c) p = Inr d'"
    and d: "d = add_intent i d'"
    using assms by (auto simp: ScheduleInvocationCompensation_def)
  have dl: "idn_Ledger d = scheduled_ledger l (sic_At c)" using d invocation_event_Inr(1) [OF ev] by (simp add: add_intent_def)
  have r: "ledger_revision l + 1 \<noteq> 0" using invocation_event_Inr(2) [OF ev] by (simp add: scheduled_ledger_def)
  have l: "ValidateInvocationLedger l = None" and e: "sic_ExpectedRevision c = ledger_revision l"
    and t: "inv_UpdatedAt (led_Invocation l) \<le> sic_At c" using v by (simp_all add: validateSchedule_def)
  show ?thesis
    by (rule operation_keep [where g = "\<lambda>v. v\<lparr>inv_CompensationStatus := CompensationReady, inv_UpdatedAt := sic_At c, inv_Revision := inv_Revision v + 1\<rparr>"
          and at = "sic_At c", OF l])
      (use e t r dl schedule_valid [OF v r] in \<open>simp_all add: scheduled_ledger_def advances_def invocation_identity_def active_id_def\<close>)
qed

lemma compensation_transition_ok:
  assumes "TransitionInvocationCompensation l c = Inr d"
  shows "operation_ok l (af_InvocationRevision (tcc_Fence c)) (idn_Ledger d)"
proof -
  obtain i d' ty p where l: "ValidateInvocationLedger l = None"
    and f: "validateAttemptFenceForPhase l (tcc_Fence c) AttemptCompensation = Inr i"
    and v: "validateInvocationCompensationTransition (inv_CompensationStatus (led_Invocation l)) (att_Status (led_Attempts l ! i)) c = None"
    and n: "ValidateInvocationLedger (compensated_ledger l c i) = None"
    and ev: "invocation_event (compensated_ledger l c i) ty (tcc_CommandID c) (af_At (tcc_Fence c)) p = Inr d'"
    and ci: "compensation_intents (compensated_ledger l c i) c d' = Inr d"
    using assms unfolding TransitionInvocationCompensation_def by (simp, blast)
  note idx = fence_index [OF fence_phase(1) [OF f]] and live = fence_live [OF l fence_phase(1) [OF f]]
  have d: "idn_Ledger d = compensated_ledger l c i"
    using ci invocation_event_Inr(1) [OF ev] by (auto simp: compensation_intents_def add_intent_def split: option.splits if_splits)
  have st: "AttemptStatus_Terminal (att_Status (finish_attempt (tcc_AttemptTo c) (af_At (tcc_Fence c)) a))" for a
    using v by (auto simp: validateInvocationCompensationTransition_def finish_attempt_def AttemptStatus_Terminal_def
        split: CompensationStatus.splits)
  show ?thesis
    by (rule operation_update [where g = "compensated_invocation c" and
          f = "\<lambda>a. (finish_attempt (tcc_AttemptTo c) (af_At (tcc_Fence c)) a)\<lparr>att_Failure := tcc_Failure c\<rparr>",
          OF l idx(1) live(2) finish_update(1) [OF live(1)]])
      (use idx(4,5) ledger_D(1) [OF n] n d st fence_phase(2) [OF f] in
        \<open>simp_all add: compensated_ledger_def advances_def invocation_identity_def AttemptPhase_Valid_def\<close>,
       simp_all add: compensated_invocation_def active_id_def)
qed

lemmas operation_oks = claim_ok transition_ok wait_ok heartbeat_ok expire_ok unleased_ok cancel_ok schedule_ok
  compensation_claim_ok compensation_transition_ok

lemma decide_ok:
  assumes "decide_invocation l c = Inr d"
  shows "operation_ok l (invocation_expects c) (idn_Ledger d)"
  using assms operation_oks by (cases c) (simp_all add: decide_invocation_def invocation_expects_def)

lemma reduce_ok:
  assumes "invocation_reduce l c = Inr t"
  shows "operation_ok l (invocation_expects c) t"
  using assms decide_ok by (auto simp: invocation_reduce_def)

lemma step_bounded:
  assumes "step_facts l t" and "bounded_attempts l"
  shows "bounded_attempts t"
proof -
  have "ledger_revision t = ledger_revision l + 1" "ledger_revision t \<noteq> 0" using assms(1) by (auto simp: step_facts_def)
  then have r: "unat (ledger_revision t) = Suc (unat (ledger_revision l))"
    using unat_succ_nonzero [of "ledger_revision l"] by metis
  have u: "inv_UpdatedAt (led_Invocation l) \<le> inv_UpdatedAt (led_Invocation t)"
    and s: "attempts_step (inv_UpdatedAt (led_Invocation t)) (led_Attempts l) (led_Attempts t)"
    using assms(1) by (simp_all add: step_facts_def)
  let ?ok = "\<lambda>t a. unat (att_Revision a) \<le> unat (ledger_revision t) \<and> att_CreatedAt a \<le> inv_UpdatedAt (led_Invocation t)"
  have old: "?ok t a" if "a \<in> set (led_Attempts l)" for a
    using assms(2) that r u by (fastforce simp: bounded_attempts_def)
  have upd: "?ok t b" if "i < length (led_Attempts l)" "attempt_update (inv_UpdatedAt (led_Invocation t)) (led_Attempts l ! i) b" for i b
  proof -
    have "?ok l (led_Attempts l ! i)" using assms(2) that(1) by (simp add: bounded_attempts_def)
    moreover have "unat (att_Revision (led_Attempts l ! i) + 1) \<le> Suc (unat (att_Revision (led_Attempts l ! i)))"
      by (simp add: unat_word_ariths)
    ultimately show ?thesis using that(2) r u by (auto simp: attempt_update_def same_attempt_def)
  qed
  show ?thesis using s
  proof cases
    case keep
    then show ?thesis using old by (simp add: bounded_attempts_def)
  next
    case (update i b)
    then show ?thesis using old upd set_update_subset_insert unfolding bounded_attempts_def by fastforce
  next
    case (append a)
    then show ?thesis using old r by (auto simp: bounded_attempts_def)
  qed
qed

lemma operation_inv: "operation_ok l e t \<Longrightarrow> ledger_inv l \<Longrightarrow> ledger_inv t"
  using step_bounded [of l t] by (simp add: operation_ok_def ledger_inv_def)

interpretation il: cas_reducer ledger_inv "\<lambda>l. ledger_revision l" invocation_expects invocation_reduce
proof
  fix l c t assume "invocation_reduce l c = Inr t"
  note ok = reduce_ok [OF this]
  show "invocation_expects c = ledger_revision l" and "ledger_revision t = ledger_revision l + 1"
    using ok by (simp_all add: operation_ok_def step_facts_def)
  show "ledger_inv l \<Longrightarrow> ledger_inv t" by (rule operation_inv [OF ok])
qed

section \<open>Sequences of operations\<close>

lemma activate_inv:
  assumes "ActivateInvocation c = Inr d"
  shows "ledger_inv (idn_Ledger d)" and "ledger_revision (idn_Ledger d) = 1" and "idn_Ledger d = activated_ledger c"
proof -
  show d: "idn_Ledger d = activated_ledger c"
    using assms invocation_event_Inr(1) by (auto simp: ActivateInvocation_def)
  have "ValidateInvocationLedger (activated_ledger c) = None" using assms by (auto simp: ActivateInvocation_def)
  then show "ledger_inv (idn_Ledger d)" by (simp add: d ledger_inv_def live_ok_def bounded_attempts_def activated_ledger_def)
  show "ledger_revision (idn_Ledger d) = 1" by (simp add: d activated_ledger_def)
qed

lemma reduce_decide: "invocation_reduce l c = Inr t \<Longrightarrow> \<exists>d. decide_invocation l c = Inr d \<and> t = idn_Ledger d"
  by (auto simp: invocation_reduce_def)

lemma reduce_step: "invocation_reduce l c = Inr t \<Longrightarrow> step_facts l t"
  using reduce_ok by (simp add: operation_ok_def)

lemma fold_identity:
  "fold_reduce invocation_reduce l cs = Inr t \<Longrightarrow>
     invocation_identity (led_Invocation t) = invocation_identity (led_Invocation l) \<and>
     inv_UpdatedAt (led_Invocation l) \<le> inv_UpdatedAt (led_Invocation t)"
proof (induction cs arbitrary: l)
  case (Cons c cs)
  then obtain u where u: "invocation_reduce l c = Inr u" and r: "fold_reduce invocation_reduce u cs = Inr t" by auto
  show ?case using Cons.IH [OF r] reduce_step [OF u] by (auto simp: step_facts_def)
qed simp

text \<open>What a list of attempts may become: nothing is dropped, finished attempts are final.\<close>

definition attempts_extend :: "Attempt list \<Rightarrow> Attempt list \<Rightarrow> bool" where
  "attempts_extend as bs \<longleftrightarrow> length as \<le> length bs \<and>
     (\<forall>i < length as. same_attempt (as ! i) (bs ! i) \<and> (AttemptStatus_Terminal (att_Status (as ! i)) \<longrightarrow> bs ! i = as ! i))"

lemma same_attempt_refl [simp]: "same_attempt a a"
  by (simp add: same_attempt_def)

lemma same_attempt_trans: "same_attempt a b \<Longrightarrow> same_attempt b c \<Longrightarrow> same_attempt a c"
  by (simp add: same_attempt_def)

lemma attempts_extend_refl: "attempts_extend as as"
  by (simp add: attempts_extend_def)

lemma attempts_extend_trans:
  assumes "attempts_extend as bs" and "attempts_extend bs cs"
  shows "attempts_extend as cs"
  unfolding attempts_extend_def
proof (intro conjI allI impI)
  show "length as \<le> length cs" using assms by (simp add: attempts_extend_def)
  fix i assume i: "i < length as"
  then have j: "i < length bs" using assms(1) by (simp add: attempts_extend_def)
  show "same_attempt (as ! i) (cs ! i)"
    using assms i j same_attempt_trans [of "as ! i" "bs ! i" "cs ! i"] by (simp add: attempts_extend_def)
  show "cs ! i = as ! i" if "AttemptStatus_Terminal (att_Status (as ! i))"
    using assms i j that by (simp add: attempts_extend_def)
qed

lemma step_extend: "attempts_step at as bs \<Longrightarrow> attempts_extend as bs"
  by (induction rule: attempts_step.induct)
    (auto simp: attempts_extend_def attempt_update_def nth_list_update nth_append)

lemma fold_extend: "fold_reduce invocation_reduce l cs = Inr t \<Longrightarrow> attempts_extend (led_Attempts l) (led_Attempts t)"
proof (induction cs arbitrary: l)
  case Nil
  then show ?case by (simp add: attempts_extend_refl)
next
  case (Cons c cs)
  then obtain u where u: "invocation_reduce l c = Inr u" and r: "fold_reduce invocation_reduce u cs = Inr t" by auto
  show ?case
    using Cons.IH [OF r] reduce_step [OF u] step_extend attempts_extend_trans by (fastforce simp: step_facts_def)
qed

section \<open>The outcome of an invocation\<close>

definition outcome :: "Invocation \<Rightarrow> InvocationStatus \<times> string \<times> StructuredFailure option \<times> instant option" where
  "outcome v = (inv_Status v, inv_OutputRefsDigest v, inv_PrimaryFailure v, inv_FinishedAt v)"

text \<open>The commands that work on the primary execution.\<close>

fun primary_command :: "InvocationCommand \<Rightarrow> bool" where
  "primary_command (Claim _) = True" | "primary_command (Transition _) = True" | "primary_command (ResolveWait _) = True"
| "primary_command (Expire _) = True" | "primary_command (ResolveUnleased _) = True" | "primary_command (Cancel _) = True"
| "primary_command _ = False"

lemma terminal_no_edge: "InvocationStatus_Terminal st \<Longrightarrow> ValidateInvocationTransition st to \<noteq> None"
  by (auto simp: ValidateInvocationTransition_def InvocationStatus_Terminal_def invocation_edges_def)

lemma terminal_primary_rejected:
  assumes "InvocationStatus_Terminal (inv_Status (led_Invocation l))" and "primary_command cmd"
  shows "decide_invocation l cmd \<noteq> Inr d"
  using assms terminal_no_edge [OF assms(1)]
  by (cases cmd)
    (auto simp: decide_invocation_def ClaimInvocation_def validateClaim_def TransitionInvocation_def ResolveInvocationWait_def
      validateWaitResolution_def ExpireInvocationAttempt_def validateExpiry_def ResolveUnleasedInvocation_def
      validateUnleased_def CancelInvocation_def validateCancellation_def InvocationStatus_Terminal_def)

lemma compensation_outcome:
  assumes "decide_invocation l cmd = Inr d" and "\<not> primary_command cmd"
  shows "outcome (led_Invocation (idn_Ledger d)) = outcome (led_Invocation l)"
proof (cases cmd)
  case (Heartbeat c)
  then show ?thesis using assms(1) invocation_event_Inr(1)
    by (fastforce simp: decide_invocation_def HeartbeatAttempt_def heartbeat_ledger_def outcome_def)
next
  case (ScheduleCompensation c)
  then show ?thesis using assms(1) invocation_event_Inr(1)
    by (fastforce simp: decide_invocation_def ScheduleInvocationCompensation_def scheduled_ledger_def outcome_def add_intent_def)
next
  case (CompensationClaim c)
  then show ?thesis using assms(1) invocation_event_Inr(1)
    by (fastforce simp: decide_invocation_def ClaimCompensation_def compensation_claimed_def outcome_def)
next
  case (CompensationTransition c)
  then show ?thesis using assms(1) invocation_event_Inr(1)
    by (fastforce simp: decide_invocation_def TransitionInvocationCompensation_def compensation_intents_def compensated_ledger_def
        compensated_invocation_def outcome_def add_intent_def split: option.splits if_splits)
qed (use assms(2) in simp_all)

lemma fold_outcome:
  assumes "fold_reduce invocation_reduce l cs = Inr t" and "InvocationStatus_Terminal (inv_Status (led_Invocation l))"
  shows "outcome (led_Invocation t) = outcome (led_Invocation l) \<and> (\<forall>c \<in> set cs. \<not> primary_command c)"
  using assms
proof (induction cs arbitrary: l)
  case (Cons c cs)
  then obtain u where u: "invocation_reduce l c = Inr u" and r': "fold_reduce invocation_reduce u cs = Inr t" by auto
  then obtain d where d: "decide_invocation l c = Inr d" and r: "fold_reduce invocation_reduce (idn_Ledger d) cs = Inr t"
    using reduce_decide [OF u] by blast
  have p: "\<not> primary_command c" using terminal_primary_rejected [OF Cons.prems(2)] d by blast
  have o: "outcome (led_Invocation (idn_Ledger d)) = outcome (led_Invocation l)" by (rule compensation_outcome [OF d p])
  then have "InvocationStatus_Terminal (inv_Status (led_Invocation (idn_Ledger d)))" using Cons.prems(2) by (simp add: outcome_def)
  with Cons.IH [OF r] o p show ?case by simp
qed simp

section \<open>Cancellation is always possible\<close>

definition cancel_time :: "InvocationLedger \<Rightarrow> instant" where
  "cancel_time l = (if inv_UpdatedAt (led_Invocation l) = 0 then 1 else inv_UpdatedAt (led_Invocation l))"

definition cancel_command :: "InvocationLedger \<Rightarrow> CancelInvocationCommand" where
  "cancel_command l = \<lparr>cnc_InvocationID = inv_InvocationID (led_Invocation l), cnc_ExpectedRevision = ledger_revision l,
     cnc_RunID = inv_RunID (led_Invocation l), cnc_RunRevision = 1, cnc_TerminationCommandID = ''stop'',
     cnc_CommandID = ''cancel'', cnc_At = cancel_time l\<rparr>"

lemma cancel_time: "cancel_time l \<noteq> 0" "inv_UpdatedAt (led_Invocation l) \<le> cancel_time l"
  by (simp_all add: cancel_time_def)

lemma cancel_attempt_valid:
  assumes "validateAttempt a v = None" and "att_CreatedAt a \<le> at" and "att_Revision a + 1 \<noteq> 0"
    and "\<not> AttemptStatus_Terminal (att_Status a)"
  shows "validateAttempt (finish_attempt AttemptCanceled at a) v = None"
  using assms by (auto simp: validateAttempt_def finish_attempt_def AttemptStatus_Terminal_def AttemptStatus_Valid_def
      intro: validateFailure_weaken)

lemma cancel_active_ok:
  assumes l: "ValidateInvocationLedger l = None" and b: "bounded_attempts l" and r: "ledger_revision l + 1 \<noteq> 0"
  shows "\<exists>as. cancel_active l (cancel_time l) = Inr (l\<lparr>led_Attempts := as\<rparr>) \<and>
    validate_attempts (led_Invocation l) [] (0, 0) as = None \<and> (\<forall>p. countPhase as p = countPhase (led_Attempts l) p)"
proof (cases "inv_ActiveAttemptID (led_Invocation l) = []")
  case True
  then show ?thesis using ledger_D(4) [OF l] by (intro exI [of _ "led_Attempts l"]) (simp add: cancel_active_def)
next
  case False
  then obtain a where f: "findAttempt (led_Attempts l) (inv_ActiveAttemptID (led_Invocation l)) = Some a"
    and live: "\<not> AttemptStatus_Terminal (att_Status a)"
    using ledger_D(6) [OF l] by (auto simp: active_pointer_ok_def split: option.splits)
  have index: "\<exists>i. attempt_index as ident = Some i \<and> as ! i = a" if "findAttempt as ident = Some a" for as ident
    using that by (induction as) (auto simp: findAttempt_def split: if_splits)
  obtain i where i: "attempt_index (led_Attempts l) (inv_ActiveAttemptID (led_Invocation l)) = Some i" "led_Attempts l ! i = a"
    using index [OF f] by blast
  have mem: "i < length (led_Attempts l)" "a \<in> set (led_Attempts l)" using attempt_index_Some [OF i(1)] i(2) by auto
  have "validateAttempt (finish_attempt AttemptCanceled (cancel_time l) a) (led_Invocation l) = None"
    using cancel_attempt_valid [OF ledger_attempts(1) [OF l mem(2)] _ attempt_revision_bound [OF b mem(2) r] live] b mem(2)
      cancel_time(2) [of l] by (fastforce simp: bounded_attempts_def)
  moreover have same: "same_attempt (led_Attempts l ! i) (finish_attempt AttemptCanceled (cancel_time l) a)"
    using i(2) by (simp add: same_attempt_def finish_attempt_def)
  ultimately have "validate_attempts (led_Invocation l) [] (0, 0) ((led_Attempts l)[i := finish_attempt AttemptCanceled (cancel_time l) a]) = None"
    using validate_attempts_update [OF ledger_D(4) [OF l] mem(1)] by blast
  moreover have "cancel_active l (cancel_time l) = Inr (l\<lparr>led_Attempts := (led_Attempts l)[i := finish_attempt AttemptCanceled (cancel_time l) a]\<rparr>)"
    using False i live by (simp add: cancel_active_def change_attempt_def)
  ultimately show ?thesis using countPhase_update [OF mem(1) same] by blast
qed

lemma idle_compensation:
  assumes "ValidateInvocationLedger l = None" and "\<not> InvocationStatus_Terminal (inv_Status (led_Invocation l))"
  shows "inv_ActiveCompensationAttemptID (led_Invocation l) = []"
    and "validateInvocationCompensation (canceled_invocation at (led_Invocation l)) = None"
    and "CompensationStatus_Valid (inv_CompensationStatus (canceled_invocation at (led_Invocation l)))"
proof -
  have v: "validateInvocationCompensation (led_Invocation l) = None" by (rule ledger_D(3) [OF assms(1)])
  show "inv_ActiveCompensationAttemptID (led_Invocation l) = []"
    using v assms(2) by (auto simp: validateInvocationCompensation_def split: if_splits)
  show "validateInvocationCompensation (canceled_invocation at (led_Invocation l)) = None"
    using v assms(2) by (auto simp: validateInvocationCompensation_def canceled_invocation_def InvocationStatus_Terminal_def split: if_splits)
  show "CompensationStatus_Valid (inv_CompensationStatus (canceled_invocation at (led_Invocation l)))"
    using assms(1) by (auto simp: ValidateInvocationLedger_def canceled_invocation_def CompensationStatus_Valid_def)
qed

lemma canceled_valid:
  assumes l: "ValidateInvocationLedger l = None" and nt: "\<not> InvocationStatus_Terminal (inv_Status (led_Invocation l))"
    and r: "ledger_revision l + 1 \<noteq> 0" and va: "validate_attempts (led_Invocation l) [] (0, 0) as = None"
    and cp: "\<forall>p. countPhase as p = countPhase (led_Attempts l) p" and t: "inv_UpdatedAt (led_Invocation l) \<le> at" and at: "at \<noteq> 0"
  shows "ValidateInvocationLedger (change_invocation (canceled_invocation at) (l\<lparr>led_Attempts := as\<rparr>)) = None"
proof -
  have "validate_attempts (canceled_invocation at (led_Invocation l)) [] (0, 0) as = None"
    using va by (subst validate_attempts_cong [of _ "led_Invocation l"]) (simp_all add: validateAttempt_def canceled_invocation_def)
  with l idle_compensation(1) [OF l nt] idle_compensation(2,3) [OF l nt, of at] cp r t show ?thesis
    unfolding ValidateInvocationLedger_def first_error_Cons_None
    by (intro conjI; simp add: change_invocation_def) (simp_all add: canceled_invocation_def InvocationStatus_Valid_def InvocationStatus_Terminal_def)
qed

lemma cancel_accepted:
  assumes l: "ledger_inv l" and nt: "\<not> InvocationStatus_Terminal (inv_Status (led_Invocation l))"
    and r: "ledger_revision l + 1 \<noteq> 0"
  shows "\<exists>t. invocation_reduce l (Cancel (cancel_command l)) = Inr t \<and> inv_Status (led_Invocation t) = InvocationCanceled"
proof -
  have v: "ValidateInvocationLedger l = None" and b: "bounded_attempts l" using l by (simp_all add: ledger_inv_def)
  obtain as where a: "cancel_active l (cancel_time l) = Inr (l\<lparr>led_Attempts := as\<rparr>)"
    and va: "validate_attempts (led_Invocation l) [] (0, 0) as = None" and cp: "\<forall>p. countPhase as p = countPhase (led_Attempts l) p"
    using cancel_active_ok [OF v b r] by blast
  let ?t = "change_invocation (canceled_invocation (cancel_time l)) (l\<lparr>led_Attempts := as\<rparr>)"
  note n = canceled_valid [OF v nt r va cp cancel_time(2) cancel_time(1)]
  have c: "validateCancellation l (cancel_command l) = None"
    using v nt cancel_time [of l] by (simp add: validateCancellation_def cancel_command_def text_eval)
  have ids: "ValidIdentifier (inv_InvocationID (led_Invocation l))" "ValidIdentifier (inv_RunID (led_Invocation l))"
    using v by (simp_all add: ValidateInvocationLedger_def)
  have "\<exists>e. newEvent ''invocation'' (inv_InvocationID (led_Invocation ?t)) (ledger_revision ?t) ''invocation.canceled''
      (cnc_CommandID (cancel_command l)) (cnc_At (cancel_command l))
       [(''runId'', JStr (cnc_RunID (cancel_command l))), (''runRevision'', JU64 (cnc_RunRevision (cancel_command l))),
        (''terminationCommandId'', JStr (cnc_TerminationCommandID (cancel_command l)))] = Inr e"
    by (rule newEvent_ok)
      (use ids ledger_D(1) [OF n] cancel_time(1) [of l] ValidIdentifier_length [OF ids(2)] JU64_bound [of 1] in
        \<open>simp_all add: cancel_command_def canceled_invocation_def text_eval ascii_def\<close>)
  then obtain e where "invocation_event ?t ''invocation.canceled'' (cnc_CommandID (cancel_command l)) (cnc_At (cancel_command l))
       [(''runId'', JStr (cnc_RunID (cancel_command l))), (''runRevision'', JU64 (cnc_RunRevision (cancel_command l))),
        (''terminationCommandId'', JStr (cnc_TerminationCommandID (cancel_command l)))] =
      Inr \<lparr>idn_Ledger = ?t, idn_Events = [e], idn_Intents = []\<rparr>" by (auto simp: invocation_event_def)
  moreover have "cnc_At (cancel_command l) = cancel_time l" by (simp add: cancel_command_def)
  ultimately have "invocation_reduce l (Cancel (cancel_command l)) = Inr ?t"
    using c a n by (simp add: invocation_reduce_def decide_invocation_def CancelInvocation_def)
  moreover have "inv_Status (led_Invocation ?t) = InvocationCanceled" by (simp add: canceled_invocation_def)
  ultimately show ?thesis by blast
qed

end
