(* ===== verification/Invocation_Claims.thy ===== *)
theory Invocation_Claims
  imports Invocation_Props
begin

text \<open>
  The properties of invocation ledgers (claims C8, C9 and C11 to C13), with a concrete invocation that is
  activated, leased to a worker, put to wait, resolved, expired and canceled.
\<close>

section \<open>Properties\<close>

text \<open>The fence of a command that a worker sends for its attempt.\<close>

fun fence_of :: "InvocationCommand \<Rightarrow> AttemptFence option" where
  "fence_of (Transition c) = Some (tic_Fence c)"
| "fence_of (Heartbeat c) = Some (hac_Fence c)"
| "fence_of (CompensationTransition c) = Some (tcc_Fence c)"
| "fence_of _ = None"

lemma fenced_command:
  assumes "invocation_reduce l cmd = Inr t" and "fence_of cmd = Some f"
  shows "\<exists>i. validateAttemptFenceAny l f = Inr i" and "ValidateInvocationLedger l = None"
  using assms
  by (cases cmd; auto simp: invocation_reduce_def decide_invocation_def TransitionInvocation_def HeartbeatAttempt_def
      TransitionInvocationCompensation_def dest!: fence_phase(1))+

text \<open>
  C8: from its activation on, whatever commands are accepted, an invocation ledger is valid
  (its revision counts the accepted commands, its identity never changes), every attempt that
  has not ended is the one named by the pointer of its phase, and so at most one attempt of
  each phase is live.
\<close>

theorem invocation_invariant:
  assumes "ActivateInvocation c = Inr d" and "fold_reduce invocation_reduce (idn_Ledger d) cs = Inr t"
    and "length cs + 1 < 2 ^ 64"
  shows "ValidateInvocationLedger t = None \<and> unat (ledger_revision t) = length cs + 1 \<and>
    invocation_identity (led_Invocation t) = invocation_identity (led_Invocation (idn_Ledger d)) \<and>
    (\<forall>a \<in> set (led_Attempts t). \<not> AttemptStatus_Terminal (att_Status a) \<longrightarrow>
       active_id (led_Invocation t) (att_Phase a) = att_AttemptID a) \<and>
    (\<forall>a \<in> set (led_Attempts t). \<forall>b \<in> set (led_Attempts t). att_Phase a = att_Phase b \<and>
       \<not> AttemptStatus_Terminal (att_Status a) \<and> \<not> AttemptStatus_Terminal (att_Status b) \<longrightarrow> a = b)"
proof -
  note act = activate_inv [OF assms(1)]
  have inv: "ledger_inv t" using il.fold_keeps [OF assms(2) act(1)] act(2) assms(3) by simp
  then have live: "\<forall>a \<in> set (led_Attempts t). \<not> AttemptStatus_Terminal (att_Status a) \<longrightarrow>
       active_id (led_Invocation t) (att_Phase a) = att_AttemptID a"
    and v: "ValidateInvocationLedger t = None" by (simp_all add: ledger_inv_def live_ok_def)
  have one: "a = b" if "a \<in> set (led_Attempts t)" "b \<in> set (led_Attempts t)" "att_AttemptID a = att_AttemptID b" for a b
    using find_distinct [OF ledger_distinct [OF v]] that by (metis option.inject)
  have "unat (ledger_revision t) = length cs + 1" using il.fold_revision [OF assms(2)] act(2) assms(3) by simp
  with v live one fold_identity [OF assms(2)] show ?thesis by metis
qed

text \<open>
  C9: the history of attempts is append-only. Whatever commands are accepted, no attempt is
  dropped or reordered, its identity, owner, input and creation never change, and an attempt
  that has ended is never changed again.
\<close>

theorem attempt_history:
  assumes "fold_reduce invocation_reduce l cs = Inr t"
  shows "length (led_Attempts l) \<le> length (led_Attempts t) \<and>
    (\<forall>i < length (led_Attempts l). same_attempt (led_Attempts l ! i) (led_Attempts t ! i) \<and>
       (AttemptStatus_Terminal (att_Status (led_Attempts l ! i)) \<longrightarrow> led_Attempts t ! i = led_Attempts l ! i))"
  using fold_extend [OF assms] by (simp add: attempts_extend_def)

text \<open>
  The outcome of an invocation is final. Once its status is terminal, its status, output,
  failure and finish time stay what they are under every sequence of accepted commands, and
  no command on the primary execution is accepted.
\<close>

theorem invocation_outcome_final:
  assumes "fold_reduce invocation_reduce l cs = Inr t" and "InvocationStatus_Terminal (inv_Status (led_Invocation l))"
  shows "outcome (led_Invocation t) = outcome (led_Invocation l) \<and> (\<forall>c \<in> set cs. \<not> primary_command c) \<and>
    (\<forall>c u. primary_command c \<longrightarrow> invocation_reduce t c \<noteq> Inr u)"
proof -
  have o: "outcome (led_Invocation t) = outcome (led_Invocation l)" "\<forall>c \<in> set cs. \<not> primary_command c"
    using fold_outcome [OF assms] by simp_all
  then have "InvocationStatus_Terminal (inv_Status (led_Invocation t))" using assms(2) by (simp add: outcome_def)
  then show ?thesis using o terminal_primary_rejected reduce_decide by metis
qed

text \<open>
  C11: a worker whose attempt has ended (finished, canceled, abandoned after expiry) is
  locked out for ever: no command that carries a fence for that attempt is accepted in any
  later state of the ledger, whatever revision and token it presents.
\<close>

theorem ended_attempt_locked_out:
  assumes "fold_reduce invocation_reduce l cs = Inr t" and "a \<in> set (led_Attempts l)"
    and "AttemptStatus_Terminal (att_Status a)"
    and "fence_of cmd = Some f" and "af_AttemptID f = att_AttemptID a"
  shows "invocation_reduce t cmd \<noteq> Inr u"
proof
  assume "invocation_reduce t cmd = Inr u"
  then obtain i where i: "validateAttemptFenceAny t f = Inr i" and v: "ValidateInvocationLedger t = None"
    using fenced_command assms(4) by blast
  obtain j where j: "j < length (led_Attempts l)" "led_Attempts l ! j = a" using assms(2) by (auto simp: in_set_conv_nth)
  have keep: "led_Attempts t ! j = a" "j < length (led_Attempts t)"
    using fold_extend [OF assms(1)] j assms(3) by (auto simp: attempts_extend_def)
  have "att_AttemptID (led_Attempts t ! i) = att_AttemptID (led_Attempts t ! j)"
    using fence_index(2) [OF i] assms(5) keep(1) by simp
  then have "i = j"
    using ledger_distinct [OF v] fence_index(1) [OF i] keep(2) by (simp add: distinct_conv_nth) metis
  then show False using fence_live(1) [OF v i] keep(1) assms(3) by simp
qed

text \<open>
  C12: a lease is a time-out, never a race. An attempt can be taken from its worker only when
  the lease has run out, and at such an instant no command of the worker itself is accepted
  any more; what is taken away is recorded as abandoned and leaves the invocation ready or
  failed.
\<close>

theorem lease_expiry_exclusive:
  assumes "invocation_reduce l (Expire c) = Inr t"
  shows "(\<exists>i < length (led_Attempts l). att_AttemptID (led_Attempts l ! i) = eic_AttemptID c \<and>
      att_LeaseExpiresAt (led_Attempts l ! i) \<le> eic_At c \<and> att_Status (led_Attempts t ! i) = AttemptAbandoned) \<and>
    inv_Status (led_Invocation t) = (if eic_Retry c then InvocationReady else InvocationFailed) \<and>
    inv_ActiveAttemptID (led_Invocation t) = [] \<and>
    (\<forall>cmd f u. fence_of cmd = Some f \<and> af_AttemptID f = eic_AttemptID c \<and> eic_At c \<le> af_At f \<longrightarrow>
       invocation_reduce l cmd \<noteq> Inr u)"
proof -
  obtain d where d: "ExpireInvocationAttempt l c = Inr d" and t: "t = idn_Ledger d"
    using reduce_decide [OF assms] by (auto simp: decide_invocation_def)
  then obtain i where v: "validateExpiry l c = None" and w: "expired_attempt l c = Inr i" and n: "t = expired_ledger l c i"
    using invocation_event_Inr(1) unfolding ExpireInvocationAttempt_def by (simp, blast)
  have idx: "attempt_index (led_Attempts l) (eic_AttemptID c) = Some i" and e: "att_LeaseExpiresAt (led_Attempts l ! i) \<le> eic_At c"
    using w by (auto simp: expired_attempt_def split: option.splits if_splits)
  note i = attempt_index_Some [OF idx]
  have reject: "invocation_reduce l cmd \<noteq> Inr u" if f: "fence_of cmd = Some f" "af_AttemptID f = eic_AttemptID c" "eic_At c \<le> af_At f" for cmd f u
  proof
    assume "invocation_reduce l cmd = Inr u"
    then obtain k where k: "validateAttemptFenceAny l f = Inr k" using fenced_command(1) f(1) by blast
    then have "k = i" using f(2) idx by (auto simp: validateAttemptFenceAny_def split: option.splits if_splits)
    then show False using fence_index(3) [OF k] e f(3) by (simp add: fence_holds_def)
  qed
  have "att_Status (led_Attempts t ! i) = AttemptAbandoned" using i n by (simp add: expired_ledger_def finish_attempt_def)
  moreover have "inv_Status (led_Invocation t) = (if eic_Retry c then InvocationReady else InvocationFailed)"
    "inv_ActiveAttemptID (led_Invocation t) = []" using n by (simp_all add: expired_ledger_def expired_invocation_def)
  ultimately show ?thesis using i e reject by blast
qed

text \<open>
  C13: no invocation can get stuck. In every state an invocation can reach and that is not
  terminal (while the revision counter has room) one cancellation is accepted, and it ends
  the invocation together with its live execution attempt.
\<close>

theorem invocation_can_cancel:
  assumes "ActivateInvocation c = Inr d" and "fold_reduce invocation_reduce (idn_Ledger d) cs = Inr l"
    and "\<not> InvocationStatus_Terminal (inv_Status (led_Invocation l))" and "length cs + 2 < 2 ^ 64"
  shows "\<exists>cmd t. invocation_reduce l (Cancel cmd) = Inr t \<and> inv_Status (led_Invocation t) = InvocationCanceled \<and>
    (\<forall>a \<in> set (led_Attempts t). att_Phase a = AttemptExecution \<longrightarrow> AttemptStatus_Terminal (att_Status a))"
proof -
  note act = activate_inv [OF assms(1)]
  have inv: "ledger_inv l" using il.fold_keeps [OF assms(2) act(1)] act(2) assms(4) by simp
  have rev: "unat (ledger_revision l) = length cs + 1" using il.fold_revision [OF assms(2)] act(2) assms(4) by simp
  then have r: "ledger_revision l + 1 \<noteq> 0" using unat_succ_bound(2) [of "ledger_revision l"] assms(4) by simp
  obtain t where t: "invocation_reduce l (Cancel (cancel_command l)) = Inr t" "inv_Status (led_Invocation t) = InvocationCanceled"
    using cancel_accepted [OF inv assms(3) r] by blast
  have ti: "ledger_inv t" by (rule operation_inv [OF reduce_ok [OF t(1)] inv])
  then have none: "inv_ActiveAttemptID (led_Invocation t) = []" and v: "ValidateInvocationLedger t = None"
    using ledger_D(2) t(2) by (auto simp: ledger_inv_def)
  have "AttemptStatus_Terminal (att_Status a)" if a: "a \<in> set (led_Attempts t)" "att_Phase a = AttemptExecution" for a
    using ti none ledger_attempts(2) [OF v a(1)] a by (auto simp: ledger_inv_def live_ok_def active_id_def)
  then show ?thesis using t by blast
qed

section \<open>A concrete invocation\<close>

lemma StableInvocationID_ok:
  assumes "ValidIdentifier r" and "ValidIdentifier n"
  shows "\<exists>i. StableInvocationID r n = Inr i \<and> ValidIdentifier i"
proof -
  have "\<exists>i. StableInvocationID r n = Inr i"
    unfolding StableInvocationID_def
    by (rule stableID_plain)
      (use assms prefix_ok domain_ok ValidIdentifier_length [OF assms(1)] ValidIdentifier_length [OF assms(2)] in simp_all)
  then show ?thesis using stableID_identifier [of "''inv''"] by (auto simp: StableInvocationID_def)
qed

definition sample_invocation_id :: string where "sample_invocation_id = identity_or_empty (StableInvocationID ''run-1'' ''node-1'')"

lemma sample_invocation_id: "StableInvocationID ''run-1'' ''node-1'' = Inr sample_invocation_id" "ValidIdentifier sample_invocation_id"
  using StableInvocationID_ok [of "''run-1''" "''node-1''"] by (auto simp: sample_invocation_id_def identity_or_empty_def text_eval)

definition sample_activation :: ActivateInvocationCommand where
  "sample_activation = \<lparr>aic_InvocationID = sample_invocation_id, aic_NamespaceID = ''lab'', aic_RunID = ''run-1'',
     aic_NodeID = ''node-1'', aic_TypeRef = ''robot.move/v1'', aic_DescriptorDigest = sample_digest,
     aic_ResolvedInputDigest = sample_digest, aic_InputRefsDigest = sample_digest, aic_Compensatable = False,
     aic_CommandID = ''activate'', aic_At = 5\<rparr>"

definition sample_ready :: InvocationLedger where "sample_ready = activated_ledger sample_activation"

lemma sample_invocation_texts:
  "ValidIdentifier ''run-1''" "ValidIdentifier ''node-1''" "ValidIdentifier ''lab''" "ValidIdentifier ''activate''"
  "ValidIdentifier ''worker-1''" "ValidIdentifier ''claim''" "ValidIdentifier ''expire''" "ValidIdentifier ''lost''"
  "ValidTypeRef ''robot.move/v1''" "ValidIdentifier ''invocation''" "ValidIdentifier ''invocation.ready''"
  "ValidIdentifier ''invocation.claimed''" "ValidIdentifier ''invocation.attempt-expired''"
  by (simp_all add: text_eval)

lemmas ledger_status_defs =
  InvocationStatus_Valid_def InvocationStatus_Terminal_def CompensationStatus_Valid_def validateInvocationCompensation_def
  AttemptStatus_Valid_def AttemptStatus_Terminal_def AttemptPhase_Valid_def

lemmas sample_ready_defs = sample_ready_def activated_ledger_def sample_activation_def

lemma invocation_event_ok:
  assumes "ValidIdentifier (inv_InvocationID (led_Invocation n))" and "ledger_revision n \<noteq> 0" and "ValidIdentifier ty"
    and "ValidIdentifier c" and "at \<noteq> 0" and "json_plain (JObj p)" and "json_bound (JObj p) \<le> 100000" and "json_height (JObj p) \<le> 128"
  shows "\<exists>d. invocation_event n ty c at p = Inr d \<and> idn_Ledger d = n"
proof -
  obtain e where "newEvent ''invocation'' (inv_InvocationID (led_Invocation n)) (ledger_revision n) ty c at p = Inr e"
    using newEvent_ok [OF sample_invocation_texts(10) assms(1,2,5,3,4,6-8)] by blast
  then show ?thesis by (simp add: invocation_event_def)
qed

lemma sample_ready_valid: "ValidateInvocationLedger sample_ready = None"
  by (simp add: ValidateInvocationLedger_def sample_ready_defs sample_invocation_id
      countPhase_def sample_invocation_texts ledger_status_defs)

lemma sample_activated: "\<exists>d. ActivateInvocation sample_activation = Inr d \<and> idn_Ledger d = sample_ready"
proof -
  have v: "validateActivateInvocation sample_activation = None"
    by (simp add: validateActivateInvocation_def sample_activation_def sample_invocation_id sample_invocation_texts)
  have "\<exists>d. invocation_event sample_ready ''invocation.ready'' (aic_CommandID sample_activation) (aic_At sample_activation)
       [(''runId'', JStr (aic_RunID sample_activation)), (''nodeId'', JStr (aic_NodeID sample_activation)),
        (''descriptorDigest'', JStr (aic_DescriptorDigest sample_activation)),
        (''resolvedInputDigest'', JStr (aic_ResolvedInputDigest sample_activation))] = Inr d \<and> idn_Ledger d = sample_ready"
    by (rule invocation_event_ok)
      (use ValidDigest_text [OF sample_digest_valid] in
        \<open>simp_all add: sample_ready_defs sample_invocation_id sample_invocation_texts ascii_def\<close>)
  then show ?thesis using v sample_ready_valid sample_invocation_id(1)
    by (auto simp: ActivateInvocation_def sample_ready_def sample_activation_def identity_or_empty_def)
qed

text \<open>The invocation is leased to a worker until instant 100, and the lease runs out.\<close>

definition sample_claim :: ClaimInvocationCommand where
  "sample_claim = \<lparr>cic_InvocationID = sample_invocation_id, cic_ExpectedRevision = 1, cic_Phase = AttemptExecution,
     cic_OwnerRef = ''worker-1'', cic_LeaseToken = ''token'', cic_LeaseExpiresAt = 100, cic_CommandID = ''claim'', cic_At = 6\<rparr>"

definition sample_attempt :: Attempt where
  "sample_attempt = new_attempt (led_Invocation sample_ready) AttemptExecution 1 ''worker-1'' (sha256_text ''token'') 100 6"

definition sample_leased :: InvocationLedger where "sample_leased = claimed_ledger sample_ready sample_attempt 6"

lemma sample_attempt_id:
  "StableAttemptID sample_invocation_id AttemptExecution 1 = Inr (att_AttemptID sample_attempt)" "ValidIdentifier (att_AttemptID sample_attempt)"
proof -
  obtain i where i: "StableAttemptID sample_invocation_id AttemptExecution 1 = Inr i"
    using StableAttemptID_ok [of AttemptExecution] sample_invocation_id(2) by (auto simp: AttemptPhase_Valid_def)
  have a: "att_AttemptID sample_attempt = i"
    using i by (simp add: sample_attempt_def new_attempt_def sample_ready_defs identity_or_empty_def)
  show "StableAttemptID sample_invocation_id AttemptExecution 1 = Inr (att_AttemptID sample_attempt)" using i a by simp
  show "ValidIdentifier (att_AttemptID sample_attempt)"
    using i a stableID_identifier [of "''att''"] by (auto simp: StableAttemptID_def)
qed

lemma sample_attempt_fields:
  "att_Phase sample_attempt = AttemptExecution" "att_Ordinal sample_attempt = 1" "att_Status sample_attempt = AttemptRunning"
  "att_Revision sample_attempt = 1" "att_LeaseExpiresAt sample_attempt = 100" "att_OwnerRef sample_attempt = ''worker-1''"
  "att_LeaseTokenHash sample_attempt = sha256_text ''token''" "att_Failure sample_attempt = None"
  "att_CreatedAt sample_attempt = 6" "att_StartedAt sample_attempt = 6" "att_UpdatedAt sample_attempt = 6" "att_FinishedAt sample_attempt = None"
  "att_InvocationID sample_attempt = sample_invocation_id" "att_RunID sample_attempt = ''run-1''"
  "att_NamespaceID sample_attempt = ''lab''" "att_ResolvedInputDigest sample_attempt = sample_digest"
  by (simp_all add: sample_attempt_def new_attempt_def sample_ready_defs)

lemma identity_or_empty_Inr [simp]: "identity_or_empty (Inr s) = s"
  by (simp add: identity_or_empty_def)

lemmas sample_leased_defs = sample_leased_def claimed_ledger_def sample_ready_defs sample_attempt_fields sample_attempt_id(1)
  sample_invocation_id sample_invocation_texts

lemma sample_token_text: "validateCanonicalText ''token'' 512 True = None" "validateCanonicalText ''worker lost'' 4096 True = None"
  by code_simp+

lemma sample_token: "PrivateTokenDigest ''token'' = Inr (sha256_text ''token'')"
  by (simp add: PrivateTokenDigest_def sample_token_text)

lemma sample_attempt_nonempty [simp]: "att_AttemptID sample_attempt \<noteq> []"
  using sample_attempt_id(2) by auto

lemma sample_leased_valid: "ValidateInvocationLedger sample_leased = None"
  by (simp add: ValidateInvocationLedger_def sample_leased_defs countPhase_def ledger_status_defs validateAttempt_def
      next_ordinal_def active_pointer_ok_def findAttempt_def)

lemma sample_time: "time_json 100 = Inr (JStr ''0001-01-01T00:00:00.0000001Z'')"
  by code_simp

lemma sample_claimed: "invocation_reduce sample_ready (Claim sample_claim) = Inr sample_leased"
proof -
  have v: "validateClaim sample_ready sample_claim = None"
    by (simp add: validateClaim_def sample_ready_valid) (simp add: sample_claim_def sample_ready_defs sample_invocation_texts sample_token_text)
  have a: "new_attempt (led_Invocation sample_ready) (cic_Phase sample_claim) (inv_ExecutionAttemptCount (led_Invocation sample_ready) + 1)
      (cic_OwnerRef sample_claim) (sha256_text ''token'') (cic_LeaseExpiresAt sample_claim) (cic_At sample_claim) = sample_attempt"
    by (simp add: sample_attempt_def sample_claim_def sample_ready_defs)
  have l: "claimed_ledger sample_ready sample_attempt (cic_At sample_claim) = sample_leased"
    by (simp add: sample_leased_def sample_claim_def)
  have "\<exists>d. invocation_event sample_leased ''invocation.claimed'' (cic_CommandID sample_claim) (cic_At sample_claim)
      (claim_payload sample_attempt (JStr ''0001-01-01T00:00:00.0000001Z'')) = Inr d \<and> idn_Ledger d = sample_leased"
    by (rule invocation_event_ok)
      (use ValidDigest_text [OF sha256_text_ValidDigest, of "''token''"] sample_attempt_id(2) ValidIdentifier_length [OF sample_attempt_id(2)] JU32_bound [of 1] in
        \<open>simp_all add: sample_leased_defs sample_claim_def claim_payload_def ascii_def\<close>)
  then obtain d where "invocation_event sample_leased ''invocation.claimed'' (cic_CommandID sample_claim) (cic_At sample_claim)
      (claim_payload sample_attempt (JStr ''0001-01-01T00:00:00.0000001Z'')) = Inr d" "idn_Ledger d = sample_leased" by blast
  moreover have "cic_LeaseToken sample_claim = ''token''" "cic_LeaseExpiresAt sample_claim = 100" by (simp_all add: sample_claim_def)
  ultimately show ?thesis
    using v a l sample_leased_valid sample_token sample_time
    by (simp add: invocation_reduce_def decide_invocation_def ClaimInvocation_def)
qed

definition sample_failure :: StructuredFailure where
  "sample_failure = \<lparr>fail_Class = FailureTransient, fail_Code = ''lost'', fail_Message = ''worker lost'', fail_EvidenceRef = []\<rparr>"

definition sample_expiry :: ExpireInvocationAttemptCommand where
  "sample_expiry = \<lparr>eic_InvocationID = sample_invocation_id, eic_ExpectedRevision = 2, eic_AttemptID = att_AttemptID sample_attempt,
     eic_ExpectedAttemptRevision = 1, eic_Retry = True, eic_Failure = sample_failure, eic_CommandID = ''expire'', eic_At = 100\<rparr>"

definition sample_expired :: InvocationLedger where "sample_expired = expired_ledger sample_leased sample_expiry 0"

lemma sample_failure_ok: "validateFailure (Some sample_failure) b = None"
  by (simp add: validateFailure_def sample_failure_def FailureClass_Valid_def sample_invocation_texts sample_token_text maxMessageBytes_def)

lemma sample_expired_valid: "ValidateInvocationLedger sample_expired = None"
  by (simp add: ValidateInvocationLedger_def sample_expired_def expired_ledger_def change_invocation_def change_attempt_def
      expired_invocation_def finish_attempt_def sample_expiry_def sample_leased_defs countPhase_def ledger_status_defs
      validateAttempt_def next_ordinal_def sample_failure_ok)

lemma sample_expiry_accepted: "invocation_reduce sample_leased (Expire sample_expiry) = Inr sample_expired"
proof -
  have v: "validateExpiry sample_leased sample_expiry = None"
    by (simp add: validateExpiry_def sample_leased_valid) (simp add: sample_expiry_def sample_leased_defs sample_failure_ok)
  have i: "expired_attempt sample_leased sample_expiry = Inr 0"
    by (simp add: expired_attempt_def sample_expiry_def sample_leased_defs ledger_status_defs)
  have "\<exists>d. invocation_event sample_expired ''invocation.attempt-expired'' (eic_CommandID sample_expiry) (eic_At sample_expiry)
      [(''attemptId'', JStr (att_AttemptID (led_Attempts sample_leased ! 0))),
        (''attemptRevision'', JU64 (att_Revision (led_Attempts sample_leased ! 0) + 1)),
        (''retry'', JBool (eic_Retry sample_expiry))] = Inr d \<and> idn_Ledger d = sample_expired"
    by (rule invocation_event_ok)
      (use sample_attempt_id(2) ValidIdentifier_length [OF sample_attempt_id(2)] JU64_bound [of 2] in
        \<open>simp_all add: sample_expired_def expired_ledger_def change_invocation_def change_attempt_def expired_invocation_def
           sample_leased_defs sample_expiry_def ascii_def\<close>)
  then show ?thesis
    using v i sample_expired_valid
    by (auto simp: invocation_reduce_def decide_invocation_def ExpireInvocationAttempt_def sample_expired_def [symmetric])
qed

section \<open>Witnesses\<close>

theorem invocation_invariant_witness:
  "ValidateInvocationLedger sample_expired = None \<and> unat (ledger_revision sample_expired) = 3"
proof -
  obtain d where d: "ActivateInvocation sample_activation = Inr d" "idn_Ledger d = sample_ready" using sample_activated by blast
  show ?thesis
    using invocation_invariant [OF d(1), of "[Claim sample_claim, Expire sample_expiry]" sample_expired]
    by (simp add: d(2) sample_claimed sample_expiry_accepted)
qed

theorem attempt_history_witness: "same_attempt (led_Attempts sample_leased ! 0) (led_Attempts sample_expired ! 0)"
  using attempt_history [of sample_leased "[Expire sample_expiry]" sample_expired]
  by (simp add: sample_expiry_accepted) (simp add: sample_leased_def claimed_ledger_def)

theorem lease_expiry_exclusive_witness: "\<exists>i. att_Status (led_Attempts sample_expired ! i) = AttemptAbandoned"
  using lease_expiry_exclusive [OF sample_expiry_accepted] by blast

definition sample_heartbeat :: HeartbeatAttemptCommand where
  "sample_heartbeat = \<lparr>hac_Fence = \<lparr>af_InvocationID = sample_invocation_id, af_InvocationRevision = 3,
       af_AttemptID = att_AttemptID sample_attempt, af_AttemptRevision = 2, af_LeaseToken = ''token'', af_At = 101\<rparr>,
     hac_OwnerRef = ''worker-1'', hac_LeaseExpiresAt = 200, hac_CommandID = ''claim''\<rparr>"

theorem ended_attempt_locked_out_witness: "\<forall>u. invocation_reduce sample_expired (Heartbeat sample_heartbeat) \<noteq> Inr u"
proof
  fix u
  let ?a = "led_Attempts sample_expired ! 0"
  have a: "?a \<in> set (led_Attempts sample_expired)" "AttemptStatus_Terminal (att_Status ?a)" "att_AttemptID ?a = att_AttemptID sample_attempt"
    by (simp_all add: sample_expired_def expired_ledger_def finish_attempt_def sample_leased_def claimed_ledger_def sample_ready_defs
        AttemptStatus_Terminal_def)
  show "invocation_reduce sample_expired (Heartbeat sample_heartbeat) \<noteq> Inr u"
    by (rule ended_attempt_locked_out [of sample_expired "[]" sample_expired ?a _ "hac_Fence sample_heartbeat"])
      (use a in \<open>simp_all add: sample_heartbeat_def\<close>)
qed

theorem invocation_can_cancel_witness:
  "\<exists>cmd t. invocation_reduce sample_leased (Cancel cmd) = Inr t \<and> inv_Status (led_Invocation t) = InvocationCanceled"
proof -
  obtain d where d: "ActivateInvocation sample_activation = Inr d" "idn_Ledger d = sample_ready" using sample_activated by blast
  have "\<not> InvocationStatus_Terminal (inv_Status (led_Invocation sample_leased))"
    by (simp add: sample_leased_def claimed_ledger_def InvocationStatus_Terminal_def)
  then show ?thesis
    using invocation_can_cancel [OF d(1), of "[Claim sample_claim]" sample_leased]
    by (auto simp: d(2) sample_claimed)
qed

theorem invocation_outcome_final_witness:
  "\<exists>t :: InvocationLedger. inv_Status (led_Invocation t) = InvocationCanceled \<and> (\<forall>c u. primary_command c \<longrightarrow> invocation_reduce t c \<noteq> Inr u)"
proof -
  have inv: "ledger_inv sample_leased"
    using reduce_ok [OF sample_claimed] activate_inv(1) sample_activated operation_inv by metis
  have "\<not> InvocationStatus_Terminal (inv_Status (led_Invocation sample_leased))" "ledger_revision sample_leased + 1 \<noteq> 0"
    by (simp_all add: sample_leased_def claimed_ledger_def InvocationStatus_Terminal_def sample_ready_defs)
  then obtain t :: InvocationLedger where t: "inv_Status (led_Invocation t) = InvocationCanceled"
    using cancel_accepted [OF inv] by blast
  then show ?thesis
    using invocation_outcome_final [of t "[]" t] by (auto simp: InvocationStatus_Terminal_def)
qed

end
