(* ===== verification/Effect_Contracts.thy ===== *)
theory Effect_Contracts
  imports Contracts
begin

text \<open>
  Package sdk/go/contracts, effect.go: the data of external effects, command envelopes and
  adapter receipts, and their JSON forms, which the digests of kernel/effect cover. The two
  private fields of an envelope are tagged \<^verbatim>\<open>json:"-"\<close> and have no JSON form.
\<close>

section \<open>Enumerations\<close>

datatype EffectOwnership = EffectOwned | EffectAttached | EffectShared | EffectDetached | EffectOwnershipOther string

definition EffectOwnership_Valid :: "EffectOwnership \<Rightarrow> bool" where
  "EffectOwnership_Valid w \<longleftrightarrow> w = EffectOwned \<or> w = EffectAttached \<or> w = EffectShared \<or> w = EffectDetached"

definition EffectOwnership_string :: "EffectOwnership \<Rightarrow> string" where
  "EffectOwnership_string w = (case w of EffectOwned \<Rightarrow> ''owned'' | EffectAttached \<Rightarrow> ''attached''
     | EffectShared \<Rightarrow> ''shared'' | EffectDetached \<Rightarrow> ''detached'' | EffectOwnershipOther t \<Rightarrow> t)"

datatype CompensationPolicy = CompensationNone | CompensationRequired | CompensationBestEffort | CompensationPolicyOther string

definition CompensationPolicy_Valid :: "CompensationPolicy \<Rightarrow> bool" where
  "CompensationPolicy_Valid p \<longleftrightarrow> p = CompensationNone \<or> p = CompensationRequired \<or> p = CompensationBestEffort"

definition CompensationPolicy_string :: "CompensationPolicy \<Rightarrow> string" where
  "CompensationPolicy_string p = (case p of CompensationNone \<Rightarrow> ''none'' | CompensationRequired \<Rightarrow> ''required''
     | CompensationBestEffort \<Rightarrow> ''best-effort'' | CompensationPolicyOther t \<Rightarrow> t)"

datatype EffectState = EffectPrepared | EffectApplying | EffectApplied | EffectFailed | EffectUncertain
  | EffectCanceled | EffectStateOther string

definition EffectState_Valid :: "EffectState \<Rightarrow> bool" where
  "EffectState_Valid s = (case s of EffectStateOther _ \<Rightarrow> False | _ \<Rightarrow> True)"

definition EffectState_Terminal :: "EffectState \<Rightarrow> bool" where
  "EffectState_Terminal s \<longleftrightarrow> s = EffectApplied \<or> s = EffectFailed \<or> s = EffectUncertain \<or> s = EffectCanceled"

definition EffectState_string :: "EffectState \<Rightarrow> string" where
  "EffectState_string s = (case s of EffectPrepared \<Rightarrow> ''prepared'' | EffectApplying \<Rightarrow> ''applying''
     | EffectApplied \<Rightarrow> ''applied'' | EffectFailed \<Rightarrow> ''failed'' | EffectUncertain \<Rightarrow> ''uncertain''
     | EffectCanceled \<Rightarrow> ''canceled'' | EffectStateOther t \<Rightarrow> t)"

datatype EffectCompensationState = EffectCompensationNotRequired | EffectCompensationUnscheduled
  | EffectCompensationPending | EffectCompensationRunning | EffectCompensationRetryWait | EffectCompensationSucceeded
  | EffectCompensationReconciled | EffectCompensationFailed | EffectCompensationCanceled
  | EffectCompensationStateOther string

definition EffectCompensationState_Valid :: "EffectCompensationState \<Rightarrow> bool" where
  "EffectCompensationState_Valid s = (case s of EffectCompensationStateOther _ \<Rightarrow> False | _ \<Rightarrow> True)"

definition EffectCompensationState_Terminal :: "EffectCompensationState \<Rightarrow> bool" where
  "EffectCompensationState_Terminal s \<longleftrightarrow> s = EffectCompensationNotRequired \<or> s = EffectCompensationSucceeded \<or>
     s = EffectCompensationReconciled \<or> s = EffectCompensationFailed \<or> s = EffectCompensationCanceled"

definition ClosesRequired :: "EffectCompensationState \<Rightarrow> bool" where
  "ClosesRequired s \<longleftrightarrow> s = EffectCompensationSucceeded \<or> s = EffectCompensationReconciled"

definition EffectCompensationState_string :: "EffectCompensationState \<Rightarrow> string" where
  "EffectCompensationState_string s = (case s of EffectCompensationNotRequired \<Rightarrow> ''not-required''
     | EffectCompensationUnscheduled \<Rightarrow> ''unscheduled'' | EffectCompensationPending \<Rightarrow> ''pending''
     | EffectCompensationRunning \<Rightarrow> ''running'' | EffectCompensationRetryWait \<Rightarrow> ''retry-wait''
     | EffectCompensationSucceeded \<Rightarrow> ''succeeded'' | EffectCompensationReconciled \<Rightarrow> ''reconciled''
     | EffectCompensationFailed \<Rightarrow> ''failed'' | EffectCompensationCanceled \<Rightarrow> ''canceled''
     | EffectCompensationStateOther t \<Rightarrow> t)"

datatype FenceKind = FenceRevision | FenceGeneration | FenceIdempotentCreate | FenceKindOther string

definition FenceKind_string :: "FenceKind \<Rightarrow> string" where
  "FenceKind_string k = (case k of FenceRevision \<Rightarrow> ''revision'' | FenceGeneration \<Rightarrow> ''generation''
     | FenceIdempotentCreate \<Rightarrow> ''idempotent-create'' | FenceKindOther t \<Rightarrow> t)"

datatype CommandRisk = RiskLow | RiskModerate | RiskHigh | CommandRiskOther string

definition CommandRisk_Valid :: "CommandRisk \<Rightarrow> bool" where
  "CommandRisk_Valid r \<longleftrightarrow> r = RiskLow \<or> r = RiskModerate \<or> r = RiskHigh"

definition CommandRisk_string :: "CommandRisk \<Rightarrow> string" where
  "CommandRisk_string r = (case r of RiskLow \<Rightarrow> ''low'' | RiskModerate \<Rightarrow> ''moderate'' | RiskHigh \<Rightarrow> ''high''
     | CommandRiskOther t \<Rightarrow> t)"

datatype ReceiptStatus = ReceiptAccepted | ReceiptRejected | ReceiptSucceeded | ReceiptFailed | ReceiptUncertain
  | ReceiptStatusOther string

definition ReceiptStatus_Valid :: "ReceiptStatus \<Rightarrow> bool" where
  "ReceiptStatus_Valid s = (case s of ReceiptStatusOther _ \<Rightarrow> False | _ \<Rightarrow> True)"

definition ReceiptStatus_Terminal :: "ReceiptStatus \<Rightarrow> bool" where
  "ReceiptStatus_Terminal s \<longleftrightarrow> s = ReceiptRejected \<or> s = ReceiptSucceeded \<or> s = ReceiptFailed \<or> s = ReceiptUncertain"

definition ReceiptStatus_string :: "ReceiptStatus \<Rightarrow> string" where
  "ReceiptStatus_string s = (case s of ReceiptAccepted \<Rightarrow> ''accepted'' | ReceiptRejected \<Rightarrow> ''rejected''
     | ReceiptSucceeded \<Rightarrow> ''succeeded'' | ReceiptFailed \<Rightarrow> ''failed'' | ReceiptUncertain \<Rightarrow> ''uncertain''
     | ReceiptStatusOther t \<Rightarrow> t)"

section \<open>Records\<close>

record EffectCompensationReconciliation =
  ecr_RequestedRevision :: u64
  ecr_EvidenceDigest :: string
  ecr_ReconciledBy :: string
  ecr_ReasonCode :: string
  ecr_CommandID :: string
  ecr_ObservedAt :: instant

text \<open>The intent payload is a Go map: \<open>None\<close> is nil.\<close>

record EffectIntent =
  ei_EffectID :: string
  ei_NamespaceID :: string
  ei_RunID :: string
  ei_InvocationID :: string
  ei_PreparedAttemptID :: string
  ei_EffectKey :: string
  ei_Kind :: string
  ei_TargetRef :: string
  ei_IntentSchemaDigest :: string
  ei_Intent :: "payload option"
  ei_IntentDigest :: string
  ei_IntentArtifactRef :: string
  ei_Ownership :: EffectOwnership
  ei_CompensationPolicy :: CompensationPolicy
  ei_RequiredCapabilityRefs :: "string list"
  ei_PolicyDigest :: string
  ei_DescriptorDigest :: string
  ei_Deadline :: instant

record EffectRecord =
  eff_EffectID :: string
  eff_Intent :: EffectIntent
  eff_PreparationDigest :: string
  eff_State :: EffectState
  eff_CommandID :: string
  eff_CommandIdentityDigest :: string
  eff_ExternalIdentity :: string
  eff_ResultDigest :: string
  eff_ResultArtifactRef :: string
  eff_PrimaryFailure :: "StructuredFailure option"
  eff_CompensationState :: EffectCompensationState
  eff_CompensationAttemptCount :: u32
  eff_CompensationCommandID :: string
  eff_CompensationFailure :: "StructuredFailure option"
  eff_CompensationNextAt :: "instant option"
  eff_CompensationReconciliation :: "EffectCompensationReconciliation option"
  eff_PreparedAt :: instant
  eff_ApplyingAt :: "instant option"
  eff_PrimaryTerminalAt :: "instant option"
  eff_PrimaryTerminalRevision :: u64
  eff_CompensationStartedAt :: "instant option"
  eff_CompensationFinishedAt :: "instant option"
  eff_UpdatedAt :: instant
  eff_Revision :: u64

record RevisionFence =
  rf_TargetID :: string
  rf_ExpectedRevision :: u64

record GenerationFence =
  gf_BindingID :: string
  gf_Generation :: u64
  gf_FencingToken :: u64

record IdempotentCreateFence =
  icf_TargetNamespace :: string
  icf_IdentityDigest :: string

record TargetFence =
  tf_Kind :: FenceKind
  tf_Revision :: "RevisionFence option"
  tf_Generation :: "GenerationFence option"
  tf_IdempotentCreate :: "IdempotentCreateFence option"

record CommandEnvelope =
  ce_CommandID :: string
  ce_RequestID :: string
  ce_EffectID :: string
  ce_IdempotencyKey :: string
  ce_IdempotencyKeyHash :: string
  ce_IdentityDigest :: string
  ce_NamespaceID :: string
  ce_TargetRef :: string
  ce_Action :: string
  ce_ActorRef :: string
  ce_SourceRef :: string
  ce_ReasonCode :: string
  ce_Reason :: string
  ce_Risk :: CommandRisk
  ce_Fence :: TargetFence
  ce_PayloadDigest :: string
  ce_PayloadArtifactRef :: string
  ce_PolicyDigest :: string
  ce_DescriptorDigest :: string
  ce_ManifestDigest :: string
  ce_Deadline :: instant
  ce_CancellationID :: string
  ce_RequiredCapabilityRefs :: "string list"
  ce_CapabilityTokenHash :: string
  ce_CapabilityToken :: string

record CommandReceipt =
  cr_ReceiptID :: string
  cr_CommandID :: string
  cr_Sequence :: u32
  cr_Status :: ReceiptStatus
  cr_IdentityDigest :: string
  cr_FenceDigest :: string
  cr_ProviderRef :: string
  cr_ProviderDigest :: string
  cr_PolicyDigest :: string
  cr_AuthorizationDigest :: string
  cr_ResultDigest :: string
  cr_ResultArtifactRef :: string
  cr_ExternalIdentity :: string
  cr_Failure :: "StructuredFailure option"
  cr_ObservedAt :: instant

record CommandLedger =
  cl_Envelope :: CommandEnvelope
  cl_Receipts :: "CommandReceipt list"

section \<open>JSON forms\<close>

definition text_field :: "string \<Rightarrow> string \<Rightarrow> (string \<times> json) list" where
  "text_field k s = omitempty (s \<noteq> []) k (JStr s)"

definition strings_field :: "string \<Rightarrow> string list \<Rightarrow> (string \<times> json) list" where
  "strings_field k xs = omitempty (xs \<noteq> []) k (JArr (map JStr xs))"

definition EffectIntent_json :: "EffectIntent \<Rightarrow> json result" where
  "EffectIntent_json i = andThen (time_json (ei_Deadline i)) (\<lambda>deadline. Inr (JObj (
     [(''effectId'', JStr (ei_EffectID i)), (''namespaceId'', JStr (ei_NamespaceID i)), (''runId'', JStr (ei_RunID i)),
      (''invocationId'', JStr (ei_InvocationID i)), (''preparedAttemptId'', JStr (ei_PreparedAttemptID i)),
      (''effectKey'', JStr (ei_EffectKey i)), (''kind'', JStr (ei_Kind i)), (''targetRef'', JStr (ei_TargetRef i)),
      (''intentSchemaDigest'', JStr (ei_IntentSchemaDigest i)),
      (''intent'', case ei_Intent i of None \<Rightarrow> JNull | Some p \<Rightarrow> JObj p),
      (''intentDigest'', JStr (ei_IntentDigest i))] @
     text_field ''intentArtifactRef'' (ei_IntentArtifactRef i) @
     [(''ownership'', JStr (EffectOwnership_string (ei_Ownership i))),
      (''compensationPolicy'', JStr (CompensationPolicy_string (ei_CompensationPolicy i)))] @
     strings_field ''requiredCapabilityRefs'' (ei_RequiredCapabilityRefs i) @
     [(''policyDigest'', JStr (ei_PolicyDigest i)), (''descriptorDigest'', JStr (ei_DescriptorDigest i)),
      (''deadline'', deadline)])))"

definition RevisionFence_json :: "RevisionFence \<Rightarrow> json" where
  "RevisionFence_json f = JObj [(''targetId'', JStr (rf_TargetID f)), (''expectedRevision'', JU64 (rf_ExpectedRevision f))]"

definition GenerationFence_json :: "GenerationFence \<Rightarrow> json" where
  "GenerationFence_json f = JObj [(''bindingId'', JStr (gf_BindingID f)), (''generation'', JU64 (gf_Generation f)),
     (''fencingToken'', JU64 (gf_FencingToken f))]"

definition IdempotentCreateFence_json :: "IdempotentCreateFence \<Rightarrow> json" where
  "IdempotentCreateFence_json f = JObj [(''targetNamespace'', JStr (icf_TargetNamespace f)),
     (''identityDigest'', JStr (icf_IdentityDigest f))]"

definition pointer_field :: "string \<Rightarrow> ('a \<Rightarrow> json) \<Rightarrow> 'a option \<Rightarrow> (string \<times> json) list" where
  "pointer_field k f p = (case p of None \<Rightarrow> [] | Some x \<Rightarrow> [(k, f x)])"

definition TargetFence_json :: "TargetFence \<Rightarrow> json" where
  "TargetFence_json f = JObj ([(''kind'', JStr (FenceKind_string (tf_Kind f)))] @
     pointer_field ''revision'' RevisionFence_json (tf_Revision f) @
     pointer_field ''generation'' GenerationFence_json (tf_Generation f) @
     pointer_field ''idempotentCreate'' IdempotentCreateFence_json (tf_IdempotentCreate f))"

definition CommandEnvelope_json :: "CommandEnvelope \<Rightarrow> json result" where
  "CommandEnvelope_json e = andThen (time_json (ce_Deadline e)) (\<lambda>deadline. Inr (JObj (
     [(''commandId'', JStr (ce_CommandID e))] @ text_field ''requestId'' (ce_RequestID e) @
     [(''effectId'', JStr (ce_EffectID e)), (''idempotencyKeyHash'', JStr (ce_IdempotencyKeyHash e)),
      (''identityDigest'', JStr (ce_IdentityDigest e)), (''namespaceId'', JStr (ce_NamespaceID e)),
      (''targetRef'', JStr (ce_TargetRef e)), (''action'', JStr (ce_Action e)), (''actorRef'', JStr (ce_ActorRef e)),
      (''sourceRef'', JStr (ce_SourceRef e)), (''reasonCode'', JStr (ce_ReasonCode e))] @
     text_field ''reason'' (ce_Reason e) @
     [(''risk'', JStr (CommandRisk_string (ce_Risk e))), (''fence'', TargetFence_json (ce_Fence e)),
      (''payloadDigest'', JStr (ce_PayloadDigest e))] @
     text_field ''payloadArtifactRef'' (ce_PayloadArtifactRef e) @
     [(''policyDigest'', JStr (ce_PolicyDigest e)), (''descriptorDigest'', JStr (ce_DescriptorDigest e))] @
     text_field ''manifestDigest'' (ce_ManifestDigest e) @
     [(''deadline'', deadline), (''cancellationId'', JStr (ce_CancellationID e))] @
     strings_field ''requiredCapabilityRefs'' (ce_RequiredCapabilityRefs e) @
     text_field ''capabilityTokenHash'' (ce_CapabilityTokenHash e))))"

definition CommandReceipt_json :: "CommandReceipt \<Rightarrow> json result" where
  "CommandReceipt_json r = andThen (time_json (cr_ObservedAt r)) (\<lambda>observed. Inr (JObj (
     [(''receiptId'', JStr (cr_ReceiptID r)), (''commandId'', JStr (cr_CommandID r)), (''sequence'', JU32 (cr_Sequence r)),
      (''status'', JStr (ReceiptStatus_string (cr_Status r))), (''identityDigest'', JStr (cr_IdentityDigest r)),
      (''fenceDigest'', JStr (cr_FenceDigest r)), (''providerRef'', JStr (cr_ProviderRef r)),
      (''providerDigest'', JStr (cr_ProviderDigest r)), (''policyDigest'', JStr (cr_PolicyDigest r)),
      (''authorizationDigest'', JStr (cr_AuthorizationDigest r))] @
     text_field ''resultDigest'' (cr_ResultDigest r) @ text_field ''resultArtifactRef'' (cr_ResultArtifactRef r) @
     text_field ''externalIdentity'' (cr_ExternalIdentity r) @
     pointer_field ''failure'' StructuredFailure_json (cr_Failure r) @ [(''observedAt'', observed)])))"

primrec receipts_json :: "CommandReceipt list \<Rightarrow> json list result" where
  "receipts_json [] = Inr []"
| "receipts_json (r # rs) = andThen (CommandReceipt_json r) (\<lambda>j. andThen (receipts_json rs) (\<lambda>js. Inr (j # js)))"

definition CommandLedger_json :: "CommandLedger \<Rightarrow> json result" where
  "CommandLedger_json l = andThen (CommandEnvelope_json (cl_Envelope l)) (\<lambda>envelope.
     andThen (receipts_json (cl_Receipts l)) (\<lambda>receipts.
     Inr (JObj [(''envelope'', envelope), (''receipts'', JArr receipts)])))"

end
