(* ===== verification/Effect_Reducer.thy ===== *)
theory Effect_Reducer
  imports Effect_Contracts Exec_Identity
begin

text \<open>
  Package kernel/effect, effect.go: the protocol of external effects. An effect is prepared,
  then at most one command at a time is in the outbox; adapters report receipts, which are
  folded into the effect; an applied effect may be compensated. The clone functions of the
  source copy values, so they are the identity here.
\<close>

section \<open>Commands and decisions\<close>

record PrepareCommand =
  pc_Intent :: EffectIntent
  pc_CommandID :: string
  pc_At :: instant

record BeginCommand =
  bc_EffectID :: string
  bc_ExpectedRevision :: u64
  bc_Envelope :: CommandEnvelope
  bc_CommandID :: string
  bc_At :: instant

record ObserveCommand =
  oc_EffectID :: string
  oc_ExpectedRevision :: u64
  oc_Receipt :: CommandReceipt
  oc_CommandID :: string

record ReconcileCommand =
  rc_EffectID :: string
  rc_ExpectedRevision :: u64
  rc_CommandID :: string
  rc_At :: instant

record CancelPreparedCommand =
  cpc_EffectID :: string
  cpc_ExpectedRevision :: u64
  cpc_CommandID :: string
  cpc_At :: instant

record CompensationCommand =
  cc_EffectID :: string
  cc_ExpectedRevision :: u64
  cc_To :: EffectCompensationState
  cc_CompensationCommandID :: string
  cc_Failure :: "StructuredFailure option"
  cc_RetryAt :: "instant option"
  cc_CommandID :: string
  cc_At :: instant

record ObserveCompensationCommand =
  occ_EffectID :: string
  occ_ExpectedRevision :: u64
  occ_Receipt :: CommandReceipt
  occ_CommandID :: string

record ReconcileCompensationCommand =
  rcc_EffectID :: string
  rcc_ExpectedRevision :: u64
  rcc_EvidenceDigest :: string
  rcc_ReconciledBy :: string
  rcc_ReasonCode :: string
  rcc_CommandID :: string
  rcc_At :: instant

record Decision =
  dec_Effect :: EffectRecord
  dec_Ledger :: "CommandLedger option"
  dec_Events :: "DomainEvent list"
  dec_Intents :: "DurableIntent list"

section \<open>Identities, events, intents\<close>

definition effect_stableID :: "string \<Rightarrow> string \<Rightarrow> json list \<Rightarrow> string result" where
  "effect_stableID pre domain parts =
     andThen (DigestValue (JArr (JStr domain # parts))) (\<lambda>digest. Inr (pre @ ''-'' @ drop 7 digest))"

definition StableEffectID :: "string \<Rightarrow> string \<Rightarrow> string result" where
  "StableEffectID invocationID effectKey = effect_stableID ''eff'' ''xgc.effect/v1'' [JStr invocationID, JStr effectKey]"

definition StableReceiptID :: "string \<Rightarrow> u32 \<Rightarrow> string result" where
  "StableReceiptID commandID sequence = effect_stableID ''rcp'' ''xgc.command-receipt/v1'' [JStr commandID, JU32 sequence]"

definition effect_newEvent :: "EffectRecord \<Rightarrow> string \<Rightarrow> string \<Rightarrow> instant \<Rightarrow> payload \<Rightarrow> DomainEvent result" where
  "effect_newEvent r ty command at payload =
     andThen (DigestValue (JObj payload)) (\<lambda>digest.
     andThen (StableEventID ''effect'' (eff_EffectID r) (eff_Revision r)) (\<lambda>ident.
       Inr \<lparr>ev_EventID = ident, ev_AggregateType = ''effect'', ev_AggregateID = eff_EffectID r,
            ev_AggregateRevision = eff_Revision r, ev_Type = ty, ev_CommandID = command, ev_CausationID = [],
            ev_CorrelationID = [],
            ev_PayloadSchemaDigest = ''sha256:82ef96cebaf5fbe16269fd18b0240d78f5b9b90a4155a17eb797115b09148ecf'',
            ev_PayloadDigest = digest, ev_Payload = payload, ev_OccurredAt = at\<rparr>))"

definition durableIntent :: "DurableIntentKind \<Rightarrow> string \<Rightarrow> u64 \<Rightarrow> payload \<Rightarrow> DurableIntent result" where
  "durableIntent kind aggregateID revision payload =
     andThen (DigestValue (JObj payload)) (\<lambda>digest.
     andThen (StableIntentID kind aggregateID revision) (\<lambda>ident.
       Inr \<lparr>di_Kind = kind, di_Identity = ident, di_AggregateID = aggregateID, di_PayloadDigest = digest,
            di_Payload = payload\<rparr>))"

section \<open>Validators\<close>

text \<open>\<^verbatim>\<open>validateSortedIdentities\<close>: the loop remembers the previous value.\<close>

fun validate_identities :: "string option \<Rightarrow> string list \<Rightarrow> error option" where
  "validate_identities prev [] = None"
| "validate_identities prev (x # xs) = first_error
     [validateIdentity x, fail_if (prev = Some x) (Errorf ''contains duplicate''), validate_identities (Some x) xs]"

definition validateSortedIdentities :: "string list \<Rightarrow> error option" where
  "validateSortedIdentities values = first_error
     [fail_if (\<not> sorted values) (Errorf ''must be sorted''), validate_identities None values]"

definition effect_validateFailure :: "StructuredFailure option \<Rightarrow> bool \<Rightarrow> error option" where
  "effect_validateFailure failure uncertain =
     (case failure of None \<Rightarrow> Some (Errorf ''failure is required'')
      | Some f \<Rightarrow> first_error
          [fail_if (\<not> FailureClass_Valid (fail_Class f) \<or> \<not> ValidIdentifier (fail_Code f) \<or> fail_Message f = [])
             (Errorf ''failure is invalid''),
           fail_if (uncertain \<and> fail_Class f \<noteq> FailureUncertain) (Errorf ''failure must be uncertain''),
           validateOptionalIdentity (fail_EvidenceRef f)])"

text \<open>The class of a failure that may be absent; absent is no class.\<close>

definition failure_is :: "StructuredFailure option \<Rightarrow> FailureClass \<Rightarrow> bool" where
  "failure_is f c = (case f of None \<Rightarrow> False | Some x \<Rightarrow> fail_Class x = c)"

definition ValidateIntent :: "EffectIntent \<Rightarrow> instant \<Rightarrow> error option" where
  "ValidateIntent i at = first_error
     [validateIdentity (ei_EffectID i), validateIdentity (ei_NamespaceID i), validateIdentity (ei_RunID i),
      validateIdentity (ei_InvocationID i), validateIdentity (ei_PreparedAttemptID i), validateIdentity (ei_EffectKey i),
      validateIdentity (ei_TargetRef i),
      fail_if (\<not> ValidTypeRef (ei_Kind i)) (Errorf ''effect kind must be a versioned type ref''),
      fail_if (\<not> ValidDigest (ei_IntentSchemaDigest i) \<or> \<not> ValidDigest (ei_IntentDigest i) \<or>
               \<not> ValidDigest (ei_PolicyDigest i) \<or> \<not> ValidDigest (ei_DescriptorDigest i))
        (Errorf ''is invalid''),
      validateOptionalIdentity (ei_IntentArtifactRef i),
      (case ei_Intent i of
         None \<Rightarrow> Some (Errorf ''effect intent payload is required'')
       | Some p \<Rightarrow> fail_if (DigestValue (JObj p) \<noteq> Inr (ei_IntentDigest i)) (Errorf ''effect intent payload digest is invalid'')),
      fail_if (\<not> EffectOwnership_Valid (ei_Ownership i) \<or> \<not> CompensationPolicy_Valid (ei_CompensationPolicy i))
        (Errorf ''effect ownership or compensation policy is invalid''),
      fail_if (ei_Ownership i \<noteq> EffectOwned \<and> ei_CompensationPolicy i \<noteq> CompensationNone)
        (Errorf ''only owned effects can require compensation''),
      validateSortedIdentities (ei_RequiredCapabilityRefs i),
      fail_if (IsZero (ei_Deadline i) \<or> (\<not> IsZero at \<and> \<not> After (ei_Deadline i) at))
        (Errorf ''effect deadline must be after preparation'')]"

definition intent_digest :: "EffectIntent \<Rightarrow> string result" where
  "intent_digest i = andThen (EffectIntent_json i) DigestValue"

definition validateCompensation :: "EffectRecord \<Rightarrow> error option" where
  "validateCompensation r =
     (if ei_CompensationPolicy (eff_Intent r) = CompensationNone then
        fail_if (eff_CompensationState r \<noteq> EffectCompensationNotRequired \<or> eff_CompensationReconciliation r \<noteq> None)
          (Errorf ''non-compensatable effect has compensation state'')
      else first_error
        [fail_if (eff_CompensationState r = EffectCompensationNotRequired)
           (Errorf ''compensatable effect is marked not-required''),
         fail_if (eff_CompensationAttemptCount r = 0 \<and> eff_CompensationState r = EffectCompensationRunning)
           (Errorf ''running compensation has no attempt''),
         (if eff_CompensationState r = EffectCompensationRetryWait
          then fail_if (eff_CompensationNextAt r = None \<or> eff_CompensationFailure r = None)
                 (Errorf ''compensation retry-wait requires failure and next time'')
          else fail_if (eff_CompensationNextAt r \<noteq> None) (Errorf ''compensation next time exists outside retry-wait'')),
         (if eff_CompensationState r = EffectCompensationFailed
          then fail_if (eff_CompensationFailure r = None) (Errorf ''failed compensation requires failure'')
          else fail_if (eff_CompensationState r \<noteq> EffectCompensationRetryWait \<and> eff_CompensationFailure r \<noteq> None)
                 (Errorf ''compensation failure exists outside failed or retry-wait'')),
         (if eff_CompensationState r = EffectCompensationRunning then validateIdentity (eff_CompensationCommandID r) else None),
         (if eff_CompensationState r = EffectCompensationReconciled then
            (case eff_CompensationReconciliation r of
               None \<Rightarrow> Some (Errorf ''reconciled compensation proof is invalid'')
             | Some proof \<Rightarrow> first_error
                 [fail_if (ei_CompensationPolicy (eff_Intent r) \<noteq> CompensationRequired \<or> ecr_RequestedRevision proof = 0 \<or>
                           ecr_RequestedRevision proof + 1 \<noteq> eff_Revision r \<or> \<not> ValidDigest (ecr_EvidenceDigest proof) \<or>
                           IsZero (ecr_ObservedAt proof) \<or> ecr_ObservedAt proof \<noteq> eff_UpdatedAt r \<or>
                           eff_CompensationFinishedAt r \<noteq> Some (ecr_ObservedAt proof))
                    (Errorf ''reconciled compensation proof is invalid''),
                  validateIdentity (ecr_ReconciledBy proof), validateIdentity (ecr_ReasonCode proof),
                  validateIdentity (ecr_CommandID proof)])
          else fail_if (eff_CompensationReconciliation r \<noteq> None)
                 (Errorf ''compensation reconciliation proof exists outside reconciled state''))])"

definition no_observation :: "EffectRecord \<Rightarrow> bool" where
  "no_observation r \<longleftrightarrow> eff_ResultDigest r = [] \<and> eff_ResultArtifactRef r = [] \<and> eff_ExternalIdentity r = [] \<and>
     eff_PrimaryFailure r = None"

definition validate_primary :: "EffectRecord \<Rightarrow> error option" where
  "validate_primary r = first_error
     [(if eff_State r = EffectPrepared then
         fail_if (eff_CommandID r \<noteq> [] \<or> eff_CommandIdentityDigest r \<noteq> [] \<or> eff_ApplyingAt r \<noteq> None \<or>
                  eff_PrimaryTerminalAt r \<noteq> None \<or> eff_PrimaryTerminalRevision r \<noteq> 0)
           (Errorf ''prepared effect contains application state'')
       else if eff_State r = EffectCanceled then
         fail_if (eff_CommandID r \<noteq> [] \<or> eff_CommandIdentityDigest r \<noteq> [] \<or> eff_ApplyingAt r \<noteq> None \<or>
                  eff_PrimaryTerminalAt r = None)
           (Errorf ''pre-dispatch canceled effect contains provider application state or lacks its terminal time'')
       else first_error
         [validateIdentity (eff_CommandID r),
          fail_if (\<not> ValidDigest (eff_CommandIdentityDigest r) \<or> eff_ApplyingAt r = None)
            (Errorf ''started effect requires command identity and applying time'')]),
      (case eff_ApplyingAt r of None \<Rightarrow> None
       | Some t \<Rightarrow> fail_if (Before t (eff_PreparedAt r) \<or> After t (eff_UpdatedAt r))
           (Errorf ''effect applying time is outside its lifecycle'')),
      fail_if (EffectState_Terminal (eff_State r) \<noteq> (eff_PrimaryTerminalAt r \<noteq> None))
        (Errorf ''effect terminal observation and terminal time disagree''),
      (case eff_PrimaryTerminalAt r of None \<Rightarrow> None
       | Some t \<Rightarrow> fail_if (Before t (eff_PreparedAt r) \<or> After t (eff_UpdatedAt r))
           (Errorf ''effect terminal time is outside its lifecycle'')),
      fail_if (EffectState_Terminal (eff_State r) \<noteq> (eff_PrimaryTerminalRevision r \<noteq> 0) \<or>
               eff_PrimaryTerminalRevision r > eff_Revision r)
        (Errorf ''effect primary terminal revision is outside its lifecycle''),
      (case eff_State r of
         EffectApplied \<Rightarrow> fail_if (\<not> ValidDigest (eff_ResultDigest r) \<or> eff_PrimaryFailure r \<noteq> None)
           (Errorf ''applied effect requires a result digest and no failure'')
       | EffectFailed \<Rightarrow> fail_if (effect_validateFailure (eff_PrimaryFailure r) False \<noteq> None \<or>
             failure_is (eff_PrimaryFailure r) FailureUncertain)
           (Errorf ''failed effect requires a non-uncertain failure'')
       | EffectUncertain \<Rightarrow> fail_if (effect_validateFailure (eff_PrimaryFailure r) True \<noteq> None \<or>
             \<not> failure_is (eff_PrimaryFailure r) FailureUncertain)
           (Errorf ''uncertain effect requires an uncertain failure'')
       | EffectCanceled \<Rightarrow> fail_if (\<not> no_observation r) (Errorf ''pre-dispatch canceled effect contains a provider observation'')
       | _ \<Rightarrow> fail_if (\<not> no_observation r) (Errorf ''nonterminal effect contains a terminal observation''))]"

definition ValidateRecord :: "EffectRecord \<Rightarrow> error option" where
  "ValidateRecord r = first_error
     [ValidateIntent (eff_Intent r) zero_time,
      fail_if (eff_EffectID r \<noteq> ei_EffectID (eff_Intent r) \<or> \<not> EffectState_Valid (eff_State r) \<or>
               \<not> EffectCompensationState_Valid (eff_CompensationState r) \<or> eff_Revision r = 0)
        (Errorf ''effect identity, state, compensation state, or revision is invalid''),
      fail_if (intent_digest (eff_Intent r) \<noteq> Inr (eff_PreparationDigest r)) (Errorf ''effect preparation digest is invalid''),
      fail_if (IsZero (eff_PreparedAt r) \<or> Before (eff_UpdatedAt r) (eff_PreparedAt r)) (Errorf ''effect timestamps are invalid''),
      validate_primary r,
      validateCompensation r]"

section \<open>Envelopes and receipts\<close>

definition fence_variants :: "TargetFence \<Rightarrow> nat" where
  "fence_variants f = (if tf_Revision f \<noteq> None then 1 else 0) + (if tf_Generation f \<noteq> None then 1 else 0) +
     (if tf_IdempotentCreate f \<noteq> None then 1 else 0)"

definition validateFence :: "TargetFence \<Rightarrow> error option" where
  "validateFence f =
     (if fence_variants f \<noteq> 1 then Some (Errorf ''target fence must select exactly one variant'')
      else case tf_Kind f of
        FenceRevision \<Rightarrow>
          (case tf_Revision f of
             None \<Rightarrow> Some (Errorf ''revision fence union is invalid'')
           | Some v \<Rightarrow> first_error
               [fail_if (tf_Generation f \<noteq> None \<or> tf_IdempotentCreate f \<noteq> None \<or> rf_ExpectedRevision v = 0)
                  (Errorf ''revision fence union is invalid''),
                validateIdentity (rf_TargetID v)])
      | FenceGeneration \<Rightarrow>
          (case tf_Generation f of
             None \<Rightarrow> Some (Errorf ''generation fence union is invalid'')
           | Some v \<Rightarrow> first_error
               [fail_if (tf_Revision f \<noteq> None \<or> tf_IdempotentCreate f \<noteq> None \<or> gf_Generation v = 0 \<or> gf_FencingToken v = 0)
                  (Errorf ''generation fence union is invalid''),
                validateIdentity (gf_BindingID v)])
      | FenceIdempotentCreate \<Rightarrow>
          (case tf_IdempotentCreate f of
             None \<Rightarrow> Some (Errorf ''idempotent-create fence union is invalid'')
           | Some v \<Rightarrow> first_error
               [fail_if (tf_Revision f \<noteq> None \<or> tf_Generation f \<noteq> None \<or> \<not> ValidDigest (icf_IdentityDigest v))
                  (Errorf ''idempotent-create fence union is invalid''),
                validateIdentity (icf_TargetNamespace v)])
      | FenceKindOther _ \<Rightarrow> Some (Errorf ''target fence kind is invalid''))"

definition FenceDigest :: "TargetFence \<Rightarrow> string result" where
  "FenceDigest f = ensure (validateFence f) (DigestValue (TargetFence_json f))"

text \<open>A nil slice prints as \<^verbatim>\<open>null\<close>: the copy of an empty list of references is nil.\<close>

definition CommandIdentityDigest :: "CommandEnvelope \<Rightarrow> string result" where
  "CommandIdentityDigest e = andThen (time_json (ce_Deadline e)) (\<lambda>deadline. DigestValue (JObj
     [(''commandId'', JStr (ce_CommandID e)), (''effectId'', JStr (ce_EffectID e)),
      (''idempotencyKeyHash'', JStr (ce_IdempotencyKeyHash e)), (''namespaceId'', JStr (ce_NamespaceID e)),
      (''targetRef'', JStr (ce_TargetRef e)), (''action'', JStr (ce_Action e)), (''actorRef'', JStr (ce_ActorRef e)),
      (''sourceRef'', JStr (ce_SourceRef e)), (''reasonCode'', JStr (ce_ReasonCode e)), (''reason'', JStr (ce_Reason e)),
      (''risk'', JStr (CommandRisk_string (ce_Risk e))), (''fence'', TargetFence_json (ce_Fence e)),
      (''payloadDigest'', JStr (ce_PayloadDigest e)), (''payloadArtifactRef'', JStr (ce_PayloadArtifactRef e)),
      (''policyDigest'', JStr (ce_PolicyDigest e)), (''descriptorDigest'', JStr (ce_DescriptorDigest e)),
      (''manifestDigest'', JStr (ce_ManifestDigest e)), (''deadline'', deadline),
      (''cancellationId'', JStr (ce_CancellationID e)),
      (''requiredCapabilityRefs'',
        if ce_RequiredCapabilityRefs e = [] then JNull else JArr (map JStr (ce_RequiredCapabilityRefs e))),
      (''capabilityTokenHash'', JStr (ce_CapabilityTokenHash e))]))"

definition ValidateEnvelope :: "CommandEnvelope \<Rightarrow> error option" where
  "ValidateEnvelope e = first_error
     [validateIdentity (ce_CommandID e), validateIdentity (ce_EffectID e), validateIdentity (ce_NamespaceID e),
      validateIdentity (ce_TargetRef e), validateIdentity (ce_Action e), validateIdentity (ce_ActorRef e),
      validateIdentity (ce_SourceRef e), validateIdentity (ce_ReasonCode e), validateIdentity (ce_CancellationID e),
      validateOptionalIdentity (ce_RequestID e),
      fail_if (\<not> CommandRisk_Valid (ce_Risk e) \<or> IsZero (ce_Deadline e)) (Errorf ''command risk or deadline is invalid''),
      fail_if (\<not> ValidDigest (ce_IdempotencyKeyHash e) \<or> \<not> ValidDigest (ce_IdentityDigest e) \<or>
               \<not> ValidDigest (ce_PayloadDigest e) \<or> \<not> ValidDigest (ce_PolicyDigest e) \<or> \<not> ValidDigest (ce_DescriptorDigest e))
        (Errorf ''command digest is invalid''),
      fail_if (\<not> ValidOptionalDigest (ce_ManifestDigest e) \<or> \<not> ValidOptionalDigest (ce_CapabilityTokenHash e))
        (Errorf ''command manifest or capability token hash is invalid''),
      validateOptionalIdentity (ce_PayloadArtifactRef e),
      validateSortedIdentities (ce_RequiredCapabilityRefs e),
      validateFence (ce_Fence e),
      fail_if (CommandIdentityDigest e \<noteq> Inr (ce_IdentityDigest e)) (Errorf ''command identity digest is invalid'')]"

definition ValidatePrivateEnvelopeTokens :: "CommandEnvelope \<Rightarrow> error option" where
  "ValidatePrivateEnvelopeTokens e = first_error
     [ValidateEnvelope e,
      fail_if (PrivateTokenDigest (ce_IdempotencyKey e) \<noteq> Inr (ce_IdempotencyKeyHash e))
        (Errorf ''command idempotency key does not match its public hash''),
      (if ce_RequiredCapabilityRefs e = [] then
         fail_if (ce_CapabilityToken e \<noteq> [] \<or> ce_CapabilityTokenHash e \<noteq> [])
           (Errorf ''command without capabilities carries a capability token'')
       else fail_if (PrivateTokenDigest (ce_CapabilityToken e) \<noteq> Inr (ce_CapabilityTokenHash e))
              (Errorf ''command capability token does not match its public hash''))]"

definition ValidateEnvelopeForIntent :: "CommandEnvelope \<Rightarrow> EffectIntent \<Rightarrow> instant \<Rightarrow> bool \<Rightarrow> error option" where
  "ValidateEnvelopeForIntent e i at requirePrivate = first_error
     [ValidateEnvelope e,
      fail_if (ce_EffectID e \<noteq> ei_EffectID i \<or> ce_NamespaceID e \<noteq> ei_NamespaceID i \<or> ce_TargetRef e \<noteq> ei_TargetRef i \<or>
               ce_PolicyDigest e \<noteq> ei_PolicyDigest i \<or> ce_DescriptorDigest e \<noteq> ei_DescriptorDigest i \<or>
               ce_RequiredCapabilityRefs e \<noteq> ei_RequiredCapabilityRefs i)
        ErrCommandConflict,
      fail_if (After (ce_Deadline e) (ei_Deadline i) \<or> \<not> After (ce_Deadline e) at)
        (Errorf ''command deadline exceeds the prepared effect deadline or has elapsed''),
      fail_if (ei_RequiredCapabilityRefs i = [] \<and> (ce_CapabilityToken e \<noteq> [] \<or> ce_CapabilityTokenHash e \<noteq> []))
        (Errorf ''command without capabilities carries a capability token''),
      (if requirePrivate then ValidatePrivateEnvelopeTokens e else None)]"

definition receipt_outcome_ok :: "CommandReceipt \<Rightarrow> error option" where
  "receipt_outcome_ok r = (case cr_Status r of
     ReceiptAccepted \<Rightarrow> fail_if (cr_Sequence r \<noteq> 1 \<or> cr_ResultDigest r \<noteq> [] \<or> cr_ResultArtifactRef r \<noteq> [] \<or> cr_Failure r \<noteq> None)
       (Errorf ''accepted receipt must be the first nonterminal observation'')
   | ReceiptRejected \<Rightarrow> first_error
       [fail_if (cr_Sequence r \<noteq> 1 \<or> cr_ResultDigest r \<noteq> [] \<or> cr_ResultArtifactRef r \<noteq> [])
          (Errorf ''rejected receipt must be the first terminal observation''),
        fail_if (effect_validateFailure (cr_Failure r) False \<noteq> None \<or> failure_is (cr_Failure r) FailureUncertain)
          (Errorf ''rejected receipt requires a non-uncertain failure'')]
   | ReceiptSucceeded \<Rightarrow> fail_if (cr_Sequence r \<noteq> 2 \<or> \<not> ValidDigest (cr_ResultDigest r) \<or> cr_Failure r \<noteq> None)
       (Errorf ''succeeded receipt requires result digest and no failure'')
   | ReceiptFailed \<Rightarrow> first_error
       [fail_if (cr_Sequence r \<noteq> 2 \<or> cr_ResultDigest r \<noteq> [] \<or> cr_ResultArtifactRef r \<noteq> [])
          (Errorf ''failed receipt must follow accepted without a result''),
        fail_if (effect_validateFailure (cr_Failure r) False \<noteq> None \<or> failure_is (cr_Failure r) FailureUncertain)
          (Errorf ''failed receipt requires a non-uncertain failure'')]
   | ReceiptUncertain \<Rightarrow> first_error
       [fail_if (cr_Sequence r \<noteq> 2 \<or> cr_ResultDigest r \<noteq> [] \<or> cr_ResultArtifactRef r \<noteq> [])
          (Errorf ''uncertain receipt must follow accepted without a result''),
        fail_if (effect_validateFailure (cr_Failure r) True \<noteq> None \<or> \<not> failure_is (cr_Failure r) FailureUncertain)
          (Errorf ''uncertain receipt requires an uncertain failure'')]
   | ReceiptStatusOther _ \<Rightarrow> None)"

definition validateReceipt :: "CommandEnvelope \<Rightarrow> CommandReceipt \<Rightarrow> error option" where
  "validateReceipt e r = first_error
     [fail_if (StableReceiptID (ce_CommandID e) (cr_Sequence r) \<noteq> Inr (cr_ReceiptID r) \<or> cr_CommandID r \<noteq> ce_CommandID e \<or>
               cr_IdentityDigest r \<noteq> ce_IdentityDigest e)
        ErrReceiptConflict,
      fail_if (\<not> ReceiptStatus_Valid (cr_Status r) \<or> cr_Sequence r = 0 \<or> IsZero (cr_ObservedAt r))
        (Errorf ''receipt status, sequence, or time is invalid''),
      fail_if (FenceDigest (ce_Fence e) \<noteq> Inr (cr_FenceDigest r)) (Errorf ''receipt fence digest is invalid''),
      validateIdentity (cr_ProviderRef r),
      fail_if (\<not> ValidDigest (cr_ProviderDigest r) \<or> \<not> ValidDigest (cr_PolicyDigest r) \<or> \<not> ValidDigest (cr_AuthorizationDigest r))
        (Errorf ''receipt digest is invalid''),
      fail_if (cr_PolicyDigest r \<noteq> ce_PolicyDigest e \<or> \<not> ValidOptionalDigest (cr_ResultDigest r))
        (Errorf ''receipt policy or result digest does not match the command''),
      validateOptionalIdentity (cr_ResultArtifactRef r), validateOptionalIdentity (cr_ExternalIdentity r),
      receipt_outcome_ok r]"

text \<open>The loop over the receipts: position, whether a terminal one was seen, the previous one.\<close>

fun validate_receipts :: "CommandEnvelope \<Rightarrow> nat \<Rightarrow> bool \<Rightarrow> CommandReceipt option \<Rightarrow> CommandReceipt list \<Rightarrow> error option" where
  "validate_receipts e index terminal prev [] = None"
| "validate_receipts e index terminal prev (r # rs) = first_error
     [fail_if terminal (Errorf ''receipt appears after terminal observation''),
      fail_if (cr_Sequence r \<noteq> word_of_nat (index + 1)) (Errorf ''receipt sequence is not contiguous''),
      validateReceipt e r,
      (case prev of None \<Rightarrow> None | Some p \<Rightarrow> first_error
         [fail_if (cr_ProviderRef p \<noteq> cr_ProviderRef r) (Errorf ''command receipts disagree on provider''),
          fail_if (Before (cr_ObservedAt r) (cr_ObservedAt p)) (Errorf ''command receipt time moves backwards'')]),
      validate_receipts e (index + 1) (ReceiptStatus_Terminal (cr_Status r)) (Some r) rs]"

definition ValidateLedger :: "CommandLedger \<Rightarrow> error option" where
  "ValidateLedger l = first_error [ValidateEnvelope (cl_Envelope l), validate_receipts (cl_Envelope l) 0 False None (cl_Receipts l)]"

definition validateNextReceipt :: "CommandLedger \<Rightarrow> CommandReceipt \<Rightarrow> error option" where
  "validateNextReceipt l r = first_error
     [fail_if (cl_Receipts l \<noteq> [] \<and> ReceiptStatus_Terminal (cr_Status (last (cl_Receipts l)))) ErrReceiptConflict,
      fail_if (cr_Sequence r \<noteq> word_of_nat (length (cl_Receipts l) + 1)) ErrReceiptConflict,
      validateReceipt (cl_Envelope l) r]"

section \<open>Preparation and cancellation\<close>

definition prepared_record :: "PrepareCommand \<Rightarrow> string \<Rightarrow> EffectRecord" where
  "prepared_record c digest =
     \<lparr>eff_EffectID = ei_EffectID (pc_Intent c), eff_Intent = pc_Intent c, eff_PreparationDigest = digest,
      eff_State = EffectPrepared, eff_CommandID = [], eff_CommandIdentityDigest = [], eff_ExternalIdentity = [],
      eff_ResultDigest = [], eff_ResultArtifactRef = [], eff_PrimaryFailure = None,
      eff_CompensationState = (if ei_CompensationPolicy (pc_Intent c) \<noteq> CompensationNone then EffectCompensationUnscheduled
                               else EffectCompensationNotRequired),
      eff_CompensationAttemptCount = 0, eff_CompensationCommandID = [], eff_CompensationFailure = None,
      eff_CompensationNextAt = None, eff_CompensationReconciliation = None, eff_PreparedAt = pc_At c,
      eff_ApplyingAt = None, eff_PrimaryTerminalAt = None, eff_PrimaryTerminalRevision = 0,
      eff_CompensationStartedAt = None, eff_CompensationFinishedAt = None, eff_UpdatedAt = pc_At c, eff_Revision = 1\<rparr>"

definition effect_decision :: "EffectRecord \<Rightarrow> string \<Rightarrow> string \<Rightarrow> instant \<Rightarrow> payload \<Rightarrow> Decision result" where
  "effect_decision next ty command at payload =
     andThen (effect_newEvent next ty command at payload) (\<lambda>event.
       Inr \<lparr>dec_Effect = next, dec_Ledger = None, dec_Events = [event], dec_Intents = []\<rparr>)"

definition Prepare :: "PrepareCommand \<Rightarrow> Decision result" where
  "Prepare c =
     ensure (validateIdentity (pc_CommandID c)) (
     ensure (fail_if (IsZero (pc_At c)) (Errorf ''effect preparation time is required'')) (
     ensure (ValidateIntent (pc_Intent c) (pc_At c)) (
     ensure (fail_if (StableEffectID (ei_InvocationID (pc_Intent c)) (ei_EffectKey (pc_Intent c)) \<noteq> Inr (ei_EffectID (pc_Intent c)))
               (Errorf ''effect identity does not match invocation and key'')) (
     andThen (intent_digest (pc_Intent c)) (\<lambda>digest.
     ensure (ValidateRecord (prepared_record c digest)) (
     effect_decision (prepared_record c digest) ''effect.prepared'' (pc_CommandID c) (pc_At c)
       [(''preparationDigest'', JStr digest), (''intentDigest'', JStr (ei_IntentDigest (pc_Intent c)))]))))))"

definition ReplayPrepare :: "EffectRecord \<Rightarrow> PrepareCommand \<Rightarrow> Decision result" where
  "ReplayPrepare existing c =
     ensure (ValidateRecord existing) (
     andThen (Prepare c) (\<lambda>prepared.
     ensure (fail_if (eff_EffectID existing \<noteq> eff_EffectID (dec_Effect prepared) \<or>
                      eff_PreparationDigest existing \<noteq> eff_PreparationDigest (dec_Effect prepared)) ErrEffectConflict) (
     Inr \<lparr>dec_Effect = existing, dec_Ledger = None, dec_Events = [], dec_Intents = []\<rparr>)))"

definition canceled_effect :: "EffectRecord \<Rightarrow> instant \<Rightarrow> EffectRecord" where
  "canceled_effect r at =
     (\<lambda>n. if ei_CompensationPolicy (eff_Intent r) \<noteq> CompensationNone
          then n\<lparr>eff_CompensationState := EffectCompensationCanceled, eff_CompensationFinishedAt := Some at\<rparr> else n)
     (r\<lparr>eff_State := EffectCanceled, eff_PrimaryTerminalAt := Some at, eff_UpdatedAt := at,
        eff_Revision := eff_Revision r + 1, eff_PrimaryTerminalRevision := eff_Revision r + 1\<rparr>)"

definition CancelPrepared :: "EffectRecord \<Rightarrow> CancelPreparedCommand \<Rightarrow> Decision result" where
  "CancelPrepared r c =
     ensure (first_error
       [ValidateRecord r,
        fail_if (cpc_EffectID c \<noteq> eff_EffectID r \<or> cpc_ExpectedRevision c \<noteq> eff_Revision r) (ErrRevisionConflict EffectPkg),
        fail_if (eff_State r \<noteq> EffectPrepared) (ErrInvalidTransition EffectPkg),
        validateIdentity (cpc_CommandID c),
        fail_if (IsZero (cpc_At c) \<or> Before (cpc_At c) (eff_UpdatedAt r))
          (Errorf ''effect cancellation time is missing or moves backwards''),
        ValidateRecord (canceled_effect r (cpc_At c))]) (
     effect_decision (canceled_effect r (cpc_At c)) ''effect.canceled'' (cpc_CommandID c) (cpc_At c)
       [(''from'', JStr (EffectState_string (eff_State r))), (''to'', JStr (EffectState_string EffectCanceled))])"

section \<open>Application\<close>

definition begun_effect :: "EffectRecord \<Rightarrow> BeginCommand \<Rightarrow> EffectRecord" where
  "begun_effect r c = r\<lparr>eff_State := EffectApplying, eff_CommandID := ce_CommandID (bc_Envelope c),
     eff_CommandIdentityDigest := ce_IdentityDigest (bc_Envelope c), eff_ExternalIdentity := [], eff_ResultDigest := [],
     eff_ResultArtifactRef := [], eff_PrimaryFailure := None, eff_PrimaryTerminalAt := None,
     eff_PrimaryTerminalRevision := 0, eff_ApplyingAt := Some (bc_At c), eff_UpdatedAt := bc_At c,
     eff_Revision := eff_Revision r + 1\<rparr>"

definition validateBegin :: "EffectRecord \<Rightarrow> BeginCommand \<Rightarrow> error option" where
  "validateBegin r c = first_error
     [ValidateRecord r,
      fail_if (bc_EffectID c \<noteq> eff_EffectID r \<or> bc_ExpectedRevision c \<noteq> eff_Revision r) (ErrRevisionConflict EffectPkg),
      fail_if (bc_CommandID c \<noteq> ce_CommandID (bc_Envelope c)) (Errorf ''begin command id must equal envelope command id''),
      fail_if (IsZero (bc_At c) \<or> Before (bc_At c) (eff_UpdatedAt r)) (Errorf ''effect begin time is missing or moves backwards''),
      fail_if (eff_State r = EffectUncertain) ErrReconcileRequired,
      fail_if (eff_State r \<noteq> EffectPrepared \<and> \<not> (eff_State r = EffectFailed \<and> failure_is (eff_PrimaryFailure r) FailureTransient))
        (ErrInvalidTransition EffectPkg),
      fail_if (eff_CommandID r \<noteq> [] \<and> ce_CommandID (bc_Envelope c) = eff_CommandID r) ErrCommandConflict,
      ValidateEnvelopeForIntent (bc_Envelope c) (eff_Intent r) (bc_At c) True]"

definition Begin :: "EffectRecord \<Rightarrow> BeginCommand \<Rightarrow> Decision result" where
  "Begin r c =
     ensure (validateBegin r c) (
     ensure (ValidateRecord (begun_effect r c)) (
     ensure (ValidateLedger \<lparr>cl_Envelope = bc_Envelope c, cl_Receipts = []\<rparr>) (
     andThen (CommandEnvelope_json (bc_Envelope c)) (\<lambda>envelope.
     andThen (durableIntent IntentOutbox (eff_EffectID r) (eff_Revision r + 1) [(''command'', envelope)]) (\<lambda>intent.
     andThen (effect_newEvent (begun_effect r c) ''effect.applying'' (bc_CommandID c) (bc_At c)
       [(''commandId'', JStr (ce_CommandID (bc_Envelope c))),
        (''commandIdentityDigest'', JStr (ce_IdentityDigest (bc_Envelope c)))]) (\<lambda>event.
     Inr \<lparr>dec_Effect = begun_effect r c, dec_Ledger = Some \<lparr>cl_Envelope = bc_Envelope c, cl_Receipts = []\<rparr>,
          dec_Events = [event], dec_Intents = [intent]\<rparr>))))))"

definition receipt_payload :: "CommandReceipt \<Rightarrow> payload" where
  "receipt_payload r = [(''commandId'', JStr (cr_CommandID r)), (''receiptId'', JStr (cr_ReceiptID r)),
     (''sequence'', JU32 (cr_Sequence r))]"

definition append_receipt :: "CommandLedger \<Rightarrow> CommandReceipt \<Rightarrow> CommandLedger" where
  "append_receipt l r = l\<lparr>cl_Receipts := cl_Receipts l @ [r]\<rparr>"

definition observed_effect :: "EffectRecord \<Rightarrow> CommandReceipt \<Rightarrow> EffectRecord result" where
  "observed_effect r receipt =
     (\<lambda>n. case cr_Status receipt of
        ReceiptAccepted \<Rightarrow> Inr n
      | ReceiptSucceeded \<Rightarrow> Inr (n\<lparr>eff_State := EffectApplied, eff_ResultDigest := cr_ResultDigest receipt,
          eff_ResultArtifactRef := cr_ResultArtifactRef receipt, eff_ExternalIdentity := cr_ExternalIdentity receipt,
          eff_PrimaryTerminalAt := Some (cr_ObservedAt receipt), eff_PrimaryTerminalRevision := eff_Revision n\<rparr>)
      | ReceiptRejected \<Rightarrow> Inr (n\<lparr>eff_State := EffectFailed, eff_PrimaryFailure := cr_Failure receipt,
          eff_PrimaryTerminalAt := Some (cr_ObservedAt receipt), eff_PrimaryTerminalRevision := eff_Revision n\<rparr>)
      | ReceiptFailed \<Rightarrow> Inr (n\<lparr>eff_State := EffectFailed, eff_PrimaryFailure := cr_Failure receipt,
          eff_PrimaryTerminalAt := Some (cr_ObservedAt receipt), eff_PrimaryTerminalRevision := eff_Revision n\<rparr>)
      | ReceiptUncertain \<Rightarrow> Inr (n\<lparr>eff_State := EffectUncertain, eff_PrimaryFailure := cr_Failure receipt,
          eff_ExternalIdentity := cr_ExternalIdentity receipt,
          eff_PrimaryTerminalAt := Some (cr_ObservedAt receipt), eff_PrimaryTerminalRevision := eff_Revision n\<rparr>)
      | ReceiptStatusOther _ \<Rightarrow> Inl ErrReceiptConflict)
     (r\<lparr>eff_UpdatedAt := cr_ObservedAt receipt, eff_Revision := eff_Revision r + 1\<rparr>)"

definition receipt_decision :: "EffectRecord \<Rightarrow> CommandLedger \<Rightarrow> string \<Rightarrow> string \<Rightarrow> CommandReceipt \<Rightarrow> Decision result" where
  "receipt_decision next ledger ty command receipt =
     andThen (effect_newEvent next (ty @ ReceiptStatus_string (cr_Status receipt)) command (cr_ObservedAt receipt) (receipt_payload receipt))
       (\<lambda>event. Inr \<lparr>dec_Effect = next, dec_Ledger = Some ledger, dec_Events = [event], dec_Intents = []\<rparr>)"

definition Observe :: "EffectRecord \<Rightarrow> CommandLedger \<Rightarrow> ObserveCommand \<Rightarrow> Decision result" where
  "Observe r l c =
     ensure (first_error
       [ValidateRecord r, ValidateLedger l,
        fail_if (oc_EffectID c \<noteq> eff_EffectID r \<or> oc_ExpectedRevision c \<noteq> eff_Revision r) (ErrRevisionConflict EffectPkg),
        fail_if (eff_State r \<noteq> EffectApplying \<or> ce_CommandID (cl_Envelope l) \<noteq> eff_CommandID r \<or>
                 ce_EffectID (cl_Envelope l) \<noteq> eff_EffectID r) (ErrInvalidTransition EffectPkg),
        validateIdentity (oc_CommandID c),
        validateNextReceipt l (oc_Receipt c),
        ValidateLedger (append_receipt l (oc_Receipt c))]) (
     andThen (observed_effect r (oc_Receipt c)) (\<lambda>next.
     ensure (ValidateRecord next) (
     receipt_decision next (append_receipt l (oc_Receipt c)) ''effect.receipt.'' (oc_CommandID c) (oc_Receipt c))))"

definition reconciliation_payload :: "EffectRecord \<Rightarrow> payload" where
  "reconciliation_payload r = [(''effectId'', JStr (eff_EffectID r)), (''commandId'', JStr (eff_CommandID r)),
     (''commandIdentityDigest'', JStr (eff_CommandIdentityDigest r)), (''externalIdentity'', JStr (eff_ExternalIdentity r))]"

definition RequestReconciliation :: "EffectRecord \<Rightarrow> ReconcileCommand \<Rightarrow> Decision result" where
  "RequestReconciliation r c =
     ensure (first_error
       [ValidateRecord r,
        fail_if (rc_EffectID c \<noteq> eff_EffectID r \<or> rc_ExpectedRevision c \<noteq> eff_Revision r) (ErrRevisionConflict EffectPkg),
        fail_if (eff_State r \<noteq> EffectUncertain) (ErrInvalidTransition EffectPkg),
        validateIdentity (rc_CommandID c),
        fail_if (IsZero (rc_At c) \<or> Before (rc_At c) (eff_UpdatedAt r)) (Errorf ''reconcile time is missing or moves backwards'')]) (
     (\<lambda>next. andThen (durableIntent IntentReconcile (eff_EffectID next) (eff_Revision next) (reconciliation_payload next)) (\<lambda>intent.
        andThen (effect_newEvent next ''effect.reconciliation-requested'' (rc_CommandID c) (rc_At c) (reconciliation_payload next))
          (\<lambda>event. Inr \<lparr>dec_Effect = next, dec_Ledger = None, dec_Events = [event], dec_Intents = [intent]\<rparr>)))
     (r\<lparr>eff_UpdatedAt := rc_At c, eff_Revision := eff_Revision r + 1\<rparr>))"

section \<open>Compensation of an applied effect\<close>

definition compensation_edges :: "(EffectCompensationState \<times> EffectCompensationState list) list" where
  "compensation_edges =
     [(EffectCompensationUnscheduled, [EffectCompensationPending, EffectCompensationCanceled]),
      (EffectCompensationPending, [EffectCompensationRunning, EffectCompensationCanceled]),
      (EffectCompensationRunning, [EffectCompensationSucceeded, EffectCompensationRetryWait, EffectCompensationFailed,
         EffectCompensationCanceled]),
      (EffectCompensationRetryWait, [EffectCompensationRunning, EffectCompensationFailed, EffectCompensationCanceled])]"

definition validateCompensationTransition :: "EffectCompensationState \<Rightarrow> CompensationCommand \<Rightarrow> error option" where
  "validateCompensationTransition from c = first_error
     [fail_if (\<not> EffectCompensationState_Valid (cc_To c) \<or>
               \<not> (case map_of compensation_edges from of None \<Rightarrow> False | Some tos \<Rightarrow> cc_To c \<in> set tos))
        (ErrInvalidTransition EffectPkg),
      (if cc_To c = EffectCompensationRunning then validateIdentity (cc_CompensationCommandID c)
       else fail_if (cc_CompensationCommandID c \<noteq> []) (Errorf ''compensation command id is only set on running'')),
      (if cc_To c = EffectCompensationRetryWait
       then fail_if ((case cc_RetryAt c of None \<Rightarrow> True | Some t \<Rightarrow> \<not> After t (cc_At c)) \<or> \<not> failure_is (cc_Failure c) FailureTransient)
              (Errorf ''compensation retry-wait requires transient failure and future time'')
       else fail_if (cc_RetryAt c \<noteq> None) (Errorf ''retry time is only set on compensation retry-wait'')),
      (if cc_To c = EffectCompensationFailed
       then fail_if (effect_validateFailure (cc_Failure c) False \<noteq> None) (Errorf ''failed compensation requires failure'')
       else fail_if (cc_To c \<noteq> EffectCompensationRetryWait \<and> cc_Failure c \<noteq> None)
              (Errorf ''compensation failure is only set on failure or retry-wait''))]"

definition compensated_effect :: "EffectRecord \<Rightarrow> CompensationCommand \<Rightarrow> EffectRecord" where
  "compensated_effect r c =
     (\<lambda>n. if cc_To c = EffectCompensationRunning
          then n\<lparr>eff_CompensationAttemptCount := eff_CompensationAttemptCount r + 1,
                 eff_CompensationCommandID := cc_CompensationCommandID c, eff_CompensationStartedAt := Some (cc_At c),
                 eff_CompensationFinishedAt := None\<rparr>
          else if cc_To c \<in> {EffectCompensationSucceeded, EffectCompensationFailed, EffectCompensationCanceled}
          then n\<lparr>eff_CompensationFinishedAt := Some (cc_At c)\<rparr> else n)
     (r\<lparr>eff_CompensationState := cc_To c, eff_CompensationFailure := cc_Failure c, eff_CompensationNextAt := cc_RetryAt c,
        eff_UpdatedAt := cc_At c, eff_Revision := eff_Revision r + 1\<rparr>)"

definition cleanup_intent :: "EffectRecord \<Rightarrow> CompensationCommand \<Rightarrow> Decision \<Rightarrow> Decision result" where
  "cleanup_intent next c d =
     (if cc_To c = EffectCompensationPending \<or> cc_To c = EffectCompensationRetryWait
      then andThen (durableIntent IntentCleanup (eff_EffectID next) (eff_Revision next)
             [(''effectId'', JStr (eff_EffectID next)),
              (''compensationState'', JStr (EffectCompensationState_string (cc_To c))),
              (''effectRevision'', JU64 (eff_Revision next))])
           (\<lambda>intent. Inr (d\<lparr>dec_Intents := [intent]\<rparr>))
      else Inr d)"

definition TransitionCompensation :: "EffectRecord \<Rightarrow> CompensationCommand \<Rightarrow> Decision result" where
  "TransitionCompensation r c =
     ensure (first_error
       [ValidateRecord r,
        fail_if (cc_EffectID c \<noteq> eff_EffectID r \<or> cc_ExpectedRevision c \<noteq> eff_Revision r) (ErrRevisionConflict EffectPkg),
        validateIdentity (cc_CommandID c),
        fail_if (IsZero (cc_At c) \<or> Before (cc_At c) (eff_UpdatedAt r)) (Errorf ''compensation time is missing or moves backwards''),
        fail_if (eff_State r \<noteq> EffectApplied \<or> ei_CompensationPolicy (eff_Intent r) = CompensationNone)
          (ErrInvalidTransition EffectPkg),
        validateCompensationTransition (eff_CompensationState r) c,
        ValidateRecord (compensated_effect r c)]) (
     andThen (effect_decision (compensated_effect r c) (''effect.compensation.'' @ EffectCompensationState_string (cc_To c))
       (cc_CommandID c) (cc_At c)
       [(''from'', JStr (EffectCompensationState_string (eff_CompensationState r))),
        (''to'', JStr (EffectCompensationState_string (cc_To c))),
        (''attemptCount'', JU32 (eff_CompensationAttemptCount (compensated_effect r c)))])
     (cleanup_intent (compensated_effect r c) c))"

definition observed_compensation :: "EffectRecord \<Rightarrow> CommandReceipt \<Rightarrow> EffectRecord result" where
  "observed_compensation r receipt =
     (\<lambda>n. case cr_Status receipt of
        ReceiptAccepted \<Rightarrow> Inr n
      | ReceiptSucceeded \<Rightarrow> Inr (n\<lparr>eff_CompensationState := EffectCompensationSucceeded,
          eff_CompensationFinishedAt := Some (cr_ObservedAt receipt)\<rparr>)
      | ReceiptStatusOther _ \<Rightarrow> Inl ErrReceiptConflict
      | _ \<Rightarrow> Inr (n\<lparr>eff_CompensationState := EffectCompensationFailed, eff_CompensationFailure := cr_Failure receipt,
          eff_CompensationFinishedAt := Some (cr_ObservedAt receipt)\<rparr>))
     (r\<lparr>eff_UpdatedAt := cr_ObservedAt receipt, eff_Revision := eff_Revision r + 1\<rparr>)"

definition ObserveCompensation :: "EffectRecord \<Rightarrow> CommandLedger \<Rightarrow> ObserveCompensationCommand \<Rightarrow> Decision result" where
  "ObserveCompensation r l c =
     ensure (first_error
       [ValidateRecord r, ValidateLedger l,
        fail_if (occ_EffectID c \<noteq> eff_EffectID r \<or> occ_ExpectedRevision c \<noteq> eff_Revision r) (ErrRevisionConflict EffectPkg),
        fail_if (eff_State r \<noteq> EffectApplied \<or> eff_CompensationState r \<noteq> EffectCompensationRunning \<or>
                 ce_CommandID (cl_Envelope l) \<noteq> eff_CompensationCommandID r \<or> ce_EffectID (cl_Envelope l) \<noteq> eff_EffectID r)
          (ErrInvalidTransition EffectPkg),
        validateIdentity (occ_CommandID c),
        validateNextReceipt l (occ_Receipt c),
        ValidateLedger (append_receipt l (occ_Receipt c))]) (
     andThen (observed_compensation r (occ_Receipt c)) (\<lambda>next.
     ensure (ValidateRecord next) (
     receipt_decision next (append_receipt l (occ_Receipt c)) ''effect.compensation.receipt.'' (occ_CommandID c) (occ_Receipt c))))"

definition reconciled_effect :: "EffectRecord \<Rightarrow> ReconcileCompensationCommand \<Rightarrow> EffectRecord" where
  "reconciled_effect r c = r\<lparr>eff_CompensationState := EffectCompensationReconciled, eff_CompensationFailure := None,
     eff_CompensationNextAt := None,
     eff_CompensationReconciliation := Some \<lparr>ecr_RequestedRevision = rcc_ExpectedRevision c,
       ecr_EvidenceDigest = rcc_EvidenceDigest c, ecr_ReconciledBy = rcc_ReconciledBy c, ecr_ReasonCode = rcc_ReasonCode c,
       ecr_CommandID = rcc_CommandID c, ecr_ObservedAt = rcc_At c\<rparr>,
     eff_CompensationFinishedAt := Some (rcc_At c), eff_UpdatedAt := rcc_At c, eff_Revision := eff_Revision r + 1\<rparr>"

definition ReconcileCompensation :: "EffectRecord \<Rightarrow> ReconcileCompensationCommand \<Rightarrow> Decision result" where
  "ReconcileCompensation r c =
     ensure (first_error
       [ValidateRecord r,
        fail_if (rcc_EffectID c \<noteq> eff_EffectID r \<or> rcc_ExpectedRevision c \<noteq> eff_Revision r) (ErrRevisionConflict EffectPkg),
        fail_if (eff_State r \<noteq> EffectApplied \<or> ei_CompensationPolicy (eff_Intent r) \<noteq> CompensationRequired \<or>
                 eff_CompensationState r \<notin> {EffectCompensationFailed, EffectCompensationCanceled, EffectCompensationRetryWait})
          (ErrInvalidTransition EffectPkg),
        fail_if (\<not> ValidDigest (rcc_EvidenceDigest c)) (Errorf ''compensation reconciliation evidence digest is invalid''),
        validateIdentity (rcc_ReconciledBy c), validateIdentity (rcc_ReasonCode c), validateIdentity (rcc_CommandID c),
        fail_if (IsZero (rcc_At c) \<or> Before (rcc_At c) (eff_UpdatedAt r))
          (Errorf ''compensation reconciliation time is missing or moves backwards''),
        ValidateRecord (reconciled_effect r c)]) (
     effect_decision (reconciled_effect r c) ''effect.compensation.reconciled'' (rcc_CommandID c) (rcc_At c)
       [(''evidenceDigest'', JStr (rcc_EvidenceDigest c)), (''reconciledBy'', JStr (rcc_ReconciledBy c)),
        (''reasonCode'', JStr (rcc_ReasonCode c))])"

section \<open>The reducer\<close>

text \<open>
  The seven operations on an existing effect. The two that fold a receipt are given the
  command ledger that the caller has loaded.
\<close>

datatype EffectCommand =
    CancelEffect CancelPreparedCommand
  | BeginEffect BeginCommand
  | ObserveEffect CommandLedger ObserveCommand
  | ReconcileEffect ReconcileCommand
  | CompensateEffect CompensationCommand
  | ObserveCompensationEffect CommandLedger ObserveCompensationCommand
  | ReconcileCompensationEffect ReconcileCompensationCommand

definition decide_effect :: "EffectRecord \<Rightarrow> EffectCommand \<Rightarrow> Decision result" where
  "decide_effect r cmd = (case cmd of
     CancelEffect c \<Rightarrow> CancelPrepared r c | BeginEffect c \<Rightarrow> Begin r c | ObserveEffect l c \<Rightarrow> Observe r l c
   | ReconcileEffect c \<Rightarrow> RequestReconciliation r c | CompensateEffect c \<Rightarrow> TransitionCompensation r c
   | ObserveCompensationEffect l c \<Rightarrow> ObserveCompensation r l c
   | ReconcileCompensationEffect c \<Rightarrow> ReconcileCompensation r c)"

definition effect_reduce :: "EffectRecord \<Rightarrow> EffectCommand \<Rightarrow> EffectRecord result" where
  "effect_reduce r cmd = andThen (decide_effect r cmd) (\<lambda>d. Inr (dec_Effect d))"

definition effect_expects :: "EffectCommand \<Rightarrow> u64" where
  "effect_expects cmd = (case cmd of
     CancelEffect c \<Rightarrow> cpc_ExpectedRevision c | BeginEffect c \<Rightarrow> bc_ExpectedRevision c
   | ObserveEffect l c \<Rightarrow> oc_ExpectedRevision c | ReconcileEffect c \<Rightarrow> rc_ExpectedRevision c
   | CompensateEffect c \<Rightarrow> cc_ExpectedRevision c | ObserveCompensationEffect l c \<Rightarrow> occ_ExpectedRevision c
   | ReconcileCompensationEffect c \<Rightarrow> rcc_ExpectedRevision c)"

end
