(* ===== verification/Effect_Props.thy ===== *)
theory Effect_Props
  imports Effect_Reducer
begin

text \<open>
  What the operations on an effect record preserve: the invariant of reachable records, the
  finality of observed outcomes, the shape of receipt ledgers, and how receipts are folded.
\<close>

section \<open>The invariant\<close>

text \<open>Compensation has not started unless the effect was applied.\<close>

definition compensation_idle :: "EffectRecord \<Rightarrow> bool" where
  "compensation_idle r \<longleftrightarrow> eff_State r = EffectApplied \<or>
     eff_CompensationState r \<in> {EffectCompensationNotRequired, EffectCompensationUnscheduled} \<or>
     (eff_State r = EffectCanceled \<and> eff_CompensationState r = EffectCompensationCanceled)"

definition effect_inv :: "EffectRecord \<Rightarrow> bool" where
  "effect_inv r \<longleftrightarrow> ValidateRecord r = None \<and> compensation_idle r"

text \<open>What preparation froze.\<close>

definition effect_identity :: "EffectRecord \<Rightarrow> string \<times> EffectIntent \<times> string \<times> instant" where
  "effect_identity r = (eff_EffectID r, eff_Intent r, eff_PreparationDigest r, eff_PreparedAt r)"

section \<open>Each operation\<close>

lemma effect_decision_Inr:
  assumes "effect_decision n ty c at p = Inr d"
  shows "dec_Effect d = n" and "dec_Intents d = []" and "dec_Ledger d = None"
  using assms by (auto simp: effect_decision_def)

lemma receipt_decision_Inr:
  assumes "receipt_decision n l ty c x = Inr d"
  shows "dec_Effect d = n" and "dec_Intents d = []" and "dec_Ledger d = Some l"
  using assms by (auto simp: receipt_decision_def)

definition effect_ok :: "EffectRecord \<Rightarrow> u64 \<Rightarrow> EffectRecord \<Rightarrow> bool" where
  "effect_ok r expected t \<longleftrightarrow> ValidateRecord r = None \<and> expected = eff_Revision r \<and> eff_Revision t = eff_Revision r + 1 \<and>
     effect_identity t = effect_identity r \<and>
     (compensation_idle r \<longrightarrow> compensation_idle t \<and> (eff_Revision r + 1 \<noteq> 0 \<longrightarrow> ValidateRecord t = None))"

lemma cancel_effect_facts:
  assumes "CancelPrepared r c = Inr d"
  shows "effect_ok r (cpc_ExpectedRevision c) (dec_Effect d)" and "dec_Effect d = canceled_effect r (cpc_At c)"
    and "eff_State r = EffectPrepared" and "dec_Intents d = []"
proof -
  have g: "ValidateRecord r = None" "cpc_ExpectedRevision c = eff_Revision r" "eff_State r = EffectPrepared"
    "ValidateRecord (canceled_effect r (cpc_At c)) = None"
    using assms by (simp_all add: CancelPrepared_def)
  show d: "dec_Effect d = canceled_effect r (cpc_At c)" and "dec_Intents d = []"
    using assms by (auto simp: CancelPrepared_def dest: effect_decision_Inr)
  show "eff_State r = EffectPrepared" by (rule g(3))
  show "effect_ok r (cpc_ExpectedRevision c) (dec_Effect d)"
    using g unfolding d by (auto simp: effect_ok_def canceled_effect_def effect_identity_def compensation_idle_def)
qed

lemma begin_facts:
  assumes "Begin r c = Inr d"
  shows "effect_ok r (bc_ExpectedRevision c) (dec_Effect d)" and "dec_Effect d = begun_effect r c"
    and "eff_State r = EffectPrepared \<or> (eff_State r = EffectFailed \<and> failure_is (eff_PrimaryFailure r) FailureTransient)"
    and "dec_Ledger d = Some \<lparr>cl_Envelope = bc_Envelope c, cl_Receipts = []\<rparr>"
    and "ValidateLedger \<lparr>cl_Envelope = bc_Envelope c, cl_Receipts = []\<rparr> = None"
    and "ValidateEnvelopeForIntent (bc_Envelope c) (eff_Intent r) (bc_At c) True = None"
proof -
  have v: "validateBegin r c = None" and n: "ValidateRecord (begun_effect r c) = None"
    and "ValidateLedger \<lparr>cl_Envelope = bc_Envelope c, cl_Receipts = []\<rparr> = None"
    using assms by (simp_all add: Begin_def)
  then show "ValidateLedger \<lparr>cl_Envelope = bc_Envelope c, cl_Receipts = []\<rparr> = None" by simp
  show d: "dec_Effect d = begun_effect r c" and "dec_Ledger d = Some \<lparr>cl_Envelope = bc_Envelope c, cl_Receipts = []\<rparr>"
    using assms by (auto simp: Begin_def)
  show st: "eff_State r = EffectPrepared \<or> (eff_State r = EffectFailed \<and> failure_is (eff_PrimaryFailure r) FailureTransient)"
    and "ValidateEnvelopeForIntent (bc_Envelope c) (eff_Intent r) (bc_At c) True = None"
    using v by (auto simp: validateBegin_def)
  show "effect_ok r (bc_ExpectedRevision c) (dec_Effect d)"
    using v n st unfolding d
    by (auto simp: effect_ok_def begun_effect_def effect_identity_def compensation_idle_def validateBegin_def)
qed

lemma observed_effect_Inr:
  assumes "observed_effect r x = Inr n"
  shows "eff_Revision n = eff_Revision r + 1" and "effect_identity n = effect_identity r"
    and "eff_CompensationState n = eff_CompensationState r" and "eff_CommandID n = eff_CommandID r"
    and "eff_UpdatedAt n = cr_ObservedAt x"
  using assms by (auto simp: observed_effect_def effect_identity_def split: ReceiptStatus.splits)

lemma observe_facts:
  assumes "Observe r l c = Inr d"
  shows "effect_ok r (oc_ExpectedRevision c) (dec_Effect d)" and "observed_effect r (oc_Receipt c) = Inr (dec_Effect d)"
    and "eff_State r = EffectApplying" and "dec_Ledger d = Some (append_receipt l (oc_Receipt c))" and "dec_Intents d = []"
    and "ValidateLedger l = None" and "ValidateLedger (append_receipt l (oc_Receipt c)) = None"
proof -
  obtain n where g: "ValidateRecord r = None" "oc_ExpectedRevision c = eff_Revision r" "eff_State r = EffectApplying"
    "ValidateLedger l = None" "ValidateLedger (append_receipt l (oc_Receipt c)) = None"
    and n: "observed_effect r (oc_Receipt c) = Inr n" "ValidateRecord n = None"
    and e: "receipt_decision n (append_receipt l (oc_Receipt c)) ''effect.receipt.'' (oc_CommandID c) (oc_Receipt c) = Inr d"
    using assms by (auto simp: Observe_def)
  note d = receipt_decision_Inr [OF e]
  show "observed_effect r (oc_Receipt c) = Inr (dec_Effect d)" and "eff_State r = EffectApplying"
    and "dec_Ledger d = Some (append_receipt l (oc_Receipt c))" and "dec_Intents d = []"
    and "ValidateLedger l = None" and "ValidateLedger (append_receipt l (oc_Receipt c)) = None"
    using n d g by simp_all
  show "effect_ok r (oc_ExpectedRevision c) (dec_Effect d)"
    using g n(2) observed_effect_Inr [OF n(1)] by (auto simp: d(1) effect_ok_def compensation_idle_def)
qed

lemma word_le_succ:
  fixes a b :: u64
  assumes "a \<le> b" and "b + 1 \<noteq> 0"
  shows "a \<le> b + 1"
  using assms unat_succ_nonzero [OF assms(2)] by (simp add: word_le_nat_alt)

lemma reconcile_facts:
  assumes "RequestReconciliation r c = Inr d"
  shows "effect_ok r (rc_ExpectedRevision c) (dec_Effect d)"
    and "dec_Effect d = r\<lparr>eff_UpdatedAt := rc_At c, eff_Revision := eff_Revision r + 1\<rparr>"
    and "eff_State r = EffectUncertain" and "\<forall>i \<in> set (dec_Intents d). di_Kind i = IntentReconcile"
proof -
  let ?t = "r\<lparr>eff_UpdatedAt := rc_At c, eff_Revision := eff_Revision r + 1\<rparr>"
  have g: "ValidateRecord r = None" "rc_ExpectedRevision c = eff_Revision r" "eff_State r = EffectUncertain"
    "eff_UpdatedAt r \<le> rc_At c"
    using assms by (simp_all add: RequestReconciliation_def)
  show d: "dec_Effect d = ?t" and "\<forall>i \<in> set (dec_Intents d). di_Kind i = IntentReconcile"
    using assms by (auto simp: RequestReconciliation_def durableIntent_def)
  show "eff_State r = EffectUncertain" by (rule g(3))
  have p: "validate_primary r = None" "validateCompensation r = None" "eff_PreparedAt r \<le> eff_UpdatedAt r"
    using g(1) by (simp_all add: ValidateRecord_def)
  have "validate_primary ?t = None" if "eff_Revision r + 1 \<noteq> 0"
    using p(1) g(3,4) word_le_succ [OF _ that, of "eff_PrimaryTerminalRevision r"]
    by (auto simp: validate_primary_def no_observation_def not_less split: option.splits)
  moreover have "validateCompensation ?t = None" if "compensation_idle r"
    using p(2) g(3) that by (auto simp: validateCompensation_def compensation_idle_def)
  ultimately have "ValidateRecord ?t = None" if "compensation_idle r" "eff_Revision r + 1 \<noteq> 0"
    using that g(1,4) p(3) by (simp add: ValidateRecord_def)
  then show "effect_ok r (rc_ExpectedRevision c) (dec_Effect d)"
    using g by (auto simp: d effect_ok_def effect_identity_def compensation_idle_def)
qed

lemma compensate_facts:
  assumes "TransitionCompensation r c = Inr d"
  shows "effect_ok r (cc_ExpectedRevision c) (dec_Effect d)" and "dec_Effect d = compensated_effect r c"
    and "eff_State r = EffectApplied" and "validateCompensationTransition (eff_CompensationState r) c = None"
    and "\<forall>i \<in> set (dec_Intents d). di_Kind i = IntentCleanup"
proof -
  have g: "ValidateRecord r = None" "cc_ExpectedRevision c = eff_Revision r" "eff_State r = EffectApplied"
    "validateCompensationTransition (eff_CompensationState r) c = None" "ValidateRecord (compensated_effect r c) = None"
    using assms by (simp_all add: TransitionCompensation_def)
  show d: "dec_Effect d = compensated_effect r c" and "\<forall>i \<in> set (dec_Intents d). di_Kind i = IntentCleanup"
    using assms by (auto simp: TransitionCompensation_def cleanup_intent_def durableIntent_def split: if_splits dest: effect_decision_Inr)
  show "eff_State r = EffectApplied" "validateCompensationTransition (eff_CompensationState r) c = None" by (rule g(3), rule g(4))
  show "effect_ok r (cc_ExpectedRevision c) (dec_Effect d)"
    using g by (auto simp: d effect_ok_def compensated_effect_def effect_identity_def compensation_idle_def)
qed

lemma observed_compensation_Inr:
  assumes "observed_compensation r x = Inr n"
  shows "eff_Revision n = eff_Revision r + 1" and "effect_identity n = effect_identity r" and "eff_State n = eff_State r"
  using assms by (auto simp: observed_compensation_def effect_identity_def split: ReceiptStatus.splits)

lemma observe_compensation_facts:
  assumes "ObserveCompensation r l c = Inr d"
  shows "effect_ok r (occ_ExpectedRevision c) (dec_Effect d)" and "observed_compensation r (occ_Receipt c) = Inr (dec_Effect d)"
    and "eff_State r = EffectApplied" and "eff_CompensationState r = EffectCompensationRunning" and "dec_Intents d = []"
proof -
  obtain n where g: "ValidateRecord r = None" "occ_ExpectedRevision c = eff_Revision r" "eff_State r = EffectApplied"
    "eff_CompensationState r = EffectCompensationRunning"
    and n: "observed_compensation r (occ_Receipt c) = Inr n" "ValidateRecord n = None"
    and e: "receipt_decision n (append_receipt l (occ_Receipt c)) ''effect.compensation.receipt.'' (occ_CommandID c) (occ_Receipt c) = Inr d"
    using assms by (auto simp: ObserveCompensation_def)
  note d = receipt_decision_Inr [OF e]
  show "observed_compensation r (occ_Receipt c) = Inr (dec_Effect d)" and "eff_State r = EffectApplied"
    and "eff_CompensationState r = EffectCompensationRunning" and "dec_Intents d = []"
    using n d g by simp_all
  show "effect_ok r (occ_ExpectedRevision c) (dec_Effect d)"
    using g n(2) observed_compensation_Inr [OF n(1)] by (auto simp: d(1) effect_ok_def compensation_idle_def)
qed

lemma reconcile_compensation_facts:
  assumes "ReconcileCompensation r c = Inr d"
  shows "effect_ok r (rcc_ExpectedRevision c) (dec_Effect d)" and "dec_Effect d = reconciled_effect r c"
    and "eff_State r = EffectApplied"
    and "eff_CompensationState r \<in> {EffectCompensationFailed, EffectCompensationCanceled, EffectCompensationRetryWait}"
    and "dec_Intents d = []"
proof -
  have g: "ValidateRecord r = None" "rcc_ExpectedRevision c = eff_Revision r" "eff_State r = EffectApplied"
    "eff_CompensationState r \<in> {EffectCompensationFailed, EffectCompensationCanceled, EffectCompensationRetryWait}"
    "ValidateRecord (reconciled_effect r c) = None"
    using assms by (simp_all add: ReconcileCompensation_def)
  show d: "dec_Effect d = reconciled_effect r c" and "dec_Intents d = []"
    using assms by (auto simp: ReconcileCompensation_def dest: effect_decision_Inr)
  show "eff_State r = EffectApplied"
    "eff_CompensationState r \<in> {EffectCompensationFailed, EffectCompensationCanceled, EffectCompensationRetryWait}"
    by (rule g(3), rule g(4))
  show "effect_ok r (rcc_ExpectedRevision c) (dec_Effect d)"
    using g by (auto simp: d effect_ok_def reconciled_effect_def effect_identity_def compensation_idle_def)
qed

lemmas effect_oks = cancel_effect_facts(1) begin_facts(1) observe_facts(1) reconcile_facts(1) compensate_facts(1)
  observe_compensation_facts(1) reconcile_compensation_facts(1)

lemma decide_effect_ok:
  assumes "decide_effect r c = Inr d"
  shows "effect_ok r (effect_expects c) (dec_Effect d)"
  using assms effect_oks by (cases c) (simp_all add: decide_effect_def effect_expects_def)

lemma effect_reduce_decide: "effect_reduce r c = Inr t \<Longrightarrow> \<exists>d. decide_effect r c = Inr d \<and> t = dec_Effect d"
  by (auto simp: effect_reduce_def)

interpretation ef: cas_reducer effect_inv "\<lambda>r. eff_Revision r" effect_expects effect_reduce
proof
  fix r c t assume "effect_reduce r c = Inr t"
  then have ok: "effect_ok r (effect_expects c) t" using decide_effect_ok by (auto simp: effect_reduce_def)
  show "effect_expects c = eff_Revision r" and "eff_Revision t = eff_Revision r + 1"
    using ok by (simp_all add: effect_ok_def)
  show "effect_inv t" if "effect_inv r" "eff_Revision r + 1 \<noteq> 0"
    using ok that by (simp add: effect_ok_def effect_inv_def)
qed

section \<open>Preparation\<close>

lemma prepare_facts:
  assumes "Prepare c = Inr d"
  shows "effect_inv (dec_Effect d)" and "eff_Revision (dec_Effect d) = 1"
    and "\<exists>g. intent_digest (pc_Intent c) = Inr g \<and> dec_Effect d = prepared_record c g"
proof -
  obtain g where g: "intent_digest (pc_Intent c) = Inr g" "ValidateRecord (prepared_record c g) = None"
    and d: "dec_Effect d = prepared_record c g"
    using assms by (auto simp: Prepare_def dest: effect_decision_Inr(1))
  then show "\<exists>g. intent_digest (pc_Intent c) = Inr g \<and> dec_Effect d = prepared_record c g" by blast
  show "effect_inv (dec_Effect d)" using g d by (simp add: effect_inv_def compensation_idle_def prepared_record_def)
  show "eff_Revision (dec_Effect d) = 1" using d by (simp add: prepared_record_def)
qed

lemma fold_effect_identity:
  "fold_reduce effect_reduce r cs = Inr t \<Longrightarrow> effect_identity t = effect_identity r"
proof (induction cs arbitrary: r)
  case (Cons c cs)
  then obtain u where u: "effect_reduce r c = Inr u" and rest: "fold_reduce effect_reduce u cs = Inr t" by auto
  show ?case using Cons.IH [OF rest] effect_reduce_decide [OF u] decide_effect_ok by (auto simp: effect_ok_def)
qed simp

section \<open>Outcomes are final\<close>

definition primary_outcome where
  "primary_outcome r = (eff_State r, eff_CommandID r, eff_CommandIdentityDigest r, eff_ExternalIdentity r, eff_ResultDigest r,
     eff_ResultArtifactRef r, eff_PrimaryFailure r, eff_ApplyingAt r, eff_PrimaryTerminalAt r, eff_PrimaryTerminalRevision r)"

definition settled :: "EffectRecord \<Rightarrow> bool" where
  "settled r \<longleftrightarrow> eff_State r = EffectApplied \<or> eff_State r = EffectUncertain \<or> eff_State r = EffectCanceled"

lemma observed_compensation_outcome: "observed_compensation r x = Inr n \<Longrightarrow> primary_outcome n = primary_outcome r"
  by (auto simp: observed_compensation_def primary_outcome_def split: ReceiptStatus.splits)

lemma settled_step:
  assumes "decide_effect r c = Inr d" and "settled r"
  shows "primary_outcome (dec_Effect d) = primary_outcome r" and "\<forall>i \<in> set (dec_Intents d). di_Kind i \<noteq> IntentOutbox"
    and "\<nexists>b. c = BeginEffect b"
proof -
  have *: "primary_outcome (dec_Effect d) = primary_outcome r \<and> (\<forall>i \<in> set (dec_Intents d). di_Kind i \<noteq> IntentOutbox) \<and> (\<nexists>b. c = BeginEffect b)"
  proof (cases c)
    case (CancelEffect x)
    then show ?thesis using assms cancel_effect_facts [of r x d] by (simp add: decide_effect_def settled_def)
  next
    case (BeginEffect x)
    then show ?thesis using assms begin_facts [of r x d] by (auto simp: decide_effect_def settled_def)
  next
    case (ObserveEffect l x)
    then show ?thesis using assms observe_facts [of r l x d] by (simp add: decide_effect_def settled_def)
  next
    case (ReconcileEffect x)
    then show ?thesis using assms(1) reconcile_facts [of r x d] by (auto simp: decide_effect_def primary_outcome_def)
  next
    case (CompensateEffect x)
    then show ?thesis using assms(1) compensate_facts [of r x d]
      by (auto simp: decide_effect_def primary_outcome_def compensated_effect_def)
  next
    case (ObserveCompensationEffect l x)
    then show ?thesis using assms(1) observe_compensation_facts [of r l x d] observed_compensation_outcome
      by (auto simp: decide_effect_def)
  next
    case (ReconcileCompensationEffect x)
    then show ?thesis using assms(1) reconcile_compensation_facts [of r x d]
      by (auto simp: decide_effect_def primary_outcome_def reconciled_effect_def)
  qed
  show "primary_outcome (dec_Effect d) = primary_outcome r" and "\<forall>i \<in> set (dec_Intents d). di_Kind i \<noteq> IntentOutbox"
    and "\<nexists>b. c = BeginEffect b" using * by blast+
qed

lemma settled_outcome: "primary_outcome t = primary_outcome r \<Longrightarrow> settled r \<Longrightarrow> settled t"
  by (auto simp: primary_outcome_def settled_def)

lemma fold_settled:
  "fold_reduce effect_reduce r cs = Inr t \<Longrightarrow> settled r \<Longrightarrow> primary_outcome t = primary_outcome r \<and> settled t"
proof (induction cs arbitrary: r)
  case (Cons c cs)
  then obtain u where u: "effect_reduce r c = Inr u" and rest: "fold_reduce effect_reduce u cs = Inr t" by auto
  then obtain d where d: "decide_effect r c = Inr d" "u = dec_Effect d" using effect_reduce_decide by blast
  have "primary_outcome u = primary_outcome r" using settled_step(1) [OF d(1) Cons.prems(2)] d(2) by simp
  with Cons.IH [OF rest] settled_outcome Cons.prems(2) show ?case by metis
qed simp

lemma closed_rejects:
  assumes "compensation_idle r" and "ClosesRequired (eff_CompensationState r)"
  shows "decide_effect r c \<noteq> Inr d"
proof
  assume d: "decide_effect r c = Inr d"
  have applied: "eff_State r = EffectApplied" using assms by (auto simp: compensation_idle_def ClosesRequired_def)
  have edge: "validateCompensationTransition (eff_CompensationState r) x \<noteq> None" for x
    using assms(2) by (auto simp: validateCompensationTransition_def compensation_edges_def ClosesRequired_def)
  have running: "eff_CompensationState r \<noteq> EffectCompensationRunning"
    "eff_CompensationState r \<notin> {EffectCompensationFailed, EffectCompensationCanceled, EffectCompensationRetryWait}"
    using assms(2) by (auto simp: ClosesRequired_def)
  show False
  proof (cases c)
    case (CompensateEffect x)
    then show ?thesis using d edge [of x] compensate_facts(4) [of r x d] by (simp add: decide_effect_def)
  next
    case (ObserveCompensationEffect l x)
    then show ?thesis using d running(1) observe_compensation_facts(4) [of r l x d] by (simp add: decide_effect_def)
  next
    case (ReconcileCompensationEffect x)
    then show ?thesis using d running(2) reconcile_compensation_facts(4) [of r x d] by (simp add: decide_effect_def)
  qed (use d applied cancel_effect_facts(3) begin_facts(3) observe_facts(3) reconcile_facts(3) in
      \<open>fastforce simp: decide_effect_def\<close>)+
qed

section \<open>Receipts\<close>

lemma outcome_status:
  assumes "validateReceipt e r = None"
  shows "cr_Sequence r = 1 \<Longrightarrow> cr_Status r = ReceiptAccepted \<or> cr_Status r = ReceiptRejected"
    and "cr_Sequence r = 2 \<Longrightarrow> cr_Status r = ReceiptSucceeded \<or> cr_Status r = ReceiptFailed \<or> cr_Status r = ReceiptUncertain"
  using assms by (auto simp: validateReceipt_def receipt_outcome_ok_def ReceiptStatus_Valid_def split: ReceiptStatus.splits)

lemma ledger_shape:
  assumes "ValidateLedger l = None"
  shows "cl_Receipts l = [] \<or>
    (\<exists>a. cl_Receipts l = [a] \<and> (cr_Status a = ReceiptAccepted \<or> cr_Status a = ReceiptRejected)) \<or>
    (\<exists>a b. cl_Receipts l = [a, b] \<and> cr_Status a = ReceiptAccepted \<and> cr_ObservedAt a \<le> cr_ObservedAt b \<and>
       cr_ProviderRef a = cr_ProviderRef b \<and>
       (cr_Status b = ReceiptSucceeded \<or> cr_Status b = ReceiptFailed \<or> cr_Status b = ReceiptUncertain))"
proof (cases "cl_Receipts l")
  case (Cons a as)
  then have a: "validateReceipt (cl_Envelope l) a = None" "cr_Sequence a = 1"
    and rest: "validate_receipts (cl_Envelope l) 1 (ReceiptStatus_Terminal (cr_Status a)) (Some a) as = None"
    using assms by (simp_all add: ValidateLedger_def)
  show ?thesis
  proof (cases as)
    case Nil
    then show ?thesis using Cons outcome_status(1) [OF a] by simp
  next
    case (Cons b bs)
    then have b: "validateReceipt (cl_Envelope l) b = None" "cr_Sequence b = 2" "\<not> ReceiptStatus_Terminal (cr_Status a)"
      "cr_ObservedAt a \<le> cr_ObservedAt b" "cr_ProviderRef a = cr_ProviderRef b"
      and last: "validate_receipts (cl_Envelope l) 2 (ReceiptStatus_Terminal (cr_Status b)) (Some b) bs = None"
      using rest by (simp_all add: numeral_2_eq_2)
    have "ReceiptStatus_Terminal (cr_Status b)" using outcome_status(2) [OF b(1,2)] by (auto simp: ReceiptStatus_Terminal_def)
    then have "bs = []" using last by (cases bs) simp_all
    then show ?thesis
      using b outcome_status(1) [OF a] outcome_status(2) [OF b(1,2)] \<open>cl_Receipts l = a # as\<close> Cons
      by (auto simp: ReceiptStatus_Terminal_def)
  qed
qed simp

text \<open>The specification of folding: the state that a list of receipt statuses denotes.\<close>

definition receipts_state :: "ReceiptStatus list \<Rightarrow> EffectState" where
  "receipts_state ss = (if ss = [] then EffectApplying else case last ss of
     ReceiptSucceeded \<Rightarrow> EffectApplied | ReceiptRejected \<Rightarrow> EffectFailed | ReceiptFailed \<Rightarrow> EffectFailed
   | ReceiptUncertain \<Rightarrow> EffectUncertain | _ \<Rightarrow> EffectApplying)"

text \<open>Observing a sequence of receipts, with the ledger threaded through.\<close>

fun observe_all :: "EffectRecord \<Rightarrow> CommandLedger \<Rightarrow> ObserveCommand list \<Rightarrow> (EffectRecord \<times> CommandLedger) result" where
  "observe_all r l [] = Inr (r, l)"
| "observe_all r l (c # cs) = andThen (Observe r l c) (\<lambda>d. case dec_Ledger d of
     None \<Rightarrow> Inl ErrReceiptConflict | Some m \<Rightarrow> observe_all (dec_Effect d) m cs)"

definition evidence_matches :: "EffectRecord \<Rightarrow> CommandLedger \<Rightarrow> bool" where
  "evidence_matches r l \<longleftrightarrow> eff_State r = receipts_state (map cr_Status (cl_Receipts l)) \<and>
     (eff_State r = EffectApplied \<longrightarrow> eff_ResultDigest r = cr_ResultDigest (last (cl_Receipts l)) \<and>
        eff_ExternalIdentity r = cr_ExternalIdentity (last (cl_Receipts l))) \<and>
     (eff_State r = EffectFailed \<or> eff_State r = EffectUncertain \<longrightarrow> eff_PrimaryFailure r = cr_Failure (last (cl_Receipts l)))"

lemma observed_matches:
  "observed_effect r x = Inr n \<Longrightarrow> eff_State r = EffectApplying \<Longrightarrow> evidence_matches n (append_receipt l x)"
  by (auto simp: evidence_matches_def receipts_state_def append_receipt_def observed_effect_def split: ReceiptStatus.splits)

lemma observe_matches:
  assumes "Observe r l c = Inr d"
  shows "evidence_matches (dec_Effect d) (append_receipt l (oc_Receipt c))"
  by (rule observed_matches [OF observe_facts(2,3) [OF assms]])

lemma observe_all_matches:
  assumes "observe_all r l cs = Inr (t, m)" and "evidence_matches r l"
  shows "evidence_matches t m \<and> cl_Receipts m = cl_Receipts l @ map oc_Receipt cs \<and> cl_Envelope m = cl_Envelope l"
  using assms
proof (induction cs arbitrary: r l)
  case (Cons c cs)
  then obtain d n where d: "Observe r l c = Inr d" "dec_Ledger d = Some n" "observe_all (dec_Effect d) n cs = Inr (t, m)"
    by (auto split: option.splits)
  have n: "n = append_receipt l (oc_Receipt c)" using observe_facts(4) [OF d(1)] d(2) by simp
  have "evidence_matches (dec_Effect d) n" using observe_matches [OF d(1)] n by simp
  from Cons.IH [OF d(3) this] show ?case by (simp add: n append_receipt_def)
qed simp

lemma observe_all_valid:
  assumes "observe_all r l cs = Inr (t, m)" and "ValidateLedger l = None"
  shows "ValidateLedger m = None"
  using assms
proof (induction cs arbitrary: r l)
  case (Cons c cs)
  then obtain d n where d: "Observe r l c = Inr d" "dec_Ledger d = Some n" "observe_all (dec_Effect d) n cs = Inr (t, m)"
    by (auto split: option.splits)
  show ?case using Cons.IH [OF d(3)] observe_facts(4,7) [OF d(1)] d(2) by simp
qed simp

end
