(* ===== verification/Effect_Claims.thy ===== *)
theory Effect_Claims
  imports Effect_Props
begin

text \<open>
  The properties of external effects (claims C14, C15, C17 and C20), with a concrete effect that is
  prepared, dispatched, acknowledged, applied and compensated.
\<close>

section \<open>Properties\<close>

text \<open>
  C14: from its preparation on, whatever commands are accepted, an effect record is valid, its
  revision counts the accepted commands, what preparation froze (identity, intent, digest)
  never changes, and compensation has not started unless the effect was applied.
\<close>

theorem effect_invariant:
  assumes "Prepare c = Inr d" and "fold_reduce effect_reduce (dec_Effect d) cs = Inr t" and "length cs + 1 < 2 ^ 64"
  shows "ValidateRecord t = None \<and> unat (eff_Revision t) = length cs + 1 \<and>
    effect_identity t = effect_identity (dec_Effect d) \<and> eff_Intent t = pc_Intent c \<and>
    (eff_State t \<noteq> EffectApplied \<longrightarrow> eff_CompensationState t \<in>
       {EffectCompensationNotRequired, EffectCompensationUnscheduled, EffectCompensationCanceled})"
proof -
  note p = prepare_facts [OF assms(1)]
  have inv: "effect_inv t" using ef.fold_keeps [OF assms(2) p(1)] p(2) assms(3) by simp
  have rev: "unat (eff_Revision t) = length cs + 1" using ef.fold_revision [OF assms(2)] p(2) assms(3) by simp
  have ident: "effect_identity t = effect_identity (dec_Effect d)" by (rule fold_effect_identity [OF assms(2)])
  moreover have "eff_Intent (dec_Effect d) = pc_Intent c" using p(3) by (auto simp: prepared_record_def)
  ultimately have "eff_Intent t = pc_Intent c" by (simp add: effect_identity_def)
  with inv rev ident show ?thesis by (auto simp: effect_inv_def compensation_idle_def)
qed

text \<open>
  C15: an observed outcome is final and is never retried. Once an effect is applied, uncertain
  or canceled, its state and the evidence for it (command, result, external identity,
  failure, terminal time and revision) never change, no command dispatches anything to a
  provider again, and no further dispatch is accepted.
\<close>

theorem effect_outcome_final:
  assumes "fold_reduce effect_reduce r cs = Inr t"
    and "eff_State r = EffectApplied \<or> eff_State r = EffectUncertain \<or> eff_State r = EffectCanceled"
  shows "primary_outcome t = primary_outcome r \<and> (\<forall>b u. effect_reduce t (BeginEffect b) \<noteq> Inr u) \<and>
    (\<forall>c d. decide_effect t c = Inr d \<longrightarrow> (\<forall>i \<in> set (dec_Intents d). di_Kind i \<noteq> IntentOutbox))"
proof -
  have s: "settled r" using assms(2) by (simp add: settled_def)
  note f = fold_settled [OF assms(1) s]
  have "effect_reduce t (BeginEffect b) \<noteq> Inr u" for b u
  proof
    assume "effect_reduce t (BeginEffect b) = Inr u"
    then obtain d where "decide_effect t (BeginEffect b) = Inr d" using effect_reduce_decide by blast
    then show False using settled_step(3) f by blast
  qed
  then show ?thesis using f settled_step(2) by blast
qed

text \<open>
  The receipts of a valid command ledger are nothing, one acceptance or rejection, or an
  acceptance followed by exactly one final observation of the same provider at a time that is
  not earlier.
\<close>

theorem receipt_ledger_shape:
  assumes "ValidateLedger l = None"
  shows "cl_Receipts l = [] \<or>
    (\<exists>a. cl_Receipts l = [a] \<and> (cr_Status a = ReceiptAccepted \<or> cr_Status a = ReceiptRejected)) \<or>
    (\<exists>a b. cl_Receipts l = [a, b] \<and> cr_Status a = ReceiptAccepted \<and> cr_ObservedAt a \<le> cr_ObservedAt b \<and>
       cr_ProviderRef a = cr_ProviderRef b \<and>
       (cr_Status b = ReceiptSucceeded \<or> cr_Status b = ReceiptFailed \<or> cr_Status b = ReceiptUncertain))"
  by (rule ledger_shape [OF assms])

text \<open>
  C17: observation implements its specification, the state that a list of receipts denotes. After a dispatch, and after
  any receipts that were accepted for it, the effect's state is the one that the recorded
  receipts denote, its result, external identity or failure are those of the last receipt,
  the ledger holds exactly these receipts for the dispatched envelope, and there are at most
  two of them.
\<close>

theorem observe_refines_receipts:
  assumes "Begin r c = Inr d" and "dec_Ledger d = Some l" and "observe_all (dec_Effect d) l cs = Inr (t, m)"
  shows "eff_State t = receipts_state (map (\<lambda>x. cr_Status (oc_Receipt x)) cs) \<and> evidence_matches t m \<and>
    cl_Receipts m = map oc_Receipt cs \<and> cl_Envelope m = bc_Envelope c \<and> length cs \<le> 2"
proof -
  note b = begin_facts [OF assms(1)]
  have l: "l = \<lparr>cl_Envelope = bc_Envelope c, cl_Receipts = []\<rparr>" using b(4) assms(2) by simp
  have start: "evidence_matches (dec_Effect d) l" by (simp add: b(2) l evidence_matches_def receipts_state_def begun_effect_def)
  note m = observe_all_matches [OF assms(3) start]
  then have rs: "cl_Receipts m = map oc_Receipt cs" and e: "cl_Envelope m = bc_Envelope c" by (simp_all add: l)
  have "ValidateLedger m = None" using observe_all_valid [OF assms(3)] b(5) l by simp
  then have "length (cl_Receipts m) \<le> 2" using ledger_shape [of m] by auto
  with m rs e show ?thesis by (simp add: evidence_matches_def comp_def)
qed

text \<open>
  A closed compensation stays closed. In every record that an effect can reach whose
  required compensation has succeeded or been reconciled, no command at all is accepted.
\<close>

theorem closed_compensation_final:
  assumes "Prepare c = Inr d" and "fold_reduce effect_reduce (dec_Effect d) cs = Inr t" and "length cs + 1 < 2 ^ 64"
    and "ClosesRequired (eff_CompensationState t)"
  shows "effect_reduce t cmd \<noteq> Inr u"
proof
  assume "effect_reduce t cmd = Inr u"
  then obtain e where e: "decide_effect t cmd = Inr e" using effect_reduce_decide by blast
  have "effect_inv t" using ef.fold_keeps [OF assms(2) prepare_facts(1) [OF assms(1)]] prepare_facts(2) [OF assms(1)] assms(3) by simp
  then show False using closed_rejects assms(4) e by (auto simp: effect_inv_def)
qed

text \<open>
  Preparing twice is idempotent. Whatever has happened to an effect, repeating its
  preparation command returns the current record and nothing else; a preparation with the
  same identity but another intent digest is a conflict.
\<close>

theorem replay_prepare:
  assumes "Prepare c = Inr d" and "fold_reduce effect_reduce (dec_Effect d) cs = Inr t" and "length cs + 1 < 2 ^ 64"
  shows "ReplayPrepare t c = Inr \<lparr>dec_Effect = t, dec_Ledger = None, dec_Events = [], dec_Intents = []\<rparr> \<and>
    (\<forall>c' d'. Prepare c' = Inr d' \<and> intent_digest (pc_Intent c') \<noteq> intent_digest (pc_Intent c) \<longrightarrow>
       ReplayPrepare t c' = Inl ErrEffectConflict)"
proof -
  note p = prepare_facts [OF assms(1)]
  have v: "ValidateRecord t = None" using ef.fold_keeps [OF assms(2) p(1)] p(2) assms(3) by (simp add: effect_inv_def)
  have ident: "effect_identity t = effect_identity (dec_Effect d)" by (rule fold_effect_identity [OF assms(2)])
  have "ReplayPrepare t c' = Inl ErrEffectConflict"
    if "Prepare c' = Inr d'" "intent_digest (pc_Intent c') \<noteq> intent_digest (pc_Intent c)" for c' d'
  proof -
    have "eff_PreparationDigest t \<noteq> eff_PreparationDigest (dec_Effect d')"
      using ident p(3) prepare_facts(3) [OF that(1)] that(2) by (auto simp: effect_identity_def prepared_record_def)
    then show ?thesis using v that(1) by (simp add: ReplayPrepare_def)
  qed
  then show ?thesis using v assms(1) ident by (auto simp: ReplayPrepare_def effect_identity_def)
qed

text \<open>A dispatch without its private tokens.\<close>

definition public_envelope :: "CommandEnvelope \<Rightarrow> CommandEnvelope" where
  "public_envelope e = e\<lparr>ce_IdempotencyKey := [], ce_CapabilityToken := []\<rparr>"

definition public_command :: "BeginCommand \<Rightarrow> BeginCommand" where
  "public_command c = c\<lparr>bc_Envelope := public_envelope (bc_Envelope c)\<rparr>"

text \<open>
  What the dispatch of a command leaves behind in durable form: the record, the JSON of the ledger, the
  events and the intents, when they are computed from \<open>c\<close>.
\<close>

definition dispatch_writes :: "EffectRecord \<Rightarrow> BeginCommand \<Rightarrow> (EffectRecord \<times> json \<times> DomainEvent list \<times> DurableIntent list) result" where
  "dispatch_writes r c =
     andThen (CommandEnvelope_json (bc_Envelope c)) (\<lambda>j.
     andThen (durableIntent IntentOutbox (eff_EffectID r) (eff_Revision r + 1) [(''command'', j)]) (\<lambda>intent.
     andThen (effect_newEvent (begun_effect r c) ''effect.applying'' (bc_CommandID c) (bc_At c)
       [(''commandId'', JStr (ce_CommandID (bc_Envelope c))), (''commandIdentityDigest'', JStr (ce_IdentityDigest (bc_Envelope c)))]) (\<lambda>event.
     Inr (begun_effect r c, JObj [(''envelope'', j), (''receipts'', JArr [])], [event], [intent]))))"

text \<open>
  C20: credentials are checked and stay private. An accepted dispatch carries an idempotency
  key (and, where capabilities are required, a token) that match their public hashes. Everything
  it makes durable, the record, the JSON of the command ledger, the event and the outbox intent, is
  what is computed from the command after both private tokens have been erased from it.
\<close>

theorem begin_hides_credentials:
  assumes "Begin r c = Inr d"
  shows "PrivateTokenDigest (ce_IdempotencyKey (bc_Envelope c)) = Inr (ce_IdempotencyKeyHash (bc_Envelope c)) \<and>
    (ce_RequiredCapabilityRefs (bc_Envelope c) \<noteq> [] \<longrightarrow>
       PrivateTokenDigest (ce_CapabilityToken (bc_Envelope c)) = Inr (ce_CapabilityTokenHash (bc_Envelope c))) \<and>
    (\<exists>ledger json. dec_Ledger d = Some ledger \<and> CommandLedger_json ledger = Inr json \<and>
       dispatch_writes r (public_command c) = Inr (dec_Effect d, json, dec_Events d, dec_Intents d))"
proof -
  have e: "ce_IdentityDigest (public_envelope e) = ce_IdentityDigest e" "ce_CommandID (public_envelope e) = ce_CommandID e"
    "CommandEnvelope_json (public_envelope e) = CommandEnvelope_json e" for e
    by (simp_all add: CommandEnvelope_json_def public_envelope_def)
  have "begun_effect r (public_command c) = begun_effect r c" by (simp add: begun_effect_def public_command_def e)
  then have w: "dispatch_writes r (public_command c) = dispatch_writes r c"
    by (simp add: dispatch_writes_def) (simp add: public_command_def e)
  have v: "ValidatePrivateEnvelopeTokens (bc_Envelope c) = None"
    using begin_facts(6) [OF assms] by (simp add: ValidateEnvelopeForIntent_def)
  have "\<exists>ledger json. dec_Ledger d = Some ledger \<and> CommandLedger_json ledger = Inr json \<and>
      dispatch_writes r c = Inr (dec_Effect d, json, dec_Events d, dec_Intents d)"
    using assms by (auto simp: Begin_def dispatch_writes_def CommandLedger_json_def)
  then show ?thesis using v by (auto simp: w ValidatePrivateEnvelopeTokens_def split: if_splits)
qed

section \<open>A concrete effect\<close>

lemma drop_digest: "ValidDigest s \<Longrightarrow> list_all is_hex (drop 7 s) \<and> length (drop 7 s) = 64"
  by (auto simp: ValidDigest_def digestPattern_def)

lemma effect_stableID_known:
  assumes "ValidIdentifier p" and "length p \<le> 8" and "json_plain (JArr (JStr d # ps))"
    and "json_bound (JArr (JStr d # ps)) \<le> 100000" and "json_height (JArr (JStr d # ps)) \<le> 128"
  shows "effect_stableID p d ps = Inr (value_of (effect_stableID p d ps))" and "ValidIdentifier (value_of (effect_stableID p d ps))"
proof -
  note k = digest_known [OF assms(3-5)]
  show e: "effect_stableID p d ps = Inr (value_of (effect_stableID p d ps))"
    unfolding effect_stableID_def by (subst (1 2) k(1)) simp
  have "value_of (effect_stableID p d ps) = p @ ''-'' @ drop 7 (value_of (DigestValue (JArr (JStr d # ps))))"
    unfolding effect_stableID_def by (subst k(1)) simp
  moreover have "identifierPattern (p @ ''-'' @ drop 7 (value_of (DigestValue (JArr (JStr d # ps)))))"
    using assms(1) drop_digest [OF k(2)] is_hex_identifier_char
    by (cases p) (auto simp: ValidIdentifier_iff identifierPattern_def list_all_iff identifier_char_def)
  ultimately show "ValidIdentifier (value_of (effect_stableID p d ps))"
    using assms(2) drop_digest [OF k(2)] by (simp add: ValidIdentifier_iff)
qed

definition sample_effect_id :: string where "sample_effect_id = value_of (StableEffectID ''inv-1'' ''move'')"

definition sample_intent :: EffectIntent where
  "sample_intent = \<lparr>ei_EffectID = sample_effect_id, ei_NamespaceID = ''lab'', ei_RunID = ''run-1'', ei_InvocationID = ''inv-1'',
     ei_PreparedAttemptID = ''att-1'', ei_EffectKey = ''move'', ei_Kind = ''robot.move/v1'', ei_TargetRef = ''robot-1'',
     ei_IntentSchemaDigest = sha256_text ''schema'', ei_Intent = Some [], ei_IntentDigest = value_of (DigestValue (JObj [])),
     ei_IntentArtifactRef = [], ei_Ownership = EffectOwned, ei_CompensationPolicy = CompensationRequired,
     ei_RequiredCapabilityRefs = [], ei_PolicyDigest = sha256_text ''policy'', ei_DescriptorDigest = sha256_text ''descriptor'',
     ei_Deadline = 100\<rparr>"

definition sample_prepare :: PrepareCommand where
  "sample_prepare = \<lparr>pc_Intent = sample_intent, pc_CommandID = ''prepare'', pc_At = 5\<rparr>"

definition sample_preparation :: string where "sample_preparation = value_of (intent_digest sample_intent)"

definition sample_prepared :: EffectRecord where "sample_prepared = prepared_record sample_prepare sample_preparation"

lemma sample_effect_texts [simp]:
  "ValidIdentifier ''inv-1''" "ValidIdentifier ''move''" "ValidIdentifier ''lab''" "ValidIdentifier ''run-1''" "ValidIdentifier ''att-1''"
  "ValidIdentifier ''robot-1''" "ValidIdentifier ''prepare''" "ValidTypeRef ''robot.move/v1''" "ValidIdentifier ''cmd-1''"
  "ValidIdentifier ''operator''" "ValidIdentifier ''api''" "ValidIdentifier ''drive''" "ValidIdentifier ''stop-1''"
  "ValidIdentifier ''observe''" "ValidIdentifier ''provider-1''" "ValidIdentifier ''effect''" "ValidIdentifier ''undo''"
  by (simp_all add: text_eval)

lemma sample_effect_id:
  "StableEffectID ''inv-1'' ''move'' = Inr sample_effect_id" "ValidIdentifier sample_effect_id"
proof -
  have k: "effect_stableID ''eff'' ''xgc.effect/v1'' [JStr ''inv-1'', JStr ''move''] =
      Inr (value_of (effect_stableID ''eff'' ''xgc.effect/v1'' [JStr ''inv-1'', JStr ''move'']))"
    "ValidIdentifier (value_of (effect_stableID ''eff'' ''xgc.effect/v1'' [JStr ''inv-1'', JStr ''move'']))"
    by (rule effect_stableID_known; simp add: text_eval ascii_def)+
  then show "StableEffectID ''inv-1'' ''move'' = Inr sample_effect_id" "ValidIdentifier sample_effect_id"
    by (simp_all add: StableEffectID_def sample_effect_id_def)
qed

lemma sample_intent_json: "\<exists>v. EffectIntent_json sample_intent = Inr v \<and> json_plain v \<and> json_bound v \<le> 100000 \<and> json_height v \<le> 128"
proof -
  have t: "time_json 100 = Inr (JStr ''0001-01-01T00:00:00.0000001Z'')" by code_simp
  note d = ValidDigest_text [OF sha256_text_ValidDigest]
  have e: "ValidDigest (value_of (DigestValue (JObj [])))" by (rule digest_known) simp_all
  show ?thesis
    using d [of "''schema''"] d [of "''policy''"] d [of "''descriptor''"] ValidDigest_text [OF e] ValidIdentifier_length [OF sample_effect_id(2)]
      sample_effect_id(2)
    by (simp add: EffectIntent_json_def sample_intent_def t text_field_def strings_field_def omitempty_def EffectOwnership_string_def
        CompensationPolicy_string_def ascii_def)
qed

lemma sample_intent_digest: "intent_digest sample_intent = Inr sample_preparation" "ValidDigest sample_preparation"
proof -
  obtain v where v: "EffectIntent_json sample_intent = Inr v" "json_plain v" "json_bound v \<le> 100000" "json_height v \<le> 128"
    using sample_intent_json by blast
  have "intent_digest sample_intent = DigestValue v" using v(1) by (simp add: intent_digest_def)
  then show "intent_digest sample_intent = Inr sample_preparation" "ValidDigest sample_preparation"
    using digest_known [OF v(2-4)] by (simp_all add: sample_preparation_def)
qed

lemma sample_intent_valid: "at < 100 \<Longrightarrow> ValidateIntent sample_intent at = None"
  using digest_known [of "JObj []"] sample_effect_id(2)
  by (simp add: ValidateIntent_def sample_intent_def EffectOwnership_Valid_def CompensationPolicy_Valid_def validateSortedIdentities_def)

lemmas sample_record_simps =
  ValidateRecord_def validate_primary_def validateCompensation_def no_observation_def EffectState_Valid_def EffectState_Terminal_def
  EffectCompensationState_Valid_def sample_intent_valid sample_intent_digest

lemma sample_prepared_valid: "ValidateRecord sample_prepared = None"
  by (simp add: sample_record_simps sample_prepared_def prepared_record_def sample_prepare_def)

lemma effect_newEvent_ok:
  assumes "ValidIdentifier (eff_EffectID r)" and "json_plain (JObj p)" and "json_bound (JObj p) \<le> 100000" and "json_height (JObj p) \<le> 128"
  shows "\<exists>e. effect_newEvent r ty c at p = Inr e"
proof -
  obtain i where "StableEventID ''effect'' (eff_EffectID r) (eff_Revision r) = Inr i" using StableEventID_ok assms(1) by fastforce
  then show ?thesis using DigestValue_plain [OF assms(2-4)] by (simp add: effect_newEvent_def)
qed

lemma sample_prepare_accepted: "\<exists>d. Prepare sample_prepare = Inr d \<and> dec_Effect d = sample_prepared"
proof -
  note u = ValidDigest_text [OF sample_intent_digest(2)]
  have e: "ValidDigest (value_of (DigestValue (JObj [])))" by (rule digest_known) simp_all
  have "\<exists>x. effect_newEvent sample_prepared ''effect.prepared'' ''prepare'' 5
      [(''preparationDigest'', JStr sample_preparation), (''intentDigest'', JStr (ei_IntentDigest sample_intent))] = Inr x"
    by (rule effect_newEvent_ok)
      (use u ValidDigest_text [OF e] sample_effect_id(2) in
        \<open>simp_all add: sample_prepared_def prepared_record_def sample_prepare_def sample_intent_def ascii_def\<close>)
  then obtain x where x: "effect_newEvent sample_prepared ''effect.prepared'' ''prepare'' 5
      [(''preparationDigest'', JStr sample_preparation), (''intentDigest'', JStr (ei_IntentDigest sample_intent))] = Inr x"
    by blast
  have i: "ei_InvocationID sample_intent = ''inv-1''" "ei_EffectKey sample_intent = ''move''" "ei_EffectID sample_intent = sample_effect_id"
    by (simp_all add: sample_intent_def)
  show ?thesis
    using sample_prepared_valid x sample_intent_valid [of 5]
    by (simp add: Prepare_def effect_decision_def sample_intent_digest sample_effect_id(1) i sample_prepared_def sample_prepare_def)
qed

text \<open>The dispatch of the effect.\<close>

definition sample_fence :: TargetFence where
  "sample_fence = \<lparr>tf_Kind = FenceRevision, tf_Revision = Some \<lparr>rf_TargetID = ''robot-1'', rf_ExpectedRevision = 1\<rparr>,
     tf_Generation = None, tf_IdempotentCreate = None\<rparr>"

definition unsigned_envelope :: CommandEnvelope where
  "unsigned_envelope = \<lparr>ce_CommandID = ''cmd-1'', ce_RequestID = [], ce_EffectID = sample_effect_id, ce_IdempotencyKey = ''key'',
     ce_IdempotencyKeyHash = sha256_text ''key'', ce_IdentityDigest = [], ce_NamespaceID = ''lab'', ce_TargetRef = ''robot-1'',
     ce_Action = ''move'', ce_ActorRef = ''operator'', ce_SourceRef = ''api'', ce_ReasonCode = ''drive'', ce_Reason = [],
     ce_Risk = RiskLow, ce_Fence = sample_fence, ce_PayloadDigest = sha256_text ''payload'', ce_PayloadArtifactRef = [],
     ce_PolicyDigest = sha256_text ''policy'', ce_DescriptorDigest = sha256_text ''descriptor'', ce_ManifestDigest = [],
     ce_Deadline = 100, ce_CancellationID = ''stop-1'', ce_RequiredCapabilityRefs = [], ce_CapabilityTokenHash = [],
     ce_CapabilityToken = []\<rparr>"

definition sample_identity :: string where "sample_identity = value_of (CommandIdentityDigest unsigned_envelope)"

definition sample_envelope :: CommandEnvelope where "sample_envelope = unsigned_envelope\<lparr>ce_IdentityDigest := sample_identity\<rparr>"

lemmas sample_digest_texts =
  ValidDigest_text [OF sha256_text_ValidDigest, of "''key''"] ValidDigest_text [OF sha256_text_ValidDigest, of "''payload''"]
  ValidDigest_text [OF sha256_text_ValidDigest, of "''policy''"] ValidDigest_text [OF sha256_text_ValidDigest, of "''descriptor''"]

lemma sample_deadline: "time_json 100 = Inr (JStr ''0001-01-01T00:00:00.0000001Z'')"
  by code_simp

lemma sample_fence_json:
  "json_plain (TargetFence_json sample_fence)" "json_bound (TargetFence_json sample_fence) \<le> 1000" "json_height (TargetFence_json sample_fence) \<le> 3"
  using JU64_bound [of 1]
  by (simp_all add: TargetFence_json_def sample_fence_def pointer_field_def RevisionFence_json_def FenceKind_string_def ascii_def)

lemma sample_identity: "CommandIdentityDigest sample_envelope = Inr sample_identity" "ValidDigest sample_identity"
proof -
  let ?v = "JObj [(''commandId'', JStr ''cmd-1''), (''effectId'', JStr sample_effect_id),
      (''idempotencyKeyHash'', JStr (sha256_text ''key'')), (''namespaceId'', JStr ''lab''),
      (''targetRef'', JStr ''robot-1''), (''action'', JStr ''move''), (''actorRef'', JStr ''operator''),
      (''sourceRef'', JStr ''api''), (''reasonCode'', JStr ''drive''), (''reason'', JStr []),
      (''risk'', JStr ''low''), (''fence'', TargetFence_json sample_fence),
      (''payloadDigest'', JStr (sha256_text ''payload'')), (''payloadArtifactRef'', JStr []),
      (''policyDigest'', JStr (sha256_text ''policy'')), (''descriptorDigest'', JStr (sha256_text ''descriptor'')),
      (''manifestDigest'', JStr []), (''deadline'', JStr ''0001-01-01T00:00:00.0000001Z''),
      (''cancellationId'', JStr ''stop-1''), (''requiredCapabilityRefs'', JNull), (''capabilityTokenHash'', JStr [])]"
  have p: "json_plain ?v" "json_bound ?v \<le> 100000" "json_height ?v \<le> 128"
    using sample_digest_texts sample_effect_id(2) ValidIdentifier_length [OF sample_effect_id(2)] sample_fence_json
    by (simp_all add: ascii_def)
  have c: "CommandIdentityDigest (unsigned_envelope\<lparr>ce_IdentityDigest := x\<rparr>) = DigestValue ?v" for x
    by (simp add: CommandIdentityDigest_def unsigned_envelope_def sample_deadline CommandRisk_string_def)
  have "unsigned_envelope\<lparr>ce_IdentityDigest := []\<rparr> = unsigned_envelope" by (simp add: unsigned_envelope_def)
  then have "sample_identity = value_of (DigestValue ?v)" using c [of "[]"] by (simp add: sample_identity_def)
  then show "CommandIdentityDigest sample_envelope = Inr sample_identity" "ValidDigest sample_identity"
    using digest_known [OF p] c [of sample_identity] by (simp_all add: sample_envelope_def)
qed

lemma sample_fence_valid: "validateFence sample_fence = None"
  by (simp add: validateFence_def sample_fence_def fence_variants_def)

lemma sample_envelope_valid: "ValidateEnvelope sample_envelope = None"
  using sample_identity sample_fence_valid sample_effect_id(2)
  by (simp add: ValidateEnvelope_def) (simp add: sample_envelope_def unsigned_envelope_def CommandRisk_Valid_def ValidOptionalDigest_def
      validateSortedIdentities_def validateOptionalIdentity_def)

lemma sample_key: "PrivateTokenDigest ''key'' = Inr (sha256_text ''key'')"
proof -
  have "validateCanonicalText ''key'' 512 True = None" by code_simp
  then show ?thesis by (simp add: PrivateTokenDigest_def)
qed

definition sample_begin :: BeginCommand where
  "sample_begin = \<lparr>bc_EffectID = sample_effect_id, bc_ExpectedRevision = 1, bc_Envelope = sample_envelope, bc_CommandID = ''cmd-1'', bc_At = 6\<rparr>"

definition sample_applying :: EffectRecord where "sample_applying = begun_effect sample_prepared sample_begin"

definition sample_ledger :: CommandLedger where "sample_ledger = \<lparr>cl_Envelope = sample_envelope, cl_Receipts = []\<rparr>"

lemma sample_intent_policy [simp]: "ei_CompensationPolicy sample_intent = CompensationRequired" "ei_EffectID sample_intent = sample_effect_id"
  by (simp_all add: sample_intent_def)

lemmas sample_applying_defs = sample_applying_def begun_effect_def sample_begin_def sample_prepared_def prepared_record_def sample_prepare_def

lemma sample_applying_valid: "ValidateRecord sample_applying = None"
  using sample_identity(2)
  by (simp add: sample_record_simps sample_applying_defs sample_envelope_def unsigned_envelope_def)

lemma sample_ledger_valid: "ValidateLedger sample_ledger = None"
  using sample_envelope_valid by (simp add: ValidateLedger_def sample_ledger_def)

lemma durableIntent_ok:
  assumes "utf8_valid (IntentKind_string k)" and "length (IntentKind_string k) \<le> 128" and "ValidIdentifier agg"
    and "json_plain (JObj p)" and "json_bound (JObj p) \<le> 100000" and "json_height (JObj p) \<le> 128"
  shows "\<exists>i. durableIntent k agg n p = Inr i"
proof -
  obtain i where "StableIntentID k agg n = Inr i" using StableIntentID_ok assms(1-3) by blast
  then show ?thesis using DigestValue_plain [OF assms(4-6)] by (simp add: durableIntent_def)
qed

lemma sample_envelope_json:
  "\<exists>j. CommandEnvelope_json sample_envelope = Inr j \<and> json_plain j \<and> json_bound j \<le> 50000 \<and> json_height j \<le> 100"
  using sample_digest_texts ValidDigest_text [OF sample_identity(2)] sample_effect_id(2) ValidIdentifier_length [OF sample_effect_id(2)] sample_fence_json
  by (simp add: CommandEnvelope_json_def sample_envelope_def unsigned_envelope_def sample_deadline text_field_def strings_field_def
      omitempty_def CommandRisk_string_def ascii_def)

lemma sample_begin_accepted:
  "\<exists>d. Begin sample_prepared sample_begin = Inr d \<and> dec_Effect d = sample_applying \<and> dec_Ledger d = Some sample_ledger"
proof -
  have fields: "bc_Envelope sample_begin = sample_envelope" "bc_At sample_begin = 6" "bc_CommandID sample_begin = ''cmd-1''"
    "ce_CommandID sample_envelope = ''cmd-1''" "ce_IdentityDigest sample_envelope = sample_identity"
    "eff_EffectID sample_prepared = sample_effect_id"
    by (simp_all add: sample_begin_def sample_envelope_def unsigned_envelope_def sample_prepared_def prepared_record_def sample_prepare_def)
  have tokens: "ValidateEnvelopeForIntent sample_envelope sample_intent 6 True = None"
    unfolding ValidateEnvelopeForIntent_def ValidatePrivateEnvelopeTokens_def
    by (simp add: sample_envelope_valid) (simp add: sample_envelope_def unsigned_envelope_def sample_intent_def sample_key)
  have v: "validateBegin sample_prepared sample_begin = None"
    unfolding validateBegin_def
    by (simp add: sample_prepared_valid fields)
      (simp add: sample_prepared_def prepared_record_def sample_prepare_def sample_begin_def tokens)
  obtain j where j: "CommandEnvelope_json sample_envelope = Inr j" "json_plain j" "json_bound j \<le> 50000" "json_height j \<le> 100"
    using sample_envelope_json by blast
  have "\<exists>i. durableIntent IntentOutbox sample_effect_id (eff_Revision sample_prepared + 1) [(''command'', j)] = Inr i"
    by (rule durableIntent_ok) (use j sample_effect_id(2) in \<open>simp_all add: IntentKind_string_def ascii_def\<close>)
  then obtain i where i: "durableIntent IntentOutbox sample_effect_id (eff_Revision sample_prepared + 1) [(''command'', j)] = Inr i" by blast
  have "\<exists>e. effect_newEvent sample_applying ''effect.applying'' ''cmd-1'' 6
      [(''commandId'', JStr ''cmd-1''), (''commandIdentityDigest'', JStr sample_identity)] = Inr e"
    by (rule effect_newEvent_ok)
      (use ValidDigest_text [OF sample_identity(2)] sample_effect_id(2) in
        \<open>simp_all add: sample_applying_def begun_effect_def fields ascii_def\<close>)
  then show ?thesis
    using v sample_applying_valid sample_ledger_valid i j(1)
    by (auto simp: Begin_def fields sample_applying_def [symmetric] sample_ledger_def [symmetric])
qed

text \<open>Its receipts.\<close>

definition sample_receipt :: "u32 \<Rightarrow> ReceiptStatus \<Rightarrow> string \<Rightarrow> instant \<Rightarrow> CommandReceipt" where
  "sample_receipt seq status result at = \<lparr>cr_ReceiptID = value_of (StableReceiptID ''cmd-1'' seq), cr_CommandID = ''cmd-1'', cr_Sequence = seq,
     cr_Status = status, cr_IdentityDigest = sample_identity, cr_FenceDigest = value_of (FenceDigest sample_fence),
     cr_ProviderRef = ''provider-1'', cr_ProviderDigest = sha256_text ''provider'', cr_PolicyDigest = sha256_text ''policy'',
     cr_AuthorizationDigest = sha256_text ''authorization'', cr_ResultDigest = result, cr_ResultArtifactRef = [],
     cr_ExternalIdentity = [], cr_Failure = None, cr_ObservedAt = at\<rparr>"

abbreviation sample_accepted :: CommandReceipt where "sample_accepted \<equiv> sample_receipt 1 ReceiptAccepted [] 7"
abbreviation sample_succeeded :: CommandReceipt where "sample_succeeded \<equiv> sample_receipt 2 ReceiptSucceeded (sha256_text ''result'') 8"

lemma sample_receipt_id:
  "StableReceiptID ''cmd-1'' n = Inr (value_of (StableReceiptID ''cmd-1'' n))" "ValidIdentifier (value_of (StableReceiptID ''cmd-1'' n))"
  unfolding StableReceiptID_def
  by (rule effect_stableID_known; use JU32_bound [of n] in \<open>simp add: text_eval ascii_def\<close>)+

lemma sample_fence_digest: "FenceDigest sample_fence = Inr (value_of (FenceDigest sample_fence))"
proof -
  have "FenceDigest sample_fence = DigestValue (TargetFence_json sample_fence)" by (simp add: FenceDigest_def sample_fence_valid)
  then show ?thesis using digest_known(1) [of "TargetFence_json sample_fence"] sample_fence_json by simp
qed

lemma sample_receipts_valid: "validateReceipt sample_envelope sample_accepted = None" "validateReceipt sample_envelope sample_succeeded = None"
proof -
  have e: "ce_CommandID sample_envelope = ''cmd-1''" "ce_IdentityDigest sample_envelope = sample_identity" "ce_Fence sample_envelope = sample_fence"
    "ce_PolicyDigest sample_envelope = sha256_text ''policy''" by (simp_all add: sample_envelope_def unsigned_envelope_def)
  show "validateReceipt sample_envelope sample_accepted = None" "validateReceipt sample_envelope sample_succeeded = None"
    by (simp_all add: validateReceipt_def e sample_receipt_def sample_receipt_id(1) [symmetric] sample_fence_digest [symmetric]
        ReceiptStatus_Valid_def ValidOptionalDigest_def validateOptionalIdentity_def receipt_outcome_ok_def)
qed

lemma observe_accepts:
  assumes "ValidateRecord r = None" and "ValidateLedger l = None" and "ValidateLedger (append_receipt l x) = None"
    and "validateNextReceipt l x = None" and "eff_State r = EffectApplying" and "ce_CommandID (cl_Envelope l) = eff_CommandID r"
    and "ce_EffectID (cl_Envelope l) = eff_EffectID r" and "observed_effect r x = Inr n" and "ValidateRecord n = None"
    and "ValidIdentifier (cr_CommandID x)" and "ValidIdentifier (cr_ReceiptID x)" and "ValidIdentifier (eff_EffectID n)"
  shows "\<exists>d. Observe r l \<lparr>oc_EffectID = eff_EffectID r, oc_ExpectedRevision = eff_Revision r, oc_Receipt = x, oc_CommandID = ''observe''\<rparr> = Inr d \<and>
    dec_Effect d = n \<and> dec_Ledger d = Some (append_receipt l x)"
proof -
  have "\<exists>e. effect_newEvent n (''effect.receipt.'' @ ReceiptStatus_string (cr_Status x)) ''observe'' (cr_ObservedAt x) (receipt_payload x) = Inr e"
    by (rule effect_newEvent_ok)
      (use assms(10-12) ValidIdentifier_length [OF assms(10)] ValidIdentifier_length [OF assms(11)] JU32_bound [of "cr_Sequence x"] in
        \<open>simp_all add: receipt_payload_def ascii_def\<close>)
  then show ?thesis using assms(1-9) by (auto simp: Observe_def receipt_decision_def)
qed

definition sample_acknowledged :: EffectRecord where
  "sample_acknowledged = sample_applying\<lparr>eff_UpdatedAt := 7, eff_Revision := 3\<rparr>"

definition sample_applied :: EffectRecord where
  "sample_applied = sample_applying\<lparr>eff_State := EffectApplied, eff_ResultDigest := sha256_text ''result'', eff_PrimaryTerminalAt := Some 8,
     eff_PrimaryTerminalRevision := 4, eff_UpdatedAt := 8, eff_Revision := 4\<rparr>"

definition sample_observe :: "u64 \<Rightarrow> CommandReceipt \<Rightarrow> ObserveCommand" where
  "sample_observe n x = \<lparr>oc_EffectID = sample_effect_id, oc_ExpectedRevision = n, oc_Receipt = x, oc_CommandID = ''observe''\<rparr>"

lemma sample_records_valid: "ValidateRecord sample_acknowledged = None" "ValidateRecord sample_applied = None"
  using sample_identity(2)
  by (simp_all add: sample_record_simps sample_acknowledged_def sample_applied_def sample_applying_defs sample_envelope_def unsigned_envelope_def)

lemma sample_receipts_order:
  "ValidateLedger (append_receipt sample_ledger sample_accepted) = None"
  "ValidateLedger (append_receipt (append_receipt sample_ledger sample_accepted) sample_succeeded) = None"
  "validateNextReceipt sample_ledger sample_accepted = None"
  "validateNextReceipt (append_receipt sample_ledger sample_accepted) sample_succeeded = None"
  using sample_receipts_valid sample_envelope_valid
  by (simp_all add: ValidateLedger_def validateNextReceipt_def append_receipt_def sample_ledger_def)
    (simp_all add: sample_receipt_def ReceiptStatus_Terminal_def)

lemma sample_observe_accepted:
  "\<exists>d. Observe sample_applying sample_ledger (sample_observe 2 sample_accepted) = Inr d \<and> dec_Effect d = sample_acknowledged \<and>
     dec_Ledger d = Some (append_receipt sample_ledger sample_accepted)"
  "\<exists>d. Observe sample_acknowledged (append_receipt sample_ledger sample_accepted) (sample_observe 3 sample_succeeded) = Inr d \<and>
     dec_Effect d = sample_applied \<and> dec_Ledger d = Some (append_receipt (append_receipt sample_ledger sample_accepted) sample_succeeded)"
proof -
  have f: "eff_State sample_applying = EffectApplying" "eff_EffectID sample_applying = sample_effect_id" "eff_Revision sample_applying = 2"
    "eff_CommandID sample_applying = ''cmd-1''" "eff_ExternalIdentity sample_applying = []" "eff_ResultArtifactRef sample_applying = []"
    "ce_CommandID sample_envelope = ''cmd-1''" "ce_EffectID sample_envelope = sample_effect_id"
    by (simp_all add: sample_applying_defs sample_envelope_def unsigned_envelope_def)
  have a: "observed_effect sample_applying sample_accepted = Inr sample_acknowledged"
    by (simp add: observed_effect_def sample_receipt_def sample_acknowledged_def f)
  have b: "observed_effect sample_acknowledged sample_succeeded = Inr sample_applied"
    by (simp add: observed_effect_def sample_receipt_def sample_acknowledged_def sample_applied_def sample_applying_defs)
  have x: "cr_CommandID sample_accepted = ''cmd-1''" "cr_CommandID sample_succeeded = ''cmd-1''"
    "ValidIdentifier (cr_ReceiptID sample_accepted)" "ValidIdentifier (cr_ReceiptID sample_succeeded)"
    using sample_receipt_id(2) by (simp_all add: sample_receipt_def)
  have r: "eff_EffectID sample_acknowledged = sample_effect_id" "eff_Revision sample_acknowledged = 3" "eff_State sample_acknowledged = EffectApplying"
    "eff_CommandID sample_acknowledged = ''cmd-1''" "eff_EffectID sample_applied = sample_effect_id"
    by (simp_all add: sample_acknowledged_def sample_applied_def f)
  have l: "cl_Envelope sample_ledger = sample_envelope" "cl_Envelope (append_receipt m y) = cl_Envelope m" for m y
    by (simp_all add: sample_ledger_def append_receipt_def)
  show "\<exists>d. Observe sample_applying sample_ledger (sample_observe 2 sample_accepted) = Inr d \<and> dec_Effect d = sample_acknowledged \<and>
     dec_Ledger d = Some (append_receipt sample_ledger sample_accepted)"
    using observe_accepts [OF sample_applying_valid sample_ledger_valid sample_receipts_order(1,3) f(1) _ _ a sample_records_valid(1)]
      sample_effect_id(2) x by (simp add: f r l sample_observe_def)
  show "\<exists>d. Observe sample_acknowledged (append_receipt sample_ledger sample_accepted) (sample_observe 3 sample_succeeded) = Inr d \<and>
     dec_Effect d = sample_applied \<and> dec_Ledger d = Some (append_receipt (append_receipt sample_ledger sample_accepted) sample_succeeded)"
    using observe_accepts [OF sample_records_valid(1) sample_receipts_order(1,2,4) r(3) _ _ b sample_records_valid(2)]
      sample_effect_id(2) x by (simp add: f r l sample_observe_def)
qed

text \<open>Its compensation.\<close>

definition sample_compensate :: "u64 \<Rightarrow> instant \<Rightarrow> EffectCompensationState \<Rightarrow> CompensationCommand" where
  "sample_compensate n at to = \<lparr>cc_EffectID = sample_effect_id, cc_ExpectedRevision = n, cc_To = to,
     cc_CompensationCommandID = (if to = EffectCompensationRunning then ''undo'' else []), cc_Failure = None, cc_RetryAt = None,
     cc_CommandID = ''undo'', cc_At = at\<rparr>"

lemma compensate_accepts:
  assumes "ValidateRecord r = None" and "eff_EffectID r = sample_effect_id" and "eff_Revision r = n" and "at \<noteq> 0" and "eff_UpdatedAt r \<le> at"
    and "eff_State r = EffectApplied" and "ei_CompensationPolicy (eff_Intent r) \<noteq> CompensationNone"
    and "validateCompensationTransition (eff_CompensationState r) (sample_compensate n at to) = None"
    and "ValidateRecord (compensated_effect r (sample_compensate n at to)) = None"
    and "utf8_valid (EffectCompensationState_string (eff_CompensationState r))" and "utf8_valid (EffectCompensationState_string to)"
    and "length (EffectCompensationState_string (eff_CompensationState r)) \<le> 20" and "length (EffectCompensationState_string to) \<le> 20"
  shows "effect_reduce r (CompensateEffect (sample_compensate n at to)) = Inr (compensated_effect r (sample_compensate n at to))"
proof -
  let ?c = "sample_compensate n at to" and ?t = "compensated_effect r (sample_compensate n at to)"
  have c: "cc_EffectID ?c = sample_effect_id" "cc_ExpectedRevision ?c = n" "cc_To ?c = to" "cc_CommandID ?c = ''undo''" "cc_At ?c = at"
    by (simp_all add: sample_compensate_def)
  have t: "eff_EffectID ?t = sample_effect_id" using assms(2) by (simp add: compensated_effect_def)
  have "\<exists>e. effect_newEvent ?t (''effect.compensation.'' @ EffectCompensationState_string to) ''undo'' at
       [(''from'', JStr (EffectCompensationState_string (eff_CompensationState r))), (''to'', JStr (EffectCompensationState_string to)),
        (''attemptCount'', JU32 (eff_CompensationAttemptCount ?t))] = Inr e"
    by (rule effect_newEvent_ok)
      (use assms(10-13) t sample_effect_id(2) JU32_bound [of "eff_CompensationAttemptCount ?t"] in \<open>simp_all add: ascii_def\<close>)
  then obtain e where e: "effect_newEvent ?t (''effect.compensation.'' @ EffectCompensationState_string to) ''undo'' at
       [(''from'', JStr (EffectCompensationState_string (eff_CompensationState r))), (''to'', JStr (EffectCompensationState_string to)),
        (''attemptCount'', JU32 (eff_CompensationAttemptCount ?t))] = Inr e" by blast
  have "\<exists>i. durableIntent IntentCleanup (eff_EffectID ?t) (eff_Revision ?t)
       [(''effectId'', JStr (eff_EffectID ?t)), (''compensationState'', JStr (EffectCompensationState_string to)),
        (''effectRevision'', JU64 (eff_Revision ?t))] = Inr i"
    by (rule durableIntent_ok)
      (use assms(11,13) t sample_effect_id(2) ValidIdentifier_length [OF sample_effect_id(2)] JU64_bound [of "eff_Revision ?t"] in
        \<open>simp_all add: IntentKind_string_def ascii_def\<close>)
  then obtain i where i: "durableIntent IntentCleanup (eff_EffectID ?t) (eff_Revision ?t)
       [(''effectId'', JStr (eff_EffectID ?t)), (''compensationState'', JStr (EffectCompensationState_string to)),
        (''effectRevision'', JU64 (eff_Revision ?t))] = Inr i" by blast
  show ?thesis
    using assms(1-9) e i
    by (simp add: effect_reduce_def decide_effect_def TransitionCompensation_def effect_decision_def cleanup_intent_def c)
qed

definition sample_pending :: EffectRecord where
  "sample_pending = compensated_effect sample_applied (sample_compensate 4 9 EffectCompensationPending)"
definition sample_running_compensation :: EffectRecord where
  "sample_running_compensation = compensated_effect sample_pending (sample_compensate 5 10 EffectCompensationRunning)"
definition sample_compensated :: EffectRecord where
  "sample_compensated = compensated_effect sample_running_compensation (sample_compensate 6 11 EffectCompensationSucceeded)"

lemmas sample_compensation_defs = sample_compensated_def sample_running_compensation_def sample_pending_def compensated_effect_def
  sample_compensate_def sample_applied_def sample_applying_defs sample_envelope_def unsigned_envelope_def

lemma sample_compensation_valid:
  "ValidateRecord sample_pending = None" "ValidateRecord sample_running_compensation = None" "ValidateRecord sample_compensated = None"
  using sample_identity(2)
  by (simp add: sample_record_simps sample_compensation_defs,
      simp add: sample_record_simps sample_compensation_defs,
      simp add: sample_record_simps sample_compensation_defs)

lemmas compensation_state_defs = validateCompensationTransition_def compensation_edges_def EffectCompensationState_Valid_def
  EffectCompensationState_string_def ascii_def

lemma sample_compensation:
  "fold_reduce effect_reduce sample_applied
     [CompensateEffect (sample_compensate 4 9 EffectCompensationPending), CompensateEffect (sample_compensate 5 10 EffectCompensationRunning),
      CompensateEffect (sample_compensate 6 11 EffectCompensationSucceeded)] = Inr sample_compensated"
proof -
  have "effect_reduce sample_applied (CompensateEffect (sample_compensate 4 9 EffectCompensationPending)) = Inr sample_pending"
    unfolding sample_pending_def
    by (rule compensate_accepts) (use sample_records_valid(2) sample_compensation_valid(1) [unfolded sample_pending_def] in
        \<open>simp_all, simp_all add: sample_compensation_defs compensation_state_defs\<close>)
  moreover have "effect_reduce sample_pending (CompensateEffect (sample_compensate 5 10 EffectCompensationRunning)) = Inr sample_running_compensation"
    unfolding sample_running_compensation_def
    by (rule compensate_accepts) (use sample_compensation_valid(1) sample_compensation_valid(2) [unfolded sample_running_compensation_def] in
        \<open>simp_all, simp_all add: sample_compensation_defs compensation_state_defs\<close>)
  moreover have "effect_reduce sample_running_compensation (CompensateEffect (sample_compensate 6 11 EffectCompensationSucceeded)) = Inr sample_compensated"
    unfolding sample_compensated_def
    by (rule compensate_accepts) (use sample_compensation_valid(2) sample_compensation_valid(3) [unfolded sample_compensated_def] in
        \<open>simp_all, simp_all add: sample_compensation_defs compensation_state_defs\<close>)
  ultimately show ?thesis by simp
qed

lemma sample_application:
  "fold_reduce effect_reduce sample_prepared [BeginEffect sample_begin, ObserveEffect sample_ledger (sample_observe 2 sample_accepted),
     ObserveEffect (append_receipt sample_ledger sample_accepted) (sample_observe 3 sample_succeeded)] = Inr sample_applied"
  using sample_begin_accepted sample_observe_accepted by (auto simp: effect_reduce_def decide_effect_def)

definition sample_history :: "EffectCommand list" where
  "sample_history = [BeginEffect sample_begin, ObserveEffect sample_ledger (sample_observe 2 sample_accepted),
     ObserveEffect (append_receipt sample_ledger sample_accepted) (sample_observe 3 sample_succeeded),
     CompensateEffect (sample_compensate 4 9 EffectCompensationPending), CompensateEffect (sample_compensate 5 10 EffectCompensationRunning),
     CompensateEffect (sample_compensate 6 11 EffectCompensationSucceeded)]"

lemma sample_history: "fold_reduce effect_reduce sample_prepared sample_history = Inr sample_compensated"
proof -
  have split: "sample_history = [BeginEffect sample_begin, ObserveEffect sample_ledger (sample_observe 2 sample_accepted),
     ObserveEffect (append_receipt sample_ledger sample_accepted) (sample_observe 3 sample_succeeded)] @
     [CompensateEffect (sample_compensate 4 9 EffectCompensationPending), CompensateEffect (sample_compensate 5 10 EffectCompensationRunning),
      CompensateEffect (sample_compensate 6 11 EffectCompensationSucceeded)]" by (simp add: sample_history_def)
  show ?thesis
    by (simp only: split fold_reduce_append sample_application andThen_simps sample_compensation)
qed

section \<open>Witnesses\<close>

theorem effect_invariant_witness:
  "ValidateRecord sample_compensated = None \<and> unat (eff_Revision sample_compensated) = 7 \<and> eff_Intent sample_compensated = sample_intent"
proof -
  obtain d where d: "Prepare sample_prepare = Inr d" "dec_Effect d = sample_prepared" using sample_prepare_accepted by blast
  have n: "length sample_history = 6" by (simp add: sample_history_def)
  show ?thesis
    using effect_invariant [OF d(1), of sample_history sample_compensated] sample_history d(2) n by (simp add: sample_prepare_def)
qed

theorem effect_outcome_final_witness:
  "primary_outcome sample_compensated = primary_outcome sample_applied \<and> (\<forall>b u. effect_reduce sample_compensated (BeginEffect b) \<noteq> Inr u)"
  using effect_outcome_final [OF sample_compensation] by (simp add: sample_applied_def)

theorem receipt_ledger_shape_witness:
  "\<exists>a b. cl_Receipts (append_receipt (append_receipt sample_ledger sample_accepted) sample_succeeded) = [a, b] \<and>
     cr_Status a = ReceiptAccepted \<and> cr_ObservedAt a \<le> cr_ObservedAt b"
  using receipt_ledger_shape [OF sample_receipts_order(2)] by (simp add: append_receipt_def sample_ledger_def)

theorem observe_refines_receipts_witness:
  "\<exists>m. eff_State sample_applied = receipts_state [ReceiptAccepted, ReceiptSucceeded] \<and> evidence_matches sample_applied m \<and>
     cl_Receipts m = [sample_accepted, sample_succeeded]"
proof -
  obtain d where d: "Begin sample_prepared sample_begin = Inr d" "dec_Effect d = sample_applying" "dec_Ledger d = Some sample_ledger"
    using sample_begin_accepted by blast
  let ?m = "append_receipt (append_receipt sample_ledger sample_accepted) sample_succeeded"
  have "observe_all sample_applying sample_ledger [sample_observe 2 sample_accepted, sample_observe 3 sample_succeeded] = Inr (sample_applied, ?m)"
    using sample_observe_accepted by auto
  then show ?thesis
    using observe_refines_receipts [OF d(1,3), of "[sample_observe 2 sample_accepted, sample_observe 3 sample_succeeded]" sample_applied ?m] d(2)
    by (auto simp: sample_observe_def) (simp add: sample_receipt_def)
qed

theorem closed_compensation_final_witness: "\<forall>cmd u. effect_reduce sample_compensated cmd \<noteq> Inr u"
proof (intro allI)
  fix cmd u
  obtain d where d: "Prepare sample_prepare = Inr d" "dec_Effect d = sample_prepared" using sample_prepare_accepted by blast
  show "effect_reduce sample_compensated cmd \<noteq> Inr u"
    by (rule closed_compensation_final [OF d(1), of sample_history])
      (simp_all add: d(2) sample_history, simp_all add: sample_history_def sample_compensated_def compensated_effect_def sample_compensate_def ClosesRequired_def)
qed

theorem replay_prepare_witness:
  "ReplayPrepare sample_applied sample_prepare = Inr \<lparr>dec_Effect = sample_applied, dec_Ledger = None, dec_Events = [], dec_Intents = []\<rparr>"
proof -
  obtain d where d: "Prepare sample_prepare = Inr d" "dec_Effect d = sample_prepared" using sample_prepare_accepted by blast
  show ?thesis using replay_prepare [OF d(1), OF sample_application [folded d(2)]] by simp
qed

theorem begin_hides_credentials_witness:
  "\<exists>d ledger json. Begin sample_prepared sample_begin = Inr d \<and> dec_Ledger d = Some ledger \<and> CommandLedger_json ledger = Inr json \<and>
     dispatch_writes sample_prepared (public_command sample_begin) = Inr (dec_Effect d, json, dec_Events d, dec_Intents d)"
proof -
  obtain d where d: "Begin sample_prepared sample_begin = Inr d" using sample_begin_accepted by blast
  show ?thesis using begin_hides_credentials [OF d] d by blast
qed

end
