(* ===== verification/Runtime_Reducer.thy ===== *)
theory Runtime_Reducer
  imports Effect_Contracts Exec_Identity
begin

text \<open>
  Package kernel/runtime (runtime.go, validation.go) with its data from
  sdk/go/contracts/runtime.go: bindings of long-lived runtime objects. A binding is leased to
  an owner by token and time and fenced by a generation and a fencing token; a takeover after
  the lease has run out starts a new generation. Operations whose names also occur in
  kernel/effect have the prefix \<open>runtime_\<close>.
\<close>

section \<open>Data\<close>

datatype RuntimeBindingState = RuntimeBindingPreparing | RuntimeBindingActive | RuntimeBindingStopping
  | RuntimeBindingReleased | RuntimeBindingLost | RuntimeBindingStateOther string

definition RuntimeBindingState_Valid :: "RuntimeBindingState \<Rightarrow> bool" where
  "RuntimeBindingState_Valid s = (case s of RuntimeBindingStateOther _ \<Rightarrow> False | _ \<Rightarrow> True)"

definition RuntimeBindingState_Terminal :: "RuntimeBindingState \<Rightarrow> bool" where
  "RuntimeBindingState_Terminal s \<longleftrightarrow> s = RuntimeBindingReleased \<or> s = RuntimeBindingLost"

definition RuntimeBindingState_string :: "RuntimeBindingState \<Rightarrow> string" where
  "RuntimeBindingState_string s = (case s of RuntimeBindingPreparing \<Rightarrow> ''preparing'' | RuntimeBindingActive \<Rightarrow> ''active''
     | RuntimeBindingStopping \<Rightarrow> ''stopping'' | RuntimeBindingReleased \<Rightarrow> ''released'' | RuntimeBindingLost \<Rightarrow> ''lost''
     | RuntimeBindingStateOther t \<Rightarrow> t)"

datatype RuntimeObservedState = RuntimeObservedUnknown | RuntimeObservedStarting | RuntimeObservedRunning
  | RuntimeObservedStopping | RuntimeObservedStopped | RuntimeObservedFailed | RuntimeObservedLost
  | RuntimeObservedStateOther string

definition RuntimeObservedState_Valid :: "RuntimeObservedState \<Rightarrow> bool" where
  "RuntimeObservedState_Valid s = (case s of RuntimeObservedStateOther _ \<Rightarrow> False | _ \<Rightarrow> True)"

definition RuntimeObservedState_string :: "RuntimeObservedState \<Rightarrow> string" where
  "RuntimeObservedState_string s = (case s of RuntimeObservedUnknown \<Rightarrow> ''unknown'' | RuntimeObservedStarting \<Rightarrow> ''starting''
     | RuntimeObservedRunning \<Rightarrow> ''running'' | RuntimeObservedStopping \<Rightarrow> ''stopping'' | RuntimeObservedStopped \<Rightarrow> ''stopped''
     | RuntimeObservedFailed \<Rightarrow> ''failed'' | RuntimeObservedLost \<Rightarrow> ''lost'' | RuntimeObservedStateOther t \<Rightarrow> t)"

datatype RuntimeHealth = RuntimeHealthUnknown | RuntimeHealthHealthy | RuntimeHealthDegraded | RuntimeHealthUnhealthy
  | RuntimeHealthLost | RuntimeHealthOther string

definition RuntimeHealth_Valid :: "RuntimeHealth \<Rightarrow> bool" where
  "RuntimeHealth_Valid h = (case h of RuntimeHealthOther _ \<Rightarrow> False | _ \<Rightarrow> True)"

definition RuntimeHealth_string :: "RuntimeHealth \<Rightarrow> string" where
  "RuntimeHealth_string h = (case h of RuntimeHealthUnknown \<Rightarrow> ''unknown'' | RuntimeHealthHealthy \<Rightarrow> ''healthy''
     | RuntimeHealthDegraded \<Rightarrow> ''degraded'' | RuntimeHealthUnhealthy \<Rightarrow> ''unhealthy'' | RuntimeHealthLost \<Rightarrow> ''lost''
     | RuntimeHealthOther t \<Rightarrow> t)"

datatype RuntimeCleanupPolicy = RuntimeCleanupNone | RuntimeCleanupOnRunClose | RuntimeCleanupOnScopeExit
  | RuntimeCleanupPolicyOther string

definition RuntimeCleanupPolicy_Valid :: "RuntimeCleanupPolicy \<Rightarrow> bool" where
  "RuntimeCleanupPolicy_Valid p = (case p of RuntimeCleanupPolicyOther _ \<Rightarrow> False | _ \<Rightarrow> True)"

record RuntimeBinding =
  rb_BindingID :: string
  rb_NamespaceID :: string
  rb_RunID :: string
  rb_InvocationID :: string
  rb_NodeID :: string
  rb_RuntimeKey :: string
  rb_Kind :: string
  rb_SpecDigest :: string
  rb_ProviderRef :: string
  rb_ProviderDigest :: string
  rb_Ownership :: EffectOwnership
  rb_CleanupPolicy :: RuntimeCleanupPolicy
  rb_State :: RuntimeBindingState
  rb_ObservedState :: RuntimeObservedState
  rb_Health :: RuntimeHealth
  rb_ExternalIdentity :: string
  rb_Generation :: u64
  rb_FencingToken :: u64
  rb_LeaseOwner :: string
  rb_LeaseTokenHash :: string
  rb_LeaseExpiresAt :: instant
  rb_ObservationDigest :: string
  rb_ObservationAt :: "instant option"
  rb_PrimaryFailure :: "StructuredFailure option"
  rb_CreatedAt :: instant
  rb_ActivatedAt :: "instant option"
  rb_ReleaseStartedAt :: "instant option"
  rb_FinishedAt :: "instant option"
  rb_UpdatedAt :: instant
  rb_Revision :: u64

record PrepareBindingCommand =
  pb_BindingID :: string
  pb_NamespaceID :: string
  pb_RunID :: string
  pb_InvocationID :: string
  pb_NodeID :: string
  pb_RuntimeKey :: string
  pb_Kind :: string
  pb_SpecDigest :: string
  pb_ProviderRef :: string
  pb_ProviderDigest :: string
  pb_Ownership :: EffectOwnership
  pb_CleanupPolicy :: RuntimeCleanupPolicy
  pb_Generation :: u64
  pb_FencingToken :: u64
  pb_LeaseOwner :: string
  pb_LeaseToken :: string
  pb_LeaseExpiresAt :: instant
  pb_CommandID :: string
  pb_At :: instant

record BindingFence =
  bf_BindingID :: string
  bf_ExpectedRevision :: u64
  bf_Generation :: u64
  bf_FencingToken :: u64
  bf_LeaseOwner :: string
  bf_LeaseToken :: string
  bf_At :: instant

record RuntimeObserveCommand =
  ro_Fence :: BindingFence
  ro_ExternalIdentity :: string
  ro_ObservedState :: RuntimeObservedState
  ro_Health :: RuntimeHealth
  ro_ObservationDigest :: string
  ro_Failure :: "StructuredFailure option"
  ro_CommandID :: string

record HeartbeatCommand =
  rh_Fence :: BindingFence
  rh_LeaseExpiresAt :: instant
  rh_CommandID :: string

record TakeoverCommand =
  tk_BindingID :: string
  tk_ExpectedRevision :: u64
  tk_Generation :: u64
  tk_FencingToken :: u64
  tk_LeaseOwner :: string
  tk_LeaseToken :: string
  tk_LeaseExpiresAt :: instant
  tk_CommandID :: string
  tk_At :: instant

record ReleaseCommand =
  rl_Fence :: BindingFence
  rl_CommandID :: string

record RuntimeDecision =
  rtd_Binding :: RuntimeBinding
  rtd_Events :: "DomainEvent list"
  rtd_Intents :: "DurableIntent list"

section \<open>Identities, events, intents\<close>

definition StableBindingID :: "string \<Rightarrow> string \<Rightarrow> string result" where
  "StableBindingID invocationID runtimeKey =
     ensure (fail_if (\<not> ValidIdentifier invocationID \<or> \<not> ValidIdentifier runtimeKey)
               (Errorf ''runtime binding identity parts are invalid'')) (
     andThen (Marshal (JArr [JStr ''xgc.runtime-binding/v1'', JStr invocationID, JStr runtimeKey])) (\<lambda>canonical.
     Inr (''rtb-'' @ EncodeToString (Sum256 (string_bytes canonical)))))"

definition runtime_newEvent :: "RuntimeBinding \<Rightarrow> string \<Rightarrow> string \<Rightarrow> instant \<Rightarrow> payload \<Rightarrow> DomainEvent result" where
  "runtime_newEvent b ty command at payload =
     andThen (DigestValue (JObj payload)) (\<lambda>digest.
     andThen (StableEventID ''runtime'' (rb_BindingID b) (rb_Revision b)) (\<lambda>ident.
       Inr \<lparr>ev_EventID = ident, ev_AggregateType = ''runtime'', ev_AggregateID = rb_BindingID b,
            ev_AggregateRevision = rb_Revision b, ev_Type = ty, ev_CommandID = command, ev_CausationID = [],
            ev_CorrelationID = [],
            ev_PayloadSchemaDigest = ''sha256:82ef96cebaf5fbe16269fd18b0240d78f5b9b90a4155a17eb797115b09148ecf'',
            ev_PayloadDigest = digest, ev_Payload = payload, ev_OccurredAt = at\<rparr>))"

definition newIntent :: "DurableIntentKind \<Rightarrow> RuntimeBinding \<Rightarrow> payload \<Rightarrow> DurableIntent result" where
  "newIntent kind b payload =
     andThen (DigestValue (JObj payload)) (\<lambda>digest.
     andThen (StableIntentID kind (rb_BindingID b) (rb_Revision b)) (\<lambda>ident.
       Inr \<lparr>di_Kind = kind, di_Identity = ident, di_AggregateID = rb_BindingID b, di_PayloadDigest = digest,
            di_Payload = payload\<rparr>))"

definition ObservationDigest ::
  "string \<Rightarrow> u64 \<Rightarrow> u64 \<Rightarrow> string \<Rightarrow> RuntimeObservedState \<Rightarrow> RuntimeHealth \<Rightarrow> StructuredFailure option \<Rightarrow> string result" where
  "ObservationDigest bindingID generation fencingToken externalIdentity state health failure = DigestValue (JObj
     [(''bindingId'', JStr bindingID), (''generation'', JU64 generation), (''fencingToken'', JU64 fencingToken),
      (''externalIdentity'', JStr externalIdentity), (''state'', JStr (RuntimeObservedState_string state)),
      (''health'', JStr (RuntimeHealth_string health)), (''failure'', failure_json failure)])"

section \<open>Validation\<close>

definition runtime_validateFailure :: "StructuredFailure option \<Rightarrow> error option" where
  "runtime_validateFailure failure =
     (case failure of None \<Rightarrow> Some (Errorf ''runtime structured failure is invalid'')
      | Some f \<Rightarrow> first_error
          [fail_if (\<not> FailureClass_Valid (fail_Class f) \<or> \<not> ValidIdentifier (fail_Code f) \<or> fail_Message f = [] \<or>
                    length (fail_Message f) > 4096)
             (Errorf ''runtime structured failure is invalid''),
           fail_if (fail_EvidenceRef f \<noteq> [] \<and> \<not> ValidIdentifier (fail_EvidenceRef f))
             (Errorf ''runtime failure evidence ref is invalid'')])"

definition validateObservationFailure :: "RuntimeObservedState \<Rightarrow> StructuredFailure option \<Rightarrow> error option" where
  "validateObservationFailure state failure = first_error
     [fail_if ((state = RuntimeObservedFailed \<or> state = RuntimeObservedLost) \<noteq> (failure \<noteq> None))
        (Errorf ''runtime failed/lost observation and failure disagree''),
      (if failure \<noteq> None then runtime_validateFailure failure else None)]"

definition validate_lease :: "RuntimeBinding \<Rightarrow> error option" where
  "validate_lease b =
     (if RuntimeBindingState_Terminal (rb_State b) then
        fail_if (rb_FinishedAt b = None \<or> rb_LeaseOwner b \<noteq> [] \<or> rb_LeaseTokenHash b \<noteq> [] \<or> \<not> IsZero (rb_LeaseExpiresAt b))
          (Errorf ''terminal runtime binding retains lease or lacks finish time'')
      else first_error
        [validateIdentity (rb_LeaseOwner b),
         fail_if (\<not> ValidDigest (rb_LeaseTokenHash b) \<or> \<not> After (rb_LeaseExpiresAt b) (rb_UpdatedAt b) \<or> rb_FinishedAt b \<noteq> None)
           (Errorf ''live runtime binding requires unexpired hashed lease and no finish time'')])"

definition validate_binding_state :: "RuntimeBinding \<Rightarrow> error option" where
  "validate_binding_state b = first_error
     [fail_if (rb_State b = RuntimeBindingActive \<and>
               (rb_ActivatedAt b = None \<or> rb_ExternalIdentity b = [] \<or> rb_ObservedState b \<noteq> RuntimeObservedRunning))
        (Errorf ''active runtime requires running external identity and activation time''),
      fail_if (rb_State b = RuntimeBindingStopping \<and> (rb_Ownership b \<noteq> EffectOwned \<or> rb_ReleaseStartedAt b = None))
        (Errorf ''stopping runtime requires owned release lifecycle''),
      fail_if (rb_State b = RuntimeBindingReleased \<and> rb_Ownership b = EffectOwned \<and> rb_ObservedState b \<noteq> RuntimeObservedStopped)
        (Errorf ''released owned runtime lacks stopped observation''),
      fail_if (rb_State b = RuntimeBindingLost \<and>
               (rb_ObservedState b \<noteq> RuntimeObservedLost \<or> rb_Health b \<noteq> RuntimeHealthLost \<or> rb_PrimaryFailure b = None))
        (Errorf ''lost runtime requires lost observation, health, and failure'')]"

definition validate_observation :: "RuntimeBinding \<Rightarrow> error option" where
  "validate_observation b = first_error
     [(if rb_ObservationDigest b = []
       then fail_if (rb_ObservationAt b \<noteq> None) (Errorf ''runtime observation time exists without digest'')
       else fail_if (\<not> ValidDigest (rb_ObservationDigest b) \<or>
                     (case rb_ObservationAt b of None \<Rightarrow> True | Some t \<Rightarrow> After t (rb_UpdatedAt b)))
              (Errorf ''runtime observation digest or time is invalid'')),
      (if rb_ExternalIdentity b \<noteq> [] then validateIdentity (rb_ExternalIdentity b) else None),
      (if rb_PrimaryFailure b \<noteq> None then first_error
         [runtime_validateFailure (rb_PrimaryFailure b),
          fail_if (rb_ObservedState b \<noteq> RuntimeObservedFailed \<and> rb_ObservedState b \<noteq> RuntimeObservedLost)
            (Errorf ''runtime failure exists outside failed or lost observation'')]
       else None)]"

definition ValidateBinding :: "RuntimeBinding \<Rightarrow> error option" where
  "ValidateBinding b = first_error
     [validateIdentity (rb_BindingID b), validateIdentity (rb_NamespaceID b), validateIdentity (rb_RunID b),
      validateIdentity (rb_InvocationID b), validateIdentity (rb_NodeID b), validateIdentity (rb_RuntimeKey b),
      validateIdentity (rb_ProviderRef b),
      fail_if (StableBindingID (rb_InvocationID b) (rb_RuntimeKey b) \<noteq> Inr (rb_BindingID b))
        (Errorf ''runtime binding stable identity is invalid''),
      fail_if (\<not> ValidTypeRef (rb_Kind b) \<or> \<not> ValidDigest (rb_SpecDigest b) \<or> \<not> ValidDigest (rb_ProviderDigest b))
        (Errorf ''runtime kind, spec digest, or provider digest is invalid''),
      fail_if (\<not> EffectOwnership_Valid (rb_Ownership b) \<or> \<not> RuntimeCleanupPolicy_Valid (rb_CleanupPolicy b) \<or>
               \<not> RuntimeBindingState_Valid (rb_State b) \<or> \<not> RuntimeObservedState_Valid (rb_ObservedState b) \<or>
               \<not> RuntimeHealth_Valid (rb_Health b))
        (Errorf ''runtime ownership, cleanup, state, observation, or health is invalid''),
      (if rb_Ownership b = EffectOwned
       then fail_if (rb_CleanupPolicy b = RuntimeCleanupNone) (Errorf ''owned runtime requires cleanup policy'')
       else fail_if (rb_CleanupPolicy b \<noteq> RuntimeCleanupNone) (Errorf ''attached or shared runtime cannot be destroyed by cleanup'')),
      fail_if (rb_Generation b = 0 \<or> rb_FencingToken b = 0 \<or> rb_Revision b = 0 \<or> IsZero (rb_CreatedAt b) \<or>
               Before (rb_UpdatedAt b) (rb_CreatedAt b))
        (Errorf ''runtime generation, fencing token, revision, or timestamps are invalid''),
      validate_lease b, validate_binding_state b, validate_observation b]"

definition validatePrepare :: "PrepareBindingCommand \<Rightarrow> error option" where
  "validatePrepare c = first_error
     [validateIdentity (pb_BindingID c), validateIdentity (pb_NamespaceID c), validateIdentity (pb_RunID c),
      validateIdentity (pb_InvocationID c), validateIdentity (pb_NodeID c), validateIdentity (pb_RuntimeKey c),
      validateIdentity (pb_ProviderRef c), validateIdentity (pb_LeaseOwner c), validateIdentity (pb_CommandID c),
      fail_if (\<not> ValidTypeRef (pb_Kind c) \<or> \<not> ValidDigest (pb_SpecDigest c) \<or> \<not> ValidDigest (pb_ProviderDigest c))
        (Errorf ''runtime kind, spec digest, or provider digest is invalid''),
      fail_if (\<not> EffectOwnership_Valid (pb_Ownership c) \<or> \<not> RuntimeCleanupPolicy_Valid (pb_CleanupPolicy c) \<or>
               pb_Generation c \<noteq> 1 \<or> pb_FencingToken c = 0 \<or> IsZero (pb_At c) \<or> \<not> After (pb_LeaseExpiresAt c) (pb_At c))
        (Errorf ''runtime initial ownership, cleanup, generation, fence, or time is invalid''),
      fail_if (pb_Ownership c = EffectOwned \<and> pb_CleanupPolicy c = RuntimeCleanupNone)
        (Errorf ''owned runtime requires cleanup policy''),
      fail_if (pb_Ownership c \<noteq> EffectOwned \<and> pb_CleanupPolicy c \<noteq> RuntimeCleanupNone)
        (Errorf ''non-owned runtime must use no cleanup''),
      err_of (PrivateTokenDigest (pb_LeaseToken c))]"

definition runtime_validateFence :: "RuntimeBinding \<Rightarrow> BindingFence \<Rightarrow> error option" where
  "runtime_validateFence b f = first_error
     [fail_if (bf_BindingID f \<noteq> rb_BindingID b \<or> bf_ExpectedRevision f \<noteq> rb_Revision b) (ErrRevisionConflict RuntimePkg),
      fail_if (bf_Generation f \<noteq> rb_Generation b \<or> bf_FencingToken f \<noteq> rb_FencingToken b) ErrFenceConflict,
      fail_if (bf_LeaseOwner f \<noteq> rb_LeaseOwner b) (ErrLeaseConflict RuntimePkg),
      fail_if (PrivateTokenDigest (bf_LeaseToken f) \<noteq> Inr (rb_LeaseTokenHash b) \<or> IsZero (bf_At f) \<or>
               Before (bf_At f) (rb_UpdatedAt b) \<or> \<not> Before (bf_At f) (rb_LeaseExpiresAt b))
        (ErrLeaseConflict RuntimePkg)]"

section \<open>Operations\<close>

definition clearLease :: "RuntimeBinding \<Rightarrow> RuntimeBinding" where
  "clearLease b = b\<lparr>rb_LeaseOwner := [], rb_LeaseTokenHash := [], rb_LeaseExpiresAt := zero_time\<rparr>"

definition runtime_decision :: "RuntimeBinding \<Rightarrow> string \<Rightarrow> string \<Rightarrow> instant \<Rightarrow> payload \<Rightarrow> DurableIntent list \<Rightarrow> RuntimeDecision result" where
  "runtime_decision next ty command at payload intents =
     andThen (runtime_newEvent next ty command at payload) (\<lambda>event.
       Inr \<lparr>rtd_Binding = next, rtd_Events = [event], rtd_Intents = intents\<rparr>)"

definition prepared_binding :: "PrepareBindingCommand \<Rightarrow> string \<Rightarrow> RuntimeBinding" where
  "prepared_binding c leaseHash =
     \<lparr>rb_BindingID = pb_BindingID c, rb_NamespaceID = pb_NamespaceID c, rb_RunID = pb_RunID c,
      rb_InvocationID = pb_InvocationID c, rb_NodeID = pb_NodeID c, rb_RuntimeKey = pb_RuntimeKey c, rb_Kind = pb_Kind c,
      rb_SpecDigest = pb_SpecDigest c, rb_ProviderRef = pb_ProviderRef c, rb_ProviderDigest = pb_ProviderDigest c,
      rb_Ownership = pb_Ownership c, rb_CleanupPolicy = pb_CleanupPolicy c, rb_State = RuntimeBindingPreparing,
      rb_ObservedState = RuntimeObservedUnknown, rb_Health = RuntimeHealthUnknown, rb_ExternalIdentity = [],
      rb_Generation = pb_Generation c, rb_FencingToken = pb_FencingToken c, rb_LeaseOwner = pb_LeaseOwner c,
      rb_LeaseTokenHash = leaseHash, rb_LeaseExpiresAt = pb_LeaseExpiresAt c, rb_ObservationDigest = [],
      rb_ObservationAt = None, rb_PrimaryFailure = None, rb_CreatedAt = pb_At c, rb_ActivatedAt = None,
      rb_ReleaseStartedAt = None, rb_FinishedAt = None, rb_UpdatedAt = pb_At c, rb_Revision = 1\<rparr>"

definition runtime_Prepare :: "PrepareBindingCommand \<Rightarrow> RuntimeDecision result" where
  "runtime_Prepare c =
     ensure (validatePrepare c) (
     ensure (fail_if (StableBindingID (pb_InvocationID c) (pb_RuntimeKey c) \<noteq> Inr (pb_BindingID c))
               (Errorf ''runtime binding stable identity is invalid'')) (
     andThen (PrivateTokenDigest (pb_LeaseToken c)) (\<lambda>leaseHash.
     ensure (ValidateBinding (prepared_binding c leaseHash)) (
     runtime_decision (prepared_binding c leaseHash) ''runtime.preparing'' (pb_CommandID c) (pb_At c)
       [(''generation'', JU64 (pb_Generation c)), (''fencingToken'', JU64 (pb_FencingToken c)),
        (''specDigest'', JStr (pb_SpecDigest c))] []))))"

definition validateObservation :: "RuntimeBinding \<Rightarrow> RuntimeObserveCommand \<Rightarrow> error option" where
  "validateObservation b c = first_error
     [ValidateBinding b, runtime_validateFence b (ro_Fence c), validateIdentity (ro_CommandID c),
      fail_if (\<not> RuntimeObservedState_Valid (ro_ObservedState c) \<or> \<not> RuntimeHealth_Valid (ro_Health c) \<or>
               \<not> ValidDigest (ro_ObservationDigest c))
        (Errorf ''runtime observation state, health, or digest is invalid''),
      fail_if (RuntimeBindingState_Terminal (rb_State b)) (ErrInvalidTransition RuntimePkg),
      fail_if (ro_ExternalIdentity c = [] \<and> ro_ObservedState c \<noteq> RuntimeObservedUnknown \<and> ro_ObservedState c \<noteq> RuntimeObservedLost)
        (Errorf ''concrete runtime observation requires external identity''),
      (if ro_ExternalIdentity c \<noteq> [] then validateIdentity (ro_ExternalIdentity c) else None),
      fail_if (ObservationDigest (rb_BindingID b) (rb_Generation b) (rb_FencingToken b) (ro_ExternalIdentity c)
                 (ro_ObservedState c) (ro_Health c) (ro_Failure c) \<noteq> Inr (ro_ObservationDigest c))
        (Errorf ''runtime observation digest is invalid''),
      validateObservationFailure (ro_ObservedState c) (ro_Failure c)]"

definition observed_binding :: "RuntimeBinding \<Rightarrow> RuntimeObserveCommand \<Rightarrow> RuntimeBinding" where
  "observed_binding b c =
     (\<lambda>n. if ro_ObservedState c = RuntimeObservedLost
          then clearLease (n\<lparr>rb_State := RuntimeBindingLost, rb_Health := RuntimeHealthLost, rb_FinishedAt := Some (bf_At (ro_Fence c))\<rparr>)
          else n)
     ((\<lambda>n. if rb_State b = RuntimeBindingPreparing \<and> ro_ObservedState c = RuntimeObservedRunning
          then n\<lparr>rb_State := RuntimeBindingActive, rb_ActivatedAt := Some (bf_At (ro_Fence c))\<rparr> else n)
     (b\<lparr>rb_ExternalIdentity := ro_ExternalIdentity c, rb_ObservedState := ro_ObservedState c, rb_Health := ro_Health c,
        rb_ObservationDigest := ro_ObservationDigest c, rb_ObservationAt := Some (bf_At (ro_Fence c)),
        rb_PrimaryFailure := ro_Failure c, rb_UpdatedAt := bf_At (ro_Fence c), rb_Revision := rb_Revision b + 1\<rparr>))"

definition runtime_Observe :: "RuntimeBinding \<Rightarrow> RuntimeObserveCommand \<Rightarrow> RuntimeDecision result" where
  "runtime_Observe b c =
     ensure (validateObservation b c) (
     ensure (ValidateBinding (observed_binding b c)) (
     runtime_decision (observed_binding b c) (''runtime.observed.'' @ RuntimeObservedState_string (ro_ObservedState c))
       (ro_CommandID c) (bf_At (ro_Fence c))
       [(''generation'', JU64 (rb_Generation b)), (''fencingToken'', JU64 (rb_FencingToken b)),
        (''observationDigest'', JStr (ro_ObservationDigest c))] []))"

definition runtime_Heartbeat :: "RuntimeBinding \<Rightarrow> HeartbeatCommand \<Rightarrow> RuntimeDecision result" where
  "runtime_Heartbeat b c =
     ensure (first_error
       [ValidateBinding b, runtime_validateFence b (rh_Fence c),
        fail_if (\<not> After (rh_LeaseExpiresAt c) (rb_LeaseExpiresAt b)) (ErrLeaseConflict RuntimePkg),
        validateIdentity (rh_CommandID c)]) (
     andThen (time_json (rh_LeaseExpiresAt c)) (\<lambda>expires.
     runtime_decision (b\<lparr>rb_LeaseExpiresAt := rh_LeaseExpiresAt c, rb_UpdatedAt := bf_At (rh_Fence c), rb_Revision := rb_Revision b + 1\<rparr>)
       ''runtime.heartbeat'' (rh_CommandID c) (bf_At (rh_Fence c))
       [(''generation'', JU64 (rb_Generation b)), (''fencingToken'', JU64 (rb_FencingToken b)), (''leaseExpiresAt'', expires)] []))"

definition binding_payload :: "RuntimeBinding \<Rightarrow> payload" where
  "binding_payload b = [(''bindingId'', JStr (rb_BindingID b)), (''generation'', JU64 (rb_Generation b)),
     (''fencingToken'', JU64 (rb_FencingToken b)), (''externalIdentity'', JStr (rb_ExternalIdentity b))]"

definition validateTakeover :: "RuntimeBinding \<Rightarrow> TakeoverCommand \<Rightarrow> error option" where
  "validateTakeover b c = first_error
     [ValidateBinding b,
      fail_if (tk_BindingID c \<noteq> rb_BindingID b \<or> tk_ExpectedRevision c \<noteq> rb_Revision b) (ErrRevisionConflict RuntimePkg),
      fail_if (RuntimeBindingState_Terminal (rb_State b) \<or> IsZero (tk_At c) \<or> Before (tk_At c) (rb_LeaseExpiresAt b) \<or>
               tk_Generation c \<noteq> rb_Generation b + 1 \<or> tk_FencingToken c \<le> rb_FencingToken b \<or>
               \<not> After (tk_LeaseExpiresAt c) (tk_At c))
        ErrFenceConflict,
      validateIdentity (tk_LeaseOwner c), validateIdentity (tk_CommandID c)]"

definition taken_over :: "RuntimeBinding \<Rightarrow> TakeoverCommand \<Rightarrow> string \<Rightarrow> RuntimeBinding" where
  "taken_over b c leaseHash = b\<lparr>rb_Generation := tk_Generation c, rb_FencingToken := tk_FencingToken c, rb_LeaseOwner := tk_LeaseOwner c,
     rb_LeaseTokenHash := leaseHash, rb_LeaseExpiresAt := tk_LeaseExpiresAt c, rb_ObservedState := RuntimeObservedUnknown,
     rb_Health := RuntimeHealthUnknown, rb_ObservationDigest := [], rb_ObservationAt := None, rb_PrimaryFailure := None,
     rb_State := (if rb_State b = RuntimeBindingActive then RuntimeBindingPreparing else rb_State b),
     rb_UpdatedAt := tk_At c, rb_Revision := rb_Revision b + 1\<rparr>"

definition Takeover :: "RuntimeBinding \<Rightarrow> TakeoverCommand \<Rightarrow> RuntimeDecision result" where
  "Takeover b c =
     ensure (validateTakeover b c) (
     andThen (PrivateTokenDigest (tk_LeaseToken c)) (\<lambda>leaseHash.
     andThen (newIntent IntentReconcile (taken_over b c leaseHash) (binding_payload (taken_over b c leaseHash))) (\<lambda>intent.
     runtime_decision (taken_over b c leaseHash) ''runtime.taken-over'' (tk_CommandID c) (tk_At c)
       (binding_payload (taken_over b c leaseHash)) [intent])))"

definition validateRelease :: "RuntimeBinding \<Rightarrow> ReleaseCommand \<Rightarrow> error option" where
  "validateRelease b c = first_error
     [ValidateBinding b, runtime_validateFence b (rl_Fence c), validateIdentity (rl_CommandID c)]"

definition releasing_binding :: "RuntimeBinding \<Rightarrow> ReleaseCommand \<Rightarrow> RuntimeBinding" where
  "releasing_binding b c =
     (\<lambda>n. if rb_Ownership b = EffectOwned then n\<lparr>rb_State := RuntimeBindingStopping\<rparr>
          else clearLease (n\<lparr>rb_State := RuntimeBindingReleased, rb_FinishedAt := Some (bf_At (rl_Fence c))\<rparr>))
     (b\<lparr>rb_UpdatedAt := bf_At (rl_Fence c), rb_Revision := rb_Revision b + 1, rb_ReleaseStartedAt := Some (bf_At (rl_Fence c))\<rparr>)"

definition release_intents :: "RuntimeBinding \<Rightarrow> DurableIntent list result" where
  "release_intents next =
     (if rb_Ownership next = EffectOwned then andThen (newIntent IntentCleanup next (binding_payload next)) (\<lambda>i. Inr [i]) else Inr [])"

definition BeginRelease :: "RuntimeBinding \<Rightarrow> ReleaseCommand \<Rightarrow> RuntimeDecision result" where
  "BeginRelease b c =
     ensure (validateRelease b c) (
     ensure (fail_if (rb_State b \<noteq> RuntimeBindingActive \<and> rb_State b \<noteq> RuntimeBindingPreparing) (ErrInvalidTransition RuntimePkg)) (
     andThen (release_intents (releasing_binding b c)) (\<lambda>intents.
     ensure (ValidateBinding (releasing_binding b c)) (
     runtime_decision (releasing_binding b c) (''runtime.'' @ RuntimeBindingState_string (rb_State (releasing_binding b c)))
       (rl_CommandID c) (bf_At (rl_Fence c))
       [(''generation'', JU64 (rb_Generation b)), (''fencingToken'', JU64 (rb_FencingToken b)),
        (''ownership'', JStr (EffectOwnership_string (rb_Ownership b)))] intents))))"

definition released_binding :: "RuntimeBinding \<Rightarrow> ReleaseCommand \<Rightarrow> RuntimeBinding" where
  "released_binding b c = clearLease (b\<lparr>rb_State := RuntimeBindingReleased, rb_UpdatedAt := bf_At (rl_Fence c),
     rb_Revision := rb_Revision b + 1, rb_FinishedAt := Some (bf_At (rl_Fence c))\<rparr>)"

definition FinishRelease :: "RuntimeBinding \<Rightarrow> ReleaseCommand \<Rightarrow> RuntimeDecision result" where
  "FinishRelease b c =
     ensure (validateRelease b c) (
     ensure (fail_if (rb_State b \<noteq> RuntimeBindingStopping \<or> rb_Ownership b \<noteq> EffectOwned \<or> rb_ObservedState b \<noteq> RuntimeObservedStopped)
               (ErrInvalidTransition RuntimePkg)) (
     ensure (ValidateBinding (released_binding b c)) (
     runtime_decision (released_binding b c) ''runtime.released'' (rl_CommandID c) (bf_At (rl_Fence c))
       [(''generation'', JU64 (rb_Generation b)), (''fencingToken'', JU64 (rb_FencingToken b)),
        (''observationDigest'', JStr (rb_ObservationDigest b))] [])))"

section \<open>The reducer\<close>

datatype RuntimeCommand =
    ObserveBinding RuntimeObserveCommand
  | HeartbeatBinding HeartbeatCommand
  | TakeoverBinding TakeoverCommand
  | BeginReleaseBinding ReleaseCommand
  | FinishReleaseBinding ReleaseCommand

definition decide_runtime :: "RuntimeBinding \<Rightarrow> RuntimeCommand \<Rightarrow> RuntimeDecision result" where
  "decide_runtime b cmd = (case cmd of
     ObserveBinding c \<Rightarrow> runtime_Observe b c | HeartbeatBinding c \<Rightarrow> runtime_Heartbeat b c | TakeoverBinding c \<Rightarrow> Takeover b c
   | BeginReleaseBinding c \<Rightarrow> BeginRelease b c | FinishReleaseBinding c \<Rightarrow> FinishRelease b c)"

definition runtime_reduce :: "RuntimeBinding \<Rightarrow> RuntimeCommand \<Rightarrow> RuntimeBinding result" where
  "runtime_reduce b cmd = andThen (decide_runtime b cmd) (\<lambda>d. Inr (rtd_Binding d))"

text \<open>The fence of a command by the current owner; a takeover carries none.\<close>

fun binding_fence :: "RuntimeCommand \<Rightarrow> BindingFence option" where
  "binding_fence (ObserveBinding c) = Some (ro_Fence c)"
| "binding_fence (HeartbeatBinding c) = Some (rh_Fence c)"
| "binding_fence (TakeoverBinding c) = None"
| "binding_fence (BeginReleaseBinding c) = Some (rl_Fence c)"
| "binding_fence (FinishReleaseBinding c) = Some (rl_Fence c)"

definition runtime_expects :: "RuntimeCommand \<Rightarrow> u64" where
  "runtime_expects cmd = (case cmd of
     ObserveBinding c \<Rightarrow> bf_ExpectedRevision (ro_Fence c) | HeartbeatBinding c \<Rightarrow> bf_ExpectedRevision (rh_Fence c)
   | TakeoverBinding c \<Rightarrow> tk_ExpectedRevision c | BeginReleaseBinding c \<Rightarrow> bf_ExpectedRevision (rl_Fence c)
   | FinishReleaseBinding c \<Rightarrow> bf_ExpectedRevision (rl_Fence c))"

end
