(* ===== verification/Runtime_Props.thy ===== *)
theory Runtime_Props
  imports Runtime_Reducer
begin

text \<open>
  What the operations on a runtime binding preserve. The invariant adds two facts to
  ValidateBinding that the code relies on but does not check: the generation never exceeds the
  revision (so a takeover cannot wrap it to zero), and what a binding says it has observed is
  covered by an observation digest of its current generation and fencing token.
\<close>

section \<open>The invariant\<close>

definition evidence_bound :: "RuntimeBinding \<Rightarrow> bool" where
  "evidence_bound b \<longleftrightarrow>
     (if rb_ObservationDigest b = [] then rb_ObservedState b = RuntimeObservedUnknown
      else (\<exists>h. ObservationDigest (rb_BindingID b) (rb_Generation b) (rb_FencingToken b) (rb_ExternalIdentity b)
                  (rb_ObservedState b) h (rb_PrimaryFailure b) = Inr (rb_ObservationDigest b)))"

definition runtime_inv :: "RuntimeBinding \<Rightarrow> bool" where
  "runtime_inv b \<longleftrightarrow> ValidateBinding b = None \<and> unat (rb_Generation b) \<le> unat (rb_Revision b) \<and> evidence_bound b"

text \<open>What preparation froze.\<close>

definition binding_identity ::
  "RuntimeBinding \<Rightarrow> string list \<times> EffectOwnership \<times> RuntimeCleanupPolicy \<times> instant" where
  "binding_identity b =
     ([rb_BindingID b, rb_NamespaceID b, rb_RunID b, rb_InvocationID b, rb_NodeID b, rb_RuntimeKey b, rb_Kind b,
       rb_SpecDigest b, rb_ProviderRef b, rb_ProviderDigest b], rb_Ownership b, rb_CleanupPolicy b, rb_CreatedAt b)"

section \<open>Each operation\<close>

lemma optional_check [simp]:
  "(if p then x else y) = None \<longleftrightarrow> (p \<longrightarrow> x = None) \<and> (\<not> p \<longrightarrow> y = None)" for x y :: "error option"
  by simp

definition runtime_ok :: "RuntimeBinding \<Rightarrow> u64 \<Rightarrow> RuntimeBinding \<Rightarrow> bool" where
  "runtime_ok b expected t \<longleftrightarrow> ValidateBinding b = None \<and> \<not> RuntimeBindingState_Terminal (rb_State b) \<and>
     expected = rb_Revision b \<and> rb_Revision t = rb_Revision b + 1 \<and> binding_identity t = binding_identity b \<and>
     (runtime_inv b \<and> rb_Revision b + 1 \<noteq> 0 \<longrightarrow> runtime_inv t)"

lemma runtime_decision_Inr:
  assumes "runtime_decision n ty c at p intents = Inr d"
  shows "rtd_Binding d = n" and "rtd_Intents d = intents"
  using assms by (auto simp: runtime_decision_def)

lemma PrivateTokenDigest_nonempty: "PrivateTokenDigest s \<noteq> Inr []"
  using PrivateTokenDigest_ValidDigest [of s "[]"] by (auto simp: ValidDigest_def digestPattern_def)

lemma binding_fence_live:
  assumes "ValidateBinding b = None" and "runtime_validateFence b f = None"
  shows "\<not> RuntimeBindingState_Terminal (rb_State b)"
proof
  assume "RuntimeBindingState_Terminal (rb_State b)"
  then have "rb_LeaseTokenHash b = []" using assms(1) by (simp add: ValidateBinding_def validate_lease_def)
  then show False using assms(2) PrivateTokenDigest_nonempty by (simp add: runtime_validateFence_def)
qed

lemma generation_step:
  assumes "unat (g :: u64) \<le> unat (r :: u64)" and "r + 1 \<noteq> 0"
  shows "unat g \<le> unat (r + 1)" and "g + 1 \<noteq> 0" and "unat (g + 1) \<le> unat (r + 1)"
proof -
  have r: "unat (r + 1) = Suc (unat r)" by (rule unat_succ_nonzero [OF assms(2)])
  show "unat g \<le> unat (r + 1)" using r assms(1) by simp
  have "Suc (unat g) < 2 ^ LENGTH(64)" using r assms(1) unsigned_less [of "r + 1", where ?'a = nat] by simp
  note g = unat_succ_bound [OF this]
  show "g + 1 \<noteq> 0" by (rule g(2))
  show "unat (g + 1) \<le> unat (r + 1)" using g(1) r assms(1) by simp
qed

lemma observed_binding_fields [simp]:
  "rb_Revision (observed_binding b c) = rb_Revision b + 1" "rb_Generation (observed_binding b c) = rb_Generation b"
  "rb_FencingToken (observed_binding b c) = rb_FencingToken b" "rb_BindingID (observed_binding b c) = rb_BindingID b"
  "binding_identity (observed_binding b c) = binding_identity b" "rb_ObservationDigest (observed_binding b c) = ro_ObservationDigest c"
  "rb_ExternalIdentity (observed_binding b c) = ro_ExternalIdentity c" "rb_ObservedState (observed_binding b c) = ro_ObservedState c"
  "rb_PrimaryFailure (observed_binding b c) = ro_Failure c"
  by (simp_all add: observed_binding_def binding_identity_def clearLease_def)

lemma ValidDigest_nonempty: "ValidDigest d \<Longrightarrow> d \<noteq> []"
  by (auto simp: ValidDigest_def digestPattern_def)

lemma runtime_observe_facts:
  assumes "runtime_Observe b c = Inr d"
  shows "runtime_ok b (bf_ExpectedRevision (ro_Fence c)) (rtd_Binding d)" and "rtd_Binding d = observed_binding b c"
    and "runtime_validateFence b (ro_Fence c) = None" and "rtd_Intents d = []"
proof -
  have v: "validateObservation b c = None" and n: "ValidateBinding (observed_binding b c) = None"
    using assms by (simp_all add: runtime_Observe_def)
  show d: "rtd_Binding d = observed_binding b c" and "rtd_Intents d = []"
    using assms by (auto simp: runtime_Observe_def dest: runtime_decision_Inr)
  have g: "ValidateBinding b = None" "runtime_validateFence b (ro_Fence c) = None" "ValidDigest (ro_ObservationDigest c)"
    "ObservationDigest (rb_BindingID b) (rb_Generation b) (rb_FencingToken b) (ro_ExternalIdentity c)
                 (ro_ObservedState c) (ro_Health c) (ro_Failure c) = Inr (ro_ObservationDigest c)"
    using v by (simp_all add: validateObservation_def)
  show "runtime_validateFence b (ro_Fence c) = None" by (rule g(2))
  then have "bf_ExpectedRevision (ro_Fence c) = rb_Revision b" by (simp add: runtime_validateFence_def)
  moreover have "evidence_bound (observed_binding b c)" using g(4) ValidDigest_nonempty [OF g(3)] by (auto simp: evidence_bound_def)
  ultimately show "runtime_ok b (bf_ExpectedRevision (ro_Fence c)) (rtd_Binding d)"
    using g n binding_fence_live generation_step(1) by (auto simp: d runtime_ok_def runtime_inv_def)
qed

lemma runtime_heartbeat_facts:
  assumes "runtime_Heartbeat b c = Inr d"
  shows "runtime_ok b (bf_ExpectedRevision (rh_Fence c)) (rtd_Binding d)"
    and "rtd_Binding d = b\<lparr>rb_LeaseExpiresAt := rh_LeaseExpiresAt c, rb_UpdatedAt := bf_At (rh_Fence c), rb_Revision := rb_Revision b + 1\<rparr>"
    and "runtime_validateFence b (rh_Fence c) = None" and "rtd_Intents d = []" and "rb_LeaseExpiresAt b < rh_LeaseExpiresAt c"
proof -
  let ?t = "b\<lparr>rb_LeaseExpiresAt := rh_LeaseExpiresAt c, rb_UpdatedAt := bf_At (rh_Fence c), rb_Revision := rb_Revision b + 1\<rparr>"
  have g: "ValidateBinding b = None" "runtime_validateFence b (rh_Fence c) = None" "rb_LeaseExpiresAt b < rh_LeaseExpiresAt c"
    using assms by (simp_all add: runtime_Heartbeat_def)
  show d: "rtd_Binding d = ?t" and "rtd_Intents d = []"
    using assms by (auto simp: runtime_Heartbeat_def dest: runtime_decision_Inr)
  show "runtime_validateFence b (rh_Fence c) = None" and "rb_LeaseExpiresAt b < rh_LeaseExpiresAt c" by (rule g)+
  have f: "bf_ExpectedRevision (rh_Fence c) = rb_Revision b" "rb_UpdatedAt b \<le> bf_At (rh_Fence c)" "bf_At (rh_Fence c) < rb_LeaseExpiresAt b"
    using g(2) by (simp_all add: runtime_validateFence_def not_less)
  note live = binding_fence_live [OF g(1,2)]
  have l: "validate_lease ?t = None" using g(1,3) f live by (simp add: ValidateBinding_def validate_lease_def)
  have o: "validate_observation ?t = None"
    using g(1) f(2) by (auto simp: ValidateBinding_def validate_observation_def split: option.splits if_splits)
  have s: "validate_binding_state ?t = None" using g(1) by (simp add: ValidateBinding_def validate_binding_state_def)
  have "ValidateBinding ?t = None" if "rb_Revision b + 1 \<noteq> 0"
    using g(1) that l o s f(2) by (auto simp: ValidateBinding_def not_less split: if_splits)
  then show "runtime_ok b (bf_ExpectedRevision (rh_Fence c)) (rtd_Binding d)"
    using g(1) f(1) live generation_step(1) by (auto simp: d runtime_ok_def runtime_inv_def evidence_bound_def binding_identity_def)
qed

lemma taken_over_valid:
  assumes "validateTakeover b c = None" and "PrivateTokenDigest (tk_LeaseToken c) = Inr h"
    and "tk_Generation c \<noteq> 0" and "rb_Revision b + 1 \<noteq> 0"
  shows "ValidateBinding (taken_over b c h) = None"
proof -
  let ?t = "taken_over b c h"
  have g: "ValidateBinding b = None" "\<not> RuntimeBindingState_Terminal (rb_State b)" "rb_LeaseExpiresAt b \<le> tk_At c"
    "rb_FencingToken b < tk_FencingToken c" "tk_At c < tk_LeaseExpiresAt c" "ValidIdentifier (tk_LeaseOwner c)"
    using assms(1) by (simp_all add: validateTakeover_def not_less not_le)
  have live: "rb_FinishedAt b = None" "rb_UpdatedAt b < rb_LeaseExpiresAt b"
    using g(1,2) by (simp_all add: ValidateBinding_def validate_lease_def)
  have st: "\<not> RuntimeBindingState_Terminal (rb_State ?t)" "rb_State ?t \<noteq> RuntimeBindingActive" "RuntimeBindingState_Valid (rb_State ?t)"
    using g(1,2) by (auto simp: taken_over_def RuntimeBindingState_Terminal_def ValidateBinding_def RuntimeBindingState_Valid_def)
  have l: "validate_lease ?t = None"
    using st(1) g(5,6) live(1) PrivateTokenDigest_ValidDigest [OF assms(2)] by (simp add: validate_lease_def) (simp add: taken_over_def)
  have s: "validate_binding_state ?t = None"
    using st g(1) by (auto simp: ValidateBinding_def validate_binding_state_def RuntimeBindingState_Terminal_def)
      (auto simp: taken_over_def split: if_splits)
  have o: "validate_observation ?t = None"
    using g(1) by (simp add: ValidateBinding_def validate_observation_def) (simp add: taken_over_def)
  have "tk_FencingToken c \<noteq> 0" using g(4) by auto
  then show ?thesis
    using g(1,3) live(2) assms(3,4) l s o st(3)
    by (simp add: ValidateBinding_def) (simp add: taken_over_def RuntimeObservedState_Valid_def RuntimeHealth_Valid_def)
qed

lemma takeover_facts:
  assumes "Takeover b c = Inr d"
  obtains h where "runtime_ok b (tk_ExpectedRevision c) (rtd_Binding d)" and "rtd_Binding d = taken_over b c h"
    and "PrivateTokenDigest (tk_LeaseToken c) = Inr h" and "validateTakeover b c = None"
    and "map di_Kind (rtd_Intents d) = [IntentReconcile]"
proof -
  obtain h i where v: "validateTakeover b c = None" and h: "PrivateTokenDigest (tk_LeaseToken c) = Inr h"
    and i: "newIntent IntentReconcile (taken_over b c h) (binding_payload (taken_over b c h)) = Inr i"
    and d: "rtd_Binding d = taken_over b c h" "rtd_Intents d = [i]"
    using assms by (auto simp: Takeover_def dest: runtime_decision_Inr)
  have g: "ValidateBinding b = None" "\<not> RuntimeBindingState_Terminal (rb_State b)" "tk_ExpectedRevision c = rb_Revision b"
    "tk_Generation c = rb_Generation b + 1"
    using v by (simp_all add: validateTakeover_def)
  have "runtime_inv (taken_over b c h)" if "runtime_inv b" "rb_Revision b + 1 \<noteq> 0"
  proof -
    have u: "unat (rb_Generation b) \<le> unat (rb_Revision b)" using that(1) by (simp add: runtime_inv_def)
    note s = generation_step(2,3) [OF u that(2)]
    have "ValidateBinding (taken_over b c h) = None" by (rule taken_over_valid [OF v h]) (use s(1) g(4) that(2) in simp_all)
    then show ?thesis using s(2) g(4) by (simp add: runtime_inv_def) (simp add: taken_over_def evidence_bound_def)
  qed
  moreover have "rb_Revision (taken_over b c h) = rb_Revision b + 1" "binding_identity (taken_over b c h) = binding_identity b"
    by (simp_all add: taken_over_def binding_identity_def)
  ultimately have ok: "runtime_ok b (tk_ExpectedRevision c) (rtd_Binding d)"
    using g(1-3) unfolding d runtime_ok_def by blast
  have "map di_Kind (rtd_Intents d) = [IntentReconcile]" using i by (auto simp: d newIntent_def)
  then show thesis by (rule that [OF ok d(1) h v])
qed

lemma begin_release_facts:
  assumes "BeginRelease b c = Inr d"
  shows "runtime_ok b (bf_ExpectedRevision (rl_Fence c)) (rtd_Binding d)" and "rtd_Binding d = releasing_binding b c"
    and "runtime_validateFence b (rl_Fence c) = None" and "rb_State b = RuntimeBindingActive \<or> rb_State b = RuntimeBindingPreparing"
    and "map di_Kind (rtd_Intents d) = (if rb_Ownership b = EffectOwned then [IntentCleanup] else [])"
proof -
  have v: "validateRelease b c = None" and n: "ValidateBinding (releasing_binding b c) = None"
    and st: "rb_State b = RuntimeBindingActive \<or> rb_State b = RuntimeBindingPreparing"
    using assms by (auto simp: BeginRelease_def)
  obtain ints where ints: "release_intents (releasing_binding b c) = Inr ints" and d: "rtd_Binding d = releasing_binding b c" "rtd_Intents d = ints"
    using assms by (auto simp: BeginRelease_def dest: runtime_decision_Inr)
  have own: "rb_Ownership (releasing_binding b c) = rb_Ownership b" by (simp add: releasing_binding_def clearLease_def)
  show "rtd_Binding d = releasing_binding b c" by (rule d(1))
  show "rb_State b = RuntimeBindingActive \<or> rb_State b = RuntimeBindingPreparing" by (rule st)
  show "map di_Kind (rtd_Intents d) = (if rb_Ownership b = EffectOwned then [IntentCleanup] else [])"
    using ints by (auto simp: d release_intents_def newIntent_def own split: if_splits)
  have g: "ValidateBinding b = None" "runtime_validateFence b (rl_Fence c) = None" using v by (simp_all add: validateRelease_def)
  then show "runtime_validateFence b (rl_Fence c) = None" by simp
  then have "bf_ExpectedRevision (rl_Fence c) = rb_Revision b" by (simp add: runtime_validateFence_def)
  moreover have "evidence_bound (releasing_binding b c) = evidence_bound b" by (simp add: evidence_bound_def releasing_binding_def clearLease_def)
  moreover have "rb_Revision (releasing_binding b c) = rb_Revision b + 1" "binding_identity (releasing_binding b c) = binding_identity b"
    "rb_Generation (releasing_binding b c) = rb_Generation b"
    by (simp_all add: releasing_binding_def clearLease_def binding_identity_def)
  ultimately show "runtime_ok b (bf_ExpectedRevision (rl_Fence c)) (rtd_Binding d)"
    using g n binding_fence_live generation_step(1) by (auto simp: d runtime_ok_def runtime_inv_def)
qed

lemma finish_release_facts:
  assumes "FinishRelease b c = Inr d"
  shows "runtime_ok b (bf_ExpectedRevision (rl_Fence c)) (rtd_Binding d)" and "rtd_Binding d = released_binding b c"
    and "runtime_validateFence b (rl_Fence c) = None" and "rtd_Intents d = []"
proof -
  have v: "validateRelease b c = None" and n: "ValidateBinding (released_binding b c) = None"
    using assms by (auto simp: FinishRelease_def)
  show d: "rtd_Binding d = released_binding b c" and "rtd_Intents d = []"
    using assms by (auto simp: FinishRelease_def dest: runtime_decision_Inr)
  have g: "ValidateBinding b = None" "runtime_validateFence b (rl_Fence c) = None" using v by (simp_all add: validateRelease_def)
  then show "runtime_validateFence b (rl_Fence c) = None" by simp
  then have "bf_ExpectedRevision (rl_Fence c) = rb_Revision b" by (simp add: runtime_validateFence_def)
  moreover have "evidence_bound (released_binding b c) = evidence_bound b" by (simp add: evidence_bound_def released_binding_def clearLease_def)
  moreover have "rb_Revision (released_binding b c) = rb_Revision b + 1" "binding_identity (released_binding b c) = binding_identity b"
    "rb_Generation (released_binding b c) = rb_Generation b"
    by (simp_all add: released_binding_def clearLease_def binding_identity_def)
  ultimately show "runtime_ok b (bf_ExpectedRevision (rl_Fence c)) (rtd_Binding d)"
    using g n binding_fence_live generation_step(1) by (auto simp: d runtime_ok_def runtime_inv_def)
qed

section \<open>The reducer\<close>

lemma runtime_reduce_decide: "runtime_reduce b cmd = Inr t \<longleftrightarrow> (\<exists>d. decide_runtime b cmd = Inr d \<and> t = rtd_Binding d)"
  by (auto simp: runtime_reduce_def)

lemma runtime_step_ok:
  assumes "runtime_reduce b cmd = Inr t"
  shows "runtime_ok b (runtime_expects cmd) t"
proof -
  obtain d where d: "decide_runtime b cmd = Inr d" "t = rtd_Binding d" using assms runtime_reduce_decide by blast
  show ?thesis
  proof (cases cmd)
    case (TakeoverBinding c)
    then have "Takeover b c = Inr d" using d(1) by (simp add: decide_runtime_def)
    then show ?thesis by (rule takeover_facts) (simp add: d(2) TakeoverBinding runtime_expects_def)
  qed (use d runtime_observe_facts(1) runtime_heartbeat_facts(1) begin_release_facts(1) finish_release_facts(1) in
      \<open>auto simp: decide_runtime_def runtime_expects_def\<close>)
qed

interpretation rt: cas_reducer runtime_inv rb_Revision runtime_expects runtime_reduce
proof
  fix b cmd t
  assume r: "runtime_reduce b cmd = Inr t"
  note ok = runtime_step_ok [OF r, unfolded runtime_ok_def]
  show "runtime_expects cmd = rb_Revision b" and "rb_Revision t = rb_Revision b + 1" using ok by simp_all
  show "runtime_inv b \<Longrightarrow> rb_Revision b + 1 \<noteq> 0 \<Longrightarrow> runtime_inv t" using ok by simp
qed

lemma runtime_prepare_facts:
  assumes "runtime_Prepare c = Inr d"
  obtains h where "rtd_Binding d = prepared_binding c h" and "PrivateTokenDigest (pb_LeaseToken c) = Inr h"
    and "runtime_inv (rtd_Binding d)" and "rb_Revision (rtd_Binding d) = 1" and "rb_Generation (rtd_Binding d) = 1"
    and "rb_FencingToken (rtd_Binding d) = pb_FencingToken c" and "rb_ActivatedAt (rtd_Binding d) = None"
proof -
  obtain h where h: "PrivateTokenDigest (pb_LeaseToken c) = Inr h" and v: "validatePrepare c = None"
    and n: "ValidateBinding (prepared_binding c h) = None" and d: "rtd_Binding d = prepared_binding c h"
    using assms by (auto simp: runtime_Prepare_def dest: runtime_decision_Inr)
  have one: "pb_Generation c = 1" using v by (simp add: validatePrepare_def)
  have "runtime_inv (rtd_Binding d)" using n one unfolding d by (simp add: runtime_inv_def) (simp add: prepared_binding_def evidence_bound_def)
  then show thesis using that h d one by (simp add: prepared_binding_def)
qed

lemma fold_binding_identity:
  "fold_reduce runtime_reduce b cs = Inr t \<Longrightarrow> binding_identity t = binding_identity b"
proof (induction cs arbitrary: b)
  case (Cons c cs)
  then show ?case using runtime_step_ok by (fastforce simp: runtime_ok_def)
qed simp

section \<open>Generations\<close>

fun takeover_token :: "RuntimeCommand \<Rightarrow> u64 option" where
  "takeover_token (TakeoverBinding c) = Some (tk_FencingToken c)"
| "takeover_token _ = None"

lemma generation_of_step:
  assumes "runtime_reduce b cmd = Inr t"
  shows "case takeover_token cmd of
     None \<Rightarrow> rb_Generation t = rb_Generation b \<and> rb_FencingToken t = rb_FencingToken b \<and> (\<exists>f. binding_fence cmd = Some f)
   | Some k \<Rightarrow> rb_Generation t = rb_Generation b + 1 \<and> rb_FencingToken t = k \<and> rb_FencingToken b < k"
proof -
  obtain d where d: "decide_runtime b cmd = Inr d" "t = rtd_Binding d" using assms runtime_reduce_decide by blast
  show ?thesis
  proof (cases cmd)
    case (ObserveBinding c)
    then show ?thesis using d runtime_observe_facts(2) [of b c d] by (simp add: decide_runtime_def)
  next
    case (HeartbeatBinding c)
    then show ?thesis using d runtime_heartbeat_facts(2) [of b c d] by (simp add: decide_runtime_def)
  next
    case (TakeoverBinding c)
    then have "Takeover b c = Inr d" using d(1) by (simp add: decide_runtime_def)
    then show ?thesis
      by (rule takeover_facts) (auto simp: d(2) TakeoverBinding validateTakeover_def taken_over_def)
  next
    case (BeginReleaseBinding c)
    then show ?thesis using d begin_release_facts(2) [of b c d] by (simp add: decide_runtime_def releasing_binding_def clearLease_def)
  next
    case (FinishReleaseBinding c)
    then show ?thesis using d finish_release_facts(2) [of b c d] by (simp add: decide_runtime_def released_binding_def clearLease_def)
  qed
qed

lemma step_fence:
  assumes "runtime_reduce b cmd = Inr t" and "binding_fence cmd = Some f"
  shows "runtime_validateFence b f = None"
proof -
  obtain d where d: "decide_runtime b cmd = Inr d" using assms(1) runtime_reduce_decide by blast
  show ?thesis
    using d assms(2) runtime_observe_facts(3) runtime_heartbeat_facts(3) begin_release_facts(3) finish_release_facts(3)
    by (cases cmd) (auto simp: decide_runtime_def)
qed

lemma fold_generations:
  assumes "fold_reduce runtime_reduce b cs = Inr t" and "runtime_inv b" and "unat (rb_Revision b) + length cs < 2 ^ 64"
  shows "unat (rb_Generation t) = unat (rb_Generation b) + length (List.map_filter takeover_token cs) \<and>
    sorted_wrt (<) (rb_FencingToken b # List.map_filter takeover_token cs) \<and>
    rb_FencingToken t = last (rb_FencingToken b # List.map_filter takeover_token cs)"
  using assms
proof (induction cs arbitrary: b)
  case Nil
  then show ?case by (simp add: map_filter_simps)
next
  case (Cons c cs)
  then obtain u where u: "runtime_reduce b c = Inr u" and rest: "fold_reduce runtime_reduce u cs = Inr t" by auto
  have nz: "rb_Revision b + 1 \<noteq> 0" using unat_succ_bound(2) [of "rb_Revision b"] Cons.prems(3) by simp
  have iu: "runtime_inv u" by (rule rt.keeps [OF u Cons.prems(2) nz])
  have "unat (rb_Revision u) = Suc (unat (rb_Revision b))" by (rule rt.advances [OF u nz])
  then have IH: "unat (rb_Generation t) = unat (rb_Generation u) + length (List.map_filter takeover_token cs)"
    "sorted_wrt (<) (rb_FencingToken u # List.map_filter takeover_token cs)"
    "rb_FencingToken t = last (rb_FencingToken u # List.map_filter takeover_token cs)"
    using Cons.IH [OF rest iu] Cons.prems(3) by simp_all
  note s = generation_of_step [OF u]
  show ?case
  proof (cases "takeover_token c")
    case None
    then show ?thesis using s IH by (simp add: map_filter_simps)
  next
    case (Some k)
    have "rb_Generation b + 1 \<noteq> 0" using generation_step(2) nz Cons.prems(2) by (auto simp: runtime_inv_def)
    then show ?thesis using s IH Some unat_succ_nonzero [of "rb_Generation b"] by (auto simp: map_filter_simps)
  qed
qed

end
