(* ===== verification/Runtime_Claims.thy ===== *)
theory Runtime_Claims
  imports Runtime_Props
begin

text \<open>
  The properties of runtime bindings (claims C21, C23, C24 and C27), with a concrete binding that is
  activated, taken over and released.
\<close>

section \<open>Properties\<close>

lemma reachable_binding:
  assumes "runtime_Prepare c = Inr d" and "fold_reduce runtime_reduce (rtd_Binding d) cs = Inr t" and "length cs + 1 < 2 ^ 64"
  shows "runtime_inv t" and "unat (rb_Revision t) = length cs + 1"
proof -
  have p: "runtime_inv (rtd_Binding d)" "rb_Revision (rtd_Binding d) = 1"
    using assms(1) by (auto elim: runtime_prepare_facts)
  show "runtime_inv t" and "unat (rb_Revision t) = length cs + 1"
    using rt.fold_keeps [OF assms(2) p(1)] rt.fold_revision [OF assms(2)] p(2) assms(3) by simp_all
qed

text \<open>
  C21: from its preparation on, whatever commands are accepted, a runtime binding is valid, its
  revision counts the accepted commands, and what preparation froze (identity, specification,
  provider, ownership, cleanup policy) never changes.
\<close>

theorem runtime_invariant:
  assumes "runtime_Prepare c = Inr d" and "fold_reduce runtime_reduce (rtd_Binding d) cs = Inr t" and "length cs + 1 < 2 ^ 64"
  shows "ValidateBinding t = None \<and> unat (rb_Revision t) = length cs + 1 \<and> binding_identity t = binding_identity (rtd_Binding d)"
  using reachable_binding [OF assms] fold_binding_identity [OF assms(2)] by (simp add: runtime_inv_def)

text \<open>
  Generations count takeovers. The generation of a binding is one more than the number of
  takeovers it has had, the fencing tokens of the preparation and of the takeovers form a
  strictly increasing sequence, and the binding carries the last of them.
\<close>

theorem generation_counts_takeovers:
  assumes "runtime_Prepare c = Inr d" and "fold_reduce runtime_reduce (rtd_Binding d) cs = Inr t" and "length cs + 1 < 2 ^ 64"
  shows "unat (rb_Generation t) = length (List.map_filter takeover_token cs) + 1 \<and>
    sorted_wrt (<) (pb_FencingToken c # List.map_filter takeover_token cs) \<and>
    rb_FencingToken t = last (pb_FencingToken c # List.map_filter takeover_token cs)"
proof -
  have p: "runtime_inv (rtd_Binding d)" "rb_Revision (rtd_Binding d) = 1" "rb_Generation (rtd_Binding d) = 1"
    "rb_FencingToken (rtd_Binding d) = pb_FencingToken c"
    using assms(1) by (auto elim: runtime_prepare_facts)
  show ?thesis using fold_generations [OF assms(2) p(1)] p(2-4) assms(3) by simp
qed

text \<open>
  C23: a takeover locks the previous owner out for good. After an accepted takeover, and
  whatever has been accepted since, no command is accepted that carries the generation or the
  fencing token (or an older one) of the binding before the takeover.
\<close>

theorem stale_owner_locked_out:
  assumes "runtime_Prepare c = Inr d" and "fold_reduce runtime_reduce (rtd_Binding d) cs = Inr s"
    and "fold_reduce runtime_reduce s (TakeoverBinding k # ds) = Inr t" and "length cs + length ds + 2 < 2 ^ 64"
    and "binding_fence cmd = Some f" and "unat (bf_Generation f) \<le> unat (rb_Generation s) \<or> bf_FencingToken f \<le> rb_FencingToken s"
  shows "runtime_reduce t cmd \<noteq> Inr u"
proof
  assume u: "runtime_reduce t cmd = Inr u"
  have s: "runtime_inv s" "unat (rb_Revision s) = length cs + 1"
    using reachable_binding [OF assms(1,2)] assms(4) by simp_all
  note g = fold_generations [OF assms(3) s(1)]
  let ?ks = "List.map_filter takeover_token (TakeoverBinding k # ds)"
  have ks: "?ks = tk_FencingToken k # List.map_filter takeover_token ds" by (simp add: map_filter_simps)
  have "unat (rb_Generation s) < unat (rb_Generation t)" using g s(2) assms(4) by (simp add: ks)
  moreover have "rb_FencingToken s < rb_FencingToken t"
  proof -
    have "sorted_wrt (<) (rb_FencingToken s # ?ks)" "rb_FencingToken t = last ?ks" using g s(2) assms(4) by (simp_all add: ks)
    moreover have "last ?ks \<in> set ?ks" by (rule last_in_set) (simp add: ks)
    ultimately show ?thesis by simp
  qed
  moreover have "bf_Generation f = rb_Generation t" "bf_FencingToken f = rb_FencingToken t"
    using step_fence [OF u assms(5)] by (simp_all add: runtime_validateFence_def)
  ultimately show False using assms(6) by auto
qed

text \<open>
  C24: what a binding reports is proven in its current generation. An active binding is covered
  by an observation digest for a running object, a released owned binding by one for a stopped
  object, a lost binding by one for a lost object, each computed over the binding's identity
  and its current generation, fencing token and external identity.
\<close>

theorem state_has_current_evidence:
  assumes "runtime_Prepare c = Inr d" and "fold_reduce runtime_reduce (rtd_Binding d) cs = Inr t" and "length cs + 1 < 2 ^ 64"
    and "rb_State t = RuntimeBindingActive \<and> obs = RuntimeObservedRunning \<or>
         rb_State t = RuntimeBindingReleased \<and> rb_Ownership t = EffectOwned \<and> obs = RuntimeObservedStopped \<or>
         rb_State t = RuntimeBindingLost \<and> obs = RuntimeObservedLost"
  shows "\<exists>h. ObservationDigest (rb_BindingID t) (rb_Generation t) (rb_FencingToken t) (rb_ExternalIdentity t) obs h (rb_PrimaryFailure t) =
    Inr (rb_ObservationDigest t)"
proof -
  have "runtime_inv t" by (rule reachable_binding(1) [OF assms(1-3)])
  then have v: "validate_binding_state t = None" and e: "evidence_bound t" by (simp_all add: runtime_inv_def ValidateBinding_def)
  have "rb_ObservedState t = obs" "obs \<noteq> RuntimeObservedUnknown" using v assms(4) by (auto simp: validate_binding_state_def)
  then show ?thesis using e by (auto simp: evidence_bound_def split: if_splits)
qed

text \<open>
  The lease separates owners in time. Where a binding accepts a command of its owner and
  also a takeover, the owner's command is stamped before the end of the lease and the takeover
  is not; and a released or lost binding accepts no command at all.
\<close>

theorem runtime_lease_exclusive:
  "(runtime_reduce b cmd = Inr t \<and> binding_fence cmd = Some f \<longrightarrow> bf_At f < rb_LeaseExpiresAt b) \<and>
   (runtime_reduce b (TakeoverBinding k) = Inr t \<longrightarrow> rb_LeaseExpiresAt b \<le> tk_At k) \<and>
   (RuntimeBindingState_Terminal (rb_State b) \<longrightarrow> runtime_reduce b cmd \<noteq> Inr t)"
proof (intro conjI impI)
  show "bf_At f < rb_LeaseExpiresAt b" if "runtime_reduce b cmd = Inr t \<and> binding_fence cmd = Some f"
    using step_fence [of b cmd t f] that by (simp add: runtime_validateFence_def)
  show "rb_LeaseExpiresAt b \<le> tk_At k" if r: "runtime_reduce b (TakeoverBinding k) = Inr t"
  proof -
    obtain d where "Takeover b k = Inr d" using r by (auto simp: runtime_reduce_decide decide_runtime_def)
    then show ?thesis by (rule takeover_facts) (simp add: validateTakeover_def not_less)
  qed
  show "runtime_reduce b cmd \<noteq> Inr t" if "RuntimeBindingState_Terminal (rb_State b)"
    using runtime_step_ok [of b cmd t] that by (auto simp: runtime_ok_def)
qed

text \<open>
  While a binding is active, the binding state and the observed state are not independent.
  An active binding accepts an observation only when it reports the object running or lost; a
  report that it has stopped or failed is rejected.
\<close>

theorem active_observation_running_or_lost:
  assumes "runtime_reduce b (ObserveBinding c) = Inr t" and "rb_State b = RuntimeBindingActive"
  shows "ro_ObservedState c = RuntimeObservedRunning \<and> rb_State t = RuntimeBindingActive \<or>
    ro_ObservedState c = RuntimeObservedLost \<and> rb_State t = RuntimeBindingLost"
proof -
  have v: "ValidateBinding (observed_binding b c) = None" and t: "t = observed_binding b c"
    using assms(1) runtime_observe_facts(2)
    by (auto simp: runtime_reduce_decide decide_runtime_def) (auto simp: runtime_Observe_def)
  have "rb_State t = (if ro_ObservedState c = RuntimeObservedLost then RuntimeBindingLost else RuntimeBindingActive)"
    using assms(2) by (simp add: t observed_binding_def clearLease_def)
  moreover have "rb_State t = RuntimeBindingActive \<longrightarrow> rb_ObservedState t = RuntimeObservedRunning"
    using v t by (simp add: ValidateBinding_def validate_binding_state_def)
  moreover have "rb_ObservedState t = ro_ObservedState c" by (simp add: t)
  ultimately show ?thesis by presburger
qed

section \<open>Acceptance\<close>

lemma runtime_newEvent_ok:
  assumes "ValidIdentifier (rb_BindingID b)" and "json_plain (JObj p)" and "json_bound (JObj p) \<le> 100000" and "json_height (JObj p) \<le> 128"
  shows "\<exists>e. runtime_newEvent b ty c at p = Inr e"
proof -
  have "ValidIdentifier ''runtime''" by (simp add: text_eval)
  then obtain i where "StableEventID ''runtime'' (rb_BindingID b) (rb_Revision b) = Inr i" using StableEventID_ok assms(1) by fastforce
  then show ?thesis using DigestValue_plain [OF assms(2-4)] by (simp add: runtime_newEvent_def)
qed

lemma runtime_decision_ok:
  assumes "ValidIdentifier (rb_BindingID b)" and "json_plain (JObj p)" and "json_bound (JObj p) \<le> 100000" and "json_height (JObj p) \<le> 128"
  shows "\<exists>d. runtime_decision b ty c at p ints = Inr d \<and> rtd_Binding d = b"
  using runtime_newEvent_ok [OF assms, of ty c at] by (auto simp: runtime_decision_def)

lemma newIntent_ok:
  assumes "k = IntentReconcile \<or> k = IntentCleanup" and "ValidIdentifier (rb_BindingID b)"
    and "json_plain (JObj p)" and "json_bound (JObj p) \<le> 100000" and "json_height (JObj p) \<le> 128"
  shows "\<exists>i. newIntent k b p = Inr i"
proof -
  have "utf8_valid (IntentKind_string k) \<and> length (IntentKind_string k) \<le> 128"
    using assms(1) by (auto simp: IntentKind_string_def ascii_def)
  then obtain i where "StableIntentID k (rb_BindingID b) (rb_Revision b) = Inr i" using StableIntentID_ok assms(2) by blast
  then show ?thesis using DigestValue_plain [OF assms(3-5)] by (simp add: newIntent_def)
qed

lemma binding_payload_plain:
  assumes "ValidIdentifier (rb_BindingID b)" and "rb_ExternalIdentity b = [] \<or> ValidIdentifier (rb_ExternalIdentity b)"
  shows "json_plain (JObj (binding_payload b))" and "json_bound (JObj (binding_payload b)) \<le> 100000"
    and "json_height (JObj (binding_payload b)) \<le> 128"
proof -
  have "length (rb_ExternalIdentity b) \<le> 128" "utf8_valid (rb_ExternalIdentity b)" using assms(2) ValidIdentifier_length by auto
  then show "json_plain (JObj (binding_payload b))" "json_bound (JObj (binding_payload b)) \<le> 100000"
    "json_height (JObj (binding_payload b)) \<le> 128"
    using assms(1) ValidIdentifier_length [OF assms(1)] JU64_bound [of "rb_Generation b"] JU64_bound [of "rb_FencingToken b"]
    by (simp_all add: binding_payload_def ascii_def)
qed

lemma fence_payload_plain:
  assumes "k \<noteq> ''generation''" and "k \<noteq> ''fencingToken''" and "utf8_valid k" and "utf8_valid s" and "length k \<le> 100" and "length s \<le> 100"
  shows "json_plain (JObj [(''generation'', JU64 g), (''fencingToken'', JU64 w), (k, JStr s)])"
    and "json_bound (JObj [(''generation'', JU64 g), (''fencingToken'', JU64 w), (k, JStr s)]) \<le> 100000"
    and "json_height (JObj [(''generation'', JU64 g), (''fencingToken'', JU64 w), (k, JStr s)]) \<le> 128"
  using assms JU64_bound [of g] JU64_bound [of w] by (simp_all add: ascii_def)

lemma ValidateBinding_ids:
  assumes "ValidateBinding b = None"
  shows "ValidIdentifier (rb_BindingID b)" and "rb_ExternalIdentity b = [] \<or> ValidIdentifier (rb_ExternalIdentity b)"
    and "rb_ObservationDigest b = [] \<or> ValidDigest (rb_ObservationDigest b)" and "EffectOwnership_Valid (rb_Ownership b)"
  using assms by (auto simp: ValidateBinding_def validate_observation_def)

lemma accept_observe:
  assumes "validateObservation b c = None" and "ValidateBinding (observed_binding b c) = None"
  shows "runtime_reduce b (ObserveBinding c) = Inr (observed_binding b c)"
proof -
  have g: "ValidateBinding b = None" "ValidDigest (ro_ObservationDigest c)" using assms(1) by (simp_all add: validateObservation_def)
  note p = fence_payload_plain [of "''observationDigest''" "ro_ObservationDigest c"]
  have "\<exists>d. runtime_decision (observed_binding b c) ty x at
      [(''generation'', JU64 (rb_Generation b)), (''fencingToken'', JU64 (rb_FencingToken b)),
       (''observationDigest'', JStr (ro_ObservationDigest c))] [] = Inr d \<and> rtd_Binding d = observed_binding b c" for ty x at
    by (rule runtime_decision_ok) (use p ValidDigest_text [OF g(2)] ValidateBinding_ids(1) [OF g(1)] in \<open>simp_all add: ascii_def\<close>)
  then show ?thesis using assms unfolding runtime_reduce_decide decide_runtime_def runtime_Observe_def by (simp, metis)
qed

lemma accept_takeover:
  assumes "validateTakeover b c = None" and "PrivateTokenDigest (tk_LeaseToken c) = Inr h"
  shows "runtime_reduce b (TakeoverBinding c) = Inr (taken_over b c h)"
proof -
  let ?t = "taken_over b c h"
  have v: "ValidateBinding b = None" using assms(1) by (simp add: validateTakeover_def)
  have i: "ValidIdentifier (rb_BindingID ?t)" "rb_ExternalIdentity ?t = [] \<or> ValidIdentifier (rb_ExternalIdentity ?t)"
    using ValidateBinding_ids(1,2) [OF v] by (simp_all add: taken_over_def)
  obtain x where x: "newIntent IntentReconcile ?t (binding_payload ?t) = Inr x"
    using newIntent_ok [OF _ i(1) binding_payload_plain [OF i]] by blast
  obtain d where "runtime_decision ?t ''runtime.taken-over'' (tk_CommandID c) (tk_At c) (binding_payload ?t) [x] = Inr d" "rtd_Binding d = ?t"
    using runtime_decision_ok [OF i(1) binding_payload_plain [OF i]] by blast
  then show ?thesis using assms x by (simp add: runtime_reduce_decide decide_runtime_def Takeover_def)
qed

lemma accept_begin_release:
  assumes "validateRelease b c = None" and "rb_State b = RuntimeBindingActive \<or> rb_State b = RuntimeBindingPreparing"
    and "ValidateBinding (releasing_binding b c) = None"
  shows "runtime_reduce b (BeginReleaseBinding c) = Inr (releasing_binding b c)"
proof -
  let ?t = "releasing_binding b c"
  let ?p = "[(''generation'', JU64 (rb_Generation b)), (''fencingToken'', JU64 (rb_FencingToken b)),
        (''ownership'', JStr (EffectOwnership_string (rb_Ownership b)))]"
  note i = ValidateBinding_ids(1,2) [OF assms(3)]
  have own: "EffectOwnership_Valid (rb_Ownership b)" using assms(1) ValidateBinding_ids(4) by (simp add: validateRelease_def)
  have "utf8_valid (EffectOwnership_string (rb_Ownership b))" "length (EffectOwnership_string (rb_Ownership b)) \<le> 100"
    using own by (cases "rb_Ownership b"; simp add: EffectOwnership_string_def EffectOwnership_Valid_def ascii_def)+
  then have p: "json_plain (JObj ?p)" "json_bound (JObj ?p) \<le> 100000" "json_height (JObj ?p) \<le> 128"
    using fence_payload_plain [of "''ownership''" "EffectOwnership_string (rb_Ownership b)" "rb_Generation b" "rb_FencingToken b"]
    by (simp_all add: ascii_def)
  obtain x where "newIntent IntentCleanup ?t (binding_payload ?t) = Inr x"
    using newIntent_ok [OF _ i(1) binding_payload_plain [OF i]] by blast
  then obtain xs where xs: "release_intents ?t = Inr xs" by (cases "rb_Ownership ?t = EffectOwned") (simp_all add: release_intents_def)
  obtain d where "runtime_decision ?t (''runtime.'' @ RuntimeBindingState_string (rb_State ?t)) (rl_CommandID c) (bf_At (rl_Fence c)) ?p xs = Inr d"
    "rtd_Binding d = ?t"
    using runtime_decision_ok [OF i(1) p] by blast
  then show ?thesis using assms xs by (auto simp: runtime_reduce_decide decide_runtime_def BeginRelease_def)
qed

lemma accept_finish_release:
  assumes "validateRelease b c = None" and "rb_State b = RuntimeBindingStopping" and "rb_Ownership b = EffectOwned"
    and "rb_ObservedState b = RuntimeObservedStopped" and "ValidateBinding (released_binding b c) = None"
  shows "runtime_reduce b (FinishReleaseBinding c) = Inr (released_binding b c)"
proof -
  let ?t = "released_binding b c"
  let ?p = "[(''generation'', JU64 (rb_Generation b)), (''fencingToken'', JU64 (rb_FencingToken b)),
        (''observationDigest'', JStr (rb_ObservationDigest b))]"
  note i = ValidateBinding_ids(1) [OF assms(5)]
  have v: "ValidateBinding b = None" using assms(1) by (simp add: validateRelease_def)
  have "utf8_valid (rb_ObservationDigest b)" "length (rb_ObservationDigest b) \<le> 100"
    using ValidateBinding_ids(3) [OF v] ValidDigest_text by auto
  then have p: "json_plain (JObj ?p)" "json_bound (JObj ?p) \<le> 100000" "json_height (JObj ?p) \<le> 128"
    using fence_payload_plain [of "''observationDigest''" "rb_ObservationDigest b" "rb_Generation b" "rb_FencingToken b"]
    by (simp_all add: ascii_def)
  obtain d where "runtime_decision ?t ''runtime.released'' (rl_CommandID c) (bf_At (rl_Fence c)) ?p [] = Inr d" "rtd_Binding d = ?t"
    using runtime_decision_ok [OF i p] by blast
  then show ?thesis using assms(1-5) by (auto simp: runtime_reduce_decide decide_runtime_def FinishRelease_def)
qed

section \<open>Releasing a binding\<close>

definition owner_fence :: "RuntimeBinding \<Rightarrow> string \<Rightarrow> instant \<Rightarrow> BindingFence" where
  "owner_fence b token at = \<lparr>bf_BindingID = rb_BindingID b, bf_ExpectedRevision = rb_Revision b, bf_Generation = rb_Generation b,
     bf_FencingToken = rb_FencingToken b, bf_LeaseOwner = rb_LeaseOwner b, bf_LeaseToken = token, bf_At = at\<rparr>"

text \<open>The owner of \<open>b\<close> holds \<open>token\<close> and can act at \<open>at\<close>.\<close>

definition owner_acts :: "RuntimeBinding \<Rightarrow> string \<Rightarrow> instant \<Rightarrow> bool" where
  "owner_acts b token at \<longleftrightarrow> ValidateBinding b = None \<and> \<not> RuntimeBindingState_Terminal (rb_State b) \<and> rb_Revision b + 1 \<noteq> 0 \<and>
     PrivateTokenDigest token = Inr (rb_LeaseTokenHash b) \<and> at \<noteq> 0 \<and> rb_UpdatedAt b \<le> at \<and> at < rb_LeaseExpiresAt b"

lemma owner_fence_valid: "owner_acts b token at \<Longrightarrow> runtime_validateFence b (owner_fence b token at) = None"
  by (simp add: runtime_validateFence_def owner_fence_def owner_acts_def)

lemma live_binding:
  assumes "owner_acts b token at"
  shows "ValidIdentifier (rb_LeaseOwner b)" and "ValidDigest (rb_LeaseTokenHash b)" and "rb_FinishedAt b = None"
    and "rb_CreatedAt b \<le> at"
  using assms by (auto simp: owner_acts_def ValidateBinding_def validate_lease_def)

lemma observation_kept:
  assumes "validate_observation b = None" and "rb_UpdatedAt b \<le> rb_UpdatedAt t" and "rb_ObservationDigest t = rb_ObservationDigest b"
    and "rb_ObservationAt t = rb_ObservationAt b" and "rb_ExternalIdentity t = rb_ExternalIdentity b"
    and "rb_PrimaryFailure t = rb_PrimaryFailure b" and "rb_ObservedState t = rb_ObservedState b"
  shows "validate_observation t = None"
  using assms by (auto simp: validate_observation_def split: option.splits)

lemma ValidateBinding_step:
  assumes "ValidateBinding b = None" and "binding_identity t = binding_identity b" and "RuntimeBindingState_Valid (rb_State t)"
    and "RuntimeObservedState_Valid (rb_ObservedState t)" and "RuntimeHealth_Valid (rb_Health t)"
    and "rb_Generation t \<noteq> 0" and "rb_FencingToken t \<noteq> 0" and "rb_Revision t \<noteq> 0" and "rb_CreatedAt b \<le> rb_UpdatedAt t"
    and "validate_lease t = None" and "validate_binding_state t = None" and "validate_observation t = None"
  shows "ValidateBinding t = None"
proof -
  have i: "rb_BindingID t = rb_BindingID b" "rb_NamespaceID t = rb_NamespaceID b" "rb_RunID t = rb_RunID b"
    "rb_InvocationID t = rb_InvocationID b" "rb_NodeID t = rb_NodeID b" "rb_RuntimeKey t = rb_RuntimeKey b" "rb_Kind t = rb_Kind b"
    "rb_SpecDigest t = rb_SpecDigest b" "rb_ProviderRef t = rb_ProviderRef b" "rb_ProviderDigest t = rb_ProviderDigest b"
    "rb_Ownership t = rb_Ownership b" "rb_CleanupPolicy t = rb_CleanupPolicy b" "rb_CreatedAt t = rb_CreatedAt b"
    using assms(2) by (simp_all add: binding_identity_def)
  show ?thesis using assms(1,3-12) unfolding ValidateBinding_def i by (simp add: not_less)
qed

lemma ValidateBinding_numbers:
  assumes "ValidateBinding b = None"
  shows "rb_Generation b \<noteq> 0" "rb_FencingToken b \<noteq> 0" "rb_Revision b \<noteq> 0" "RuntimeObservedState_Valid (rb_ObservedState b)"
    "RuntimeHealth_Valid (rb_Health b)" "validate_observation b = None" "validate_binding_state b = None"
  using assms by (simp_all add: ValidateBinding_def)

definition release_of :: "RuntimeBinding \<Rightarrow> string \<Rightarrow> instant \<Rightarrow> ReleaseCommand" where
  "release_of b token at = \<lparr>rl_Fence = owner_fence b token at, rl_CommandID = ''release''\<rparr>"

lemma ValidIdentifier_release [simp]: "ValidIdentifier ''release''"
  by (simp add: text_eval)

lemma release_validates: "owner_acts b token at \<Longrightarrow> validateRelease b (release_of b token at) = None"
  by (simp add: validateRelease_def release_of_def owner_fence_valid) (simp add: owner_acts_def)

lemma begin_release_step:
  assumes "owner_acts b token at" and "rb_State b = RuntimeBindingActive \<or> rb_State b = RuntimeBindingPreparing"
    and t: "t = releasing_binding b (release_of b token at)"
  shows "runtime_reduce b (BeginReleaseBinding (release_of b token at)) = Inr t"
    and "rb_Ownership b = EffectOwned \<Longrightarrow> 2 + rb_Revision b \<noteq> 0 \<Longrightarrow> owner_acts t token at \<and> rb_State t = RuntimeBindingStopping"
    and "rb_Ownership b \<noteq> EffectOwned \<Longrightarrow> rb_State t = RuntimeBindingReleased"
    and "rb_Ownership t = rb_Ownership b" and "rb_Revision t = rb_Revision b + 1" and "rb_ExternalIdentity t = rb_ExternalIdentity b"
proof -
  have at: "bf_At (rl_Fence (release_of b token at)) = at" by (simp add: release_of_def owner_fence_def)
  note d = releasing_binding_def clearLease_def at
  note a = assms(1) [unfolded owner_acts_def] and live = live_binding [OF assms(1)]
  have o: "validate_observation t = None"
    by (rule observation_kept [of b]) (use a ValidateBinding_numbers(6) in \<open>simp_all add: t d\<close>)
  have l: "validate_lease t = None"
    using live a by (simp add: t d validate_lease_def RuntimeBindingState_Terminal_def)
  have s: "validate_binding_state t = None" by (simp add: t d validate_binding_state_def)
  have vb: "ValidateBinding b = None" using a by simp
  have v: "ValidateBinding t = None"
    by (rule ValidateBinding_step [OF vb _ _ _ _ _ _ _ _ l s o])
      (use a live(4) ValidateBinding_numbers [OF vb] in \<open>simp_all add: t d binding_identity_def RuntimeBindingState_Valid_def\<close>)
  show "runtime_reduce b (BeginReleaseBinding (release_of b token at)) = Inr t"
    using accept_begin_release [OF release_validates [OF assms(1)] assms(2)] v by (simp add: t)
  show "owner_acts t token at \<and> rb_State t = RuntimeBindingStopping" if "rb_Ownership b = EffectOwned" "2 + rb_Revision b \<noteq> 0"
    using that v a by (simp add: owner_acts_def) (simp add: t d RuntimeBindingState_Terminal_def)
  show "rb_Ownership b \<noteq> EffectOwned \<Longrightarrow> rb_State t = RuntimeBindingReleased"
    and "rb_Ownership t = rb_Ownership b" and "rb_Revision t = rb_Revision b + 1" and "rb_ExternalIdentity t = rb_ExternalIdentity b"
    by (simp_all add: t d)
qed

definition observation_of ::
  "RuntimeBinding \<Rightarrow> string \<Rightarrow> instant \<Rightarrow> string \<Rightarrow> RuntimeObservedState \<Rightarrow> RuntimeObserveCommand" where
  "observation_of b token at x s = \<lparr>ro_Fence = owner_fence b token at, ro_ExternalIdentity = x, ro_ObservedState = s,
     ro_Health = RuntimeHealthUnknown,
     ro_ObservationDigest = value_of (ObservationDigest (rb_BindingID b) (rb_Generation b) (rb_FencingToken b) x s RuntimeHealthUnknown None),
     ro_Failure = None, ro_CommandID = ''observe''\<rparr>"

lemma observation_of_fields [simp]:
  "bf_At (owner_fence b token at) = at" "ro_ExternalIdentity (observation_of b token at x s) = x"
  "ro_ObservedState (observation_of b token at x s) = s" "ro_Health (observation_of b token at x s) = RuntimeHealthUnknown"
  "ro_Failure (observation_of b token at x s) = None" "ro_Fence (observation_of b token at x s) = owner_fence b token at"
  "ro_CommandID (observation_of b token at x s) = ''observe''"
  by (simp_all add: observation_of_def owner_fence_def)

lemma observation_digest_known:
  assumes "ValidIdentifier i" and "ValidIdentifier x" and "RuntimeObservedState_Valid s"
  shows "ObservationDigest i g w x s RuntimeHealthUnknown None = Inr (value_of (ObservationDigest i g w x s RuntimeHealthUnknown None))"
    and "ValidDigest (value_of (ObservationDigest i g w x s RuntimeHealthUnknown None))"
proof -
  have st: "utf8_valid (RuntimeObservedState_string s) \<and> length (RuntimeObservedState_string s) \<le> 10"
    using assms(3) by (cases s) (simp_all add: RuntimeObservedState_string_def RuntimeObservedState_Valid_def ascii_def)
  let ?v = "JObj [(''bindingId'', JStr i), (''generation'', JU64 g), (''fencingToken'', JU64 w), (''externalIdentity'', JStr x),
      (''state'', JStr (RuntimeObservedState_string s)), (''health'', JStr ''unknown''), (''failure'', JNull)]"
  have "json_plain ?v" "json_bound ?v \<le> 100000" "json_height ?v \<le> 128"
    using st assms(1,2) ValidIdentifier_length [OF assms(1)] ValidIdentifier_length [OF assms(2)] JU64_bound [of g] JU64_bound [of w]
    by (simp_all add: ascii_def)
  note k = digest_known [OF this]
  have e: "ObservationDigest i g w x s RuntimeHealthUnknown None = DigestValue ?v"
    by (simp add: ObservationDigest_def RuntimeHealth_string_def failure_json_def)
  show "ObservationDigest i g w x s RuntimeHealthUnknown None = Inr (value_of (ObservationDigest i g w x s RuntimeHealthUnknown None))"
    "ValidDigest (value_of (ObservationDigest i g w x s RuntimeHealthUnknown None))"
    unfolding e by (rule k)+
qed

lemma observe_step:
  assumes "owner_acts b token at" and "ValidIdentifier x" and "2 + rb_Revision b \<noteq> 0"
    and "rb_State b = RuntimeBindingStopping \<and> s = RuntimeObservedStopped \<or>
      (rb_State b = RuntimeBindingPreparing \<or> rb_State b = RuntimeBindingActive) \<and> s = RuntimeObservedRunning"
    and t: "t = observed_binding b (observation_of b token at x s)"
  shows "runtime_reduce b (ObserveBinding (observation_of b token at x s)) = Inr t" and "owner_acts t token at"
    and "rb_State t = (if s = RuntimeObservedRunning then RuntimeBindingActive else RuntimeBindingStopping)"
    and "rb_ObservedState t = s" and "rb_Ownership t = rb_Ownership b" and "rb_Revision t = rb_Revision b + 1"
    and "rb_ExternalIdentity t = x"
proof -
  let ?c = "observation_of b token at x s"
  have sv: "RuntimeObservedState_Valid s" "s \<noteq> RuntimeObservedLost" "s \<noteq> RuntimeObservedFailed" "s \<noteq> RuntimeObservedUnknown"
    using assms(4) by (auto simp: RuntimeObservedState_Valid_def)
  note a = assms(1) [unfolded owner_acts_def] and live = live_binding [OF assms(1)]
  have id: "ValidIdentifier (rb_BindingID b)" using a ValidateBinding_ids(1) by blast
  note k = observation_digest_known [OF id assms(2) sv(1), of "rb_Generation b" "rb_FencingToken b"]
  have dg: "ValidDigest (ro_ObservationDigest ?c)"
    "ObservationDigest (rb_BindingID b) (rb_Generation b) (rb_FencingToken b) x s RuntimeHealthUnknown None = Inr (ro_ObservationDigest ?c)"
    using k by (simp_all add: observation_of_def)
  have "ValidIdentifier ''observe''" "x \<noteq> []" using assms(2) by (auto simp: text_eval)
  then have w: "validateObservation b ?c = None"
    using a sv dg assms(2) owner_fence_valid [OF assms(1)]
    by (simp add: validateObservation_def validateObservationFailure_def RuntimeHealth_Valid_def)
  have active: "rb_State b = RuntimeBindingActive \<Longrightarrow> rb_ActivatedAt b \<noteq> None"
    using a ValidateBinding_numbers(7) [of b] by (simp add: validate_binding_state_def)
  have st: "rb_State t = (if s = RuntimeObservedRunning then RuntimeBindingActive else RuntimeBindingStopping)"
    and ac: "s = RuntimeObservedRunning \<Longrightarrow> rb_ActivatedAt t \<noteq> None"
    using assms(4) sv active by (auto simp: t observed_binding_def)
  have f: "rb_ExternalIdentity t = x" "rb_ObservedState t = s" "rb_PrimaryFailure t = None" "rb_ObservationAt t = Some at" "rb_UpdatedAt t = at"
    "rb_Revision t = rb_Revision b + 1" "rb_Ownership t = rb_Ownership b" "rb_ObservationDigest t = ro_ObservationDigest ?c"
    "rb_ReleaseStartedAt t = rb_ReleaseStartedAt b" "rb_LeaseExpiresAt t = rb_LeaseExpiresAt b" "rb_LeaseOwner t = rb_LeaseOwner b"
    "rb_Generation t = rb_Generation b" "rb_FencingToken t = rb_FencingToken b" "rb_LeaseTokenHash t = rb_LeaseTokenHash b" "rb_FinishedAt t = rb_FinishedAt b" "rb_Health t = RuntimeHealthUnknown"
    using sv(2) by (simp_all add: t observed_binding_def)
  have live_t: "\<not> RuntimeBindingState_Terminal (rb_State t)" by (simp add: st RuntimeBindingState_Terminal_def)
  have "validate_lease t = None" using live a live_t by (simp add: validate_lease_def f)
  moreover have "validate_observation t = None" using assms(2) dg(1) ValidDigest_nonempty by (simp add: validate_observation_def f)
  moreover have "validate_binding_state t = None"
    using a assms(2,4) ac ValidateBinding_numbers(7) [of b]
    by (auto simp: validate_binding_state_def f st)
  moreover have "RuntimeBindingState_Valid (rb_State t)" by (simp add: st RuntimeBindingState_Valid_def)
  moreover have "binding_identity t = binding_identity b" by (simp add: t)
  ultimately have v: "ValidateBinding t = None"
    using a live(4) sv(1) ValidateBinding_numbers [of b] by (intro ValidateBinding_step [of b t]) (simp_all add: f RuntimeHealth_Valid_def)
  show "runtime_reduce b (ObserveBinding ?c) = Inr t" using accept_observe [OF w] v by (simp add: t)
  show "owner_acts t token at" using a v live_t assms(3) by (simp add: owner_acts_def f)
  show "rb_State t = (if s = RuntimeObservedRunning then RuntimeBindingActive else RuntimeBindingStopping)" by (rule st)
  show "rb_ObservedState t = s" "rb_Ownership t = rb_Ownership b" "rb_Revision t = rb_Revision b + 1" "rb_ExternalIdentity t = x"
    by (rule f)+
qed

lemma finish_release_step:
  assumes "owner_acts b token at" and "rb_State b = RuntimeBindingStopping" and "rb_Ownership b = EffectOwned"
    and "rb_ObservedState b = RuntimeObservedStopped" and t: "t = released_binding b (release_of b token at)"
  shows "runtime_reduce b (FinishReleaseBinding (release_of b token at)) = Inr t"
    and "rb_State t = RuntimeBindingReleased" and "rb_ExternalIdentity t = rb_ExternalIdentity b"
    and "rb_ObservedState t = RuntimeObservedStopped"
proof -
  have at: "bf_At (rl_Fence (release_of b token at)) = at" by (simp add: release_of_def owner_fence_def)
  note d = released_binding_def clearLease_def at
  note a = assms(1) [unfolded owner_acts_def] and live = live_binding [OF assms(1)]
  have vb: "ValidateBinding b = None" using a by simp
  note n = ValidateBinding_numbers [OF vb]
  have o: "validate_observation t = None" by (rule observation_kept [of b]) (use a n(6) in \<open>simp_all add: t d\<close>)
  have l: "validate_lease t = None" by (simp add: t d validate_lease_def RuntimeBindingState_Terminal_def)
  have s: "validate_binding_state t = None" using assms(4) by (simp add: t d validate_binding_state_def)
  have v: "ValidateBinding t = None"
    by (rule ValidateBinding_step [OF vb _ _ _ _ _ _ _ _ l s o])
      (use a live(4) n in \<open>simp_all add: t d binding_identity_def RuntimeBindingState_Valid_def\<close>)
  show "runtime_reduce b (FinishReleaseBinding (release_of b token at)) = Inr t"
    using accept_finish_release [OF release_validates [OF assms(1)] assms(2-4)] v by (simp add: t)
  show "rb_State t = RuntimeBindingReleased" "rb_ExternalIdentity t = rb_ExternalIdentity b" "rb_ObservedState t = RuntimeObservedStopped"
    using assms(4) by (simp_all add: t d)
qed

definition takeover_of :: "RuntimeBinding \<Rightarrow> string \<Rightarrow> instant \<Rightarrow> TakeoverCommand" where
  "takeover_of b token at = \<lparr>tk_BindingID = rb_BindingID b, tk_ExpectedRevision = rb_Revision b, tk_Generation = rb_Generation b + 1,
     tk_FencingToken = rb_FencingToken b + 1, tk_LeaseOwner = ''worker'', tk_LeaseToken = token, tk_LeaseExpiresAt = at + 10,
     tk_CommandID = ''takeover'', tk_At = at\<rparr>"

lemma takeover_step:
  assumes "runtime_inv b" and "\<not> RuntimeBindingState_Terminal (rb_State b)" and "PrivateTokenDigest token = Inr h"
    and "rb_LeaseExpiresAt b \<le> at" and "at \<noteq> 0" and "rb_FencingToken b + 1 \<noteq> 0" and "rb_Revision b + 1 \<noteq> 0" and "2 + rb_Revision b \<noteq> 0"
    and t: "t = taken_over b (takeover_of b token at) h"
  shows "runtime_reduce b (TakeoverBinding (takeover_of b token at)) = Inr t" and "owner_acts t token at"
    and "rb_State t = (if rb_State b = RuntimeBindingActive then RuntimeBindingPreparing else rb_State b)"
    and "rb_Ownership t = rb_Ownership b" and "rb_Revision t = rb_Revision b + 1" and "rb_ExternalIdentity t = rb_ExternalIdentity b"
proof -
  have vb: "ValidateBinding b = None" using assms(1) by (simp add: runtime_inv_def)
  have "rb_FencingToken b < rb_FencingToken b + 1" using unat_succ_nonzero [OF assms(6)] by (simp add: word_less_nat_alt)
  moreover have "ValidIdentifier ''worker''" "ValidIdentifier ''takeover''" by (simp_all add: text_eval)
  ultimately have v: "validateTakeover b (takeover_of b token at) = None"
    using vb assms(2,4,5) by (simp add: validateTakeover_def takeover_of_def not_le)
  have h: "PrivateTokenDigest (tk_LeaseToken (takeover_of b token at)) = Inr h" using assms(3) by (simp add: takeover_of_def)
  show r: "runtime_reduce b (TakeoverBinding (takeover_of b token at)) = Inr t" using accept_takeover [OF v h] by (simp add: t)
  have vt: "ValidateBinding t = None" using rt.keeps [OF r assms(1,7)] by (simp add: runtime_inv_def)
  have "\<not> RuntimeBindingState_Terminal (rb_State t)" using assms(2) by (simp add: t taken_over_def RuntimeBindingState_Terminal_def)
  then show "owner_acts t token at"
    using vt assms(3,5,8) by (simp add: owner_acts_def) (simp add: t taken_over_def takeover_of_def)
  show "rb_State t = (if rb_State b = RuntimeBindingActive then RuntimeBindingPreparing else rb_State b)"
    "rb_Ownership t = rb_Ownership b" "rb_Revision t = rb_Revision b + 1" "rb_ExternalIdentity t = rb_ExternalIdentity b"
    by (simp_all add: t taken_over_def)
qed

text \<open>
  A binding is released as \<open>x\<close>: an owned one after \<open>x\<close> was observed as stopped, another one with the
  external identity it had.
\<close>

definition released_as :: "RuntimeBinding \<Rightarrow> string \<Rightarrow> RuntimeBinding \<Rightarrow> bool" where
  "released_as b x t \<longleftrightarrow> rb_State t = RuntimeBindingReleased \<and>
     (if rb_Ownership b = EffectOwned then rb_ExternalIdentity t = x \<and> rb_ObservedState t = RuntimeObservedStopped
      else rb_ExternalIdentity t = rb_ExternalIdentity b)"

lemma stopping_can_release:
  assumes "owner_acts b token at" and "rb_State b = RuntimeBindingStopping" and "rb_Ownership b = EffectOwned"
    and "2 + rb_Revision b \<noteq> 0" and "ValidIdentifier x"
  shows "\<exists>cs t. length cs = 2 \<and> fold_reduce runtime_reduce b cs = Inr t \<and> released_as b x t"
proof -
  define u where "u = observed_binding b (observation_of b token at x RuntimeObservedStopped)"
  note o = observe_step [OF assms(1,5,4) _ u_def]
  have u: "runtime_reduce b (ObserveBinding (observation_of b token at x RuntimeObservedStopped)) = Inr u" "owner_acts u token at"
    "rb_State u = RuntimeBindingStopping" "rb_Ownership u = EffectOwned" "rb_ObservedState u = RuntimeObservedStopped" "rb_ExternalIdentity u = x"
    using o assms(2,3) by simp_all
  note f = finish_release_step [OF u(2-5) refl]
  show ?thesis
    by (rule exI [of _ "[ObserveBinding (observation_of b token at x RuntimeObservedStopped), FinishReleaseBinding (release_of u token at)]"])
      (use u f assms(3) in \<open>simp add: released_as_def\<close>)
qed

lemma small_sums:
  assumes "unat (w :: u64) + 4 < 2 ^ 64"
  shows "w + 1 \<noteq> 0" "2 + w \<noteq> 0" "w + 3 \<noteq> 0" "w + 4 \<noteq> 0"
proof -
  have u: "unat (w + of_nat k) = unat w + k" if "k \<le> 4" for k
    using that assms by (simp add: unat_word_ariths unat_of_nat)
  have "w + of_nat k \<noteq> 0" if "0 < k" "k \<le> 4" for k
    using u [OF that(2)] that(1) by (metis add_is_0 less_irrefl unat_0)
  from this [of 1] this [of 2] this [of 3] this [of 4] show "w + 1 \<noteq> 0" "2 + w \<noteq> 0" "w + 3 \<noteq> 0" "w + 4 \<noteq> 0"
    by (simp_all add: add.commute)
qed

text \<open>
  A live binding can be released under any external identity that is reported as stopped: nothing
  ties the observation to the identity bound before.
\<close>

lemma released_under_any_identity:
  assumes "runtime_Prepare c = Inr d" and "fold_reduce runtime_reduce (rtd_Binding d) cs = Inr b" and "length cs + 5 < 2 ^ 64"
    and "\<not> RuntimeBindingState_Terminal (rb_State b)" and "rb_FencingToken b + 1 \<noteq> 0" and "ValidIdentifier x"
  shows "\<exists>ds t. length ds \<le> 4 \<and> fold_reduce runtime_reduce b ds = Inr t \<and> released_as b x t"
proof -
  have inv: "runtime_inv b" and rev: "unat (rb_Revision b) + 4 < 2 ^ 64"
    using reachable_binding [OF assms(1,2)] assms(3) by simp_all
  note w = small_sums [OF rev]
  obtain h where h: "PrivateTokenDigest ''token'' = Inr h"
  proof -
    have "validateCanonicalText ''token'' 512 True = None" by code_simp
    then show thesis using that by (simp add: PrivateTokenDigest_def)
  qed
  define at where "at = max (rb_LeaseExpiresAt b) 1"
  have at: "rb_LeaseExpiresAt b \<le> at" "at \<noteq> 0" by (simp_all add: at_def)
  define u where "u = taken_over b (takeover_of b ''token'' at) h"
  note k = takeover_step [OF inv assms(4) h at assms(5) w(1,2) u_def]
  have n: "rb_Revision u + 1 = rb_Revision b + 2" "2 + rb_Revision u = rb_Revision b + 3" "2 + (rb_Revision u + 1) = rb_Revision b + 4"
    using k(5) by simp_all
  have own: "rb_Ownership b = EffectOwned" if "rb_State b = RuntimeBindingStopping"
    using inv that by (simp add: runtime_inv_def ValidateBinding_def validate_binding_state_def)
  have st: "rb_State u = RuntimeBindingStopping \<or> rb_State u = RuntimeBindingPreparing"
    and stopping: "rb_State u = RuntimeBindingStopping \<Longrightarrow> rb_Ownership b = EffectOwned"
    using k(3) inv assms(4) own
    by (auto simp: runtime_inv_def ValidateBinding_def RuntimeBindingState_Terminal_def RuntimeBindingState_Valid_def
        split: RuntimeBindingState.splits if_splits)
  have first: "\<exists>ds t. length ds \<le> 4 \<and> fold_reduce runtime_reduce b ds = Inr t \<and> P t"
    if rest: "\<exists>ds t. length ds \<le> 3 \<and> fold_reduce runtime_reduce u ds = Inr t \<and> P t" for P
  proof -
    obtain ds t where "length ds \<le> 3" "fold_reduce runtime_reduce u ds = Inr t" "P t" using rest by blast
    then have "length (TakeoverBinding (takeover_of b ''token'' at) # ds) \<le> 4 \<and>
      fold_reduce runtime_reduce b (TakeoverBinding (takeover_of b ''token'' at) # ds) = Inr t \<and> P t" using k(1) by simp
    then show ?thesis by blast
  qed
  show ?thesis
  proof (rule first, cases "rb_State u = RuntimeBindingStopping")
    case True
    have "2 + rb_Revision u \<noteq> 0" unfolding n(2) by (rule w(3))
    moreover have "rb_Ownership u = EffectOwned" using stopping [OF True] k(4) by simp
    ultimately obtain ds t where "length ds = 2" "fold_reduce runtime_reduce u ds = Inr t" "released_as u x t"
      using stopping_can_release [OF k(2) True _ _ assms(6)] by blast
    then show "\<exists>ds t. length ds \<le> 3 \<and> fold_reduce runtime_reduce u ds = Inr t \<and> released_as b x t"
      using k(4,6) by (intro exI [of _ ds] exI [of _ t]) (simp add: released_as_def)
  next
    case False
    then have p: "rb_State u = RuntimeBindingActive \<or> rb_State u = RuntimeBindingPreparing" using st by simp
    define v where "v = releasing_binding u (release_of u ''token'' at)"
    note v = begin_release_step [OF k(2) p v_def]
    show "\<exists>ds t. length ds \<le> 3 \<and> fold_reduce runtime_reduce u ds = Inr t \<and> released_as b x t"
    proof (cases "rb_Ownership b = EffectOwned")
      case True
      have o: "owner_acts v ''token'' at" "rb_State v = RuntimeBindingStopping" "rb_Ownership v = EffectOwned" "2 + rb_Revision v \<noteq> 0"
        using v True k(4) w(3,4) unfolding n [symmetric] by simp_all
      obtain ds t where "length ds = 2" "fold_reduce runtime_reduce v ds = Inr t" "released_as v x t"
        using stopping_can_release [OF o assms(6)] by blast
      then show ?thesis
        by (intro exI [of _ "BeginReleaseBinding (release_of u ''token'' at) # ds"] exI [of _ t]) (use True o(3) k(4) in \<open>simp add: v(1) released_as_def\<close>)
    next
      case False
      then show ?thesis
        using v k(4,6) by (intro exI [of _ "[BeginReleaseBinding (release_of u ''token'' at)]"] exI [of _ v])
          (simp add: released_as_def)
    qed
  qed
qed

text \<open>No fencing token follows the largest one.\<close>

lemma takeover_needs_token: "Takeover b c = Inr d \<Longrightarrow> rb_FencingToken b + 1 \<noteq> 0"
proof
  assume t: "Takeover b c = Inr d" and z: "rb_FencingToken b + 1 = 0"
  have "rb_FencingToken b < tk_FencingToken c" using t by (simp add: Takeover_def validateTakeover_def not_le)
  moreover have "rb_FencingToken b = - 1" using z by (metis add_eq_0_iff2)
  ultimately show False by simp
qed

text \<open>
  C27: when a live binding can be brought to an end. A reachable binding that is neither released nor
  lost can be taken over exactly if its fencing token is not the largest 64-bit number. Then, after
  the takeover, at most three more commands of the new owner release it: an owned binding after its own
  external identity was observed as stopped (any identity, if none had been observed yet), another
  binding with the identity it had.
\<close>

theorem runtime_can_release:
  assumes "runtime_Prepare c = Inr d" and "fold_reduce runtime_reduce (rtd_Binding d) cs = Inr b" and "length cs + 5 < 2 ^ 64"
    and "\<not> RuntimeBindingState_Terminal (rb_State b)" and "ValidIdentifier x"
  shows "((\<exists>k e. Takeover b k = Inr e) \<longleftrightarrow> rb_FencingToken b \<noteq> 2 ^ 64 - 1) \<and>
    (rb_FencingToken b \<noteq> 2 ^ 64 - 1 \<longrightarrow> (\<exists>ds t. length ds \<le> 4 \<and> fold_reduce runtime_reduce b ds = Inr t \<and>
      released_as b (if rb_ExternalIdentity b = [] then x else rb_ExternalIdentity b) t))"
proof -
  have inv: "runtime_inv b" and rev: "unat (rb_Revision b) + 4 < 2 ^ 64"
    using reachable_binding [OF assms(1,2)] assms(3) by simp_all
  have "(2 ^ 64 - 1 :: u64) = - 1" by simp
  then have m: "rb_FencingToken b \<noteq> 2 ^ 64 - 1 \<longleftrightarrow> rb_FencingToken b + 1 \<noteq> 0"
    using add_eq_0_iff2 [of "rb_FencingToken b" 1] by (simp only:)
  have y: "ValidIdentifier (if rb_ExternalIdentity b = [] then x else rb_ExternalIdentity b)"
    using inv assms(5) by (auto simp: runtime_inv_def ValidateBinding_def validate_observation_def split: if_splits)
  have "\<exists>k e. Takeover b k = Inr e" if t: "rb_FencingToken b + 1 \<noteq> 0"
  proof -
    obtain h where h: "PrivateTokenDigest ''token'' = Inr h"
    proof -
      have "validateCanonicalText ''token'' 512 True = None" by code_simp
      then show thesis using that by (simp add: PrivateTokenDigest_def)
    qed
    have "rb_LeaseExpiresAt b \<le> max (rb_LeaseExpiresAt b) 1" "max (rb_LeaseExpiresAt b) 1 \<noteq> 0" by simp_all
    from takeover_step(1) [OF inv assms(4) h this t small_sums(1,2) [OF rev] refl] show ?thesis
      by (auto simp: runtime_reduce_def decide_runtime_def)
  qed
  then show ?thesis
    using takeover_needs_token [of b] released_under_any_identity [OF assms(1-4) _ y] unfolding m by blast
qed

section \<open>A concrete binding\<close>

definition sample_binding_id :: string where "sample_binding_id = value_of (StableBindingID ''inv-1'' ''arm'')"

definition sample_prepare_binding :: PrepareBindingCommand where
  "sample_prepare_binding = \<lparr>pb_BindingID = sample_binding_id, pb_NamespaceID = ''lab'', pb_RunID = ''run-1'', pb_InvocationID = ''inv-1'',
     pb_NodeID = ''node-1'', pb_RuntimeKey = ''arm'', pb_Kind = ''process.local/v1'', pb_SpecDigest = sha256_text ''spec'',
     pb_ProviderRef = ''provider-1'', pb_ProviderDigest = sha256_text ''provider'', pb_Ownership = EffectOwned,
     pb_CleanupPolicy = RuntimeCleanupOnRunClose, pb_Generation = 1, pb_FencingToken = 1, pb_LeaseOwner = ''worker'',
     pb_LeaseToken = ''token'', pb_LeaseExpiresAt = 20, pb_CommandID = ''prepare'', pb_At = 5\<rparr>"

definition sample_binding :: RuntimeBinding where
  "sample_binding = prepared_binding sample_prepare_binding (sha256_text ''token'')"

lemma sample_lease_token: "PrivateTokenDigest ''token'' = Inr (sha256_text ''token'')"
proof -
  have "validateCanonicalText ''token'' 512 True = None" by code_simp
  then show ?thesis by (simp add: PrivateTokenDigest_def)
qed

lemma sample_binding_texts [simp]:
  "ValidIdentifier ''inv-1''" "ValidIdentifier ''arm''" "ValidIdentifier ''lab''" "ValidIdentifier ''run-1''" "ValidIdentifier ''node-1''"
  "ValidIdentifier ''provider-1''" "ValidIdentifier ''worker''" "ValidIdentifier ''prepare''" "ValidTypeRef ''process.local/v1''"
  "ValidIdentifier ''process-1''" "ValidIdentifier ''process-2''" "ValidIdentifier ''observe''"
  by (simp_all add: text_eval)

lemma StableBindingID_known:
  assumes "ValidIdentifier i" and "ValidIdentifier k"
  shows "StableBindingID i k = Inr (value_of (StableBindingID i k))" and "ValidIdentifier (value_of (StableBindingID i k))"
proof -
  let ?v = "JArr [JStr ''xgc.runtime-binding/v1'', JStr i, JStr k]"
  have p: "json_plain ?v" "json_bound ?v \<le> 100000" "json_height ?v \<le> 128"
    using assms ValidIdentifier_length [OF assms(1)] ValidIdentifier_length [OF assms(2)] by (simp_all add: ascii_def)
  define t where "t = canonical_text DefaultLimits ?v"
  have m: "StableBindingID i k = Inr (''rtb-'' @ EncodeToString (Sum256 (string_bytes t)))"
    using Marshal_plain [OF p] assms unfolding StableBindingID_def t_def by simp
  then show "StableBindingID i k = Inr (value_of (StableBindingID i k))" by simp
  have h: "ValidDigest (''sha256:'' @ EncodeToString (Sum256 (string_bytes t)))"
    using sha256_text_ValidDigest [of t] by (simp add: sha256_text_def)
  then have "list_all is_hex (EncodeToString (Sum256 (string_bytes t)))" "length (EncodeToString (Sum256 (string_bytes t))) = 64"
    by (auto simp: ValidDigest_def digestPattern_def)
  then show "ValidIdentifier (value_of (StableBindingID i k))"
    using is_hex_identifier_char unfolding m
    by (auto simp: ValidIdentifier_iff identifierPattern_def list_all_iff identifier_char_def is_letter_def in_range_def)
qed

lemma sample_binding_id: "StableBindingID ''inv-1'' ''arm'' = Inr sample_binding_id" "ValidIdentifier sample_binding_id"
  unfolding sample_binding_id_def by (rule StableBindingID_known; simp)+

lemmas sample_binding_defs = sample_binding_def prepared_binding_def sample_prepare_binding_def

lemma sample_binding_valid: "ValidateBinding sample_binding = None"
  using sample_binding_id
  by (simp add: ValidateBinding_def validate_lease_def validate_binding_state_def validate_observation_def sample_binding_defs
      EffectOwnership_Valid_def RuntimeCleanupPolicy_Valid_def RuntimeBindingState_Valid_def RuntimeObservedState_Valid_def
      RuntimeHealth_Valid_def RuntimeBindingState_Terminal_def)

lemma sample_binding_prepared: "\<exists>d. runtime_Prepare sample_prepare_binding = Inr d \<and> rtd_Binding d = sample_binding"
proof -
  let ?p = "[(''generation'', JU64 1), (''fencingToken'', JU64 1), (''specDigest'', JStr (sha256_text ''spec''))]"
  have v: "validatePrepare sample_prepare_binding = None"
    using sample_binding_id(2) sample_lease_token
    by (simp add: validatePrepare_def sample_prepare_binding_def EffectOwnership_Valid_def RuntimeCleanupPolicy_Valid_def)
  have c: "pb_InvocationID sample_prepare_binding = ''inv-1''" "pb_RuntimeKey sample_prepare_binding = ''arm''"
    "pb_BindingID sample_prepare_binding = sample_binding_id" "pb_LeaseToken sample_prepare_binding = ''token''"
    "pb_Generation sample_prepare_binding = 1" "pb_FencingToken sample_prepare_binding = 1" "pb_SpecDigest sample_prepare_binding = sha256_text ''spec''"
    by (simp_all add: sample_prepare_binding_def)
  have "rb_BindingID sample_binding = sample_binding_id" by (simp add: sample_binding_defs)
  moreover have "json_plain (JObj ?p)" "json_bound (JObj ?p) \<le> 100000" "json_height (JObj ?p) \<le> 128"
    using fence_payload_plain [of "''specDigest''" "sha256_text ''spec''" 1 1] ValidDigest_text [OF sha256_text_ValidDigest, of "''spec''"]
    by (simp_all add: ascii_def)
  ultimately obtain d where "runtime_decision sample_binding ''runtime.preparing'' (pb_CommandID sample_prepare_binding)
      (pb_At sample_prepare_binding) ?p [] = Inr d" "rtd_Binding d = sample_binding"
    using runtime_decision_ok [of sample_binding ?p] sample_binding_id(2) by metis
  then show ?thesis
    using v sample_binding_id(1) sample_lease_token sample_binding_valid by (simp add: runtime_Prepare_def c sample_binding_def)
qed

definition sample_active :: RuntimeBinding where
  "sample_active = observed_binding sample_binding (observation_of sample_binding ''token'' 6 ''process-1'' RuntimeObservedRunning)"

definition sample_taken :: RuntimeBinding where
  "sample_taken = taken_over sample_active (takeover_of sample_active ''token'' 30) (sha256_text ''token'')"

lemma sample_active:
  "runtime_reduce sample_binding (ObserveBinding (observation_of sample_binding ''token'' 6 ''process-1'' RuntimeObservedRunning)) = Inr sample_active"
  "rb_State sample_active = RuntimeBindingActive" "rb_Revision sample_active = 2" "rb_Generation sample_active = 1"
  "rb_FencingToken sample_active = 1" "rb_Ownership sample_active = EffectOwned" "rb_LeaseExpiresAt sample_active = 20" "owner_acts sample_active ''token'' 7"
proof -
  have a: "owner_acts sample_binding ''token'' 6"
    using sample_binding_valid sample_lease_token by (simp add: owner_acts_def) (simp add: sample_binding_defs RuntimeBindingState_Terminal_def)
  have "2 + rb_Revision sample_binding \<noteq> 0" "rb_State sample_binding = RuntimeBindingPreparing"
    by (simp_all add: sample_binding_defs)
  note o = observe_step [OF a _ this(1) _ sample_active_def]
  show "runtime_reduce sample_binding (ObserveBinding (observation_of sample_binding ''token'' 6 ''process-1'' RuntimeObservedRunning)) = Inr sample_active"
    "rb_State sample_active = RuntimeBindingActive"
    by (rule o, simp_all add: sample_binding_defs) (subst o, simp_all add: sample_binding_defs)
  show "rb_Revision sample_active = 2" "rb_Generation sample_active = 1" "rb_FencingToken sample_active = 1"
    "rb_Ownership sample_active = EffectOwned" "rb_LeaseExpiresAt sample_active = 20"
    by (simp_all add: sample_active_def observed_binding_def sample_binding_defs)
  have "owner_acts sample_active ''token'' 6" by (rule o) (simp_all add: sample_binding_defs)
  then show "owner_acts sample_active ''token'' 7" using \<open>rb_LeaseExpiresAt sample_active = 20\<close> by (simp add: owner_acts_def)
qed

lemma sample_taken:
  "runtime_reduce sample_active (TakeoverBinding (takeover_of sample_active ''token'' 30)) = Inr sample_taken"
  "rb_Generation sample_taken = 2" "rb_FencingToken sample_taken = 2" "\<not> RuntimeBindingState_Terminal (rb_State sample_taken)"
  "rb_Ownership sample_taken = EffectOwned"
proof -
  obtain d where d: "runtime_Prepare sample_prepare_binding = Inr d" "rtd_Binding d = sample_binding" using sample_binding_prepared by blast
  have inv: "runtime_inv sample_active"
    by (rule reachable_binding(1) [OF d(1), of "[ObserveBinding (observation_of sample_binding ''token'' 6 ''process-1'' RuntimeObservedRunning)]"])
      (simp_all add: d(2) sample_active(1))
  show "runtime_reduce sample_active (TakeoverBinding (takeover_of sample_active ''token'' 30)) = Inr sample_taken"
    by (rule takeover_step [OF inv _ sample_lease_token _ _ _ _ _ sample_taken_def])
      (simp_all add: sample_active RuntimeBindingState_Terminal_def)
  show "rb_Generation sample_taken = 2" "rb_FencingToken sample_taken = 2" "\<not> RuntimeBindingState_Terminal (rb_State sample_taken)"
    "rb_Ownership sample_taken = EffectOwned"
    by (simp_all add: sample_taken_def taken_over_def takeover_of_def sample_active RuntimeBindingState_Terminal_def)
qed

definition sample_takeover :: "RuntimeCommand list" where
  "sample_takeover = [ObserveBinding (observation_of sample_binding ''token'' 6 ''process-1'' RuntimeObservedRunning),
     TakeoverBinding (takeover_of sample_active ''token'' 30)]"

lemma sample_takeover: "fold_reduce runtime_reduce sample_binding sample_takeover = Inr sample_taken"
  by (simp add: sample_takeover_def sample_active(1) sample_taken(1))

section \<open>Witnesses\<close>

theorem runtime_invariant_witness: "ValidateBinding sample_taken = None \<and> unat (rb_Revision sample_taken) = 3"
proof -
  obtain d where d: "runtime_Prepare sample_prepare_binding = Inr d" "rtd_Binding d = sample_binding" using sample_binding_prepared by blast
  show ?thesis using runtime_invariant [OF d(1), of sample_takeover sample_taken] sample_takeover d(2) by (simp add: sample_takeover_def)
qed

theorem generation_counts_takeovers_witness:
  "unat (rb_Generation sample_taken) = 2 \<and> sorted_wrt (<) [1, rb_FencingToken sample_taken]"
proof -
  obtain d where d: "runtime_Prepare sample_prepare_binding = Inr d" "rtd_Binding d = sample_binding" using sample_binding_prepared by blast
  show ?thesis
    using generation_counts_takeovers [OF d(1), of sample_takeover sample_taken] sample_takeover d(2)
    by (simp add: sample_takeover_def map_filter_simps sample_prepare_binding_def)
qed

theorem stale_owner_locked_out_witness:
  "\<forall>u. runtime_reduce sample_taken (FinishReleaseBinding (release_of sample_active ''token'' 31)) \<noteq> Inr u"
proof
  fix u
  obtain d where d: "runtime_Prepare sample_prepare_binding = Inr d" "rtd_Binding d = sample_binding" using sample_binding_prepared by blast
  show "runtime_reduce sample_taken (FinishReleaseBinding (release_of sample_active ''token'' 31)) \<noteq> Inr u"
    by (rule stale_owner_locked_out [OF d(1), where cs = "[ObserveBinding (observation_of sample_binding ''token'' 6 ''process-1'' RuntimeObservedRunning)]"
          and s = sample_active and k = "takeover_of sample_active ''token'' 30" and ds = "[]" and f = "owner_fence sample_active ''token'' 31"])
      (simp_all add: d(2) sample_active(1) sample_taken(1) release_of_def owner_fence_def)
qed

theorem state_has_current_evidence_witness:
  "\<exists>h. ObservationDigest (rb_BindingID sample_active) 1 1 (rb_ExternalIdentity sample_active) RuntimeObservedRunning h
     (rb_PrimaryFailure sample_active) = Inr (rb_ObservationDigest sample_active)"
proof -
  obtain d where d: "runtime_Prepare sample_prepare_binding = Inr d" "rtd_Binding d = sample_binding" using sample_binding_prepared by blast
  show ?thesis
    using state_has_current_evidence [OF d(1), where t = sample_active and obs = RuntimeObservedRunning and
        cs = "[ObserveBinding (observation_of sample_binding ''token'' 6 ''process-1'' RuntimeObservedRunning)]"]
    by (simp add: d(2) sample_active)
qed

theorem runtime_lease_exclusive_witness:
  "6 < rb_LeaseExpiresAt sample_binding \<and> rb_LeaseExpiresAt sample_active \<le> 30"
  using runtime_lease_exclusive [of sample_binding "ObserveBinding (observation_of sample_binding ''token'' 6 ''process-1'' RuntimeObservedRunning)"
      sample_active "owner_fence sample_binding ''token'' 6"]
    runtime_lease_exclusive [where b = sample_active and t = sample_taken and k = "takeover_of sample_active ''token'' 30"]
    sample_active(1) sample_taken(1)
  by (simp add: takeover_of_def)

theorem active_observation_running_or_lost_witness:
  "\<exists>t. runtime_reduce sample_active (ObserveBinding (observation_of sample_active ''token'' 7 ''process-1'' RuntimeObservedRunning)) = Inr t \<and>
     rb_State t = RuntimeBindingActive"
proof -
  have a: "owner_acts sample_active ''token'' 7" by (rule sample_active(8))
  have n: "2 + rb_Revision sample_active \<noteq> 0" by (simp add: sample_active)
  note o = observe_step [OF a _ n _ refl, of "''process-1''" RuntimeObservedRunning]
  show ?thesis using active_observation_running_or_lost [OF o(1)] o(1) by (simp add: sample_active)
qed

theorem runtime_can_release_witness:
  "\<exists>ds t. length ds \<le> 4 \<and> fold_reduce runtime_reduce sample_taken ds = Inr t \<and> rb_State t = RuntimeBindingReleased \<and>
     rb_ExternalIdentity t = ''process-1'' \<and> rb_ObservedState t = RuntimeObservedStopped"
proof -
  obtain d where d: "runtime_Prepare sample_prepare_binding = Inr d" "rtd_Binding d = sample_binding" using sample_binding_prepared by blast
  have "rb_ExternalIdentity sample_taken = ''process-1''"
    by (simp add: sample_taken_def taken_over_def sample_active_def observed_binding_def observation_of_def)
  moreover have "ValidIdentifier ''process-2''" by simp
  ultimately show ?thesis
    using runtime_can_release [OF d(1), of sample_takeover sample_taken "''process-2''"] sample_takeover sample_taken(3-5) d(2)
    by (simp add: sample_takeover_def released_as_def)
qed

end
