(* ===== verification/Ownership_Closure.thy ===== *)
theory Ownership_Closure
  imports Invocation_Reducer Run_Reducer Effect_Reducer Runtime_Reducer
begin

text \<open>
  Package kernel/ownership (closure.go) with its data from sdk/go/contracts/ownership.go: the
  closure facts of a Run are counted over one exact snapshot of everything the Run owns, and
  an ownership graph ties the snapshot, the facts and the terminal Run together. Claims C28 to
  C30 relate the counters to what they count.
\<close>

section \<open>Data\<close>

datatype ResourceBindingState = ResourceBindingActive | ResourceBindingReleasing | ResourceBindingReleased
  | ResourceBindingLost | ResourceBindingStateOther string

definition ResourceBindingState_Valid :: "ResourceBindingState \<Rightarrow> bool" where
  "ResourceBindingState_Valid s = (case s of ResourceBindingStateOther _ \<Rightarrow> False | _ \<Rightarrow> True)"

definition ResourceBindingState_Terminal :: "ResourceBindingState \<Rightarrow> bool" where
  "ResourceBindingState_Terminal s \<longleftrightarrow> s = ResourceBindingReleased \<or> s = ResourceBindingLost"

record ResourceOwnershipFact =
  rof_BindingID :: string
  rof_RunID :: string
  rof_Ownership :: EffectOwnership
  rof_State :: ResourceBindingState

record OwnershipClosureBase =
  ocb_Run :: Run
  ocb_Invocations :: "InvocationLedger list"
  ocb_ChildRuns :: "Run list"
  ocb_Effects :: "EffectRecord list"
  ocb_Runtimes :: "RuntimeBinding list"
  ocb_Resources :: "ResourceOwnershipFact list"

record OwnershipGraph =
  og_SchemaVersion :: string
  og_Revision :: u64
  og_ClosureBase :: OwnershipClosureBase
  og_ClosureFacts :: RunClosureFacts
  og_TerminalRun :: Run

definition OwnershipGraphSchemaVersion :: string where
  "OwnershipGraphSchemaVersion = ''xgc.ownership-graph/v1''"

section \<open>Deriving the facts\<close>

type_synonym closure_state = "RunClosureFacts \<times> (string \<rightharpoonup> string)"

definition unique :: "(string \<rightharpoonup> string) \<Rightarrow> string \<Rightarrow> string \<Rightarrow> (string \<rightharpoonup> string) result" where
  "unique seen ident kind = (case seen ident of
     Some previous \<Rightarrow> Inl (Errorf ''ownership identity is shared'') | None \<Rightarrow> Inr (seen(ident \<mapsto> kind)))"

text \<open>\<^verbatim>\<open>facts.X++\<close> under a condition.\<close>

definition tick :: "bool \<Rightarrow> u64 \<Rightarrow> u64" where
  "tick b n = (if b then n + 1 else n)"

definition close_invocation :: "Run \<Rightarrow> closure_state \<Rightarrow> InvocationLedger \<Rightarrow> closure_state result" where
  "close_invocation run st l = (case st of (f, seen) \<Rightarrow>
     ensure (ValidateInvocationLedger l) (
     ensure (fail_if (inv_RunID (led_Invocation l) \<noteq> run_RunID run) (Errorf ''ownership graph invocation belongs to another run'')) (
     andThen (unique seen (inv_InvocationID (led_Invocation l)) ''invocation'') (\<lambda>seen.
     Inr (f\<lparr>cf_ActiveInvocationCount := tick (\<not> InvocationStatus_Terminal (inv_Status (led_Invocation l)) \<or>
              \<not> CompensationStatus_Terminal (inv_CompensationStatus (led_Invocation l))) (cf_ActiveInvocationCount f),
            cf_OpenWaitCount := tick (inv_Status (led_Invocation l) = InvocationWaiting) (cf_OpenWaitCount f),
            cf_LiveAttemptCount := foldl (\<lambda>n a. tick (\<not> AttemptStatus_Terminal (att_Status a)) n) (cf_LiveAttemptCount f) (led_Attempts l)\<rparr>,
          seen)))))"

definition close_child :: "Run \<Rightarrow> closure_state \<Rightarrow> Run \<Rightarrow> closure_state result" where
  "close_child run st child = (case st of (f, seen) \<Rightarrow>
     ensure (ValidateRun child) (
     ensure (fail_if ((case run_Parent child of None \<Rightarrow> True | Some p \<Rightarrow> prl_ParentRunID p \<noteq> run_RunID run) \<or> run_RootRunID child \<noteq> run_RootRunID run)
               (Errorf ''ownership graph child link is invalid'')) (
     andThen (unique seen (run_RunID child) ''child run'') (\<lambda>seen.
     Inr (f\<lparr>cf_OpenChildCount := tick (\<not> RunStatus_Terminal (run_Status child)) (cf_OpenChildCount f)\<rparr>, seen)))))"

definition open_effect :: "EffectRecord \<Rightarrow> bool" where
  "open_effect r \<longleftrightarrow> \<not> EffectState_Terminal (eff_State r) \<or> eff_State r = EffectUncertain"

definition open_compensation :: "EffectRecord \<Rightarrow> bool" where
  "open_compensation r \<longleftrightarrow> eff_State r = EffectApplied \<and> ei_Ownership (eff_Intent r) = EffectOwned \<and>
     (case ei_CompensationPolicy (eff_Intent r) of
        CompensationRequired \<Rightarrow> \<not> ClosesRequired (eff_CompensationState r)
      | CompensationBestEffort \<Rightarrow> \<not> EffectCompensationState_Terminal (eff_CompensationState r)
      | _ \<Rightarrow> False)"

definition close_effect :: "Run \<Rightarrow> closure_state \<Rightarrow> EffectRecord \<Rightarrow> closure_state result" where
  "close_effect run st r = (case st of (f, seen) \<Rightarrow>
     ensure (ValidateRecord r) (
     ensure (fail_if (ei_RunID (eff_Intent r) \<noteq> run_RunID run) (Errorf ''ownership graph effect belongs to another run'')) (
     andThen (unique seen (eff_EffectID r) ''effect'') (\<lambda>seen.
     Inr (f\<lparr>cf_OpenEffectCount := tick (open_effect r) (cf_OpenEffectCount f),
            cf_OpenEffectCompensationCount := tick (open_compensation r) (cf_OpenEffectCompensationCount f)\<rparr>, seen)))))"

definition close_runtime :: "Run \<Rightarrow> closure_state \<Rightarrow> RuntimeBinding \<Rightarrow> closure_state result" where
  "close_runtime run st b = (case st of (f, seen) \<Rightarrow>
     ensure (ValidateBinding b) (
     ensure (fail_if (rb_RunID b \<noteq> run_RunID run) (Errorf ''ownership graph runtime belongs to another run'')) (
     andThen (unique seen (rb_BindingID b) ''runtime'') (\<lambda>seen.
     Inr (f\<lparr>cf_OpenOwnedRuntimeCount := tick (rb_Ownership b = EffectOwned \<and> \<not> RuntimeBindingState_Terminal (rb_State b))
              (cf_OpenOwnedRuntimeCount f)\<rparr>, seen)))))"

definition close_resource :: "Run \<Rightarrow> closure_state \<Rightarrow> ResourceOwnershipFact \<Rightarrow> closure_state result" where
  "close_resource run st r = (case st of (f, seen) \<Rightarrow>
     ensure (fail_if (\<not> ValidIdentifier (rof_BindingID r) \<or> rof_RunID r \<noteq> run_RunID run \<or> \<not> EffectOwnership_Valid (rof_Ownership r) \<or>
                      \<not> ResourceBindingState_Valid (rof_State r))
               (Errorf ''ownership graph resource fact is invalid'')) (
     andThen (unique seen (rof_BindingID r) ''resource'') (\<lambda>seen.
     Inr (f\<lparr>cf_OpenOwnedResourceCount := tick (rof_Ownership r = EffectOwned \<and> \<not> ResourceBindingState_Terminal (rof_State r))
              (cf_OpenOwnedResourceCount f)\<rparr>, seen))))"

definition no_facts :: RunClosureFacts where
  "no_facts = \<lparr>cf_RunRevision = 0, cf_OwnershipGraphRevision = 0, cf_ActiveInvocationCount = 0, cf_LiveAttemptCount = 0, cf_OpenWaitCount = 0,
     cf_OpenChildCount = 0, cf_OpenEffectCount = 0, cf_OpenEffectCompensationCount = 0, cf_OpenOwnedRuntimeCount = 0, cf_OpenOwnedResourceCount = 0\<rparr>"

definition DeriveClosureFacts :: "OwnershipClosureBase \<Rightarrow> u64 \<Rightarrow> RunClosureFacts result" where
  "DeriveClosureFacts base graphRevision =
     ensure (fail_if (graphRevision = 0) (Errorf ''ownership graph revision is required'')) (
     ensure (ValidateRun (ocb_Run base)) (
     ensure (fail_if (RunStatus_Terminal (run_Status (ocb_Run base))) (Errorf ''ownership graph closure-base run is already terminal'')) (
     andThen (fold_reduce (close_invocation (ocb_Run base))
                (no_facts\<lparr>cf_RunRevision := run_Revision (ocb_Run base), cf_OwnershipGraphRevision := graphRevision\<rparr>, Map.empty)
                (ocb_Invocations base)) (\<lambda>st.
     andThen (fold_reduce (close_child (ocb_Run base)) st (ocb_ChildRuns base)) (\<lambda>st.
     andThen (fold_reduce (close_effect (ocb_Run base)) st (ocb_Effects base)) (\<lambda>st.
     andThen (fold_reduce (close_runtime (ocb_Run base)) st (ocb_Runtimes base)) (\<lambda>st.
     andThen (fold_reduce (close_resource (ocb_Run base)) st (ocb_Resources base)) (\<lambda>st.
     Inr (fst st)))))))))"

section \<open>The graph\<close>

definition ParentRunLink_json :: "ParentRunLink \<Rightarrow> json" where
  "ParentRunLink_json p = JObj [(''parentRunId'', JStr (prl_ParentRunID p)), (''parentInvocationId'', JStr (prl_ParentInvocationID p)),
     (''callNodeId'', JStr (prl_CallNodeID p)), (''mappingDigest'', JStr (prl_MappingDigest p))]"

definition TerminationIntent_json :: "TerminationIntent \<Rightarrow> json result" where
  "TerminationIntent_json t = andThen (time_json (ti_RequestedAt t)) (\<lambda>requestedAt. Inr (JObj (
     [(''kind'', JStr (TerminationKind_string (ti_Kind t))), (''requestedRevision'', JU64 (ti_RequestedRevision t)),
      (''requestedBy'', JStr (ti_RequestedBy t)), (''reasonCode'', JStr (ti_ReasonCode t))] @
     text_field ''reason'' (ti_Reason t) @ pointer_field ''primaryFailure'' StructuredFailure_json (ti_PrimaryFailure t) @
     [(''commandId'', JStr (ti_CommandID t)), (''requestedAt'', requestedAt)])))"

text \<open>A pointer field with \<^verbatim>\<open>omitempty\<close> whose value may fail to marshal.\<close>

definition optional_json :: "string \<Rightarrow> ('a \<Rightarrow> json result) \<Rightarrow> 'a option \<Rightarrow> (string \<times> json) list result" where
  "optional_json k f p = (case p of None \<Rightarrow> Inr [] | Some x \<Rightarrow> andThen (f x) (\<lambda>v. Inr [(k, v)]))"

definition Run_json :: "Run \<Rightarrow> json result" where
  "Run_json r =
     andThen (optional_json ''termination'' TerminationIntent_json (run_Termination r)) (\<lambda>termination.
     andThen (time_json (run_AcceptedAt r)) (\<lambda>acceptedAt.
     andThen (optional_json ''startedAt'' time_json (run_StartedAt r)) (\<lambda>startedAt.
     andThen (time_json (run_UpdatedAt r)) (\<lambda>updatedAt.
     andThen (optional_json ''finishedAt'' time_json (run_FinishedAt r)) (\<lambda>finishedAt. Inr (JObj (
       [(''runId'', JStr (run_RunID r)), (''namespaceId'', JStr (run_NamespaceID r)), (''actionRef'', ActionRef_json (run_ActionRef r)),
        (''executionPlanRef'', JStr (run_ExecutionPlanRef r)), (''planDigest'', JStr (run_PlanDigest r)),
        (''triggerRef'', JStr (run_TriggerRef r)), (''triggerDigest'', JStr (run_TriggerDigest r)),
        (''inputDigest'', JStr (run_InputDigest r))] @
       text_field ''provenanceArtifactRef'' (run_ProvenanceArtifactRef r) @ text_field ''scopeRef'' (run_ScopeRef r) @
       pointer_field ''parent'' ParentRunLink_json (run_Parent r) @
       [(''rootRunId'', JStr (run_RootRunID r)), (''actorRef'', JStr (run_ActorRef r)), (''sourceRef'', JStr (run_SourceRef r))] @
       text_field ''correlationRef'' (run_CorrelationRef r) @ text_field ''admissionPolicyRef'' (run_AdmissionPolicyRef r) @
       text_field ''admissionPolicyDigest'' (run_AdmissionPolicyDigest r) @ text_field ''activeOwnerRef'' (run_ActiveOwnerRef r) @
       omitempty (run_ActiveOwnerGeneration r \<noteq> 0) ''activeOwnerGeneration'' (JU64 (run_ActiveOwnerGeneration r)) @
       [(''status'', JStr (RunStatus_string (run_Status r)))] @ termination @
       text_field ''terminationKind'' (TerminationKind_string (run_TerminationKind r)) @ text_field ''resultRef'' (run_ResultRef r) @
       pointer_field ''primaryFailure'' StructuredFailure_json (run_PrimaryFailure r) @
       omitempty (run_CleanupFailures r \<noteq> []) ''cleanupFailures'' (JArr (map StructuredFailure_json (run_CleanupFailures r))) @
       [(''acceptedAt'', acceptedAt)] @ startedAt @ [(''updatedAt'', updatedAt)] @ finishedAt @
       [(''revision'', JU64 (run_Revision r))])))))))"

definition run_text :: "Run \<Rightarrow> string result" where
  "run_text r = andThen (Run_json r) Marshal"

definition exactRun :: "Run \<Rightarrow> Run \<Rightarrow> bool" where
  "exactRun l r = (case (run_text l, run_text r) of (Inr a, Inr b) \<Rightarrow> a = b | _ \<Rightarrow> False)"

definition terminal_command :: "Run \<Rightarrow> Run \<Rightarrow> RunClosureFacts \<Rightarrow> RunTransitionCommand" where
  "terminal_command base terminal facts = \<lparr>rtc_RunID = run_RunID base, rtc_ExpectedRevision = run_Revision base, rtc_To = run_Status terminal,
     rtc_Termination = None, rtc_ResultRef = run_ResultRef terminal, rtc_CleanupFailures = run_CleanupFailures terminal, rtc_Closure = facts,
     rtc_CommandID = ''verify-ownership-terminal'', rtc_At = run_UpdatedAt terminal\<rparr>"

definition validateTerminalProjection :: "Run \<Rightarrow> Run \<Rightarrow> RunClosureFacts \<Rightarrow> error option" where
  "validateTerminalProjection base terminal facts = first_error
     [ValidateRun terminal,
      fail_if (\<not> RunStatus_Terminal (run_Status terminal) \<or> run_RunID terminal \<noteq> run_RunID base \<or>
               run_Revision terminal \<noteq> run_Revision base + 1 \<or> Before (run_UpdatedAt terminal) (run_UpdatedAt base))
        (Errorf ''ownership graph terminal run is not the exact next run revision''),
      (case TransitionRun base (terminal_command base terminal facts) of
         Inl e \<Rightarrow> Some e
       | Inr decision \<Rightarrow> fail_if (\<not> exactRun (rd_Run decision) terminal)
           (Errorf ''ownership graph terminal run differs from the proved terminal transition''))]"

definition ClosureFacts :: "OwnershipGraph \<Rightarrow> RunClosureFacts result" where
  "ClosureFacts graph =
     ensure (fail_if (og_SchemaVersion graph \<noteq> OwnershipGraphSchemaVersion \<or> og_Revision graph = 0)
               (Errorf ''ownership graph schema and revision are required'')) (
     andThen (DeriveClosureFacts (og_ClosureBase graph) (og_Revision graph)) (\<lambda>facts.
     ensure (fail_if (facts \<noteq> og_ClosureFacts graph) (Errorf ''persisted closure facts differ from the closure-base proof'')) (
     ensure (fail_if (\<not> Satisfied facts) ErrClosureOpen) (
     ensure (validateTerminalProjection (ocb_Run (og_ClosureBase graph)) (og_TerminalRun graph) facts) (
     Inr facts)))))"

end
