(* ===== verification/Ownership_Claims.thy ===== *)
theory Ownership_Claims
  imports Ownership_Closure
begin

text \<open>
  The closure facts of a Run are exactly the numbers of open members of its ownership graph
  (claims C28 to C30). Every loop of DeriveClosureFacts checks a member, claims its identity
  and updates the counters; the locale states this shape and what such a loop computes.
\<close>

section \<open>Loops over owned members\<close>

locale closure_loop =
  fixes step :: "Run \<Rightarrow> closure_state \<Rightarrow> 'a \<Rightarrow> closure_state result"
    and check :: "Run \<Rightarrow> 'a \<Rightarrow> bool"
    and ident :: "'a \<Rightarrow> string"
    and kind :: string
    and count :: "RunClosureFacts \<Rightarrow> 'a \<Rightarrow> RunClosureFacts"
  assumes step_shape: "step run (f, seen) x = Inr (g, m) \<longleftrightarrow>
    check run x \<and> seen (ident x) = None \<and> g = count f x \<and> m = seen(ident x \<mapsto> kind)"
begin

definition claimed :: "(string \<rightharpoonup> string) \<Rightarrow> 'a list \<Rightarrow> (string \<rightharpoonup> string)" where
  "claimed seen xs = foldl (\<lambda>m x. m(ident x \<mapsto> kind)) seen xs"

lemma dom_claimed: "dom (claimed seen xs) = dom seen \<union> set (map ident xs)"
  by (induction xs arbitrary: seen) (auto simp: claimed_def)

lemma loop_result:
  "fold_reduce (step run) (f, seen) xs = Inr st \<longleftrightarrow>
     (\<forall>x \<in> set xs. check run x) \<and> distinct (map ident xs) \<and> set (map ident xs) \<inter> dom seen = {} \<and>
     st = (foldl count f xs, claimed seen xs)"
proof (induction xs arbitrary: f seen)
  case Nil
  then show ?case by (auto simp: claimed_def)
next
  case (Cons x xs)
  have "fold_reduce (step run) (f, seen) (x # xs) = Inr st \<longleftrightarrow>
      check run x \<and> seen (ident x) = None \<and> fold_reduce (step run) (count f x, seen(ident x \<mapsto> kind)) xs = Inr st"
    by (auto simp: step_shape)
  also have "\<dots> \<longleftrightarrow> (\<forall>y \<in> set (x # xs). check run y) \<and> distinct (map ident (x # xs)) \<and> set (map ident (x # xs)) \<inter> dom seen = {} \<and>
      st = (foldl count f (x # xs), claimed seen (x # xs))"
    unfolding Cons.IH by (auto simp: claimed_def domIff)
  finally show ?case .
qed

end

definition invocation_member :: "Run \<Rightarrow> InvocationLedger \<Rightarrow> bool" where
  "invocation_member run l \<longleftrightarrow> ValidateInvocationLedger l = None \<and> inv_RunID (led_Invocation l) = run_RunID run"

definition child_member :: "Run \<Rightarrow> Run \<Rightarrow> bool" where
  "child_member run child \<longleftrightarrow> ValidateRun child = None \<and> (\<exists>p. run_Parent child = Some p \<and> prl_ParentRunID p = run_RunID run) \<and>
     run_RootRunID child = run_RootRunID run"

definition effect_member :: "Run \<Rightarrow> EffectRecord \<Rightarrow> bool" where
  "effect_member run r \<longleftrightarrow> ValidateRecord r = None \<and> ei_RunID (eff_Intent r) = run_RunID run"

definition runtime_member :: "Run \<Rightarrow> RuntimeBinding \<Rightarrow> bool" where
  "runtime_member run b \<longleftrightarrow> ValidateBinding b = None \<and> rb_RunID b = run_RunID run"

definition resource_member :: "Run \<Rightarrow> ResourceOwnershipFact \<Rightarrow> bool" where
  "resource_member run r \<longleftrightarrow> ValidIdentifier (rof_BindingID r) \<and> rof_RunID r = run_RunID run \<and> EffectOwnership_Valid (rof_Ownership r) \<and>
     ResourceBindingState_Valid (rof_State r)"

text \<open>What is open.\<close>

definition open_invocation :: "InvocationLedger \<Rightarrow> bool" where
  "open_invocation l \<longleftrightarrow> \<not> InvocationStatus_Terminal (inv_Status (led_Invocation l)) \<or>
     \<not> CompensationStatus_Terminal (inv_CompensationStatus (led_Invocation l))"

definition open_wait :: "InvocationLedger \<Rightarrow> bool" where
  "open_wait l \<longleftrightarrow> inv_Status (led_Invocation l) = InvocationWaiting"

definition live_attempt :: "Attempt \<Rightarrow> bool" where
  "live_attempt a \<longleftrightarrow> \<not> AttemptStatus_Terminal (att_Status a)"

definition open_child :: "Run \<Rightarrow> bool" where
  "open_child r \<longleftrightarrow> \<not> RunStatus_Terminal (run_Status r)"

definition open_runtime :: "RuntimeBinding \<Rightarrow> bool" where
  "open_runtime b \<longleftrightarrow> rb_Ownership b = EffectOwned \<and> \<not> RuntimeBindingState_Terminal (rb_State b)"

definition open_resource :: "ResourceOwnershipFact \<Rightarrow> bool" where
  "open_resource r \<longleftrightarrow> rof_Ownership r = EffectOwned \<and> \<not> ResourceBindingState_Terminal (rof_State r)"

definition count_of :: "('a \<Rightarrow> bool) \<Rightarrow> 'a list \<Rightarrow> u64" where
  "count_of p xs = of_nat (length (filter p xs))"

definition count_invocation :: "RunClosureFacts \<Rightarrow> InvocationLedger \<Rightarrow> RunClosureFacts" where
  "count_invocation f l = f\<lparr>cf_ActiveInvocationCount := tick (open_invocation l) (cf_ActiveInvocationCount f),
     cf_OpenWaitCount := tick (open_wait l) (cf_OpenWaitCount f),
     cf_LiveAttemptCount := cf_LiveAttemptCount f + count_of live_attempt (led_Attempts l)\<rparr>"

definition count_child :: "RunClosureFacts \<Rightarrow> Run \<Rightarrow> RunClosureFacts" where
  "count_child f r = f\<lparr>cf_OpenChildCount := tick (open_child r) (cf_OpenChildCount f)\<rparr>"

definition count_effect :: "RunClosureFacts \<Rightarrow> EffectRecord \<Rightarrow> RunClosureFacts" where
  "count_effect f r = f\<lparr>cf_OpenEffectCount := tick (open_effect r) (cf_OpenEffectCount f),
     cf_OpenEffectCompensationCount := tick (open_compensation r) (cf_OpenEffectCompensationCount f)\<rparr>"

definition count_runtime :: "RunClosureFacts \<Rightarrow> RuntimeBinding \<Rightarrow> RunClosureFacts" where
  "count_runtime f b = f\<lparr>cf_OpenOwnedRuntimeCount := tick (open_runtime b) (cf_OpenOwnedRuntimeCount f)\<rparr>"

definition count_resource :: "RunClosureFacts \<Rightarrow> ResourceOwnershipFact \<Rightarrow> RunClosureFacts" where
  "count_resource f r = f\<lparr>cf_OpenOwnedResourceCount := tick (open_resource r) (cf_OpenOwnedResourceCount f)\<rparr>"

lemma tick_loop: "foldl (\<lambda>n x. tick (p x) n) n xs = n + count_of p xs"
  by (induction xs arbitrary: n) (simp_all add: tick_def count_of_def)

lemma count_of_simps [simp]: "count_of p [] = 0" "count_of p (x # xs) = (if p x then 1 else 0) + count_of p xs"
  by (simp_all add: count_of_def)

lemma unique_Inr [simp]: "unique seen i k = Inr m \<longleftrightarrow> seen i = None \<and> m = seen(i \<mapsto> k)"
  by (auto simp: unique_def split: option.splits)

interpretation inv_loop: closure_loop close_invocation invocation_member "\<lambda>l. inv_InvocationID (led_Invocation l)" "''invocation''" count_invocation
  by unfold_locales (auto simp: close_invocation_def invocation_member_def count_invocation_def open_invocation_def open_wait_def
      live_attempt_def [abs_def] tick_loop)

interpretation child_loop: closure_loop close_child child_member run_RunID "''child run''" count_child
  by unfold_locales (auto simp: close_child_def child_member_def count_child_def open_child_def split: option.splits)

interpretation effect_loop: closure_loop close_effect effect_member eff_EffectID "''effect''" count_effect
  by unfold_locales (auto simp: close_effect_def effect_member_def count_effect_def)

interpretation runtime_loop: closure_loop close_runtime runtime_member rb_BindingID "''runtime''" count_runtime
  by unfold_locales (auto simp: close_runtime_def runtime_member_def count_runtime_def open_runtime_def)

interpretation resource_loop: closure_loop close_resource resource_member rof_BindingID "''resource''" count_resource
  by unfold_locales (auto simp: close_resource_def resource_member_def count_resource_def open_resource_def)

section \<open>The specification\<close>

definition owned_ids :: "OwnershipClosureBase \<Rightarrow> string list" where
  "owned_ids base = map (\<lambda>l. inv_InvocationID (led_Invocation l)) (ocb_Invocations base) @ map run_RunID (ocb_ChildRuns base) @
     map eff_EffectID (ocb_Effects base) @ map rb_BindingID (ocb_Runtimes base) @ map rof_BindingID (ocb_Resources base)"

definition members_valid :: "OwnershipClosureBase \<Rightarrow> bool" where
  "members_valid base \<longleftrightarrow> (\<forall>x \<in> set (ocb_Invocations base). invocation_member (ocb_Run base) x) \<and>
     (\<forall>x \<in> set (ocb_ChildRuns base). child_member (ocb_Run base) x) \<and> (\<forall>x \<in> set (ocb_Effects base). effect_member (ocb_Run base) x) \<and>
     (\<forall>x \<in> set (ocb_Runtimes base). runtime_member (ocb_Run base) x) \<and> (\<forall>x \<in> set (ocb_Resources base). resource_member (ocb_Run base) x)"

definition live_attempts :: "OwnershipClosureBase \<Rightarrow> Attempt list" where
  "live_attempts base = concat (map led_Attempts (ocb_Invocations base))"

definition counted_facts :: "OwnershipClosureBase \<Rightarrow> u64 \<Rightarrow> RunClosureFacts" where
  "counted_facts base revision = \<lparr>cf_RunRevision = run_Revision (ocb_Run base), cf_OwnershipGraphRevision = revision,
     cf_ActiveInvocationCount = count_of open_invocation (ocb_Invocations base), cf_LiveAttemptCount = count_of live_attempt (live_attempts base),
     cf_OpenWaitCount = count_of open_wait (ocb_Invocations base), cf_OpenChildCount = count_of open_child (ocb_ChildRuns base),
     cf_OpenEffectCount = count_of open_effect (ocb_Effects base),
     cf_OpenEffectCompensationCount = count_of open_compensation (ocb_Effects base),
     cf_OpenOwnedRuntimeCount = count_of open_runtime (ocb_Runtimes base), cf_OpenOwnedResourceCount = count_of open_resource (ocb_Resources base)\<rparr>"

lemma count_of_append: "count_of p (xs @ ys) = count_of p xs + count_of p ys"
  by (simp add: count_of_def)

lemma count_loops:
  "foldl count_invocation f ls = f\<lparr>cf_ActiveInvocationCount := cf_ActiveInvocationCount f + count_of open_invocation ls,
     cf_OpenWaitCount := cf_OpenWaitCount f + count_of open_wait ls,
     cf_LiveAttemptCount := cf_LiveAttemptCount f + count_of live_attempt (concat (map led_Attempts ls))\<rparr>"
  "foldl count_child f rs = f\<lparr>cf_OpenChildCount := cf_OpenChildCount f + count_of open_child rs\<rparr>"
  "foldl count_effect f es = f\<lparr>cf_OpenEffectCount := cf_OpenEffectCount f + count_of open_effect es,
     cf_OpenEffectCompensationCount := cf_OpenEffectCompensationCount f + count_of open_compensation es\<rparr>"
  "foldl count_runtime f bs = f\<lparr>cf_OpenOwnedRuntimeCount := cf_OpenOwnedRuntimeCount f + count_of open_runtime bs\<rparr>"
  "foldl count_resource f qs = f\<lparr>cf_OpenOwnedResourceCount := cf_OpenOwnedResourceCount f + count_of open_resource qs\<rparr>"
proof -
  show "foldl count_invocation f ls = f\<lparr>cf_ActiveInvocationCount := cf_ActiveInvocationCount f + count_of open_invocation ls,
     cf_OpenWaitCount := cf_OpenWaitCount f + count_of open_wait ls,
     cf_LiveAttemptCount := cf_LiveAttemptCount f + count_of live_attempt (concat (map led_Attempts ls))\<rparr>"
    by (induction ls arbitrary: f) (simp_all add: count_invocation_def tick_def count_of_append add.assoc)
  show "foldl count_child f rs = f\<lparr>cf_OpenChildCount := cf_OpenChildCount f + count_of open_child rs\<rparr>"
    by (induction rs arbitrary: f) (simp_all add: count_child_def tick_def add.assoc)
  show "foldl count_effect f es = f\<lparr>cf_OpenEffectCount := cf_OpenEffectCount f + count_of open_effect es,
     cf_OpenEffectCompensationCount := cf_OpenEffectCompensationCount f + count_of open_compensation es\<rparr>"
    by (induction es arbitrary: f) (simp_all add: count_effect_def tick_def add.assoc)
  show "foldl count_runtime f bs = f\<lparr>cf_OpenOwnedRuntimeCount := cf_OpenOwnedRuntimeCount f + count_of open_runtime bs\<rparr>"
    by (induction bs arbitrary: f) (simp_all add: count_runtime_def tick_def add.assoc)
  show "foldl count_resource f qs = f\<lparr>cf_OpenOwnedResourceCount := cf_OpenOwnedResourceCount f + count_of open_resource qs\<rparr>"
    by (induction qs arbitrary: f) (simp_all add: count_resource_def tick_def add.assoc)
qed

text \<open>
  C28: deriving the closure facts implements its specification. It succeeds exactly when the
  graph revision is set, the Run is valid and not terminal, every member is valid and belongs
  to the Run, and no identity is used twice across all kinds of members; the facts are then
  the numbers of open members of each kind.
\<close>

theorem closure_facts_refine_counts:
  "DeriveClosureFacts base g = Inr f \<longleftrightarrow>
     g \<noteq> 0 \<and> ValidateRun (ocb_Run base) = None \<and> \<not> RunStatus_Terminal (run_Status (ocb_Run base)) \<and>
     members_valid base \<and> distinct (owned_ids base) \<and> f = counted_facts base g"
  unfolding DeriveClosureFacts_def
  by (auto simp: inv_loop.loop_result child_loop.loop_result effect_loop.loop_result runtime_loop.loop_result resource_loop.loop_result
      inv_loop.dom_claimed child_loop.dom_claimed effect_loop.dom_claimed runtime_loop.dom_claimed count_loops members_valid_def owned_ids_def
      counted_facts_def no_facts_def live_attempts_def)

lemma derive_Inr: "DeriveClosureFacts base g = Inr f \<Longrightarrow> f = counted_facts base g"
  unfolding DeriveClosureFacts_def
  by (auto simp: inv_loop.loop_result child_loop.loop_result effect_loop.loop_result runtime_loop.loop_result resource_loop.loop_result
      count_loops counted_facts_def no_facts_def live_attempts_def)

section \<open>What satisfied facts mean\<close>

definition nothing_open :: "OwnershipClosureBase \<Rightarrow> bool" where
  "nothing_open base \<longleftrightarrow>
     (\<forall>l \<in> set (ocb_Invocations base).
       (inv_Status (led_Invocation l) \<in> {InvocationSucceeded, InvocationFailed, InvocationCanceled, InvocationSkipped} \<and>
        inv_CompensationStatus (led_Invocation l) \<in> {CompensationNotRequired, CompensationSucceeded, CompensationFailed, CompensationCanceled}) \<and>
       (\<forall>a \<in> set (led_Attempts l). att_Status a \<in> {AttemptSucceeded, AttemptFailed, AttemptCanceled, AttemptAbandoned})) \<and>
     (\<forall>r \<in> set (ocb_ChildRuns base). run_Status r \<in> {RunSucceeded, RunFailed, RunCanceled, RunStopped, RunRejected}) \<and>
     (\<forall>e \<in> set (ocb_Effects base). eff_State e \<in> {EffectApplied, EffectFailed, EffectCanceled} \<and>
        (eff_State e = EffectApplied \<and> ei_Ownership (eff_Intent e) = EffectOwned \<longrightarrow>
           (ei_CompensationPolicy (eff_Intent e) = CompensationRequired \<longrightarrow>
              eff_CompensationState e \<in> {EffectCompensationSucceeded, EffectCompensationReconciled}) \<and>
           (ei_CompensationPolicy (eff_Intent e) = CompensationBestEffort \<longrightarrow> EffectCompensationState_Terminal (eff_CompensationState e)))) \<and>
     (\<forall>b \<in> set (ocb_Runtimes base). rb_Ownership b = EffectOwned \<longrightarrow> rb_State b \<in> {RuntimeBindingReleased, RuntimeBindingLost}) \<and>
     (\<forall>q \<in> set (ocb_Resources base). rof_Ownership q = EffectOwned \<longrightarrow> rof_State q \<in> {ResourceBindingReleased, ResourceBindingLost})"

lemma closed_members:
  "\<not> open_invocation l \<and> \<not> open_wait l \<longleftrightarrow>
     inv_Status (led_Invocation l) \<in> {InvocationSucceeded, InvocationFailed, InvocationCanceled, InvocationSkipped} \<and>
     inv_CompensationStatus (led_Invocation l) \<in> {CompensationNotRequired, CompensationSucceeded, CompensationFailed, CompensationCanceled}"
  "\<not> live_attempt a \<longleftrightarrow> att_Status a \<in> {AttemptSucceeded, AttemptFailed, AttemptCanceled, AttemptAbandoned}"
  "\<not> open_child r \<longleftrightarrow> run_Status r \<in> {RunSucceeded, RunFailed, RunCanceled, RunStopped, RunRejected}"
  "\<not> open_effect e \<longleftrightarrow> eff_State e \<in> {EffectApplied, EffectFailed, EffectCanceled}"
  "\<not> open_compensation e \<longleftrightarrow> (eff_State e = EffectApplied \<and> ei_Ownership (eff_Intent e) = EffectOwned \<longrightarrow>
     (ei_CompensationPolicy (eff_Intent e) = CompensationRequired \<longrightarrow> eff_CompensationState e \<in> {EffectCompensationSucceeded, EffectCompensationReconciled}) \<and>
     (ei_CompensationPolicy (eff_Intent e) = CompensationBestEffort \<longrightarrow> EffectCompensationState_Terminal (eff_CompensationState e)))"
  "\<not> open_runtime b \<longleftrightarrow> (rb_Ownership b = EffectOwned \<longrightarrow> rb_State b \<in> {RuntimeBindingReleased, RuntimeBindingLost})"
  "\<not> open_resource q \<longleftrightarrow> (rof_Ownership q = EffectOwned \<longrightarrow> rof_State q \<in> {ResourceBindingReleased, ResourceBindingLost})"
        apply (auto simp: open_invocation_def open_wait_def InvocationStatus_Terminal_def CompensationStatus_Terminal_def)[1]
       apply (auto simp: live_attempt_def AttemptStatus_Terminal_def)[1]
      apply (auto simp: open_child_def RunStatus_Terminal_def)[1]
     apply (auto simp: open_effect_def EffectState_Terminal_def)[1]
    apply (auto simp: open_compensation_def ClosesRequired_def split: CompensationPolicy.splits)[1]
   apply (auto simp: open_runtime_def RuntimeBindingState_Terminal_def)[1]
  apply (auto simp: open_resource_def ResourceBindingState_Terminal_def)
  done

lemma count_of_zero:
  assumes "length xs < 2 ^ 64"
  shows "count_of p xs = 0 \<longleftrightarrow> (\<forall>x \<in> set xs. \<not> p x)"
proof -
  have "length (filter p xs) < 2 ^ 64" using length_filter_le [of p xs] assms by linarith
  then have "unat (count_of p xs) = length (filter p xs)" by (simp add: count_of_def unat_of_nat)
  then show ?thesis by (metis filter_empty_conv length_0_conv unat_0 unat_eq_zero)
qed

lemma satisfied_counts:
  assumes "length (owned_ids base) + length (live_attempts base) < 2 ^ 64"
  shows "Satisfied (counted_facts base g) \<longleftrightarrow> nothing_open base"
proof -
  have n: "length (ocb_Invocations base) < 2 ^ 64" "length (live_attempts base) < 2 ^ 64" "length (ocb_ChildRuns base) < 2 ^ 64"
    "length (ocb_Effects base) < 2 ^ 64" "length (ocb_Runtimes base) < 2 ^ 64" "length (ocb_Resources base) < 2 ^ 64"
    using assms by (simp_all add: owned_ids_def)
  show ?thesis
    unfolding Satisfied_def counted_facts_def nothing_open_def closed_members [symmetric]
    by (simp add: count_of_zero [OF n(1)] count_of_zero [OF n(2)] count_of_zero [OF n(3)] count_of_zero [OF n(4)] count_of_zero [OF n(5)]
        count_of_zero [OF n(6)]) (auto simp: live_attempts_def)
qed

text \<open>
  C29: satisfied closure facts mean that nothing is open. For a graph of fewer than 2^64
  members, the derived facts are satisfied exactly when every invocation and its compensation
  have ended and no attempt of it is live, every child Run has ended, every effect is settled
  and, where it is owned and applied, compensated as its policy demands, and every owned
  runtime and resource binding has been released or lost.
\<close>

theorem satisfied_facts_close_everything:
  assumes "DeriveClosureFacts base g = Inr f" and "length (owned_ids base) + length (live_attempts base) < 2 ^ 64"
  shows "Satisfied f \<longleftrightarrow> nothing_open base"
proof -
  have "f = counted_facts base g"
    using assms(1) by (rule derive_Inr)
  then show ?thesis using satisfied_counts [OF assms(2)] by simp
qed

text \<open>The outcome that a Run may end with, given what it has frozen.\<close>

definition frozen_outcome :: "Run \<Rightarrow> RunStatus \<Rightarrow> bool" where
  "frozen_outcome base s \<longleftrightarrow> (case run_Termination base of
     Some i \<Rightarrow> s = terminalStatus (ti_Kind i) | None \<Rightarrow> s = RunSucceeded \<or> s = RunRejected)"

lemma terminal_outcome:
  assumes "validateRunCommand r c = None" and "RunStatus_Terminal (rtc_To c)"
  shows "frozen_outcome r (rtc_To c)" and "Satisfied (rtc_Closure c)"
proof -
  note v = assms(1) [unfolded validateRunCommand_iff]
  have g: "validateRunTransitionGuards r c = None" and e: "ValidateRunTransition (run_Status r) (rtc_To c) = None"
    and f: "validate_frozen r = None" and live: "\<not> RunStatus_Terminal (run_Status r)"
    using v ValidateRun_D(3) by blast+
  show "Satisfied (rtc_Closure c)" by (rule guards_terminal(1) [OF g assms(2)])
  show "frozen_outcome r (rtc_To c)"
  proof (cases "run_Termination r")
    case None
    then have "run_Status r \<noteq> RunStopping" using guards_terminal(4) [OF g assms(2)] by auto
    then show ?thesis using e assms(2) None by (auto simp: ValidateRunTransition_iff frozen_outcome_def)
  next
    case (Some i)
    then have "run_Status r = RunStopping" using validate_frozen_D(2) [OF f] live by blast
    then show ?thesis using guards_terminal(4) [OF g assms(2)] Some by (auto simp: frozen_outcome_def)
  qed
qed

text \<open>
  C30: a graph that verifies is a proof that the Run ended cleanly. Nothing the Run owned was
  open in the recorded snapshot, the persisted facts are the derived ones, the recorded
  terminal Run is the next revision with the outcome the Run had frozen, and it has the
  canonical bytes of the Run that the terminal transition produces from the snapshot.
\<close>

theorem verified_graph_proves_closure:
  assumes "ClosureFacts graph = Inr f"
    and "length (owned_ids (og_ClosureBase graph)) + length (live_attempts (og_ClosureBase graph)) < 2 ^ 64"
  shows "nothing_open (og_ClosureBase graph) \<and> og_ClosureFacts graph = counted_facts (og_ClosureBase graph) (og_Revision graph) \<and>
    run_Revision (og_TerminalRun graph) = run_Revision (ocb_Run (og_ClosureBase graph)) + 1 \<and>
    frozen_outcome (ocb_Run (og_ClosureBase graph)) (run_Status (og_TerminalRun graph)) \<and>
    (\<exists>d x. TransitionRun (ocb_Run (og_ClosureBase graph))
         (terminal_command (ocb_Run (og_ClosureBase graph)) (og_TerminalRun graph) f) = Inr d \<and>
       run_text (rd_Run d) = Inr x \<and> run_text (og_TerminalRun graph) = Inr x)"
proof -
  let ?b = "og_ClosureBase graph" and ?t = "og_TerminalRun graph"
  let ?c = "terminal_command (ocb_Run ?b) ?t f"
  have g: "DeriveClosureFacts ?b (og_Revision graph) = Inr f" "f = og_ClosureFacts graph" "Satisfied f"
    and v: "validateTerminalProjection (ocb_Run ?b) ?t f = None"
    using assms(1) by (auto simp: ClosureFacts_def)
  have f: "f = counted_facts ?b (og_Revision graph)" using g(1) by (rule derive_Inr)
  have t: "RunStatus_Terminal (run_Status ?t)" "run_Revision ?t = run_Revision (ocb_Run ?b) + 1"
    using v by (simp_all add: validateTerminalProjection_def)
  obtain d where d: "TransitionRun (ocb_Run ?b) ?c = Inr d" "exactRun (rd_Run d) ?t"
    using v by (auto simp: validateTerminalProjection_def split: sum.splits)
  have to: "rtc_To ?c = run_Status ?t" by (simp add: terminal_command_def)
  have o: "frozen_outcome (ocb_Run ?b) (run_Status ?t)"
    using terminal_outcome(1) [OF TransitionRun_Inr(1) [OF d(1)], unfolded to, OF t(1)] .
  have "\<exists>x. run_text (rd_Run d) = Inr x \<and> run_text ?t = Inr x" using d(2) by (auto simp: exactRun_def split: sum.splits)
  then show ?thesis using g(2,3) f t(2) o d(1) satisfied_counts [OF assms(2), of "og_Revision graph"] by simp
qed

lemma next_run_terminal:
  assumes "RunStatus_Terminal (rtc_To c)" and "rtc_To e = rtc_To c" and "rtc_At e = rtc_At c" and "rtc_CleanupFailures e = rtc_CleanupFailures c"
    and "rtc_To c = RunSucceeded \<Longrightarrow> rtc_ResultRef e = rtc_ResultRef c"
  shows "next_run r e = next_run r c"
proof -
  have ns: "rtc_To c \<noteq> RunStopping" "rtc_To c \<noteq> RunRunning" using assms(1) by auto
  have "publish_run e = publish_run c" using assms(2,5) by (auto simp: publish_run_def)
  moreover have "advance_run e = advance_run c" "start_run e = start_run c" "freeze_run e = freeze_run c" "finish_run e = finish_run c"
    using assms(2-4) ns by (auto simp: advance_run_def start_run_def freeze_run_def finish_run_def)
  ultimately show ?thesis by (simp add: next_run_def)
qed

lemma newEvent_other_command:
  "newEvent ty agg rv et cmd at p = Inr e \<Longrightarrow> ValidIdentifier cmd' \<Longrightarrow> \<exists>e'. newEvent ty agg rv et cmd' at p = Inr e'"
  by (auto simp: newEvent_def)

lemma TransitionRun_terminal_again:
  assumes "TransitionRun r c = Inr d" and "RunStatus_Terminal (rtc_To c)" and "ValidIdentifier (rtc_CommandID e)"
    and "rtc_RunID e = rtc_RunID c" "rtc_ExpectedRevision e = rtc_ExpectedRevision c" "rtc_To e = rtc_To c" "rtc_At e = rtc_At c"
      "rtc_CleanupFailures e = rtc_CleanupFailures c" "rtc_Closure e = rtc_Closure c" "rtc_Termination e = None"
    and "rtc_To c = RunSucceeded \<Longrightarrow> rtc_ResultRef e = rtc_ResultRef c"
  shows "\<exists>d'. TransitionRun r e = Inr d' \<and> rd_Run d' = rd_Run d"
proof -
  note k = TransitionRun_Inr [OF assms(1)]
  have n: "next_run r e = next_run r c" by (rule next_run_terminal [OF assms(2,6,7,8,11)])
  have ns: "rtc_To c \<noteq> RunStopping" using assms(2) by auto
  note v = k(1) [unfolded validateRunCommand_iff]
  have g: "validateRunTransitionGuards r c = None" using v by blast
  have "validateRunTransitionGuards r e = None"
    using g assms(2,6,9,10,11) ns guards_terminal(3) [OF g assms(2)]
    unfolding validateRunTransitionGuards_def assms(6,9,10) by simp
  then have c: "validateRunCommand r e = None" using v assms(3-9) unfolding validateRunCommand_iff by simp
  have i: "run_intents e (next_run r e) = Inr []" using ns assms(6) by (auto simp: run_intents_def split: option.splits)
  obtain x where "newEvent ''run'' (run_RunID (next_run r c)) (run_Revision (next_run r c))
      (''run.'' @ RunStatus_string (rtc_To c)) (rtc_CommandID c) (rtc_At c)
      [(''from'', JStr (RunStatus_string (run_Status r))), (''to'', JStr (RunStatus_string (rtc_To c))),
       (''terminationKind'', JStr (TerminationKind_string (run_TerminationKind (next_run r c))))] = Inr x"
    using assms(1) by (auto simp: TransitionRun_def)
  from newEvent_other_command [OF this assms(3)] obtain y where "newEvent ''run'' (run_RunID (next_run r e)) (run_Revision (next_run r e))
      (''run.'' @ RunStatus_string (rtc_To e)) (rtc_CommandID e) (rtc_At e)
      [(''from'', JStr (RunStatus_string (run_Status r))), (''to'', JStr (RunStatus_string (rtc_To e))),
       (''terminationKind'', JStr (TerminationKind_string (run_TerminationKind (next_run r e))))] = Inr y"
    unfolding n assms(6,7) by blast
  then have "TransitionRun r e = Inr \<lparr>rd_Run = next_run r e, rd_Events = [y], rd_Intents = []\<rparr>"
    using c i k(3) n unfolding TransitionRun_def by simp
  then show ?thesis using n k(2) by simp
qed

lemma graph_verifies:
  assumes "DeriveClosureFacts base g = Inr f" and "TransitionRun (ocb_Run base) c = Inr d" and "RunStatus_Terminal (rtc_To c)"
    and "rtc_Closure c = f" and "run_text (rd_Run d) = Inr x"
  shows "ClosureFacts \<lparr>og_SchemaVersion = OwnershipGraphSchemaVersion, og_Revision = g, og_ClosureBase = base, og_ClosureFacts = f,
    og_TerminalRun = rd_Run d\<rparr> = Inr f"
proof -
  let ?r = "ocb_Run base" and ?t = "rd_Run d"
  let ?c = "terminal_command ?r ?t f"
  note k = TransitionRun_Inr [OF assms(2)]
  have t: "run_Status ?t = rtc_To c" "run_Revision ?t = run_Revision ?r + 1" "run_UpdatedAt ?t = rtc_At c" by (simp_all add: k(2))
  have cl: "run_CleanupFailures ?t = rtc_CleanupFailures c" using assms(3) by (simp add: k(2) next_run_def finish_run_def)
  have rr: "rtc_To c = RunSucceeded \<Longrightarrow> run_ResultRef ?t = rtc_ResultRef c"
    by (simp add: k(2) next_run_def finish_run_def adopt_termination_def publish_run_def split: option.splits)
  have id: "run_RunID ?t = run_RunID ?r" by (simp add: k(2) next_run_defs split: option.splits)
  note v = k(1) [unfolded validateRunCommand_iff]
  have "ValidIdentifier ''verify-ownership-terminal''" by (simp add: text_eval)
  then obtain d' where d': "TransitionRun ?r ?c = Inr d'" "rd_Run d' = ?t"
    using TransitionRun_terminal_again [OF assms(2,3), of ?c] v t cl rr assms(4) by (auto simp: terminal_command_def)
  have "Satisfied f" using terminal_outcome(2) [OF k(1) assms(3)] assms(4) by simp
  moreover have "validateTerminalProjection ?r ?t f = None"
    using d' k(2,3) t id v assms(3,5) by (simp add: validateTerminalProjection_def exactRun_def)
  moreover have "g \<noteq> 0" using assms(1) by (simp add: DeriveClosureFacts_def)
  ultimately show ?thesis using assms(1) by (simp add: ClosureFacts_def)
qed

text \<open>
  Every clean end can be recorded. If the facts derived from a snapshot let the Run make
  a terminal transition, and the resulting Run has canonical bytes, then the graph made of the
  snapshot, the facts and the resulting Run verifies.
\<close>

theorem terminal_transition_verifies:
  assumes "DeriveClosureFacts base g = Inr f" and "TransitionRun (ocb_Run base) c = Inr d" and "RunStatus_Terminal (rtc_To c)"
    and "rtc_Closure c = f" and "run_text (rd_Run d) = Inr x"
  shows "ClosureFacts \<lparr>og_SchemaVersion = OwnershipGraphSchemaVersion, og_Revision = g, og_ClosureBase = base, og_ClosureFacts = f,
    og_TerminalRun = rd_Run d\<rparr> = Inr f"
  by (rule graph_verifies [OF assms])

section \<open>A concrete graph\<close>

definition sample_resource :: ResourceOwnershipFact where
  "sample_resource = \<lparr>rof_BindingID = ''dock-1'', rof_RunID = ''run-1'', rof_Ownership = EffectOwned, rof_State = ResourceBindingReleased\<rparr>"

definition sample_base :: OwnershipClosureBase where
  "sample_base = \<lparr>ocb_Run = sample_running, ocb_Invocations = [], ocb_ChildRuns = [], ocb_Effects = [], ocb_Runtimes = [],
     ocb_Resources = [sample_resource]\<rparr>"

definition sample_facts :: RunClosureFacts where "sample_facts = counted_facts sample_base 1"

definition sample_close :: RunTransitionCommand where "sample_close = sample_success\<lparr>rtc_Closure := sample_facts\<rparr>"

lemma sample_running_fields: "run_RunID sample_running = ''run-1''" "run_Status sample_running = RunRunning" "run_Revision sample_running = 2"
  by (simp_all add: sample_running_run sample_run_def admitted_run_def sample_admission_def)

lemma sample_derived: "DeriveClosureFacts sample_base 1 = Inr sample_facts"
proof -
  have "ValidateRun sample_running = None" using run_reduce_Inr(3) [OF sample_start_accepted] .
  moreover have "ValidIdentifier ''dock-1''" by (simp add: text_eval)
  ultimately show ?thesis
    by (simp add: DeriveClosureFacts_def sample_base_def close_resource_def sample_resource_def sample_running_fields EffectOwnership_Valid_def
        ResourceBindingState_Valid_def ResourceBindingState_Terminal_def unique_def tick_def no_facts_def sample_facts_def counted_facts_def
        live_attempts_def open_resource_def)
qed

lemma sample_facts_satisfied: "Satisfied sample_facts" "cf_RunRevision sample_facts = 2"
  by (simp_all add: sample_facts_def counted_facts_def Satisfied_def sample_base_def sample_resource_def live_attempts_def open_resource_def
      ResourceBindingState_Terminal_def sample_running_fields)

definition sample_ended :: Run where "sample_ended = next_run sample_running sample_success"

lemma sample_close_accepted: "\<exists>d. TransitionRun sample_running sample_close = Inr d \<and> rd_Run d = sample_ended"
proof -
  obtain t where "run_reduce sample_running sample_success = Inr t" using sample_success_accepted by blast
  then obtain d where d: "TransitionRun sample_running sample_success = Inr d" by (auto simp: run_reduce_def)
  note k = TransitionRun_Inr [OF d]
  have c: "rtc_To sample_close = RunSucceeded" "rtc_To sample_success = RunSucceeded" "rtc_ResultRef sample_success = ''result-1''"
    "rtc_Termination sample_success = None"
    by (simp_all add: sample_close_def sample_success_def run_command_def)
  have n: "next_run sample_running sample_close = sample_ended"
    unfolding sample_ended_def by (rule next_run_terminal) (simp_all add: sample_close_def c)
  have "validateRunTransitionGuards sample_running sample_close = None"
    using sample_facts_satisfied by (simp add: validateRunTransitionGuards_def c) (simp add: sample_close_def c sample_running_fields)
  then have v: "validateRunCommand sample_running sample_close = None"
    using k(1) sample_facts_satisfied(2) unfolding validateRunCommand_iff by (simp add: sample_close_def sample_running_fields c)
  have "run_reduce sample_running sample_close = Inr (next_run sample_running sample_close)"
  proof (rule TransitionRun_accepts [OF v])
    show "ValidateRun (next_run sample_running sample_close) = None" using k(3) unfolding n sample_ended_def .
    show "TerminationKind_Valid (run_TerminationKind sample_running) \<or> run_TerminationKind sample_running = TerminationKindOther []"
      by (simp add: sample_running_run sample_run_def admitted_run_def)
  qed
  then show ?thesis unfolding n by (auto simp: run_reduce_def)
qed

lemma sample_ended_text: "\<exists>x. run_text sample_ended = Inr x"
proof -
  have t: "time_json 5 = Inr (JStr ''0001-01-01T00:00:00.000000005Z'')" by code_simp
  have e: "sample_ended = sample_run\<lparr>run_Status := RunSucceeded, run_Revision := 3, run_StartedAt := Some 5, run_FinishedAt := Some 5,
      run_TerminationKind := TerminationCompleted, run_ResultRef := ''result-1''\<rparr>"
    by (simp add: sample_ended_def sample_success_def sample_running_run sample_run_defs)
  have "\<exists>v. Run_json sample_ended = Inr v \<and> json_plain v \<and> json_bound v \<le> 100000 \<and> json_height v \<le> 128"
    using ValidDigest_text [OF sample_digest_valid] JU64_bound [of 3]
    by (simp add: e sample_run_def admitted_run_def sample_admission_def Run_json_def optional_json_def t text_field_def pointer_field_def omitempty_def
        ActionRef_json_def RunStatus_string_def TerminationKind_string_def ascii_def)
  then show ?thesis using Marshal_plain unfolding run_text_def by fastforce
qed

section \<open>Witnesses\<close>

theorem satisfied_facts_close_everything_witness: "Satisfied sample_facts \<and> nothing_open sample_base"
  using satisfied_facts_close_everything [OF sample_derived] sample_facts_satisfied(1)
  by (simp add: owned_ids_def live_attempts_def sample_base_def)

definition sample_graph :: OwnershipGraph where
  "sample_graph = \<lparr>og_SchemaVersion = OwnershipGraphSchemaVersion, og_Revision = 1, og_ClosureBase = sample_base, og_ClosureFacts = sample_facts,
     og_TerminalRun = sample_ended\<rparr>"

lemma sample_graph_parts:
  "\<exists>d x. TransitionRun (ocb_Run sample_base) sample_close = Inr d \<and> rd_Run d = sample_ended \<and> run_text sample_ended = Inr x"
  "RunStatus_Terminal (rtc_To sample_close)" "rtc_Closure sample_close = sample_facts"
  using sample_close_accepted sample_ended_text by (simp_all add: sample_base_def sample_close_def sample_success_def run_command_def)

theorem terminal_transition_verifies_witness: "ClosureFacts sample_graph = Inr sample_facts"
proof -
  obtain d x where d: "TransitionRun (ocb_Run sample_base) sample_close = Inr d" "rd_Run d = sample_ended" "run_text sample_ended = Inr x"
    using sample_graph_parts(1) by blast
  show ?thesis
    using terminal_transition_verifies [OF sample_derived d(1) sample_graph_parts(2,3)] d by (simp add: sample_graph_def)
qed

lemma sample_graph_verifies: "ClosureFacts sample_graph = Inr sample_facts"
proof -
  obtain d x where d: "TransitionRun (ocb_Run sample_base) sample_close = Inr d" "rd_Run d = sample_ended" "run_text sample_ended = Inr x"
    using sample_graph_parts(1) by blast
  show ?thesis using graph_verifies [OF sample_derived d(1) sample_graph_parts(2,3)] d by (simp add: sample_graph_def)
qed

theorem verified_graph_proves_closure_witness:
  "nothing_open sample_base \<and> frozen_outcome sample_running (run_Status sample_ended)"
proof -
  have f: "og_ClosureBase sample_graph = sample_base" "og_TerminalRun sample_graph = sample_ended" "ocb_Run sample_base = sample_running"
    by (simp_all add: sample_graph_def sample_base_def)
  have "length (owned_ids sample_base) + length (live_attempts sample_base) < 2 ^ 64"
    by (simp add: owned_ids_def live_attempts_def sample_base_def)
  then show ?thesis using verified_graph_proves_closure [OF sample_graph_verifies, unfolded f] by blast
qed

end
