(* ===== verification/Journal_Frame.thy ===== *)
theory Journal_Frame
  imports Exec_Identity
begin

text \<open>
  Package durable/filestore (filestore.go), the journal: the checksummed frame of one
  checkpoint, the recovery loop over a file of frames, and appending to or compacting the
  file. Bytes are \<open>u8\<close> words. What recovery makes of a payload (strict JSON decoding and
  state validation) is the argument \<open>dec\<close>.
\<close>

section \<open>Frames\<close>

definition frameFormatVersion :: nat where "frameFormatVersion = 3"
definition frameHeader :: nat where "frameHeader = 96"
definition frameFooter :: nat where "frameFooter = 128"
definition maxFrameBytes :: nat where "maxFrameBytes = 256 * 2 ^ 20"
definition retainedFrameBudget :: nat where "retainedFrameBudget = 4"
definition maxEncodedFrameBytes :: nat where "maxEncodedFrameBytes = frameHeader + maxFrameBytes + frameFooter"
definition maxJournalBytes :: nat where "maxJournalBytes = maxEncodedFrameBytes"
definition maxRecoveryBytes :: nat where "maxRecoveryBytes = maxEncodedFrameBytes"

definition frameMagic :: "u8 list" where "frameMagic = string_bytes ''XGC2FSV3''"
definition frameCommitMagic :: "u8 list" where "frameCommitMagic = string_bytes ''XGC2CMV3''"

text \<open>\<^verbatim>\<open>binary.BigEndian.Uint16/32/64\<close> of a slice, and the slice \<^verbatim>\<open>bs[a:b]\<close>.\<close>

definition be_value :: "u8 list \<Rightarrow> nat" where
  "be_value bs = foldl (\<lambda>n b. n * 256 + unat b) 0 bs"

definition slice :: "'a list \<Rightarrow> nat \<Rightarrow> nat \<Rightarrow> 'a list" where
  "slice bs a b = take (b - a) (drop a bs)"

definition header_core :: "u8 list \<Rightarrow> u8 list" where
  "header_core payload = frameMagic @ be_bytes 2 frameFormatVersion @ be_bytes 2 frameHeader @ replicate 4 0 @
     be_bytes 8 (length payload) @ be_bytes 8 (frameHeader + length payload + frameFooter) @ Sum256 payload"

definition footer_core :: "u8 list \<Rightarrow> u8 list" where
  "footer_core payload = frameCommitMagic @ be_bytes 2 frameFormatVersion @ be_bytes 2 frameFooter @ replicate 4 0 @
     be_bytes 8 (length payload) @ be_bytes 8 (frameHeader + length payload + frameFooter) @ Sum256 payload @
     Sum256 (header_core payload)"

definition frame_of :: "u8 list \<Rightarrow> u8 list" where
  "frame_of payload = (header_core payload @ Sum256 (header_core payload)) @ payload @
     (footer_core payload @ Sum256 (footer_core payload))"

definition encodeFrame :: "u8 list \<Rightarrow> u8 list result" where
  "encodeFrame payload =
     ensure (first_error
       [fail_if (length payload > maxFrameBytes) (Errorf ''durable frame exceeds the frame limit''),
        fail_if (length payload = 0) (Errorf ''durable frame payload is empty'')])
     (Inr (frame_of payload))"

record frameMetadata =
  fm_payloadLength :: nat
  fm_encodedLength :: nat
  fm_payloadDigest :: "u8 list"
  fm_headerDigest :: "u8 list"

definition lengths_invalid :: "frameMetadata \<Rightarrow> bool" where
  "lengths_invalid m \<longleftrightarrow> fm_payloadLength m = 0 \<or> fm_payloadLength m > maxFrameBytes \<or>
     fm_encodedLength m \<noteq> frameHeader + fm_payloadLength m + frameFooter \<or> fm_encodedLength m > maxEncodedFrameBytes"

definition header_metadata :: "u8 list \<Rightarrow> frameMetadata" where
  "header_metadata header = \<lparr>fm_payloadLength = be_value (slice header 16 24), fm_encodedLength = be_value (slice header 24 32),
     fm_payloadDigest = slice header 32 64, fm_headerDigest = slice header 64 96\<rparr>"

definition decodeHeader :: "u8 list \<Rightarrow> frameMetadata result" where
  "decodeHeader header =
     ensure (first_error
       [fail_if (length header \<noteq> frameHeader \<or> slice header 0 8 \<noteq> frameMagic \<or> be_value (slice header 8 10) \<noteq> frameFormatVersion \<or>
                 be_value (slice header 10 12) \<noteq> frameHeader \<or> be_value (slice header 12 16) \<noteq> 0) ErrCorrupt,
        fail_if (drop 64 header \<noteq> Sum256 (take 64 header)) ErrCorrupt,
        fail_if (lengths_invalid (header_metadata header)) ErrCorrupt])
     (Inr (header_metadata header))"

definition footer_metadata :: "u8 list \<Rightarrow> frameMetadata" where
  "footer_metadata footer = \<lparr>fm_payloadLength = be_value (slice footer 16 24), fm_encodedLength = be_value (slice footer 24 32),
     fm_payloadDigest = slice footer 32 64, fm_headerDigest = slice footer 64 96\<rparr>"

definition decodeFooter :: "u8 list \<Rightarrow> frameMetadata result" where
  "decodeFooter footer =
     ensure (first_error
       [fail_if (length footer \<noteq> frameFooter \<or> slice footer 0 8 \<noteq> frameCommitMagic \<or> be_value (slice footer 8 10) \<noteq> frameFormatVersion \<or>
                 be_value (slice footer 10 12) \<noteq> frameFooter \<or> be_value (slice footer 12 16) \<noteq> 0) ErrCorrupt,
        fail_if (drop 96 footer \<noteq> Sum256 (take 96 footer)) ErrCorrupt,
        fail_if (lengths_invalid (footer_metadata footer)) ErrCorrupt])
     (Inr (footer_metadata footer))"

section \<open>Recovery\<close>

fun bytes_Index :: "'a list \<Rightarrow> 'a list \<Rightarrow> nat option" where
  "bytes_Index [] sep = (if sep = [] then Some 0 else None)"
| "bytes_Index (x # xs) sep = (if take (length sep) (x # xs) = sep then Some 0 else map_option Suc (bytes_Index xs sep))"

text \<open>The bounded search of \<^verbatim>\<open>committedFooterInRange\<close>, from position \<open>searchAt\<close>.\<close>

definition footer_at :: "u8 list \<Rightarrow> nat \<Rightarrow> bool" where
  "footer_at raw at \<longleftrightarrow> at + frameFooter \<le> length raw \<and>
     (case decodeFooter (slice raw at (at + frameFooter)) of Inl _ \<Rightarrow> False | Inr m \<Rightarrow> fm_encodedLength m = at + frameFooter)"

function search_footer :: "u8 list \<Rightarrow> nat \<Rightarrow> bool" where
  "search_footer raw searchAt =
     (if searchAt + frameFooter \<le> length raw then
        case bytes_Index (drop searchAt raw) frameCommitMagic of
          None \<Rightarrow> False
        | Some i \<Rightarrow> footer_at raw (i + searchAt) \<or> search_footer raw (i + searchAt + 1)
      else False)"
  by pat_completeness auto
termination
  by (relation "measure (\<lambda>(raw, n). length raw - n)") (auto simp: frameFooter_def)

declare search_footer.simps [simp del]

definition committedFooterInRange :: "u8 list \<Rightarrow> bool" where
  "committedFooterInRange raw = (if length raw < frameFooter then False else search_footer raw 0)"

text \<open>
  The loop of \<^verbatim>\<open>load\<close>. Its result is the last checkpoint, the offset behind it, the number
  of frames, and whether an incomplete tail follows.
\<close>

lemma decodeHeader_length: "decodeHeader h = Inr m \<Longrightarrow> 224 < fm_encodedLength m"
  by (auto simp: decodeHeader_def lengths_invalid_def frameHeader_def frameFooter_def)

function load_from :: "(u8 list \<Rightarrow> 's result) \<Rightarrow> u8 list \<Rightarrow> nat \<Rightarrow> nat \<Rightarrow> 's \<Rightarrow> ('s \<times> nat \<times> nat \<times> bool) result" where
  "load_from dec file offset frameCount latest =
     (if offset < length file then
        if retainedFrameBudget \<le> frameCount then Inl ErrCorrupt
        else if length file - offset < frameHeader then Inr (latest, offset, frameCount, True)
        else (case decodeHeader (slice file offset (offset + frameHeader)) of
            Inl e \<Rightarrow> Inl e
          | Inr m \<Rightarrow>
              if length file - offset < fm_encodedLength m then
                if committedFooterInRange (drop offset file) then Inl ErrCorrupt else Inr (latest, offset, frameCount, True)
              else if Sum256 (slice file (offset + frameHeader) (offset + frameHeader + fm_payloadLength m)) \<noteq> fm_payloadDigest m then Inl ErrCorrupt
              else if decodeFooter (slice file (offset + frameHeader + fm_payloadLength m) (offset + frameHeader + fm_payloadLength m + frameFooter)) \<noteq> Inr m
                then Inl ErrCorrupt
              else (case dec (slice file (offset + frameHeader) (offset + frameHeader + fm_payloadLength m)) of
                  Inl e \<Rightarrow> Inl e
                | Inr state \<Rightarrow> load_from dec file (offset + fm_encodedLength m) (frameCount + 1) state))
      else Inr (latest, offset, frameCount, False))"
  by pat_completeness auto
termination
  by (relation "measure (\<lambda>(dec, file, offset, n, latest). length file - offset)") (auto dest: decodeHeader_length)

declare load_from.simps [simp del]

definition load :: "(u8 list \<Rightarrow> 's result) \<Rightarrow> 's \<Rightarrow> u8 list \<Rightarrow> ('s \<times> nat \<times> nat \<times> bool) result" where
  "load dec emptyState file = (if maxRecoveryBytes < length file then Inl ErrCorrupt else load_from dec file 0 0 emptyState)"

definition partialV3Prefix :: "u8 list \<Rightarrow> bool" where
  "partialV3Prefix file \<longleftrightarrow> take (min (length file) 8) file = take (min (length file) 8) frameMagic"

section \<open>Appending\<close>

definition shouldCompact :: "nat \<Rightarrow> nat \<Rightarrow> nat \<Rightarrow> bool" where
  "shouldCompact currentBytes nextFrameBytes frameCount \<longleftrightarrow>
     currentBytes + nextFrameBytes > maxJournalBytes \<or> frameCount \<ge> retainedFrameBudget"

text \<open>
  What the file system does with a frame: everything succeeds; the namespace check, Stat or
  Seek fails and nothing is written; the write, the sync or the check behind them fails with
  \<open>k\<close> bytes of the frame in the file; or compaction fails before or after the rename that
  installs the new file.
\<close>

datatype append_outcome = AppendDone | AppendRefused error | AppendTorn nat error | ReplaceFailed bool error

definition append_frame :: "append_outcome \<Rightarrow> u8 list \<Rightarrow> nat \<Rightarrow> u8 list \<Rightarrow> (u8 list \<times> nat) \<times> error option" where
  "append_frame outcome file frameCount frame =
     (case outcome of
        AppendRefused e \<Rightarrow> ((file, frameCount), Some e)
      | AppendDone \<Rightarrow>
          if shouldCompact (length file) (length frame) frameCount then ((frame, 1), None) else ((file @ frame, frameCount + 1), None)
      | AppendTorn k e \<Rightarrow>
          if shouldCompact (length file) (length frame) frameCount then ((file, frameCount), Some e) else ((file @ take k frame, frameCount), Some e)
      | ReplaceFailed installed e \<Rightarrow>
          if shouldCompact (length file) (length frame) frameCount \<and> installed then ((frame, 1), Some e) else ((file, frameCount), Some e))"

section \<open>Round trips\<close>

lemma be_value_append: "be_value (xs @ [b]) = be_value xs * 256 + unat b"
  by (simp add: be_value_def)

lemma be_value_be_bytes: "n < 256 ^ w \<Longrightarrow> be_value (be_bytes w n) = n"
proof (induction w arbitrary: n)
  case 0
  then show ?case by (simp add: be_value_def)
next
  case (Suc w)
  have "n div 256 < 256 ^ w" using Suc.prems by (simp add: less_mult_imp_div_less mult.commute)
  then show ?case using Suc.IH by (simp add: be_value_append unat_of_nat div_mult_mod_eq)
qed

lemma slice_append:
  assumes "length xs = a" and "length ys = b - a" and "a \<le> b"
  shows "slice (xs @ ys @ zs) a b = ys"
  using assms by (simp add: slice_def)

definition payload_ok :: "u8 list \<Rightarrow> bool" where
  "payload_ok p \<longleftrightarrow> 0 < length p \<and> length p \<le> maxFrameBytes"

definition metadata_of :: "u8 list \<Rightarrow> frameMetadata" where
  "metadata_of p = \<lparr>fm_payloadLength = length p, fm_encodedLength = frameHeader + length p + frameFooter,
     fm_payloadDigest = Sum256 p, fm_headerDigest = Sum256 (header_core p)\<rparr>"

lemma magic_length [simp]: "length frameMagic = 8" "length frameCommitMagic = 8"
  by (simp_all add: frameMagic_def frameCommitMagic_def string_bytes_def)

lemma core_length [simp]: "length (header_core p) = 64" "length (footer_core p) = 96"
  by (simp_all add: header_core_def footer_core_def)

lemma frame_length [simp]: "length (frame_of p) = frameHeader + length p + frameFooter"
  by (simp add: frame_of_def frameHeader_def frameFooter_def)

lemma encodeFrame_Inr: "encodeFrame p = Inr f \<longleftrightarrow> payload_ok p \<and> f = frame_of p"
  by (auto simp: encodeFrame_def payload_ok_def)

lemma decode_encoded:
  assumes "payload_ok p"
  shows "decodeHeader (header_core p @ Sum256 (header_core p)) = Inr (metadata_of p)"
    and "decodeFooter (footer_core p @ Sum256 (footer_core p)) = Inr (metadata_of p)"
proof -
  have n: "length p < 256 ^ 8" "frameHeader + length p + frameFooter < 256 ^ 8" "length p \<le> maxFrameBytes" "p \<noteq> []"
    using assms by (auto simp: payload_ok_def maxFrameBytes_def frameHeader_def frameFooter_def)
  have v: "be_value (be_bytes 8 (length p)) = length p" "be_value (be_bytes 8 (frameHeader + length p + frameFooter)) = frameHeader + length p + frameFooter"
    "be_value (be_bytes 2 frameFormatVersion) = frameFormatVersion" "be_value (be_bytes 2 frameHeader) = frameHeader"
    "be_value (be_bytes 2 frameFooter) = frameFooter"
    by (rule be_value_be_bytes, use n in \<open>simp add: frameFormatVersion_def frameHeader_def frameFooter_def\<close>)+
  have z: "be_value (replicate 4 0) = 0" by (simp add: be_value_def numeral_eq_Suc)
  let ?h = "header_core p @ Sum256 (header_core p)" and ?f = "footer_core p @ Sum256 (footer_core p)"
  have hs: "slice ?h 0 8 = frameMagic" "slice ?h 8 10 = be_bytes 2 frameFormatVersion" "slice ?h 10 12 = be_bytes 2 frameHeader"
    "slice ?h 12 16 = replicate 4 0" "slice ?h 16 24 = be_bytes 8 (length p)" "slice ?h 24 32 = be_bytes 8 (frameHeader + length p + frameFooter)"
    "slice ?h 32 64 = Sum256 p" "slice ?h 64 96 = Sum256 (header_core p)"
    by (simp_all add: slice_def header_core_def)
  have fs: "slice ?f 0 8 = frameCommitMagic" "slice ?f 8 10 = be_bytes 2 frameFormatVersion" "slice ?f 10 12 = be_bytes 2 frameFooter"
    "slice ?f 12 16 = replicate 4 0" "slice ?f 16 24 = be_bytes 8 (length p)" "slice ?f 24 32 = be_bytes 8 (frameHeader + length p + frameFooter)"
    "slice ?f 32 64 = Sum256 p" "slice ?f 64 96 = Sum256 (header_core p)"
    by (simp_all add: slice_def footer_core_def)
  have "header_metadata ?h = metadata_of p" "footer_metadata ?f = metadata_of p"
    by (simp_all only: header_metadata_def footer_metadata_def hs fs v metadata_of_def)
  moreover have "\<not> lengths_invalid (metadata_of p)"
    using n by (simp add: lengths_invalid_def metadata_of_def maxEncodedFrameBytes_def)
  ultimately show "decodeHeader ?h = Inr (metadata_of p)" "decodeFooter ?f = Inr (metadata_of p)"
    unfolding decodeHeader_def decodeFooter_def hs fs v z
    by (simp_all add: frameHeader_def frameFooter_def)
qed

end
