(* ===== verification/Journal_Props.thy ===== *)
theory Journal_Props
  imports Journal_Frame
begin

text \<open>
  The journal recovers: a file of complete frames yields its last checkpoint, and a frame that
  was only partly written behind them is recognised as a crash tail and dropped. A journal of
  frames whose payloads hold no NUL byte (as every JSON text) never mistakes a torn frame for
  a committed one.
\<close>

section \<open>The search for a committed footer\<close>

lemma bytes_Index_None: "bytes_Index xs sep = None \<Longrightarrow> i \<le> length xs \<Longrightarrow> take (length sep) (drop i xs) \<noteq> sep"
proof (induction xs arbitrary: i)
  case Nil
  then show ?case by (auto split: if_splits)
next
  case (Cons x xs)
  then show ?case by (cases i) (auto split: if_splits)
qed

lemma bytes_Index_Some:
  "bytes_Index xs sep = Some c \<Longrightarrow> take (length sep) (drop c xs) = sep \<and> c \<le> length xs \<and> (\<forall>i < c. take (length sep) (drop i xs) \<noteq> sep)"
proof (induction xs arbitrary: c)
  case Nil
  then show ?case by (auto split: if_splits)
next
  case (Cons x xs)
  show ?case
  proof (cases "take (length sep) (x # xs) = sep")
    case True
    then show ?thesis using Cons.prems by auto
  next
    case False
    then obtain d where d: "bytes_Index xs sep = Some d" "c = Suc d" using Cons.prems by (auto split: if_splits)
    have "\<forall>i < c. take (length sep) (drop i (x # xs)) \<noteq> sep"
      using Cons.IH [OF d(1)] False d(2) by (auto simp: less_Suc_eq_0_disj)
    then show ?thesis using Cons.IH [OF d(1)] d(2) by simp
  qed
qed

lemma footer_at_magic: "footer_at raw c \<Longrightarrow> take 8 (drop c raw) = frameCommitMagic"
  by (auto simp: footer_at_def decodeFooter_def slice_def frameFooter_def min_def split: sum.splits if_splits)

lemma search_footer_iff: "search_footer raw n \<longleftrightarrow> (\<exists>c \<ge> n. footer_at raw c)"
proof (induction raw n rule: search_footer.induct)
  case (1 raw n)
  show ?case
  proof (cases "n + frameFooter \<le> length raw")
    case False
    then show ?thesis using search_footer.simps [of raw n] by (auto simp: footer_at_def)
  next
    case fits: True
    show ?thesis
    proof (cases "bytes_Index (drop n raw) frameCommitMagic")
      case None
      have "\<not> footer_at raw c" if "n \<le> c" for c
      proof
        assume f: "footer_at raw c"
        then have "c \<le> length raw" by (simp add: footer_at_def)
        then have "take 8 (drop (c - n) (drop n raw)) \<noteq> frameCommitMagic"
          using bytes_Index_None [OF None, of "c - n"] that by simp
        then show False using footer_at_magic [OF f] that by simp
      qed
      then show ?thesis using search_footer.simps [of raw n] None fits by auto
    next
      case (Some i)
      note m = bytes_Index_Some [OF Some]
      have skip: "i + n \<le> c" if "n \<le> c" "footer_at raw c" for c
      proof (rule ccontr)
        assume "\<not> i + n \<le> c"
        then have "take 8 (drop (c - n) (drop n raw)) \<noteq> frameCommitMagic" using m that by (metis add.commute diff_less_mono le_add_diff_inverse2 magic_length(2) not_le add_diff_cancel_right')
        then show False using footer_at_magic [OF that(2)] that(1) by simp
      qed
      have "search_footer raw n \<longleftrightarrow> footer_at raw (i + n) \<or> search_footer raw (i + n + 1)"
        using search_footer.simps [of raw n] Some fits by simp
      also have "\<dots> \<longleftrightarrow> footer_at raw (i + n) \<or> (\<exists>c \<ge> i + n + 1. footer_at raw c)"
        using 1 [OF fits Some] by simp
      also have "\<dots> \<longleftrightarrow> (\<exists>c \<ge> n. footer_at raw c)"
      proof
        assume "footer_at raw (i + n) \<or> (\<exists>c \<ge> i + n + 1. footer_at raw c)"
        then show "\<exists>c \<ge> n. footer_at raw c" using le_add2 [of n i] by (meson add_leD1 le_trans)
      next
        assume "\<exists>c \<ge> n. footer_at raw c"
        then obtain c where c: "n \<le> c" "footer_at raw c" by blast
        then show "footer_at raw (i + n) \<or> (\<exists>c \<ge> i + n + 1. footer_at raw c)"
          using skip [OF c] by (cases "c = i + n") auto
      qed
      finally show ?thesis .
    qed
  qed
qed

section \<open>Torn frames hold no footer\<close>

definition nul_free :: "u8 list \<Rightarrow> bool" where
  "nul_free p \<longleftrightarrow> 0 \<notin> set p"

lemma commit_magic_bytes: "frameCommitMagic = [88, 71, 67, 50, 67, 77, 86, 51]"
  by (simp add: frameCommitMagic_def string_bytes_def)

lemma footer_at_facts:
  assumes "footer_at raw c"
  shows "96 < c" and "c + 128 \<le> length raw" and "take 8 (drop c raw) = frameCommitMagic" and "raw ! (c + 8) = 0"
proof -
  let ?s = "slice raw c (c + frameFooter)"
  obtain m where m: "decodeFooter ?s = Inr m" "fm_encodedLength m = c + frameFooter" and n: "c + frameFooter \<le> length raw"
    using assms by (auto simp: footer_at_def split: sum.splits)
  show "c + 128 \<le> length raw" using n by (simp add: frameFooter_def)
  show "take 8 (drop c raw) = frameCommitMagic" by (rule footer_at_magic [OF assms])
  have "\<not> lengths_invalid m" using m(1) by (auto simp: decodeFooter_def)
  then show "96 < c" using m(2) by (auto simp: lengths_invalid_def frameHeader_def frameFooter_def)
  have v: "be_value (slice ?s 8 10) = 3" using m(1) by (simp add: decodeFooter_def frameFormatVersion_def)
  have "slice ?s 8 10 = [raw ! (c + 8), raw ! (c + 9)]"
  proof (rule nth_equalityI)
    show "length (slice ?s 8 10) = length [raw ! (c + 8), raw ! (c + 9)]" using n by (simp add: slice_def frameFooter_def)
    fix i assume "i < length (slice ?s 8 10)"
    then have "i = 0 \<or> i = 1" using n by (auto simp: slice_def)
    then show "slice ?s 8 10 ! i = [raw ! (c + 8), raw ! (c + 9)] ! i" using n by (auto simp: slice_def frameFooter_def)
  qed
  then have "unat (raw ! (c + 8)) * 256 + unat (raw ! (c + 9)) = 3" using v by (simp add: be_value_def)
  then have "unat (raw ! (c + 8)) = 0" by presburger
  then show "raw ! (c + 8) = 0" by (simp add: unat_eq_zero)
qed

lemma torn_frame_no_footer:
  assumes "nul_free p" and "k < length (frame_of p)"
  shows "\<not> footer_at (take k (frame_of p)) c"
proof
  assume f: "footer_at (take k (frame_of p)) c"
  note g = footer_at_facts [OF f]
  let ?n = "length p"
  have ck: "c + 128 \<le> k" using g(2) assms(2) by simp
  then have c: "c < 96 + ?n" using assms(2) by (simp add: frameHeader_def frameFooter_def)
  define rest where "rest = p @ footer_core p @ Sum256 (footer_core p)"
  have fr: "frame_of p = (header_core p @ Sum256 (header_core p)) @ rest" by (simp add: frame_of_def rest_def)
  have nth: "take k (frame_of p) ! (c + i) = rest ! (c + i - 96)" if "i < 128" for i
  proof -
    have "c + i < k" "96 \<le> c + i" using ck that g(1) by simp_all
    then show ?thesis unfolding fr by (subst nth_take, simp, subst nth_append) simp
  qed
  have in_payload: "rest ! (c + i - 96) = p ! (c + i - 96)" if "c + i < 96 + ?n" for i
  proof -
    have "c + i - 96 < ?n" using that g(1) by linarith
    then show ?thesis by (simp add: rest_def nth_append)
  qed
  have in_footer: "rest ! (c + i - 96) = footer_core p ! (c + i - 96 - ?n)" if "96 + ?n \<le> c + i" "i < 96" for i
  proof -
    have "\<not> c + i - 96 < ?n" "c + i - 96 - ?n < 96" using that g(1) c by linarith+
    then show ?thesis by (simp add: rest_def nth_append)
  qed
  show False
  proof (cases "c + 8 < 96 + ?n")
    case True
    then have "p ! (c + 8 - 96) = 0" using g(4) nth [of 8] in_payload [of 8] by simp
    moreover have "c + 8 - 96 < ?n" using True g(1) by simp
    ultimately show False using assms(1) nth_mem [of "c + 8 - 96" p] by (simp add: nul_free_def)
  next
    case False
    define j where "j = 96 + ?n - c"
    have j: "0 < j" "j \<le> 8" "c + j = 96 + ?n" using False c by (simp_all add: j_def)
    have "footer_core p ! 0 = 88" by (simp add: footer_core_def commit_magic_bytes)
    then have x: "take k (frame_of p) ! (c + j) = 88" using nth [of j] in_footer [of j] j by simp
    show False
    proof (cases "j = 8")
      case True
      then show False using x g(4) by simp
    next
      case False
      then have "j < 8" using j(2) by simp
      then have "frameCommitMagic ! j = take k (frame_of p) ! (c + j)"
        using g(2,3) by (metis (no_types, lifting) add_leD1 drop_drop nth_drop nth_take)
      then have "frameCommitMagic ! j = 88" using x by simp
      moreover have "j = 1 \<or> j = 2 \<or> j = 3 \<or> j = 4 \<or> j = 5 \<or> j = 6 \<or> j = 7" using \<open>j < 8\<close> j(1) by linarith
      ultimately show False by (elim disjE) (simp_all add: commit_magic_bytes)
    qed
  qed
qed

lemma torn_frame_uncommitted:
  assumes "nul_free p" and "k < length (frame_of p)"
  shows "\<not> committedFooterInRange (take k (frame_of p))"
  using torn_frame_no_footer [OF assms] by (simp add: committedFooterInRange_def search_footer_iff)

section \<open>Recovery\<close>

lemma slice_shift: "length pre = n \<Longrightarrow> slice (pre @ xs) (n + a) (n + b) = slice xs a b"
  by (simp add: slice_def)

lemma load_frame:
  assumes "payload_ok p" and "dec p = Inr s" and "n < retainedFrameBudget"
  shows "load_from dec (pre @ frame_of p @ rest) (length pre) n latest =
    load_from dec (pre @ frame_of p @ rest) (length pre + length (frame_of p)) (n + 1) s"
proof -
  let ?file = "pre @ frame_of p @ rest" and ?m = "metadata_of p"
  have lens: "fm_payloadLength ?m = length p" "fm_encodedLength ?m = length (frame_of p)" "fm_payloadDigest ?m = Sum256 p"
    by (simp_all add: metadata_of_def)
  have h: "slice ?file (length pre) (length pre + frameHeader) = header_core p @ Sum256 (header_core p)"
    using slice_shift [OF refl, of pre "frame_of p @ rest" 0 frameHeader] by (simp add: slice_def frame_of_def frameHeader_def)
  have b: "slice ?file (length pre + frameHeader) (length pre + frameHeader + length p) = p"
    by (simp add: slice_def frame_of_def frameHeader_def)
  have f: "slice ?file (length pre + frameHeader + length p) (length pre + frameHeader + length p + frameFooter) =
      footer_core p @ Sum256 (footer_core p)"
    by (simp add: slice_def frame_of_def frameHeader_def frameFooter_def)
  have "length pre < length ?file" "\<not> length ?file - length pre < frameHeader" "\<not> length ?file - length pre < fm_encodedLength ?m"
    by (simp_all add: lens frameHeader_def)
  then show ?thesis
    using assms(3) by (subst load_from.simps) (simp add: h decode_encoded [OF assms(1)] lens b f assms(2))
qed

text \<open>A journal: frames with payloads that decode to the listed states.\<close>

definition journal_bytes :: "u8 list list \<Rightarrow> u8 list" where
  "journal_bytes ps = concat (map frame_of ps)"

lemma load_frames:
  assumes "\<forall>p \<in> set ps. payload_ok p" and "list_all2 (\<lambda>p s. dec p = Inr s) ps ss" and "n + length ps \<le> retainedFrameBudget"
  shows "load_from dec (pre @ journal_bytes ps @ rest) (length pre) n latest =
    load_from dec (pre @ journal_bytes ps @ rest) (length pre + length (journal_bytes ps)) (n + length ps) (last (latest # ss))"
  using assms
proof (induction ps arbitrary: pre n latest ss)
  case Nil
  then show ?case by (simp add: journal_bytes_def)
next
  case (Cons p ps)
  obtain s ss' where ss: "ss = s # ss'" and d: "dec p = Inr s" and r: "list_all2 (\<lambda>p s. dec p = Inr s) ps ss'"
    using Cons.prems(2) by (auto simp: list_all2_Cons1)
  have bytes: "pre @ journal_bytes (p # ps) @ rest = pre @ frame_of p @ journal_bytes ps @ rest" by (simp add: journal_bytes_def)
  have "load_from dec (pre @ frame_of p @ journal_bytes ps @ rest) (length pre) n latest =
      load_from dec (pre @ frame_of p @ journal_bytes ps @ rest) (length pre + length (frame_of p)) (n + 1) s"
    by (rule load_frame) (use Cons.prems d in auto)
  also have "\<dots> = load_from dec ((pre @ frame_of p) @ journal_bytes ps @ rest) (length (pre @ frame_of p)) (n + 1) s" by simp
  also have "\<dots> = load_from dec ((pre @ frame_of p) @ journal_bytes ps @ rest) (length (pre @ frame_of p) + length (journal_bytes ps))
      (n + 1 + length ps) (last (s # ss'))"
    by (rule Cons.IH) (use Cons.prems r in auto)
  finally show ?case by (simp add: bytes ss journal_bytes_def add.assoc)
qed

lemma load_end: "load_from dec file (length file) n latest = Inr (latest, length file, n, False)"
  by (subst load_from.simps) simp

lemma load_torn:
  assumes "payload_ok p" and "nul_free p" and "0 < k" and "k < length (frame_of p)" and "n < retainedFrameBudget"
  shows "load_from dec (pre @ take k (frame_of p)) (length pre) n latest = Inr (latest, length pre, n, True)"
proof (cases "k < frameHeader")
  case True
  then show ?thesis using assms by (subst load_from.simps) simp
next
  case False
  have h: "slice (pre @ take k (frame_of p)) (length pre) (length pre + frameHeader) = header_core p @ Sum256 (header_core p)"
    using False by (simp add: slice_def frame_of_def frameHeader_def min_def)
  have e: "fm_encodedLength (metadata_of p) = length (frame_of p)" by (simp add: metadata_of_def)
  have d: "drop (length pre) (pre @ take k (frame_of p)) = take k (frame_of p)" by simp
  have "length (take k (frame_of p)) = k" using assms(4) by simp
  then show ?thesis
    using assms False torn_frame_uncommitted [OF assms(2,4)] by (subst load_from.simps) (simp add: h decode_encoded [OF assms(1)] e d)
qed

lemma journal_size_mono: "length (journal_bytes ps) \<le> length (journal_bytes (ps @ qs))"
  by (simp add: journal_bytes_def)

text \<open>
  What recovery makes of a journal with a torn frame behind it: the last complete checkpoint.
  With nothing or all of the frame in the file there is no tail.
\<close>

lemma load_journal:
  assumes "\<forall>p \<in> set ps. payload_ok p" and "list_all2 (\<lambda>p s. dec p = Inr s) ps ss" and "length ps \<le> retainedFrameBudget"
    and "length (journal_bytes ps) \<le> maxRecoveryBytes"
  shows "load dec start (journal_bytes ps) = Inr (last (start # ss), length (journal_bytes ps), length ps, False)"
  using load_frames [OF assms(1,2), of 0 "[]" "[]" start] assms(3,4) load_end [of dec "journal_bytes ps"] by (simp add: load_def)

lemma load_torn_journal:
  assumes "\<forall>p \<in> set ps. payload_ok p" and "list_all2 (\<lambda>p s. dec p = Inr s) ps ss" and "length ps < retainedFrameBudget"
    and "length (journal_bytes ps) + length (frame_of q) \<le> maxRecoveryBytes" and "payload_ok q" and "nul_free q"
    and "0 < k" and "k < length (frame_of q)"
  shows "load dec start (journal_bytes ps @ take k (frame_of q)) = Inr (last (start # ss), length (journal_bytes ps), length ps, True)"
proof -
  have "length (journal_bytes ps @ take k (frame_of q)) \<le> maxRecoveryBytes" using assms(4) by (simp add: min_def)
  moreover have "load_from dec (journal_bytes ps @ take k (frame_of q)) 0 0 start =
      load_from dec (journal_bytes ps @ take k (frame_of q)) (length (journal_bytes ps)) (length ps) (last (start # ss))"
    using load_frames [OF assms(1,2), of 0 "[]" "take k (frame_of q)" start] assms(3) by simp
  ultimately show ?thesis using load_torn [OF assms(5-8,3), of dec "journal_bytes ps"] by (simp add: load_def)
qed

end
