(* ===== verification/Durable_Store.thy ===== *)
theory Durable_Store
  imports Journal_Props
begin

text \<open>
  Packages durable/store (store.go, the port) and durable/filestore (filestore.go): the durable
  state of the orchestrator and the operations of the Store interface. A Go map with string
  keys is an association list with distinct keys. Three functions of the Go library are
  arguments: \<open>enc\<close>, \<^verbatim>\<open>json.Marshal\<close> of the whole state; \<open>unmarshal\<close>, its strict decoding;
  and \<open>num\<close>, the text that a number takes on its way through \<^verbatim>\<open>float64\<close> when a payload map
  is cloned. What the file system and the caller's context do is the argument \<open>env\<close>.
\<close>

section \<open>Data\<close>

type_synonym 'v gomap = "(string \<times> 'v) list"

record AggregateKey =
  ak_Type :: string
  ak_ID :: string

record ExpectedRevision =
  xr_Key :: AggregateKey
  xr_Revision :: u64

record AggregateRecord =
  ag_Key :: AggregateKey
  ag_Revision :: u64
  ag_PayloadDigest :: string
  ag_Payload :: string

record CommandScope =
  sc_SchemaVersion :: string
  sc_Operation :: string
  sc_NamespaceID :: string
  sc_ResourceType :: string
  sc_ResourceID :: string
  sc_AuthorityRef :: string
  sc_AuthorityDigest :: string

record IntentSeed =
  sd_Intent :: DurableIntent
  sd_AvailableAt :: instant

record Transaction =
  tx_CommandScope :: CommandScope
  tx_CommandID :: string
  tx_IdentityDigest :: string
  tx_Expected :: "ExpectedRevision list"
  tx_Mutations :: "AggregateRecord list"
  tx_Events :: "DomainEvent list"
  tx_Intents :: "IntentSeed list"
  tx_Outcome :: string
  tx_At :: instant

record CommitResult =
  cm_Replay :: bool
  cm_OutcomeDigest :: string
  cm_Outcome :: string

datatype IntentStatus = IntentPending | IntentLeased | IntentCompleted | IntentDead | IntentStatusOther string

record IntentRecord =
  ir_Intent :: DurableIntent
  ir_Status :: IntentStatus
  ir_AvailableAt :: instant
  ir_AttemptCount :: u32
  ir_LeaseOwner :: string
  ir_LeaseTokenHash :: string
  ir_LeaseExpiresAt :: "instant option"
  ir_LastFailure :: "StructuredFailure option"
  ir_CompletedAt :: "instant option"
  ir_Revision :: u64

record ClaimRequest =
  cq_Kinds :: "DurableIntentKind list"
  cq_OwnerRef :: string
  cq_LeaseToken :: string
  cq_Now :: instant
  cq_LeaseExpiresAt :: instant
  cq_Limit :: int

record ClaimedIntent =
  ci_Record :: IntentRecord
  ci_LeaseToken :: string

record IntentFence =
  nf_IntentID :: string
  nf_ExpectedRevision :: u64
  nf_OwnerRef :: string
  nf_LeaseToken :: string
  nf_At :: instant

record IntentFailure =
  if_Fence :: IntentFence
  if_Failure :: StructuredFailure
  if_AvailableAt :: "instant option"
  if_Dead :: bool

record InboxRecord =
  ib_SourceRef :: string
  ib_MessageID :: string
  ib_PayloadDigest :: string
  ib_ObservedAt :: instant

record commandRecord =
  co_Scope :: CommandScope
  co_CommandID :: string
  co_IdentityDigest :: string
  co_OutcomeDigest :: string
  co_Outcome :: string

record diskState =
  ds_Version :: u32
  ds_Aggregates :: "AggregateRecord gomap"
  ds_Events :: "DomainEvent gomap"
  ds_Commands :: "commandRecord gomap"
  ds_Intents :: "IntentRecord gomap"
  ds_Inbox :: "InboxRecord gomap"

definition diskVersion :: u32 where "diskVersion = 3"

definition emptyState :: diskState where
  "emptyState = \<lparr>ds_Version = diskVersion, ds_Aggregates = [], ds_Events = [], ds_Commands = [], ds_Intents = [], ds_Inbox = []\<rparr>"

section \<open>Command scopes\<close>

definition CommandScopeSchemaVersion :: string where "CommandScopeSchemaVersion = ''xgc.command-scope/v3''"

definition CommandScope_Validate :: "CommandScope \<Rightarrow> error option" where
  "CommandScope_Validate s = first_error
     [fail_if (sc_SchemaVersion s \<noteq> CommandScopeSchemaVersion \<or> \<not> ValidIdentifier (sc_Operation s) \<or> \<not> ValidIdentifier (sc_NamespaceID s) \<or>
               \<not> ValidIdentifier (sc_ResourceType s) \<or> \<not> ValidIdentifier (sc_ResourceID s))
        (Errorf ''command scope identity is invalid''),
      fail_if ((sc_AuthorityRef s = []) \<noteq> (sc_AuthorityDigest s = []) \<or>
               (sc_AuthorityRef s \<noteq> [] \<and> (\<not> ValidIdentifier (sc_AuthorityRef s) \<or> \<not> ValidDigest (sc_AuthorityDigest s))))
        (Errorf ''command scope authority is invalid'')]"

text \<open>\<^verbatim>\<open>json.Marshal\<close> of a struct: its fields in the order of declaration.\<close>

definition struct_text :: "(string \<times> string) list \<Rightarrow> string" where
  "struct_text fs = ''{'' @ comma_separated (map (\<lambda>(k, v). marshal_string k @ '':'' @ v) fs) @ ''}''"

definition CommandScope_text :: "CommandScope \<Rightarrow> string" where
  "CommandScope_text s = struct_text (
     [(''schemaVersion'', marshal_string (sc_SchemaVersion s)), (''operation'', marshal_string (sc_Operation s)),
      (''namespaceId'', marshal_string (sc_NamespaceID s)), (''resourceType'', marshal_string (sc_ResourceType s)),
      (''resourceId'', marshal_string (sc_ResourceID s))] @
     (if sc_AuthorityRef s = [] then [] else [(''authorityRef'', marshal_string (sc_AuthorityRef s))]) @
     (if sc_AuthorityDigest s = [] then [] else [(''authorityDigest'', marshal_string (sc_AuthorityDigest s))]))"

definition CommandIdentityKey :: "CommandScope \<Rightarrow> string \<Rightarrow> string result" where
  "CommandIdentityKey scope commandID =
     ensure (CommandScope_Validate scope) (
     ensure (fail_if (\<not> ValidIdentifier commandID) (Errorf ''command id is invalid'')) (
     Inr (''command-v3-'' @ EncodeToString (Sum256 (string_bytes
       (struct_text [(''scope'', CommandScope_text scope), (''commandId'', marshal_string commandID)]))))))"

section \<open>Validation\<close>

definition keyString :: "AggregateKey \<Rightarrow> string" where
  "keyString k = ak_Type k @ [CHR 0x00] @ ak_ID k"

definition validateKey :: "AggregateKey \<Rightarrow> error option" where
  "validateKey k = fail_if (\<not> ValidIdentifier (ak_Type k) \<or> \<not> ValidIdentifier (ak_ID k)) (Errorf ''aggregate key is invalid'')"

definition validIntentKind :: "DurableIntentKind \<Rightarrow> bool" where
  "validIntentKind k = (case k of IntentKindOther _ \<Rightarrow> False | _ \<Rightarrow> True)"

definition normalizeRaw :: "string \<Rightarrow> (string \<times> string) result" where
  "normalizeRaw raw =
     andThen (Canonicalize (if raw = [] then ''{}'' else raw)) (\<lambda>canonical.
     andThen (Digest canonical) (\<lambda>digest. Inr (canonical, digest)))"

definition validateEvent :: "DomainEvent \<Rightarrow> error option" where
  "validateEvent e = first_error
     [fail_if (\<not> ValidIdentifier (ev_EventID e) \<or> \<not> ValidIdentifier (ev_AggregateType e) \<or> \<not> ValidIdentifier (ev_AggregateID e) \<or>
               ev_AggregateRevision e = 0 \<or> \<not> ValidIdentifier (ev_Type e) \<or> \<not> ValidIdentifier (ev_CommandID e) \<or>
               \<not> ValidDigest (ev_PayloadSchemaDigest e) \<or> \<not> ValidDigest (ev_PayloadDigest e) \<or> IsZero (ev_OccurredAt e))
        (Errorf ''domain event envelope is invalid''),
      fail_if (DigestValue (JObj (ev_Payload e)) \<noteq> Inr (ev_PayloadDigest e)) (Errorf ''domain event payload digest is invalid''),
      fail_if (StableEventID (ev_AggregateType e) (ev_AggregateID e) (ev_AggregateRevision e) \<noteq> Inr (ev_EventID e))
        (Errorf ''domain event stable identity is invalid'')]"

definition validateIntentSeed :: "IntentSeed \<Rightarrow> instant \<Rightarrow> error option" where
  "validateIntentSeed s transactionAt = first_error
     [fail_if (\<not> validIntentKind (di_Kind (sd_Intent s)) \<or> \<not> ValidIdentifier (di_Identity (sd_Intent s)) \<or>
               \<not> ValidIdentifier (di_AggregateID (sd_Intent s)) \<or> \<not> ValidDigest (di_PayloadDigest (sd_Intent s)))
        (Errorf ''durable intent envelope is invalid''),
      fail_if (DigestValue (JObj (di_Payload (sd_Intent s))) \<noteq> Inr (di_PayloadDigest (sd_Intent s)))
        (Errorf ''durable intent payload digest is invalid''),
      fail_if (\<not> IsZero (sd_AvailableAt s) \<and> Before (sd_AvailableAt s) transactionAt)
        (Errorf ''durable intent availability precedes its transaction'')]"

definition unleased :: "IntentRecord \<Rightarrow> bool" where
  "unleased r \<longleftrightarrow> ir_LeaseOwner r = [] \<and> ir_LeaseTokenHash r = [] \<and> ir_LeaseExpiresAt r = None"

definition validateIntentRecord :: "IntentRecord \<Rightarrow> error option" where
  "validateIntentRecord r = first_error
     [fail_if (IsZero (ir_AvailableAt r) \<or> unat (ir_AttemptCount r) > unat (ir_Revision r)) ErrCorrupt,
      (case ir_Status r of
         IntentPending \<Rightarrow> fail_if (\<not> unleased r \<or> ir_CompletedAt r \<noteq> None) ErrCorrupt
       | IntentLeased \<Rightarrow> fail_if (\<not> ValidIdentifier (ir_LeaseOwner r) \<or> \<not> ValidDigest (ir_LeaseTokenHash r) \<or>
           ir_LeaseExpiresAt r = None \<or> ir_CompletedAt r \<noteq> None) ErrCorrupt
       | IntentCompleted \<Rightarrow> fail_if (\<not> unleased r \<or> ir_CompletedAt r = None \<or> ir_LastFailure r \<noteq> None) ErrCorrupt
       | IntentDead \<Rightarrow> fail_if (\<not> unleased r \<or> ir_CompletedAt r = None \<or> ir_LastFailure r = None) ErrCorrupt
       | IntentStatusOther _ \<Rightarrow> Some ErrCorrupt)]"

definition aggregate_entry_ok :: "string \<Rightarrow> AggregateRecord \<Rightarrow> bool" where
  "aggregate_entry_ok key r \<longleftrightarrow> key = keyString (ag_Key r) \<and> ag_Revision r \<noteq> 0 \<and>
     (case normalizeRaw (ag_Payload r) of Inl _ \<Rightarrow> False | Inr (_, digest) \<Rightarrow> digest = ag_PayloadDigest r)"

definition event_entry_ok :: "string \<Rightarrow> DomainEvent \<Rightarrow> bool" where
  "event_entry_ok key e \<longleftrightarrow> key = ev_EventID e \<and> validateEvent e = None"

definition command_entry_ok :: "string \<Rightarrow> commandRecord \<Rightarrow> bool" where
  "command_entry_ok key c \<longleftrightarrow> CommandIdentityKey (co_Scope c) (co_CommandID c) = Inr key \<and> ValidDigest (co_IdentityDigest c) \<and>
     ValidDigest (co_OutcomeDigest c) \<and>
     (case normalizeRaw (co_Outcome c) of Inl _ \<Rightarrow> False | Inr (_, digest) \<Rightarrow> digest = co_OutcomeDigest c)"

definition intent_entry_ok :: "string \<Rightarrow> IntentRecord \<Rightarrow> bool" where
  "intent_entry_ok key r \<longleftrightarrow> key = di_Identity (ir_Intent r) \<and> ir_Revision r \<noteq> 0 \<and> validIntentKind (di_Kind (ir_Intent r)) \<and>
     DigestValue (JObj (di_Payload (ir_Intent r))) = Inr (di_PayloadDigest (ir_Intent r)) \<and> validateIntentRecord r = None"

definition inbox_key :: "InboxRecord \<Rightarrow> string" where
  "inbox_key r = ib_SourceRef r @ [CHR 0x00] @ ib_MessageID r"

definition inbox_record_ok :: "InboxRecord \<Rightarrow> bool" where
  "inbox_record_ok r \<longleftrightarrow> ValidIdentifier (ib_SourceRef r) \<and> ValidIdentifier (ib_MessageID r) \<and> ValidDigest (ib_PayloadDigest r) \<and>
     \<not> IsZero (ib_ObservedAt r)"

definition validateState :: "diskState \<Rightarrow> error option" where
  "validateState s = fail_if (\<not> (ds_Version s = diskVersion \<and>
     (\<forall>(k, r) \<in> set (ds_Aggregates s). aggregate_entry_ok k r) \<and> (\<forall>(k, e) \<in> set (ds_Events s). event_entry_ok k e) \<and>
     (\<forall>(k, c) \<in> set (ds_Commands s). command_entry_ok k c) \<and> (\<forall>(k, r) \<in> set (ds_Intents s). intent_entry_ok k r) \<and>
     (\<forall>(k, r) \<in> set (ds_Inbox s). k = inbox_key r \<and> inbox_record_ok r))) ErrCorrupt"

section \<open>Clones\<close>

text \<open>
  \<^verbatim>\<open>cloneMap\<close> marshals a payload and decodes it again without \<^verbatim>\<open>UseNumber\<close>, so every number
  becomes a \<^verbatim>\<open>float64\<close>; \<open>num\<close> gives the text that such a number is printed with later. The
  other clones copy their argument.
\<close>

fun clone_json :: "(string \<Rightarrow> string) \<Rightarrow> json \<Rightarrow> json" where
  "clone_json num (JNum t) = JNum (num t)"
| "clone_json num (JArr vs) = JArr (map (clone_json num) vs)"
| "clone_json num (JObj kvs) = JObj (map (\<lambda>kv. (fst kv, clone_json num (snd kv))) kvs)"
| "clone_json num v = v"

definition cloneMap :: "(string \<Rightarrow> string) \<Rightarrow> payload \<Rightarrow> payload" where
  "cloneMap num p = (case andThen (Marshal (JObj p)) (\<lambda>raw. Decode raw DefaultLimits) of
     Inr (JObj kvs) \<Rightarrow> map (\<lambda>kv. (fst kv, clone_json num (snd kv))) kvs | _ \<Rightarrow> [])"

definition cloneEvent :: "(string \<Rightarrow> string) \<Rightarrow> DomainEvent \<Rightarrow> DomainEvent" where
  "cloneEvent num e = e\<lparr>ev_Payload := cloneMap num (ev_Payload e)\<rparr>"

definition cloneDurableIntent :: "(string \<Rightarrow> string) \<Rightarrow> DurableIntent \<Rightarrow> DurableIntent" where
  "cloneDurableIntent num i = i\<lparr>di_Payload := cloneMap num (di_Payload i)\<rparr>"

definition cloneIntent :: "(string \<Rightarrow> string) \<Rightarrow> IntentRecord \<Rightarrow> IntentRecord" where
  "cloneIntent num r = r\<lparr>ir_Intent := cloneDurableIntent num (ir_Intent r)\<rparr>"

section \<open>Applying a transaction\<close>

definition expect_step :: "u64 gomap \<Rightarrow> ExpectedRevision \<Rightarrow> u64 gomap result" where
  "expect_step expected item =
     ensure (validateKey (xr_Key item)) (
     ensure (fail_if (map_of expected (keyString (xr_Key item)) \<noteq> None) (Errorf ''transaction repeats an expected aggregate'')) (
     Inr (AList.update (keyString (xr_Key item)) (xr_Revision item) expected)))"

definition current_revision :: "diskState \<Rightarrow> string \<Rightarrow> u64" where
  "current_revision s key = (case map_of (ds_Aggregates s) key of None \<Rightarrow> 0 | Some r \<Rightarrow> ag_Revision r)"

definition mutation_step :: "diskState \<Rightarrow> u64 gomap \<Rightarrow> AggregateRecord gomap \<Rightarrow> AggregateRecord \<Rightarrow> AggregateRecord gomap result" where
  "mutation_step s expected mutations m =
     ensure (validateKey (ag_Key m)) (
     case map_of expected (keyString (ag_Key m)) of
       None \<Rightarrow> Inl (ErrRevisionConflict StorePkg)
     | Some wantRevision \<Rightarrow>
         ensure (first_error
           [fail_if (ag_Revision m \<noteq> wantRevision + 1) (ErrRevisionConflict StorePkg),
            fail_if (map_of mutations (keyString (ag_Key m)) \<noteq> None) (Errorf ''transaction repeats an aggregate mutation''),
            fail_if (current_revision s (keyString (ag_Key m)) \<noteq> wantRevision) (ErrRevisionConflict StorePkg)])
         (case normalizeRaw (ag_Payload m) of
            Inl _ \<Rightarrow> Inl (Errorf ''aggregate payload or digest is invalid'')
          | Inr (payload, digest) \<Rightarrow>
              ensure (fail_if (digest \<noteq> ag_PayloadDigest m) (Errorf ''aggregate payload or digest is invalid'')) (
              Inr (AList.update (keyString (ag_Key m)) (m\<lparr>ag_Payload := payload\<rparr>) mutations))))"

definition event_key :: "DomainEvent \<Rightarrow> string" where
  "event_key e = keyString \<lparr>ak_Type = ev_AggregateType e, ak_ID = ev_AggregateID e\<rparr>"

definition event_step :: "diskState \<Rightarrow> string \<Rightarrow> AggregateRecord gomap \<Rightarrow> DomainEvent gomap \<Rightarrow> DomainEvent \<Rightarrow> DomainEvent gomap result" where
  "event_step s commandID mutations events e =
     ensure (first_error
       [validateEvent e,
        fail_if (ev_CommandID e \<noteq> commandID) (Errorf ''event command id does not match its transaction''),
        (case map_of mutations (event_key e) of
           None \<Rightarrow> Some (Errorf ''event does not match a transaction mutation'')
         | Some m \<Rightarrow> fail_if (ag_Revision m \<noteq> ev_AggregateRevision e) (Errorf ''event does not match a transaction mutation'')),
        fail_if (map_of events (event_key e) \<noteq> None) (Errorf ''transaction emits multiple events for one aggregate revision''),
        (case map_of (ds_Events s) (ev_EventID e) of None \<Rightarrow> None
         | Some prior \<Rightarrow> fail_if (ev_PayloadDigest prior \<noteq> ev_PayloadDigest e) ErrIdentityConflict)])
     (Inr (AList.update (event_key e) e events))"

definition intent_step :: "diskState \<Rightarrow> instant \<Rightarrow> bool gomap \<Rightarrow> IntentSeed \<Rightarrow> bool gomap result" where
  "intent_step s at intentIDs seed =
     ensure (first_error
       [validateIntentSeed seed at,
        fail_if (map_of intentIDs (di_Identity (sd_Intent seed)) = Some True) (Errorf ''transaction repeats a durable intent identity''),
        fail_if (map_of (ds_Intents s) (di_Identity (sd_Intent seed)) \<noteq> None) ErrIdentityConflict])
     (Inr (AList.update (di_Identity (sd_Intent seed)) True intentIDs))"

definition seeded_intent :: "(string \<Rightarrow> string) \<Rightarrow> instant \<Rightarrow> IntentSeed \<Rightarrow> IntentRecord" where
  "seeded_intent num at seed = \<lparr>ir_Intent = cloneDurableIntent num (sd_Intent seed), ir_Status = IntentPending,
     ir_AvailableAt = (if IsZero (sd_AvailableAt seed) then at else sd_AvailableAt seed), ir_AttemptCount = 0, ir_LeaseOwner = [],
     ir_LeaseTokenHash = [], ir_LeaseExpiresAt = None, ir_LastFailure = None, ir_CompletedAt = None, ir_Revision = 1\<rparr>"

definition applyTransaction :: "(string \<Rightarrow> string) \<Rightarrow> diskState \<Rightarrow> Transaction \<Rightarrow> diskState result" where
  "applyTransaction num s tx =
     andThen (fold_reduce expect_step [] (tx_Expected tx)) (\<lambda>expected.
     andThen (fold_reduce (mutation_step s expected) [] (tx_Mutations tx)) (\<lambda>mutations.
     ensure (fail_if (length expected \<noteq> length mutations) (Errorf ''every expected aggregate must have exactly one mutation'')) (
     andThen (fold_reduce (event_step s (tx_CommandID tx) mutations) [] (tx_Events tx)) (\<lambda>events.
     ensure (fail_if (length events \<noteq> length mutations) (Errorf ''every aggregate mutation requires one matching event'')) (
     andThen (fold_reduce (intent_step s (tx_At tx)) [] (tx_Intents tx)) (\<lambda>_.
     Inr (s\<lparr>ds_Aggregates := fold (\<lambda>(k, m). AList.update k m) mutations (ds_Aggregates s),
            ds_Events := fold (\<lambda>e. AList.update (ev_EventID e) (cloneEvent num e)) (tx_Events tx) (ds_Events s),
            ds_Intents := fold (\<lambda>seed. AList.update (di_Identity (sd_Intent seed)) (seeded_intent num (tx_At tx) seed)) (tx_Intents tx)
              (ds_Intents s)\<rparr>)))))))"

section \<open>The open store\<close>

record IoEnv =
  io_ctx :: "error option"
  io_authority :: "error option"
  io_append :: append_outcome

record Store =
  fs_state :: diskState
  fs_file :: "u8 list"
  fs_frameCount :: nat
  fs_closed :: bool
  fs_poisoned :: "error option"

definition ensureOpen :: "IoEnv \<Rightarrow> Store \<Rightarrow> error option" where
  "ensureOpen env fs = first_error [fail_if (fs_closed fs) ErrClosed, fs_poisoned fs, io_authority env]"

definition checkpoint_frame :: "(diskState \<Rightarrow> string result) \<Rightarrow> diskState \<Rightarrow> u8 list result" where
  "checkpoint_frame enc s = andThen (enc s) (\<lambda>payload. encodeFrame (string_bytes payload))"

definition store_append :: "(diskState \<Rightarrow> string result) \<Rightarrow> IoEnv \<Rightarrow> Store \<Rightarrow> diskState \<Rightarrow> Store \<times> error option" where
  "store_append enc env fs next =
     (case checkpoint_frame enc next of
        Inl e \<Rightarrow> (fs, Some e)
      | Inr frame \<Rightarrow>
          (case ensureOpen env fs of
             Some e \<Rightarrow> (fs, Some e)
           | None \<Rightarrow>
               (case append_frame (io_append env) (fs_file fs) (fs_frameCount fs) frame of
                  ((file, n), err) \<Rightarrow> (fs\<lparr>fs_file := file, fs_frameCount := n, fs_poisoned := err\<rparr>, err))))"

text \<open>The end of every operation that writes: append the next state, then publish it.\<close>

definition publish :: "(diskState \<Rightarrow> string result) \<Rightarrow> IoEnv \<Rightarrow> Store \<Rightarrow> diskState \<Rightarrow> 'a \<Rightarrow> Store \<times> 'a result" where
  "publish enc env fs next answer =
     (case store_append enc env fs next of
        (fs', Some e) \<Rightarrow> (fs', Inl e) | (fs', None) \<Rightarrow> (fs'\<lparr>fs_state := next\<rparr>, Inr answer))"

text \<open>Early returns of an operation on the store.\<close>

definition guard :: "error option \<Rightarrow> Store \<Rightarrow> Store \<times> 'a result \<Rightarrow> Store \<times> 'a result" where
  "guard v fs k = (case v of Some e \<Rightarrow> (fs, Inl e) | None \<Rightarrow> k)"

definition bindS :: "'b result \<Rightarrow> Store \<Rightarrow> ('b \<Rightarrow> Store \<times> 'a result) \<Rightarrow> Store \<times> 'a result" where
  "bindS r fs k = (case r of Inl e \<Rightarrow> (fs, Inl e) | Inr x \<Rightarrow> k x)"

definition opened :: "IoEnv \<Rightarrow> Store \<Rightarrow> Store \<times> 'a result \<Rightarrow> Store \<times> 'a result" where
  "opened env fs k = guard (io_ctx env) fs (guard (ensureOpen env fs) fs k)"

definition Commit ::
  "(string \<Rightarrow> string) \<Rightarrow> (diskState \<Rightarrow> string result) \<Rightarrow> IoEnv \<Rightarrow> Store \<Rightarrow> Transaction \<Rightarrow> Store \<times> CommitResult result" where
  "Commit num enc env fs tx = opened env fs
     (case CommandIdentityKey (tx_CommandScope tx) (tx_CommandID tx) of
        Inl _ \<Rightarrow> (fs, Inl (Errorf ''transaction command scope, id, or identity digest is invalid''))
      | Inr commandKey \<Rightarrow>
          guard (fail_if (\<not> ValidDigest (tx_IdentityDigest tx)) (Errorf ''transaction command scope, id, or identity digest is invalid'')) fs
          (case map_of (ds_Commands (fs_state fs)) commandKey of
             Some prior \<Rightarrow>
               guard (first_error
                 [fail_if (co_Scope prior \<noteq> tx_CommandScope tx \<or> co_CommandID prior \<noteq> tx_CommandID tx) ErrCorrupt,
                  fail_if (co_IdentityDigest prior \<noteq> tx_IdentityDigest tx) ErrIdentityConflict]) fs
               (fs, Inr \<lparr>cm_Replay = True, cm_OutcomeDigest = co_OutcomeDigest prior, cm_Outcome = co_Outcome prior\<rparr>)
           | None \<Rightarrow>
               guard (fail_if (IsZero (tx_At tx)) (Errorf ''transaction time is required'')) fs (
               bindS (normalizeRaw (tx_Outcome tx)) fs (\<lambda>(outcome, digest).
               bindS (applyTransaction num (fs_state fs) tx) fs (\<lambda>next.
               publish enc env fs
                 (next\<lparr>ds_Commands := AList.update commandKey \<lparr>co_Scope = tx_CommandScope tx, co_CommandID = tx_CommandID tx,
                    co_IdentityDigest = tx_IdentityDigest tx, co_OutcomeDigest = digest, co_Outcome = outcome\<rparr> (ds_Commands next)\<rparr>)
                 \<lparr>cm_Replay = False, cm_OutcomeDigest = digest, cm_Outcome = outcome\<rparr>)))))"

definition GetAggregate :: "IoEnv \<Rightarrow> Store \<Rightarrow> AggregateKey \<Rightarrow> AggregateRecord result" where
  "GetAggregate env fs key =
     ensure (io_ctx env) (ensure (ensureOpen env fs) (
     case map_of (ds_Aggregates (fs_state fs)) (keyString key) of None \<Rightarrow> Inl ErrNotFound | Some r \<Rightarrow> Inr r))"

definition listed_ids :: "diskState \<Rightarrow> string \<Rightarrow> string \<Rightarrow> string list" where
  "listed_ids s aggregateType afterID = sort (map (\<lambda>kr. ak_ID (ag_Key (snd kr)))
     (filter (\<lambda>kr. ak_Type (ag_Key (snd kr)) = aggregateType \<and> ak_ID (ag_Key (snd kr)) > afterID) (ds_Aggregates s)))"

text \<open>A missing entry of a Go map reads as the zero value.\<close>

definition zero_aggregate :: AggregateRecord where
  "zero_aggregate = \<lparr>ag_Key = \<lparr>ak_Type = [], ak_ID = []\<rparr>, ag_Revision = 0, ag_PayloadDigest = [], ag_Payload = []\<rparr>"

definition aggregate_at :: "diskState \<Rightarrow> string \<Rightarrow> string \<Rightarrow> AggregateRecord" where
  "aggregate_at s ty i = (case map_of (ds_Aggregates s) (keyString \<lparr>ak_Type = ty, ak_ID = i\<rparr>) of None \<Rightarrow> zero_aggregate | Some r \<Rightarrow> r)"

definition ListAggregates :: "IoEnv \<Rightarrow> Store \<Rightarrow> string \<Rightarrow> string \<Rightarrow> int \<Rightarrow> AggregateRecord list result" where
  "ListAggregates env fs aggregateType afterID limit =
     ensure (io_ctx env) (
     ensure (fail_if (\<not> ValidIdentifier aggregateType \<or> (afterID \<noteq> [] \<and> \<not> ValidIdentifier afterID) \<or> limit \<le> 0 \<or> limit > 1000)
               (Errorf ''aggregate list type, cursor, or limit is invalid'')) (
     ensure (ensureOpen env fs) (
     Inr (map (aggregate_at (fs_state fs) aggregateType) (take (nat limit) (listed_ids (fs_state fs) aggregateType afterID))))))"

definition EventsAfter :: "(string \<Rightarrow> string) \<Rightarrow> IoEnv \<Rightarrow> Store \<Rightarrow> AggregateKey \<Rightarrow> u64 \<Rightarrow> int \<Rightarrow> DomainEvent list result" where
  "EventsAfter num env fs key revision limit =
     ensure (io_ctx env) (
     ensure (fail_if (limit \<le> 0) (Errorf ''event limit must be positive'')) (
     ensure (ensureOpen env fs) (
     Inr (take (nat limit) (sort_key (\<lambda>e. unat (ev_AggregateRevision e)) (map (cloneEvent num)
       (filter (\<lambda>e. ev_AggregateType e = ak_Type key \<and> ev_AggregateID e = ak_ID key \<and> ev_AggregateRevision e > revision)
          (map snd (ds_Events (fs_state fs))))))))))"

section \<open>Intents\<close>

definition claimable :: "ClaimRequest \<Rightarrow> IntentRecord \<Rightarrow> bool" where
  "claimable q r \<longleftrightarrow> (cq_Kinds q = [] \<or> di_Kind (ir_Intent r) \<in> set (cq_Kinds q)) \<and>
     (ir_Status r = IntentPending \<and> \<not> After (ir_AvailableAt r) (cq_Now q) \<or>
      ir_Status r = IntentLeased \<and> (case ir_LeaseExpiresAt r of None \<Rightarrow> False | Some t \<Rightarrow> \<not> After t (cq_Now q)))"

text \<open>Candidates ordered by availability and then by identity, up to the limit.\<close>

definition claim_candidates :: "diskState \<Rightarrow> ClaimRequest \<Rightarrow> (string \<times> IntentRecord) list" where
  "claim_candidates s q = take (nat (cq_Limit q))
     (sort_key (\<lambda>c. ir_AvailableAt (snd c)) (sort_key fst (filter (\<lambda>c. claimable q (snd c)) (ds_Intents s))))"

definition claimed_record :: "ClaimRequest \<Rightarrow> string \<Rightarrow> IntentRecord \<Rightarrow> IntentRecord" where
  "claimed_record q leaseHash r = r\<lparr>ir_Status := IntentLeased, ir_AttemptCount := ir_AttemptCount r + 1, ir_LeaseOwner := cq_OwnerRef q,
     ir_LeaseTokenHash := leaseHash, ir_LeaseExpiresAt := Some (cq_LeaseExpiresAt q), ir_Revision := ir_Revision r + 1\<rparr>"

definition claim_all :: "ClaimRequest \<Rightarrow> string \<Rightarrow> (string \<times> IntentRecord) list \<Rightarrow> IntentRecord gomap \<Rightarrow> IntentRecord gomap" where
  "claim_all q leaseHash cs m = fold (\<lambda>c. AList.update (fst c) (claimed_record q leaseHash (snd c))) cs m"

definition ClaimIntents ::
  "(string \<Rightarrow> string) \<Rightarrow> (diskState \<Rightarrow> string result) \<Rightarrow> IoEnv \<Rightarrow> Store \<Rightarrow> ClaimRequest \<Rightarrow> Store \<times> ClaimedIntent list result" where
  "ClaimIntents num enc env fs q = opened env fs (
     guard (fail_if (\<not> ValidIdentifier (cq_OwnerRef q) \<or> IsZero (cq_Now q) \<or> \<not> After (cq_LeaseExpiresAt q) (cq_Now q) \<or> cq_Limit q \<le> 0)
              (Errorf ''intent claim owner, times, or limit is invalid'')) fs (
     bindS (PrivateTokenDigest (cq_LeaseToken q)) fs (\<lambda>leaseHash.
     guard (fail_if (\<exists>k \<in> set (cq_Kinds q). \<not> validIntentKind k) (Errorf ''intent claim kind is invalid'')) fs (
     if claim_candidates (fs_state fs) q = [] then (fs, Inr [])
     else publish enc env fs
       ((fs_state fs)\<lparr>ds_Intents := claim_all q leaseHash (claim_candidates (fs_state fs) q) (ds_Intents (fs_state fs))\<rparr>)
       (map (\<lambda>c. \<lparr>ci_Record = cloneIntent num (claimed_record q leaseHash (snd c)), ci_LeaseToken = cq_LeaseToken q\<rparr>)
          (claim_candidates (fs_state fs) q))))))"

definition intent_fence_holds :: "IntentRecord \<Rightarrow> IntentFence \<Rightarrow> bool" where
  "intent_fence_holds r f \<longleftrightarrow> ir_Status r = IntentLeased \<and> ir_Revision r = nf_ExpectedRevision f \<and> ir_LeaseOwner r = nf_OwnerRef f \<and>
     PrivateTokenDigest (nf_LeaseToken f) = Inr (ir_LeaseTokenHash r) \<and> \<not> IsZero (nf_At f) \<and>
     (case ir_LeaseExpiresAt r of None \<Rightarrow> False | Some t \<Rightarrow> Before (nf_At f) t)"

definition end_lease :: "IntentRecord \<Rightarrow> IntentRecord" where
  "end_lease r = r\<lparr>ir_LeaseOwner := [], ir_LeaseTokenHash := [], ir_LeaseExpiresAt := None, ir_Revision := ir_Revision r + 1\<rparr>"

definition foldIntent ::
  "(string \<Rightarrow> string) \<Rightarrow> (diskState \<Rightarrow> string result) \<Rightarrow> IoEnv \<Rightarrow> Store \<Rightarrow> IntentFence \<Rightarrow> (IntentRecord \<Rightarrow> IntentRecord) \<Rightarrow>
   Store \<times> IntentRecord result" where
  "foldIntent num enc env fs fence change = opened env fs
     (case map_of (ds_Intents (fs_state fs)) (nf_IntentID fence) of
        None \<Rightarrow> (fs, Inl ErrNotFound)
      | Some r \<Rightarrow>
          guard (fail_if (\<not> intent_fence_holds r fence) (ErrLeaseConflict StorePkg)) fs
          (publish enc env fs
             ((fs_state fs)\<lparr>ds_Intents := AList.update (nf_IntentID fence) (end_lease (change r)) (ds_Intents (fs_state fs))\<rparr>)
             (cloneIntent num (end_lease (change r)))))"

definition completed_intent :: "instant \<Rightarrow> IntentRecord \<Rightarrow> IntentRecord" where
  "completed_intent at r = r\<lparr>ir_Status := IntentCompleted, ir_CompletedAt := Some at, ir_LastFailure := None\<rparr>"

definition CompleteIntent ::
  "(string \<Rightarrow> string) \<Rightarrow> (diskState \<Rightarrow> string result) \<Rightarrow> IoEnv \<Rightarrow> Store \<Rightarrow> IntentFence \<Rightarrow> Store \<times> IntentRecord result" where
  "CompleteIntent num enc env fs fence = foldIntent num enc env fs fence (completed_intent (nf_At fence))"

definition failed_intent :: "IntentFailure \<Rightarrow> IntentRecord \<Rightarrow> IntentRecord" where
  "failed_intent f r = (\<lambda>n. if if_Dead f then n\<lparr>ir_Status := IntentDead, ir_CompletedAt := Some (nf_At (if_Fence f))\<rparr>
       else n\<lparr>ir_Status := IntentPending, ir_AvailableAt := (case if_AvailableAt f of None \<Rightarrow> zero_time | Some t \<Rightarrow> t)\<rparr>)
     (r\<lparr>ir_LastFailure := Some (if_Failure f)\<rparr>)"

definition FailIntent ::
  "(string \<Rightarrow> string) \<Rightarrow> (diskState \<Rightarrow> string result) \<Rightarrow> IoEnv \<Rightarrow> Store \<Rightarrow> IntentFailure \<Rightarrow> Store \<times> IntentRecord result" where
  "FailIntent num enc env fs f =
     guard (first_error
       [fail_if (\<not> FailureClass_Valid (fail_Class (if_Failure f)) \<or> \<not> ValidIdentifier (fail_Code (if_Failure f)) \<or> fail_Message (if_Failure f) = [])
          (Errorf ''intent failure is invalid''),
        fail_if (\<not> if_Dead f \<and> (case if_AvailableAt f of None \<Rightarrow> True | Some t \<Rightarrow> \<not> After t (nf_At (if_Fence f))))
          (Errorf ''retryable intent failure requires a future available time'')]) fs
     (foldIntent num enc env fs (if_Fence f) (failed_intent f))"

definition GetIntent :: "(string \<Rightarrow> string) \<Rightarrow> IoEnv \<Rightarrow> Store \<Rightarrow> string \<Rightarrow> IntentRecord result" where
  "GetIntent num env fs i =
     ensure (io_ctx env) (ensure (ensureOpen env fs) (
     case map_of (ds_Intents (fs_state fs)) i of None \<Rightarrow> Inl ErrNotFound | Some r \<Rightarrow> Inr (cloneIntent num r)))"

section \<open>Inbox, closing and opening\<close>

definition RecordInbox :: "(diskState \<Rightarrow> string result) \<Rightarrow> IoEnv \<Rightarrow> Store \<Rightarrow> InboxRecord \<Rightarrow> Store \<times> bool result" where
  "RecordInbox enc env fs r = opened env fs (
     guard (fail_if (\<not> inbox_record_ok r) (Errorf ''inbox identity, digest, or time is invalid'')) fs
     (case map_of (ds_Inbox (fs_state fs)) (inbox_key r) of
        Some prior \<Rightarrow> guard (fail_if (ib_PayloadDigest prior \<noteq> ib_PayloadDigest r) ErrIdentityConflict) fs (fs, Inr True)
      | None \<Rightarrow> publish enc env fs ((fs_state fs)\<lparr>ds_Inbox := AList.update (inbox_key r) r (ds_Inbox (fs_state fs))\<rparr>) False))"

definition Close :: "Store \<Rightarrow> Store" where
  "Close fs = fs\<lparr>fs_closed := True\<rparr>"

definition checkpoint_decode :: "(u8 list \<Rightarrow> diskState result) \<Rightarrow> u8 list \<Rightarrow> diskState result" where
  "checkpoint_decode unmarshal payload =
     (case unmarshal payload of Inl _ \<Rightarrow> Inl ErrCorrupt | Inr s \<Rightarrow> ensure (validateState s) (Inr s))"

text \<open>Opening a store whose file operations succeed, on a file with the given bytes.\<close>

definition open_store :: "(diskState \<Rightarrow> string result) \<Rightarrow> (u8 list \<Rightarrow> diskState result) \<Rightarrow> u8 list \<Rightarrow> Store result" where
  "open_store enc unmarshal file =
     andThen (load (checkpoint_decode unmarshal) emptyState file) (\<lambda>(state, offset, frameCount, partialTail).
     ensure (fail_if (0 < length file \<and> frameCount = 0 \<and> \<not> partialV3Prefix file) ErrCorrupt) (
     if frameCount > 1 then
       andThen (checkpoint_frame enc state) (\<lambda>frame.
       Inr \<lparr>fs_state = state, fs_file = frame, fs_frameCount = 1, fs_closed = False, fs_poisoned = None\<rparr>)
     else Inr \<lparr>fs_state = state, fs_file = (if partialTail then take offset file else file), fs_frameCount = frameCount, fs_closed = False,
            fs_poisoned = None\<rparr>))"

section \<open>Requests\<close>

datatype StoreRequest =
    CommitTx Transaction
  | Claim ClaimRequest
  | Complete IntentFence
  | Fail IntentFailure
  | Receive InboxRecord

definition perform :: "(string \<Rightarrow> string) \<Rightarrow> (diskState \<Rightarrow> string result) \<Rightarrow> Store \<Rightarrow> IoEnv \<times> StoreRequest \<Rightarrow> Store" where
  "perform num enc fs er = (case er of (env, req) \<Rightarrow> (case req of
     CommitTx tx \<Rightarrow> fst (Commit num enc env fs tx) | Claim q \<Rightarrow> fst (ClaimIntents num enc env fs q)
   | Complete f \<Rightarrow> fst (CompleteIntent num enc env fs f) | Fail f \<Rightarrow> fst (FailIntent num enc env fs f)
   | Receive r \<Rightarrow> fst (RecordInbox enc env fs r)))"

end
