(* ===== verification/Durable_Props.thy ===== *)
theory Durable_Props
  imports Durable_Store
begin

text \<open>
  What the operations of the store do to the durable state. Every operation that writes makes
  one logical step; the step is written as a frame and published only when the write
  succeeded. The lemmas here are about single steps.
\<close>

section \<open>Logical steps\<close>

definition committed_state :: "Transaction \<Rightarrow> string \<Rightarrow> string \<Rightarrow> string \<Rightarrow> diskState \<Rightarrow> diskState" where
  "committed_state tx key outcome digest s = s\<lparr>ds_Commands := AList.update key \<lparr>co_Scope = tx_CommandScope tx, co_CommandID = tx_CommandID tx,
     co_IdentityDigest = tx_IdentityDigest tx, co_OutcomeDigest = digest, co_Outcome = outcome\<rparr> (ds_Commands s)\<rparr>"

inductive attempt :: "(string \<Rightarrow> string) \<Rightarrow> diskState \<Rightarrow> StoreRequest \<Rightarrow> diskState \<Rightarrow> bool" for num where
  commit: "CommandIdentityKey (tx_CommandScope tx) (tx_CommandID tx) = Inr key \<Longrightarrow> ValidDigest (tx_IdentityDigest tx) \<Longrightarrow>
     map_of (ds_Commands s) key = None \<Longrightarrow> tx_At tx \<noteq> 0 \<Longrightarrow> normalizeRaw (tx_Outcome tx) = Inr (outcome, digest) \<Longrightarrow>
     applyTransaction num s tx = Inr mid \<Longrightarrow> attempt num s (CommitTx tx) (committed_state tx key outcome digest mid)"
| claim: "ValidIdentifier (cq_OwnerRef q) \<Longrightarrow> PrivateTokenDigest (cq_LeaseToken q) = Inr h \<Longrightarrow>
     attempt num s (Claim q) (s\<lparr>ds_Intents := claim_all q h (claim_candidates s q) (ds_Intents s)\<rparr>)"
| complete: "map_of (ds_Intents s) (nf_IntentID f) = Some r \<Longrightarrow> intent_fence_holds r f \<Longrightarrow>
     attempt num s (Complete f) (s\<lparr>ds_Intents := AList.update (nf_IntentID f) (end_lease (completed_intent (nf_At f) r)) (ds_Intents s)\<rparr>)"
| fail: "map_of (ds_Intents s) (nf_IntentID (if_Fence f)) = Some r \<Longrightarrow> intent_fence_holds r (if_Fence f) \<Longrightarrow>
     if_Dead f \<or> (\<exists>t. if_AvailableAt f = Some t \<and> nf_At (if_Fence f) < t) \<Longrightarrow>
     attempt num s (Fail f) (s\<lparr>ds_Intents := AList.update (nf_IntentID (if_Fence f)) (end_lease (failed_intent f r)) (ds_Intents s)\<rparr>)"
| receive: "inbox_record_ok r \<Longrightarrow> map_of (ds_Inbox s) (inbox_key r) = None \<Longrightarrow>
     attempt num s (Receive r) (s\<lparr>ds_Inbox := AList.update (inbox_key r) r (ds_Inbox s)\<rparr>)"

inductive_cases attempt_commitE: "attempt num s (CommitTx tx) t"
inductive_cases attempt_claimE: "attempt num s (Claim q) t"
inductive_cases attempt_completeE: "attempt num s (Complete f) t"
inductive_cases attempt_failE: "attempt num s (Fail f) t"
inductive_cases attempt_receiveE: "attempt num s (Receive r) t"

text \<open>What a write leaves behind.\<close>

definition written :: "(diskState \<Rightarrow> string result) \<Rightarrow> IoEnv \<Rightarrow> Store \<Rightarrow> diskState \<Rightarrow> Store \<Rightarrow> bool" where
  "written enc env fs next fs' \<longleftrightarrow> (\<exists>frame fl n err. checkpoint_frame enc next = Inr frame \<and> ensureOpen env fs = None \<and>
     append_frame (io_append env) (fs_file fs) (fs_frameCount fs) frame = ((fl, n), err) \<and>
     fs' = fs\<lparr>fs_file := fl, fs_frameCount := n, fs_poisoned := err, fs_state := (if err = None then next else fs_state fs)\<rparr>)"

lemma publish_cases:
  assumes "publish enc env fs next a = (fs', r)"
  obtains (kept) e where "fs' = fs" "r = Inl e"
  | (failed) e where "written enc env fs next fs'" "r = Inl e" "fs_poisoned fs' = Some e"
  | (finished) "written enc env fs next fs'" "r = Inr a" "fs_poisoned fs' = None"
proof -
  show thesis
  proof (cases "checkpoint_frame enc next")
    case (Inl e)
    then show thesis using assms kept by (auto simp: publish_def store_append_def)
  next
    case frame: (Inr frame)
    show thesis
    proof (cases "ensureOpen env fs")
      case (Some e)
      then show thesis using assms kept frame by (auto simp: publish_def store_append_def)
    next
      case None
      obtain fl n err where a: "append_frame (io_append env) (fs_file fs) (fs_frameCount fs) frame = ((fl, n), err)"
        by (metis surj_pair)
      let ?t = "fs\<lparr>fs_file := fl, fs_frameCount := n, fs_poisoned := err\<rparr>"
      have p: "publish enc env fs next a = (case err of Some e \<Rightarrow> (?t, Inl e) | None \<Rightarrow> (?t\<lparr>fs_state := next\<rparr>, Inr a))"
        using frame None a by (simp add: publish_def store_append_def split: option.splits)
      show thesis
      proof (cases err)
        case err: None
        then have "fs' = ?t\<lparr>fs_state := next\<rparr>" "r = Inr a" using p assms by simp_all
        then show thesis using finished frame None a err by (auto simp: written_def)
      next
        case err: (Some e)
        then have "fs' = ?t" "r = Inl e" using p assms by simp_all
        then show thesis using failed [of e] frame None a err by (auto simp: written_def)
      qed
    qed
  qed
qed

lemma guard_cases: "guard v fs k = (fs', r) \<Longrightarrow> (\<exists>e. v = Some e \<and> fs' = fs \<and> r = Inl e) \<or> (v = None \<and> k = (fs', r))"
  by (cases v) (auto simp: guard_def)

lemma bindS_cases: "bindS v fs k = (fs', r) \<Longrightarrow> (\<exists>e. v = Inl e \<and> fs' = fs \<and> r = Inl e) \<or> (\<exists>x. v = Inr x \<and> k x = (fs', r))"
  by (cases v) (auto simp: bindS_def)

lemma opened_cases:
  "opened env fs k = (fs', r) \<Longrightarrow> (\<exists>e. fs' = fs \<and> r = Inl e) \<or> (io_ctx env = None \<and> ensureOpen env fs = None \<and> k = (fs', r))"
  by (auto simp: opened_def dest!: guard_cases)

text \<open>
  Each operation either leaves the store as it is or makes one logical step and writes it;
  it answers without an error only in the second case, or when there is nothing to write.
\<close>

definition performs :: "(string \<Rightarrow> string) \<Rightarrow> (diskState \<Rightarrow> string result) \<Rightarrow> IoEnv \<Rightarrow> Store \<Rightarrow> StoreRequest \<Rightarrow> Store \<Rightarrow> bool" where
  "performs num enc env fs req fs' \<longleftrightarrow> (\<exists>next. attempt num (fs_state fs) req next \<and> written enc env fs next fs')"

lemma published:
  assumes "publish enc env fs next a = (fs', r)" and "attempt num (fs_state fs) req next"
  shows "fs' = fs \<and> (\<exists>e. r = Inl e) \<or> performs num enc env fs req fs' \<and> (case r of Inl e \<Rightarrow> fs_poisoned fs' = Some e | Inr b \<Rightarrow> b = a \<and> fs_poisoned fs' = None)"
  using assms(1) by (cases rule: publish_cases) (use assms(2) in \<open>auto simp: performs_def\<close>)

lemma Commit_cases:
  assumes "Commit num enc env fs tx = (fs', r)"
  obtains (rejected) e where "fs' = fs" "r = Inl e"
  | (replayed) key prior where "fs' = fs" "CommandIdentityKey (tx_CommandScope tx) (tx_CommandID tx) = Inr key"
      "map_of (ds_Commands (fs_state fs)) key = Some prior" "co_IdentityDigest prior = tx_IdentityDigest tx"
      "r = Inr \<lparr>cm_Replay = True, cm_OutcomeDigest = co_OutcomeDigest prior, cm_Outcome = co_Outcome prior\<rparr>"
  | (torn) e where "performs num enc env fs (CommitTx tx) fs'" "r = Inl e" "fs_poisoned fs' = Some e"
  | (committed) key outcome digest mid where "CommandIdentityKey (tx_CommandScope tx) (tx_CommandID tx) = Inr key"
      "written enc env fs (committed_state tx key outcome digest mid) fs'" "applyTransaction num (fs_state fs) tx = Inr mid"
      "attempt num (fs_state fs) (CommitTx tx) (committed_state tx key outcome digest mid)"
      "r = Inr \<lparr>cm_Replay = False, cm_OutcomeDigest = digest, cm_Outcome = outcome\<rparr>" "fs_poisoned fs' = None"
proof -
  consider "\<exists>e. fs' = fs \<and> r = Inl e"
    | (body) key where "CommandIdentityKey (tx_CommandScope tx) (tx_CommandID tx) = Inr key" "ValidDigest (tx_IdentityDigest tx)"
      "(case map_of (ds_Commands (fs_state fs)) key of
             Some prior \<Rightarrow>
               guard (first_error
                 [fail_if (co_Scope prior \<noteq> tx_CommandScope tx \<or> co_CommandID prior \<noteq> tx_CommandID tx) ErrCorrupt,
                  fail_if (co_IdentityDigest prior \<noteq> tx_IdentityDigest tx) ErrIdentityConflict]) fs
               (fs, Inr \<lparr>cm_Replay = True, cm_OutcomeDigest = co_OutcomeDigest prior, cm_Outcome = co_Outcome prior\<rparr>)
           | None \<Rightarrow>
               guard (fail_if (IsZero (tx_At tx)) (Errorf ''transaction time is required'')) fs (
               bindS (normalizeRaw (tx_Outcome tx)) fs (\<lambda>(outcome, digest).
               bindS (applyTransaction num (fs_state fs) tx) fs (\<lambda>next.
               publish enc env fs (committed_state tx key outcome digest next)
                 \<lparr>cm_Replay = False, cm_OutcomeDigest = digest, cm_Outcome = outcome\<rparr>)))) = (fs', r)"
    using assms unfolding Commit_def committed_state_def
    by (auto dest!: opened_cases guard_cases split: sum.splits)
  then show thesis
  proof cases
    case 1
    then show thesis using rejected by blast
  next
    case (body key)
    show thesis
    proof (cases "map_of (ds_Commands (fs_state fs)) key")
      case (Some prior)
      then show thesis using body rejected replayed [of key prior] by (auto dest!: guard_cases)
    next
      case none: None
      show thesis
      proof (cases "tx_At tx = 0")
        case True
        then show thesis using body none rejected by (auto simp: guard_def)
      next
        case at: False
        show thesis
        proof (cases "normalizeRaw (tx_Outcome tx)")
          case (Inl e)
          then show thesis using body none at rejected by (auto simp: guard_def bindS_def)
        next
          case norm: (Inr od)
          obtain outcome digest where od: "od = (outcome, digest)" by force
          show thesis
          proof (cases "applyTransaction num (fs_state fs) tx")
            case (Inl e)
            then show thesis using body none at norm od rejected by (auto simp: guard_def bindS_def)
          next
            case (Inr mid)
            let ?n = "committed_state tx key outcome digest mid"
            let ?a = "\<lparr>cm_Replay = False, cm_OutcomeDigest = digest, cm_Outcome = outcome\<rparr>"
            have p: "publish enc env fs ?n ?a = (fs', r)" using body none at norm od Inr by (simp add: guard_def bindS_def)
            have at: "attempt num (fs_state fs) (CommitTx tx) ?n"
              by (rule attempt.commit) (use body none at norm od Inr in simp_all)
            show thesis using p
            proof (cases rule: publish_cases)
              case kept
              then show thesis using rejected by blast
            next
              case failed
              then show thesis using torn at by (auto simp: performs_def)
            next
              case finished
              then show thesis using committed body(1) Inr at by blast
            qed
          qed
        qed
      qed
    qed
  qed
qed

lemma foldIntent_cases:
  assumes "foldIntent num enc env fs f change = (fs', r)"
    and "\<And>x. map_of (ds_Intents (fs_state fs)) (nf_IntentID f) = Some x \<Longrightarrow> intent_fence_holds x f \<Longrightarrow>
      attempt num (fs_state fs) req ((fs_state fs)\<lparr>ds_Intents := AList.update (nf_IntentID f) (end_lease (change x)) (ds_Intents (fs_state fs))\<rparr>)"
  shows "fs' = fs \<and> (\<exists>e. r = Inl e) \<or> performs num enc env fs req fs'"
proof (cases "map_of (ds_Intents (fs_state fs)) (nf_IntentID f)")
  case None
  then show ?thesis using assms(1) by (auto simp: foldIntent_def dest!: opened_cases)
next
  case (Some x)
  have "fs' = fs \<and> (\<exists>e. r = Inl e) \<or> intent_fence_holds x f \<and> publish enc env fs
      ((fs_state fs)\<lparr>ds_Intents := AList.update (nf_IntentID f) (end_lease (change x)) (ds_Intents (fs_state fs))\<rparr>)
      (cloneIntent num (end_lease (change x))) = (fs', r)"
    using assms(1) Some by (auto simp: foldIntent_def dest!: opened_cases guard_cases)
  then show ?thesis
  proof
    assume "fs' = fs \<and> (\<exists>e. r = Inl e)"
    then show ?thesis ..
  next
    assume *: "intent_fence_holds x f \<and> publish enc env fs
      ((fs_state fs)\<lparr>ds_Intents := AList.update (nf_IntentID f) (end_lease (change x)) (ds_Intents (fs_state fs))\<rparr>)
      (cloneIntent num (end_lease (change x))) = (fs', r)"
    show ?thesis using published [OF conjunct2 [OF *] assms(2) [OF Some conjunct1 [OF *]]] by blast
  qed
qed

lemma perform_cases:
  "perform num enc fs (env, req) = fs \<or> performs num enc env fs req (perform num enc fs (env, req))"
proof (cases req)
  case (CommitTx tx)
  obtain fs' r where c: "Commit num enc env fs tx = (fs', r)" by force
  then show ?thesis
    by (cases rule: Commit_cases) (auto simp: perform_def CommitTx c performs_def)
next
  case (Claim q)
  obtain fs' r where c: "ClaimIntents num enc env fs q = (fs', r)" by force
  have "fs' = fs \<or> (\<exists>h a. ValidIdentifier (cq_OwnerRef q) \<and> PrivateTokenDigest (cq_LeaseToken q) = Inr h \<and> publish enc env fs
      ((fs_state fs)\<lparr>ds_Intents := claim_all q h (claim_candidates (fs_state fs) q) (ds_Intents (fs_state fs))\<rparr>) a = (fs', r))"
  proof (cases "fs' = fs")
    case False
    obtain h where h: "PrivateTokenDigest (cq_LeaseToken q) = Inr h" and o: "ValidIdentifier (cq_OwnerRef q)" and
      b: "(if claim_candidates (fs_state fs) q = [] then (fs, Inr [])
         else publish enc env fs
           ((fs_state fs)\<lparr>ds_Intents := claim_all q h (claim_candidates (fs_state fs) q) (ds_Intents (fs_state fs))\<rparr>)
           (map (\<lambda>c. \<lparr>ci_Record = cloneIntent num (claimed_record q h (snd c)), ci_LeaseToken = cq_LeaseToken q\<rparr>)
              (claim_candidates (fs_state fs) q))) = (fs', r)"
      using opened_cases [OF c [unfolded ClaimIntents_def]] False by (auto dest!: guard_cases bindS_cases)
    show ?thesis using b False h o by (auto split: if_splits)
  qed simp
  then have "fs' = fs \<or> performs num enc env fs (Claim q) fs'"
  proof (elim disjE exE conjE)
    fix h a
    assume o: "ValidIdentifier (cq_OwnerRef q)" and h: "PrivateTokenDigest (cq_LeaseToken q) = Inr h" and
      p: "publish enc env fs ((fs_state fs)\<lparr>ds_Intents := claim_all q h (claim_candidates (fs_state fs) q) (ds_Intents (fs_state fs))\<rparr>) a = (fs', r)"
    show ?thesis using published [OF p attempt.claim [OF o h]] by blast
  qed simp
  then show ?thesis by (auto simp: perform_def Claim c)
next
  case (Complete f)
  obtain fs' r where c: "CompleteIntent num enc env fs f = (fs', r)" by force
  have "fs' = fs \<or> performs num enc env fs (Complete f) fs'"
    using foldIntent_cases [OF c [unfolded CompleteIntent_def] attempt.complete [of "fs_state fs" f _ num]] by blast
  then show ?thesis by (auto simp: perform_def Complete c)
next
  case (Fail f)
  obtain fs' r where c: "FailIntent num enc env fs f = (fs', r)" by force
  have "fs' = fs \<or> (if_Dead f \<or> (\<exists>t. if_AvailableAt f = Some t \<and> nf_At (if_Fence f) < t)) \<and>
      foldIntent num enc env fs (if_Fence f) (failed_intent f) = (fs', r)"
    using c unfolding FailIntent_def by (auto dest!: guard_cases split: option.splits)
  then have "fs' = fs \<or> performs num enc env fs (Fail f) fs'"
  proof (rule disjE)
    assume l: "(if_Dead f \<or> (\<exists>t. if_AvailableAt f = Some t \<and> nf_At (if_Fence f) < t)) \<and>
      foldIntent num enc env fs (if_Fence f) (failed_intent f) = (fs', r)"
    show ?thesis using foldIntent_cases [OF conjunct2 [OF l] attempt.fail [OF _ _ conjunct1 [OF l], where num = num]] by blast
  qed simp
  then show ?thesis by (auto simp: perform_def Fail c)
next
  case (Receive x)
  obtain fs' r where c: "RecordInbox enc env fs x = (fs', r)" by force
  have "fs' = fs \<or> inbox_record_ok x \<and> map_of (ds_Inbox (fs_state fs)) (inbox_key x) = None \<and>
      publish enc env fs ((fs_state fs)\<lparr>ds_Inbox := AList.update (inbox_key x) x (ds_Inbox (fs_state fs))\<rparr>) False = (fs', r)"
    using c unfolding RecordInbox_def by (auto dest!: opened_cases guard_cases split: option.splits)
  then have "fs' = fs \<or> performs num enc env fs (Receive x) fs'"
  proof (elim disjE conjE)
    assume o: "inbox_record_ok x" and h: "map_of (ds_Inbox (fs_state fs)) (inbox_key x) = None" and
      p: "publish enc env fs ((fs_state fs)\<lparr>ds_Inbox := AList.update (inbox_key x) x (ds_Inbox (fs_state fs))\<rparr>) False = (fs', r)"
    show ?thesis using published [OF p attempt.receive [OF o h]] by blast
  qed simp
  then show ?thesis by (auto simp: perform_def Receive c)
qed

section \<open>Maps\<close>

lemma map_of_updates:
  assumes "distinct (map fst ms)"
  shows "map_of (fold (\<lambda>(k, m). AList.update k m) ms al) = map_of al ++ map_of ms"
  using assms
proof (induction ms arbitrary: al)
  case (Cons x ms)
  obtain k m where x: "x = (k, m)" by force
  have "k \<notin> dom (map_of ms)" using Cons.prems by (auto simp: x dom_map_of_conv_image_fst)
  then show ?case using Cons by (auto simp: x update_conv' map_add_def fun_eq_iff domIff split: option.splits)
qed simp

lemma dom_updates: "dom (map_of (fold (\<lambda>(k, m). AList.update k m) ms al)) = dom (map_of al) \<union> fst ` set ms"
  by (induction ms arbitrary: al) (auto simp: update_conv' split: if_splits)

lemma distinct_updates: "distinct (map fst al) \<Longrightarrow> distinct (map fst (fold (\<lambda>(k, m). AList.update k m) ms al))"
  by (induction ms arbitrary: al) (auto simp: distinct_update)

lemma updates_of: "fold (\<lambda>x. AList.update (f x) (g x)) xs al = fold (\<lambda>(k, m). AList.update k m) (map (\<lambda>x. (f x, g x)) xs) al"
  by (induction xs arbitrary: al) auto

lemma ball_map_of:
  assumes "distinct (map fst al)"
  shows "(\<forall>(k, v) \<in> set al. P k v) \<longleftrightarrow> (\<forall>k v. map_of al k = Some v \<longrightarrow> P k v)"
  using map_of_eq_Some_iff [OF assms] by auto

lemma fold_reduce_invariant:
  assumes "fold_reduce f s xs = Inr t" and "P s" and "\<And>s x t. P s \<Longrightarrow> x \<in> set xs \<Longrightarrow> f s x = Inr t \<Longrightarrow> P t"
  shows "P t"
  using assms
proof (induction xs arbitrary: s)
  case (Cons x xs)
  obtain u where "f s x = Inr u" "fold_reduce f u xs = Inr t" using Cons.prems(1) by auto
  then show ?case using Cons by (metis list.set_intros(1) list.set_intros(2))
qed simp

lemma fold_reduce_all:
  assumes "fold_reduce f s xs = Inr t" and "\<And>s x t. f s x = Inr t \<Longrightarrow> Q x"
  shows "\<forall>x \<in> set xs. Q x"
  using assms(1)
proof (induction xs arbitrary: s)
  case (Cons x xs)
  then show ?case using assms(2) by auto
qed simp

section \<open>What a transaction does\<close>

text \<open>A loop that enters each item under a key that must be new.\<close>

lemma fold_keys:
  assumes "fold_reduce f acc xs = Inr t" and "distinct (map fst acc)" and "okay acc"
    and "\<And>a x b. okay a \<Longrightarrow> f a x = Inr b \<Longrightarrow> map_of a (key x) = None \<and> (\<exists>v. b = AList.update (key x) v a) \<and> okay b"
  shows "map fst t = map fst acc @ map key xs" and "distinct (map fst acc @ map key xs)"
proof -
  have "map fst t = map fst acc @ map key xs \<and> distinct (map fst acc @ map key xs)"
    using assms(1-3)
  proof (induction xs arbitrary: acc)
    case (Cons x xs)
    obtain a where a: "f acc x = Inr a" "fold_reduce f a xs = Inr t" using Cons.prems(1) by auto
    obtain v where n: "map_of acc (key x) = None" and e: "a = AList.update (key x) v acc" and i: "okay a" using assms(4) [OF Cons.prems(3) a(1)] by blast
    have u: "map fst a = map fst acc @ [key x]" using n by (simp add: e update_keys map_of_eq_None_iff)
    have "distinct (map fst a)" using Cons.prems(2) n by (simp add: u map_of_eq_None_iff)
    then show ?case using Cons.IH [OF a(2) _ i] by (simp add: u)
  qed simp
  then show "map fst t = map fst acc @ map key xs" "distinct (map fst acc @ map key xs)" by simp_all
qed

definition mutation_ok :: "diskState \<Rightarrow> string \<Rightarrow> AggregateRecord \<Rightarrow> bool" where
  "mutation_ok s k m \<longleftrightarrow> k = keyString (ag_Key m) \<and> validateKey (ag_Key m) = None \<and> ag_Revision m = current_revision s k + 1 \<and>
     normalizeRaw (ag_Payload m) = Inr (ag_Payload m, ag_PayloadDigest m)"

lemma Canonicalize_again: "Canonicalize raw = Inr c \<Longrightarrow> Canonicalize c = Inr c \<and> c \<noteq> []"
proof -
  assume c: "Canonicalize raw = Inr c"
  have "Canonicalize c = Inr c" using canonical_fixpoint [of raw DefaultLimits c] c by (simp add: Canonicalize_def DefaultLimits_def)
  moreover have "Canonicalize [] \<noteq> Inr []" by code_simp
  ultimately show ?thesis by auto
qed

lemma normalizeRaw_again:
  assumes "normalizeRaw raw = Inr (c, d)"
  shows "normalizeRaw c = Inr (c, d)" and "ValidDigest d"
proof -
  have c: "Canonicalize (if raw = [] then ''{}'' else raw) = Inr c" "Digest c = Inr d" using assms by (auto simp: normalizeRaw_def)
  show "normalizeRaw c = Inr (c, d)" using Canonicalize_again [OF c(1)] c(2) by (simp add: normalizeRaw_def)
  show "ValidDigest d" using c(2) by (auto simp: Digest_def)
qed

lemma mutations_facts:
  assumes "fold_reduce (mutation_step s expected) [] xs = Inr ms"
  shows "distinct (map fst ms)" and "\<forall>(k, m) \<in> set ms. mutation_ok s k m"
proof -
  define P where "P ms \<longleftrightarrow> distinct (map fst ms) \<and> (\<forall>k m. map_of ms k = Some m \<longrightarrow> mutation_ok s k m)" for ms :: "AggregateRecord gomap"
  have P: "P ms"
  proof (rule fold_reduce_invariant [OF assms])
    show "P []" by (simp add: P_def)
    fix a m b
    assume P: "P a" and "mutation_step s expected a m = Inr b"
    then obtain w c d where g: "validateKey (ag_Key m) = None" "ag_Revision m = w + 1" "map_of a (keyString (ag_Key m)) = None"
        "current_revision s (keyString (ag_Key m)) = w" "normalizeRaw (ag_Payload m) = Inr (c, d)" "d = ag_PayloadDigest m"
        and b: "b = AList.update (keyString (ag_Key m)) (m\<lparr>ag_Payload := c\<rparr>) a"
      by (auto simp: mutation_step_def split: option.splits sum.splits prod.splits)
    have "mutation_ok s (keyString (ag_Key m)) (m\<lparr>ag_Payload := c\<rparr>)"
      using g normalizeRaw_again(1) [OF g(5)] by (simp add: mutation_ok_def)
    then show "P b" using P by (simp add: P_def b distinct_update update_conv')
  qed
  then show d: "distinct (map fst ms)" by (simp add: P_def)
  show "\<forall>(k, m) \<in> set ms. mutation_ok s k m" using P unfolding ball_map_of [OF d] P_def by blast
qed

lemma events_facts:
  assumes "fold_reduce (event_step s cmd ms) [] xs = Inr es"
  shows "map fst es = map event_key xs" and "distinct (map event_key xs)"
    and "\<forall>e \<in> set xs. validateEvent e = None \<and> ev_CommandID e = cmd \<and> (\<exists>m. map_of ms (event_key e) = Some m \<and> ag_Revision m = ev_AggregateRevision e)"
proof -
  have step: "map_of a (event_key x) = None \<and> (\<exists>v. b = AList.update (event_key x) v a) \<and> True" if "event_step s cmd ms a x = Inr b" for a x b
    using that by (auto simp: event_step_def)
  show "map fst es = map event_key xs" "distinct (map event_key xs)"
    using fold_keys [OF assms, where okay = "\<lambda>_. True" and key = event_key] step by simp_all
  show "\<forall>e \<in> set xs. validateEvent e = None \<and> ev_CommandID e = cmd \<and> (\<exists>m. map_of ms (event_key e) = Some m \<and> ag_Revision m = ev_AggregateRevision e)"
    by (rule fold_reduce_all [OF assms]) (auto simp: event_step_def split: option.splits)
qed

lemma intents_facts:
  assumes "fold_reduce (intent_step s at) [] xs = Inr ids"
  shows "\<forall>x \<in> set xs. validateIntentSeed x at = None \<and> map_of (ds_Intents s) (di_Identity (sd_Intent x)) = None"
    and "distinct (map (\<lambda>x. di_Identity (sd_Intent x)) xs)"
proof -
  show "\<forall>x \<in> set xs. validateIntentSeed x at = None \<and> map_of (ds_Intents s) (di_Identity (sd_Intent x)) = None"
    by (rule fold_reduce_all [OF assms]) (auto simp: intent_step_def)
  define okay where "okay a \<longleftrightarrow> (\<forall>k. map_of a k \<noteq> Some False)" for a :: "bool gomap"
  have step: "map_of a (di_Identity (sd_Intent x)) = None \<and> (\<exists>v. b = AList.update (di_Identity (sd_Intent x)) v a) \<and> okay b"
    if "okay a" "intent_step s at a x = Inr b" for a x b
  proof -
    have b: "b = AList.update (di_Identity (sd_Intent x)) True a" and n: "map_of a (di_Identity (sd_Intent x)) \<noteq> Some True"
      using that(2) by (simp_all add: intent_step_def)
    have "map_of a (di_Identity (sd_Intent x)) = None" using n that(1) by (cases "map_of a (di_Identity (sd_Intent x))") (auto simp: okay_def)
    then show ?thesis using b that(1) by (auto simp: okay_def update_conv')
  qed
  have "okay []" by (simp add: okay_def)
  then show "distinct (map (\<lambda>x. di_Identity (sd_Intent x)) xs)"
    using fold_keys(2) [OF assms, where okay = okay and key = "\<lambda>x. di_Identity (sd_Intent x)"] step by simp
qed

lemma mutations_entered:
  assumes "fold_reduce (mutation_step s expected) acc xs = Inr ms" and "distinct (map fst acc)"
  shows "map_of acc k = Some a \<Longrightarrow> map_of ms k = Some a"
    and "m \<in> set xs \<Longrightarrow> \<exists>c. Canonicalize (if ag_Payload m = [] then ''{}'' else ag_Payload m) = Inr c \<and>
      map_of ms (keyString (ag_Key m)) = Some (m\<lparr>ag_Payload := c\<rparr>)"
    and "fst ` set ms = fst ` set acc \<union> (\<lambda>m. keyString (ag_Key m)) ` set xs"
proof -
  have "(map_of acc k = Some a \<longrightarrow> map_of ms k = Some a) \<and>
    (m \<in> set xs \<longrightarrow> (\<exists>c. Canonicalize (if ag_Payload m = [] then ''{}'' else ag_Payload m) = Inr c \<and>
      map_of ms (keyString (ag_Key m)) = Some (m\<lparr>ag_Payload := c\<rparr>))) \<and>
    fst ` set ms = fst ` set acc \<union> (\<lambda>m. keyString (ag_Key m)) ` set xs" for k a m
    using assms
  proof (induction xs arbitrary: acc k a m)
    case (Cons x xs)
    obtain b where b: "mutation_step s expected acc x = Inr b" "fold_reduce (mutation_step s expected) b xs = Inr ms" using Cons.prems(1) by auto
    obtain c d where n: "map_of acc (keyString (ag_Key x)) = None" "normalizeRaw (ag_Payload x) = Inr (c, d)"
      and e: "b = AList.update (keyString (ag_Key x)) (x\<lparr>ag_Payload := c\<rparr>) acc"
      using b(1) by (auto simp: mutation_step_def split: option.splits sum.splits prod.splits)
    have c: "Canonicalize (if ag_Payload x = [] then ''{}'' else ag_Payload x) = Inr c" using n(2) by (auto simp: normalizeRaw_def)
    have d: "distinct (map fst b)" using Cons.prems(2) by (simp add: e distinct_update)
    have x: "map_of ms (keyString (ag_Key x)) = Some (x\<lparr>ag_Payload := c\<rparr>)"
      using Cons.IH [OF b(2) d, of "keyString (ag_Key x)" "x\<lparr>ag_Payload := c\<rparr>"] by (simp add: e update_conv')
    have 1: "map_of acc k = Some a \<longrightarrow> map_of ms k = Some a" using Cons.IH [OF b(2) d, of k a m, THEN conjunct1] n(1) by (auto simp: e update_conv' split: if_splits)
    have "fst ` set b = insert (keyString (ag_Key x)) (fst ` set acc)"
      using n(1) by (metis dom_map_of_conv_image_fst dom_fun_upd e option.simps(3) update_conv')
    then have 3: "fst ` set ms = fst ` set acc \<union> (\<lambda>m. keyString (ag_Key m)) ` set (x # xs)"
      using Cons.IH [OF b(2) d, of k a m, THEN conjunct2, THEN conjunct2] by simp
    have "\<exists>c. Canonicalize (if ag_Payload m = [] then ''{}'' else ag_Payload m) = Inr c \<and>
        map_of ms (keyString (ag_Key m)) = Some (m\<lparr>ag_Payload := c\<rparr>)" if "m \<in> set (x # xs)"
    proof (cases "m = x")
      case True
      show ?thesis unfolding True by (intro exI conjI) (rule c, rule x)
    next
      case False
      then show ?thesis using that Cons.IH [OF b(2) d, of k a m, THEN conjunct2, THEN conjunct1] by simp
    qed
    then show ?case using 1 3 by blast
  qed simp
  then show "map_of acc k = Some a \<Longrightarrow> map_of ms k = Some a"
    and "m \<in> set xs \<Longrightarrow> \<exists>c. Canonicalize (if ag_Payload m = [] then ''{}'' else ag_Payload m) = Inr c \<and>
      map_of ms (keyString (ag_Key m)) = Some (m\<lparr>ag_Payload := c\<rparr>)"
    and "fst ` set ms = fst ` set acc \<union> (\<lambda>m. keyString (ag_Key m)) ` set xs" by blast+
qed

text \<open>Everything that an accepted transaction guarantees.\<close>

definition applied :: "(string \<Rightarrow> string) \<Rightarrow> diskState \<Rightarrow> Transaction \<Rightarrow> AggregateRecord gomap \<Rightarrow> diskState \<Rightarrow> bool" where
  "applied num s tx ms t \<longleftrightarrow>
     distinct (map fst ms) \<and> (\<forall>(k, m) \<in> set ms. mutation_ok s k m) \<and>
     distinct (map event_key (tx_Events tx)) \<and> event_key ` set (tx_Events tx) = fst ` set ms \<and>
     (\<forall>e \<in> set (tx_Events tx). validateEvent e = None \<and> (\<exists>m. map_of ms (event_key e) = Some m \<and> ag_Revision m = ev_AggregateRevision e)) \<and>
     (\<forall>x \<in> set (tx_Intents tx). validateIntentSeed x (tx_At tx) = None \<and> map_of (ds_Intents s) (di_Identity (sd_Intent x)) = None) \<and>
     distinct (map (\<lambda>x. di_Identity (sd_Intent x)) (tx_Intents tx)) \<and>
     (\<forall>m \<in> set (tx_Mutations tx). \<exists>c. Canonicalize (if ag_Payload m = [] then ''{}'' else ag_Payload m) = Inr c \<and>
       map_of ms (keyString (ag_Key m)) = Some (m\<lparr>ag_Payload := c\<rparr>)) \<and>
     fst ` set ms = (\<lambda>m. keyString (ag_Key m)) ` set (tx_Mutations tx) \<and>
     t = s\<lparr>ds_Aggregates := fold (\<lambda>(k, m). AList.update k m) ms (ds_Aggregates s),
           ds_Events := fold (\<lambda>e. AList.update (ev_EventID e) (cloneEvent num e)) (tx_Events tx) (ds_Events s),
           ds_Intents := fold (\<lambda>seed. AList.update (di_Identity (sd_Intent seed)) (seeded_intent num (tx_At tx) seed)) (tx_Intents tx)
             (ds_Intents s)\<rparr>"

lemma applied_facts:
  assumes "applied num s tx ms t"
  shows "distinct (map fst ms)"
    and "(k, m) \<in> set ms \<Longrightarrow> mutation_ok s k m"
    and "distinct (map event_key (tx_Events tx))"
    and "event_key ` set (tx_Events tx) = fst ` set ms"
    and "e \<in> set (tx_Events tx) \<Longrightarrow> validateEvent e = None \<and> (\<exists>m. map_of ms (event_key e) = Some m \<and> ag_Revision m = ev_AggregateRevision e)"
    and "x \<in> set (tx_Intents tx) \<Longrightarrow> validateIntentSeed x (tx_At tx) = None \<and> map_of (ds_Intents s) (di_Identity (sd_Intent x)) = None"
    and "t = s\<lparr>ds_Aggregates := fold (\<lambda>(k, m). AList.update k m) ms (ds_Aggregates s),
           ds_Events := fold (\<lambda>e. AList.update (ev_EventID e) (cloneEvent num e)) (tx_Events tx) (ds_Events s),
           ds_Intents := fold (\<lambda>seed. AList.update (di_Identity (sd_Intent seed)) (seeded_intent num (tx_At tx) seed)) (tx_Intents tx)
             (ds_Intents s)\<rparr>"
    and "distinct (map (\<lambda>x. di_Identity (sd_Intent x)) (tx_Intents tx))"
    and "u \<in> set (tx_Mutations tx) \<Longrightarrow> \<exists>c. Canonicalize (if ag_Payload u = [] then ''{}'' else ag_Payload u) = Inr c \<and>
       map_of ms (keyString (ag_Key u)) = Some (u\<lparr>ag_Payload := c\<rparr>)"
    and "fst ` set ms = (\<lambda>m. keyString (ag_Key m)) ` set (tx_Mutations tx)"
  by (insert assms, unfold applied_def, elim conjE; (assumption | (drule (1) bspec, simp)))+

lemma applyTransaction_applied:
  assumes "applyTransaction num s tx = Inr t"
  obtains ms where "applied num s tx ms t"
proof -
  obtain ex ms es ids where e: "fold_reduce expect_step [] (tx_Expected tx) = Inr ex"
    and m: "fold_reduce (mutation_step s ex) [] (tx_Mutations tx) = Inr ms"
    and v: "fold_reduce (event_step s (tx_CommandID tx) ms) [] (tx_Events tx) = Inr es" "length es = length ms"
    and i: "fold_reduce (intent_step s (tx_At tx)) [] (tx_Intents tx) = Inr ids"
    and t: "t = s\<lparr>ds_Aggregates := fold (\<lambda>(k, m). AList.update k m) ms (ds_Aggregates s),
           ds_Events := fold (\<lambda>e. AList.update (ev_EventID e) (cloneEvent num e)) (tx_Events tx) (ds_Events s),
           ds_Intents := fold (\<lambda>seed. AList.update (di_Identity (sd_Intent seed)) (seeded_intent num (tx_At tx) seed)) (tx_Intents tx)
             (ds_Intents s)\<rparr>"
    using assms by (auto simp: applyTransaction_def)
  note mf = mutations_facts [OF m] and vf = events_facts [OF v(1)] and nf = intents_facts [OF i]
  have sub: "event_key ` set (tx_Events tx) \<subseteq> fst ` set ms" using vf(3) by (force dest: map_of_SomeD)
  have "card (event_key ` set (tx_Events tx)) = length (tx_Events tx)" using distinct_card [OF vf(2)] by simp
  moreover have "length (tx_Events tx) = length ms" using v(2) vf(1) by (metis length_map)
  moreover have "card (fst ` set ms) = length ms" using distinct_card [OF mf(1)] by simp
  ultimately have keys: "event_key ` set (tx_Events tx) = fst ` set ms" using card_subset_eq [OF _ sub] by simp
  have entered: "fst ` set ms = (\<lambda>m. keyString (ag_Key m)) ` set (tx_Mutations tx)" using mutations_entered(3) [OF m] by simp
  have ev: "\<forall>e \<in> set (tx_Events tx). validateEvent e = None \<and> (\<exists>m. map_of ms (event_key e) = Some m \<and> ag_Revision m = ev_AggregateRevision e)"
    using vf(3) by blast
  have "applied num s tx ms t"
    unfolding applied_def
    by (intro conjI, rule mf(1), rule mf(2), rule vf(2), rule keys, rule ev, rule nf(1), rule nf(2), rule ballI,
        rule mutations_entered(2) [OF m], simp, assumption, rule entered, rule t)
  then show thesis by (rule that)
qed

section \<open>Valid states\<close>

definition state_ok :: "diskState \<Rightarrow> bool" where
  "state_ok s \<longleftrightarrow> validateState s = None \<and> distinct (map fst (ds_Aggregates s)) \<and> distinct (map fst (ds_Events s)) \<and>
     distinct (map fst (ds_Commands s)) \<and> distinct (map fst (ds_Intents s)) \<and> distinct (map fst (ds_Inbox s))"

definition entries_ok :: "(string \<Rightarrow> 'v \<Rightarrow> bool) \<Rightarrow> 'v gomap \<Rightarrow> bool" where
  "entries_ok P m \<longleftrightarrow> distinct (map fst m) \<and> (\<forall>k r. map_of m k = Some r \<longrightarrow> P k r)"

lemma state_ok_iff:
  "state_ok s \<longleftrightarrow> ds_Version s = diskVersion \<and> entries_ok aggregate_entry_ok (ds_Aggregates s) \<and> entries_ok event_entry_ok (ds_Events s) \<and>
     entries_ok command_entry_ok (ds_Commands s) \<and> entries_ok intent_entry_ok (ds_Intents s) \<and>
     entries_ok (\<lambda>k r. k = inbox_key r \<and> inbox_record_ok r) (ds_Inbox s)"
  unfolding state_ok_def validateState_def fail_if_None not_not entries_ok_def by (auto simp: ball_map_of)

lemma empty_state_ok: "state_ok emptyState"
  by (simp add: state_ok_iff emptyState_def entries_ok_def)

lemma map_of_updates_cases:
  "map_of (fold (\<lambda>(k, m). AList.update k m) ms al) k = Some v \<Longrightarrow> (k, v) \<in> set ms \<or> map_of al k = Some v"
proof (induction ms arbitrary: al)
  case (Cons x ms)
  then show ?case using Cons.IH [of "AList.update (fst x) (snd x) al"] by (cases x) (auto simp: update_conv' split: if_splits)
qed simp

lemma entries_ok_updates:
  assumes "entries_ok P m" and "\<And>k v. (k, v) \<in> set ms \<Longrightarrow> P k v"
  shows "entries_ok P (fold (\<lambda>(k, v). AList.update k v) ms m)"
  unfolding entries_ok_def
proof (intro conjI allI impI)
  show "distinct (map fst (fold (\<lambda>(k, v). AList.update k v) ms m))"
    using assms(1) distinct_updates [of m ms] by (simp add: entries_ok_def)
  show "P k v" if "map_of (fold (\<lambda>(k, v). AList.update k v) ms m) k = Some v" for k v
    using map_of_updates_cases [OF that] assms by (auto simp: entries_ok_def)
qed

lemma entries_ok_update: "entries_ok P m \<Longrightarrow> P k v \<Longrightarrow> entries_ok P (AList.update k v m)"
  using entries_ok_updates [of P m "[(k, v)]"] by simp

text \<open>
  A payload survives its clone when cloning keeps its digest; a request is faithful when its
  payloads do. A retry may not be scheduled for Go's zero time.
\<close>

definition clone_stable :: "(string \<Rightarrow> string) \<Rightarrow> payload \<Rightarrow> bool" where
  "clone_stable num p \<longleftrightarrow> DigestValue (JObj (cloneMap num p)) = DigestValue (JObj p)"

definition request_ok :: "(string \<Rightarrow> string) \<Rightarrow> StoreRequest \<Rightarrow> bool" where
  "request_ok num req = (case req of
     CommitTx tx \<Rightarrow> (\<forall>e \<in> set (tx_Events tx). clone_stable num (ev_Payload e)) \<and>
       (\<forall>x \<in> set (tx_Intents tx). clone_stable num (di_Payload (sd_Intent x)))
   | Fail f \<Rightarrow> if_AvailableAt f \<noteq> Some 0 | _ \<Rightarrow> True)"

definition intents_below :: "nat \<Rightarrow> diskState \<Rightarrow> bool" where
  "intents_below n s \<longleftrightarrow> (\<forall>k r. map_of (ds_Intents s) k = Some r \<longrightarrow> unat (ir_Revision r) \<le> n)"

lemma cloned_event_ok: "validateEvent e = None \<Longrightarrow> clone_stable num (ev_Payload e) \<Longrightarrow> event_entry_ok (ev_EventID e) (cloneEvent num e)"
  by (simp add: event_entry_ok_def validateEvent_def cloneEvent_def clone_stable_def)

lemma seeded_intent_ok:
  "validateIntentSeed x at = None \<Longrightarrow> at \<noteq> 0 \<Longrightarrow> clone_stable num (di_Payload (sd_Intent x)) \<Longrightarrow>
     intent_entry_ok (di_Identity (sd_Intent x)) (seeded_intent num at x)"
  by (simp add: intent_entry_ok_def validateIntentSeed_def seeded_intent_def cloneDurableIntent_def clone_stable_def validateIntentRecord_def unleased_def)

lemma applied_state_ok:
  assumes "applied num s tx ms t" and "state_ok s" and "tx_At tx \<noteq> 0" and "request_ok num (CommitTx tx)"
  shows "state_ok t"
proof -
  note a = applied_facts [OF assms(1)]
  have t: "ds_Version t = ds_Version s" "ds_Commands t = ds_Commands s" "ds_Inbox t = ds_Inbox s"
    "ds_Aggregates t = fold (\<lambda>(k, m). AList.update k m) ms (ds_Aggregates s)"
    "ds_Events t = fold (\<lambda>(k, m). AList.update k m) (map (\<lambda>e. (ev_EventID e, cloneEvent num e)) (tx_Events tx)) (ds_Events s)"
    "ds_Intents t = fold (\<lambda>(k, m). AList.update k m)
       (map (\<lambda>x. (di_Identity (sd_Intent x), seeded_intent num (tx_At tx) x)) (tx_Intents tx)) (ds_Intents s)"
    by (simp_all add: a(7) updates_of)
  have "entries_ok aggregate_entry_ok (ds_Aggregates s)" "entries_ok event_entry_ok (ds_Events s)" "entries_ok intent_entry_ok (ds_Intents s)"
    using assms(2) by (simp_all add: state_ok_iff)
  note s = this
  have "aggregate_entry_ok k m" if "(k, m) \<in> set ms" for k m
  proof -
    have m: "mutation_ok s k m" by (rule a(2) [OF that])
    have km: "map_of ms k = Some m" using a(1) that by simp
    have "k \<in> event_key ` set (tx_Events tx)" using a(4) that by force
    then obtain e where e: "e \<in> set (tx_Events tx)" "event_key e = k" by blast
    then have "ag_Revision m = ev_AggregateRevision e \<and> validateEvent e = None" using a(5) [OF e(1)] km by simp
    then have "ag_Revision m \<noteq> 0" by (simp add: validateEvent_def)
    then show ?thesis using m by (simp add: aggregate_entry_ok_def mutation_ok_def)
  qed
  then have ag: "entries_ok aggregate_entry_ok (ds_Aggregates t)" unfolding t by (rule entries_ok_updates [OF s(1)])
  have "event_entry_ok (ev_EventID e) (cloneEvent num e)" if "e \<in> set (tx_Events tx)" for e
    using cloned_event_ok [of e num] a(5) [OF that] assms(4) that by (simp add: request_ok_def)
  then have ev: "entries_ok event_entry_ok (ds_Events t)" unfolding t by (intro entries_ok_updates [OF s(2)]) auto
  have "intent_entry_ok (di_Identity (sd_Intent x)) (seeded_intent num (tx_At tx) x)" if "x \<in> set (tx_Intents tx)" for x
    using seeded_intent_ok [of x "tx_At tx" num] a(6) [OF that] assms(3,4) that by (simp add: request_ok_def)
  then have "entries_ok intent_entry_ok (ds_Intents t)" unfolding t by (intro entries_ok_updates [OF s(3)]) auto
  then show ?thesis using assms(2) ag ev by (simp add: state_ok_iff t(1-3))
qed

lemma unat_succ_le: "unat (a + 1) \<le> Suc (unat a)" for a :: "'a :: len word"
  by (metis unat_succ_nonzero le_refl unat_0 zero_le)

lemma claimed_record_ok:
  assumes "intent_entry_ok k r" and "claimable q r" and "ValidIdentifier (cq_OwnerRef q)" and "ValidDigest h" and "ir_Revision r + 1 \<noteq> 0"
  shows "intent_entry_ok k (claimed_record q h r)"
proof -
  have "ir_CompletedAt r = None" "ir_AvailableAt r \<noteq> 0" "unat (ir_AttemptCount r) \<le> unat (ir_Revision r)"
    using assms(1,2) by (auto simp: intent_entry_ok_def claimable_def validateIntentRecord_def)
  moreover have "unat (ir_AttemptCount r + 1) \<le> Suc (unat (ir_AttemptCount r))" by (rule unat_succ_le)
  ultimately show ?thesis
    using assms unat_succ_nonzero [OF assms(5)] by (simp add: intent_entry_ok_def claimed_record_def validateIntentRecord_def)
qed

lemma claim_all_cases:
  "map_of (claim_all q h cs m) k = Some r \<Longrightarrow> (\<exists>x. (k, x) \<in> set cs \<and> r = claimed_record q h x) \<or> map_of m k = Some r"
  unfolding claim_all_def updates_of by (fastforce dest: map_of_updates_cases)

lemma candidates_claimable:
  assumes "(k, x) \<in> set (claim_candidates s q)" and "distinct (map fst (ds_Intents s))"
  shows "map_of (ds_Intents s) k = Some x" and "claimable q x"
  using assms by (auto simp: claim_candidates_def dest: in_set_takeD)

lemma ended_record_ok:
  assumes "intent_entry_ok k r" and "intent_fence_holds r f" and "ir_Revision r + 1 \<noteq> 0"
  shows "intent_entry_ok k (end_lease (completed_intent at r))"
    and "if_Dead g \<or> (\<exists>t. if_AvailableAt g = Some t \<and> t \<noteq> 0) \<Longrightarrow> intent_entry_ok k (end_lease (failed_intent g r))"
proof -
  have r: "ir_CompletedAt r = None" "ir_AvailableAt r \<noteq> 0" "unat (ir_AttemptCount r) \<le> unat (ir_Revision r)"
    using assms(1,2) by (auto simp: intent_entry_ok_def intent_fence_holds_def validateIntentRecord_def)
  show "intent_entry_ok k (end_lease (completed_intent at r))"
    using assms(1,3) r unat_succ_nonzero [OF assms(3)]
    by (simp add: intent_entry_ok_def end_lease_def completed_intent_def validateIntentRecord_def unleased_def)
  show "intent_entry_ok k (end_lease (failed_intent g r))" if "if_Dead g \<or> (\<exists>t. if_AvailableAt g = Some t \<and> t \<noteq> 0)"
    using assms(1,3) r that unat_succ_nonzero [OF assms(3)]
    by (auto simp: intent_entry_ok_def end_lease_def failed_intent_def validateIntentRecord_def unleased_def)
qed

lemma bound_succ: "unat (w :: u64) \<le> n \<Longrightarrow> Suc n < 2 ^ 64 \<Longrightarrow> w + 1 \<noteq> 0"
  using unat_succ_bound(2) [of w] by simp

theorem attempt_state_ok:
  assumes "attempt num s req t" and "state_ok s" and "request_ok num req" and "intents_below n s" and "Suc n < 2 ^ 64"
  shows "state_ok t" and "intents_below (Suc n) t"
proof -
  have ii: "intent_entry_ok k r \<and> ir_Revision r + 1 \<noteq> 0 \<and> unat (ir_Revision r) \<le> n" if "map_of (ds_Intents s) k = Some r" for k r
    using assms(2,4,5) that bound_succ by (auto simp: state_ok_iff entries_ok_def intents_below_def)
  have di: "distinct (map fst (ds_Intents s))" using assms(2) by (simp add: state_ok_def)
  have "state_ok t \<and> intents_below (Suc n) t"
    using assms(1)
  proof cases
    case (commit tx key outcome digest mid)
    obtain ms where ms: "applied num s tx ms mid" using applyTransaction_applied commit by blast
    have ok: "state_ok mid" by (rule applied_state_ok [OF ms assms(2)]) (use commit assms(3) in simp_all)
    have "command_entry_ok key \<lparr>co_Scope = tx_CommandScope tx, co_CommandID = tx_CommandID tx, co_IdentityDigest = tx_IdentityDigest tx,
        co_OutcomeDigest = digest, co_Outcome = outcome\<rparr>"
      using commit normalizeRaw_again [of "tx_Outcome tx" outcome digest] by (simp add: command_entry_ok_def)
    then have "state_ok t" using ok by (simp add: commit state_ok_iff committed_state_def entries_ok_update)
    moreover have "unat (ir_Revision r) \<le> Suc n" if "map_of (ds_Intents mid) k = Some r" for k r
    proof -
      have "ds_Intents mid = fold (\<lambda>(k, m). AList.update k m)
          (map (\<lambda>x. (di_Identity (sd_Intent x), seeded_intent num (tx_At tx) x)) (tx_Intents tx)) (ds_Intents s)"
        using ms by (simp add: applied_def updates_of)
      then have "(\<exists>x. r = seeded_intent num (tx_At tx) x) \<or> map_of (ds_Intents s) k = Some r"
        using map_of_updates_cases that by fastforce
      then show ?thesis using ii by (auto simp: seeded_intent_def dest: le_SucI)
    qed
    ultimately show ?thesis by (simp add: commit intents_below_def committed_state_def)
  next
    case (claim q h)
    have c: "intent_entry_ok k r \<and> unat (ir_Revision r) \<le> Suc n" if "map_of (claim_all q h (claim_candidates s q) (ds_Intents s)) k = Some r" for k r
      using claim_all_cases [OF that]
    proof
      assume "\<exists>x. (k, x) \<in> set (claim_candidates s q) \<and> r = claimed_record q h x"
      then obtain x where x: "map_of (ds_Intents s) k = Some x" "claimable q x" and r: "r = claimed_record q h x"
        using candidates_claimable [OF _ di] by blast
      have "unat (ir_Revision x + 1) \<le> Suc n" using ii [OF x(1)] unat_succ_le [of "ir_Revision x"] by simp
      then show ?thesis
        using claimed_record_ok [OF _ x(2) claim(3) PrivateTokenDigest_ValidDigest [OF claim(4)]] ii [OF x(1)] by (simp add: r) (simp add: claimed_record_def)
    next
      assume "map_of (ds_Intents s) k = Some r"
      then show ?thesis using ii by (auto dest: le_SucI)
    qed
    have "distinct (map fst (claim_all q h (claim_candidates s q) (ds_Intents s)))"
      unfolding claim_all_def updates_of by (rule distinct_updates [OF di])
    then show ?thesis using assms(2) c by (simp add: claim state_ok_iff entries_ok_def intents_below_def)
  next
    case (complete f r)
    have "unat (ir_Revision r + 1) \<le> Suc n" using ii [OF complete(3)] unat_succ_le [of "ir_Revision r"] by simp
    then show ?thesis
      using assms(2,4) ii [OF complete(3)] ended_record_ok(1) [OF _ complete(4)]
      by (auto simp: complete(1,2) state_ok_iff entries_ok_update intents_below_def update_conv' dest: le_SucI)
        (simp add: end_lease_def completed_intent_def)
  next
    case (fail f r)
    have "unat (ir_Revision r + 1) \<le> Suc n" using ii [OF fail(3)] unat_succ_le [of "ir_Revision r"] by simp
    moreover have "ir_Revision (end_lease (failed_intent f r)) = ir_Revision r + 1" by (simp add: end_lease_def failed_intent_def)
    moreover have "intent_entry_ok (nf_IntentID (if_Fence f)) (end_lease (failed_intent f r))"
      using ii [OF fail(3)] ended_record_ok(2) [OF _ fail(4)] fail(5) assms(3) by (auto simp: fail(1) request_ok_def)
    ultimately show ?thesis
      using assms(2,4) by (auto simp: fail(1,2) state_ok_iff entries_ok_update intents_below_def update_conv' dest: le_SucI)
  next
    case (receive r)
    then show ?thesis using assms(2,4) by (auto simp: state_ok_iff entries_ok_update intents_below_def update_conv' dest: le_SucI)
  qed
  then show "state_ok t" "intents_below (Suc n) t" by simp_all
qed

section \<open>What stays\<close>

lemma attempt_keeps_commands:
  assumes "attempt num s req t" and "map_of (ds_Commands s) k = Some c"
  shows "map_of (ds_Commands t) k = Some c"
  using assms(1)
proof cases
  case (commit tx key outcome digest mid)
  obtain ms where a: "applied num s tx ms mid" using applyTransaction_applied commit by blast
  have "ds_Commands mid = ds_Commands s" by (simp add: applied_facts(7) [OF a])
  moreover have "k \<noteq> key" using commit(5) assms(2) by auto
  ultimately show ?thesis using assms(2) by (simp add: commit committed_state_def update_conv')
qed (use assms(2) in simp_all)

text \<open>
  The next version of an intent: the same command to the same aggregate, a later revision, and
  nothing after completion or death.
\<close>

definition intent_ended :: "IntentRecord \<Rightarrow> bool" where
  "intent_ended r \<longleftrightarrow> ir_Status r = IntentCompleted \<or> ir_Status r = IntentDead"

definition intent_follows :: "IntentRecord \<Rightarrow> IntentRecord \<Rightarrow> bool" where
  "intent_follows r r' \<longleftrightarrow> r' = r \<or> ir_Intent r' = ir_Intent r \<and> unat (ir_Revision r) < unat (ir_Revision r') \<and> \<not> intent_ended r"

lemma intent_follows_trans: "intent_follows a b \<Longrightarrow> intent_follows b c \<Longrightarrow> intent_follows a c"
  by (auto simp: intent_follows_def)

lemma claimed_follows: "claimable q r \<Longrightarrow> ir_Revision r + 1 \<noteq> 0 \<Longrightarrow> intent_follows r (claimed_record q h r)"
  using unat_succ_nonzero [of "ir_Revision r"] by (auto simp: intent_follows_def claimed_record_def intent_ended_def claimable_def)

lemma ended_follows:
  assumes "intent_fence_holds r f" and "ir_Revision r + 1 \<noteq> 0"
  shows "intent_follows r (end_lease (completed_intent at r))" and "intent_follows r (end_lease (failed_intent g r))"
  using unat_succ_nonzero [OF assms(2)] assms(1)
  by (auto simp: intent_follows_def end_lease_def completed_intent_def failed_intent_def intent_ended_def intent_fence_holds_def)

lemma attempt_keeps_intents:
  assumes "attempt num s req t" and "state_ok s" and "intents_below n s" and "Suc n < 2 ^ 64" and "map_of (ds_Intents s) k = Some r"
  shows "\<exists>r'. map_of (ds_Intents t) k = Some r' \<and> intent_follows r r'"
proof -
  have nz: "ir_Revision x + 1 \<noteq> 0" if "map_of (ds_Intents s) j = Some x" for j x
    using assms(3,4) that bound_succ by (auto simp: intents_below_def)
  have same: "intent_follows r r" by (simp add: intent_follows_def)
  show ?thesis
    using assms(1)
  proof cases
    case (commit tx key outcome digest mid)
    obtain ms where a: "applied num s tx ms mid" using applyTransaction_applied commit by blast
    let ?new = "map (\<lambda>x. (di_Identity (sd_Intent x), seeded_intent num (tx_At tx) x)) (tx_Intents tx)"
    have "distinct (map fst ?new)" using applied_facts(8) [OF a] by (simp add: comp_def)
    then have m: "map_of (ds_Intents mid) = map_of (ds_Intents s) ++ map_of ?new"
      by (simp add: applied_facts(7) [OF a] updates_of map_of_updates)
    have "k \<noteq> di_Identity (sd_Intent x)" if "x \<in> set (tx_Intents tx)" for x using applied_facts(6) [OF a that] assms(5) by auto
    then have "map_of ?new k = None" by (fastforce simp: map_of_eq_None_iff)
    then show ?thesis using assms(5) same by (simp add: commit committed_state_def m map_add_def)
  next
    case (claim q h)
    have d: "distinct (map fst (ds_Intents s))" using assms(2) by (simp add: state_ok_def)
    have "k \<in> dom (map_of (claim_all q h (claim_candidates s q) (ds_Intents s)))"
      using assms(5) by (auto simp: claim_all_def updates_of dom_updates)
    then obtain r' where r': "map_of (claim_all q h (claim_candidates s q) (ds_Intents s)) k = Some r'" by blast
    show ?thesis
      using claim_all_cases [OF r']
    proof
      assume "\<exists>x. (k, x) \<in> set (claim_candidates s q) \<and> r' = claimed_record q h x"
      then obtain x where x: "map_of (ds_Intents s) k = Some x" "claimable q x" "r' = claimed_record q h x"
        using candidates_claimable [OF _ d] by blast
      then show ?thesis using claimed_follows [OF x(2) nz [OF x(1)]] assms(5) r' by (simp add: claim)
    next
      assume "map_of (ds_Intents s) k = Some r'"
      then show ?thesis using r' assms(5) same by (simp add: claim)
    qed
  next
    case (complete f x)
    then show ?thesis using ended_follows(1) [OF complete(4) nz [OF complete(3)]] assms(5) same by (auto simp: update_conv')
  next
    case (fail f x)
    then show ?thesis using ended_follows(2) [OF fail(4) nz [OF fail(3)]] assms(5) same by (auto simp: update_conv')
  next
    case (receive x)
    then show ?thesis using assms(5) same by simp
  qed
qed

end
