(* ===== verification/Durable_Runs.thy ===== *)
theory Durable_Runs
  imports Durable_Props
begin

text \<open>
  Lives of a store: it is opened on an empty file, serves requests, may be closed, and may be
  opened again on the bytes that it left on disk, after a clean close or after a crash. The
  invariant relates the bytes of the journal to the logical states that recovery reads.
\<close>

section \<open>Journals of checkpoints\<close>

text \<open>
  What is asked of \<^verbatim>\<open>json.Marshal\<close> and of the strict decoder at one state: the text has no NUL
  byte, since control characters are escaped, and decodes to the state it was made from.
\<close>

definition recoverable :: "(diskState \<Rightarrow> string result) \<Rightarrow> (u8 list \<Rightarrow> diskState result) \<Rightarrow> diskState \<Rightarrow> bool" where
  "recoverable enc unmarshal s \<longleftrightarrow>
     (\<forall>raw. enc s = Inr raw \<longrightarrow> unmarshal (string_bytes raw) = Inr s \<and> nul_free (string_bytes raw))"

definition stored :: "(diskState \<Rightarrow> string result) \<Rightarrow> (u8 list \<Rightarrow> diskState result) \<Rightarrow> nat \<Rightarrow> u8 list \<Rightarrow> diskState \<Rightarrow> bool" where
  "stored enc unmarshal n p s \<longleftrightarrow> (\<exists>raw. enc s = Inr raw \<and> p = string_bytes raw \<and> payload_ok p \<and> nul_free p \<and> unmarshal p = Inr s) \<and>
     state_ok s \<and> intents_below n s"

definition journal :: "(diskState \<Rightarrow> string result) \<Rightarrow> (u8 list \<Rightarrow> diskState result) \<Rightarrow> nat \<Rightarrow> u8 list list \<Rightarrow> diskState list \<Rightarrow> bool" where
  "journal enc unmarshal n ps ss \<longleftrightarrow> list_all2 (stored enc unmarshal n) ps ss \<and> length ps \<le> retainedFrameBudget \<and>
     length (journal_bytes ps) \<le> maxJournalBytes"

definition latest :: "diskState list \<Rightarrow> diskState" where
  "latest ss = last (emptyState # ss)"

lemma stored_mono: "stored enc unmarshal n p s \<Longrightarrow> n \<le> m \<Longrightarrow> stored enc unmarshal m p s"
  by (fastforce simp: stored_def intents_below_def)

lemma journal_mono: "journal enc unmarshal n ps ss \<Longrightarrow> n \<le> m \<Longrightarrow> journal enc unmarshal m ps ss"
  unfolding journal_def using list_all2_mono [of "stored enc unmarshal n" ps ss "stored enc unmarshal m"] stored_mono by blast

lemma stored_frame: "stored enc unmarshal n p s \<Longrightarrow> checkpoint_frame enc s = Inr (frame_of p)"
  by (auto simp: stored_def checkpoint_frame_def encodeFrame_Inr)

lemma stored_decode: "stored enc unmarshal n p s \<Longrightarrow> checkpoint_decode unmarshal p = Inr s"
  by (auto simp: stored_def checkpoint_decode_def state_ok_def)

lemma journal_facts:
  assumes "journal enc unmarshal n ps ss"
  shows "\<forall>p \<in> set ps. payload_ok p" and "list_all2 (\<lambda>p s. checkpoint_decode unmarshal p = Inr s) ps ss"
    and "length ps \<le> retainedFrameBudget" and "length (journal_bytes ps) \<le> maxJournalBytes" and "length ss = length ps"
proof -
  have l: "list_all2 (stored enc unmarshal n) ps ss" using assms by (simp add: journal_def)
  show "\<forall>p \<in> set ps. payload_ok p" using l by (induction rule: list_all2_induct) (auto simp: stored_def)
  show "list_all2 (\<lambda>p s. checkpoint_decode unmarshal p = Inr s) ps ss"
    using l by (rule list_all2_mono) (rule stored_decode)
qed (use assms in \<open>auto simp: journal_def list_all2_lengthD\<close>)

lemma journal_latest:
  assumes "journal enc unmarshal n ps ss"
  shows "state_ok (latest ss) \<and> intents_below n (latest ss)"
    and "ps \<noteq> [] \<Longrightarrow> stored enc unmarshal n (last ps) (latest ss)"
proof -
  have l: "list_all2 (stored enc unmarshal n) ps ss" using assms by (simp add: journal_def)
  show s: "stored enc unmarshal n (last ps) (latest ss)" if "ps \<noteq> []"
  proof -
    have n: "length ss = length ps" using l by (simp add: list_all2_lengthD)
    then have "ss \<noteq> []" using that by auto
    then have "last ps = ps ! (length ps - 1)" "latest ss = ss ! (length ps - 1)" using that n by (simp_all add: latest_def last_conv_nth)
    moreover have "length ps - 1 < length ps" using that by simp
    ultimately show ?thesis using list_all2_nthD [OF l] by simp
  qed
  show "state_ok (latest ss) \<and> intents_below n (latest ss)"
  proof (cases "ps = []")
    case True
    then have "ss = []" using l by simp
    then show ?thesis using empty_state_ok by (simp add: latest_def intents_below_def emptyState_def)
  next
    case False
    then show ?thesis using s by (simp add: stored_def)
  qed
qed

lemma latest_snoc [simp]: "latest (ss @ [s]) = s" "latest [] = emptyState"
  by (simp_all add: latest_def)

lemma journal_bytes_snoc: "journal_bytes (ps @ [q]) = journal_bytes ps @ frame_of q" "journal_bytes [q] = frame_of q" "journal_bytes [] = []"
  by (simp_all add: journal_bytes_def)

lemma frame_prefix: "partialV3Prefix (take k (frame_of q))"
proof -
  obtain r where "frame_of q = frameMagic @ r" by (simp add: frame_of_def header_core_def)
  then show ?thesis by (simp add: partialV3Prefix_def min_def)
qed

section \<open>Recovery of a journal\<close>

lemma recovery_limits: "maxRecoveryBytes = maxJournalBytes"
  by (simp add: maxRecoveryBytes_def maxJournalBytes_def)

definition recovered_store :: "diskState \<Rightarrow> u8 list list \<Rightarrow> Store" where
  "recovered_store s ps = \<lparr>fs_state = s, fs_file = (if ps = [] then [] else frame_of (last ps)), fs_frameCount = min 1 (length ps),
     fs_closed = False, fs_poisoned = None\<rparr>"

lemma recovered_frames:
  assumes "journal enc unmarshal n ps ss"
  shows "(if length ps > 1 then andThen (checkpoint_frame enc (latest ss)) (\<lambda>frame.
       Inr \<lparr>fs_state = latest ss, fs_file = frame, fs_frameCount = 1, fs_closed = False, fs_poisoned = None\<rparr>)
     else Inr \<lparr>fs_state = latest ss, fs_file = journal_bytes ps, fs_frameCount = length ps, fs_closed = False, fs_poisoned = None\<rparr>) =
    Inr (recovered_store (latest ss) ps)"
proof (cases "length ps > 1")
  case True
  then have "ps \<noteq> []" by auto
  then show ?thesis using True stored_frame [OF journal_latest(2) [OF assms]] by (simp add: recovered_store_def)
next
  case False
  then consider "ps = []" | q where "ps = [q]" by (cases ps; cases "tl ps") auto
  then show ?thesis by cases (auto simp: recovered_store_def journal_bytes_snoc)
qed

lemma open_journal:
  assumes "journal enc unmarshal n ps ss"
  shows "open_store enc unmarshal (journal_bytes ps) = Inr (recovered_store (latest ss) ps)"
proof -
  have l: "load (checkpoint_decode unmarshal) emptyState (journal_bytes ps) = Inr (latest ss, length (journal_bytes ps), length ps, False)"
    unfolding latest_def by (rule load_journal) (use journal_facts [OF assms] in \<open>simp_all add: recovery_limits\<close>)
  have p: "\<not> (0 < length (journal_bytes ps) \<and> length ps = 0 \<and> \<not> partialV3Prefix (journal_bytes ps))"
    by (auto simp: journal_bytes_def)
  show ?thesis using recovered_frames [OF assms] by (simp only: open_store_def l andThen_simps prod.case if_False) (use p in simp)
qed

lemma open_torn_journal:
  assumes "journal enc unmarshal n ps ss" and "length ps < retainedFrameBudget"
    and "length (journal_bytes ps) + length (frame_of q) \<le> maxJournalBytes" and "payload_ok q" and "nul_free q"
    and "0 < k" and "k < length (frame_of q)"
  shows "open_store enc unmarshal (journal_bytes ps @ take k (frame_of q)) = Inr (recovered_store (latest ss) ps)"
proof -
  let ?f = "journal_bytes ps @ take k (frame_of q)"
  have l: "load (checkpoint_decode unmarshal) emptyState ?f = Inr (latest ss, length (journal_bytes ps), length ps, True)"
    unfolding latest_def by (rule load_torn_journal) (use journal_facts [OF assms(1)] assms(2-7) in \<open>simp_all add: recovery_limits\<close>)
  have p: "\<not> (0 < length ?f \<and> length ps = 0 \<and> \<not> partialV3Prefix ?f)"
    using frame_prefix [of k q] by (auto simp: journal_bytes_def)
  have t: "take (length (journal_bytes ps)) ?f = journal_bytes ps" by simp
  show ?thesis using recovered_frames [OF assms(1)] by (simp only: open_store_def l andThen_simps prod.case if_True t) (use p in simp)
qed

section \<open>The journal of a store\<close>

text \<open>
  The file of a store is a journal whose last checkpoint is the published state, unless the
  last write failed. Then the store is poisoned, and the file may also end in a torn frame, or
  hold the state that could not be published.
\<close>

definition on_disk :: "(diskState \<Rightarrow> string result) \<Rightarrow> (u8 list \<Rightarrow> diskState result) \<Rightarrow> nat \<Rightarrow> u8 list \<Rightarrow> nat \<Rightarrow> diskState \<Rightarrow> bool" where
  "on_disk enc unmarshal n fl c s \<longleftrightarrow> (\<exists>ps ss. journal enc unmarshal n ps ss \<and> latest ss = s \<and> fl = journal_bytes ps \<and> c = length ps)"

definition torn_on_disk :: "(diskState \<Rightarrow> string result) \<Rightarrow> (u8 list \<Rightarrow> diskState result) \<Rightarrow> nat \<Rightarrow> u8 list \<Rightarrow> diskState \<Rightarrow> bool" where
  "torn_on_disk enc unmarshal n fl s \<longleftrightarrow> (\<exists>ps ss q k. journal enc unmarshal n ps ss \<and> latest ss = s \<and> length ps < retainedFrameBudget \<and>
     length (journal_bytes ps) + length (frame_of q) \<le> maxJournalBytes \<and> payload_ok q \<and> nul_free q \<and> 0 < k \<and> k < length (frame_of q) \<and>
     fl = journal_bytes ps @ take k (frame_of q))"

definition store_ok :: "(diskState \<Rightarrow> string result) \<Rightarrow> (u8 list \<Rightarrow> diskState result) \<Rightarrow> nat \<Rightarrow> Store \<Rightarrow> bool" where
  "store_ok enc unmarshal n fs \<longleftrightarrow> state_ok (fs_state fs) \<and> intents_below n (fs_state fs) \<and> fs_frameCount fs \<le> retainedFrameBudget \<and>
     (if fs_poisoned fs = None then on_disk enc unmarshal n (fs_file fs) (fs_frameCount fs) (fs_state fs)
      else (\<exists>s c. on_disk enc unmarshal n (fs_file fs) c s) \<or> torn_on_disk enc unmarshal n (fs_file fs) (fs_state fs))"

lemma on_disk_mono: "on_disk enc unmarshal n fl c s \<Longrightarrow> n \<le> m \<Longrightarrow> on_disk enc unmarshal m fl c s"
  unfolding on_disk_def using journal_mono by blast

lemma torn_on_disk_mono: "torn_on_disk enc unmarshal n fl s \<Longrightarrow> n \<le> m \<Longrightarrow> torn_on_disk enc unmarshal m fl s"
  unfolding torn_on_disk_def using journal_mono by blast

lemma store_ok_mono: "store_ok enc unmarshal n fs \<Longrightarrow> n \<le> m \<Longrightarrow> store_ok enc unmarshal m fs"
  unfolding store_ok_def using on_disk_mono torn_on_disk_mono by (fastforce simp: intents_below_def split: if_splits)

lemma recovered_store_ok:
  assumes "journal enc unmarshal n ps ss"
  shows "store_ok enc unmarshal n (recovered_store (latest ss) ps)"
proof (cases "ps = []")
  case True
  then have "ss = []" using journal_facts(5) [OF assms] by simp
  then have "on_disk enc unmarshal n [] 0 (latest ss)" using assms True by (auto simp: on_disk_def journal_bytes_snoc)
  then show ?thesis using journal_latest(1) [OF assms] True by (simp add: store_ok_def recovered_store_def)
next
  case False
  have s: "stored enc unmarshal n (last ps) (latest ss)" by (rule journal_latest(2) [OF assms False])
  have "payload_ok (last ps)" using s by (auto simp: stored_def)
  then have "length (frame_of (last ps)) \<le> maxJournalBytes" by (simp add: payload_ok_def maxJournalBytes_def maxEncodedFrameBytes_def)
  then have "journal enc unmarshal n [last ps] [latest ss]" using s by (simp add: journal_def journal_bytes_snoc retainedFrameBudget_def)
  moreover have "latest [latest ss] = latest ss" using latest_snoc(1) [of "[]" "latest ss"] by simp
  ultimately have "on_disk enc unmarshal n (frame_of (last ps)) 1 (latest ss)"
    unfolding on_disk_def by (intro exI [of _ "[last ps]"] exI [of _ "[latest ss]"]) (simp add: journal_bytes_snoc)
  moreover have "min 1 (length ps) = 1" using False by (simp add: Suc_leI min_def)
  ultimately show ?thesis using journal_latest(1) [OF assms] False by (simp add: store_ok_def recovered_store_def retainedFrameBudget_def)
qed

lemma on_disk_opens:
  assumes "on_disk enc unmarshal n fl c s"
  shows "\<exists>fs. open_store enc unmarshal fl = Inr fs \<and> fs_state fs = s \<and> fs_poisoned fs = None \<and> \<not> fs_closed fs \<and> store_ok enc unmarshal n fs"
proof -
  obtain ps ss where j: "journal enc unmarshal n ps ss" "latest ss = s" "fl = journal_bytes ps" using assms by (auto simp: on_disk_def)
  have "store_ok enc unmarshal n (recovered_store (latest ss) ps)" by (rule recovered_store_ok [OF j(1)])
  then show ?thesis using open_journal [OF j(1)] j(2,3) by (auto simp: recovered_store_def)
qed

lemma torn_opens:
  assumes "torn_on_disk enc unmarshal n fl s"
  shows "\<exists>fs. open_store enc unmarshal fl = Inr fs \<and> fs_state fs = s \<and> fs_poisoned fs = None \<and> \<not> fs_closed fs \<and> store_ok enc unmarshal n fs"
proof -
  obtain ps ss q k where j: "journal enc unmarshal n ps ss" "latest ss = s" "length ps < retainedFrameBudget"
      "length (journal_bytes ps) + length (frame_of q) \<le> maxJournalBytes" "payload_ok q" "nul_free q" "0 < k" "k < length (frame_of q)"
      "fl = journal_bytes ps @ take k (frame_of q)"
    using assms by (auto simp: torn_on_disk_def)
  have "store_ok enc unmarshal n (recovered_store (latest ss) ps)" by (rule recovered_store_ok [OF j(1)])
  then show ?thesis using open_torn_journal [OF j(1,3-8)] j(2,9) by (auto simp: recovered_store_def)
qed

lemma store_ok_opens:
  assumes "store_ok enc unmarshal n fs"
  shows "\<exists>fs'. open_store enc unmarshal (fs_file fs) = Inr fs' \<and> fs_poisoned fs' = None \<and> \<not> fs_closed fs' \<and> store_ok enc unmarshal n fs' \<and>
    (fs_poisoned fs = None \<longrightarrow> fs_state fs' = fs_state fs)"
proof (cases "fs_poisoned fs = None")
  case True
  then have "on_disk enc unmarshal n (fs_file fs) (fs_frameCount fs) (fs_state fs)" using assms by (simp add: store_ok_def)
  from on_disk_opens [OF this] show ?thesis by (elim exE conjE, intro exI conjI) (assumption, simp_all)
next
  case False
  then consider s c where "on_disk enc unmarshal n (fs_file fs) c s" | "torn_on_disk enc unmarshal n (fs_file fs) (fs_state fs)"
    using assms unfolding store_ok_def by (simp only: if_False) blast
  then show ?thesis
  proof cases
    case 1
    from on_disk_opens [OF this] show ?thesis by (elim exE conjE, intro exI conjI) (assumption, use False in auto)
  next
    case 2
    from torn_opens [OF this] show ?thesis by (elim exE conjE, intro exI conjI) (assumption, use False in auto)
  qed
qed

section \<open>Writing a checkpoint\<close>

lemma journal_snoc:
  assumes "journal enc unmarshal n ps ss" and "stored enc unmarshal n q s" and "\<not> shouldCompact (length (journal_bytes ps)) (length (frame_of q)) (length ps)"
  shows "journal enc unmarshal n (ps @ [q]) (ss @ [s])"
  using assms by (simp add: journal_def list_all2_appendI shouldCompact_def journal_bytes_snoc)

lemma journal_single:
  assumes "stored enc unmarshal n q s"
  shows "journal enc unmarshal n [q] [s]"
proof -
  have "payload_ok q" using assms by (auto simp: stored_def)
  then show ?thesis
    using assms by (simp add: journal_def journal_bytes_snoc retainedFrameBudget_def payload_ok_def maxJournalBytes_def maxEncodedFrameBytes_def)
qed

lemma on_disk_snoc:
  assumes "journal enc unmarshal n ps ss" and "stored enc unmarshal n q s" and "\<not> shouldCompact (length (journal_bytes ps)) (length (frame_of q)) (length ps)"
  shows "on_disk enc unmarshal n (journal_bytes ps @ frame_of q) (length ps + 1) s"
  unfolding on_disk_def using journal_snoc [OF assms]
  by (intro exI [of _ "ps @ [q]"] exI [of _ "ss @ [s]"]) (simp add: journal_bytes_snoc)

lemma on_disk_single: "stored enc unmarshal n q s \<Longrightarrow> on_disk enc unmarshal n (frame_of q) 1 s"
  unfolding on_disk_def using journal_single [of enc unmarshal n q s] latest_snoc(1) [of "[]" s]
  by (intro exI [of _ "[q]"] exI [of _ "[s]"]) (simp add: journal_bytes_snoc)

text \<open>Whatever the file system does, one of the two states is on the disk afterwards.\<close>

lemma append_frame_cases:
  assumes "journal enc unmarshal n ps ss" and "stored enc unmarshal n q s"
    and "append_frame out (journal_bytes ps) (length ps) (frame_of q) = ((fl, c), err)"
  shows "c \<le> retainedFrameBudget \<and>
    (err = None \<and> on_disk enc unmarshal n fl c s \<or>
     err \<noteq> None \<and> (on_disk enc unmarshal n fl (length ps) (latest ss) \<or> (\<exists>c'. on_disk enc unmarshal n fl c' s) \<or> torn_on_disk enc unmarshal n fl (latest ss)))"
proof -
  let ?compact = "shouldCompact (length (journal_bytes ps)) (length (frame_of q)) (length ps)"
  have len: "length ps \<le> retainedFrameBudget" using assms(1) by (simp add: journal_def)
  have old: "on_disk enc unmarshal n (journal_bytes ps) (length ps) (latest ss)" using assms(1) by (auto simp: on_disk_def)
  note one = on_disk_single [OF assms(2)] and snoc = on_disk_snoc [OF assms(1,2)]
  have small: "length ps < retainedFrameBudget" "length (journal_bytes ps) + length (frame_of q) \<le> maxJournalBytes" if "\<not> ?compact"
    using that by (auto simp: shouldCompact_def)
  have q: "payload_ok q" "nul_free q" using assms(2) by (auto simp: stored_def)
  have budget: "Suc 0 \<le> retainedFrameBudget" by (simp add: retainedFrameBudget_def)
  show ?thesis
  proof (cases out)
    case AppendDone
    then show ?thesis using assms(3) one snoc small(1) budget by (cases ?compact) (auto simp: append_frame_def)
  next
    case (AppendRefused e)
    then show ?thesis using assms(3) old len by (auto simp: append_frame_def)
  next
    case (ReplaceFailed installed e)
    then show ?thesis using assms(3) one old len budget by (cases "?compact \<and> installed") (auto simp: append_frame_def)
  next
    case (AppendTorn k e)
    show ?thesis
    proof (cases ?compact)
      case True
      then show ?thesis using AppendTorn assms(3) old len by (auto simp: append_frame_def)
    next
      case False
      then have r: "fl = journal_bytes ps @ take k (frame_of q)" "c = length ps" "err = Some e"
        using AppendTorn assms(3) by (auto simp: append_frame_def)
      consider "k = 0" | "length (frame_of q) \<le> k" | "0 < k" "k < length (frame_of q)" by linarith
      then show ?thesis
      proof cases
        case 1
        then show ?thesis using r old len by simp
      next
        case 2
        then have "fl = journal_bytes ps @ frame_of q" using r by simp
        then show ?thesis using r(2,3) snoc [OF False] len by blast
      next
        case 3
        then have "torn_on_disk enc unmarshal n fl (latest ss)"
          unfolding torn_on_disk_def r(1) using assms(1) small [OF False] q by blast
        then show ?thesis using r(2,3) len by blast
      qed
    qed
  qed
qed

lemma written_ok:
  assumes "store_ok enc unmarshal n fs" and "written enc env fs next fs'" and "recoverable enc unmarshal next"
    and "state_ok next" and "intents_below n next"
  shows "store_ok enc unmarshal n fs'"
    and "open_store enc unmarshal (fs_file fs') = Inr t \<Longrightarrow>
      (fs_state t = fs_state fs \<or> fs_state t = next) \<and> (fs_poisoned fs' = None \<longrightarrow> fs_state t = next)"
proof -
  obtain frame fl c err where frame: "checkpoint_frame enc next = Inr frame" and op: "ensureOpen env fs = None"
    and ap: "append_frame (io_append env) (fs_file fs) (fs_frameCount fs) frame = ((fl, c), err)"
    and fs': "fs' = fs\<lparr>fs_file := fl, fs_frameCount := c, fs_poisoned := err, fs_state := (if err = None then next else fs_state fs)\<rparr>"
    using assms(2) by (auto simp: written_def)
  obtain raw where raw: "enc next = Inr raw" "payload_ok (string_bytes raw)" and fr: "frame = frame_of (string_bytes raw)"
    using frame by (auto simp: checkpoint_frame_def encodeFrame_Inr)
  let ?q = "string_bytes raw"
  have st: "stored enc unmarshal n ?q next" using assms(3-5) raw by (auto simp: stored_def recoverable_def)
  have "fs_poisoned fs = None" using op by (simp add: ensureOpen_def)
  then obtain ps ss where j: "journal enc unmarshal n ps ss" "latest ss = fs_state fs" "fs_file fs = journal_bytes ps" "fs_frameCount fs = length ps"
    using assms(1) by (auto simp: store_ok_def on_disk_def)
  have cases: "c \<le> retainedFrameBudget"
    "err = None \<and> on_disk enc unmarshal n fl c next \<or>
     err \<noteq> None \<and> (on_disk enc unmarshal n fl (length ps) (fs_state fs) \<or> (\<exists>c'. on_disk enc unmarshal n fl c' next) \<or> torn_on_disk enc unmarshal n fl (fs_state fs))"
    using append_frame_cases [OF j(1) st] ap by (simp_all add: j(2-4) fr)
  have old: "state_ok (fs_state fs)" "intents_below n (fs_state fs)" using assms(1) by (simp_all add: store_ok_def)
  show "store_ok enc unmarshal n fs'"
    using cases(2)
  proof (elim disjE conjE)
    assume "err = None" "on_disk enc unmarshal n fl c next"
    then show ?thesis using cases(1) assms(4,5) by (simp add: store_ok_def fs')
  qed (use old cases(1) in \<open>auto simp: store_ok_def fs'\<close>)
  show "(fs_state t = fs_state fs \<or> fs_state t = next) \<and> (fs_poisoned fs' = None \<longrightarrow> fs_state t = next)"
    if t: "open_store enc unmarshal (fs_file fs') = Inr t"
    using cases(2)
  proof (elim disjE conjE exE)
    assume "err = None" "on_disk enc unmarshal n fl c next"
    then show ?thesis using on_disk_opens t by (fastforce simp: fs')
  next
    assume "err \<noteq> None" "on_disk enc unmarshal n fl (length ps) (fs_state fs)"
    then show ?thesis using on_disk_opens t by (fastforce simp: fs')
  next
    fix c' assume "err \<noteq> None" "on_disk enc unmarshal n fl c' next"
    then show ?thesis using on_disk_opens t by (fastforce simp: fs')
  next
    assume "err \<noteq> None" "torn_on_disk enc unmarshal n fl (fs_state fs)"
    then show ?thesis using torn_opens t by (fastforce simp: fs')
  qed
qed

section \<open>Lives of a store\<close>

definition request_recoverable :: "(string \<Rightarrow> string) \<Rightarrow> (diskState \<Rightarrow> string result) \<Rightarrow> (u8 list \<Rightarrow> diskState result) \<Rightarrow> diskState \<Rightarrow> StoreRequest \<Rightarrow> bool" where
  "request_recoverable num enc unmarshal s req \<longleftrightarrow> request_ok num req \<and> (\<forall>next. attempt num s req next \<longrightarrow> recoverable enc unmarshal next)"

text \<open>
  A life between two moments; the counter is the number of requests served so far. Opening a
  store on the bytes of another one is a restart, with or without a crash before it.
\<close>

inductive lives :: "(string \<Rightarrow> string) \<Rightarrow> (diskState \<Rightarrow> string result) \<Rightarrow> (u8 list \<Rightarrow> diskState result) \<Rightarrow> nat \<times> Store \<Rightarrow> nat \<times> Store \<Rightarrow> bool"
  for num enc unmarshal start where
  now: "lives num enc unmarshal start start"
| request: "lives num enc unmarshal start (n, fs) \<Longrightarrow> request_recoverable num enc unmarshal (fs_state fs) req \<Longrightarrow> Suc n < 2 ^ 64 \<Longrightarrow>
     lives num enc unmarshal start (Suc n, perform num enc fs (env, req))"
| close: "lives num enc unmarshal start (n, fs) \<Longrightarrow> lives num enc unmarshal start (n, Close fs)"
| restart: "lives num enc unmarshal start (n, fs) \<Longrightarrow> open_store enc unmarshal (fs_file fs) = Inr fs' \<Longrightarrow>
     lives num enc unmarshal start (n, fs')"

definition fresh_store :: Store where
  "fresh_store = \<lparr>fs_state = emptyState, fs_file = [], fs_frameCount = 0, fs_closed = False, fs_poisoned = None\<rparr>"

lemma open_empty: "open_store enc unmarshal [] = Inr fresh_store"
proof -
  have "journal enc unmarshal 0 [] []" by (simp add: journal_def journal_bytes_snoc)
  from open_journal [OF this] show ?thesis by (simp add: recovered_store_def journal_bytes_snoc fresh_store_def)
qed

lemma fresh_store_ok: "store_ok enc unmarshal 0 fresh_store"
proof -
  have "journal enc unmarshal 0 [] []" by (simp add: journal_def journal_bytes_snoc)
  from recovered_store_ok [OF this] show ?thesis by (simp add: recovered_store_def fresh_store_def)
qed

lemma Close_ok: "store_ok enc unmarshal n fs \<Longrightarrow> store_ok enc unmarshal n (Close fs)"
  by (simp add: store_ok_def Close_def)

lemma restart_ok: "store_ok enc unmarshal n fs \<Longrightarrow> open_store enc unmarshal (fs_file fs) = Inr fs' \<Longrightarrow> store_ok enc unmarshal n fs'"
  using store_ok_opens by fastforce

text \<open>One request: the store stays valid, and a restart finds the old state or the next one.\<close>

lemma perform_ok:
  assumes "store_ok enc unmarshal n fs" and "request_recoverable num enc unmarshal (fs_state fs) req" and "Suc n < 2 ^ 64"
  shows "store_ok enc unmarshal (Suc n) (perform num enc fs (env, req))"
    and "perform num enc fs (env, req) = fs \<or> (\<exists>next. attempt num (fs_state fs) req next \<and> written enc env fs next (perform num enc fs (env, req)) \<and>
      (\<forall>t. open_store enc unmarshal (fs_file (perform num enc fs (env, req))) = Inr t \<longrightarrow>
        (fs_state t = fs_state fs \<or> fs_state t = next) \<and> (fs_poisoned (perform num enc fs (env, req)) = None \<longrightarrow> fs_state t = next)))"
proof -
  have ok: "store_ok enc unmarshal (Suc n) fs" using store_ok_mono [OF assms(1)] by simp
  have step: "store_ok enc unmarshal (Suc n) fs' \<and> (\<forall>t. open_store enc unmarshal (fs_file fs') = Inr t \<longrightarrow>
        (fs_state t = fs_state fs \<or> fs_state t = nx) \<and> (fs_poisoned fs' = None \<longrightarrow> fs_state t = nx))"
    if a: "attempt num (fs_state fs) req nx" and w: "written enc env fs nx fs'" for nx fs'
  proof -
    have "state_ok (fs_state fs)" "intents_below n (fs_state fs)" "request_ok num req" "recoverable enc unmarshal nx"
      using assms(1,2) a by (auto simp: store_ok_def request_recoverable_def)
    then show ?thesis
      using written_ok [OF ok w] attempt_state_ok [OF a _ _ _ assms(3)] by blast
  qed
  show "store_ok enc unmarshal (Suc n) (perform num enc fs (env, req))"
    using perform_cases [of num enc fs env req] ok step unfolding performs_def by fastforce
  show "perform num enc fs (env, req) = fs \<or> (\<exists>next. attempt num (fs_state fs) req next \<and> written enc env fs next (perform num enc fs (env, req)) \<and>
      (\<forall>t. open_store enc unmarshal (fs_file (perform num enc fs (env, req))) = Inr t \<longrightarrow>
        (fs_state t = fs_state fs \<or> fs_state t = next) \<and> (fs_poisoned (perform num enc fs (env, req)) = None \<longrightarrow> fs_state t = next)))"
    using perform_cases [of num enc fs env req] step unfolding performs_def by blast
qed

lemma lives_ok:
  assumes "lives num enc unmarshal (n, fs) (m, t)" and "store_ok enc unmarshal n fs"
  shows "store_ok enc unmarshal m t"
  using assms(1)
proof (induction "(m, t)" arbitrary: m t)
  case now
  then show ?case using assms(2) by simp
next
  case (request k fs' req env)
  then show ?case using perform_ok(1) by blast
next
  case (close k fs')
  then show ?case using Close_ok by blast
next
  case (restart k fs' t)
  then show ?case using restart_ok by blast
qed

text \<open>
  What no request undoes is never lost: it holds in the published state and in whatever a
  restart recovers.
\<close>

lemma written_state: "written enc env fs next fs' \<Longrightarrow> fs_state fs' = fs_state fs \<or> fs_state fs' = next"
  by (auto simp: written_def)

lemma lives_keep:
  assumes "lives num enc unmarshal (n, fs) (m, t)" and "store_ok enc unmarshal n fs" and "fs_poisoned fs = None" and "P (fs_state fs)"
    and "\<And>k s req next. state_ok s \<Longrightarrow> intents_below k s \<Longrightarrow> Suc k < 2 ^ 64 \<Longrightarrow> P s \<Longrightarrow> attempt num s req next \<Longrightarrow> P next"
  shows "P (fs_state t)"
proof -
  define kept where "kept u \<longleftrightarrow> P (fs_state u) \<and> (\<forall>v. open_store enc unmarshal (fs_file u) = Inr v \<longrightarrow> P (fs_state v))" for u :: Store
  have "kept t \<and> store_ok enc unmarshal m t"
    using assms(1)
  proof (induction "(m, t)" arbitrary: m t)
    case now
    then show ?case using assms(2-4) store_ok_opens [OF assms(2)] by (auto simp: kept_def)
  next
    case (request k u req env)
    have k: "kept u" and u: "store_ok enc unmarshal k u" using request by blast+
    have s: "state_ok (fs_state u)" "intents_below k (fs_state u)" using u by (simp_all add: store_ok_def)
    note po = perform_ok [OF u request(3,4)]
    have "kept (perform num enc u (env, req))"
      using po(2) [of env]
    proof (elim disjE exE conjE)
      assume "perform num enc u (env, req) = u"
      then show ?thesis using k by simp
    next
      fix nx
      assume a: "attempt num (fs_state u) req nx" and w: "written enc env u nx (perform num enc u (env, req))"
        and r: "\<forall>t. open_store enc unmarshal (fs_file (perform num enc u (env, req))) = Inr t \<longrightarrow>
          (fs_state t = fs_state u \<or> fs_state t = nx) \<and> (fs_poisoned (perform num enc u (env, req)) = None \<longrightarrow> fs_state t = nx)"
      have "P (fs_state u)" using k by (simp add: kept_def)
      moreover have "P nx" using assms(5) [OF s request(4) _ a] calculation by blast
      ultimately show ?thesis using written_state [OF w] r unfolding kept_def by metis
    qed
    then show ?case using po(1) by blast
  next
    case (close k u)
    then show ?case using Close_ok by (simp add: kept_def Close_def)
  next
    case (restart k u v)
    then have "store_ok enc unmarshal k v" "P (fs_state v)" using restart_ok by (auto simp: kept_def)
    moreover have "fs_poisoned v = None" using store_ok_opens [of enc unmarshal k u] restart by auto
    ultimately show ?case using store_ok_opens [of enc unmarshal k v] by (auto simp: kept_def)
  qed
  then show ?thesis by (simp add: kept_def)
qed

end
