(* ===== verification/Durable_Crash.thy ===== *)
theory Durable_Crash
  imports Durable_Runs
begin

text \<open>
  Lives of a store about whose encoder and decoder nothing is assumed. The file is described by its
  frames alone: a sequence of complete checkpoints, and behind them at most a part of one frame. Two
  facts follow for any decoder: the number of checkpoints is bounded, and a torn write is invisible
  to recovery. Validity of the published states rests on the validation that recovery performs, and
  on the clones of payloads keeping their numbers.
\<close>

section \<open>Lives\<close>

text \<open>
  A store is opened, serves requests that satisfy \<open>R\<close> in the state they meet, may be closed, and may be
  opened again on the bytes it left.
\<close>

inductive serves ::
  "(diskState \<Rightarrow> StoreRequest \<Rightarrow> bool) \<Rightarrow> (string \<Rightarrow> string) \<Rightarrow> (diskState \<Rightarrow> string result) \<Rightarrow> (u8 list \<Rightarrow> diskState result) \<Rightarrow> Store \<Rightarrow> Store \<Rightarrow> bool"
  for R num enc unmarshal start where
  now: "serves R num enc unmarshal start start"
| request: "serves R num enc unmarshal start fs \<Longrightarrow> R (fs_state fs) req \<Longrightarrow> serves R num enc unmarshal start (perform num enc fs (env, req))"
| close: "serves R num enc unmarshal start fs \<Longrightarrow> serves R num enc unmarshal start (Close fs)"
| restart: "serves R num enc unmarshal start fs \<Longrightarrow> open_store enc unmarshal (fs_file fs) = Inr fs' \<Longrightarrow> serves R num enc unmarshal start fs'"

section \<open>What recovery makes of the frames\<close>

text \<open>The last of the checkpoints, each of them decoded in turn.\<close>

fun recovered :: "(u8 list \<Rightarrow> 's result) \<Rightarrow> 's \<Rightarrow> u8 list list \<Rightarrow> 's result" where
  "recovered dec cur [] = Inr cur"
| "recovered dec cur (p # ps) = andThen (dec p) (\<lambda>s. recovered dec s ps)"

lemma recovered_snoc: "recovered dec cur (ps @ [q]) = andThen (recovered dec cur ps) (\<lambda>_. dec q)"
  by (induction ps arbitrary: cur) (auto simp: andThen_def split: sum.splits)

lemma load_frame_step:
  assumes "payload_ok p" and "n < retainedFrameBudget"
  shows "load_from dec (pre @ frame_of p @ rest) (length pre) n cur =
    andThen (dec p) (\<lambda>s. load_from dec (pre @ frame_of p @ rest) (length pre + length (frame_of p)) (n + 1) s)"
proof (cases "dec p")
  case (Inr s)
  then show ?thesis using load_frame [of p dec s n] assms by simp
next
  case (Inl e)
  let ?file = "pre @ frame_of p @ rest" and ?m = "metadata_of p"
  have lens: "fm_payloadLength ?m = length p" "fm_encodedLength ?m = length (frame_of p)" "fm_payloadDigest ?m = Sum256 p"
    by (simp_all add: metadata_of_def)
  have h: "slice ?file (length pre) (length pre + frameHeader) = header_core p @ Sum256 (header_core p)"
    using slice_shift [OF refl, of pre "frame_of p @ rest" 0 frameHeader] by (simp add: slice_def frame_of_def frameHeader_def)
  have b: "slice ?file (length pre + frameHeader) (length pre + frameHeader + length p) = p"
    by (simp add: slice_def frame_of_def frameHeader_def)
  have f: "slice ?file (length pre + frameHeader + length p) (length pre + frameHeader + length p + frameFooter) =
      footer_core p @ Sum256 (footer_core p)"
    by (simp add: slice_def frame_of_def frameHeader_def frameFooter_def)
  have "length pre < length ?file" "\<not> length ?file - length pre < frameHeader" "\<not> length ?file - length pre < fm_encodedLength ?m"
    by (simp_all add: lens frameHeader_def)
  then show ?thesis
    using assms(2) by (subst load_from.simps) (simp add: h decode_encoded [OF assms(1)] lens b f Inl)
qed

lemma load_all_frames:
  assumes "\<forall>p \<in> set ps. payload_ok p" and "n + length ps \<le> retainedFrameBudget"
  shows "load_from dec (pre @ journal_bytes ps @ rest) (length pre) n cur =
    andThen (recovered dec cur ps) (\<lambda>s. load_from dec (pre @ journal_bytes ps @ rest) (length pre + length (journal_bytes ps)) (n + length ps) s)"
  using assms
proof (induction ps arbitrary: pre n cur)
  case Nil
  then show ?case by (simp add: journal_bytes_def)
next
  case (Cons p ps)
  have bytes: "pre @ journal_bytes (p # ps) @ rest = pre @ frame_of p @ journal_bytes ps @ rest" by (simp add: journal_bytes_def)
  have step: "load_from dec (pre @ frame_of p @ journal_bytes ps @ rest) (length pre) n cur =
      andThen (dec p) (\<lambda>s. load_from dec (pre @ frame_of p @ journal_bytes ps @ rest) (length pre + length (frame_of p)) (n + 1) s)"
    by (rule load_frame_step) (use Cons.prems in auto)
  have rest: "load_from dec ((pre @ frame_of p) @ journal_bytes ps @ rest) (length (pre @ frame_of p)) (n + 1) s =
      andThen (recovered dec s ps) (\<lambda>s. load_from dec ((pre @ frame_of p) @ journal_bytes ps @ rest)
        (length (pre @ frame_of p) + length (journal_bytes ps)) (n + 1 + length ps) s)" for s
    by (rule Cons.IH) (use Cons.prems in auto)
  show ?case
    unfolding bytes step using rest by (cases "dec p") (simp_all add: journal_bytes_def add.assoc)
qed

lemma load_torn_any:
  assumes "payload_ok p" and "0 < k" and "k < length (frame_of p)" and "n < retainedFrameBudget"
  shows "load_from dec (pre @ take k (frame_of p)) (length pre) n cur =
    (if frameHeader \<le> k \<and> committedFooterInRange (take k (frame_of p)) then Inl ErrCorrupt else Inr (cur, length pre, n, True))"
proof (cases "k < frameHeader")
  case True
  then show ?thesis using assms by (subst load_from.simps) simp
next
  case False
  have h: "slice (pre @ take k (frame_of p)) (length pre) (length pre + frameHeader) = header_core p @ Sum256 (header_core p)"
    using False by (simp add: slice_def frame_of_def frameHeader_def min_def)
  have e: "fm_encodedLength (metadata_of p) = length (frame_of p)" by (simp add: metadata_of_def)
  have d: "drop (length pre) (pre @ take k (frame_of p)) = take k (frame_of p)" by simp
  have "length (take k (frame_of p)) = k" using assms(3) by simp
  then show ?thesis
    using assms False by (subst load_from.simps) (simp add: h decode_encoded [OF assms(1)] e d)
qed

section \<open>Opening a journal\<close>

definition frames_ok :: "u8 list list \<Rightarrow> bool" where
  "frames_ok ps \<longleftrightarrow> (\<forall>p \<in> set ps. payload_ok p) \<and> length ps \<le> retainedFrameBudget \<and> length (journal_bytes ps) \<le> maxJournalBytes"

text \<open>A proper part of one more frame, for which there was room.\<close>

definition torn_tail :: "u8 list list \<Rightarrow> u8 list \<Rightarrow> u8 list \<Rightarrow> bool" where
  "torn_tail ps q tail \<longleftrightarrow> payload_ok q \<and> length ps < retainedFrameBudget \<and> length (journal_bytes ps) + length (frame_of q) \<le> maxJournalBytes \<and>
     (\<exists>k. 0 < k \<and> k < length (frame_of q) \<and> tail = take k (frame_of q))"

definition reopened :: "(diskState \<Rightarrow> string result) \<Rightarrow> (u8 list \<Rightarrow> diskState result) \<Rightarrow> u8 list list \<Rightarrow> Store result" where
  "reopened enc unmarshal ps = andThen (recovered (checkpoint_decode unmarshal) emptyState ps) (\<lambda>s.
     if length ps > 1 then andThen (checkpoint_frame enc s) (\<lambda>frame.
       Inr \<lparr>fs_state = s, fs_file = frame, fs_frameCount = 1, fs_closed = False, fs_poisoned = None\<rparr>)
     else Inr \<lparr>fs_state = s, fs_file = journal_bytes ps, fs_frameCount = length ps, fs_closed = False, fs_poisoned = None\<rparr>)"

lemma open_frames:
  assumes "frames_ok ps"
  shows "open_store enc unmarshal (journal_bytes ps) = reopened enc unmarshal ps"
proof -
  have l: "load dec emptyState (journal_bytes ps) =
      andThen (recovered dec emptyState ps) (\<lambda>s. Inr (s, length (journal_bytes ps), length ps, False))" for dec
    using load_all_frames [of ps 0 dec "[]" "[]" emptyState] assms load_end [of dec "journal_bytes ps"]
    by (simp add: load_def frames_ok_def recovery_limits)
  have p: "fail_if (0 < length (journal_bytes ps) \<and> length ps = 0 \<and> \<not> partialV3Prefix (journal_bytes ps)) ErrCorrupt = None"
    by (auto simp: journal_bytes_def)
  show ?thesis
    unfolding open_store_def l reopened_def by (cases "recovered (checkpoint_decode unmarshal) emptyState ps") (simp_all only: andThen_simps prod.case p ensure_simps if_False)
qed

lemma open_torn:
  assumes "frames_ok ps" and "torn_tail ps q tail"
  shows "open_store enc unmarshal (journal_bytes ps @ tail) = reopened enc unmarshal ps \<or>
      (\<exists>e. open_store enc unmarshal (journal_bytes ps @ tail) = Inl e)"
    and "nul_free q \<Longrightarrow> open_store enc unmarshal (journal_bytes ps @ tail) = reopened enc unmarshal ps"
proof -
  obtain k where k: "0 < k" "k < length (frame_of q)" "tail = take k (frame_of q)" and q: "payload_ok q" "length ps < retainedFrameBudget"
      "length (journal_bytes ps) + length (frame_of q) \<le> maxJournalBytes"
    using assms(2) by (auto simp: torn_tail_def)
  define bad where "bad \<longleftrightarrow> frameHeader \<le> k \<and> committedFooterInRange tail"
  have l: "load dec emptyState (journal_bytes ps @ tail) = andThen (recovered dec emptyState ps)
      (\<lambda>s. if bad then Inl ErrCorrupt else Inr (s, length (journal_bytes ps), length ps, True))" for dec
    using load_all_frames [of ps 0 dec "[]" tail emptyState] assms(1) k q load_torn_any [OF q(1) k(1,2) q(2), of dec "journal_bytes ps"]
    by (simp add: load_def frames_ok_def recovery_limits bad_def min_def)
  have p: "fail_if (0 < length (journal_bytes ps @ tail) \<and> length ps = 0 \<and> \<not> partialV3Prefix (journal_bytes ps @ tail)) ErrCorrupt = None"
    using frame_prefix [of k q] by (auto simp: journal_bytes_def k(3))
  have t: "take (length (journal_bytes ps)) (journal_bytes ps @ tail) = journal_bytes ps" by simp
  have o: "open_store enc unmarshal (journal_bytes ps @ tail) = reopened enc unmarshal ps" if "\<not> bad"
    unfolding open_store_def l reopened_def using that
    by (cases "recovered (checkpoint_decode unmarshal) emptyState ps") (simp_all only: andThen_simps prod.case p t ensure_simps if_False if_True)
  have "\<exists>e. open_store enc unmarshal (journal_bytes ps @ tail) = Inl e" if bad
    unfolding open_store_def l using that by (cases "recovered (checkpoint_decode unmarshal) emptyState ps") simp_all
  with o show "open_store enc unmarshal (journal_bytes ps @ tail) = reopened enc unmarshal ps \<or>
      (\<exists>e. open_store enc unmarshal (journal_bytes ps @ tail) = Inl e)" by blast
  show "open_store enc unmarshal (journal_bytes ps @ tail) = reopened enc unmarshal ps" if "nul_free q"
    using o torn_frame_uncommitted [OF that k(2)] by (simp add: bad_def k(3))
qed

section \<open>The file of a store\<close>

text \<open>
  The file consists of at most four complete frames and possibly a part of one more. An open store
  has no such part in its file, and its counter is the number of frames.
\<close>

definition framed :: "Store \<Rightarrow> bool" where
  "framed fs \<longleftrightarrow> (\<exists>ps tail. fs_file fs = journal_bytes ps @ tail \<and> frames_ok ps \<and> (tail = [] \<or> (\<exists>q. torn_tail ps q tail)) \<and>
     (fs_poisoned fs = None \<longrightarrow> tail = [] \<and> fs_frameCount fs = length ps))"

lemma framedI: "fs_file fs = journal_bytes ps \<Longrightarrow> frames_ok ps \<Longrightarrow> fs_poisoned fs \<noteq> None \<or> fs_frameCount fs = length ps \<Longrightarrow> framed fs"
  unfolding framed_def by (rule exI [of _ ps], rule exI [of _ "[]"]) auto

lemma framed_open: "framed fs \<Longrightarrow> fs_poisoned fs = None \<Longrightarrow> \<exists>ps. fs_file fs = journal_bytes ps \<and> frames_ok ps \<and> fs_frameCount fs = length ps"
  by (auto simp: framed_def)

lemma frames_ok_single: "payload_ok q \<Longrightarrow> frames_ok [q]"
  by (simp add: frames_ok_def journal_bytes_def retainedFrameBudget_def payload_ok_def maxJournalBytes_def maxEncodedFrameBytes_def)

lemma frames_ok_snoc:
  "frames_ok ps \<Longrightarrow> payload_ok q \<Longrightarrow> \<not> shouldCompact (length (journal_bytes ps)) (length (frame_of q)) (length ps) \<Longrightarrow> frames_ok (ps @ [q])"
  by (simp add: frames_ok_def shouldCompact_def journal_bytes_snoc)

lemma reopened_framed:
  assumes "frames_ok ps" and "reopened enc unmarshal ps = Inr fs"
  shows "framed fs"
proof (cases "length ps > 1")
  case True
  then obtain s frame where f: "checkpoint_frame enc s = Inr frame" "fs_file fs = frame" "fs_frameCount fs = 1"
    using assms(2) by (auto simp: reopened_def)
  obtain q where "payload_ok q" "frame = frame_of q" using f(1) by (auto simp: checkpoint_frame_def encodeFrame_Inr)
  then show ?thesis using f frames_ok_single [of q] by (intro framedI [of _ "[q]"]) (simp_all add: journal_bytes_snoc)
next
  case False
  then have "fs_file fs = journal_bytes ps" "fs_frameCount fs = length ps" using assms(2) by (auto simp: reopened_def)
  then show ?thesis using assms(1) by (intro framedI [of _ ps]) simp_all
qed

lemma restart_framed:
  assumes "framed fs" and "open_store enc unmarshal (fs_file fs) = Inr fs'"
  shows "framed fs'"
proof -
  obtain ps tail where p: "fs_file fs = journal_bytes ps @ tail" "frames_ok ps" "tail = [] \<or> (\<exists>q. torn_tail ps q tail)"
    using assms(1) by (auto simp: framed_def)
  have "reopened enc unmarshal ps = Inr fs'"
    using p(3)
  proof (elim disjE exE)
    assume "tail = []"
    then show ?thesis using open_frames [OF p(2)] assms(2) p(1) by simp
  next
    fix q assume "torn_tail ps q tail"
    from open_torn(1) [OF p(2) this, of enc unmarshal] show ?thesis using assms(2) p(1) by auto
  qed
  then show ?thesis by (rule reopened_framed [OF p(2)])
qed

text \<open>
  What the file system leaves of one frame: nothing new, the frame behind the others or in their
  place, or a proper part of it, and then the store is poisoned.
\<close>

lemma append_outcomes:
  assumes "frames_ok ps" and "payload_ok q" and "append_frame out (journal_bytes ps) (length ps) (frame_of q) = ((fl, c), err)"
  obtains (kept) "fl = journal_bytes ps" "err \<noteq> None"
  | (added) "fl = journal_bytes (ps @ [q])" "frames_ok (ps @ [q])" "err = None \<Longrightarrow> c = length (ps @ [q])"
  | (replaced) "fl = journal_bytes [q]" "err = None \<Longrightarrow> c = 1"
  | (torn) tail where "fl = journal_bytes ps @ tail" "torn_tail ps q tail" "err \<noteq> None"
proof (cases out)
  case AppendDone
  then show thesis using assms(3) added [OF _ frames_ok_snoc [OF assms(1,2)]] replaced
    by (cases "shouldCompact (length (journal_bytes ps)) (length (frame_of q)) (length ps)") (auto simp: append_frame_def journal_bytes_snoc)
next
  case (AppendRefused e)
  then show thesis using assms(3) kept by (auto simp: append_frame_def)
next
  case (ReplaceFailed installed e)
  then show thesis using assms(3) kept replaced by (auto simp: append_frame_def journal_bytes_snoc split: if_splits)
next
  case (AppendTorn k e)
  show thesis
  proof (cases "shouldCompact (length (journal_bytes ps)) (length (frame_of q)) (length ps)")
    case True
    then show thesis using AppendTorn assms(3) kept by (auto simp: append_frame_def)
  next
    case False
    then have r: "fl = journal_bytes ps @ take k (frame_of q)" "err = Some e" using AppendTorn assms(3) by (auto simp: append_frame_def)
    have room: "length ps < retainedFrameBudget" "length (journal_bytes ps) + length (frame_of q) \<le> maxJournalBytes"
      using False by (auto simp: shouldCompact_def)
    consider "k = 0" | "length (frame_of q) \<le> k" | "0 < k" "k < length (frame_of q)" by linarith
    then show thesis
    proof cases
      case 1
      then show thesis using r kept by simp
    next
      case 2
      then show thesis using r added frames_ok_snoc [OF assms(1,2) False] by (simp add: journal_bytes_snoc)
    next
      case 3
      then have "torn_tail ps q (take k (frame_of q))" unfolding torn_tail_def using room assms(2) by blast
      then show thesis using r torn by simp
    qed
  qed
qed

text \<open>One write: the outcomes in terms of frames, and what recovery finds.\<close>

lemma written_frames:
  assumes ps: "fs_file fs = journal_bytes ps" "frames_ok ps" "fs_frameCount fs = length ps" and w: "written enc env fs nx fs'"
  obtains (kept) raw where "enc nx = Inr raw" "fs_file fs' = journal_bytes ps" "fs_poisoned fs' \<noteq> None"
  | (torn) raw tail where "enc nx = Inr raw" "payload_ok (string_bytes raw)" "fs_file fs' = journal_bytes ps @ tail"
      "torn_tail ps (string_bytes raw) tail" "fs_poisoned fs' \<noteq> None"
  | (stored) raw qs where "enc nx = Inr raw" "payload_ok (string_bytes raw)" "qs \<in> {ps @ [string_bytes raw], [string_bytes raw]}" "frames_ok qs"
      "fs_file fs' = journal_bytes qs" "fs_poisoned fs' = None \<Longrightarrow> fs_state fs' = nx \<and> fs_frameCount fs' = length qs"
proof -
  obtain frame fl c err where frame: "checkpoint_frame enc nx = Inr frame"
    and ap: "append_frame (io_append env) (fs_file fs) (fs_frameCount fs) frame = ((fl, c), err)"
    and fs': "fs' = fs\<lparr>fs_file := fl, fs_frameCount := c, fs_poisoned := err, fs_state := (if err = None then nx else fs_state fs)\<rparr>"
    using w by (auto simp: written_def)
  obtain raw where raw: "enc nx = Inr raw" "payload_ok (string_bytes raw)" and fr: "frame = frame_of (string_bytes raw)"
    using frame by (auto simp: checkpoint_frame_def encodeFrame_Inr)
  have a: "append_frame (io_append env) (journal_bytes ps) (length ps) (frame_of (string_bytes raw)) = ((fl, c), err)"
    using ap by (simp add: ps fr)
  show thesis
    using ps(2) raw(2) a
  proof (cases rule: append_outcomes)
    case kept
    then show thesis using that(1) [OF raw(1)] by (simp add: fs')
  next
    case added
    then show thesis using that(3) [OF raw, of "ps @ [string_bytes raw]"] by (simp add: fs')
  next
    case replaced
    then show thesis using that(3) [OF raw, of "[string_bytes raw]"] frames_ok_single [OF raw(2)] by (simp add: fs')
  next
    case (torn tail)
    then show thesis using that(2) [OF raw, of tail] by (simp add: fs')
  qed
qed

lemma written_framed:
  assumes "framed fs" and "written enc env fs nx fs'"
  shows "framed fs'"
proof -
  have "fs_poisoned fs = None" using assms(2) by (auto simp: written_def ensureOpen_def)
  then obtain ps where ps: "fs_file fs = journal_bytes ps" "frames_ok ps" "fs_frameCount fs = length ps" using framed_open [OF assms(1)] by blast
  show ?thesis
    using ps assms(2)
  proof (cases rule: written_frames)
    case kept
    then show ?thesis using ps(2) by (intro framedI [of _ ps]) simp_all
  next
    case (torn raw tail)
    then show ?thesis unfolding framed_def using ps(2) by (intro exI [of _ ps] exI [of _ tail]) auto
  next
    case (stored raw qs)
    then show ?thesis by (intro framedI [of _ qs]) auto
  qed
qed

lemma perform_framed: "framed fs \<Longrightarrow> framed (perform num enc fs (env, req))"
  using perform_cases [of num enc fs env req] written_framed [of fs enc env] unfolding performs_def by metis

lemma serves_framed:
  assumes "serves R num enc unmarshal fs0 fs" and "framed fs0"
  shows "framed fs"
  using assms
proof (induction)
  case (close fs)
  then show ?case by (simp add: framed_def Close_def)
qed (auto intro: perform_framed restart_framed)

lemma fresh_framed: "open_store enc unmarshal [] = Inr fs0 \<Longrightarrow> framed fs0"
proof -
  assume "open_store enc unmarshal [] = Inr fs0"
  then have "fs0 = fresh_store" by (simp add: open_empty)
  then show "framed fs0" by (intro framedI [of _ "[]"]) (simp_all add: fresh_store_def journal_bytes_def frames_ok_def)
qed

section \<open>Crashes\<close>

text \<open>
  Two states with the same maps; the order of an association list is not observable. A state is read
  back when decoding its checkpoint gives a state with the same maps and the same text, and recovery
  finds it valid.
\<close>

definition same_maps :: "diskState \<Rightarrow> diskState \<Rightarrow> bool" where
  "same_maps s t \<longleftrightarrow> ds_Version s = ds_Version t \<and> map_of (ds_Aggregates s) = map_of (ds_Aggregates t) \<and> map_of (ds_Events s) = map_of (ds_Events t) \<and>
     map_of (ds_Commands s) = map_of (ds_Commands t) \<and> map_of (ds_Intents s) = map_of (ds_Intents t) \<and> map_of (ds_Inbox s) = map_of (ds_Inbox t)"

definition read_back :: "(diskState \<Rightarrow> string result) \<Rightarrow> (u8 list \<Rightarrow> diskState result) \<Rightarrow> diskState \<Rightarrow> bool" where
  "read_back enc unmarshal s \<longleftrightarrow> (\<forall>raw. enc s = Inr raw \<longrightarrow>
     (\<exists>t. checkpoint_decode unmarshal (string_bytes raw) = Inr t \<and> same_maps s t \<and> enc t = Inr raw))"

text \<open>\<^verbatim>\<open>json.Marshal\<close> escapes control characters, so its text has no NUL byte.\<close>

definition escapes_nul :: "(diskState \<Rightarrow> string result) \<Rightarrow> bool" where
  "escapes_nul enc \<longleftrightarrow> (\<forall>s raw. enc s = Inr raw \<longrightarrow> nul_free (string_bytes raw))"

lemma escapes_nulD: "escapes_nul enc \<Longrightarrow> enc s = Inr raw \<Longrightarrow> nul_free (string_bytes raw)"
  by (simp add: escapes_nul_def)

definition readable :: "(string \<Rightarrow> string) \<Rightarrow> (diskState \<Rightarrow> string result) \<Rightarrow> (u8 list \<Rightarrow> diskState result) \<Rightarrow> diskState \<Rightarrow> StoreRequest \<Rightarrow> bool" where
  "readable num enc unmarshal s req \<longleftrightarrow> (\<forall>nx. attempt num s req nx \<longrightarrow> read_back enc unmarshal nx)"

lemma same_maps_refl [simp]: "same_maps s s"
  by (simp add: same_maps_def)

text \<open>
  After a request, recovery either does what it would have done before it, or the file consists of
  complete checkpoints of which the last is that of the state the request makes.
\<close>

definition request_undone :: "(diskState \<Rightarrow> string result) \<Rightarrow> (u8 list \<Rightarrow> diskState result) \<Rightarrow> Store \<Rightarrow> Store \<Rightarrow> bool" where
  "request_undone enc unmarshal fs fs' \<longleftrightarrow> open_store enc unmarshal (fs_file fs') = open_store enc unmarshal (fs_file fs) \<and>
     (fs_poisoned fs' = None \<longrightarrow> fs_state fs' = fs_state fs)"

definition request_done :: "(diskState \<Rightarrow> string result) \<Rightarrow> Store \<Rightarrow> diskState \<Rightarrow> Store \<Rightarrow> bool" where
  "request_done enc fs nx fs' \<longleftrightarrow> (\<exists>raw. enc nx = Inr raw \<and>
     (fs_file fs' = fs_file fs @ frame_of (string_bytes raw) \<or> fs_file fs' = frame_of (string_bytes raw))) \<and>
     (fs_poisoned fs' = None \<longrightarrow> fs_state fs' = nx)"

lemma written_crash:
  assumes "framed fs" and "written enc env fs nx fs'" and "escapes_nul enc"
  shows "request_undone enc unmarshal fs fs' \<or> request_done enc fs nx fs'"
proof -
  have "fs_poisoned fs = None" using assms(2) by (auto simp: written_def ensureOpen_def)
  then obtain ps where ps: "fs_file fs = journal_bytes ps" "frames_ok ps" "fs_frameCount fs = length ps" using framed_open [OF assms(1)] by blast
  show ?thesis
    using ps assms(2)
  proof (cases rule: written_frames)
    case kept
    then show ?thesis by (auto simp: request_undone_def ps(1))
  next
    case (torn raw tail)
    have "open_store enc unmarshal (fs_file fs') = open_store enc unmarshal (fs_file fs)"
      unfolding torn(3) ps(1) open_frames [OF ps(2)] by (rule open_torn(2) [OF ps(2) torn(4) escapes_nulD [OF assms(3) torn(1)]])
    then show ?thesis using torn(5) unfolding request_undone_def by blast
  next
    case (stored raw qs)
    then show ?thesis by (auto simp: request_done_def journal_bytes_snoc ps(1))
  qed
qed

lemma request_crash:
  assumes "framed fs" and "escapes_nul enc"
  shows "request_undone enc unmarshal fs (perform num enc fs (env, req)) \<or>
    (\<exists>nx. attempt num (fs_state fs) req nx \<and> request_done enc fs nx (perform num enc fs (env, req)))"
  using perform_cases [of num enc fs env req] unfolding performs_def
proof (elim disjE exE conjE)
  assume "perform num enc fs (env, req) = fs"
  then show ?thesis by (simp add: request_undone_def)
next
  fix nx assume a: "attempt num (fs_state fs) req nx" and w: "written enc env fs nx (perform num enc fs (env, req))"
  show ?thesis using written_crash [OF assms(1) w assms(2)] a by blast
qed

section \<open>Stores whose checkpoints are read back\<close>

text \<open>A payload that decodes to a valid state with that payload as its checkpoint.\<close>

definition sealed :: "(diskState \<Rightarrow> string result) \<Rightarrow> (u8 list \<Rightarrow> diskState result) \<Rightarrow> u8 list \<Rightarrow> bool" where
  "sealed enc unmarshal p \<longleftrightarrow> (\<exists>raw m. p = string_bytes raw \<and> checkpoint_decode unmarshal p = Inr m \<and> enc m = Inr raw)"

lemma sealed_recovered:
  assumes "\<forall>p \<in> set ps. sealed enc unmarshal p"
  shows "\<exists>m. recovered (checkpoint_decode unmarshal) emptyState ps = Inr m \<and>
    (ps \<noteq> [] \<longrightarrow> (\<exists>raw. last ps = string_bytes raw \<and> checkpoint_decode unmarshal (last ps) = Inr m \<and> enc m = Inr raw))"
  using assms
proof (induction ps rule: rev_induct)
  case (snoc p ps)
  then obtain raw m where "p = string_bytes raw" "checkpoint_decode unmarshal p = Inr m" "enc m = Inr raw" by (auto simp: sealed_def)
  then show ?case using snoc by (auto simp: recovered_snoc)
qed simp

definition held :: "(diskState \<Rightarrow> string result) \<Rightarrow> (u8 list \<Rightarrow> diskState result) \<Rightarrow> Store \<Rightarrow> bool" where
  "held enc unmarshal fs \<longleftrightarrow> (\<exists>ps tail. fs_file fs = journal_bytes ps @ tail \<and> frames_ok ps \<and> (\<forall>p \<in> set ps. sealed enc unmarshal p) \<and>
     (tail = [] \<or> (\<exists>q. nul_free q \<and> torn_tail ps q tail)) \<and>
     (fs_poisoned fs = None \<longrightarrow> tail = [] \<and> fs_frameCount fs = length ps \<and>
       (\<exists>m. recovered (checkpoint_decode unmarshal) emptyState ps = Inr m \<and> same_maps (fs_state fs) m)))"

lemma heldI:
  assumes "fs_file fs = journal_bytes ps" "frames_ok ps" "\<forall>p \<in> set ps. sealed enc unmarshal p"
    and "fs_poisoned fs = None \<Longrightarrow> fs_frameCount fs = length ps \<and>
      (\<exists>m. recovered (checkpoint_decode unmarshal) emptyState ps = Inr m \<and> same_maps (fs_state fs) m)"
  shows "held enc unmarshal fs"
  unfolding held_def using assms by (intro exI [of _ ps] exI [of _ "[]"]) auto

lemma reopened_held:
  assumes "frames_ok ps" and "\<forall>p \<in> set ps. sealed enc unmarshal p"
    and "recovered (checkpoint_decode unmarshal) emptyState ps = Inr m"
  shows "\<exists>t. reopened enc unmarshal ps = Inr t \<and> fs_state t = m \<and> fs_poisoned t = None \<and> \<not> fs_closed t \<and> held enc unmarshal t"
proof (cases "length ps > 1")
  case True
  then have ne: "ps \<noteq> []" by auto
  then obtain raw where r: "last ps = string_bytes raw" "checkpoint_decode unmarshal (last ps) = Inr m" "enc m = Inr raw"
    using sealed_recovered [OF assms(2)] assms(3) by auto
  have q: "payload_ok (last ps)" using assms(1) ne by (simp add: frames_ok_def)
  then have f: "checkpoint_frame enc m = Inr (frame_of (last ps))" using r by (simp add: checkpoint_frame_def encodeFrame_Inr)
  let ?t = "\<lparr>fs_state = m, fs_file = frame_of (last ps), fs_frameCount = 1, fs_closed = False, fs_poisoned = None\<rparr>"
  have "held enc unmarshal ?t"
    by (rule heldI [of _ "[last ps]"]) (use assms(2) last_in_set [OF ne] r(2) frames_ok_single [OF q] in \<open>simp_all add: journal_bytes_snoc\<close>)
  then show ?thesis using True f by (simp add: reopened_def assms(3))
next
  case False
  let ?t = "\<lparr>fs_state = m, fs_file = journal_bytes ps, fs_frameCount = length ps, fs_closed = False, fs_poisoned = None\<rparr>"
  have "held enc unmarshal ?t" by (rule heldI [of _ ps]) (use assms in simp_all)
  then show ?thesis using False by (simp add: reopened_def assms(3))
qed

lemma held_opens:
  assumes "held enc unmarshal fs"
  shows "\<exists>t. open_store enc unmarshal (fs_file fs) = Inr t \<and> fs_poisoned t = None \<and> \<not> fs_closed t \<and> held enc unmarshal t \<and>
    (fs_poisoned fs = None \<longrightarrow> same_maps (fs_state fs) (fs_state t))"
proof -
  obtain ps tail where p: "fs_file fs = journal_bytes ps @ tail" "frames_ok ps" "\<forall>p \<in> set ps. sealed enc unmarshal p"
      "tail = [] \<or> (\<exists>q. nul_free q \<and> torn_tail ps q tail)"
      "fs_poisoned fs = None \<longrightarrow> (\<exists>m. recovered (checkpoint_decode unmarshal) emptyState ps = Inr m \<and> same_maps (fs_state fs) m)"
    using assms unfolding held_def by (elim exE conjE) (rule that; (assumption | iprover))
  obtain m where m: "recovered (checkpoint_decode unmarshal) emptyState ps = Inr m" using sealed_recovered [OF p(3)] by blast
  have "open_store enc unmarshal (fs_file fs) = reopened enc unmarshal ps"
    using p(4) open_frames [OF p(2)] open_torn(2) [OF p(2)] by (auto simp: p(1))
  then show ?thesis using reopened_held [OF p(2,3) m] p(5) m by auto
qed

lemma written_held:
  assumes "held enc unmarshal fs" and "written enc env fs nx fs'" and "read_back enc unmarshal nx"
    and "escapes_nul enc"
  shows "held enc unmarshal fs' \<and> (\<forall>t. open_store enc unmarshal (fs_file fs') = Inr t \<longrightarrow>
    same_maps (fs_state fs) (fs_state t) \<or> same_maps nx (fs_state t))"
proof -
  have "fs_poisoned fs = None" using assms(2) by (auto simp: written_def ensureOpen_def)
  then obtain ps m where ps: "fs_file fs = journal_bytes ps" "frames_ok ps" "fs_frameCount fs = length ps"
    and sl: "\<forall>p \<in> set ps. sealed enc unmarshal p"
    and m: "recovered (checkpoint_decode unmarshal) emptyState ps = Inr m" "same_maps (fs_state fs) m"
    using assms(1) by (auto simp: held_def)
  have old: "fs_state t = m" if "reopened enc unmarshal ps = Inr t" for t using reopened_held [OF ps(2) sl m(1)] that by auto
  show ?thesis
    using ps assms(2)
  proof (cases rule: written_frames)
    case (kept raw)
    have "held enc unmarshal fs'" by (rule heldI [of _ ps]) (use kept ps sl in auto)
    moreover have "open_store enc unmarshal (fs_file fs') = reopened enc unmarshal ps" unfolding kept(2) by (rule open_frames [OF ps(2)])
    ultimately show ?thesis using old m(2) by metis
  next
    case (torn raw tail)
    have nf: "nul_free (string_bytes raw)" by (rule escapes_nulD [OF assms(4) torn(1)])
    have "held enc unmarshal fs'" unfolding held_def using torn ps(2) sl nf by (intro exI [of _ ps] exI [of _ tail]) auto
    moreover have "open_store enc unmarshal (fs_file fs') = reopened enc unmarshal ps"
      unfolding torn(3) by (rule open_torn(2) [OF ps(2) torn(4) nf])
    ultimately show ?thesis using old m(2) by metis
  next
    case (stored raw qs)
    obtain n where n: "checkpoint_decode unmarshal (string_bytes raw) = Inr n" "same_maps nx n" "enc n = Inr raw"
      using assms(3) stored(1) by (auto simp: read_back_def)
    have qs: "\<forall>p \<in> set qs. sealed enc unmarshal p" using stored(3) sl n by (auto simp: sealed_def)
    have r: "recovered (checkpoint_decode unmarshal) emptyState qs = Inr n" using stored(3) m(1) n(1) by (auto simp: recovered_snoc)
    have "held enc unmarshal fs'" by (rule heldI [of _ qs]) (use stored qs r n(2) in auto)
    moreover have "open_store enc unmarshal (fs_file fs') = reopened enc unmarshal qs" unfolding stored(5) by (rule open_frames [OF stored(4)])
    ultimately show ?thesis using reopened_held [OF stored(4) qs r] n(2) by auto
  qed
qed

lemma perform_held:
  assumes "held enc unmarshal fs" and "readable num enc unmarshal (fs_state fs) req"
    and "escapes_nul enc"
  shows "held enc unmarshal (perform num enc fs (env, req)) \<and>
    (fs_poisoned fs = None \<longrightarrow> (\<forall>t. open_store enc unmarshal (fs_file (perform num enc fs (env, req))) = Inr t \<longrightarrow>
      same_maps (fs_state fs) (fs_state t) \<or> (\<exists>nx. attempt num (fs_state fs) req nx \<and> same_maps nx (fs_state t))))"
  using perform_cases [of num enc fs env req] unfolding performs_def
proof (elim disjE exE conjE)
  assume "perform num enc fs (env, req) = fs"
  then show ?thesis using assms(1) held_opens [OF assms(1)] by auto
next
  fix nx assume a: "attempt num (fs_state fs) req nx" and w: "written enc env fs nx (perform num enc fs (env, req))"
  have "read_back enc unmarshal nx" using a assms(2) by (simp add: readable_def)
  from written_held [OF assms(1) w this assms(3)] show ?thesis using a by blast
qed

lemma serves_held:
  assumes "serves (readable num enc unmarshal) num enc unmarshal fs0 fs" and "held enc unmarshal fs0"
    and "escapes_nul enc"
  shows "held enc unmarshal fs"
  using assms(1)
proof (induction)
  case now
  then show ?case by (rule assms(2))
next
  case (request fs req env)
  then show ?case using perform_held assms(3) by blast
next
  case (close fs)
  then show ?case by (simp add: held_def Close_def)
next
  case (restart fs fs')
  then show ?case using held_opens by fastforce
qed

lemma fresh_held: "held enc unmarshal fresh_store"
  by (rule heldI [of _ "[]"]) (simp_all add: fresh_store_def journal_bytes_def frames_ok_def)

lemma serves_any: "serves R num enc unmarshal fs0 fs \<Longrightarrow> serves (\<lambda>_ _. True) num enc unmarshal fs0 fs"
  by (induction rule: serves.induct) (auto intro: serves.intros)

end
