(* ===== verification/Durable_Claims.thy ===== *)
theory Durable_Claims
  imports Durable_Crash
begin

text \<open>
  What clients of the durable store rely on: a command takes effect once, a commit is all or
  nothing across crashes, intents are not lost, and the journal stays within its limits.
\<close>

section \<open>Commands take effect once\<close>

definition recorded :: "Transaction \<Rightarrow> CommitResult \<Rightarrow> diskState \<Rightarrow> bool" where
  "recorded tx r s \<longleftrightarrow> (\<exists>key prior. CommandIdentityKey (tx_CommandScope tx) (tx_CommandID tx) = Inr key \<and> map_of (ds_Commands s) key = Some prior \<and>
     co_Scope prior = tx_CommandScope tx \<and> co_CommandID prior = tx_CommandID tx \<and> co_IdentityDigest prior = tx_IdentityDigest tx \<and>
     co_OutcomeDigest prior = cm_OutcomeDigest r \<and> co_Outcome prior = cm_Outcome r)"

lemma lives_store_ok:
  assumes "open_store enc unmarshal [] = Inr fs0" and "lives num enc unmarshal (0, fs0) (n, fs)"
  shows "store_ok enc unmarshal n fs"
  using assms lives_ok fresh_store_ok by (auto simp: open_empty)

lemma Commit_open: "Commit num enc env fs tx = (fs', Inr r) \<Longrightarrow> fs_poisoned fs = None"
  by (auto simp: Commit_def ensureOpen_def dest!: opened_cases)

lemma Commit_recorded:
  assumes "Commit num enc env fs tx = (fs', Inr r)"
  shows "recorded tx r (fs_state fs') \<and> fs_poisoned fs' = None"
  using assms
proof (cases rule: Commit_cases)
  case (replayed key prior)
  have "co_Scope prior = tx_CommandScope tx \<and> co_CommandID prior = tx_CommandID tx"
    using assms replayed(2,3) by (auto simp: Commit_def dest!: opened_cases guard_cases)
  then show ?thesis using replayed Commit_open [OF assms] by (auto simp: recorded_def)
next
  case (committed key outcome digest mid)
  have "fs_state fs' = committed_state tx key outcome digest mid" using committed(2,6) by (auto simp: written_def)
  then show ?thesis using committed by (auto simp: recorded_def committed_state_def update_conv')
qed simp_all

lemma recorded_replays:
  assumes "recorded tx r (fs_state fs)" and "io_ctx env = None" and "ensureOpen env fs = None"
    and "tx_CommandScope tx' = tx_CommandScope tx" and "tx_CommandID tx' = tx_CommandID tx" and "ValidDigest (tx_IdentityDigest tx')"
  shows "Commit num enc env fs tx' = (if tx_IdentityDigest tx' = tx_IdentityDigest tx
    then (fs, Inr \<lparr>cm_Replay = True, cm_OutcomeDigest = cm_OutcomeDigest r, cm_Outcome = cm_Outcome r\<rparr>)
    else (fs, Inl ErrIdentityConflict))"
  using assms by (auto simp: recorded_def Commit_def opened_def guard_def)

text \<open>
  C33: once a commit has answered without an error, every later commit of the same command on an
  open store, whatever happened between them, answers with the recorded outcome and changes
  nothing, or reports an identity conflict when its identity digest differs.
\<close>

theorem commands_take_effect_once:
  assumes "open_store enc unmarshal [] = Inr fs0" and "lives num enc unmarshal (0, fs0) (n, fs)"
    and "request_recoverable num enc unmarshal (fs_state fs) (CommitTx tx)" and "Suc n < 2 ^ 64"
    and "Commit num enc env fs tx = (fs1, Inr r)" and "lives num enc unmarshal (Suc n, fs1) (m, fs2)"
    and "tx_CommandScope tx' = tx_CommandScope tx" and "tx_CommandID tx' = tx_CommandID tx" and "ValidDigest (tx_IdentityDigest tx')"
    and "io_ctx env' = None" and "ensureOpen env' fs2 = None"
  shows "Commit num enc env' fs2 tx' = (if tx_IdentityDigest tx' = tx_IdentityDigest tx
    then (fs2, Inr \<lparr>cm_Replay = True, cm_OutcomeDigest = cm_OutcomeDigest r, cm_Outcome = cm_Outcome r\<rparr>)
    else (fs2, Inl ErrIdentityConflict))"
proof -
  have "perform num enc fs (env, CommitTx tx) = fs1" using assms(5) by (simp add: perform_def)
  then have ok: "store_ok enc unmarshal (Suc n) fs1" using perform_ok(1) [OF lives_store_ok [OF assms(1,2)] assms(3,4)] by metis
  have "recorded tx r (fs_state fs2)"
  proof (rule lives_keep [OF assms(6) ok])
    show "fs_poisoned fs1 = None" "recorded tx r (fs_state fs1)" using Commit_recorded [OF assms(5)] by simp_all
    show "recorded tx r nx" if "recorded tx r s" "attempt num s req nx" for s req nx
      using that(1) attempt_keeps_commands [OF that(2)] unfolding recorded_def by metis
  qed
  then show ?thesis using recorded_replays assms(7-11) by blast
qed

section \<open>Commits are all or nothing\<close>

text \<open>What a transaction that took effect has done to the state.\<close>

definition transaction_published :: "(string \<Rightarrow> string) \<Rightarrow> Transaction \<Rightarrow> diskState \<Rightarrow> diskState \<Rightarrow> bool" where
  "transaction_published num tx s s' \<longleftrightarrow>
     (\<forall>m \<in> set (tx_Mutations tx). ag_Revision m = current_revision s (keyString (ag_Key m)) + 1 \<and>
        (\<exists>c. Canonicalize (if ag_Payload m = [] then ''{}'' else ag_Payload m) = Inr c \<and>
             map_of (ds_Aggregates s') (keyString (ag_Key m)) = Some (m\<lparr>ag_Payload := c\<rparr>))) \<and>
     (\<forall>k. k \<notin> (\<lambda>m. keyString (ag_Key m)) ` set (tx_Mutations tx) \<longrightarrow> map_of (ds_Aggregates s') k = map_of (ds_Aggregates s) k) \<and>
     (\<forall>m \<in> set (tx_Mutations tx). \<exists>!e. e \<in> set (tx_Events tx) \<and> event_key e = keyString (ag_Key m)) \<and>
     (\<forall>e \<in> set (tx_Events tx). (\<exists>m \<in> set (tx_Mutations tx). event_key e = keyString (ag_Key m) \<and> ev_AggregateRevision e = ag_Revision m) \<and>
        (distinct (map ev_EventID (tx_Events tx)) \<longrightarrow> map_of (ds_Events s') (ev_EventID e) = Some (cloneEvent num e))) \<and>
     (\<forall>x \<in> set (tx_Intents tx). map_of (ds_Intents s) (di_Identity (sd_Intent x)) = None \<and>
        map_of (ds_Intents s') (di_Identity (sd_Intent x)) = Some (seeded_intent num (tx_At tx) x))"

lemma map_of_entered: "distinct (map f xs) \<Longrightarrow> x \<in> set xs \<Longrightarrow> map_of (fold (\<lambda>x. AList.update (f x) (g x)) xs al) (f x) = Some (g x)"
proof -
  assume d: "distinct (map f xs)" and x: "x \<in> set xs"
  have "map_of (map (\<lambda>x. (f x, g x)) xs) (f x) = Some (g x)"
    using d x by (intro map_of_is_SomeI) (auto simp: comp_def)
  then show ?thesis using d by (simp add: updates_of map_of_updates comp_def map_add_def)
qed

lemma applied_published:
  assumes "applied num s tx ms t"
  shows "transaction_published num tx s t"
proof -
  note a = applied_facts [OF assms]
  have ag: "map_of (ds_Aggregates t) = map_of (ds_Aggregates s) ++ map_of ms" by (simp add: a(7) map_of_updates [OF a(1)])
  have event: "\<exists>m \<in> set (tx_Mutations tx). event_key e = keyString (ag_Key m) \<and> ev_AggregateRevision e = ag_Revision m" if e: "e \<in> set (tx_Events tx)" for e
  proof -
    obtain v where v: "map_of ms (event_key e) = Some v" "ag_Revision v = ev_AggregateRevision e" using a(5) [OF e] by blast
    have "event_key e \<in> fst ` set ms" using a(4) e by blast
    then obtain m where m: "m \<in> set (tx_Mutations tx)" "event_key e = keyString (ag_Key m)" unfolding a(10) by blast
    then have "ag_Revision v = ag_Revision m" using a(9) [OF m(1)] v(1) by auto
    then show ?thesis using m v(2) by metis
  qed
  show ?thesis
    unfolding transaction_published_def
  proof (intro conjI ballI allI impI)
    fix m assume m: "m \<in> set (tx_Mutations tx)"
    obtain c where c: "Canonicalize (if ag_Payload m = [] then ''{}'' else ag_Payload m) = Inr c" "map_of ms (keyString (ag_Key m)) = Some (m\<lparr>ag_Payload := c\<rparr>)"
      using a(9) [OF m] by blast
    show "ag_Revision m = current_revision s (keyString (ag_Key m)) + 1"
      using a(2) [OF map_of_SomeD [OF c(2)]] by (simp add: mutation_ok_def)
    show "\<exists>c. Canonicalize (if ag_Payload m = [] then ''{}'' else ag_Payload m) = Inr c \<and>
        map_of (ds_Aggregates t) (keyString (ag_Key m)) = Some (m\<lparr>ag_Payload := c\<rparr>)"
      using c by (intro exI conjI) (rule c(1), simp add: ag map_add_def)
    have "keyString (ag_Key m) \<in> event_key ` set (tx_Events tx)" unfolding a(4) a(10) using m by blast
    then show "\<exists>!e. e \<in> set (tx_Events tx) \<and> event_key e = keyString (ag_Key m)"
      using a(3) by (metis (no_types, lifting) distinct_map imageE inj_onD)
  next
    fix k assume "k \<notin> (\<lambda>m. keyString (ag_Key m)) ` set (tx_Mutations tx)"
    then have "map_of ms k = None" using a(10) by (simp add: map_of_eq_None_iff)
    then show "map_of (ds_Aggregates t) k = map_of (ds_Aggregates s) k" by (simp add: ag map_add_def)
  next
    fix e assume e: "e \<in> set (tx_Events tx)"
    show "\<exists>m \<in> set (tx_Mutations tx). event_key e = keyString (ag_Key m) \<and> ev_AggregateRevision e = ag_Revision m" by (rule event [OF e])
    assume "distinct (map ev_EventID (tx_Events tx))"
    then show "map_of (ds_Events t) (ev_EventID e) = Some (cloneEvent num e)" using map_of_entered e by (simp add: a(7))
  next
    fix x assume x: "x \<in> set (tx_Intents tx)"
    show "map_of (ds_Intents s) (di_Identity (sd_Intent x)) = None" using a(6) [OF x] by blast
    show "map_of (ds_Intents t) (di_Identity (sd_Intent x)) = Some (seeded_intent num (tx_At tx) x)"
      using map_of_entered [OF a(8) x, of "seeded_intent num (tx_At tx)"] by (simp add: a(7))
  qed
qed

text \<open>
  C34: a commit that answers with a new outcome advances each aggregate it names from its current
  revision to the next one, with the canonical payload, leaves every other aggregate alone,
  stores the one event of each new revision and enters its intents as pending. A replay and a
  commit that answers with an error publish nothing.
\<close>

theorem commit_all_or_nothing:
  assumes "Commit num enc env fs tx = (fs', r)"
  shows "if \<exists>a. r = Inr a \<and> \<not> cm_Replay a then transaction_published num tx (fs_state fs) (fs_state fs')
    else fs_state fs' = fs_state fs"
  using assms
proof (cases rule: Commit_cases)
  case (torn e)
  then show ?thesis by (auto simp: performs_def written_def)
next
  case (committed key outcome digest mid)
  obtain ms where "applied num (fs_state fs) tx ms mid" using applyTransaction_applied [OF committed(3)] .
  moreover have "fs_state fs' = committed_state tx key outcome digest mid" using committed(2,6) by (auto simp: written_def)
  ultimately show ?thesis using applied_published committed(5) by (fastforce simp: transaction_published_def committed_state_def)
qed simp_all

section \<open>Crashes\<close>

text \<open>
  C35: take a store that was opened on an empty file and has served any requests, whatever the file
  system did to them, and that is not poisoned; the text of a checkpoint contains no NUL byte, as
  control characters are escaped. Then, for every decoder of checkpoints, a further request leaves a
  file which recovery treats as it treats the file before the request, or one that ends in the complete
  checkpoint of a state the request makes, behind the previous checkpoints or in their place. If
  moreover every state that a request could make so far is read back, that is, if recovery decodes and
  validates its checkpoint, finds the same maps and would write the same checkpoint again, then opening
  the store on the bytes left succeeds and finds the maps of the state before the request or of one the
  request makes, and those of the published state whenever the store was not poisoned.
\<close>

theorem crash_atomic:
  assumes "open_store enc unmarshal [] = Inr fs0" and "serves (\<lambda>_ _. True) num enc unmarshal fs0 fs" and "fs_poisoned fs = None"
    and "escapes_nul enc" and "fs' = perform num enc fs (env, req)"
  shows "(request_undone enc unmarshal fs fs' \<or> (\<exists>nx. attempt num (fs_state fs) req nx \<and> request_done enc fs nx fs')) \<and>
    (serves (readable num enc unmarshal) num enc unmarshal fs0 fs \<and> readable num enc unmarshal (fs_state fs) req \<longrightarrow>
      (\<exists>t. open_store enc unmarshal (fs_file fs') = Inr t \<and> fs_poisoned t = None \<and> \<not> fs_closed t \<and>
        (same_maps (fs_state fs) (fs_state t) \<or> (\<exists>nx. attempt num (fs_state fs) req nx \<and> same_maps nx (fs_state t))) \<and>
        (fs_poisoned fs' = None \<longrightarrow> same_maps (fs_state fs') (fs_state t))))"
proof (intro conjI impI)
  have "framed fs" by (rule serves_framed [OF assms(2) fresh_framed [OF assms(1)]])
  then show "request_undone enc unmarshal fs fs' \<or> (\<exists>nx. attempt num (fs_state fs) req nx \<and> request_done enc fs nx fs')"
    unfolding assms(5) using assms(4) by (rule request_crash)
  assume r: "serves (readable num enc unmarshal) num enc unmarshal fs0 fs \<and> readable num enc unmarshal (fs_state fs) req"
  have "held enc unmarshal fs0" using assms(1) fresh_held by (simp add: open_empty)
  then have "held enc unmarshal fs" using serves_held r assms(4) by blast
  then have h: "held enc unmarshal fs'" "\<forall>t. open_store enc unmarshal (fs_file fs') = Inr t \<longrightarrow>
      same_maps (fs_state fs) (fs_state t) \<or> (\<exists>nx. attempt num (fs_state fs) req nx \<and> same_maps nx (fs_state t))"
    using perform_held [OF _ conjunct2 [OF r] assms(4), of env] assms(3) unfolding assms(5) by simp_all
  then show "\<exists>t. open_store enc unmarshal (fs_file fs') = Inr t \<and> fs_poisoned t = None \<and> \<not> fs_closed t \<and>
        (same_maps (fs_state fs) (fs_state t) \<or> (\<exists>nx. attempt num (fs_state fs) req nx \<and> same_maps nx (fs_state t))) \<and>
        (fs_poisoned fs' = None \<longrightarrow> same_maps (fs_state fs') (fs_state t))"
    using held_opens [OF h(1)] h(2) by metis
qed

section \<open>Intents\<close>

text \<open>
  C36: an intent stays in the store for the rest of its life, across restarts, with the same
  identity and payload; each change raises its revision, a completed or dead intent never
  changes again, and whoever holds a lease on an earlier revision is refused.
\<close>

theorem intents_never_lost:
  assumes "open_store enc unmarshal [] = Inr fs0" and "lives num enc unmarshal (0, fs0) (n, fs)" and "fs_poisoned fs = None"
    and "map_of (ds_Intents (fs_state fs)) i = Some r" and "lives num enc unmarshal (n, fs) (m, t)"
  shows "\<exists>r'. map_of (ds_Intents (fs_state t)) i = Some r' \<and> ir_Intent r' = ir_Intent r \<and>
    (r' = r \<or> unat (ir_Revision r) < unat (ir_Revision r') \<and> ir_Status r \<noteq> IntentCompleted \<and> ir_Status r \<noteq> IntentDead \<and>
      (\<forall>f env. nf_IntentID f = i \<longrightarrow> nf_ExpectedRevision f = ir_Revision r \<longrightarrow> io_ctx env = None \<longrightarrow> ensureOpen env t = None \<longrightarrow>
        CompleteIntent num enc env t f = (t, Inl (ErrLeaseConflict StorePkg))))"
proof -
  define P where "P s \<longleftrightarrow> (\<exists>r'. map_of (ds_Intents s) i = Some r' \<and> intent_follows r r')" for s :: diskState
  have "P (fs_state t)"
  proof (rule lives_keep [OF assms(5) lives_store_ok [OF assms(1,2)] assms(3)])
    show "P (fs_state fs)" using assms(4) by (simp add: P_def intent_follows_def)
    show "P nx" if "state_ok s" "intents_below k s" "Suc k < 2 ^ 64" "P s" "attempt num s req nx" for k s req nx
      using that(4) attempt_keeps_intents [OF that(5,1,2,3)] intent_follows_trans unfolding P_def by metis
  qed
  then obtain r' where r': "map_of (ds_Intents (fs_state t)) i = Some r'" "intent_follows r r'" by (auto simp: P_def)
  have "CompleteIntent num enc env t f = (t, Inl (ErrLeaseConflict StorePkg))"
    if "r' \<noteq> r" "nf_IntentID f = i" "nf_ExpectedRevision f = ir_Revision r" "io_ctx env = None" "ensureOpen env t = None" for f env
  proof -
    have "ir_Revision r' \<noteq> ir_Revision r" using r'(2) that(1) by (auto simp: intent_follows_def)
    then show ?thesis using that r'(1) by (simp add: CompleteIntent_def foldIntent_def opened_def guard_def intent_fence_holds_def)
  qed
  then show ?thesis using r' by (auto simp: intent_follows_def intent_ended_def)
qed

section \<open>Bounds\<close>

text \<open>
  C37: at every moment of the life of a store that was opened on an empty file, whatever requests it
  served and whatever its encoder, its decoder and the file system did, the file is at most four
  complete frames and no more bytes than recovery accepts. Behind the frames there may be a proper part
  of one more frame, but only when the store is poisoned and there was room for the whole frame. In a
  store that is not poisoned the counter is the number of frames in the file.
\<close>

theorem journal_bounded:
  assumes "open_store enc unmarshal [] = Inr fs0" and "serves (\<lambda>_ _. True) num enc unmarshal fs0 fs"
  shows "\<exists>ps tail. fs_file fs = concat (map frame_of ps) @ tail \<and> (\<forall>p \<in> set ps. 0 < length p \<and> length p \<le> maxFrameBytes) \<and>
    length ps \<le> retainedFrameBudget \<and> length (fs_file fs) \<le> maxJournalBytes \<and>
    (tail = [] \<or> length ps < retainedFrameBudget \<and> (\<exists>q k. 0 < k \<and> k < length (frame_of q) \<and> tail = take k (frame_of q))) \<and>
    (fs_poisoned fs = None \<longrightarrow> tail = [] \<and> fs_frameCount fs = length ps)"
proof -
  have "framed fs" by (rule serves_framed [OF assms(2) fresh_framed [OF assms(1)]])
  then obtain ps tail where p: "fs_file fs = journal_bytes ps @ tail" "frames_ok ps" "tail = [] \<or> (\<exists>q. torn_tail ps q tail)"
      "fs_poisoned fs = None \<longrightarrow> tail = [] \<and> fs_frameCount fs = length ps"
    unfolding framed_def by (elim exE conjE) (rule that)
  have "length (fs_file fs) \<le> maxJournalBytes" using p(1-3) by (auto simp: torn_tail_def frames_ok_def)
  moreover have "tail = [] \<or> length ps < retainedFrameBudget \<and> (\<exists>q k. 0 < k \<and> k < length (frame_of q) \<and> tail = take k (frame_of q))"
    using p(3) unfolding torn_tail_def by blast
  moreover have "\<forall>p \<in> set ps. 0 < length p \<and> length p \<le> maxFrameBytes" "length ps \<le> retainedFrameBudget"
    using p(2) by (auto simp: frames_ok_def payload_ok_def)
  ultimately show ?thesis using p(1,4) by (intro exI [of _ ps] exI [of _ tail]) (simp add: journal_bytes_def)
qed

section \<open>A sample life\<close>

text \<open>
  One transaction that enters one intent, and a claim of it, on a store whose
  encoding tells the two states apart; the numbers of payloads are printed as they were read.
\<close>

definition sample_scope :: CommandScope where
  "sample_scope = \<lparr>sc_SchemaVersion = CommandScopeSchemaVersion, sc_Operation = ''admit'', sc_NamespaceID = ''ns'', sc_ResourceType = ''run'',
     sc_ResourceID = ''r1'', sc_AuthorityRef = [], sc_AuthorityDigest = []\<rparr>"

definition sample_empty_digest :: string where "sample_empty_digest = sha256_text ''{}''"

definition sample_seed :: IntentSeed where
  "sample_seed = \<lparr>sd_Intent = \<lparr>di_Kind = IntentOutbox, di_Identity = ''i1'', di_AggregateID = ''r1'', di_PayloadDigest = sample_empty_digest,
     di_Payload = []\<rparr>, sd_AvailableAt = 0\<rparr>"

definition sample_tx :: Transaction where
  "sample_tx = \<lparr>tx_CommandScope = sample_scope, tx_CommandID = ''c1'', tx_IdentityDigest = sample_empty_digest, tx_Expected = [], tx_Mutations = [],
     tx_Events = [], tx_Intents = [sample_seed], tx_Outcome = ''{}'', tx_At = 5\<rparr>"

definition sample_command_key :: string where "sample_command_key = value_of (CommandIdentityKey sample_scope ''c1'')"

definition sample_pending :: IntentRecord where
  "sample_pending = \<lparr>ir_Intent = sd_Intent sample_seed, ir_Status = IntentPending, ir_AvailableAt = 5, ir_AttemptCount = 0, ir_LeaseOwner = [],
     ir_LeaseTokenHash = [], ir_LeaseExpiresAt = None, ir_LastFailure = None, ir_CompletedAt = None, ir_Revision = 1\<rparr>"

definition sample_state :: diskState where
  "sample_state = committed_state sample_tx sample_command_key ''{}'' sample_empty_digest (emptyState\<lparr>ds_Intents := [(''i1'', sample_pending)]\<rparr>)"

definition sample_claim :: ClaimRequest where
  "sample_claim = \<lparr>cq_Kinds = [], cq_OwnerRef = ''w1'', cq_LeaseToken = ''tok'', cq_Now = 6, cq_LeaseExpiresAt = 9, cq_Limit = 1\<rparr>"

definition sample_leased_intent :: IntentRecord where
  "sample_leased_intent = claimed_record sample_claim (sha256_text ''tok'') sample_pending"

definition sample_claimed_state :: diskState where
  "sample_claimed_state = sample_state\<lparr>ds_Intents := [(''i1'', sample_leased_intent)]\<rparr>"

definition sample_enc :: "diskState \<Rightarrow> string result" where
  "sample_enc s = Inr (if s = sample_claimed_state then ''y'' else ''x'')"

definition sample_unmarshal :: "u8 list \<Rightarrow> diskState result" where
  "sample_unmarshal p = Inr (if p = string_bytes ''y'' then sample_claimed_state else sample_state)"

definition sample_env :: IoEnv where "sample_env = \<lparr>io_ctx = None, io_authority = None, io_append = AppendDone\<rparr>"
definition torn_env :: IoEnv where "torn_env = \<lparr>io_ctx = None, io_authority = None, io_append = AppendTorn 40 (Errorf ''no space'')\<rparr>"

definition sample_store :: Store where
  "sample_store = \<lparr>fs_state = sample_state, fs_file = frame_of (string_bytes ''x''), fs_frameCount = 1, fs_closed = False, fs_poisoned = None\<rparr>"

lemma sample_braces: "Canonicalize ''{}'' = Inr ''{}''" "Marshal (JObj []) = Inr ''{}''" "cloneMap (\<lambda>t. t) [] = []"
  by code_simp+

lemma sample_identifiers: "ValidIdentifier ''i1''" "ValidIdentifier ''r1''" "ValidIdentifier ''c1''" "ValidIdentifier ''admit''" "ValidIdentifier ''ns''"
    "ValidIdentifier ''run''" "ValidIdentifier ''w1''"
  by code_simp+

lemma sample_digests: "DigestValue (JObj []) = Inr sample_empty_digest" "normalizeRaw ''{}'' = Inr (''{}'', sample_empty_digest)" "ValidDigest sample_empty_digest"
  by (simp_all add: DigestValue_def normalizeRaw_def Digest_def sample_braces sample_empty_digest_def sha256_text_ValidDigest)

lemma sample_scope_key: "CommandIdentityKey sample_scope ''c1'' = Inr sample_command_key"
  by (simp add: CommandIdentityKey_def CommandScope_Validate_def sample_scope_def sample_identifiers sample_command_key_def)

lemma sample_applied: "applyTransaction (\<lambda>t. t) emptyState sample_tx = Inr (emptyState\<lparr>ds_Intents := [(''i1'', sample_pending)]\<rparr>)"
proof -
  have "validateIntentSeed sample_seed 5 = None"
    by (simp add: validateIntentSeed_def sample_seed_def sample_identifiers sample_digests validIntentKind_def)
  moreover have "seeded_intent (\<lambda>t. t) 5 sample_seed = sample_pending"
    by (simp add: seeded_intent_def sample_seed_def sample_pending_def cloneDurableIntent_def sample_braces)
  ultimately show ?thesis
    by (simp add: applyTransaction_def sample_tx_def intent_step_def emptyState_def) (simp add: sample_seed_def)
qed

lemma sample_attempt: "attempt (\<lambda>t. t) emptyState (CommitTx sample_tx) t \<longleftrightarrow> t = sample_state"
proof
  assume "attempt (\<lambda>t. t) emptyState (CommitTx sample_tx) t"
  then show "t = sample_state"
    by (rule attempt_commitE)
      (use sample_applied sample_scope_key sample_digests(2) in \<open>auto simp: sample_state_def\<close>, simp_all add: sample_tx_def)
next
  assume "t = sample_state"
  moreover have "attempt (\<lambda>t. t) emptyState (CommitTx sample_tx) sample_state"
    unfolding sample_state_def
    by (rule attempt.commit [OF _ _ _ _ _ sample_applied])
      (simp_all add: sample_tx_def sample_scope_key sample_digests(2,3) emptyState_def)
  ultimately show "attempt (\<lambda>t. t) emptyState (CommitTx sample_tx) t" by simp
qed

lemma sample_states_differ: "sample_state \<noteq> sample_claimed_state"
proof -
  have "sample_leased_intent \<noteq> sample_pending" by (simp add: sample_leased_intent_def claimed_record_def sample_pending_def)
  then show ?thesis
    by (auto simp: sample_claimed_state_def sample_state_def committed_state_def dest: arg_cong [of _ _ ds_Intents])
qed

lemma sample_recoverable:
  "recoverable sample_enc sample_unmarshal sample_state" "recoverable sample_enc sample_unmarshal sample_claimed_state"
  using sample_states_differ by (simp_all add: recoverable_def sample_enc_def sample_unmarshal_def nul_free_def string_bytes_def)

lemma sample_request: "request_recoverable (\<lambda>t. t) sample_enc sample_unmarshal emptyState (CommitTx sample_tx)"
  using sample_recoverable
  by (simp add: request_recoverable_def sample_attempt request_ok_def) (simp add: sample_tx_def sample_seed_def clone_stable_def sample_braces)

lemma sample_commit:
  "Commit (\<lambda>t. t) sample_enc sample_env fresh_store sample_tx =
    (sample_store, Inr \<lparr>cm_Replay = False, cm_OutcomeDigest = sample_empty_digest, cm_Outcome = ''{}''\<rparr>)"
proof -
  have f: "checkpoint_frame sample_enc sample_state = Inr (frame_of (string_bytes ''x''))"
    using sample_states_differ by (simp add: checkpoint_frame_def sample_enc_def encodeFrame_Inr payload_ok_def string_bytes_def maxFrameBytes_def)
  have c: "append_frame AppendDone [] 0 (frame_of (string_bytes ''x'')) = ((frame_of (string_bytes ''x''), 1), None)"
    by (simp add: append_frame_def shouldCompact_def string_bytes_def maxJournalBytes_def maxEncodedFrameBytes_def retainedFrameBudget_def maxFrameBytes_def)
  have k: "CommandIdentityKey (tx_CommandScope sample_tx) (tx_CommandID sample_tx) = Inr sample_command_key"
    "ValidDigest (tx_IdentityDigest sample_tx)" "tx_At sample_tx \<noteq> 0" "normalizeRaw (tx_Outcome sample_tx) = Inr (''{}'', sample_empty_digest)"
    by (simp_all add: sample_tx_def sample_scope_key sample_digests(2,3))
  have e: "fs_state fresh_store = emptyState" "ds_Commands emptyState = []" by (simp_all add: fresh_store_def emptyState_def)
  have n: "emptyState\<lparr>ds_Intents := [(''i1'', sample_pending)], ds_Commands := [(sample_command_key, \<lparr>co_Scope = tx_CommandScope sample_tx,
      co_CommandID = tx_CommandID sample_tx, co_IdentityDigest = tx_IdentityDigest sample_tx, co_OutcomeDigest = sample_empty_digest,
      co_Outcome = ''{}''\<rparr>)]\<rparr> = sample_state"
    by (simp add: sample_state_def committed_state_def e)
  have o: "io_ctx sample_env = None" "ensureOpen sample_env fresh_store = None" by (simp_all add: sample_env_def ensureOpen_def fresh_store_def)
  show ?thesis
    by (simp add: Commit_def opened_def o k e guard_def bindS_def sample_applied publish_def store_append_def n f)
      (simp add: sample_env_def fresh_store_def c [simplified] sample_store_def)
qed

lemma sample_life:
  "lives (\<lambda>t. t) sample_enc sample_unmarshal (0, fresh_store) (0, fresh_store)"
  "lives (\<lambda>t. t) sample_enc sample_unmarshal (0, fresh_store) (1, sample_store)"
proof -
  show n: "lives (\<lambda>t. t) sample_enc sample_unmarshal (0, fresh_store) (0, fresh_store)" by (rule lives.now)
  have "lives (\<lambda>t. t) sample_enc sample_unmarshal (0, fresh_store) (Suc 0, perform (\<lambda>t. t) sample_enc fresh_store (sample_env, CommitTx sample_tx))"
    by (rule lives.request [OF n]) (use sample_request in \<open>simp_all add: fresh_store_def\<close>)
  then show "lives (\<lambda>t. t) sample_enc sample_unmarshal (0, fresh_store) (1, sample_store)" by (simp add: perform_def sample_commit)
qed

theorem commands_take_effect_once_witness:
  "Commit (\<lambda>t. t) sample_enc sample_env sample_store sample_tx =
     (sample_store, Inr \<lparr>cm_Replay = True, cm_OutcomeDigest = sample_empty_digest, cm_Outcome = ''{}''\<rparr>)"
proof -
  have "request_recoverable (\<lambda>t. t) sample_enc sample_unmarshal (fs_state fresh_store) (CommitTx sample_tx)"
    using sample_request by (simp add: fresh_store_def)
  from commands_take_effect_once [OF open_empty sample_life(1) this _ sample_commit lives.now, of sample_tx sample_env]
  show ?thesis by (simp add: sample_env_def sample_store_def ensureOpen_def) (simp add: sample_tx_def sample_digests(3))
qed

theorem commit_all_or_nothing_witness:
  "transaction_published (\<lambda>t. t) sample_tx emptyState sample_state"
  using commit_all_or_nothing [OF sample_commit] by (simp add: fresh_store_def sample_store_def)

lemma sample_escapes: "escapes_nul sample_enc"
  by (auto simp: escapes_nul_def sample_enc_def nul_free_def string_bytes_def)

text \<open>The commit of the sample on a disk that fills up after forty bytes, and a store that reads its checkpoints back.\<close>

theorem crash_atomic_witness:
  "\<exists>t. open_store sample_enc sample_unmarshal (fs_file (perform (\<lambda>t. t) sample_enc fresh_store (torn_env, CommitTx sample_tx))) = Inr t \<and>
    (same_maps emptyState (fs_state t) \<or> same_maps sample_state (fs_state t))"
proof -
  have e: "fs_state fresh_store = emptyState" "fs_poisoned fresh_store = None" by (simp_all add: fresh_store_def)
  have "state_ok sample_state"
  proof (rule attempt_state_ok(1) [of "\<lambda>t. t" emptyState "CommitTx sample_tx" sample_state 0])
    show "request_ok (\<lambda>t. t) (CommitTx sample_tx)" using sample_request by (simp add: request_recoverable_def)
  qed (simp_all add: sample_attempt empty_state_ok, simp add: intents_below_def emptyState_def)
  then have "checkpoint_decode sample_unmarshal (string_bytes ''x'') = Inr sample_state"
    by (simp add: checkpoint_decode_def sample_unmarshal_def state_ok_def string_bytes_def)
  then have r: "readable (\<lambda>t. t) sample_enc sample_unmarshal (fs_state fresh_store) (CommitTx sample_tx)"
    using sample_states_differ by (simp add: readable_def e sample_attempt read_back_def sample_enc_def)
  from crash_atomic [where num = "\<lambda>t. t" and unmarshal = sample_unmarshal and env = torn_env and req = "CommitTx sample_tx",
      OF open_empty serves.now e(2) sample_escapes refl, THEN conjunct2, rule_format, OF conjI, OF serves.now r]
  show ?thesis by (auto simp: e sample_attempt)
qed

lemma sample_attempt_claim: "attempt (\<lambda>t. t) sample_state (Claim sample_claim) t \<longleftrightarrow> t = sample_claimed_state"
proof -
  have i: "ds_Intents sample_state = [(''i1'', sample_pending)]" by (simp add: sample_state_def committed_state_def)
  have t: "PrivateTokenDigest ''tok'' = Inr (sha256_text ''tok'')" by (simp add: PrivateTokenDigest_def) code_simp
  have "claimable sample_claim sample_pending" by (simp add: claimable_def sample_claim_def sample_pending_def)
  then have c: "claim_candidates sample_state sample_claim = [(''i1'', sample_pending)]" by (simp add: claim_candidates_def i) (simp add: sample_claim_def)
  have s: "sample_state\<lparr>ds_Intents := claim_all sample_claim (sha256_text ''tok'') (claim_candidates sample_state sample_claim) (ds_Intents sample_state)\<rparr> =
      sample_claimed_state"
    by (simp add: c i claim_all_def sample_claimed_state_def sample_leased_intent_def)
  show ?thesis
  proof
    assume "attempt (\<lambda>t. t) sample_state (Claim sample_claim) t"
    then show "t = sample_claimed_state" by (rule attempt_claimE) (use t s in \<open>auto simp: sample_claim_def\<close>)
  next
    assume "t = sample_claimed_state"
    then show "attempt (\<lambda>t. t) sample_state (Claim sample_claim) t"
      using attempt.claim [of sample_claim "sha256_text ''tok''" "\<lambda>t. t" sample_state] t s sample_identifiers(7) by (simp add: sample_claim_def)
  qed
qed

lemma sample_claim_life:
  "lives (\<lambda>t. t) sample_enc sample_unmarshal (1, sample_store) (2, perform (\<lambda>t. t) sample_enc sample_store (sample_env, Claim sample_claim))"
proof -
  have "request_recoverable (\<lambda>t. t) sample_enc sample_unmarshal (fs_state sample_store) (Claim sample_claim)"
    using sample_recoverable(2) by (simp add: request_recoverable_def request_ok_def sample_store_def sample_attempt_claim)
  moreover have "Suc 1 < (2 :: nat) ^ 64" by simp
  ultimately have "lives (\<lambda>t. t) sample_enc sample_unmarshal (1, sample_store)
      (Suc 1, perform (\<lambda>t. t) sample_enc sample_store (sample_env, Claim sample_claim))"
    by (rule lives.request [OF lives.now])
  then show ?thesis unfolding Suc_1 .
qed

theorem intents_never_lost_witness:
  "\<exists>r'. map_of (ds_Intents (fs_state (perform (\<lambda>t. t) sample_enc sample_store (sample_env, Claim sample_claim)))) ''i1'' = Some r' \<and>
    ir_Intent r' = sd_Intent sample_seed"
proof -
  have i: "map_of (ds_Intents (fs_state sample_store)) ''i1'' = Some sample_pending" "fs_poisoned sample_store = None"
    by (simp_all add: sample_store_def sample_state_def committed_state_def)
  have "ir_Intent sample_pending = sd_Intent sample_seed" by (simp add: sample_pending_def)
  with intents_never_lost [OF open_empty sample_life(2) i(2,1) sample_claim_life] show ?thesis by metis
qed

lemma sample_serves: "serves (\<lambda>_ _. True) (\<lambda>t. t) sample_enc sample_unmarshal fresh_store sample_store"
proof -
  have "serves (\<lambda>_ _. True) (\<lambda>t. t) sample_enc sample_unmarshal fresh_store (perform (\<lambda>t. t) sample_enc fresh_store (sample_env, CommitTx sample_tx))"
    by (rule serves.request [OF serves.now]) simp
  then show ?thesis by (simp add: perform_def sample_commit)
qed

theorem journal_bounded_witness:
  "\<exists>ps. fs_file sample_store = concat (map frame_of ps) \<and> length ps = 1 \<and> length (fs_file sample_store) \<le> maxJournalBytes"
  using journal_bounded [OF open_empty sample_serves] by (auto simp: sample_store_def)

end
