(* ===== verification/Durable_Valid.thy ===== *)
theory Durable_Valid
  imports Durable_Claims Json_Content
begin

text \<open>
  Validity of the states a store publishes, from any file that recovery accepts. Payloads are cloned
  through \<^verbatim>\<open>float64\<close>, so a number may come back as a different one; here are the payloads whose
  numbers keep their value, and the proof that the clones of these keep their digest.
\<close>

section \<open>Clones that keep their numbers\<close>

fun numbers_kept :: "(string \<Rightarrow> string) \<Rightarrow> json \<Rightarrow> bool" where
  "numbers_kept num (JNum t) \<longleftrightarrow> number_wf DefaultLimits (num t) \<and> number_value (num t) = number_value t"
| "numbers_kept num (JArr vs) \<longleftrightarrow> list_all (numbers_kept num) vs"
| "numbers_kept num (JObj kvs) \<longleftrightarrow> list_all (\<lambda>kv. numbers_kept num (snd kv)) kvs"
| "numbers_kept num v \<longleftrightarrow> True"

text \<open>The clone of a payload prints its numbers with their values, within the input limit.\<close>

definition float_safe :: "(string \<Rightarrow> string) \<Rightarrow> payload \<Rightarrow> bool" where
  "float_safe num p = (case andThen (Marshal (JObj p)) (\<lambda>raw. Decode raw DefaultLimits) of
     Inr v \<Rightarrow> numbers_kept num v \<and> length (json_Marshal (clone_json num v)) \<le> 1048576 | Inl _ \<Rightarrow> True)"

lemma clone_json_facts:
  assumes "numbers_kept num v" and "json_wf DefaultLimits v"
  shows "json_wf DefaultLimits (clone_json num v) \<and> canonical_text DefaultLimits (clone_json num v) = canonical_text DefaultLimits v"
    and "json_height (clone_json num v) = json_height v \<and> json_count (clone_json num v) = json_count v"
proof -
  show "json_wf DefaultLimits (clone_json num v) \<and> canonical_text DefaultLimits (clone_json num v) = canonical_text DefaultLimits v"
    using assms
  proof (induction v)
    case (JNum t)
    then show ?case using canon_number_iff [of DefaultLimits "num t" t] by simp
  next
    case (JArr vs)
    then have "map (canonical_text DefaultLimits) (map (clone_json num) vs) = map (canonical_text DefaultLimits) vs"
      by (auto simp: list_all_iff)
    then show ?case using JArr by (auto simp: list_all_iff simp del: map_map)
  next
    case (JObj kvs)
    have m: "json_wf DefaultLimits (clone_json num (snd kv)) \<and> canonical_text DefaultLimits (clone_json num (snd kv)) = canonical_text DefaultLimits (snd kv)"
      if "kv \<in> set kvs" for kv
      using that JObj by (auto simp: list_all_iff snds.simps)
    have "map (\<lambda>kv. quoted (fst kv) @ '':'' @ canonical_text DefaultLimits (snd kv)) (map (\<lambda>kv. (fst kv, clone_json num (snd kv))) (sort_key fst kvs)) =
        map (\<lambda>kv. quoted (fst kv) @ '':'' @ canonical_text DefaultLimits (snd kv)) (sort_key fst kvs)"
      using m by auto
    moreover have "map fst (map (\<lambda>kv. (fst kv, clone_json num (snd kv))) kvs) = map fst kvs" by simp
    ultimately show ?case using JObj.prems m by (auto simp: list_all_iff sort_key_map_values simp del: map_map)
  qed simp_all
  show "json_height (clone_json num v) = json_height v \<and> json_count (clone_json num v) = json_count v"
  proof (induction v)
    case (JArr vs)
    then have "map (\<lambda>v. json_height (clone_json num v)) vs = map json_height vs" "map (\<lambda>v. json_count (clone_json num v)) vs = map json_count vs" by simp_all
    then show ?case by (simp only: clone_json.simps json_height.simps json_count.simps map_map comp_def)
  next
    case (JObj kvs)
    then have "map (\<lambda>kv. json_height (clone_json num (snd kv))) kvs = map (\<lambda>kv. json_height (snd kv)) kvs"
        "map (\<lambda>kv. json_count (clone_json num (snd kv))) kvs = map (\<lambda>kv. json_count (snd kv)) kvs"
      by (auto simp: snds.simps)
    then show ?case by (simp only: clone_json.simps json_height.simps json_count.simps map_map comp_def snd_conv)
  qed simp_all
qed

text \<open>A text that opens with a brace decodes to an object.\<close>

lemma Decode_object:
  assumes "Decode (CHR ''{'' # s) l = Inr v"
  shows "\<exists>kvs. v = JObj kvs"
proof -
  let ?raw = "CHR ''{'' # s"
  obtain nodes r where d: "decode (2 * length ?raw + 2) l (Value_After None) 1 0 ?raw = Inr (v, nodes, r)" and u: "utf8_valid ?raw"
    using assms by (auto simp: Decode_def simp del: decode.simps split: if_splits)
  have sk: "skip_space ?raw = ?raw" by (rule skip_space_head) (simp_all add: json_space_def)
  have "decode (2 * length ?raw + 1) l (Object_After []) 1 1 s = Inr (v, nodes, r)"
    using d sk by (simp add: state_value_def after_separator_def value_token_def del: list.size split: if_splits)
  moreover have "utf8_valid s" using utf8_valid_suffix [of "''{''" s] u by (simp add: ascii_def)
  ultimately show ?thesis using decode_sound [of "Object_After []"] by (fastforce simp: ascii_separator_def decoded_ok_def)
qed

lemma float_safe_stable:
  assumes "float_safe num p" and "DigestValue (JObj p) = Inr d"
  shows "clone_stable num p"
proof -
  obtain raw where raw: "Marshal (JObj p) = Inr raw" using assms(2) by (auto simp: DigestValue_def)
  then have c: "CanonicalizeWithLimits (json_Marshal (JObj p)) DefaultLimits = Inr raw" by (simp add: Marshal_def MarshalWithLimits_def)
  then have c': "CanonicalizeWithLimits raw DefaultLimits = Inr raw" by (rule canonical_fixpoint) (simp add: DefaultLimits_def)
  then obtain v where v: "Decode raw DefaultLimits = Inr v" by (auto simp: CanonicalizeWithLimits_def)
  note canon = Canonicalize_text [OF v c'] and fits = Decode_sound(1) [OF v]
  obtain v0 where v0: "Decode (json_Marshal (JObj p)) DefaultLimits = Inr v0" using c by (auto simp: CanonicalizeWithLimits_def)
  have "\<exists>kvs. v0 = JObj kvs" by (rule Decode_object) (use v0 in \<open>simp add: json_Marshal_def\<close>)
  then obtain s where "raw = CHR ''{'' # s" using Canonicalize_text(1) [OF v0 c] by auto
  then obtain kvs where kvs: "v = JObj kvs" using Decode_object v by blast
  have clone: "JObj (cloneMap num p) = clone_json num v" by (simp add: cloneMap_def raw v kvs)
  have n: "numbers_kept num v" "length (json_Marshal (clone_json num v)) \<le> 1048576" using assms(1) by (simp_all add: float_safe_def raw v)
  have wf: "json_wf DefaultLimits v" using fits by (simp add: json_fits_def)
  note f = clone_json_facts [OF n(1) wf]
  have "Marshal (clone_json num v) = Inr (canonical_text DefaultLimits (clone_json num v))"
  proof (rule Marshal_ok)
    show "json_fits DefaultLimits (clone_json num v)" using f fits by (simp add: json_fits_def)
    show "length (canonical_text DefaultLimits (clone_json num v)) \<le> 1048576" using f(1) canon by (simp add: DefaultLimits_def)
  qed (rule n(2))
  then show ?thesis using f(1) canon(1) raw unfolding clone_stable_def clone by (simp add: DigestValue_def)
qed

section \<open>Faithful requests\<close>

text \<open>
  The payloads of a transaction survive their clones, a retry is not scheduled for Go's zero time, and
  no intent has used up its revisions.
\<close>

definition faithful :: "(string \<Rightarrow> string) \<Rightarrow> diskState \<Rightarrow> StoreRequest \<Rightarrow> bool" where
  "faithful num s req \<longleftrightarrow> (case req of
     CommitTx tx \<Rightarrow> (\<forall>e \<in> set (tx_Events tx). float_safe num (ev_Payload e)) \<and> (\<forall>x \<in> set (tx_Intents tx). float_safe num (di_Payload (sd_Intent x)))
   | Fail f \<Rightarrow> if_AvailableAt f \<noteq> Some 0 | _ \<Rightarrow> True) \<and>
   (\<forall>(k, r) \<in> set (ds_Intents s). ir_Revision r \<noteq> 2 ^ 64 - 1)"

lemma applied_stable:
  assumes "applied num s tx ms t" and "faithful num s (CommitTx tx)"
  shows "request_ok num (CommitTx tx)"
proof -
  have "clone_stable num (ev_Payload e)" if e: "e \<in> set (tx_Events tx)" for e
  proof (rule float_safe_stable)
    show "float_safe num (ev_Payload e)" using assms(2) e by (simp add: faithful_def)
    show "DigestValue (JObj (ev_Payload e)) = Inr (ev_PayloadDigest e)"
      using applied_facts(5) [OF assms(1) e] by (auto simp: validateEvent_def)
  qed
  moreover have "clone_stable num (di_Payload (sd_Intent x))" if x: "x \<in> set (tx_Intents tx)" for x
  proof (rule float_safe_stable)
    show "float_safe num (di_Payload (sd_Intent x))" using assms(2) x by (simp add: faithful_def)
    show "DigestValue (JObj (di_Payload (sd_Intent x))) = Inr (di_PayloadDigest (sd_Intent x))"
      using applied_facts(6) [OF assms(1) x] by (auto simp: validateIntentSeed_def)
  qed
  ultimately show ?thesis by (simp add: request_ok_def)
qed

lemma faithful_below:
  assumes "faithful num s req"
  shows "intents_below (2 ^ 64 - 2) s"
proof -
  have "unat (ir_Revision r) \<le> 2 ^ 64 - 2" if "map_of (ds_Intents s) k = Some r" for k r
  proof -
    have "ir_Revision r \<noteq> 2 ^ 64 - 1" using assms map_of_SomeD [OF that] by (auto simp: faithful_def)
    then have "unat (ir_Revision r) \<noteq> unat (2 ^ 64 - 1 :: u64)" by (metis unsigned_word_eqI)
    then show ?thesis using unsigned_less [where w = "ir_Revision r" and 'a = nat] by simp
  qed
  then show ?thesis by (simp add: intents_below_def)
qed

lemma attempt_valid:
  assumes "attempt num s req t" and "state_ok s" and "faithful num s req"
  shows "state_ok t"
proof -
  have "request_ok num req"
  proof (cases req)
    case (CommitTx tx)
    then have "attempt num s (CommitTx tx) t" using assms(1) by simp
    then obtain mid where "applyTransaction num s tx = Inr mid" by (rule attempt_commitE)
    then obtain ms where "applied num s tx ms mid" by (rule applyTransaction_applied)
    then show ?thesis using applied_stable assms(3) CommitTx by simp
  qed (use assms(3) in \<open>simp_all add: request_ok_def faithful_def\<close>)
  then show ?thesis using attempt_state_ok(1) [OF assms(1,2) _ faithful_below [OF assms(3)]] by simp
qed

section \<open>States that recovery accepts\<close>

definition unique_keys :: "diskState \<Rightarrow> bool" where
  "unique_keys s \<longleftrightarrow> distinct (map fst (ds_Aggregates s)) \<and> distinct (map fst (ds_Events s)) \<and> distinct (map fst (ds_Commands s)) \<and>
     distinct (map fst (ds_Intents s)) \<and> distinct (map fst (ds_Inbox s))"

lemma loaded_state:
  "load_from dec file offset n cur = Inr (s, r) \<Longrightarrow> s = cur \<or> (\<exists>p. dec p = Inr s)"
proof (induction dec "file" offset n cur rule: load_from.induct)
  case (1 dec fl offset n cur)
  show ?case
    using 1(2) [unfolded load_from.simps [of dec fl offset n cur]] 1(1) by (auto split: if_splits sum.splits)
qed

lemma opened_valid:
  assumes "open_store enc unmarshal file = Inr fs" and "\<And>p s. unmarshal p = Inr s \<Longrightarrow> unique_keys s"
  shows "state_ok (fs_state fs)"
proof -
  obtain s r where l: "load (checkpoint_decode unmarshal) emptyState file = Inr (s, r)" and fs: "fs_state fs = s"
    using assms(1) by (auto simp: open_store_def split: if_splits)
  have "s = emptyState \<or> (\<exists>p. checkpoint_decode unmarshal p = Inr s)"
    using l loaded_state by (fastforce simp: load_def split: if_splits)
  then show ?thesis
  proof
    assume "\<exists>p. checkpoint_decode unmarshal p = Inr s"
    then obtain p where p: "checkpoint_decode unmarshal p = Inr s" by blast
    then have "unmarshal p = Inr s" "validateState s = None" by (cases "unmarshal p"; simp add: checkpoint_decode_def)+
    then show ?thesis using assms(2) by (simp add: fs state_ok_def unique_keys_def)
  qed (simp add: fs empty_state_ok)
qed

lemma serves_valid:
  assumes "serves (faithful num) num enc unmarshal fs0 fs" and "state_ok (fs_state fs0)" and "\<And>p s. unmarshal p = Inr s \<Longrightarrow> unique_keys s"
  shows "state_ok (fs_state fs)"
  using assms(1)
proof (induction)
  case now
  then show ?case by (rule assms(2))
next
  case (request fs req env)
  then show ?case
    using perform_cases [of num enc fs env req] attempt_valid [of num "fs_state fs" req] written_state unfolding performs_def by metis
next
  case (close fs)
  then show ?case by (simp add: Close_def)
next
  case (restart fs fs')
  then show ?case using opened_valid assms(3) by blast
qed

section \<open>Published states are valid\<close>

text \<open>
  C32: open a store on any file, and let it serve any requests, across failed writes and restarts on
  whatever they leave, such that the numbers in the payloads of new events and intents have the same
  value after their clone through float64 and the clone is within the input limit, no retry is
  scheduled for the zero time, and no intent has reached the last revision of 64 bits. Then every state
  that the store publishes passes the validation that recovery applies to a checkpoint, and no two
  entries of one of its maps have the same key. Nothing is asked of the decoder but that the maps it
  makes have distinct keys.
\<close>

theorem store_always_valid:
  assumes "open_store enc unmarshal file = Inr fs0" and "\<And>p s. unmarshal p = Inr s \<Longrightarrow> unique_keys s"
    and "serves (faithful num) num enc unmarshal fs0 fs"
  shows "validateState (fs_state fs) = None \<and> unique_keys (fs_state fs)"
proof -
  have "state_ok (fs_state fs0)" using opened_valid assms(1,2) by blast
  then have "state_ok (fs_state fs)" using serves_valid [OF assms(3)] assms(2) by blast
  then show ?thesis by (simp add: state_ok_def unique_keys_def)
qed

theorem store_always_valid_witness:
  "validateState (fs_state sample_store) = None \<and> map_of (ds_Intents (fs_state sample_store)) ''i1'' = Some sample_pending"
proof -
  have "Decode ''{}'' DefaultLimits = Inr (JObj [])" by code_simp
  then have "float_safe (\<lambda>t. t) []" by (simp add: float_safe_def sample_braces json_Marshal_def)
  then have "faithful (\<lambda>t. t) (fs_state fresh_store) (CommitTx sample_tx)"
    by (simp add: faithful_def fresh_store_def emptyState_def sample_tx_def sample_seed_def)
  then have "serves (faithful (\<lambda>t. t)) (\<lambda>t. t) sample_enc sample_unmarshal fresh_store
      (perform (\<lambda>t. t) sample_enc fresh_store (sample_env, CommitTx sample_tx))"
    by (rule serves.request [OF serves.now])
  then have l: "serves (faithful (\<lambda>t. t)) (\<lambda>t. t) sample_enc sample_unmarshal fresh_store sample_store" by (simp add: perform_def sample_commit)
  have d: "unique_keys s" if "sample_unmarshal p = Inr s" for p s
    using that by (auto simp: sample_unmarshal_def unique_keys_def sample_claimed_state_def sample_state_def committed_state_def emptyState_def split: if_splits)
  show ?thesis using store_always_valid [OF Durable_Runs.open_empty d l] by (simp add: sample_store_def sample_state_def committed_state_def)
qed

end
