(* ===== verification/Value_Schema.thy ===== *)
theory Value_Schema
  imports Contracts Complex_Main
begin

text \<open>
  Package sdk/go/contracts, schema.go and expression.go: the JSON Schema profile of the
  compiler, the validation of schemas and of values, and path resolution. Values are decoded
  JSON; a Go map is an association list with distinct keys, and a loop over it visits the entries
  in the order of the list, one of the orders that the runtime may choose.
\<close>

section \<open>Numbers\<close>

text \<open>
  \<^verbatim>\<open>big.Rat.SetString\<close> on the text of a JSON number: it refuses a power of ten beyond one million
  unless the digits are all zero. The result is \<open>None\<close> for any other text, as it is in Go for the
  JSON of a value that is not a number.
\<close>

definition decimal_value :: "string \<Rightarrow> string \<Rightarrow> int \<Rightarrow> rat" where
  "decimal_value integer fraction e = of_int (digits_value (integer @ fraction)) * (10 powi (e - int (length fraction)))"

definition maxRatExponent :: int where "maxRatExponent = 1000000"

definition set_rat :: "string \<Rightarrow> string \<Rightarrow> int \<Rightarrow> rat option" where
  "set_rat integer fraction e =
     (if digits_value (integer @ fraction) = 0 then Some 0
      else if \<bar>e - int (length fraction)\<bar> > maxRatExponent then None
      else Some (decimal_value integer fraction e))"

definition unsigned_rat :: "string \<Rightarrow> rat option" where
  "unsigned_rat s = (case number_exponent_value s of None \<Rightarrow> None | Some e \<Rightarrow>
     set_rat (before_mark is_point (before_mark is_exponent_marker s)) (after_mark is_point (before_mark is_exponent_marker s)) e)"

definition number_rat :: "string \<Rightarrow> rat option" where
  "number_rat s = (if number_token s \<noteq> Some (s, []) then None
     else if hd s = CHR ''-'' then map_option uminus (unsigned_rat (tl s)) else unsigned_rat s)"

definition IsInt :: "rat \<Rightarrow> bool" where
  "IsInt r \<longleftrightarrow> snd (quotient_of r) = 1"

definition is_number :: "json \<Rightarrow> bool \<Rightarrow> bool" where
  "is_number v integer = (case v of JNum t \<Rightarrow> (case number_rat t of None \<Rightarrow> False | Some r \<Rightarrow> \<not> integer \<or> IsInt r) | _ \<Rightarrow> False)"

section \<open>Go values\<close>

record SecretHandle =
  sh_ID :: string

definition SecretHandle_Valid :: "SecretHandle \<Rightarrow> bool" where
  "SecretHandle_Valid h = ValidIdentifier (sh_ID h)"

text \<open>
  What a variable of type \<^verbatim>\<open>any\<close> holds in the evaluator: decoded JSON, the marker for a value that
  is missing, or a secret handle.
\<close>

datatype gval = GNil | GBool bool | GNum string | GStr string | GList "gval list" | GMap "(string \<times> gval) list"
  | GMissing | GSecret SecretHandle

lemma size_json_member [termination_simp]: "kv \<in> set kvs \<Longrightarrow> size (snd kv) < Suc (size_list (size_prod (\<lambda>_. 0) size) kvs)"
  by (induction kvs) (auto simp: less_Suc_eq_le)

fun of_json :: "json \<Rightarrow> gval" where
  "of_json JNull = GNil"
| "of_json (JBool b) = GBool b"
| "of_json (JNum t) = GNum t"
| "of_json (JStr t) = GStr t"
| "of_json (JArr vs) = GList (map of_json vs)"
| "of_json (JObj kvs) = GMap (map (\<lambda>kv. (fst kv, of_json (snd kv))) kvs)"

text \<open>\<^verbatim>\<open>reflect.DeepEqual\<close>: maps are compared by their entries, numbers by their text.\<close>

fun DeepEqual :: "gval \<Rightarrow> gval \<Rightarrow> bool" where
  "DeepEqual (GMap a) (GMap b) \<longleftrightarrow> length a = length b \<and>
     list_all (\<lambda>kv. case map_of b (fst kv) of None \<Rightarrow> False | Some w \<Rightarrow> DeepEqual (snd kv) w) a"
| "DeepEqual (GList (v # vs)) (GList (w # ws)) \<longleftrightarrow> DeepEqual v w \<and> DeepEqual (GList vs) (GList ws)"
| "DeepEqual v w \<longleftrightarrow> v = w"

definition json_rat :: "json \<Rightarrow> rat option" where
  "json_rat v = (case v of JNum t \<Rightarrow> number_rat t | _ \<Rightarrow> None)"

definition valuesEqual :: "json \<Rightarrow> json \<Rightarrow> bool" where
  "valuesEqual a b = (if is_number a False \<and> is_number b False then json_rat a = json_rat b else DeepEqual (of_json a) (of_json b))"

section \<open>The decoder of encoding/json\<close>

text \<open>
  \<^verbatim>\<open>decodeJSON\<close>: one JSON value and nothing behind it, with the library's decoder. It has no limits
  but its nesting depth, replaces invalid UTF-8, and lets the last of two equal keys win.
\<close>

function to_valid_utf8 :: "string \<Rightarrow> string" where
  "to_valid_utf8 s = (if s = [] then [] else if rune_len s = 0 then utf8_encode 0xfffd @ to_valid_utf8 (tl s)
     else take (rune_len s) s @ to_valid_utf8 (drop (rune_len s) s))"
  by pat_completeness auto
termination
  by (relation "measure length") (auto simp: not_le)

declare to_valid_utf8.simps [simp del]

definition std_string :: "string \<Rightarrow> (string \<times> string) option" where
  "std_string s = map_option (\<lambda>(t, r). (to_valid_utf8 t, r)) (string_body s)"

definition std_scalar :: "string \<Rightarrow> (json \<times> string) option" where
  "std_scalar s =
     (if s = [] then None
      else if hd s = CHR 0x22 then map_option (\<lambda>(t, r). (JStr t, r)) (std_string (tl s))
      else if hd s = CHR ''t'' then map_option (Pair (JBool True)) (strip_literal ''true'' s)
      else if hd s = CHR ''f'' then map_option (Pair (JBool False)) (strip_literal ''false'' s)
      else if hd s = CHR ''n'' then map_option (Pair JNull) (strip_literal ''null'' s)
      else map_option (\<lambda>(t, r). (JNum t, r)) (number_token s))"

definition std_key :: "char option \<Rightarrow> string \<Rightarrow> (string \<times> string) option" where
  "std_key sep s = (case after_separator sep s of None \<Rightarrow> None
     | Some r \<Rightarrow> if r = [] \<or> hd r \<noteq> CHR 0x22 then None else std_string (tl r))"

primrec std_decode :: "nat \<Rightarrow> nat \<Rightarrow> reading \<Rightarrow> string \<Rightarrow> (json \<times> string) option" where
  "std_decode 0 depth reading s = None"
| "std_decode (Suc n) depth reading s =
     (case reading of
        Value_After sep \<Rightarrow> (case after_separator sep s of None \<Rightarrow> None | Some r \<Rightarrow>
          if r \<noteq> [] \<and> (hd r = CHR ''{'' \<or> hd r = CHR ''['') \<and> depth \<ge> 10000 then None
          else if r \<noteq> [] \<and> hd r = CHR ''{'' then std_decode n (depth + 1) (Object_After []) (tl r)
          else if r \<noteq> [] \<and> hd r = CHR ''['' then std_decode n (depth + 1) (Array_After []) (tl r)
          else std_scalar r)
      | Object_After acc \<Rightarrow>
          if skip_space s \<noteq> [] \<and> hd (skip_space s) = CHR ''}'' then Some (JObj acc, tl (skip_space s))
          else Option.bind (std_key (if acc = [] then None else Some (CHR '','')) s) (\<lambda>(k, r).
               Option.bind (std_decode n depth (Value_After (Some (CHR '':''))) r) (\<lambda>(v, r').
               std_decode n depth (Object_After (AList.update k v acc)) r'))
      | Array_After acc \<Rightarrow>
          if skip_space s \<noteq> [] \<and> hd (skip_space s) = CHR '']'' then Some (JArr acc, tl (skip_space s))
          else Option.bind (std_decode n depth (Value_After (if acc = [] then None else Some (CHR '',''))) s) (\<lambda>(v, r').
               std_decode n depth (Array_After (acc @ [v])) r'))"

definition decodeJSON :: "string \<Rightarrow> json result" where
  "decodeJSON raw = (case std_decode (2 * length raw + 2) 0 (Value_After None) raw of
     None \<Rightarrow> Inl (Errorf ''invalid JSON'')
   | Some (v, rest) \<Rightarrow> if skip_space rest = [] then Inr v else Inl (Errorf ''multiple JSON values''))"

section \<open>Schemas\<close>

datatype JSONType = TypeObject | TypeArray | TypeString | TypeNumber | TypeInteger | TypeBoolean | TypeNull | JSONTypeOther string

definition FormatSecretHandle :: string where "FormatSecretHandle = ''xgc-secret-handle''"

datatype Schema = Schema (sch_Type: JSONType) (sch_Properties: "(string \<times> Schema) list") (sch_Required: "string list")
  (sch_AdditionalProperties: bool) (sch_Items: "Schema option") (sch_Default: string) (sch_Enum: "string list") (sch_Format: string)

text \<open>\<^verbatim>\<open>contracts.Schema{Type: t}\<close> and the other literals of the checker.\<close>

definition type_schema :: "JSONType \<Rightarrow> Schema" where
  "type_schema t = Schema t [] [] False None [] [] []"

definition object_schema :: "(string \<times> Schema) list \<Rightarrow> Schema" where
  "object_schema ps = Schema TypeObject ps (map fst ps) False None [] [] []"

definition array_schema :: "Schema \<Rightarrow> Schema" where
  "array_schema s = Schema TypeArray [] [] False (Some s) [] [] []"

definition secret_schema :: Schema where
  "secret_schema = Schema TypeString [] [] False None [] [] FormatSecretHandle"

text \<open>Validation of a value; both functions follow the value.\<close>

definition value_error :: error where "value_error = Errorf ''value does not match its schema''"

definition in_enum :: "string list \<Rightarrow> json \<Rightarrow> bool" where
  "in_enum enum v \<longleftrightarrow> list_ex (\<lambda>raw. case decodeJSON raw of Inl _ \<Rightarrow> False | Inr c \<Rightarrow> valuesEqual c v) enum"

definition check_enum :: "Schema \<Rightarrow> json \<Rightarrow> error option" where
  "check_enum s v = fail_if (sch_Enum s \<noteq> [] \<and> \<not> in_enum (sch_Enum s) v) value_error"

fun validateValueWithoutEnum :: "Schema \<Rightarrow> json \<Rightarrow> error option" where
  "validateValueWithoutEnum s v =
     (case sch_Type s of
        TypeObject \<Rightarrow> (case v of
            JObj kvs \<Rightarrow> first_error
              [fail_if (\<not> list_all (\<lambda>name. map_of kvs name \<noteq> None) (sch_Required s)) value_error,
               first_error (map (\<lambda>kv. case map_of (sch_Properties s) (fst kv) of
                   None \<Rightarrow> fail_if (\<not> sch_AdditionalProperties s) value_error
                 | Some p \<Rightarrow> first_error [validateValueWithoutEnum p (snd kv), check_enum p (snd kv)]) kvs)]
          | _ \<Rightarrow> Some value_error)
      | TypeArray \<Rightarrow> (case v of
            JArr vs \<Rightarrow> first_error (map (\<lambda>w. case sch_Items s of
                None \<Rightarrow> Some (Panic ''nil pointer dereference'')
              | Some i \<Rightarrow> first_error [validateValueWithoutEnum i w, check_enum i w]) vs)
          | _ \<Rightarrow> Some value_error)
      | TypeString \<Rightarrow> (case v of JStr _ \<Rightarrow> None | _ \<Rightarrow> Some value_error)
      | TypeNumber \<Rightarrow> fail_if (\<not> is_number v False) value_error
      | TypeInteger \<Rightarrow> fail_if (\<not> is_number v True) value_error
      | TypeBoolean \<Rightarrow> (case v of JBool _ \<Rightarrow> None | _ \<Rightarrow> Some value_error)
      | TypeNull \<Rightarrow> fail_if (v \<noteq> JNull) value_error
      | JSONTypeOther _ \<Rightarrow> Some (Errorf ''unsupported schema type''))"

declare validateValueWithoutEnum.simps [simp del]

definition validateValue :: "Schema \<Rightarrow> json \<Rightarrow> error option" where
  "validateValue s v = first_error [validateValueWithoutEnum s v, check_enum s v]"

text \<open>Validation of a schema.\<close>

definition definition_error :: error where "definition_error = Errorf ''schema is invalid''"

definition scalar_type :: "JSONType \<Rightarrow> bool" where
  "scalar_type t \<longleftrightarrow> t \<in> {TypeString, TypeNumber, TypeInteger, TypeBoolean, TypeNull}"

definition validate_format :: "Schema \<Rightarrow> error option" where
  "validate_format s = first_error
     [fail_if (sch_Format s \<noteq> [] \<and> \<not> (sch_Type s = TypeString \<and> sch_Format s = FormatSecretHandle)) definition_error,
      fail_if (sch_Format s = FormatSecretHandle \<and> (sch_Default s \<noteq> [] \<or> sch_Enum s \<noteq> [])) definition_error]"

definition validate_constants :: "Schema \<Rightarrow> error option" where
  "validate_constants s = first_error
     [(if sch_Default s = [] then None else
         (case decodeJSON (sch_Default s) of Inl e \<Rightarrow> Some e | Inr v \<Rightarrow> validateValue s v)),
      first_error (map (\<lambda>raw. case decodeJSON raw of Inl e \<Rightarrow> Some e | Inr v \<Rightarrow> validateValueWithoutEnum s v) (sch_Enum s))]"

lemma size_property [termination_simp]: "kv \<in> set kvs \<Longrightarrow> size (snd kv) < Suc (size_list (size_prod (\<lambda>_. 0) size) kvs + n)"
  by (induction kvs) (auto simp: less_Suc_eq_le)

fun validateDefinition :: "Schema \<Rightarrow> error option" where
  "validateDefinition (Schema ty properties required additional items dflt enum format) = first_error
     [(case ty of
         TypeObject \<Rightarrow> first_error
           [fail_if (items \<noteq> None) definition_error,
            fail_if (\<not> list_all ValidIdentifier required \<or> \<not> distinct required \<or> \<not> list_all (\<lambda>n. map_of properties n \<noteq> None) required)
              definition_error,
            first_error (map (\<lambda>kv. first_error [fail_if (\<not> ValidIdentifier (fst kv)) definition_error, validateDefinition (snd kv)]) properties)]
       | TypeArray \<Rightarrow> (case items of
           None \<Rightarrow> Some definition_error
         | Some i \<Rightarrow> first_error [fail_if (properties \<noteq> [] \<or> required \<noteq> [] \<or> additional) definition_error, validateDefinition i])
       | JSONTypeOther _ \<Rightarrow> Some definition_error
       | _ \<Rightarrow> fail_if (properties \<noteq> [] \<or> required \<noteq> [] \<or> items \<noteq> None \<or> additional) definition_error),
      validate_format (Schema ty properties required additional items dflt enum format),
      validate_constants (Schema ty properties required additional items dflt enum format)]"

declare validateDefinition.simps [simp del]

definition ValidateValue :: "Schema \<Rightarrow> json \<Rightarrow> error option" where
  "ValidateValue s v = first_error [validateDefinition s, validateValue s v]"

fun ContainsFormat :: "Schema \<Rightarrow> string \<Rightarrow> bool" where
  "ContainsFormat (Schema ty properties required additional items dflt enum fmt) format \<longleftrightarrow> fmt = format \<or>
     (case items of None \<Rightarrow> False | Some i \<Rightarrow> ContainsFormat i format) \<or> list_ex (\<lambda>kv. ContainsFormat (snd kv) format) properties"

text \<open>\<^verbatim>\<open>strconv.ParseUint(segment, 10, 31)\<close> succeeds, and the text has no leading zero.\<close>

definition array_index :: "string \<Rightarrow> bool" where
  "array_index s \<longleftrightarrow> s \<noteq> [] \<and> \<not> (length s > 1 \<and> hd s = CHR ''0'') \<and> decimalDigits s \<and> digits_value s < 2 ^ 31"

fun Schema_Resolve :: "Schema \<Rightarrow> string list \<Rightarrow> Schema result" where
  "Schema_Resolve s [] = Inr s"
| "Schema_Resolve s (seg # segs) =
     (case sch_Type s of
        TypeObject \<Rightarrow> (case map_of (sch_Properties s) seg of
            None \<Rightarrow> Inl (Errorf ''schema path segment does not exist'') | Some p \<Rightarrow> Schema_Resolve p segs)
      | TypeArray \<Rightarrow> (case sch_Items s of
            None \<Rightarrow> Inl (Errorf ''schema path reaches array without an item schema'')
          | Some i \<Rightarrow> if \<not> array_index seg then Inl (Errorf ''schema path segment is not an array index'') else Schema_Resolve i segs)
      | _ \<Rightarrow> Inl (Errorf ''schema path crosses scalar''))"

section \<open>Expressions\<close>

datatype ValueExpr = ValueExpr (vx_Literal: "string option") (vx_Ref: string) (vx_Op: string) (vx_Args: "ValueExpr list option")
  (vx_Object: "(string \<times> ValueExpr) list option") (vx_Array: "ValueExpr list option")

end
