(* ===== verification/Expression_Check.thy ===== *)
theory Expression_Check
  imports Value_Schema
begin

text \<open>
  Package kernel/expression, check.go: the static checker of value expressions. The node counter
  of the checker is threaded through the recursion; its value after an error is not used.
\<close>

section \<open>Limits and environment\<close>

record ExprLimits =
  xl_MaxDepth :: int
  xl_MaxNodes :: int
  xl_MaxStringBytes :: int
  xl_MaxResultBytes :: int

definition expr_DefaultLimits :: ExprLimits where
  "expr_DefaultLimits = \<lparr>xl_MaxDepth = 64, xl_MaxNodes = 2048, xl_MaxStringBytes = 65536, xl_MaxResultBytes = 1048576\<rparr>"

definition validateLimits :: "ExprLimits \<Rightarrow> error option" where
  "validateLimits l = fail_if (xl_MaxDepth l \<le> 0 \<or> xl_MaxNodes l \<le> 0 \<or> xl_MaxStringBytes l \<le> 0 \<or> xl_MaxResultBytes l \<le> 0)
     (Errorf ''expression limits must all be positive'')"

record Environment =
  en_Inputs :: Schema
  en_Trigger :: Schema
  en_Scope :: Schema
  en_NodeOutputs :: "(string \<times> Schema) list"
  en_VisibleNodes :: "(string \<times> bool) list"
  en_Iteration :: "Schema option"
  en_Secrets :: "(string \<times> bool) list"

section \<open>Comparison of types\<close>

lemma size_schema_member: "map_of ps n = Some p \<Longrightarrow> size p < Suc (size_list (\<lambda>x. Suc (size (snd x))) ps + k)"
  by (induction ps) (auto simp: less_Suc_eq_le split: if_splits)

fun sameType :: "Schema \<Rightarrow> Schema \<Rightarrow> error option" where
  "sameType (Schema ty properties required additional items dflt enum format) right =
     (if ty \<noteq> sch_Type right \<or> format \<noteq> sch_Format right then Some (Errorf ''types are incompatible'')
      else if ty = TypeArray then
        (case items of None \<Rightarrow> Some (Errorf ''array types require item schemas'') | Some l \<Rightarrow>
          (case sch_Items right of None \<Rightarrow> Some (Errorf ''array types require item schemas'') | Some r \<Rightarrow> sameType l r))
      else if ty = TypeObject then first_error
        [fail_if (length properties \<noteq> length (sch_Properties right) \<or> length required \<noteq> length (sch_Required right))
           (Errorf ''object shapes are incompatible''),
         fail_if (\<not> set (sch_Required right) \<subseteq> set required) (Errorf ''object required fields are incompatible''),
         first_error (map (\<lambda>kv. case map_of (sch_Properties right) (fst kv) of
             None \<Rightarrow> Some (Errorf ''object shapes are incompatible'') | Some r \<Rightarrow> sameType (snd kv) r) properties)]
      else None)"

declare sameType.simps [simp del]

definition compound_or_null :: "JSONType \<Rightarrow> bool" where
  "compound_or_null t \<longleftrightarrow> t = TypeObject \<or> t = TypeArray \<or> t = TypeNull"

definition numeric_type :: "JSONType \<Rightarrow> bool" where
  "numeric_type t \<longleftrightarrow> t = TypeInteger \<or> t = TypeNumber"

definition sameComparableType :: "Schema \<Rightarrow> Schema \<Rightarrow> error option" where
  "sameComparableType l r =
     (if compound_or_null (sch_Type l) \<or> compound_or_null (sch_Type r) then Some (Errorf ''comparison operands must be non-null scalar values'')
      else if numeric_type (sch_Type l) \<and> numeric_type (sch_Type r) then None else sameType l r)"

text \<open>A missing entry of a Go map of schemas reads as the zero schema.\<close>

definition zero_schema :: Schema where
  "zero_schema = type_schema (JSONTypeOther [])"

definition property_at :: "(string \<times> Schema) list \<Rightarrow> string \<Rightarrow> Schema" where
  "property_at ps n = (case map_of ps n of None \<Rightarrow> zero_schema | Some p \<Rightarrow> p)"

definition same_canonical :: "string \<Rightarrow> string \<Rightarrow> bool" where
  "same_canonical s t = (case Canonicalize s of Inl _ \<Rightarrow> False | Inr c \<Rightarrow> Canonicalize t = Inr c)"

definition enum_covers :: "string list \<Rightarrow> string list \<Rightarrow> bool" where
  "enum_covers source target \<longleftrightarrow> list_all (\<lambda>s. list_ex (same_canonical s) target) source"

function assignable :: "Schema \<Rightarrow> Schema \<Rightarrow> error option" where
  "assignable (Schema ty properties required additional items dflt enum format) target = first_error
     [fail_if (format \<noteq> sch_Format target) (Errorf ''format is not assignable''),
      fail_if (ty \<noteq> sch_Type target \<and> \<not> (ty = TypeInteger \<and> sch_Type target = TypeNumber)) (Errorf ''type is not assignable''),
      fail_if (sch_Enum target \<noteq> [] \<and> (enum = [] \<or> \<not> enum_covers enum (sch_Enum target))) (Errorf ''source does not prove target enum membership''),
      (if sch_Type target = TypeObject then first_error
         [first_error (map (\<lambda>n. case map_of properties n of
             None \<Rightarrow> Some (Errorf ''required property is not guaranteed'')
           | Some p \<Rightarrow> if n \<notin> set required then Some (Errorf ''required property is not guaranteed'')
               else assignable p (property_at (sch_Properties target) n)) (sch_Required target)),
          fail_if (additional \<and> \<not> sch_AdditionalProperties target) (Errorf ''open source object is not assignable to closed target object''),
          first_error (map (\<lambda>kv. case map_of (sch_Properties target) (fst kv) of
             None \<Rightarrow> fail_if (\<not> sch_AdditionalProperties target) (Errorf ''property is not accepted'')
           | Some t \<Rightarrow> assignable (snd kv) t) properties)]
       else if sch_Type target = TypeArray then
         (case items of None \<Rightarrow> Some (Errorf ''array item schema is missing'') | Some i \<Rightarrow>
           (case sch_Items target of None \<Rightarrow> Some (Errorf ''array item schema is missing'') | Some t \<Rightarrow> assignable i t))
       else None)]"
  by pat_completeness auto
termination
  by (relation "measure (\<lambda>(s, t). size s)") (auto simp: size_schema_member termination_simp)

declare assignable.simps [simp del]

section \<open>Literals and references\<close>

definition number_schema :: "string \<Rightarrow> Schema" where
  "number_schema t = type_schema (case number_rat t of None \<Rightarrow> TypeNumber | Some r \<Rightarrow> if IsInt r then TypeInteger else TypeNumber)"

fun inferLiteral :: "json \<Rightarrow> Schema result"
and infer_items :: "Schema \<Rightarrow> json list \<Rightarrow> Schema result"
and infer_members :: "(string \<times> json) list \<Rightarrow> (string \<times> Schema) list result"
where
  "inferLiteral JNull = Inr (type_schema TypeNull)"
| "inferLiteral (JBool b) = Inr (type_schema TypeBoolean)"
| "inferLiteral (JStr t) = Inr (type_schema TypeString)"
| "inferLiteral (JNum t) = Inr (number_schema t)"
| "inferLiteral (JArr []) = Inl (Errorf ''empty array literal has no provable item type'')"
| "inferLiteral (JArr (v # vs)) = andThen (inferLiteral v) (\<lambda>item. infer_items item vs)"
| "inferLiteral (JObj kvs) = andThen (infer_members kvs) (\<lambda>ps. Inr (object_schema ps))"
| "infer_items item [] = Inr (array_schema item)"
| "infer_items item (v # vs) = andThen (inferLiteral v) (\<lambda>current. ensure (sameType item current) (infer_items item vs))"
| "infer_members [] = Inr []"
| "infer_members ((n, v) # kvs) = andThen (inferLiteral v) (\<lambda>p. andThen (infer_members kvs) (\<lambda>ps. Inr ((n, p) # ps)))"

text \<open>\<^verbatim>\<open>strings.Split(ref, ".")\<close>.\<close>

fun split_dots :: "string \<Rightarrow> string list" where
  "split_dots [] = [[]]"
| "split_dots (c # s) = (if c = CHR ''.'' then [] # split_dots s else (c # hd (split_dots s)) # tl (split_dots s))"

definition validPathSegment :: "string \<Rightarrow> bool" where
  "validPathSegment s \<longleftrightarrow> ValidIdentifier s \<or> array_index s"

definition enabled :: "(string \<times> bool) list \<Rightarrow> string \<Rightarrow> bool" where
  "enabled m k \<longleftrightarrow> map_of m k = Some True"

definition check_node_reference :: "Environment \<Rightarrow> string list \<Rightarrow> Schema result" where
  "check_node_reference env segs =
     (if length segs < 4 \<or> segs ! 2 \<noteq> ''output'' then Inl (Errorf ''node reference must be nodes.<nodeId>.output.<path>'')
      else if \<not> enabled (en_VisibleNodes env) (segs ! 1) then Inl (Errorf ''node is not visible through a dominating data edge'')
      else (case map_of (en_NodeOutputs env) (segs ! 1) of
          None \<Rightarrow> Inl (Errorf ''node has no declared output schema'') | Some s \<Rightarrow> Schema_Resolve s (drop 3 segs)))"

definition check_reference :: "Environment \<Rightarrow> string \<Rightarrow> Schema result" where
  "check_reference env ref = (let segs = split_dots ref in
     if length segs < 2 then Inl (Errorf ''reference must contain a namespace and path'')
     else if \<not> list_all validPathSegment segs then Inl (Errorf ''reference path segment is invalid'')
     else if hd segs = ''inputs'' then Schema_Resolve (en_Inputs env) (tl segs)
     else if hd segs = ''trigger'' then Schema_Resolve (en_Trigger env) (tl segs)
     else if hd segs = ''scope'' then Schema_Resolve (en_Scope env) (tl segs)
     else if hd segs = ''iteration'' then
       (case en_Iteration env of None \<Rightarrow> Inl (Errorf ''iteration namespace is not visible here'') | Some s \<Rightarrow> Schema_Resolve s (tl segs))
     else if hd segs = ''nodes'' then check_node_reference env segs
     else if hd segs = ''secrets'' then
       (if length segs \<noteq> 2 \<or> \<not> enabled (en_Secrets env) (segs ! 1) then Inl (Errorf ''secret is not declared'') else Inr secret_schema)
     else Inl (Errorf ''unknown expression namespace''))"

section \<open>Operations\<close>

definition requireCount :: "nat \<Rightarrow> nat option \<Rightarrow> Schema list \<Rightarrow> error option" where
  "requireCount minimum maximum args =
     fail_if (length args < minimum \<or> (case maximum of None \<Rightarrow> False | Some m \<Rightarrow> m < length args)) (Errorf ''operator argument count is invalid'')"

definition requireAll :: "JSONType list \<Rightarrow> Schema list \<Rightarrow> error option" where
  "requireAll types args = fail_if (\<not> list_all (\<lambda>a. sch_Type a \<in> set types) args) (Errorf ''operator argument has a wrong type'')"

definition null_schema :: "Schema \<Rightarrow> bool" where "null_schema s \<longleftrightarrow> sch_Type s = TypeNull"

fun coalesce_type :: "Schema option \<Rightarrow> Schema list \<Rightarrow> Schema result" where
  "coalesce_type None [] = Inr (type_schema TypeNull)"
| "coalesce_type (Some s) [] = Inr s"
| "coalesce_type None (a # as) = (if null_schema a then coalesce_type None as else coalesce_type (Some a) as)"
| "coalesce_type (Some s) (a # as) =
     (if null_schema a then coalesce_type (Some s) as else ensure (sameType s a) (coalesce_type (Some s) as))"

definition boolean_schema :: Schema where "boolean_schema = type_schema TypeBoolean"

definition contains_type :: "Schema list \<Rightarrow> Schema result" where
  "contains_type args =
     (if sch_Type (args ! 0) = TypeString \<and> sch_Type (args ! 1) = TypeString then Inr boolean_schema
      else if sch_Type (args ! 0) = TypeArray then
        (case sch_Items (args ! 0) of
           None \<Rightarrow> Inl (Panic ''nil pointer dereference'')
         | Some i \<Rightarrow> if assignable (args ! 1) i = None then Inr boolean_schema
             else Inl (Errorf ''contains requires string/string or array/item arguments''))
      else Inl (Errorf ''contains requires string/string or array/item arguments''))"

definition operation_type :: "string \<Rightarrow> Schema list \<Rightarrow> Schema result" where
  "operation_type name args =
     (if name = ''and'' \<or> name = ''or'' then
        ensure (requireCount 2 None args) (ensure (requireAll [TypeBoolean] args) (Inr boolean_schema))
      else if name = ''not'' then
        ensure (requireCount 1 (Some 1) args) (ensure (requireAll [TypeBoolean] args) (Inr boolean_schema))
      else if name = ''eq'' \<or> name = ''ne'' then
        ensure (requireCount 2 (Some 2) args) (ensure (sameComparableType (args ! 0) (args ! 1)) (Inr boolean_schema))
      else if name \<in> {''lt'', ''lte'', ''gt'', ''gte''} then
        ensure (requireCount 2 (Some 2) args) (ensure (requireAll [TypeString, TypeNumber, TypeInteger] args) (
        ensure (sameComparableType (args ! 0) (args ! 1)) (Inr boolean_schema)))
      else if name \<in> {''add'', ''sub'', ''mul'', ''div''} then
        ensure (requireCount 2 (Some 2) args) (ensure (requireAll [TypeNumber, TypeInteger] args) (
        Inr (type_schema (if name \<noteq> ''div'' \<and> sch_Type (args ! 0) = TypeInteger \<and> sch_Type (args ! 1) = TypeInteger then TypeInteger else TypeNumber))))
      else if name = ''coalesce'' then ensure (requireCount 2 None args) (coalesce_type None args)
      else if name = ''concat'' then
        ensure (requireCount 2 None args) (ensure (requireAll [TypeString] args) (Inr (type_schema TypeString)))
      else if name = ''length'' then
        ensure (requireCount 1 (Some 1) args) (ensure (requireAll [TypeString, TypeArray, TypeObject] args) (Inr (type_schema TypeInteger)))
      else if name = ''contains'' then ensure (requireCount 2 (Some 2) args) (contains_type args)
      else Inl (Errorf ''unknown expression operator''))"

section \<open>The checker\<close>

definition is_secret :: "Schema \<Rightarrow> bool" where "is_secret s \<longleftrightarrow> sch_Format s = FormatSecretHandle"

definition variants :: "ValueExpr \<Rightarrow> nat" where
  "variants e = (if vx_Literal e \<noteq> None then 1 else 0) + (if vx_Ref e \<noteq> [] then 1 else 0) + (if vx_Op e \<noteq> [] then 1 else 0) +
     (if vx_Object e \<noteq> None then 1 else 0) + (if vx_Array e \<noteq> None then 1 else 0)"

definition check_literal :: "string \<Rightarrow> Schema result" where
  "check_literal raw = andThen (Decode raw DefaultLimits) inferLiteral"

definition check_ref :: "Environment \<Rightarrow> ExprLimits \<Rightarrow> string \<Rightarrow> Schema result" where
  "check_ref env l ref = ensure (fail_if (int (length ref) > xl_MaxStringBytes l \<or> \<not> utf8_valid ref) (Errorf ''reference is invalid or too long''))
     (check_reference env ref)"

function check_expr :: "Environment \<Rightarrow> ExprLimits \<Rightarrow> int \<Rightarrow> int \<Rightarrow> ValueExpr \<Rightarrow> (int \<times> Schema) result"
and check_args :: "Environment \<Rightarrow> ExprLimits \<Rightarrow> int \<Rightarrow> int \<Rightarrow> ValueExpr list \<Rightarrow> (int \<times> Schema list) result"
and check_members :: "Environment \<Rightarrow> ExprLimits \<Rightarrow> int \<Rightarrow> int \<Rightarrow> (string \<times> ValueExpr) list \<Rightarrow> (int \<times> (string \<times> Schema) list) result"
and check_items :: "Environment \<Rightarrow> ExprLimits \<Rightarrow> int \<Rightarrow> int \<Rightarrow> Schema \<Rightarrow> ValueExpr list \<Rightarrow> int result"
where
  "check_expr env l depth nodes (ValueExpr literal ref op args members elements) =
     ensure (first_error
       [fail_if (depth > xl_MaxDepth l) (Errorf ''expression exceeds depth''),
        fail_if (nodes + 1 > xl_MaxNodes l) (Errorf ''expression exceeds nodes''),
        fail_if (variants (ValueExpr literal ref op args members elements) \<noteq> 1) (Errorf ''ValueExpr must contain exactly one variant''),
        fail_if (op = [] \<and> args \<noteq> None) (Errorf ''ValueExpr args require an op'')])
     (case literal of Some raw \<Rightarrow> andThen (check_literal raw) (\<lambda>s. Inr (nodes + 1, s))
      | None \<Rightarrow> if ref \<noteq> [] then andThen (check_ref env l ref) (\<lambda>s. Inr (nodes + 1, s))
      else if op \<noteq> [] then
        ensure (fail_if (\<not> ValidIdentifier op) (Errorf ''invalid operator''))
        (andThen (check_args env l (depth + 1) (nodes + 1) (case args of None \<Rightarrow> [] | Some as \<Rightarrow> as)) (\<lambda>(n, schemas).
         andThen (operation_type op schemas) (\<lambda>s. Inr (n, s))))
      else (case members of Some ms \<Rightarrow> andThen (check_members env l (depth + 1) (nodes + 1) ms) (\<lambda>(n, ps). Inr (n, object_schema ps))
      | None \<Rightarrow> (case elements of
          None \<Rightarrow> Inl (Panic ''unreachable'')
        | Some [] \<Rightarrow> Inl (Errorf ''empty array constructor has no provable item type'')
        | Some (x # xs) \<Rightarrow>
            andThen (check_expr env l (depth + 1) (nodes + 1) x) (\<lambda>(n, first).
            ensure (fail_if (is_secret first) (Errorf ''secret handles cannot be embedded in arrays''))
            (andThen (check_items env l (depth + 1) n first xs) (\<lambda>n'. Inr (n', array_schema first)))))))"
| "check_args env l depth nodes [] = Inr (nodes, [])"
| "check_args env l depth nodes (x # xs) =
     andThen (check_expr env l depth nodes x) (\<lambda>(n, s).
     ensure (fail_if (is_secret s) (Errorf ''operator cannot consume a secret handle''))
     (andThen (check_args env l depth n xs) (\<lambda>(n', ss). Inr (n', s # ss))))"
| "check_members env l depth nodes [] = Inr (nodes, [])"
| "check_members env l depth nodes ((name, x) # ms) =
     ensure (fail_if (\<not> ValidIdentifier name) (Errorf ''object constructor key is invalid''))
     (andThen (check_expr env l depth nodes x) (\<lambda>(n, s).
      ensure (fail_if (is_secret s) (Errorf ''secret handles cannot be embedded in objects''))
      (andThen (check_members env l depth n ms) (\<lambda>(n', ps). Inr (n', (name, s) # ps)))))"
| "check_items env l depth nodes first [] = Inr nodes"
| "check_items env l depth nodes first (x # xs) =
     andThen (check_expr env l depth nodes x) (\<lambda>(n, s). ensure (sameType first s) (check_items env l depth n first xs))"
  by pat_completeness auto
termination
  by (relation "measure (\<lambda>x. case x of Inl (Inl (env, l, d, n, e)) \<Rightarrow> size e
      | Inl (Inr (env, l, d, n, es)) \<Rightarrow> size_list size es
      | Inr (Inl (env, l, d, n, ms)) \<Rightarrow> size_list (size_prod (\<lambda>_. 0) size) ms
      | Inr (Inr (env, l, d, n, s, es)) \<Rightarrow> size_list size es)") (auto split: option.splits)

declare check_expr.simps [simp del]

definition CheckWithLimits :: "ValueExpr \<Rightarrow> Environment \<Rightarrow> ExprLimits \<Rightarrow> Schema result" where
  "CheckWithLimits e env l = ensure (validateLimits l) (andThen (check_expr env l 1 0 e) (\<lambda>(n, s). Inr s))"

definition Check :: "ValueExpr \<Rightarrow> Environment \<Rightarrow> Schema result" where
  "Check e env = CheckWithLimits e env expr_DefaultLimits"

definition isDirectSecretRef :: "ValueExpr \<Rightarrow> bool" where
  "isDirectSecretRef e \<longleftrightarrow> vx_Ref e \<noteq> [] \<and> take 8 (vx_Ref e) = ''secrets.'' \<and> length (filter (\<lambda>c. c = CHR ''.'') (vx_Ref e)) = 1"

definition CheckAssignable :: "ValueExpr \<Rightarrow> Environment \<Rightarrow> Schema \<Rightarrow> error option" where
  "CheckAssignable e env target = (case validateDefinition target of Some err \<Rightarrow> Some err | None \<Rightarrow>
     (case Check e env of Inl err \<Rightarrow> Some err | Inr source \<Rightarrow>
        if is_secret target then
          fail_if (\<not> isDirectSecretRef e \<or> \<not> is_secret source) (Errorf ''secret slot requires a direct secrets.<name> reference'')
        else if is_secret source then Some (Errorf ''secret handle cannot flow into a public value slot'')
        else (case vx_Literal e of
            Some raw \<Rightarrow> (case Decode raw DefaultLimits of Inl err \<Rightarrow> Some err | Inr v \<Rightarrow> ValidateValue target v)
          | None \<Rightarrow> assignable source target)))"

end
