(* ===== verification/Expression_Eval.thy ===== *)
theory Expression_Eval
  imports Expression_Check
begin

text \<open>
  Package kernel/expression, evaluate.go: evaluation of checked expressions. A type assertion
  \<^verbatim>\<open>argument.(bool)\<close> that fails is a run-time panic, the error \<open>Panic\<close>.
\<close>

section \<open>Exact decimals\<close>

text \<open>The loops that count how often a factor divides the denominator.\<close>

function factor_out :: "nat \<Rightarrow> nat \<Rightarrow> nat \<Rightarrow> nat \<times> nat" where
  "factor_out p n c = (if 1 < p \<and> 0 < n \<and> n mod p = 0 then factor_out p (n div p) (c + 1) else (n, c))"
  by pat_completeness auto
termination
  by (relation "measure (\<lambda>(p, n, c). n)") auto

declare factor_out.simps [simp del]

definition place_point :: "string \<Rightarrow> nat \<Rightarrow> string" where
  "place_point digits scale =
     (if scale = 0 then digits
      else let padded_digits = replicate (scale + 1 - length digits) (CHR ''0'') @ digits in
        trim_point (trim_right_zeros (take (length padded_digits - scale) padded_digits @ ''.'' @ drop (length padded_digits - scale) padded_digits)))"

definition terminatingDecimal :: "rat \<Rightarrow> nat \<Rightarrow> string result" where
  "terminatingDecimal value maxScale =
     (case quotient_of value of (numerator, denominator) \<Rightarrow>
      case factor_out 2 (nat denominator) 0 of (rem, twos) \<Rightarrow>
      case factor_out 5 rem 0 of (rest, fives) \<Rightarrow>
        if rest \<noteq> 1 then Inl (Errorf ''numeric result has no finite decimal representation'')
        else if max twos fives > maxScale then Inl (Errorf ''numeric result exceeds decimal scale limit'')
        else (let scale = max twos fives;
                  digits = place_point (decimal_nat (nat \<bar>numerator\<bar> * 2 ^ (scale - twos) * 5 ^ (scale - fives))) scale in
          Inr (if digits = [] \<or> digits = ''0'' then ''0'' else if numerator < 0 then CHR ''-'' # digits else digits)))"

section \<open>Operations on values\<close>

definition number :: "gval \<Rightarrow> rat option" where
  "number v = (case v of GNum t \<Rightarrow> number_rat t | _ \<Rightarrow> None)"

definition equalValues :: "gval \<Rightarrow> gval \<Rightarrow> bool result" where
  "equalValues a b =
     (case (number a, number b) of
        (Some x, Some y) \<Rightarrow> Inr (x = y)
      | (None, None) \<Rightarrow> Inr (DeepEqual a b)
      | _ \<Rightarrow> Inl (Errorf ''cannot compare number with non-number''))"

definition compare_with :: "'a :: linorder \<Rightarrow> 'a \<Rightarrow> int" where
  "compare_with a b = (if a < b then - 1 else if a = b then 0 else 1)"

definition compareValues :: "gval \<Rightarrow> gval \<Rightarrow> int result" where
  "compareValues a b =
     (case (number a, number b) of
        (Some x, Some y) \<Rightarrow> Inr (compare_with x y)
      | _ \<Rightarrow> (case (a, b) of
          (GStr s, GStr t) \<Rightarrow> Inr (compare_with s t)
        | _ \<Rightarrow> Inl (Errorf ''ordered comparison requires two numbers or two strings'')))"

definition assertion_panic :: error where "assertion_panic = Panic ''interface conversion''"
definition index_panic :: error where "index_panic = Panic ''index out of range''"

definition as_bool :: "gval \<Rightarrow> bool result" where
  "as_bool v = (case v of GBool b \<Rightarrow> Inr b | _ \<Rightarrow> Inl assertion_panic)"

definition as_string :: "gval \<Rightarrow> string result" where
  "as_string v = (case v of GStr t \<Rightarrow> Inr t | _ \<Rightarrow> Inl assertion_panic)"

definition argument :: "gval list \<Rightarrow> nat \<Rightarrow> gval result" where
  "argument args i = (if i < length args then Inr (args ! i) else Inl index_panic)"

fun eval_and :: "gval list \<Rightarrow> bool result" where
  "eval_and [] = Inr True"
| "eval_and (v # vs) = andThen (as_bool v) (\<lambda>b. if b then eval_and vs else Inr False)"

fun eval_or :: "gval list \<Rightarrow> bool result" where
  "eval_or [] = Inr False"
| "eval_or (v # vs) = andThen (as_bool v) (\<lambda>b. if b then Inr True else eval_or vs)"

fun eval_concat :: "gval list \<Rightarrow> string result" where
  "eval_concat [] = Inr []"
| "eval_concat (v # vs) = andThen (as_string v) (\<lambda>s. andThen (eval_concat vs) (\<lambda>t. Inr (s @ t)))"

fun first_value :: "gval list \<Rightarrow> gval" where
  "first_value [] = GNil"
| "first_value (v # vs) = (if v = GNil then first_value vs else v)"

fun eval_member :: "gval \<Rightarrow> gval list \<Rightarrow> bool result" where
  "eval_member x [] = Inr False"
| "eval_member x (v # vs) = andThen (equalValues v x) (\<lambda>b. if b then Inr True else eval_member x vs)"

fun text_contains :: "string \<Rightarrow> string \<Rightarrow> bool" where
  "text_contains s t = (take (length t) s = t \<or> (case s of [] \<Rightarrow> False | c # r \<Rightarrow> text_contains r t))"

declare text_contains.simps [simp del]

text \<open>\<^verbatim>\<open>utf8.RuneCountInString\<close>: a byte that starts no rune counts as one.\<close>

function rune_count :: "string \<Rightarrow> nat" where
  "rune_count s = (if s = [] then 0 else 1 + rune_count (drop (max 1 (rune_len s)) s))"
  by pat_completeness auto
termination
  by (relation "measure length") auto

declare rune_count.simps [simp del]

definition length_number :: "nat \<Rightarrow> gval" where "length_number n = GNum (decimal_nat n)"

definition compare_result :: "string \<Rightarrow> int \<Rightarrow> bool" where
  "compare_result name c = (if name = ''lt'' then c < 0 else if name = ''lte'' then c \<le> 0 else if name = ''gt'' then c > 0 else c \<ge> 0)"

definition arithmetic :: "string \<Rightarrow> rat \<Rightarrow> rat \<Rightarrow> rat result" where
  "arithmetic name a b =
     (if name = ''add'' then Inr (a + b) else if name = ''sub'' then Inr (a - b) else if name = ''mul'' then Inr (a * b)
      else if b = 0 then Inl (Errorf ''division by zero'') else Inr (a / b))"

definition DefaultMaxExponent :: nat where "DefaultMaxExponent = nat (MaxExponent DefaultLimits)"

definition eval_arithmetic :: "string \<Rightarrow> gval \<Rightarrow> gval \<Rightarrow> gval result" where
  "eval_arithmetic name x y =
     (case (number x, number y) of
        (Some a, Some b) \<Rightarrow> andThen (arithmetic name a b) (\<lambda>r. andThen (terminatingDecimal r DefaultMaxExponent) (\<lambda>t. Inr (GNum t)))
      | _ \<Rightarrow> Inl (Errorf ''numeric operator received a non-number''))"

definition eval_length :: "gval \<Rightarrow> gval result" where
  "eval_length v = (case v of GStr s \<Rightarrow> Inr (length_number (rune_count s)) | GList vs \<Rightarrow> Inr (length_number (length vs))
     | GMap kvs \<Rightarrow> Inr (length_number (length kvs)) | _ \<Rightarrow> Inl (Errorf ''length received a scalar''))"

definition eval_contains :: "gval \<Rightarrow> gval \<Rightarrow> gval result" where
  "eval_contains container x = (case container of
     GStr s \<Rightarrow> andThen (as_string x) (\<lambda>t. Inr (GBool (text_contains s t)))
   | GList vs \<Rightarrow> andThen (eval_member x vs) (\<lambda>b. Inr (GBool b))
   | _ \<Rightarrow> Inl (Errorf ''contains received a scalar''))"

definition binary :: "gval list \<Rightarrow> (gval \<Rightarrow> gval \<Rightarrow> 'a result) \<Rightarrow> 'a result" where
  "binary args f = andThen (argument args 0) (\<lambda>x. andThen (argument args 1) (\<lambda>y. f x y))"

definition evaluateOperation :: "string \<Rightarrow> gval list \<Rightarrow> gval result" where
  "evaluateOperation name args =
     (if name = ''and'' then andThen (eval_and args) (\<lambda>b. Inr (GBool b))
      else if name = ''or'' then andThen (eval_or args) (\<lambda>b. Inr (GBool b))
      else if name = ''not'' then andThen (argument args 0) (\<lambda>v. andThen (as_bool v) (\<lambda>b. Inr (GBool (\<not> b))))
      else if name = ''eq'' \<or> name = ''ne'' then
        binary args (\<lambda>x y. andThen (equalValues x y) (\<lambda>b. Inr (GBool (if name = ''ne'' then \<not> b else b))))
      else if name \<in> {''lt'', ''lte'', ''gt'', ''gte''} then
        binary args (\<lambda>x y. andThen (compareValues x y) (\<lambda>c. Inr (GBool (compare_result name c))))
      else if name \<in> {''add'', ''sub'', ''mul'', ''div''} then binary args (eval_arithmetic name)
      else if name = ''coalesce'' then Inr (first_value args)
      else if name = ''concat'' then andThen (eval_concat args) (\<lambda>t. Inr (GStr t))
      else if name = ''length'' then andThen (argument args 0) eval_length
      else if name = ''contains'' then binary args eval_contains
      else Inl (Errorf ''unknown operator''))"

section \<open>References\<close>

record Values =
  va_Inputs :: "(string \<times> json) list"
  va_Trigger :: "(string \<times> json) list"
  va_Scope :: "(string \<times> json) list"
  va_NodeOutputs :: "(string \<times> json) list"
  va_Iteration :: json
  va_Secrets :: "(string \<times> SecretHandle) list"

text \<open>\<^verbatim>\<open>resolveValue\<close> on decoded JSON: \<open>None\<close> is the missing value.\<close>

fun resolveValue :: "json \<Rightarrow> string list \<Rightarrow> gval result" where
  "resolveValue v [] = Inr (of_json v)"
| "resolveValue v (seg # segs) =
     (case v of
        JObj kvs \<Rightarrow> (case map_of kvs seg of None \<Rightarrow> Inr GMissing | Some w \<Rightarrow> resolveValue w segs)
      | JArr vs \<Rightarrow> (case Atoi seg of None \<Rightarrow> Inr GMissing
          | Some i \<Rightarrow> if i < 0 \<or> int (length vs) \<le> i then Inr GMissing else resolveValue (vs ! nat i) segs)
      | _ \<Rightarrow> Inl (Errorf ''reference crosses scalar''))"

definition eval_reference :: "Values \<Rightarrow> string \<Rightarrow> gval result" where
  "eval_reference vals ref = (let segs = split_dots ref in
     if hd segs = ''inputs'' then resolveValue (JObj (va_Inputs vals)) (tl segs)
     else if hd segs = ''trigger'' then resolveValue (JObj (va_Trigger vals)) (tl segs)
     else if hd segs = ''scope'' then resolveValue (JObj (va_Scope vals)) (tl segs)
     else if hd segs = ''iteration'' then resolveValue (va_Iteration vals) (tl segs)
     else if hd segs = ''nodes'' then
       (if length segs < 2 then Inl index_panic
        else case map_of (va_NodeOutputs vals) (segs ! 1) of
          None \<Rightarrow> Inl (Errorf ''reference has no node output value'') | Some v \<Rightarrow> resolveValue v (drop 3 segs))
     else if hd segs = ''secrets'' then
       (if length segs < 2 then Inl index_panic
        else case map_of (va_Secrets vals) (segs ! 1) of
          None \<Rightarrow> Inl (Errorf ''reference has no valid secret handle'')
        | Some h \<Rightarrow> if SecretHandle_Valid h then Inr (GSecret h) else Inl (Errorf ''reference has no valid secret handle''))
     else Inl (Errorf ''unknown reference namespace''))"

section \<open>The evaluator\<close>

definition present :: "error \<Rightarrow> gval \<Rightarrow> error option" where
  "present e v = fail_if (v = GMissing) e"

function eval_expr :: "Values \<Rightarrow> ValueExpr \<Rightarrow> gval result"
and eval_coalesce :: "Values \<Rightarrow> ValueExpr list \<Rightarrow> gval result"
and eval_list :: "Values \<Rightarrow> error \<Rightarrow> ValueExpr list \<Rightarrow> gval list result"
and eval_members :: "Values \<Rightarrow> (string \<times> ValueExpr) list \<Rightarrow> (string \<times> gval) list result"
where
  "eval_expr vals (ValueExpr literal ref op args members elements) =
     (case literal of Some raw \<Rightarrow> andThen (Decode raw DefaultLimits) (\<lambda>v. Inr (of_json v))
      | None \<Rightarrow> if ref \<noteq> [] then eval_reference vals ref
      else if op \<noteq> [] then
        (if op = ''coalesce'' then eval_coalesce vals (case args of None \<Rightarrow> [] | Some as \<Rightarrow> as)
         else andThen (eval_list vals (Errorf ''operator argument is missing'') (case args of None \<Rightarrow> [] | Some as \<Rightarrow> as)) (evaluateOperation op))
      else (case members of Some ms \<Rightarrow> andThen (eval_members vals ms) (\<lambda>kvs. Inr (GMap kvs))
      | None \<Rightarrow> (case elements of
          None \<Rightarrow> Inl (Errorf ''invalid expression'')
        | Some xs \<Rightarrow> andThen (eval_list vals (Errorf ''array item is missing'') xs) (\<lambda>vs. Inr (GList vs)))))"
| "eval_coalesce vals [] = Inr GNil"
| "eval_coalesce vals (x # xs) =
     andThen (eval_expr vals x) (\<lambda>v. if v = GNil \<or> v = GMissing then eval_coalesce vals xs else Inr v)"
| "eval_list vals e [] = Inr []"
| "eval_list vals e (x # xs) =
     andThen (eval_expr vals x) (\<lambda>v. ensure (present e v) (andThen (eval_list vals e xs) (\<lambda>vs. Inr (v # vs))))"
| "eval_members vals [] = Inr []"
| "eval_members vals ((n, x) # ms) =
     andThen (eval_expr vals x) (\<lambda>v. ensure (present (Errorf ''object member is missing'') v)
       (andThen (eval_members vals ms) (\<lambda>kvs. Inr ((n, v) # kvs))))"
  by pat_completeness auto
termination
  by (relation "measure (\<lambda>x. case x of Inl (Inl (vals, e)) \<Rightarrow> size e
      | Inl (Inr (vals, es)) \<Rightarrow> size_list size es
      | Inr (Inl (vals, e, es)) \<Rightarrow> size_list size es
      | Inr (Inr (vals, ms)) \<Rightarrow> size_list (size_prod (\<lambda>_. 0) size) ms)") (auto split: option.splits)

declare eval_expr.simps [simp del]

definition validateValues :: "Environment \<Rightarrow> Values \<Rightarrow> error option" where
  "validateValues env vals = first_error
     [ValidateValue (en_Inputs env) (JObj (va_Inputs vals)),
      ValidateValue (en_Trigger env) (JObj (va_Trigger vals)),
      ValidateValue (en_Scope env) (JObj (va_Scope vals)),
      first_error (map (\<lambda>kv. case map_of (en_NodeOutputs env) (fst kv) of
          None \<Rightarrow> Some (Errorf ''node output value has no schema'') | Some s \<Rightarrow> ValidateValue s (snd kv)) (va_NodeOutputs vals)),
      (case en_Iteration env of None \<Rightarrow> None | Some s \<Rightarrow> ValidateValue s (va_Iteration vals)),
      fail_if (\<not> list_all (\<lambda>kv. enabled (en_Secrets env) (fst kv) \<and> SecretHandle_Valid (snd kv)) (va_Secrets vals))
        (Errorf ''secret handle is undeclared or invalid'')]"

text \<open>The JSON that \<^verbatim>\<open>encoding/json\<close> writes for a value of the evaluator.\<close>

fun to_json :: "gval \<Rightarrow> json" where
  "to_json GNil = JNull"
| "to_json (GBool b) = JBool b"
| "to_json (GNum t) = JNum t"
| "to_json (GStr t) = JStr t"
| "to_json (GList vs) = JArr (map to_json vs)"
| "to_json (GMap kvs) = JObj (map (\<lambda>kv. (fst kv, to_json (snd kv))) kvs)"
| "to_json GMissing = JObj []"
| "to_json (GSecret h) = JObj [(''ID'', JStr (sh_ID h))]"

definition finish_value :: "ExprLimits \<Rightarrow> gval \<Rightarrow> gval result" where
  "finish_value l v = (case v of
     GMissing \<Rightarrow> Inl (Errorf ''expression result is missing'')
   | GSecret h \<Rightarrow> Inr v
   | _ \<Rightarrow> andThen (Marshal (to_json v)) (\<lambda>canonical.
       ensure (fail_if (int (length canonical) > xl_MaxResultBytes l) (Errorf ''expression result exceeds bytes'')) (Inr v)))"

definition EvaluateWithLimits :: "ValueExpr \<Rightarrow> Environment \<Rightarrow> Values \<Rightarrow> ExprLimits \<Rightarrow> gval result" where
  "EvaluateWithLimits e env vals l =
     andThen (CheckWithLimits e env l) (\<lambda>_.
     ensure (validateValues env vals) (
     andThen (eval_expr vals e) (finish_value l)))"

definition Evaluate :: "ValueExpr \<Rightarrow> Environment \<Rightarrow> Values \<Rightarrow> gval result" where
  "Evaluate e env vals = EvaluateWithLimits e env vals expr_DefaultLimits"

end
