(* ===== verification/Decimal_Props.thy ===== *)
theory Decimal_Props
  imports Expression_Eval Json_Content
begin

text \<open>
  Exactness of the arithmetic of expressions: the text that \<^verbatim>\<open>terminatingDecimal\<close> prints denotes
  the rational number it was given, and it refuses exactly the numbers without such a text.
\<close>

section \<open>Digits\<close>

lemma digit_char_value: "d < 10 \<Longrightarrow> digits_value [digit_char d] = int d"
proof -
  have "\<forall>d \<in> set [0..<10]. digits_value [digit_char d] = int d" by (simp add: digits_value_def digit_char_def upt_rec)
  then show "d < 10 \<Longrightarrow> digits_value [digit_char d] = int d" by simp
qed

lemma digits_decimal_nat: "digits_value (decimal_nat n) = int n"
proof (induction n rule: decimal_nat.induct)
  case (1 n)
  show ?case
  proof (cases "n < 10")
    case True
    then show ?thesis by (simp add: decimal_nat.simps [of n] digit_char_value)
  next
    case False
    then show ?thesis using 1 by (simp add: decimal_nat.simps [of n] digits_value_append digit_char_value)
        (metis div_mult_mod_eq of_nat_add of_nat_mult of_nat_numeral)
  qed
qed

section \<open>Plain decimals\<close>

lemma number_exponent_value_plain: "\<forall>c \<in> set u. \<not> is_exponent_marker c \<Longrightarrow> number_exponent_value u = Some 0"
  by (auto simp: number_exponent_value_def list_ex_iff)

lemma unsigned_rat_plain:
  assumes "decimalDigits i" and "u = i \<and> f = [] \<or> u = i @ ''.'' @ f \<and> decimalDigits f" and "int (length f) \<le> maxRatExponent"
  shows "unsigned_rat u = Some (of_int (digits_value (i @ f)) / 10 ^ length f)"
proof -
  have pt: "\<not> is_exponent_marker (CHR ''.'')" "is_point (CHR ''.'')" by (simp_all add: is_exponent_marker_def is_point_def)
  note i = decimalDigits_marks [OF assms(1)]
  have i1: "\<forall>c \<in> set i. \<not> is_exponent_marker c" "\<forall>c \<in> set i. \<not> is_point c" using i by blast+
  have f: "\<forall>c \<in> set f. \<not> is_exponent_marker c" using assms(2) decimalDigits_marks [of f] by (elim disjE conjE) (simp, blast)
  have e: "\<forall>c \<in> set u. \<not> is_exponent_marker c" using assms(2) by (elim disjE conjE) (use i1(1) f pt(1) in \<open>simp_all add: ball_Un\<close>)
  have "before_mark is_point u = i \<and> after_mark is_point u = f"
    using assms(2)
  proof
    assume "u = i \<and> f = []"
    then show ?thesis using mark_free [OF i1(2)] by simp
  next
    assume "u = i @ ''.'' @ f \<and> decimalDigits f"
    then show ?thesis using mark_at [OF i1(2) pt(2), of f] by simp
  qed
  then show ?thesis
    using mark_free [OF e] number_exponent_value_plain [OF e]
    using assms(3) by (simp add: unsigned_rat_def set_rat_def decimal_value_def power_int_minus divide_inverse)
qed

lemma number_rat_plain:
  assumes "canonical_unsigned u \<or> u = ''0''"
  shows "number_rat u = unsigned_rat u" and "number_rat (CHR ''-'' # u) = map_option uminus (unsigned_rat u)"
proof -
  note n = canonical_number_unsigned [OF assms]
  obtain c v where u: "u = c # v" "c \<noteq> CHR ''-''" using n by (cases u) auto
  have "number_token u = Some (u, [])" "number_token (CHR ''-'' # u) = Some (CHR ''-'' # u, [])"
    using n u by (simp_all add: number_token_def prefix_text_def)
  then show "number_rat u = unsigned_rat u" "number_rat (CHR ''-'' # u) = map_option uminus (unsigned_rat u)"
    using u by (simp_all add: number_rat_def)
qed

section \<open>Placing the point\<close>

lemma place_point_value:
  assumes "int scale \<le> maxRatExponent"
  shows "(canonical_unsigned (place_point (decimal_nat n) scale) \<or> place_point (decimal_nat n) scale = ''0'') \<and>
   unsigned_rat (place_point (decimal_nat n) scale) = Some (of_nat n / 10 ^ scale)"
proof (cases "scale = 0")
  case True
  have "int_part (decimal_nat n)" by (rule decimal_nat_int_part)
  then show ?thesis
    using True unsigned_rat_plain [of "decimal_nat n" "decimal_nat n" "[]"] digits_decimal_nat [of n]
    by (auto simp: place_point_def canonical_unsigned_def int_part_def maxRatExponent_def)
next
  case False
  define p where "p = replicate (scale + 1 - length (decimal_nat n)) (CHR ''0'') @ decimal_nat n"
  define i where "i = take (length p - scale) p"
  define f where "f = drop (length p - scale) p"
  have len: "scale < length p" by (simp add: p_def)
  have pif: "p = i @ f" "length f = scale" "i \<noteq> []" using len by (auto simp: i_def f_def)
  have dig: "list_all is_digit p"
    using decimal_nat_digits [of n] by (auto simp: p_def list_all_iff is_digit_def in_range_def)
  then have di: "decimalDigits i" "list_all is_digit f" using pif by (auto simp: decimalDigits_def)
  have "int_part i"
  proof (cases "length (decimal_nat n) \<le> scale")
    case True
    then have "length p = Suc scale" by (simp add: p_def)
    then have "i = ''0''" using True by (simp add: i_def p_def take_Cons' Suc_diff_le)
    then show ?thesis using di(1) by (simp add: int_part_def)
  next
    case False
    then have p: "p = decimal_nat n" by (simp add: p_def)
    show ?thesis
    proof (cases "n = 0")
      case True
      then have "length p = 1" by (simp add: p decimal_nat.simps [of 0])
      then show ?thesis using len \<open>scale \<noteq> 0\<close> by simp
    next
      case False
      then have "hd p \<noteq> CHR ''0''" using decimal_nat_digits [of n] by (simp add: p)
      then show ?thesis using di(1) pif(1,3) by (simp add: int_part_def)
    qed
  qed
  obtain g k where g: "f = g @ replicate k (CHR ''0'')" "g = [] \<or> fraction_part g"
    "trim_point (trim_right_zeros (i @ ''.'' @ f)) = (if g = [] then i else i @ ''.'' @ g)"
    by (rule trimmed_fraction [OF di(2), of i])
  have pp: "place_point (decimal_nat n) scale = (if g = [] then i else i @ ''.'' @ g)"
    using False by (simp only: place_point_def Let_def p_def [symmetric] i_def [symmetric] f_def [symmetric] g(3) if_False)
  have "digits_value p = int n" by (simp add: p_def digits_value_append digits_value_zeros digits_decimal_nat)
  then have "digits_value (i @ g) * 10 ^ k = int n"
    using digits_value_append [of "i @ g" "replicate k (CHR ''0'')"] by (simp add: pif(1) g(1) digits_value_zeros)
  then have "of_int (digits_value (i @ g)) * 10 ^ k = (of_nat n :: rat)" by (metis of_int_mult of_int_of_nat_eq of_int_power of_int_numeral)
  moreover have sc: "scale = length g + k" using pif(2) g(1) by simp
  ultimately have v: "(of_int (digits_value (i @ g)) :: rat) / 10 ^ length g = of_nat n / 10 ^ scale" by (simp add: power_add field_simps)
  have "unsigned_rat (place_point (decimal_nat n) scale) = Some (of_int (digits_value (i @ g)) / 10 ^ length g)"
    unfolding pp using di(1) g(2) assms sc by (intro unsigned_rat_plain) (auto simp: fraction_part_def)
  moreover have "canonical_unsigned (place_point (decimal_nat n) scale) \<or> place_point (decimal_nat n) scale = ''0''"
    unfolding pp using \<open>int_part i\<close> g(2) by (auto simp: canonical_unsigned_def)
  ultimately show ?thesis by (simp only: v simp_thms)
qed

section \<open>Factors\<close>

lemma factor_out_facts:
  assumes "factor_out p n c = (m, k)" and "1 < p" and "0 < n"
  shows "n = m * p ^ (k - c) \<and> c \<le> k \<and> \<not> p dvd m \<and> 0 < m"
  using assms
proof (induction p n c rule: factor_out.induct)
  case (1 p n c)
  show ?case
  proof (cases "n mod p = 0")
    case True
    then have s: "factor_out p (n div p) (c + 1) = (m, k)" "0 < n div p" "n = n div p * p"
      using 1 by (auto simp: factor_out.simps [of p n] dvd_div_eq_0_iff dvd_eq_mod_eq_0)
    then have ih: "n div p = m * p ^ (k - (c + 1)) \<and> c + 1 \<le> k \<and> \<not> p dvd m \<and> 0 < m" using 1 True by auto
    then have "k - c = Suc (k - (c + 1))" by linarith
    then show ?thesis using ih s(3) by (metis Suc_eq_plus1 add_leD1 mult.assoc power_Suc2)
  next
    case False
    then show ?thesis using 1 by (auto simp: factor_out.simps [of p n] dvd_eq_mod_eq_0)
  qed
qed

lemma coprime_five: "\<not> 5 dvd r \<Longrightarrow> coprime r 5" for r :: nat
proof -
  assume r: "\<not> 5 dvd r"
  have g: "gcd r 5 dvd 5" "gcd r 5 dvd r" by simp_all
  then have "gcd r 5 \<le> 5" by (simp add: dvd_imp_le)
  then consider "gcd r 5 = 0" | "gcd r 5 = 1" | "gcd r 5 = 2" | "gcd r 5 = 3" | "gcd r 5 = 4" | "gcd r 5 = 5" by linarith
  then show ?thesis using g r by cases (simp_all add: coprime_iff_gcd_eq_1)
qed

lemma finite_decimal:
  assumes "factor_out 2 d 0 = (m, a)" and "factor_out 5 m 0 = (r, b)" and "0 < d"
  shows "d = r * 2 ^ a * 5 ^ b" and "d dvd 10 ^ k \<longleftrightarrow> r = 1 \<and> max a b \<le> k"
proof -
  have m: "d = m * 2 ^ a" "\<not> 2 dvd m" "0 < m" using factor_out_facts [OF assms(1) _ assms(3)] by simp_all
  have r: "m = r * 5 ^ b" "\<not> 5 dvd r" "0 < r" using factor_out_facts [OF assms(2) _ m(3)] by simp_all
  show d: "d = r * 2 ^ a * 5 ^ b" using m(1) r(1) by simp
  have two: "\<not> 2 dvd r" using m(2) r(1) by (metis dvd_mult2)
  have c2: "coprime r 2" using two by (simp add: coprime_right_2_iff_odd)
  have c5: "coprime r 5" by (rule coprime_five [OF r(2)])
  have ten: "(10 :: nat) ^ k = 2 ^ k * 5 ^ k" by (simp flip: power_mult_distrib)
  have c25: "coprime (2 :: nat) 5" by (simp add: coprime_iff_gcd_eq_1 gcd_non_0_nat)
  show "d dvd 10 ^ k \<longleftrightarrow> r = 1 \<and> max a b \<le> k"
  proof
    assume dvd: "d dvd 10 ^ k"
    have "r dvd 2 ^ k * 5 ^ k" using dvd unfolding d ten by (metis dvd_mult_left)
    then have "r = 1" using c2 c5 by (metis coprime_common_divisor coprime_dvd_mult_right_iff coprime_power_right_iff dvd_refl nat_dvd_1_iff_1)
    moreover have "2 ^ a dvd (2 :: nat) ^ k" "5 ^ b dvd (5 :: nat) ^ k"
    proof -
      have "2 ^ a dvd (2 :: nat) ^ k * 5 ^ k" using dvd unfolding d ten by (metis dvd_mult_left dvd_mult_right)
      moreover have "coprime ((2 :: nat) ^ a) (5 ^ k)" using c25 by simp
      ultimately show "2 ^ a dvd (2 :: nat) ^ k" by (simp add: coprime_dvd_mult_left_iff)
      have "5 ^ b dvd (2 :: nat) ^ k * 5 ^ k" using dvd unfolding d ten by (metis dvd_mult_right)
      moreover have "coprime ((5 :: nat) ^ b) (2 ^ k)" using c25 by (simp add: coprime_commute)
      ultimately show "5 ^ b dvd (5 :: nat) ^ k" by (simp add: coprime_dvd_mult_right_iff)
    qed
    ultimately show "r = 1 \<and> max a b \<le> k" by (simp add: power_dvd_imp_le)
  next
    assume "r = 1 \<and> max a b \<le> k"
    then show "d dvd 10 ^ k" unfolding d ten by (simp add: mult_dvd_mono le_imp_power_dvd)
  qed
qed

lemma rat_scaled:
  assumes "quotient_of r = (n, d)"
  shows "0 < d" and "r = of_int n / of_int d" and "(\<exists>z. r = of_int z / 10 ^ k) \<longleftrightarrow> nat d dvd 10 ^ k"
proof -
  show d: "0 < d" using assms by (rule quotient_of_denom_pos)
  show r: "r = of_int n / of_int d" using assms by (rule quotient_of_div)
  have cop: "coprime n d" using assms by (rule quotient_of_coprime)
  have nd: "nat d dvd 10 ^ k \<longleftrightarrow> d dvd 10 ^ k" using d by (metis int_dvd_int_iff nat_0_le less_imp_le of_nat_numeral of_nat_power)
  show "(\<exists>z. r = of_int z / 10 ^ k) \<longleftrightarrow> nat d dvd 10 ^ k"
  proof
    assume "\<exists>z. r = of_int z / 10 ^ k"
    then obtain z where "of_int n / of_int d = (of_int z :: rat) / 10 ^ k" using r by auto
    then have "of_int n * 10 ^ k = (of_int z :: rat) * of_int d" using d by (simp add: field_simps)
    then have "n * 10 ^ k = z * d" by (metis of_int_eq_iff of_int_mult of_int_numeral of_int_power)
    then have "d dvd n * 10 ^ k" by simp
    then have "d dvd 10 ^ k" using cop by (simp add: coprime_dvd_mult_right_iff coprime_commute)
    then show "nat d dvd 10 ^ k" using nd by simp
  next
    assume "nat d dvd 10 ^ k"
    then obtain q where q: "10 ^ k = d * q" using nd by (auto elim: dvdE)
    have "(10 :: rat) ^ k = of_int d * of_int q" using q by (metis of_int_mult of_int_numeral of_int_power)
    moreover from this have "q \<noteq> 0" by auto
    ultimately have "r = of_int (n * q) / 10 ^ k" using d by (simp add: r field_simps)
    then show "\<exists>z. r = of_int z / 10 ^ k" ..
  qed
qed

lemma scaled_numerator:
  assumes "d = 2 ^ a * 5 ^ b" and "a \<le> k" and "b \<le> k"
  shows "(of_nat (n * 2 ^ (k - a) * 5 ^ (k - b)) :: rat) / 10 ^ k = of_nat n / of_nat d"
proof -
  have "(10 :: rat) ^ k = (2 ^ a * 5 ^ b) * (2 ^ (k - a) * 5 ^ (k - b))"
    using assms(2,3) power_add [of "2 :: rat" a "k - a"] power_add [of "5 :: rat" b "k - b"] power_mult_distrib [of "2 :: rat" 5 k] by simp
  then show ?thesis by (simp add: assms(1))
qed

lemma default_scale: "int DefaultMaxExponent \<le> maxRatExponent"
  by (simp add: DefaultMaxExponent_def DefaultLimits_def maxRatExponent_def)

lemma decimal_exact:
  assumes "int k \<le> maxRatExponent"
  shows "case terminatingDecimal r k of Inr t \<Rightarrow> number_rat t = Some r \<and> (\<exists>z. r = of_int z / 10 ^ k) | Inl e \<Rightarrow> \<not> (\<exists>z. r = of_int z / 10 ^ k)"
proof -
  obtain n d where nd: "quotient_of r = (n, d)" by force
  obtain m a where m: "factor_out 2 (nat d) 0 = (m, a)" by force
  obtain q b where q: "factor_out 5 m 0 = (q, b)" by force
  note rs = rat_scaled [OF nd]
  have "0 < nat d" using rs(1) by simp
  note fd = finite_decimal [OF m q this]
  show ?thesis
  proof (cases "q = 1 \<and> max a b \<le> k")
    case False
    then have "\<exists>e. terminatingDecimal r k = Inl e" by (auto simp: terminatingDecimal_def nd m q not_le)
    then show ?thesis using False fd(2) rs(3) by auto
  next
    case True
    define s where "s = max a b"
    define u where "u = place_point (decimal_nat (nat \<bar>n\<bar> * 2 ^ (s - a) * 5 ^ (s - b))) s"
    have t: "terminatingDecimal r k = Inr (if u = [] \<or> u = ''0'' then ''0'' else if n < 0 then CHR ''-'' # u else u)"
      using True by (simp add: terminatingDecimal_def nd m q Let_def u_def s_def not_less)
    have sk: "int s \<le> maxRatExponent" using assms True by (simp add: s_def max_def)
    have d2: "nat d = 2 ^ a * 5 ^ b" using fd(1) True by simp
    note pp = place_point_value [of s "nat \<bar>n\<bar> * 2 ^ (s - a) * 5 ^ (s - b)", folded u_def, OF sk]
    have "(of_nat (nat \<bar>n\<bar>) :: rat) = of_int \<bar>n\<bar>" by (simp add: of_nat_nat)
    moreover have "(of_nat (nat d) :: rat) = of_int d" using rs(1) by (simp add: of_nat_nat)
    ultimately have v: "unsigned_rat u = Some (of_int \<bar>n\<bar> / of_int d)"
      using conjunct2 [OF pp] scaled_numerator [OF d2, of s "nat \<bar>n\<bar>"] by (simp add: s_def)
    have "u \<noteq> []" using canonical_number_unsigned conjunct1 [OF pp] by blast
    have "number_rat (if u = [] \<or> u = ''0'' then ''0'' else if n < 0 then CHR ''-'' # u else u) = Some r"
    proof (cases "u = ''0''")
      case True
      have "unsigned_rat ''0'' = Some 0" using unsigned_rat_plain [of "''0''" "''0''" "[]"] by (simp add: decimalDigits_def is_digit_def in_range_def digits_value_def maxRatExponent_def)
      then have "n = 0" using v rs(1) True by simp
      then show ?thesis using True v number_rat_plain(1) [of u] rs(2) by simp
    next
      case False
      then show ?thesis using number_rat_plain [OF conjunct1 [OF pp]] v rs(2) \<open>u \<noteq> []\<close> by (auto simp: abs_if)
    qed
    moreover have "\<exists>z. r = of_int z / 10 ^ k" using True fd(2) rs(3) by auto
    ultimately show ?thesis by (simp add: t)
  qed
qed

end
