(* ===== verification/Expression_Props.thy ===== *)
theory Expression_Props
  imports Decimal_Props
begin

text \<open>
  Soundness of the checker of expressions. The type of a value ignores the enumerations and the
  closedness of a schema: \<^verbatim>\<open>sameType\<close> ignores both, so the checker gives no more.
\<close>

section \<open>Types of values\<close>

fun has_type :: "Schema \<Rightarrow> gval \<Rightarrow> bool" where
  "has_type s v =
     (case sch_Type s of
        TypeObject \<Rightarrow> (case v of
            GMap kvs \<Rightarrow> (\<forall>n \<in> set (sch_Required s). map_of kvs n \<noteq> None) \<and>
              (\<forall>kv \<in> set kvs. case map_of (sch_Properties s) (fst kv) of None \<Rightarrow> True | Some p \<Rightarrow> has_type p (snd kv))
          | _ \<Rightarrow> False)
      | TypeArray \<Rightarrow> (case v of
            GList vs \<Rightarrow> (case sch_Items s of None \<Rightarrow> vs = [] | Some i \<Rightarrow> \<forall>w \<in> set vs. has_type i w)
          | _ \<Rightarrow> False)
      | TypeString \<Rightarrow> (\<exists>t. v = GStr t)
      | TypeNumber \<Rightarrow> number v \<noteq> None
      | TypeInteger \<Rightarrow> (\<exists>r. number v = Some r \<and> IsInt r)
      | TypeBoolean \<Rightarrow> (\<exists>b. v = GBool b)
      | TypeNull \<Rightarrow> v = GNil
      | JSONTypeOther _ \<Rightarrow> False)"

declare has_type.simps [simp del]

lemma has_type_scalar:
  "sch_Type s = TypeString \<Longrightarrow> has_type s v \<longleftrightarrow> (\<exists>t. v = GStr t)"
  "sch_Type s = TypeNumber \<Longrightarrow> has_type s v \<longleftrightarrow> number v \<noteq> None"
  "sch_Type s = TypeInteger \<Longrightarrow> has_type s v \<longleftrightarrow> (\<exists>r. number v = Some r \<and> IsInt r)"
  "sch_Type s = TypeBoolean \<Longrightarrow> has_type s v \<longleftrightarrow> (\<exists>b. v = GBool b)"
  "sch_Type s = TypeNull \<Longrightarrow> has_type s v \<longleftrightarrow> v = GNil"
  "sch_Type s = JSONTypeOther x \<Longrightarrow> \<not> has_type s v"
  by (simp_all add: has_type.simps [of s])

lemma has_type_compound:
  "sch_Type s = TypeObject \<Longrightarrow> has_type s v \<Longrightarrow> \<exists>kvs. v = GMap kvs"
  "sch_Type s = TypeArray \<Longrightarrow> has_type s v \<Longrightarrow> \<exists>vs. v = GList vs \<and> (\<forall>i. sch_Items s = Some i \<longrightarrow> (\<forall>w \<in> set vs. has_type i w))"
  by (cases v; auto simp: has_type.simps [of s])+

text \<open>The schemas of the checker: nothing is required twice and arrays have an item schema.\<close>

fun schema_ok :: "Schema \<Rightarrow> bool" where
  "schema_ok (Schema ty properties required additional items dflt enum format) \<longleftrightarrow> distinct required \<and> (ty = TypeArray \<longrightarrow> items \<noteq> None) \<and>
     (case items of None \<Rightarrow> True | Some i \<Rightarrow> schema_ok i) \<and> (\<forall>kv \<in> set properties. schema_ok (snd kv))"

lemma schema_ok_sel:
  assumes "schema_ok s"
  shows "distinct (sch_Required s)" and "sch_Type s = TypeArray \<Longrightarrow> \<exists>i. sch_Items s = Some i \<and> schema_ok i"
    and "map_of (sch_Properties s) n = Some p \<Longrightarrow> schema_ok p" and "sch_Items s = Some i \<Longrightarrow> schema_ok i"
  using assms by (cases s; force dest: map_of_SomeD)+

lemma type_schema_ok: "schema_ok (type_schema t) \<longleftrightarrow> t \<noteq> TypeArray"
  by (simp add: type_schema_def)

lemma object_schema_ok: "distinct (map fst ps) \<Longrightarrow> \<forall>kv \<in> set ps. schema_ok (snd kv) \<Longrightarrow> schema_ok (object_schema ps)"
  by (simp add: object_schema_def)

lemma array_schema_ok: "schema_ok s \<Longrightarrow> schema_ok (array_schema s)"
  by (simp add: array_schema_def)

lemma first_error_all_None: "first_error es = None \<longleftrightarrow> (\<forall>e \<in> set es. e = None)"
  by (induction es) (auto simp: first_error_Cons_None)

lemma validateDefinition_ok: "validateDefinition s = None \<Longrightarrow> schema_ok s"
proof (induction s rule: validateDefinition.induct)
  case (1 ty properties required additional items dflt enum format)
  show ?case
  proof (cases ty)
    case TypeObject
    then have "items = None" "distinct required" "\<forall>kv \<in> set properties. validateDefinition (snd kv) = None"
      using "1.prems" by (auto simp: validateDefinition.simps first_error_all_None)
    then show ?thesis using "1.IH" TypeObject by auto
  next
    case TypeArray
    then obtain i where "items = Some i" "properties = []" "required = []" "validateDefinition i = None"
      using "1.prems" by (auto simp: validateDefinition.simps split: option.splits)
    then show ?thesis using "1.IH" TypeArray by auto
  qed (use "1.prems" in \<open>auto simp: validateDefinition.simps\<close>)
qed

lemma number_of_json: "is_number v i \<longleftrightarrow> (\<exists>r. number (of_json v) = Some r \<and> (i \<longrightarrow> IsInt r))"
  by (cases v) (auto simp: is_number_def number_def split: option.splits)

lemma validated_type: "validateValueWithoutEnum s v = None \<Longrightarrow> has_type s (of_json v)"
proof (induction s v rule: validateValueWithoutEnum.induct)
  case (1 s v)
  note p = "1.prems" [unfolded validateValueWithoutEnum.simps [of s v]]
  show ?case
  proof (cases "sch_Type s")
    case TypeObject
    then obtain kvs where v: "v = JObj kvs" using p by (cases v) auto
    have r: "\<forall>n \<in> set (sch_Required s). map_of kvs n \<noteq> None"
      using p TypeObject by (auto simp: v list_all_iff)
    have "has_type q (of_json (snd kv))" if "kv \<in> set kvs" "map_of (sch_Properties s) (fst kv) = Some q" for kv q
      using "1.IH"(1) [OF TypeObject v that] p TypeObject that by (auto simp: v first_error_all_None)
    then show ?thesis using r TypeObject by (auto simp: v has_type.simps [of s] map_of_members split: option.splits)
  next
    case TypeArray
    then obtain vs where v: "v = JArr vs" using p by (cases v) auto
    show ?thesis
    proof (cases "sch_Items s")
      case None
      then have "vs = []" using p TypeArray by (cases vs) (auto simp: v)
      then show ?thesis using TypeArray None by (simp add: v has_type.simps [of s])
    next
      case (Some i)
      have "has_type i (of_json w)" if "w \<in> set vs" for w
        using "1.IH"(2) [OF TypeArray v that Some] p TypeArray that by (auto simp: v first_error_all_None Some)
      then show ?thesis using TypeArray Some by (auto simp: v has_type.simps [of s])
    qed
  qed (use p number_of_json [of v] in \<open>cases v; auto simp: has_type.simps [of s]\<close>)+
qed

section \<open>References\<close>

lemma resolve_ok: "Schema_Resolve s segs = Inr t \<Longrightarrow> schema_ok s \<Longrightarrow> schema_ok t"
  by (induction s segs rule: Schema_Resolve.induct) (auto dest: schema_ok_sel split: JSONType.splits option.splits if_splits)

lemma resolved_type:
  assumes "Schema_Resolve s segs = Inr t" and "validateValueWithoutEnum s v = None" and "schema_ok s"
  shows "schema_ok t \<and> (\<exists>g. resolveValue v segs = Inr g \<and> (g = GMissing \<or> has_type t g))"
  using assms
proof (induction s segs arbitrary: v rule: Schema_Resolve.induct)
  case (1 s)
  then show ?case using validated_type by auto
next
  case (2 s seg segs)
  note p = "2.prems"(2) [unfolded validateValueWithoutEnum.simps [of s v]]
  consider (object) q where "sch_Type s = TypeObject" "map_of (sch_Properties s) seg = Some q" "Schema_Resolve q segs = Inr t"
    | (array) i where "sch_Type s = TypeArray" "sch_Items s = Some i" "Schema_Resolve i segs = Inr t" "array_index seg"
    using "2.prems"(1) by (auto split: JSONType.splits option.splits if_splits)
  then show ?case
  proof cases
    case object
    then obtain kvs where v: "v = JObj kvs" using p by (cases v) auto
    have ok: "schema_ok q" using schema_ok_sel(3) [OF "2.prems"(3) object(2)] .
    have ih: "validateValueWithoutEnum q w = None \<Longrightarrow> schema_ok t \<and> (\<exists>g. resolveValue w segs = Inr g \<and> (g = GMissing \<or> has_type t g))" for w
      using "2.IH"(1) [OF object(1,2,3) _ ok] by blast
    show ?thesis
    proof (cases "map_of kvs seg")
      case None
      then show ?thesis using resolve_ok [OF object(3) ok] by (simp add: v)
    next
      case (Some w)
      then have "(seg, w) \<in> set kvs" by (rule map_of_SomeD)
      then have "validateValueWithoutEnum q w = None" using p object(1,2) by (force simp: v first_error_all_None)
      then show ?thesis using ih Some by (simp add: v)
    qed
  next
    case array
    then obtain vs where v: "v = JArr vs" using p by (cases v) auto
    have ok: "schema_ok i" using schema_ok_sel(4) [OF "2.prems"(3) array(2)] .
    have ih: "validateValueWithoutEnum i w = None \<Longrightarrow> schema_ok t \<and> (\<exists>g. resolveValue w segs = Inr g \<and> (g = GMissing \<or> has_type t g))" for w
      using "2.IH"(2) [OF array(1,2) _ array(3) _ ok] array(4) by blast
    show ?thesis
    proof (cases "\<exists>k. Atoi seg = Some k \<and> 0 \<le> k \<and> k < int (length vs)")
      case False
      then have "resolveValue v (seg # segs) = Inr GMissing" by (cases "Atoi seg") (auto simp: v not_le)
      then show ?thesis using resolve_ok [OF array(3) ok] by simp
    next
      case True
      then obtain k where k: "Atoi seg = Some k" "0 \<le> k" "k < int (length vs)" by blast
      then have "vs ! nat k \<in> set vs" by (simp add: nat_less_iff)
      then have "validateValueWithoutEnum i (vs ! nat k) = None" using p array(1,2) by (auto simp: v first_error_all_None)
      then show ?thesis using ih k by (simp add: v)
    qed
  qed
qed

section \<open>Comparison of types\<close>

lemma sameType_sound:
  assumes "sameType a b = None" and "has_type b v" and "schema_ok b"
  shows "has_type a v"
  using assms
proof (induction a b arbitrary: v rule: sameType.induct)
  case (1 ty properties required additional items dflt enum format right)
  let ?l = "Schema ty properties required additional items dflt enum format"
  note p = "1.prems"(1) [unfolded sameType.simps [of ty properties required additional items dflt enum format right]]
  have ty: "sch_Type right = ty" "sch_Format right = format" using p by (auto split: if_splits)
  show ?case
  proof (cases ty)
    case TypeObject
    then obtain kvs where v: "v = GMap kvs" using "1.prems"(2) ty by (cases v) (auto simp: has_type.simps [of right])
    have f: "length required = length (sch_Required right)" "set (sch_Required right) \<subseteq> set required"
      using p TypeObject ty by (auto split: if_splits)
    have "set required = set (sch_Required right)"
      using f schema_ok_sel(1) [OF "1.prems"(3)] by (metis List.finite_set card_length card_subset_eq distinct_card le_antisym card_mono)
    then have r: "\<forall>n \<in> set required. map_of kvs n \<noteq> None"
      using "1.prems"(2) TypeObject ty by (simp add: has_type.simps [of right] v)
    have "has_type q (snd kv)" if "kv \<in> set kvs" "map_of properties (fst kv) = Some q" for kv q
    proof -
      have m: "(fst kv, q) \<in> set properties" using that(2) by (rule map_of_SomeD)
      then obtain q' where q': "map_of (sch_Properties right) (fst kv) = Some q'" "sameType q q' = None"
        using p TypeObject ty by (force simp: first_error_all_None split: if_splits option.splits)
      have "has_type q' (snd kv)" using "1.prems"(2) TypeObject ty that(1) q'(1) by (auto simp: has_type.simps [of right] v)
      then show ?thesis
        using "1.IH"(2) [of "(fst kv, q)" q' "snd kv"] q' m TypeObject ty schema_ok_sel(3) [OF "1.prems"(3) q'(1)] by simp
    qed
    then show ?thesis using r TypeObject by (subst has_type.simps) (auto simp: v split: option.splits)
  next
    case TypeArray
    then obtain l r where i: "items = Some l" "sch_Items right = Some r" "sameType l r = None" using p ty by (auto split: option.splits)
    obtain vs where v: "v = GList vs" "\<forall>w \<in> set vs. has_type r w" using "1.prems"(2) TypeArray ty i by (cases v) (auto simp: has_type.simps [of right])
    have "has_type l w" if "w \<in> set vs" for w
      using "1.IH"(1) [of l r w] TypeArray ty i v(2) that schema_ok_sel(4) [OF "1.prems"(3) i(2)] by simp
    then show ?thesis using TypeArray i by (subst has_type.simps) (simp add: v)
  qed (use "1.prems"(2) ty in \<open>simp_all add: has_type_scalar\<close>)
qed

lemma sameType_heads: "sameType a b = None \<Longrightarrow> sch_Type b = sch_Type a \<and> sch_Format b = sch_Format a"
  by (cases a) (auto simp: sameType.simps split: if_splits)

lemma assignable_types:
  "assignable a b = None \<Longrightarrow> sch_Format a = sch_Format b \<and> (sch_Type a = sch_Type b \<or> sch_Type a = TypeInteger \<and> sch_Type b = TypeNumber)"
  by (cases a) (auto simp: assignable.simps)

section \<open>Literals\<close>

text \<open>Every number in the value is one that \<^verbatim>\<open>big.Rat\<close> reads.\<close>

fun rational_numbers :: "json \<Rightarrow> bool" where
  "rational_numbers (JNum t) \<longleftrightarrow> number_rat t \<noteq> None"
| "rational_numbers (JArr vs) \<longleftrightarrow> list_all rational_numbers vs"
| "rational_numbers (JObj kvs) \<longleftrightarrow> list_all (\<lambda>kv. rational_numbers (snd kv)) kvs"
| "rational_numbers v \<longleftrightarrow> True"

lemma infer_members_names: "infer_members kvs = Inr ps \<Longrightarrow> map fst ps = map fst kvs"
  by (induction kvs arbitrary: ps) (auto split: prod.splits)

lemma object_type:
  assumes "map fst ps = map fst kvs" and "list_all2 (\<lambda>p kv. has_type (snd p) (snd kv)) ps kvs" and "distinct (map fst kvs)"
  shows "has_type (object_schema ps) (GMap kvs)"
proof -
  have "has_type p (snd kv)" if kv: "kv \<in> set kvs" and p: "map_of ps (fst kv) = Some p" for kv p
  proof -
    obtain j where j: "j < length kvs" "kvs ! j = kv" using kv by (auto simp: in_set_conv_nth)
    have len: "length ps = length kvs" using assms(1) by (metis length_map)
    have "fst (ps ! j) = fst kv" using assms(1) j len by (metis nth_map)
    moreover have "distinct (map fst ps)" using assms(1,3) by simp
    ultimately have "map_of ps (fst kv) = Some (snd (ps ! j))" using j len by (metis map_of_is_SomeI nth_mem prod.collapse)
    then show ?thesis using p list_all2_nthD2 [OF assms(2) j(1)] j(2) by simp
  qed
  moreover have "\<forall>n \<in> set (map fst ps). map_of kvs n \<noteq> None" using assms(1) by (simp add: map_of_eq_None_iff)
  ultimately show ?thesis by (subst has_type.simps) (auto simp: object_schema_def split: option.splits)
qed

lemma array_type: "\<forall>w \<in> set vs. has_type s w \<Longrightarrow> has_type (array_schema s) (GList vs)"
  by (subst has_type.simps) (simp add: array_schema_def)

lemma literal_type:
  "json_wf l v \<Longrightarrow> rational_numbers v \<Longrightarrow> inferLiteral v = Inr s \<Longrightarrow> schema_ok s \<and> has_type s (of_json v)"
  "list_all (json_wf l) vs \<Longrightarrow> list_all rational_numbers vs \<Longrightarrow> schema_ok item \<Longrightarrow> infer_items item vs = Inr s \<Longrightarrow> s = array_schema item \<and> (\<forall>v \<in> set vs. has_type item (of_json v))"
  "list_all (\<lambda>kv. json_wf l (snd kv)) kvs \<Longrightarrow> list_all (\<lambda>kv. rational_numbers (snd kv)) kvs \<Longrightarrow> infer_members kvs = Inr ps \<Longrightarrow>
     (\<forall>p \<in> set ps. schema_ok (snd p)) \<and> list_all2 (\<lambda>p kv. has_type (snd p) (of_json (snd kv))) ps kvs"
proof (induction v and item vs and kvs arbitrary: s and s and ps rule: inferLiteral_infer_items_infer_members.induct)
  case (4 t)
  have "number_rat t \<noteq> None" using "4.prems" by simp
  then show ?case using 4 by (auto simp: number_schema_def type_schema_ok has_type_scalar number_def type_schema_def)
next
  case (6 v vs)
  then obtain item where i: "inferLiteral v = Inr item" "infer_items item vs = Inr s" by auto
  then have v: "schema_ok item \<and> has_type item (of_json v)" using 6 by simp
  then have "s = array_schema item \<and> (\<forall>w \<in> set vs. has_type item (of_json w))" using 6 i by simp
  then show ?case using v array_schema_ok array_type [of "map of_json (v # vs)" item] by simp
next
  case (7 kvs)
  then obtain ps where ps: "infer_members kvs = Inr ps" "s = object_schema ps" by auto
  have "\<forall>p \<in> set ps. schema_ok (snd p)" "list_all2 (\<lambda>p kv. has_type (snd p) (of_json (snd kv))) ps kvs"
    using 7 ps by (auto simp: list_all_iff)
  moreover have d: "distinct (map fst kvs)" using "7.prems"(1) by simp
  moreover note infer_members_names [OF ps(1)]
  ultimately show ?case
    using object_schema_ok [of ps] object_type [of ps "map (\<lambda>kv. (fst kv, of_json (snd kv))) kvs"] ps(2)
    by (simp add: list_all2_map2 comp_def)
next
  case (9 item v vs)
  then obtain cur where "inferLiteral v = Inr cur" "sameType item cur = None" "infer_items item vs = Inr s" by auto
  then show ?case using 9 sameType_sound by auto
next
  case (11 n v kvs)
  then show ?case by fastforce
qed (auto simp: type_schema_ok has_type_scalar type_schema_def)

section \<open>Operations\<close>

text \<open>What may still go wrong at run time after a successful check.\<close>

definition run_time_failures :: "error set" where
  "run_time_failures = {Errorf ''operator argument is missing'', Errorf ''array item is missing'', Errorf ''object member is missing'',
     Errorf ''division by zero'', Errorf ''numeric result has no finite decimal representation'', Errorf ''numeric result exceeds decimal scale limit'',
     Errorf ''reference has no node output value'', Errorf ''reference has no valid secret handle''}"

definition yields :: "(gval \<Rightarrow> bool) \<Rightarrow> gval result \<Rightarrow> bool" where
  "yields P r = (case r of Inr v \<Rightarrow> P v | Inl e \<Rightarrow> e \<in> run_time_failures)"

lemma yields_simps [simp]: "yields P (Inr v) = P v" "yields P (Inl e) = (e \<in> run_time_failures)"
  by (simp_all add: yields_def)

lemma IsInt_iff: "IsInt r \<longleftrightarrow> (\<exists>z. r = of_int z)"
proof
  assume "IsInt r"
  then obtain n where "quotient_of r = (n, 1)" by (cases "quotient_of r") (auto simp: IsInt_def)
  then have "r = of_int n / of_int 1" by (rule quotient_of_div)
  then show "\<exists>z. r = of_int z" by auto
next
  assume "\<exists>z. r = of_int z"
  then show "IsInt r" by (auto simp: IsInt_def)
qed

lemma length_type: "sch_Type s = TypeInteger \<Longrightarrow> has_type s (length_number n)"
proof -
  assume s: "sch_Type s = TypeInteger"
  have p: "place_point (decimal_nat n) 0 = decimal_nat n" by (simp add: place_point_def)
  have "number_rat (decimal_nat n) = Some (of_nat n)"
    using place_point_value [of 0 n] number_rat_plain(1) [of "decimal_nat n"] unfolding p by (auto simp: maxRatExponent_def)
  moreover have "IsInt (of_nat n)" unfolding IsInt_iff by (metis of_int_of_nat_eq)
  ultimately show ?thesis using s by (simp add: has_type_scalar length_number_def number_def)
qed

lemma booleans:
  assumes "\<forall>v \<in> set vs. \<exists>b. v = GBool b"
  shows "\<exists>b. eval_and vs = Inr b" and "\<exists>b. eval_or vs = Inr b"
proof -
  have "(\<exists>b. eval_and vs = Inr b) \<and> (\<exists>b. eval_or vs = Inr b)"
    using assms
  proof (induction vs)
    case (Cons v vs)
    obtain b where "v = GBool b" using Cons.prems by auto
    then show ?case using Cons by (cases b) (simp_all add: as_bool_def)
  qed auto
  then show "\<exists>b. eval_and vs = Inr b" and "\<exists>b. eval_or vs = Inr b" by simp_all
qed

lemma strings: "\<forall>v \<in> set vs. \<exists>t. v = GStr t \<Longrightarrow> \<exists>t. eval_concat vs = Inr t"
  by (induction vs) (auto simp: as_string_def)

lemma equal_defined: "(number x = None) = (number y = None) \<Longrightarrow> \<exists>b. equalValues x y = Inr b"
  by (auto simp: equalValues_def split: option.splits)

lemma member_defined: "\<forall>v \<in> set vs. (number v = None) = (number x = None) \<Longrightarrow> \<exists>b. eval_member x vs = Inr b"
proof (induction vs)
  case (Cons v vs)
  obtain b where "equalValues v x = Inr b" using equal_defined [of v x] Cons.prems by auto
  then show ?case using Cons by (cases b) auto
qed auto

lemma numeric_typed:
  assumes "schema_ok s" and "has_type s v"
  shows "number v = None \<longleftrightarrow> \<not> numeric_type (sch_Type s)"
proof (cases "sch_Type s")
  case TypeObject
  then show ?thesis using has_type_compound(1) [OF TypeObject assms(2)] by (auto simp: numeric_type_def number_def)
next
  case TypeArray
  then show ?thesis using has_type_compound(2) [OF TypeArray assms(2)] by (auto simp: numeric_type_def number_def)
qed (use assms(2) in \<open>auto simp: has_type_scalar numeric_type_def number_def\<close>)

lemma comparable_numeric: "sameComparableType a b = None \<Longrightarrow> numeric_type (sch_Type a) = numeric_type (sch_Type b)"
  using sameType_heads [of a b] by (auto simp: sameComparableType_def split: if_splits)

lemma arithmetic_sound:
  assumes "numeric_type (sch_Type a)" and "numeric_type (sch_Type b)" and "has_type a x" and "has_type b y"
    and "sch_Type s = (if name \<noteq> ''div'' \<and> sch_Type a = TypeInteger \<and> sch_Type b = TypeInteger then TypeInteger else TypeNumber)"
    and "name \<in> {''add'', ''sub'', ''mul'', ''div''}"
  shows "yields (has_type s) (eval_arithmetic name x y)"
proof -
  obtain p q where n: "number x = Some p" "number y = Some q" "sch_Type a = TypeInteger \<longrightarrow> IsInt p" "sch_Type b = TypeInteger \<longrightarrow> IsInt q"
    using assms(1-4) by (auto simp: numeric_type_def has_type_scalar)
  show ?thesis
  proof (cases "arithmetic name p q")
    case (Inl e)
    then show ?thesis by (auto simp: eval_arithmetic_def n arithmetic_def run_time_failures_def split: if_splits)
  next
    case (Inr r)
    have i: "sch_Type s = TypeInteger \<Longrightarrow> IsInt r"
    proof -
      assume "sch_Type s = TypeInteger"
      then have "name \<noteq> ''div''" "IsInt p" "IsInt q" using assms(5) n by (auto split: if_splits)
      then show "IsInt r"
        using Inr assms(6) unfolding IsInt_iff by (auto simp: arithmetic_def) (metis of_int_add of_int_diff of_int_mult)+
    qed
    show ?thesis
    proof (cases "terminatingDecimal r DefaultMaxExponent")
      case d: (Inl e)
      then have "e \<in> run_time_failures" by (auto simp: terminatingDecimal_def run_time_failures_def Let_def split: prod.splits if_splits)
      then show ?thesis using Inr d by (simp add: eval_arithmetic_def n)
    next
      case d: (Inr t)
      then have "number (GNum t) = Some r" using decimal_exact [OF default_scale, of r] by (simp add: number_def)
      then have "has_type s (GNum t)" using i assms(5) by (auto simp: has_type_scalar split: if_splits)
      then show ?thesis using Inr d by (simp add: eval_arithmetic_def n)
    qed
  qed
qed

lemma two_arguments:
  assumes "requireCount 2 (Some 2) ss = None" and "list_all2 has_type ss vs"
  obtains a b x y where "ss = [a, b]" "vs = [x, y]" "has_type a x" "has_type b y"
proof -
  have "length ss = 2" using assms(1) by (auto simp: requireCount_def)
  then obtain a b where "ss = [a, b]" by (auto simp: numeral_2_eq_2 length_Suc_conv)
  moreover from this obtain x y where "vs = [x, y]" "has_type a x" "has_type b y" using assms(2) by (auto simp: list_all2_Cons1)
  ultimately show thesis by (rule that)
qed

lemma one_argument:
  assumes "requireCount 1 (Some 1) ss = None" and "list_all2 has_type ss vs"
  obtains a x where "ss = [a]" "vs = [x]" "has_type a x"
proof -
  have "length ss = 1" using assms(1) by (cases ss) (auto simp: requireCount_def)
  then obtain a where "ss = [a]" by (auto simp: length_Suc_conv)
  moreover from this obtain x where "vs = [x]" "has_type a x" using assms(2) by (auto simp: list_all2_Cons1)
  ultimately show thesis by (rule that)
qed

lemma all_typed:
  assumes "requireAll [t] ss = None" and "list_all2 has_type ss vs"
  shows "\<forall>v \<in> set vs. \<exists>s. sch_Type s = t \<and> has_type s v"
  using assms(2,1) by (induction rule: list_all2_induct) (auto simp: requireAll_def)

lemma boolean_type: "has_type boolean_schema (GBool b)" "schema_ok boolean_schema"
  by (simp_all add: boolean_schema_def type_schema_ok has_type_scalar type_schema_def)

lemma compare_sound:
  assumes "has_type a x" and "has_type b y" and "requireAll [TypeString, TypeNumber, TypeInteger] [a, b] = None" and "sameComparableType a b = None"
  shows "\<exists>c. compareValues x y = Inr c"
proof (cases "numeric_type (sch_Type a)")
  case True
  then obtain p q where "number x = Some p" "number y = Some q"
    using assms(1,2) comparable_numeric [OF assms(4)] by (auto simp: numeric_type_def has_type_scalar)
  then show ?thesis by (simp add: compareValues_def)
next
  case False
  then have "sch_Type a = TypeString" "sch_Type b = TypeString"
    using assms(3) comparable_numeric [OF assms(4)] by (auto simp: requireAll_def numeric_type_def)
  then obtain t u where "x = GStr t" "y = GStr u" using assms(1,2) by (auto simp: has_type_scalar)
  then show ?thesis by (simp add: compareValues_def number_def)
qed

lemma contains_sound:
  assumes "contains_type [a, b] = Inr s" and "has_type a x" and "has_type b y" and "schema_ok a" and "schema_ok b"
  shows "s = boolean_schema \<and> (\<exists>c. eval_contains x y = Inr (GBool c))"
proof (cases "sch_Type a = TypeString")
  case True
  then have "sch_Type b = TypeString" "s = boolean_schema" using assms(1) by (auto simp: contains_type_def split: if_splits)
  moreover from this obtain t u where "x = GStr t" "y = GStr u" using assms(2,3) True by (auto simp: has_type_scalar)
  ultimately show ?thesis by (simp add: eval_contains_def as_string_def)
next
  case False
  then have a: "sch_Type a = TypeArray" using assms(1) by (auto simp: contains_type_def split: if_splits)
  obtain i where i: "sch_Items a = Some i" "schema_ok i" using schema_ok_sel(2) [OF assms(4) a] by blast
  have s: "assignable b i = None" "s = boolean_schema" using assms(1) a i by (auto simp: contains_type_def split: if_splits)
  obtain vs where vs: "x = GList vs" "\<forall>w \<in> set vs. has_type i w" using has_type_compound(2) [OF a assms(2)] i by blast
  have "numeric_type (sch_Type b) = numeric_type (sch_Type i)" using assignable_types [OF s(1)] by (auto simp: numeric_type_def)
  then have "\<forall>w \<in> set vs. (number w = None) = (number y = None)"
    using vs(2) numeric_typed [OF i(2)] numeric_typed [OF assms(5,3)] by simp
  then obtain c where "eval_member y vs = Inr c" using member_defined by blast
  then show ?thesis using s(2) by (simp add: eval_contains_def vs(1))
qed

lemma operation_sound:
  assumes "operation_type name ss = Inr s" and "list_all2 has_type ss vs" and "\<forall>x \<in> set ss. schema_ok x" and "name \<noteq> ''coalesce''"
  shows "schema_ok s \<and> yields (has_type s) (evaluateOperation name vs)"
proof -
  consider (logic) "name = ''and'' \<or> name = ''or''" | (not) "name = ''not''" | (eq) "name = ''eq'' \<or> name = ''ne''"
    | (order) "name \<in> {''lt'', ''lte'', ''gt'', ''gte''}" | (arith) "name \<in> {''add'', ''sub'', ''mul'', ''div''}"
    | (concat) "name = ''concat''" | (length) "name = ''length''" | (contains) "name = ''contains''"
    using assms(1,4) by (auto simp: operation_type_def split: if_splits)
  then show ?thesis
  proof cases
    case logic
    then have r: "requireAll [TypeBoolean] ss = None" "s = boolean_schema" using assms(1) by (auto simp: operation_type_def)
    have "\<forall>v \<in> set vs. \<exists>b. v = GBool b" using all_typed [OF r(1) assms(2)] by (auto simp: has_type_scalar)
    then obtain p q where "eval_and vs = Inr p" "eval_or vs = Inr q" using booleans [of vs] by blast
    then show ?thesis using logic by (elim disjE) (simp_all add: evaluateOperation_def r(2) boolean_type)
  next
    case not
    then have c: "requireCount 1 (Some 1) ss = None" "requireAll [TypeBoolean] ss = None" "s = boolean_schema"
      using assms(1) by (auto simp: operation_type_def)
    obtain a x where "ss = [a]" "vs = [x]" "has_type a x" by (rule one_argument [OF c(1) assms(2)])
    moreover from this obtain b where "x = GBool b" using c(2) by (auto simp: requireAll_def has_type_scalar)
    ultimately show ?thesis using not by (simp add: evaluateOperation_def argument_def as_bool_def c(3) boolean_type)
  next
    case eq
    then have c: "requireCount 2 (Some 2) ss = None" "sameComparableType (ss ! 0) (ss ! 1) = None" "s = boolean_schema"
      using assms(1) by (auto simp: operation_type_def)
    obtain a b x y where t: "ss = [a, b]" "vs = [x, y]" "has_type a x" "has_type b y" by (rule two_arguments [OF c(1) assms(2)])
    have "(number x = None) = (number y = None)"
      using numeric_typed [OF _ t(3)] numeric_typed [OF _ t(4)] assms(3) comparable_numeric [of a b] c(2) by (simp add: t(1))
    then obtain e where "equalValues x y = Inr e" using equal_defined [of x y] by auto
    then show ?thesis using eq by (elim disjE) (simp_all add: evaluateOperation_def binary_def argument_def c(3) t(2) boolean_type)
  next
    case order
    then have c: "requireCount 2 (Some 2) ss = None" "requireAll [TypeString, TypeNumber, TypeInteger] ss = None"
        "sameComparableType (ss ! 0) (ss ! 1) = None" "s = boolean_schema"
      using assms(1) by (auto simp: operation_type_def)
    obtain a b x y where t: "ss = [a, b]" "vs = [x, y]" "has_type a x" "has_type b y" by (rule two_arguments [OF c(1) assms(2)])
    obtain d where "compareValues x y = Inr d" using compare_sound [OF t(3,4)] c(2,3) t(1) by auto
    then show ?thesis using order unfolding insert_iff empty_iff
      by (elim disjE) (simp_all add: evaluateOperation_def binary_def argument_def c(4) t(2) boolean_type)
  next
    case arith
    then have c: "requireCount 2 (Some 2) ss = None" "requireAll [TypeNumber, TypeInteger] ss = None"
        "s = type_schema (if name \<noteq> ''div'' \<and> sch_Type (ss ! 0) = TypeInteger \<and> sch_Type (ss ! 1) = TypeInteger then TypeInteger else TypeNumber)"
      using assms(1) by (auto simp: operation_type_def)
    obtain a b x y where t: "ss = [a, b]" "vs = [x, y]" "has_type a x" "has_type b y" by (rule two_arguments [OF c(1) assms(2)])
    have "numeric_type (sch_Type a)" "numeric_type (sch_Type b)" using c(2) t(1) by (auto simp: requireAll_def numeric_type_def)
    then have "yields (has_type s) (eval_arithmetic name x y)"
      using arithmetic_sound [OF _ _ t(3,4) _ arith, of s] by (simp add: c(3) t(1) type_schema_def)
    then show ?thesis using arith unfolding insert_iff empty_iff
      by (elim disjE) (simp_all add: evaluateOperation_def binary_def argument_def c(3) t(2) type_schema_ok)
  next
    case concat
    then have r: "requireAll [TypeString] ss = None" "s = type_schema TypeString" using assms(1) by (auto simp: operation_type_def)
    have "\<forall>v \<in> set vs. \<exists>t. v = GStr t" using all_typed [OF r(1) assms(2)] by (auto simp: has_type_scalar)
    then obtain t where "eval_concat vs = Inr t" using strings [of vs] by blast
    then show ?thesis using concat by (simp add: evaluateOperation_def r(2) type_schema_ok has_type_scalar) (simp add: type_schema_def has_type_scalar)
  next
    case length
    then have c: "requireCount 1 (Some 1) ss = None" "requireAll [TypeString, TypeArray, TypeObject] ss = None" "s = type_schema TypeInteger"
      using assms(1) by (auto simp: operation_type_def)
    obtain a x where t: "ss = [a]" "vs = [x]" "has_type a x" by (rule one_argument [OF c(1) assms(2)])
    have "\<exists>n. eval_length x = Inr (length_number n)"
      using c(2) t(1,3) has_type_compound [of a x] by (auto simp: requireAll_def eval_length_def has_type_scalar) (blast intro: refl)+
    then obtain n where "eval_length x = Inr (length_number n)" by blast
    moreover have "has_type s (length_number n)" by (rule length_type) (simp add: c(3) type_schema_def)
    ultimately show ?thesis using length by (simp add: evaluateOperation_def argument_def t(2)) (simp add: c(3) type_schema_ok)
  next
    case contains
    then have c: "requireCount 2 (Some 2) ss = None" "contains_type ss = Inr s" using assms(1) by (auto simp: operation_type_def)
    obtain a b x y where t: "ss = [a, b]" "vs = [x, y]" "has_type a x" "has_type b y" by (rule two_arguments [OF c(1) assms(2)])
    show ?thesis
      using contains_sound [OF c(2) [unfolded t(1)] t(3,4)] assms(3) contains t by (auto simp: evaluateOperation_def binary_def argument_def boolean_type)
  qed
qed

section \<open>Certain expressions\<close>

text \<open>
  A reference may be absent and an alternative of \<^verbatim>\<open>coalesce\<close> may be null; the other expressions
  give a value whenever they give anything. \<open>definite\<close> demands that every \<^verbatim>\<open>coalesce\<close> has an
  alternative of that kind.
\<close>

fun certain :: "ValueExpr \<Rightarrow> bool" where
  "certain (ValueExpr literal ref op args members elements) \<longleftrightarrow>
     (case literal of Some raw \<Rightarrow> Decode raw DefaultLimits \<noteq> Inr JNull
      | None \<Rightarrow> ref = [] \<and> (op = ''coalesce'' \<longrightarrow> (case args of None \<Rightarrow> False | Some as \<Rightarrow> list_ex certain as)))"

fun definite :: "ValueExpr \<Rightarrow> bool" where
  "definite (ValueExpr literal ref op args members elements) \<longleftrightarrow>
     (op = ''coalesce'' \<longrightarrow> (case args of None \<Rightarrow> False | Some as \<Rightarrow> list_ex certain as)) \<and>
     (case args of None \<Rightarrow> True | Some as \<Rightarrow> list_all definite as) \<and>
     (case members of None \<Rightarrow> True | Some ms \<Rightarrow> list_all (\<lambda>m. definite (snd m)) ms) \<and>
     (case elements of None \<Rightarrow> True | Some xs \<Rightarrow> list_all definite xs)"

text \<open>
  Some \<^verbatim>\<open>coalesce\<close> of the expression has no alternative with a value: it evaluates to nil, whatever
  its checked type is.
\<close>

fun nil_coalesce :: "Values \<Rightarrow> ValueExpr \<Rightarrow> bool" where
  "nil_coalesce vals (ValueExpr literal ref op args members elements) \<longleftrightarrow>
     (op = ''coalesce'' \<and> eval_coalesce vals (case args of None \<Rightarrow> [] | Some as \<Rightarrow> as) = Inr GNil) \<or>
     (case args of None \<Rightarrow> False | Some as \<Rightarrow> list_ex (nil_coalesce vals) as) \<or>
     (case members of None \<Rightarrow> False | Some ms \<Rightarrow> list_ex (\<lambda>m. nil_coalesce vals (snd m)) ms) \<or>
     (case elements of None \<Rightarrow> False | Some xs \<Rightarrow> list_ex (nil_coalesce vals) xs)"

text \<open>
  An object constructor is a Go map, so its names are distinct; the numbers of literals are within
  the range of \<^verbatim>\<open>big.Rat\<close>.
\<close>

fun expr_wf :: "ValueExpr \<Rightarrow> bool" where
  "expr_wf (ValueExpr literal ref op args members elements) \<longleftrightarrow>
     (case literal of None \<Rightarrow> True | Some raw \<Rightarrow> (case Decode raw DefaultLimits of Inl _ \<Rightarrow> True | Inr v \<Rightarrow> rational_numbers v)) \<and>
     (case args of None \<Rightarrow> True | Some as \<Rightarrow> list_all expr_wf as) \<and>
     (case members of None \<Rightarrow> True | Some ms \<Rightarrow> distinct (map fst ms) \<and> list_all (\<lambda>m. expr_wf (snd m)) ms) \<and>
     (case elements of None \<Rightarrow> True | Some xs \<Rightarrow> list_all expr_wf xs)"

definition is_value :: "gval \<Rightarrow> bool" where "is_value v \<longleftrightarrow> v \<noteq> GNil \<and> v \<noteq> GMissing"

definition results :: "('a \<Rightarrow> bool) \<Rightarrow> 'a result \<Rightarrow> bool" where
  "results P r \<longleftrightarrow> (\<forall>v. r = Inr v \<longrightarrow> P v)"

lemma results_intros:
  "results P (Inl e)" "P v \<Longrightarrow> results P (Inr v)"
  "(\<And>x. results P (f x)) \<Longrightarrow> results P (andThen q f)"
  "results P r \<Longrightarrow> results P (ensure err r)"
  "(c \<Longrightarrow> results P r) \<Longrightarrow> (\<not> c \<Longrightarrow> results P r') \<Longrightarrow> results P (if c then r else r')"
  by (cases q; cases err; simp add: results_def)+

lemma scalar_values: "is_value (GBool b)" "is_value (GStr t)" "is_value (GNum t)" "is_value (length_number n)"
  by (simp_all add: is_value_def length_number_def)

lemma arithmetic_values: "results is_value (eval_arithmetic name x y)"
  by (auto simp: eval_arithmetic_def scalar_values intro!: results_intros split: option.splits)

lemma length_values: "results is_value (eval_length x)"
  by (auto simp: eval_length_def scalar_values intro!: results_intros split: gval.splits)

lemma contains_values: "results is_value (eval_contains x y)"
  by (auto simp: eval_contains_def scalar_values intro!: results_intros split: gval.splits)

lemma operation_values: "name \<noteq> ''coalesce'' \<Longrightarrow> results is_value (evaluateOperation name vs)"
  unfolding evaluateOperation_def binary_def
  by (intro results_intros arithmetic_values length_values contains_values scalar_values; simp)

lemma operation_is_value: "evaluateOperation name vs = Inr v \<Longrightarrow> name \<noteq> ''coalesce'' \<Longrightarrow> is_value v"
  using operation_values [of name vs] by (simp add: results_def)

lemma json_is_value: "v \<noteq> JNull \<Longrightarrow> is_value (of_json v)"
  by (cases v) (auto simp: is_value_def)

lemma certain_value:
  "certain e \<Longrightarrow> eval_expr vals e = Inr v \<Longrightarrow> is_value v"
  "list_ex certain es \<Longrightarrow> eval_coalesce vals es = Inr v \<Longrightarrow> is_value v"
  "True"
  "True"
proof (induction vals e and vals es and vals "err :: error" "es' :: ValueExpr list"
    and vals "ms :: (string \<times> ValueExpr) list" arbitrary: v and v rule: eval_expr_eval_coalesce_eval_list_eval_members.induct)
  case (1 vals literal ref op args members elements)
  show ?case
  proof (cases literal)
    case (Some raw)
    then show ?thesis using "1.prems" json_is_value by (auto simp: eval_expr.simps andThen_Inr)
  next
    case None
    then have r: "ref = []" using "1.prems"(1) by simp
    show ?thesis
    proof (cases "op = ''coalesce''")
      case True
      then obtain as where as: "args = Some as" "list_ex certain as" using "1.prems"(1) None by (auto split: option.splits)
      then show ?thesis using "1.IH"(1) "1.prems"(2) True None r by (simp add: eval_expr.simps)
    next
      case False
      then show ?thesis using "1.prems"(2) None r operation_is_value
        by (auto simp: eval_expr.simps andThen_Inr is_value_def split: if_splits option.splits)
    qed
  qed
next
  case (3 vals x xs)
  then obtain w where w: "eval_expr vals x = Inr w" by (auto simp: andThen_Inr)
  show ?case
  proof (cases "is_value w")
    case True
    then show ?thesis using "3.prems"(2) w by (simp add: is_value_def)
  next
    case False
    then have c: "eval_coalesce vals xs = Inr v" using "3.prems"(2) w by (auto simp: is_value_def)
    have l: "list_ex certain xs" using "3.prems"(1) "3.IH"(1) [OF _ w] False by auto
    show ?thesis by (rule "3.IH"(2) [OF disjI1 [OF refl] l c])
  qed
qed auto

section \<open>Soundness\<close>

definition typed_value :: "Schema \<Rightarrow> gval \<Rightarrow> bool" where
  "typed_value s v \<longleftrightarrow> v = GMissing \<or> has_type s v \<or> is_secret s \<and> (\<exists>h. v = GSecret h \<and> SecretHandle_Valid h)"

definition checked :: "Values \<Rightarrow> Schema \<Rightarrow> ValueExpr \<Rightarrow> bool" where
  "checked vals s e \<longleftrightarrow> schema_ok s \<and> yields (typed_value s) (eval_expr vals e)"

definition public :: "Values \<Rightarrow> Schema \<Rightarrow> ValueExpr \<Rightarrow> bool" where
  "public vals s e \<longleftrightarrow> \<not> is_secret s \<and> checked vals s e"

lemma public_cases:
  assumes "public vals s e"
  obtains (failure) err where "eval_expr vals e = Inl err" "err \<in> run_time_failures"
    | (absent) "eval_expr vals e = Inr GMissing"
    | (typed) v where "eval_expr vals e = Inr v" "v \<noteq> GMissing" "has_type s v"
proof (cases "eval_expr vals e")
  case (Inl err)
  then show thesis using assms failure by (simp add: public_def checked_def)
next
  case (Inr v)
  then have "v = GMissing \<or> has_type s v" using assms by (auto simp: public_def checked_def typed_value_def)
  then show thesis using Inr absent typed by blast
qed

lemma list_typed:
  assumes "list_all2 (public vals) ss es" and "err \<in> run_time_failures"
  shows "case eval_list vals err es of Inr vs \<Rightarrow> list_all2 has_type ss vs | Inl e \<Rightarrow> e \<in> run_time_failures"
  using assms(1)
proof (induction rule: list_all2_induct)
  case (Cons s ss e es)
  from Cons(1) show ?case
    by (cases rule: public_cases) (use Cons.IH assms(2) in \<open>auto simp: present_def andThen_def split: sum.splits\<close>)
qed simp

lemma members_typed:
  assumes "list_all2 (\<lambda>p m. fst p = fst m \<and> public vals (snd p) (snd m)) ps ms"
  shows "case eval_members vals ms of
      Inr kvs \<Rightarrow> list_all2 (\<lambda>p kv. fst p = fst kv \<and> has_type (snd p) (snd kv)) ps kvs | Inl e \<Rightarrow> e \<in> run_time_failures"
  using assms
proof (induction rule: list_all2_induct)
  case (Cons p ps m ms)
  obtain n x where m: "m = (n, x)" by (cases m)
  have "public vals (snd p) x" using Cons(1) m by simp
  then show ?case
    by (cases rule: public_cases) (use Cons m in \<open>auto simp: present_def andThen_def run_time_failures_def split: sum.splits\<close>)
qed simp

lemma coalesce_Some: "coalesce_type (Some a) ss = Inr s \<Longrightarrow> s = a \<and> (\<forall>x \<in> set ss. null_schema x \<or> sameType a x = None)"
  by (induction ss) (auto split: if_splits)

lemma coalesce_None:
  "coalesce_type None ss = Inr s \<Longrightarrow> (s \<in> set ss \<or> s = type_schema TypeNull) \<and> (\<forall>x \<in> set ss. null_schema x \<or> x = s \<or> sameType s x = None)"
proof (induction ss)
  case (Cons a ss)
  then show ?case using coalesce_Some [of a ss s] by (auto split: if_splits)
qed simp

lemma coalesce_typed:
  assumes "list_all2 (public vals) ss es" and "\<forall>x \<in> set ss. null_schema x \<or> x = s \<or> sameType s x = None"
  shows "yields (\<lambda>v. v = GNil \<or> has_type s v) (eval_coalesce vals es)"
  using assms
proof (induction rule: list_all2_induct)
  case (Cons a ss e es)
  have t: "has_type s v" if "has_type a v" "v \<noteq> GNil" for v
    using that Cons(1) Cons.prems sameType_sound [of s a v] has_type_scalar(5) [of a v]
    by (auto simp: null_schema_def public_def checked_def)
  from Cons(1) show ?case
    by (cases rule: public_cases) (use t Cons in auto)
qed simp

lemma secret_not_has_type: "\<not> has_type s (GSecret h)"
  by (cases "sch_Type s") (auto simp: has_type.simps [of s] number_def)

definition outputs_ok :: "Environment \<Rightarrow> bool" where
  "outputs_ok env \<longleftrightarrow> (\<forall>kv \<in> set (en_NodeOutputs env). validateDefinition (snd kv) = None)"

lemma ValidateValue_None: "ValidateValue s v = None \<Longrightarrow> schema_ok s \<and> validateValueWithoutEnum s v = None"
  using validateDefinition_ok by (auto simp: ValidateValue_def validateValue_def)

lemma resolved_yields:
  assumes "ValidateValue s v = None" and "Schema_Resolve s segs = Inr t"
  shows "schema_ok t \<and> yields (typed_value t) (resolveValue v segs)"
  using resolved_type [OF assms(2), of v] ValidateValue_None [OF assms(1)] by (auto simp: typed_value_def)

lemma reference_sound:
  assumes "check_reference env ref = Inr s" and "validateValues env vals = None" and "outputs_ok env"
  shows "schema_ok s \<and> yields (typed_value s) (eval_reference vals ref)"
proof -
  define segs where "segs = split_dots ref"
  note c = assms(1) [unfolded check_reference_def Let_def, folded segs_def]
  have v: "ValidateValue (en_Inputs env) (JObj (va_Inputs vals)) = None" "ValidateValue (en_Trigger env) (JObj (va_Trigger vals)) = None"
      "ValidateValue (en_Scope env) (JObj (va_Scope vals)) = None"
    using assms(2) by (simp_all add: validateValues_def)
  have len: "2 \<le> length segs" using c by (auto split: if_splits)
  consider (inputs) "hd segs = ''inputs''" "Schema_Resolve (en_Inputs env) (tl segs) = Inr s"
    | (trigger) "hd segs = ''trigger''" "Schema_Resolve (en_Trigger env) (tl segs) = Inr s"
    | (scope) "hd segs = ''scope''" "Schema_Resolve (en_Scope env) (tl segs) = Inr s"
    | (iteration) i where "hd segs = ''iteration''" "en_Iteration env = Some i" "Schema_Resolve i (tl segs) = Inr s"
    | (nodes) "hd segs = ''nodes''" "check_node_reference env segs = Inr s"
    | (secrets) "hd segs = ''secrets''" "s = secret_schema"
    using c by (auto split: if_splits option.splits)
  then show ?thesis
  proof cases
    case iteration
    have "ValidateValue i (va_Iteration vals) = None" using assms(2) iteration(2) by (simp add: validateValues_def)
    then show ?thesis using resolved_yields [OF _ iteration(3)] iteration(1) by (simp add: eval_reference_def Let_def flip: segs_def)
  next
    case nodes
    obtain t where t: "map_of (en_NodeOutputs env) (segs ! 1) = Some t" "Schema_Resolve t (drop 3 segs) = Inr s"
      using nodes(2) by (auto simp: check_node_reference_def split: if_splits option.splits)
    have "schema_ok t" using assms(3) map_of_SomeD [OF t(1)] validateDefinition_ok by (force simp: outputs_ok_def)
    then have ok: "schema_ok s" by (rule resolve_ok [OF t(2)])
    show ?thesis
    proof (cases "map_of (va_NodeOutputs vals) (segs ! 1)")
      case None
      then show ?thesis using nodes(1) len ok by (simp add: eval_reference_def Let_def run_time_failures_def flip: segs_def)
    next
      case (Some w)
      have "ValidateValue t w = None"
        using assms(2) map_of_SomeD [OF Some] t(1) by (force simp: validateValues_def first_error_all_None)
      then show ?thesis using resolved_yields [OF _ t(2)] Some nodes(1) len by (simp add: eval_reference_def Let_def flip: segs_def)
    qed
  next
    case secrets
    then show ?thesis using len
      by (auto simp: eval_reference_def Let_def typed_value_def run_time_failures_def is_secret_def secret_schema_def split: option.splits simp flip: segs_def)
  qed (use v resolved_yields in \<open>simp_all add: eval_reference_def Let_def flip: segs_def\<close>)
qed

lemma contains_ok: "results schema_ok (contains_type ss)"
  by (auto simp: contains_type_def boolean_type intro!: results_intros split: option.splits)

lemma operation_schemas: "name \<noteq> ''coalesce'' \<Longrightarrow> results schema_ok (operation_type name ss)"
  unfolding operation_type_def
  by (intro results_intros contains_ok boolean_type; simp add: type_schema_ok)

lemma operation_ok: "operation_type op ss = Inr s \<Longrightarrow> op \<noteq> ''coalesce'' \<Longrightarrow> schema_ok s"
  using operation_schemas [of op ss] by (simp add: results_def)

lemma operation_checked:
  assumes "operation_type op ss = Inr s" and "list_all2 (public vals) ss es" and "op \<noteq> []"
    and "op = ''coalesce'' \<Longrightarrow> eval_coalesce vals es \<noteq> Inr GNil"
  shows "checked vals s (ValueExpr None [] op (Some es) None None)"
proof (cases "op = ''coalesce''")
  case True
  then have c: "coalesce_type None ss = Inr s" using assms(1) by (auto simp: operation_type_def)
  have ok: "\<forall>x \<in> set ss. schema_ok x" using assms(2) by (auto simp: list_all2_conv_all_nth in_set_conv_nth public_def checked_def)
  have "schema_ok s" using coalesce_None [OF c] ok by (auto simp: type_schema_ok)
  moreover have "yields (typed_value s) (eval_coalesce vals es)"
    using coalesce_typed [OF assms(2)] coalesce_None [OF c] assms(4) [OF True]
    by (cases "eval_coalesce vals es") (auto simp: typed_value_def)
  ultimately show ?thesis using True by (simp add: checked_def eval_expr.simps)
next
  case False
  have ok: "\<forall>x \<in> set ss. schema_ok x" using assms(2) by (auto simp: list_all2_conv_all_nth in_set_conv_nth public_def checked_def)
  let ?e = "Errorf ''operator argument is missing''"
  have l: "case eval_list vals ?e es of Inr vs \<Rightarrow> list_all2 has_type ss vs | Inl e \<Rightarrow> e \<in> run_time_failures"
    by (rule list_typed [OF assms(2)]) (simp add: run_time_failures_def)
  have r: "list_all2 has_type ss vs \<Longrightarrow> yields (has_type s) (evaluateOperation op vs)" for vs
    using operation_sound [OF assms(1) _ ok False] by blast
  have "yields (typed_value s) (andThen (eval_list vals ?e es) (evaluateOperation op))"
  proof (cases "eval_list vals ?e es")
    case (Inr vs)
    then have "yields (has_type s) (evaluateOperation op vs)" using l r by simp
    then show ?thesis using Inr by (cases "evaluateOperation op vs") (simp_all add: typed_value_def)
  qed (use l in simp)
  then show ?thesis using operation_ok [OF assms(1) False] assms(3) False by (simp add: checked_def eval_expr.simps)
qed


lemma object_checked:
  assumes "list_all2 (\<lambda>p m. fst p = fst m \<and> public vals (snd p) (snd m)) ps ms" and "distinct (map fst ms)"
  shows "checked vals (object_schema ps) (ValueExpr None [] [] None (Some ms) None)"
proof -
  have names: "map fst ps = map fst ms" using assms(1) by (induction rule: list_all2_induct) auto
  have "\<forall>p \<in> set ps. schema_ok (snd p)" using assms(1) by (induction rule: list_all2_induct) (auto simp: public_def checked_def)
  then have ok: "schema_ok (object_schema ps)" using names assms(2) by (intro object_schema_ok) auto
  show ?thesis
  proof (cases "eval_members vals ms")
    case (Inl e)
    then show ?thesis using members_typed [OF assms(1)] ok by (simp add: checked_def eval_expr.simps)
  next
    case (Inr kvs)
    then have t: "list_all2 (\<lambda>p kv. fst p = fst kv \<and> has_type (snd p) (snd kv)) ps kvs" using members_typed [OF assms(1)] by simp
    then have "map fst ps = map fst kvs" by (induction rule: list_all2_induct) auto
    moreover have "list_all2 (\<lambda>p kv. has_type (snd p) (snd kv)) ps kvs" using t by (rule list_all2_mono) simp
    ultimately have "has_type (object_schema ps) (GMap kvs)" using object_type [of ps kvs] names assms(2) by simp
    then show ?thesis using ok Inr by (simp add: checked_def eval_expr.simps typed_value_def)
  qed
qed

lemma list_all2_replicate: "(\<And>x. x \<in> set xs \<Longrightarrow> P s x) \<Longrightarrow> list_all2 P (replicate (length xs) s) xs"
  by (induction xs) auto

lemma list_all2_replicateD: "list_all2 P (replicate n s) vs \<Longrightarrow> \<forall>w \<in> set vs. P s w"
  by (induction n arbitrary: vs) (auto simp: list_all2_Cons1)

lemma array_checked:
  assumes "public vals s x" and "\<forall>e \<in> set xs. \<exists>t. sameType s t = None \<and> checked vals t e"
  shows "checked vals (array_schema s) (ValueExpr None [] [] None None (Some (x # xs)))"
proof -
  have "public vals s e" if e: "e \<in> set (x # xs)" for e
  proof (cases "e = x")
    case False
    then obtain t where t: "sameType s t = None" "checked vals t e" using assms(2) e by auto
    have "\<not> is_secret t" "\<not> is_secret s" using assms(1) sameType_heads [OF t(1)] by (simp_all add: public_def is_secret_def)
    then have "typed_value t v \<Longrightarrow> typed_value s v" for v
      using sameType_sound [OF t(1)] t(2) by (auto simp: typed_value_def checked_def)
    then show ?thesis using t(2) assms(1) by (cases "eval_expr vals e") (simp_all add: public_def checked_def)
  qed (use assms(1) in simp)
  then have "list_all2 (public vals) (replicate (length (x # xs)) s) (x # xs)" by (intro list_all2_replicate) blast
  note t = list_typed [OF this, of "Errorf ''array item is missing''"]
  have ok: "schema_ok (array_schema s)" using assms(1) array_schema_ok by (simp add: public_def checked_def)
  define r where "r = eval_list vals (Errorf ''array item is missing'') (x # xs)"
  have e: "eval_expr vals (ValueExpr None [] [] None None (Some (x # xs))) = andThen r (\<lambda>vs. Inr (GList vs))"
    by (simp add: eval_expr.simps r_def)
  have t: "case r of Inr vs \<Rightarrow> list_all2 has_type (replicate (length (x # xs)) s) vs | Inl e \<Rightarrow> e \<in> run_time_failures"
    unfolding r_def by (rule t) (simp add: run_time_failures_def)
  show ?thesis
  proof (cases r)
    case (Inr vs)
    then have "list_all2 has_type (replicate (length (x # xs)) s) vs" using t by simp
    then have "\<forall>w \<in> set vs. has_type s w" by (rule list_all2_replicateD)
    then show ?thesis using Inr ok array_type [of vs s] by (simp add: checked_def e typed_value_def)
  qed (use t ok in \<open>simp add: checked_def e\<close>)
qed

lemma checked_public: "checked vals s e \<Longrightarrow> \<not> is_secret s \<Longrightarrow> public vals s e"
  by (simp add: public_def)

lemma definite_coalesces: "definite e \<Longrightarrow> \<not> nil_coalesce vals e"
proof (induction e)
  case (ValueExpr literal ref op args members elements)
  have "eval_coalesce vals as \<noteq> Inr GNil" if "args = Some as" "op = ''coalesce''" for as
    using ValueExpr.prems that certain_value(2) [of as vals GNil] by (auto simp: is_value_def)
  then show ?case
    using ValueExpr by (fastforce simp: list_all_iff list_ex_iff snds.simps split: option.splits)
qed

lemma not_list_ex: "\<not> list_ex P xs \<longleftrightarrow> list_all (\<lambda>x. \<not> P x) xs"
  by (induction xs) auto

lemma check_sound:
  assumes "validateValues env vals = None" and "outputs_ok env"
  shows "check_expr env l d n e = Inr (n', s) \<Longrightarrow> \<not> nil_coalesce vals e \<Longrightarrow> expr_wf e \<Longrightarrow> checked vals s e"
    and "check_args env l d n es = Inr (n', ss) \<Longrightarrow> list_all (\<lambda>e. \<not> nil_coalesce vals e) es \<Longrightarrow> list_all expr_wf es \<Longrightarrow> list_all2 (public vals) ss es"
    and "check_members env l d n ms = Inr (n', ps) \<Longrightarrow> list_all (\<lambda>m. \<not> nil_coalesce vals (snd m)) ms \<Longrightarrow> list_all (\<lambda>m. expr_wf (snd m)) ms \<Longrightarrow>
      list_all2 (\<lambda>p m. fst p = fst m \<and> public vals (snd p) (snd m)) ps ms"
    and "check_items env l d n first es = Inr n' \<Longrightarrow> list_all (\<lambda>e. \<not> nil_coalesce vals e) es \<Longrightarrow> list_all expr_wf es \<Longrightarrow>
      (\<forall>e \<in> set es. \<exists>t. sameType first t = None \<and> checked vals t e)"
  using assms
proof (induction env l d n e and env l d n es and env l d n ms and env l d n first es arbitrary: n' s and n' ss and n' ps and n'
    rule: check_expr_check_args_check_members_check_items.induct)
  case (1 env l depth nodes literal ref op args members elements)
  note c = "1.prems"(1) [unfolded check_expr.simps]
  have v: "variants (ValueExpr literal ref op args members elements) = 1" "op = [] \<Longrightarrow> args = None"
    using c by (auto simp: first_error_Cons_None split: if_splits)
  consider (lit) raw where "literal = Some raw" | (ref) "literal = None" "ref \<noteq> []" "op = []" "members = None" "elements = None"
    | (op) "literal = None" "ref = []" "op \<noteq> []" "members = None" "elements = None"
    | (obj) ms where "literal = None" "ref = []" "op = []" "members = Some ms" "elements = None"
    | (arr) xs where "literal = None" "ref = []" "op = []" "members = None" "elements = Some xs"
    using v(1) by (auto simp: variants_def split: if_splits)
  then show ?case
  proof cases
    case lit
    then obtain j where j: "Decode raw DefaultLimits = Inr j" "inferLiteral j = Inr s"
      using c by (auto simp: check_literal_def andThen_Inr)
    have "json_wf DefaultLimits j" using Decode_sound(1) [OF j(1)] by (simp add: json_fits_def)
    moreover have "rational_numbers j" using "1.prems"(3) lit j(1) by simp
    ultimately show ?thesis using literal_type(1) [OF _ _ j(2)] lit j(1) by (simp add: checked_def eval_expr.simps typed_value_def)
  next
    case ref
    then show ?thesis using c reference_sound [of env ref s vals] "1.prems" by (auto simp: check_ref_def checked_def eval_expr.simps andThen_Inr)
  next
    case op
    define as where "as = (case args of None \<Rightarrow> [] | Some as \<Rightarrow> as)"
    obtain m ss where a: "check_args env l (depth + 1) (nodes + 1) as = Inr (m, ss)" "operation_type op ss = Inr s"
      using c op by (auto simp: andThen_Inr as_def)
    have "list_all2 (public vals) ss as"
      using "1.IH"(1) [folded as_def, OF op(1) _ op(3) a(1)] op(2) "1.prems" by (auto simp: as_def not_list_ex split: option.splits)
    then have "checked vals s (ValueExpr None [] op (Some as) None None)" using operation_checked [OF a(2) _ op(3)] "1.prems" by (auto simp: as_def not_list_ex split: option.splits)
    then show ?thesis using op by (cases args) (auto simp: checked_def eval_expr.simps as_def split: if_splits)
  next
    case obj
    obtain m ps where a: "check_members env l (depth + 1) (nodes + 1) ms = Inr (m, ps)" "s = object_schema ps"
      using c obj by (auto simp: andThen_Inr)
    have "list_all2 (\<lambda>p m. fst p = fst m \<and> public vals (snd p) (snd m)) ps ms"
      using "1.IH"(4) [OF obj(1) _ _ obj(4) a(1)] obj(2,3,4) "1.prems" by (simp add: not_list_ex)
    then show ?thesis using object_checked obj a(2) v(2) "1.prems" by simp
  next
    case arr
    then obtain x ys m t where x: "xs = x # ys" "check_expr env l (depth + 1) (nodes + 1) x = Inr (m, t)" "\<not> is_secret t"
        "check_items env l (depth + 1) m t ys = Inr n'" "s = array_schema t"
      using c by (cases xs) (auto simp: andThen_Inr)
    have h: "\<not> ref \<noteq> []" "\<not> op \<noteq> []" using arr by simp_all
    have d: "\<not> nil_coalesce vals x" "expr_wf x" "list_all (\<lambda>e. \<not> nil_coalesce vals e) ys" "list_all expr_wf ys" using "1.prems" arr x(1) by (simp_all add: not_list_ex)
    have "public vals t x"
      using "1.IH"(2) [OF arr(1) h arr(4) arr(5) x(1,2) d(1,2) "1.prems"(4,5)] x(3) by (rule checked_public)
    moreover have "\<forall>e \<in> set ys. \<exists>u. sameType t u = None \<and> checked vals u e"
      by (rule "1.IH"(3) [OF arr(1) h arr(4) arr(5) x(1,4) d(3,4) "1.prems"(4,5)])
    ultimately show ?thesis using array_checked [of vals t x ys] arr x(1,5) v(2) by simp
  qed
qed (auto simp: andThen_Inr checked_public)

end
