(* ===== verification/Expression_Claims.thy ===== *)
theory Expression_Claims
  imports Expression_Props
begin

text \<open>
  The properties of the package kernel/expression, with two theorems on what the checker does not
  guarantee: an indefinite \<^verbatim>\<open>coalesce\<close> and the enumerations of constructed values.
\<close>

section \<open>Soundness of the checker\<close>

text \<open>
  C38: type soundness of value expressions, up to nil. Let CheckWithLimits give an expression a
  schema, let the values pass validateValues, let the declared schemas of node outputs be valid
  definitions, and let the expression be one that Go can represent (the names of an object are
  distinct, the numbers of its literals are within the range of big.Rat). Unless one of its coalesce
  operators evaluates to nil, the evaluator never panics and never meets a value of the wrong type:
  it fails only with one of the errors of run_time_failures (an absent optional value, a division by
  zero, a result that is no decimal of bounded scale, a node output or secret not supplied), and
  otherwise its result is missing, has the inferred type, or is a valid secret handle where the
  schema is that of a secret; what EvaluateWithLimits returns is never missing. No coalesce evaluates
  to nil, on any values, when each of them has an alternative that is neither a reference nor a null
  literal. The exception is real: indefinite_coalesce_panics below.
\<close>

theorem checked_expressions_sound:
  assumes "CheckWithLimits e env l = Inr s" and "validateValues env vals = None" and "outputs_ok env" and "expr_wf e"
  shows "(\<not> nil_coalesce vals e \<longrightarrow>
      (case eval_expr vals e of Inl err \<Rightarrow> err \<in> run_time_failures
        | Inr v \<Rightarrow> v = GMissing \<or> has_type s v \<or> is_secret s \<and> (\<exists>h. v = GSecret h \<and> SecretHandle_Valid h))
      \<and> (case EvaluateWithLimits e env vals l of Inl _ \<Rightarrow> True
        | Inr v \<Rightarrow> has_type s v \<or> is_secret s \<and> (\<exists>h. v = GSecret h \<and> SecretHandle_Valid h)))
    \<and> (definite e \<longrightarrow> \<not> nil_coalesce vals e)"
proof (intro conjI impI)
  assume n: "\<not> nil_coalesce vals e"
  obtain n' where "check_expr env l 1 0 e = Inr (n', s)" using assms(1) by (auto simp: CheckWithLimits_def andThen_Inr)
  then have "checked vals s e" using check_sound(1) assms n by blast
  then have y: "yields (typed_value s) (eval_expr vals e)" by (simp add: checked_def)
  have f: "finish_value l v = Inr w \<Longrightarrow> w = v \<and> v \<noteq> GMissing" for v w
    by (auto simp: finish_value_def andThen_Inr split: gval.splits)
  show "case eval_expr vals e of Inl err \<Rightarrow> err \<in> run_time_failures
      | Inr v \<Rightarrow> v = GMissing \<or> has_type s v \<or> is_secret s \<and> (\<exists>h. v = GSecret h \<and> SecretHandle_Valid h)"
    and "case EvaluateWithLimits e env vals l of Inl _ \<Rightarrow> True
      | Inr v \<Rightarrow> has_type s v \<or> is_secret s \<and> (\<exists>h. v = GSecret h \<and> SecretHandle_Valid h)"
    using y assms(1,2) by (auto simp: yields_def typed_value_def EvaluateWithLimits_def andThen_Inr dest!: f split: sum.splits)
next
  assume "definite e"
  then show "\<not> nil_coalesce vals e" by (rule definite_coalesces)
qed

text \<open>The expression \<^verbatim>\<open>add(inputs.count, 1)\<close> with an integer input.\<close>

definition sample_literal :: "string \<Rightarrow> ValueExpr" where
  "sample_literal raw = ValueExpr (Some raw) [] [] None None None"

definition sample_ref :: "string \<Rightarrow> ValueExpr" where
  "sample_ref ref = ValueExpr None ref [] None None None"

definition sample_op :: "string \<Rightarrow> ValueExpr list \<Rightarrow> ValueExpr" where
  "sample_op name args = ValueExpr None [] name (Some args) None None"

definition sample_object :: "(string \<times> Schema) list \<Rightarrow> string list \<Rightarrow> Schema" where
  "sample_object ps required = Schema TypeObject ps required False None [] [] []"

definition sample_env :: "Schema \<Rightarrow> Environment" where
  "sample_env inputs = \<lparr>en_Inputs = inputs, en_Trigger = sample_object [] [], en_Scope = sample_object [] [],
     en_NodeOutputs = [], en_VisibleNodes = [], en_Iteration = None, en_Secrets = []\<rparr>"

definition sample_values :: "(string \<times> json) list \<Rightarrow> Values" where
  "sample_values inputs = \<lparr>va_Inputs = inputs, va_Trigger = [], va_Scope = [], va_NodeOutputs = [], va_Iteration = JNull, va_Secrets = []\<rparr>"

definition count_inputs :: Schema where
  "count_inputs = sample_object [(''count'', type_schema TypeInteger)] [''count'']"

definition count_expr :: ValueExpr where
  "count_expr = sample_op ''add'' [sample_ref ''inputs.count'', sample_literal ''1'']"

lemma count_checks:
  "CheckWithLimits count_expr (sample_env count_inputs) expr_DefaultLimits = Inr (type_schema TypeInteger)"
  "validateValues (sample_env count_inputs) (sample_values [(''count'', JNum ''41'')]) = None"
  by code_simp+

theorem checked_expressions_sound_witness:
  "CheckWithLimits count_expr (sample_env count_inputs) expr_DefaultLimits = Inr (type_schema TypeInteger) \<and>
   \<not> nil_coalesce (sample_values [(''count'', JNum ''41'')]) count_expr \<and>
   (case eval_expr (sample_values [(''count'', JNum ''41'')]) count_expr of Inl err \<Rightarrow> err \<in> run_time_failures
      | Inr v \<Rightarrow> v = GMissing \<or> has_type (type_schema TypeInteger) v \<or>
          is_secret (type_schema TypeInteger) \<and> (\<exists>h. v = GSecret h \<and> SecretHandle_Valid h))"
proof -
  have "outputs_ok (sample_env count_inputs)" by (simp add: outputs_ok_def sample_env_def)
  moreover have "expr_wf count_expr" "definite count_expr" by code_simp+
  ultimately show ?thesis using checked_expressions_sound [OF count_checks] count_checks(1) by blast
qed

section \<open>Exact decimals\<close>

text \<open>
  C39: arithmetic is exact. terminatingDecimal either writes a decimal text that reads back as
  exactly the given rational, or refuses, and it refuses exactly the rationals that no decimal with
  the given number of places denotes (for scales up to the range of big.Rat, one million; the
  evaluator uses ten thousand). So no operator of the expression language ever rounds.
\<close>

theorem decimals_are_exact:
  assumes "int maxScale \<le> maxRatExponent"
  shows "case terminatingDecimal r maxScale of
     Inr t \<Rightarrow> number_rat t = Some r \<and> (\<exists>z :: int. r = of_int z / 10 ^ maxScale)
   | Inl e \<Rightarrow> \<not> (\<exists>z :: int. r = of_int z / 10 ^ maxScale)"
  using assms by (rule decimal_exact)

theorem decimals_are_exact_witness:
  "int DefaultMaxExponent \<le> maxRatExponent \<and>
   (case terminatingDecimal (-3 / 8) DefaultMaxExponent of
      Inr t \<Rightarrow> number_rat t = Some (-3 / 8) \<and> (\<exists>z :: int. -3 / 8 = (of_int z :: rat) / 10 ^ DefaultMaxExponent)
    | Inl e \<Rightarrow> \<not> (\<exists>z :: int. -3 / 8 = (of_int z :: rat) / 10 ^ DefaultMaxExponent))"
  using default_scale decimals_are_exact [OF default_scale, of "-3 / 8"] by blast

section \<open>What the checker does not guarantee\<close>

text \<open>
  \<^verbatim>\<open>coalesce\<close> of two optional strings has type string for the checker, but it is nil when both are
  absent, and \<^verbatim>\<open>concat\<close> then fails a type assertion.
\<close>

definition optional_inputs :: Schema where
  "optional_inputs = sample_object [(''a'', type_schema TypeString), (''b'', type_schema TypeString)] []"

definition indefinite_expr :: ValueExpr where
  "indefinite_expr = sample_op ''concat''
     [sample_op ''coalesce'' [sample_ref ''inputs.a'', sample_ref ''inputs.b''], sample_literal (CHR 0x22 # ''x'' @ [CHR 0x22])]"

theorem indefinite_coalesce_panics:
  "Check indefinite_expr (sample_env optional_inputs) = Inr (type_schema TypeString) \<and>
   nil_coalesce (sample_values []) indefinite_expr \<and>
   Evaluate indefinite_expr (sample_env optional_inputs) (sample_values []) = Inl (Panic ''interface conversion'')"
  by code_simp

text \<open>
  \<^verbatim>\<open>sameType\<close> does not compare enumerations: an array whose first element is an enumerated input is
  assignable to an array of that enumeration, and evaluates to a value outside of it.
\<close>

definition enum_schema :: Schema where
  "enum_schema = Schema TypeString [] [] False None [] [CHR 0x22 # ''on'' @ [CHR 0x22]] []"

definition enum_inputs :: Schema where
  "enum_inputs = sample_object [(''mode'', enum_schema), (''name'', type_schema TypeString)] [''mode'', ''name'']"

definition enum_expr :: ValueExpr where
  "enum_expr = ValueExpr None [] [] None None (Some [sample_ref ''inputs.mode'', sample_ref ''inputs.name''])"

theorem enumerations_not_preserved:
  "CheckAssignable enum_expr (sample_env enum_inputs) (array_schema enum_schema) = None \<and>
   eval_expr (sample_values [(''mode'', JStr ''on''), (''name'', JStr ''off'')]) enum_expr = Inr (GList [GStr ''on'', GStr ''off'']) \<and>
   validateValues (sample_env enum_inputs) (sample_values [(''mode'', JStr ''on''), (''name'', JStr ''off'')]) = None \<and>
   ValidateValue (array_schema enum_schema) (JArr [JStr ''on'', JStr ''off'']) = Some value_error"
  by code_simp

end
