(* ===== verification/Workflow_Graph.thy ===== *)
theory Workflow_Graph
  imports Prelude
begin

text \<open>
  Package kernel/workflow, the graph algorithms of compile.go: breadth-first reachability with an
  excluded node, dominance, and the topological order with a sorted list of ready nodes. A graph
  is an association list from nodes to their successors. The loops over Go maps visit entries
  in list order; the characterisations below mention the edges of the graph only, so the results
  depend on that order at most by a permutation of a set, and the topological order not at all.
\<close>

section \<open>Graphs\<close>

type_synonym dependencyGraph = "(string \<times> string list) list"

definition successors :: "dependencyGraph \<Rightarrow> string \<Rightarrow> string list" where
  "successors g n = (case map_of g n of None \<Rightarrow> [] | Some ss \<Rightarrow> ss)"

definition graph_nodes :: "dependencyGraph \<Rightarrow> string list" where
  "graph_nodes g = map fst g"

definition add_edge :: "dependencyGraph \<Rightarrow> string \<Rightarrow> string \<Rightarrow> dependencyGraph" where
  "add_edge g a b = AList.update a (List.insert b (successors g a)) g"

section \<open>Reachability\<close>

function reach :: "dependencyGraph \<Rightarrow> string \<Rightarrow> string list \<Rightarrow> string list \<Rightarrow> string list" where
  "reach g excluded visited [] = visited"
| "reach g excluded visited (n # queue) =
     (if n = excluded \<or> n \<in> set visited then reach g excluded visited queue
      else reach g excluded (n # visited) (queue @ successors g n))"
  by pat_completeness auto
termination
proof (relation "measures [\<lambda>(g, ex, visited, queue). card (fst ` set g - set visited), \<lambda>(g, ex, visited, queue). length queue]", goal_cases)
  case (3 g excluded visited n queue)
  show ?case
  proof (cases "n \<in> fst ` set g")
    case True
    then have "fst ` set g - set (n # visited) \<subset> fst ` set g - set visited" using 3 by auto
    then show ?thesis by (simp add: psubset_card_mono)
  next
    case False
    then have "fst ` set g - set (n # visited) = fst ` set g - set visited" "successors g n = []"
      by (auto simp: successors_def map_of_eq_None_iff [symmetric] split: option.splits)
    then show ?thesis by simp
  qed
qed simp_all

declare reach.simps [simp del]

definition reachable :: "dependencyGraph \<Rightarrow> string list \<Rightarrow> string \<Rightarrow> string list" where
  "reachable g starts excluded = reach g excluded [] starts"

definition dominates :: "string \<Rightarrow> string \<Rightarrow> dependencyGraph \<Rightarrow> string list \<Rightarrow> bool" where
  "dominates source target g entries \<longleftrightarrow> source = target \<or> target \<notin> set (reachable g entries source)"

section \<open>Topological order\<close>

definition degree :: "(string \<times> int) list \<Rightarrow> string \<Rightarrow> int" where
  "degree d n = (case map_of d n of None \<Rightarrow> 0 | Some k \<Rightarrow> k)"

definition add_degree :: "int \<Rightarrow> string \<Rightarrow> (string \<times> int) list \<Rightarrow> (string \<times> int) list" where
  "add_degree k n d = AList.update n (degree d n + k) d"

definition indegrees :: "dependencyGraph \<Rightarrow> (string \<times> int) list" where
  "indegrees g = fold (\<lambda>kv. fold (add_degree 1) (snd kv)) g (map (\<lambda>kv. (fst kv, 0)) g)"

fun release_successors :: "(string \<times> int) list \<Rightarrow> string list \<Rightarrow> string list \<Rightarrow> (string \<times> int) list \<times> string list" where
  "release_successors d ready [] = (d, ready)"
| "release_successors d ready (s # ss) = (let d' = add_degree (- 1) s d in
     release_successors d' (if degree d' s = 0 then sort (ready @ [s]) else ready) ss)"

lemma positive_update: "length (filter (\<lambda>kv. 0 < snd kv) (AList.update n k d)) + (if 0 < degree d n \<and> k \<le> 0 then 1 else 0)
    \<le> length (filter (\<lambda>kv. 0 < snd kv) d) + (if degree d n \<le> 0 \<and> 0 < k then 1 else 0)"
  by (induction d) (auto simp: degree_def split: if_splits)

lemma release_measure:
  "release_successors d ready ss = (d', ready') \<Longrightarrow>
     length (filter (\<lambda>kv. 0 < snd kv) d') + length ready' \<le> length (filter (\<lambda>kv. 0 < snd kv) d) + length ready"
proof (induction d ready ss rule: release_successors.induct)
  case (2 d ready s ss)
  let ?e = "add_degree (- 1) s d"
  have s: "degree ?e s = degree d s - 1" by (simp add: degree_def add_degree_def update_conv)
  have "length (filter (\<lambda>kv. 0 < snd kv) ?e) + (if degree ?e s = 0 then 1 else 0) \<le> length (filter (\<lambda>kv. 0 < snd kv) d)"
    using positive_update [of s "degree d s - 1" d] s by (cases "degree d s = 1") (simp_all add: add_degree_def split: if_splits)
  moreover have "length (filter (\<lambda>kv. 0 < snd kv) d') + length ready' \<le>
      length (filter (\<lambda>kv. 0 < snd kv) ?e) + length (if degree ?e s = 0 then sort (ready @ [s]) else ready)"
    using 2 by (simp add: Let_def)
  ultimately show ?case by (simp split: if_splits)
qed simp

function topo_loop :: "dependencyGraph \<Rightarrow> (string \<times> int) list \<Rightarrow> string list \<Rightarrow> string list \<Rightarrow> string list" where
  "topo_loop g d [] order = order"
| "topo_loop g d (n # ready) order =
     (case release_successors d ready (successors g n) of (d', ready') \<Rightarrow> topo_loop g d' ready' (order @ [n]))"
  by pat_completeness auto
termination
  by (relation "measure (\<lambda>(g, d, ready, order). length (filter (\<lambda>kv. 0 < snd kv) d) + length ready)")
    (auto dest!: release_measure [OF sym])

declare topo_loop.simps [simp del]

definition ready_nodes :: "(string \<times> int) list \<Rightarrow> string list" where
  "ready_nodes d = sort (map fst (filter (\<lambda>kv. snd kv = 0) d))"

definition topologicalOrder :: "dependencyGraph \<Rightarrow> string list result" where
  "topologicalOrder g = (let order = topo_loop g (indegrees g) (ready_nodes (indegrees g)) [] in
     if length order \<noteq> length g then Inl (Errorf ''workflow dependency graph contains a cycle'') else Inr order)"

section \<open>Visibility\<close>

text \<open>The maps from a node to its predecessors by data or control edges.\<close>

type_synonym predecessorMap = "(string \<times> string list) list"

definition control_projection :: "dependencyGraph \<Rightarrow> predecessorMap \<Rightarrow> dependencyGraph" where
  "control_projection g controlEdges =
     fold (\<lambda>(successor, predecessors). fold (\<lambda>p g. add_edge g p successor) predecessors) controlEdges (map (\<lambda>kv. (fst kv, [])) g)"

definition visiblePredecessors ::
  "string \<Rightarrow> predecessorMap \<Rightarrow> predecessorMap \<Rightarrow> dependencyGraph \<Rightarrow> string list \<Rightarrow> (string \<times> bool) list" where
  "visiblePredecessors target dataEdges controlEdges g entries =
     map (\<lambda>source. (source, True)) (filter (\<lambda>source. dominates source target (control_projection g controlEdges) entries) (successors dataEdges target))"

definition resultVisibleNodes :: "dependencyGraph \<Rightarrow> string list \<Rightarrow> (string \<times> bool) list" where
  "resultVisibleNodes g entries = (let reached = reachable g entries [];
       terminals = map fst (filter (\<lambda>kv. fst kv \<in> set reached \<and> snd kv = []) g) in
     map (\<lambda>candidate. (candidate, list_all (\<lambda>terminal. candidate = terminal \<or> dominates candidate terminal g entries) terminals))
       (filter (\<lambda>candidate. candidate \<in> set reached) (graph_nodes g)))"

end
