(* ===== verification/Graph_Props.thy ===== *)
theory Graph_Props
  imports Workflow_Graph
begin

text \<open>
  What the graph algorithms compute: reachability is the closure of the edges that avoid the
  excluded node, dominance is a statement on all paths, and the topological order is the one in which
  every node is the least of those whose predecessors are all placed, unless the graph has a cycle.
\<close>

section \<open>Edges and paths\<close>

definition has_edge :: "dependencyGraph \<Rightarrow> string \<Rightarrow> string \<Rightarrow> bool" where
  "has_edge g a b \<longleftrightarrow> b \<in> set (successors g a)"

definition edge_relation :: "dependencyGraph \<Rightarrow> (string \<times> string) set" where
  "edge_relation g = {(a, b). has_edge g a b}"

definition avoiding :: "dependencyGraph \<Rightarrow> string \<Rightarrow> (string \<times> string) set" where
  "avoiding g ex = {(a, b). has_edge g a b \<and> b \<noteq> ex}"

lemma reach_sound: "n \<in> set (reach g ex visited queue) \<Longrightarrow> n \<in> set visited \<or> (\<exists>s \<in> set queue. s \<noteq> ex \<and> (s, n) \<in> (avoiding g ex)\<^sup>*)"
proof (induction g ex visited queue rule: reach.induct)
  case (2 g ex visited m queue)
  show ?case
  proof (cases "m = ex \<or> m \<in> set visited")
    case True
    then show ?thesis using 2 by (auto simp: reach.simps)
  next
    case False
    then have "n \<in> set (reach g ex (m # visited) (queue @ successors g m))" using 2(3) by (simp add: reach.simps)
    then consider "n \<in> set (m # visited)" | s where "s \<in> set (queue @ successors g m)" "s \<noteq> ex" "(s, n) \<in> (avoiding g ex)\<^sup>*"
      using 2(2) False by blast
    then show ?thesis
    proof cases
      case 1
      then show ?thesis using False by auto
    next
      case 2
      show ?thesis
      proof (cases "s \<in> set queue")
        case False
        then have "(m, s) \<in> avoiding g ex" using 2 by (auto simp: avoiding_def has_edge_def)
        then show ?thesis using 2(3) \<open>\<not> (m = ex \<or> m \<in> set visited)\<close> by (meson converse_rtrancl_into_rtrancl list.set_intros(1))
      qed (use 2 in auto)
    qed
  qed
qed (simp add: reach.simps)

lemma reach_complete:
  assumes "\<forall>a \<in> set visited. \<forall>b. has_edge g a b \<longrightarrow> b = ex \<or> b \<in> set visited \<or> b \<in> set queue"
  shows "set visited \<subseteq> set (reach g ex visited queue) \<and> (\<forall>s \<in> set queue. s \<noteq> ex \<longrightarrow> s \<in> set (reach g ex visited queue)) \<and>
    (\<forall>a \<in> set (reach g ex visited queue). \<forall>b. has_edge g a b \<longrightarrow> b = ex \<or> b \<in> set (reach g ex visited queue))"
  using assms
proof (induction g ex visited queue rule: reach.induct)
  case (2 g ex visited m queue)
  show ?case
  proof (cases "m = ex \<or> m \<in> set visited")
    case True
    then have "reach g ex visited (m # queue) = reach g ex visited queue" by (simp add: reach.simps)
    moreover have "\<forall>a \<in> set visited. \<forall>b. has_edge g a b \<longrightarrow> b = ex \<or> b \<in> set visited \<or> b \<in> set queue"
      using "2.prems" True by auto
    ultimately show ?thesis using "2.IH"(1) True by auto
  next
    case False
    then have "reach g ex visited (m # queue) = reach g ex (m # visited) (queue @ successors g m)" by (simp add: reach.simps)
    moreover have "\<forall>a \<in> set (m # visited). \<forall>b. has_edge g a b \<longrightarrow> b = ex \<or> b \<in> set (m # visited) \<or> b \<in> set (queue @ successors g m)"
      using "2.prems" by (auto simp: has_edge_def)
    ultimately show ?thesis using "2.IH"(2) False by auto
  qed
qed (simp add: reach.simps)

theorem reachable_iff: "n \<in> set (reachable g starts ex) \<longleftrightarrow> (\<exists>s \<in> set starts. s \<noteq> ex \<and> (s, n) \<in> (avoiding g ex)\<^sup>*)"
proof
  assume "n \<in> set (reachable g starts ex)"
  then show "\<exists>s \<in> set starts. s \<noteq> ex \<and> (s, n) \<in> (avoiding g ex)\<^sup>*" using reach_sound [of n g ex "[]" starts] by (simp add: reachable_def)
next
  assume "\<exists>s \<in> set starts. s \<noteq> ex \<and> (s, n) \<in> (avoiding g ex)\<^sup>*"
  then obtain s where s: "s \<in> set starts" "s \<noteq> ex" "(s, n) \<in> (avoiding g ex)\<^sup>*" by blast
  note c = reach_complete [of "[]" g ex starts, folded reachable_def]
  from s(3) show "n \<in> set (reachable g starts ex)"
  proof (induction rule: rtrancl_induct)
    case base
    then show ?case using c s by simp
  next
    case (step a b)
    then show ?case using c by (auto simp: avoiding_def)
  qed
qed

definition graph_path :: "dependencyGraph \<Rightarrow> string list \<Rightarrow> bool" where
  "graph_path g p \<longleftrightarrow> p \<noteq> [] \<and> successively (has_edge g) p"

lemma path_avoiding: "graph_path g p \<Longrightarrow> ex \<notin> set p \<Longrightarrow> (hd p, last p) \<in> (avoiding g ex)\<^sup>*"
proof (induction p)
  case (Cons a p)
  show ?case
  proof (cases p)
    case Nil
    then show ?thesis by simp
  next
    case (Cons b q)
    then have "(a, b) \<in> avoiding g ex" "(b, last p) \<in> (avoiding g ex)\<^sup>*"
      using Cons.IH Cons.prems by (auto simp: graph_path_def avoiding_def)
    then show ?thesis using Cons by simp
  qed
qed (simp add: graph_path_def)

lemma avoiding_path:
  assumes "(s, n) \<in> (avoiding g ex)\<^sup>*" and "s \<noteq> ex"
  obtains p where "graph_path g p" "hd p = s" "last p = n" "ex \<notin> set p"
proof -
  have "\<exists>p. graph_path g p \<and> hd p = s \<and> last p = n \<and> ex \<notin> set p"
    using assms(1)
  proof (induction rule: rtrancl_induct)
    case base
    show ?case by (rule exI [of _ "[s]"]) (use assms(2) in \<open>simp add: graph_path_def\<close>)
  next
    case (step a b)
    then obtain p where p: "graph_path g p" "hd p = s" "last p = a" "ex \<notin> set p" by blast
    have "graph_path g (p @ [b])" using p step(2) by (auto simp: graph_path_def successively_append_iff avoiding_def)
    then show ?case using p step(2) by (intro exI [of _ "p @ [b]"]) (auto simp: graph_path_def avoiding_def)
  qed
  then show thesis using that by blast
qed

theorem dominates_iff:
  "dominates source target g entries \<longleftrightarrow>
     source = target \<or> (\<forall>p. graph_path g p \<and> hd p \<in> set entries \<and> last p = target \<longrightarrow> source \<in> set p)"
proof -
  have "target \<in> set (reachable g entries source) \<longleftrightarrow>
      (\<exists>p. graph_path g p \<and> hd p \<in> set entries \<and> last p = target \<and> source \<notin> set p)"
  proof
    assume "target \<in> set (reachable g entries source)"
    then obtain s where s: "s \<in> set entries" "s \<noteq> source" "(s, target) \<in> (avoiding g source)\<^sup>*" by (auto simp: reachable_iff)
    obtain p where "graph_path g p" "hd p = s" "last p = target" "source \<notin> set p" by (rule avoiding_path [OF s(3,2)])
    then show "\<exists>p. graph_path g p \<and> hd p \<in> set entries \<and> last p = target \<and> source \<notin> set p" using s(1) by auto
  next
    assume "\<exists>p. graph_path g p \<and> hd p \<in> set entries \<and> last p = target \<and> source \<notin> set p"
    then obtain p where p: "graph_path g p" "hd p \<in> set entries" "last p = target" "source \<notin> set p" by blast
    then have "hd p \<noteq> source" by (auto simp: graph_path_def)
    then show "target \<in> set (reachable g entries source)" using path_avoiding [OF p(1,4)] p by (auto simp: reachable_iff)
  qed
  then show ?thesis by (auto simp: dominates_def)
qed

section \<open>Well-formed graphs\<close>

definition graph_wf :: "dependencyGraph \<Rightarrow> bool" where
  "graph_wf g \<longleftrightarrow> distinct (graph_nodes g) \<and> (\<forall>kv \<in> set g. distinct (snd kv) \<and> set (snd kv) \<subseteq> set (graph_nodes g))"

lemma graph_wf_edge:
  assumes "graph_wf g" and "has_edge g a b"
  shows "a \<in> set (graph_nodes g) \<and> b \<in> set (graph_nodes g)"
proof -
  obtain ss where ss: "map_of g a = Some ss" "b \<in> set ss" using assms(2) by (cases "map_of g a") (auto simp: has_edge_def successors_def)
  have "(a, ss) \<in> set g" using ss(1) by (rule map_of_SomeD)
  then show ?thesis using assms(1) ss(2) by (force simp: graph_wf_def graph_nodes_def)
qed

lemma successors_distinct: "graph_wf g \<Longrightarrow> distinct (successors g n)"
  by (auto simp: graph_wf_def successors_def dest!: map_of_SomeD split: option.splits)

lemma successors_empty: "successors (map (\<lambda>kv. (fst kv, [])) g) a = []"
  by (simp add: successors_def map_of_map_keys split: option.splits) (auto dest!: map_of_SomeD)

lemma add_edge_has_edge: "has_edge (add_edge g a b) c d \<longleftrightarrow> has_edge g c d \<or> (c = a \<and> d = b)"
  by (auto simp: has_edge_def successors_def add_edge_def update_conv split: option.splits if_splits)

lemma add_edge_nodes: "a \<in> set (graph_nodes g) \<Longrightarrow> graph_nodes (add_edge g a b) = graph_nodes g"
  by (induction g) (auto simp: graph_nodes_def add_edge_def successors_def)

lemma update_member: "kv \<in> set (AList.update a v g) \<Longrightarrow> kv \<in> set g \<or> kv = (a, v)"
  by (induction g) (auto split: if_splits)

lemma add_edge_wf:
  assumes "graph_wf g" and "a \<in> set (graph_nodes g)" and "b \<in> set (graph_nodes g)"
  shows "graph_wf (add_edge g a b)"
proof -
  note n = add_edge_nodes [OF assms(2), of b]
  have "distinct (snd kv) \<and> set (snd kv) \<subseteq> set (graph_nodes g)" if "kv \<in> set (add_edge g a b)" for kv
  proof -
    have "kv \<in> set g \<or> kv = (a, List.insert b (successors g a))"
      using that by (auto simp: add_edge_def dest: update_member)
    then show ?thesis
      using assms successors_distinct [OF assms(1), of a] graph_wf_edge [OF assms(1), of a]
      by (auto simp: graph_wf_def has_edge_def)
  qed
  then show ?thesis using assms(1) unfolding graph_wf_def n by blast
qed

section \<open>Degrees\<close>

lemma degree_add: "degree (add_degree k n d) m = degree d m + (if m = n then k else 0)"
  by (simp add: degree_def add_degree_def update_conv)

lemma add_degree_keys: "n \<in> fst ` set d \<Longrightarrow> map fst (add_degree k n d) = map fst d"
  by (simp add: add_degree_def update_keys)

lemma fold_add_degree:
  assumes "set ss \<subseteq> fst ` set d"
  shows "map fst (fold (add_degree k) ss d) = map fst d \<and> degree (fold (add_degree k) ss d) m = degree d m + k * int (count_list ss m)"
  using assms
proof (induction ss arbitrary: d)
  case (Cons s ss)
  have k: "map fst (add_degree k s d) = map fst d" using Cons.prems by (intro add_degree_keys) simp
  then have "set ss \<subseteq> fst ` set (add_degree k s d)" using Cons.prems by (metis list.set_map set_subset_Cons subset_trans)
  then show ?case using Cons.IH [of "add_degree k s d"] k by (auto simp: degree_add algebra_simps)
qed simp

lemma count_list_distinct: "distinct ss \<Longrightarrow> count_list ss m = (if m \<in> set ss then 1 else 0)"
  by (induction ss) auto

definition unplaced :: "dependencyGraph \<Rightarrow> string set \<Rightarrow> string \<Rightarrow> string set" where
  "unplaced g placed n = {m \<in> set (graph_nodes g). has_edge g m n \<and> m \<notin> placed}"

lemma fold_indegrees:
  assumes "\<forall>kv \<in> set h. distinct (snd kv) \<and> set (snd kv) \<subseteq> fst ` set d" and "distinct (map fst h)"
  shows "map fst (fold (\<lambda>kv. fold (add_degree 1) (snd kv)) h d) = map fst d \<and>
    degree (fold (\<lambda>kv. fold (add_degree 1) (snd kv)) h d) m = degree d m + int (card {a \<in> fst ` set h. has_edge h a m})"
  using assms
proof (induction h arbitrary: d)
  case (Cons kv h)
  obtain a ss where kv: "kv = (a, ss)" by (cases kv)
  let ?d = "fold (add_degree 1) ss d"
  have ss: "distinct ss" "set ss \<subseteq> fst ` set d" "a \<notin> fst ` set h" using Cons.prems by (auto simp: kv)
  note f = fold_add_degree [OF ss(2), of 1 m]
  have keys: "fst ` set ?d = fst ` set d" using f by (metis list.set_map)
  have ih: "map fst (fold (\<lambda>kv. fold (add_degree 1) (snd kv)) h ?d) = map fst ?d \<and>
    degree (fold (\<lambda>kv. fold (add_degree 1) (snd kv)) h ?d) m = degree ?d m + int (card {a \<in> fst ` set h. has_edge h a m})"
    using Cons.IH [of ?d] Cons.prems keys by simp
  have "{x \<in> fst ` set (kv # h). has_edge (kv # h) x m} = {x \<in> fst ` set h. has_edge h x m} \<union> (if m \<in> set ss then {a} else {})"
    using ss(3) by (auto simp: kv has_edge_def successors_def split: if_splits)
  moreover have "a \<notin> {x \<in> fst ` set h. has_edge h x m}" using ss(3) by simp
  ultimately have "card {x \<in> fst ` set (kv # h). has_edge (kv # h) x m} = card {x \<in> fst ` set h. has_edge h x m} + (if m \<in> set ss then 1 else 0)"
    by simp
  then show ?case using ih f count_list_distinct [OF ss(1), of m] by (simp add: kv)
qed simp

lemma indegrees_spec:
  assumes "graph_wf g"
  shows "map fst (indegrees g) = graph_nodes g" and "degree (indegrees g) n = int (card (unplaced g {} n))"
proof -
  let ?z = "map (\<lambda>kv. (fst kv, 0)) g :: (string \<times> int) list"
  have z: "degree ?z n = 0" "map fst ?z = graph_nodes g" "fst ` set ?z = set (graph_nodes g)"
    by (auto simp: degree_def graph_nodes_def image_image comp_def dest!: map_of_SomeD split: option.splits)
  have "map fst (fold (\<lambda>kv. fold (add_degree 1) (snd kv)) g ?z) = map fst ?z \<and>
      degree (fold (\<lambda>kv. fold (add_degree 1) (snd kv)) g ?z) n = degree ?z n + int (card {a \<in> fst ` set g. has_edge g a n})"
    by (rule fold_indegrees) (use assms z(3) in \<open>auto simp: graph_wf_def graph_nodes_def\<close>)
  then show "map fst (indegrees g) = graph_nodes g" and "degree (indegrees g) n = int (card (unplaced g {} n))"
    using z by (simp_all add: indegrees_def unplaced_def graph_nodes_def)
qed

lemma release_spec:
  assumes "release_successors d ready ss = (d', ready')" and "distinct ss" and "set ss \<subseteq> fst ` set d"
    and "sorted ready" and "distinct ready" and "\<forall>s \<in> set ss. s \<in> set ready \<longrightarrow> degree d s \<noteq> 1"
  shows "map fst d' = map fst d \<and> (\<forall>m. degree d' m = degree d m - (if m \<in> set ss then 1 else 0)) \<and>
    sorted ready' \<and> distinct ready' \<and> set ready' = set ready \<union> {s \<in> set ss. degree d s = 1}"
  using assms
proof (induction d ready ss rule: release_successors.induct)
  case (2 d ready s ss)
  let ?d = "add_degree (- 1) s d"
  let ?r = "if degree ?d s = 0 then sort (ready @ [s]) else ready"
  have k: "map fst ?d = map fst d" using "2.prems"(3) by (intro add_degree_keys) simp
  then have ks: "set ss \<subseteq> fst ` set ?d" using "2.prems"(3) by (metis list.set_map set_subset_Cons subset_trans)
  have deg: "degree ?d m = degree d m - (if m = s then 1 else 0)" for m by (simp add: degree_add)
  have s: "s \<notin> set ss" "distinct ss" using "2.prems"(2) by simp_all
  have r: "sorted ?r" "distinct ?r" "set ?r = set ready \<union> (if degree d s = 1 then {s} else {})"
    using "2.prems"(4,5,6) deg [of s] by auto
  have "\<forall>t \<in> set ss. t \<in> set ?r \<longrightarrow> degree ?d t \<noteq> 1" using "2.prems"(6) s(1) r(3) deg by (auto split: if_splits)
  then have "map fst d' = map fst ?d \<and> (\<forall>m. degree d' m = degree ?d m - (if m \<in> set ss then 1 else 0)) \<and>
      sorted ready' \<and> distinct ready' \<and> set ready' = set ?r \<union> {t \<in> set ss. degree ?d t = 1}"
    using "2.IH" [OF refl _ s(2) ks r(1,2)] "2.prems"(1) by (simp add: Let_def)
  moreover have "{t \<in> set ss. degree ?d t = 1} = {t \<in> set ss. degree d t = 1}" using s(1) deg by auto
  ultimately show ?case using k s(1) deg r(3) by (auto split: if_splits)
qed simp

section \<open>The topological order\<close>

text \<open>The nodes that may come next, and the orders that always take the least of them.\<close>

definition available :: "dependencyGraph \<Rightarrow> string set \<Rightarrow> string set" where
  "available g placed = {n \<in> set (graph_nodes g). n \<notin> placed \<and> (\<forall>m. has_edge g m n \<longrightarrow> m \<in> placed)}"

definition least_first :: "dependencyGraph \<Rightarrow> string list \<Rightarrow> bool" where
  "least_first g order \<longleftrightarrow> (\<forall>i < length order. order ! i \<in> available g (set (take i order)) \<and>
     (\<forall>m \<in> available g (set (take i order)). order ! i \<le> m))"

definition topo_state :: "dependencyGraph \<Rightarrow> (string \<times> int) list \<Rightarrow> string list \<Rightarrow> string list \<Rightarrow> bool" where
  "topo_state g d ready order \<longleftrightarrow> map fst d = graph_nodes g \<and> distinct order \<and> set order \<subseteq> set (graph_nodes g) \<and> least_first g order \<and>
     (\<forall>n. degree d n = int (card (unplaced g (set order) n))) \<and>
     sorted ready \<and> distinct ready \<and> set ready = available g (set order)"

lemma unplaced_finite [simp]: "finite (unplaced g placed n)"
  by (simp add: unplaced_def)

lemma unplaced_empty: "graph_wf g \<Longrightarrow> card (unplaced g placed n) = 0 \<longleftrightarrow> (\<forall>m. has_edge g m n \<longrightarrow> m \<in> placed)"
  using graph_wf_edge [of g] by (auto simp: unplaced_def)

lemma least_first_snoc:
  assumes "least_first g order" and "n \<in> available g (set order)" and "\<forall>m \<in> available g (set order). n \<le> m"
  shows "least_first g (order @ [n])"
  using assms by (auto simp: least_first_def nth_append less_Suc_eq)

lemma unplaced_insert:
  assumes "graph_wf g" and "n \<in> set (graph_nodes g)" and "n \<notin> placed"
  shows "int (card (unplaced g (insert n placed) m)) = int (card (unplaced g placed m)) - (if has_edge g n m then 1 else 0)"
proof (cases "has_edge g n m")
  case True
  then have "unplaced g placed m = insert n (unplaced g (insert n placed) m)" "n \<notin> unplaced g (insert n placed) m"
    using assms by (auto simp: unplaced_def)
  then show ?thesis using True by simp
next
  case False
  then have "unplaced g (insert n placed) m = unplaced g placed m" using assms by (auto simp: unplaced_def)
  then show ?thesis using False by simp
qed

lemma topo_step:
  assumes "topo_state g d (n # ready) order" and "graph_wf g" and "release_successors d ready (successors g n) = (d', ready')"
  shows "topo_state g d' ready' (order @ [n])"
proof -
  note i = assms(1) [unfolded topo_state_def]
  have av: "n \<in> available g (set order)" "\<forall>m \<in> available g (set order). n \<le> m" using i by auto
  then have n: "n \<in> set (graph_nodes g)" "n \<notin> set order" by (auto simp: available_def)
  have keys: "set (successors g n) \<subseteq> fst ` set d"
    using i graph_wf_edge [OF assms(2), of n] by (auto simp: has_edge_def) (metis list.set_map image_iff)
  have deg1: "degree d s = 1 \<Longrightarrow> s \<notin> set ready" for s
    using i unplaced_empty [OF assms(2), of "set order" s] by (auto simp: available_def)
  have rs: "map fst d' = map fst d \<and> (\<forall>m. degree d' m = degree d m - (if m \<in> set (successors g n) then 1 else 0)) \<and>
    sorted ready' \<and> distinct ready' \<and> set ready' = set ready \<union> {s \<in> set (successors g n). degree d s = 1}"
    by (rule release_spec [OF assms(3) successors_distinct [OF assms(2)] keys]) (use i deg1 in auto)
  have deg: "degree d' m = int (card (unplaced g (set (order @ [n])) m))" for m
    using rs i unplaced_insert [OF assms(2) n, of m] by (simp add: has_edge_def)
  have "set ready' = available g (set (order @ [n]))"
  proof -
    have "m \<in> set ready' \<longleftrightarrow> m \<in> available g (set (order @ [n]))" for m
    proof -
      have a: "m \<in> available g (set (order @ [n])) \<longleftrightarrow> m \<in> set (graph_nodes g) \<and> m \<notin> set (order @ [n]) \<and> degree d' m = 0"
        using unplaced_empty [OF assms(2), of "set (order @ [n])" m] deg [of m] by (auto simp: available_def)
      have b: "m \<in> set (n # ready) \<longleftrightarrow> m \<in> set (graph_nodes g) \<and> m \<notin> set order \<and> degree d m = 0"
        using unplaced_empty [OF assms(2), of "set order" m] i by (auto simp: available_def)
      have e: "m \<in> set (successors g n) \<Longrightarrow> m \<in> set (graph_nodes g) \<and> degree d m \<ge> 1 \<and> m \<notin> set order"
      proof -
        assume m: "m \<in> set (successors g n)"
        then have "n \<in> unplaced g (set order) m" using n by (auto simp: unplaced_def has_edge_def)
        then have "1 \<le> card (unplaced g (set order) m)" by (metis One_nat_def Suc_leI card_gt_0_iff empty_iff unplaced_finite)
        moreover have "m \<notin> set order"
        proof
          assume "m \<in> set order"
          then obtain j where j: "j < length order" "order ! j = m" by (auto simp: in_set_conv_nth)
          then have "n \<in> set (take j order)" using i m by (auto simp: least_first_def available_def has_edge_def)
          then show False using n(2) by (meson in_set_takeD)
        qed
        ultimately show ?thesis using i graph_wf_edge [OF assms(2), of n m] m by (auto simp: has_edge_def)
      qed
      have "distinct (n # ready)" using i by simp
      then show ?thesis using rs a b e by (auto split: if_splits)
    qed
    then show ?thesis by blast
  qed
  then show ?thesis
    using i rs deg n least_first_snoc [OF _ av] unfolding topo_state_def by auto
qed

lemma topo_loop_spec:
  assumes "topo_state g d ready order" and "graph_wf g"
  shows "\<exists>d'. topo_state g d' [] (topo_loop g d ready order)"
  using assms
proof (induction g d ready order rule: topo_loop.induct)
  case (2 g d n ready order)
  obtain d' ready' where r: "release_successors d ready (successors g n) = (d', ready')" by force
  then show ?case using "2.IH" [OF r [symmetric]] topo_step [OF "2.prems" r] "2.prems"(2) by (simp add: topo_loop.simps r)
qed (auto simp: topo_loop.simps)

lemma zero_entries:
  assumes "distinct (map fst d)"
  shows "n \<in> fst ` {kv \<in> set d. snd kv = 0} \<longleftrightarrow> n \<in> fst ` set d \<and> degree d n = 0"
proof
  assume "n \<in> fst ` {kv \<in> set d. snd kv = 0}"
  then have e: "(n, 0) \<in> set d" by auto
  then show "n \<in> fst ` set d \<and> degree d n = 0" using map_of_is_SomeI [OF assms e] by (force simp: degree_def)
next
  assume "n \<in> fst ` set d \<and> degree d n = 0"
  then obtain k where k: "(n, k) \<in> set d" "degree d n = 0" by auto
  then show "n \<in> fst ` {kv \<in> set d. snd kv = 0}" using map_of_is_SomeI [OF assms k(1)] by (force simp: degree_def)
qed

lemma topo_initial: "graph_wf g \<Longrightarrow> topo_state g (indegrees g) (ready_nodes (indegrees g)) []"
proof -
  assume wf: "graph_wf g"
  note k = indegrees_spec [OF wf]
  have d: "distinct (map fst (indegrees g))" using wf k(1) by (simp add: graph_wf_def)
  have "n \<in> set (ready_nodes (indegrees g)) \<longleftrightarrow> n \<in> available g {}" for n
  proof -
    have "n \<in> set (ready_nodes (indegrees g)) \<longleftrightarrow> n \<in> set (graph_nodes g) \<and> degree (indegrees g) n = 0"
      using zero_entries [OF d, of n] by (simp add: ready_nodes_def k(1) [symmetric])
    also have "\<dots> \<longleftrightarrow> n \<in> available g {}" using k(2) [of n] unplaced_empty [OF wf, of "{}" n] by (auto simp: available_def)
    finally show ?thesis .
  qed
  moreover have "distinct (ready_nodes (indegrees g))" using d by (simp add: ready_nodes_def distinct_map_filter)
  ultimately show ?thesis
    using k by (auto simp: topo_state_def least_first_def ready_nodes_def)
qed

lemma stuck_cycle:
  assumes "finite U" and "U \<noteq> {}" and "\<forall>x \<in> U. \<exists>y \<in> U. (y, x) \<in> r"
  shows "\<not> acyclic r"
proof
  assume "acyclic r"
  then have "acyclic (r \<inter> U \<times> U)" by (rule acyclic_subset) simp
  moreover have "finite (r \<inter> U \<times> U)" using assms(1) by simp
  ultimately have "wf (r \<inter> U \<times> U)" by (simp add: finite_acyclic_wf)
  then obtain x where "x \<in> U" "\<And>y. (y, x) \<in> r \<inter> U \<times> U \<Longrightarrow> y \<notin> U" using assms(2) by (metis wfE_min ex_in_conv)
  then show False using assms(3) by blast
qed

lemma least_first_edge:
  assumes "least_first g order" and "i < length order" and "has_edge g a (order ! i)"
  shows "\<exists>j < i. order ! j = a"
proof -
  have "a \<in> set (take i order)" using assms by (auto simp: least_first_def available_def)
  then show ?thesis using assms(2) by (auto simp: in_set_conv_nth)
qed

lemma least_first_acyclic:
  assumes "least_first g order" and "distinct order" and "graph_wf g" and "set (graph_nodes g) \<subseteq> set order"
  shows "acyclic (edge_relation g)"
proof -
  define pos where "pos = (\<lambda>n. THE i. i < length order \<and> order ! i = n)"
  have pos: "pos (order ! i) = i" if "i < length order" for i
    unfolding pos_def using that assms(2) by (intro the_equality) (auto simp: nth_eq_iff_index_eq)
  have "edge_relation g \<subseteq> measure pos"
  proof
    fix e assume "e \<in> edge_relation g"
    then obtain a b where e: "e = (a, b)" "has_edge g a b" by (auto simp: edge_relation_def)
    then have "b \<in> set order" using graph_wf_edge [OF assms(3) e(2)] assms(4) by auto
    then obtain i where i: "i < length order" "order ! i = b" by (auto simp: in_set_conv_nth)
    then obtain j where "j < i" "order ! j = a" using least_first_edge [OF assms(1)] e(2) by blast
    then show "e \<in> measure pos" using i pos [of i] pos [of j] e(1) by auto
  qed
  then show ?thesis by (meson wf_acyclic wf_measure wf_subset)
qed

theorem topological_order:
  assumes "graph_wf g"
  shows "case topologicalOrder g of
      Inr order \<Rightarrow> distinct order \<and> set order = set (graph_nodes g) \<and> least_first g order \<and> acyclic (edge_relation g)
    | Inl e \<Rightarrow> \<not> acyclic (edge_relation g)"
proof -
  define order where "order = topo_loop g (indegrees g) (ready_nodes (indegrees g)) []"
  obtain d where i: "topo_state g d [] order" using topo_loop_spec [OF topo_initial [OF assms] assms] by (auto simp: order_def)
  then have o: "distinct order" "set order \<subseteq> set (graph_nodes g)" "least_first g order" "available g (set order) = {}"
    by (auto simp: topo_state_def)
  have dn: "distinct (graph_nodes g)" "length (graph_nodes g) = length g" using assms by (simp_all add: graph_wf_def graph_nodes_def)
  show ?thesis
  proof (cases "length order = length g")
    case True
    then have "card (set order) = card (set (graph_nodes g))" using o(1) dn by (simp add: distinct_card)
    then have s: "set order = set (graph_nodes g)" using o(2) by (metis List.finite_set card_subset_eq)
    then show ?thesis using True o(1,3) least_first_acyclic [OF o(3,1) assms] by (simp add: topologicalOrder_def order_def [symmetric] Let_def)
  next
    case False
    let ?U = "set (graph_nodes g) - set order"
    have "?U \<noteq> {}" using False o(1) dn by (metis Diff_eq_empty_iff distinct_card o(2) subset_antisym)
    moreover have "\<forall>x \<in> ?U. \<exists>y \<in> ?U. (y, x) \<in> edge_relation g"
      using o(4) graph_wf_edge [OF assms] by (auto simp: available_def edge_relation_def) blast
    ultimately have "\<not> acyclic (edge_relation g)" by (intro stuck_cycle [of ?U]) auto
    then show ?thesis using False by (simp add: topologicalOrder_def order_def [symmetric] Let_def)
  qed
qed

end
