(* ===== verification/Schema_Defaults.thy ===== *)
theory Schema_Defaults
  imports Expression_Check
begin

text \<open>
  Package sdk/go/contracts, the defaults of schema.go. A Go map of objects is changed in place;
  here the changed object is returned, and an object nested in it is put back under its name.
\<close>

section \<open>JSON pointers\<close>

definition escapePointer :: "string \<Rightarrow> string" where
  "escapePointer s = concat (map (\<lambda>c. if c = CHR ''~'' then ''~0'' else if c = CHR ''/'' then ''~1'' else [c]) s)"

definition child_pointer :: "string \<Rightarrow> string \<Rightarrow> string" where
  "child_pointer pointer name = pointer @ ''/'' @ escapePointer name"

fun markLeaves :: "json \<Rightarrow> string \<Rightarrow> string list"
and mark_items :: "nat \<Rightarrow> json list \<Rightarrow> string \<Rightarrow> string list"
and mark_members :: "(string \<times> json) list \<Rightarrow> string \<Rightarrow> string list"
where
  "markLeaves (JObj kvs) pointer = (if kvs = [] then [pointer] else mark_members kvs pointer)"
| "markLeaves (JArr vs) pointer = (if vs = [] then [pointer] else mark_items 0 vs pointer)"
| "markLeaves v pointer = [pointer]"
| "mark_items i [] pointer = []"
| "mark_items i (v # vs) pointer = markLeaves v (pointer @ ''/'' @ decimal_nat i) @ mark_items (i + 1) vs pointer"
| "mark_members [] pointer = []"
| "mark_members ((name, v) # kvs) pointer = markLeaves v (child_pointer pointer name) @ mark_members kvs pointer"

section \<open>Defaults\<close>

definition CloneObject :: "(string \<times> json) list \<Rightarrow> (string \<times> json) list result" where
  "CloneObject source = andThen (decodeJSON (json_Marshal (JObj source))) (\<lambda>v. case v of
     JObj kvs \<Rightarrow> Inr kvs | _ \<Rightarrow> Inl (Errorf ''clone object: source is not an object''))"

text \<open>The value of a property after its own default: the value, the object and the marked leaves.\<close>

definition property_default ::
  "string \<Rightarrow> Schema \<Rightarrow> (string \<times> json) list \<Rightarrow> string \<Rightarrow> string list \<Rightarrow> (json option \<times> (string \<times> json) list \<times> string list) result" where
  "property_default name property object pointer applied =
     (case map_of object name of
        Some v \<Rightarrow> Inr (Some v, object, applied)
      | None \<Rightarrow> if sch_Default property = [] then Inr (None, object, applied)
          else andThen (decodeJSON (sch_Default property)) (\<lambda>v.
            Inr (Some v, AList.update name v object, applied @ markLeaves v (child_pointer pointer name))))"

lemma size_list_sort_key: "size_list f (sort_key k xs) = size_list f xs"
proof -
  have "size_list f xs = sum_list (map f xs) + length xs" for xs by (induction xs) auto
  moreover have "sum_list (map f (sort_key k xs)) = sum_list (map f xs)"
    by (metis mset_map mset_sort sum_mset_sum_list)
  ultimately show ?thesis by simp
qed

function applyObjectDefaults ::
    "Schema \<Rightarrow> (string \<times> json) list \<Rightarrow> string \<Rightarrow> string list \<Rightarrow> ((string \<times> json) list \<times> string list) result"
and apply_properties ::
    "(string \<times> Schema) list \<Rightarrow> (string \<times> json) list \<Rightarrow> string \<Rightarrow> string list \<Rightarrow> ((string \<times> json) list \<times> string list) result"
where
  "applyObjectDefaults (Schema ty properties required additional items dflt enum format) object pointer applied =
     apply_properties (sort_key fst properties) object pointer applied"
| "apply_properties [] object pointer applied = Inr (object, applied)"
| "apply_properties ((name, property) # rest) object pointer applied =
     andThen (property_default name property object pointer applied) (\<lambda>(value, object, applied).
       case value of
         Some (JObj child) \<Rightarrow>
           if sch_Type property = TypeObject
           then andThen (applyObjectDefaults property child (child_pointer pointer name) applied) (\<lambda>(child', applied').
             apply_properties rest (AList.update name (JObj child') object) pointer applied')
           else apply_properties rest object pointer applied
       | _ \<Rightarrow> apply_properties rest object pointer applied)"
  by pat_completeness auto
termination
  by (relation "measure (\<lambda>x. case x of Inl (s, _) \<Rightarrow> size s | Inr (ps, _) \<Rightarrow> size_list (size_prod (\<lambda>_. 0) size) ps)")
    (auto simp: size_list_sort_key)

definition ApplyDefaults :: "Schema \<Rightarrow> (string \<times> json) list \<Rightarrow> ((string \<times> json) list \<times> string list) result" where
  "ApplyDefaults s value = ensure (validateDefinition s) (
     ensure (fail_if (sch_Type s \<noteq> TypeObject) (Errorf ''defaults require an object schema'')) (
     andThen (CloneObject value) (\<lambda>cloned. applyObjectDefaults s cloned [] [])))"

end
