(* ===== verification/Workflow_Compile.thy ===== *)
theory Workflow_Compile
  imports Workflow_Graph Schema_Defaults
begin

text \<open>
  Packages sdk/go/contracts, workflow.go, and kernel/workflow, compile.go: workflow definitions and
  their compilation into a plan. A slice that is written to JSON without \<^verbatim>\<open>omitempty\<close> is an option,
  so that nil and empty slices differ as their JSON does.
\<close>

section \<open>Definitions and plans\<close>

datatype EdgeKind = EdgeControl | EdgeData | EdgeKindOther string
datatype EdgeCondition = EdgeSuccess | EdgeFailure | EdgeAlways | EdgeConditionOther string

definition EdgeKind_Valid :: "EdgeKind \<Rightarrow> bool" where
  "EdgeKind_Valid k \<longleftrightarrow> k = EdgeControl \<or> k = EdgeData"

definition EdgeCondition_Valid :: "EdgeCondition \<Rightarrow> bool" where
  "EdgeCondition_Valid c \<longleftrightarrow> c = EdgeSuccess \<or> c = EdgeFailure \<or> c = EdgeAlways"

definition EdgeKind_string :: "EdgeKind \<Rightarrow> string" where
  "EdgeKind_string k = (case k of EdgeControl \<Rightarrow> ''control'' | EdgeData \<Rightarrow> ''data'' | EdgeKindOther s \<Rightarrow> s)"

definition EdgeCondition_string :: "EdgeCondition \<Rightarrow> string" where
  "EdgeCondition_string c = (case c of EdgeSuccess \<Rightarrow> ''success'' | EdgeFailure \<Rightarrow> ''failure'' | EdgeAlways \<Rightarrow> ''always''
     | EdgeConditionOther s \<Rightarrow> s)"

record NodeRetryPolicy =
  rp_MaxAttempts :: u32
  rp_InitialBackoffMillis :: u64
  rp_MaxBackoffMillis :: u64

record ValueBinding =
  vb_Target :: string
  vb_Value :: ValueExpr

record ResultBinding =
  rs_Source :: string
  rs_Target :: string

record CallAction =
  ca_TargetActionRef :: ActionRef
  ca_InputSchema :: Schema
  ca_TriggerSchema :: Schema
  ca_ScopeSchema :: Schema
  ca_ResultSchema :: Schema
  ca_InputMap :: "ValueBinding list option"
  ca_TriggerMap :: "ValueBinding list option"
  ca_ScopeMap :: "ValueBinding list option"
  ca_ResultMap :: "ResultBinding list"

record WorkflowNodeDefinition =
  wn_NodeID :: string
  wn_TypeRef :: string
  wn_DescriptorDigest :: string
  wn_InputSchema :: Schema
  wn_OutputSchema :: Schema
  wn_FixedInputs :: "(string \<times> json) list"
  wn_Bindings :: "ValueBinding list"
  wn_CallAction :: "CallAction option"
  wn_Retry :: "NodeRetryPolicy option"

record WorkflowEdge =
  we_From :: string
  we_To :: string
  we_Kind :: EdgeKind
  we_Condition :: EdgeCondition
  we_Route :: string
  we_SourcePort :: string

record WorkflowDefinition =
  wd_SchemaVersion :: string
  wd_WorkflowID :: string
  wd_Version :: string
  wd_InputSchema :: Schema
  wd_ResultSchema :: Schema
  wd_TriggerSchema :: Schema
  wd_ScopeSchema :: Schema
  wd_Secrets :: "string list"
  wd_Entrypoints :: "(string \<times> string) list"
  wd_Nodes :: "WorkflowNodeDefinition list"
  wd_Edges :: "WorkflowEdge list option"
  wd_ResultBindings :: "(string \<times> ValueBinding list) list"

record CompiledWorkflowPlan =
  cp_WorkflowID :: string
  cp_Version :: string
  cp_DefinitionDigest :: string
  cp_NodeOrder :: "string list"
  cp_EntrypointNodeOrder :: "(string \<times> string list) list"
  cp_Edges :: "WorkflowEdge list"
  cp_PlanDigest :: string

definition slice :: "'a list option \<Rightarrow> 'a list" where
  "slice s = (case s of None \<Rightarrow> [] | Some xs \<Rightarrow> xs)"

section \<open>Identity, schemas, nodes\<close>

definition workflow_SchemaVersion :: string where "workflow_SchemaVersion = ''xgc.workflow/v2''"
definition maxNodeAttempts :: u32 where "maxNodeAttempts = 100"
definition maxRetryBackoffMillis :: u64 where "maxRetryBackoffMillis = 24 * 60 * 60 * 1000"

definition public_schema :: "Schema \<Rightarrow> error option" where
  "public_schema s = first_error [validateDefinition s,
     fail_if (ContainsFormat s FormatSecretHandle) (Errorf ''workflow schema cannot expose secret handles'')]"

definition object_schemas :: "Schema list \<Rightarrow> bool" where
  "object_schemas ss \<longleftrightarrow> list_all (\<lambda>s. sch_Type s = TypeObject) ss"

definition validateIdentityAndSchemas :: "WorkflowDefinition \<Rightarrow> error option" where
  "validateIdentityAndSchemas d = first_error
     [fail_if (wd_SchemaVersion d \<noteq> workflow_SchemaVersion) (Errorf ''schemaVersion must be xgc.workflow/v2''),
      fail_if (\<not> ValidIdentifier (wd_WorkflowID d) \<or> \<not> ValidIdentifier (wd_Version d))
        (Errorf ''workflow identity and version must be portable identifiers''),
      fail_if (\<not> list_all ValidIdentifier (wd_Secrets d) \<or> \<not> distinct (wd_Secrets d)) (Errorf ''workflow secret name is invalid or duplicated''),
      public_schema (wd_InputSchema d), public_schema (wd_ResultSchema d), public_schema (wd_TriggerSchema d), public_schema (wd_ScopeSchema d),
      fail_if (\<not> object_schemas [wd_InputSchema d, wd_ResultSchema d, wd_TriggerSchema d, wd_ScopeSchema d])
        (Errorf ''workflow input, result, trigger, and scope schemas must be objects'')]"

definition validateRetryPolicy :: "NodeRetryPolicy option \<Rightarrow> error option" where
  "validateRetryPolicy policy = (case policy of None \<Rightarrow> None | Some p \<Rightarrow> first_error
     [fail_if (rp_MaxAttempts p = 0 \<or> rp_MaxAttempts p > maxNodeAttempts) (Errorf ''retry maxAttempts out of range''),
      fail_if (rp_MaxAttempts p = 1 \<and> (rp_InitialBackoffMillis p \<noteq> 0 \<or> rp_MaxBackoffMillis p \<noteq> 0))
        (Errorf ''retry backoff requires more than one attempt''),
      fail_if (rp_MaxAttempts p > 1 \<and> (rp_InitialBackoffMillis p = 0 \<or> rp_InitialBackoffMillis p > maxRetryBackoffMillis \<or>
          rp_MaxBackoffMillis p < rp_InitialBackoffMillis p \<or> rp_MaxBackoffMillis p > maxRetryBackoffMillis))
        (Errorf ''retry backoff bounds must be ordered'')])"

definition validate_node :: "string list \<Rightarrow> WorkflowNodeDefinition \<Rightarrow> error option" where
  "validate_node seen n = first_error
     [fail_if (\<not> ValidIdentifier (wn_NodeID n) \<or> \<not> ValidTypeRef (wn_TypeRef n)) (Errorf ''node identity or typeRef is invalid''),
      fail_if (\<not> ValidDigest (wn_DescriptorDigest n)) (Errorf ''node descriptor digest is invalid''),
      fail_if (wn_NodeID n \<in> set seen) (Errorf ''node is duplicated''),
      fail_if (\<not> object_schemas [wn_InputSchema n, wn_OutputSchema n]) (Errorf ''node input and output schemas must be objects''),
      validateDefinition (wn_InputSchema n),
      public_schema (wn_OutputSchema n),
      validateRetryPolicy (wn_Retry n)]"

fun index_nodes :: "string list \<Rightarrow> WorkflowNodeDefinition list \<Rightarrow> (string \<times> WorkflowNodeDefinition) list result" where
  "index_nodes seen [] = Inr []"
| "index_nodes seen (n # ns) = ensure (validate_node seen n)
     (andThen (index_nodes (wn_NodeID n # seen) ns) (\<lambda>nodes. Inr ((wn_NodeID n, n) # nodes)))"

definition indexNodes :: "WorkflowNodeDefinition list \<Rightarrow> (string \<times> WorkflowNodeDefinition) list result" where
  "indexNodes definitions = (if definitions = [] then Inl (Errorf ''workflow must contain at least one node'') else index_nodes [] definitions)"

section \<open>The graph\<close>

definition normalize_edge :: "WorkflowEdge \<Rightarrow> WorkflowEdge" where
  "normalize_edge e = (if EdgeCondition_string (we_Condition e) = [] then e\<lparr>we_Condition := EdgeSuccess\<rparr> else e)"

definition edge_key :: "WorkflowEdge \<Rightarrow> string list" where
  "edge_key e = [we_From e, we_To e, EdgeKind_string (we_Kind e), EdgeCondition_string (we_Condition e), we_Route e, we_SourcePort e]"

fun join :: "string \<Rightarrow> string list \<Rightarrow> string" where
  "join sep [] = []"
| "join sep [x] = x"
| "join sep (x # y # xs) = x @ sep @ join sep (y # xs)"

definition edge_identity :: "WorkflowEdge \<Rightarrow> string" where
  "edge_identity e = join [CHR 0x00] (edge_key e)"

definition validate_edge :: "string list \<Rightarrow> string list \<Rightarrow> WorkflowEdge \<Rightarrow> error option" where
  "validate_edge nodes seen e = (let n = normalize_edge e in first_error
     [fail_if (\<not> EdgeKind_Valid (we_Kind e)) (Errorf ''edge has invalid kind''),
      fail_if (we_From e \<notin> set nodes) (Errorf ''edge source does not exist''),
      fail_if (we_To e \<notin> set nodes) (Errorf ''edge target does not exist''),
      fail_if (we_From e = we_To e) (Errorf ''node cannot depend on itself''),
      fail_if (\<not> EdgeCondition_Valid (we_Condition n)) (Errorf ''edge has invalid condition''),
      fail_if (we_Route e \<noteq> [] \<and> \<not> ValidIdentifier (we_Route e)) (Errorf ''edge route is invalid''),
      fail_if (we_SourcePort e \<noteq> [] \<and> \<not> ValidIdentifier (we_SourcePort e)) (Errorf ''edge source port is invalid''),
      fail_if (we_Condition n \<noteq> EdgeSuccess \<and> (we_Route e \<noteq> [] \<or> we_SourcePort e \<noteq> []))
        (Errorf ''edge route and sourcePort require success condition''),
      fail_if (edge_identity n \<in> set seen) (Errorf ''edge is duplicated'')])"

record graph_state =
  gs_graph :: dependencyGraph
  gs_dataEdges :: predecessorMap
  gs_controlEdges :: predecessorMap
  gs_seen :: "string list"
  gs_edges :: "WorkflowEdge list"

definition place_edge :: "graph_state \<Rightarrow> WorkflowEdge \<Rightarrow> graph_state" where
  "place_edge s e = (let s' = s\<lparr>gs_graph := add_edge (gs_graph s) (we_From e) (we_To e),
       gs_seen := edge_identity e # gs_seen s, gs_edges := gs_edges s @ [e]\<rparr> in
     if we_Kind e = EdgeData then s'\<lparr>gs_dataEdges := add_edge (gs_dataEdges s) (we_To e) (we_From e)\<rparr>
     else s'\<lparr>gs_controlEdges := add_edge (gs_controlEdges s) (we_To e) (we_From e)\<rparr>)"

fun place_edges :: "string list \<Rightarrow> graph_state \<Rightarrow> WorkflowEdge list \<Rightarrow> graph_state result" where
  "place_edges nodes s [] = Inr s"
| "place_edges nodes s (e # es) = ensure (validate_edge nodes (gs_seen s) e) (place_edges nodes (place_edge s (normalize_edge e)) es)"

definition empty_graph :: "string list \<Rightarrow> graph_state" where
  "empty_graph nodes = \<lparr>gs_graph = map (\<lambda>n. (n, [])) nodes, gs_dataEdges = [], gs_controlEdges = [], gs_seen = [], gs_edges = []\<rparr>"

definition buildGraph :: "WorkflowDefinition \<Rightarrow> (string \<times> WorkflowNodeDefinition) list \<Rightarrow> graph_state result" where
  "buildGraph d nodes = andThen (place_edges (map fst nodes) (empty_graph (map fst nodes)) (slice (wd_Edges d)))
     (\<lambda>s. Inr (s\<lparr>gs_edges := sort_key edge_key (gs_edges s)\<rparr>))"

definition validateEntrypoints :: "(string \<times> string) list \<Rightarrow> (string \<times> WorkflowNodeDefinition) list \<Rightarrow> string list result" where
  "validateEntrypoints entrypoints nodes = ensure (first_error
     [fail_if (entrypoints = []) (Errorf ''workflow must declare at least one entrypoint''),
      first_error (map (\<lambda>kv. first_error [fail_if (\<not> ValidIdentifier (fst kv)) (Errorf ''entrypoint is invalid''),
        fail_if (map_of nodes (snd kv) = None) (Errorf ''entrypoint targets missing node'')]) entrypoints)])
     (Inr (sort (remdups (map snd entrypoints))))"

definition validateReachability :: "dependencyGraph \<Rightarrow> string list \<Rightarrow> (string \<times> WorkflowNodeDefinition) list \<Rightarrow> error option" where
  "validateReachability g entries nodes = (let reached = reachable g entries [] in
     fail_if (\<not> list_all (\<lambda>n. n \<in> set reached) (map fst nodes)) (Errorf ''unreachable workflow nodes''))"

section \<open>Assembly of inputs\<close>

text \<open>\<^verbatim>\<open>pointerSegments\<close>: a JSON Pointer as the list of its segments.\<close>

fun split_slashes :: "string \<Rightarrow> string list" where
  "split_slashes [] = [[]]"
| "split_slashes (c # s) = (if c = CHR ''/'' then [] # split_slashes s else (c # hd (split_slashes s)) # tl (split_slashes s))"

fun unescape_segment :: "string \<Rightarrow> string option" where
  "unescape_segment [] = Some []"
| "unescape_segment (c # s) =
     (if c \<noteq> CHR ''~'' then map_option (Cons c) (unescape_segment s)
      else (case s of [] \<Rightarrow> None
        | e # r \<Rightarrow> if e = CHR ''0'' then map_option (Cons (CHR ''~'')) (unescape_segment r)
            else if e = CHR ''1'' then map_option (Cons (CHR ''/'')) (unescape_segment r) else None))"

fun pointer_parts :: "string list \<Rightarrow> string list result" where
  "pointer_parts [] = Inr []"
| "pointer_parts (raw # rest) =
     (if raw = [] then Inl (Errorf ''binding target contains an empty path segment'')
      else (case unescape_segment raw of
          None \<Rightarrow> Inl (Errorf ''binding target contains an invalid JSON Pointer escape'')
        | Some seg \<Rightarrow> andThen (pointer_parts rest) (\<lambda>segs. Inr (seg # segs))))"

definition pointerSegments :: "string \<Rightarrow> string list result" where
  "pointerSegments pointer = (if pointer = [] \<or> pointer = ''/'' \<or> hd pointer \<noteq> CHR ''/'' then Inl (Errorf ''binding target must be a non-root JSON Pointer'')
     else pointer_parts (split_slashes (tl pointer)))"

definition has_prefix :: "string \<Rightarrow> string \<Rightarrow> bool" where
  "has_prefix s p \<longleftrightarrow> take (length p) s = p"

definition covered :: "string \<Rightarrow> string list \<Rightarrow> bool" where
  "covered pointer provided \<longleftrightarrow>
     list_ex (\<lambda>assigned. assigned = pointer \<or> has_prefix pointer (assigned @ ''/'') \<or> has_prefix assigned (pointer @ ''/'')) provided"

function requiredPointers :: "Schema \<Rightarrow> string \<Rightarrow> string list" where
  "requiredPointers (Schema ty properties required additional items dflt enum format) pointer =
     concat (map (\<lambda>name. case map_of properties name of
         None \<Rightarrow> [child_pointer pointer name]
       | Some p \<Rightarrow> (let children = requiredPointers p (child_pointer pointer name) in
           if sch_Type p \<noteq> TypeObject \<or> children = [] then [child_pointer pointer name] else children)) required)"
  by pat_completeness auto
termination
  by (relation "measure (\<lambda>(s, p). size s)") (auto simp: size_schema_member termination_simp)

declare requiredPointers.simps [simp del]

text \<open>The fixed inputs, with the pointers they provide.\<close>

fun validateFixed :: "Schema \<Rightarrow> (string \<times> json) list \<Rightarrow> string \<Rightarrow> string list result" where
  "validateFixed s [] pointer = Inr []"
| "validateFixed s ((name, child) # rest) pointer =
     (case map_of (sch_Properties s) name of
        None \<Rightarrow> Inl (Errorf ''unknown property'')
      | Some property \<Rightarrow>
          if sch_Format property = FormatSecretHandle then Inl (Errorf ''property is a secret slot and cannot have an authored fixed value'')
          else (case (child, sch_Type property) of
              (JObj object, TypeObject) \<Rightarrow>
                andThen (validateFixed property object (child_pointer pointer name)) (\<lambda>inner.
                andThen (validateFixed s rest pointer) (\<lambda>others.
                Inr (inner @ (if object = [] then [child_pointer pointer name] else []) @ others)))
            | _ \<Rightarrow> ensure (ValidateValue property child)
                (andThen (validateFixed s rest pointer) (\<lambda>others. Inr (child_pointer pointer name # others)))))"

fun check_bindings :: "Schema \<Rightarrow> Environment \<Rightarrow> string list \<Rightarrow> string list \<Rightarrow> ValueBinding list \<Rightarrow> string list result" where
  "check_bindings s env seen provided [] = Inr provided"
| "check_bindings s env seen provided (b # bs) =
     andThen (pointerSegments (vb_Target b)) (\<lambda>segments.
     ensure (fail_if (vb_Target b \<in> set seen \<or> covered (vb_Target b) provided) (Errorf ''binding target is assigned more than once'')) (
     andThen (Schema_Resolve s segments) (\<lambda>target.
     ensure (CheckAssignable (vb_Value b) env target) (
     check_bindings s env (vb_Target b # seen) (vb_Target b # provided) bs))))"

definition validateInputAssembly :: "Schema \<Rightarrow> (string \<times> json) list \<Rightarrow> ValueBinding list \<Rightarrow> Environment \<Rightarrow> error option" where
  "validateInputAssembly s fixed bindings env = err_of (
     andThen (validateFixed s fixed []) (\<lambda>provided.
     andThen (check_bindings s env [] provided bindings) (\<lambda>provided.
     andThen (ApplyDefaults s []) (\<lambda>(_, defaults).
     ensure (fail_if (\<not> list_all (\<lambda>p. covered p (defaults @ provided)) (requiredPointers s [])) (Errorf ''required input is not assigned'')) (Inr ())))))"

definition result_binding :: "ResultBinding \<Rightarrow> ValueBinding result" where
  "result_binding m = andThen (pointerSegments (rs_Source m)) (\<lambda>segments.
     Inr \<lparr>vb_Target = rs_Target m, vb_Value = ValueExpr None (''inputs.'' @ join ''.'' segments) [] None None None\<rparr>)"

fun result_bindings :: "ResultBinding list \<Rightarrow> ValueBinding list result" where
  "result_bindings [] = Inr []"
| "result_bindings (m # ms) = andThen (result_binding m) (\<lambda>b. andThen (result_bindings ms) (\<lambda>bs. Inr (b # bs)))"

definition result_environment :: "CallAction \<Rightarrow> Environment" where
  "result_environment c = \<lparr>en_Inputs = ca_ResultSchema c, en_Trigger = type_schema TypeObject, en_Scope = type_schema TypeObject,
     en_NodeOutputs = [], en_VisibleNodes = [], en_Iteration = None, en_Secrets = []\<rparr>"

definition validateCallAction :: "CallAction \<Rightarrow> Schema \<Rightarrow> Environment \<Rightarrow> error option" where
  "validateCallAction c nodeOutput env = first_error
     [fail_if (\<not> ValidIdentifier (ar_ActionID (ca_TargetActionRef c)) \<or> \<not> ValidIdentifier (ar_Version (ca_TargetActionRef c)) \<or>
        \<not> ValidDigest (ar_Digest (ca_TargetActionRef c))) (Errorf ''child action ref is invalid''),
      fail_if (\<not> object_schemas [ca_InputSchema c, ca_TriggerSchema c, ca_ScopeSchema c, ca_ResultSchema c])
        (Errorf ''child action schemas must be objects''),
      first_error (map validateDefinition [ca_InputSchema c, ca_TriggerSchema c, ca_ScopeSchema c, ca_ResultSchema c]),
      fail_if (list_ex (\<lambda>s. ContainsFormat s FormatSecretHandle) [ca_TriggerSchema c, ca_ScopeSchema c, ca_ResultSchema c])
        (Errorf ''child trigger, scope, and result schemas cannot expose secret handles''),
      validateInputAssembly (ca_InputSchema c) [] (slice (ca_InputMap c)) env,
      validateInputAssembly (ca_TriggerSchema c) [] (slice (ca_TriggerMap c)) env,
      validateInputAssembly (ca_ScopeSchema c) [] (slice (ca_ScopeMap c)) env,
      (case result_bindings (ca_ResultMap c) of Inl e \<Rightarrow> Some e
       | Inr bs \<Rightarrow> validateInputAssembly nodeOutput [] bs (result_environment c))]"

section \<open>The JSON of definitions and plans\<close>

text \<open>
  \<^verbatim>\<open>json.RawMessage\<close> is written as it is; the canonical text is made of its decoded value.
  An invalid raw message makes the digest fail.
\<close>

fun collect :: "('a \<Rightarrow> 'b result) \<Rightarrow> 'a list \<Rightarrow> 'b list result" where
  "collect f [] = Inr []"
| "collect f (x # xs) = andThen (f x) (\<lambda>y. andThen (collect f xs) (\<lambda>ys. Inr (y # ys)))"

lemma collect_cong [fundef_cong]:
  assumes "xs = ys" and "\<And>x. x \<in> set ys \<Longrightarrow> f x = g x"
  shows "collect f xs = collect g ys"
  using assms(2) unfolding assms(1) by (induction ys) simp_all

definition raw_json :: "string \<Rightarrow> json result" where
  "raw_json raw = Decode raw (DefaultLimits\<lparr>MaxInputBytes := int (length raw) + 1\<rparr>)"

definition named :: "('a \<Rightarrow> json result) \<Rightarrow> string \<times> 'a \<Rightarrow> (string \<times> json) result" where
  "named f kv = andThen (f (snd kv)) (\<lambda>j. Inr (fst kv, j))"

definition JSONType_string :: "JSONType \<Rightarrow> string" where
  "JSONType_string t = (case t of TypeObject \<Rightarrow> ''object'' | TypeArray \<Rightarrow> ''array'' | TypeString \<Rightarrow> ''string'' | TypeNumber \<Rightarrow> ''number''
     | TypeInteger \<Rightarrow> ''integer'' | TypeBoolean \<Rightarrow> ''boolean'' | TypeNull \<Rightarrow> ''null'' | JSONTypeOther s \<Rightarrow> s)"

fun Schema_json :: "Schema \<Rightarrow> json result" where
  "Schema_json (Schema ty properties required additional items dflt enum format) =
     andThen (collect (\<lambda>kv. andThen (Schema_json (snd kv)) (\<lambda>j. Inr (fst kv, j))) properties) (\<lambda>ps.
     andThen (case items of None \<Rightarrow> Inr [] | Some i \<Rightarrow> andThen (Schema_json i) (\<lambda>j. Inr [(''items'', j)])) (\<lambda>is.
     andThen (if dflt = [] then Inr [] else andThen (raw_json dflt) (\<lambda>j. Inr [(''default'', j)])) (\<lambda>ds.
     andThen (collect raw_json enum) (\<lambda>es.
     Inr (JObj ([(''type'', JStr (JSONType_string ty))] @ omitempty (properties \<noteq> []) ''properties'' (JObj ps) @
       omitempty (required \<noteq> []) ''required'' (JArr (map JStr required)) @ [(''additionalProperties'', JBool additional)] @ is @ ds @
       omitempty (enum \<noteq> []) ''enum'' (JArr es) @ omitempty (format \<noteq> []) ''format'' (JStr format)))))))"

fun ValueExpr_json :: "ValueExpr \<Rightarrow> json result" where
  "ValueExpr_json (ValueExpr literal ref op args members elements) =
     andThen (case literal of None \<Rightarrow> Inr [] | Some raw \<Rightarrow> andThen (raw_json raw) (\<lambda>j. Inr [(''literal'', j)])) (\<lambda>ls.
     andThen (collect ValueExpr_json (case args of None \<Rightarrow> [] | Some as \<Rightarrow> as)) (\<lambda>as.
     andThen (collect (\<lambda>kv. andThen (ValueExpr_json (snd kv)) (\<lambda>j. Inr (fst kv, j))) (case members of None \<Rightarrow> [] | Some ms \<Rightarrow> ms)) (\<lambda>ms.
     andThen (case elements of None \<Rightarrow> Inr [] | Some xs \<Rightarrow> andThen (collect ValueExpr_json xs) (\<lambda>js. Inr [(''array'', JArr js)])) (\<lambda>es.
     Inr (JObj (ls @ omitempty (ref \<noteq> []) ''ref'' (JStr ref) @ omitempty (op \<noteq> []) ''op'' (JStr op) @
       omitempty (as \<noteq> []) ''args'' (JArr as) @ omitempty (ms \<noteq> []) ''object'' (JObj ms) @ es))))))"

definition ValueBinding_json :: "ValueBinding \<Rightarrow> json result" where
  "ValueBinding_json b = andThen (ValueExpr_json (vb_Value b)) (\<lambda>v. Inr (JObj [(''target'', JStr (vb_Target b)), (''value'', v)]))"

definition bindings_json :: "ValueBinding list option \<Rightarrow> json result" where
  "bindings_json bs = (case bs of None \<Rightarrow> Inr JNull | Some xs \<Rightarrow> andThen (collect ValueBinding_json xs) (\<lambda>js. Inr (JArr js)))"

definition ResultBinding_json :: "ResultBinding \<Rightarrow> json" where
  "ResultBinding_json m = JObj [(''source'', JStr (rs_Source m)), (''target'', JStr (rs_Target m))]"

definition CallAction_json :: "CallAction \<Rightarrow> json result" where
  "CallAction_json c =
     andThen (collect (named Schema_json) [(''inputSchema'', ca_InputSchema c), (''triggerSchema'', ca_TriggerSchema c),
       (''scopeSchema'', ca_ScopeSchema c), (''resultSchema'', ca_ResultSchema c)]) (\<lambda>ss.
     andThen (collect (named bindings_json) [(''inputMap'', ca_InputMap c), (''triggerMap'', ca_TriggerMap c), (''scopeMap'', ca_ScopeMap c)]) (\<lambda>ms.
     Inr (JObj ([(''targetActionRef'', ActionRef_json (ca_TargetActionRef c))] @ ss @ ms @
       omitempty (ca_ResultMap c \<noteq> []) ''resultMap'' (JArr (map ResultBinding_json (ca_ResultMap c)))))))"

definition NodeRetryPolicy_json :: "NodeRetryPolicy \<Rightarrow> json" where
  "NodeRetryPolicy_json p = JObj [(''maxAttempts'', JNum (decimal_u32 (rp_MaxAttempts p))),
     (''initialBackoffMillis'', JNum (decimal_u64 (rp_InitialBackoffMillis p))), (''maxBackoffMillis'', JNum (decimal_u64 (rp_MaxBackoffMillis p)))]"

definition WorkflowNodeDefinition_json :: "WorkflowNodeDefinition \<Rightarrow> json result" where
  "WorkflowNodeDefinition_json n =
     andThen (collect (named Schema_json) [(''inputSchema'', wn_InputSchema n), (''outputSchema'', wn_OutputSchema n)]) (\<lambda>ss.
     andThen (if wn_Bindings n = [] then Inr [] else andThen (bindings_json (Some (wn_Bindings n))) (\<lambda>j. Inr [(''bindings'', j)])) (\<lambda>bs.
     andThen (case wn_CallAction n of None \<Rightarrow> Inr [] | Some c \<Rightarrow> andThen (CallAction_json c) (\<lambda>j. Inr [(''callAction'', j)])) (\<lambda>cs.
     Inr (JObj ([(''nodeId'', JStr (wn_NodeID n)), (''typeRef'', JStr (wn_TypeRef n)), (''descriptorDigest'', JStr (wn_DescriptorDigest n))] @ ss @
       omitempty (wn_FixedInputs n \<noteq> []) ''fixedInputs'' (JObj (wn_FixedInputs n)) @ bs @ cs @
       (case wn_Retry n of None \<Rightarrow> [] | Some p \<Rightarrow> [(''retry'', NodeRetryPolicy_json p)]))))))"

definition WorkflowEdge_json :: "WorkflowEdge \<Rightarrow> json" where
  "WorkflowEdge_json e = JObj ([(''from'', JStr (we_From e)), (''to'', JStr (we_To e)), (''kind'', JStr (EdgeKind_string (we_Kind e)))] @
     omitempty (EdgeCondition_string (we_Condition e) \<noteq> []) ''condition'' (JStr (EdgeCondition_string (we_Condition e))) @
     omitempty (we_Route e \<noteq> []) ''route'' (JStr (we_Route e)) @ omitempty (we_SourcePort e \<noteq> []) ''sourcePort'' (JStr (we_SourcePort e)))"

definition WorkflowDefinition_json :: "WorkflowDefinition \<Rightarrow> json result" where
  "WorkflowDefinition_json d =
     andThen (collect (named Schema_json) [(''inputSchema'', wd_InputSchema d), (''resultSchema'', wd_ResultSchema d),
       (''triggerSchema'', wd_TriggerSchema d), (''scopeSchema'', wd_ScopeSchema d)]) (\<lambda>ss.
     andThen (collect WorkflowNodeDefinition_json (wd_Nodes d)) (\<lambda>ns.
     andThen (collect (\<lambda>kv. named bindings_json (fst kv, Some (snd kv))) (wd_ResultBindings d)) (\<lambda>rs.
     Inr (JObj ([(''schemaVersion'', JStr (wd_SchemaVersion d)), (''workflowId'', JStr (wd_WorkflowID d)), (''version'', JStr (wd_Version d))] @ ss @
       omitempty (wd_Secrets d \<noteq> []) ''secrets'' (JArr (map JStr (wd_Secrets d))) @
       [(''entrypoints'', JObj (map (\<lambda>kv. (fst kv, JStr (snd kv))) (wd_Entrypoints d))), (''nodes'', JArr ns),
        (''edges'', case wd_Edges d of None \<Rightarrow> JNull | Some es \<Rightarrow> JArr (map WorkflowEdge_json es))] @
       omitempty (wd_ResultBindings d \<noteq> []) ''resultBindings'' (JObj rs))))))"

definition unsigned_plan_json :: "CompiledWorkflowPlan \<Rightarrow> json" where
  "unsigned_plan_json p = JObj [(''workflowId'', JStr (cp_WorkflowID p)), (''version'', JStr (cp_Version p)),
     (''definitionDigest'', JStr (cp_DefinitionDigest p)), (''nodeOrder'', JArr (map JStr (cp_NodeOrder p))),
     (''entrypointNodeOrder'', JObj (map (\<lambda>kv. (fst kv, JArr (map JStr (snd kv)))) (cp_EntrypointNodeOrder p))),
     (''edges'', JArr (map WorkflowEdge_json (cp_Edges p)))]"

section \<open>Compilation\<close>

definition base_environment :: "WorkflowDefinition \<Rightarrow> (string \<times> WorkflowNodeDefinition) list \<Rightarrow> Environment" where
  "base_environment d nodes = \<lparr>en_Inputs = wd_InputSchema d, en_Trigger = wd_TriggerSchema d, en_Scope = wd_ScopeSchema d,
     en_NodeOutputs = map (\<lambda>kv. (fst kv, wn_OutputSchema (snd kv))) nodes, en_VisibleNodes = [], en_Iteration = None,
     en_Secrets = map (\<lambda>n. (n, True)) (wd_Secrets d)\<rparr>"

definition node_environment :: "WorkflowDefinition \<Rightarrow> (string \<times> WorkflowNodeDefinition) list \<Rightarrow> graph_state \<Rightarrow> string list \<Rightarrow> string \<Rightarrow> Environment" where
  "node_environment d nodes s entries nodeID =
     (base_environment d nodes)\<lparr>en_VisibleNodes := visiblePredecessors nodeID (gs_dataEdges s) (gs_controlEdges s) (gs_graph s) entries\<rparr>"

definition validate_assembly :: "WorkflowDefinition \<Rightarrow> (string \<times> WorkflowNodeDefinition) list \<Rightarrow> graph_state \<Rightarrow> string list \<Rightarrow> string \<Rightarrow> error option" where
  "validate_assembly d nodes s entries nodeID = (case map_of nodes nodeID of None \<Rightarrow> None | Some n \<Rightarrow>
     (let env = node_environment d nodes s entries nodeID in first_error
       [validateInputAssembly (wn_InputSchema n) (wn_FixedInputs n) (wn_Bindings n) env,
        (case wn_CallAction n of None \<Rightarrow> None | Some c \<Rightarrow> validateCallAction c (wn_OutputSchema n) env)]))"

definition result_bindings_of :: "WorkflowDefinition \<Rightarrow> string \<Rightarrow> ValueBinding list" where
  "result_bindings_of d name = (case map_of (wd_ResultBindings d) name of None \<Rightarrow> [] | Some bs \<Rightarrow> bs)"

definition validate_results :: "WorkflowDefinition \<Rightarrow> (string \<times> WorkflowNodeDefinition) list \<Rightarrow> graph_state \<Rightarrow> error option" where
  "validate_results d nodes s = first_error
     [fail_if (\<not> list_all (\<lambda>kv. map_of (wd_Entrypoints d) (fst kv) \<noteq> None) (wd_ResultBindings d))
        (Errorf ''workflow result binding targets unknown entrypoint''),
      first_error (map (\<lambda>kv. validateInputAssembly (wd_ResultSchema d) [] (result_bindings_of d (fst kv))
        ((base_environment d nodes)\<lparr>en_VisibleNodes := resultVisibleNodes (gs_graph s) [snd kv]\<rparr>)) (wd_Entrypoints d))]"

definition entrypoint_orders :: "WorkflowDefinition \<Rightarrow> dependencyGraph \<Rightarrow> string list \<Rightarrow> (string \<times> string list) list" where
  "entrypoint_orders d g order = map (\<lambda>kv. (fst kv, filter (\<lambda>n. n \<in> set (reachable g [snd kv] [])) order)) (wd_Entrypoints d)"

definition seal_plan :: "WorkflowDefinition \<Rightarrow> graph_state \<Rightarrow> string list \<Rightarrow> CompiledWorkflowPlan result" where
  "seal_plan d s order =
     andThen (andThen (WorkflowDefinition_json d) DigestValue) (\<lambda>definitionDigest.
     let plan = \<lparr>cp_WorkflowID = wd_WorkflowID d, cp_Version = wd_Version d, cp_DefinitionDigest = definitionDigest, cp_NodeOrder = order,
       cp_EntrypointNodeOrder = entrypoint_orders d (gs_graph s) order, cp_Edges = gs_edges s, cp_PlanDigest = []\<rparr> in
     andThen (DigestValue (unsigned_plan_json plan)) (\<lambda>planDigest. Inr (plan\<lparr>cp_PlanDigest := planDigest\<rparr>)))"

definition Compile :: "WorkflowDefinition \<Rightarrow> CompiledWorkflowPlan result" where
  "Compile d = ensure (validateIdentityAndSchemas d) (
     andThen (indexNodes (wd_Nodes d)) (\<lambda>nodes.
     andThen (buildGraph d nodes) (\<lambda>s.
     andThen (validateEntrypoints (wd_Entrypoints d) nodes) (\<lambda>entries.
     andThen (topologicalOrder (gs_graph s)) (\<lambda>order.
     ensure (validateReachability (gs_graph s) entries nodes) (
     ensure (first_error (map (validate_assembly d nodes s entries) order)) (
     ensure (validate_results d nodes s) (
     seal_plan d s order))))))))"

end
