(* ===== verification/Workflow_Props.thy ===== *)
theory Workflow_Props
  imports Graph_Props Workflow_Compile
begin

text \<open>
  The stages of the workflow compiler: what indexed nodes, the graph and the checked bindings of a
  definition guarantee.
\<close>

section \<open>Nodes\<close>

lemma index_nodes_facts:
  assumes "index_nodes seen ns = Inr nodes"
  shows "nodes = map (\<lambda>n. (wn_NodeID n, n)) ns \<and> distinct (map wn_NodeID ns) \<and> (\<forall>n \<in> set ns. ValidIdentifier (wn_NodeID n) \<and> wn_NodeID n \<notin> set seen)"
  using assms by (induction seen ns arbitrary: nodes rule: index_nodes.induct) (auto simp: validate_node_def)

lemma indexNodes_facts:
  assumes "indexNodes ns = Inr nodes"
  shows "nodes = map (\<lambda>n. (wn_NodeID n, n)) ns" and "distinct (map wn_NodeID ns)" and "map fst nodes = map wn_NodeID ns"
  using assms index_nodes_facts [of "[]" ns nodes] by (auto simp: indexNodes_def comp_def split: if_splits)

section \<open>The graph of a definition\<close>

definition edge_list :: "WorkflowDefinition \<Rightarrow> WorkflowEdge list" where
  "edge_list d = map normalize_edge (slice (wd_Edges d))"

definition depends :: "WorkflowEdge list \<Rightarrow> string \<Rightarrow> string \<Rightarrow> bool" where
  "depends es a b \<longleftrightarrow> (\<exists>e \<in> set es. we_From e = a \<and> we_To e = b)"

definition depends_by :: "EdgeKind \<Rightarrow> WorkflowEdge list \<Rightarrow> string \<Rightarrow> string \<Rightarrow> bool" where
  "depends_by k es a b \<longleftrightarrow> (\<exists>e \<in> set es. we_From e = a \<and> we_To e = b \<and> we_Kind e = k)"

definition graph_state_ok :: "string list \<Rightarrow> graph_state \<Rightarrow> bool" where
  "graph_state_ok nodes s \<longleftrightarrow> graph_wf (gs_graph s) \<and> graph_nodes (gs_graph s) = nodes \<and>
     (\<forall>a b. has_edge (gs_graph s) a b \<longleftrightarrow> depends (gs_edges s) a b) \<and>
     (\<forall>a b. has_edge (gs_dataEdges s) b a \<longleftrightarrow> depends_by EdgeData (gs_edges s) a b) \<and>
     (\<forall>a b. has_edge (gs_controlEdges s) b a \<longleftrightarrow> depends_by EdgeControl (gs_edges s) a b) \<and>
     distinct (map fst (gs_controlEdges s)) \<and> (\<forall>e \<in> set (gs_edges s). we_From e \<in> set nodes \<and> we_To e \<in> set nodes)"

lemma normalize_edge_sel [simp]:
  "we_From (normalize_edge e) = we_From e" "we_To (normalize_edge e) = we_To e" "we_Kind (normalize_edge e) = we_Kind e"
  by (simp_all add: normalize_edge_def)

lemma depends_snoc: "depends (es @ [e]) a b \<longleftrightarrow> depends es a b \<or> (we_From e = a \<and> we_To e = b)"
  and depends_by_snoc: "depends_by k (es @ [e]) a b \<longleftrightarrow> depends_by k es a b \<or> (we_From e = a \<and> we_To e = b \<and> we_Kind e = k)"
  by (auto simp: depends_def depends_by_def)

lemma place_edge_ok:
  assumes "graph_state_ok nodes s" and "we_From e \<in> set nodes" and "we_To e \<in> set nodes" and "EdgeKind_Valid (we_Kind e)"
  shows "graph_state_ok nodes (place_edge s e) \<and> gs_edges (place_edge s e) = gs_edges s @ [e]"
proof -
  have "graph_wf (add_edge (gs_graph s) (we_From e) (we_To e))" "graph_nodes (add_edge (gs_graph s) (we_From e) (we_To e)) = nodes"
    using assms add_edge_wf add_edge_nodes by (auto simp: graph_state_ok_def)
  moreover have "distinct (map fst (add_edge (gs_controlEdges s) (we_To e) (we_From e)))"
    using assms(1) by (simp add: graph_state_ok_def add_edge_def distinct_update)
  ultimately show ?thesis
    using assms unfolding graph_state_ok_def EdgeKind_Valid_def
    by (auto simp: place_edge_def Let_def add_edge_has_edge depends_snoc depends_by_snoc)
qed

lemma place_edges_ok:
  assumes "place_edges nodes s es = Inr t" and "graph_state_ok nodes s"
  shows "graph_state_ok nodes t \<and> gs_edges t = gs_edges s @ map normalize_edge es"
  using assms
proof (induction nodes s es arbitrary: t rule: place_edges.induct)
  case (2 nodes s e es)
  then have v: "we_From e \<in> set nodes" "we_To e \<in> set nodes" "EdgeKind_Valid (we_Kind e)"
    and p: "place_edges nodes (place_edge s (normalize_edge e)) es = Inr t" and n: "validate_edge nodes (gs_seen s) e = None"
    by (auto simp: validate_edge_def Let_def)
  have ok: "graph_state_ok nodes (place_edge s (normalize_edge e)) \<and> gs_edges (place_edge s (normalize_edge e)) = gs_edges s @ [normalize_edge e]"
    using place_edge_ok [OF "2.prems"(2), of "normalize_edge e"] v by simp
  then show ?case using "2.IH" [OF p] by simp
qed auto

lemma empty_graph_ok: "distinct nodes \<Longrightarrow> graph_state_ok nodes (empty_graph nodes)"
proof -
  assume d: "distinct nodes"
  have "successors (map (\<lambda>n. (n, [])) nodes) a = []" for a :: string
    by (cases "map_of (map (\<lambda>n. (n, [] :: string list)) nodes) a") (auto simp: successors_def dest!: map_of_SomeD)
  then show ?thesis
    using d by (auto simp: graph_state_ok_def empty_graph_def graph_wf_def graph_nodes_def comp_def has_edge_def depends_def depends_by_def successors_def)
qed

lemma buildGraph_ok:
  assumes "buildGraph d nodes = Inr s" and "distinct (map fst nodes)"
  shows "graph_state_ok (map fst nodes) s" and "gs_edges s = sort_key edge_key (edge_list d)"
proof -
  obtain t where t: "place_edges (map fst nodes) (empty_graph (map fst nodes)) (slice (wd_Edges d)) = Inr t"
      "s = t\<lparr>gs_edges := sort_key edge_key (gs_edges t)\<rparr>"
    using assms(1) by (auto simp: buildGraph_def)
  note p = place_edges_ok [OF t(1) empty_graph_ok [OF assms(2)]]
  then have e: "gs_edges t = edge_list d" by (simp add: empty_graph_def edge_list_def)
  show "gs_edges s = sort_key edge_key (edge_list d)" by (simp add: t(2) e)
  show "graph_state_ok (map fst nodes) s"
    using p by (simp add: t(2) graph_state_ok_def depends_def depends_by_def)
qed

lemma depends_sort [simp]: "depends (sort_key k es) a b = depends es a b" "depends_by j (sort_key k es) a b = depends_by j es a b"
  by (simp_all add: depends_def depends_by_def)

section \<open>Visible nodes\<close>

lemma fold_add_edges:
  "has_edge (fold (\<lambda>p g. add_edge g p b) ps g) c e \<longleftrightarrow> has_edge g c e \<or> (c \<in> set ps \<and> e = b)"
  by (induction ps arbitrary: g) (auto simp: add_edge_has_edge)

lemma control_projection_fold:
  "has_edge (fold (\<lambda>(b, ps). fold (\<lambda>p g. add_edge g p b) ps) ce g) c e \<longleftrightarrow> has_edge g c e \<or> (\<exists>ps. (e, ps) \<in> set ce \<and> c \<in> set ps)"
  by (induction ce arbitrary: g) (auto simp: fold_add_edges split: prod.splits)

lemma control_projection_edge:
  assumes "distinct (map fst ce)"
  shows "has_edge (control_projection g ce) a b \<longleftrightarrow> has_edge ce b a"
proof -
  have "\<not> has_edge (map (\<lambda>kv. (fst kv, [])) g) a b" by (simp add: has_edge_def successors_empty)
  moreover have "(\<exists>ps. (b, ps) \<in> set ce \<and> a \<in> set ps) \<longleftrightarrow> has_edge ce b a"
    using assms by (cases "map_of ce b") (auto simp: has_edge_def successors_def map_of_eq_None_iff dest: map_of_SomeD eq_key_imp_eq_value [OF assms])
  ultimately show ?thesis by (simp add: control_projection_def control_projection_fold)
qed

definition walk :: "('a \<Rightarrow> 'a \<Rightarrow> bool) \<Rightarrow> 'a list \<Rightarrow> bool" where
  "walk r p \<longleftrightarrow> p \<noteq> [] \<and> successively r p"

lemma visible_predecessor:
  assumes "graph_state_ok nodes s"
    and "enabled (visiblePredecessors n (gs_dataEdges s) (gs_controlEdges s) (gs_graph s) entries) m"
  shows "depends_by EdgeData (gs_edges s) m n \<and>
    (m = n \<or> (\<forall>p. walk (depends_by EdgeControl (gs_edges s)) p \<and> hd p \<in> set entries \<and> last p = n \<longrightarrow> m \<in> set p))"
proof -
  have m: "m \<in> set (successors (gs_dataEdges s) n)" "dominates m n (control_projection (gs_graph s) (gs_controlEdges s)) entries"
    using assms(2) by (auto simp: visiblePredecessors_def enabled_def dest!: map_of_SomeD)
  have "has_edge (control_projection (gs_graph s) (gs_controlEdges s)) = depends_by EdgeControl (gs_edges s)"
    using assms(1) control_projection_edge by (intro ext) (auto simp: graph_state_ok_def)
  then show ?thesis
    using m assms(1) unfolding dominates_iff graph_path_def walk_def by (auto simp: graph_state_ok_def has_edge_def)
qed

lemma visible_result:
  assumes "graph_state_ok nodes s" and "enabled (resultVisibleNodes (gs_graph s) [entry]) m" and "[] \<notin> set nodes" and "entry \<in> set nodes"
  shows "(depends (gs_edges s))\<^sup>*\<^sup>* entry m \<and>
    (\<forall>p. walk (depends (gs_edges s)) p \<and> hd p = entry \<and> (\<forall>b. \<not> depends (gs_edges s) (last p) b) \<longrightarrow> m \<in> set p)"
proof -
  let ?g = "gs_graph s"
  have edges: "has_edge ?g = depends (gs_edges s)" using assms(1) by (intro ext) (simp add: graph_state_ok_def)
  have nodes: "graph_nodes ?g = nodes" "graph_wf ?g" using assms(1) by (simp_all add: graph_state_ok_def)
  have nonempty: "has_edge ?g a b \<Longrightarrow> b \<noteq> []" for a b using graph_wf_edge [OF nodes(2), of a b] assms(3) nodes(1) by auto
  have m: "m \<in> set (reachable ?g [entry] [])"
      "\<forall>kv \<in> set ?g. fst kv \<in> set (reachable ?g [entry] []) \<and> snd kv = [] \<longrightarrow> m = fst kv \<or> dominates m (fst kv) ?g [entry]"
    using assms(2) by (auto simp: resultVisibleNodes_def Let_def enabled_def list_all_iff dest!: map_of_SomeD)
  have av: "avoiding ?g [] = {(a, b). depends (gs_edges s) a b}" using nonempty edges by (auto simp: avoiding_def)
  have "(depends (gs_edges s))\<^sup>*\<^sup>* entry m" using m(1) by (auto simp: reachable_iff av rtranclp_rtrancl_eq)
  moreover have "m \<in> set p" if p: "walk (depends (gs_edges s)) p" "hd p = entry" "\<forall>b. \<not> depends (gs_edges s) (last p) b" for p
  proof -
    have gp: "graph_path ?g p" using p(1) by (simp add: graph_path_def walk_def edges)
    have e: "[] \<notin> set p"
    proof
      assume "[] \<in> set p"
      then obtain q r where q: "p = q @ [] # r" by (meson split_list)
      show False
      proof (cases q rule: rev_cases)
        case Nil
        then show False using q p(2) assms(3,4) by auto
      next
        case (snoc t x)
        then have "has_edge ?g x []" using gp q by (auto simp: graph_path_def successively_append_iff)
        then show False using nonempty by blast
      qed
    qed
    have l: "last p \<in> set (reachable ?g [entry] [])" using path_avoiding [OF gp e] p(2) assms(3,4) by (auto simp: reachable_iff)
    have "last p \<in> set nodes"
    proof (cases "p = [entry]")
      case False
      then obtain q x y where q: "p = q @ [x, y]" using gp p(2) by (cases p rule: rev_cases; cases "butlast p" rule: rev_cases) (auto simp: graph_path_def)
      then have "has_edge ?g x y" using gp by (auto simp: graph_path_def successively_append_iff)
      then show ?thesis using graph_wf_edge [OF nodes(2)] nodes(1) q by auto
    qed (use assms(4) in simp)
    then obtain ss where ss: "(last p, ss) \<in> set ?g" using nodes(1) by (auto simp: graph_nodes_def)
    then have "map_of ?g (last p) = Some ss" using nodes(2) by (simp add: graph_wf_def graph_nodes_def)
    then have "ss = []" using p(3) by (auto simp: edges [symmetric] has_edge_def successors_def)
    then have "m = last p \<or> dominates m (last p) ?g [entry]" using m(2) ss l by force
    then show ?thesis using gp p(2) last_in_set [of p] by (auto simp: dominates_iff graph_path_def)
  qed
  ultimately show ?thesis by blast
qed

section \<open>References of expressions\<close>

fun node_refs :: "ValueExpr \<Rightarrow> string list" where
  "node_refs (ValueExpr literal ref op args members elements) =
     (if hd (split_dots ref) = ''nodes'' then [split_dots ref ! 1] else []) @
     (case args of None \<Rightarrow> [] | Some as \<Rightarrow> concat (map node_refs as)) @
     (case members of None \<Rightarrow> [] | Some ms \<Rightarrow> concat (map (\<lambda>m. node_refs (snd m)) ms)) @
     (case elements of None \<Rightarrow> [] | Some xs \<Rightarrow> concat (map node_refs xs))"

definition sees :: "Environment \<Rightarrow> ValueExpr \<Rightarrow> bool" where
  "sees env e \<longleftrightarrow> (\<forall>m \<in> set (node_refs e). enabled (en_VisibleNodes env) m)"

lemma reference_visible:
  assumes "check_reference env ref = Inr s" and "hd (split_dots ref) = ''nodes''"
  shows "enabled (en_VisibleNodes env) (split_dots ref ! 1)"
  using assms by (auto simp: check_reference_def Let_def check_node_reference_def split: if_splits)

lemma check_visible:
  "check_expr env l d n e = Inr (n', s) \<Longrightarrow> sees env e"
  "check_args env l d n es = Inr (n', ss) \<Longrightarrow> \<forall>e \<in> set es. sees env e"
  "check_members env l d n ms = Inr (n', ps) \<Longrightarrow> \<forall>m \<in> set ms. sees env (snd m)"
  "check_items env l d n first es = Inr n' \<Longrightarrow> \<forall>e \<in> set es. sees env e"
proof (induction env l d n e and env l d n es and env l d n ms and env l d n first es arbitrary: n' s and n' ss and n' ps and n'
    rule: check_expr_check_args_check_members_check_items.induct)
  case (1 env l depth nodes literal ref op args members elements)
  note c = "1.prems"(1) [unfolded check_expr.simps]
  have v: "variants (ValueExpr literal ref op args members elements) = 1" "op = [] \<Longrightarrow> args = None"
    using c by (auto simp: first_error_Cons_None split: if_splits)
  consider (lit) raw where "literal = Some raw" "ref = []" "op = []" "members = None" "elements = None"
    | (ref) "literal = None" "ref \<noteq> []" "op = []" "members = None" "elements = None"
    | (op) "literal = None" "ref = []" "op \<noteq> []" "members = None" "elements = None"
    | (obj) ms where "literal = None" "ref = []" "op = []" "members = Some ms" "elements = None"
    | (arr) xs where "literal = None" "ref = []" "op = []" "members = None" "elements = Some xs"
    using v(1) by (auto simp: variants_def split: if_splits)
  then show ?case
  proof cases
    case lit
    then show ?thesis using v(2) by (simp add: sees_def)
  next
    case ref
    then obtain t where "check_reference env ref = Inr t" using c by (auto simp: check_ref_def)
    then show ?thesis using ref v(2) reference_visible [of env ref t] by (simp add: sees_def)
  next
    case op
    define as where "as = (case args of None \<Rightarrow> [] | Some as \<Rightarrow> as)"
    obtain m ss where a: "check_args env l (depth + 1) (nodes + 1) as = Inr (m, ss)" using c op by (auto simp: as_def)
    have "\<forall>e \<in> set as. sees env e" using "1.IH"(1) [folded as_def, OF op(1) _ op(3) a] op(2) by simp
    then show ?thesis using op by (auto simp: sees_def as_def split: option.splits)
  next
    case obj
    obtain m ps where a: "check_members env l (depth + 1) (nodes + 1) ms = Inr (m, ps)" using c obj by auto
    have "\<forall>m \<in> set ms. sees env (snd m)" using "1.IH"(4) [OF obj(1) _ _ obj(4) a] obj(2,3) by simp
    then show ?thesis using obj v(2) by (auto simp: sees_def)
  next
    case arr
    then obtain x ys m t where x: "xs = x # ys" "check_expr env l (depth + 1) (nodes + 1) x = Inr (m, t)"
        "check_items env l (depth + 1) m t ys = Inr n'"
      using c by (cases xs) auto
    have h: "\<not> ref \<noteq> []" "\<not> op \<noteq> []" using arr by simp_all
    have "sees env x" by (rule "1.IH"(2) [OF arr(1) h arr(4) arr(5) x(1,2)])
    moreover have "\<forall>e \<in> set ys. sees env e" by (rule "1.IH"(3) [OF arr(1) h arr(4) arr(5) x(1,3)])
    ultimately show ?thesis using arr x(1) v(2) by (auto simp: sees_def)
  qed
next
  case (5 env l depth nodes name x ms)
  then show ?case by fastforce
qed auto

lemma assignable_visible: "CheckAssignable e env target = None \<Longrightarrow> sees env e"
  using check_visible(1) [of env expr_DefaultLimits 1 0 e]
  by (cases "Check e env") (auto simp: CheckAssignable_def Check_def CheckWithLimits_def split: option.splits)

lemma bindings_visible: "check_bindings s env seen provided bs = Inr p \<Longrightarrow> \<forall>b \<in> set bs. sees env (vb_Value b)"
  using assignable_visible by (induction s env seen provided bs rule: check_bindings.induct) auto

lemma assembly_visible: "validateInputAssembly s fixed bs env = None \<Longrightarrow> \<forall>b \<in> set bs. sees env (vb_Value b)"
  using bindings_visible by (auto simp: validateInputAssembly_def)

text \<open>All bindings that are evaluated for a node.\<close>

definition node_bindings :: "WorkflowNodeDefinition \<Rightarrow> ValueBinding list" where
  "node_bindings n = wn_Bindings n @ (case wn_CallAction n of None \<Rightarrow> []
     | Some c \<Rightarrow> slice (ca_InputMap c) @ slice (ca_TriggerMap c) @ slice (ca_ScopeMap c))"

lemma call_visible: "validateCallAction c out env = None \<Longrightarrow>
    \<forall>b \<in> set (slice (ca_InputMap c) @ slice (ca_TriggerMap c) @ slice (ca_ScopeMap c)). sees env (vb_Value b)"
  using assembly_visible by (auto simp: validateCallAction_def)

lemma node_visible:
  assumes "validate_assembly d nodes s entries i = None" and "map_of nodes i = Some n"
  shows "\<forall>b \<in> set (node_bindings n). sees (node_environment d nodes s entries i) (vb_Value b)"
  using assms assembly_visible [of "wn_InputSchema n" "wn_FixedInputs n" "wn_Bindings n"] call_visible
  by (fastforce simp: validate_assembly_def Let_def node_bindings_def split: option.splits)

end
