(* ===== verification/Workflow_Claims.thy ===== *)
theory Workflow_Claims
  imports Workflow_Props
begin

text \<open>The properties of the workflow compiler, kernel/workflow.\<close>

section \<open>The stages of a compilation\<close>

lemma compile_stages:
  assumes "Compile d = Inr plan"
  obtains nodes s entries order where
    "validateIdentityAndSchemas d = None" "indexNodes (wd_Nodes d) = Inr nodes" "buildGraph d nodes = Inr s"
    "validateEntrypoints (wd_Entrypoints d) nodes = Inr entries" "topologicalOrder (gs_graph s) = Inr order"
    "validateReachability (gs_graph s) entries nodes = None" "\<forall>n \<in> set order. validate_assembly d nodes s entries n = None"
    "validate_results d nodes s = None" "seal_plan d s order = Inr plan"
  using assms by (auto simp: Compile_def)

lemma sealed_plan:
  assumes "seal_plan d s order = Inr plan"
  shows "cp_NodeOrder plan = order" and "cp_Edges plan = gs_edges s" and "cp_EntrypointNodeOrder plan = entrypoint_orders d (gs_graph s) order"
  using assms by (auto simp: seal_plan_def Let_def)

text \<open>The graph of the definition: its nodes, the edges between them, the entry nodes.\<close>

definition node_ids :: "WorkflowDefinition \<Rightarrow> string set" where
  "node_ids d = wn_NodeID ` set (wd_Nodes d)"

definition dependency :: "WorkflowDefinition \<Rightarrow> string \<Rightarrow> string \<Rightarrow> bool" where
  "dependency d a b \<longleftrightarrow> (\<exists>e \<in> set (slice (wd_Edges d)). we_From e = a \<and> we_To e = b)"

definition control_dependency :: "WorkflowDefinition \<Rightarrow> string \<Rightarrow> string \<Rightarrow> bool" where
  "control_dependency d a b \<longleftrightarrow> (\<exists>e \<in> set (slice (wd_Edges d)). we_From e = a \<and> we_To e = b \<and> we_Kind e = EdgeControl)"

definition data_dependency :: "WorkflowDefinition \<Rightarrow> string \<Rightarrow> string \<Rightarrow> bool" where
  "data_dependency d a b \<longleftrightarrow> (\<exists>e \<in> set (slice (wd_Edges d)). we_From e = a \<and> we_To e = b \<and> we_Kind e = EdgeData)"

definition placeable :: "WorkflowDefinition \<Rightarrow> string set \<Rightarrow> string set" where
  "placeable d placed = {n \<in> node_ids d. n \<notin> placed \<and> (\<forall>m. dependency d m n \<longrightarrow> m \<in> placed)}"

lemma depends_definition:
  "depends (edge_list d) = dependency d" "depends_by EdgeControl (edge_list d) = control_dependency d"
  "depends_by EdgeData (edge_list d) = data_dependency d"
  by (auto simp: fun_eq_iff depends_def depends_by_def dependency_def control_dependency_def data_dependency_def edge_list_def)

lemma compiled_graph:
  assumes "indexNodes (wd_Nodes d) = Inr nodes" and "buildGraph d nodes = Inr s"
  shows "graph_state_ok (map fst nodes) s" and "has_edge (gs_graph s) = dependency d" and "set (map fst nodes) = node_ids d"
    and "gs_edges s = sort_key edge_key (edge_list d)"
proof -
  note n = indexNodes_facts [OF assms(1)]
  have d: "distinct (map fst nodes)" using n(2,3) by simp
  show ok: "graph_state_ok (map fst nodes) s" by (rule buildGraph_ok(1) [OF assms(2) d])
  show e: "gs_edges s = sort_key edge_key (edge_list d)" by (rule buildGraph_ok(2) [OF assms(2) d])
  show "has_edge (gs_graph s) = dependency d" using ok e depends_definition(1) [of d] by (auto simp: fun_eq_iff graph_state_ok_def)
  show "set (map fst nodes) = node_ids d" using n(3) by (simp add: node_ids_def)
qed

lemma node_ids_nonempty:
  assumes "indexNodes (wd_Nodes d) = Inr nodes"
  shows "[] \<notin> set (map fst nodes)"
  using assms index_nodes_facts [of "[]" "wd_Nodes d" nodes] by (auto simp: indexNodes_def ValidIdentifier_def split: if_splits)

lemma compiled_reachable:
  assumes "indexNodes (wd_Nodes d) = Inr nodes" and "buildGraph d nodes = Inr s" and "set starts \<subseteq> node_ids d"
  shows "n \<in> set (reachable (gs_graph s) starts []) \<longleftrightarrow> (\<exists>a \<in> set starts. (dependency d)\<^sup>*\<^sup>* a n)"
proof -
  note g = compiled_graph [OF assms(1,2)]
  have "has_edge (gs_graph s) a b \<Longrightarrow> b \<noteq> []" for a b
    using graph_wf_edge [of "gs_graph s" a b] g(1) node_ids_nonempty [OF assms(1)] unfolding graph_state_ok_def by metis
  then have "avoiding (gs_graph s) [] = {(a, b). dependency d a b}" using g(2) by (auto simp: avoiding_def)
  moreover have "\<forall>a \<in> set starts. a \<noteq> []" using assms(3) g(3) node_ids_nonempty [OF assms(1)] by auto
  ultimately show ?thesis by (auto simp: reachable_iff rtranclp_rtrancl_eq)
qed

lemma compiled_entries:
  assumes "indexNodes (wd_Nodes d) = Inr nodes" and "validateEntrypoints (wd_Entrypoints d) nodes = Inr entries"
  shows "\<forall>kv \<in> set (wd_Entrypoints d). snd kv \<in> node_ids d" and "set entries = snd ` set (wd_Entrypoints d)"
proof -
  have n: "set (map fst nodes) = node_ids d" using indexNodes_facts(3) [OF assms(1)] by (simp add: node_ids_def)
  show "set entries = snd ` set (wd_Entrypoints d)" using assms(2) by (force simp: validateEntrypoints_def)
  have "\<exists>y. map_of nodes (snd kv) = Some y" if "kv \<in> set (wd_Entrypoints d)" for kv
    using assms(2) that by (auto simp: validateEntrypoints_def)
  then show "\<forall>kv \<in> set (wd_Entrypoints d). snd kv \<in> node_ids d" using n by (force dest: map_of_SomeD)
qed

lemma compiled_edge_nodes:
  assumes "Compile d = Inr plan" and "dependency d a b"
  shows "a \<in> node_ids d" and "b \<in> node_ids d"
proof -
  obtain nodes s where c: "indexNodes (wd_Nodes d) = Inr nodes" "buildGraph d nodes = Inr s" by (rule compile_stages [OF assms(1)])
  note g = compiled_graph [OF c]
  have "graph_wf (gs_graph s)" "set (graph_nodes (gs_graph s)) = node_ids d" "has_edge (gs_graph s) a b"
    using g assms(2) by (simp_all add: graph_state_ok_def)
  then show "a \<in> node_ids d" "b \<in> node_ids d" using graph_wf_edge [of "gs_graph s" a b] by auto
qed

section \<open>The plan\<close>

text \<open>The order, the edges and the orders of the entrypoints of a plan.\<close>

lemma compiled_schedule:
  assumes "Compile d = Inr plan"
  shows "distinct (cp_NodeOrder plan)" and "set (cp_NodeOrder plan) = node_ids d"
    and "\<forall>i < length (cp_NodeOrder plan). cp_NodeOrder plan ! i \<in> placeable d (set (take i (cp_NodeOrder plan)))
        \<and> (\<forall>m \<in> placeable d (set (take i (cp_NodeOrder plan))). cp_NodeOrder plan ! i \<le> m)"
    and "acyclicP (dependency d)" and "cp_Edges plan = sort_key edge_key (map normalize_edge (slice (wd_Edges d)))"
    and "cp_EntrypointNodeOrder plan = map (\<lambda>(name, start). (name, filter ((dependency d)\<^sup>*\<^sup>* start) (cp_NodeOrder plan))) (wd_Entrypoints d)"
proof -
  obtain nodes s entries order where c: "indexNodes (wd_Nodes d) = Inr nodes" "buildGraph d nodes = Inr s"
    "validateEntrypoints (wd_Entrypoints d) nodes = Inr entries" "topologicalOrder (gs_graph s) = Inr order" "seal_plan d s order = Inr plan"
    by (rule compile_stages [OF assms])
  note g = compiled_graph [OF c(1,2)] and p = sealed_plan [OF c(5)]
  have wf: "graph_wf (gs_graph s)" "set (graph_nodes (gs_graph s)) = node_ids d" using g(1,3) by (simp_all add: graph_state_ok_def)
  have o: "distinct order \<and> set order = node_ids d \<and> least_first (gs_graph s) order \<and> acyclic (edge_relation (gs_graph s))"
    using topological_order [OF wf(1)] c(4) wf(2) by simp
  then show "distinct (cp_NodeOrder plan)" "set (cp_NodeOrder plan) = node_ids d" by (simp_all add: p(1))
  have "available (gs_graph s) = placeable d" using wf(2) g(2) by (simp add: fun_eq_iff available_def placeable_def)
  then show "\<forall>i < length (cp_NodeOrder plan). cp_NodeOrder plan ! i \<in> placeable d (set (take i (cp_NodeOrder plan)))
        \<and> (\<forall>m \<in> placeable d (set (take i (cp_NodeOrder plan))). cp_NodeOrder plan ! i \<le> m)"
    using o unfolding p(1) least_first_def by simp
  show "acyclicP (dependency d)" using o g(2) by (simp add: edge_relation_def)
  show "cp_Edges plan = sort_key edge_key (map normalize_edge (slice (wd_Edges d)))" using g(4) p(2) by (simp add: edge_list_def)
  have "n \<in> set (reachable (gs_graph s) [snd kv] []) \<longleftrightarrow> (dependency d)\<^sup>*\<^sup>* (snd kv) n" if "kv \<in> set (wd_Entrypoints d)" for kv n
    using compiled_reachable [OF c(1,2), of "[snd kv]" n] compiled_entries(1) [OF c(1,3)] that by simp
  then show "cp_EntrypointNodeOrder plan = map (\<lambda>(name, start). (name, filter ((dependency d)\<^sup>*\<^sup>* start) (cp_NodeOrder plan))) (wd_Entrypoints d)"
    unfolding p(1,3) entrypoint_orders_def by (intro map_cong) (auto intro!: filter_cong)
qed

text \<open>
  C40: a compiled plan schedules the workflow. Its node order holds every node exactly once and is
  determined by the dependencies alone: each node is the least of those whose predecessors are all placed, so every
  edge leads forward. The edges of the plan are those of the definition with their conditions filled in, sorted. The order
  of an entrypoint is the part of the node order that the node of the entrypoint reaches, and every
  node belongs to the order of some entrypoint. A definition whose dependencies form a cycle has no plan.
\<close>

theorem compiled_plan_schedules:
  assumes "Compile d = Inr plan"
  shows "distinct (cp_NodeOrder plan) \<and> set (cp_NodeOrder plan) = node_ids d
    \<and> (\<forall>i < length (cp_NodeOrder plan). cp_NodeOrder plan ! i \<in> placeable d (set (take i (cp_NodeOrder plan)))
        \<and> (\<forall>m \<in> placeable d (set (take i (cp_NodeOrder plan))). cp_NodeOrder plan ! i \<le> m))
    \<and> acyclicP (dependency d)
    \<and> cp_Edges plan = sort_key edge_key (map normalize_edge (slice (wd_Edges d)))
    \<and> cp_EntrypointNodeOrder plan = map (\<lambda>(name, start). (name, filter ((dependency d)\<^sup>*\<^sup>* start) (cp_NodeOrder plan))) (wd_Entrypoints d)
    \<and> (\<forall>n \<in> node_ids d. \<exists>(name, order) \<in> set (cp_EntrypointNodeOrder plan). n \<in> set order)"
proof -
  obtain nodes s entries where c: "indexNodes (wd_Nodes d) = Inr nodes" "buildGraph d nodes = Inr s"
    "validateEntrypoints (wd_Entrypoints d) nodes = Inr entries" "validateReachability (gs_graph s) entries nodes = None"
    by (rule compile_stages [OF assms])
  note ent = compiled_entries [OF c(1,3)] and sched = compiled_schedule [OF assms]
  have "\<exists>(name, order') \<in> set (cp_EntrypointNodeOrder plan). n \<in> set order'" if n: "n \<in> node_ids d" for n
  proof -
    have "n \<in> set (reachable (gs_graph s) entries [])"
      using c(4) n unfolding compiled_graph(3) [OF c(1,2), symmetric] by (auto simp: validateReachability_def Let_def list_all_iff)
    moreover have "set entries \<subseteq> node_ids d" using ent by auto
    ultimately obtain kv where "kv \<in> set (wd_Entrypoints d)" "(dependency d)\<^sup>*\<^sup>* (snd kv) n"
      using compiled_reachable [OF c(1,2), of entries n] ent(2) by auto
    then have "(fst kv, filter ((dependency d)\<^sup>*\<^sup>* (snd kv)) (cp_NodeOrder plan)) \<in> set (cp_EntrypointNodeOrder plan) \<and>
        n \<in> set (filter ((dependency d)\<^sup>*\<^sup>* (snd kv)) (cp_NodeOrder plan))"
      using n sched(2) unfolding sched(6) by (auto simp: image_iff intro!: bexI [of _ kv] split: prod.splits)
    then show ?thesis by blast
  qed
  then show ?thesis using sched by blast
qed

section \<open>Visibility\<close>

text \<open>What a node may refer to.\<close>

lemma compiled_reference:
  assumes "Compile d = Inr plan" and n: "n \<in> set (wd_Nodes d)" "b \<in> set (node_bindings n)" "m \<in> set (node_refs (vb_Value b))"
  shows "data_dependency d m (wn_NodeID n)"
    and "walk (control_dependency d) p \<Longrightarrow> hd p \<in> snd ` set (wd_Entrypoints d) \<Longrightarrow> last p = wn_NodeID n \<Longrightarrow> m \<in> set p"
proof -
  obtain nodes s entries order where c: "indexNodes (wd_Nodes d) = Inr nodes" "buildGraph d nodes = Inr s"
    "validateEntrypoints (wd_Entrypoints d) nodes = Inr entries" "\<forall>n \<in> set order. validate_assembly d nodes s entries n = None"
    "seal_plan d s order = Inr plan"
    by (rule compile_stages [OF assms(1)])
  note g = compiled_graph [OF c(1,2)] and ent = compiled_entries [OF c(1,3)] and nf = indexNodes_facts [OF c(1)]
  have es: "depends_by EdgeControl (gs_edges s) = control_dependency d" "depends_by EdgeData (gs_edges s) = data_dependency d"
    using depends_definition [of d] by (simp_all add: fun_eq_iff g(4))
  have "map_of nodes (wn_NodeID n) = Some n" using nf n(1) by (auto simp: comp_def intro!: map_of_is_SomeI)
  moreover have "validate_assembly d nodes s entries (wn_NodeID n) = None"
    using c(4) compiled_schedule(2) [OF assms(1)] sealed_plan(1) [OF c(5)] n(1) by (simp add: node_ids_def)
  ultimately have "sees (node_environment d nodes s entries (wn_NodeID n)) (vb_Value b)" using node_visible n(2) by blast
  then have "enabled (visiblePredecessors (wn_NodeID n) (gs_dataEdges s) (gs_controlEdges s) (gs_graph s) entries) m"
    using n(3) by (simp add: sees_def node_environment_def)
  note v = visible_predecessor [OF g(1) this, unfolded es ent(2)]
  show "data_dependency d m (wn_NodeID n)" using v by blast
  show "walk (control_dependency d) p \<Longrightarrow> hd p \<in> snd ` set (wd_Entrypoints d) \<Longrightarrow> last p = wn_NodeID n \<Longrightarrow> m \<in> set p"
    using v by (metis last_in_set walk_def)
qed

text \<open>
  C26: references of a compiled workflow are safe. When a binding of a node refers to the output of
  another node, the definition has a data edge from that node, and every path of control edges from an entrypoint to the
  node passes through it; when a result binding of an entrypoint refers to a node, the entrypoint reaches
  it and every path from the entrypoint to a node without successors passes through it.
\<close>

theorem compiled_references_dominate:
  assumes "Compile d = Inr plan"
  shows "(\<forall>n \<in> set (wd_Nodes d). \<forall>b \<in> set (node_bindings n). \<forall>m \<in> set (node_refs (vb_Value b)).
      data_dependency d m (wn_NodeID n) \<and>
      (\<forall>p. walk (control_dependency d) p \<and> hd p \<in> snd ` set (wd_Entrypoints d) \<and> last p = wn_NodeID n \<longrightarrow> m \<in> set p))
    \<and> (\<forall>(name, entry) \<in> set (wd_Entrypoints d). \<forall>b \<in> set (result_bindings_of d name). \<forall>m \<in> set (node_refs (vb_Value b)).
      (dependency d)\<^sup>*\<^sup>* entry m \<and>
      (\<forall>p. walk (dependency d) p \<and> hd p = entry \<and> (\<forall>b. \<not> dependency d (last p) b) \<longrightarrow> m \<in> set p))"
proof -
  obtain nodes s entries where c: "indexNodes (wd_Nodes d) = Inr nodes" "buildGraph d nodes = Inr s"
    "validateEntrypoints (wd_Entrypoints d) nodes = Inr entries" "validate_results d nodes s = None"
    by (rule compile_stages [OF assms])
  note g = compiled_graph [OF c(1,2)] and ent = compiled_entries [OF c(1,3)]
  have es: "depends (gs_edges s) = dependency d" using depends_definition(1) [of d] by (simp add: fun_eq_iff g(4))
  have "data_dependency d m (wn_NodeID n) \<and>
      (\<forall>p. walk (control_dependency d) p \<and> hd p \<in> snd ` set (wd_Entrypoints d) \<and> last p = wn_NodeID n \<longrightarrow> m \<in> set p)"
    if "n \<in> set (wd_Nodes d)" "b \<in> set (node_bindings n)" "m \<in> set (node_refs (vb_Value b))" for n b m
    using compiled_reference [OF assms that] by blast
  moreover have "(dependency d)\<^sup>*\<^sup>* entry m \<and> (\<forall>p. walk (dependency d) p \<and> hd p = entry \<and> (\<forall>b. \<not> dependency d (last p) b) \<longrightarrow> m \<in> set p)"
    if e: "(name, entry) \<in> set (wd_Entrypoints d)" "b \<in> set (result_bindings_of d name)" "m \<in> set (node_refs (vb_Value b))" for name entry b m
  proof -
    have "validateInputAssembly (wd_ResultSchema d) [] (result_bindings_of d name)
        ((base_environment d nodes)\<lparr>en_VisibleNodes := resultVisibleNodes (gs_graph s) [entry]\<rparr>) = None"
      using c(4) e(1) by (force simp: validate_results_def)
    from assembly_visible [OF this] have "enabled (resultVisibleNodes (gs_graph s) [entry]) m" using e(2,3) by (auto simp: sees_def)
    moreover have "entry \<in> set (map fst nodes)" using ent(1) e(1) g(3) by auto
    ultimately show ?thesis using visible_result [OF g(1)] node_ids_nonempty [OF c(1)] es by metis
  qed
  ultimately show ?thesis by blast
qed

section \<open>A sample workflow\<close>

text \<open>Two nodes: the second takes a required integer from the output of the first.\<close>

definition sample_digest :: string where "sample_digest = ''sha256:'' @ replicate 64 (CHR ''0'')"

definition closed_object :: "(string \<times> Schema) list \<Rightarrow> string list \<Rightarrow> Schema" where
  "closed_object ps required = Schema TypeObject ps required False None [] [] []"

definition sample_node :: "string \<Rightarrow> Schema \<Rightarrow> Schema \<Rightarrow> ValueBinding list \<Rightarrow> WorkflowNodeDefinition" where
  "sample_node i inp out bs = \<lparr>wn_NodeID = i, wn_TypeRef = ''test.node/v1'', wn_DescriptorDigest = sample_digest, wn_InputSchema = inp,
     wn_OutputSchema = out, wn_FixedInputs = [], wn_Bindings = bs, wn_CallAction = None, wn_Retry = None\<rparr>"

definition sample_edge :: "EdgeKind \<Rightarrow> WorkflowEdge" where
  "sample_edge k = \<lparr>we_From = ''a'', we_To = ''b'', we_Kind = k, we_Condition = EdgeConditionOther [], we_Route = [], we_SourcePort = []\<rparr>"

definition sample_workflow :: WorkflowDefinition where
  "sample_workflow = \<lparr>wd_SchemaVersion = workflow_SchemaVersion, wd_WorkflowID = ''w'', wd_Version = ''v1'',
     wd_InputSchema = closed_object [] [], wd_ResultSchema = closed_object [] [], wd_TriggerSchema = closed_object [] [],
     wd_ScopeSchema = closed_object [] [], wd_Secrets = [], wd_Entrypoints = [(''m'', ''a'')],
     wd_Nodes = [sample_node ''a'' (closed_object [] []) (closed_object [(''y'', type_schema TypeInteger)] [''y'']) [],
       sample_node ''b'' (closed_object [(''x'', type_schema TypeInteger)] [''x'']) (closed_object [] [])
         [\<lparr>vb_Target = ''/x'', vb_Value = ValueExpr None ''nodes.a.output.y'' [] None None None\<rparr>]],
     wd_Edges = Some [sample_edge EdgeData, sample_edge EdgeControl], wd_ResultBindings = []\<rparr>"

declare ValidIdentifier_iff [code]

definition compile_checks :: "WorkflowDefinition \<Rightarrow> (graph_state \<times> string list) result" where
  "compile_checks d = ensure (validateIdentityAndSchemas d) (
     andThen (indexNodes (wd_Nodes d)) (\<lambda>nodes.
     andThen (buildGraph d nodes) (\<lambda>s.
     andThen (validateEntrypoints (wd_Entrypoints d) nodes) (\<lambda>entries.
     andThen (topologicalOrder (gs_graph s)) (\<lambda>order.
     ensure (validateReachability (gs_graph s) entries nodes) (
     ensure (first_error (map (validate_assembly d nodes s entries) order)) (
     ensure (validate_results d nodes s) (Inr (s, order)))))))))"

lemma Compile_checks: "Compile d = andThen (compile_checks d) (\<lambda>(s, order). seal_plan d s order)"
  by (simp only: Compile_def compile_checks_def andThen_assoc andThen_ensure andThen_simps prod.case)

lemma sample_checks:
  "case compile_checks sample_workflow of Inl _ \<Rightarrow> False | Inr (s, order) \<Rightarrow> order = [''a'', ''b''] \<and>
     gs_edges s = map normalize_edge [sample_edge EdgeControl, sample_edge EdgeData] \<and>
     entrypoint_orders sample_workflow (gs_graph s) order = [(''m'', [''a'', ''b''])]"
  by code_simp

lemma sample_digest_text: "utf8_valid sample_digest" "length sample_digest = 71"
proof -
  have "ValidDigest sample_digest" by code_simp
  then show "utf8_valid sample_digest" "length sample_digest = 71" using ValidDigest_text by blast+
qed

lemma sample_definition:
  "case WorkflowDefinition_json sample_workflow of Inl _ \<Rightarrow> False | Inr j \<Rightarrow> json_plain j \<and> json_bound j \<le> 100000 \<and> json_height j \<le> 128"
  by (simp add: WorkflowDefinition_json_def WorkflowNodeDefinition_json_def WorkflowEdge_json_def bindings_json_def ValueBinding_json_def named_def
      sample_workflow_def sample_node_def sample_edge_def sample_digest_text closed_object_def type_schema_def omitempty_def
      JSONType_string_def EdgeKind_string_def EdgeCondition_string_def workflow_SchemaVersion_def ascii_def)

text \<open>A definition that passes the checks is sealed, since its texts are plain and short.\<close>

definition draft_plan :: "WorkflowDefinition \<Rightarrow> graph_state \<Rightarrow> string list \<Rightarrow> string \<Rightarrow> CompiledWorkflowPlan" where
  "draft_plan d s order digest = \<lparr>cp_WorkflowID = wd_WorkflowID d, cp_Version = wd_Version d, cp_DefinitionDigest = digest, cp_NodeOrder = order,
     cp_EntrypointNodeOrder = entrypoint_orders d (gs_graph s) order, cp_Edges = gs_edges s, cp_PlanDigest = []\<rparr>"

lemma sealed_compiles:
  assumes "compile_checks d = Inr (s, order)" and j: "WorkflowDefinition_json d = Inr j" "json_plain j" "json_bound j \<le> 100000" "json_height j \<le> 128"
    and p: "\<And>x. utf8_valid x \<Longrightarrow> length x = 71 \<Longrightarrow> json_plain (unsigned_plan_json (draft_plan d s order x))"
      "\<And>x. utf8_valid x \<Longrightarrow> length x = 71 \<Longrightarrow> json_bound (unsigned_plan_json (draft_plan d s order x)) \<le> 100000"
      "\<And>x. utf8_valid x \<Longrightarrow> length x = 71 \<Longrightarrow> json_height (unsigned_plan_json (draft_plan d s order x)) \<le> 128"
  shows "\<exists>x y. Compile d = Inr ((draft_plan d s order x)\<lparr>cp_PlanDigest := y\<rparr>) \<and> ValidDigest x \<and> ValidDigest y"
proof -
  define x where "x = value_of (DigestValue j)"
  have x: "DigestValue j = Inr x" "ValidDigest x" using digest_known [OF j(2-4)] by (simp_all add: x_def)
  define plan where "plan = draft_plan d s order x"
  have t: "utf8_valid x" "length x = 71" using ValidDigest_text [OF x(2)] by simp_all
  note y = digest_known [OF p [OF t], folded plan_def]
  then have "Compile d = Inr (plan\<lparr>cp_PlanDigest := value_of (DigestValue (unsigned_plan_json plan))\<rparr>)"
    using assms(1) x(1) unfolding Compile_checks seal_plan_def by (simp add: j(1) plan_def draft_plan_def Let_def)
  then show ?thesis using x(2) y(2) unfolding plan_def by blast
qed

lemmas plan_texts = unsigned_plan_json_def normalize_edge_def WorkflowEdge_json_def EdgeKind_string_def EdgeCondition_string_def
  omitempty_def ascii_def

lemma sample_plan_sealed:
  "\<exists>x y. Compile sample_workflow = Inr \<lparr>cp_WorkflowID = ''w'', cp_Version = ''v1'', cp_DefinitionDigest = x, cp_NodeOrder = [''a'', ''b''],
     cp_EntrypointNodeOrder = [(''m'', [''a'', ''b''])], cp_Edges = map normalize_edge [sample_edge EdgeControl, sample_edge EdgeData],
     cp_PlanDigest = y\<rparr> \<and> ValidDigest x \<and> ValidDigest y"
proof -
  obtain s where s: "compile_checks sample_workflow = Inr (s, [''a'', ''b''])"
      "gs_edges s = map normalize_edge [sample_edge EdgeControl, sample_edge EdgeData]"
      "entrypoint_orders sample_workflow (gs_graph s) [''a'', ''b''] = [(''m'', [''a'', ''b''])]"
    using sample_checks by (auto split: sum.splits prod.splits)
  obtain j where j: "WorkflowDefinition_json sample_workflow = Inr j" "json_plain j" "json_bound j \<le> 100000" "json_height j \<le> 128"
    using sample_definition by (auto split: sum.splits)
  have d: "draft_plan sample_workflow s [''a'', ''b''] x = \<lparr>cp_WorkflowID = ''w'', cp_Version = ''v1'', cp_DefinitionDigest = x, cp_NodeOrder = [''a'', ''b''],
      cp_EntrypointNodeOrder = [(''m'', [''a'', ''b''])], cp_Edges = map normalize_edge [sample_edge EdgeControl, sample_edge EdgeData], cp_PlanDigest = []\<rparr>" for x
    using s(2,3) by (simp add: draft_plan_def sample_workflow_def)
  have "\<exists>x y. Compile sample_workflow = Inr ((draft_plan sample_workflow s [''a'', ''b''] x)\<lparr>cp_PlanDigest := y\<rparr>) \<and> ValidDigest x \<and> ValidDigest y"
    by (rule sealed_compiles [OF s(1) j]) (simp_all add: d plan_texts sample_edge_def)
  then show ?thesis by (simp add: d)
qed

lemma sample_compiles:
  "\<exists>plan. Compile sample_workflow = Inr plan \<and> cp_NodeOrder plan = [''a'', ''b''] \<and> ValidDigest (cp_DefinitionDigest plan)
    \<and> cp_EntrypointNodeOrder plan = [(''m'', [''a'', ''b''])]"
  using sample_plan_sealed by force

theorem compiled_plan_schedules_witness:
  "\<exists>plan. Compile sample_workflow = Inr plan \<and> cp_NodeOrder plan = [''a'', ''b''] \<and>
     set (cp_NodeOrder plan) = node_ids sample_workflow \<and> acyclicP (dependency sample_workflow)"
  using sample_compiles compiled_plan_schedules [of sample_workflow] by blast

lemma sample_reference:
  "\<exists>n \<in> set (wd_Nodes sample_workflow). wn_NodeID n = ''b'' \<and> (\<exists>b \<in> set (node_bindings n). ''a'' \<in> set (node_refs (vb_Value b)))"
  by (simp add: sample_workflow_def sample_node_def node_bindings_def)

theorem compiled_references_dominate_witness:
  "\<exists>plan. Compile sample_workflow = Inr plan \<and> data_dependency sample_workflow ''a'' ''b''"
proof -
  obtain plan where p: "Compile sample_workflow = Inr plan" using sample_compiles by blast
  obtain n b where n: "n \<in> set (wd_Nodes sample_workflow)" "wn_NodeID n = ''b''" "b \<in> set (node_bindings n)" "''a'' \<in> set (node_refs (vb_Value b))"
    using sample_reference by blast
  have "data_dependency sample_workflow ''a'' (wn_NodeID n)"
    using bspec [OF bspec [OF bspec [OF conjunct1 [OF compiled_references_dominate [OF p]] n(1)] n(3)] n(4)] by (rule conjunct1)
  then show ?thesis using p n(2) by auto
qed

end
