(* ===== verification/Workflow_Resolve.thy ===== *)
theory Workflow_Resolve
  imports Workflow_Compile Expression_Eval
begin

text \<open>
  Package kernel/workflow, resolve.go: the inputs of a node, the context and result of a child Action
  and the result of a workflow, made from defaults, fixed values and evaluated bindings.
\<close>

section \<open>Setting a path\<close>

text \<open>\<^verbatim>\<open>strconv.ParseUint(segment, 10, 31)\<close>.\<close>

definition parse_index :: "string \<Rightarrow> nat option" where
  "parse_index s = (if decimalDigits s \<and> digits_value s < 2 ^ 31 then Some (nat (digits_value s)) else None)"

text \<open>The container that a missing path segment is filled with depends on the segment after it.\<close>

definition fresh_container :: "string list \<Rightarrow> json" where
  "fresh_container rest = (if rest \<noteq> [] \<and> parse_index (hd rest) \<noteq> None then JArr [] else JObj [])"

fun setPath :: "json \<Rightarrow> string list \<Rightarrow> json \<Rightarrow> json result" where
  "setPath current [] value = Inr value"
| "setPath current (seg # segs) value =
     (case current of
        JObj kvs \<Rightarrow> andThen (setPath (case map_of kvs seg of None \<Rightarrow> fresh_container segs | Some child \<Rightarrow> child) segs value)
          (\<lambda>updated. Inr (JObj (AList.update seg updated kvs)))
      | JArr vs \<Rightarrow> (case parse_index seg of
          None \<Rightarrow> Inl (Errorf ''array segment is not an index'')
        | Some i \<Rightarrow> (let ws = vs @ replicate (i + 1 - length vs) JNull in
            andThen (setPath (if ws ! i = JNull \<and> segs \<noteq> [] then fresh_container segs else ws ! i) segs value)
              (\<lambda>updated. Inr (JArr (ws[i := updated])))))
      | _ \<Rightarrow> Inl (Errorf ''binding crosses scalar''))"

definition setBoundValue :: "(string \<times> json) list \<Rightarrow> string list \<Rightarrow> json \<Rightarrow> (string \<times> json) list result" where
  "setBoundValue obj segments value =
     (if segments = [] then Inl (Errorf ''binding target cannot be the root'')
      else andThen (setPath (JObj obj) segments value) (\<lambda>updated. case updated of
        JObj kvs \<Rightarrow> Inr kvs | _ \<Rightarrow> Inl (Errorf ''binding replaced the root object'')))"

section \<open>Resolution\<close>

record resolve_values =
  rv_inputs :: "(string \<times> json) list"
  rv_trigger :: "(string \<times> json) list"
  rv_scope :: "(string \<times> json) list"
  rv_outputs :: "(string \<times> (string \<times> json) list) list"
  rv_secrets :: "(string \<times> SecretHandle) list"

definition workflowNode :: "WorkflowDefinition \<Rightarrow> string \<Rightarrow> WorkflowNodeDefinition option" where
  "workflowNode d nodeID = find (\<lambda>n. wn_NodeID n = nodeID) (wd_Nodes d)"

definition resolve_environment :: "WorkflowDefinition \<Rightarrow> resolve_values \<Rightarrow> Environment" where
  "resolve_environment d v = \<lparr>en_Inputs = wd_InputSchema d, en_Trigger = wd_TriggerSchema d, en_Scope = wd_ScopeSchema d,
     en_NodeOutputs = map (\<lambda>n. (wn_NodeID n, wn_OutputSchema n)) (rev (wd_Nodes d)),
     en_VisibleNodes = map (\<lambda>kv. (fst kv, True)) (rv_outputs v), en_Iteration = None, en_Secrets = map (\<lambda>n. (n, True)) (wd_Secrets d)\<rparr>"

definition value_set :: "resolve_values \<Rightarrow> Values" where
  "value_set v = \<lparr>va_Inputs = rv_inputs v, va_Trigger = rv_trigger v, va_Scope = rv_scope v,
     va_NodeOutputs = map (\<lambda>kv. (fst kv, JObj (snd kv))) (rv_outputs v), va_Iteration = JNull, va_Secrets = rv_secrets v\<rparr>"

definition bound_value :: "gval \<Rightarrow> json" where
  "bound_value v = (case v of GSecret h \<Rightarrow> JStr (sh_ID h) | _ \<Rightarrow> to_json v)"

fun bind_values :: "Environment \<Rightarrow> Values \<Rightarrow> (string \<times> json) list \<Rightarrow> ValueBinding list \<Rightarrow> (string \<times> json) list result" where
  "bind_values env vals resolved [] = Inr resolved"
| "bind_values env vals resolved (b # bs) =
     andThen (Evaluate (vb_Value b) env vals) (\<lambda>v.
     andThen (pointerSegments (vb_Target b)) (\<lambda>segments.
     andThen (setBoundValue resolved segments (bound_value v)) (\<lambda>resolved.
     bind_values env vals resolved bs)))"

definition resolveObject ::
  "WorkflowDefinition \<Rightarrow> Schema \<Rightarrow> (string \<times> json) list \<Rightarrow> ValueBinding list \<Rightarrow> resolve_values \<Rightarrow> (string \<times> json) list result" where
  "resolveObject d schema fixed bindings v =
     andThen (ApplyDefaults schema fixed) (\<lambda>(resolved, _).
     andThen (bind_values (resolve_environment d v) (value_set v) resolved bindings) (\<lambda>resolved.
     ensure (ValidateValue schema (JObj resolved)) (Inr resolved)))"

definition ResolveNodeInputs :: "WorkflowDefinition \<Rightarrow> string \<Rightarrow> resolve_values \<Rightarrow> (string \<times> json) list result" where
  "ResolveNodeInputs d nodeID v = (case workflowNode d nodeID of
     None \<Rightarrow> Inl (Errorf ''workflow node does not exist'')
   | Some n \<Rightarrow> resolveObject d (wn_InputSchema n) (wn_FixedInputs n) (wn_Bindings n) v)"

definition call_node :: "WorkflowDefinition \<Rightarrow> string \<Rightarrow> (WorkflowNodeDefinition \<times> CallAction) option" where
  "call_node d nodeID = Option.bind (workflowNode d nodeID) (\<lambda>n. map_option (Pair n) (wn_CallAction n))"

definition not_a_call :: error where "not_a_call = Errorf ''workflow node is not a child Action call''"

definition ResolveCallActionContext :: "WorkflowDefinition \<Rightarrow> string \<Rightarrow> resolve_values \<Rightarrow>
    ((string \<times> json) list \<times> (string \<times> json) list \<times> (string \<times> json) list) result" where
  "ResolveCallActionContext d nodeID values = (let v = values\<lparr>rv_secrets := []\<rparr> in case call_node d nodeID of
     None \<Rightarrow> Inl not_a_call
   | Some (n, call) \<Rightarrow>
       andThen (resolveObject d (ca_InputSchema call) [] (slice (ca_InputMap call)) v) (\<lambda>inputs.
       andThen (resolveObject d (ca_TriggerSchema call) [] (slice (ca_TriggerMap call)) v) (\<lambda>trigger.
       andThen (resolveObject d (ca_ScopeSchema call) [] (slice (ca_ScopeMap call)) v) (\<lambda>scope.
       Inr (inputs, trigger, scope)))))"

text \<open>The definition against which the result of a child is resolved.\<close>

definition child_definition :: "CallAction \<Rightarrow> WorkflowDefinition" where
  "child_definition call = \<lparr>wd_SchemaVersion = [], wd_WorkflowID = [], wd_Version = [], wd_InputSchema = ca_ResultSchema call,
     wd_ResultSchema = zero_schema, wd_TriggerSchema = type_schema TypeObject, wd_ScopeSchema = type_schema TypeObject,
     wd_Secrets = [], wd_Entrypoints = [], wd_Nodes = [], wd_Edges = None, wd_ResultBindings = []\<rparr>"

definition ResolveCallActionResult :: "WorkflowDefinition \<Rightarrow> string \<Rightarrow> (string \<times> json) list \<Rightarrow> (string \<times> json) list result" where
  "ResolveCallActionResult d nodeID childResult = (case call_node d nodeID of
     None \<Rightarrow> Inl not_a_call
   | Some (n, call) \<Rightarrow>
       ensure (ValidateValue (ca_ResultSchema call) (JObj childResult)) (
       andThen (result_bindings (ca_ResultMap call)) (\<lambda>bindings.
       resolveObject (child_definition call) (wn_OutputSchema n) [] bindings
         \<lparr>rv_inputs = childResult, rv_trigger = [], rv_scope = [], rv_outputs = [], rv_secrets = []\<rparr>)))"

definition ResolveResult :: "WorkflowDefinition \<Rightarrow> string \<Rightarrow> resolve_values \<Rightarrow> (string \<times> json) list result" where
  "ResolveResult d entrypoint values = (let v = values\<lparr>rv_secrets := []\<rparr> in
     if map_of (wd_Entrypoints d) entrypoint = None then Inl (Errorf ''workflow entrypoint does not exist'')
     else resolveObject d (wd_ResultSchema d) [] (result_bindings_of d entrypoint) v)"

end
