(* ===== verification/Resolve_Props.thy ===== *)
theory Resolve_Props
  imports Workflow_Resolve Decimal_Props Workflow_Props
begin

text \<open>
  Assembled objects: a value that is set at a path is found there, and setting another path leaves
  it alone unless one path is a prefix of the other, which the compiler excludes.
\<close>

section \<open>Paths\<close>

fun getPath :: "json \<Rightarrow> string list \<Rightarrow> json option" where
  "getPath v [] = Some v"
| "getPath v (seg # segs) =
     (case v of
        JObj kvs \<Rightarrow> Option.bind (map_of kvs seg) (\<lambda>w. getPath w segs)
      | JArr vs \<Rightarrow> Option.bind (parse_index seg) (\<lambda>i. if i < length vs then getPath (vs ! i) segs else None)
      | _ \<Rightarrow> None)"

text \<open>A segment that is an index in one way only: no leading zeros.\<close>

definition plain_segment :: "string \<Rightarrow> bool" where
  "plain_segment s \<longleftrightarrow> parse_index s = None \<or> array_index s"

fun diverge :: "string list \<Rightarrow> string list \<Rightarrow> bool" where
  "diverge (a # as) (b # bs) \<longleftrightarrow> (if a = b then diverge as bs else plain_segment a \<and> plain_segment b)"
| "diverge _ _ \<longleftrightarrow> False"

lemma set_get: "setPath v segs w = Inr u \<Longrightarrow> getPath u segs = Some w"
proof (induction v segs w arbitrary: u rule: setPath.induct)
  case (2 current seg segs w)
  show ?case
  proof (cases current)
    case (JObj kvs)
    then show ?thesis using 2 by (auto simp: update_conv)
  next
    case (JArr vs)
    then obtain i where i: "parse_index seg = Some i" using "2.prems" by (auto split: option.splits)
    then show ?thesis using 2 JArr by (auto simp: Let_def)
  qed (use "2.prems" in auto)
qed simp

section \<open>Indices\<close>

lemma array_index_int_part: "array_index s \<Longrightarrow> int_part s"
  by (cases s) (auto simp: array_index_def int_part_def)

lemma plain_index_inj:
  assumes "plain_segment a" and "plain_segment b" and "parse_index a = Some i" and "parse_index b = Some i"
  shows "a = b"
proof -
  have "array_index a" "array_index b" using assms by (auto simp: plain_segment_def)
  moreover have "digits_value a = digits_value b"
    using assms(3,4) digits_value_nonneg [of a] digits_value_nonneg [of b]
    by (auto simp: parse_index_def decimalDigits_def split: if_splits)
  ultimately show ?thesis using int_part_value array_index_int_part by blast
qed

section \<open>Frame\<close>

lemma set_frame:
  "setPath v segs w = Inr u \<Longrightarrow> diverge segs qs \<Longrightarrow> getPath v qs = Some x \<Longrightarrow> getPath u qs = Some x"
proof (induction v segs w arbitrary: u qs rule: setPath.induct)
  case (2 current seg segs w)
  obtain q rs where q: "qs = q # rs" using "2.prems"(2) by (cases qs) auto
  have ne: "seg = q \<Longrightarrow> segs \<noteq> [] \<and> rs \<noteq> []" using "2.prems"(2) q by (cases segs; cases rs) auto
  have fresh: "getPath (fresh_container segs) rs \<noteq> Some x" if "rs \<noteq> []"
    using that by (cases rs) (auto simp: fresh_container_def)
  show ?case
  proof (cases current)
    case (JObj kvs)
    obtain t where t: "setPath (case map_of kvs seg of None \<Rightarrow> fresh_container segs | Some child \<Rightarrow> child) segs w = Inr t"
        "u = JObj (AList.update seg t kvs)"
      using "2.prems"(1) JObj by auto
    show ?thesis
    proof (cases "seg = q")
      case True
      then obtain c where c: "map_of kvs q = Some c" "getPath c rs = Some x" using "2.prems"(3) JObj q by (cases "map_of kvs q") auto
      then show ?thesis using "2.IH"(2) [OF JObj t(1), of rs] t(2) True q "2.prems"(2) by (simp add: update_conv)
    next
      case False
      then show ?thesis using "2.prems"(3) JObj q t(2) by (simp add: update_conv)
    qed
  next
    case (JArr vs)
    then obtain i where i: "parse_index seg = Some i" using "2.prems"(1) by (auto split: option.splits)
    obtain j where j: "parse_index q = Some j" "j < length vs" "getPath (vs ! j) rs = Some x"
      using "2.prems"(3) JArr q by (cases "parse_index q") (auto split: if_splits)
    define ws where "ws = vs @ replicate (i + 1 - length vs) JNull"
    have ws: "ws ! j = vs ! j" "j < length ws" "i < length ws" using j(2) by (auto simp: ws_def nth_append)
    obtain t where t: "setPath (if ws ! i = JNull \<and> segs \<noteq> [] then fresh_container segs else ws ! i) segs w = Inr t" "u = JArr (ws[i := t])"
      using "2.prems"(1) JArr i by (auto simp: Let_def ws_def [symmetric] simp del: One_nat_def add_Suc_right)
    show ?thesis
    proof (cases "seg = q")
      case True
      then have "i = j" "rs \<noteq> []" using i j(1) ne by simp_all
      then have n: "ws ! i \<noteq> JNull" using j(3) ws(1) by (cases rs) auto
      then have "getPath t rs = Some x"
        using "2.IH"(1) [OF JArr i ws_def t(1), of rs] j(3) ws(1) True q "2.prems"(2) \<open>i = j\<close> by (simp add: ws_def)
      then show ?thesis using t(2) q j(1) ws \<open>i = j\<close> by simp
    next
      case False
      then have "i \<noteq> j" using plain_index_inj [of seg q i] "2.prems"(2) q i j(1) by auto
      then show ?thesis using t(2) q j(1,3) ws by simp
    qed
  qed (use "2.prems" in auto)
qed auto

section \<open>Targets of bindings\<close>

text \<open>A pointer is the escaped form of its segments.\<close>

definition pointer_of :: "string list \<Rightarrow> string" where
  "pointer_of segs = concat (map (\<lambda>s. CHR ''/'' # escapePointer s) segs)"

lemma pointer_of_simps [simp]: "pointer_of [] = []" "pointer_of (s # segs) = CHR ''/'' # escapePointer s @ pointer_of segs"
  by (simp_all add: pointer_of_def)

lemma escapePointer_simps [simp]:
  "escapePointer [] = []"
  "escapePointer (c # s) = (if c = CHR ''~'' then ''~0'' else if c = CHR ''/'' then ''~1'' else [c]) @ escapePointer s"
  by (simp_all add: escapePointer_def)

lemma unescape_escape: "unescape_segment raw = Some seg \<Longrightarrow> CHR ''/'' \<notin> set raw \<Longrightarrow> escapePointer seg = raw"
proof (induction raw arbitrary: seg rule: unescape_segment.induct)
  case (2 c s)
  show ?case
  proof (cases "c = CHR ''~''")
    case False
    then obtain r where "unescape_segment s = Some r" "seg = c # r" using "2.prems"(1) by auto
    then show ?thesis using "2.IH"(1) [OF False] "2.prems"(2) False by auto
  next
    case True
    then obtain e r where s: "s = e # r" using "2.prems"(1) by (cases s) auto
    then consider "e = CHR ''0''" | "e = CHR ''1''" using "2.prems"(1) True by (auto split: if_splits)
    then show ?thesis
    proof cases
      case 1
      then obtain t where "unescape_segment r = Some t" "seg = CHR ''~'' # t" using "2.prems"(1) True s by auto
      then show ?thesis using "2.IH"(2) [of e r t] "2.prems"(2) True s 1 by simp
    next
      case 2
      then obtain t where "unescape_segment r = Some t" "seg = CHR ''/'' # t" using \<open>unescape_segment (c # s) = Some seg\<close> True s by auto
      then show ?thesis using "2.IH"(3) [of e r t] \<open>CHR ''/'' \<notin> set (c # s)\<close> True s 2 by simp
    qed
  qed
qed simp

lemma split_slashes_parts:
  "split_slashes s \<noteq> [] \<and> concat (map (Cons (CHR ''/'')) (split_slashes s)) = CHR ''/'' # s \<and> (\<forall>raw \<in> set (split_slashes s). CHR ''/'' \<notin> set raw)"
proof (induction s)
  case (Cons c s)
  then obtain h t where "split_slashes s = h # t" by (cases "split_slashes s") auto
  then show ?case using Cons by auto
qed simp

lemma parts_inverse:
  "pointer_parts raws = Inr segs \<Longrightarrow> \<forall>raw \<in> set raws. CHR ''/'' \<notin> set raw \<Longrightarrow>
    concat (map (Cons (CHR ''/'')) raws) = pointer_of segs \<and> [] \<notin> set segs"
proof (induction raws arbitrary: segs)
  case (Cons raw raws)
  then obtain seg rest where s: "unescape_segment raw = Some seg" "pointer_parts raws = Inr rest" "segs = seg # rest" "raw \<noteq> []"
    by (auto split: if_splits option.splits)
  then have "escapePointer seg = raw" using unescape_escape [of raw seg] Cons.prems by simp
  then show ?case using s Cons.IH [of rest] Cons.prems(2) by auto
qed simp

lemma pointer_inverse:
  assumes "pointerSegments p = Inr segs"
  shows "p = pointer_of segs" and "segs \<noteq> []"
proof -
  obtain r where r: "p = CHR ''/'' # r" "pointer_parts (split_slashes r) = Inr segs"
    using assms by (cases p) (auto simp: pointerSegments_def split: if_splits)
  then show "p = pointer_of segs" using parts_inverse [OF r(2)] split_slashes_parts [of r] by simp
  then show "segs \<noteq> []" using r(1) by auto
qed

lemma slash_not_escaped: "CHR ''/'' \<notin> set (escapePointer s)"
  by (induction s) auto

lemma pointer_prefix: "pointer_of (as @ bs) = pointer_of as @ pointer_of bs"
  by (simp add: pointer_of_def)

text \<open>Targets that the compiler accepts next to each other diverge.\<close>

lemma not_prefix_diverge:
  assumes "\<And>cs. qs \<noteq> segs @ cs" and "\<And>cs. segs \<noteq> qs @ cs" and "list_all plain_segment segs" and "list_all plain_segment qs"
  shows "diverge segs qs"
  using assms
proof (induction segs arbitrary: qs)
  case (Cons a as)
  then obtain b bs where q: "qs = b # bs" by (cases qs) auto
  show ?case
  proof (cases "a = b")
    case True
    then show ?thesis using Cons.IH [of bs] Cons.prems q by auto
  qed (use Cons.prems q in simp)
qed (use assms(1) in auto)

lemma uncovered_diverge:
  assumes "\<not> covered (pointer_of qs) provided" and "pointer_of segs \<in> set provided"
    and "list_all plain_segment segs" and "list_all plain_segment qs"
  shows "diverge qs segs"
proof (rule not_prefix_diverge)
  have n: "pointer_of qs \<noteq> pointer_of segs" "\<not> has_prefix (pointer_of qs) (pointer_of segs @ ''/'')" "\<not> has_prefix (pointer_of segs) (pointer_of qs @ ''/'')"
    using assms(1,2) by (auto simp: covered_def list_ex_iff)
  show "segs \<noteq> qs @ cs" for cs using n(1,3) by (cases cs) (auto simp: pointer_prefix has_prefix_def)
  show "qs \<noteq> segs @ cs" for cs using n(1,2) by (cases cs) (auto simp: pointer_prefix has_prefix_def)
qed (use assms in simp_all)

lemma identifier_plain: "ValidIdentifier s \<Longrightarrow> parse_index s = None"
  by (cases s) (auto simp: ValidIdentifier_iff identifierPattern_def is_letter_def is_digit_def in_range_def parse_index_def decimalDigits_def)

lemma resolved_plain:
  "validateDefinition s = None \<Longrightarrow> Schema_Resolve s segs = Inr t \<Longrightarrow> list_all plain_segment segs"
proof (induction s segs rule: Schema_Resolve.induct)
  case (2 s seg segs)
  obtain ty properties required additional items dflt enum format where s: "s = Schema ty properties required additional items dflt enum format"
    by (cases s)
  show ?case
  proof (cases ty)
    case TypeObject
    then obtain p where p: "map_of properties seg = Some p" "Schema_Resolve p segs = Inr t" using "2.prems"(2) s by (auto split: option.splits)
    have "ValidIdentifier seg" "validateDefinition p = None"
      using "2.prems"(1) map_of_SomeD [OF p(1)] s TypeObject by (auto simp: validateDefinition.simps)
    then show ?thesis using "2.IH" p s TypeObject identifier_plain [of seg] by (simp add: plain_segment_def)
  next
    case TypeArray
    then obtain i where i: "items = Some i" "array_index seg" "Schema_Resolve i segs = Inr t"
      using "2.prems"(2) s by (auto split: option.splits if_splits)
    have "validateDefinition i = None" using "2.prems"(1) s TypeArray i(1) by (auto simp: validateDefinition.simps)
    then show ?thesis using "2.IH" i s TypeArray by (simp add: plain_segment_def)
  qed (use "2.prems"(2) s in auto)
qed simp

section \<open>Resolved objects\<close>

lemma setBoundValue_inv:
  "setBoundValue kvs segs w = Inr kvs' \<Longrightarrow> setPath (JObj kvs) segs w = Inr (JObj kvs')"
  by (cases "setPath (JObj kvs) segs w") (auto simp: setBoundValue_def split: if_splits json.split_asm)

lemma bind_frame:
  "bind_values env vals kvs bs = Inr r \<Longrightarrow> getPath (JObj kvs) qs = Some x \<Longrightarrow>
   \<forall>b \<in> set bs. \<forall>segs. pointerSegments (vb_Target b) = Inr segs \<longrightarrow> diverge segs qs \<Longrightarrow> getPath (JObj r) qs = Some x"
proof (induction bs arbitrary: kvs)
  case (Cons b bs)
  obtain v segs kvs' where s: "pointerSegments (vb_Target b) = Inr segs" "setBoundValue kvs segs (bound_value v) = Inr kvs'"
      "bind_values env vals kvs' bs = Inr r"
    using Cons.prems(1) by auto
  have "getPath (JObj kvs') qs = Some x"
    using set_frame [OF setBoundValue_inv [OF s(2)], of qs x] Cons.prems(2,3) s(1) by auto
  then show ?case using Cons.IH [OF s(3)] Cons.prems(3) by auto
qed simp

lemma checked_diverge:
  assumes "check_bindings s env seen provided bs = Inr p" and "validateDefinition s = None"
    and "pointer_of segs \<in> set provided" and "list_all plain_segment segs"
  shows "\<forall>b \<in> set bs. \<forall>qs. pointerSegments (vb_Target b) = Inr qs \<longrightarrow> diverge qs segs"
  using assms
proof (induction bs arbitrary: seen provided)
  case (Cons b bs)
  obtain qs t where q: "pointerSegments (vb_Target b) = Inr qs" "\<not> covered (vb_Target b) provided" "Schema_Resolve s qs = Inr t"
      "check_bindings s env (vb_Target b # seen) (vb_Target b # provided) bs = Inr p"
    using Cons.prems(1) by auto
  have "diverge qs segs"
    using uncovered_diverge [of qs provided segs] q pointer_inverse(1) [OF q(1)] resolved_plain [OF assms(2) q(3)] Cons.prems(3,4) by simp
  then show ?case using Cons.IH [OF q(4) assms(2)] Cons.prems(3,4) q(1) by auto
qed simp

definition bound :: "Environment \<Rightarrow> Values \<Rightarrow> (string \<times> json) list \<Rightarrow> ValueBinding \<Rightarrow> bool" where
  "bound env vals r b \<longleftrightarrow> (case (pointerSegments (vb_Target b), Evaluate (vb_Value b) env vals) of
     (Inr segs, Inr v) \<Rightarrow> getPath (JObj r) segs = Some (bound_value v) | _ \<Rightarrow> False)"

lemma bindings_hold:
  assumes "check_bindings s cenv seen provided bs = Inr p" and "validateDefinition s = None"
    and "bind_values env vals kvs bs = Inr r"
  shows "\<forall>b \<in> set bs. bound env vals r b"
  using assms
proof (induction bs arbitrary: seen provided kvs)
  case (Cons b bs)
  obtain segs t where c: "pointerSegments (vb_Target b) = Inr segs" "Schema_Resolve s segs = Inr t"
      "check_bindings s cenv (vb_Target b # seen) (vb_Target b # provided) bs = Inr p"
    using Cons.prems(1) by auto
  obtain v kvs' where v: "Evaluate (vb_Value b) env vals = Inr v" "setBoundValue kvs segs (bound_value v) = Inr kvs'"
      "bind_values env vals kvs' bs = Inr r"
    using Cons.prems(3) c(1) by auto
  have "getPath (JObj kvs') segs = Some (bound_value v)" using set_get [OF setBoundValue_inv [OF v(2)]] .
  moreover have "\<forall>b \<in> set bs. \<forall>qs. pointerSegments (vb_Target b) = Inr qs \<longrightarrow> diverge qs segs"
    using checked_diverge [OF c(3) assms(2)] pointer_inverse(1) [OF c(1)] resolved_plain [OF assms(2) c(2)] by simp
  ultimately have "getPath (JObj r) segs = Some (bound_value v)" using bind_frame [OF v(3)] by blast
  then show ?case using Cons.IH [OF c(3) assms(2) v(3)] c(1) v(1) by (simp add: bound_def)
qed simp

lemma resolved_object:
  assumes "validateInputAssembly s fixed bs cenv = None" and "resolveObject d s fx bs v = Inr r"
  shows "validateValue s (JObj r) = None" and "\<forall>b \<in> set bs. bound (resolve_environment d v) (value_set v) r b"
proof -
  obtain kvs where k: "bind_values (resolve_environment d v) (value_set v) kvs bs = Inr r" "ValidateValue s (JObj r) = None"
    using assms(2) by (auto simp: resolveObject_def)
  then have d: "validateDefinition s = None" and "validateValue s (JObj r) = None" by (auto simp: ValidateValue_def)
  then show "validateValue s (JObj r) = None" by simp
  obtain seen provided p where "check_bindings s cenv seen provided bs = Inr p" using assms(1) by (auto simp: validateInputAssembly_def)
  then show "\<forall>b \<in> set bs. bound (resolve_environment d v) (value_set v) r b" using bindings_hold [OF _ d k(1)] by blast
qed

end
