(* ===== verification/Resolve_Claims.thy ===== *)
theory Resolve_Claims
  imports Workflow_Claims Resolve_Props
begin

text \<open>The properties of resolution, kernel/workflow/resolve.go.\<close>

section \<open>Assembled objects of a compiled workflow\<close>

definition assembled :: "WorkflowDefinition \<Rightarrow> resolve_values \<Rightarrow> Schema \<Rightarrow> ValueBinding list \<Rightarrow> (string \<times> json) list \<Rightarrow> bool" where
  "assembled d v s bs r \<longleftrightarrow> validateValue s (JObj r) = None \<and> list_all (bound (resolve_environment d v) (value_set v) r) bs"

lemma assembly_assembled:
  assumes "validateInputAssembly s fixed bs cenv = None" and "resolveObject d s fx bs v = Inr r"
  shows "assembled d v s bs r"
  using resolved_object [OF assms] by (simp add: assembled_def list_all_iff)

lemma compiled_assemblies:
  assumes "Compile d = Inr plan"
  obtains env where "\<forall>n \<in> set (wd_Nodes d). validateInputAssembly (wn_InputSchema n) (wn_FixedInputs n) (wn_Bindings n) (env n) = None"
    and "\<forall>n \<in> set (wd_Nodes d). \<forall>c. wn_CallAction n = Some c \<longrightarrow> validateCallAction c (wn_OutputSchema n) (env n) = None"
    and "\<forall>kv \<in> set (wd_Entrypoints d). \<exists>cenv. validateInputAssembly (wd_ResultSchema d) [] (result_bindings_of d (fst kv)) cenv = None"
    and "distinct (map wn_NodeID (wd_Nodes d))"
proof -
  obtain nodes s entries order where c: "indexNodes (wd_Nodes d) = Inr nodes" "buildGraph d nodes = Inr s"
    "topologicalOrder (gs_graph s) = Inr order"
    "\<forall>n \<in> set order. validate_assembly d nodes s entries n = None" "validate_results d nodes s = None"
    by (rule compile_stages [OF assms])
  note g = compiled_graph [OF c(1,2)] and nf = indexNodes_facts [OF c(1)]
  have "graph_wf (gs_graph s)" "set (graph_nodes (gs_graph s)) = node_ids d" using g(1,3) by (simp_all add: graph_state_ok_def)
  then have order: "set order = node_ids d" using topological_order [of "gs_graph s"] c(3) by simp
  have a: "validate_assembly d nodes s entries (wn_NodeID n) = None \<and> map_of nodes (wn_NodeID n) = Some n" if "n \<in> set (wd_Nodes d)" for n
    using nf c(4) order that by (auto simp: comp_def node_ids_def intro!: map_of_is_SomeI)
  show thesis
  proof (rule that [of "\<lambda>n. node_environment d nodes s entries (wn_NodeID n)"])
    show "distinct (map wn_NodeID (wd_Nodes d))" using nf by simp
    show "\<forall>kv \<in> set (wd_Entrypoints d). \<exists>cenv. validateInputAssembly (wd_ResultSchema d) [] (result_bindings_of d (fst kv)) cenv = None"
      using c(5) by (force simp: validate_results_def)
    show "\<forall>n \<in> set (wd_Nodes d). validateInputAssembly (wn_InputSchema n) (wn_FixedInputs n) (wn_Bindings n)
        (node_environment d nodes s entries (wn_NodeID n)) = None"
    proof
      fix n assume "n \<in> set (wd_Nodes d)"
      from a [OF this] show "validateInputAssembly (wn_InputSchema n) (wn_FixedInputs n) (wn_Bindings n)
        (node_environment d nodes s entries (wn_NodeID n)) = None" by (auto simp: validate_assembly_def Let_def)
    qed
    show "\<forall>n \<in> set (wd_Nodes d). \<forall>c. wn_CallAction n = Some c \<longrightarrow>
        validateCallAction c (wn_OutputSchema n) (node_environment d nodes s entries (wn_NodeID n)) = None"
    proof (intro ballI allI impI)
      fix n c assume "n \<in> set (wd_Nodes d)" and "wn_CallAction n = Some c"
      with a [of n] show "validateCallAction c (wn_OutputSchema n) (node_environment d nodes s entries (wn_NodeID n)) = None"
        by (auto simp: validate_assembly_def Let_def)
    qed
  qed
qed

lemma found_node:
  assumes "distinct (map wn_NodeID (wd_Nodes d))" and "n \<in> set (wd_Nodes d)"
  shows "workflowNode d (wn_NodeID n) = Some n"
proof -
  have "find (\<lambda>m. wn_NodeID m = wn_NodeID n) ns = Some n" if "distinct (map wn_NodeID ns)" "n \<in> set ns" for ns
    using that by (induction ns) auto
  then show ?thesis using assms by (simp add: workflowNode_def)
qed

text \<open>
  C19: objects resolved for a compiled workflow are those that its bindings describe. When the inputs of a node,
  the inputs, trigger and scope of a child Action or the result of an entrypoint are resolved, the object
  matches its schema, and every binding evaluates and its value is found in the object at the target of the binding:
  neither defaults, fixed values nor the other bindings disturb it.
\<close>

theorem resolution_honours_bindings:
  assumes "Compile d = Inr plan"
  shows "(\<forall>n \<in> set (wd_Nodes d). \<forall>r. ResolveNodeInputs d (wn_NodeID n) v = Inr r \<longrightarrow> assembled d v (wn_InputSchema n) (wn_Bindings n) r)
    \<and> (\<forall>n \<in> set (wd_Nodes d). \<forall>call inputs trigger scope. wn_CallAction n = Some call \<longrightarrow>
        ResolveCallActionContext d (wn_NodeID n) v = Inr (inputs, trigger, scope) \<longrightarrow>
        assembled d (v\<lparr>rv_secrets := []\<rparr>) (ca_InputSchema call) (slice (ca_InputMap call)) inputs
        \<and> assembled d (v\<lparr>rv_secrets := []\<rparr>) (ca_TriggerSchema call) (slice (ca_TriggerMap call)) trigger
        \<and> assembled d (v\<lparr>rv_secrets := []\<rparr>) (ca_ScopeSchema call) (slice (ca_ScopeMap call)) scope)
    \<and> (\<forall>entrypoint r. ResolveResult d entrypoint v = Inr r \<longrightarrow>
        assembled d (v\<lparr>rv_secrets := []\<rparr>) (wd_ResultSchema d) (result_bindings_of d entrypoint) r)"
proof -
  obtain env where a: "\<forall>n \<in> set (wd_Nodes d). validateInputAssembly (wn_InputSchema n) (wn_FixedInputs n) (wn_Bindings n) (env n) = None"
    "\<forall>n \<in> set (wd_Nodes d). \<forall>c. wn_CallAction n = Some c \<longrightarrow> validateCallAction c (wn_OutputSchema n) (env n) = None"
    "\<forall>kv \<in> set (wd_Entrypoints d). \<exists>cenv. validateInputAssembly (wd_ResultSchema d) [] (result_bindings_of d (fst kv)) cenv = None"
    "distinct (map wn_NodeID (wd_Nodes d))"
    by (rule compiled_assemblies [OF assms])
  have "assembled d v (wn_InputSchema n) (wn_Bindings n) r" if "n \<in> set (wd_Nodes d)" "ResolveNodeInputs d (wn_NodeID n) v = Inr r" for n r
    using assembly_assembled [OF bspec [OF a(1) that(1)]] that(2) found_node [OF a(4) that(1)] by (simp add: ResolveNodeInputs_def)
  moreover have "assembled d (v\<lparr>rv_secrets := []\<rparr>) (ca_InputSchema call) (slice (ca_InputMap call)) inputs
        \<and> assembled d (v\<lparr>rv_secrets := []\<rparr>) (ca_TriggerSchema call) (slice (ca_TriggerMap call)) trigger
        \<and> assembled d (v\<lparr>rv_secrets := []\<rparr>) (ca_ScopeSchema call) (slice (ca_ScopeMap call)) scope"
    if n: "n \<in> set (wd_Nodes d)" "wn_CallAction n = Some call" "ResolveCallActionContext d (wn_NodeID n) v = Inr (inputs, trigger, scope)"
    for n call inputs trigger scope
  proof -
    have "call_node d (wn_NodeID n) = Some (n, call)" using found_node [OF a(4) n(1)] n(2) by (simp add: call_node_def)
    then have r: "resolveObject d (ca_InputSchema call) [] (slice (ca_InputMap call)) (v\<lparr>rv_secrets := []\<rparr>) = Inr inputs"
        "resolveObject d (ca_TriggerSchema call) [] (slice (ca_TriggerMap call)) (v\<lparr>rv_secrets := []\<rparr>) = Inr trigger"
        "resolveObject d (ca_ScopeSchema call) [] (slice (ca_ScopeMap call)) (v\<lparr>rv_secrets := []\<rparr>) = Inr scope"
      using n(3) by (auto simp: ResolveCallActionContext_def Let_def)
    have "validateInputAssembly (ca_InputSchema call) [] (slice (ca_InputMap call)) (env n) = None"
        "validateInputAssembly (ca_TriggerSchema call) [] (slice (ca_TriggerMap call)) (env n) = None"
        "validateInputAssembly (ca_ScopeSchema call) [] (slice (ca_ScopeMap call)) (env n) = None"
      using bspec [OF a(2) n(1)] n(2) by (simp_all add: validateCallAction_def)
    then show ?thesis using assembly_assembled r by blast
  qed
  moreover have "assembled d (v\<lparr>rv_secrets := []\<rparr>) (wd_ResultSchema d) (result_bindings_of d e) r" if r: "ResolveResult d e v = Inr r" for e r
  proof -
    obtain node where e: "map_of (wd_Entrypoints d) e = Some node" using r by (cases "map_of (wd_Entrypoints d) e") (auto simp: ResolveResult_def)
    then obtain cenv where "validateInputAssembly (wd_ResultSchema d) [] (result_bindings_of d e) cenv = None" using bspec [OF a(3) map_of_SomeD [OF e]] by auto
    then show ?thesis using assembly_assembled r e by (auto simp: ResolveResult_def Let_def)
  qed
  ultimately show ?thesis by blast
qed

definition sample_outputs :: resolve_values where
  "sample_outputs = \<lparr>rv_inputs = [], rv_trigger = [], rv_scope = [], rv_outputs = [(''a'', [(''y'', JNum ''7'')])], rv_secrets = []\<rparr>"

abbreviation sample_inputs :: Schema where
  "sample_inputs \<equiv> closed_object [(''x'', type_schema TypeInteger)] [''x'']"

abbreviation sample_target :: WorkflowNodeDefinition where
  "sample_target \<equiv> sample_node ''b'' sample_inputs (closed_object [] [])
     [\<lparr>vb_Target = ''/x'', vb_Value = ValueExpr None ''nodes.a.output.y'' [] None None None\<rparr>]"

lemma sample_evaluates:
  "Evaluate (ValueExpr None ''nodes.a.output.y'' [] None None None) (resolve_environment sample_workflow sample_outputs)
     (value_set sample_outputs) = Inr (GNum ''7'')"
  by code_simp

lemma sample_resolves: "ResolveNodeInputs sample_workflow ''b'' sample_outputs = Inr [(''x'', JNum ''7'')]"
proof -
  have "ApplyDefaults sample_inputs [] = Inr ([], [])" by code_simp
  moreover have "ValidateValue sample_inputs (JObj [(''x'', JNum ''7'')]) = None" by code_simp
  moreover have "setBoundValue [] [''x''] (bound_value (GNum ''7'')) = Inr [(''x'', JNum ''7'')]" by (simp add: setBoundValue_def bound_value_def)
  moreover have "pointerSegments ''/x'' = Inr [''x'']" by (simp add: pointerSegments_def)
  moreover have "workflowNode sample_workflow ''b'' = Some sample_target"
    by (simp add: workflowNode_def sample_workflow_def sample_node_def)
  ultimately show ?thesis
    unfolding ResolveNodeInputs_def resolveObject_def using sample_evaluates by (simp add: sample_node_def)
qed

theorem resolution_honours_bindings_witness:
  "\<exists>plan. Compile sample_workflow = Inr plan \<and> sample_target \<in> set (wd_Nodes sample_workflow) \<and>
     assembled sample_workflow sample_outputs sample_inputs (wn_Bindings sample_target) [(''x'', JNum ''7'')]"
proof -
  obtain plan where p: "Compile sample_workflow = Inr plan" using sample_compiles by blast
  have n: "sample_target \<in> set (wd_Nodes sample_workflow)" by (simp add: sample_workflow_def)
  have f: "wn_NodeID sample_target = ''b''" "wn_InputSchema sample_target = sample_inputs" by (simp_all add: sample_node_def)
  have "ResolveNodeInputs sample_workflow (wn_NodeID sample_target) sample_outputs = Inr [(''x'', JNum ''7'')]" unfolding f by (rule sample_resolves)
  from bspec [OF conjunct1 [OF resolution_honours_bindings [OF p, of sample_outputs]] n, rule_format, OF this]
  show ?thesis using p n unfolding f by blast
qed

end
