(* ===== verification/Action_Admission.thy ===== *)
theory Action_Admission
  imports Workflow_Compile
begin

text \<open>
  Package kernel/action and the data of sdk/go/contracts/action.go: the admission of a normalised
  trigger and candidate object to the immutable inputs of an Action, with the provenance of every input field.
\<close>

section \<open>Data\<close>

datatype TriggerKind = TriggerManual | TriggerSchedule | TriggerWebhook | TriggerAPI | TriggerPanel
  | TriggerProductBuilder | TriggerActionCall | TriggerKindOther string

definition TriggerKind_Valid :: "TriggerKind \<Rightarrow> bool" where
  "TriggerKind_Valid k = (case k of TriggerKindOther _ \<Rightarrow> False | _ \<Rightarrow> True)"

definition TriggerKind_string :: "TriggerKind \<Rightarrow> string" where
  "TriggerKind_string k = (case k of TriggerManual \<Rightarrow> ''trigger.manual/v1'' | TriggerSchedule \<Rightarrow> ''trigger.schedule/v1''
     | TriggerWebhook \<Rightarrow> ''trigger.webhook/v1'' | TriggerAPI \<Rightarrow> ''trigger.api/v1'' | TriggerPanel \<Rightarrow> ''trigger.panel/v1''
     | TriggerProductBuilder \<Rightarrow> ''trigger.product-builder/v1'' | TriggerActionCall \<Rightarrow> ''trigger.action-call/v1''
     | TriggerKindOther t \<Rightarrow> t)"

definition ActionRef_Equal :: "ActionRef \<Rightarrow> ActionRef \<Rightarrow> bool" where
  "ActionRef_Equal a b \<longleftrightarrow> ar_ActionID a = ar_ActionID b \<and> ar_Version a = ar_Version b \<and> ar_Digest a = ar_Digest b"

record ActionVersion =
  av_ActionID :: string
  av_Version :: string
  av_DefinitionDigest :: string
  av_Entrypoint :: string
  av_InputSchema :: Schema
  av_ResultSchema :: Schema
  av_AcceptedTriggerKinds :: "TriggerKind list"
  av_RequiredCapabilities :: "string list"
  av_InputSizeLimit :: int

definition ActionVersion_Ref :: "ActionVersion \<Rightarrow> ActionRef" where
  "ActionVersion_Ref a = \<lparr>ar_ActionID = av_ActionID a, ar_Version = av_Version a, ar_Digest = av_DefinitionDigest a\<rparr>"

record TriggerEvent =
  te_EventID :: string
  te_Kind :: TriggerKind
  te_Version :: string
  te_OccurredAt :: instant
  te_ReceivedAt :: instant
  te_SourceRef :: string
  te_ActorRef :: string
  te_SubjectRef :: string
  te_PayloadSchemaDigest :: string
  te_Payload :: "payload option"
  te_RawArtifactRef :: string
  te_VerificationReceiptRef :: string

record ActionPresetVersion =
  apv_PresetID :: string
  apv_Version :: string
  apv_Digest :: string
  apv_ActionRef :: ActionRef
  apv_Values :: "payload option"
  apv_OverridablePaths :: "string list"
  apv_PolicyRef :: string

datatype InputOriginKind = OriginSchemaDefault | OriginPreset | OriginCaller | OriginTriggerMap | OriginParentMap
  | OriginProductBuilder | InputOriginOther string

definition InputOriginKind_string :: "InputOriginKind \<Rightarrow> string" where
  "InputOriginKind_string k = (case k of OriginSchemaDefault \<Rightarrow> ''schema-default'' | OriginPreset \<Rightarrow> ''preset''
     | OriginCaller \<Rightarrow> ''caller'' | OriginTriggerMap \<Rightarrow> ''trigger-map'' | OriginParentMap \<Rightarrow> ''parent-map''
     | OriginProductBuilder \<Rightarrow> ''product-builder'' | InputOriginOther t \<Rightarrow> t)"

record InputFieldProvenance =
  ifp_TargetPointer :: string
  ifp_OriginKind :: InputOriginKind
  ifp_SourceRef :: string
  ifp_SourcePointer :: string
  ifp_SourceDigest :: string
  ifp_MappingDigest :: string

definition TriggerEvent_json :: "TriggerEvent \<Rightarrow> json result" where
  "TriggerEvent_json t =
     andThen (time_json (te_OccurredAt t)) (\<lambda>occurred.
     andThen (time_json (te_ReceivedAt t)) (\<lambda>received.
     Inr (JObj ([(''eventId'', JStr (te_EventID t)), (''kind'', JStr (TriggerKind_string (te_Kind t))), (''version'', JStr (te_Version t)),
       (''occurredAt'', occurred), (''receivedAt'', received), (''sourceRef'', JStr (te_SourceRef t)), (''actorRef'', JStr (te_ActorRef t))] @
       omitempty (te_SubjectRef t \<noteq> []) ''subjectRef'' (JStr (te_SubjectRef t)) @
       [(''payloadSchemaDigest'', JStr (te_PayloadSchemaDigest t)), (''payload'', case te_Payload t of None \<Rightarrow> JNull | Some p \<Rightarrow> JObj p)] @
       omitempty (te_RawArtifactRef t \<noteq> []) ''rawArtifactRef'' (JStr (te_RawArtifactRef t)) @
       omitempty (te_VerificationReceiptRef t \<noteq> []) ''verificationReceiptRef'' (JStr (te_VerificationReceiptRef t))))))"

record Request =
  rq_Action :: ActionVersion
  rq_Trigger :: TriggerEvent
  rq_Preset :: "ActionPresetVersion option"
  rq_Candidate :: payload
  rq_CandidateOrigin :: InputOriginKind
  rq_CandidateRef :: string
  rq_MappingDigest :: string

record Admission =
  adm_ActionRef :: ActionRef
  adm_Trigger :: TriggerEvent
  adm_TriggerDigest :: string
  adm_Inputs :: payload
  adm_CanonicalInputs :: string
  adm_InputDigest :: string
  adm_PresetRef :: string
  adm_PresetDigest :: string
  adm_FieldProvenance :: "InputFieldProvenance list"

section \<open>Validation\<close>

fun check_trigger_kinds :: "TriggerKind list \<Rightarrow> TriggerKind list \<Rightarrow> error option" where
  "check_trigger_kinds seen [] = None"
| "check_trigger_kinds seen (k # ks) = first_error
     [fail_if (\<not> TriggerKind_Valid k) (Errorf ''unsupported accepted trigger kind''),
      fail_if (k \<in> set seen) (Errorf ''accepted trigger kind is duplicated''),
      check_trigger_kinds (k # seen) ks]"

definition validateAction :: "ActionVersion \<Rightarrow> error option" where
  "validateAction a = first_error
     [fail_if (\<not> ValidIdentifier (av_ActionID a) \<or> \<not> ValidIdentifier (av_Version a) \<or> \<not> ValidIdentifier (av_Entrypoint a))
        (Errorf ''action identity, version, and entrypoint must be portable identifiers''),
      fail_if (\<not> ValidDigest (av_DefinitionDigest a)) (Errorf ''action definition digest is invalid''),
      fail_if (sch_Type (av_InputSchema a) \<noteq> TypeObject) (Errorf ''action input schema must be an object''),
      validateDefinition (av_InputSchema a),
      fail_if (ContainsFormat (av_InputSchema a) FormatSecretHandle) (Errorf ''action inputs cannot contain resolved secret handle slots''),
      validateDefinition (av_ResultSchema a),
      fail_if (ContainsFormat (av_ResultSchema a) FormatSecretHandle) (Errorf ''action results cannot contain secret handles''),
      fail_if (av_AcceptedTriggerKinds a = []) (Errorf ''action must accept at least one trigger kind''),
      check_trigger_kinds [] (av_AcceptedTriggerKinds a),
      fail_if (\<not> list_all ValidIdentifier (av_RequiredCapabilities a)) (Errorf ''invalid required capability''),
      fail_if (av_InputSizeLimit a < 0) (Errorf ''action input size limit cannot be negative'')]"

definition ValidateVersion :: "ActionVersion \<Rightarrow> error option" where
  "ValidateVersion a = validateAction a"

definition validateTrigger :: "TriggerEvent \<Rightarrow> error option" where
  "validateTrigger t = first_error
     [fail_if (\<not> ValidIdentifier (te_EventID t) \<or> \<not> TriggerKind_Valid (te_Kind t) \<or> \<not> ValidIdentifier (te_Version t))
        (Errorf ''trigger event identity, kind, or version is invalid''),
      fail_if (IsZero (te_OccurredAt t) \<or> IsZero (te_ReceivedAt t)) (Errorf ''trigger timestamps are required''),
      fail_if (\<not> ValidIdentifier (te_SourceRef t) \<or> \<not> ValidIdentifier (te_ActorRef t))
        (Errorf ''trigger sourceRef and actorRef are required portable identifiers''),
      fail_if (te_SubjectRef t \<noteq> [] \<and> \<not> ValidIdentifier (te_SubjectRef t)) (Errorf ''trigger subjectRef is invalid''),
      fail_if (te_RawArtifactRef t \<noteq> [] \<and> \<not> ValidIdentifier (te_RawArtifactRef t)) (Errorf ''trigger rawArtifactRef is invalid''),
      fail_if (te_VerificationReceiptRef t \<noteq> [] \<and> \<not> ValidIdentifier (te_VerificationReceiptRef t))
        (Errorf ''trigger verificationReceiptRef is invalid''),
      fail_if (\<not> ValidDigest (te_PayloadSchemaDigest t)) (Errorf ''trigger payload schema digest is invalid''),
      (case te_Payload t of None \<Rightarrow> Some (Errorf ''trigger payload must be an object'')
       | Some p \<Rightarrow> err_of (Marshal (JObj p)))]"

fun escapes_ok :: "string \<Rightarrow> bool" where
  "escapes_ok [] \<longleftrightarrow> True"
| "escapes_ok (c # s) \<longleftrightarrow> (if c \<noteq> CHR ''~'' then escapes_ok s
     else (case s of [] \<Rightarrow> False | e # r \<Rightarrow> (e = CHR ''0'' \<or> e = CHR ''1'') \<and> escapes_ok r))"

definition validatePointer :: "string \<Rightarrow> error option" where
  "validatePointer pointer = first_error
     (fail_if (pointer = [] \<or> pointer = ''/'' \<or> hd pointer \<noteq> CHR ''/'') (Errorf ''must address a non-root JSON Pointer'') #
      map (\<lambda>segment. first_error [fail_if (segment = []) (Errorf ''contains an empty segment''),
        fail_if (\<not> escapes_ok segment) (Errorf ''contains an invalid escape'')]) (split_slashes (tl pointer)))"

fun check_overridable :: "string list \<Rightarrow> string list \<Rightarrow> error option" where
  "check_overridable seen [] = None"
| "check_overridable seen (p # ps) = first_error
     [validatePointer p, fail_if (p \<in> set seen) (Errorf ''overridable path is duplicated''), check_overridable (p # seen) ps]"

definition validatePreset :: "ActionPresetVersion \<Rightarrow> ActionRef \<Rightarrow> error option" where
  "validatePreset p action = first_error
     [fail_if (\<not> ValidIdentifier (apv_PresetID p) \<or> \<not> ValidIdentifier (apv_Version p) \<or> \<not> ValidDigest (apv_Digest p))
        (Errorf ''preset identity, version, or digest is invalid''),
      fail_if (\<not> ActionRef_Equal (apv_ActionRef p) action) (Errorf ''preset does not target the exact action version''),
      fail_if (apv_Values p = None) (Errorf ''preset values must be an object''),
      check_overridable [] (apv_OverridablePaths p)]"

definition expectedOrigin :: "TriggerKind \<Rightarrow> InputOriginKind result" where
  "expectedOrigin k = (case k of
     TriggerManual \<Rightarrow> Inr OriginCaller | TriggerAPI \<Rightarrow> Inr OriginCaller | TriggerPanel \<Rightarrow> Inr OriginCaller
   | TriggerSchedule \<Rightarrow> Inr OriginTriggerMap | TriggerWebhook \<Rightarrow> Inr OriginTriggerMap
   | TriggerProductBuilder \<Rightarrow> Inr OriginProductBuilder | TriggerActionCall \<Rightarrow> Inr OriginParentMap
   | TriggerKindOther _ \<Rightarrow> Inl (Errorf ''unsupported trigger kind''))"

definition accepts :: "TriggerKind list \<Rightarrow> TriggerKind \<Rightarrow> bool" where
  "accepts accepted actual \<longleftrightarrow> list_ex (\<lambda>k. k = actual) accepted"

section \<open>Merging\<close>

text \<open>
  The keys of a Go map are distinct, so the order in which an overlay is visited does not change the
  merged object; the model visits it from the end.
\<close>

fun mergeObject :: "payload \<Rightarrow> payload \<Rightarrow> payload" where
  "mergeObject target [] = target"
| "mergeObject target ((key, v) # rest) =
     (let merged = mergeObject target rest in
      case v of
        JObj object \<Rightarrow> AList.update key (JObj (mergeObject (case map_of merged key of Some (JObj existing) \<Rightarrow> existing | _ \<Rightarrow> []) object)) merged
      | _ \<Rightarrow> AList.update key v merged)"

fun markLeafPointers :: "json \<Rightarrow> string \<Rightarrow> string list"
and leaf_members :: "payload \<Rightarrow> string \<Rightarrow> string list"
where
  "markLeafPointers (JObj kvs) pointer = (if kvs = [] then [pointer] else []) @ leaf_members kvs pointer"
| "markLeafPointers v pointer = [pointer]"
| "leaf_members [] pointer = []"
| "leaf_members ((key, child) # rest) pointer = markLeafPointers child (child_pointer pointer key) @ leaf_members rest pointer"

definition leafPointers :: "payload \<Rightarrow> string list" where
  "leafPointers kvs = leaf_members kvs []"

definition validateOverrides :: "payload \<Rightarrow> string list \<Rightarrow> error option" where
  "validateOverrides candidate allowed = fail_if (\<not> list_all (\<lambda>p. p \<in> set allowed) (leafPointers candidate))
     (Errorf ''candidate path is not overridable by preset'')"

definition overlaps :: "string \<Rightarrow> string \<Rightarrow> bool" where
  "overlaps p q \<longleftrightarrow> p = q \<or> has_prefix p (q @ ''/'') \<or> has_prefix q (p @ ''/'')"

definition setProvenance :: "(string \<times> InputFieldProvenance) list \<Rightarrow> InputFieldProvenance \<Rightarrow> (string \<times> InputFieldProvenance) list" where
  "setProvenance target item = (ifp_TargetPointer item, item) # filter (\<lambda>kv. \<not> overlaps (fst kv) (ifp_TargetPointer item)) target"

section \<open>Admission\<close>

text \<open>
  The provenance of overlapping pointers depends on the order in which the runtime visits the maps
  of pointers; this order is the parameter \<open>visit\<close> of the model.
\<close>

definition default_item :: "ActionVersion \<Rightarrow> string \<Rightarrow> InputFieldProvenance" where
  "default_item a pointer = \<lparr>ifp_TargetPointer = pointer, ifp_OriginKind = OriginSchemaDefault,
     ifp_SourceRef = av_ActionID a @ ''@'' @ av_Version a @ ''#inputSchema'', ifp_SourcePointer = [],
     ifp_SourceDigest = av_DefinitionDigest a, ifp_MappingDigest = []\<rparr>"

definition presetRef :: "ActionPresetVersion \<Rightarrow> string" where
  "presetRef p = apv_PresetID p @ ''@'' @ apv_Version p"

definition preset_item :: "ActionPresetVersion \<Rightarrow> string \<Rightarrow> InputFieldProvenance" where
  "preset_item p pointer = \<lparr>ifp_TargetPointer = pointer, ifp_OriginKind = OriginPreset, ifp_SourceRef = presetRef p,
     ifp_SourcePointer = pointer, ifp_SourceDigest = apv_Digest p, ifp_MappingDigest = []\<rparr>"

definition candidate_item :: "Request \<Rightarrow> string \<Rightarrow> string \<Rightarrow> InputFieldProvenance" where
  "candidate_item r candidateDigest pointer = \<lparr>ifp_TargetPointer = pointer, ifp_OriginKind = rq_CandidateOrigin r,
     ifp_SourceRef = rq_CandidateRef r, ifp_SourcePointer = pointer, ifp_SourceDigest = candidateDigest, ifp_MappingDigest = rq_MappingDigest r\<rparr>"

definition set_all :: "(string \<Rightarrow> InputFieldProvenance) \<Rightarrow> string list \<Rightarrow> (string \<times> InputFieldProvenance) list \<Rightarrow> (string \<times> InputFieldProvenance) list" where
  "set_all item pointers provenance = fold (\<lambda>p acc. setProvenance acc (item p)) pointers provenance"

definition validate_request :: "Request \<Rightarrow> error option" where
  "validate_request r = first_error
     [validateAction (rq_Action r), validateTrigger (rq_Trigger r),
      fail_if (\<not> accepts (av_AcceptedTriggerKinds (rq_Action r)) (te_Kind (rq_Trigger r))) (Errorf ''action does not accept trigger kind''),
      (case expectedOrigin (te_Kind (rq_Trigger r)) of Inl e \<Rightarrow> Some e
       | Inr origin \<Rightarrow> fail_if (rq_CandidateOrigin r \<noteq> origin) (Errorf ''trigger requires another candidate origin'')),
      fail_if (te_Kind (rq_Trigger r) = TriggerPanel \<and> rq_Preset r = None) (Errorf ''panel trigger requires an exact preset''),
      fail_if (rq_Preset r \<noteq> None \<and> te_Kind (rq_Trigger r) \<noteq> TriggerPanel \<and> te_Kind (rq_Trigger r) \<noteq> TriggerManual)
        (Errorf ''trigger cannot apply an Action preset''),
      fail_if (rq_MappingDigest r \<noteq> [] \<and> \<not> ValidDigest (rq_MappingDigest r)) (Errorf ''candidate mapping digest is invalid'')]"

text \<open>The preset: merged into the defaults, with its provenance, and the candidate checked against its paths.\<close>

definition apply_preset :: "(string list \<Rightarrow> string list) \<Rightarrow> ActionRef \<Rightarrow> ActionPresetVersion option \<Rightarrow> payload \<Rightarrow>
    payload \<times> (string \<times> InputFieldProvenance) list \<Rightarrow> (payload \<times> (string \<times> InputFieldProvenance) list) result" where
  "apply_preset visit action preset candidate s = (case preset of None \<Rightarrow> Inr s
     | Some p \<Rightarrow>
         ensure (validatePreset p action) (
         andThen (CloneObject (the (apv_Values p))) (\<lambda>presetValues.
         ensure (validateOverrides candidate (apv_OverridablePaths p)) (
         Inr (mergeObject (fst s) presetValues, set_all (preset_item p) (visit (leafPointers presetValues)) (snd s))))))"

definition input_limit :: "ActionVersion \<Rightarrow> int" where
  "input_limit a = (if av_InputSizeLimit a = 0 then 1048576 else av_InputSizeLimit a)"

definition Admit :: "(string list \<Rightarrow> string list) \<Rightarrow> Request \<Rightarrow> Admission result" where
  "Admit visit r =
     ensure (validate_request r) (
     andThen (CloneObject (rq_Candidate r)) (\<lambda>candidate.
     andThen (DigestValue (JObj candidate)) (\<lambda>candidateDigest.
     andThen (CloneObject (the (te_Payload (rq_Trigger r)))) (\<lambda>triggerPayload.
     andThen (ApplyDefaults (av_InputSchema (rq_Action r)) []) (\<lambda>(inputs, defaultPaths).
     andThen (apply_preset visit (ActionVersion_Ref (rq_Action r)) (rq_Preset r) candidate
       (inputs, set_all (default_item (rq_Action r)) (visit (remdups defaultPaths)) [])) (\<lambda>(inputs, provenance).
     let inputs = mergeObject inputs candidate;
         provenance = set_all (candidate_item r candidateDigest) (visit (leafPointers candidate)) provenance;
         trigger = (rq_Trigger r)\<lparr>te_Payload := Some triggerPayload\<rparr> in
     ensure (ValidateValue (av_InputSchema (rq_Action r)) (JObj inputs)) (
     andThen (Marshal (JObj inputs)) (\<lambda>canonicalInputs.
     ensure (fail_if (int (length canonicalInputs) > input_limit (rq_Action r)) (Errorf ''action inputs exceed limit'')) (
     andThen (Digest canonicalInputs) (\<lambda>inputDigest.
     andThen (andThen (TriggerEvent_json trigger) DigestValue) (\<lambda>triggerDigest.
     Inr \<lparr>adm_ActionRef = ActionVersion_Ref (rq_Action r), adm_Trigger = trigger, adm_TriggerDigest = triggerDigest, adm_Inputs = inputs,
       adm_CanonicalInputs = canonicalInputs, adm_InputDigest = inputDigest,
       adm_PresetRef = (case rq_Preset r of None \<Rightarrow> [] | Some p \<Rightarrow> presetRef p),
       adm_PresetDigest = (case rq_Preset r of None \<Rightarrow> [] | Some p \<Rightarrow> apv_Digest p),
       adm_FieldProvenance = sort_key ifp_TargetPointer (map snd provenance)\<rparr>)))))))))))"

end
