(* ===== verification/Action_Props.thy ===== *)
theory Action_Props
  imports Action_Admission Resolve_Props "HOL-Library.Sublist"
begin

text \<open>
  Merged objects and the provenance of their fields, over the paths of objects: where a merged value comes
  from, which values an overlay leaves alone, and that provenance is kept for pairwise disjoint pointers.
\<close>

section \<open>Decoded objects\<close>

fun distinct_keys :: "json \<Rightarrow> bool" where
  "distinct_keys (JObj kvs) \<longleftrightarrow> distinct (map fst kvs) \<and> list_all (\<lambda>kv. distinct_keys (snd kv)) kvs"
| "distinct_keys (JArr vs) \<longleftrightarrow> list_all distinct_keys vs"
| "distinct_keys _ \<longleftrightarrow> True"

lemma update_distinct_keys:
  assumes "distinct_keys (JObj kvs)" and "distinct_keys v"
  shows "distinct_keys (JObj (AList.update k v kvs))"
proof -
  have "distinct (map fst (AList.update k v kvs))" using assms(1) by (simp add: distinct_update)
  moreover have "\<forall>kv \<in> set (AList.update k v kvs). distinct_keys (snd kv)"
    using assms by (induction kvs) (auto simp: list_all_iff)
  ultimately show ?thesis by (simp add: list_all_iff)
qed

lemma std_scalar_distinct: "std_scalar s = Some (v, r) \<Longrightarrow> distinct_keys v"
  by (auto simp: std_scalar_def split: if_splits)

lemma std_decode_distinct:
  "std_decode n depth m s = Some (v, r) \<Longrightarrow>
   (case m of Value_After _ \<Rightarrow> True | Object_After acc \<Rightarrow> distinct_keys (JObj acc) | Array_After acc \<Rightarrow> list_all distinct_keys acc) \<Longrightarrow> distinct_keys v"
proof (induction n arbitrary: depth m s v r)
  case (Suc n)
  show ?case
  proof (cases m)
    case (Value_After sep)
    then obtain t where t: "after_separator sep s = Some t" using Suc.prems(1) by (auto split: option.splits)
    show ?thesis
      using Suc.prems(1) Value_After t Suc.IH [of "depth + 1" "Object_After []" "tl t" v r] Suc.IH [of "depth + 1" "Array_After []" "tl t" v r]
        std_scalar_distinct [of t v r]
      by (auto split: if_splits)
  next
    case (Object_After acc)
    show ?thesis
    proof (cases "skip_space s \<noteq> [] \<and> hd (skip_space s) = CHR ''}''")
      case True
      then show ?thesis using Suc.prems Object_After by auto
    next
      case False
      then obtain k t w t' where d: "std_decode n depth (Value_After (Some (CHR '':''))) t = Some (w, t')"
          "std_decode n depth (Object_After (AList.update k w acc)) t' = Some (v, r)"
        using Suc.prems(1) Object_After by (auto simp: bind_eq_Some_conv split: if_splits)
      have "distinct_keys w" using Suc.IH [OF d(1)] by simp
      then have "distinct_keys (JObj (AList.update k w acc))" using update_distinct_keys [of acc w k] Suc.prems(2) Object_After by simp
      then show ?thesis using Suc.IH [OF d(2)] by simp
    qed
  next
    case (Array_After acc)
    show ?thesis
    proof (cases "skip_space s \<noteq> [] \<and> hd (skip_space s) = CHR '']''")
      case True
      then show ?thesis using Suc.prems Array_After by auto
    next
      case False
      then obtain sep t w t' where d: "std_decode n depth (Value_After sep) t = Some (w, t')"
          "std_decode n depth (Array_After (acc @ [w])) t' = Some (v, r)"
        using Suc.prems(1) Array_After by (auto simp: bind_eq_Some_conv split: if_splits)
      then show ?thesis using Suc.IH [OF d(1)] Suc.IH [OF d(2)] Suc.prems(2) Array_After by simp
    qed
  qed
qed simp

lemma clone_distinct:
  assumes "CloneObject kvs = Inr c"
  shows "distinct_keys (JObj c)"
proof -
  obtain w where w: "decodeJSON (json_Marshal (JObj kvs)) = Inr w" "(case w of JObj kvs \<Rightarrow> Inr kvs | _ \<Rightarrow> Inl (Errorf ''clone object: source is not an object'')) = Inr c"
    using assms unfolding CloneObject_def by (cases "decodeJSON (json_Marshal (JObj kvs))") auto
  then have "decodeJSON (json_Marshal (JObj kvs)) = Inr (JObj c)" by (cases w) auto
  then obtain n s r where "std_decode n 0 (Value_After None) s = Some (JObj c, r)"
    by (auto simp: decodeJSON_def simp del: std_decode.simps split: option.splits if_splits)
  then show ?thesis using std_decode_distinct [of n 0 "Value_After None" s "JObj c" r] by simp
qed

section \<open>Merged values\<close>

fun objectPath :: "json \<Rightarrow> string list \<Rightarrow> json option" where
  "objectPath v [] = Some v"
| "objectPath v (seg # segs) = (case v of JObj kvs \<Rightarrow> Option.bind (map_of kvs seg) (\<lambda>w. objectPath w segs) | _ \<Rightarrow> None)"

definition is_object :: "json \<Rightarrow> bool" where
  "is_object v = (case v of JObj _ \<Rightarrow> True | _ \<Rightarrow> False)"

lemma is_object_simps [simp]: "is_object (JObj kvs)" "\<not> is_object v \<Longrightarrow> v \<noteq> JObj kvs"
  by (auto simp: is_object_def)

definition sub_object :: "json option \<Rightarrow> payload" where
  "sub_object v = (case v of Some (JObj kvs) \<Rightarrow> kvs | _ \<Rightarrow> [])"

lemma merge_Cons:
  "mergeObject target ((key, v) # rest) = AList.update key
     (case v of JObj object \<Rightarrow> JObj (mergeObject (sub_object (map_of (mergeObject target rest) key)) object) | _ \<Rightarrow> v) (mergeObject target rest)"
  by (simp add: Let_def sub_object_def split: json.splits)

text \<open>The overlay wins, and whatever it does not define is as before.\<close>

lemma merge_overlay:
  "objectPath (JObj overlay) segs = Some v \<Longrightarrow> \<not> is_object v \<Longrightarrow> objectPath (JObj (mergeObject target overlay)) segs = Some v"
proof (induction target overlay arbitrary: segs rule: mergeObject.induct)
  case (1 target)
  then show ?case by (cases segs) auto
next
  case (2 target key w rest)
  then obtain s ss where segs: "segs = s # ss" by (cases segs) auto
  show ?case
  proof (cases "s = key")
    case True
    then have w: "objectPath w ss = Some v" using "2.prems"(1) segs by simp
    then show ?thesis
      using "2.IH"(2) [OF refl, of _ ss] "2.prems"(2) True segs by (cases w) (auto simp: merge_Cons update_conv sub_object_def simp del: mergeObject.simps)
  next
    case False
    then have "objectPath (JObj rest) segs = Some v" using "2.prems"(1) segs by simp
    then have "objectPath (JObj (mergeObject target rest)) segs = Some v" using "2.IH"(1) "2.prems"(2) by blast
    then show ?thesis using False segs by (simp add: merge_Cons update_conv del: mergeObject.simps)
  qed
qed

lemma merge_source:
  "objectPath (JObj (mergeObject target overlay)) segs = Some v \<Longrightarrow> \<not> is_object v \<Longrightarrow>
   distinct_keys (JObj overlay) \<Longrightarrow> objectPath (JObj overlay) segs = Some v \<or> objectPath (JObj target) segs = Some v"
proof (induction target overlay arbitrary: segs rule: mergeObject.induct)
  case (2 target key w rest)
  then obtain s ss where segs: "segs = s # ss" by (cases segs) auto
  show ?case
  proof (cases "s = key")
    case True
    have fresh: "map_of rest key = None" using "2.prems"(3) by (auto simp: map_of_eq_None_iff)
    show ?thesis
    proof (cases "is_object w")
      case obj: True
      then obtain object where w: "w = JObj object" by (cases w) (auto simp: is_object_def)
      have m: "objectPath (JObj (mergeObject (sub_object (map_of (mergeObject target rest) key)) object)) ss = Some v"
        using "2.prems"(1) True segs w by (simp add: merge_Cons update_conv del: mergeObject.simps)
      have "objectPath (JObj object) ss = Some v \<or> objectPath (JObj (sub_object (map_of (mergeObject target rest) key))) ss = Some v"
        using "2.IH"(2) [OF refl w, of ss] m "2.prems"(2,3) w by (simp add: sub_object_def)
      then show ?thesis
      proof
        assume "objectPath (JObj (sub_object (map_of (mergeObject target rest) key))) ss = Some v"
        moreover have "ss \<noteq> []" using m "2.prems"(2) by auto
        ultimately have "objectPath (JObj (mergeObject target rest)) segs = Some v"
          using segs True by (cases ss) (auto simp: sub_object_def split: option.splits json.splits)
        then show ?thesis using "2.IH"(1) [of segs] "2.prems"(2,3) fresh segs True by auto
      qed (use segs True w in simp)
    next
      case False
      then have "(case w of JObj object \<Rightarrow> JObj (mergeObject (sub_object (map_of (mergeObject target rest) key)) object) | _ \<Rightarrow> w) = w"
        by (cases w) auto
      then show ?thesis using "2.prems"(1) True segs by (simp add: merge_Cons update_conv del: mergeObject.simps)
    qed
  next
    case False
    then have "objectPath (JObj (mergeObject target rest)) segs = Some v"
      using "2.prems"(1) segs by (simp add: merge_Cons update_conv del: mergeObject.simps)
    then show ?thesis using "2.IH"(1) [of segs] "2.prems"(2,3) segs False by auto
  qed
qed simp

section \<open>Leaves\<close>

fun leafPaths :: "json \<Rightarrow> string list list" where
  "leafPaths (JObj kvs) = (if kvs = [] then [[]] else concat (map (\<lambda>kv. map (Cons (fst kv)) (leafPaths (snd kv))) kvs))"
| "leafPaths v = [[]]"

definition member_paths :: "payload \<Rightarrow> string list list" where
  "member_paths kvs = concat (map (\<lambda>kv. map (Cons (fst kv)) (leafPaths (snd kv))) kvs)"

lemma member_paths_simps [simp]:
  "member_paths [] = []" "member_paths (kv # kvs) = map (Cons (fst kv)) (leafPaths (snd kv)) @ member_paths kvs"
  by (simp_all add: member_paths_def)

lemma leafPaths_object: "leafPaths (JObj kvs) = (if kvs = [] then [[]] else member_paths kvs)"
  by (simp add: member_paths_def)

lemma leafPaths_nonempty: "leafPaths v \<noteq> []"
proof (induction v rule: leafPaths.induct)
  case (1 kvs)
  then show ?case by (cases kvs) auto
qed simp_all

lemma leaf_pointers_paths:
  "markLeafPointers v p = map (\<lambda>segs. p @ pointer_of segs) (leafPaths v)"
  "leaf_members kvs p = map (\<lambda>segs. p @ pointer_of segs) (member_paths kvs)"
proof (induction v p and kvs p rule: markLeafPointers_leaf_members.induct)
  case (1 kvs pointer)
  then show ?case by (simp only: markLeafPointers.simps leafPaths_object) (auto simp del: leafPaths.simps)
qed (simp_all add: child_pointer_def)

lemma leafPointers_paths: "leafPointers kvs = map pointer_of (member_paths kvs)"
  by (simp add: leafPointers_def leaf_pointers_paths)

lemma merge_keeps:
  "objectPath (JObj target) segs = Some v \<Longrightarrow> \<not> is_object v \<Longrightarrow> \<forall>l \<in> set (member_paths overlay). \<not> prefix l segs \<and> \<not> prefix segs l \<Longrightarrow>
   objectPath (JObj (mergeObject target overlay)) segs = Some v"
proof (induction target overlay arbitrary: segs rule: mergeObject.induct)
  case (2 target key w rest)
  then obtain s ss where segs: "segs = s # ss" by (cases segs) auto
  have old: "objectPath (JObj (mergeObject target rest)) segs = Some v" using "2.IH"(1) [of segs] "2.prems" by auto
  show ?case
  proof (cases "s = key")
    case True
    have no: "\<forall>l \<in> set (leafPaths w). \<not> prefix l ss \<and> \<not> prefix ss l"
    proof
      fix l assume "l \<in> set (leafPaths w)"
      then have "key # l \<in> set (member_paths ((key, w) # rest))" by simp
      from bspec [OF "2.prems"(3) this] show "\<not> prefix l ss \<and> \<not> prefix ss l" using segs True by simp
    qed
    obtain object where w: "w = JObj object" using no by (cases w) auto
    have ne: "object \<noteq> []" "ss \<noteq> []" using no w leafPaths_nonempty [of w] by (cases "leafPaths w"; auto)+
    then obtain existing where e: "map_of (mergeObject target rest) key = Some (JObj existing)" "objectPath (JObj existing) ss = Some v"
      using old segs True by (cases ss; cases "map_of (mergeObject target rest) key") (auto split: json.split_asm)
    have "objectPath (JObj (mergeObject existing object)) ss = Some v"
      using "2.IH"(2) [OF refl w, of ss] e "2.prems"(2) no [unfolded w leafPaths_object] ne(1) by simp
    then show ?thesis using segs True w e(1) by (simp add: merge_Cons update_conv sub_object_def del: mergeObject.simps)
  next
    case False
    then show ?thesis using old segs by (simp add: merge_Cons update_conv del: mergeObject.simps)
  qed
qed simp

section \<open>Disjoint pointers\<close>

lemma escape_inj: "escapePointer a = escapePointer b \<Longrightarrow> a = b"
proof (induction a arbitrary: b)
  case Nil
  then show ?case by (cases b) (auto split: if_splits)
next
  case (Cons c a)
  then obtain d b' where "b = d # b'" by (cases b) (auto split: if_splits)
  then show ?case using Cons by (auto split: if_splits)
qed

lemma escape_front:
  assumes "escapePointer a @ x = escapePointer b @ y" and "x = [] \<or> hd x = CHR ''/''" and "y = [] \<or> hd y = CHR ''/''"
  shows "a = b \<and> x = y"
proof -
  have t: "takeWhile (\<lambda>c. c \<noteq> CHR ''/'') (escapePointer s @ z) = escapePointer s" if "z = [] \<or> hd z = CHR ''/''" for s z
    using slash_not_escaped [of s] that by (cases z) (auto simp: takeWhile_append)
  have "escapePointer a = escapePointer b" using t [OF assms(2), of a] t [OF assms(3), of b] assms(1) by simp
  then show ?thesis using escape_inj [of a b] assms(1) by simp
qed

lemma pointer_of_front: "pointer_of segs = [] \<or> hd (pointer_of segs) = CHR ''/''"
  by (cases segs) auto

lemma pointer_split:
  "pointer_of as = pointer_of bs @ x \<Longrightarrow> x = [] \<or> hd x = CHR ''/'' \<Longrightarrow> prefix bs as"
proof (induction bs arbitrary: as)
  case (Cons b bs)
  then obtain a as' where a: "as = a # as'" by (cases as) auto
  have "pointer_of bs @ x = [] \<or> hd (pointer_of bs @ x) = CHR ''/''" using pointer_of_front [of bs] Cons.prems(2) by (cases "pointer_of bs") auto
  then have "a = b \<and> pointer_of as' = pointer_of bs @ x"
    using escape_front [of a "pointer_of as'" b "pointer_of bs @ x"] Cons.prems(1) a pointer_of_front [of as'] by simp
  then show ?case using Cons.IH [of as'] Cons.prems(2) a by simp
qed simp

lemma overlaps_paths: "overlaps (pointer_of as) (pointer_of bs) \<longleftrightarrow> prefix as bs \<or> prefix bs as"
proof
  have p: "prefix bs as" if "pointer_of as = pointer_of bs \<or> has_prefix (pointer_of as) (pointer_of bs @ ''/'')" (is ?c) for as bs
  proof -
    have c: ?c by (rule that)
    obtain x where "pointer_of as = pointer_of bs @ x" "x = [] \<or> hd x = CHR ''/''"
    proof (cases "pointer_of as = pointer_of bs")
      case False
      then have "take (Suc (length (pointer_of bs))) (pointer_of as) = pointer_of bs @ ''/''" using c by (simp add: has_prefix_def)
      then have "pointer_of as = pointer_of bs @ ''/'' @ drop (Suc (length (pointer_of bs))) (pointer_of as)"
        using append_take_drop_id [of "Suc (length (pointer_of bs))" "pointer_of as"] by simp
      then show thesis by (rule that) simp
    qed simp
    then show ?thesis by (rule pointer_split)
  qed
  then show "overlaps (pointer_of as) (pointer_of bs) \<Longrightarrow> prefix as bs \<or> prefix bs as" unfolding overlaps_def by metis
  have q: "overlaps (pointer_of as) (pointer_of (as @ cs)) \<and> overlaps (pointer_of (as @ cs)) (pointer_of as)" for as cs
    by (cases cs) (auto simp: overlaps_def pointer_prefix has_prefix_def)
  show "prefix as bs \<or> prefix bs as \<Longrightarrow> overlaps (pointer_of as) (pointer_of bs)" using q by (auto simp: prefix_def)
qed

lemma overlaps_sym: "overlaps p q \<longleftrightarrow> overlaps q p"
  by (auto simp: overlaps_def)

lemma leaves_disjoint:
  "distinct_keys v \<Longrightarrow> l \<in> set (leafPaths v) \<Longrightarrow> m \<in> set (leafPaths v) \<Longrightarrow> prefix l m \<Longrightarrow> l = m"
proof (induction v arbitrary: l m rule: leafPaths.induct)
  case (1 kvs)
  show ?case
  proof (cases "kvs = []")
    case False
    then obtain kv l' kv' m' where p: "kv \<in> set kvs" "l' \<in> set (leafPaths (snd kv))" "l = fst kv # l'"
        "kv' \<in> set kvs" "m' \<in> set (leafPaths (snd kv'))" "m = fst kv' # m'"
      using "1.prems"(2,3) by auto
    then have "kv = kv'" using "1.prems"(1,4) by (auto simp: distinct_map dest: inj_onD)
    then show ?thesis using "1.IH" [OF False p(1) _ p(2), of m'] p "1.prems"(1,4) by (auto simp: list_all_iff)
  qed (use "1.prems" in simp)
qed simp_all

lemma leaf_pointers_disjoint:
  assumes "distinct_keys (JObj kvs)" and "p \<in> set (leafPointers kvs)" and "q \<in> set (leafPointers kvs)" and "overlaps p q"
  shows "p = q"
proof -
  obtain l m where l: "p = pointer_of l" "q = pointer_of m" "l \<in> set (member_paths kvs)" "m \<in> set (member_paths kvs)"
    using assms(2,3) by (auto simp: leafPointers_paths)
  then have "l \<in> set (leafPaths (JObj kvs))" "m \<in> set (leafPaths (JObj kvs))" by (auto simp: leafPaths_object simp del: leafPaths.simps)
  then show ?thesis using leaves_disjoint [OF assms(1)] assms(4) l(1,2) overlaps_paths by metis
qed

section \<open>Provenance\<close>

definition provenance_ok :: "(string \<times> InputFieldProvenance) list \<Rightarrow> bool" where
  "provenance_ok prov \<longleftrightarrow> sorted_wrt (\<lambda>a b. \<not> overlaps (fst a) (fst b)) prov \<and> (\<forall>kv \<in> set prov. ifp_TargetPointer (snd kv) = fst kv)"

lemma setProvenance_ok: "provenance_ok prov \<Longrightarrow> provenance_ok (setProvenance prov item)"
  by (auto simp: provenance_ok_def setProvenance_def overlaps_sym sorted_wrt_filter)

lemma set_all_ok: "provenance_ok prov \<Longrightarrow> provenance_ok (set_all item ps prov)"
  unfolding set_all_def by (induction ps arbitrary: prov) (auto intro: setProvenance_ok)

lemma set_all_items: "set (set_all item ps prov) \<subseteq> (\<lambda>p. (ifp_TargetPointer (item p), item p)) ` set ps \<union> set prov"
proof (induction ps rule: rev_induct)
  case (snoc p ps)
  then show ?case by (auto simp: set_all_def setProvenance_def)
qed (simp add: set_all_def)

lemma set_all_present:
  assumes "\<And>p. ifp_TargetPointer (item p) = p" and "\<forall>p \<in> set ps. \<forall>q \<in> set ps. overlaps p q \<longrightarrow> p = q"
  shows "\<forall>p \<in> set ps. (p, item p) \<in> set (set_all item ps prov)"
  using assms(2) unfolding set_all_def
proof (induction ps rule: rev_induct)
  case (snoc q ps)
  then show ?case using assms(1) by (auto simp: setProvenance_def)
qed simp

lemma provenance_sorted:
  assumes "provenance_ok prov"
  shows "sorted_wrt (\<lambda>x y. ifp_TargetPointer x < ifp_TargetPointer y \<and> \<not> overlaps (ifp_TargetPointer x) (ifp_TargetPointer y))
    (sort_key ifp_TargetPointer (map snd prov))"
proof -
  let ?t = ifp_TargetPointer and ?ps = "map snd prov"
  have w: "sorted_wrt (\<lambda>x y. \<not> overlaps (?t x) (?t y)) ?ps"
    unfolding sorted_wrt_map
  proof (rule sorted_wrt_mono_rel)
    show "sorted_wrt (\<lambda>a b. \<not> overlaps (fst a) (fst b)) prov" using assms by (simp add: provenance_ok_def)
    show "\<not> overlaps (?t (snd x)) (?t (snd y))" if "x \<in> set prov" "y \<in> set prov" "\<not> overlaps (fst x) (fst y)" for x y
      using assms that by (simp add: provenance_ok_def)
  qed
  have d: "distinct (map ?t ?ps)" using w by (induction ?ps arbitrary: prov) (auto simp: overlaps_def)
  have no: "\<not> overlaps (?t x) (?t y)" if xy: "x \<in> set ?ps" "y \<in> set ?ps" "?t x \<noteq> ?t y" for x y
  proof -
    obtain i j where i: "i < length ?ps" "?ps ! i = x" "j < length ?ps" "?ps ! j = y" using xy(1,2) by (metis in_set_conv_nth)
    then have "i < j \<or> j < i" using xy(3) by (metis linorder_neqE_nat)
    then show ?thesis using w i overlaps_sym [of "?t x" "?t y"] by (auto simp: sorted_wrt_iff_nth_less simp del: nth_map)
  qed
  have "mset (map ?t (sort_key ?t ?ps)) = mset (map ?t ?ps)" by (simp only: mset_map mset_sort)
  then have "distinct (map ?t (sort_key ?t ?ps))" using d mset_eq_imp_distinct_iff by blast
  then have "sorted_wrt (<) (map ?t (sort_key ?t ?ps))" unfolding strict_sorted_iff by (intro conjI sorted_sort_key)
  then have "sorted_wrt (\<lambda>x y. ?t x < ?t y) (sort_key ?t ?ps)" by (simp only: sorted_wrt_map)
  then show ?thesis
  proof (rule sorted_wrt_mono_rel [rotated])
    show "?t x < ?t y \<and> \<not> overlaps (?t x) (?t y)" if "x \<in> set (sort_key ?t ?ps)" "y \<in> set (sort_key ?t ?ps)" "?t x < ?t y" for x y
      using no [of x y] that by simp
  qed
qed

end
