(* ===== verification/Action_Claims.thy ===== *)
theory Action_Claims
  imports Action_Props
begin

text \<open>The properties of action admission, kernel/action.\<close>

section \<open>The stages of an admission\<close>

text \<open>The preset values of a request, after cloning; none without a preset.\<close>

definition preset_values :: "Request \<Rightarrow> payload" where
  "preset_values r = (case rq_Preset r of None \<Rightarrow> [] | Some p \<Rightarrow> (case CloneObject (the (apv_Values p)) of Inr kvs \<Rightarrow> kvs | Inl _ \<Rightarrow> []))"

definition overridable :: "Request \<Rightarrow> string list" where
  "overridable r = (case rq_Preset r of None \<Rightarrow> [] | Some p \<Rightarrow> apv_OverridablePaths p)"

lemma admission_stages:
  assumes "Admit visit r = Inr a"
  obtains candidate digest defaults paths provenance where
    "CloneObject (rq_Candidate r) = Inr candidate" "DigestValue (JObj candidate) = Inr digest"
    "ApplyDefaults (av_InputSchema (rq_Action r)) [] = Inr (defaults, paths)"
    "adm_Inputs a = mergeObject (mergeObject defaults (preset_values r)) candidate"
    "rq_Preset r \<noteq> None \<longrightarrow> set (leafPointers candidate) \<subseteq> set (overridable r)"
    "provenance_ok provenance"
    "adm_FieldProvenance a = sort_key ifp_TargetPointer (map snd (set_all (candidate_item r digest) (visit (leafPointers candidate)) provenance))"
    "validateValue (av_InputSchema (rq_Action r)) (JObj (adm_Inputs a)) = None"
    "Marshal (JObj (adm_Inputs a)) = Inr (adm_CanonicalInputs a)" "Digest (adm_CanonicalInputs a) = Inr (adm_InputDigest a)"
    "int (length (adm_CanonicalInputs a)) \<le> input_limit (rq_Action r)"
proof -
  define p0 where "p0 ps = set_all (default_item (rq_Action r)) (visit (remdups ps)) []" for ps
  have p0: "provenance_ok (p0 ps)" for ps unfolding p0_def by (rule set_all_ok) (simp add: provenance_ok_def)
  obtain candidate digest payload defaults paths inputs provenance where s:
      "CloneObject (rq_Candidate r) = Inr candidate" "DigestValue (JObj candidate) = Inr digest"
      "CloneObject (the (te_Payload (rq_Trigger r))) = Inr payload"
      "ApplyDefaults (av_InputSchema (rq_Action r)) [] = Inr (defaults, paths)"
      "apply_preset visit (ActionVersion_Ref (rq_Action r)) (rq_Preset r) candidate (defaults, p0 paths) = Inr (inputs, provenance)"
      "adm_Inputs a = mergeObject inputs candidate" "ValidateValue (av_InputSchema (rq_Action r)) (JObj (mergeObject inputs candidate)) = None"
      "Marshal (JObj (mergeObject inputs candidate)) = Inr (adm_CanonicalInputs a)" "Digest (adm_CanonicalInputs a) = Inr (adm_InputDigest a)"
      "int (length (adm_CanonicalInputs a)) \<le> input_limit (rq_Action r)"
      "adm_FieldProvenance a = sort_key ifp_TargetPointer (map snd (set_all (candidate_item r digest) (visit (leafPointers candidate)) provenance))"
    using assms unfolding p0_def by (auto simp: Admit_def Let_def)
  have "inputs = mergeObject defaults (preset_values r) \<and> provenance_ok provenance \<and>
      (rq_Preset r \<noteq> None \<longrightarrow> set (leafPointers candidate) \<subseteq> set (overridable r))"
  proof (cases "rq_Preset r")
    case None
    then show ?thesis using s(5) p0 [of paths] by (auto simp: apply_preset_def preset_values_def)
  next
    case (Some p)
    then show ?thesis using s(5) set_all_ok [OF p0]
      by (auto simp: apply_preset_def preset_values_def overridable_def validateOverrides_def list_all_iff)
  qed
  then show thesis using that [of candidate digest defaults paths provenance] s by (auto simp: ValidateValue_def)
qed

section \<open>Admitted inputs\<close>

text \<open>
  C16: admission is sound. Admitted inputs match the input schema of the action, and their canonical text has the
  recorded digest and respects the size limit. Every scalar or array of the candidate is in the inputs at
  its path; every one of the preset whose pointer overlaps no overridable path is, whatever the candidate says; and nothing is there
  that the candidate, the preset or the defaults of the schema did not put there. The field provenance is strictly sorted, its pointers are
  pairwise disjoint, and it attributes every leaf of the candidate to the candidate, in whatever order the
  runtime visits its maps.
\<close>

theorem admission_sound:
  assumes "Admit visit r = Inr a" and "\<forall>ps. set (visit ps) = set ps"
  shows "validateValue (av_InputSchema (rq_Action r)) (JObj (adm_Inputs a)) = None
    \<and> Marshal (JObj (adm_Inputs a)) = Inr (adm_CanonicalInputs a) \<and> Digest (adm_CanonicalInputs a) = Inr (adm_InputDigest a)
    \<and> int (length (adm_CanonicalInputs a)) \<le> input_limit (rq_Action r)
    \<and> sorted_wrt (\<lambda>x y. ifp_TargetPointer x < ifp_TargetPointer y \<and> \<not> overlaps (ifp_TargetPointer x) (ifp_TargetPointer y)) (adm_FieldProvenance a)
    \<and> (\<exists>candidate defaults paths digest. CloneObject (rq_Candidate r) = Inr candidate \<and> DigestValue (JObj candidate) = Inr digest
      \<and> ApplyDefaults (av_InputSchema (rq_Action r)) [] = Inr (defaults, paths)
      \<and> (\<forall>p \<in> set (leafPointers candidate). candidate_item r digest p \<in> set (adm_FieldProvenance a))
      \<and> (\<forall>segs v. \<not> is_object v \<longrightarrow>
          (objectPath (JObj candidate) segs = Some v \<longrightarrow> objectPath (JObj (adm_Inputs a)) segs = Some v)
          \<and> (objectPath (JObj (preset_values r)) segs = Some v \<and> (\<forall>q \<in> set (overridable r). \<not> overlaps q (pointer_of segs))
              \<longrightarrow> objectPath (JObj (adm_Inputs a)) segs = Some v)
          \<and> (objectPath (JObj (adm_Inputs a)) segs = Some v \<longrightarrow> objectPath (JObj candidate) segs = Some v
              \<or> objectPath (JObj (preset_values r)) segs = Some v \<or> objectPath (JObj defaults) segs = Some v)))"
proof -
  obtain candidate digest defaults paths provenance where s:
      "CloneObject (rq_Candidate r) = Inr candidate" "DigestValue (JObj candidate) = Inr digest"
      "ApplyDefaults (av_InputSchema (rq_Action r)) [] = Inr (defaults, paths)"
      "adm_Inputs a = mergeObject (mergeObject defaults (preset_values r)) candidate"
      "rq_Preset r \<noteq> None \<longrightarrow> set (leafPointers candidate) \<subseteq> set (overridable r)" "provenance_ok provenance"
      "adm_FieldProvenance a = sort_key ifp_TargetPointer (map snd (set_all (candidate_item r digest) (visit (leafPointers candidate)) provenance))"
      "validateValue (av_InputSchema (rq_Action r)) (JObj (adm_Inputs a)) = None"
      "Marshal (JObj (adm_Inputs a)) = Inr (adm_CanonicalInputs a)" "Digest (adm_CanonicalInputs a) = Inr (adm_InputDigest a)"
      "int (length (adm_CanonicalInputs a)) \<le> input_limit (rq_Action r)"
    by (rule admission_stages [OF assms(1)])
  define prov where "prov = set_all (candidate_item r digest) (visit (leafPointers candidate)) provenance"
  have ok: "provenance_ok prov" unfolding prov_def by (rule set_all_ok [OF s(6)])
  have c: "distinct_keys (JObj candidate)" by (rule clone_distinct [OF s(1)])
  have p: "distinct_keys (JObj (preset_values r))"
    by (cases "rq_Preset r"; cases "CloneObject (the (apv_Values (the (rq_Preset r))))") (auto simp: preset_values_def dest: clone_distinct)
  have "candidate_item r digest q \<in> set (adm_FieldProvenance a)" if "q \<in> set (leafPointers candidate)" for q
    using set_all_present [of "candidate_item r digest" "visit (leafPointers candidate)" provenance] leaf_pointers_disjoint [OF c] assms(2) that
    unfolding s(7) by (force simp: candidate_item_def)
  moreover have "objectPath (JObj (adm_Inputs a)) segs = Some v"
    if v: "\<not> is_object v" "objectPath (JObj (preset_values r)) segs = Some v" "\<forall>q \<in> set (overridable r). \<not> overlaps q (pointer_of segs)" for segs v
  proof -
    have "rq_Preset r \<noteq> None" using v(1,2) by (cases segs; cases "rq_Preset r") (auto simp: preset_values_def)
    then have "\<forall>l \<in> set (member_paths candidate). \<not> prefix l segs \<and> \<not> prefix segs l"
      using s(5) v(3) overlaps_paths by (fastforce simp: leafPointers_paths)
    then show ?thesis using merge_keeps [OF merge_overlay [OF v(2,1)] v(1)] by (simp add: s(4))
  qed
  moreover have "objectPath (JObj candidate) segs = Some v \<or> objectPath (JObj (preset_values r)) segs = Some v \<or> objectPath (JObj defaults) segs = Some v"
    if "\<not> is_object v" "objectPath (JObj (adm_Inputs a)) segs = Some v" for segs v
    using merge_source [OF _ that(1) c] merge_source [OF _ that(1) p] that(2) unfolding s(4) by blast
  moreover have "sorted_wrt (\<lambda>x y. ifp_TargetPointer x < ifp_TargetPointer y \<and> \<not> overlaps (ifp_TargetPointer x) (ifp_TargetPointer y)) (adm_FieldProvenance a)"
    using provenance_sorted [OF ok] unfolding s(7) prov_def .
  ultimately show ?thesis using s(1-3,8-11) merge_overlay unfolding s(4) by blast
qed

section \<open>A sample admission\<close>

text \<open>A preset gives both inputs; only the second may be overridden.\<close>

declare ValidIdentifier_iff [code]

definition some_digest :: string where "some_digest = ''sha256:'' @ replicate 64 (CHR ''0'')"

definition sample_action :: ActionVersion where
  "sample_action = \<lparr>av_ActionID = ''a'', av_Version = ''v1'', av_DefinitionDigest = some_digest, av_Entrypoint = ''main'',
     av_InputSchema = Schema TypeObject [(''x'', type_schema TypeInteger), (''y'', type_schema TypeInteger)] [''x''] False None [] [] [],
     av_ResultSchema = type_schema TypeObject, av_AcceptedTriggerKinds = [TriggerManual], av_RequiredCapabilities = [], av_InputSizeLimit = 0\<rparr>"

definition sample_trigger :: TriggerEvent where
  "sample_trigger = \<lparr>te_EventID = ''e'', te_Kind = TriggerManual, te_Version = ''v1'', te_OccurredAt = 5, te_ReceivedAt = 5, te_SourceRef = ''s'',
     te_ActorRef = ''u'', te_SubjectRef = [], te_PayloadSchemaDigest = some_digest, te_Payload = Some [], te_RawArtifactRef = [],
     te_VerificationReceiptRef = []\<rparr>"

definition sample_preset :: ActionPresetVersion where
  "sample_preset = \<lparr>apv_PresetID = ''p'', apv_Version = ''v1'', apv_Digest = some_digest, apv_ActionRef = ActionVersion_Ref sample_action,
     apv_Values = Some [(''x'', JNum ''1''), (''y'', JNum ''2'')], apv_OverridablePaths = [''/y''], apv_PolicyRef = []\<rparr>"

definition sample_request :: Request where
  "sample_request = \<lparr>rq_Action = sample_action, rq_Trigger = sample_trigger, rq_Preset = Some sample_preset,
     rq_Candidate = [(''y'', JNum ''3'')], rq_CandidateOrigin = OriginCaller, rq_CandidateRef = ''u'', rq_MappingDigest = []\<rparr>"

abbreviation sample_admitted :: payload where
  "sample_admitted \<equiv> [(''y'', JNum ''3''), (''x'', JNum ''1'')]"

lemma sample_stages:
  "validate_request sample_request = None" "CloneObject [(''y'', JNum ''3'')] = Inr [(''y'', JNum ''3'')]" "CloneObject [] = Inr []"
  "CloneObject [(''x'', JNum ''1''), (''y'', JNum ''2'')] = Inr [(''x'', JNum ''1''), (''y'', JNum ''2'')]"
  "ApplyDefaults (av_InputSchema sample_action) [] = Inr ([], [])"
  "validatePreset sample_preset (ActionVersion_Ref sample_action) = None" "validateOverrides [(''y'', JNum ''3'')] [''/y''] = None"
  "ValidateValue (av_InputSchema sample_action) (JObj sample_admitted) = None"
  by code_simp+

lemma sample_canonical: "\<exists>c. Marshal (JObj sample_admitted) = Inr c \<and> int (length c) \<le> 1048576 \<and> (\<exists>d. Digest c = Inr d)"
proof -
  have "case Canonicalize (json_Marshal (JObj sample_admitted)) of Inl _ \<Rightarrow> False | Inr c \<Rightarrow> int (length c) \<le> 1048576 \<and> Canonicalize c = Inr c"
    by code_simp
  moreover have "Marshal (JObj sample_admitted) = Canonicalize (json_Marshal (JObj sample_admitted))"
    by (simp add: Marshal_def MarshalWithLimits_def Canonicalize_def)
  ultimately show ?thesis by (auto simp: Digest_def split: sum.splits)
qed

lemma sample_trigger_digest: "\<exists>j d. TriggerEvent_json sample_trigger = Inr j \<and> DigestValue j = Inr d"
proof -
  have t: "time_json 5 = Inr (JStr ''0001-01-01T00:00:00.000000005Z'')" by code_simp
  have "ValidDigest some_digest" by code_simp
  note u = ValidDigest_text [OF this]
  have "\<exists>j. TriggerEvent_json sample_trigger = Inr j \<and> json_plain j \<and> json_bound j \<le> 100000 \<and> json_height j \<le> 128"
    using u by (simp add: TriggerEvent_json_def sample_trigger_def t omitempty_def TriggerKind_string_def ascii_def)
  then show ?thesis using digest_known(1) by blast
qed

lemma sample_admits: "\<exists>a. Admit (\<lambda>ps. ps) sample_request = Inr a \<and> adm_Inputs a = sample_admitted"
proof -
  obtain c d where c: "Marshal (JObj sample_admitted) = Inr c" "int (length c) \<le> 1048576" "Digest c = Inr d" using sample_canonical by blast
  obtain j e where t: "TriggerEvent_json sample_trigger = Inr j" "DigestValue j = Inr e" using sample_trigger_digest by blast
  obtain x where k: "DigestValue (JObj [(''y'', JNum ''3'')]) = Inr x"
    using digest_known(1) [of "JObj [(''y'', JNum ''3'')]"] by (simp_all add: ascii_def int_part_def decimalDigits_def is_digit_def in_range_def)
  have m: "mergeObject (mergeObject [] [(''x'', JNum ''1''), (''y'', JNum ''2'')]) [(''y'', JNum ''3'')] = sample_admitted" by code_simp
  have trig: "sample_trigger\<lparr>te_Payload := Some []\<rparr> = sample_trigger" by (simp add: sample_trigger_def)
  have r: "rq_Action sample_request = sample_action" "rq_Trigger sample_request = sample_trigger" "rq_Preset sample_request = Some sample_preset"
    "rq_Candidate sample_request = [(''y'', JNum ''3'')]" "the (te_Payload sample_trigger) = []" "apv_OverridablePaths sample_preset = [''/y'']"
    "the (apv_Values sample_preset) = [(''x'', JNum ''1''), (''y'', JNum ''2'')]" "input_limit sample_action = 1048576"
    by (simp_all add: sample_request_def sample_trigger_def sample_preset_def input_limit_def sample_action_def)
  show ?thesis
    unfolding Admit_def r apply_preset_def option.case sample_stages k andThen_simps ensure_simps prod.case fst_conv snd_conv Let_def m trig c(1,3) t
    using c(2) by simp
qed

theorem admission_sound_witness:
  "\<exists>a. Admit (\<lambda>ps. ps) sample_request = Inr a \<and> validateValue (av_InputSchema sample_action) (JObj (adm_Inputs a)) = None
     \<and> objectPath (JObj (adm_Inputs a)) [''x''] = Some (JNum ''1'')"
proof -
  obtain a where a: "Admit (\<lambda>ps. ps) sample_request = Inr a" "adm_Inputs a = sample_admitted" using sample_admits by blast
  have "validateValue (av_InputSchema (rq_Action sample_request)) (JObj (adm_Inputs a)) = None" using admission_sound [OF a(1)] by simp
  then show ?thesis using a by (auto simp: sample_request_def)
qed

section \<open>Provenance that is lost\<close>

text \<open>
  An empty object of a preset takes over the provenance of the defaults below it, and a candidate field
  beside them then removes the entry of the preset: the default value stays in the inputs, and no
  entry covers it.
\<close>

lemma provenance_lost:
  "mergeObject (mergeObject [(''a'', JObj [(''x'', JNum ''1'')])] [(''a'', JObj [])]) [(''a'', JObj [(''y'', JNum ''2'')])]
     = [(''a'', JObj [(''x'', JNum ''1''), (''y'', JNum ''2'')])]"
  "map fst (set_all (candidate_item r digest) (leafPointers [(''a'', JObj [(''y'', JNum ''2'')])])
     (set_all (preset_item p) (leafPointers [(''a'', JObj [])]) (set_all (default_item a) [''/a/x''] []))) = [''/a/y'']"
  by (simp_all add: set_all_def setProvenance_def leafPointers_def child_pointer_def escapePointer_def overlaps_def has_prefix_def
      candidate_item_def preset_item_def default_item_def)

text \<open>
  When the default of an object is empty and a property below it has a default too, both pointers are marked,
  and the order in which the runtime visits them decides which one is kept.
\<close>

lemma provenance_order:
  "map fst (set_all (default_item a) [''/a'', ''/a/x''] []) = [''/a/x'']"
  "map fst (set_all (default_item a) [''/a/x'', ''/a''] []) = [''/a'']"
  by (simp_all add: set_all_def setProvenance_def overlaps_def has_prefix_def default_item_def)

end
