(* ===== verification/Node_Protocol.thy ===== *)
theory Node_Protocol
  imports Workflow_Compile Effect_Contracts
begin

text \<open>
  Package kernel/node and the data of sdk/go/contracts/node.go: the validators of the protocol between the kernel
  and node packages, and the registry of their executors. Executors are code of node packages; what they
  describe and return is a parameter.
\<close>

section \<open>Data\<close>

datatype NodeExecutionMode = NodePure | NodeEffectful | NodeWaiting | NodeExecutionModeOther string
datatype NodeDeterminism = NodeDeterministic | NodeRecorded | NodeDeterminismOther string
datatype NodeSchemaMode = NodeSchemaUnset | NodeSchemaExact | NodeSchemaCallAction | NodeSchemaModeOther string
datatype NodeWaitKind = NodeWaitTimer | NodeWaitEvent | NodeWaitApproval | NodeWaitEffect | NodeWaitKindOther string
datatype NodeResultStatus = NodeResultSucceeded | NodeResultWaiting | NodeResultFailed | NodeResultStatusOther string
datatype NodeWaitResolutionStatus = NodeWaitResolvedSucceeded | NodeWaitResolvedFailed | NodeWaitResolvedCanceled
  | NodeWaitResolutionStatusOther string

definition NodeExecutionMode_Valid :: "NodeExecutionMode \<Rightarrow> bool" where
  "NodeExecutionMode_Valid m \<longleftrightarrow> m = NodePure \<or> m = NodeEffectful \<or> m = NodeWaiting"

definition NodeDeterminism_Valid :: "NodeDeterminism \<Rightarrow> bool" where
  "NodeDeterminism_Valid d \<longleftrightarrow> d = NodeDeterministic \<or> d = NodeRecorded"

definition NodeSchemaMode_Valid :: "NodeSchemaMode \<Rightarrow> bool" where
  "NodeSchemaMode_Valid m \<longleftrightarrow> m = NodeSchemaUnset \<or> m = NodeSchemaExact \<or> m = NodeSchemaCallAction"

definition NodeWaitKind_Valid :: "NodeWaitKind \<Rightarrow> bool" where
  "NodeWaitKind_Valid k = (case k of NodeWaitKindOther _ \<Rightarrow> False | _ \<Rightarrow> True)"

definition NodeResultStatus_Valid :: "NodeResultStatus \<Rightarrow> bool" where
  "NodeResultStatus_Valid s \<longleftrightarrow> s = NodeResultSucceeded \<or> s = NodeResultWaiting \<or> s = NodeResultFailed"

definition NodeWaitResolutionStatus_Valid :: "NodeWaitResolutionStatus \<Rightarrow> bool" where
  "NodeWaitResolutionStatus_Valid s \<longleftrightarrow> s = NodeWaitResolvedSucceeded \<or> s = NodeWaitResolvedFailed \<or> s = NodeWaitResolvedCanceled"

definition NodeExecutionMode_string :: "NodeExecutionMode \<Rightarrow> string" where
  "NodeExecutionMode_string m = (case m of NodePure \<Rightarrow> ''pure'' | NodeEffectful \<Rightarrow> ''effectful'' | NodeWaiting \<Rightarrow> ''waiting''
     | NodeExecutionModeOther t \<Rightarrow> t)"

definition NodeDeterminism_string :: "NodeDeterminism \<Rightarrow> string" where
  "NodeDeterminism_string d = (case d of NodeDeterministic \<Rightarrow> ''deterministic'' | NodeRecorded \<Rightarrow> ''recorded'' | NodeDeterminismOther t \<Rightarrow> t)"

definition NodeSchemaMode_string :: "NodeSchemaMode \<Rightarrow> string" where
  "NodeSchemaMode_string m = (case m of NodeSchemaUnset \<Rightarrow> [] | NodeSchemaExact \<Rightarrow> ''exact'' | NodeSchemaCallAction \<Rightarrow> ''call-action''
     | NodeSchemaModeOther t \<Rightarrow> t)"

record CapabilityRequirement =
  cap_CapabilityRef :: string
  cap_Scope :: string
  cap_Optional :: bool

record NodeDescriptor =
  nd_SchemaVersion :: string
  nd_TypeRef :: string
  nd_DisplayName :: string
  nd_PackageRef :: string
  nd_PackageDigest :: string
  nd_DescriptorDigest :: string
  nd_InputSchema :: Schema
  nd_OutputSchema :: Schema
  nd_Mode :: NodeExecutionMode
  nd_Determinism :: NodeDeterminism
  nd_SchemaMode :: NodeSchemaMode
  nd_RequiredCapabilities :: "CapabilityRequirement list"
  nd_AllowedEffectKinds :: "string list"
  nd_CompensationTypeRef :: string
  nd_MaxInputBytes :: int
  nd_MaxOutputBytes :: int

record CapabilityGrant =
  cg_CapabilityRef :: string
  cg_Scope :: string
  cg_HandleRef :: string
  cg_AuthorizationDigest :: string
  cg_ExpiresAt :: instant

record NodeInvocationRequest =
  ni_SchemaVersion :: string
  ni_InvocationID :: string
  ni_RunID :: string
  ni_NodeID :: string
  ni_TypeRef :: string
  ni_DescriptorDigest :: string
  ni_AttemptID :: string
  ni_AttemptOrdinal :: u32
  ni_Input :: "payload option"
  ni_InputDigest :: string
  ni_CapabilityGrants :: "CapabilityGrant list"
  ni_Deadline :: instant
  ni_RequestedAt :: instant

record EffectProposal =
  ep_EffectKey :: string
  ep_Kind :: string
  ep_TargetRef :: string
  ep_IntentSchemaDigest :: string
  ep_Intent :: "payload option"
  ep_IntentDigest :: string
  ep_IntentArtifactRef :: string
  ep_Ownership :: EffectOwnership
  ep_CompensationPolicy :: CompensationPolicy
  ep_RequiredCapabilityRefs :: "string list"
  ep_PolicyDigest :: string
  ep_Deadline :: instant

record NodeWait =
  nw_Kind :: NodeWaitKind
  nw_SubjectRef :: string
  nw_ConditionDigest :: string
  nw_ExpiresAt :: "instant option"

record NodeResult =
  nr_SchemaVersion :: string
  nr_Status :: NodeResultStatus
  nr_Output :: "payload option"
  nr_OutputDigest :: string
  nr_OutputArtifactRef :: string
  nr_Route :: string
  nr_SourcePorts :: "string list"
  nr_Effects :: "EffectProposal list"
  nr_Wait :: "NodeWait option"
  nr_Failure :: "StructuredFailure option"
  nr_EvidenceDigest :: string

record NodeWaitResolution =
  wr_Kind :: NodeWaitKind
  wr_SubjectRef :: string
  wr_ConditionDigest :: string
  wr_Status :: NodeWaitResolutionStatus
  wr_Payload :: "payload option"
  wr_PayloadDigest :: string
  wr_PayloadArtifactRef :: string
  wr_Failure :: "StructuredFailure option"
  wr_ObservedAt :: instant

record NodeResumeRequest =
  nrr_InvocationID :: string
  nrr_RunID :: string
  nrr_NodeID :: string
  nrr_TypeRef :: string
  nrr_DescriptorDigest :: string
  nrr_AttemptID :: string
  nrr_AttemptOrdinal :: u32
  nrr_Input :: "payload option"
  nrr_InputDigest :: string
  nrr_Wait :: NodeWait
  nrr_Resolution :: NodeWaitResolution
  nrr_RequestedAt :: instant

section \<open>Descriptors\<close>

definition DescriptorSchemaVersion :: string where "DescriptorSchemaVersion = ''xgc.node-descriptor/v2''"
definition InvocationSchemaVersion :: string where "InvocationSchemaVersion = ''xgc.node-invocation/v2''"
definition ResultSchemaVersion :: string where "ResultSchemaVersion = ''xgc.node-result/v2''"

definition decimal_int :: "int \<Rightarrow> string" where
  "decimal_int n = (if n < 0 then CHR ''-'' # decimal_nat (nat (- n)) else decimal_nat (nat n))"

definition CapabilityRequirement_json :: "CapabilityRequirement \<Rightarrow> json" where
  "CapabilityRequirement_json r = JObj ([(''capabilityRef'', JStr (cap_CapabilityRef r)), (''scope'', JStr (cap_Scope r))] @
     omitempty (cap_Optional r) ''optional'' (JBool True))"

definition NodeDescriptor_json :: "NodeDescriptor \<Rightarrow> json result" where
  "NodeDescriptor_json d =
     andThen (Schema_json (nd_InputSchema d)) (\<lambda>inp.
     andThen (Schema_json (nd_OutputSchema d)) (\<lambda>out.
     Inr (JObj ([(''schemaVersion'', JStr (nd_SchemaVersion d)), (''typeRef'', JStr (nd_TypeRef d)), (''displayName'', JStr (nd_DisplayName d)),
       (''packageRef'', JStr (nd_PackageRef d)), (''packageDigest'', JStr (nd_PackageDigest d)), (''descriptorDigest'', JStr (nd_DescriptorDigest d)),
       (''inputSchema'', inp), (''outputSchema'', out), (''mode'', JStr (NodeExecutionMode_string (nd_Mode d))),
       (''determinism'', JStr (NodeDeterminism_string (nd_Determinism d)))] @
       omitempty (nd_SchemaMode d \<noteq> NodeSchemaUnset) ''schemaMode'' (JStr (NodeSchemaMode_string (nd_SchemaMode d))) @
       omitempty (nd_RequiredCapabilities d \<noteq> []) ''requiredCapabilities'' (JArr (map CapabilityRequirement_json (nd_RequiredCapabilities d))) @
       strings_field ''allowedEffectKinds'' (nd_AllowedEffectKinds d) @ text_field ''compensationTypeRef'' (nd_CompensationTypeRef d) @
       [(''maxInputBytes'', JNum (decimal_int (nd_MaxInputBytes d))), (''maxOutputBytes'', JNum (decimal_int (nd_MaxOutputBytes d)))]))))"

definition DescriptorDigest :: "NodeDescriptor \<Rightarrow> string result" where
  "DescriptorDigest d = andThen (NodeDescriptor_json (d\<lparr>nd_DescriptorDigest := []\<rparr>)) DigestValue"

definition capability_key :: "string \<Rightarrow> string \<Rightarrow> string" where
  "capability_key ref scope = ref @ [CHR 0x00] @ scope"

fun check_requirements :: "string \<Rightarrow> string list \<Rightarrow> CapabilityRequirement list \<Rightarrow> error option" where
  "check_requirements previous capabilities [] = None"
| "check_requirements previous capabilities (r # rs) =
     (let key = capability_key (cap_CapabilityRef r) (cap_Scope r) in first_error
       [fail_if (\<not> ValidIdentifier (cap_CapabilityRef r) \<or> \<not> ValidIdentifier (cap_Scope r) \<or> key \<le> previous \<or> cap_CapabilityRef r \<in> set capabilities)
          (Errorf ''node capability requirements must be valid, unique, and sorted''),
        check_requirements key (cap_CapabilityRef r # capabilities) rs])"

definition validateRequirements :: "CapabilityRequirement list \<Rightarrow> error option" where
  "validateRequirements rs = check_requirements [] [] rs"

definition ValidateDescriptor :: "NodeDescriptor \<Rightarrow> error option" where
  "ValidateDescriptor d = first_error
     [fail_if (nd_SchemaVersion d \<noteq> DescriptorSchemaVersion \<or> \<not> ValidTypeRef (nd_TypeRef d) \<or> \<not> ValidIdentifier (nd_PackageRef d) \<or>
        \<not> ValidDigest (nd_PackageDigest d) \<or> \<not> ValidDigest (nd_DescriptorDigest d))
        (Errorf ''node descriptor schema, type, package, or digest is invalid''),
      fail_if (\<not> utf8_valid (nd_DisplayName d) \<or> \<not> trimmed (nd_DisplayName d) \<or> nd_DisplayName d = [] \<or> length (nd_DisplayName d) > 160)
        (Errorf ''node display name is invalid''),
      validateDefinition (nd_InputSchema d), validateDefinition (nd_OutputSchema d),
      fail_if (sch_Type (nd_InputSchema d) \<noteq> TypeObject \<or> sch_Type (nd_OutputSchema d) \<noteq> TypeObject)
        (Errorf ''node input and output schemas must be objects''),
      fail_if (\<not> NodeExecutionMode_Valid (nd_Mode d) \<or> \<not> NodeDeterminism_Valid (nd_Determinism d) \<or> \<not> NodeSchemaMode_Valid (nd_SchemaMode d) \<or>
        nd_MaxInputBytes d \<le> 0 \<or> nd_MaxInputBytes d > MaxInputBytes DefaultLimits \<or> nd_MaxOutputBytes d \<le> 0 \<or>
        nd_MaxOutputBytes d > MaxCanonicalBytes DefaultLimits) (Errorf ''node mode, determinism, or size bounds are invalid''),
      validateRequirements (nd_RequiredCapabilities d),
      fail_if (\<not> sorted (nd_AllowedEffectKinds d)) (Errorf ''node allowed effect kinds must be sorted''),
      fail_if (\<not> list_all ValidTypeRef (nd_AllowedEffectKinds d) \<or> \<not> distinct_adj (nd_AllowedEffectKinds d))
        (Errorf ''node allowed effect kinds are invalid or duplicated''),
      fail_if (nd_Mode d = NodePure \<and> (nd_AllowedEffectKinds d \<noteq> [] \<or> nd_CompensationTypeRef d \<noteq> []))
        (Errorf ''pure node cannot declare effects or compensation''),
      fail_if (nd_Mode d = NodeEffectful \<and> nd_AllowedEffectKinds d = []) (Errorf ''effectful node requires at least one allowed effect kind''),
      fail_if (nd_Mode d = NodeWaiting \<and> nd_AllowedEffectKinds d \<noteq> []) (Errorf ''waiting node cannot declare effects''),
      fail_if (nd_SchemaMode d = NodeSchemaCallAction \<and> (nd_Mode d \<noteq> NodeWaiting \<or> nd_Determinism d \<noteq> NodeRecorded \<or>
        sch_Properties (nd_InputSchema d) \<noteq> [] \<or> sch_Required (nd_InputSchema d) \<noteq> [] \<or> sch_Properties (nd_OutputSchema d) \<noteq> [] \<or>
        sch_Required (nd_OutputSchema d) \<noteq> [] \<or> nd_AllowedEffectKinds d \<noteq> [] \<or> nd_CompensationTypeRef d \<noteq> []))
        (Errorf ''call-action schema mode requires an empty recorded waiting control descriptor''),
      fail_if (nd_CompensationTypeRef d \<noteq> [] \<and> \<not> ValidTypeRef (nd_CompensationTypeRef d)) (Errorf ''node compensation type ref is invalid''),
      fail_if (DescriptorDigest d \<noteq> Inr (nd_DescriptorDigest d)) (Errorf ''node descriptor content digest is invalid'')]"

section \<open>Requests\<close>

text \<open>A nil map is written as null and validated as an empty object.\<close>

definition map_json :: "payload option \<Rightarrow> json" where
  "map_json m = (case m of None \<Rightarrow> JNull | Some kvs \<Rightarrow> JObj kvs)"

definition map_value :: "payload option \<Rightarrow> json" where
  "map_value m = JObj (case m of None \<Rightarrow> [] | Some kvs \<Rightarrow> kvs)"

text \<open>The checks of a bounded object and its digest, which stand in all validators.\<close>

definition sized_digest :: "payload option \<Rightarrow> int \<Rightarrow> string \<Rightarrow> error option" where
  "sized_digest m bound digest = (case Marshal (map_json m) of
     Inl _ \<Rightarrow> Some (Errorf ''object is invalid or exceeds descriptor bound'')
   | Inr canonical \<Rightarrow> first_error
       [fail_if (int (length canonical) > bound) (Errorf ''object is invalid or exceeds descriptor bound''),
        fail_if (Digest canonical \<noteq> Inr digest) (Errorf ''object digest is invalid'')])"

definition required_keys :: "CapabilityRequirement list \<Rightarrow> string list" where
  "required_keys rs = map (\<lambda>r. capability_key (cap_CapabilityRef r) (cap_Scope r)) rs"

definition grant_key :: "CapabilityGrant \<Rightarrow> string" where
  "grant_key g = capability_key (cg_CapabilityRef g) (cg_Scope g)"

fun check_grants :: "string list \<Rightarrow> instant \<Rightarrow> instant \<Rightarrow> string \<Rightarrow> CapabilityGrant list \<Rightarrow> error option" where
  "check_grants required requestedAt deadline previous [] = None"
| "check_grants required requestedAt deadline previous (g # gs) = first_error
     [fail_if (grant_key g \<le> previous \<or> \<not> ValidIdentifier (cg_CapabilityRef g) \<or> \<not> ValidIdentifier (cg_Scope g) \<or>
        \<not> ValidIdentifier (cg_HandleRef g) \<or> \<not> ValidDigest (cg_AuthorizationDigest g) \<or>
        Before (cg_ExpiresAt g) deadline \<or> Before (cg_ExpiresAt g) requestedAt)
        (Errorf ''node capability grants are invalid, expired, duplicated, or unsorted''),
      fail_if (grant_key g \<notin> set required) (Errorf ''node request grants an undeclared capability''),
      check_grants required requestedAt deadline (grant_key g) gs]"

definition validateGrants :: "CapabilityRequirement list \<Rightarrow> CapabilityGrant list \<Rightarrow> instant \<Rightarrow> instant \<Rightarrow> error option" where
  "validateGrants requirements grants requestedAt deadline = first_error
     [check_grants (required_keys requirements) requestedAt deadline [] grants,
      fail_if (list_ex (\<lambda>r. \<not> cap_Optional r \<and> capability_key (cap_CapabilityRef r) (cap_Scope r) \<notin> set (map grant_key grants)) requirements)
        (Errorf ''node request is missing capability'')]"

definition ValidateRequest :: "NodeDescriptor \<Rightarrow> NodeInvocationRequest \<Rightarrow> error option" where
  "ValidateRequest d r = first_error
     [ValidateDescriptor d,
      fail_if (\<not> list_all ValidIdentifier [ni_InvocationID r, ni_RunID r, ni_NodeID r, ni_AttemptID r]) (Errorf ''node request id is invalid''),
      fail_if (ni_SchemaVersion r \<noteq> InvocationSchemaVersion \<or> ni_TypeRef r \<noteq> nd_TypeRef d \<or> ni_DescriptorDigest r \<noteq> nd_DescriptorDigest d \<or>
        ni_AttemptOrdinal r = 0 \<or> IsZero (ni_RequestedAt r) \<or> \<not> After (ni_Deadline r) (ni_RequestedAt r))
        (Errorf ''node request descriptor, ordinal, or times are invalid''),
      sized_digest (ni_Input r) (nd_MaxInputBytes d) (ni_InputDigest r),
      ValidateValue (nd_InputSchema d) (map_value (ni_Input r)),
      validateGrants (nd_RequiredCapabilities d) (ni_CapabilityGrants r) (ni_RequestedAt r) (ni_Deadline r)]"

section \<open>Results\<close>

fun check_ports :: "string \<Rightarrow> string \<Rightarrow> string list \<Rightarrow> bool" where
  "check_ports route previous [] \<longleftrightarrow> True"
| "check_ports route previous (p # ps) \<longleftrightarrow>
     ValidIdentifier p \<and> p \<noteq> ''main'' \<and> p \<noteq> route \<and> \<not> p \<le> previous \<and> check_ports route p ps"

definition validateResultRouting :: "string \<Rightarrow> string list \<Rightarrow> error option" where
  "validateResultRouting route ports = first_error
     [fail_if (route \<noteq> [] \<and> \<not> ValidIdentifier route) (Errorf ''node result route is invalid''),
      fail_if (\<not> check_ports route [] ports)
        (Errorf ''node result source ports must be valid, sorted, unique, and distinct from main and route'')]"

definition granted :: "NodeInvocationRequest \<Rightarrow> string \<Rightarrow> bool" where
  "granted r ref \<longleftrightarrow> list_ex (\<lambda>g. cg_CapabilityRef g = ref) (ni_CapabilityGrants r)"

definition validate_proposal :: "NodeDescriptor \<Rightarrow> NodeInvocationRequest \<Rightarrow> string list \<Rightarrow> EffectProposal \<Rightarrow> error option" where
  "validate_proposal d r keys p = first_error
     [fail_if (\<not> ValidIdentifier (ep_EffectKey p) \<or> ep_EffectKey p \<in> set keys \<or> ep_Kind p \<notin> set (nd_AllowedEffectKinds d) \<or>
        \<not> ValidIdentifier (ep_TargetRef p)) (Errorf ''node effect proposal identity, key, kind, or target is invalid''),
      fail_if (\<not> list_all ValidDigest [ep_IntentSchemaDigest p, ep_IntentDigest p, ep_PolicyDigest p]) (Errorf ''node effect proposal digest is invalid''),
      fail_if (ep_Intent p = None) (Errorf ''node effect proposal intent is missing''),
      sized_digest (ep_Intent p) (nd_MaxOutputBytes d) (ep_IntentDigest p),
      fail_if (ep_IntentArtifactRef p \<noteq> [] \<and> \<not> ValidIdentifier (ep_IntentArtifactRef p)) (Errorf ''node effect proposal artifact ref is invalid''),
      fail_if (\<not> EffectOwnership_Valid (ep_Ownership p) \<or> \<not> CompensationPolicy_Valid (ep_CompensationPolicy p) \<or>
        After (ep_Deadline p) (ni_Deadline r) \<or> \<not> After (ep_Deadline p) (ni_RequestedAt r))
        (Errorf ''node effect proposal ownership, compensation, or deadline is invalid''),
      fail_if (ep_Ownership p \<noteq> EffectOwned \<and> ep_CompensationPolicy p \<noteq> CompensationNone)
        (Errorf ''node effect proposal lets a non-owner compensate''),
      fail_if (\<not> sorted (ep_RequiredCapabilityRefs p)) (Errorf ''node effect proposal capability refs are unsorted''),
      fail_if (\<not> list_all (\<lambda>c. ValidIdentifier c \<and> granted r c) (ep_RequiredCapabilityRefs p) \<or> \<not> distinct_adj (ep_RequiredCapabilityRefs p))
        (Errorf ''node effect proposal requires an invalid or ungranted capability'')]"

fun validateEffects :: "NodeDescriptor \<Rightarrow> NodeInvocationRequest \<Rightarrow> string list \<Rightarrow> EffectProposal list \<Rightarrow> error option" where
  "validateEffects d r keys [] = None"
| "validateEffects d r keys (p # ps) = first_error [validate_proposal d r keys p, validateEffects d r (ep_EffectKey p # keys) ps]"

definition validateWait :: "NodeWait \<Rightarrow> NodeInvocationRequest \<Rightarrow> error option" where
  "validateWait w r = first_error
     [fail_if (\<not> NodeWaitKind_Valid (nw_Kind w) \<or> \<not> ValidIdentifier (nw_SubjectRef w) \<or> \<not> ValidDigest (nw_ConditionDigest w))
        (Errorf ''node wait kind, subject, or condition is invalid''),
      (case nw_ExpiresAt w of None \<Rightarrow> None
       | Some t \<Rightarrow> fail_if (\<not> After t (ni_RequestedAt r) \<or> After t (ni_Deadline r)) (Errorf ''node wait expiry is outside invocation deadline''))]"

definition node_validateFailure :: "StructuredFailure \<Rightarrow> error option" where
  "node_validateFailure f = first_error
     [fail_if (\<not> FailureClass_Valid (fail_Class f) \<or> \<not> ValidIdentifier (fail_Code f) \<or> fail_Message f = [] \<or> length (fail_Message f) > 4096 \<or>
        \<not> utf8_valid (fail_Message f) \<or> \<not> trimmed (fail_Message f)) (Errorf ''node structured failure is invalid''),
      fail_if (fail_EvidenceRef f \<noteq> [] \<and> \<not> ValidIdentifier (fail_EvidenceRef f)) (Errorf ''node failure evidence ref is invalid'')]"

text \<open>The output of a successful result, in \<^verbatim>\<open>ValidateResult\<close> and \<^verbatim>\<open>ValidateResumeResult\<close>.\<close>

definition validate_output :: "NodeDescriptor \<Rightarrow> NodeResult \<Rightarrow> error option" where
  "validate_output d result = first_error
     [validateResultRouting (nr_Route result) (nr_SourcePorts result),
      sized_digest (nr_Output result) (nd_MaxOutputBytes d) (nr_OutputDigest result),
      ValidateValue (nd_OutputSchema d) (map_value (nr_Output result)),
      fail_if (nr_OutputArtifactRef result \<noteq> [] \<and> \<not> ValidIdentifier (nr_OutputArtifactRef result)) (Errorf ''node output artifact ref is invalid'')]"

definition no_output :: "NodeResult \<Rightarrow> bool" where
  "no_output result \<longleftrightarrow> nr_Output result = None \<and> nr_OutputDigest result = [] \<and> nr_OutputArtifactRef result = [] \<and>
     nr_Route result = [] \<and> nr_SourcePorts result = []"

definition validate_wait_effect :: "NodeWait \<Rightarrow> EffectProposal list \<Rightarrow> error option" where
  "validate_wait_effect w effects =
     (if nw_Kind w = NodeWaitEffect
      then fail_if (\<not> (case effects of [p] \<Rightarrow> ep_EffectKey p = nw_SubjectRef w \<and> ep_IntentDigest p = nw_ConditionDigest w | _ \<Rightarrow> False))
        (Errorf ''effect wait requires exactly one matching effect proposal'')
      else fail_if (effects \<noteq> []) (Errorf ''non-effect wait cannot propose an effect''))"

definition ValidateResult :: "NodeDescriptor \<Rightarrow> NodeInvocationRequest \<Rightarrow> NodeResult \<Rightarrow> error option" where
  "ValidateResult d r result = first_error
     [ValidateRequest d r,
      fail_if (nr_SchemaVersion result \<noteq> ResultSchemaVersion \<or> \<not> NodeResultStatus_Valid (nr_Status result) \<or> \<not> ValidDigest (nr_EvidenceDigest result))
        (Errorf ''node result status or evidence digest is invalid''),
      fail_if (nd_Mode d \<noteq> NodeEffectful \<and> nr_Effects result \<noteq> []) (Errorf ''non-effectful node proposed an effect''),
      validateEffects d r [] (nr_Effects result),
      (case nr_Status result of
         NodeResultSucceeded \<Rightarrow> first_error
           [fail_if (nr_Output result = None \<or> nr_Wait result \<noteq> None \<or> nr_Failure result \<noteq> None \<or> nr_Effects result \<noteq> [])
              (Errorf ''successful node result requires output and no wait, failure, or effect''),
            validate_output d result]
       | NodeResultWaiting \<Rightarrow> (case nr_Wait result of
           None \<Rightarrow> Some (Errorf ''waiting node result has invalid output, wait, or failure'')
         | Some w \<Rightarrow> first_error
             [fail_if (\<not> no_output result \<or> nr_Failure result \<noteq> None) (Errorf ''waiting node result has invalid output, wait, or failure''),
              validateWait w r, validate_wait_effect w (nr_Effects result)])
       | NodeResultFailed \<Rightarrow> (case nr_Failure result of
           None \<Rightarrow> Some (Errorf ''failed node result requires only a structured failure'')
         | Some f \<Rightarrow> first_error
             [fail_if (\<not> no_output result \<or> nr_Wait result \<noteq> None \<or> nr_Effects result \<noteq> [])
                (Errorf ''failed node result requires only a structured failure''),
              node_validateFailure f])
       | NodeResultStatusOther _ \<Rightarrow> None)]"

section \<open>Resumption\<close>

definition resumable_failure :: "StructuredFailure \<Rightarrow> bool" where
  "resumable_failure f \<longleftrightarrow> FailureClass_Valid (fail_Class f) \<and> ValidIdentifier (fail_Code f) \<and> fail_Message f \<noteq> []"

definition validate_resolution :: "NodeWaitResolution \<Rightarrow> error option" where
  "validate_resolution s = (let no_payload = (wr_Payload s = None \<and> wr_PayloadDigest s = [] \<and> wr_PayloadArtifactRef s = []) in
     case wr_Status s of
       NodeWaitResolvedSucceeded \<Rightarrow> first_error
         [fail_if (wr_Payload s = None \<or> wr_Failure s \<noteq> None) (Errorf ''successful wait resolution requires payload and no failure''),
          fail_if (DigestValue (map_json (wr_Payload s)) \<noteq> Inr (wr_PayloadDigest s)) (Errorf ''wait resolution payload digest is invalid'')]
     | NodeWaitResolvedFailed \<Rightarrow> (case wr_Failure s of
         None \<Rightarrow> Some (Errorf ''failed wait resolution requires only a failure'')
       | Some f \<Rightarrow> first_error [fail_if (\<not> no_payload) (Errorf ''failed wait resolution requires only a failure''),
           fail_if (\<not> resumable_failure f) (Errorf ''wait resolution failure is invalid'')])
     | NodeWaitResolvedCanceled \<Rightarrow> fail_if (\<not> no_payload \<or> wr_Failure s \<noteq> None) (Errorf ''canceled wait resolution carries data'')
     | NodeWaitResolutionStatusOther _ \<Rightarrow> None)"

definition ValidateResumeRequest :: "NodeDescriptor \<Rightarrow> NodeResumeRequest \<Rightarrow> error option" where
  "ValidateResumeRequest d r = (let w = nrr_Wait r; s = nrr_Resolution r in first_error
     [fail_if (\<not> list_all ValidIdentifier [nrr_InvocationID r, nrr_RunID r, nrr_NodeID r, nrr_AttemptID r]) (Errorf ''resume id is invalid''),
      fail_if (nrr_TypeRef r \<noteq> nd_TypeRef d \<or> nrr_DescriptorDigest r \<noteq> nd_DescriptorDigest d \<or> nrr_AttemptOrdinal r = 0 \<or> IsZero (nrr_RequestedAt r))
        (Errorf ''node resume descriptor, ordinal, or time is invalid''),
      sized_digest (nrr_Input r) (nd_MaxInputBytes d) (nrr_InputDigest r),
      ValidateValue (nd_InputSchema d) (map_value (nrr_Input r)),
      fail_if (\<not> NodeWaitKind_Valid (nw_Kind w) \<or> \<not> NodeWaitKind_Valid (wr_Kind s) \<or> nw_Kind w \<noteq> wr_Kind s \<or> nw_SubjectRef w \<noteq> wr_SubjectRef s \<or>
        nw_ConditionDigest w \<noteq> wr_ConditionDigest s \<or> \<not> ValidIdentifier (wr_SubjectRef s) \<or> \<not> ValidDigest (wr_ConditionDigest s) \<or>
        \<not> NodeWaitResolutionStatus_Valid (wr_Status s) \<or> IsZero (wr_ObservedAt s))
        (Errorf ''node resume wait resolution does not match its durable wait''),
      fail_if (wr_PayloadArtifactRef s \<noteq> [] \<and> \<not> ValidIdentifier (wr_PayloadArtifactRef s)) (Errorf ''node resume payload artifact ref is invalid''),
      validate_resolution s])"

definition ValidateResumeResult :: "NodeDescriptor \<Rightarrow> NodeResult \<Rightarrow> error option" where
  "ValidateResumeResult d result = first_error
     [fail_if (nr_SchemaVersion result \<noteq> ResultSchemaVersion \<or> \<not> NodeResultStatus_Valid (nr_Status result) \<or>
        \<not> ValidDigest (nr_EvidenceDigest result) \<or> nr_Effects result \<noteq> [] \<or> nr_Wait result \<noteq> None)
        (Errorf ''resumed node result status, evidence, effects, or wait is invalid''),
      (case nr_Status result of
         NodeResultSucceeded \<Rightarrow> first_error
           [fail_if (nr_Output result = None \<or> nr_Failure result \<noteq> None) (Errorf ''successful resumed node requires output and no failure''),
            validate_output d result]
       | NodeResultFailed \<Rightarrow> (case nr_Failure result of
           None \<Rightarrow> Some (Errorf ''failed resumed node requires only a failure'')
         | Some f \<Rightarrow> first_error [fail_if (\<not> no_output result) (Errorf ''failed resumed node requires only a failure''),
             fail_if (\<not> resumable_failure f) (Errorf ''resumed node failure is invalid'')])
       | _ \<Rightarrow> Some (Errorf ''node resumer must terminate instead of waiting again''))]"

section \<open>The registry\<close>

definition ErrRegistrySealed :: error where "ErrRegistrySealed = Errorf ''node registry is sealed''"
definition ErrNodeConflict :: error where "ErrNodeConflict = Errorf ''node type registration conflict''"
definition ErrNodeNotFound :: error where "ErrNodeNotFound = Errorf ''node type is not registered''"
definition ErrNodeNotResumable :: error where "ErrNodeNotResumable = Errorf ''node type does not implement pure wait resumption''"

text \<open>
  An executor is what the registry can see of it: its description, and the outcomes of its calls.
  An executor that does not implement \<^verbatim>\<open>Resumer\<close> has no second function.
\<close>

record executor =
  ex_Descriptor :: NodeDescriptor
  ex_Execute :: "NodeInvocationRequest \<Rightarrow> NodeResult result"
  ex_Resume :: "(NodeResumeRequest \<Rightarrow> NodeResult result) option"

record registration =
  rg_descriptor :: NodeDescriptor
  rg_executor :: executor

record Registry =
  rg_registrations :: "(string \<times> registration) list"
  rg_sealed :: bool
  rg_catalogDigest :: string

definition NewRegistry :: Registry where
  "NewRegistry = \<lparr>rg_registrations = [], rg_sealed = False, rg_catalogDigest = []\<rparr>"

text \<open>A clone through canonical JSON: texts are made valid UTF-8, raw defaults and constants are canonical.\<close>

fun clone_schema :: "Schema \<Rightarrow> Schema" where
  "clone_schema (Schema ty properties required additional items dflt enum format) =
     Schema ty (map (\<lambda>kv. (to_valid_utf8 (fst kv), clone_schema (snd kv))) properties) (map to_valid_utf8 required) additional
       (map_option clone_schema items) (value_of (Canonicalize dflt)) (map (\<lambda>raw. value_of (Canonicalize raw)) enum) (to_valid_utf8 format)"

definition clone_fields :: "NodeDescriptor \<Rightarrow> NodeDescriptor" where
  "clone_fields d = d\<lparr>nd_SchemaVersion := to_valid_utf8 (nd_SchemaVersion d), nd_TypeRef := to_valid_utf8 (nd_TypeRef d),
     nd_DisplayName := to_valid_utf8 (nd_DisplayName d), nd_PackageRef := to_valid_utf8 (nd_PackageRef d),
     nd_PackageDigest := to_valid_utf8 (nd_PackageDigest d), nd_DescriptorDigest := to_valid_utf8 (nd_DescriptorDigest d),
     nd_InputSchema := clone_schema (nd_InputSchema d), nd_OutputSchema := clone_schema (nd_OutputSchema d),
     nd_RequiredCapabilities := map (\<lambda>r. r\<lparr>cap_CapabilityRef := to_valid_utf8 (cap_CapabilityRef r), cap_Scope := to_valid_utf8 (cap_Scope r)\<rparr>)
       (nd_RequiredCapabilities d),
     nd_AllowedEffectKinds := map to_valid_utf8 (nd_AllowedEffectKinds d), nd_CompensationTypeRef := to_valid_utf8 (nd_CompensationTypeRef d)\<rparr>"

definition cloneDescriptor :: "NodeDescriptor \<Rightarrow> NodeDescriptor result" where
  "cloneDescriptor d = andThen (andThen (NodeDescriptor_json d) Marshal) (\<lambda>_. Inr (clone_fields d))"

definition Register :: "Registry \<Rightarrow> executor option \<Rightarrow> Registry result" where
  "Register reg ex =
     ensure (fail_if (rg_sealed reg) ErrRegistrySealed) (case ex of None \<Rightarrow> Inl (Errorf ''node executor is required'')
     | Some e \<Rightarrow>
         andThen (cloneDescriptor (ex_Descriptor e)) (\<lambda>descriptor.
         ensure (ValidateDescriptor descriptor) (
         case map_of (rg_registrations reg) (nd_TypeRef descriptor) of
           Some existing \<Rightarrow>
             if nd_DescriptorDigest (rg_descriptor existing) = nd_DescriptorDigest descriptor \<and>
                nd_PackageDigest (rg_descriptor existing) = nd_PackageDigest descriptor then Inr reg else Inl ErrNodeConflict
         | None \<Rightarrow> Inr (reg\<lparr>rg_registrations := (nd_TypeRef descriptor, \<lparr>rg_descriptor = descriptor, rg_executor = e\<rparr>) # rg_registrations reg\<rparr>))))"

definition registered_descriptors :: "Registry \<Rightarrow> NodeDescriptor list" where
  "registered_descriptors reg = sort_key nd_TypeRef (map (\<lambda>kv. rg_descriptor (snd kv)) (rg_registrations reg))"

definition Seal :: "Registry \<Rightarrow> (string \<times> Registry) result" where
  "Seal reg = (if rg_sealed reg then Inr (rg_catalogDigest reg, reg)
     else andThen (andThen (collect NodeDescriptor_json (registered_descriptors reg)) (\<lambda>js. DigestValue (JArr js))) (\<lambda>digest.
       Inr (digest, reg\<lparr>rg_catalogDigest := digest, rg_sealed := True\<rparr>)))"

definition Catalog :: "Registry \<Rightarrow> (NodeDescriptor list \<times> string) result" where
  "Catalog reg = ensure (fail_if (\<not> rg_sealed reg) (Errorf ''node registry must be sealed before publication''))
     (andThen (collect cloneDescriptor (map (\<lambda>kv. rg_descriptor (snd kv)) (rg_registrations reg)))
       (\<lambda>ds. Inr (sort_key nd_TypeRef ds, rg_catalogDigest reg)))"

definition registry_Execute :: "Registry \<Rightarrow> bool \<Rightarrow> NodeInvocationRequest \<Rightarrow> NodeResult result" where
  "registry_Execute reg ctx request =
     ensure (fail_if (\<not> ctx) (Errorf ''node execution context is required'')) (
     ensure (fail_if (\<not> rg_sealed reg) (Errorf ''node registry must be sealed before execution'')) (
     case map_of (rg_registrations reg) (ni_TypeRef request) of
       None \<Rightarrow> Inl ErrNodeNotFound
     | Some registered \<Rightarrow>
         ensure (ValidateRequest (rg_descriptor registered) request) (
         andThen (ex_Execute (rg_executor registered) request) (\<lambda>result.
         ensure (ValidateResult (rg_descriptor registered) request result) (Inr result)))))"

definition registry_Resume :: "Registry \<Rightarrow> bool \<Rightarrow> NodeResumeRequest \<Rightarrow> NodeResult result" where
  "registry_Resume reg ctx request =
     ensure (fail_if (\<not> ctx) (Errorf ''node resume context is required'')) (
     ensure (fail_if (\<not> rg_sealed reg) (Errorf ''node registry must be sealed before resumption'')) (
     case map_of (rg_registrations reg) (nrr_TypeRef request) of
       None \<Rightarrow> Inl ErrNodeNotFound
     | Some registered \<Rightarrow> (case ex_Resume (rg_executor registered) of
         None \<Rightarrow> Inl ErrNodeNotResumable
       | Some resume \<Rightarrow>
           ensure (ValidateResumeRequest (rg_descriptor registered) request) (
           andThen (resume request) (\<lambda>result.
           ensure (ValidateResumeResult (rg_descriptor registered) result) (Inr result))))))"

end
