(* ===== verification/Node_Claims.thy ===== *)
theory Node_Claims
  imports Node_Protocol
begin

text \<open>The properties of the node protocol and its registry, kernel/node.\<close>

section \<open>Registries\<close>

inductive registry_reach :: "Registry \<Rightarrow> bool" where
  new: "registry_reach NewRegistry"
| register: "registry_reach reg \<Longrightarrow> Register reg ex = Inr reg' \<Longrightarrow> registry_reach reg'"
| seal: "registry_reach reg \<Longrightarrow> Seal reg = Inr (digest, reg') \<Longrightarrow> registry_reach reg'"

definition registry_ok :: "Registry \<Rightarrow> bool" where
  "registry_ok reg \<longleftrightarrow> distinct (map fst (rg_registrations reg)) \<and>
     (\<forall>(k, r) \<in> set (rg_registrations reg). nd_TypeRef (rg_descriptor r) = k \<and> ValidateDescriptor (rg_descriptor r) = None) \<and>
     (rg_sealed reg \<longrightarrow> andThen (collect NodeDescriptor_json (registered_descriptors reg)) (\<lambda>js. DigestValue (JArr js)) = Inr (rg_catalogDigest reg))"

lemma register_ok: "registry_ok reg \<Longrightarrow> Register reg ex = Inr reg' \<Longrightarrow> registry_ok reg'"
proof -
  assume ok: "registry_ok reg" and "Register reg ex = Inr reg'"
  then obtain e d where r: "\<not> rg_sealed reg" "ValidateDescriptor d = None"
      "(case map_of (rg_registrations reg) (nd_TypeRef d) of
           Some existing \<Rightarrow>
             if nd_DescriptorDigest (rg_descriptor existing) = nd_DescriptorDigest d \<and>
                nd_PackageDigest (rg_descriptor existing) = nd_PackageDigest d then Inr reg else Inl ErrNodeConflict
         | None \<Rightarrow> Inr (reg\<lparr>rg_registrations := (nd_TypeRef d, \<lparr>rg_descriptor = d, rg_executor = e\<rparr>) # rg_registrations reg\<rparr>)) = Inr reg'"
    by (cases ex) (auto simp: Register_def)
  then show "registry_ok reg'"
    using ok by (cases "map_of (rg_registrations reg) (nd_TypeRef d)") (auto simp: registry_ok_def map_of_eq_None_iff split: if_splits)
qed

lemma seal_ok: "registry_ok reg \<Longrightarrow> Seal reg = Inr (digest, reg') \<Longrightarrow> registry_ok reg'"
  by (auto simp: Seal_def registry_ok_def registered_descriptors_def split: if_splits)

lemma reach_ok: "registry_reach reg \<Longrightarrow> registry_ok reg"
proof (induction rule: registry_reach.induct)
  case (register reg ex reg')
  then show ?case using register_ok by blast
next
  case (seal reg digest reg')
  then show ?case using seal_ok by blast
qed (simp add: registry_ok_def NewRegistry_def)

section \<open>Validated requests\<close>

lemma Marshal_Digest:
  assumes "Marshal v = Inr c"
  shows "Digest c = DigestValue v"
proof -
  have "Canonicalize c = Inr c"
    using assms canonical_fixpoint [of "json_Marshal v" DefaultLimits c] by (simp add: Marshal_def MarshalWithLimits_def Canonicalize_def DefaultLimits_def)
  then show ?thesis using assms by (simp add: Digest_def DigestValue_def)
qed

lemma sized_digest_value: "sized_digest m bound digest = None \<Longrightarrow> DigestValue (map_json m) = Inr digest"
  using Marshal_Digest by (auto simp: sized_digest_def split: sum.splits)

lemma identifier_no_nul: "ValidIdentifier s \<Longrightarrow> CHR 0x00 \<notin> set s"
proof
  assume s: "ValidIdentifier s" and n: "CHR 0x00 \<in> set s"
  have "\<forall>c \<in> set s. 33 \<le> byte_val c"
    using s by (cases s) (auto simp: ValidIdentifier_iff identifierPattern_def list_all_iff identifier_char_def is_digit_def in_range_def dest: is_letter_bounds)
  then show False using n by fastforce
qed

lemma capability_key_inj:
  assumes "capability_key a b = capability_key c d" and "ValidIdentifier a" and "ValidIdentifier c"
  shows "a = c \<and> b = d"
proof -
  have t: "takeWhile (\<lambda>x. x \<noteq> CHR 0x00) (capability_key x y) = x" if "ValidIdentifier x" for x y
    using identifier_no_nul [OF that] by (simp add: capability_key_def takeWhile_append)
  have "a = c" using t [OF assms(2), of b] t [OF assms(3), of d] assms(1) by simp
  then show ?thesis using assms(1) by (simp add: capability_key_def)
qed

lemma requirements_identifiers: "check_requirements p cs rs = None \<Longrightarrow> \<forall>r \<in> set rs. ValidIdentifier (cap_CapabilityRef r)"
  by (induction p cs rs rule: check_requirements.induct) (auto simp: Let_def)

lemma grants_checked:
  "check_grants required start deadline p gs = None \<Longrightarrow>
   \<forall>g \<in> set gs. grant_key g \<in> set required \<and> ValidIdentifier (cg_CapabilityRef g) \<and> deadline \<le> cg_ExpiresAt g"
  by (induction required start deadline p gs rule: check_grants.induct) (auto simp: not_less)

lemma declared_grants:
  assumes "ValidateRequest d r = None" and "g \<in> set (ni_CapabilityGrants r)"
  shows "ni_Deadline r \<le> cg_ExpiresAt g \<and> (\<exists>q \<in> set (nd_RequiredCapabilities d). cap_CapabilityRef q = cg_CapabilityRef g \<and> cap_Scope q = cg_Scope g)"
proof -
  have "check_grants (required_keys (nd_RequiredCapabilities d)) (ni_RequestedAt r) (ni_Deadline r) [] (ni_CapabilityGrants r) = None"
    using assms(1) by (simp add: ValidateRequest_def validateGrants_def)
  from bspec [OF grants_checked [OF this] assms(2)]
  have g: "grant_key g \<in> set (required_keys (nd_RequiredCapabilities d))" "ValidIdentifier (cg_CapabilityRef g)" "ni_Deadline r \<le> cg_ExpiresAt g" by simp_all
  obtain q where q: "q \<in> set (nd_RequiredCapabilities d)" "grant_key g = capability_key (cap_CapabilityRef q) (cap_Scope q)"
    using g(1) by (auto simp: required_keys_def)
  have "ValidIdentifier (cap_CapabilityRef q)"
    using assms(1) q(1) requirements_identifiers [of "[]" "[]" "nd_RequiredCapabilities d"]
    by (simp add: ValidateRequest_def ValidateDescriptor_def validateRequirements_def)
  then show ?thesis using capability_key_inj [of "cg_CapabilityRef g" "cg_Scope g"] q g(2,3) by (auto simp: grant_key_def)
qed

section \<open>Confinement\<close>

text \<open>What a result may contain: an output of the declared schema, or one declared effect that uses only granted capabilities.\<close>

definition output_conforms :: "NodeDescriptor \<Rightarrow> NodeResult \<Rightarrow> bool" where
  "output_conforms d result \<longleftrightarrow> (\<exists>out. nr_Output result = Some out \<and> validateValue (nd_OutputSchema d) (JObj out) = None \<and>
     DigestValue (JObj out) = Inr (nr_OutputDigest result))"

definition effect_confined :: "NodeDescriptor \<Rightarrow> NodeInvocationRequest \<Rightarrow> EffectProposal \<Rightarrow> bool" where
  "effect_confined d r p \<longleftrightarrow> nd_Mode d = NodeEffectful \<and> ep_Kind p \<in> set (nd_AllowedEffectKinds d) \<and>
     ni_RequestedAt r < ep_Deadline p \<and> ep_Deadline p \<le> ni_Deadline r \<and>
     (ep_CompensationPolicy p \<noteq> CompensationNone \<longrightarrow> ep_Ownership p = EffectOwned) \<and>
     (\<forall>c \<in> set (ep_RequiredCapabilityRefs p). \<exists>g \<in> set (ni_CapabilityGrants r). \<exists>q \<in> set (nd_RequiredCapabilities d).
        cg_CapabilityRef g = c \<and> cap_CapabilityRef q = c \<and> cap_Scope q = cg_Scope g \<and> ep_Deadline p \<le> cg_ExpiresAt g)"

lemma output_checked: "validate_output d result = None \<Longrightarrow> nr_Output result \<noteq> None \<Longrightarrow> output_conforms d result"
  by (auto simp: validate_output_def output_conforms_def ValidateValue_def map_value_def map_json_def dest!: sized_digest_value)

lemma proposal_confined:
  assumes "ValidateRequest d r = None" and "nd_Mode d = NodeEffectful" and "validate_proposal d r keys p = None"
  shows "effect_confined d r p"
proof -
  have p: "ep_Kind p \<in> set (nd_AllowedEffectKinds d)" "ni_RequestedAt r < ep_Deadline p" "ep_Deadline p \<le> ni_Deadline r"
      "ep_CompensationPolicy p \<noteq> CompensationNone \<longrightarrow> ep_Ownership p = EffectOwned" "\<forall>c \<in> set (ep_RequiredCapabilityRefs p). granted r c"
    using assms(3) by (auto simp: validate_proposal_def list_all_iff)
  have "\<exists>g \<in> set (ni_CapabilityGrants r). \<exists>q \<in> set (nd_RequiredCapabilities d).
      cg_CapabilityRef g = c \<and> cap_CapabilityRef q = c \<and> cap_Scope q = cg_Scope g \<and> ep_Deadline p \<le> cg_ExpiresAt g"
    if c: "c \<in> set (ep_RequiredCapabilityRefs p)" for c
  proof -
    obtain g where g: "g \<in> set (ni_CapabilityGrants r)" "cg_CapabilityRef g = c" using p(5) c by (auto simp: granted_def list_ex_iff)
    then show ?thesis using declared_grants [OF assms(1) g(1)] p(3) by fastforce
  qed
  then show ?thesis using p assms(2) by (simp add: effect_confined_def)
qed

text \<open>
  C25: the registry confines node packages. In every registry built by registrations and sealing, the types are distinct and their
  descriptors valid; a sealed registry is frozen and its catalogue digest covers its descriptors; a result that it returns is the answer of the executor registered for the type, whose descriptor has the digest of the
  request; a successful result has an output of the declared schema with its digest; a result proposes no effect unless it waits for
  it, then exactly one, of a declared kind, within the deadline, compensated only when owned, and using only capabilities that the
  descriptor declares and that are granted for longer than the effect may last; and a resumed result proposes no effect and does not wait again.
\<close>

theorem registry_confines_nodes:
  assumes "registry_reach reg"
  shows "distinct (map fst (rg_registrations reg))
    \<and> (\<forall>(k, r) \<in> set (rg_registrations reg). nd_TypeRef (rg_descriptor r) = k \<and> ValidateDescriptor (rg_descriptor r) = None)
    \<and> (rg_sealed reg \<longrightarrow> (\<forall>ex. Register reg ex = Inl ErrRegistrySealed) \<and> Seal reg = Inr (rg_catalogDigest reg, reg)
        \<and> andThen (collect NodeDescriptor_json (registered_descriptors reg)) (\<lambda>js. DigestValue (JArr js)) = Inr (rg_catalogDigest reg))
    \<and> (\<forall>ctx request result. registry_Execute reg ctx request = Inr result \<longrightarrow>
        (\<exists>d e. map_of (rg_registrations reg) (ni_TypeRef request) = Some \<lparr>rg_descriptor = d, rg_executor = e\<rparr> \<and> nd_TypeRef d = ni_TypeRef request
          \<and> DescriptorDigest d = Inr (ni_DescriptorDigest request) \<and> ex_Execute e request = Inr result
          \<and> (nr_Status result = NodeResultSucceeded \<longrightarrow> output_conforms d result)
          \<and> (nr_Effects result \<noteq> [] \<longrightarrow> (\<exists>p w. nr_Effects result = [p] \<and> effect_confined d request p \<and>
              nr_Wait result = Some w \<and> nw_Kind w = NodeWaitEffect \<and> nw_SubjectRef w = ep_EffectKey p))))
    \<and> (\<forall>ctx request result. registry_Resume reg ctx request = Inr result \<longrightarrow> nr_Effects result = [] \<and> nr_Wait result = None
        \<and> (\<exists>registered. map_of (rg_registrations reg) (nrr_TypeRef request) = Some registered \<and>
            (nr_Status result = NodeResultSucceeded \<longrightarrow> output_conforms (rg_descriptor registered) result)))"
proof (intro conjI allI impI)
  fix ctx request result
  assume x: "registry_Execute reg ctx request = Inr result"
  obtain registered where r: "map_of (rg_registrations reg) (ni_TypeRef request) = Some registered"
    using x by (cases "map_of (rg_registrations reg) (ni_TypeRef request)") (auto simp: registry_Execute_def)
  let ?d = "rg_descriptor registered"
  have v: "ValidateResult ?d request result = None" "ex_Execute (rg_executor registered) request = Inr result"
    using x r by (auto simp: registry_Execute_def)
  have q: "ValidateRequest ?d request = None" using v(1) by (simp add: ValidateResult_def)
  have d: "nd_TypeRef ?d = ni_TypeRef request" "DescriptorDigest ?d = Inr (ni_DescriptorDigest request)"
    using q by (auto simp: ValidateRequest_def ValidateDescriptor_def)
  have s: "nr_Status result = NodeResultSucceeded \<longrightarrow> output_conforms ?d result"
    using v(1) output_checked [of ?d result] by (auto simp: ValidateResult_def)
  have e: "\<exists>p w. nr_Effects result = [p] \<and> effect_confined ?d request p \<and> nr_Wait result = Some w \<and> nw_Kind w = NodeWaitEffect \<and> nw_SubjectRef w = ep_EffectKey p"
    if ne: "nr_Effects result \<noteq> []"
  proof -
    have w: "nr_Status result = NodeResultWaiting" using v(1) ne by (cases "nr_Status result") (auto simp: ValidateResult_def NodeResultStatus_Valid_def split: option.splits)
    then obtain w where w: "nr_Wait result = Some w" "validate_wait_effect w (nr_Effects result) = None"
      using v(1) by (auto simp: ValidateResult_def split: option.splits)
    then obtain p where p: "nr_Effects result = [p]" "nw_Kind w = NodeWaitEffect" "nw_SubjectRef w = ep_EffectKey p"
      using ne by (auto simp: validate_wait_effect_def split: if_splits list.splits)
    have "nd_Mode ?d = NodeEffectful" "validate_proposal ?d request [] p = None" using v(1) ne p(1) by (auto simp: ValidateResult_def)
    then show ?thesis using proposal_confined [OF q] w(1) p by auto
  qed
  show "\<exists>d e. map_of (rg_registrations reg) (ni_TypeRef request) = Some \<lparr>rg_descriptor = d, rg_executor = e\<rparr> \<and> nd_TypeRef d = ni_TypeRef request
      \<and> DescriptorDigest d = Inr (ni_DescriptorDigest request) \<and> ex_Execute e request = Inr result
      \<and> (nr_Status result = NodeResultSucceeded \<longrightarrow> output_conforms d result)
      \<and> (nr_Effects result \<noteq> [] \<longrightarrow> (\<exists>p w. nr_Effects result = [p] \<and> effect_confined d request p \<and>
          nr_Wait result = Some w \<and> nw_Kind w = NodeWaitEffect \<and> nw_SubjectRef w = ep_EffectKey p))"
    using r v(2) d s e by (intro exI [of _ ?d] exI [of _ "rg_executor registered"]) simp
next
  fix ctx request result
  assume x: "registry_Resume reg ctx request = Inr result"
  obtain registered where r: "map_of (rg_registrations reg) (nrr_TypeRef request) = Some registered" "ValidateResumeResult (rg_descriptor registered) result = None"
    using x by (cases "map_of (rg_registrations reg) (nrr_TypeRef request)") (auto simp: registry_Resume_def split: option.splits)
  show "nr_Effects result = []" "nr_Wait result = None" using r(2) by (simp_all add: ValidateResumeResult_def)
  show "\<exists>registered. map_of (rg_registrations reg) (nrr_TypeRef request) = Some registered \<and>
      (nr_Status result = NodeResultSucceeded \<longrightarrow> output_conforms (rg_descriptor registered) result)"
    using r output_checked [of "rg_descriptor registered" result] by (auto simp: ValidateResumeResult_def)
qed (use reach_ok [OF assms] in \<open>auto simp: Register_def Seal_def registry_ok_def\<close>)

section \<open>A sample registry\<close>

text \<open>A pure node without inputs, registered and executed.\<close>

declare ValidIdentifier_iff [code]

definition pinned :: string where "pinned = ''sha256:'' @ replicate 64 (CHR ''0'')"

definition sample_descriptor :: "string \<Rightarrow> NodeDescriptor" where
  "sample_descriptor digest = \<lparr>nd_SchemaVersion = DescriptorSchemaVersion, nd_TypeRef = ''test.node/v1'', nd_DisplayName = ''n'', nd_PackageRef = ''p'',
     nd_PackageDigest = pinned, nd_DescriptorDigest = digest, nd_InputSchema = type_schema TypeObject, nd_OutputSchema = type_schema TypeObject,
     nd_Mode = NodePure, nd_Determinism = NodeDeterministic, nd_SchemaMode = NodeSchemaUnset, nd_RequiredCapabilities = [],
     nd_AllowedEffectKinds = [], nd_CompensationTypeRef = [], nd_MaxInputBytes = 100, nd_MaxOutputBytes = 100\<rparr>"

lemma pinned_digest: "ValidDigest pinned" "utf8_valid pinned" "length pinned = 71"
proof -
  show d: "ValidDigest pinned" by code_simp
  show "utf8_valid pinned" "length pinned = 71" using ValidDigest_text [OF d] by blast+
qed

lemma sample_descriptor_json:
  assumes "utf8_valid y" and "length y \<le> 71"
  shows "\<exists>j. NodeDescriptor_json (sample_descriptor y) = Inr j \<and> json_plain j \<and> json_bound j \<le> 50000 \<and> json_height j \<le> 100"
proof -
  have n: "decimal_int 100 = ''100''" by code_simp
  show ?thesis using pinned_digest(2,3) assms
    by (simp add: NodeDescriptor_json_def sample_descriptor_def DescriptorSchemaVersion_def type_schema_def NodeExecutionMode_string_def
        NodeDeterminism_string_def JSONType_string_def omitempty_def strings_field_def text_field_def n ascii_def int_part_def decimalDigits_def
        is_digit_def in_range_def)
qed

lemma sample_descriptor_digest: "\<exists>x. DescriptorDigest (sample_descriptor y) = Inr x \<and> ValidDigest x"
proof -
  obtain j where j: "NodeDescriptor_json (sample_descriptor []) = Inr j" "json_plain j" "json_bound j \<le> 50000" "json_height j \<le> 100"
    using sample_descriptor_json [of "[]"] by auto
  have "(sample_descriptor y)\<lparr>nd_DescriptorDigest := []\<rparr> = sample_descriptor []" by (simp add: sample_descriptor_def)
  then show ?thesis using digest_known [OF j(2)] j by (auto simp: DescriptorDigest_def)
qed

definition sample_digest_of :: string where "sample_digest_of = value_of (DescriptorDigest (sample_descriptor []))"

lemma descriptor_digest_ignores: "DescriptorDigest (sample_descriptor y) = DescriptorDigest (sample_descriptor [])"
  by (simp add: DescriptorDigest_def sample_descriptor_def)

lemma sample_described:
  "DescriptorDigest (sample_descriptor y) = Inr sample_digest_of" "ValidDigest sample_digest_of"
  using sample_descriptor_digest [of "[]"] descriptor_digest_ignores [of y] by (auto simp: sample_digest_of_def)

lemma sample_valid: "ValidateDescriptor (sample_descriptor sample_digest_of) = None"
proof -
  have t: "ValidTypeRef ''test.node/v1''" "ValidIdentifier ''p''" "utf8_valid ''n''" "trimmed ''n''" "validateDefinition (type_schema TypeObject) = None"
    "sch_Type (type_schema TypeObject) = TypeObject" "validateRequirements [] = None"
    by code_simp+
  show ?thesis using sample_described(2) sample_described(1) [of sample_digest_of] pinned_digest(1) t
    by (simp add: ValidateDescriptor_def sample_descriptor_def NodeExecutionMode_Valid_def NodeDeterminism_Valid_def NodeSchemaMode_Valid_def
        DefaultLimits_def)
qed

lemma valid_utf8_unchanged: "utf8_valid s \<Longrightarrow> to_valid_utf8 s = s"
proof (induction s rule: to_valid_utf8.induct)
  case (1 s)
  show ?case
  proof (cases "s = []")
    case False
    then have r: "rune_len s \<noteq> 0" "utf8_valid (drop (rune_len s) s)" using "1.prems" by (auto simp: utf8_valid.simps [of s] split: if_splits)
    then show ?thesis using "1.IH"(2) [OF False] False by (simp add: to_valid_utf8.simps [of s])
  qed (simp add: to_valid_utf8.simps)
qed

lemma sample_clone: "cloneDescriptor (sample_descriptor sample_digest_of) = Inr (sample_descriptor sample_digest_of)"
proof -
  have u: "utf8_valid sample_digest_of" "length sample_digest_of \<le> 71" using ValidDigest_text [OF sample_described(2)] by auto
  obtain j where "NodeDescriptor_json (sample_descriptor sample_digest_of) = Inr j" "json_plain j" "json_bound j \<le> 50000" "json_height j \<le> 100"
    using sample_descriptor_json [OF u] by blast
  then have "\<exists>c. andThen (NodeDescriptor_json (sample_descriptor sample_digest_of)) Marshal = Inr c" using Marshal_plain [of j] by auto
  moreover have "clone_fields (sample_descriptor sample_digest_of) = sample_descriptor sample_digest_of"
  proof -
    have "value_of (Canonicalize []) = []" by code_simp
    then have "clone_schema (type_schema TypeObject) = type_schema TypeObject" by (simp add: type_schema_def to_valid_utf8.simps)
    then show ?thesis using valid_utf8_unchanged u(1) pinned_digest(2)
      by (simp add: clone_fields_def sample_descriptor_def DescriptorSchemaVersion_def ascii_def to_valid_utf8.simps [of "[]"])
  qed
  ultimately show ?thesis by (auto simp: cloneDescriptor_def)
qed

definition empty_digest :: string where "empty_digest = value_of (DigestValue (JObj []))"

lemma empty_digest: "DigestValue (JObj []) = Inr empty_digest" "ValidDigest empty_digest" "Marshal (JObj []) = Inr ''{}''"
proof -
  show "DigestValue (JObj []) = Inr empty_digest" "ValidDigest empty_digest" using digest_known [of "JObj []"] by (simp_all add: empty_digest_def)
  have "Canonicalize (json_Marshal (JObj [])) = Inr ''{}''" by code_simp
  then show "Marshal (JObj []) = Inr ''{}''" by (simp add: Marshal_def MarshalWithLimits_def Canonicalize_def)
qed

definition sample_result :: NodeResult where
  "sample_result = \<lparr>nr_SchemaVersion = ResultSchemaVersion, nr_Status = NodeResultSucceeded, nr_Output = Some [], nr_OutputDigest = empty_digest,
     nr_OutputArtifactRef = [], nr_Route = [], nr_SourcePorts = [], nr_Effects = [], nr_Wait = None, nr_Failure = None, nr_EvidenceDigest = empty_digest\<rparr>"

definition sample_executor :: executor where
  "sample_executor = \<lparr>ex_Descriptor = sample_descriptor sample_digest_of, ex_Execute = (\<lambda>_. Inr sample_result), ex_Resume = None\<rparr>"

definition sample_call :: NodeInvocationRequest where
  "sample_call = \<lparr>ni_SchemaVersion = InvocationSchemaVersion, ni_InvocationID = ''i'', ni_RunID = ''r'', ni_NodeID = ''n'', ni_TypeRef = ''test.node/v1'',
     ni_DescriptorDigest = sample_digest_of, ni_AttemptID = ''a'', ni_AttemptOrdinal = 1, ni_Input = Some [], ni_InputDigest = empty_digest,
     ni_CapabilityGrants = [], ni_Deadline = 9, ni_RequestedAt = 5\<rparr>"

definition sample_open :: Registry where
  "sample_open = \<lparr>rg_registrations = [(''test.node/v1'', \<lparr>rg_descriptor = sample_descriptor sample_digest_of, rg_executor = sample_executor\<rparr>)],
     rg_sealed = False, rg_catalogDigest = []\<rparr>"

lemma sample_registered: "Register NewRegistry (Some sample_executor) = Inr sample_open"
  by (simp add: Register_def NewRegistry_def sample_executor_def sample_clone sample_valid sample_open_def) (simp add: sample_descriptor_def)

lemma sample_request_valid: "ValidateRequest (sample_descriptor sample_digest_of) sample_call = None"
proof -
  have i: "ValidIdentifier ''i''" "ValidIdentifier ''r''" "ValidIdentifier ''n''" "ValidIdentifier ''a''" "ValidateValue (type_schema TypeObject) (JObj []) = None"
    by code_simp+
  have "sized_digest (Some []) 100 empty_digest = None" using empty_digest Marshal_Digest by (simp add: sized_digest_def map_json_def)
  then show ?thesis unfolding ValidateRequest_def sample_valid using i
    by (simp add: sample_call_def sample_descriptor_def validateGrants_def map_value_def)
qed

lemma sample_result_valid: "ValidateResult (sample_descriptor sample_digest_of) sample_call sample_result = None"
proof -
  have i: "ValidateValue (type_schema TypeObject) (JObj []) = None" by code_simp
  have "sized_digest (Some []) 100 empty_digest = None" using empty_digest Marshal_Digest by (simp add: sized_digest_def map_json_def)
  then show ?thesis unfolding ValidateResult_def sample_request_valid using i empty_digest(2)
    by (simp add: sample_result_def sample_descriptor_def NodeResultStatus_Valid_def validate_output_def validateResultRouting_def map_value_def)
qed

lemma sample_sealed: "\<exists>x. Seal sample_open = Inr (x, sample_open\<lparr>rg_catalogDigest := x, rg_sealed := True\<rparr>)"
proof -
  have u: "utf8_valid sample_digest_of" "length sample_digest_of \<le> 71" using ValidDigest_text [OF sample_described(2)] by auto
  obtain j where "NodeDescriptor_json (sample_descriptor sample_digest_of) = Inr j" "json_plain j" "json_bound j \<le> 50000" "json_height j \<le> 100"
    using sample_descriptor_json [OF u] by blast
  then have "\<exists>j. collect NodeDescriptor_json (registered_descriptors sample_open) = Inr j \<and> json_plain (JArr j) \<and> json_bound (JArr j) \<le> 100000 \<and> json_height (JArr j) \<le> 128"
    by (simp add: registered_descriptors_def sample_open_def)
  then obtain j x where "collect NodeDescriptor_json (registered_descriptors sample_open) = Inr j" "DigestValue (JArr j) = Inr x" using digest_known(1) by blast
  then show ?thesis by (auto simp: Seal_def sample_open_def)
qed

theorem registry_confines_nodes_witness:
  "\<exists>reg. registry_reach reg \<and> registry_Execute reg True sample_call = Inr sample_result \<and> output_conforms (sample_descriptor sample_digest_of) sample_result"
proof -
  obtain x where x: "Seal sample_open = Inr (x, sample_open\<lparr>rg_catalogDigest := x, rg_sealed := True\<rparr>)" using sample_sealed by blast
  let ?reg = "sample_open\<lparr>rg_catalogDigest := x, rg_sealed := True\<rparr>"
  have r: "registry_reach ?reg" using registry_reach.seal [OF registry_reach.register [OF registry_reach.new sample_registered] x] .
  have e: "registry_Execute ?reg True sample_call = Inr sample_result"
    using sample_request_valid sample_result_valid
    by (simp add: registry_Execute_def sample_open_def sample_executor_def) (simp add: sample_call_def)
  have "map_of (rg_registrations ?reg) (ni_TypeRef sample_call) = Some \<lparr>rg_descriptor = sample_descriptor sample_digest_of, rg_executor = sample_executor\<rparr>"
    by (simp add: sample_open_def sample_call_def)
  moreover have "nr_Status sample_result = NodeResultSucceeded" by (simp add: sample_result_def)
  ultimately have "output_conforms (sample_descriptor sample_digest_of) sample_result"
    using conjunct1 [OF conjunct2 [OF conjunct2 [OF conjunct2 [OF registry_confines_nodes [OF r]]]], rule_format, OF e] by auto
  then show ?thesis using r e by blast
qed

end
