(* ===== verification/Ingress_Policy.thy ===== *)
theory Ingress_Policy
  imports Action_Admission
begin

text \<open>
  Package kernel/ingress: policies for reserved root ingress and the permits issued with them. A capability
  seal is a pointer to a fresh allocation, modelled by its address; the allocator and the random source, whose bytes
  nothing reads, are parameters.
\<close>

section \<open>Policies\<close>

record ReservedIngressPolicySpec =
  ris_PolicyRef :: string
  ris_NamespaceID :: string
  ris_TriggerKind :: TriggerKind
  ris_TriggerVersion :: string
  ris_SourceRef :: string
  ris_CandidateOrigin :: InputOriginKind
  ris_RootOnly :: bool
  ris_RequireActiveOwner :: bool
  ris_ActiveOwnerKind :: string
  ris_ActiveOwnerIdentityFields :: "string list"

record ReservedIngressPolicy =
  rip_spec :: ReservedIngressPolicySpec
  rip_seal :: "nat option"

record IngressPermit =
  igp_seal :: "nat option"

definition expectedCandidateOrigin :: "TriggerKind \<Rightarrow> InputOriginKind result" where
  "expectedCandidateOrigin k = (case k of
     TriggerManual \<Rightarrow> Inr OriginCaller | TriggerAPI \<Rightarrow> Inr OriginCaller | TriggerPanel \<Rightarrow> Inr OriginCaller
   | TriggerSchedule \<Rightarrow> Inr OriginTriggerMap | TriggerWebhook \<Rightarrow> Inr OriginTriggerMap
   | TriggerProductBuilder \<Rightarrow> Inr OriginProductBuilder | TriggerActionCall \<Rightarrow> Inr OriginParentMap
   | TriggerKindOther _ \<Rightarrow> Inl (Errorf ''unsupported trigger kind''))"

fun identity_fields_ok :: "string \<Rightarrow> string list \<Rightarrow> bool" where
  "identity_fields_ok prior [] \<longleftrightarrow> True"
| "identity_fields_ok prior (f # fs) \<longleftrightarrow> ValidIdentifier f \<and> \<not> f \<le> prior \<and> identity_fields_ok f fs"

definition validatePolicy :: "ReservedIngressPolicySpec \<Rightarrow> error option" where
  "validatePolicy s = first_error
     [fail_if (\<not> ValidIdentifier (ris_PolicyRef s) \<or> \<not> ValidIdentifier (ris_NamespaceID s) \<or> \<not> TriggerKind_Valid (ris_TriggerKind s) \<or>
        \<not> ValidIdentifier (ris_TriggerVersion s) \<or> \<not> ValidIdentifier (ris_SourceRef s)) (Errorf ''reserved ingress policy identity is invalid''),
      fail_if (expectedCandidateOrigin (ris_TriggerKind s) \<noteq> Inr (ris_CandidateOrigin s))
        (Errorf ''reserved ingress policy candidate origin does not match its trigger''),
      fail_if (ris_RequireActiveOwner s \<and> \<not> ris_RootOnly s) (Errorf ''active owner policy must be root-only''),
      fail_if (ris_TriggerKind s = TriggerActionCall \<or> (ris_TriggerKind s = TriggerProductBuilder \<and> \<not> ris_RootOnly s))
        (Errorf ''reserved child ingress is forbidden and product-builder policy must be root-only''),
      (if ris_RequireActiveOwner s
       then first_error
         [fail_if (\<not> ValidIdentifier (ris_ActiveOwnerKind s) \<or> ris_ActiveOwnerIdentityFields s = [] \<or> length (ris_ActiveOwnerIdentityFields s) > 32)
            (Errorf ''active owner policy key contract is invalid''),
          fail_if (\<not> identity_fields_ok [] (ris_ActiveOwnerIdentityFields s)) (Errorf ''active owner identity fields must be unique and sorted'')]
       else fail_if (ris_ActiveOwnerKind s \<noteq> [] \<or> ris_ActiveOwnerIdentityFields s \<noteq> [])
         (Errorf ''policy without active ownership cannot declare an owner key''))]"

text \<open>A nil slice of identity fields is written as null.\<close>

definition PolicyDigest :: "ReservedIngressPolicySpec \<Rightarrow> string result" where
  "PolicyDigest s = ensure (validatePolicy s) (DigestValue (JObj
     [(''schemaVersion'', JStr ''xgc.reserved-ingress-policy/v1''), (''policyRef'', JStr (ris_PolicyRef s)),
      (''namespaceId'', JStr (ris_NamespaceID s)), (''triggerKind'', JStr (TriggerKind_string (ris_TriggerKind s))),
      (''triggerVersion'', JStr (ris_TriggerVersion s)), (''sourceRef'', JStr (ris_SourceRef s)),
      (''candidateOrigin'', JStr (InputOriginKind_string (ris_CandidateOrigin s))), (''rootOnly'', JBool (ris_RootOnly s)),
      (''requireActiveOwner'', JBool (ris_RequireActiveOwner s)), (''activeOwnerKind'', JStr (ris_ActiveOwnerKind s)),
      (''activeOwnerIdentityFields'', if ris_ActiveOwnerIdentityFields s = [] then JNull else JArr (map JStr (ris_ActiveOwnerIdentityFields s)))]))"

section \<open>Capabilities\<close>

definition NewReservedIngressPolicy :: "nat \<Rightarrow> error option \<Rightarrow> ReservedIngressPolicySpec \<Rightarrow> (ReservedIngressPolicy \<times> IngressPermit) result" where
  "NewReservedIngressPolicy address random s = ensure (validatePolicy s) (ensure random (
     Inr (\<lparr>rip_spec = s, rip_seal = Some address\<rparr>, \<lparr>igp_seal = Some address\<rparr>)))"

definition policy_Spec :: "ReservedIngressPolicy option \<Rightarrow> ReservedIngressPolicySpec option" where
  "policy_Spec policy = (case policy of None \<Rightarrow> None
     | Some p \<Rightarrow> if rip_seal p = None \<or> validatePolicy (rip_spec p) \<noteq> None then None else Some (rip_spec p))"

definition Authorizes :: "ReservedIngressPolicy option \<Rightarrow> IngressPermit option \<Rightarrow> bool" where
  "Authorizes policy permit = (case (policy, permit) of
     (Some p, Some q) \<Rightarrow> rip_seal p \<noteq> None \<and> igp_seal q = rip_seal p | _ \<Rightarrow> False)"

definition policy_Digest :: "ReservedIngressPolicy option \<Rightarrow> string" where
  "policy_Digest policy = (case policy_Spec policy of None \<Rightarrow> [] | Some s \<Rightarrow> value_of (PolicyDigest s))"

section \<open>Properties\<close>

text \<open>
  A policy authorises the permit issued with it and no permit of another allocation, whatever the
  two specifications say.
\<close>

lemma permits_unforgeable:
  assumes "NewReservedIngressPolicy a e s = Inr (p, q)" and "NewReservedIngressPolicy a' e' s' = Inr (p', q')"
  shows "Authorizes (Some p) (Some q') \<longleftrightarrow> a = a'"
  using assms by (auto simp: NewReservedIngressPolicy_def Authorizes_def)

lemma issued_policy_root_only:
  assumes "NewReservedIngressPolicy a e s = Inr (p, q)"
  shows "policy_Spec (Some p) = Some s" and "ris_TriggerKind s \<noteq> TriggerActionCall" and "ris_RequireActiveOwner s \<Longrightarrow> ris_RootOnly s"
  using assms by (auto simp: NewReservedIngressPolicy_def policy_Spec_def validatePolicy_def)

lemma identity_fields_sorted: "identity_fields_ok prior fs \<Longrightarrow> sorted_wrt (<) (prior # fs)"
proof (induction prior fs rule: identity_fields_ok.induct)
  case (2 prior f fs)
  then have s: "prior < f" "sorted_wrt (<) (f # fs)" by (auto simp: not_le)
  then show ?case by (auto intro: less_trans)
qed simp

lemma owner_policy_key:
  assumes "validatePolicy s = None" and "ris_RequireActiveOwner s"
  shows "sorted_wrt (<) (ris_ActiveOwnerIdentityFields s)" and "distinct (ris_ActiveOwnerIdentityFields s)"
    and "0 < length (ris_ActiveOwnerIdentityFields s)" and "length (ris_ActiveOwnerIdentityFields s) \<le> 32"
proof -
  have f: "identity_fields_ok [] (ris_ActiveOwnerIdentityFields s)" using assms by (simp add: validatePolicy_def)
  show s: "sorted_wrt (<) (ris_ActiveOwnerIdentityFields s)" using identity_fields_sorted [OF f] by simp
  show "distinct (ris_ActiveOwnerIdentityFields s)" using s by (simp add: strict_sorted_iff)
  show "0 < length (ris_ActiveOwnerIdentityFields s)" "length (ris_ActiveOwnerIdentityFields s) \<le> 32" using assms by (simp_all add: validatePolicy_def)
qed

end
