(* ===== verification/Durable_Worker.thy ===== *)
theory Durable_Worker
  imports Durable_Store
begin

text \<open>
  Package durable/worker: one pass over the intents that are due. The store is the port the worker is given and
  handlers are code of the composition root; both act on a world of type \<open>'s\<close> that holds the store.
\<close>

section \<open>Data\<close>

datatype Disposition = DispositionComplete | DispositionRetry | DispositionDead | DispositionLeave | DispositionOther string

record Result =
  wrs_Disposition :: Disposition
  wrs_Failure :: "StructuredFailure option"
  wrs_AvailableAt :: "instant option"

text \<open>The operations of \<^verbatim>\<open>store.Store\<close> that the worker calls, and the state of its context.\<close>

record 's intent_port =
  ip_ClaimIntents :: "'s \<Rightarrow> ClaimRequest \<Rightarrow> 's \<times> ClaimedIntent list result"
  ip_CompleteIntent :: "'s \<Rightarrow> IntentFence \<Rightarrow> 's \<times> IntentRecord result"
  ip_FailIntent :: "'s \<Rightarrow> IntentFailure \<Rightarrow> 's \<times> IntentRecord result"
  ip_ctx :: "'s \<Rightarrow> error option"

record 's Worker =
  wk_Store :: "'s intent_port option"
  wk_OwnerRef :: string
  wk_Handlers :: "DurableIntentKind \<Rightarrow> ('s \<Rightarrow> ClaimedIntent \<Rightarrow> 's \<times> Result) option"

record Batch =
  ba_Kinds :: "DurableIntentKind list"
  ba_LeaseToken :: string
  ba_Now :: instant
  ba_LeaseExpiresAt :: instant
  ba_Limit :: int

record BatchResult =
  br_Claimed :: nat
  br_Completed :: nat
  br_Retried :: nat
  br_Dead :: nat
  br_Left :: nat

section \<open>One pass\<close>

datatype settlement = Settled_Completed | Settled_Retried | Settled_Dead | Settled_Left

definition count_settlement :: "settlement \<Rightarrow> BatchResult \<Rightarrow> BatchResult" where
  "count_settlement o1 r = (case o1 of
     Settled_Completed \<Rightarrow> r\<lparr>br_Completed := br_Completed r + 1\<rparr> | Settled_Retried \<Rightarrow> r\<lparr>br_Retried := br_Retried r + 1\<rparr>
   | Settled_Dead \<Rightarrow> r\<lparr>br_Dead := br_Dead r + 1\<rparr> | Settled_Left \<Rightarrow> r\<lparr>br_Left := br_Left r + 1\<rparr>)"

definition intent_identity :: "ClaimedIntent \<Rightarrow> string" where
  "intent_identity c = di_Identity (ir_Intent (ci_Record c))"

definition intent_fence :: "string \<Rightarrow> Batch \<Rightarrow> ClaimedIntent \<Rightarrow> IntentFence" where
  "intent_fence owner b c = \<lparr>nf_IntentID = intent_identity c, nf_ExpectedRevision = ir_Revision (ci_Record c), nf_OwnerRef = owner,
     nf_LeaseToken = ci_LeaseToken c, nf_At = ba_Now b\<rparr>"

text \<open>A call that settles the intent when it succeeds; an error leaves it and is reported.\<close>

definition settle :: "settlement \<Rightarrow> 's \<times> IntentRecord result \<Rightarrow> 's \<times> settlement \<times> error list" where
  "settle o1 answer = (case answer of (s, Inr _) \<Rightarrow> (s, o1, []) | (s, Inl e) \<Rightarrow> (s, Settled_Left, [e]))"

definition dispose :: "'s intent_port \<Rightarrow> string \<Rightarrow> Batch \<Rightarrow> 's \<Rightarrow> ClaimedIntent \<Rightarrow> Result \<Rightarrow> 's \<times> settlement \<times> error list" where
  "dispose port owner b s c handled = (let fence = intent_fence owner b c in case wrs_Disposition handled of
     DispositionComplete \<Rightarrow>
       if wrs_Failure handled \<noteq> None \<or> wrs_AvailableAt handled \<noteq> None
       then (s, Settled_Left, [Errorf ''complete result contains failure or retry time''])
       else settle Settled_Completed (ip_CompleteIntent port s fence)
   | DispositionRetry \<Rightarrow> (case wrs_Failure handled of
       Some f \<Rightarrow>
         if fail_Class f \<noteq> FailureTransient \<or> wrs_AvailableAt handled = None
         then (s, Settled_Left, [Errorf ''retry requires transient failure and available time''])
         else settle Settled_Retried
           (ip_FailIntent port s \<lparr>if_Fence = fence, if_Failure = f, if_AvailableAt = wrs_AvailableAt handled, if_Dead = False\<rparr>)
     | None \<Rightarrow> (s, Settled_Left, [Errorf ''retry requires transient failure and available time'']))
   | DispositionDead \<Rightarrow> (case wrs_Failure handled of
       Some f \<Rightarrow>
         if wrs_AvailableAt handled \<noteq> None then (s, Settled_Left, [Errorf ''dead result requires failure and no retry time''])
         else settle Settled_Dead (ip_FailIntent port s \<lparr>if_Fence = fence, if_Failure = f, if_AvailableAt = None, if_Dead = True\<rparr>)
     | None \<Rightarrow> (s, Settled_Left, [Errorf ''dead result requires failure and no retry time'']))
   | DispositionLeave \<Rightarrow> (s, Settled_Left, [])
   | DispositionOther _ \<Rightarrow> (s, Settled_Left, [Errorf ''invalid handler disposition'']))"

definition handle_intent :: "'s Worker \<Rightarrow> 's intent_port \<Rightarrow> Batch \<Rightarrow> 's \<Rightarrow> ClaimedIntent \<Rightarrow> 's \<times> settlement \<times> error list" where
  "handle_intent w port b s c =
     (if ip_ctx port s \<noteq> None then (s, Settled_Left, [])
      else case wk_Handlers w (di_Kind (ir_Intent (ci_Record c))) of
        None \<Rightarrow> (s, Settled_Left, [Errorf ''no handler for intent''])
      | Some handler \<Rightarrow> (case handler s c of (s', handled) \<Rightarrow> dispose port (wk_OwnerRef w) b s' c handled))"

fun drain :: "'s Worker \<Rightarrow> 's intent_port \<Rightarrow> Batch \<Rightarrow> 's \<Rightarrow> BatchResult \<Rightarrow> error list \<Rightarrow> ClaimedIntent list \<Rightarrow> 's \<times> BatchResult \<times> error list" where
  "drain w port b s result failures [] = (s, result, failures)"
| "drain w port b s result failures (c # cs) = (case handle_intent w port b s c of
     (s', o1, errs) \<Rightarrow> drain w port b s' (count_settlement o1 result) (failures @ errs) cs)"

definition claim_request :: "'s Worker \<Rightarrow> Batch \<Rightarrow> ClaimRequest" where
  "claim_request w b = \<lparr>cq_Kinds = ba_Kinds b, cq_OwnerRef = wk_OwnerRef w, cq_LeaseToken = ba_LeaseToken b, cq_Now = ba_Now b,
     cq_LeaseExpiresAt = ba_LeaseExpiresAt b, cq_Limit = ba_Limit b\<rparr>"

definition no_results :: BatchResult where
  "no_results = \<lparr>br_Claimed = 0, br_Completed = 0, br_Retried = 0, br_Dead = 0, br_Left = 0\<rparr>"

text \<open>\<^verbatim>\<open>errors.Join\<close> is nil exactly when the list of failures is empty; the model returns the list.\<close>

definition RunOnce :: "'s Worker \<Rightarrow> 's \<Rightarrow> Batch \<Rightarrow> 's \<times> BatchResult \<times> error list" where
  "RunOnce w s b = (case wk_Store w of
     None \<Rightarrow> (s, no_results, [Errorf ''durable worker store and owner are required''])
   | Some port \<Rightarrow>
       if wk_OwnerRef w = [] then (s, no_results, [Errorf ''durable worker store and owner are required''])
       else (case ip_ClaimIntents port s (claim_request w b) of
           (s', Inl e) \<Rightarrow> (s', no_results, [e])
         | (s', Inr claimed) \<Rightarrow> drain w port b s' (no_results\<lparr>br_Claimed := length claimed\<rparr>) [] claimed))"

section \<open>The file store as a port\<close>

text \<open>
  A world with a file store: the outcomes of the input and output of its future operations, one for each,
  and the store itself.
\<close>

type_synonym store_world = "(nat \<Rightarrow> IoEnv) \<times> Store"

definition with_env :: "(IoEnv \<Rightarrow> Store \<Rightarrow> Store \<times> 'a) \<Rightarrow> store_world \<Rightarrow> store_world \<times> 'a" where
  "with_env f w = (case f (fst w 0) (snd w) of (fs, a) \<Rightarrow> ((\<lambda>n. fst w (n + 1), fs), a))"

definition filestore_port :: "(string \<Rightarrow> string) \<Rightarrow> (diskState \<Rightarrow> string result) \<Rightarrow> store_world intent_port" where
  "filestore_port num enc = \<lparr>
     ip_ClaimIntents = (\<lambda>w q. with_env (\<lambda>env fs. ClaimIntents num enc env fs q) w),
     ip_CompleteIntent = (\<lambda>w f. with_env (\<lambda>env fs. CompleteIntent num enc env fs f) w),
     ip_FailIntent = (\<lambda>w f. with_env (\<lambda>env fs. FailIntent num enc env fs f) w),
     ip_ctx = (\<lambda>w. io_ctx (fst w 0))\<rparr>"

end
