(* ===== verification/Worker_Claims.thy ===== *)
theory Worker_Claims
  imports Durable_Worker Durable_Props
begin

text \<open>The properties of the durable worker, over the contract of the store it drains.\<close>

section \<open>The contract of a store of intents\<close>

definition settlement_status :: "settlement \<Rightarrow> IntentStatus" where
  "settlement_status o1 = (case o1 of Settled_Completed \<Rightarrow> IntentCompleted | Settled_Retried \<Rightarrow> IntentPending
     | Settled_Dead \<Rightarrow> IntentDead | Settled_Left \<Rightarrow> IntentLeased)"

text \<open>
  The record of an intent after the worker acted on the answer of a handler: what the answer asks for, provided it
  is well-formed.
\<close>

definition told_record :: "string \<Rightarrow> Batch \<Rightarrow> ClaimedIntent \<Rightarrow> Result \<Rightarrow> IntentRecord \<Rightarrow> IntentRecord option" where
  "told_record owner b c a r = (case (wrs_Disposition a, wrs_Failure a, wrs_AvailableAt a) of
     (DispositionComplete, None, None) \<Rightarrow> Some (end_lease (completed_intent (ba_Now b) r))
   | (DispositionRetry, Some f, Some t) \<Rightarrow> if fail_Class f = FailureTransient
       then Some (end_lease (failed_intent \<lparr>if_Fence = intent_fence owner b c, if_Failure = f, if_AvailableAt = Some t, if_Dead = False\<rparr> r)) else None
   | (DispositionDead, Some f, None) \<Rightarrow>
       Some (end_lease (failed_intent \<lparr>if_Fence = intent_fence owner b c, if_Failure = f, if_AvailableAt = None, if_Dead = True\<rparr> r))
   | _ \<Rightarrow> None)"

definition neutral_handlers :: "('s \<Rightarrow> string \<Rightarrow> IntentRecord option) \<Rightarrow> ('s \<Rightarrow> bool) \<Rightarrow> 's Worker \<Rightarrow> bool" where
  "neutral_handlers lookup sound w \<longleftrightarrow> (\<forall>k h s c. wk_Handlers w k = Some h \<longrightarrow> sound s \<longrightarrow>
     sound (fst (h s c)) \<and> (\<forall>i r. lookup s i = Some r \<longrightarrow> lookup (fst (h s c)) i = Some r))"

definition settled_as_told :: "('s \<Rightarrow> string \<Rightarrow> IntentRecord option) \<Rightarrow> 's Worker \<Rightarrow> Batch \<Rightarrow> 's \<Rightarrow> 's \<Rightarrow> ClaimedIntent \<Rightarrow> bool" where
  "settled_as_told lookup w b s s' c \<longleftrightarrow> (\<exists>r. lookup s (intent_identity c) = Some r \<and>
     (lookup s' (intent_identity c) = Some r \<or>
      (\<exists>h s0 t. wk_Handlers w (di_Kind (ir_Intent (ci_Record c))) = Some h \<and> told_record (wk_OwnerRef w) b c (snd (h s0 c)) r = Some t \<and>
         lookup s' (intent_identity c) = Some t)))"

definition has_status :: "('s \<Rightarrow> string \<Rightarrow> IntentRecord option) \<Rightarrow> 's \<Rightarrow> IntentStatus \<Rightarrow> ClaimedIntent \<Rightarrow> bool" where
  "has_status lookup s st c \<longleftrightarrow> (\<exists>r. lookup s (intent_identity c) = Some r \<and> ir_Status r = st)"

text \<open>The counts of a pass, by the status that each claimed intent has at its end.\<close>

definition counted :: "('s \<Rightarrow> string \<Rightarrow> IntentRecord option) \<Rightarrow> 's \<Rightarrow> ClaimedIntent list \<Rightarrow> BatchResult \<Rightarrow> bool" where
  "counted lookup s cs result \<longleftrightarrow> br_Claimed result = length cs \<and>
     br_Completed result = length (filter (has_status lookup s IntentCompleted) cs) \<and> br_Retried result = length (filter (has_status lookup s IntentPending) cs) \<and>
     br_Dead result = length (filter (has_status lookup s IntentDead) cs) \<and> br_Left result = length (filter (has_status lookup s IntentLeased) cs)"

locale intent_store =
  fixes port :: "'s intent_port" and lookup :: "'s \<Rightarrow> string \<Rightarrow> IntentRecord option" and sound :: "'s \<Rightarrow> bool"
  assumes claim_spec: "sound s \<Longrightarrow> ip_ClaimIntents port s q = (s', Inr cs) \<Longrightarrow> sound s' \<and> distinct (map intent_identity cs) \<and>
      (\<forall>c \<in> set cs. \<exists>r. lookup s' (intent_identity c) = Some r \<and> ir_Status r = IntentLeased)"
    and complete_spec: "sound s \<Longrightarrow> ip_CompleteIntent port s f = (s', Inr x) \<Longrightarrow> sound s' \<and>
      (\<exists>r. lookup s (nf_IntentID f) = Some r \<and> lookup s' = (lookup s)(nf_IntentID f \<mapsto> end_lease (completed_intent (nf_At f) r)))"
    and fail_spec: "sound s \<Longrightarrow> ip_FailIntent port s g = (s', Inr x) \<Longrightarrow> sound s' \<and>
      (\<exists>r. lookup s (nf_IntentID (if_Fence g)) = Some r \<and> lookup s' = (lookup s)(nf_IntentID (if_Fence g) \<mapsto> end_lease (failed_intent g r)))"
    and complete_error: "sound s \<Longrightarrow> ip_CompleteIntent port s f = (s', Inl e) \<Longrightarrow> sound s' \<and> lookup s' = lookup s"
    and fail_error: "sound s \<Longrightarrow> ip_FailIntent port s g = (s', Inl e) \<Longrightarrow> sound s' \<and> lookup s' = lookup s"
begin

text \<open>One disposition: the intent is settled as the answer says or left, and nothing else moves.\<close>

lemma dispose_spec:
  assumes "sound s" and "lookup s (intent_identity c) = Some r" and "ir_Status r = IntentLeased"
    and "dispose port owner b s c a = (s', o1, errs)"
  shows "sound s'" and "\<And>i. i \<noteq> intent_identity c \<Longrightarrow> lookup s' i = lookup s i" and "has_status lookup s' (settlement_status o1) c"
    and "lookup s' (intent_identity c) = Some r \<or> (\<exists>t. told_record owner b c a r = Some t \<and> lookup s' (intent_identity c) = Some t)"
proof -
  let ?i = "intent_identity c" and ?f = "intent_fence owner b c"
  have f: "nf_IntentID ?f = ?i" "nf_At ?f = ba_Now b" by (simp_all add: intent_fence_def)
  have st: "ir_Status (end_lease (completed_intent t r)) = IntentCompleted"
      "ir_Status (end_lease (failed_intent g r)) = (if if_Dead g then IntentDead else IntentPending)" for t g
    by (simp_all add: end_lease_def completed_intent_def failed_intent_def)
  have "sound s' \<and> (\<forall>i. i \<noteq> ?i \<longrightarrow> lookup s' i = lookup s i) \<and> has_status lookup s' (settlement_status o1) c \<and>
      (lookup s' ?i = Some r \<or> (\<exists>t. told_record owner b c a r = Some t \<and> lookup s' ?i = Some t))"
  proof (cases "s' = s \<and> o1 = Settled_Left")
    case True
    then show ?thesis using assms(1-3) by (auto simp: has_status_def settlement_status_def)
  next
    case False
    consider (complete) "wrs_Disposition a = DispositionComplete" "wrs_Failure a = None" "wrs_AvailableAt a = None"
        "settle Settled_Completed (ip_CompleteIntent port s ?f) = (s', o1, errs)"
      | (retry) x t where "wrs_Disposition a = DispositionRetry" "wrs_Failure a = Some x" "fail_Class x = FailureTransient" "wrs_AvailableAt a = Some t"
        "settle Settled_Retried (ip_FailIntent port s \<lparr>if_Fence = ?f, if_Failure = x, if_AvailableAt = Some t, if_Dead = False\<rparr>) = (s', o1, errs)"
      | (dead) x where "wrs_Disposition a = DispositionDead" "wrs_Failure a = Some x" "wrs_AvailableAt a = None"
        "settle Settled_Dead (ip_FailIntent port s \<lparr>if_Fence = ?f, if_Failure = x, if_AvailableAt = None, if_Dead = True\<rparr>) = (s', o1, errs)"
      using assms(4) False by (cases "wrs_Disposition a") (auto simp: dispose_def Let_def split: if_splits option.splits)
    then show ?thesis
    proof cases
      case complete
      then show ?thesis
        using complete_spec [OF assms(1), of ?f] complete_error [OF assms(1), of ?f] assms(2,3) f st(1)
        by (cases "ip_CompleteIntent port s ?f"; cases "snd (ip_CompleteIntent port s ?f)")
          (fastforce simp: settle_def has_status_def settlement_status_def told_record_def)+
    next
      case (retry x t)
      let ?g = "\<lparr>if_Fence = ?f, if_Failure = x, if_AvailableAt = Some t, if_Dead = False\<rparr>"
      show ?thesis
        using retry fail_spec [OF assms(1), of ?g] fail_error [OF assms(1), of ?g] assms(2,3) f st(2) [of ?g]
        by (cases "ip_FailIntent port s ?g"; cases "snd (ip_FailIntent port s ?g)")
          (fastforce simp: settle_def has_status_def settlement_status_def told_record_def)+
    next
      case (dead x)
      let ?g = "\<lparr>if_Fence = ?f, if_Failure = x, if_AvailableAt = None, if_Dead = True\<rparr>"
      show ?thesis
        using dead fail_spec [OF assms(1), of ?g] fail_error [OF assms(1), of ?g] assms(2,3) f st(2) [of ?g]
        by (cases "ip_FailIntent port s ?g"; cases "snd (ip_FailIntent port s ?g)")
          (fastforce simp: settle_def has_status_def settlement_status_def told_record_def)+
    qed
  qed
  then show "sound s'" "\<And>i. i \<noteq> ?i \<Longrightarrow> lookup s' i = lookup s i" "has_status lookup s' (settlement_status o1) c"
    "lookup s' ?i = Some r \<or> (\<exists>t. told_record owner b c a r = Some t \<and> lookup s' ?i = Some t)" by simp_all
qed

lemma handle_spec:
  assumes "sound s" and "neutral_handlers lookup sound w" and "lookup s (intent_identity c) = Some r" and "ir_Status r = IntentLeased"
    and "handle_intent w port b s c = (s', o1, errs)"
  shows "sound s' \<and> (\<forall>i x. i \<noteq> intent_identity c \<longrightarrow> lookup s i = Some x \<longrightarrow> lookup s' i = Some x) \<and>
    has_status lookup s' (settlement_status o1) c \<and> settled_as_told lookup w b s s' c"
proof (cases "s' = s \<and> o1 = Settled_Left")
  case True
  then show ?thesis using assms(1,3,4) by (auto simp: has_status_def settlement_status_def settled_as_told_def)
next
  case False
  obtain h where h: "wk_Handlers w (di_Kind (ir_Intent (ci_Record c))) = Some h" "dispose port (wk_OwnerRef w) b (fst (h s c)) c (snd (h s c)) = (s', o1, errs)"
    using assms(5) False by (auto simp: handle_intent_def split: if_splits option.splits prod.splits)
  have n: "sound (fst (h s c))" "\<And>i x. lookup s i = Some x \<Longrightarrow> lookup (fst (h s c)) i = Some x"
    using assms(1,2) h(1) unfolding neutral_handlers_def by blast+
  note d = dispose_spec [OF n(1) n(2) [OF assms(3)] assms(4) h(2)]
  have "settled_as_told lookup w b s s' c" using d(4) assms(3) h(1) unfolding settled_as_told_def by blast
  then show ?thesis using d(1-3) n(2) by auto
qed

text \<open>The loop, over intents that are leased and distinct.\<close>

lemma drain_spec:
  "sound s \<Longrightarrow> neutral_handlers lookup sound w \<Longrightarrow> distinct (map intent_identity cs) \<Longrightarrow>
   \<forall>c \<in> set cs. \<exists>r. lookup s (intent_identity c) = Some r \<and> ir_Status r = IntentLeased \<Longrightarrow>
   drain w port b s result failures cs = (s', result', failures') \<Longrightarrow>
   sound s' \<and> (\<forall>i r. i \<notin> intent_identity ` set cs \<longrightarrow> lookup s i = Some r \<longrightarrow> lookup s' i = Some r) \<and>
   (\<forall>c \<in> set cs. settled_as_told lookup w b s s' c) \<and>
   (\<exists>os. length os = length cs \<and> result' = fold count_settlement os result \<and>
     (\<forall>(c, o1) \<in> set (zip cs os). has_status lookup s' (settlement_status o1) c))"
proof (induction cs arbitrary: s result failures)
  case (Cons c cs)
  obtain s1 o1 errs where h: "handle_intent w port b s c = (s1, o1, errs)" by (cases "handle_intent w port b s c") auto
  obtain r where r: "lookup s (intent_identity c) = Some r" "ir_Status r = IntentLeased" using Cons.prems(4) by auto
  from handle_spec [OF Cons.prems(1,2) r h]
  have k: "sound s1" "\<And>i x. i \<noteq> intent_identity c \<Longrightarrow> lookup s i = Some x \<Longrightarrow> lookup s1 i = Some x"
      "has_status lookup s1 (settlement_status o1) c" "settled_as_told lookup w b s s1 c"
    by auto
  have new: "intent_identity c \<notin> intent_identity ` set cs" "distinct (map intent_identity cs)" using Cons.prems(3) by auto
  have same: "lookup s1 (intent_identity d) = lookup s (intent_identity d)" if "d \<in> set cs" for d
  proof -
    obtain x where x: "lookup s (intent_identity d) = Some x" using Cons.prems(4) \<open>d \<in> set cs\<close> by fastforce
    have "intent_identity d \<noteq> intent_identity c" using imageI [OF \<open>d \<in> set cs\<close>, of intent_identity] new(1) by metis
    then show ?thesis using k(2) [OF _ x] x by simp
  qed
  have "\<forall>d \<in> set cs. \<exists>r. lookup s1 (intent_identity d) = Some r \<and> ir_Status r = IntentLeased" using Cons.prems(4) same by simp
  from Cons.IH [OF k(1) Cons.prems(2) new(2) this, of "count_settlement o1 result" "failures @ errs"] Cons.prems(5) h
  obtain os where ih: "sound s'" "\<And>i r. i \<notin> intent_identity ` set cs \<Longrightarrow> lookup s1 i = Some r \<Longrightarrow> lookup s' i = Some r"
      "\<forall>d \<in> set cs. settled_as_told lookup w b s1 s' d" "length os = length cs" "result' = fold count_settlement os (count_settlement o1 result)"
      "\<forall>(c, o1) \<in> set (zip cs os). has_status lookup s' (settlement_status o1) c"
    by auto
  have kept: "lookup s' (intent_identity c) = lookup s1 (intent_identity c)"
    using k(3) ih(2) [OF new(1)] by (auto simp: has_status_def)
  have "settled_as_told lookup w b s s' c" using k(4) kept unfolding settled_as_told_def by simp
  moreover have "\<forall>d \<in> set cs. settled_as_told lookup w b s s' d" using ih(3) same unfolding settled_as_told_def by simp
  moreover have "\<exists>os. length os = length (c # cs) \<and> result' = fold count_settlement os result \<and>
     (\<forall>(c, o1) \<in> set (zip (c # cs) os). has_status lookup s' (settlement_status o1) c)"
    using ih(4-6) k(3) kept by (intro exI [of _ "o1 # os"]) (auto simp: has_status_def)
  moreover have "\<forall>i r. i \<notin> intent_identity ` set (c # cs) \<longrightarrow> lookup s i = Some r \<longrightarrow> lookup s' i = Some r" using k(2) ih(2) by simp
  ultimately show ?case using ih(1) by simp
qed (auto intro: exI [of _ "[]"])

lemma counts_by_status:
  assumes "length os = length cs" and "\<forall>(c, o1) \<in> set (zip cs os). has_status lookup s (settlement_status o1) c"
  shows "fold count_settlement os result = \<lparr>br_Claimed = br_Claimed result,
    br_Completed = br_Completed result + length (filter (has_status lookup s IntentCompleted) cs),
    br_Retried = br_Retried result + length (filter (has_status lookup s IntentPending) cs),
    br_Dead = br_Dead result + length (filter (has_status lookup s IntentDead) cs),
    br_Left = br_Left result + length (filter (has_status lookup s IntentLeased) cs)\<rparr>"
  using assms
proof (induction os cs arbitrary: result rule: list_induct2)
  case (Cons o1 os c cs)
  then have "has_status lookup s (settlement_status o1) c" by simp
  then have "has_status lookup s st c \<longleftrightarrow> st = settlement_status o1" for st by (auto simp: has_status_def)
  then show ?case using Cons.IH [of "count_settlement o1 result"] Cons.prems
    by (cases o1) (simp_all add: count_settlement_def settlement_status_def)
qed simp

lemma run_spec:
  assumes "sound s" and "neutral_handlers lookup sound w" and "wk_Store w = Some port" and "wk_OwnerRef w \<noteq> []"
    and "ip_ClaimIntents port s (claim_request w b) = (s1, Inr cs)" and "RunOnce w s b = (s', result, failures)"
  shows "counted lookup s' cs result" and "\<forall>c \<in> set cs. settled_as_told lookup w b s1 s' c"
    and "br_Claimed result = br_Completed result + br_Retried result + br_Dead result + br_Left result"
proof -
  have d: "drain w port b s1 (no_results\<lparr>br_Claimed := length cs\<rparr>) [] cs = (s', result, failures)"
    using assms(3-6) by (simp add: RunOnce_def)
  from claim_spec [OF assms(1,5)] have c: "sound s1" "distinct (map intent_identity cs)"
      "\<forall>c \<in> set cs. \<exists>r. lookup s1 (intent_identity c) = Some r \<and> ir_Status r = IntentLeased" by auto
  from drain_spec [OF c(1) assms(2) c(2,3) d]
  obtain os where o: "\<forall>c \<in> set cs. settled_as_told lookup w b s1 s' c" "length os = length cs"
      "result = fold count_settlement os (no_results\<lparr>br_Claimed := length cs\<rparr>)"
      "\<forall>(c, o1) \<in> set (zip cs os). has_status lookup s' (settlement_status o1) c" by blast
  show "\<forall>c \<in> set cs. settled_as_told lookup w b s1 s' c" by (rule o(1))
  have r: "result = fold count_settlement os (no_results\<lparr>br_Claimed := length cs\<rparr>)" by (rule o(3))
  show "counted lookup s' cs result" unfolding r counts_by_status [OF o(2,4)] by (simp add: counted_def no_results_def)
  have t: "br_Completed (fold count_settlement os q) + br_Retried (fold count_settlement os q) + br_Dead (fold count_settlement os q) +
      br_Left (fold count_settlement os q) = br_Completed q + br_Retried q + br_Dead q + br_Left q + length os \<and>
      br_Claimed (fold count_settlement os q) = br_Claimed q" for os q
    by (induction os arbitrary: q) (auto simp: count_settlement_def split: settlement.splits)
  show "br_Claimed result = br_Completed result + br_Retried result + br_Dead result + br_Left result"
    using t [of os "no_results\<lparr>br_Claimed := length cs\<rparr>"] o(2) unfolding r by (simp add: no_results_def)
qed

end

section \<open>The file store keeps the contract\<close>

definition stored_intent :: "store_world \<Rightarrow> string \<Rightarrow> IntentRecord option" where
  "stored_intent w = map_of (ds_Intents (fs_state (snd w)))"

text \<open>Intents are stored under their identity, once each.\<close>

definition intents_keyed :: "store_world \<Rightarrow> bool" where
  "intents_keyed w \<longleftrightarrow> distinct (map fst (ds_Intents (fs_state (snd w)))) \<and>
     (\<forall>k r. stored_intent w k = Some r \<longrightarrow> di_Identity (ir_Intent r) = k)"

lemma publish_state: "publish enc env fs nx a = (fs', r) \<Longrightarrow> (case r of Inr x \<Rightarrow> x = a \<and> fs_state fs' = nx | Inl _ \<Rightarrow> fs_state fs' = fs_state fs)"
  by (auto simp: publish_def store_append_def split: sum.splits option.splits prod.splits)

lemma foldIntent_state:
  assumes "foldIntent num enc env fs f change = (fs', r)"
  shows "(case r of Inr _ \<Rightarrow> (\<exists>x. map_of (ds_Intents (fs_state fs)) (nf_IntentID f) = Some x \<and>
      fs_state fs' = (fs_state fs)\<lparr>ds_Intents := AList.update (nf_IntentID f) (end_lease (change x)) (ds_Intents (fs_state fs))\<rparr>)
    | Inl _ \<Rightarrow> fs_state fs' = fs_state fs)"
proof -
  consider (early) e where "fs' = fs" "r = Inl e"
    | (late) x where "map_of (ds_Intents (fs_state fs)) (nf_IntentID f) = Some x" "publish enc env fs
      ((fs_state fs)\<lparr>ds_Intents := AList.update (nf_IntentID f) (end_lease (change x)) (ds_Intents (fs_state fs))\<rparr>)
      (cloneIntent num (end_lease (change x))) = (fs', r)"
    using opened_cases [OF assms [unfolded foldIntent_def]] by (auto split: option.splits dest!: guard_cases)
  then show ?thesis
  proof cases
    case (late x)
    then show ?thesis using publish_state [OF late(2)] by (auto split: sum.splits)
  qed simp
qed

lemma updated_keyed:
  assumes "intents_keyed w" and "stored_intent w i = Some x" and "ir_Intent y = ir_Intent x"
    and "fs_state fs = (fs_state (snd w))\<lparr>ds_Intents := AList.update i y (ds_Intents (fs_state (snd w)))\<rparr>"
  shows "intents_keyed (e, fs) \<and> stored_intent (e, fs) = (stored_intent w)(i \<mapsto> y)"
proof -
  have l: "stored_intent (e, fs) = (stored_intent w)(i \<mapsto> y)" using assms(4) by (simp add: stored_intent_def update_conv')
  moreover have "distinct (map fst (ds_Intents (fs_state fs)))" using assms(1,4) by (simp add: intents_keyed_def distinct_update)
  moreover have "di_Identity (ir_Intent r) = k" if "stored_intent (e, fs) k = Some r" for k r
    using assms(1-3) that unfolding l by (auto simp: intents_keyed_def split: if_splits)
  ultimately show ?thesis by (simp add: intents_keyed_def)
qed

lemma unchanged_keyed:
  "fs_state fs = fs_state (snd w) \<Longrightarrow> intents_keyed (e, fs) = intents_keyed w \<and> stored_intent (e, fs) = stored_intent w"
  by (simp add: intents_keyed_def stored_intent_def)

lemma end_lease_intent: "ir_Intent (end_lease (completed_intent t r)) = ir_Intent r" "ir_Intent (end_lease (failed_intent g r)) = ir_Intent r"
  by (simp_all add: end_lease_def completed_intent_def failed_intent_def)

lemma map_of_claim_all:
  assumes "distinct (map fst cs)" and "(k, x) \<in> set cs"
  shows "map_of (claim_all q h cs m) k = Some (claimed_record q h x)"
  using assms unfolding claim_all_def
proof (induction cs arbitrary: m)
  case (Cons c cs)
  have frame: "map_of (fold (\<lambda>c. AList.update (fst c) (claimed_record q h (snd c))) cs m) k = map_of m k" if "k \<notin> fst ` set cs" for cs m
    using that by (induction cs arbitrary: m) (auto simp: update_conv')
  show ?case
  proof (cases "(k, x) \<in> set cs")
    case False
    then have c: "c = (k, x)" using Cons.prems(2) by simp
    then have "k \<notin> fst ` set cs" using Cons.prems(1) by simp
    then show ?thesis using c by (simp add: frame update_conv')
  qed (use Cons in simp)
qed simp

lemma claim_all_distinct: "distinct (map fst m) \<Longrightarrow> distinct (map fst (claim_all q h cs m))"
  unfolding claim_all_def by (induction cs arbitrary: m) (simp_all add: distinct_update)

lemma candidates_distinct:
  assumes "distinct (map fst (ds_Intents s))"
  shows "distinct (map fst (claim_candidates s q))"
proof -
  have p: "distinct (map fst (sort_key f xs))" if "distinct (map fst xs)" for f :: "string \<times> IntentRecord \<Rightarrow> 'k :: linorder" and xs
    using that by (metis distinct_map distinct_sort set_sort)
  have "distinct (map fst (filter (\<lambda>c. claimable q (snd c)) (ds_Intents s)))" using assms by (simp add: distinct_map_filter)
  then show ?thesis unfolding claim_candidates_def take_map [symmetric] by (intro distinct_take p)
qed

lemma claim_keyed:
  assumes "intents_keyed w" and "ClaimIntents num enc env (snd w) q = (fs, Inr cs)"
  shows "intents_keyed (e, fs) \<and> distinct (map intent_identity cs) \<and>
    (\<forall>c \<in> set cs. \<exists>r. stored_intent (e, fs) (intent_identity c) = Some r \<and> ir_Status r = IntentLeased)"
proof -
  let ?s = "fs_state (snd w)"
  let ?cs = "claim_candidates ?s q"
  have d: "distinct (map fst (ds_Intents ?s))" using assms(1) by (simp add: intents_keyed_def)
  obtain h where b: "(if ?cs = [] then (snd w, Inr []) else publish enc env (snd w) (?s\<lparr>ds_Intents := claim_all q h ?cs (ds_Intents ?s)\<rparr>)
      (map (\<lambda>c. \<lparr>ci_Record = cloneIntent num (claimed_record q h (snd c)), ci_LeaseToken = cq_LeaseToken q\<rparr>) ?cs)) = (fs, Inr cs)"
    using opened_cases [OF assms(2) [unfolded ClaimIntents_def]] by (auto dest!: guard_cases bindS_cases)
  show ?thesis
  proof (cases "?cs = []")
    case True
    then show ?thesis using b assms(1) by (auto simp: intents_keyed_def stored_intent_def)
  next
    case False
    have p: "publish enc env (snd w) (?s\<lparr>ds_Intents := claim_all q h ?cs (ds_Intents ?s)\<rparr>)
      (map (\<lambda>c. \<lparr>ci_Record = cloneIntent num (claimed_record q h (snd c)), ci_LeaseToken = cq_LeaseToken q\<rparr>) ?cs) = (fs, Inr cs)"
      using b False by simp
    have f: "fs_state fs = ?s\<lparr>ds_Intents := claim_all q h ?cs (ds_Intents ?s)\<rparr>"
        "cs = map (\<lambda>c. \<lparr>ci_Record = cloneIntent num (claimed_record q h (snd c)), ci_LeaseToken = cq_LeaseToken q\<rparr>) ?cs"
      using publish_state [OF p] by simp_all
    have key: "di_Identity (ir_Intent x) = k" if "(k, x) \<in> set ?cs" for k x
      using candidates_claimable(1) [OF that d] assms(1) by (auto simp: intents_keyed_def stored_intent_def)
    have ids: "map intent_identity cs = map fst ?cs" unfolding f(2)
      by (auto simp: intent_identity_def cloneIntent_def cloneDurableIntent_def claimed_record_def key)
    have l: "stored_intent (e, fs) k = Some (claimed_record q h x)" if "(k, x) \<in> set ?cs" for k x
      using map_of_claim_all [OF candidates_distinct [OF d] that] f(1) by (simp add: stored_intent_def)
    have "di_Identity (ir_Intent r) = k" if "stored_intent (e, fs) k = Some r" for k r
      using claim_all_cases [of q h ?cs "ds_Intents ?s" k r] that f(1) key assms(1)
      by (auto simp: stored_intent_def intents_keyed_def claimed_record_def)
    moreover have "distinct (map fst (claim_all q h ?cs (ds_Intents ?s)))" by (rule claim_all_distinct [OF d])
    ultimately have "intents_keyed (e, fs)" using f(1) by (simp add: intents_keyed_def)
    moreover have "\<exists>r. stored_intent (e, fs) i = Some r \<and> ir_Status r = IntentLeased" if "i \<in> fst ` set ?cs" for i
      using that l by (auto simp: claimed_record_def)
    then have "\<forall>c \<in> set cs. \<exists>r. stored_intent (e, fs) (intent_identity c) = Some r \<and> ir_Status r = IntentLeased"
      using ids by (metis image_set image_eqI)
    ultimately show ?thesis using ids candidates_distinct [OF d] by simp
  qed
qed

interpretation fs: intent_store "filestore_port num enc" stored_intent intents_keyed for num enc
proof
  fix s s' :: store_world and q cs
  assume k: "intents_keyed s" and "ip_ClaimIntents (filestore_port num enc) s q = (s', Inr cs)"
  then obtain fs where fs: "ClaimIntents num enc (fst s 0) (snd s) q = (fs, Inr cs)" "s' = (\<lambda>n. fst s (n + 1), fs)"
    by (auto simp: filestore_port_def with_env_def split: prod.splits)
  show "intents_keyed s' \<and> distinct (map intent_identity cs) \<and>
      (\<forall>c \<in> set cs. \<exists>r. stored_intent s' (intent_identity c) = Some r \<and> ir_Status r = IntentLeased)"
    unfolding fs(2) by (rule claim_keyed [OF k fs(1)])
next
  fix s s' :: store_world and f x
  assume k: "intents_keyed s" and c: "ip_CompleteIntent (filestore_port num enc) s f = (s', Inr x)"
  obtain fs where fs: "foldIntent num enc (fst s 0) (snd s) f (completed_intent (nf_At f)) = (fs, Inr x)" "s' = (\<lambda>n. fst s (n + 1), fs)"
    using c by (auto simp: filestore_port_def with_env_def CompleteIntent_def split: prod.splits)
  obtain r where "stored_intent s (nf_IntentID f) = Some r"
      "fs_state fs = (fs_state (snd s))\<lparr>ds_Intents := AList.update (nf_IntentID f) (end_lease (completed_intent (nf_At f) r)) (ds_Intents (fs_state (snd s)))\<rparr>"
    using foldIntent_state [OF fs(1)] by (auto simp: stored_intent_def)
  then show "intents_keyed s' \<and> (\<exists>r. stored_intent s (nf_IntentID f) = Some r \<and>
      stored_intent s' = (stored_intent s)(nf_IntentID f \<mapsto> end_lease (completed_intent (nf_At f) r)))"
    using updated_keyed [OF k _ end_lease_intent(1)] unfolding fs(2) by blast
next
  fix s s' :: store_world and g x
  assume k: "intents_keyed s" and c: "ip_FailIntent (filestore_port num enc) s g = (s', Inr x)"
  obtain fs where fs: "foldIntent num enc (fst s 0) (snd s) (if_Fence g) (failed_intent g) = (fs, Inr x)" "s' = (\<lambda>n. fst s (n + 1), fs)"
    using c by (auto simp: filestore_port_def with_env_def FailIntent_def split: prod.splits dest!: guard_cases)
  obtain r where "stored_intent s (nf_IntentID (if_Fence g)) = Some r"
      "fs_state fs = (fs_state (snd s))\<lparr>ds_Intents := AList.update (nf_IntentID (if_Fence g)) (end_lease (failed_intent g r)) (ds_Intents (fs_state (snd s)))\<rparr>"
    using foldIntent_state [OF fs(1)] by (auto simp: stored_intent_def)
  then show "intents_keyed s' \<and> (\<exists>r. stored_intent s (nf_IntentID (if_Fence g)) = Some r \<and>
      stored_intent s' = (stored_intent s)(nf_IntentID (if_Fence g) \<mapsto> end_lease (failed_intent g r)))"
    using updated_keyed [OF k _ end_lease_intent(2)] unfolding fs(2) by blast
next
  fix s s' :: store_world and f e
  assume k: "intents_keyed s" and c: "ip_CompleteIntent (filestore_port num enc) s f = (s', Inl e)"
  obtain fs where fs: "foldIntent num enc (fst s 0) (snd s) f (completed_intent (nf_At f)) = (fs, Inl e)" "s' = (\<lambda>n. fst s (n + 1), fs)"
    using c by (auto simp: filestore_port_def with_env_def CompleteIntent_def split: prod.splits)
  then show "intents_keyed s' \<and> stored_intent s' = stored_intent s" using foldIntent_state [OF fs(1)] unchanged_keyed [of fs s] k by simp
next
  fix s s' :: store_world and g e
  assume k: "intents_keyed s" and c: "ip_FailIntent (filestore_port num enc) s g = (s', Inl e)"
  then obtain fs where fs: "s' = (\<lambda>n. fst s (n + 1), fs)" "fs_state fs = fs_state (snd s)"
    by (auto simp: filestore_port_def with_env_def FailIntent_def split: prod.splits dest!: guard_cases foldIntent_state)
  then show "intents_keyed s' \<and> stored_intent s' = stored_intent s" using unchanged_keyed [of fs s] k by simp
qed

section \<open>A pass over the file store\<close>

text \<open>
  C10: the worker does what its handlers say and never guesses. On a file store whose intents are stored
  under their identity, and with handlers that leave existing intents alone, every intent that a pass claims is at its end
  either unchanged, with the lease it was claimed with, or completed, returned for a retry or dead exactly as a well-formed answer of the handler of
  its kind asked, whatever input and output fail on the way. The counts are those of the stored statuses, and they add up to the intents
  that were claimed.
\<close>

theorem worker_settles_as_told:
  assumes "wk_Store w = Some (filestore_port num enc)" and "wk_OwnerRef w \<noteq> []" and "intents_keyed s"
    and "neutral_handlers stored_intent intents_keyed w"
    and "ip_ClaimIntents (filestore_port num enc) s (claim_request w b) = (s1, Inr cs)" and "RunOnce w s b = (s', result, failures)"
  shows "counted stored_intent s' cs result \<and> (\<forall>c \<in> set cs. settled_as_told stored_intent w b s1 s' c)
    \<and> br_Claimed result = br_Completed result + br_Retried result + br_Dead result + br_Left result"
  using fs.run_spec [OF assms(3,4,1,2,5,6)] by blast

text \<open>A store with one pending intent, and a worker whose handler leaves it.\<close>

definition one_pending :: IntentRecord where
  "one_pending = \<lparr>ir_Intent = \<lparr>di_Kind = IntentOutbox, di_Identity = ''i1'', di_AggregateID = ''r1'', di_PayloadDigest = [], di_Payload = []\<rparr>,
     ir_Status = IntentPending, ir_AvailableAt = 5, ir_AttemptCount = 0, ir_LeaseOwner = [], ir_LeaseTokenHash = [], ir_LeaseExpiresAt = None,
     ir_LastFailure = None, ir_CompletedAt = None, ir_Revision = 1\<rparr>"

definition pending_world :: store_world where
  "pending_world = (\<lambda>_. \<lparr>io_ctx = None, io_authority = None, io_append = AppendDone\<rparr>,
     \<lparr>fs_state = emptyState\<lparr>ds_Intents := [(''i1'', one_pending)]\<rparr>, fs_file = [], fs_frameCount = 0, fs_closed = False, fs_poisoned = None\<rparr>)"

definition leaving_worker :: "store_world Worker" where
  "leaving_worker = \<lparr>wk_Store = Some (filestore_port (\<lambda>t. t) (\<lambda>_. Inr ''x'')), wk_OwnerRef = ''w1'',
     wk_Handlers = (\<lambda>_. Some (\<lambda>s c. (s, \<lparr>wrs_Disposition = DispositionLeave, wrs_Failure = None, wrs_AvailableAt = None\<rparr>)))\<rparr>"

definition one_batch :: Batch where
  "one_batch = \<lparr>ba_Kinds = [], ba_LeaseToken = ''tok'', ba_Now = 6, ba_LeaseExpiresAt = 9, ba_Limit = 1\<rparr>"

lemma pending_claimed:
  "\<exists>s1 c. ip_ClaimIntents (filestore_port (\<lambda>t. t) (\<lambda>_. Inr ''x'')) pending_world (claim_request leaving_worker one_batch) = (s1, Inr [c])"
proof -
  let ?q = "claim_request leaving_worker one_batch"
  have q: "ValidIdentifier (cq_OwnerRef ?q)" "cq_Now ?q = 6" "cq_LeaseExpiresAt ?q = 9" "cq_Limit ?q = 1" "cq_Kinds ?q = []" "cq_LeaseToken ?q = ''tok''"
    by (simp_all add: claim_request_def leaving_worker_def one_batch_def) code_simp
  have t: "PrivateTokenDigest ''tok'' = Inr (sha256_text ''tok'')" by (simp add: PrivateTokenDigest_def) code_simp
  have "claimable ?q one_pending" by (simp add: claimable_def q one_pending_def)
  then have c: "claim_candidates (fs_state (snd pending_world)) ?q = [(''i1'', one_pending)]" by (simp add: claim_candidates_def pending_world_def q)
  have f: "checkpoint_frame (\<lambda>_. Inr ''x'') s = Inr (frame_of (string_bytes ''x''))" for s
    by (simp add: checkpoint_frame_def encodeFrame_Inr payload_ok_def string_bytes_def maxFrameBytes_def)
  have a: "append_frame AppendDone [] 0 (frame_of (string_bytes ''x'')) = ((frame_of (string_bytes ''x''), 1), None)"
    by (simp add: append_frame_def shouldCompact_def string_bytes_def maxJournalBytes_def maxEncodedFrameBytes_def retainedFrameBudget_def maxFrameBytes_def)
  have p: "\<exists>fs. publish (\<lambda>_. Inr ''x'') (fst pending_world 0) (snd pending_world) nx ans = (fs, Inr ans)" for nx and ans :: "ClaimedIntent list"
    unfolding publish_def store_append_def f by (simp add: pending_world_def ensureOpen_def a [simplified])
  have o: "io_ctx (fst pending_world 0) = None" "ensureOpen (fst pending_world 0) (snd pending_world) = None"
    by (simp_all add: pending_world_def ensureOpen_def)
  have "ClaimIntents (\<lambda>t. t) (\<lambda>_. Inr ''x'') (fst pending_world 0) (snd pending_world) ?q =
      publish (\<lambda>_. Inr ''x'') (fst pending_world 0) (snd pending_world)
        ((fs_state (snd pending_world))\<lparr>ds_Intents := claim_all ?q (sha256_text ''tok'') [(''i1'', one_pending)] (ds_Intents (fs_state (snd pending_world)))\<rparr>)
        [\<lparr>ci_Record = cloneIntent (\<lambda>t. t) (claimed_record ?q (sha256_text ''tok'') one_pending), ci_LeaseToken = ''tok''\<rparr>]"
    by (simp add: ClaimIntents_def opened_def o guard_def q bindS_def t c)
  then obtain fs where "ClaimIntents (\<lambda>t. t) (\<lambda>_. Inr ''x'') (fst pending_world 0) (snd pending_world) ?q =
      (fs, Inr [\<lparr>ci_Record = cloneIntent (\<lambda>t. t) (claimed_record ?q (sha256_text ''tok'') one_pending), ci_LeaseToken = ''tok''\<rparr>])"
    using p by metis
  then show ?thesis by (simp add: filestore_port_def with_env_def)
qed

theorem worker_settles_as_told_witness:
  "\<exists>c s' result failures. RunOnce leaving_worker pending_world one_batch = (s', result, failures) \<and> br_Claimed result = 1 \<and>
     counted stored_intent s' [c] result"
proof -
  obtain s1 c where c: "ip_ClaimIntents (filestore_port (\<lambda>t. t) (\<lambda>_. Inr ''x'')) pending_world (claim_request leaving_worker one_batch) = (s1, Inr [c])"
    using pending_claimed by blast
  obtain s' result failures where r: "RunOnce leaving_worker pending_world one_batch = (s', result, failures)" by (metis prod_cases3)
  have w: "wk_Store leaving_worker = Some (filestore_port (\<lambda>t. t) (\<lambda>_. Inr ''x''))" "wk_OwnerRef leaving_worker \<noteq> []" "intents_keyed pending_world"
    "neutral_handlers stored_intent intents_keyed leaving_worker"
    by (simp_all add: leaving_worker_def intents_keyed_def stored_intent_def pending_world_def one_pending_def neutral_handlers_def)
  show ?thesis using worker_settles_as_told [OF w c r] r by (auto simp: counted_def)
qed

end
