(* ===== verification/Action_Catalog.thy ===== *)
theory Action_Catalog
  imports Ingress_Policy Node_Protocol Durable_Store
begin

text \<open>
  Package catalog/actioncatalog over the file store: exact Action versions with their workflow definitions, written
  once, bound to the reserved ingress policies of their namespace, and listed in pages. Decoding a stored payload into a
  typed record is the parameter \<open>unmarshal\<close>, for \<^verbatim>\<open>canonicaljson.UnmarshalStrict\<close>.
\<close>

section \<open>Data\<close>

definition catalog_aggregateType :: string where "catalog_aggregateType = ''action-version''"

definition catalog_eventSchemaDigest :: string where
  "catalog_eventSchemaDigest = ''sha256:c4724a26a4e3afa089e6eedaff1f90614fd8ce01da78f036ad26bc26f55c4719''"

definition ErrActionConflict :: error where "ErrActionConflict = Errorf ''exact Action catalog identity conflict''"
definition ErrReservedNamespaceDenied :: error where "ErrReservedNamespaceDenied = Errorf ''reserved Action namespace denied''"

record reservedPolicy =
  rvp_policy :: ReservedIngressPolicy
  rvp_spec :: ReservedIngressPolicySpec

type_synonym Catalog_state = "(string \<times> reservedPolicy list) list"

record Record =
  rec_NamespaceID :: string
  rec_Action :: ActionVersion
  rec_Definition :: WorkflowDefinition
  rec_AdmissionPolicyRef :: string
  rec_AdmissionPolicyDigest :: string
  rec_InstalledAt :: instant
  rec_Revision :: u64

record InstallRequest =
  irq_NamespaceID :: string
  irq_Action :: ActionVersion
  irq_Definition :: WorkflowDefinition
  irq_IngressPermit :: "IngressPermit option"
  irq_CommandID :: string
  irq_At :: instant

record InstallResult =
  irs_Record :: Record
  irs_Replay :: bool

record Metadata =
  md_NamespaceID :: string
  md_Action :: ActionVersion
  md_AdmissionPolicyRef :: string
  md_AdmissionPolicyDigest :: string
  md_InstalledAt :: instant
  md_Revision :: u64

record ListRequest =
  lrq_NamespaceID :: string
  lrq_After :: string
  lrq_Limit :: int

record Page =
  pg_Items :: "Metadata list"
  pg_NextCursor :: string

definition ActionVersion_json :: "ActionVersion \<Rightarrow> json result" where
  "ActionVersion_json a =
     andThen (Schema_json (av_InputSchema a)) (\<lambda>inp.
     andThen (Schema_json (av_ResultSchema a)) (\<lambda>res.
     Inr (JObj ([(''actionId'', JStr (av_ActionID a)), (''version'', JStr (av_Version a)), (''definitionDigest'', JStr (av_DefinitionDigest a)),
       (''entrypoint'', JStr (av_Entrypoint a)), (''inputSchema'', inp), (''resultSchema'', res),
       (''acceptedTriggerKinds'', JArr (map (\<lambda>k. JStr (TriggerKind_string k)) (av_AcceptedTriggerKinds a)))] @
       omitempty (av_RequiredCapabilities a \<noteq> []) ''requiredCapabilities'' (JArr (map JStr (av_RequiredCapabilities a))) @
       omitempty (av_InputSizeLimit a \<noteq> 0) ''inputSizeLimit'' (JNum (decimal_int (av_InputSizeLimit a)))))))"

definition content_fields :: "Record \<Rightarrow> (string \<times> json) list result" where
  "content_fields r =
     andThen (ActionVersion_json (rec_Action r)) (\<lambda>a.
     andThen (WorkflowDefinition_json (rec_Definition r)) (\<lambda>d.
     Inr ([(''namespaceId'', JStr (rec_NamespaceID r)), (''action'', a), (''definition'', d)] @
       omitempty (rec_AdmissionPolicyRef r \<noteq> []) ''admissionPolicyRef'' (JStr (rec_AdmissionPolicyRef r)) @
       omitempty (rec_AdmissionPolicyDigest r \<noteq> []) ''admissionPolicyDigest'' (JStr (rec_AdmissionPolicyDigest r)))))"

definition Record_json :: "Record \<Rightarrow> json result" where
  "Record_json r =
     andThen (content_fields r) (\<lambda>fields.
     andThen (time_json (rec_InstalledAt r)) (\<lambda>t.
     Inr (JObj (fields @ [(''installedAt'', t), (''revision'', JU64 (rec_Revision r))]))))"

definition InstallResult_json :: "InstallResult \<Rightarrow> json result" where
  "InstallResult_json r = andThen (Record_json (irs_Record r)) (\<lambda>j. Inr (JObj [(''record'', j), (''replay'', JBool (irs_Replay r))]))"

section \<open>Configuration\<close>

text \<open>A pointer to a policy is its address with the policy it points to, if it is not nil.\<close>

fun register_policies :: "nat list \<Rightarrow> string list \<Rightarrow> Catalog_state \<Rightarrow> (nat \<times> ReservedIngressPolicy option) list \<Rightarrow> Catalog_state result" where
  "register_policies seenPolicies seenRefs reserved [] = Inr reserved"
| "register_policies seenPolicies seenRefs reserved ((address, policy) # rest) =
     (case (policy, policy_Spec policy) of
        (Some p, Some spec) \<Rightarrow>
          ensure (first_error
            [fail_if (\<not> ValidDigest (policy_Digest policy)) (Errorf ''Action catalog reserved ingress policy is invalid''),
             fail_if (address \<in> set seenPolicies) (Errorf ''Action catalog reserved ingress capability is duplicated''),
             fail_if (ris_PolicyRef spec \<in> set seenRefs) (Errorf ''Action catalog reserved ingress policy ref is duplicated'')])
          (register_policies (address # seenPolicies) (ris_PolicyRef spec # seenRefs)
            (AList.update (ris_NamespaceID spec)
              ((case map_of reserved (ris_NamespaceID spec) of None \<Rightarrow> [] | Some ps \<Rightarrow> ps) @ [\<lparr>rvp_policy = p, rvp_spec = spec\<rparr>]) reserved) rest)
      | _ \<Rightarrow> Inl (Errorf ''Action catalog reserved ingress policy is invalid''))"

definition NewWithConfig :: "(nat \<times> ReservedIngressPolicy option) list \<Rightarrow> Catalog_state result" where
  "NewWithConfig policies = register_policies [] [] [] policies"

definition reserved_policies :: "Catalog_state \<Rightarrow> string \<Rightarrow> reservedPolicy list" where
  "reserved_policies catalog namespaceID = (case map_of catalog namespaceID of None \<Rightarrow> [] | Some ps \<Rightarrow> ps)"

definition accepts_policy :: "ActionVersion \<Rightarrow> reservedPolicy \<Rightarrow> bool" where
  "accepts_policy a p \<longleftrightarrow> list_ex (\<lambda>k. k = ris_TriggerKind (rvp_spec p)) (av_AcceptedTriggerKinds a)"

definition authorizeInstall :: "Catalog_state \<Rightarrow> string \<Rightarrow> ActionVersion \<Rightarrow> IngressPermit option \<Rightarrow> (string \<times> string) result" where
  "authorizeInstall catalog namespaceID version permit =
     (let policies = reserved_policies catalog namespaceID in
      if policies = [] then (if permit \<noteq> None then Inl ErrReservedNamespaceDenied else Inr ([], []))
      else (case find (\<lambda>p. Authorizes (Some (rvp_policy p)) permit) policies of
          None \<Rightarrow> Inl ErrReservedNamespaceDenied
        | Some p \<Rightarrow> if \<not> accepts_policy version p then Inl ErrReservedNamespaceDenied
            else Inr (ris_PolicyRef (rvp_spec p), policy_Digest (Some (rvp_policy p)))))"

section \<open>Exact records\<close>

definition schema_digest :: "Schema \<Rightarrow> string result" where
  "schema_digest s = andThen (Schema_json s) DigestValue"

definition validateExactAction :: "ActionVersion \<Rightarrow> WorkflowDefinition \<Rightarrow> error option" where
  "validateExactAction version d = first_error
     [ValidateVersion version,
      (case Compile d of Inl e \<Rightarrow> Some e
       | Inr plan \<Rightarrow> fail_if (av_ActionID version \<noteq> wd_WorkflowID d \<or> av_Version version \<noteq> wd_Version d \<or>
           av_DefinitionDigest version \<noteq> cp_DefinitionDigest plan) (Errorf ''Action does not pin its exact compiled Workflow'')),
      fail_if (map_of (wd_Entrypoints d) (av_Entrypoint version) = None) (Errorf ''Action entrypoint is absent from its Workflow''),
      (case (schema_digest (av_InputSchema version), schema_digest (wd_InputSchema d), schema_digest (av_ResultSchema version), schema_digest (wd_ResultSchema d)) of
         (Inr inputDigest, Inr definitionInputDigest, Inr resultDigest, Inr definitionResultDigest) \<Rightarrow>
           fail_if (inputDigest \<noteq> definitionInputDigest \<or> resultDigest \<noteq> definitionResultDigest)
             (Errorf ''Action input or result schema differs from its Workflow'')
       | _ \<Rightarrow> Some (Errorf ''Action input or result schema differs from its Workflow''))]"

definition recordKey :: "string \<Rightarrow> ActionRef \<Rightarrow> AggregateKey result" where
  "recordKey namespaceID ref =
     ensure (fail_if (\<not> ValidIdentifier namespaceID \<or> \<not> ValidIdentifier (ar_ActionID ref) \<or> \<not> ValidIdentifier (ar_Version ref) \<or> \<not> ValidDigest (ar_Digest ref))
       (Errorf ''exact Action namespace or ref is invalid''))
     (Inr \<lparr>ak_Type = catalog_aggregateType, ak_ID = ''act-'' @ EncodeToString (Sum256 (string_bytes
       (namespaceID @ [CHR 0x00] @ ar_ActionID ref @ [CHR 0x00] @ ar_Version ref @ [CHR 0x00] @ ar_Digest ref)))\<rparr>)"

definition recordContentDigest :: "Record \<Rightarrow> string result" where
  "recordContentDigest r = andThen (content_fields r) (\<lambda>fields. DigestValue (JObj fields))"

definition decodeRecord :: "(string \<Rightarrow> Record result) \<Rightarrow> AggregateRecord \<Rightarrow> string \<Rightarrow> ActionRef \<Rightarrow> Record result" where
  "decodeRecord unmarshal stored namespaceID ref =
     ensure (fail_if (ak_Type (ag_Key stored) \<noteq> catalog_aggregateType \<or> ag_Revision stored = 0) (Errorf ''durable exact Action record is invalid''))
     (case unmarshal (ag_Payload stored) of
        Inl _ \<Rightarrow> Inl (Errorf ''durable exact Action record is invalid'')
      | Inr r \<Rightarrow>
          ensure (first_error
            [fail_if (recordKey namespaceID ref \<noteq> Inr (ag_Key stored) \<or> rec_NamespaceID r \<noteq> namespaceID \<or>
               \<not> ActionRef_Equal (ActionVersion_Ref (rec_Action r)) ref \<or> rec_Revision r \<noteq> ag_Revision stored \<or> IsZero (rec_InstalledAt r))
               (Errorf ''durable exact Action identity or revision is invalid''),
             validateExactAction (rec_Action r) (rec_Definition r),
             fail_if ((rec_AdmissionPolicyRef r = []) \<noteq> (rec_AdmissionPolicyDigest r = []) \<or>
               (rec_AdmissionPolicyRef r \<noteq> [] \<and> (\<not> ValidIdentifier (rec_AdmissionPolicyRef r) \<or> \<not> ValidDigest (rec_AdmissionPolicyDigest r))))
               (Errorf ''durable exact Action admission policy is invalid'')])
          (Inr r))"

definition current_policy :: "Record \<Rightarrow> reservedPolicy \<Rightarrow> bool" where
  "current_policy r p \<longleftrightarrow> rec_AdmissionPolicyRef r = ris_PolicyRef (rvp_spec p) \<and> rec_AdmissionPolicyDigest r = policy_Digest (Some (rvp_policy p))"

definition decodeCurrentRecord :: "(string \<Rightarrow> Record result) \<Rightarrow> Catalog_state \<Rightarrow> AggregateRecord \<Rightarrow> string \<Rightarrow> ActionRef \<Rightarrow> Record result" where
  "decodeCurrentRecord unmarshal catalog stored namespaceID ref =
     andThen (decodeRecord unmarshal stored namespaceID ref) (\<lambda>r.
     let policies = reserved_policies catalog namespaceID in
     if policies = [] then (if rec_AdmissionPolicyRef r \<noteq> [] \<or> rec_AdmissionPolicyDigest r \<noteq> [] then Inl ErrReservedNamespaceDenied else Inr r)
     else (case find (current_policy r) policies of
         None \<Rightarrow> Inl ErrReservedNamespaceDenied
       | Some p \<Rightarrow> if accepts_policy (rec_Action r) p then Inr r else Inl ErrReservedNamespaceDenied))"

section \<open>Operations\<close>

definition new_record :: "InstallRequest \<Rightarrow> string \<Rightarrow> string \<Rightarrow> Record" where
  "new_record q policyRef policyDigest = \<lparr>rec_NamespaceID = irq_NamespaceID q, rec_Action = irq_Action q, rec_Definition = irq_Definition q,
     rec_AdmissionPolicyRef = policyRef, rec_AdmissionPolicyDigest = policyDigest, rec_InstalledAt = irq_At q, rec_Revision = 1\<rparr>"

definition install_identity :: "InstallRequest \<Rightarrow> string \<Rightarrow> string \<Rightarrow> string \<Rightarrow> json" where
  "install_identity q payloadDigest policyRef policyDigest = JObj
     [(''operation'', JStr ''action.install''), (''namespaceId'', JStr (irq_NamespaceID q)), (''actionRef'', ActionRef_json (ActionVersion_Ref (irq_Action q))),
      (''payloadDigest'', JStr payloadDigest), (''admissionPolicyRef'', JStr policyRef), (''admissionPolicyDigest'', JStr policyDigest)]"

definition install_payload :: "InstallRequest \<Rightarrow> string \<Rightarrow> string \<Rightarrow> (string \<times> json) list" where
  "install_payload q policyRef policyDigest =
     [(''namespaceId'', JStr (irq_NamespaceID q)), (''actionRef'', ActionRef_json (ActionVersion_Ref (irq_Action q))),
      (''definitionDigest'', JStr (av_DefinitionDigest (irq_Action q))), (''admissionPolicyRef'', JStr policyRef),
      (''admissionPolicyDigest'', JStr policyDigest)]"

definition install_event :: "InstallRequest \<Rightarrow> AggregateKey \<Rightarrow> string \<Rightarrow> string \<Rightarrow> DomainEvent result" where
  "install_event q key policyRef policyDigest =
     andThen (DigestValue (JObj (install_payload q policyRef policyDigest))) (\<lambda>eventPayloadDigest.
     andThen (StableEventID (ak_Type key) (ak_ID key) 1) (\<lambda>eventID.
     Inr \<lparr>ev_EventID = eventID, ev_AggregateType = ak_Type key, ev_AggregateID = ak_ID key, ev_AggregateRevision = 1,
       ev_Type = ''action-version.installed'', ev_CommandID = irq_CommandID q, ev_CausationID = [], ev_CorrelationID = [],
       ev_PayloadSchemaDigest = catalog_eventSchemaDigest, ev_PayloadDigest = eventPayloadDigest,
       ev_Payload = install_payload q policyRef policyDigest, ev_OccurredAt = irq_At q\<rparr>))"

definition install_scope :: "InstallRequest \<Rightarrow> AggregateKey \<Rightarrow> string \<Rightarrow> string \<Rightarrow> CommandScope" where
  "install_scope q key policyRef policyDigest = \<lparr>sc_SchemaVersion = CommandScopeSchemaVersion, sc_Operation = ''action.install'',
     sc_NamespaceID = irq_NamespaceID q, sc_ResourceType = ak_Type key, sc_ResourceID = ak_ID key, sc_AuthorityRef = policyRef, sc_AuthorityDigest = policyDigest\<rparr>"

definition install_transaction :: "InstallRequest \<Rightarrow> AggregateKey \<Rightarrow> string \<Rightarrow> string \<Rightarrow> string \<Rightarrow> string \<Rightarrow> Transaction result" where
  "install_transaction q key policyRef policyDigest payload payloadDigest =
     andThen (andThen (InstallResult_json \<lparr>irs_Record = new_record q policyRef policyDigest, irs_Replay = False\<rparr>) Marshal) (\<lambda>outcome.
     andThen (DigestValue (install_identity q payloadDigest policyRef policyDigest)) (\<lambda>identityDigest.
     andThen (install_event q key policyRef policyDigest) (\<lambda>event.
     ensure (CommandScope_Validate (install_scope q key policyRef policyDigest))
     (Inr \<lparr>tx_CommandScope = install_scope q key policyRef policyDigest, tx_CommandID = irq_CommandID q, tx_IdentityDigest = identityDigest,
       tx_Expected = [\<lparr>xr_Key = key, xr_Revision = 0\<rparr>],
       tx_Mutations = [\<lparr>ag_Key = key, ag_Revision = 1, ag_PayloadDigest = payloadDigest, ag_Payload = payload\<rparr>],
       tx_Events = [event], tx_Intents = [], tx_Outcome = outcome, tx_At = irq_At q\<rparr>))))"

text \<open>The answer when a record exists already: the stored one, if its content is the same.\<close>

definition replay_install :: "(string \<Rightarrow> Record result) \<Rightarrow> Catalog_state \<Rightarrow> InstallRequest \<Rightarrow> Record \<Rightarrow> AggregateRecord \<Rightarrow> InstallResult result" where
  "replay_install unmarshal catalog q wanted existing =
     andThen (decodeCurrentRecord unmarshal catalog existing (irq_NamespaceID q) (ActionVersion_Ref (irq_Action q))) (\<lambda>current.
     case (recordContentDigest current, recordContentDigest wanted) of
       (Inr a, Inr b) \<Rightarrow> if a = b then Inr \<lparr>irs_Record = current, irs_Replay = True\<rparr> else Inl ErrActionConflict
     | _ \<Rightarrow> Inl ErrActionConflict)"

text \<open>What is computed before the store is asked: the policy, the key, the record and its canonical text with digest.\<close>

definition prepare_install :: "Catalog_state \<Rightarrow> InstallRequest \<Rightarrow> (string \<times> string \<times> AggregateKey \<times> string \<times> string) result" where
  "prepare_install catalog q =
     ensure (fail_if (\<not> ValidIdentifier (irq_NamespaceID q) \<or> \<not> ValidIdentifier (irq_CommandID q) \<or> IsZero (irq_At q))
       (Errorf ''Action catalog namespace, command, and time are required'')) (
     andThen (authorizeInstall catalog (irq_NamespaceID q) (irq_Action q) (irq_IngressPermit q)) (\<lambda>(policyRef, policyDigest).
     ensure (validateExactAction (irq_Action q) (irq_Definition q)) (
     andThen (recordKey (irq_NamespaceID q) (ActionVersion_Ref (irq_Action q))) (\<lambda>key.
     andThen (andThen (Record_json (new_record q policyRef policyDigest)) Marshal) (\<lambda>payload.
     andThen (Digest payload) (\<lambda>payloadDigest.
     Inr (policyRef, policyDigest, key, payload, payloadDigest)))))))"

definition Install ::
  "(string \<Rightarrow> string) \<Rightarrow> (diskState \<Rightarrow> string result) \<Rightarrow> (string \<Rightarrow> Record result) \<Rightarrow> (string \<Rightarrow> InstallResult result) \<Rightarrow> IoEnv \<Rightarrow> IoEnv \<Rightarrow>
   Catalog_state \<Rightarrow> Store \<Rightarrow> InstallRequest \<Rightarrow> Store \<times> InstallResult result" where
  "Install num enc unmarshal unmarshal_result readEnv writeEnv catalog fs q =
     bindS (prepare_install catalog q) fs (\<lambda>(policyRef, policyDigest, key, payload, payloadDigest).
     case GetAggregate readEnv fs key of
       Inr existing \<Rightarrow> (fs, replay_install unmarshal catalog q (new_record q policyRef policyDigest) existing)
     | Inl e \<Rightarrow>
         if e \<noteq> ErrNotFound then (fs, Inl e)
         else bindS (install_transaction q key policyRef policyDigest payload payloadDigest) fs (\<lambda>tx.
           case Commit num enc writeEnv fs tx of
             (fs', Inl err) \<Rightarrow> (fs', Inl (if err = ErrRevisionConflict StorePkg then ErrActionConflict else err))
           | (fs', Inr committed) \<Rightarrow> (fs',
               if cm_Replay committed then andThen (unmarshal_result (cm_Outcome committed)) (\<lambda>r. Inr (r\<lparr>irs_Replay := True\<rparr>))
               else Inr \<lparr>irs_Record = new_record q policyRef policyDigest, irs_Replay = False\<rparr>)))"

definition catalog_Get :: "(string \<Rightarrow> Record result) \<Rightarrow> IoEnv \<Rightarrow> Catalog_state \<Rightarrow> Store \<Rightarrow> string \<Rightarrow> ActionRef \<Rightarrow> Record result" where
  "catalog_Get unmarshal env catalog fs namespaceID ref =
     andThen (recordKey namespaceID ref) (\<lambda>key.
     andThen (GetAggregate env fs key) (\<lambda>stored.
     decodeCurrentRecord unmarshal catalog stored namespaceID ref))"

definition ResolveAction ::
  "(string \<Rightarrow> Record result) \<Rightarrow> IoEnv \<Rightarrow> Catalog_state \<Rightarrow> Store \<Rightarrow> string \<Rightarrow> ActionRef \<Rightarrow> (ActionVersion \<times> WorkflowDefinition) result" where
  "ResolveAction unmarshal env catalog fs namespaceID ref =
     andThen (catalog_Get unmarshal env catalog fs namespaceID ref) (\<lambda>r. Inr (rec_Action r, rec_Definition r))"

section \<open>Pages\<close>

definition metadata_of :: "Record \<Rightarrow> Metadata" where
  "metadata_of r = \<lparr>md_NamespaceID = rec_NamespaceID r, md_Action = rec_Action r, md_AdmissionPolicyRef = rec_AdmissionPolicyRef r,
     md_AdmissionPolicyDigest = rec_AdmissionPolicyDigest r, md_InstalledAt = rec_InstalledAt r, md_Revision = rec_Revision r\<rparr>"

text \<open>The metadata of one stored record, or nothing when it belongs to another namespace.\<close>

definition list_item :: "(string \<Rightarrow> Record result) \<Rightarrow> Catalog_state \<Rightarrow> string \<Rightarrow> AggregateRecord \<Rightarrow> Metadata option result" where
  "list_item unmarshal catalog namespaceID stored =
     (case unmarshal (ag_Payload stored) of
        Inl _ \<Rightarrow> Inl (Errorf ''durable exact Action record is invalid'')
      | Inr candidate \<Rightarrow>
          if rec_NamespaceID candidate \<noteq> namespaceID then Inr None
          else andThen (decodeCurrentRecord unmarshal catalog stored (rec_NamespaceID candidate) (ActionVersion_Ref (rec_Action candidate)))
            (\<lambda>decoded. Inr (Some (metadata_of decoded))))"

text \<open>The loop over one batch of records: the items and the cursor, and whether the page is full.\<close>

fun scan_records :: "(AggregateRecord \<Rightarrow> Metadata option result) \<Rightarrow> nat \<Rightarrow> Metadata list \<Rightarrow> string \<Rightarrow> AggregateRecord list \<Rightarrow>
    (Metadata list \<times> string \<times> bool) result" where
  "scan_records item limit items cursor [] = Inr (items, cursor, False)"
| "scan_records item limit items cursor (stored # rest) =
     andThen (item stored) (\<lambda>found. case found of
       None \<Rightarrow> scan_records item limit items (ak_ID (ag_Key stored)) rest
     | Some m \<Rightarrow> if length (items @ [m]) = limit then Inr (items @ [m], ak_ID (ag_Key stored), True)
         else scan_records item limit (items @ [m]) (ak_ID (ag_Key stored)) rest)"

definition scan_limit :: "nat \<Rightarrow> nat" where
  "scan_limit remaining = min 1000 (max 100 (remaining * 4))"

text \<open>The loop over batches, with fuel; \<open>None\<close> when it runs out.\<close>

fun list_batches :: "nat \<Rightarrow> (AggregateRecord \<Rightarrow> Metadata option result) \<Rightarrow> (nat \<Rightarrow> IoEnv) \<Rightarrow> Store \<Rightarrow> nat \<Rightarrow> Metadata list \<Rightarrow> string \<Rightarrow> Page result option" where
  "list_batches 0 item envs fs limit items cursor = None"
| "list_batches (Suc n) item envs fs limit items cursor =
     (if length items \<ge> limit then Some (Inr \<lparr>pg_Items = items, pg_NextCursor = []\<rparr>)
      else (case ListAggregates (envs 0) fs catalog_aggregateType cursor (int (scan_limit (limit - length items))) of
          Inl e \<Rightarrow> Some (Inl e)
        | Inr records \<Rightarrow>
            if records = [] then Some (Inr \<lparr>pg_Items = items, pg_NextCursor = []\<rparr>)
            else (case scan_records item limit items cursor records of
                Inl e \<Rightarrow> Some (Inl e)
              | Inr (items', cursor', full) \<Rightarrow>
                  if full then Some (Inr \<lparr>pg_Items = items', pg_NextCursor = cursor'\<rparr>)
                  else if length records < scan_limit (limit - length items) then Some (Inr \<lparr>pg_Items = items', pg_NextCursor = []\<rparr>)
                  else list_batches n item (\<lambda>i. envs (Suc i)) fs limit items' cursor')))"

text \<open>Every batch but the last moves the cursor forward over stored aggregates, so their number bounds the batches.\<close>

definition catalog_List :: "(string \<Rightarrow> Record result) \<Rightarrow> (nat \<Rightarrow> IoEnv) \<Rightarrow> Catalog_state \<Rightarrow> Store \<Rightarrow> ListRequest \<Rightarrow> Page result option" where
  "catalog_List unmarshal envs catalog fs q =
     (if \<not> ValidIdentifier (lrq_NamespaceID q) \<or> lrq_Limit q \<le> 0 \<or> lrq_Limit q > 1000 \<or> (lrq_After q \<noteq> [] \<and> \<not> ValidIdentifier (lrq_After q))
      then Some (Inl (Errorf ''Action catalog namespace, cursor, or limit is invalid''))
      else list_batches (length (ds_Aggregates (fs_state fs)) + 1) (list_item unmarshal catalog (lrq_NamespaceID q)) envs fs
        (nat (lrq_Limit q)) [] (lrq_After q))"

end
