(* ===== verification/Catalog_Claims.thy ===== *)
theory Catalog_Claims
  imports Action_Catalog Durable_Props Workflow_Claims
begin

text \<open>The properties of the action catalogue: what it reads is exact and current, and its pages are a partition.\<close>

section \<open>Reading\<close>

lemma catalog_reads_current:
  assumes "catalog_Get unmarshal env catalog fs namespaceID ref = Inr r"
  shows "rec_NamespaceID r = namespaceID" and "ActionRef_Equal (ActionVersion_Ref (rec_Action r)) ref"
    and "validateExactAction (rec_Action r) (rec_Definition r) = None"
    and "reserved_policies catalog namespaceID = [] \<Longrightarrow> rec_AdmissionPolicyRef r = []"
    and "reserved_policies catalog namespaceID \<noteq> [] \<Longrightarrow>
      \<exists>p \<in> set (reserved_policies catalog namespaceID). current_policy r p \<and> accepts_policy (rec_Action r) p"
proof -
  obtain stored where s: "decodeCurrentRecord unmarshal catalog stored namespaceID ref = Inr r" using assms by (auto simp: catalog_Get_def)
  then have d: "decodeRecord unmarshal stored namespaceID ref = Inr r"
    by (auto simp: decodeCurrentRecord_def Let_def split: if_splits option.splits)
  then have "unmarshal (ag_Payload stored) = Inr r" by (auto simp: decodeRecord_def split: sum.splits)
  then show "rec_NamespaceID r = namespaceID" "ActionRef_Equal (ActionVersion_Ref (rec_Action r)) ref"
      "validateExactAction (rec_Action r) (rec_Definition r) = None"
    using d by (auto simp: decodeRecord_def)
  show "reserved_policies catalog namespaceID = [] \<Longrightarrow> rec_AdmissionPolicyRef r = []"
    using s d by (auto simp: decodeCurrentRecord_def Let_def split: if_splits)
  show "\<exists>p \<in> set (reserved_policies catalog namespaceID). current_policy r p \<and> accepts_policy (rec_Action r) p"
    if "reserved_policies catalog namespaceID \<noteq> []"
    using s d that by (auto simp: decodeCurrentRecord_def Let_def find_Some_iff split: if_splits option.splits)
qed

section \<open>The order of identities\<close>

text \<open>A store that is valid and, as commits enforce, holds aggregates under valid keys only.\<close>

definition aggregates_ok :: "diskState \<Rightarrow> bool" where
  "aggregates_ok s \<longleftrightarrow> entries_ok aggregate_entry_ok (ds_Aggregates s) \<and> (\<forall>kr \<in> set (ds_Aggregates s). validateKey (ag_Key (snd kr)) = None)"

lemma listed_sorted: "sorted (listed_ids s ty c)"
  by (simp add: listed_ids_def)

lemma listed_filter: "c \<le> x \<Longrightarrow> listed_ids s ty x = filter (\<lambda>i. x < i) (listed_ids s ty c)"
  by (auto simp: listed_ids_def filter_sort filter_map comp_def intro!: arg_cong [where f = sort] arg_cong [where f = "map _"] filter_cong)

lemma aggregate_ids:
  assumes "aggregates_ok s" and "i \<in> set (listed_ids s ty c)"
  shows "ag_Key (aggregate_at s ty i) = \<lparr>ak_Type = ty, ak_ID = i\<rparr>" and "ValidIdentifier i" and "c < i"
proof -
  obtain k r where r: "(k, r) \<in> set (ds_Aggregates s)" "ak_Type (ag_Key r) = ty" "ak_ID (ag_Key r) = i" "c < i"
    using assms(2) by (auto simp: listed_ids_def)
  have e: "entries_ok aggregate_entry_ok (ds_Aggregates s)" using assms(1) by (simp add: aggregates_ok_def)
  then have m: "map_of (ds_Aggregates s) k = Some r" using r(1) by (simp add: entries_ok_def)
  then have "aggregate_entry_ok k r" using e by (simp add: entries_ok_def)
  moreover have key: "ag_Key r = \<lparr>ak_Type = ty, ak_ID = i\<rparr>" using r(2,3) by simp
  ultimately have "k = keyString \<lparr>ak_Type = ty, ak_ID = i\<rparr>" by (simp add: aggregate_entry_ok_def)
  moreover have "ValidIdentifier i" using assms(1) r(1,3) by (auto simp: aggregates_ok_def validateKey_def)
  ultimately have k: "k = keyString \<lparr>ak_Type = ty, ak_ID = i\<rparr>" "ValidIdentifier i" by simp_all
  show "ag_Key (aggregate_at s ty i) = \<lparr>ak_Type = ty, ak_ID = i\<rparr>" using m key unfolding k(1) by (simp add: aggregate_at_def)
  show "ValidIdentifier i" "c < i" using k(2) r(4) by simp_all
qed

lemma listed_distinct:
  assumes "aggregates_ok s"
  shows "distinct (listed_ids s ty c)"
proof -
  let ?as = "filter (\<lambda>kr. ak_Type (ag_Key (snd kr)) = ty \<and> ak_ID (ag_Key (snd kr)) > c) (ds_Aggregates s)"
  have e: "entries_ok aggregate_entry_ok (ds_Aggregates s)" using assms by (simp add: aggregates_ok_def)
  then have d: "distinct (map fst ?as)" by (simp add: entries_ok_def distinct_map_filter)
  have "inj_on (\<lambda>kr. ak_ID (ag_Key (snd kr))) (set ?as)"
  proof (rule inj_onI)
    fix x y assume xy: "x \<in> set ?as" "y \<in> set ?as" "ak_ID (ag_Key (snd x)) = ak_ID (ag_Key (snd y))"
    have "fst z = keyString (ag_Key (snd z))" if "z \<in> set ?as" for z
      using e that by (cases z) (auto simp: entries_ok_def aggregate_entry_ok_def)
    then have "fst x = fst y" using xy by (auto simp: keyString_def)
    then show "x = y" using d xy(1,2) by (auto simp: distinct_map dest: inj_onD)
  qed
  then have "distinct (map (\<lambda>kr. ak_ID (ag_Key (snd kr))) ?as)" using d by (simp add: distinct_map)
  then show ?thesis by (simp add: listed_ids_def)
qed

text \<open>Continuing behind an identity of a listing gives the rest of it.\<close>

lemma listed_rest:
  assumes "aggregates_ok s" and "listed_ids s ty c = xs @ x # ys"
  shows "listed_ids s ty x = ys"
proof -
  have s: "sorted (xs @ x # ys)" "distinct (xs @ x # ys)" using listed_sorted [of s ty c] listed_distinct [OF assms(1), of ty c] assms(2) by simp_all
  have "c < x" using aggregate_ids(3) [OF assms(1), of x ty c] assms(2) by simp
  then have "listed_ids s ty x = filter (\<lambda>i. x < i) (xs @ x # ys)" using listed_filter [of c x s ty] assms(2) by simp
  also have "\<dots> = ys"
  proof -
    have "filter (\<lambda>i. x < i) xs = []" using s by (auto simp: sorted_append filter_empty_conv not_less)
    moreover have "filter (\<lambda>i. x < i) ys = ys" using s by (auto simp: sorted_append filter_id_conv order_less_le)
    ultimately show ?thesis by simp
  qed
  finally show ?thesis .
qed

section \<open>Scanning\<close>

definition found_in :: "(AggregateRecord \<Rightarrow> Metadata option result) \<Rightarrow> AggregateRecord \<Rightarrow> (string \<times> Metadata) option" where
  "found_in item r = (case item r of Inr (Some m) \<Rightarrow> Some (ak_ID (ag_Key r), m) | _ \<Rightarrow> None)"

lemma scan_append:
  "scan_records item limit items cursor (xs @ ys) = andThen (scan_records item limit items cursor xs)
     (\<lambda>(items', cursor', full). if full then Inr (items', cursor', full) else scan_records item limit items' cursor' ys)"
proof (induction xs arbitrary: items cursor)
  case (Cons x xs)
  then show ?case by (cases "item x") (auto split: option.splits)
qed simp

lemma scan_open:
  "scan_records item limit items cursor rs = Inr (items', cursor', False) \<Longrightarrow> length items < limit \<Longrightarrow>
   length items' < limit \<and> cursor' = (if rs = [] then cursor else ak_ID (ag_Key (last rs)))"
proof (induction rs arbitrary: items cursor)
  case (Cons r rs)
  obtain f where f: "item r = Inr f" using Cons.prems(1) by auto
  show ?case
  proof (cases f)
    case None
    then show ?thesis using Cons.IH [of items "ak_ID (ag_Key r)"] Cons.prems f by (cases rs) auto
  next
    case (Some m)
    then show ?thesis using Cons.IH [of "items @ [m]" "ak_ID (ag_Key r)"] Cons.prems f by (cases rs) (auto split: if_splits)
  qed
qed simp

lemma scan_spec:
  "\<forall>r \<in> set rs. \<exists>x. item r = Inr x \<Longrightarrow> length items < limit \<Longrightarrow>
   (let f = List.map_filter (found_in item) rs; k = limit - length items in
    if k \<le> length f then scan_records item limit items cursor rs = Inr (items @ map snd (take k f), fst (f ! (k - 1)), True)
    else \<exists>c. scan_records item limit items cursor rs = Inr (items @ map snd f, c, False))"
proof (induction rs arbitrary: items cursor)
  case (Cons r rs)
  obtain x where x: "item r = Inr x" using Cons.prems(1) by auto
  show ?case
  proof (cases x)
    case None
    then have "scan_records item limit items cursor (r # rs) = scan_records item limit items (ak_ID (ag_Key r)) rs"
        "List.map_filter (found_in item) (r # rs) = List.map_filter (found_in item) rs"
      using x by (simp_all add: map_filter_simps found_in_def)
    then show ?thesis using Cons.IH [of items "ak_ID (ag_Key r)"] Cons.prems by (simp only:) simp
  next
    case (Some m)
    show ?thesis
    proof (cases "Suc (length items) = limit")
      case True
      then have "limit - length items = 1" by simp
      then show ?thesis using Some x True by (simp add: map_filter_simps found_in_def Let_def)
    next
      case False
      then have k: "limit - length items = Suc (limit - length (items @ [m]))" "0 < limit - length (items @ [m])" using Cons.prems(2) by simp_all
      have ih: "let f = List.map_filter (found_in item) rs; k = limit - length (items @ [m]) in
          if k \<le> length f then scan_records item limit (items @ [m]) (ak_ID (ag_Key r)) rs = Inr ((items @ [m]) @ map snd (take k f), fst (f ! (k - 1)), True)
          else \<exists>c. scan_records item limit (items @ [m]) (ak_ID (ag_Key r)) rs = Inr ((items @ [m]) @ map snd f, c, False)"
        using Cons.IH [of "items @ [m]" "ak_ID (ag_Key r)"] Cons.prems False by simp
      have step: "scan_records item limit items cursor (r # rs) = scan_records item limit (items @ [m]) (ak_ID (ag_Key r)) rs"
        using x Some False by simp
      have f: "List.map_filter (found_in item) (r # rs) = (ak_ID (ag_Key r), m) # List.map_filter (found_in item) rs"
        using x Some by (simp add: map_filter_simps found_in_def)
      show ?thesis
      proof (cases "limit - length (items @ [m]) \<le> length (List.map_filter (found_in item) rs)")
        case True
        with ih k(2) show ?thesis unfolding step f k(1) Let_def by (simp add: nth_Cons')
      next
        case False
        with ih show ?thesis unfolding step f k(1) Let_def by (simp del: length_append)
      qed
    qed
  qed
qed (simp add: map_filter_simps)

lemma map_filter_nth:
  "j < length (List.map_filter g rs) \<Longrightarrow> \<exists>xs r ys. rs = xs @ r # ys \<and> g r = Some (List.map_filter g rs ! j) \<and>
     List.map_filter g ys = drop (Suc j) (List.map_filter g rs)"
proof (induction rs arbitrary: j)
  case (Cons r rs)
  show ?case
  proof (cases "g r")
    case None
    then have "j < length (List.map_filter g rs)" using Cons.prems by (simp add: map_filter_simps)
    from Cons.IH [OF this] obtain xs r' ys where "rs = xs @ r' # ys" "g r' = Some (List.map_filter g rs ! j)"
        "List.map_filter g ys = drop (Suc j) (List.map_filter g rs)" by blast
    then show ?thesis using None by (intro exI [of _ "r # xs"] exI [of _ r'] exI [of _ ys]) (simp add: map_filter_simps)
  next
    case (Some v)
    show ?thesis
    proof (cases j)
      case 0
      then show ?thesis using Some by (intro exI [of _ "[]"] exI [of _ r] exI [of _ rs]) (simp add: map_filter_simps)
    next
      case (Suc i)
      then have "i < length (List.map_filter g rs)" using Cons.prems Some by (simp add: map_filter_simps)
      from Cons.IH [OF this] obtain xs r' ys where "rs = xs @ r' # ys" "g r' = Some (List.map_filter g rs ! i)"
          "List.map_filter g ys = drop (Suc i) (List.map_filter g rs)" by blast
      then show ?thesis using Some Suc by (intro exI [of _ "r # xs"] exI [of _ r'] exI [of _ ys]) (simp add: map_filter_simps)
    qed
  qed
qed (simp add: map_filter_simps)

section \<open>Batches\<close>

definition page_of :: "(Metadata list \<times> string \<times> bool) result \<Rightarrow> Page result" where
  "page_of r = andThen r (\<lambda>(items, cursor, full). Inr \<lparr>pg_Items = items, pg_NextCursor = (if full then cursor else [])\<rparr>)"

definition reads_open :: "(nat \<Rightarrow> IoEnv) \<Rightarrow> Store \<Rightarrow> bool" where
  "reads_open envs fs \<longleftrightarrow> (\<forall>i. io_ctx (envs i) = None \<and> ensureOpen (envs i) fs = None)"

abbreviation catalog_aggregates :: "diskState \<Rightarrow> string \<Rightarrow> AggregateRecord list" where
  "catalog_aggregates s c \<equiv> map (aggregate_at s catalog_aggregateType) (listed_ids s catalog_aggregateType c)"

text \<open>The batches are invisible: the loop returns what one scan over all records would.\<close>

lemma batches_scan:
  assumes "aggregates_ok (fs_state fs)"
  shows "reads_open envs fs \<Longrightarrow> c = [] \<or> ValidIdentifier c \<Longrightarrow> length items < limit \<Longrightarrow> length (listed_ids (fs_state fs) catalog_aggregateType c) < n \<Longrightarrow>
    list_batches n item envs fs limit items c = Some (page_of (scan_records item limit items c (catalog_aggregates (fs_state fs) c)))"
proof (induction n arbitrary: envs items c)
  case (Suc n)
  let ?L = "listed_ids (fs_state fs) catalog_aggregateType c" and ?k = "scan_limit (limit - length items)"
  let ?a = "aggregate_at (fs_state fs) catalog_aggregateType"
  have k: "1 \<le> ?k" "?k \<le> 1000" by (simp_all add: scan_limit_def)
  have "ValidIdentifier catalog_aggregateType" by code_simp
  then have l: "ListAggregates (envs 0) fs catalog_aggregateType c (int ?k) = Inr (map ?a (take ?k ?L))"
    using Suc.prems(1,2) k by (simp add: ListAggregates_def reads_open_def)
  have all: "map ?a ?L = map ?a (take ?k ?L) @ map ?a (drop ?k ?L)" by (simp only: map_append [symmetric] append_take_drop_id)
  show ?case
  proof (cases "?L = []")
    case True
    then show ?thesis using Suc.prems(3) l by (simp add: page_of_def)
  next
    case False
    then have ne: "take ?k ?L \<noteq> []" using k(1) by simp
    show ?thesis
    proof (cases "scan_records item limit items c (map ?a (take ?k ?L))")
      case (Inl e)
      then show ?thesis using Suc.prems(3) l ne unfolding all scan_append by (simp add: page_of_def)
    next
      case (Inr r)
      obtain items' c' full where r: "r = (items', c', full)" by (cases r) auto
      show ?thesis
      proof (cases full)
        case True
        then show ?thesis using Suc.prems(3) l ne Inr r unfolding all scan_append by (simp add: page_of_def)
      next
        case more: False
        have o: "length items' < limit" "c' = ak_ID (ag_Key (last (map ?a (take ?k ?L))))"
          using scan_open [OF Inr [unfolded r, simplified more] Suc.prems(3)] ne by simp_all
        show ?thesis
        proof (cases "length ?L < ?k")
          case True
          then show ?thesis using Suc.prems(3) l ne Inr r more by (simp add: page_of_def)
        next
          case False
          define x where "x = last (take ?k ?L)"
          have "take ?k ?L = butlast (take ?k ?L) @ [x]" unfolding x_def by (rule append_butlast_last_id [OF ne, symmetric])
          then have split: "?L = butlast (take ?k ?L) @ x # drop ?k ?L" using append_take_drop_id [of ?k ?L] by (metis append.assoc append_Cons append_Nil)
          have "x \<in> set ?L" using split by (metis in_set_conv_decomp)
          then have x: "c' = x" "ValidIdentifier x" using aggregate_ids [OF assms] o(2) ne by (simp_all add: last_map x_def)
          have rest: "listed_ids (fs_state fs) catalog_aggregateType x = drop ?k ?L" by (rule listed_rest [OF assms split])
          have "length (drop ?k ?L) < n" using Suc.prems(4) k(1) False by simp
          moreover have "reads_open (\<lambda>i. envs (Suc i)) fs" using Suc.prems(1) by (simp add: reads_open_def)
          ultimately have "list_batches n item (\<lambda>i. envs (Suc i)) fs limit items' x =
              Some (page_of (scan_records item limit items' x (map ?a (drop ?k ?L))))"
            using Suc.IH [of "\<lambda>i. envs (Suc i)" x items'] o(1) x(2) rest by simp
          then show ?thesis using Suc.prems(3) l ne Inr r more False x(1) unfolding all scan_append by simp
        qed
      qed
    qed
  qed
qed simp

section \<open>Pages\<close>

text \<open>What a catalogue holds for a namespace behind a cursor, in the order of the identities.\<close>

definition catalogued :: "(string \<Rightarrow> Record result) \<Rightarrow> Catalog_state \<Rightarrow> diskState \<Rightarrow> string \<Rightarrow> string \<Rightarrow> (string \<times> Metadata) list" where
  "catalogued unmarshal catalog s namespaceID c = List.map_filter (found_in (list_item unmarshal catalog namespaceID)) (catalog_aggregates s c)"

text \<open>
  C18: the pages of the catalogue are exact. When every catalogue record behind the cursor can be read, a page
  holds the first entries of the namespace behind the cursor, as many as the limit allows, whatever records of other namespaces
  lie between them and however the scan is batched. With a next cursor, the entries behind it are exactly those the page left out;
  without one nothing was left out. So following the cursors visits every entry once.
\<close>

theorem catalog_pages_exact:
  assumes "aggregates_ok (fs_state fs)" and "reads_open envs fs"
    and "ValidIdentifier (lrq_NamespaceID q)" and "0 < lrq_Limit q" and "lrq_Limit q \<le> 1000" and "lrq_After q = [] \<or> ValidIdentifier (lrq_After q)"
    and "\<forall>r \<in> set (catalog_aggregates (fs_state fs) (lrq_After q)). \<exists>x. list_item unmarshal catalog (lrq_NamespaceID q) r = Inr x"
  shows "\<exists>page. catalog_List unmarshal envs catalog fs q = Some (Inr page)
    \<and> pg_Items page = map snd (take (nat (lrq_Limit q)) (catalogued unmarshal catalog (fs_state fs) (lrq_NamespaceID q) (lrq_After q)))
    \<and> (if pg_NextCursor page = []
       then length (catalogued unmarshal catalog (fs_state fs) (lrq_NamespaceID q) (lrq_After q)) < nat (lrq_Limit q)
       else catalogued unmarshal catalog (fs_state fs) (lrq_NamespaceID q) (pg_NextCursor page) =
         drop (nat (lrq_Limit q)) (catalogued unmarshal catalog (fs_state fs) (lrq_NamespaceID q) (lrq_After q)))"
proof -
  let ?s = "fs_state fs" and ?item = "list_item unmarshal catalog (lrq_NamespaceID q)" and ?n = "nat (lrq_Limit q)" and ?c = "lrq_After q"
  let ?L = "listed_ids ?s catalog_aggregateType ?c"
  define f where "f = List.map_filter (found_in ?item) (catalog_aggregates ?s ?c)"
  have f: "catalogued unmarshal catalog ?s (lrq_NamespaceID q) ?c = f" by (simp add: catalogued_def f_def)
  have n: "0 < ?n" using assms(4) by simp
  have "length ?L < length (ds_Aggregates ?s) + 1" by (simp add: listed_ids_def less_Suc_eq_le)
  then have b: "catalog_List unmarshal envs catalog fs q = Some (page_of (scan_records ?item ?n [] ?c (catalog_aggregates ?s ?c)))"
    using batches_scan [OF assms(1,2,6), of "[]" ?n "length (ds_Aggregates ?s) + 1" ?item] assms(3-6) n by (auto simp: catalog_List_def simp del: list_batches.simps)
  note s = scan_spec [OF assms(7), of "[]" ?n ?c, folded f_def, unfolded Let_def]
  show ?thesis
  proof (cases "?n \<le> length f")
    case True
    then have p: "scan_records ?item ?n [] ?c (catalog_aggregates ?s ?c) = Inr (map snd (take ?n f), fst (f ! (?n - 1)), True)" using s n by simp
    have "?n - 1 < length f" "Suc (?n - 1) = ?n" using True n by simp_all
    with map_filter_nth [of "?n - 1" "found_in ?item" "catalog_aggregates ?s ?c", folded f_def]
    obtain xs r ys where r: "catalog_aggregates ?s ?c = xs @ r # ys" "found_in ?item r = Some (f ! (?n - 1))" "List.map_filter (found_in ?item) ys = drop ?n f"
      by (simp only:) blast
    obtain us i vs where i: "?L = us @ i # vs" "r = aggregate_at ?s catalog_aggregateType i" "ys = map (aggregate_at ?s catalog_aggregateType) vs"
      using r(1) by (auto simp: map_eq_append_conv map_eq_Cons_conv)
    have k: "ag_Key r = \<lparr>ak_Type = catalog_aggregateType, ak_ID = i\<rparr>" "ValidIdentifier i"
      using aggregate_ids [OF assms(1), of i catalog_aggregateType ?c] i(1,2) by simp_all
    have cur: "fst (f ! (?n - 1)) = i" using r(2) k(1) by (auto simp: found_in_def split: sum.splits option.splits) (metis fst_conv)
    have "i \<noteq> []" using k(2) by (auto simp: ValidIdentifier_def)
    moreover have "catalogued unmarshal catalog ?s (lrq_NamespaceID q) i = drop ?n f"
      using listed_rest [OF assms(1) i(1)] r(3) i(3) by (simp add: catalogued_def)
    ultimately show ?thesis using b p cur by (simp add: f page_of_def)
  next
    case False
    then obtain c' where "scan_records ?item ?n [] ?c (catalog_aggregates ?s ?c) = Inr (map snd f, c', False)" using s n by auto
    then show ?thesis using b False by (simp add: f page_of_def)
  qed
qed

section \<open>A sample catalogue\<close>

text \<open>One exact action of the namespace \<open>ns\<close>, pinned to a compiled workflow.\<close>

definition pinned_action :: ActionVersion where
  "pinned_action = \<lparr>av_ActionID = ''w'', av_Version = ''v1'', av_DefinitionDigest = cp_DefinitionDigest (projr (Compile sample_workflow)),
     av_Entrypoint = ''m'', av_InputSchema = closed_object [] [], av_ResultSchema = closed_object [] [], av_AcceptedTriggerKinds = [TriggerManual],
     av_RequiredCapabilities = [], av_InputSizeLimit = 0\<rparr>"

definition pinned_record :: Record where
  "pinned_record = \<lparr>rec_NamespaceID = ''ns'', rec_Action = pinned_action, rec_Definition = sample_workflow, rec_AdmissionPolicyRef = [],
     rec_AdmissionPolicyDigest = [], rec_InstalledAt = 5, rec_Revision = 1\<rparr>"

definition pinned_aggregate :: AggregateRecord where
  "pinned_aggregate = \<lparr>ag_Key = projr (recordKey ''ns'' (ActionVersion_Ref pinned_action)), ag_Revision = 1, ag_PayloadDigest = sha256_text ''{}'',
     ag_Payload = ''{}''\<rparr>"

definition catalog_store :: Store where
  "catalog_store = \<lparr>fs_state = emptyState\<lparr>ds_Aggregates := [(keyString (ag_Key pinned_aggregate), pinned_aggregate)]\<rparr>, fs_file = [], fs_frameCount = 0,
     fs_closed = False, fs_poisoned = None\<rparr>"

lemma act_identifier: "list_all is_hex h \<Longrightarrow> length h = 64 \<Longrightarrow> ValidIdentifier (''act-'' @ h)"
  by (auto simp: ValidIdentifier_iff identifierPattern_def identifier_char_def is_hex_def is_letter_def is_digit_def in_range_def list_all_iff)

lemma pinned_valid: "validateExactAction pinned_action sample_workflow = None"
proof -
  obtain plan where p: "Compile sample_workflow = Inr plan" "ValidDigest (cp_DefinitionDigest plan)" using sample_compiles by blast
  have v: "ValidIdentifier ''w''" "ValidIdentifier ''v1''" "ValidIdentifier ''m''" "validateDefinition (closed_object [] []) = None"
      "sch_Type (closed_object [] []) = TypeObject" "\<not> ContainsFormat (closed_object [] []) FormatSecretHandle" "check_trigger_kinds [] [TriggerManual] = None"
    by code_simp+
  obtain j where j: "Schema_json (closed_object [] []) = Inr j" "json_plain j" "json_bound j \<le> 100000" "json_height j \<le> 128"
    by (simp add: closed_object_def omitempty_def JSONType_string_def ascii_def)
  have "ValidateVersion pinned_action = None" using v p by (simp add: ValidateVersion_def validateAction_def pinned_action_def)
  moreover have "schema_digest (closed_object [] []) = Inr (value_of (DigestValue j))" using j digest_known(1) [OF j(2-4)] by (simp add: schema_digest_def)
  ultimately show ?thesis using p by (simp add: validateExactAction_def) (simp add: pinned_action_def sample_workflow_def)
qed

lemma pinned_key:
  "recordKey ''ns'' (ActionVersion_Ref pinned_action) = Inr (ag_Key pinned_aggregate)" "ak_Type (ag_Key pinned_aggregate) = catalog_aggregateType"
  "validateKey (ag_Key pinned_aggregate) = None"
proof -
  obtain plan where p: "Compile sample_workflow = Inr plan" "ValidDigest (cp_DefinitionDigest plan)" using sample_compiles by blast
  have v: "ValidIdentifier ''w''" "ValidIdentifier ''v1''" "ValidIdentifier ''ns''" "ValidIdentifier catalog_aggregateType" by code_simp+
  show k: "recordKey ''ns'' (ActionVersion_Ref pinned_action) = Inr (ag_Key pinned_aggregate)" "ak_Type (ag_Key pinned_aggregate) = catalog_aggregateType"
    using v p by (simp_all add: recordKey_def pinned_aggregate_def ActionVersion_Ref_def pinned_action_def)
  obtain b where "ak_ID (ag_Key pinned_aggregate) = ''act-'' @ EncodeToString (Sum256 b)"
    using arg_cong [OF k(1) [symmetric], of "\<lambda>r. ak_ID (projr r)"] v p by (simp add: recordKey_def ActionVersion_Ref_def pinned_action_def)
  then have "ValidIdentifier (ak_ID (ag_Key pinned_aggregate))" using act_identifier [OF EncodeToString_hex] by simp
  then show "validateKey (ag_Key pinned_aggregate) = None" using v(4) k(2) by (simp add: validateKey_def)
qed

lemma pinned_item: "list_item (\<lambda>_. Inr pinned_record) [] ''ns'' pinned_aggregate = Inr (Some (metadata_of pinned_record))"
proof -
  have r: "rec_NamespaceID pinned_record = ''ns''" "rec_Action pinned_record = pinned_action" "rec_Definition pinned_record = sample_workflow"
    "rec_AdmissionPolicyRef pinned_record = []" "rec_AdmissionPolicyDigest pinned_record = []" "rec_InstalledAt pinned_record = 5"
    "rec_Revision pinned_record = 1" "ag_Revision pinned_aggregate = 1" by (simp_all add: pinned_record_def pinned_aggregate_def)
  have "decodeRecord (\<lambda>_. Inr pinned_record) pinned_aggregate ''ns'' (ActionVersion_Ref pinned_action) = Inr pinned_record"
    by (simp add: decodeRecord_def r pinned_key pinned_valid ActionRef_Equal_def)
  then show ?thesis by (simp add: list_item_def decodeCurrentRecord_def r reserved_policies_def)
qed

lemma catalog_store_ok: "aggregates_ok (fs_state catalog_store)" "catalog_aggregates (fs_state catalog_store) [] = [pinned_aggregate]"
proof -
  have b: "Canonicalize ''{}'' = Inr ''{}''" by code_simp
  have "aggregate_entry_ok (keyString (ag_Key pinned_aggregate)) pinned_aggregate"
    by (simp add: aggregate_entry_ok_def normalizeRaw_def Digest_def pinned_aggregate_def b)
  then show "aggregates_ok (fs_state catalog_store)" using pinned_key(3) by (auto simp: aggregates_ok_def entries_ok_def catalog_store_def)
  have "ak_ID (ag_Key pinned_aggregate) \<noteq> []" using pinned_key(3) by (auto simp: validateKey_def)
  then have n: "[] < ak_ID (ag_Key pinned_aggregate)" by (cases "ak_ID (ag_Key pinned_aggregate)") simp_all
  have k: "keyString \<lparr>ak_Type = catalog_aggregateType, ak_ID = ak_ID (ag_Key pinned_aggregate)\<rparr> = keyString (ag_Key pinned_aggregate)"
    using pinned_key(2) by (simp add: keyString_def)
  show "catalog_aggregates (fs_state catalog_store) [] = [pinned_aggregate]"
    using n pinned_key(2) by (simp add: listed_ids_def catalog_store_def aggregate_at_def k)
qed

theorem catalog_pages_exact_witness:
  "\<exists>page. catalog_List (\<lambda>_. Inr pinned_record) (\<lambda>_. \<lparr>io_ctx = None, io_authority = None, io_append = AppendDone\<rparr>) [] catalog_store
       \<lparr>lrq_NamespaceID = ''ns'', lrq_After = [], lrq_Limit = 1\<rparr> = Some (Inr page)
     \<and> pg_Items page = [metadata_of pinned_record]"
proof -
  have "ValidIdentifier ''ns''" by code_simp
  moreover have "reads_open (\<lambda>_. \<lparr>io_ctx = None, io_authority = None, io_append = AppendDone\<rparr>) catalog_store"
    by (simp add: reads_open_def ensureOpen_def catalog_store_def)
  moreover have "catalogued (\<lambda>_. Inr pinned_record) [] (fs_state catalog_store) ''ns'' [] = [(ak_ID (ag_Key pinned_aggregate), metadata_of pinned_record)]"
    by (simp add: catalogued_def catalog_store_ok(2) found_in_def pinned_item map_filter_simps)
  ultimately show ?thesis
    using catalog_pages_exact [OF catalog_store_ok(1), of _ "\<lparr>lrq_NamespaceID = ''ns'', lrq_After = [], lrq_Limit = 1\<rparr>" "\<lambda>_. Inr pinned_record" "[]"]
      catalog_store_ok(2) pinned_item by simp blast
qed

end
