(* ===== verification/Controller_Routing.thy ===== *)
theory Controller_Routing
  imports Action_Admission Node_Protocol Exec_Identity
begin

text \<open>
  Package controller: the snapshot of a run, the routing of nodes (routing.go) and the checks of a snapshot and of an
  invocation against the pinned workflow and the installed descriptors (controller.go). The maps of a snapshot are
  options, since a snapshot read from the store may hold nil maps.
\<close>

section \<open>Snapshots\<close>

definition RunSnapshotSchemaVersion :: string where "RunSnapshotSchemaVersion = ''xgc.run-snapshot/v3''"

record NodeOutcome =
  oc_Status :: InvocationStatus
  oc_OutputDigest :: string
  oc_Route :: string
  oc_SourcePorts :: "string list"
  oc_Failure :: "StructuredFailure option"

record RetryWaitOccurrence =
  rw_InvocationID :: string
  rw_AttemptOrdinal :: u32
  rw_AvailableAt :: instant

record WaitingOccurrence =
  wo_InvocationID :: string
  wo_WaitGeneration :: u32
  wo_Result :: NodeResult

record ActionCallWait =
  acw_InvocationID :: string
  acw_NodeID :: string
  acw_ChildRunID :: string
  acw_ActionRef :: ActionRef
  acw_MappingDigest :: string
  acw_InputDigest :: string
  acw_TriggerDigest :: string
  acw_ScopeDigest :: string

record RunSnapshot =
  sn_SchemaVersion :: string
  sn_RunID :: string
  sn_Action :: ActionVersion
  sn_Definition :: WorkflowDefinition
  sn_Plan :: CompiledWorkflowPlan
  sn_Entrypoint :: string
  sn_NodeOrder :: "string list"
  sn_Inputs :: payload
  sn_Trigger :: payload
  sn_Scope :: payload
  sn_Provenance :: "InputFieldProvenance list"
  sn_NodeOutputs :: "(string \<times> payload option) list option"
  sn_NodeOutcomes :: "(string \<times> NodeOutcome) list option"
  sn_NextNode :: int
  sn_Waiting :: "WaitingOccurrence option"
  sn_ActionCall :: "ActionCallWait option"
  sn_RetryWait :: "RetryWaitOccurrence option"
  sn_Failure :: "StructuredFailure option"
  sn_Result :: payload
  sn_ResultDigest :: string

definition node_outcome :: "RunSnapshot \<Rightarrow> string \<Rightarrow> NodeOutcome option" where
  "node_outcome s n = map_of (slice (sn_NodeOutcomes s)) n"

text \<open>A missing entry reads as nil.\<close>

definition node_output :: "RunSnapshot \<Rightarrow> string \<Rightarrow> payload option" where
  "node_output s n = (case map_of (slice (sn_NodeOutputs s)) n of None \<Rightarrow> None | Some output \<Rightarrow> output)"

text \<open>The snapshot that an invocation commits with its run.\<close>

definition admitted_snapshot :: "string \<Rightarrow> ActionVersion \<Rightarrow> WorkflowDefinition \<Rightarrow> CompiledWorkflowPlan \<Rightarrow> Admission \<Rightarrow> payload \<Rightarrow> RunSnapshot" where
  "admitted_snapshot runID action d plan admission scope = \<lparr>sn_SchemaVersion = RunSnapshotSchemaVersion, sn_RunID = runID, sn_Action = action,
     sn_Definition = d, sn_Plan = plan, sn_Entrypoint = av_Entrypoint action,
     sn_NodeOrder = (case map_of (cp_EntrypointNodeOrder plan) (av_Entrypoint action) of None \<Rightarrow> [] | Some order \<Rightarrow> order),
     sn_Inputs = adm_Inputs admission, sn_Trigger = slice (te_Payload (adm_Trigger admission)), sn_Scope = scope,
     sn_Provenance = adm_FieldProvenance admission, sn_NodeOutputs = Some [], sn_NodeOutcomes = Some [], sn_NextNode = 0, sn_Waiting = None,
     sn_ActionCall = None, sn_RetryWait = None, sn_Failure = None, sn_Result = [], sn_ResultDigest = []\<rparr>"

section \<open>Routing\<close>

datatype nodeDisposition = nodeBlocked | nodeReady | nodeSkipped

definition outcomePublishesPort :: "NodeOutcome \<Rightarrow> string \<Rightarrow> bool" where
  "outcomePublishesPort outcome port \<longleftrightarrow>
     oc_Status outcome = InvocationSucceeded \<and> (port = ''main'' \<or> port = oc_Route outcome \<or> list_ex (\<lambda>published. published = port) (oc_SourcePorts outcome))"

definition condition_matches :: "EdgeCondition \<Rightarrow> InvocationStatus \<Rightarrow> bool" where
  "condition_matches c status = (case c of
     EdgeSuccess \<Rightarrow> status = InvocationSucceeded
   | EdgeFailure \<Rightarrow> status = InvocationFailed
   | EdgeAlways \<Rightarrow> status = InvocationSucceeded \<or> status = InvocationFailed
   | EdgeConditionOther _ \<Rightarrow> False)"

definition edgeMatches :: "WorkflowEdge \<Rightarrow> NodeOutcome \<Rightarrow> bool" where
  "edgeMatches e outcome =
     (if \<not> condition_matches (we_Condition e) (oc_Status outcome) then False
      else if we_Route e \<noteq> [] \<and> oc_Route outcome \<noteq> we_Route e then False
      else if we_SourcePort e \<noteq> [] \<and> \<not> outcomePublishesPort outcome (we_SourcePort e) then False
      else True)"

fun join_edges :: "RunSnapshot \<Rightarrow> string \<Rightarrow> WorkflowEdge list \<Rightarrow> nodeDisposition" where
  "join_edges s nodeID [] = nodeReady"
| "join_edges s nodeID (e # es) =
     (if we_To e \<noteq> nodeID \<or> we_From e \<notin> set (sn_NodeOrder s) then join_edges s nodeID es
      else (case node_outcome s (we_From e) of
          None \<Rightarrow> nodeBlocked
        | Some outcome \<Rightarrow> if \<not> edgeMatches e outcome then nodeSkipped else join_edges s nodeID es))"

definition currentNodeDisposition :: "RunSnapshot \<Rightarrow> nodeDisposition result" where
  "currentNodeDisposition s =
     (if sn_NextNode s < 0 \<or> sn_NextNode s \<ge> int (length (sn_NodeOrder s)) then Inl (Errorf ''current node position is outside the execution plan'')
      else Inr (join_edges s (sn_NodeOrder s ! nat (sn_NextNode s)) (cp_Edges (sn_Plan s))))"

definition failureHandled :: "RunSnapshot \<Rightarrow> string \<Rightarrow> NodeOutcome \<Rightarrow> bool" where
  "failureHandled s nodeID outcome \<longleftrightarrow> oc_Status outcome = InvocationFailed \<and>
     list_ex (\<lambda>e. we_From e = nodeID \<and> we_To e \<in> set (sn_NodeOrder s) \<and> edgeMatches e outcome) (cp_Edges (sn_Plan s))"

definition requireCurrentNode :: "RunSnapshot \<Rightarrow> string \<Rightarrow> error option" where
  "requireCurrentNode s nodeID = first_error
     [fail_if (sn_NextNode s < 0 \<or> sn_NextNode s \<ge> int (length (sn_NodeOrder s)) \<or> sn_NodeOrder s ! nat (sn_NextNode s) \<noteq> nodeID)
        (Errorf ''node is not the current workflow position''),
      fail_if (node_outcome s nodeID \<noteq> None) (Errorf ''node already has a terminal routing outcome'')]"

text \<open>An assignment to an entry of a nil map panics.\<close>

definition set_entry :: "string \<Rightarrow> 'v \<Rightarrow> (string \<times> 'v) list option \<Rightarrow> (string \<times> 'v) list option result" where
  "set_entry k v m = (case m of None \<Rightarrow> Inl (Panic ''assignment to entry in nil map'') | Some kvs \<Rightarrow> Inr (Some (AList.update k v kvs)))"

definition recordSucceededNode :: "RunSnapshot \<Rightarrow> string \<Rightarrow> NodeResult \<Rightarrow> RunSnapshot result" where
  "recordSucceededNode s nodeID result =
     ensure (requireCurrentNode s nodeID) (
     andThen (set_entry nodeID (nr_Output result) (sn_NodeOutputs s)) (\<lambda>outputs.
     andThen (set_entry nodeID \<lparr>oc_Status = InvocationSucceeded, oc_OutputDigest = nr_OutputDigest result, oc_Route = nr_Route result,
       oc_SourcePorts = nr_SourcePorts result, oc_Failure = None\<rparr> (sn_NodeOutcomes s)) (\<lambda>outcomes.
     Inr (s\<lparr>sn_NodeOutputs := outputs, sn_NodeOutcomes := outcomes, sn_NextNode := sn_NextNode s + 1,
       sn_Waiting := None, sn_ActionCall := None, sn_RetryWait := None\<rparr>))))"

definition failed_outcome :: "StructuredFailure \<Rightarrow> NodeOutcome" where
  "failed_outcome failure = \<lparr>oc_Status = InvocationFailed, oc_OutputDigest = [], oc_Route = [], oc_SourcePorts = [], oc_Failure = Some failure\<rparr>"

definition recordFailedNode :: "RunSnapshot \<Rightarrow> string \<Rightarrow> StructuredFailure \<Rightarrow> (RunSnapshot \<times> bool) result" where
  "recordFailedNode s nodeID failure =
     ensure (requireCurrentNode s nodeID) (
     andThen (set_entry nodeID (failed_outcome failure) (sn_NodeOutcomes s)) (\<lambda>outcomes.
     let s' = s\<lparr>sn_NodeOutcomes := outcomes, sn_NextNode := sn_NextNode s + 1, sn_Waiting := None, sn_ActionCall := None, sn_RetryWait := None\<rparr> in
     Inr (s', failureHandled s' nodeID (failed_outcome failure))))"

definition recordSkippedNode :: "RunSnapshot \<Rightarrow> string \<Rightarrow> RunSnapshot result" where
  "recordSkippedNode s nodeID =
     ensure (requireCurrentNode s nodeID) (
     andThen (set_entry nodeID \<lparr>oc_Status = InvocationSkipped, oc_OutputDigest = [], oc_Route = [], oc_SourcePorts = [], oc_Failure = None\<rparr>
       (sn_NodeOutcomes s)) (\<lambda>outcomes.
     Inr (s\<lparr>sn_NodeOutcomes := outcomes, sn_NextNode := sn_NextNode s + 1\<rparr>)))"

section \<open>Failures\<close>

text \<open>A failure made of an error, whose text is given.\<close>

definition structuredFailure :: "string \<Rightarrow> string \<Rightarrow> StructuredFailure" where
  "structuredFailure code message = \<lparr>fail_Class = FailurePermanent, fail_Code = (if \<not> ValidIdentifier code then ''orchestration.failure'' else code),
     fail_Message = (if length message > 4096 then take 4096 message else message), fail_EvidenceRef = []\<rparr>"

section \<open>Retries\<close>

definition retryPolicy :: "WorkflowNodeDefinition \<Rightarrow> NodeRetryPolicy" where
  "retryPolicy n = (case wn_Retry n of None \<Rightarrow> \<lparr>rp_MaxAttempts = 1, rp_InitialBackoffMillis = 0, rp_MaxBackoffMillis = 0\<rparr> | Some p \<Rightarrow> p)"

text \<open>The loop that doubles the delay, with the number of rounds left.\<close>

fun backoff :: "nat \<Rightarrow> u64 \<Rightarrow> u64 \<Rightarrow> u64" where
  "backoff 0 delay limit = delay"
| "backoff (Suc n) delay limit =
     (if delay < limit then (if delay > limit div 2 then limit else backoff n (delay * 2) limit) else delay)"

text \<open>A duration is a signed number of nanoseconds.\<close>

definition retryDelay :: "NodeRetryPolicy \<Rightarrow> u32 \<Rightarrow> int option" where
  "retryDelay p failedAttempt =
     (if failedAttempt = 0 \<or> failedAttempt \<ge> rp_MaxAttempts p \<or> rp_InitialBackoffMillis p = 0 then None
      else (let delay = backoff (unat failedAttempt - 1) (rp_InitialBackoffMillis p) (rp_MaxBackoffMillis p);
                delay = (if delay > rp_MaxBackoffMillis p then rp_MaxBackoffMillis p else delay) in
        Some (sint (delay * 1000000))))"

section \<open>Checks of a snapshot\<close>

definition CompiledWorkflowPlan_json :: "CompiledWorkflowPlan \<Rightarrow> json" where
  "CompiledWorkflowPlan_json p = JObj [(''workflowId'', JStr (cp_WorkflowID p)), (''version'', JStr (cp_Version p)),
     (''definitionDigest'', JStr (cp_DefinitionDigest p)), (''nodeOrder'', JArr (map JStr (cp_NodeOrder p))),
     (''entrypointNodeOrder'', JObj (map (\<lambda>kv. (fst kv, JArr (map JStr (snd kv)))) (cp_EntrypointNodeOrder p))),
     (''edges'', JArr (map WorkflowEdge_json (cp_Edges p))), (''planDigest'', JStr (cp_PlanDigest p))]"

definition validateNodeOutcome :: "NodeOutcome \<Rightarrow> payload option \<Rightarrow> error option" where
  "validateNodeOutcome outcome output = (case oc_Status outcome of
     InvocationSucceeded \<Rightarrow> first_error
       [fail_if (output = None \<or> \<not> ValidDigest (oc_OutputDigest outcome) \<or> oc_Failure outcome \<noteq> None)
          (Errorf ''succeeded outcome lacks output or carries failure''),
        fail_if (DigestValue (map_json output) \<noteq> Inr (oc_OutputDigest outcome))
          (Errorf ''succeeded outcome output digest differs from its frozen output''),
        fail_if (oc_Route outcome \<noteq> [] \<and> \<not> ValidIdentifier (oc_Route outcome)) (Errorf ''succeeded outcome route is invalid''),
        fail_if (\<not> check_ports (oc_Route outcome) [] (oc_SourcePorts outcome)) (Errorf ''succeeded outcome source ports are invalid'')]
   | InvocationFailed \<Rightarrow> fail_if (output \<noteq> None \<or> oc_OutputDigest outcome \<noteq> [] \<or> oc_Route outcome \<noteq> [] \<or> oc_SourcePorts outcome \<noteq> [] \<or>
       (case oc_Failure outcome of None \<Rightarrow> True
        | Some f \<Rightarrow> \<not> FailureClass_Valid (fail_Class f) \<or> \<not> ValidIdentifier (fail_Code f) \<or> fail_Message f = [] \<or>
            (fail_EvidenceRef f \<noteq> [] \<and> \<not> ValidIdentifier (fail_EvidenceRef f)))) (Errorf ''failed outcome shape is invalid'')
   | InvocationSkipped \<Rightarrow> fail_if (output \<noteq> None \<or> oc_OutputDigest outcome \<noteq> [] \<or> oc_Route outcome \<noteq> [] \<or> oc_SourcePorts outcome \<noteq> [] \<or>
       oc_Failure outcome \<noteq> None) (Errorf ''skipped outcome carries terminal data'')
   | _ \<Rightarrow> Some (Errorf ''node outcome is not terminal''))"

text \<open>The loop over the node order, with the index and the nodes seen.\<close>

fun check_order :: "RunSnapshot \<Rightarrow> int \<Rightarrow> string list \<Rightarrow> string list \<Rightarrow> error option" where
  "check_order s index seen [] = None"
| "check_order s index seen (n # ns) = first_error
     [fail_if (\<not> ValidIdentifier n \<or> n \<in> set seen) (Errorf ''Run snapshot node order is invalid or duplicated''),
      fail_if ((node_outcome s n \<noteq> None) \<noteq> (index < sn_NextNode s)) (Errorf ''Run snapshot outcomes are not an exact node-order prefix''),
      (case node_outcome s n of None \<Rightarrow> None | Some outcome \<Rightarrow> validateNodeOutcome outcome (node_output s n)),
      check_order s (index + 1) (n # seen) ns]"

definition projection_count :: "RunSnapshot \<Rightarrow> nat" where
  "projection_count s = (if sn_Waiting s \<noteq> None then 1 else 0) + (if sn_ActionCall s \<noteq> None then 1 else 0) + (if sn_RetryWait s \<noteq> None then 1 else 0)"

text \<open>The node at the current position, which the callers have checked to lie in the order.\<close>

definition current_node :: "RunSnapshot \<Rightarrow> string" where
  "current_node s = sn_NodeOrder s ! nat (sn_NextNode s)"

definition check_retry_wait :: "RunSnapshot \<Rightarrow> RetryWaitOccurrence \<Rightarrow> error option" where
  "check_retry_wait s w = first_error
     [fail_if (sn_NextNode s \<ge> int (length (sn_NodeOrder s)) \<or> \<not> ValidIdentifier (rw_InvocationID w) \<or> rw_AttemptOrdinal w = 0 \<or>
        IsZero (rw_AvailableAt w)) (Errorf ''Run snapshot retry wait projection is invalid''),
      fail_if (StableInvocationID (sn_RunID s) (current_node s) \<noteq> Inr (rw_InvocationID w))
        (Errorf ''Run snapshot retry wait is not the current node invocation'')]"

definition check_waiting :: "RunSnapshot \<Rightarrow> WaitingOccurrence \<Rightarrow> error option" where
  "check_waiting s w = (let result = wo_Result w in case nr_Wait result of
     None \<Rightarrow> Some (Errorf ''Run snapshot waiting projection is invalid'')
   | Some wait \<Rightarrow> first_error
       [fail_if (sn_ActionCall s \<noteq> None \<or> sn_NextNode s \<ge> int (length (sn_NodeOrder s)) \<or> nr_Status result \<noteq> NodeResultWaiting \<or>
          nr_SchemaVersion result \<noteq> ResultSchemaVersion \<or> \<not> no_output result \<or> nr_Failure result \<noteq> None \<or>
          \<not> NodeWaitKind_Valid (nw_Kind wait) \<or> \<not> ValidIdentifier (nw_SubjectRef wait) \<or> \<not> ValidDigest (nw_ConditionDigest wait) \<or>
          \<not> ValidDigest (nr_EvidenceDigest result) \<or> \<not> ValidIdentifier (wo_InvocationID w) \<or> wo_WaitGeneration w = 0)
          (Errorf ''Run snapshot waiting projection is invalid''),
        fail_if (StableInvocationID (sn_RunID s) (current_node s) \<noteq> Inr (wo_InvocationID w))
          (Errorf ''Run snapshot waiting occurrence is not the current node invocation''),
        validate_wait_effect wait (nr_Effects result)])"

definition plan_pinned :: "RunSnapshot \<Rightarrow> error option" where
  "plan_pinned s = (case Compile (sn_Definition s) of Inl e \<Rightarrow> Some e
   | Inr compiled \<Rightarrow> (case DigestValue (CompiledWorkflowPlan_json compiled) of Inl e \<Rightarrow> Some e
     | Inr digest \<Rightarrow> fail_if (DigestValue (CompiledWorkflowPlan_json (sn_Plan s)) \<noteq> Inr digest)
         (Errorf ''Run snapshot compiled plan differs from its pinned workflow'')))"

definition validateRunSnapshot :: "RunSnapshot \<Rightarrow> error option" where
  "validateRunSnapshot s = first_error
     [fail_if (sn_SchemaVersion s \<noteq> RunSnapshotSchemaVersion \<or> \<not> ValidIdentifier (sn_RunID s) \<or> sn_NextNode s < 0 \<or>
        sn_NextNode s > int (length (sn_NodeOrder s)) \<or> sn_NodeOutputs s = None \<or> sn_NodeOutcomes s = None)
        (Errorf ''Run snapshot schema, identity, or node position is invalid''),
      plan_pinned s,
      fail_if (map_of (cp_EntrypointNodeOrder (sn_Plan s)) (sn_Entrypoint s) \<noteq> Some (sn_NodeOrder s))
        (Errorf ''Run snapshot node order differs from its selected entrypoint plan''),
      fail_if (int (length (slice (sn_NodeOutcomes s))) \<noteq> sn_NextNode s)
        (Errorf ''Run snapshot terminal outcome prefix differs from its node position''),
      check_order s 0 [] (sn_NodeOrder s),
      fail_if (\<not> list_all (\<lambda>kv. case node_outcome s (fst kv) of None \<Rightarrow> False | Some outcome \<Rightarrow> oc_Status outcome = InvocationSucceeded)
        (slice (sn_NodeOutputs s))) (Errorf ''Run snapshot output lacks a succeeded node outcome''),
      fail_if (projection_count s > 1) (Errorf ''Run snapshot contains competing wait projections''),
      (case sn_RetryWait s of None \<Rightarrow> None | Some w \<Rightarrow> check_retry_wait s w),
      (case sn_Waiting s of None \<Rightarrow> None | Some w \<Rightarrow> check_waiting s w)]"

definition validateSnapshotRunState :: "RunSnapshot \<Rightarrow> Run \<Rightarrow> error option" where
  "validateSnapshotRunState s run = first_error
     [fail_if (run_RunID run \<noteq> sn_RunID s) (Errorf ''Run snapshot and Run identities differ''),
      (case run_Status run of
         RunWaiting \<Rightarrow> fail_if (projection_count s \<noteq> 1) (Errorf ''waiting Run requires exactly one ordinary, child Action, or retry wait'')
       | RunStopping \<Rightarrow> None
       | status \<Rightarrow> if status \<in> {RunAccepted, RunQueued, RunRunning}
           then fail_if (projection_count s \<noteq> 0) (Errorf ''active non-waiting Run retains a wait projection'')
           else fail_if (RunStatus_Terminal status \<and> projection_count s \<noteq> 0) (Errorf ''terminal Run retains a wait occurrence''))]"

definition active_attempt :: "InvocationLedger \<Rightarrow> Attempt option" where
  "active_attempt l = find (\<lambda>a. att_AttemptID a = inv_ActiveAttemptID (led_Invocation l)) (led_Attempts l)"

definition findWorkflowNode :: "WorkflowDefinition \<Rightarrow> string \<Rightarrow> WorkflowNodeDefinition option" where
  "findWorkflowNode d nodeID = find (\<lambda>n. wn_NodeID n = nodeID) (wd_Nodes d)"

definition validateSnapshotActionCall :: "RunSnapshot \<Rightarrow> InvocationLedger \<Rightarrow> error option" where
  "validateSnapshotActionCall s l = (let i = led_Invocation l in case sn_ActionCall s of
     None \<Rightarrow> Some (Errorf ''Run snapshot child Action wait differs from its invocation ledger'')
   | Some wait \<Rightarrow> fail_if (sn_NextNode s \<ge> int (length (sn_NodeOrder s)) \<or> inv_RunID i \<noteq> sn_RunID s \<or> inv_NodeID i \<noteq> current_node s \<or>
       inv_InvocationID i \<noteq> acw_InvocationID wait \<or> inv_Status i \<noteq> InvocationWaiting \<or> inv_CurrentWaitRef i \<noteq> acw_ChildRunID wait)
       (Errorf ''Run snapshot child Action wait differs from its invocation ledger''))"

definition validateSnapshotRetryWait :: "RunSnapshot \<Rightarrow> InvocationLedger \<Rightarrow> error option" where
  "validateSnapshotRetryWait s l = (let i = led_Invocation l in case sn_RetryWait s of
     None \<Rightarrow> Some (Errorf ''Run snapshot retry wait differs from its invocation ledger'')
   | Some wait \<Rightarrow> fail_if (sn_NextNode s \<ge> int (length (sn_NodeOrder s)) \<or> inv_RunID i \<noteq> sn_RunID s \<or> inv_NodeID i \<noteq> current_node s \<or>
       inv_InvocationID i \<noteq> rw_InvocationID wait \<or> inv_Status i \<noteq> InvocationRetryWait \<or> inv_ExecutionAttemptCount i \<noteq> rw_AttemptOrdinal wait \<or>
       inv_NextAttemptAt i \<noteq> Some (rw_AvailableAt wait)) (Errorf ''Run snapshot retry wait differs from its invocation ledger''))"

definition validateSnapshotWaitingOccurrence :: "RunSnapshot \<Rightarrow> InvocationLedger \<Rightarrow> error option" where
  "validateSnapshotWaitingOccurrence s l = (let i = led_Invocation l in
     case (case sn_Waiting s of None \<Rightarrow> None | Some w \<Rightarrow> map_option (Pair w) (nr_Wait (wo_Result w))) of
       None \<Rightarrow> Some (Errorf ''Run snapshot has no waiting occurrence'')
     | Some (w, wait) \<Rightarrow> (case active_attempt l of
         None \<Rightarrow> Some (Errorf ''Run snapshot waiting occurrence differs from its invocation ledger'')
       | Some attempt \<Rightarrow> fail_if (inv_RunID i \<noteq> sn_RunID s \<or> inv_NodeID i \<noteq> current_node s \<or> inv_Status i \<noteq> InvocationWaiting \<or>
           inv_InvocationID i \<noteq> wo_InvocationID w \<or> inv_WaitGeneration i \<noteq> wo_WaitGeneration w \<or> inv_CurrentWaitRef i \<noteq> nw_SubjectRef wait \<or>
           att_Status attempt \<noteq> AttemptWaiting) (Errorf ''Run snapshot waiting occurrence differs from its invocation ledger'')))"

section \<open>Pins\<close>

definition schemas_pinned :: "Schema \<Rightarrow> Schema \<Rightarrow> error \<Rightarrow> error option" where
  "schemas_pinned left right e = (case andThen (Schema_json left) DigestValue of Inl err \<Rightarrow> Some err
   | Inr digest \<Rightarrow> fail_if (andThen (Schema_json right) DigestValue \<noteq> Inr digest) e)"

definition validatePinnedAction :: "ActionVersion \<Rightarrow> WorkflowDefinition \<Rightarrow> CompiledWorkflowPlan \<Rightarrow> error option" where
  "validatePinnedAction a d plan = first_error
     [fail_if (av_DefinitionDigest a \<noteq> cp_DefinitionDigest plan \<or> wd_WorkflowID d \<noteq> av_ActionID a \<or> wd_Version d \<noteq> av_Version a)
        (Errorf ''action does not pin the compiled workflow identity and digest''),
      fail_if (map_of (wd_Entrypoints d) (av_Entrypoint a) = None) (Errorf ''action entrypoint is absent from the workflow''),
      schemas_pinned (av_InputSchema a) (wd_InputSchema d) (Errorf ''action and workflow input schemas differ''),
      schemas_pinned (av_ResultSchema a) (wd_ResultSchema d) (Errorf ''action and workflow result schemas differ'')]"

definition validate_pin :: "(string \<times> NodeDescriptor) list \<Rightarrow> WorkflowNodeDefinition \<Rightarrow> error option" where
  "validate_pin descriptors n = (case map_of descriptors (wn_TypeRef n) of
     None \<Rightarrow> Some (Errorf ''workflow node does not pin an installed descriptor'')
   | Some d \<Rightarrow>
       if nd_DescriptorDigest d \<noteq> wn_DescriptorDigest n then Some (Errorf ''workflow node does not pin an installed descriptor'')
       else if nd_SchemaMode d = NodeSchemaCallAction then fail_if (wn_CallAction n = None \<or> sch_Type (wn_InputSchema n) \<noteq> TypeObject \<or>
         sch_Properties (wn_InputSchema n) \<noteq> [] \<or> sch_Required (wn_InputSchema n) \<noteq> [])
         (Errorf ''call-action control descriptor requires an empty occurrence input and an explicit CallAction'')
       else first_error
         [schemas_pinned (wn_InputSchema n) (nd_InputSchema d) (Errorf ''workflow node input schema differs from its descriptor''),
          schemas_pinned (wn_OutputSchema n) (nd_OutputSchema d) (Errorf ''workflow node output schema differs from its descriptor''),
          fail_if (wn_CallAction n \<noteq> None \<and> (nd_Mode d \<noteq> NodeWaiting \<or> nd_Determinism d \<noteq> NodeRecorded \<or> nd_AllowedEffectKinds d \<noteq> [] \<or>
            nd_CompensationTypeRef d \<noteq> [])) (Errorf ''child Action call requires a recorded waiting descriptor without effects or compensation'')])"

definition validateNodePins :: "(string \<times> NodeDescriptor) list \<Rightarrow> WorkflowDefinition \<Rightarrow> error option" where
  "validateNodePins descriptors d = first_error (map (validate_pin descriptors) (wd_Nodes d))"

text \<open>\<^verbatim>\<open>Controller.Compile\<close>.\<close>

definition controller_Compile :: "(string \<times> NodeDescriptor) list \<Rightarrow> WorkflowDefinition \<Rightarrow> CompiledWorkflowPlan result" where
  "controller_Compile descriptors d = andThen (Compile d) (\<lambda>plan. ensure (validateNodePins descriptors d) (Inr plan))"

end
