(* ===== verification/Routing_Claims.thy ===== *)
theory Routing_Claims
  imports Controller_Routing Workflow_Claims
begin

text \<open>
  The properties of the routing of a run: the plan of the compiler never blocks, and retries wait for bounded times.
\<close>

section \<open>Joins\<close>

definition incoming :: "RunSnapshot \<Rightarrow> string \<Rightarrow> WorkflowEdge set" where
  "incoming s n = {e \<in> set (cp_Edges (sn_Plan s)). we_To e = n \<and> we_From e \<in> set (sn_NodeOrder s)}"

lemma join_edges_spec:
  assumes "\<forall>e \<in> set es. we_To e = n \<and> we_From e \<in> set (sn_NodeOrder s) \<longrightarrow> node_outcome s (we_From e) \<noteq> None"
  shows "join_edges s n es \<noteq> nodeBlocked"
    and "join_edges s n es = nodeReady \<longleftrightarrow> (\<forall>e \<in> set es. we_To e = n \<and> we_From e \<in> set (sn_NodeOrder s) \<longrightarrow>
      (\<exists>outcome. node_outcome s (we_From e) = Some outcome \<and> edgeMatches e outcome))"
  using assms by (induction es) (auto split: option.splits)

section \<open>Histories\<close>

text \<open>
  The snapshots of a run: outcomes are recorded one by one; waits, failures and results come and go. A recorded result has passed the
  node protocol, a recorded failure the invocation reducer.
\<close>

definition result_ok :: "NodeResult \<Rightarrow> bool" where
  "result_ok r \<longleftrightarrow> nr_Output r \<noteq> None \<and> DigestValue (map_json (nr_Output r)) = Inr (nr_OutputDigest r) \<and> validateResultRouting (nr_Route r) (nr_SourcePorts r) = None"

inductive routes :: "RunSnapshot \<Rightarrow> RunSnapshot \<Rightarrow> bool" for s where
  start: "routes s s"
| succeeded: "routes s t \<Longrightarrow> result_ok r \<Longrightarrow> recordSucceededNode t n r = Inr u \<Longrightarrow> routes s u"
| failed: "routes s t \<Longrightarrow> validateFailure (Some f) True = None \<Longrightarrow> recordFailedNode t n f = Inr (u, handled) \<Longrightarrow> routes s u"
| skipped: "routes s t \<Longrightarrow> recordSkippedNode t n = Inr u \<Longrightarrow> routes s u"
| projected: "routes s t \<Longrightarrow> routes s (t\<lparr>sn_Waiting := w, sn_ActionCall := c, sn_RetryWait := rw, sn_Failure := f, sn_Result := res, sn_ResultDigest := dg\<rparr>)"

text \<open>What no step changes, and what holds of the recorded outcomes and outputs.\<close>

definition pinned_fields :: "RunSnapshot \<Rightarrow> string \<times> string \<times> WorkflowDefinition \<times> CompiledWorkflowPlan \<times> string \<times> string list" where
  "pinned_fields s = (sn_SchemaVersion s, sn_RunID s, sn_Definition s, sn_Plan s, sn_Entrypoint s, sn_NodeOrder s)"

definition routed_ok :: "RunSnapshot \<Rightarrow> bool" where
  "routed_ok t \<longleftrightarrow> 0 \<le> sn_NextNode t \<and> sn_NextNode t \<le> int (length (sn_NodeOrder t)) \<and> sn_NodeOutcomes t \<noteq> None \<and> sn_NodeOutputs t \<noteq> None \<and>
     distinct (map fst (slice (sn_NodeOutcomes t))) \<and> distinct (map fst (slice (sn_NodeOutputs t))) \<and>
     fst ` set (slice (sn_NodeOutcomes t)) = set (take (nat (sn_NextNode t)) (sn_NodeOrder t)) \<and>
     (\<forall>m. map_of (slice (sn_NodeOutputs t)) m \<noteq> None \<longleftrightarrow> (\<exists>outcome. node_outcome t m = Some outcome \<and> oc_Status outcome = InvocationSucceeded)) \<and>
     (\<forall>m outcome. node_outcome t m = Some outcome \<longrightarrow> validateNodeOutcome outcome (node_output t m) = None)"

lemma slice_Some [simp]: "slice (Some xs) = xs"
  by (simp add: slice_def)

lemma take_next: "requireCurrentNode t n = None \<Longrightarrow> 0 \<le> sn_NextNode t \<Longrightarrow>
    sn_NextNode t < int (length (sn_NodeOrder t)) \<and> set (take (nat (sn_NextNode t + 1)) (sn_NodeOrder t)) = insert n (set (take (nat (sn_NextNode t)) (sn_NodeOrder t)))"
  by (auto simp: requireCurrentNode_def nat_add_distrib take_Suc_conv_app_nth)

lemma updated_names: "fst ` set (AList.update n x oc) = insert n (fst ` set oc)"
  by (simp flip: dom_map_of_conv_image_fst add: update_conv')

lemma recorded_ok:
  assumes "routed_ok t" and "requireCurrentNode t n = None" and "sn_NodeOutcomes t = Some oc" "sn_NodeOutputs t = Some op"
    and "sn_NodeOrder u = sn_NodeOrder t" "sn_NextNode u = sn_NextNode t + 1"
    and "sn_NodeOutcomes u = Some (AList.update n x oc)"
    and "sn_NodeOutputs u = Some (if oc_Status x = InvocationSucceeded then AList.update n y op else op)"
    and "validateNodeOutcome x (if oc_Status x = InvocationSucceeded then y else None) = None"
  shows "routed_ok u"
proof -
  have n: "map_of oc n = None" using assms(2,3) by (simp add: requireCurrentNode_def node_outcome_def)
  have recorded: "map_of (slice (sn_NodeOutputs t)) k \<noteq> None \<longleftrightarrow> (\<exists>outcome. node_outcome t k = Some outcome \<and> oc_Status outcome = InvocationSucceeded)" for k
    using assms(1) unfolding routed_ok_def by blast
  have checked: "node_outcome t k = Some outcome \<Longrightarrow> validateNodeOutcome outcome (node_output t k) = None" for k outcome
    using assms(1) unfolding routed_ok_def by blast
  have m: "map_of op n = None" using recorded [of n] n assms(3,4) by (simp add: node_outcome_def)
  have out: "node_outcome u k = (if k = n then Some x else node_outcome t k)" for k
    using assms(3,7) by (simp add: node_outcome_def update_conv')
  have put: "map_of (slice (sn_NodeOutputs u)) k = (if k = n then (if oc_Status x = InvocationSucceeded then Some y else None) else map_of (slice (sn_NodeOutputs t)) k)" for k
    using assms(4,8) m by (simp add: update_conv')
  then have val: "node_output u k = (if k = n then (if oc_Status x = InvocationSucceeded then y else None) else node_output t k)" for k
    by (simp add: node_output_def)
  note t = take_next [OF assms(2)]
  have "fst ` set (slice (sn_NodeOutcomes u)) = set (take (nat (sn_NextNode u)) (sn_NodeOrder u))"
    using assms(1,3,5-7) t by (simp add: routed_ok_def updated_names)
  moreover have "distinct (map fst (slice (sn_NodeOutcomes u)))" "distinct (map fst (slice (sn_NodeOutputs u)))"
    using assms(1,3,4,7,8) by (simp_all add: routed_ok_def distinct_update)
  moreover have "0 \<le> sn_NextNode u" "sn_NextNode u \<le> int (length (sn_NodeOrder u))" using assms(1,5,6) t by (auto simp: routed_ok_def)
  moreover have "\<forall>k. map_of (slice (sn_NodeOutputs u)) k \<noteq> None \<longleftrightarrow> (\<exists>outcome. node_outcome u k = Some outcome \<and> oc_Status outcome = InvocationSucceeded)"
    using recorded by (simp add: put out)
  moreover have "\<forall>k outcome. node_outcome u k = Some outcome \<longrightarrow> validateNodeOutcome outcome (node_output u k) = None"
    using assms(9) checked by (cases "oc_Status x = InvocationSucceeded") (simp_all add: out val)
  ultimately show ?thesis using assms(7,8) by (simp add: routed_ok_def)
qed

lemma routes_ok:
  assumes "routes s t" and "routed_ok s"
  shows "routed_ok t \<and> pinned_fields t = pinned_fields s"
  using assms(1)
proof induction
  case (succeeded t r n u)
  then obtain oc op where u: "requireCurrentNode t n = None" "sn_NodeOutcomes t = Some oc" "sn_NodeOutputs t = Some op"
      "u = t\<lparr>sn_NodeOutputs := Some (AList.update n (nr_Output r) op), sn_NodeOutcomes := Some (AList.update n \<lparr>oc_Status = InvocationSucceeded,
        oc_OutputDigest = nr_OutputDigest r, oc_Route = nr_Route r, oc_SourcePorts = nr_SourcePorts r, oc_Failure = None\<rparr> oc),
        sn_NextNode := sn_NextNode t + 1, sn_Waiting := None, sn_ActionCall := None, sn_RetryWait := None\<rparr>"
    by (auto simp: recordSucceededNode_def set_entry_def split: option.splits)
  let ?x = "\<lparr>oc_Status = InvocationSucceeded, oc_OutputDigest = nr_OutputDigest r, oc_Route = nr_Route r, oc_SourcePorts = nr_SourcePorts r, oc_Failure = None\<rparr>"
  have v: "validateNodeOutcome ?x (nr_Output r) = None"
    using succeeded.hyps(2) DigestValue_ValidDigest [of "map_json (nr_Output r)" "nr_OutputDigest r"]
    by (simp add: result_ok_def validateNodeOutcome_def validateResultRouting_def)
  have "routed_ok u"
    by (rule recorded_ok [OF conjunct1 [OF succeeded.IH] u(1-3), where x = ?x and y = "nr_Output r"]) (use v in \<open>simp_all add: u(4)\<close>)
  then show ?case using succeeded.IH by (simp add: u(4) pinned_fields_def)
next
  case (failed t f n u handled)
  then obtain oc where u: "requireCurrentNode t n = None" "sn_NodeOutcomes t = Some oc"
      "u = t\<lparr>sn_NodeOutcomes := Some (AList.update n (failed_outcome f) oc), sn_NextNode := sn_NextNode t + 1,
        sn_Waiting := None, sn_ActionCall := None, sn_RetryWait := None\<rparr>"
    by (auto simp: recordFailedNode_def set_entry_def Let_def split: option.splits)
  obtain op where op: "sn_NodeOutputs t = Some op" using failed.IH by (auto simp: routed_ok_def)
  have v: "validateNodeOutcome (failed_outcome f) None = None" "oc_Status (failed_outcome f) \<noteq> InvocationSucceeded"
    using failed.hyps(2)
    by (auto simp: validateFailure_def validateNodeOutcome_def failed_outcome_def validateCanonicalText_def split: if_splits)
  have "routed_ok u"
    by (rule recorded_ok [OF conjunct1 [OF failed.IH] u(1,2) op, where x = "failed_outcome f" and y = None]) (use v in \<open>simp_all add: u(3) op\<close>)
  then show ?case using failed.IH by (simp add: u(3) pinned_fields_def)
next
  case (skipped t n u)
  let ?x = "\<lparr>oc_Status = InvocationSkipped, oc_OutputDigest = [], oc_Route = [], oc_SourcePorts = [], oc_Failure = None\<rparr>"
  obtain oc where u: "requireCurrentNode t n = None" "sn_NodeOutcomes t = Some oc"
      "u = t\<lparr>sn_NodeOutcomes := Some (AList.update n ?x oc), sn_NextNode := sn_NextNode t + 1\<rparr>"
    using skipped.hyps(2) by (auto simp: recordSkippedNode_def set_entry_def split: option.splits)
  obtain op where op: "sn_NodeOutputs t = Some op" using skipped.IH by (auto simp: routed_ok_def)
  have "routed_ok u"
    by (rule recorded_ok [OF conjunct1 [OF skipped.IH] u(1,2) op, where x = ?x and y = None]) (simp_all add: u(3) op validateNodeOutcome_def)
  then show ?case using skipped.IH by (simp add: u(3) pinned_fields_def)
next
  case (projected t dg res f rw c w)
  have "routed_ok (t\<lparr>sn_Waiting := w, sn_ActionCall := c, sn_RetryWait := rw, sn_Failure := f, sn_Result := res, sn_ResultDigest := dg\<rparr>) \<longleftrightarrow> routed_ok t"
    by (simp add: routed_ok_def node_outcome_def node_output_def)
  then show ?case using projected.IH by (simp add: pinned_fields_def)
qed (simp add: assms(2))

lemma admitted_ok: "routed_ok (admitted_snapshot runID action d plan admission scope)"
  by (simp add: routed_ok_def admitted_snapshot_def node_outcome_def)

section \<open>Progress\<close>

lemma filter_prefix:
  assumes "distinct xs" and "k < length (filter P xs)" and "xs ! i = filter P xs ! k" and "i < length xs"
  shows "take k (filter P xs) = filter P (take i xs)"
proof -
  have "xs = take i xs @ (filter P xs ! k) # drop (Suc i) xs" using assms(3,4) by (metis id_take_nth_drop)
  moreover have "P (filter P xs ! k)" using nth_mem [OF assms(2)] by auto
  ultimately have f: "filter P xs = filter P (take i xs) @ (filter P xs ! k) # filter P (drop (Suc i) xs)"
    by (metis (no_types, lifting) filter.simps(2) filter_append)
  then have "filter P xs ! length (filter P (take i xs)) = filter P xs ! k" by (metis nth_append_length)
  moreover have "length (filter P (take i xs)) < length (filter P xs)" using arg_cong [OF f, of length] by simp
  ultimately have "length (filter P (take i xs)) = k" using assms(1,2) nth_eq_iff_index_eq [of "filter P xs"] by simp
  then show ?thesis using f by (metis append_eq_conv_conj)
qed

lemma planned_before:
  assumes "Compile d = Inr plan" and "order = filter P (cp_NodeOrder plan)" and "k < length order" and "dependency d m (order ! k)" and "m \<in> set order"
  shows "m \<in> set (take k order)"
proof -
  note p = compiled_schedule [OF assms(1)]
  have "order ! k \<in> set (cp_NodeOrder plan)" using nth_mem [OF assms(3)] assms(2) by simp
  then obtain i where i: "i < length (cp_NodeOrder plan)" "cp_NodeOrder plan ! i = order ! k" by (auto simp: in_set_conv_nth)
  then have "m \<in> set (take i (cp_NodeOrder plan))" using p(3) assms(4) by (auto simp: placeable_def)
  moreover have "take k order = filter P (take i (cp_NodeOrder plan))" using filter_prefix [OF p(1), of k P i] i assms(2,3) by simp
  ultimately show ?thesis using assms(2,5) by simp
qed

lemma planned_edge:
  assumes "Compile d = Inr plan" and "e \<in> set (cp_Edges plan)"
  shows "dependency d (we_From e) (we_To e)"
  using assms compiled_schedule(5) [OF assms(1)] by (force simp: dependency_def)

lemma entry_order:
  assumes "Compile d = Inr plan" and "map_of (wd_Entrypoints d) name = Some start"
  shows "map_of (cp_EntrypointNodeOrder plan) name = Some (filter ((dependency d)\<^sup>*\<^sup>* start) (cp_NodeOrder plan))"
  using compiled_schedule(6) [OF assms(1)] assms(2) by (simp add: map_of_map)

lemma control_is_dependency: "(control_dependency d)\<^sup>*\<^sup>* a b \<Longrightarrow> (dependency d)\<^sup>*\<^sup>* a b"
  by (erule mono_rtranclp [rule_format, rotated]) (auto simp: control_dependency_def dependency_def)

lemma reaches_walk: "r\<^sup>*\<^sup>* a b \<Longrightarrow> \<exists>p. walk r p \<and> hd p = a \<and> last p = b"
proof (induction rule: rtranclp_induct)
  case base
  then show ?case by (intro exI [of _ "[a]"]) (simp add: walk_def)
next
  case (step b c)
  then obtain p where "walk r p" "hd p = a" "last p = b" by blast
  then show ?case using step.hyps(2) by (intro exI [of _ "p @ [c]"]) (auto simp: walk_def successively_append_iff)
qed

lemma walk_reaches: "walk r p \<Longrightarrow> m \<in> set p \<Longrightarrow> r\<^sup>*\<^sup>* (hd p) m"
proof (induction p)
  case (Cons a p)
  show ?case
  proof (cases p)
    case (Cons b q)
    with Cons.prems Cons.IH have "m = a \<or> (r a b \<and> r\<^sup>*\<^sup>* b m)" by (auto simp: walk_def)
    then show ?thesis by (auto intro: converse_rtranclp_into_rtranclp)
  qed (use Cons.prems in simp)
qed simp

text \<open>A node that the run can reach by control finds the outputs it refers to, provided they flow on success.\<close>

definition flows_on_success :: "WorkflowDefinition \<Rightarrow> string \<Rightarrow> string \<Rightarrow> bool" where
  "flows_on_success d m n \<longleftrightarrow> (\<forall>e \<in> set (slice (wd_Edges d)). we_From e = m \<and> we_To e = n \<and> we_Kind e = EdgeData \<longrightarrow>
     we_Condition (normalize_edge e) = EdgeSuccess)"

lemma references_recorded:
  assumes "Compile d = Inr plan" and t: "routed_ok t" "sn_Plan t = plan" "sn_NodeOrder t = filter ((dependency d)\<^sup>*\<^sup>* start) (cp_NodeOrder plan)"
    and "start \<in> snd ` set (wd_Entrypoints d)"
    and ready: "\<forall>e \<in> incoming t (wn_NodeID n). \<exists>outcome. node_outcome t (we_From e) = Some outcome \<and> edgeMatches e outcome"
    and n: "n \<in> set (wd_Nodes d)" "(control_dependency d)\<^sup>*\<^sup>* start (wn_NodeID n)"
    and b: "b \<in> set (node_bindings n)" "m \<in> set (node_refs (vb_Value b))" and "flows_on_success d m (wn_NodeID n)"
  shows "map_of (slice (sn_NodeOutputs t)) m \<noteq> None"
proof -
  note r = compiled_reference [OF assms(1) n(1) b] and p = compiled_schedule [OF assms(1)]
  obtain e where e: "e \<in> set (slice (wd_Edges d))" "we_From e = m" "we_To e = wn_NodeID n" "we_Kind e = EdgeData"
    using r(1) by (auto simp: data_dependency_def)
  obtain q where q: "walk (control_dependency d) q" "hd q = start" "last q = wn_NodeID n" using reaches_walk [OF n(2)] by blast
  then have "m \<in> set q" using r(2) [of q] assms(5) by simp
  from walk_reaches [OF q(1) this] have "(dependency d)\<^sup>*\<^sup>* start m" using q(2) control_is_dependency by simp
  moreover have "dependency d m (wn_NodeID n)" using e by (auto simp: dependency_def)
  then have "m \<in> node_ids d" using compiled_edge_nodes [OF assms(1)] by blast
  ultimately have "m \<in> set (sn_NodeOrder t)" using t(3) p(2) by simp
  then have "normalize_edge e \<in> incoming t (wn_NodeID n)" using e p(5) t(2) by (simp add: incoming_def)
  then obtain outcome where o: "node_outcome t m = Some outcome" "edgeMatches (normalize_edge e) outcome" using ready e(2) by force
  moreover have "we_Condition (normalize_edge e) = EdgeSuccess" using assms(11) e by (auto simp: flows_on_success_def)
  ultimately have "oc_Status outcome = InvocationSucceeded" by (auto simp: edgeMatches_def condition_matches_def split: if_splits)
  then show ?thesis using t(1) o(1) by (auto simp: routed_ok_def)
qed

text \<open>
  C31: a run over a compiled plan is never stuck in its routing. Whatever outcomes are recorded and in whatever waits the run has been, the
  recorded outcomes belong to exactly the nodes before the current position, once each. The current node is
  never blocked: it is ready exactly when every edge into it from a node of the same entrypoint matches the outcome of
  its source, and skipped otherwise. When a ready node lies on a control path from the entrypoint, every output its bindings
  refer to over data edges that flow on success has been recorded.
\<close>

theorem routing_never_stuck:
  assumes "Compile d = Inr plan" and "map_of (wd_Entrypoints d) (av_Entrypoint action) = Some start"
    and "routes (admitted_snapshot runID action d plan admission scope) t"
  shows "distinct (map fst (slice (sn_NodeOutcomes t))) \<and> fst ` set (slice (sn_NodeOutcomes t)) = set (take (nat (sn_NextNode t)) (sn_NodeOrder t))
    \<and> (sn_NextNode t < int (length (sn_NodeOrder t)) \<longrightarrow>
        (\<exists>x. currentNodeDisposition t = Inr x \<and> x \<noteq> nodeBlocked
         \<and> (x = nodeReady \<longleftrightarrow> (\<forall>e \<in> incoming t (current_node t). \<exists>outcome. node_outcome t (we_From e) = Some outcome \<and> edgeMatches e outcome))
         \<and> (x = nodeReady \<longrightarrow> (\<forall>n \<in> set (wd_Nodes d). wn_NodeID n = current_node t \<and> (control_dependency d)\<^sup>*\<^sup>* start (current_node t) \<longrightarrow>
              (\<forall>b \<in> set (node_bindings n). \<forall>m \<in> set (node_refs (vb_Value b)). flows_on_success d m (current_node t) \<longrightarrow>
                 map_of (slice (sn_NodeOutputs t)) m \<noteq> None)))))"
proof -
  let ?s = "admitted_snapshot runID action d plan admission scope"
  have r: "routed_ok t \<and> pinned_fields t = pinned_fields ?s" by (rule routes_ok [OF assms(3) admitted_ok])
  then have ok: "routed_ok t" and f: "sn_Plan t = plan" "sn_NodeOrder t = filter ((dependency d)\<^sup>*\<^sup>* start) (cp_NodeOrder plan)"
    using entry_order [OF assms(1,2)] by (simp_all add: pinned_fields_def admitted_snapshot_def)
  have start: "start \<in> snd ` set (wd_Entrypoints d)" using map_of_SomeD [OF assms(2)] by force
  have "\<exists>x. currentNodeDisposition t = Inr x \<and> x \<noteq> nodeBlocked
         \<and> (x = nodeReady \<longleftrightarrow> (\<forall>e \<in> incoming t (current_node t). \<exists>outcome. node_outcome t (we_From e) = Some outcome \<and> edgeMatches e outcome))"
    if k: "sn_NextNode t < int (length (sn_NodeOrder t))"
  proof -
    have n: "0 \<le> sn_NextNode t" "nat (sn_NextNode t) < length (sn_NodeOrder t)" using ok k by (auto simp: routed_ok_def)
    have "node_outcome t (we_From e) \<noteq> None" if "e \<in> set (cp_Edges plan)" "we_To e = current_node t" "we_From e \<in> set (sn_NodeOrder t)" for e
    proof -
      have "we_From e \<in> set (take (nat (sn_NextNode t)) (sn_NodeOrder t))"
        using planned_before [OF assms(1) f(2) n(2)] planned_edge [OF assms(1) that(1)] that(2,3) by (simp add: current_node_def)
      then show ?thesis using ok by (auto simp: routed_ok_def node_outcome_def map_of_eq_None_iff)
    qed
    then show ?thesis using join_edges_spec [of "cp_Edges plan" "current_node t" t] n k
      by (auto simp: currentNodeDisposition_def current_node_def incoming_def f(1))
  qed
  moreover have "map_of (slice (sn_NodeOutputs t)) m \<noteq> None"
    if "\<forall>e \<in> incoming t (current_node t). \<exists>outcome. node_outcome t (we_From e) = Some outcome \<and> edgeMatches e outcome"
      and "n \<in> set (wd_Nodes d)" and "wn_NodeID n = current_node t" and "(control_dependency d)\<^sup>*\<^sup>* start (current_node t)"
      and "b \<in> set (node_bindings n)" and "m \<in> set (node_refs (vb_Value b))" and "flows_on_success d m (current_node t)" for n b m
    using references_recorded [OF assms(1) ok f start, of n b m] that by simp
  moreover have "distinct (map fst (slice (sn_NodeOutcomes t)))" "fst ` set (slice (sn_NodeOutcomes t)) = set (take (nat (sn_NextNode t)) (sn_NodeOrder t))"
    using ok by (simp_all add: routed_ok_def)
  ultimately show ?thesis by metis
qed

section \<open>Snapshots stay readable\<close>

lemma node_names:
  assumes "Compile d = Inr plan" and "n \<in> node_ids d"
  shows "ValidIdentifier n"
proof -
  obtain nodes where "indexNodes (wd_Nodes d) = Inr nodes" by (rule compile_stages [OF assms(1)])
  then show ?thesis using index_nodes_facts [of "[]" "wd_Nodes d" nodes] assms(2) by (auto simp: indexNodes_def node_ids_def split: if_splits)
qed

lemma check_order_None:
  assumes "distinct ns" and "set ns \<inter> set seen = {}" and "\<forall>n \<in> set ns. ValidIdentifier n"
    and "\<forall>j < length ns. node_outcome s (ns ! j) \<noteq> None \<longleftrightarrow> index + int j < sn_NextNode s"
    and "\<forall>n outcome. node_outcome s n = Some outcome \<longrightarrow> validateNodeOutcome outcome (node_output s n) = None"
  shows "check_order s index seen ns = None"
  using assms(1-4)
proof (induction ns arbitrary: index seen)
  case (Cons n ns)
  have "node_outcome s n \<noteq> None \<longleftrightarrow> index < sn_NextNode s" using Cons.prems(4) by force
  moreover have "node_outcome s (ns ! j) \<noteq> None \<longleftrightarrow> (index + 1) + int j < sn_NextNode s" if "j < length ns" for j
    using Cons.prems(4) [rule_format, of "Suc j"] that by (simp add: algebra_simps)
  then have "check_order s (index + 1) (n # seen) ns = None" using Cons.prems by (intro Cons.IH) auto
  ultimately show ?case using Cons.prems assms(5) by (auto split: option.splits)
qed simp

text \<open>
  C22: the controller can always read back the snapshots it writes. Along every history of a run over a compiled plan the snapshot
  passes all checks on its identity, its plan, its position and its outcomes and outputs, so it is valid whenever the wait it projects is.
\<close>

theorem snapshots_stay_readable:
  assumes "Compile d = Inr plan" and "map_of (wd_Entrypoints d) (av_Entrypoint action) = Some start"
    and "ValidIdentifier runID" and "DigestValue (CompiledWorkflowPlan_json plan) = Inr digest"
    and "routes (admitted_snapshot runID action d plan admission scope) t"
  shows "validateRunSnapshot t = first_error
    [fail_if (projection_count t > 1) (Errorf ''Run snapshot contains competing wait projections''),
     (case sn_RetryWait t of None \<Rightarrow> None | Some w \<Rightarrow> check_retry_wait t w),
     (case sn_Waiting t of None \<Rightarrow> None | Some w \<Rightarrow> check_waiting t w)]"
proof -
  let ?s = "admitted_snapshot runID action d plan admission scope"
  have "routed_ok t \<and> pinned_fields t = pinned_fields ?s" by (rule routes_ok [OF assms(5) admitted_ok])
  then have ok: "routed_ok t" and f: "sn_SchemaVersion t = RunSnapshotSchemaVersion" "sn_RunID t = runID" "sn_Definition t = d" "sn_Plan t = plan"
      "sn_Entrypoint t = av_Entrypoint action" "sn_NodeOrder t = filter ((dependency d)\<^sup>*\<^sup>* start) (cp_NodeOrder plan)"
    using entry_order [OF assms(1,2)] by (simp_all add: pinned_fields_def admitted_snapshot_def)
  note p = compiled_schedule [OF assms(1)]
  obtain k where k: "sn_NextNode t = int k" "k \<le> length (sn_NodeOrder t)" using ok by (auto simp: routed_ok_def intro: that [of "nat (sn_NextNode t)"])
  obtain oc op where m: "sn_NodeOutcomes t = Some oc" "sn_NodeOutputs t = Some op" using ok by (auto simp: routed_ok_def)
  have oc: "distinct (map fst oc)" "fst ` set oc = set (take k (sn_NodeOrder t))" "distinct (map fst op)" using ok k(1) m by (simp_all add: routed_ok_def)
  have dist: "distinct (sn_NodeOrder t)" using p(1) f(6) by simp
  have "length oc = card (set (take k (sn_NodeOrder t)))" using distinct_card [OF oc(1)] oc(2) by simp
  then have len: "length oc = k" using distinct_card [of "take k (sn_NodeOrder t)"] dist k(2) by simp
  have names: "\<forall>n \<in> set (sn_NodeOrder t). ValidIdentifier n" using node_names [OF assms(1)] p(2) f(6) by simp
  have pos: "node_outcome t (sn_NodeOrder t ! j) \<noteq> None \<longleftrightarrow> 0 + int j < sn_NextNode t" if "j < length (sn_NodeOrder t)" for j
  proof -
    have "node_outcome t (sn_NodeOrder t ! j) \<noteq> None \<longleftrightarrow> sn_NodeOrder t ! j \<in> set (take k (sn_NodeOrder t))"
      using oc(2) m(1) by (simp add: node_outcome_def map_of_eq_None_iff del: not_None_eq)
    also have "\<dots> \<longleftrightarrow> j < k" using that k(2) dist by (auto simp: in_set_conv_nth nth_eq_iff_index_eq)
    finally show ?thesis using k(1) by simp
  qed
  have valid: "\<forall>n outcome. node_outcome t n = Some outcome \<longrightarrow> validateNodeOutcome outcome (node_output t n) = None"
    using ok unfolding routed_ok_def by blast
  have order: "check_order t 0 [] (sn_NodeOrder t) = None" using check_order_None [OF dist _ names _ valid, of "[]" 0] pos by simp
  have outs: "case node_outcome t (fst kv) of None \<Rightarrow> False | Some outcome \<Rightarrow> oc_Status outcome = InvocationSucceeded" if "kv \<in> set op" for kv
  proof -
    have "map_of (slice (sn_NodeOutputs t)) (fst kv) \<noteq> None" using that m(2) by (simp add: map_of_eq_None_iff del: not_None_eq)
    then obtain outcome where "node_outcome t (fst kv) = Some outcome" "oc_Status outcome = InvocationSucceeded" using ok unfolding routed_ok_def by blast
    then show ?thesis by simp
  qed
  have "plan_pinned t = None" using assms(1,4) f(3,4) by (simp add: plan_pinned_def)
  moreover have "list_all (\<lambda>kv. case node_outcome t (fst kv) of None \<Rightarrow> False | Some outcome \<Rightarrow> oc_Status outcome = InvocationSucceeded) op"
    using outs by (auto simp: list_all_iff)
  ultimately show ?thesis
    using assms(3) f entry_order [OF assms(1,2)] k m len order unfolding validateRunSnapshot_def by simp
qed

section \<open>Retries\<close>

lemma backoff_spec: "delay \<le> limit \<Longrightarrow> unat (backoff n delay limit) = min (unat delay * 2 ^ n) (unat limit)"
proof (induction n arbitrary: delay)
  case 0
  then show ?case by (simp add: word_le_nat_alt)
next
  case (Suc n)
  have l: "unat delay \<le> unat limit" using Suc.prems by (simp add: word_le_nat_alt)
  have pw: "(2 :: nat) * 1 \<le> 2 * 2 ^ n" by simp
  consider "delay = limit" | "delay < limit" "delay > limit div 2" | "delay < limit" "delay \<le> limit div 2" using Suc.prems by force
  then show ?case
  proof cases
    case 1
    then show ?thesis by simp
  next
    case 2
    then have "unat limit div 2 < unat delay" by (simp add: word_less_nat_alt unat_div)
    then have "unat limit \<le> unat delay * 2" by linarith
    also have "\<dots> \<le> unat delay * 2 ^ Suc n" using pw by simp
    finally show ?thesis using 2 by simp
  next
    case 3
    then have "unat delay \<le> unat limit div 2" by (simp add: word_le_nat_alt unat_div)
    then have d: "unat delay * 2 \<le> unat limit" by linarith
    then have "unat (delay * 2) = unat delay * 2" using unsigned_less [of limit, where 'a = nat] by (subst unat_mult_lem [THEN iffD1]) auto
    moreover from this d have "delay * 2 \<le> limit" by (simp add: word_le_nat_alt)
    moreover have "\<not> delay > limit div 2" using 3(2) by simp
    ultimately show ?thesis using 3(1) Suc.IH [of "delay * 2"] by (simp add: mult.assoc)
  qed
qed

text \<open>The delays of a validated policy double from the initial one up to the largest, and never exceed a day.\<close>

lemma retries_bounded:
  assumes "validateRetryPolicy (Some p) = None" and "0 < k" and "k < rp_MaxAttempts p"
  shows "retryDelay p k = Some (int (min (unat (rp_InitialBackoffMillis p) * 2 ^ (unat k - 1)) (unat (rp_MaxBackoffMillis p))) * 1000000)"
    and "0 < unat (rp_InitialBackoffMillis p)" and "int (unat (rp_MaxBackoffMillis p)) * 1000000 \<le> 86400000000000"
proof -
  have m: "rp_MaxAttempts p > 1" using assms(2,3) by (simp add: word_less_nat_alt)
  then have v: "rp_InitialBackoffMillis p \<noteq> 0" "rp_InitialBackoffMillis p \<le> rp_MaxBackoffMillis p" "rp_MaxBackoffMillis p \<le> maxRetryBackoffMillis"
    using assms(1) by (auto simp: validateRetryPolicy_def)
  show "0 < unat (rp_InitialBackoffMillis p)" using v(1) by (simp add: unat_gt_0)
  have lim: "unat (rp_MaxBackoffMillis p) \<le> 86400000" using v(3) by (simp add: word_le_nat_alt maxRetryBackoffMillis_def)
  then show "int (unat (rp_MaxBackoffMillis p)) * 1000000 \<le> 86400000000000" by linarith
  define b where "b = backoff (unat k - 1) (rp_InitialBackoffMillis p) (rp_MaxBackoffMillis p)"
  have b: "unat b = min (unat (rp_InitialBackoffMillis p) * 2 ^ (unat k - 1)) (unat (rp_MaxBackoffMillis p))"
    unfolding b_def by (rule backoff_spec [OF v(2)])
  then have le: "\<not> b > rp_MaxBackoffMillis p" by (simp add: word_less_nat_alt)
  have "unat b \<le> 86400000" using b lim by simp
  then have u: "unat (b * 1000000) = unat b * 1000000" by (subst unat_mult_lem [THEN iffD1]) auto
  then have "uint (b * 1000000) = int (unat b * 1000000)" by (simp only: uint_nat)
  moreover have "signed_take_bit 63 (int c) = int c" if "c \<le> 86400000000000" for c
    using that by (intro signed_take_bit_int_eq_self) simp_all
  from this [of "unat b * 1000000"] have "signed_take_bit 63 (int (unat b * 1000000)) = int (unat b * 1000000)"
    using \<open>unat b \<le> 86400000\<close> by (rule meta_mp) simp
  ultimately have "sint (b * 1000000) = int (unat b * 1000000)" by (simp only: sint_uint) simp
  moreover have "k \<noteq> 0" "\<not> rp_MaxAttempts p \<le> k" using assms(2,3) by auto
  ultimately show "retryDelay p k = Some (int (min (unat (rp_InitialBackoffMillis p) * 2 ^ (unat k - 1)) (unat (rp_MaxBackoffMillis p))) * 1000000)"
    using v(1) le b unfolding retryDelay_def b_def [symmetric] Let_def by simp
qed

section \<open>A sample run\<close>

definition routed_action :: ActionVersion where
  "routed_action = \<lparr>av_ActionID = ''w'', av_Version = ''v1'', av_DefinitionDigest = [], av_Entrypoint = ''m'', av_InputSchema = closed_object [] [],
     av_ResultSchema = closed_object [] [], av_AcceptedTriggerKinds = [TriggerManual], av_RequiredCapabilities = [], av_InputSizeLimit = 0\<rparr>"

definition routed_admission :: Admission where
  "routed_admission = \<lparr>adm_ActionRef = ActionVersion_Ref routed_action, adm_Trigger = \<lparr>te_EventID = ''e'', te_Kind = TriggerManual, te_Version = ''v1'',
     te_OccurredAt = 5, te_ReceivedAt = 5, te_SourceRef = ''s'', te_ActorRef = ''u'', te_SubjectRef = [], te_PayloadSchemaDigest = [], te_Payload = Some [],
     te_RawArtifactRef = [], te_VerificationReceiptRef = []\<rparr>, adm_TriggerDigest = [], adm_Inputs = [], adm_CanonicalInputs = ''{}'', adm_InputDigest = [],
     adm_PresetRef = [], adm_PresetDigest = [], adm_FieldProvenance = []\<rparr>"

definition routed_result :: NodeResult where
  "routed_result = \<lparr>nr_SchemaVersion = ResultSchemaVersion, nr_Status = NodeResultSucceeded, nr_Output = Some [(''y'', JNum ''1'')],
     nr_OutputDigest = value_of (DigestValue (JObj [(''y'', JNum ''1'')])), nr_OutputArtifactRef = [], nr_Route = [], nr_SourcePorts = [], nr_Effects = [],
     nr_Wait = None, nr_Failure = None, nr_EvidenceDigest = []\<rparr>"

abbreviation first_snapshot :: "WorkflowDefinition \<Rightarrow> CompiledWorkflowPlan \<Rightarrow> RunSnapshot" where
  "first_snapshot d plan \<equiv> admitted_snapshot ''run-1'' routed_action d plan routed_admission []"

lemma routed_result_ok: "result_ok routed_result"
  using digest_known(1) [of "JObj [(''y'', JNum ''1'')]"]
  by (simp add: result_ok_def routed_result_def map_json_def validateResultRouting_def ascii_def int_part_def decimalDigits_def is_digit_def in_range_def)

lemma first_recorded:
  assumes "cp_EntrypointNodeOrder plan = [(''m'', [''a'', ''b''])]"
  shows "\<exists>u. recordSucceededNode (first_snapshot d plan) ''a'' routed_result = Inr u \<and> sn_NextNode u = 1 \<and> sn_NodeOrder u = [''a'', ''b''] \<and>
      sn_Waiting u = None \<and> sn_RetryWait u = None \<and> sn_ActionCall u = None"
    and "\<exists>u h. recordFailedNode (first_snapshot d plan) ''a'' f = Inr (u, h) \<and> sn_NextNode u = 1 \<and> sn_NodeOrder u = [''a'', ''b''] \<and>
      sn_NodeOutputs u = Some [] \<and> sn_NodeOutcomes u = Some [(''a'', failed_outcome f)] \<and> sn_Plan u = plan"
  using assms by (simp_all add: recordSucceededNode_def recordFailedNode_def requireCurrentNode_def set_entry_def admitted_snapshot_def routed_action_def
      node_outcome_def Let_def)

theorem routing_never_stuck_witness:
  "\<exists>plan u x. Compile sample_workflow = Inr plan \<and> recordSucceededNode (first_snapshot sample_workflow plan) ''a'' routed_result = Inr u \<and>
     currentNodeDisposition u = Inr x \<and> x \<noteq> nodeBlocked"
proof -
  obtain plan where p: "Compile sample_workflow = Inr plan" "cp_EntrypointNodeOrder plan = [(''m'', [''a'', ''b''])]" using sample_compiles by blast
  obtain u where u: "recordSucceededNode (first_snapshot sample_workflow plan) ''a'' routed_result = Inr u" "sn_NextNode u = 1" "sn_NodeOrder u = [''a'', ''b'']"
    using first_recorded(1) [OF p(2)] by blast
  have "routes (first_snapshot sample_workflow plan) u" by (rule routes.succeeded [OF routes.start routed_result_ok u(1)])
  moreover have "map_of (wd_Entrypoints sample_workflow) (av_Entrypoint routed_action) = Some ''a''" by (simp add: sample_workflow_def routed_action_def)
  ultimately have "\<exists>x. currentNodeDisposition u = Inr x \<and> x \<noteq> nodeBlocked" using routing_never_stuck [OF p(1)] u(2,3) by fastforce
  then show ?thesis using p(1) u(1) by blast
qed

lemma sample_plan_digest:
  assumes "Compile sample_workflow = Inr plan"
  shows "\<exists>x. DigestValue (CompiledWorkflowPlan_json plan) = Inr x"
proof -
  obtain x y where s: "plan = \<lparr>cp_WorkflowID = ''w'', cp_Version = ''v1'', cp_DefinitionDigest = x, cp_NodeOrder = [''a'', ''b''],
     cp_EntrypointNodeOrder = [(''m'', [''a'', ''b''])], cp_Edges = map normalize_edge [sample_edge EdgeControl, sample_edge EdgeData],
     cp_PlanDigest = y\<rparr>" "ValidDigest x" "ValidDigest y"
    using sample_plan_sealed assms by auto
  have "DigestValue (CompiledWorkflowPlan_json plan) = Inr (value_of (DigestValue (CompiledWorkflowPlan_json plan)))"
    using ValidDigest_text [OF s(2)] ValidDigest_text [OF s(3)]
    by (intro digest_known(1)) (simp_all add: s(1) CompiledWorkflowPlan_json_def plan_texts sample_edge_def)
  then show ?thesis by blast
qed

theorem snapshots_stay_readable_witness:
  "\<exists>plan u. Compile sample_workflow = Inr plan \<and> recordSucceededNode (first_snapshot sample_workflow plan) ''a'' routed_result = Inr u \<and>
     validateRunSnapshot u = None"
proof -
  obtain plan where p: "Compile sample_workflow = Inr plan" "cp_EntrypointNodeOrder plan = [(''m'', [''a'', ''b''])]" using sample_compiles by blast
  obtain u where u: "recordSucceededNode (first_snapshot sample_workflow plan) ''a'' routed_result = Inr u"
      "sn_Waiting u = None" "sn_RetryWait u = None" "sn_ActionCall u = None"
    using first_recorded(1) [OF p(2)] by blast
  obtain x where x: "DigestValue (CompiledWorkflowPlan_json plan) = Inr x" using sample_plan_digest [OF p(1)] by blast
  have "routes (first_snapshot sample_workflow plan) u" by (rule routes.succeeded [OF routes.start routed_result_ok u(1)])
  moreover have "map_of (wd_Entrypoints sample_workflow) (av_Entrypoint routed_action) = Some ''a''" by (simp add: sample_workflow_def routed_action_def)
  moreover have "ValidIdentifier ''run-1''" by (simp add: text_eval)
  ultimately have "validateRunSnapshot u = None" using snapshots_stay_readable [OF p(1) _ _ x] u(2-4) by (simp add: projection_count_def)
  then show ?thesis using p(1) u(1) by blast
qed

section \<open>What the compiler lets through\<close>

text \<open>
  A data edge may carry the condition always. Its target is then ready after the source has failed, although the output it
  refers to does not exist: the compiler accepts the definition and the run fails when it resolves the inputs.
\<close>

definition lenient_workflow :: WorkflowDefinition where
  "lenient_workflow = sample_workflow\<lparr>wd_Edges := Some [(sample_edge EdgeData)\<lparr>we_Condition := EdgeAlways\<rparr>, (sample_edge EdgeControl)\<lparr>we_Condition := EdgeAlways\<rparr>]\<rparr>"

lemma lenient_checks:
  "case compile_checks lenient_workflow of Inl _ \<Rightarrow> False | Inr (s, order) \<Rightarrow> order = [''a'', ''b''] \<and>
     gs_edges s = [(sample_edge EdgeControl)\<lparr>we_Condition := EdgeAlways\<rparr>, (sample_edge EdgeData)\<lparr>we_Condition := EdgeAlways\<rparr>] \<and>
     entrypoint_orders lenient_workflow (gs_graph s) order = [(''m'', [''a'', ''b''])]"
  by code_simp

lemma lenient_definition:
  "case WorkflowDefinition_json lenient_workflow of Inl _ \<Rightarrow> False | Inr j \<Rightarrow> json_plain j \<and> json_bound j \<le> 100000 \<and> json_height j \<le> 128"
  by (simp add: WorkflowDefinition_json_def WorkflowNodeDefinition_json_def WorkflowEdge_json_def bindings_json_def ValueBinding_json_def named_def
      lenient_workflow_def sample_workflow_def sample_node_def sample_edge_def sample_digest_text closed_object_def type_schema_def omitempty_def
      JSONType_string_def EdgeKind_string_def EdgeCondition_string_def workflow_SchemaVersion_def ascii_def)

lemma lenient_compiles:
  "\<exists>plan. Compile lenient_workflow = Inr plan \<and> cp_EntrypointNodeOrder plan = [(''m'', [''a'', ''b''])]"
proof -
  obtain s where s: "compile_checks lenient_workflow = Inr (s, [''a'', ''b''])"
      "gs_edges s = [(sample_edge EdgeControl)\<lparr>we_Condition := EdgeAlways\<rparr>, (sample_edge EdgeData)\<lparr>we_Condition := EdgeAlways\<rparr>]"
      "entrypoint_orders lenient_workflow (gs_graph s) [''a'', ''b''] = [(''m'', [''a'', ''b''])]"
    using lenient_checks by (auto split: sum.splits prod.splits)
  obtain j where j: "WorkflowDefinition_json lenient_workflow = Inr j" "json_plain j" "json_bound j \<le> 100000" "json_height j \<le> 128"
    using lenient_definition by (auto split: sum.splits)
  have "wd_WorkflowID lenient_workflow = ''w''" "wd_Version lenient_workflow = ''v1''" by (simp_all add: lenient_workflow_def sample_workflow_def)
  then have "\<exists>x y. Compile lenient_workflow = Inr ((draft_plan lenient_workflow s [''a'', ''b''] x)\<lparr>cp_PlanDigest := y\<rparr>) \<and> ValidDigest x \<and> ValidDigest y"
    by (intro sealed_compiles [OF s(1) j]) (simp_all add: draft_plan_def plan_texts s(2,3) sample_edge_def)
  then show ?thesis by (auto simp: draft_plan_def s(3))
qed

theorem compiled_reference_missing:
  "\<exists>plan u h. Compile lenient_workflow = Inr plan \<and> recordFailedNode (first_snapshot lenient_workflow plan) ''a'' f = Inr (u, h) \<and>
     currentNodeDisposition u = Inr nodeReady \<and> current_node u = ''b'' \<and>
     (\<exists>n \<in> set (wd_Nodes lenient_workflow). wn_NodeID n = ''b'' \<and> (\<exists>b \<in> set (node_bindings n). ''a'' \<in> set (node_refs (vb_Value b)))) \<and>
     map_of (slice (sn_NodeOutputs u)) ''a'' = None"
proof -
  obtain plan where p: "Compile lenient_workflow = Inr plan" "cp_EntrypointNodeOrder plan = [(''m'', [''a'', ''b''])]" using lenient_compiles by blast
  obtain u h where u: "recordFailedNode (first_snapshot lenient_workflow plan) ''a'' f = Inr (u, h)" "sn_NextNode u = 1" "sn_NodeOrder u = [''a'', ''b'']"
      "sn_NodeOutputs u = Some []" "sn_NodeOutcomes u = Some [(''a'', failed_outcome f)]" "sn_Plan u = plan"
    using first_recorded(2) [OF p(2)] by blast
  have "join_edges u ''b'' es = nodeReady" if "\<forall>e \<in> set es. we_From e = ''a'' \<and> we_Condition e = EdgeAlways \<and> we_Route e = [] \<and> we_SourcePort e = []" for es
    using that by (induction es) (auto simp: node_outcome_def u(5) edgeMatches_def condition_matches_def failed_outcome_def)
  moreover have "\<forall>e \<in> set (cp_Edges plan). we_From e = ''a'' \<and> we_Condition e = EdgeAlways \<and> we_Route e = [] \<and> we_SourcePort e = []"
    using compiled_schedule(5) [OF p(1)] by (simp add: lenient_workflow_def sample_edge_def normalize_edge_def EdgeCondition_string_def)
  ultimately have "currentNodeDisposition u = Inr nodeReady" by (simp add: currentNodeDisposition_def u)
  moreover have "wd_Nodes lenient_workflow = wd_Nodes sample_workflow" by (simp add: lenient_workflow_def)
  ultimately show ?thesis using p(1) u sample_reference by (simp add: current_node_def)
qed

text \<open>A failure made of an error text that ends in a newline is refused by every reducer.\<close>

lemma untrimmed_failure_refused: "validateFailure (Some (structuredFailure ''node.execute'' (CHR ''x'' # [CHR 0x0A]))) True \<noteq> None"
  by code_simp

end
