(* ===== verification/Spec2Isabelle.thy ===== *)
theory Spec2Isabelle
  imports Json_Content Invocation_Claims Effect_Claims Runtime_Claims Ownership_Claims Durable_Valid Expression_Claims Workflow_Claims Resolve_Claims Action_Claims Node_Claims Ingress_Policy Worker_Claims Catalog_Claims Routing_Claims
begin

text \<open>
  A verification library for xgc2-orchestration-core: the deterministic kernel of an orchestrator
  (canonical JSON, the reducers of runs, invocations, effects and runtime bindings, the ownership
  closure that lets a run end, value expressions, the workflow compiler and its resolution of inputs, action admission,
  the node protocol), the durable store that the controller commits to, the worker that drains its
  intents, the catalogue of actions kept in it, and the routing of the controller.

  \<^bold>\<open>The program and its parts.\<close> The kernel is pure: a reducer takes an aggregate and a
  command with explicit revisions, leases and instants, validates both, and returns the next aggregate with its domain
  events and durable intents, or an error. The controller loads aggregates from the
  store, calls a reducer and commits its result together with the command identity; workers claim intents
  from the store and drive providers. Digests of canonical JSON tie the aggregates to their content.

  \<^bold>\<open>Theories and sources.\<close>
  \<^item> Prelude: errors as values, the result type with its two sequencing operators (ensure runs a
    validator first, andThen passes a value on), lists of checks, and shared lemmas.
  \<^item> Go_Text, Sha256, Canonical_Json: kernel/canonicaljson (Decode, Canonicalize, Marshal,
    Digest), with SHA-256 and the text functions of the standard library. Json_Roundtrip, Json_Soundness,
    Json_Content and Json_Payload: the decoder accepts exactly the texts within the limits, canonical bytes are a
    fixed point and decide equality of content, in which numbers are rationals and objects finite maps (C4 to C6).
  \<^item> Contracts, Exec_Identity, Run_Reducer: sdk/go/contracts (identity.go, execution.go, action.go in
    part) and kernel/execution (identity.go, event.go, run.go): AdmitRun and TransitionRun (C1 to C3, C7).
  \<^item> Invocation_Reducer, Invocation_Props, Invocation_Claims: kernel/execution/invocation.go, activation
    and the ten reducers of an invocation ledger (C8, C9, C11 to C13).
  \<^item> Effect_Contracts, Effect_Reducer, Effect_Props, Effect_Claims: contracts/effect.go and
    kernel/effect/effect.go (C14, C15, C17, C20).
  \<^item> Runtime_Reducer, Runtime_Props, Runtime_Claims: contracts/runtime.go and kernel/runtime (C21, C23, C24, C27).
  \<^item> Ownership_Closure, Ownership_Claims: contracts/ownership.go and kernel/ownership/closure.go, with
    Run_Reducer, Effect_Reducer and Runtime_Reducer as the aggregates it counts (C28 to C30).
  \<^item> Journal_Frame, Journal_Props, Durable_Store, Durable_Props, Durable_Runs, Durable_Crash, Durable_Claims, Durable_Valid:
    durable/store/store.go and durable/filestore/filestore.go: the logical state of the
    store and its operations, the frame codec, recovery, appending and compaction (C32 to C37).
  \<^item> Value_Schema, Expression_Check, Expression_Eval, Decimal_Props, Expression_Props, Expression_Claims:
    contracts/schema.go and expression.go, kernel/expression (C38, C39).
  \<^item> Workflow_Graph, Graph_Props, Schema_Defaults, Workflow_Compile, Workflow_Props, Workflow_Claims: contracts/workflow.go and
    kernel/workflow/compile.go, from the dependency graph and its topological order to the sealed plan; a compiled
    plan schedules every node after its predecessors and every reference is dominated by the node it reads (C26, C40).
  \<^item> Workflow_Resolve, Resolve_Props, Resolve_Claims: kernel/workflow/resolve.go, which evaluates the bindings of
    a node, a child action or a result into one object (C19).
  \<^item> Action_Admission, Action_Props, Action_Claims: contracts/action.go and kernel/action/admission.go, Admit with presets,
    overrides and field provenance (C16). Ingress_Policy: kernel/ingress/policy.go.
  \<^item> Node_Protocol, Node_Claims: contracts/node.go, kernel/node (protocol.go, registry.go) and the interface of sdk/go/node (C25).
  \<^item> Durable_Worker, Worker_Claims: durable/worker/worker.go over a port of the store. The laws the worker relies on
    are the locale intent_store; its interpretation on the operations of Durable_Store gives C10.
  \<^item> Action_Catalog, Catalog_Claims: catalog/actioncatalog/catalog.go over Durable_Store: installing, reading and
    listing exact action versions (C18).
  \<^item> Controller_Routing, Routing_Claims: of the package controller the snapshot of a run, routing.go, and the checks of snapshots and
    pins in controller.go. Together with the compiler: a run over a compiled plan is never blocked, ready nodes find the
    outputs they refer to, and every snapshot written can be read back (C22, C31); retry delays double up to a bound of a day.

  \<^bold>\<open>Correspondence of data.\<close> A struct is a record with the field names of the source behind a short
  prefix (recursive structs are datatypes with selectors); a string enumeration is a datatype with one
  more constructor for every other string, so that invalid values exist; a pointer is an option;
  uint32 and uint64 are words that wrap; int is an integer; a string is its list of bytes. A Go map is an association list with distinct keys;
  a loop over a map visits the entries in the order of the list, one of the orders the
  runtime may choose, and where several entries may fail the model reports one error for all.
  Instants are integers in UTC. A nil map and an empty map are both the empty list (Go digests them differently, as
  null and as an empty object). The exponent arithmetic of normalizeNumber is on unbounded integers, which the limit on
  exponents keeps within the range of int. Deep copies are the identity, except filestore's cloneMap, which passes numbers through
  float64 and is modelled with that conversion as a parameter. Validators return an optional error and run their
  checks in source order; operations return a result. A run-time panic is the error Panic.

  \<^bold>\<open>Fuel and termination.\<close> All definitions are total. The JSON decoders recurse on fuel 2 * length + 2: every
  step consumes a byte or closes a container, and C4 shows that this always suffices. The checker and the
  evaluator recurse on the expression. The loops of the compiler over the graph have measures of their own. The loop of the catalogue over
  batches has fuel one more than the number of aggregates, which C18 shows to be enough: every batch but the last moves the cursor forward.

  \<^bold>\<open>Histories.\<close> The reachable states of an aggregate are those that accepted commands produce from
  its creation (one inductive predicate or fold per aggregate); the invariants and the
  safety theorems hold along every such history. The histories of the store (the inductive predicates lives and serves) interleave requests,
  outcomes of the write system calls and restarts: an append may succeed, fail before
  or after the bytes are on disk, or leave a prefix of the frame, and a restart reads what the disk
  then holds. Rename, lock and namespace checks appear only through their outcome.

  \<^bold>\<open>Parameters.\<close> Functions stand for code outside of the sources: the float64
  conversion of cloneMap, the encoder of checkpoints and its strict decoder, the decoding of stored payloads by reflection in
  the catalogue, the handlers of the worker, the executors of node packages, and the order in which Admit visits maps.
  The executors are functions of their request, so one that changes the maps of the request is not represented; the
  catalogue is listed in one state of the store, without installations between its batches.

  \<^bold>\<open>Conditions of the store theorems.\<close> C34 and C37 hold for every encoder and decoder. C32 starts from any file and
  needs of the requests that float64 keeps the value of the numbers in new payloads, that no retry is scheduled for the
  zero time and that no intent is at the last revision. C35 says for every decoder which checkpoints the file holds after a
  request; that recovery finds the old or the new state needs that the checkpoints of these states are read back, which the
  depth and node limits of the strict decoder do not guarantee, since no write checks them. C33 and C36 are about
  lives in which written checkpoints are decoded to the state they were made from and payloads keep their digest when cloned.
  C10 assumes that handlers leave the intents of the store alone. The witnesses instantiate all parameters.

  \<^bold>\<open>Not modelled.\<close> The rest of the controller is glue: it loads aggregates, calls the reducers, the store
  and the providers, and its own state is that of the store; the active-owner record of contracts/admission.go belongs to it.
  The providers are operating system processes and system calls; conformance is a harness for tests. UnmarshalStrict
  works by reflection on Go types and is a parameter where its result matters; the system calls of the file
  store are replaced by their outcome.
\<close>

end
